(* ===== verification/FF_Prelude.thy ===== *)
theory FF_Prelude
  imports Main
begin

text \<open>
  The result type of the model, the checked arithmetic of C++ \<open>int\<close>, and the generic lemmas the
  components share.

  A C++ function that may stop is a function into \<open>'a res\<close>. Its \<open>Inl\<close> values are the ways the
  code stops: a failed \<open>ASSERT\<close>, a \<open>std::out_of_range\<close> from \<open>.at()\<close>, a \<open>PANIC\<close>, a
  \<open>NOT_IMPLEMENTED()\<close>, a \<open>throw\<close>, or undefined behaviour (signed overflow). A function whose C++
  type is \<open>tl::expected\<close> returns \<open>Inl (Unexpected r)\<close> where the code returns
  \<open>tl::unexpected\<close>; \<open>r\<close> says which of the code's messages it is, the text itself is not
  modelled. \<open>throw_if_unexpected\<close> turns such a value into a panic.
\<close>

section \<open>Results\<close>

datatype reason =
    Wrong_num_dims
  | Wrong_datatype
  | Unsupported_aggr
  | No_gamma_weights
  | No_beta_weights
  | Sum_degree_not_one
  | Discard_copy_degree_not_one
  | Shard_degree_not_one
  | Axis_out_of_bounds
  | Not_broadcastable
  | Not_divisible
  | Disagree_sequence_length
  | Disagree_batch_size
  | Disagree_datatype
  | Disagree_batch_degree
  | Disagree_discard_copy_degree
  | Unparallel_parse_failed reason
  | Pool_max_with_sum_degree
  | Pool_activation_with_sum_degree
  | Unexpected_output_shape
  | Unexpected_initializer

datatype fault =
    Assertion_failed
  | Out_of_range
  | Signed_overflow
  | Division_by_zero
  | Not_implemented
  | Panicked
  | Panicked_with reason
  | Runtime_error
  | Bad_optional_access
  | Bad_variant_access
  | Unexpected reason

type_synonym 'a res = "fault + 'a"

definition res_bind :: "'a res \<Rightarrow> ('a \<Rightarrow> 'b res) \<Rightarrow> 'b res" where
  "res_bind m f = (case m of Inl e \<Rightarrow> Inl e | Inr x \<Rightarrow> f x)"

text \<open>\<open>ASSERT(b)\<close>, and in general a check that stops with a given fault.\<close>

definition require :: "bool \<Rightarrow> fault \<Rightarrow> unit res" where
  "require b e = (if b then Inr () else Inl e)"

abbreviation ASSERT :: "bool \<Rightarrow> unit res" where
  "ASSERT b \<equiv> require b Assertion_failed"

fun throw_if_unexpected :: "'a res \<Rightarrow> 'a res" where
  "throw_if_unexpected (Inl (Unexpected r)) = Inl (Panicked_with r)"
| "throw_if_unexpected m = m"

text \<open>A loop that applies a fallible function to the elements of a vector, in order.\<close>

fun res_map :: "('a \<Rightarrow> 'b res) \<Rightarrow> 'a list \<Rightarrow> 'b list res" where
  "res_map f [] = Inr []"
| "res_map f (x # xs) =
     res_bind (f x) (\<lambda>y. res_bind (res_map f xs) (\<lambda>ys. Inr (y # ys)))"

text \<open>\<open>all_of\<close> with a predicate that may stop: it leaves at the first \<open>false\<close>.\<close>

fun res_all_of :: "('a \<Rightarrow> bool res) \<Rightarrow> 'a list \<Rightarrow> bool res" where
  "res_all_of p [] = Inr True"
| "res_all_of p (x # xs) = res_bind (p x) (\<lambda>b. if b then res_all_of p xs else Inr False)"

fun res_any_of :: "('a \<Rightarrow> bool res) \<Rightarrow> 'a list \<Rightarrow> bool res" where
  "res_any_of p [] = Inr False"
| "res_any_of p (x # xs) = res_bind (p x) (\<lambda>b. if b then Inr True else res_any_of p xs)"

text \<open>A check that returns \<open>std::optional<std::string>\<close>, and the caller that returns its message.\<close>

definition unexpected_if :: "reason option \<Rightarrow> unit res" where
  "unexpected_if maybe_err_msg = (case maybe_err_msg of None \<Rightarrow> Inr () | Some r \<Rightarrow> Inl (Unexpected r))"

lemma res_bind_simps [simp]:
  "res_bind (Inl e) f = Inl e"
  "res_bind (Inr x) f = f x"
  by (simp_all add: res_bind_def)

lemma res_bind_eq_Inr [simp]:
  "res_bind m f = Inr y \<longleftrightarrow> (\<exists>x. m = Inr x \<and> f x = Inr y)"
  by (cases m) auto

lemma res_bind_eq_Inl:
  "res_bind m f = Inl e \<longleftrightarrow> m = Inl e \<or> (\<exists>x. m = Inr x \<and> f x = Inl e)"
  by (cases m) auto

lemma res_bind_assoc: "res_bind (res_bind m f) g = res_bind m (\<lambda>x. res_bind (f x) g)"
  by (cases m) auto

lemma res_bind_Inr_right [simp]: "res_bind m Inr = m"
  by (cases m) auto

lemma require_simps [simp]:
  "require True e = Inr ()"
  "require False e = Inl e"
  by (simp_all add: require_def)

lemma res_bind_require: "res_bind (require b e) f = (if b then f () else Inl e)"
  by (simp add: require_def)

lemma require_eq_Inr [simp]: "require b e = Inr u \<longleftrightarrow> b"
  by (cases b) (simp_all add: require_def)

lemma require_eq_Inl [simp]: "require b e = Inl e' \<longleftrightarrow> \<not> b \<and> e' = e"
  by (auto simp: require_def)

lemma throw_if_unexpected_eq_Inr [simp]: "throw_if_unexpected m = Inr x \<longleftrightarrow> m = Inr x"
  by (cases m rule: throw_if_unexpected.cases) auto

lemma throw_if_unexpected_Inr [simp]: "throw_if_unexpected (Inr x) = Inr x"
  by simp

lemma throw_if_unexpected_never_unexpected:
  "throw_if_unexpected m \<noteq> Inl (Unexpected r)"
  by (cases m rule: throw_if_unexpected.cases) auto

lemma res_map_eq_Inr:
  "res_map f xs = Inr ys \<longleftrightarrow> list_all2 (\<lambda>x y. f x = Inr y) xs ys"
  by (induction xs arbitrary: ys) (auto simp: list_all2_Cons1)

lemma res_map_Inr: "res_map (\<lambda>x. Inr (g x)) xs = Inr (map g xs)"
  by (induction xs) auto

lemma res_map_Inr_on:
  "(\<And>x. x \<in> set xs \<Longrightarrow> f x = Inr (g x)) \<Longrightarrow> res_map f xs = Inr (map g xs)"
  by (induction xs) auto

lemma res_map_length: "res_map f xs = Inr ys \<Longrightarrow> length ys = length xs"
  by (auto simp: res_map_eq_Inr dest: list_all2_lengthD)

lemma res_map_nth:
  "res_map f xs = Inr ys \<Longrightarrow> i < length xs \<Longrightarrow> f (xs ! i) = Inr (ys ! i)"
  by (auto simp: res_map_eq_Inr list_all2_conv_all_nth)

lemma res_map_map: "res_map f (map g xs) = res_map (\<lambda>x. f (g x)) xs"
  by (induction xs) auto

lemma res_map_cong [fundef_cong]:
  "xs = ys \<Longrightarrow> (\<And>x. x \<in> set ys \<Longrightarrow> f x = g x) \<Longrightarrow> res_map f xs = res_map g ys"
  by (induction xs arbitrary: ys) auto

lemma res_all_of_Inr:
  "(\<And>x. x \<in> set xs \<Longrightarrow> p x = Inr (q x)) \<Longrightarrow> res_all_of p xs = Inr (\<forall>x \<in> set xs. q x)"
  by (induction xs) auto

lemma res_all_of_True: "res_all_of p xs = Inr True \<longleftrightarrow> (\<forall>x \<in> set xs. p x = Inr True)"
  by (induction xs) auto

lemma res_any_of_False: "res_any_of p xs = Inr False \<longleftrightarrow> (\<forall>x \<in> set xs. p x = Inr False)"
  by (induction xs) auto

lemma unexpected_if_eq_Inr [simp]: "unexpected_if m = Inr u \<longleftrightarrow> m = None"
  by (simp add: unexpected_if_def split: option.splits)

section \<open>C++ int\<close>

text \<open>
  \<open>int\<close> has 32 bits. An \<open>int\<close> expression whose value does not fit is undefined behaviour in
  C++ and the fault \<open>Signed_overflow\<close> here. Division truncates towards zero.
\<close>

definition INT_MAX :: nat where
  "INT_MAX = 2147483647"

definition cint :: "int \<Rightarrow> int res" where
  "cint x = (if - 2147483648 \<le> x \<and> x \<le> int INT_MAX then Inr x else Inl Signed_overflow)"

definition cint_div :: "int \<Rightarrow> int \<Rightarrow> int res" where
  "cint_div a b =
     (if b = 0 then Inl Division_by_zero else cint (sgn a * sgn b * (\<bar>a\<bar> div \<bar>b\<bar>)))"

lemma int_INT_MAX [simp]: "int INT_MAX = 2147483647"
  by (simp add: INT_MAX_def)

text \<open>Evaluation compares in binary.\<close>

lemma cint_code [code]:
  "cint x = (if - 2147483648 \<le> x \<and> x \<le> 2147483647 then Inr x else Inl Signed_overflow)"
  by (simp add: cint_def)

lemma cint_eq_Inr:
  "cint x = Inr y \<longleftrightarrow> y = x \<and> - 2147483648 \<le> x \<and> x \<le> 2147483647"
  by (auto simp: cint_def)

lemma cint_of_nat [simp]: "cint (int n) = Inr y \<longleftrightarrow> y = int n \<and> n \<le> INT_MAX"
  by (auto simp: cint_def INT_MAX_def)

lemma cint_small [simp]:
  "- 2147483648 \<le> x \<Longrightarrow> x \<le> 2147483647 \<Longrightarrow> cint x = Inr x"
  by (simp add: cint_def)

lemma INT_MAX_ge: "n \<le> 2147483647 \<Longrightarrow> n \<le> INT_MAX"
  by (simp add: INT_MAX_def)

lemma cint_div_nonneg:
  "0 \<le> a \<Longrightarrow> 0 < b \<Longrightarrow> cint_div a b = cint (a div b)"
  by (cases "a = 0") (simp_all add: cint_div_def sgn_if)

section \<open>Lists and maps\<close>

lemma prod_list_pos: "\<forall>x \<in> set xs. 0 < x \<Longrightarrow> 0 < prod_list (xs :: nat list)"
  by (induction xs) auto

lemma prod_list_elem_le:
  "\<forall>x \<in> set xs. 0 < x \<Longrightarrow> x \<in> set xs \<Longrightarrow> x \<le> prod_list (xs :: nat list)"
proof (induction xs)
  case Nil
  then show ?case by simp
next
  case (Cons a xs)
  then have "0 < prod_list xs" by (auto intro: prod_list_pos)
  with Cons show ?case
    by (auto simp: Suc_le_eq intro: order.trans [OF _ mult_le_mono1 [of 1 a "prod_list xs"]])
qed

lemma list_snoc_cases:
  assumes "xs \<noteq> []"
  obtains ys y where "xs = ys @ [y]"
  using assms by (metis append_butlast_last_id)

lemma length_4_conv:
  "length xs = 4 \<longleftrightarrow> (\<exists>a b c d. xs = [a, b, c, d])"
  by (auto simp: numeral_eq_Suc length_Suc_conv)

lemma length_3_conv:
  "length xs = 3 \<longleftrightarrow> (\<exists>a b c. xs = [a, b, c])"
  by (auto simp: numeral_eq_Suc length_Suc_conv)

end
