(* ===== verification/FF_Ints.thy ===== *)
theory FF_Ints
  imports FF_Prelude
begin

text \<open>
  The wrappers \<open>nonnegative_int\<close>, \<open>positive_int\<close> and \<open>int_ge_two\<close> of
  \<open>lib/utils\<close>. A wrapped value is a \<open>nat\<close>; what the class invariant adds is the predicate
  \<open>valid_nonneg\<close>, \<open>valid_pos\<close> or \<open>valid_ge_two\<close>. Each operation computes on C++ \<open>int\<close>, where a
  result that does not fit is undefined behaviour, and then runs the constructor, which checks
  the invariant.
\<close>

type_synonym nonnegative_int = nat
type_synonym positive_int = nat
type_synonym int_ge_two = nat

definition valid_nonneg :: "nonnegative_int \<Rightarrow> bool" where
  "valid_nonneg n \<longleftrightarrow> n \<le> INT_MAX"

definition valid_pos :: "positive_int \<Rightarrow> bool" where
  "valid_pos n \<longleftrightarrow> 0 < n \<and> n \<le> INT_MAX"

definition valid_ge_two :: "int_ge_two \<Rightarrow> bool" where
  "valid_ge_two n \<longleftrightarrow> 2 \<le> n \<and> n \<le> INT_MAX"

section \<open>Constructors\<close>

definition mk_nonnegative_int :: "int \<Rightarrow> nonnegative_int res" where
  "mk_nonnegative_int v = res_bind (ASSERT (0 \<le> v)) (\<lambda>_. Inr (nat v))"

definition nonnegative_int_from_size :: "nat \<Rightarrow> nonnegative_int res" where
  "nonnegative_int_from_size n = res_bind (ASSERT (n \<le> INT_MAX)) (\<lambda>_. Inr n)"

definition mk_positive_int :: "int \<Rightarrow> positive_int res" where
  "mk_positive_int v = res_bind (ASSERT (0 < v)) (\<lambda>_. Inr (nat v))"

definition positive_int_from_nonnegative :: "nonnegative_int \<Rightarrow> positive_int res" where
  "positive_int_from_nonnegative n = mk_positive_int (int n)"

definition mk_int_ge_two :: "int \<Rightarrow> int_ge_two res" where
  "mk_int_ge_two v = res_bind (ASSERT (2 \<le> v)) (\<lambda>_. Inr (nat v))"

section \<open>Arithmetic\<close>

definition nonnegative_int_add :: "nonnegative_int \<Rightarrow> nonnegative_int \<Rightarrow> nonnegative_int res" where
  "nonnegative_int_add a b = res_bind (cint (int a + int b)) mk_nonnegative_int"

definition nonnegative_int_mul :: "nonnegative_int \<Rightarrow> nonnegative_int \<Rightarrow> nonnegative_int res" where
  "nonnegative_int_mul a b = res_bind (cint (int a * int b)) mk_nonnegative_int"

definition positive_int_add :: "positive_int \<Rightarrow> positive_int \<Rightarrow> positive_int res" where
  "positive_int_add a b = res_bind (cint (int a + int b)) mk_positive_int"

definition positive_int_mul :: "positive_int \<Rightarrow> positive_int \<Rightarrow> positive_int res" where
  "positive_int_mul a b = res_bind (cint (int a * int b)) mk_positive_int"

definition positive_int_div :: "positive_int \<Rightarrow> positive_int \<Rightarrow> nonnegative_int res" where
  "positive_int_div a b = res_bind (cint_div (int a) (int b)) mk_nonnegative_int"

definition positive_int_mod :: "positive_int \<Rightarrow> positive_int \<Rightarrow> nonnegative_int res" where
  "positive_int_mod a b =
     (if b = 0 then Inl Division_by_zero else mk_nonnegative_int (int a mod int b))"

text \<open>
  \<open>utils/containers/product.h\<close> and \<open>sum.h\<close> on a container of \<open>positive_int\<close>: the product of
  an empty container is 1, its sum does not exist, since \<open>Element{0}\<close> fails the invariant.
\<close>

fun product_from :: "positive_int \<Rightarrow> positive_int list \<Rightarrow> positive_int res" where
  "product_from acc [] = Inr acc"
| "product_from acc (x # xs) = res_bind (positive_int_mul acc x) (\<lambda>r. product_from r xs)"

definition product :: "positive_int list \<Rightarrow> positive_int res" where
  "product xs = product_from 1 xs"

fun sum_from :: "positive_int \<Rightarrow> positive_int list \<Rightarrow> positive_int res" where
  "sum_from acc [] = Inr acc"
| "sum_from acc (x # xs) = res_bind (positive_int_add acc x) (\<lambda>r. sum_from r xs)"

definition sum_positive :: "positive_int list \<Rightarrow> positive_int res" where
  "sum_positive xs = (case xs of [] \<Rightarrow> mk_positive_int 0 | y # ys \<Rightarrow> sum_from y ys)"

section \<open>What the operations compute\<close>

named_theorems int_ops \<open>each checked operation as a condition on natural numbers\<close>

lemma mk_nonnegative_int_eq [int_ops]: "mk_nonnegative_int v = Inr n \<longleftrightarrow> v = int n"
  by (auto simp: mk_nonnegative_int_def)

lemma nonnegative_int_from_size_eq [int_ops]:
  "nonnegative_int_from_size n = Inr m \<longleftrightarrow> m = n \<and> n \<le> INT_MAX"
  by (auto simp: nonnegative_int_from_size_def)

lemma nonnegative_int_from_size_code [code]:
  "nonnegative_int_from_size n =
     (if int n \<le> 2147483647 then Inr n else Inl Assertion_failed)"
  by (simp add: nonnegative_int_from_size_def INT_MAX_def)

lemma mk_positive_int_eq [int_ops]: "mk_positive_int v = Inr n \<longleftrightarrow> v = int n \<and> 0 < n"
  by (auto simp: mk_positive_int_def)

lemma positive_int_from_nonnegative_eq [int_ops]:
  "positive_int_from_nonnegative n = Inr m \<longleftrightarrow> m = n \<and> 0 < n"
  by (auto simp: positive_int_from_nonnegative_def int_ops)

lemma nonnegative_int_add_eq [int_ops]:
  "nonnegative_int_add a b = Inr c \<longleftrightarrow> c = a + b \<and> a + b \<le> INT_MAX"
  by (auto simp: nonnegative_int_add_def int_ops simp flip: of_nat_add)

lemma nonnegative_int_mul_eq [int_ops]:
  "nonnegative_int_mul a b = Inr c \<longleftrightarrow> c = a * b \<and> a * b \<le> INT_MAX"
  by (auto simp: nonnegative_int_mul_def int_ops simp flip: of_nat_mult)

lemma positive_int_add_eq [int_ops]:
  "positive_int_add a b = Inr c \<longleftrightarrow> c = a + b \<and> 0 < a + b \<and> a + b \<le> INT_MAX"
  by (auto simp: positive_int_add_def int_ops simp flip: of_nat_add)

lemma positive_int_mul_eq [int_ops]:
  "positive_int_mul a b = Inr c \<longleftrightarrow> c = a * b \<and> 0 < a * b \<and> a * b \<le> INT_MAX"
  by (auto simp: positive_int_mul_def int_ops simp flip: of_nat_mult)

lemma cint_div_of_nat: "0 < b \<Longrightarrow> cint_div (int a) (int b) = cint (int (a div b))"
  by (simp add: cint_div_nonneg zdiv_int)

lemma positive_int_div_eq [int_ops]:
  "positive_int_div a b = Inr c \<longleftrightarrow> 0 < b \<and> c = a div b \<and> a div b \<le> INT_MAX"
proof (cases "b = 0")
  case True
  then show ?thesis by (simp add: positive_int_div_def cint_div_def)
next
  case False
  then show ?thesis by (auto simp: positive_int_div_def cint_div_of_nat int_ops)
qed

lemma positive_int_mod_eq [int_ops]:
  "positive_int_mod a b = Inr c \<longleftrightarrow> 0 < b \<and> c = a mod b"
  by (auto simp: positive_int_mod_def int_ops simp flip: zmod_int)

lemma prod_list_step:
  "\<forall>y \<in> set ys. 0 < y \<Longrightarrow> a \<le> a * prod_list (ys :: nat list)"
  using prod_list_pos [of ys] by (cases "prod_list ys") auto

lemma product_from_eq:
  "0 < acc \<Longrightarrow> acc \<le> INT_MAX \<Longrightarrow>
     product_from acc xs = Inr p \<longleftrightarrow>
       (\<forall>x \<in> set xs. 0 < x) \<and> p = acc * prod_list xs \<and> acc * prod_list xs \<le> INT_MAX"
proof (induction xs arbitrary: acc)
  case Nil
  then show ?case by auto
next
  case (Cons x xs)
  have step: "product_from acc (x # xs) = Inr p \<longleftrightarrow>
      0 < x \<and> acc * x \<le> INT_MAX \<and> product_from (acc * x) xs = Inr p"
    using Cons.prems by (simp add: positive_int_mul_eq)
  show ?case
  proof (cases "0 < x \<and> acc * x \<le> INT_MAX")
    case True
    with Cons.prems Cons.IH [of "acc * x"] show ?thesis
      unfolding step by (simp add: mult.assoc)
  next
    case False
    then have "\<not> acc * x * prod_list xs \<le> INT_MAX" if "0 < x" "\<forall>y \<in> set xs. 0 < y"
      using that prod_list_step [of xs "acc * x"] by linarith
    with False show ?thesis
      unfolding step by (auto simp: mult.assoc)
  qed
qed

lemma product_eq [int_ops]:
  "product xs = Inr p \<longleftrightarrow> (\<forall>x \<in> set xs. 0 < x) \<and> p = prod_list xs \<and> prod_list xs \<le> INT_MAX"
  using product_from_eq [of 1 xs p] by (simp add: product_def INT_MAX_def)

lemma sum_from_eq:
  "0 < acc \<Longrightarrow> acc \<le> INT_MAX \<Longrightarrow>
     sum_from acc xs = Inr s \<longleftrightarrow> s = acc + sum_list xs \<and> acc + sum_list xs \<le> INT_MAX"
proof (induction xs arbitrary: acc)
  case Nil
  then show ?case by auto
next
  case (Cons x xs)
  then show ?case
    by (cases "acc + x \<le> INT_MAX") (auto simp: int_ops add.assoc)
qed

lemma sum_positive_eq [int_ops]:
  "\<forall>x \<in> set xs. valid_pos x \<Longrightarrow>
     sum_positive xs = Inr s \<longleftrightarrow> xs \<noteq> [] \<and> s = sum_list xs \<and> sum_list xs \<le> INT_MAX"
  by (auto simp: sum_positive_def sum_from_eq valid_pos_def mk_positive_int_def split: list.splits)

text \<open>Every result of an operation satisfies the invariant of its class.\<close>

lemma valid_pos_mul: "positive_int_mul a b = Inr c \<Longrightarrow> valid_pos c"
  by (auto simp: int_ops valid_pos_def)

lemma valid_pos_add: "positive_int_add a b = Inr c \<Longrightarrow> valid_pos c"
  by (auto simp: int_ops valid_pos_def)

lemma valid_pos_product: "product xs = Inr p \<Longrightarrow> valid_pos p"
  by (auto simp: int_ops valid_pos_def intro: prod_list_pos)

lemma valid_pos_1 [simp]: "valid_pos (Suc 0)"
  by (simp add: valid_pos_def INT_MAX_def)

lemma valid_posD: "valid_pos n \<Longrightarrow> 0 < n" "valid_pos n \<Longrightarrow> n \<le> INT_MAX"
  by (simp_all add: valid_pos_def)

lemma positive_int_mul_commute: "positive_int_mul a b = positive_int_mul b a"
  by (simp add: positive_int_mul_def mult.commute)

lemma product_pair: "valid_pos a \<Longrightarrow> product [a, b] = positive_int_mul a b"
  by (simp add: product_def valid_pos_def positive_int_mul_def mk_positive_int_def INT_MAX_def)

lemma product_all_one: "\<forall>x \<in> set xs. x = Suc 0 \<Longrightarrow> prod_list xs = Suc 0"
  by (induction xs) auto

lemma product_eq_one: "product xs = Inr (Suc 0) \<longleftrightarrow> (\<forall>x \<in> set xs. x = Suc 0)"
proof -
  have "prod_list xs = Suc 0 \<longleftrightarrow> (\<forall>x \<in> set xs. x = Suc 0)"
    by (induction xs) auto
  then show ?thesis by (auto simp: int_ops INT_MAX_def)
qed

end
