(* ===== verification/FF_Containers.thy ===== *)
theory FF_Containers
  imports FF_Ints
begin

text \<open>
  The helpers of \<open>lib/utils/include/utils/containers\<close> that shape inference uses, and
  \<open>FFOrdered\<close> of \<open>lib/op-attrs/include/op-attrs/ff_ordered\<close>. A \<open>std::vector\<close> and an
  \<open>FFOrdered\<close> are lists, a \<open>std::map\<close> is a HOL map. A struct with one field, such as
  \<open>ff_dim_t\<close> or \<open>relative_ff_dim_t\<close>, is its field.
\<close>

type_synonym ff_dim_t = nonnegative_int
type_synonym relative_ff_dim_t = int
type_synonym 'a ff_ordered = "'a list"

section \<open>Vectors\<close>

text \<open>\<open>v.at(i)\<close> of \<open>std::vector\<close>, whose argument is converted to \<open>size_t\<close>.\<close>

definition vector_at :: "'a list \<Rightarrow> int \<Rightarrow> 'a res" where
  "vector_at xs i = (if 0 \<le> i \<and> nat i < length xs then Inr (xs ! nat i) else Inl Out_of_range)"

text \<open>\<open>resolve_loc\<close> of \<open>slice\<close> and \<open>slice_inclusive\<close>; they differ in the upper bound.\<close>

definition slice_resolve_loc :: "nat \<Rightarrow> int \<Rightarrow> nat res" where
  "slice_resolve_loc n idx =
     (let new_idx = (if idx < 0 then int n + idx else idx) in
      res_bind (ASSERT (0 \<le> new_idx)) (\<lambda>_.
      res_bind (ASSERT (new_idx \<le> int n)) (\<lambda>_.
      Inr (nat new_idx))))"

definition slice :: "'a list \<Rightarrow> int \<Rightarrow> int option \<Rightarrow> 'a list res" where
  "slice v maybe_start maybe_end =
     res_bind (slice_resolve_loc (length v) maybe_start) (\<lambda>b.
     res_bind (case maybe_end of None \<Rightarrow> Inr (length v)
               | Some e \<Rightarrow> slice_resolve_loc (length v) e) (\<lambda>e.
     if e \<le> b then Inr [] else Inr (take (e - b) (drop b v))))"

definition slice_inclusive_resolve_loc :: "nat \<Rightarrow> int \<Rightarrow> nat res" where
  "slice_inclusive_resolve_loc n idx =
     (let new_idx = (if idx < 0 then int n + idx else idx) in
      res_bind (ASSERT (0 \<le> new_idx)) (\<lambda>_.
      res_bind (ASSERT (new_idx < int n)) (\<lambda>_.
      Inr (nat new_idx))))"

definition slice_inclusive :: "'a list \<Rightarrow> int \<Rightarrow> int option \<Rightarrow> 'a list res" where
  "slice_inclusive v maybe_start maybe_end =
     res_bind (slice_inclusive_resolve_loc (length v) maybe_start) (\<lambda>b.
     res_bind (case maybe_end of None \<Rightarrow> Inr (length v)
               | Some e \<Rightarrow> res_bind (slice_inclusive_resolve_loc (length v) e) (\<lambda>i. Inr (i + 1))) (\<lambda>e.
     if e \<le> b then Inr [] else Inr (take (e - b) (drop b v))))"

definition zip_strict :: "'a list \<Rightarrow> 'b list \<Rightarrow> ('a \<times> 'b) list res" where
  "zip_strict lhs rhs = res_bind (ASSERT (length lhs = length rhs)) (\<lambda>_. Inr (zip lhs rhs))"

definition zip_with_strict :: "('a \<Rightarrow> 'b \<Rightarrow> 'c) \<Rightarrow> 'a list \<Rightarrow> 'b list \<Rightarrow> 'c list res" where
  "zip_with_strict f lhs rhs =
     res_bind (ASSERT (length lhs = length rhs)) (\<lambda>_. Inr (map2 f lhs rhs))"

definition repeat_element :: "nonnegative_int \<Rightarrow> 'a \<Rightarrow> 'a list" where
  "repeat_element num_times element = map (\<lambda>_. element) [0..<num_times]"

definition require_same :: "'a \<Rightarrow> 'a \<Rightarrow> 'a res" where
  "require_same l r = res_bind (ASSERT (l = r)) (\<lambda>_. Inr l)"

definition require_all_same1 :: "'a list \<Rightarrow> 'a res" where
  "require_all_same1 c =
     (case c of [] \<Rightarrow> Inl Assertion_failed
      | first # _ \<Rightarrow> res_bind (ASSERT (\<forall>v \<in> set c. v = first)) (\<lambda>_. Inr first))"

definition num_elements :: "'a list \<Rightarrow> nonnegative_int res" where
  "num_elements t = nonnegative_int_from_size (length t)"

section \<open>Maps\<close>

definition map_at :: "('k \<rightharpoonup> 'v) \<Rightarrow> 'k \<Rightarrow> 'v res" where
  "map_at m k = (case m k of None \<Rightarrow> Inl Out_of_range | Some v \<Rightarrow> Inr v)"

definition require_only_key :: "('k \<rightharpoonup> 'v) \<Rightarrow> 'k \<Rightarrow> 'v res" where
  "require_only_key m k =
     res_bind (ASSERT (card (dom m) = 1)) (\<lambda>_.
     res_bind (ASSERT (k \<in> dom m)) (\<lambda>_.
     map_at m k))"

definition require_two_keys :: "('k \<rightharpoonup> 'v) \<Rightarrow> 'k \<Rightarrow> 'k \<Rightarrow> ('v \<times> 'v) res" where
  "require_two_keys m k1 k2 =
     res_bind (ASSERT (k1 \<noteq> k2)) (\<lambda>_.
     res_bind (ASSERT (card (dom m) = 2)) (\<lambda>_.
     res_bind (map_at m k1) (\<lambda>v1.
     res_bind (map_at m k2) (\<lambda>v2.
     Inr (v1, v2)))))"

text \<open>
  \<open>map_from_pairs\<close> inserts the pairs in order and \<open>insert\<close> keeps an existing entry, so the
  first pair of a key wins.
\<close>

definition map_from_pairs :: "('k \<times> 'v) list \<Rightarrow> ('k \<rightharpoonup> 'v)" where
  "map_from_pairs ps = map_of ps"

section \<open>FFOrdered\<close>

definition ff_ordered_at :: "'a ff_ordered \<Rightarrow> ff_dim_t \<Rightarrow> 'a res" where
  "ff_ordered_at xs idx = vector_at xs (int idx)"

definition ff_ordered_at_rel :: "'a ff_ordered \<Rightarrow> relative_ff_dim_t \<Rightarrow> 'a res" where
  "ff_ordered_at_rel xs idx =
     vector_at xs (if idx < 0 then int (length xs) + idx else idx)"

definition idx_is_valid :: "'a ff_ordered \<Rightarrow> ff_dim_t \<Rightarrow> bool" where
  "idx_is_valid xs idx \<longleftrightarrow> idx < length xs"

definition idx_is_valid_rel :: "'a ff_ordered \<Rightarrow> relative_ff_dim_t \<Rightarrow> bool" where
  "idx_is_valid_rel xs idx \<longleftrightarrow>
     (let raw = (if idx < 0 then int (length xs) + idx else idx)
      in 0 \<le> raw \<and> raw < int (length xs))"

text \<open>Writing through the references that the non-const \<open>at\<close> overloads return.\<close>

definition ff_ordered_set :: "'a ff_ordered \<Rightarrow> ff_dim_t \<Rightarrow> 'a \<Rightarrow> 'a ff_ordered res" where
  "ff_ordered_set xs idx x = (if idx < length xs then Inr (xs[idx := x]) else Inl Out_of_range)"

definition ff_ordered_set_rel ::
    "'a ff_ordered \<Rightarrow> relative_ff_dim_t \<Rightarrow> 'a \<Rightarrow> 'a ff_ordered res" where
  "ff_ordered_set_rel xs idx x =
     (let raw = (if idx < 0 then int (length xs) + idx else idx)
      in if 0 \<le> raw \<and> nat raw < length xs then Inr (xs[nat raw := x]) else Inl Out_of_range)"

definition ff_ordered_slice :: "'a ff_ordered \<Rightarrow> ff_dim_t \<Rightarrow> ff_dim_t option \<Rightarrow> 'a ff_ordered res" where
  "ff_ordered_slice d start stop = slice d (int start) (map_option int stop)"

definition ff_ordered_slice_rel ::
    "'a ff_ordered \<Rightarrow> relative_ff_dim_t \<Rightarrow> relative_ff_dim_t option \<Rightarrow> 'a ff_ordered res" where
  "ff_ordered_slice_rel d start stop = slice d start stop"

definition ff_ordered_slice_inclusive ::
    "'a ff_ordered \<Rightarrow> ff_dim_t \<Rightarrow> ff_dim_t option \<Rightarrow> 'a ff_ordered res" where
  "ff_ordered_slice_inclusive d start stop = slice_inclusive d (int start) (map_option int stop)"

definition ff_ordered_concat :: "'a ff_ordered list \<Rightarrow> 'a ff_ordered" where
  "ff_ordered_concat inputs = concat inputs"

definition ff_ordered_transform :: "('a \<Rightarrow> 'b) \<Rightarrow> 'a ff_ordered \<Rightarrow> 'b ff_ordered" where
  "ff_ordered_transform f d = map f d"

definition ff_ordered_zip_with ::
    "('a \<Rightarrow> 'b \<Rightarrow> 'c) \<Rightarrow> 'a ff_ordered \<Rightarrow> 'b ff_ordered \<Rightarrow> 'c ff_ordered" where
  "ff_ordered_zip_with f lhs rhs = map2 f lhs rhs"

text \<open>\<open>std::set<ff_dim_t>\<close> iterates in increasing order, so the set of indices is this list.\<close>

definition ff_ordered_get_idxs :: "'a ff_ordered \<Rightarrow> ff_dim_t list" where
  "ff_ordered_get_idxs d = [0..<length d]"

definition ff_ordered_enumerate :: "'a ff_ordered \<Rightarrow> (ff_dim_t \<rightharpoonup> 'a)" where
  "ff_ordered_enumerate d = map_of (zip [0..<length d] d)"

definition ff_ordered_from_map :: "(ff_dim_t \<rightharpoonup> 'a) \<Rightarrow> 'a ff_ordered res" where
  "ff_ordered_from_map m = res_map (map_at m) [0..<card (dom m)]"

text \<open>For evaluation, on the list of the entries of the map.\<close>

definition ff_ordered_from_entries :: "(ff_dim_t \<times> 'a) list \<Rightarrow> 'a ff_ordered res" where
  "ff_ordered_from_entries es = res_map (map_at (map_of es)) [0..<length (remdups (map fst es))]"

lemma ff_ordered_from_map_of [code_unfold]:
  "ff_ordered_from_map (map_of es) = ff_ordered_from_entries es"
  by (simp add: ff_ordered_from_map_def ff_ordered_from_entries_def dom_map_of_conv_image_fst
      length_remdups_card_conv)

definition ff_dim_range :: "nonnegative_int \<Rightarrow> ff_dim_t list" where
  "ff_dim_range n = [0..<n]"

definition add_to_ff_dim :: "ff_dim_t \<Rightarrow> int \<Rightarrow> ff_dim_t res" where
  "add_to_ff_dim ff_dim value = res_bind (cint (int ff_dim + value)) mk_nonnegative_int"

definition relative_ff_dim_t_from_ff_dim_t :: "ff_dim_t \<Rightarrow> relative_ff_dim_t" where
  "relative_ff_dim_t_from_ff_dim_t ff_dim = int ff_dim"

section \<open>What the helpers compute\<close>

named_theorems container_ops \<open>the containers' operations as facts about lists and maps\<close>

lemma map_at_eq [simp]: "map_at m k = Inr v \<longleftrightarrow> m k = Some v"
  by (auto simp: map_at_def split: option.splits)

lemma vector_at_nat [simp]:
  "vector_at xs (int i) = (if i < length xs then Inr (xs ! i) else Inl Out_of_range)"
  by (simp add: vector_at_def)

lemma ff_ordered_at_eq [container_ops]:
  "ff_ordered_at xs i = Inr x \<longleftrightarrow> i < length xs \<and> x = xs ! i"
  by (auto simp: ff_ordered_at_def)

lemma ff_ordered_at_rel_nonneg [container_ops]:
  "ff_ordered_at_rel xs (int i) = Inr x \<longleftrightarrow> i < length xs \<and> x = xs ! i"
  by (auto simp: ff_ordered_at_rel_def)

lemma ff_ordered_at_rel_of_ff_dim [container_ops]:
  "ff_ordered_at_rel xs (relative_ff_dim_t_from_ff_dim_t i) = ff_ordered_at xs i"
  by (simp add: relative_ff_dim_t_from_ff_dim_t_def ff_ordered_at_rel_def ff_ordered_at_def)

lemma ff_ordered_at_rel_last [container_ops]:
  "ff_ordered_at_rel xs (- 1) = Inr x \<longleftrightarrow> xs \<noteq> [] \<and> x = last xs"
  by (cases xs) (auto simp: ff_ordered_at_rel_def vector_at_def nat_diff_distrib last_conv_nth)

lemma ff_ordered_set_rel_last [container_ops]:
  "ff_ordered_set_rel xs (- 1) x = Inr ys \<longleftrightarrow> xs \<noteq> [] \<and> ys = butlast xs @ [x]"
proof (cases xs rule: rev_cases)
  case Nil
  then show ?thesis by (simp add: ff_ordered_set_rel_def)
next
  case (snoc zs z)
  then show ?thesis by (auto simp: ff_ordered_set_rel_def)
qed

lemma ff_ordered_set_eq [container_ops]:
  "ff_ordered_set xs i x = Inr ys \<longleftrightarrow> i < length xs \<and> ys = xs[i := x]"
  by (auto simp: ff_ordered_set_def)

lemma ff_ordered_set_rel_of_ff_dim [container_ops]:
  "ff_ordered_set_rel xs (relative_ff_dim_t_from_ff_dim_t i) x = ff_ordered_set xs i x"
  by (simp add: relative_ff_dim_t_from_ff_dim_t_def ff_ordered_set_rel_def ff_ordered_set_def)

lemma slice_resolve_loc_eq:
  "slice_resolve_loc n idx = Inr i \<longleftrightarrow>
     (if idx < 0 then idx + int n = int i else idx = int i) \<and> i \<le> n"
  by (auto simp: slice_resolve_loc_def Let_def)

lemma slice_all_but_last [container_ops]:
  "ff_ordered_slice_rel xs 0 (Some (- 1)) = Inr ys \<longleftrightarrow> xs \<noteq> [] \<and> ys = butlast xs"
proof (cases xs rule: rev_cases)
  case Nil
  then show ?thesis
    by (auto simp: ff_ordered_slice_rel_def slice_def slice_resolve_loc_def)
next
  case (snoc zs z)
  have s: "slice_resolve_loc (Suc (length zs)) 0 = Inr 0"
    "slice_resolve_loc (Suc (length zs)) (- 1) = Inr (length zs)"
    by (simp_all add: slice_resolve_loc_eq)
  from snoc show ?thesis
    by (auto simp: ff_ordered_slice_rel_def slice_def s)
qed

lemma slice_nat_Some:
  "slice xs (int a) (Some (int b)) =
     (if a \<le> length xs \<and> b \<le> length xs then Inr (take (b - a) (drop a xs))
      else Inl Assertion_failed)"
  by (auto simp: slice_def slice_resolve_loc_def res_bind_require)

lemma slice_nat_None:
  "slice xs (int a) None =
     (if a \<le> length xs then Inr (drop a xs) else Inl Assertion_failed)"
  by (auto simp: slice_def slice_resolve_loc_def)

lemma ff_ordered_slice_eq [container_ops]:
  "ff_ordered_slice xs a (Some b) = Inr ys \<longleftrightarrow>
     a \<le> length xs \<and> b \<le> length xs \<and> ys = take (b - a) (drop a xs)"
  "ff_ordered_slice xs a None = Inr ys \<longleftrightarrow> a \<le> length xs \<and> ys = drop a xs"
  by (auto simp: ff_ordered_slice_def slice_nat_Some slice_nat_None)

lemma ff_ordered_slice_inclusive_eq [container_ops]:
  "ff_ordered_slice_inclusive xs a (Some b) = Inr ys \<longleftrightarrow>
     a < length xs \<and> b < length xs \<and> ys = take (Suc b - a) (drop a xs)"
  by (auto simp: ff_ordered_slice_inclusive_def slice_inclusive_def
      slice_inclusive_resolve_loc_def)

lemma zip_strict_eq [container_ops]:
  "zip_strict xs ys = Inr zs \<longleftrightarrow> length xs = length ys \<and> zs = zip xs ys"
  by (auto simp: zip_strict_def)

lemma zip_with_strict_eq [container_ops]:
  "zip_with_strict f xs ys = Inr zs \<longleftrightarrow> length xs = length ys \<and> zs = map2 f xs ys"
  by (auto simp: zip_with_strict_def)

lemma length_repeat_element [simp]: "length (repeat_element n x) = n"
  by (simp add: repeat_element_def)

lemma repeat_element_eq_replicate: "repeat_element n x = replicate n x"
  by (simp add: repeat_element_def map_replicate_trivial)

lemma require_same_eq [container_ops]: "require_same l r = Inr x \<longleftrightarrow> l = r \<and> x = l"
  by (auto simp: require_same_def)

lemma require_all_same1_eq [container_ops]:
  "require_all_same1 c = Inr x \<longleftrightarrow> c \<noteq> [] \<and> (\<forall>v \<in> set c. v = x)"
  by (auto simp: require_all_same1_def split: list.splits)

lemma require_only_key_eq [container_ops]:
  "require_only_key m k = Inr v \<longleftrightarrow> m = [k \<mapsto> v]"
proof
  assume "require_only_key m k = Inr v"
  then have c: "card (dom m) = 1" and v: "m k = Some v"
    by (auto simp: require_only_key_def)
  from c obtain k' where "dom m = {k'}" by (auto simp: card_1_singleton_iff)
  with v have "dom m = {k}" by (metis domI singletonD)
  with v show "m = [k \<mapsto> v]" by (auto simp: fun_eq_iff domIff)
qed (simp add: require_only_key_def)

lemma require_two_keys_eq [container_ops]:
  "require_two_keys m k1 k2 = Inr (v1, v2) \<longleftrightarrow> k1 \<noteq> k2 \<and> m = [k1 \<mapsto> v1, k2 \<mapsto> v2]"
proof
  assume "require_two_keys m k1 k2 = Inr (v1, v2)"
  then have c: "card (dom m) = 2" and v: "k1 \<noteq> k2" "m k1 = Some v1" "m k2 = Some v2"
    by (auto simp: require_two_keys_def)
  moreover have "finite (dom m)" using c card.infinite by fastforce
  ultimately have "dom m = {k1, k2}"
    by (metis (no_types) card_2_iff card_subset_eq domI empty_subsetI insert_subset)
  with v show "k1 \<noteq> k2 \<and> m = [k1 \<mapsto> v1, k2 \<mapsto> v2]" by (auto simp: fun_eq_iff domIff)
qed (auto simp: require_two_keys_def)

lemma map_option_sum_map_at:
  "map_at (map_option f \<circ> m) k = res_bind (map_at m k) (\<lambda>v. Inr (f v))"
  by (simp add: map_at_def split: option.splits)

section \<open>FFOrdered and maps from indices\<close>

lemma ff_ordered_enumerate_eq [container_ops]:
  "ff_ordered_enumerate d i = (if i < length d then Some (d ! i) else None)"
proof (cases "i < length d")
  case True
  then show ?thesis using map_of_zip_nth [of "[0..<length d]" d i]
    by (simp add: ff_ordered_enumerate_def)
next
  case False
  then show ?thesis by (simp add: ff_ordered_enumerate_def map_of_zip_is_None)
qed

lemma dom_ff_ordered_enumerate [simp]: "dom (ff_ordered_enumerate d) = {..<length d}"
  by (auto simp: ff_ordered_enumerate_eq domIff split: if_splits)

lemma ff_ordered_from_map_eq:
  "ff_ordered_from_map m = Inr xs \<longleftrightarrow>
     length xs = card (dom m) \<and> (\<forall>i < card (dom m). m i = Some (xs ! i))"
  by (auto simp: ff_ordered_from_map_def res_map_eq_Inr list_all2_conv_all_nth)

lemma ff_ordered_from_map_enumerate: "ff_ordered_from_map (ff_ordered_enumerate xs) = Inr xs"
  by (simp add: ff_ordered_from_map_eq container_ops)

lemma ff_ordered_enumerate_from_map:
  assumes "ff_ordered_from_map m = Inr xs" and "finite (dom m)"
  shows "m = ff_ordered_enumerate xs"
proof -
  from assms(1) have len: "length xs = card (dom m)" and at: "\<And>i. i < card (dom m) \<Longrightarrow> m i = Some (xs ! i)"
    by (auto simp: ff_ordered_from_map_eq)
  have "{..<card (dom m)} \<subseteq> dom m" by (auto dest: at)
  then have "dom m = {..<card (dom m)}"
    using assms(2) by (metis card_lessThan card_subset_eq)
  then have "m i = ff_ordered_enumerate xs i" for i
    using at [of i] len by (cases "i < card (dom m)") (auto simp: ff_ordered_enumerate_eq domIff)
  then show ?thesis by blast
qed

lemma ff_ordered_from_map_lessThan:
  assumes "dom m = {..<n}"
  shows "ff_ordered_from_map m = Inr (map (\<lambda>i. the (m i)) [0..<n])"
proof -
  have "m i = Some (the (m i))" if "i < n" for i
    using that assms by (metis domIff lessThan_iff option.collapse)
  then show ?thesis by (simp add: ff_ordered_from_map_eq assms)
qed

lemma finite_dom_ff_ordered_enumerate [simp]: "finite (dom (ff_ordered_enumerate d))"
  by simp

end
