(* ===== verification/Tensor_Shapes.thy ===== *)
theory Tensor_Shapes
  imports FF_Containers
begin

text \<open>
  Tensor dimensions, coordinates, data types and shapes: \<open>tensor_dims.cc\<close>,
  \<open>tensor_dims_coord.cc\<close>, \<open>datatype.cc\<close>, \<open>tensor_shape.cc\<close>, \<open>ff_dim_t.cc\<close> and
  \<open>relative_ff_dim_t.cc\<close> of \<open>lib/op-attrs\<close>. \<open>TensorDims\<close> and \<open>TensorDimsCoord\<close> are structs
  with one field and so are lists here.
\<close>

type_synonym tensor_dims = "positive_int ff_ordered"
type_synonym tensor_dims_coord = "nonnegative_int ff_ordered"
type_synonym num_tensor_dims_t = nat

datatype data_type = BOOL | INT32 | INT64 | HALF | FLOAT | DOUBLE

record tensor_shape =
  ts_dims :: tensor_dims
  ts_data_type :: data_type

abbreviation TensorShape :: "tensor_dims \<Rightarrow> data_type \<Rightarrow> tensor_shape" where
  "TensorShape ds dt \<equiv> \<lparr>ts_dims = ds, ts_data_type = dt\<rparr>"

section \<open>Dimensions\<close>

text \<open>The default of the build option \<open>FF_MAX_DIM\<close>.\<close>

definition MAX_TENSOR_DIM :: nat where
  "MAX_TENSOR_DIM = 5"

definition mk_num_tensor_dims :: "nonnegative_int \<Rightarrow> num_tensor_dims_t res" where
  "mk_num_tensor_dims n = res_bind (ASSERT (n \<le> MAX_TENSOR_DIM)) (\<lambda>_. Inr n)"

definition get_num_dims :: "tensor_dims \<Rightarrow> num_tensor_dims_t res" where
  "get_num_dims dims = res_bind (num_elements dims) mk_num_tensor_dims"

definition ff_dim_t_from_relative_ff_dim_t ::
    "relative_ff_dim_t \<Rightarrow> num_tensor_dims_t \<Rightarrow> ff_dim_t res" where
  "ff_dim_t_from_relative_ff_dim_t ff_dim input_dim =
     mk_nonnegative_int (if ff_dim < 0 then int input_dim + ff_dim else ff_dim)"

definition tensor_dims_has_dim :: "tensor_dims \<Rightarrow> ff_dim_t \<Rightarrow> bool" where
  "tensor_dims_has_dim dims dim = (dim \<in> set (ff_ordered_get_idxs dims))"

definition dim_at_rel_idx :: "tensor_dims \<Rightarrow> relative_ff_dim_t \<Rightarrow> positive_int res" where
  "dim_at_rel_idx dims idx = ff_ordered_at_rel dims idx"

definition dim_at_idx :: "tensor_dims \<Rightarrow> ff_dim_t \<Rightarrow> positive_int res" where
  "dim_at_idx dims idx = ff_ordered_at dims idx"

definition try_dim_at_rel_idx :: "tensor_dims \<Rightarrow> relative_ff_dim_t \<Rightarrow> positive_int option res" where
  "try_dim_at_rel_idx dims idx =
     (if idx_is_valid_rel dims idx then res_bind (ff_ordered_at_rel dims idx) (\<lambda>d. Inr (Some d))
      else Inr None)"

definition try_dim_at_idx :: "tensor_dims \<Rightarrow> ff_dim_t \<Rightarrow> positive_int option res" where
  "try_dim_at_idx dims idx =
     (if idx_is_valid dims idx then res_bind (ff_ordered_at dims idx) (\<lambda>d. Inr (Some d))
      else Inr None)"

definition get_num_elements :: "tensor_dims \<Rightarrow> positive_int res" where
  "get_num_elements d = product d"

definition tensor_dims_drop_dims :: "tensor_dims \<Rightarrow> (ff_dim_t \<Rightarrow> bool) \<Rightarrow> tensor_dims res" where
  "tensor_dims_drop_dims dims should_drop_dim =
     res_map (ff_ordered_at dims) (filter (\<lambda>idx. \<not> should_drop_dim idx) (ff_ordered_get_idxs dims))"

definition slice_tensor_dims_rel ::
    "tensor_dims \<Rightarrow> relative_ff_dim_t \<Rightarrow> relative_ff_dim_t option \<Rightarrow> tensor_dims res" where
  "slice_tensor_dims_rel dims start stop = ff_ordered_slice_rel dims start stop"

definition slice_tensor_dims :: "tensor_dims \<Rightarrow> ff_dim_t \<Rightarrow> ff_dim_t option \<Rightarrow> tensor_dims res" where
  "slice_tensor_dims dims start stop = ff_ordered_slice dims start stop"

section \<open>Broadcasting and coordinates\<close>

definition tensor_dims_is_broadcastable_to :: "tensor_dims \<Rightarrow> tensor_dims \<Rightarrow> bool res" where
  "tensor_dims_is_broadcastable_to cur goal =
     res_bind (get_num_dims cur) (\<lambda>nc.
     res_bind (get_num_dims goal) (\<lambda>ng.
     Inr (if nc > ng then False
          else list_all (\<lambda>(curr_dim, goal_dim). \<not> (curr_dim \<noteq> 1 \<and> curr_dim \<noteq> goal_dim))
                 (zip (rev cur) (rev goal)))))"

definition tensor_dims_contains_coord :: "tensor_dims \<Rightarrow> tensor_dims_coord \<Rightarrow> bool res" where
  "tensor_dims_contains_coord dims coord =
     res_bind (get_num_dims dims) (\<lambda>n.
     res_bind (ASSERT (length coord = n)) (\<lambda>_.
     Inr (list_all (\<lambda>b. b) (ff_ordered_zip_with (\<lambda>coord_entry dim_size. coord_entry < dim_size) coord dims))))"

definition get_broadcast_src_coord ::
    "tensor_dims \<Rightarrow> tensor_dims \<Rightarrow> tensor_dims_coord \<Rightarrow> tensor_dims_coord res" where
  "get_broadcast_src_coord input_dims output_dims dst_coord =
     res_bind (tensor_dims_contains_coord output_dims dst_coord) (\<lambda>contained.
     res_bind (ASSERT contained) (\<lambda>_.
     res_bind (tensor_dims_is_broadcastable_to input_dims output_dims) (\<lambda>broadcastable.
     res_bind (ASSERT broadcastable) (\<lambda>_.
     res_bind (get_num_dims input_dims) (\<lambda>n.
     let trailing_start_idx = - 1 * int n in
     res_bind (ff_ordered_slice_rel dst_coord trailing_start_idx None) (\<lambda>trailing_entries.
     res_bind (ff_ordered_slice_rel output_dims trailing_start_idx None) (\<lambda>trailing_dims.
     let result = ff_ordered_zip_with
           (\<lambda>coord_entry input_dim_size. if input_dim_size = 1 then 0 else coord_entry)
           trailing_entries input_dims in
     res_bind (tensor_dims_contains_coord input_dims result) (\<lambda>ok.
     res_bind (ASSERT ok) (\<lambda>_.
     Inr result)))))))))"

fun cartesian_product :: "'a list list \<Rightarrow> 'a list list" where
  "cartesian_product [] = [[]]"
| "cartesian_product (c # cs) = concat (map (\<lambda>item. map ((#) item) (cartesian_product cs)) c)"

definition get_tensor_dims_coord_set :: "tensor_dims \<Rightarrow> tensor_dims_coord set" where
  "get_tensor_dims_coord_set dims = set (cartesian_product (map (\<lambda>dim_size. [0..<dim_size]) dims))"

text \<open>
  The parameter of \<open>get_broadcast_target_dims\<close> is a \<open>std::set\<close>; the list holds its elements in
  the order of iteration.
\<close>

fun find_broadcast_target :: "tensor_dims list \<Rightarrow> tensor_dims list \<Rightarrow> tensor_dims option res" where
  "find_broadcast_target dims [] = Inr None"
| "find_broadcast_target dims (target_candidate # rest) =
     res_bind (res_all_of (\<lambda>d. tensor_dims_is_broadcastable_to d target_candidate) dims) (\<lambda>b.
     if b then Inr (Some target_candidate) else find_broadcast_target dims rest)"

definition get_broadcast_target_dims :: "tensor_dims list \<Rightarrow> tensor_dims option res" where
  "get_broadcast_target_dims dims = find_broadcast_target dims dims"

definition tensor_dims_coord_drop_dims ::
    "tensor_dims_coord \<Rightarrow> (ff_dim_t \<Rightarrow> bool) \<Rightarrow> tensor_dims_coord res" where
  "tensor_dims_coord_drop_dims coord should_drop_dim =
     res_map (ff_ordered_at coord) (filter (\<lambda>idx. \<not> should_drop_dim idx) (ff_ordered_get_idxs coord))"

section \<open>Data types and shapes\<close>

fun size_of_datatype :: "data_type \<Rightarrow> positive_int" where
  "size_of_datatype BOOL = 1"
| "size_of_datatype INT32 = 4"
| "size_of_datatype INT64 = 8"
| "size_of_datatype HALF = 4 div 2"
| "size_of_datatype FLOAT = 4"
| "size_of_datatype DOUBLE = 8"

fun strict_promotions :: "data_type \<Rightarrow> data_type list" where
  "strict_promotions BOOL = [INT32, INT64, HALF, FLOAT, DOUBLE]"
| "strict_promotions INT32 = [INT64]"
| "strict_promotions INT64 = []"
| "strict_promotions HALF = [FLOAT, DOUBLE]"
| "strict_promotions FLOAT = [DOUBLE]"
| "strict_promotions DOUBLE = []"

definition can_strictly_promote_datatype_from_to :: "data_type \<Rightarrow> data_type \<Rightarrow> bool" where
  "can_strictly_promote_datatype_from_to src dst = (dst \<in> set (strict_promotions src))"

fun torch_strict_promotions :: "data_type \<Rightarrow> data_type list" where
  "torch_strict_promotions BOOL = [INT32, INT64, HALF, FLOAT, DOUBLE]"
| "torch_strict_promotions INT32 = [INT64, HALF, FLOAT, DOUBLE]"
| "torch_strict_promotions INT64 = [INT32, HALF, FLOAT, DOUBLE]"
| "torch_strict_promotions HALF = [FLOAT, DOUBLE]"
| "torch_strict_promotions FLOAT = [HALF, DOUBLE]"
| "torch_strict_promotions DOUBLE = [HALF, FLOAT]"

definition can_torch_strictly_promote_datatype_from_to :: "data_type \<Rightarrow> data_type \<Rightarrow> bool" where
  "can_torch_strictly_promote_datatype_from_to src dst = (dst \<in> set (torch_strict_promotions src))"

definition get_size_in_bytes :: "tensor_shape \<Rightarrow> positive_int res" where
  "get_size_in_bytes s =
     res_bind (get_num_elements (ts_dims s)) (\<lambda>n.
     positive_int_mul n (size_of_datatype (ts_data_type s)))"

definition tensor_shape_drop_dims :: "tensor_shape \<Rightarrow> (ff_dim_t \<Rightarrow> bool) \<Rightarrow> tensor_shape res" where
  "tensor_shape_drop_dims input_shape should_drop_dim =
     res_bind (tensor_dims_drop_dims (ts_dims input_shape) should_drop_dim) (\<lambda>dims.
     Inr (TensorShape dims (ts_data_type input_shape)))"

definition slice_tensor_shape ::
    "tensor_shape \<Rightarrow> relative_ff_dim_t \<Rightarrow> relative_ff_dim_t option \<Rightarrow> tensor_shape res" where
  "slice_tensor_shape shape start stop =
     res_bind (slice_tensor_dims_rel (ts_dims shape) start stop) (\<lambda>dims.
     Inr (TensorShape dims (ts_data_type shape)))"

text \<open>
  What the types \<open>positive_int\<close> and \<open>nonnegative_int\<close> guarantee for every \<open>TensorShape\<close>: each
  dimension is a positive \<open>int\<close>.
\<close>

definition wf_dims :: "tensor_dims \<Rightarrow> bool" where
  "wf_dims dims \<longleftrightarrow> (\<forall>d \<in> set dims. valid_pos d)"

definition wf_shape :: "tensor_shape \<Rightarrow> bool" where
  "wf_shape s \<longleftrightarrow> wf_dims (ts_dims s)"

section \<open>Lemmas\<close>

lemma get_num_dims_eq [container_ops]:
  "get_num_dims ds = Inr n \<longleftrightarrow> n = length ds \<and> length ds \<le> MAX_TENSOR_DIM"
  by (auto simp: get_num_dims_def num_elements_def mk_num_tensor_dims_def int_ops
      MAX_TENSOR_DIM_def INT_MAX_def)

lemma dim_at_rel_idx_last [container_ops]:
  "dim_at_rel_idx ds (- 1) = Inr d \<longleftrightarrow> ds \<noteq> [] \<and> d = last ds"
  by (simp add: dim_at_rel_idx_def container_ops)

lemma dim_at_idx_eq [container_ops]: "dim_at_idx ds i = Inr d \<longleftrightarrow> i < length ds \<and> d = ds ! i"
  by (simp add: dim_at_idx_def container_ops)

text \<open>\<open>broadcastable\<close> states what \<open>tensor_dims_is_broadcastable_to\<close> decides.\<close>

definition broadcastable :: "tensor_dims \<Rightarrow> tensor_dims \<Rightarrow> bool" where
  "broadcastable cur goal \<longleftrightarrow>
     length cur \<le> length goal \<and>
     list_all2 (\<lambda>c g. c = 1 \<or> c = g) cur (drop (length goal - length cur) goal)"

lemma zip_rev_suffix:
  assumes "length xs \<le> length ys"
  shows "zip (rev xs) (rev ys) = rev (zip xs (drop (length ys - length xs) ys))"
proof -
  have "zip (rev xs) (rev ys) = take (length xs) (zip (rev xs) (rev ys))"
    using assms by simp
  also have "\<dots> = zip (rev xs) (rev (drop (length ys - length xs) ys))"
    by (simp add: take_zip take_rev)
  also have "\<dots> = rev (zip xs (drop (length ys - length xs) ys))"
    by (rule zip_rev) (simp add: assms)
  finally show ?thesis .
qed

lemma is_broadcastable_eq:
  "tensor_dims_is_broadcastable_to cur goal = Inr b \<longleftrightarrow>
     length cur \<le> MAX_TENSOR_DIM \<and> length goal \<le> MAX_TENSOR_DIM \<and> b = broadcastable cur goal"
proof (cases "length cur \<le> length goal")
  case True
  then have "list_all (\<lambda>(c, g). \<not> (c \<noteq> 1 \<and> c \<noteq> g)) (zip (rev cur) (rev goal)) \<longleftrightarrow>
      list_all2 (\<lambda>c g. c = 1 \<or> c = g) cur (drop (length goal - length cur) goal)"
    by (auto simp: zip_rev_suffix list_all2_iff list_all_iff)
  with True show ?thesis
    by (auto simp: tensor_dims_is_broadcastable_to_def broadcastable_def container_ops)
next
  case False
  then show ?thesis
    by (auto simp: tensor_dims_is_broadcastable_to_def broadcastable_def container_ops)
qed

lemma broadcastable_refl: "broadcastable ds ds"
  by (simp add: broadcastable_def list_all2_same)

lemma broadcastable_trans:
  assumes "broadcastable a b" and "broadcastable b c"
  shows "broadcastable a c"
proof -
  from assms have le: "length a \<le> length b" "length b \<le> length c"
    and ab: "list_all2 (\<lambda>c g. c = 1 \<or> c = g) a (drop (length b - length a) b)"
    and bc: "list_all2 (\<lambda>c g. c = 1 \<or> c = g) b (drop (length c - length b) c)"
    by (simp_all add: broadcastable_def)
  from list_all2_dropI [OF bc, of "length b - length a"] le
  have "list_all2 (\<lambda>c g. c = 1 \<or> c = g) (drop (length b - length a) b)
      (drop (length c - length a) c)" by (simp add: add.commute)
  with ab have "list_all2 (\<lambda>c g. c = 1 \<or> c = g) a (drop (length c - length a) c)"
    by (rule list_all2_trans [rotated]) auto
  with le show ?thesis by (simp add: broadcastable_def)
qed

lemma broadcastable_antisym:
  assumes "broadcastable a b" and "broadcastable b a"
  shows "a = b"
proof -
  from assms have "length a = length b" by (auto simp: broadcastable_def)
  moreover from this assms have "list_all2 (\<lambda>c g. c = 1 \<or> c = g) a b"
    "list_all2 (\<lambda>c g. c = 1 \<or> c = g) b a" by (auto simp: broadcastable_def)
  then have "a ! i = b ! i" if "i < length a" for i
    using that unfolding list_all2_conv_all_nth by metis
  ultimately show ?thesis by (rule nth_equalityI)
qed

lemma contains_coord_eq:
  "tensor_dims_contains_coord ds c = Inr b \<longleftrightarrow>
     length ds \<le> MAX_TENSOR_DIM \<and> length c = length ds \<and> b = list_all2 (<) c ds"
  by (auto simp: tensor_dims_contains_coord_def container_ops ff_ordered_zip_with_def
      list_all2_iff list_all_iff)

lemma drop_suffix_rel:
  "n \<le> length xs \<Longrightarrow> ff_ordered_slice_rel xs (- int n) None =
     Inr (if n = 0 then xs else drop (length xs - n) xs)"
  by (cases "n = 0")
    (auto simp: ff_ordered_slice_rel_def slice_def slice_resolve_loc_def nat_diff_distrib)

lemma cartesian_product_iff: "xs \<in> set (cartesian_product cs) \<longleftrightarrow> list_all2 (\<lambda>x c. x \<in> set c) xs cs"
  by (induction cs arbitrary: xs) (auto simp: list_all2_Cons2)

lemma distinct_cartesian_product:
  "\<forall>c \<in> set cs. distinct c \<Longrightarrow> distinct (cartesian_product cs)"
proof (induction cs)
  case Nil
  then show ?case by simp
next
  case (Cons c cs)
  then have d: "distinct (cartesian_product cs)" and "distinct c" by auto
  from this(2) show ?case
    by (induction c) (auto simp: distinct_map d)
qed

lemma length_cartesian_product:
  "length (cartesian_product cs) = prod_list (map length cs)"
  by (induction cs) (simp_all add: length_concat comp_def sum_list_triv)

lemma find_broadcast_target_eq:
  assumes "\<forall>d \<in> set ds. length d \<le> MAX_TENSOR_DIM" and "set cs \<subseteq> set ds"
  shows "find_broadcast_target ds cs = Inr (find (\<lambda>t. \<forall>d \<in> set ds. broadcastable d t) cs)"
  using assms(2)
proof (induction cs)
  case Nil
  then show ?case by simp
next
  case (Cons t cs)
  have "res_all_of (\<lambda>d. tensor_dims_is_broadcastable_to d t) ds =
      Inr (\<forall>d \<in> set ds. broadcastable d t)"
    using Cons.prems assms(1) by (intro res_all_of_Inr) (auto simp: is_broadcastable_eq)
  with Cons show ?case by simp
qed

lemma wf_dims_simps [simp]:
  "wf_dims []"
  "wf_dims (d # ds) \<longleftrightarrow> valid_pos d \<and> wf_dims ds"
  "wf_dims (ds @ es) \<longleftrightarrow> wf_dims ds \<and> wf_dims es"
  by (auto simp: wf_dims_def)

lemma wf_shape_simps [simp]: "wf_shape (TensorShape ds dt) \<longleftrightarrow> wf_dims ds"
  by (simp add: wf_shape_def)

lemma wf_dims_sub: "wf_dims ds \<Longrightarrow> set es \<subseteq> set ds \<Longrightarrow> wf_dims es"
  by (auto simp: wf_dims_def)

lemma wf_dims_update: "wf_dims ds \<Longrightarrow> valid_pos d \<Longrightarrow> wf_dims (ds[i := d])"
  by (auto simp: wf_dims_def dest: set_update_subset_insert [THEN subsetD])

lemma wf_dims_nth: "wf_dims ds \<Longrightarrow> i < length ds \<Longrightarrow> valid_pos (ds ! i)"
  by (simp add: wf_dims_def)

lemma wf_dims_pos: "wf_dims ds \<Longrightarrow> \<forall>d \<in> set ds. 0 < d"
  by (auto simp: wf_dims_def valid_pos_def)

lemma get_num_elements_wf:
  "wf_dims ds \<Longrightarrow> get_num_elements ds = Inr n \<longleftrightarrow> n = prod_list ds \<and> prod_list ds \<le> INT_MAX"
  by (auto simp: get_num_elements_def int_ops dest: wf_dims_pos)

section \<open>Properties\<close>

text \<open>
  Broadcasting a coordinate back: when the input dimensions are broadcastable to the
  output dimensions and the coordinate lies in the output, \<open>get_broadcast_src_coord\<close> returns a
  coordinate of the input (none of its assertions fails, the one on the result included), which
  has 0 where the input dimension is 1 and the trailing entry of the output coordinate elsewhere.
\<close>

theorem broadcast_src_coord_total:
  assumes b: "tensor_dims_is_broadcastable_to input_dims output_dims = Inr True"
    and c: "tensor_dims_contains_coord output_dims dst = Inr True"
  shows "\<exists>r. get_broadcast_src_coord input_dims output_dims dst = Inr r \<and>
      tensor_dims_contains_coord input_dims r = Inr True \<and>
      (\<forall>k < length input_dims. r ! k =
         (if input_dims ! k = 1 then 0
          else dst ! (length output_dims - length input_dims + k)))"
proof -
  let ?n = "length input_dims" and ?m = "length output_dims"
  let ?f = "\<lambda>c d. if d = Suc 0 then 0 else c"
  have le: "?n \<le> ?m" "?n \<le> MAX_TENSOR_DIM" "?m \<le> MAX_TENSOR_DIM" "length dst = ?m"
    and cb: "\<And>k. k < ?n \<Longrightarrow> input_dims ! k = 1 \<or> input_dims ! k = output_dims ! (?m - ?n + k)"
    and cc: "\<And>k. k < ?m \<Longrightarrow> dst ! k < output_dims ! k"
    using b c by (auto simp: is_broadcastable_eq broadcastable_def contains_coord_eq
        list_all2_conv_all_nth)
  define t where "t = (if ?n = 0 then dst else drop (?m - ?n) dst)"
  define r where "r = map2 ?f t input_dims"
  have r_len: "length r = ?n" using le by (simp add: r_def t_def)
  have r_nth: "r ! k = (if input_dims ! k = 1 then 0 else dst ! (?m - ?n + k))" if "k < ?n" for k
    using that le by (auto simp: r_def t_def)
  have "list_all2 (<) r input_dims"
    using cb cc le r_nth r_len by (fastforce simp: list_all2_conv_all_nth)
  then have ok: "tensor_dims_contains_coord input_dims r = Inr True"
    using le r_len by (simp add: contains_coord_eq)
  have "get_num_dims input_dims = Inr ?n" using le by (simp add: container_ops)
  moreover have "ff_ordered_slice_rel dst (- int ?n) None = Inr t"
    "\<exists>u. ff_ordered_slice_rel output_dims (- int ?n) None = Inr u"
    using le drop_suffix_rel [of ?n dst] drop_suffix_rel [of ?n output_dims]
    by (auto simp: t_def)
  ultimately have "get_broadcast_src_coord input_dims output_dims dst = Inr r"
    using b c ok by (auto simp: get_broadcast_src_coord_def ff_ordered_zip_with_def r_def [symmetric])
  with ok r_nth show ?thesis by blast
qed

theorem broadcast_src_coord_total_witness:
  "get_broadcast_src_coord [1, 4] [3, 5, 4] [2, 1, 3] = Inr [0, 3]"
proof -
  have "\<exists>r. get_broadcast_src_coord [1, 4] [3, 5, 4] [2, 1, 3] = Inr r \<and>
      tensor_dims_contains_coord [1, 4] r = Inr True \<and>
      (\<forall>k < length [1::nat, 4]. r ! k =
         (if [1, 4] ! k = (1::nat) then 0 else [2, 1, 3] ! (length [3::nat, 5, 4] - length [1::nat, 4] + k)))"
    by (rule broadcast_src_coord_total)
      (simp_all add: is_broadcastable_eq broadcastable_def contains_coord_eq MAX_TENSOR_DIM_def)
  then show ?thesis
    by (auto simp: contains_coord_eq list_all2_Cons2 All_less_Suc numeral_2_eq_2 numeral_3_eq_3)
qed

text \<open>
  \<open>get_tensor_dims_coord_set\<close> enumerates the index space: its members are exactly the
  coordinates that \<open>tensor_dims_contains_coord\<close> accepts, and there are as many of them as the
  tensor has elements.
\<close>

theorem tensor_dims_coord_set_correct:
  assumes "length dims \<le> MAX_TENSOR_DIM" and "get_num_elements dims = Inr n"
  shows "get_tensor_dims_coord_set dims =
      {c. length c = length dims \<and> tensor_dims_contains_coord dims c = Inr True} \<and>
      card (get_tensor_dims_coord_set dims) = n"
proof
  show "get_tensor_dims_coord_set dims =
      {c. length c = length dims \<and> tensor_dims_contains_coord dims c = Inr True}"
    using assms(1)
    by (auto simp: get_tensor_dims_coord_set_def cartesian_product_iff contains_coord_eq
        list_all2_conv_all_nth)
  have "distinct (cartesian_product (map (\<lambda>d. [0..<d]) dims))"
    by (rule distinct_cartesian_product) auto
  then show "card (get_tensor_dims_coord_set dims) = n"
    using assms(2)
    by (simp add: get_tensor_dims_coord_set_def distinct_card length_cartesian_product comp_def
        get_num_elements_def int_ops)
qed

theorem tensor_dims_coord_set_correct_witness:
  "card (get_tensor_dims_coord_set [2, 3]) = 6"
  by (rule tensor_dims_coord_set_correct [THEN conjunct2])
    (simp_all add: MAX_TENSOR_DIM_def get_num_elements_def int_ops INT_MAX_def)

text \<open>
  \<open>get_broadcast_target_dims\<close> returns a least upper bound within the set: the result is
  \<open>t\<close> exactly when \<open>t\<close> is a member to which every member is broadcastable (so there is at most one
  such member), and \<open>std::nullopt\<close> exactly when no member has this property. Ranks within
  \<open>MAX_TENSOR_DIM\<close> are assumed, beyond it \<open>get_num_dims\<close> stops.
\<close>

theorem broadcast_target_correct:
  assumes "\<forall>d \<in> set ds. length d \<le> MAX_TENSOR_DIM"
  shows "(get_broadcast_target_dims ds = Inr (Some t) \<longleftrightarrow>
        t \<in> set ds \<and> (\<forall>d \<in> set ds. tensor_dims_is_broadcastable_to d t = Inr True)) \<and>
      (get_broadcast_target_dims ds = Inr None \<longleftrightarrow>
        \<not> (\<exists>u \<in> set ds. \<forall>d \<in> set ds. tensor_dims_is_broadcastable_to d u = Inr True))"
proof -
  let ?ub = "\<lambda>t. \<forall>d \<in> set ds. broadcastable d t"
  have code: "(\<forall>d \<in> set ds. tensor_dims_is_broadcastable_to d u = Inr True) \<longleftrightarrow> ?ub u"
    if "u \<in> set ds" for u
    using assms that by (auto simp: is_broadcastable_eq)
  have r: "get_broadcast_target_dims ds = Inr (find ?ub ds)"
    using assms by (simp add: get_broadcast_target_dims_def find_broadcast_target_eq)
  have some: "find ?ub ds = Some t \<longleftrightarrow> t \<in> set ds \<and> ?ub t"
  proof
    assume "find ?ub ds = Some t"
    then show "t \<in> set ds \<and> ?ub t" by (auto simp: find_Some_iff)
  next
    assume t: "t \<in> set ds \<and> ?ub t"
    then have "find ?ub ds \<noteq> None" unfolding find_None_iff by blast
    then obtain u where u: "find ?ub ds = Some u" by blast
    then have "u \<in> set ds" "?ub u" by (auto simp: find_Some_iff)
    with t have "u = t" by (blast intro: broadcastable_antisym)
    with u show "find ?ub ds = Some t" by simp
  qed
  have none: "find ?ub ds = None \<longleftrightarrow> \<not> (\<exists>u \<in> set ds. ?ub u)"
    unfolding find_None_iff by blast
  from some none code show ?thesis unfolding r sum.inject by blast
qed

theorem broadcast_target_correct_witness:
  "get_broadcast_target_dims [[1, 4], [2, 3, 4], [4]] = Inr (Some [2, 3, 4]) \<and>
   tensor_dims_is_broadcastable_to [1, 4] [2, 3, 4] = Inr True \<and>
   tensor_dims_is_broadcastable_to [4] [2, 3, 4] = Inr True"
proof -
  let ?ds = "[[1::nat, 4], [2, 3, 4], [4]]"
  have r: "get_broadcast_target_dims ?ds = Inr (Some [2, 3, 4])"
    by code_simp
  have "\<forall>d \<in> set ?ds. length d \<le> MAX_TENSOR_DIM"
    by (simp add: MAX_TENSOR_DIM_def)
  from broadcast_target_correct [OF this, THEN conjunct1, of "[2, 3, 4]", THEN iffD1, OF r] r
  show ?thesis by simp
qed

end
