(* ===== verification/Parallel_Shapes.thy ===== *)
theory Parallel_Shapes
  imports Tensor_Shapes
begin

text \<open>
  Parallel tensor shapes: \<open>shard_parallel_dim.cc\<close>, \<open>replica_parallel_dim.cc\<close>,
  \<open>replica_parallel_dim_set.cc\<close>, \<open>parallel_dim.cc\<close>, \<open>parallel_tensor_dims.cc\<close>,
  \<open>parallel_tensor_shape.cc\<close>, \<open>parallel_tensor_dim_idx_t.cc\<close> and
  \<open>parallel_tensor_dim_degrees.cc\<close> of \<open>lib/op-attrs\<close>.

  A parallel tensor has for each dimension its size and the degree to which it is sharded, and
  two replica degrees: \<open>sum_degree\<close> (partial sums) and \<open>discard_copy_degree\<close> (identical copies).
  \<open>SumDegree\<close> and \<open>DiscardCopyDegree\<close> have one field and are that field.
\<close>

section \<open>Data\<close>

datatype replica_type = Replica_DISCARD_COPY | Replica_SUM

record shard_parallel_dim =
  spd_size :: positive_int
  spd_degree :: positive_int

abbreviation ShardParallelDim :: "positive_int \<Rightarrow> positive_int \<Rightarrow> shard_parallel_dim" where
  "ShardParallelDim s d \<equiv> \<lparr> spd_size = s, spd_degree = d \<rparr>"

record replica_parallel_dim =
  rpd_degree :: positive_int
  rpd_replica_type :: replica_type

abbreviation ReplicaParallelDim :: "positive_int \<Rightarrow> replica_type \<Rightarrow> replica_parallel_dim" where
  "ReplicaParallelDim d t \<equiv> \<lparr> rpd_degree = d, rpd_replica_type = t \<rparr>"

datatype parallel_dim = Shard_dim shard_parallel_dim | Replica_dim replica_parallel_dim

record replica_parallel_dim_set =
  rps_sum_degree :: positive_int
  rps_discard_copy_degree :: positive_int

abbreviation ReplicaParallelDimSet :: "positive_int \<Rightarrow> positive_int \<Rightarrow> replica_parallel_dim_set" where
  "ReplicaParallelDimSet s c \<equiv> \<lparr> rps_sum_degree = s, rps_discard_copy_degree = c \<rparr>"

record parallel_tensor_dims =
  ptd_shard_dims :: "shard_parallel_dim ff_ordered"
  ptd_replica_dims :: replica_parallel_dim_set

abbreviation ParallelTensorDims ::
    "shard_parallel_dim ff_ordered \<Rightarrow> replica_parallel_dim_set \<Rightarrow> parallel_tensor_dims" where
  "ParallelTensorDims ds r \<equiv> \<lparr> ptd_shard_dims = ds, ptd_replica_dims = r \<rparr>"

record parallel_tensor_shape =
  pts_dims :: parallel_tensor_dims
  pts_data_type :: data_type

abbreviation ParallelTensorShape ::
    "parallel_tensor_dims \<Rightarrow> data_type \<Rightarrow> parallel_tensor_shape" where
  "ParallelTensorShape ds dt \<equiv> \<lparr> pts_dims = ds, pts_data_type = dt \<rparr>"

record parallel_tensor_dim_degrees =
  ptdd_sum_degree :: positive_int
  ptdd_discard_copy_degree :: positive_int
  ptdd_shard_degrees :: "positive_int ff_ordered"

abbreviation ParallelTensorDimDegrees ::
    "positive_int \<Rightarrow> positive_int \<Rightarrow> positive_int ff_ordered \<Rightarrow> parallel_tensor_dim_degrees" where
  "ParallelTensorDimDegrees s c ds \<equiv>
     \<lparr> ptdd_sum_degree = s, ptdd_discard_copy_degree = c, ptdd_shard_degrees = ds \<rparr>"

datatype parallel_tensor_dim_idx_t = Shard_idx ff_dim_t | Replica_idx replica_type

section \<open>Replica dimensions\<close>

definition empty_replica_parallel_dim_set :: replica_parallel_dim_set where
  "empty_replica_parallel_dim_set = ReplicaParallelDimSet 1 1"

fun get_degree_of_replica_type :: "replica_parallel_dim_set \<Rightarrow> replica_type \<Rightarrow> positive_int" where
  "get_degree_of_replica_type s Replica_SUM = rps_sum_degree s"
| "get_degree_of_replica_type s Replica_DISCARD_COPY = rps_discard_copy_degree s"

definition get_replica_dims :: "replica_parallel_dim_set \<Rightarrow> replica_parallel_dim set" where
  "get_replica_dims s =
     {ReplicaParallelDim (rps_sum_degree s) Replica_SUM,
      ReplicaParallelDim (rps_discard_copy_degree s) Replica_DISCARD_COPY}"

fun get_degree :: "parallel_dim \<Rightarrow> positive_int" where
  "get_degree (Shard_dim d) = spd_degree d"
| "get_degree (Replica_dim d) = rpd_degree d"

definition shard_dim_is_valid :: "shard_parallel_dim \<Rightarrow> bool" where
  "shard_dim_is_valid d \<longleftrightarrow> 0 < spd_degree d \<and> 0 < spd_size d \<and> spd_size d mod spd_degree d = 0"

definition replica_dim_is_valid :: "replica_parallel_dim \<Rightarrow> bool" where
  "replica_dim_is_valid d \<longleftrightarrow> 0 < rpd_degree d"

section \<open>Parallel tensor dimensions\<close>

definition ff_ordered_shard_degrees :: "parallel_tensor_dims \<Rightarrow> positive_int ff_ordered" where
  "ff_ordered_shard_degrees d = ff_ordered_transform spd_degree (ptd_shard_dims d)"

definition ptd_num_shard_dims :: "parallel_tensor_dims \<Rightarrow> nonnegative_int res" where
  "ptd_num_shard_dims dims = num_elements (ptd_shard_dims dims)"

definition ptd_get_parallel_degrees :: "parallel_tensor_dims \<Rightarrow> parallel_tensor_dim_degrees" where
  "ptd_get_parallel_degrees d =
     ParallelTensorDimDegrees (rps_sum_degree (ptd_replica_dims d))
       (rps_discard_copy_degree (ptd_replica_dims d)) (ff_ordered_shard_degrees d)"

text \<open>\<open>zip\<close> stops at the end of the shorter vector, as HOL's does.\<close>

definition ptd_lift_to_parallel_with_degrees ::
    "tensor_dims \<Rightarrow> positive_int \<Rightarrow> positive_int \<Rightarrow> positive_int ff_ordered \<Rightarrow> parallel_tensor_dims" where
  "ptd_lift_to_parallel_with_degrees unpar sum_degree discard_copy_degree shard_degrees =
     ParallelTensorDims
       (map (\<lambda>p. ShardParallelDim (fst p) (snd p)) (zip unpar shard_degrees))
       (ReplicaParallelDimSet sum_degree discard_copy_degree)"

definition ptd_lift_to_parallel_with_dim_degrees ::
    "tensor_dims \<Rightarrow> parallel_tensor_dim_degrees \<Rightarrow> parallel_tensor_dims" where
  "ptd_lift_to_parallel_with_dim_degrees unpar degrees =
     ptd_lift_to_parallel_with_degrees unpar (ptdd_sum_degree degrees)
       (ptdd_discard_copy_degree degrees) (ptdd_shard_degrees degrees)"

definition ptd_lift_to_parallel :: "tensor_dims \<Rightarrow> parallel_tensor_dims res" where
  "ptd_lift_to_parallel dims =
     res_bind (get_num_dims dims) (\<lambda>n.
     Inr (ptd_lift_to_parallel_with_degrees dims 1 1 (repeat_element n 1)))"

definition total_replica_degree :: "parallel_tensor_dims \<Rightarrow> positive_int res" where
  "total_replica_degree dims =
     positive_int_mul (rps_discard_copy_degree (ptd_replica_dims dims))
       (rps_sum_degree (ptd_replica_dims dims))"

definition total_shard_degree :: "parallel_tensor_dims \<Rightarrow> positive_int res" where
  "total_shard_degree dims = product (map spd_degree (ptd_shard_dims dims))"

definition total_parallel_degree :: "parallel_tensor_dims \<Rightarrow> positive_int res" where
  "total_parallel_degree dims =
     res_bind (total_replica_degree dims) (\<lambda>r.
     res_bind (total_shard_degree dims) (\<lambda>s.
     positive_int_mul r s))"

definition ptd_is_valid :: "parallel_tensor_dims \<Rightarrow> bool" where
  "ptd_is_valid dims \<longleftrightarrow>
     (\<forall>d \<in> set (ptd_shard_dims dims). shard_dim_is_valid d) \<and>
     (\<forall>d \<in> get_replica_dims (ptd_replica_dims dims). replica_dim_is_valid d)"

definition ptd_shard_dim_at_idx ::
    "parallel_tensor_dims \<Rightarrow> relative_ff_dim_t \<Rightarrow> shard_parallel_dim res" where
  "ptd_shard_dim_at_idx d idx = ff_ordered_at_rel (ptd_shard_dims d) idx"

text \<open>Writing through the reference that the non-const \<open>shard_dim_at_idx\<close> returns.\<close>

definition ptd_set_shard_dim_at_idx ::
    "parallel_tensor_dims \<Rightarrow> relative_ff_dim_t \<Rightarrow> shard_parallel_dim \<Rightarrow> parallel_tensor_dims res" where
  "ptd_set_shard_dim_at_idx d idx x =
     res_bind (ff_ordered_set_rel (ptd_shard_dims d) idx x) (\<lambda>ds.
     Inr (d\<lparr>ptd_shard_dims := ds\<rparr>))"

definition get_reduced_dims :: "parallel_tensor_dims \<Rightarrow> tensor_dims" where
  "get_reduced_dims dims = ff_ordered_transform spd_size (ptd_shard_dims dims)"

section \<open>Parallel tensor shapes\<close>

text \<open>
  \<open>transform\<close> on a \<open>std::set\<close> yields a \<open>std::set\<close>, so two replica dimensions of the same
  degree contribute one factor to the product.
\<close>

definition get_num_replicas :: "parallel_tensor_shape \<Rightarrow> positive_int res" where
  "get_num_replicas shape =
     product (sorted_list_of_set (rpd_degree ` get_replica_dims (ptd_replica_dims (pts_dims shape))))"

definition get_sum_degree :: "parallel_tensor_shape \<Rightarrow> positive_int" where
  "get_sum_degree shape = rps_sum_degree (ptd_replica_dims (pts_dims shape))"

definition get_discard_copy_degree :: "parallel_tensor_shape \<Rightarrow> positive_int" where
  "get_discard_copy_degree shape = rps_discard_copy_degree (ptd_replica_dims (pts_dims shape))"

definition get_total_parallel_degree :: "parallel_tensor_shape \<Rightarrow> positive_int res" where
  "get_total_parallel_degree s = total_parallel_degree (pts_dims s)"

definition pts_is_valid :: "parallel_tensor_shape \<Rightarrow> bool" where
  "pts_is_valid shape = ptd_is_valid (pts_dims shape)"

definition pts_num_shard_dims :: "parallel_tensor_shape \<Rightarrow> nonnegative_int res" where
  "pts_num_shard_dims s = ptd_num_shard_dims (pts_dims s)"

definition shard_dim_at_idx ::
    "parallel_tensor_shape \<Rightarrow> relative_ff_dim_t \<Rightarrow> shard_parallel_dim res" where
  "shard_dim_at_idx s d = ptd_shard_dim_at_idx (pts_dims s) d"

definition set_shard_dim_at_idx ::
    "parallel_tensor_shape \<Rightarrow> relative_ff_dim_t \<Rightarrow> shard_parallel_dim \<Rightarrow> parallel_tensor_shape res" where
  "set_shard_dim_at_idx s d x =
     res_bind (ptd_set_shard_dim_at_idx (pts_dims s) d x) (\<lambda>ds. Inr (s\<lparr>pts_dims := ds\<rparr>))"

definition pts_shard_degrees :: "parallel_tensor_shape \<Rightarrow> positive_int ff_ordered" where
  "pts_shard_degrees s = ff_ordered_shard_degrees (pts_dims s)"

definition try_get_shard_dim_at_idx ::
    "parallel_tensor_shape \<Rightarrow> relative_ff_dim_t \<Rightarrow> shard_parallel_dim option res" where
  "try_get_shard_dim_at_idx s d =
     (if idx_is_valid_rel (ptd_shard_dims (pts_dims s)) d
      then res_bind (ff_ordered_at_rel (ptd_shard_dims (pts_dims s)) d) (\<lambda>x. Inr (Some x))
      else Inr None)"

definition get_parallel_degrees :: "parallel_tensor_shape \<Rightarrow> parallel_tensor_dim_degrees" where
  "get_parallel_degrees s = ptd_get_parallel_degrees (pts_dims s)"

definition lift_to_parallel :: "tensor_shape \<Rightarrow> parallel_tensor_shape res" where
  "lift_to_parallel s =
     res_bind (ptd_lift_to_parallel (ts_dims s)) (\<lambda>ds.
     Inr (ParallelTensorShape ds (ts_data_type s)))"

definition lift_to_parallel_with_degrees ::
    "tensor_shape \<Rightarrow> positive_int \<Rightarrow> positive_int \<Rightarrow> positive_int ff_ordered \<Rightarrow>
     parallel_tensor_shape" where
  "lift_to_parallel_with_degrees unpar sum_degree discard_copy_degree shard_degrees =
     ParallelTensorShape
       (ptd_lift_to_parallel_with_degrees (ts_dims unpar) sum_degree discard_copy_degree shard_degrees)
       (ts_data_type unpar)"

definition lift_to_parallel_with_dim_degrees ::
    "tensor_shape \<Rightarrow> parallel_tensor_dim_degrees \<Rightarrow> parallel_tensor_shape" where
  "lift_to_parallel_with_dim_degrees unpar degrees =
     ParallelTensorShape (ptd_lift_to_parallel_with_dim_degrees (ts_dims unpar) degrees)
       (ts_data_type unpar)"

definition get_reduced_shape :: "parallel_tensor_shape \<Rightarrow> tensor_shape" where
  "get_reduced_shape s = TensorShape (get_reduced_dims (pts_dims s)) (pts_data_type s)"

definition require_not_parallel :: "parallel_tensor_shape \<Rightarrow> tensor_shape res" where
  "require_not_parallel s =
     res_bind (get_total_parallel_degree s) (\<lambda>total_degree.
     res_bind (ASSERT (total_degree \<noteq> 1)) (\<lambda>_.
     Inr (get_reduced_shape s)))"

definition get_piece_shape :: "parallel_tensor_shape \<Rightarrow> tensor_shape" where
  "get_piece_shape s = get_reduced_shape s"

definition get_piece_size_in_bytes :: "parallel_tensor_shape \<Rightarrow> nat res" where
  "get_piece_size_in_bytes s = get_size_in_bytes (get_piece_shape s)"

fun get_parallel_dim_at_idx ::
    "parallel_tensor_shape \<Rightarrow> parallel_tensor_dim_idx_t \<Rightarrow> parallel_dim res" where
  "get_parallel_dim_at_idx shape (Shard_idx shard_dim) =
     res_bind (ff_ordered_at (ptd_shard_dims (pts_dims shape)) shard_dim) (\<lambda>d. Inr (Shard_dim d))"
| "get_parallel_dim_at_idx shape (Replica_idx replica_type) =
     (let replicas = ptd_replica_dims (pts_dims shape);
          degree = (if Replica_SUM = replica_type then rps_sum_degree replicas
                    else rps_discard_copy_degree replicas)
      in Inr (Replica_dim (ReplicaParallelDim degree replica_type)))"

definition pts_get_parallel_tensor_dim_indices ::
    "parallel_tensor_shape \<Rightarrow> parallel_tensor_dim_idx_t set res" where
  "pts_get_parallel_tensor_dim_indices shape =
     res_bind (pts_num_shard_dims shape) (\<lambda>n.
     Inr (Shard_idx ` set [0..<n] \<union> {Replica_idx Replica_SUM} \<union>
          {Replica_idx Replica_DISCARD_COPY}))"

section \<open>Indices of parallel dimensions\<close>

definition sum_dim_idx :: parallel_tensor_dim_idx_t where
  "sum_dim_idx = Replica_idx Replica_SUM"

definition discard_copy_dim_idx :: parallel_tensor_dim_idx_t where
  "discard_copy_dim_idx = Replica_idx Replica_DISCARD_COPY"

definition shard_dim_idx :: "ff_dim_t \<Rightarrow> parallel_tensor_dim_idx_t" where
  "shard_dim_idx idx = Shard_idx idx"

definition is_dim_idx_for_reduction_dimension :: "parallel_tensor_dim_idx_t \<Rightarrow> bool" where
  "is_dim_idx_for_reduction_dimension dim_idx \<longleftrightarrow>
     dim_idx = sum_dim_idx \<or> dim_idx = discard_copy_dim_idx"

definition dim_idxs_for_num_shard_dims :: "nonnegative_int \<Rightarrow> parallel_tensor_dim_idx_t set" where
  "dim_idxs_for_num_shard_dims num_shard_dims =
     insert discard_copy_dim_idx (insert sum_dim_idx
       (shard_dim_idx ` set (ff_dim_range num_shard_dims)))"

text \<open>
  The comparison of \<open>get_parallel_tensor_dim_ordering\<close>. \<open>ReplicaType\<close> is an enum whose values
  compare in declaration order, \<open>DISCARD_COPY\<close> before \<open>SUM\<close>.
\<close>

fun replica_type_less :: "replica_type \<Rightarrow> replica_type \<Rightarrow> bool" where
  "replica_type_less Replica_DISCARD_COPY Replica_SUM = True"
| "replica_type_less _ _ = False"

fun parallel_tensor_dim_lt :: "parallel_tensor_dim_idx_t \<Rightarrow> parallel_tensor_dim_idx_t \<Rightarrow> bool" where
  "parallel_tensor_dim_lt (Shard_idx l) (Shard_idx r) = (l < r)"
| "parallel_tensor_dim_lt (Shard_idx l) (Replica_idx r) = False"
| "parallel_tensor_dim_lt (Replica_idx l) (Shard_idx r) = True"
| "parallel_tensor_dim_lt (Replica_idx l) (Replica_idx r) = replica_type_less r l"

section \<open>Degrees\<close>

definition get_total_degree_of_ptensor_dim_degrees ::
    "parallel_tensor_dim_degrees \<Rightarrow> positive_int res" where
  "get_total_degree_of_ptensor_dim_degrees degrees =
     res_bind (positive_int_mul (ptdd_sum_degree degrees) (ptdd_discard_copy_degree degrees)) (\<lambda>r.
     res_bind (product (ptdd_shard_degrees degrees)) (\<lambda>s.
     positive_int_mul r s))"

definition get_ptensor_dim_degrees_num_shard_dims ::
    "parallel_tensor_dim_degrees \<Rightarrow> nonnegative_int res" where
  "get_ptensor_dim_degrees_num_shard_dims degrees = num_elements (ptdd_shard_degrees degrees)"

definition get_ptensor_dim_degrees_num_tensor_dims ::
    "parallel_tensor_dim_degrees \<Rightarrow> nonnegative_int res" where
  "get_ptensor_dim_degrees_num_tensor_dims degrees =
     res_bind (get_ptensor_dim_degrees_num_shard_dims degrees) mk_num_tensor_dims"

definition get_parallel_tensor_dim_indices ::
    "parallel_tensor_dim_degrees \<Rightarrow> parallel_tensor_dim_idx_t set res" where
  "get_parallel_tensor_dim_indices degrees =
     res_bind (get_ptensor_dim_degrees_num_shard_dims degrees) (\<lambda>n.
     Inr (insert discard_copy_dim_idx (insert sum_dim_idx (dim_idxs_for_num_shard_dims n))))"

text \<open>The lambda reads \<open>shard_degrees.at(dim)\<close> at the indices of \<open>shard_degrees\<close> itself.\<close>

definition get_nontrivial_parallel_tensor_dim_indices ::
    "parallel_tensor_dim_degrees \<Rightarrow> parallel_tensor_dim_idx_t set" where
  "get_nontrivial_parallel_tensor_dim_indices degrees =
     (if 1 < ptdd_sum_degree degrees then {Replica_idx Replica_SUM} else {}) \<union>
     (if 1 < ptdd_discard_copy_degree degrees then {Replica_idx Replica_DISCARD_COPY} else {}) \<union>
     Shard_idx ` set (filter (\<lambda>dim. 1 < ptdd_shard_degrees degrees ! dim)
       (ff_ordered_get_idxs (ptdd_shard_degrees degrees)))"

definition get_degree_for_parallel_tensor_dim_idx ::
    "parallel_tensor_dim_degrees \<Rightarrow> parallel_tensor_dim_idx_t \<Rightarrow> positive_int res" where
  "get_degree_for_parallel_tensor_dim_idx dim_degrees idx =
     (case idx of
        Replica_idx Replica_SUM \<Rightarrow> Inr (ptdd_sum_degree dim_degrees)
      | Replica_idx Replica_DISCARD_COPY \<Rightarrow> Inr (ptdd_discard_copy_degree dim_degrees)
      | Shard_idx d \<Rightarrow> ff_ordered_at (ptdd_shard_degrees dim_degrees) d)"

text \<open>
  \<open>map_keys\<close> with \<open>shard_dim_idx\<close> moves the entry of \<open>d\<close> to \<open>Shard_idx d\<close>; the keys of the two
  merged maps are disjoint, so \<open>binary_merge_disjoint_maps\<close> is the union.
\<close>

definition map_keys_shard :: "(ff_dim_t \<rightharpoonup> 'v) \<Rightarrow> (parallel_tensor_dim_idx_t \<rightharpoonup> 'v)" where
  "map_keys_shard m idx = (case idx of Shard_idx d \<Rightarrow> m d | Replica_idx _ \<Rightarrow> None)"

definition filtermap_keys_shard :: "(parallel_tensor_dim_idx_t \<rightharpoonup> 'v) \<Rightarrow> (ff_dim_t \<rightharpoonup> 'v)" where
  "filtermap_keys_shard m d = m (Shard_idx d)"

definition get_parallel_tensor_degree_map ::
    "parallel_tensor_dim_degrees \<Rightarrow> (parallel_tensor_dim_idx_t \<rightharpoonup> positive_int)" where
  "get_parallel_tensor_degree_map degrees =
     [Replica_idx Replica_SUM \<mapsto> ptdd_sum_degree degrees,
      Replica_idx Replica_DISCARD_COPY \<mapsto> ptdd_discard_copy_degree degrees] ++
     map_keys_shard (map_of (map (\<lambda>dim. (dim, ptdd_shard_degrees degrees ! dim))
       (ff_ordered_get_idxs (ptdd_shard_degrees degrees))))"

text \<open>A \<open>DimDomain\<close> has one field, its map \<open>dims\<close>.\<close>

definition dim_domain_from_parallel_tensor_dim_degrees ::
    "parallel_tensor_dim_degrees \<Rightarrow> (parallel_tensor_dim_idx_t \<rightharpoonup> positive_int) res" where
  "dim_domain_from_parallel_tensor_dim_degrees dim_degrees =
     res_bind (get_parallel_tensor_dim_indices dim_degrees) (\<lambda>idxs.
     Inr (\<lambda>idx. if idx \<in> idxs
       then (case get_degree_for_parallel_tensor_dim_idx dim_degrees idx of
               Inr d \<Rightarrow> Some d | Inl _ \<Rightarrow> None)
       else None))"

definition parallel_tensor_dim_degrees_from_dim_domain ::
    "(parallel_tensor_dim_idx_t \<rightharpoonup> positive_int) \<Rightarrow> parallel_tensor_dim_degrees res" where
  "parallel_tensor_dim_degrees_from_dim_domain dims =
     res_bind (map_at dims sum_dim_idx) (\<lambda>s.
     res_bind (map_at dims discard_copy_dim_idx) (\<lambda>c.
     res_bind (ff_ordered_from_map (filtermap_keys_shard dims)) (\<lambda>ds.
     Inr (ParallelTensorDimDegrees s c ds))))"

section \<open>Coordinates\<close>

record parallel_tensor_space_coordinate =
  ptsc_sum_component :: nonnegative_int
  ptsc_discard_copy_component :: nonnegative_int
  ptsc_shard_components :: "nonnegative_int ff_ordered"

abbreviation ParallelTensorSpaceCoordinate ::
    "nonnegative_int \<Rightarrow> nonnegative_int \<Rightarrow> nonnegative_int ff_ordered \<Rightarrow>
     parallel_tensor_space_coordinate" where
  "ParallelTensorSpaceCoordinate s c ds \<equiv>
     \<lparr> ptsc_sum_component = s, ptsc_discard_copy_component = c, ptsc_shard_components = ds \<rparr>"

definition ptensor_coord_num_dims :: "parallel_tensor_space_coordinate \<Rightarrow> nonnegative_int res" where
  "ptensor_coord_num_dims c =
     res_bind (num_elements (ptsc_shard_components c)) (\<lambda>n. nonnegative_int_add 2 n)"

definition ptensor_coord_num_shard_dims ::
    "parallel_tensor_space_coordinate \<Rightarrow> nonnegative_int res" where
  "ptensor_coord_num_shard_dims c = num_elements (ptsc_shard_components c)"

definition get_dim_idxs_in_ptensor_space_coord ::
    "parallel_tensor_space_coordinate \<Rightarrow> parallel_tensor_dim_idx_t set res" where
  "get_dim_idxs_in_ptensor_space_coord coord =
     res_bind (ptensor_coord_num_shard_dims coord) (\<lambda>n.
     Inr (insert discard_copy_dim_idx (insert sum_dim_idx (dim_idxs_for_num_shard_dims n))))"

definition ptensor_coord_component_for_ptensor_dim_idx ::
    "parallel_tensor_space_coordinate \<Rightarrow> parallel_tensor_dim_idx_t \<Rightarrow> nonnegative_int res" where
  "ptensor_coord_component_for_ptensor_dim_idx coord dim_idx =
     (case dim_idx of
        Replica_idx Replica_SUM \<Rightarrow> Inr (ptsc_sum_component coord)
      | Replica_idx Replica_DISCARD_COPY \<Rightarrow> Inr (ptsc_discard_copy_component coord)
      | Shard_idx d \<Rightarrow> ff_ordered_at (ptsc_shard_components coord) d)"

definition parallel_tensor_space_coord_from_map ::
    "(parallel_tensor_dim_idx_t \<rightharpoonup> nonnegative_int) \<Rightarrow> parallel_tensor_space_coordinate res" where
  "parallel_tensor_space_coord_from_map m =
     res_bind (ASSERT (sum_dim_idx \<in> dom m)) (\<lambda>_.
     res_bind (ASSERT (discard_copy_dim_idx \<in> dom m)) (\<lambda>_.
     res_bind (map_at m sum_dim_idx) (\<lambda>s.
     res_bind (map_at m discard_copy_dim_idx) (\<lambda>c.
     res_bind (ff_ordered_from_map (filtermap_keys_shard m)) (\<lambda>ds.
     Inr (ParallelTensorSpaceCoordinate s c ds))))))"

text \<open>\<open>generate_map\<close> on the indices of the coordinate; every component it reads exists.\<close>

definition dim_coord_from_parallel_tensor_space_coord ::
    "parallel_tensor_space_coordinate \<Rightarrow> (parallel_tensor_dim_idx_t \<rightharpoonup> nonnegative_int) res" where
  "dim_coord_from_parallel_tensor_space_coord coord =
     res_bind (get_dim_idxs_in_ptensor_space_coord coord) (\<lambda>idxs.
     Inr (\<lambda>idx. if idx \<in> idxs
       then (case ptensor_coord_component_for_ptensor_dim_idx coord idx of
               Inr d \<Rightarrow> Some d | Inl _ \<Rightarrow> None)
       else None))"

section \<open>Well-formed parallel shapes\<close>

definition wf_degrees :: "parallel_tensor_dim_degrees \<Rightarrow> bool" where
  "wf_degrees d \<longleftrightarrow>
     valid_pos (ptdd_sum_degree d) \<and> valid_pos (ptdd_discard_copy_degree d) \<and>
     (\<forall>x \<in> set (ptdd_shard_degrees d). valid_pos x)"

definition wf_pshape :: "parallel_tensor_shape \<Rightarrow> bool" where
  "wf_pshape s \<longleftrightarrow> wf_shape (get_reduced_shape s) \<and> wf_degrees (get_parallel_degrees s)"

section \<open>Lemmas\<close>

named_theorems shape_ops \<open>what the projections of a parallel shape are\<close>

lemma get_reduced_shape_simps [shape_ops]:
  "ts_dims (get_reduced_shape s) = map spd_size (ptd_shard_dims (pts_dims s))"
  "ts_data_type (get_reduced_shape s) = pts_data_type s"
  by (simp_all add: get_reduced_shape_def get_reduced_dims_def ff_ordered_transform_def)

lemma get_parallel_degrees_simps [shape_ops]:
  "ptdd_sum_degree (get_parallel_degrees s) = get_sum_degree s"
  "ptdd_discard_copy_degree (get_parallel_degrees s) = get_discard_copy_degree s"
  "ptdd_shard_degrees (get_parallel_degrees s) = map spd_degree (ptd_shard_dims (pts_dims s))"
  by (simp_all add: get_parallel_degrees_def ptd_get_parallel_degrees_def get_sum_degree_def
      get_discard_copy_degree_def ff_ordered_shard_degrees_def ff_ordered_transform_def)

lemma length_shard_degrees:
  "length (ptdd_shard_degrees (get_parallel_degrees s)) = length (ts_dims (get_reduced_shape s))"
  by (simp add: shape_ops)

lemma lift_simps [shape_ops]:
  "pts_data_type (lift_to_parallel_with_dim_degrees u d) = ts_data_type u"
  "get_sum_degree (lift_to_parallel_with_dim_degrees u d) = ptdd_sum_degree d"
  "get_discard_copy_degree (lift_to_parallel_with_dim_degrees u d) = ptdd_discard_copy_degree d"
  "ptd_shard_dims (pts_dims (lift_to_parallel_with_dim_degrees u d)) =
     map (\<lambda>p. ShardParallelDim (fst p) (snd p)) (zip (ts_dims u) (ptdd_shard_degrees d))"
  by (simp_all add: lift_to_parallel_with_dim_degrees_def ptd_lift_to_parallel_with_dim_degrees_def
      ptd_lift_to_parallel_with_degrees_def get_sum_degree_def get_discard_copy_degree_def)

lemma map_fst_zip_le: "length xs \<le> length ys \<Longrightarrow> map fst (zip xs ys) = xs"
  by (simp add: map_fst_zip_take)

lemma map_snd_zip_le: "length ys \<le> length xs \<Longrightarrow> map snd (zip xs ys) = ys"
  by (simp add: map_snd_zip_take)

lemma get_reduced_shape_lift:
  "length (ts_dims u) \<le> length (ptdd_shard_degrees d) \<Longrightarrow>
     get_reduced_shape (lift_to_parallel_with_dim_degrees u d) = u"
  by (simp add: get_reduced_shape_def get_reduced_dims_def ff_ordered_transform_def comp_def
      shape_ops map_fst_zip_le)

lemma get_parallel_degrees_lift:
  "length (ptdd_shard_degrees d) \<le> length (ts_dims u) \<Longrightarrow>
     get_parallel_degrees (lift_to_parallel_with_dim_degrees u d) = d"
  by (rule parallel_tensor_dim_degrees.equality)
    (simp_all add: shape_ops comp_def map_snd_zip_le)

lemma shard_dims_of_parts:
  "map (\<lambda>p. ShardParallelDim (fst p) (snd p)) (zip (map spd_size ds) (map spd_degree ds)) = ds"
  by (induction ds) simp_all

lemma lift_of_parts:
  "lift_to_parallel_with_dim_degrees (get_reduced_shape s) (get_parallel_degrees s) = s"
  by (simp add: lift_to_parallel_with_dim_degrees_def ptd_lift_to_parallel_with_dim_degrees_def
      ptd_lift_to_parallel_with_degrees_def shape_ops shard_dims_of_parts get_sum_degree_def
      get_discard_copy_degree_def)

lemma pshape_eqI:
  "get_reduced_shape s = get_reduced_shape t \<Longrightarrow> get_parallel_degrees s = get_parallel_degrees t \<Longrightarrow>
     s = t"
  by (metis lift_of_parts)

text \<open>A total degree is defined when every factor is positive and the product fits.\<close>

definition total_degree :: "parallel_tensor_dim_degrees \<Rightarrow> nat" where
  "total_degree d = ptdd_sum_degree d * ptdd_discard_copy_degree d * prod_list (ptdd_shard_degrees d)"

lemma mult_bound_left: "0 < (b::nat) \<Longrightarrow> a * b \<le> n \<Longrightarrow> a \<le> n"
  by (cases b) auto

lemma mult_bound_right: "0 < (a::nat) \<Longrightarrow> a * b \<le> n \<Longrightarrow> b \<le> n"
  by (cases a) auto

lemma total_degree_eq:
  "get_total_degree_of_ptensor_dim_degrees d = Inr t \<longleftrightarrow>
     0 < ptdd_sum_degree d \<and> 0 < ptdd_discard_copy_degree d \<and>
     (\<forall>x \<in> set (ptdd_shard_degrees d). 0 < x) \<and> t = total_degree d \<and> total_degree d \<le> INT_MAX"
proof -
  let ?p = "prod_list (ptdd_shard_degrees d)"
  let ?r = "ptdd_sum_degree d * ptdd_discard_copy_degree d"
  have "?r \<le> INT_MAX" "?p \<le> INT_MAX" if "0 < ?r" "0 < ?p" "?r * ?p \<le> INT_MAX"
    using that mult_bound_left [of ?p ?r] mult_bound_left [of ?r ?p] by (simp_all add: mult.commute)
  then show ?thesis
    using prod_list_pos [of "ptdd_shard_degrees d"]
    by (auto simp: get_total_degree_of_ptensor_dim_degrees_def int_ops total_degree_def)
qed

lemma get_total_parallel_degree_eq:
  "get_total_parallel_degree s = Inr t \<longleftrightarrow>
     get_total_degree_of_ptensor_dim_degrees (get_parallel_degrees s) = Inr t"
proof -
  let ?r = "ptd_replica_dims (pts_dims s)"
  have "total_replica_degree (pts_dims s) =
      positive_int_mul (rps_sum_degree ?r) (rps_discard_copy_degree ?r)"
    by (simp add: total_replica_degree_def positive_int_mul_def mult.commute)
  then show ?thesis
    by (simp only: get_total_parallel_degree_def total_parallel_degree_def total_shard_degree_def
        get_total_degree_of_ptensor_dim_degrees_def shape_ops get_sum_degree_def
        get_discard_copy_degree_def)
qed

lemma wf_degreesD:
  "wf_degrees d \<Longrightarrow> 0 < ptdd_sum_degree d"
  "wf_degrees d \<Longrightarrow> 0 < ptdd_discard_copy_degree d"
  "wf_degrees d \<Longrightarrow> \<forall>x \<in> set (ptdd_shard_degrees d). 0 < x"
  by (auto simp: wf_degrees_def valid_pos_def)

lemma wf_butlast_last:
  "xs \<noteq> [] \<Longrightarrow> wf_dims xs \<Longrightarrow> wf_dims (butlast xs) \<and> valid_pos (last xs)"
  by (auto simp: wf_dims_def dest: in_set_butlastD)

lemma prod_list_butlast_last: "xs \<noteq> [] \<Longrightarrow> prod_list (butlast xs) * last xs = prod_list (xs :: nat list)"
  by (cases xs rule: rev_cases) simp_all

lemma wf_degrees_simps [simp]:
  "wf_degrees (ParallelTensorDimDegrees s c ds) \<longleftrightarrow> valid_pos s \<and> valid_pos c \<and> wf_dims ds"
  by (simp add: wf_degrees_def wf_dims_def)

lemma wf_degrees_iff:
  "wf_degrees d \<longleftrightarrow> valid_pos (ptdd_sum_degree d) \<and> valid_pos (ptdd_discard_copy_degree d) \<and>
     wf_dims (ptdd_shard_degrees d)"
  by (simp add: wf_degrees_def wf_dims_def)

lemma total_degree_simps [simp]:
  "total_degree (ParallelTensorDimDegrees s c ds) = s * c * prod_list ds"
  by (simp add: total_degree_def)

lemma total_degree_wf:
  "wf_degrees d \<Longrightarrow>
     get_total_degree_of_ptensor_dim_degrees d = Inr t \<longleftrightarrow>
       t = total_degree d \<and> total_degree d \<le> INT_MAX"
  using wf_degreesD [of d] by (simp add: total_degree_eq)

lemma wf_degrees_if_total:
  assumes "get_total_degree_of_ptensor_dim_degrees d = Inr t"
  shows "wf_degrees d"
proof -
  let ?s = "ptdd_sum_degree d" and ?c = "ptdd_discard_copy_degree d"
  let ?xs = "ptdd_shard_degrees d"
  from assms have pos: "0 < ?s" "0 < ?c" "\<forall>x \<in> set ?xs. 0 < x"
    and m: "?s * ?c * prod_list ?xs \<le> INT_MAX"
    by (auto simp: total_degree_eq total_degree_def)
  have p: "0 < prod_list ?xs" using pos(3) by (rule prod_list_pos)
  have sc: "?s * ?c \<le> INT_MAX" using p m by (rule mult_bound_left)
  have "0 < ?s * ?c" using pos by simp
  then have ds: "prod_list ?xs \<le> INT_MAX" using m by (rule mult_bound_right)
  have "?s \<le> INT_MAX" using pos(2) sc by (rule mult_bound_left)
  moreover have "?c \<le> INT_MAX" using pos(1) sc by (rule mult_bound_right)
  moreover have "x \<le> INT_MAX" if "x \<in> set ?xs" for x
    using prod_list_elem_le [OF pos(3) that] ds by (rule order.trans)
  ultimately show ?thesis
    using pos by (simp add: wf_degrees_def valid_pos_def)
qed

lemma mem_dim_idxs [simp]:
  "idx \<in> dim_idxs_for_num_shard_dims n \<longleftrightarrow> (case idx of Shard_idx d \<Rightarrow> d < n | Replica_idx _ \<Rightarrow> True)"
  by (cases idx; cases "case idx of Replica_idx r \<Rightarrow> r | _ \<Rightarrow> Replica_SUM")
    (auto simp: dim_idxs_for_num_shard_dims_def sum_dim_idx_def discard_copy_dim_idx_def
      shard_dim_idx_def ff_dim_range_def)

lemma replica_idx_mem_insert [simp]:
  "insert discard_copy_dim_idx (insert sum_dim_idx (dim_idxs_for_num_shard_dims n)) =
     dim_idxs_for_num_shard_dims n"
  by (auto simp: sum_dim_idx_def discard_copy_dim_idx_def)

lemma get_parallel_tensor_dim_indices_eq:
  "length (ptdd_shard_degrees d) \<le> INT_MAX \<Longrightarrow>
     get_parallel_tensor_dim_indices d = Inr (dim_idxs_for_num_shard_dims (length (ptdd_shard_degrees d)))"
  by (simp add: get_parallel_tensor_dim_indices_def get_ptensor_dim_degrees_num_shard_dims_def
      num_elements_def nonnegative_int_from_size_def)

lemma get_dim_idxs_in_ptensor_space_coord_eq:
  "length (ptsc_shard_components c) \<le> INT_MAX \<Longrightarrow>
     get_dim_idxs_in_ptensor_space_coord c =
       Inr (dim_idxs_for_num_shard_dims (length (ptsc_shard_components c)))"
  by (simp add: get_dim_idxs_in_ptensor_space_coord_def ptensor_coord_num_shard_dims_def
      num_elements_def nonnegative_int_from_size_def)

lemma get_degree_for_idx_simps [simp]:
  "get_degree_for_parallel_tensor_dim_idx d (Replica_idx Replica_SUM) = Inr (ptdd_sum_degree d)"
  "get_degree_for_parallel_tensor_dim_idx d (Replica_idx Replica_DISCARD_COPY) =
     Inr (ptdd_discard_copy_degree d)"
  "get_degree_for_parallel_tensor_dim_idx d (Shard_idx i) = ff_ordered_at (ptdd_shard_degrees d) i"
  by (simp_all add: get_degree_for_parallel_tensor_dim_idx_def)

lemma coord_component_simps [simp]:
  "ptensor_coord_component_for_ptensor_dim_idx c (Replica_idx Replica_SUM) = Inr (ptsc_sum_component c)"
  "ptensor_coord_component_for_ptensor_dim_idx c (Replica_idx Replica_DISCARD_COPY) =
     Inr (ptsc_discard_copy_component c)"
  "ptensor_coord_component_for_ptensor_dim_idx c (Shard_idx i) =
     ff_ordered_at (ptsc_shard_components c) i"
  by (simp_all add: ptensor_coord_component_for_ptensor_dim_idx_def)

text \<open>The map that \<open>generate_map\<close> builds from the components of a coordinate or of the degrees.\<close>

definition components_map :: "'a \<Rightarrow> 'a \<Rightarrow> 'a list \<Rightarrow> parallel_tensor_dim_idx_t \<rightharpoonup> 'a" where
  "components_map s c ds idx = (case idx of Replica_idx Replica_SUM \<Rightarrow> Some s
     | Replica_idx Replica_DISCARD_COPY \<Rightarrow> Some c | Shard_idx i \<Rightarrow> ff_ordered_enumerate ds i)"

lemma components_map_simps [simp]:
  "components_map s c ds (Replica_idx Replica_SUM) = Some s"
  "components_map s c ds (Replica_idx Replica_DISCARD_COPY) = Some c"
  "components_map s c ds (Shard_idx i) = ff_ordered_enumerate ds i"
  by (simp_all add: components_map_def)

lemma filtermap_components [simp]: "filtermap_keys_shard (components_map s c ds) = ff_ordered_enumerate ds"
  by (simp add: fun_eq_iff filtermap_keys_shard_def)

lemma parallel_idx_cases:
  obtains (sum) "idx = Replica_idx Replica_SUM"
  | (copy) "idx = Replica_idx Replica_DISCARD_COPY"
  | (shard) i where "idx = Shard_idx i"
  by (cases idx) (use replica_type.exhaust in blast)+

lemma dim_domain_eq:
  assumes "length (ptdd_shard_degrees d) \<le> INT_MAX"
  shows "dim_domain_from_parallel_tensor_dim_degrees d = Inr (components_map (ptdd_sum_degree d)
      (ptdd_discard_copy_degree d) (ptdd_shard_degrees d))"
proof -
  have "(if idx \<in> dim_idxs_for_num_shard_dims (length (ptdd_shard_degrees d))
       then (case get_degree_for_parallel_tensor_dim_idx d idx of Inr x \<Rightarrow> Some x | Inl _ \<Rightarrow> None)
       else None) =
      components_map (ptdd_sum_degree d) (ptdd_discard_copy_degree d) (ptdd_shard_degrees d) idx"
    for idx
    by (cases idx rule: parallel_idx_cases)
      (auto simp: ff_ordered_enumerate_eq ff_ordered_at_def)
  then show ?thesis
    by (simp add: dim_domain_from_parallel_tensor_dim_degrees_def
        get_parallel_tensor_dim_indices_eq [OF assms])
qed

lemma dim_coord_eq:
  assumes "length (ptsc_shard_components c) \<le> INT_MAX"
  shows "dim_coord_from_parallel_tensor_space_coord c = Inr (components_map (ptsc_sum_component c)
      (ptsc_discard_copy_component c) (ptsc_shard_components c))"
proof -
  have "(if idx \<in> dim_idxs_for_num_shard_dims (length (ptsc_shard_components c))
       then (case ptensor_coord_component_for_ptensor_dim_idx c idx of
               Inr x \<Rightarrow> Some x | Inl _ \<Rightarrow> None)
       else None) =
      components_map (ptsc_sum_component c) (ptsc_discard_copy_component c)
        (ptsc_shard_components c) idx" for idx
    by (cases idx rule: parallel_idx_cases)
      (auto simp: ff_ordered_enumerate_eq ff_ordered_at_def)
  then show ?thesis
    by (simp add: dim_coord_from_parallel_tensor_space_coord_def
        get_dim_idxs_in_ptensor_space_coord_eq [OF assms])
qed

section \<open>Properties\<close>

text \<open>
  Claim C38. A parallel shape is its reduced shape together with its degrees: lifting the reduced
  shape of \<open>s\<close> with the degrees of \<open>s\<close> gives \<open>s\<close> back, and lifting a shape with as many shard
  degrees as it has dimensions gives a parallel shape with exactly that reduced shape and those
  degrees.
\<close>

theorem lift_to_parallel_roundtrip:
  assumes "length (ptdd_shard_degrees d) = length (ts_dims u)"
  shows "lift_to_parallel_with_dim_degrees (get_reduced_shape s) (get_parallel_degrees s) = s \<and>
    get_reduced_shape (lift_to_parallel_with_dim_degrees u d) = u \<and>
    get_parallel_degrees (lift_to_parallel_with_dim_degrees u d) = d"
  using assms by (simp add: lift_of_parts get_reduced_shape_lift get_parallel_degrees_lift)

theorem lift_to_parallel_roundtrip_witness:
  "get_reduced_shape (lift_to_parallel_with_dim_degrees (TensorShape [6, 4] FLOAT)
     (ParallelTensorDimDegrees 2 1 [3, 2])) = TensorShape [6, 4] FLOAT"
  by (rule lift_to_parallel_roundtrip [THEN conjunct2, THEN conjunct1]) simp

text \<open>
  Degrees and dimension domains are the same data: the domain built from degrees exists
  and gives the same degrees back, and when a finite domain yields degrees, building the domain of
  these degrees gives the domain back. The rank is assumed to fit an \<open>int\<close>.
\<close>

theorem dim_domain_degrees_roundtrip:
  assumes "length (ptdd_shard_degrees d) \<le> INT_MAX" and "finite (dom m)"
  shows "(\<exists>dims. dim_domain_from_parallel_tensor_dim_degrees d = Inr dims \<and>
        parallel_tensor_dim_degrees_from_dim_domain dims = Inr d) \<and>
    (parallel_tensor_dim_degrees_from_dim_domain m = Inr d \<longrightarrow>
        dim_domain_from_parallel_tensor_dim_degrees d = Inr m)"
proof (rule conjI)
  have "parallel_tensor_dim_degrees_from_dim_domain (components_map (ptdd_sum_degree d)
      (ptdd_discard_copy_degree d) (ptdd_shard_degrees d)) = Inr d"
    by (simp add: parallel_tensor_dim_degrees_from_dim_domain_def map_at_def sum_dim_idx_def
        discard_copy_dim_idx_def ff_ordered_from_map_enumerate)
  with dim_domain_eq [OF assms(1)] show "\<exists>dims. dim_domain_from_parallel_tensor_dim_degrees d =
      Inr dims \<and> parallel_tensor_dim_degrees_from_dim_domain dims = Inr d"
    by blast
  show "parallel_tensor_dim_degrees_from_dim_domain m = Inr d \<longrightarrow>
      dim_domain_from_parallel_tensor_dim_degrees d = Inr m"
  proof
    assume "parallel_tensor_dim_degrees_from_dim_domain m = Inr d"
    then have s: "m (Replica_idx Replica_SUM) = Some (ptdd_sum_degree d)"
      and c: "m (Replica_idx Replica_DISCARD_COPY) = Some (ptdd_discard_copy_degree d)"
      and ds: "ff_ordered_from_map (filtermap_keys_shard m) = Inr (ptdd_shard_degrees d)"
      by (auto simp: parallel_tensor_dim_degrees_from_dim_domain_def sum_dim_idx_def
          discard_copy_dim_idx_def)
    have "Shard_idx ` dom (filtermap_keys_shard m) \<subseteq> dom m"
      by (auto simp: filtermap_keys_shard_def)
    then have "finite (dom (filtermap_keys_shard m))"
      using assms(2) by (meson finite_subset finite_imageD inj_onI parallel_tensor_dim_idx_t.inject(1))
    then have f: "filtermap_keys_shard m = ff_ordered_enumerate (ptdd_shard_degrees d)"
      using ds by (rule ff_ordered_enumerate_from_map [rotated])
    have "m idx = components_map (ptdd_sum_degree d) (ptdd_discard_copy_degree d)
        (ptdd_shard_degrees d) idx" for idx
      using fun_cong [OF f]
      by (cases idx rule: parallel_idx_cases) (simp_all add: s c filtermap_keys_shard_def)
    then have "m = components_map (ptdd_sum_degree d) (ptdd_discard_copy_degree d)
        (ptdd_shard_degrees d)" by blast
    then show "dim_domain_from_parallel_tensor_dim_degrees d = Inr m"
      using dim_domain_eq [OF assms(1)] by simp
  qed
qed

theorem dim_domain_degrees_roundtrip_witness:
  "\<exists>dims. dim_domain_from_parallel_tensor_dim_degrees (ParallelTensorDimDegrees 2 3 [4, 5]) = Inr dims \<and>
     parallel_tensor_dim_degrees_from_dim_domain dims = Inr (ParallelTensorDimDegrees 2 3 [4, 5])"
  by (rule dim_domain_degrees_roundtrip [of _ Map.empty, THEN conjunct1])
    (simp_all add: INT_MAX_def)

text \<open>
  A coordinate in parallel tensor space survives the trip through its map: the map that
  \<open>dim_coord_from_parallel_tensor_space_coord\<close> builds passes the assertions of
  \<open>parallel_tensor_space_coord_from_map\<close> and gives the same coordinate back.
\<close>

theorem parallel_tensor_space_coord_roundtrip:
  assumes "length (ptsc_shard_components c) \<le> INT_MAX"
  shows "\<exists>m. dim_coord_from_parallel_tensor_space_coord c = Inr m \<and>
    parallel_tensor_space_coord_from_map m = Inr c"
  unfolding dim_coord_eq [OF assms]
  by (auto simp: parallel_tensor_space_coord_from_map_def map_at_def sum_dim_idx_def
      discard_copy_dim_idx_def ff_ordered_from_map_enumerate)

theorem parallel_tensor_space_coord_roundtrip_witness:
  "\<exists>m. dim_coord_from_parallel_tensor_space_coord (ParallelTensorSpaceCoordinate 1 0 [3, 2]) = Inr m \<and>
     parallel_tensor_space_coord_from_map m = Inr (ParallelTensorSpaceCoordinate 1 0 [3, 2])"
  by (rule parallel_tensor_space_coord_roundtrip) (simp add: INT_MAX_def)

text \<open>
  The three ways to read a degree agree: the map of all degrees has an entry for an index
  exactly when \<open>get_degree_for_parallel_tensor_dim_idx\<close> returns that degree, which it does exactly
  for the indices of \<open>get_parallel_tensor_dim_indices\<close>, and the nontrivial indices are those with
  a degree above 1.
\<close>

theorem parallel_degree_views_agree:
  assumes "get_parallel_tensor_dim_indices d = Inr idxs"
  shows "(get_parallel_tensor_degree_map d idx = Some n \<longleftrightarrow>
        get_degree_for_parallel_tensor_dim_idx d idx = Inr n) \<and>
    (idx \<in> idxs \<longleftrightarrow> (\<exists>n. get_degree_for_parallel_tensor_dim_idx d idx = Inr n)) \<and>
    (idx \<in> get_nontrivial_parallel_tensor_dim_indices d \<longleftrightarrow>
        (\<exists>n > 1. get_degree_for_parallel_tensor_dim_idx d idx = Inr n))"
proof -
  have "length (ptdd_shard_degrees d) \<le> INT_MAX"
    using assms by (auto simp: get_parallel_tensor_dim_indices_def num_elements_def int_ops
        get_ptensor_dim_degrees_num_shard_dims_def)
  with assms have idxs: "idxs = dim_idxs_for_num_shard_dims (length (ptdd_shard_degrees d))"
    by (simp add: get_parallel_tensor_dim_indices_eq)
  show ?thesis unfolding idxs
    by (cases idx rule: parallel_idx_cases)
      (auto simp: get_parallel_tensor_degree_map_def map_keys_shard_def map_add_def container_ops
        map_of_map_restrict restrict_map_def ff_ordered_get_idxs_def
        get_nontrivial_parallel_tensor_dim_indices_def)
qed

theorem parallel_degree_views_agree_witness:
  "Shard_idx 1 \<in> get_nontrivial_parallel_tensor_dim_indices (ParallelTensorDimDegrees 1 3 [1, 5])"
proof -
  let ?d = "ParallelTensorDimDegrees 1 3 [1, 5]"
  have "get_parallel_tensor_dim_indices ?d = Inr (dim_idxs_for_num_shard_dims 2)"
    by (subst get_parallel_tensor_dim_indices_eq) (simp_all add: INT_MAX_def numeral_2_eq_2)
  from parallel_degree_views_agree [OF this, of "Shard_idx 1"] show ?thesis
    by (simp add: ff_ordered_at_def vector_at_def)
qed

text \<open>
  \<open>require_not_parallel\<close> is inverted: it accepts exactly the shapes whose total parallel
  degree is not 1, so it stops on every shape that \<open>lift_to_parallel\<close> makes from an unparallel
  one, and on every shape it accepts the degree is above 1.
\<close>

theorem require_not_parallel_inverted:
  assumes "lift_to_parallel u = Inr s"
  shows "get_total_parallel_degree s = Inr 1 \<and>
    require_not_parallel s = Inl Assertion_failed \<and>
    (require_not_parallel t = Inr v \<longrightarrow>
       v = get_reduced_shape t \<and> (\<exists>n > 1. get_total_parallel_degree t = Inr n))"
proof -
  let ?n = "length (ts_dims u)"
  from assms have s: "s = lift_to_parallel_with_dim_degrees u
      (ParallelTensorDimDegrees 1 1 (replicate ?n 1))"
    by (auto simp: lift_to_parallel_def ptd_lift_to_parallel_def container_ops
        lift_to_parallel_with_dim_degrees_def ptd_lift_to_parallel_with_dim_degrees_def
        repeat_element_eq_replicate)
  have "get_parallel_degrees s = ParallelTensorDimDegrees 1 1 (replicate ?n 1)"
    unfolding s by (rule get_parallel_degrees_lift) simp
  then have one: "get_total_parallel_degree s = Inr 1"
    by (simp add: get_total_parallel_degree_eq total_degree_eq total_degree_def INT_MAX_def
        prod_list_replicate)
  then have r: "require_not_parallel s = Inl Assertion_failed"
    by (simp add: require_not_parallel_def)
  have "v = get_reduced_shape t \<and> (\<exists>n > 1. get_total_parallel_degree t = Inr n)"
    if t: "require_not_parallel t = Inr v"
  proof -
    from t obtain n where n: "get_total_parallel_degree t = Inr n" "n \<noteq> 1"
      and v: "v = get_reduced_shape t"
      by (auto simp: require_not_parallel_def)
    from n(1) have "0 < n"
      using prod_list_pos [of "ptdd_shard_degrees (get_parallel_degrees t)"]
      by (auto simp: get_total_parallel_degree_eq total_degree_eq total_degree_def)
    with n v show ?thesis by (intro conjI exI [of _ n]) auto
  qed
  with one r show ?thesis by blast
qed

theorem require_not_parallel_inverted_witness:
  "require_not_parallel (ParallelTensorShape (ParallelTensorDims
     [ShardParallelDim 6 1, ShardParallelDim 4 1] (ReplicaParallelDimSet 1 1)) FLOAT) =
   Inl Assertion_failed"
proof -
  have "lift_to_parallel (TensorShape [6, 4] FLOAT) = Inr (ParallelTensorShape (ParallelTensorDims
     [ShardParallelDim 6 1, ShardParallelDim 4 1] (ReplicaParallelDimSet 1 1)) FLOAT)"
    by code_simp
  from require_not_parallel_inverted [OF this] show ?thesis by blast
qed

text \<open>
  \<open>get_num_replicas\<close> transforms a set of replica dimensions into a set of degrees, which
  merges equal degrees. It is the total replica degree when the two degrees differ or are 1, and
  only its square root when they are equal: a tensor with sum degree 2 and discard-copy degree 2
  has 4 replicas and the code returns 2.
\<close>

theorem get_num_replicas_merges_equal_degrees:
  assumes "wf_pshape s"
  shows "get_num_replicas s =
    (if get_sum_degree s = get_discard_copy_degree s then Inr (get_sum_degree s)
     else total_replica_degree (pts_dims s))"
proof -
  let ?a = "get_sum_degree s" and ?b = "get_discard_copy_degree s"
  let ?l = "sorted_list_of_set {?a, ?b}"
  have pos: "valid_pos ?a" "valid_pos ?b"
    using assms by (auto simp: wf_pshape_def wf_degrees_def shape_ops)
  have g: "get_num_replicas s = product ?l"
    by (simp add: get_num_replicas_def get_replica_dims_def get_sum_degree_def
        get_discard_copy_degree_def)
  show ?thesis
  proof (cases "?a = ?b")
    case True
    with pos g show ?thesis by (simp add: product_eq valid_pos_def)
  next
    case False
    have t: "total_replica_degree (pts_dims s) = positive_int_mul ?b ?a"
      by (simp add: total_replica_degree_def get_sum_degree_def get_discard_copy_degree_def)
    from False consider "?l = [?a, ?b]" | "?l = [?b, ?a]"
      by (cases "?a < ?b") auto
    then show ?thesis
      using False pos product_pair positive_int_mul_commute [of ?a ?b]
      by cases (simp_all only: g t if_False product_pair)
  qed
qed

theorem get_num_replicas_merges_equal_degrees_witness:
  "get_num_replicas (ParallelTensorShape (ParallelTensorDims [ShardParallelDim 6 1]
     (ReplicaParallelDimSet 2 2)) FLOAT) = Inr 2"
  by (subst get_num_replicas_merges_equal_degrees)
    (simp_all add: wf_pshape_def wf_degrees_def valid_pos_def INT_MAX_def shape_ops wf_shape_def
      get_sum_degree_def get_discard_copy_degree_def)

end
