(* ===== verification/FF_Bidict.thy ===== *)
theory FF_Bidict
  imports FF_Containers
begin

text \<open>
  \<open>bidict\<close> of \<open>lib/utils/include/utils/bidict\<close>: two maps that are kept inverse to each other. The
  class invariant is \<open>wf_bidict\<close>; \<open>check_invariants\<close> tests it when a bidict is built from two
  maps. The locale \<open>two_way_map\<close> states what the callers of \<open>equate\<close> rely on, and proves for a
  whole sequence of calls what each call promises; it is interpreted on the model of the class.
\<close>

record ('l, 'r) bidict =
  fwd_map :: "'l \<rightharpoonup> 'r"
  bwd_map :: "'r \<rightharpoonup> 'l"

section \<open>Operations\<close>

definition empty_bidict :: "('l, 'r) bidict" where
  "empty_bidict = \<lparr> fwd_map = Map.empty, bwd_map = Map.empty \<rparr>"

definition contains_l :: "('l, 'r) bidict \<Rightarrow> 'l \<Rightarrow> bool" where
  "contains_l b l \<longleftrightarrow> fwd_map b l \<noteq> None"

definition contains_r :: "('l, 'r) bidict \<Rightarrow> 'r \<Rightarrow> bool" where
  "contains_r b r \<longleftrightarrow> bwd_map b r \<noteq> None"

definition at_l :: "('l, 'r) bidict \<Rightarrow> 'l \<Rightarrow> 'r res" where
  "at_l b l = res_bind (ASSERT (contains_l b l)) (\<lambda>_. map_at (fwd_map b) l)"

definition at_r :: "('l, 'r) bidict \<Rightarrow> 'r \<Rightarrow> 'l res" where
  "at_r b r = res_bind (ASSERT (contains_r b r)) (\<lambda>_. map_at (bwd_map b) r)"

definition bidict_contains :: "('l, 'r) bidict \<Rightarrow> 'l \<Rightarrow> 'r \<Rightarrow> bool res" where
  "bidict_contains b l r =
     (if contains_l b l then res_bind (at_l b l) (\<lambda>x. Inr (x = r)) else Inr False)"

definition erase_l :: "('l, 'r) bidict \<Rightarrow> 'l \<Rightarrow> ('l, 'r) bidict res" where
  "erase_l b l =
     (if contains_l b l
      then res_bind (at_l b l) (\<lambda>r.
        Inr \<lparr> fwd_map = (fwd_map b)(l := None), bwd_map = (bwd_map b)(r := None) \<rparr>)
      else Inr b)"

definition erase_r :: "('l, 'r) bidict \<Rightarrow> 'r \<Rightarrow> ('l, 'r) bidict res" where
  "erase_r b r =
     (if contains_r b r
      then res_bind (at_r b r) (\<lambda>l.
        Inr \<lparr> fwd_map = (fwd_map b)(l := None), bwd_map = (bwd_map b)(r := None) \<rparr>)
      else Inr b)"

text \<open>\<open>std::map::insert\<close> does nothing when the key is present.\<close>

definition map_insert :: "('k \<rightharpoonup> 'v) \<Rightarrow> 'k \<Rightarrow> 'v \<Rightarrow> ('k \<rightharpoonup> 'v)" where
  "map_insert m k v = (case m k of None \<Rightarrow> m(k \<mapsto> v) | Some _ \<Rightarrow> m)"

definition equate :: "('l, 'r) bidict \<Rightarrow> 'l \<Rightarrow> 'r \<Rightarrow> ('l, 'r) bidict res" where
  "equate b l r =
     res_bind (ASSERT (contains_l b l = contains_r b r)) (\<lambda>_.
     if contains_l b l
     then res_bind (at_l b l) (\<lambda>x. res_bind (ASSERT (x = r)) (\<lambda>_. Inr b))
     else Inr \<lparr> fwd_map = map_insert (fwd_map b) l r, bwd_map = map_insert (bwd_map b) r l \<rparr>)"

fun equate_all :: "('l, 'r) bidict \<Rightarrow> ('l \<times> 'r) list \<Rightarrow> ('l, 'r) bidict res" where
  "equate_all b [] = Inr b"
| "equate_all b ((l, r) # ps) = res_bind (equate b l r) (\<lambda>c. equate_all c ps)"

definition bidict_from_pairs :: "('l \<times> 'r) list \<Rightarrow> ('l, 'r) bidict res" where
  "bidict_from_pairs c = equate_all empty_bidict c"

definition bidict_from_keys_and_values :: "'l list \<Rightarrow> 'r list \<Rightarrow> ('l, 'r) bidict res" where
  "bidict_from_keys_and_values ls rs =
     res_bind (ASSERT (length ls = length rs)) (\<lambda>_. bidict_from_pairs (zip ls rs))"

definition bidict_size :: "('l, 'r) bidict \<Rightarrow> nat res" where
  "bidict_size b =
     res_bind (ASSERT (card (dom (fwd_map b)) = card (dom (bwd_map b)))) (\<lambda>_.
     Inr (card (dom (fwd_map b))))"

definition left_entries :: "('l, 'r) bidict \<Rightarrow> 'l set" where
  "left_entries b = dom (fwd_map b)"

definition right_entries :: "('l, 'r) bidict \<Rightarrow> 'r set" where
  "right_entries b = ran (fwd_map b)"

definition bidict_equal :: "('l, 'r) bidict \<Rightarrow> ('l, 'r) bidict \<Rightarrow> bool res" where
  "bidict_equal b c = require_same (fwd_map b = fwd_map c) (bwd_map b = bwd_map c)"

definition check_invariants :: "('l, 'r) bidict \<Rightarrow> unit res" where
  "check_invariants b =
     res_bind (ASSERT (dom (fwd_map b) = ran (bwd_map b))) (\<lambda>_.
     res_bind (ASSERT (dom (bwd_map b) = ran (fwd_map b))) (\<lambda>_.
     ASSERT (\<forall>l \<in> dom (fwd_map b). bwd_map b (the (fwd_map b l)) = Some l)))"

definition bidict_from_maps :: "('l \<rightharpoonup> 'r) \<Rightarrow> ('r \<rightharpoonup> 'l) \<Rightarrow> ('l, 'r) bidict res" where
  "bidict_from_maps f g =
     (let b = \<lparr> fwd_map = f, bwd_map = g \<rparr> in res_bind (check_invariants b) (\<lambda>_. Inr b))"

definition reversed :: "('l, 'r) bidict \<Rightarrow> ('r, 'l) bidict res" where
  "reversed b = bidict_from_maps (bwd_map b) (fwd_map b)"

text \<open>Iterating over a bidict iterates over the forward map, in the order of its keys.\<close>

definition bidict_entries :: "('l :: linorder, 'r) bidict \<Rightarrow> ('l \<times> 'r) list" where
  "bidict_entries b =
     map (\<lambda>l. (l, the (fwd_map b l))) (sorted_list_of_set (dom (fwd_map b)))"

fun join_entries ::
    "('b, 'c) bidict \<Rightarrow> ('a, 'c) bidict \<Rightarrow> ('a \<times> 'b) list \<Rightarrow> ('a, 'c) bidict res" where
  "join_entries snd_bd result [] = Inr result"
| "join_entries snd_bd result ((v1, v2) # es) =
     res_bind (at_l snd_bd v2) (\<lambda>v3.
     res_bind (equate result v1 v3) (\<lambda>result'.
     join_entries snd_bd result' es))"

definition exhaustive_relational_join ::
    "('a :: linorder, 'b) bidict \<Rightarrow> ('b, 'c) bidict \<Rightarrow> ('a, 'c) bidict res" where
  "exhaustive_relational_join fst_bd snd_bd =
     res_bind (ASSERT (right_entries fst_bd = left_entries snd_bd)) (\<lambda>_.
     join_entries snd_bd empty_bidict (bidict_entries fst_bd))"

section \<open>The invariant\<close>

definition wf_bidict :: "('l, 'r) bidict \<Rightarrow> bool" where
  "wf_bidict b \<longleftrightarrow> (\<forall>l r. fwd_map b l = Some r \<longleftrightarrow> bwd_map b r = Some l)"

lemma wf_bidictD: "wf_bidict b \<Longrightarrow> fwd_map b l = Some r \<longleftrightarrow> bwd_map b r = Some l"
  by (simp add: wf_bidict_def)

lemma wf_bidictI:
  "(\<And>l r. fwd_map b l = Some r \<Longrightarrow> bwd_map b r = Some l) \<Longrightarrow>
   (\<And>l r. bwd_map b r = Some l \<Longrightarrow> fwd_map b l = Some r) \<Longrightarrow> wf_bidict b"
  unfolding wf_bidict_def by blast

lemma wf_empty_bidict [simp]: "wf_bidict empty_bidict"
  by (simp add: wf_bidict_def empty_bidict_def)

lemma fwd_empty_bidict [simp]: "fwd_map empty_bidict = Map.empty"
  by (simp add: empty_bidict_def)

lemma at_l_eq [simp]: "at_l b l = Inr r \<longleftrightarrow> fwd_map b l = Some r"
  by (auto simp: at_l_def contains_l_def)

lemma at_r_eq [simp]: "at_r b r = Inr l \<longleftrightarrow> bwd_map b r = Some l"
  by (auto simp: at_r_def contains_r_def)

lemma at_l_Some [simp]: "fwd_map b l = Some r \<Longrightarrow> at_l b l = Inr r"
  and at_r_Some [simp]: "bwd_map b r = Some l \<Longrightarrow> at_r b r = Inr l"
  by simp_all

lemma wf_fwd_inj: "wf_bidict b \<Longrightarrow> inj_on (fwd_map b) (dom (fwd_map b))"
  by (rule inj_onI) (metis domD option.inject wf_bidictD)

lemma wf_bidict_eqI:
  assumes "wf_bidict b" and "wf_bidict c" and "fwd_map b = fwd_map (c :: ('l, 'r) bidict)"
  shows "b = c"
proof (rule bidict.equality)
  have "bwd_map b r = Some l \<longleftrightarrow> bwd_map c r = Some l" for l r
    using assms by (metis wf_bidictD)
  then show "bwd_map b = bwd_map c"
    by (metis ext not_None_eq)
qed (use assms(3) in simp_all)

lemma wf_ran_fwd: "wf_bidict b \<Longrightarrow> ran (fwd_map b) = dom (bwd_map b)"
  by (auto simp: ran_def wf_bidict_def)

lemma wf_ran_bwd: "wf_bidict b \<Longrightarrow> ran (bwd_map b) = dom (fwd_map b)"
  by (auto simp: ran_def wf_bidict_def)

lemma check_invariants_eq: "check_invariants b = Inr u \<longleftrightarrow> wf_bidict b"
proof
  assume "check_invariants b = Inr u"
  then have d: "dom (fwd_map b) = ran (bwd_map b)" "dom (bwd_map b) = ran (fwd_map b)"
    and a: "\<forall>l \<in> dom (fwd_map b). bwd_map b (the (fwd_map b l)) = Some l"
    by (auto simp: check_invariants_def)
  from a have i: "bwd_map b r = Some l" if "fwd_map b l = Some r" for l r
    using that by (metis domI option.sel)
  have "fwd_map b l = Some r" if r: "bwd_map b r = Some l" for l r
  proof -
    from r d(2) have "r \<in> ran (fwd_map b)" by auto
    then obtain k where "fwd_map b k = Some r" by (auto simp: ran_def)
    with i r show ?thesis by fastforce
  qed
  with i show "wf_bidict b" by (rule wf_bidictI)
next
  assume wf: "wf_bidict b"
  then have "bwd_map b (the (fwd_map b l)) = Some l" if "l \<in> dom (fwd_map b)" for l
    using that by (metis domD option.sel wf_bidictD)
  with wf show "check_invariants b = Inr u"
    by (simp add: check_invariants_def wf_ran_fwd wf_ran_bwd)
qed

lemma reversed_eq:
  "reversed b = Inr c \<longleftrightarrow> wf_bidict b \<and> c = \<lparr> fwd_map = bwd_map b, bwd_map = fwd_map b \<rparr>"
proof -
  have "wf_bidict \<lparr> fwd_map = bwd_map b, bwd_map = fwd_map b \<rparr> \<longleftrightarrow> wf_bidict b"
    unfolding wf_bidict_def by auto
  then show ?thesis
    by (auto simp: reversed_def bidict_from_maps_def check_invariants_eq Let_def)
qed

lemma equate_eq:
  assumes "wf_bidict b"
  shows "equate b l r = Inr c \<longleftrightarrow>
    (fwd_map b l = Some r \<and> c = b \<or>
     fwd_map b l = None \<and> bwd_map b r = None \<and>
     c = \<lparr> fwd_map = (fwd_map b)(l \<mapsto> r), bwd_map = (bwd_map b)(r \<mapsto> l) \<rparr>)"
  using wf_bidictD [OF assms]
  by (cases "fwd_map b l"; cases "bwd_map b r")
    (auto simp: equate_def contains_l_def contains_r_def at_l_def map_insert_def)

lemma wf_bidict_update:
  assumes "wf_bidict b" and "fwd_map b l = None" and "bwd_map b r = None"
  shows "wf_bidict \<lparr> fwd_map = (fwd_map b)(l \<mapsto> r), bwd_map = (bwd_map b)(r \<mapsto> l) \<rparr>"
proof (rule wf_bidictI)
  note d = wf_bidictD [OF assms(1)]
  show "bwd_map \<lparr> fwd_map = (fwd_map b)(l \<mapsto> r), bwd_map = (bwd_map b)(r \<mapsto> l) \<rparr> y = Some x"
    if "fwd_map \<lparr> fwd_map = (fwd_map b)(l \<mapsto> r), bwd_map = (bwd_map b)(r \<mapsto> l) \<rparr> x = Some y" for x y
    using that assms(3) d [of x y] by (auto split: if_splits)
  show "fwd_map \<lparr> fwd_map = (fwd_map b)(l \<mapsto> r), bwd_map = (bwd_map b)(r \<mapsto> l) \<rparr> x = Some y"
    if "bwd_map \<lparr> fwd_map = (fwd_map b)(l \<mapsto> r), bwd_map = (bwd_map b)(r \<mapsto> l) \<rparr> y = Some x" for x y
    using that assms(2) d [of x y] by (auto split: if_splits)
qed

lemma wf_equate: "wf_bidict b \<Longrightarrow> equate b l r = Inr c \<Longrightarrow> wf_bidict c"
  using wf_bidict_update [of b l r] by (auto simp: equate_eq)

lemma wf_bidict_erase:
  assumes "wf_bidict b" and "fwd_map b l = Some r"
  shows "wf_bidict \<lparr> fwd_map = (fwd_map b)(l := None), bwd_map = (bwd_map b)(r := None) \<rparr>"
proof (rule wf_bidictI)
  note d = wf_bidictD [OF assms(1)]
  show "bwd_map \<lparr> fwd_map = (fwd_map b)(l := None), bwd_map = (bwd_map b)(r := None) \<rparr> y = Some x"
    if "fwd_map \<lparr> fwd_map = (fwd_map b)(l := None), bwd_map = (bwd_map b)(r := None) \<rparr> x = Some y" for x y
    using that assms(2) d [of x y] d [of l r] by (auto split: if_splits)
  show "fwd_map \<lparr> fwd_map = (fwd_map b)(l := None), bwd_map = (bwd_map b)(r := None) \<rparr> x = Some y"
    if "bwd_map \<lparr> fwd_map = (fwd_map b)(l := None), bwd_map = (bwd_map b)(r := None) \<rparr> y = Some x" for x y
    using that assms(2) d [of x y] d [of l r] by (auto split: if_splits)
qed

lemma wf_erase_l:
  assumes "wf_bidict b" and "erase_l b l = Inr c"
  shows "wf_bidict c \<and> fwd_map c = (fwd_map b)(l := None)"
proof (cases "fwd_map b l")
  case None
  with assms show ?thesis by (auto simp: erase_l_def contains_l_def fun_eq_iff)
next
  case (Some r)
  with assms have "c = \<lparr> fwd_map = (fwd_map b)(l := None), bwd_map = (bwd_map b)(r := None) \<rparr>"
    by (auto simp: erase_l_def contains_l_def)
  with wf_bidict_erase [OF assms(1) Some] show ?thesis by simp
qed

section \<open>Sequences of calls of equate\<close>

locale two_way_map =
  fixes inv :: "'b \<Rightarrow> bool"
    and fwd :: "'b \<Rightarrow> 'l \<Rightarrow> 'r option"
    and emp :: 'b
    and eq :: "'b \<Rightarrow> 'l \<Rightarrow> 'r \<Rightarrow> 'b res"
  assumes inv_emp: "inv emp"
    and fwd_emp: "fwd emp = Map.empty"
    and inv_inj: "inv b \<Longrightarrow> fwd b l = Some r \<Longrightarrow> fwd b l' = Some r \<Longrightarrow> l = l'"
    and inv_eq: "inv b \<Longrightarrow> eq b l r = Inr c \<Longrightarrow> inv c"
    and fwd_eq: "inv b \<Longrightarrow> eq b l r = Inr c \<Longrightarrow> fwd c = (fwd b)(l \<mapsto> r)"
    and eq_total: "inv b \<Longrightarrow> fwd b l = None \<Longrightarrow> r \<notin> ran (fwd b) \<Longrightarrow> \<exists>c. eq b l r = Inr c"
begin

fun all :: "'b \<Rightarrow> ('l \<times> 'r) list \<Rightarrow> 'b res" where
  "all b [] = Inr b"
| "all b ((l, r) # ps) = res_bind (eq b l r) (\<lambda>c. all c ps)"

lemma inv_all: "inv b \<Longrightarrow> all b ps = Inr c \<Longrightarrow> inv c"
  by (induction b ps rule: all.induct) (auto dest: inv_eq)

lemma fwd_all: "inv b \<Longrightarrow> all b ps = Inr c \<Longrightarrow> fwd c = fwd b ++ map_of (rev ps)"
proof (induction b ps rule: all.induct)
  case (1 b)
  then show ?case by simp
next
  case (2 b l r ps)
  then obtain d where d: "eq b l r = Inr d" "all d ps = Inr c" by auto
  with 2 have "fwd c = fwd d ++ map_of (rev ps)" by (auto dest: inv_eq)
  moreover have "fwd d = (fwd b)(l \<mapsto> r)" using 2 d by (auto dest: fwd_eq)
  ultimately show ?case by simp
qed

lemma all_total:
  "inv b \<Longrightarrow> distinct (map fst ps) \<Longrightarrow> distinct (map snd ps) \<Longrightarrow>
     fst ` set ps \<inter> dom (fwd b) = {} \<Longrightarrow> snd ` set ps \<inter> ran (fwd b) = {} \<Longrightarrow>
     \<exists>c. all b ps = Inr c"
proof (induction b ps rule: all.induct)
  case (1 b)
  then show ?case by simp
next
  case (2 b l r ps)
  note prems = "2.prems"
  have n: "fwd b l = None" "r \<notin> ran (fwd b)" using prems(4,5) by auto
  with prems(1) obtain c where c: "eq b l r = Inr c" using eq_total by blast
  have ps: "distinct (map fst ps)" "distinct (map snd ps)" "l \<notin> fst ` set ps" "r \<notin> snd ` set ps"
    using prems(2,3) by simp_all
  have f: "fwd c = (fwd b)(l \<mapsto> r)" using prems(1) c by (rule fwd_eq)
  have "fst ` set ps \<inter> dom (fwd c) = {}" using prems(4) ps(3) by (auto simp: f)
  moreover have "snd ` set ps \<inter> ran (fwd c) = {}"
    using prems(5) ps(4) n(1) by (auto simp: f)
  ultimately have "\<exists>d. all c ps = Inr d"
    using ps inv_eq [OF prems(1) c] by (intro "2.IH")
  with c show ?case by simp
qed

lemma all_emp:
  assumes "distinct (map fst ps)" and "distinct (map snd ps)"
  shows "\<exists>c. all emp ps = Inr c \<and> inv c \<and> fwd c = map_of ps"
proof -
  from assms obtain c where c: "all emp ps = Inr c"
    using all_total [of emp ps] by (auto simp: inv_emp fwd_emp)
  moreover have "map_of (rev ps) = map_of ps"
    using assms(1) by (metis distinct_map distinct_rev map_of_eq_Some_iff map_of_inject_set rev_map set_rev)
  ultimately show ?thesis
    using inv_all [OF inv_emp c] fwd_all [OF inv_emp c] by (simp add: fwd_emp)
qed

end

interpretation bd: two_way_map wf_bidict fwd_map empty_bidict equate
proof (unfold_locales, goal_cases)
  case (3 b l r l')
  then show ?case by (simp add: wf_bidictD)
next
  case (4 b l r c)
  then show ?case by (rule wf_equate)
next
  case (5 b l r c)
  then show ?case by (auto simp: equate_eq fun_eq_iff)
next
  case (6 b l r)
  then have "bwd_map b r = None"
    by (metis not_None_eq ranI wf_bidictD)
  with 6 show ?case by (simp add: equate_eq)
qed simp_all

lemma equate_all_eq: "equate_all b ps = bd.all b ps"
  by (induction b ps rule: equate_all.induct) simp_all

lemma bidict_from_pairs_total:
  assumes "distinct (map fst ps)" and "distinct (map snd ps)"
  shows "\<exists>c. bidict_from_pairs ps = Inr c \<and> wf_bidict c \<and> fwd_map c = map_of ps"
  using bd.all_emp [OF assms] by (simp add: bidict_from_pairs_def equate_all_eq)

lemma wf_bidict_from_pairs: "bidict_from_pairs ps = Inr c \<Longrightarrow> wf_bidict c"
  using bd.inv_all [of empty_bidict ps c] by (simp add: bidict_from_pairs_def equate_all_eq)

lemma join_entries_eq:
  "\<forall>(a, b) \<in> set es. fwd_map s b \<noteq> None \<Longrightarrow>
     join_entries s res es = bd.all res (map (\<lambda>(a, b). (a, the (fwd_map s b))) es)"
proof (induction s res es rule: join_entries.induct)
  case (1 s res)
  then show ?case by simp
next
  case (2 s res a b es)
  then obtain c where "fwd_map s b = Some c" by auto
  with 2 show ?case by auto
qed

lemma map_of_entries:
  "finite A \<Longrightarrow> map_of (map (\<lambda>l. (l, f l)) (sorted_list_of_set A)) x = (if x \<in> A then Some (f x) else None)"
  by (simp add: map_of_map_restrict restrict_map_def)

lemma exhaustive_relational_join_eq:
  assumes b: "wf_bidict b" and s: "wf_bidict s" and fin: "finite (dom (fwd_map b))"
    and same: "right_entries b = left_entries s"
  shows "\<exists>c. exhaustive_relational_join b s = Inr c \<and> wf_bidict c \<and>
    fwd_map c = fwd_map s \<circ>\<^sub>m fwd_map b"
proof -
  let ?A = "dom (fwd_map b)"
  let ?f = "\<lambda>l. the (fwd_map s (the (fwd_map b l)))"
  let ?ps = "map (\<lambda>l. (l, ?f l)) (sorted_list_of_set ?A)"
  have total: "fwd_map s (the (fwd_map b l)) = Some (?f l)" if "l \<in> ?A" for l
  proof -
    from that obtain r where r: "fwd_map b l = Some r" by auto
    then have "r \<in> dom (fwd_map s)"
      using same by (auto simp: right_entries_def left_entries_def intro: ranI)
    with r show ?thesis by auto
  qed
  have "\<forall>(a, b') \<in> set (bidict_entries b). fwd_map s b' \<noteq> None"
    using fin total by (auto simp: bidict_entries_def)
  then have join: "exhaustive_relational_join b s = bd.all empty_bidict ?ps"
    using same by (simp add: exhaustive_relational_join_def join_entries_eq bidict_entries_def comp_def)
  have "inj_on ?f ?A"
  proof (rule inj_onI)
    fix x y
    assume xy: "x \<in> ?A" "y \<in> ?A" and eq: "?f x = ?f y"
    with total have "the (fwd_map b x) = the (fwd_map b y)" using s by (metis wf_bidictD option.inject)
    with xy show "x = y" using b by (metis domD option.sel wf_bidictD option.inject)
  qed
  with fin have "distinct (map snd ?ps)" "distinct (map fst ?ps)"
    by (simp_all add: comp_def distinct_map)
  from bd.all_emp [OF this(2,1)] obtain c where
    c: "bd.all empty_bidict ?ps = Inr c" "wf_bidict c" "fwd_map c = map_of ?ps"
    by blast
  have "map_of ?ps x = (fwd_map s \<circ>\<^sub>m fwd_map b) x" for x
    using total [of x] by (auto simp: map_of_entries [OF fin] map_comp_def split: option.splits)
  then have "map_of ?ps = fwd_map s \<circ>\<^sub>m fwd_map b" by blast
  with c join show ?thesis by (simp add: c(3))
qed

section \<open>Properties\<close>

text \<open>
  \<open>equate\<close> keeps the two maps of a bidict inverse to each other and adds exactly the
  pair it is given: on a bidict that satisfies the invariant it returns when \<open>l\<close> and \<open>r\<close> are
  already paired (unchanged) or both free, and stops with an assertion exactly when one of them is
  paired with something else.
\<close>

theorem equate_keeps_invariant:
  assumes "wf_bidict b"
  shows "(\<exists>c. equate b l r = Inr c \<and> wf_bidict c \<and>
        fwd_map c = (fwd_map b)(l \<mapsto> r) \<and> bwd_map c = (bwd_map b)(r \<mapsto> l) \<and>
        (fwd_map b l = Some r \<or> fwd_map b l = None \<and> bwd_map b r = None)) \<or>
    (equate b l r = Inl Assertion_failed \<and>
        ((\<exists>r'. r' \<noteq> r \<and> fwd_map b l = Some r') \<or> (\<exists>l'. l' \<noteq> l \<and> bwd_map b r = Some l')))"
proof (cases "equate b l r")
  case (Inr c)
  moreover have "wf_bidict c" using assms Inr by (rule wf_equate)
  moreover from Inr have "fwd_map c = (fwd_map b)(l \<mapsto> r) \<and> bwd_map c = (bwd_map b)(r \<mapsto> l) \<and>
      (fwd_map b l = Some r \<or> fwd_map b l = None \<and> bwd_map b r = None)"
    using wf_bidictD [OF assms, of l r] by (auto simp: equate_eq [OF assms] fun_upd_idem)
  ultimately show ?thesis by blast
next
  case (Inl e)
  note d = wf_bidictD [OF assms]
  have n: "equate b l r \<noteq> Inr c" for c using Inl by simp
  from Inl have "e = Assertion_failed"
    by (auto simp: equate_def at_l_def contains_l_def res_bind_eq_Inl map_at_def
        split: if_splits option.splits)
  moreover have "fwd_map b l \<noteq> Some r" "\<not> (fwd_map b l = None \<and> bwd_map b r = None)"
    using n unfolding equate_eq [OF assms] by blast+
  then have "(\<exists>r'. r' \<noteq> r \<and> fwd_map b l = Some r') \<or> (\<exists>l'. l' \<noteq> l \<and> bwd_map b r = Some l')"
    using d [of l r] by (cases "fwd_map b l"; cases "bwd_map b r") auto
  ultimately show ?thesis using Inl by blast
qed

theorem equate_keeps_invariant_witness:
  "equate (empty_bidict :: (nat, nat) bidict) 3 5 =
     Inr \<lparr> fwd_map = [3 \<mapsto> 5], bwd_map = [5 \<mapsto> 3] \<rparr>"
  using equate_keeps_invariant [OF wf_empty_bidict, of "3::nat" "5::nat"]
  by (auto simp: empty_bidict_def bidict.equality)

text \<open>
  \<open>exhaustive_relational_join\<close> is composition: when the right entries of the first bidict
  are the left entries of the second, no call of \<open>equate\<close> or \<open>at_l\<close> fails, the result satisfies
  the invariant, and it maps each \<open>l\<close> to what the second bidict gives for what the first gives.
\<close>

theorem exhaustive_relational_join_composes:
  assumes "wf_bidict b" and "wf_bidict s" and "finite (dom (fwd_map b))"
    and "right_entries b = left_entries s"
  shows "\<exists>c. exhaustive_relational_join b s = Inr c \<and> wf_bidict c \<and>
    (\<forall>l. fwd_map c l = (case fwd_map b l of None \<Rightarrow> None | Some m \<Rightarrow> fwd_map s m))"
  using exhaustive_relational_join_eq [OF assms] by (auto simp: map_comp_def)

theorem exhaustive_relational_join_composes_witness:
  "\<exists>c. exhaustive_relational_join \<lparr> fwd_map = [0::nat \<mapsto> 1::nat], bwd_map = [1 \<mapsto> 0] \<rparr>
       \<lparr> fwd_map = [1 \<mapsto> 2::nat], bwd_map = [2 \<mapsto> 1] \<rparr> = Inr c \<and>
     fwd_map c 0 = Some 2"
proof -
  let ?b = "\<lparr> fwd_map = [0::nat \<mapsto> 1::nat], bwd_map = [1 \<mapsto> 0] \<rparr>"
  let ?s = "\<lparr> fwd_map = [1::nat \<mapsto> 2::nat], bwd_map = [2 \<mapsto> 1] \<rparr>"
  have "wf_bidict ?b" "wf_bidict ?s" by (simp_all add: wf_bidict_def)
  moreover have "finite (dom (fwd_map ?b))" "right_entries ?b = left_entries ?s"
    by (simp_all add: right_entries_def left_entries_def)
  ultimately obtain c where c: "exhaustive_relational_join ?b ?s = Inr c"
    and f: "\<forall>l. fwd_map c l = (case fwd_map ?b l of None \<Rightarrow> None | Some m \<Rightarrow> fwd_map ?s m)"
    using exhaustive_relational_join_composes by blast
  from f have "fwd_map c 0 = Some 2" by simp
  with c show ?thesis by blast
qed

end
