(* ===== verification/Dim_Permutations.thy ===== *)
theory Dim_Permutations
  imports Parallel_Shapes FF_Bidict
begin

text \<open>
  \<open>TensorDimPermutation\<close> of \<open>lib/op-attrs/src/op-attrs/tensor_dim_permutation.cc\<close>: a bidict
  between output and input dimensions whose two sides are \<open>0 .. n - 1\<close>. Permuting moves the entry
  at \<open>k\<close> to \<open>at_r k\<close>. The locale \<open>permutable\<close> states what it means for permutations to act on a
  kind of object; it is interpreted on dimensions, degrees and parallel shapes.
\<close>

type_synonym tensor_dim_permutation = "(ff_dim_t, ff_dim_t) bidict"

section \<open>Operations\<close>

definition check_are_contiguous_from_one :: "ff_dim_t set \<Rightarrow> unit res" where
  "check_are_contiguous_from_one idxs =
     (if idxs = {} then Inr ()
      else res_bind (ASSERT (Min idxs = 0)) (\<lambda>_. ASSERT (Max idxs = card idxs - 1)))"

definition mk_tensor_dim_permutation ::
    "(ff_dim_t, ff_dim_t) bidict \<Rightarrow> tensor_dim_permutation res" where
  "mk_tensor_dim_permutation raw =
     res_bind (check_are_contiguous_from_one (right_entries raw)) (\<lambda>_.
     res_bind (check_are_contiguous_from_one (left_entries raw)) (\<lambda>_.
     Inr raw))"

text \<open>\<open>operator==\<close>, and \<open>operator!=\<close> as it is written.\<close>

definition permutation_eq ::
    "tensor_dim_permutation \<Rightarrow> tensor_dim_permutation \<Rightarrow> bool res" where
  "permutation_eq p q = bidict_equal p q"

definition permutation_neq ::
    "tensor_dim_permutation \<Rightarrow> tensor_dim_permutation \<Rightarrow> bool res" where
  "permutation_neq p q = bidict_equal p q"

definition permutation_num_tensor_dims :: "tensor_dim_permutation \<Rightarrow> nonnegative_int res" where
  "permutation_num_tensor_dims p =
     res_bind (bidict_size p) (\<lambda>n.
     res_bind (nonnegative_int_from_size n) mk_num_tensor_dims)"

definition compose_tensor_dim_permutations ::
    "tensor_dim_permutation \<Rightarrow> tensor_dim_permutation \<Rightarrow> tensor_dim_permutation res" where
  "compose_tensor_dim_permutations lhs rhs =
     res_bind (permutation_num_tensor_dims lhs) (\<lambda>n.
     res_bind (permutation_num_tensor_dims rhs) (\<lambda>m.
     res_bind (ASSERT (n = m)) (\<lambda>_.
     res_bind (exhaustive_relational_join lhs rhs) mk_tensor_dim_permutation)))"

definition invert_tensor_dim_permutation ::
    "tensor_dim_permutation \<Rightarrow> tensor_dim_permutation res" where
  "invert_tensor_dim_permutation p = res_bind (reversed p) mk_tensor_dim_permutation"

text \<open>\<open>map_keys\<close> on the map of an \<open>FFOrdered\<close>, and \<open>permute_ff_ordered\<close>.\<close>

definition map_keys_ff_ordered ::
    "(ff_dim_t \<Rightarrow> ff_dim_t res) \<Rightarrow> 'a ff_ordered \<Rightarrow> (ff_dim_t \<rightharpoonup> 'a) res" where
  "map_keys_ff_ordered f xs =
     res_bind (res_map f [0..<length xs]) (\<lambda>ks.
     res_bind (ASSERT (card (set ks) = length xs)) (\<lambda>_.
     Inr (map_of (zip ks xs))))"

definition permute_ff_ordered ::
    "tensor_dim_permutation \<Rightarrow> 'a ff_ordered \<Rightarrow> 'a ff_ordered res" where
  "permute_ff_ordered permutation xs =
     res_bind (map_keys_ff_ordered (at_r permutation) xs) ff_ordered_from_map"

lemma permute_ff_ordered_code [code]:
  "permute_ff_ordered permutation xs =
     res_bind (res_map (at_r permutation) [0..<length xs]) (\<lambda>ks.
     res_bind (ASSERT (card (set ks) = length xs)) (\<lambda>_. ff_ordered_from_entries (zip ks xs)))"
  by (simp add: permute_ff_ordered_def map_keys_ff_ordered_def res_bind_assoc ff_ordered_from_map_of)

definition permute_tensor_dims ::
    "tensor_dim_permutation \<Rightarrow> tensor_dims \<Rightarrow> tensor_dims res" where
  "permute_tensor_dims permutation dims =
     res_bind (permutation_num_tensor_dims permutation) (\<lambda>n.
     res_bind (get_num_dims dims) (\<lambda>m.
     res_bind (ASSERT (n = m)) (\<lambda>_.
     permute_ff_ordered permutation dims)))"

definition permute_tensor_shape ::
    "tensor_dim_permutation \<Rightarrow> tensor_shape \<Rightarrow> tensor_shape res" where
  "permute_tensor_shape permutation shape =
     res_bind (permute_tensor_dims permutation (ts_dims shape)) (\<lambda>dims.
     Inr (TensorShape dims (ts_data_type shape)))"

definition permute_parallel_tensor_dim_degrees ::
    "tensor_dim_permutation \<Rightarrow> parallel_tensor_dim_degrees \<Rightarrow> parallel_tensor_dim_degrees res" where
  "permute_parallel_tensor_dim_degrees permutation degrees =
     res_bind (permute_ff_ordered permutation (ptdd_shard_degrees degrees)) (\<lambda>ds.
     Inr (ParallelTensorDimDegrees (ptdd_sum_degree degrees) (ptdd_discard_copy_degree degrees) ds))"

definition permute_parallel_tensor_dims ::
    "tensor_dim_permutation \<Rightarrow> parallel_tensor_dims \<Rightarrow> parallel_tensor_dims res" where
  "permute_parallel_tensor_dims permutation dims =
     res_bind (permute_ff_ordered permutation (ptd_shard_dims dims)) (\<lambda>ds.
     Inr (ParallelTensorDims ds (ptd_replica_dims dims)))"

definition permute_parallel_tensor_shape ::
    "tensor_dim_permutation \<Rightarrow> parallel_tensor_shape \<Rightarrow> parallel_tensor_shape res" where
  "permute_parallel_tensor_shape permutation shape =
     res_bind (permute_parallel_tensor_dims permutation (pts_dims shape)) (\<lambda>ds.
     Inr (ParallelTensorShape ds (pts_data_type shape)))"

section \<open>Lemmas\<close>

text \<open>A permutation of rank \<open>n\<close>: what the constructor guarantees.\<close>

definition wf_perm :: "nat \<Rightarrow> tensor_dim_permutation \<Rightarrow> bool" where
  "wf_perm n p \<longleftrightarrow> wf_bidict p \<and> dom (fwd_map p) = {..<n} \<and> dom (bwd_map p) = {..<n}"

lemma contiguous_eq:
  assumes "finite A"
  shows "check_are_contiguous_from_one A = Inr u \<longleftrightarrow> A = {..<card A}"
proof (cases "A = {}")
  case True
  then show ?thesis by (simp add: check_are_contiguous_from_one_def)
next
  case False
  with assms have c: "0 < card A" by (simp add: card_gt_0_iff)
  have "A = {..<card A}" if "Max A = card A - 1"
  proof -
    have "A \<subseteq> {..<card A}" using that assms c by (fastforce dest: Max_ge)
    then show ?thesis using assms by (metis card_lessThan card_subset_eq finite_lessThan)
  qed
  moreover have "Min A = 0 \<and> Max A = card A - 1" if "A = {..<card A}"
  proof -
    have "Min {..<card A} = 0" using c by (intro Min_eqI) auto
    moreover have "Max {..<card A} = card A - 1" using c by (intro Max_eqI) auto
    ultimately show ?thesis using that by simp
  qed
  ultimately show ?thesis using False by (auto simp: check_are_contiguous_from_one_def)
qed

lemma card_wf_bidict:
  assumes "wf_bidict b"
  shows "card (dom (bwd_map b)) = card (dom (fwd_map b))"
proof -
  have "dom (bwd_map b) = (\<lambda>l. the (fwd_map b l)) ` dom (fwd_map b)"
  proof (intro set_eqI iffI)
    fix r assume "r \<in> dom (bwd_map b)"
    then obtain l where "bwd_map b r = Some l" by auto
    then have "fwd_map b l = Some r" using assms by (simp add: wf_bidictD)
    then show "r \<in> (\<lambda>l. the (fwd_map b l)) ` dom (fwd_map b)" by (force simp: image_iff)
  next
    fix r assume "r \<in> (\<lambda>l. the (fwd_map b l)) ` dom (fwd_map b)"
    then obtain l where "fwd_map b l = Some r" by auto
    then show "r \<in> dom (bwd_map b)" using assms by (metis domI wf_bidictD)
  qed
  moreover have "inj_on (\<lambda>l. the (fwd_map b l)) (dom (fwd_map b))"
    using assms by (intro inj_onI) (metis domD option.sel option.inject wf_bidictD)
  ultimately show ?thesis by (simp add: card_image)
qed

lemma finite_wf_bidict:
  assumes "wf_bidict b" and "finite (dom (fwd_map b))"
  shows "finite (dom (bwd_map b))"
  using assms wf_ran_fwd [OF assms(1)] finite_ran [OF assms(2)] by simp

lemma mk_tensor_dim_permutation_eq:
  assumes "wf_bidict b" and "finite (dom (fwd_map b))"
  shows "mk_tensor_dim_permutation b = Inr p \<longleftrightarrow> p = b \<and> wf_perm (card (dom (fwd_map b))) b"
  using assms finite_wf_bidict [OF assms]
  by (auto simp: mk_tensor_dim_permutation_def contiguous_eq right_entries_def left_entries_def
      wf_ran_fwd wf_perm_def card_wf_bidict)

lemma permutation_num_tensor_dims_eq:
  "wf_perm n p \<Longrightarrow>
     permutation_num_tensor_dims p = Inr m \<longleftrightarrow> m = n \<and> n \<le> MAX_TENSOR_DIM"
  by (auto simp: permutation_num_tensor_dims_def bidict_size_def wf_perm_def int_ops
      mk_num_tensor_dims_def MAX_TENSOR_DIM_def INT_MAX_def)

lemma wf_permD1:
  assumes p: "wf_perm n p" and i: "i < n"
  shows "\<exists>j < n. fwd_map p i = Some j \<and> bwd_map p j = Some i"
proof -
  from p have b: "wf_bidict p" and d: "dom (fwd_map p) = {..<n}" "dom (bwd_map p) = {..<n}"
    by (simp_all add: wf_perm_def)
  from i d(1) obtain j where "fwd_map p i = Some j" by blast
  moreover from this have "bwd_map p j = Some i" using wf_bidictD [OF b] by simp
  moreover from this d(2) have "j < n" by blast
  ultimately show ?thesis by blast
qed

lemma wf_permD2:
  assumes p: "wf_perm n p" and j: "j < n"
  shows "\<exists>i < n. bwd_map p j = Some i \<and> fwd_map p i = Some j"
proof -
  from p have b: "wf_bidict p" and d: "dom (fwd_map p) = {..<n}" "dom (bwd_map p) = {..<n}"
    by (simp_all add: wf_perm_def)
  from j d(2) obtain i where "bwd_map p j = Some i" by blast
  moreover from this have "fwd_map p i = Some j" using wf_bidictD [OF b] by simp
  moreover from this d(1) have "i < n" by blast
  ultimately show ?thesis by blast
qed

lemmas wf_permD = wf_permD1 wf_permD2

definition perm_list :: "tensor_dim_permutation \<Rightarrow> 'a list \<Rightarrow> 'a list" where
  "perm_list p xs = map (\<lambda>i. xs ! the (fwd_map p i)) [0..<length xs]"

lemma length_perm_list [simp]: "length (perm_list p xs) = length xs"
  by (simp add: perm_list_def)

lemma perm_list_nth [simp]: "i < length xs \<Longrightarrow> perm_list p xs ! i = xs ! the (fwd_map p i)"
  by (simp add: perm_list_def)

lemma map_perm_list:
  assumes "wf_perm (length xs) p"
  shows "map f (perm_list p xs) = perm_list p (map f xs)"
  using wf_permD(1) [OF assms] by (intro nth_equalityI) fastforce+

lemma set_perm_list_subset:
  assumes "wf_perm (length xs) p"
  shows "set (perm_list p xs) \<subseteq> set xs"
  using wf_permD(1) [OF assms] by (fastforce simp: perm_list_def)

definition perm_inv :: "tensor_dim_permutation \<Rightarrow> nat \<Rightarrow> nat" where
  "perm_inv p k = the (bwd_map p k)"

lemma perm_inv:
  assumes "wf_perm n p" and "k < n"
  shows "bwd_map p k = Some (perm_inv p k)" and "perm_inv p k < n"
    and "fwd_map p (perm_inv p k) = Some k"
  using wf_permD2 [OF assms] by (auto simp: perm_inv_def)

lemma inj_perm_inv: "wf_perm n p \<Longrightarrow> inj_on (perm_inv p) {..<n}"
  by (rule inj_onI) (metis lessThan_iff option.inject perm_inv(3))

lemma image_perm_inv:
  assumes "wf_perm n p"
  shows "perm_inv p ` {..<n} = {..<n}"
proof (intro equalityI subsetI)
  fix i assume "i \<in> {..<n}"
  then obtain j where "j < n" "bwd_map p j = Some i" using wf_permD1 [OF assms] by blast
  then show "i \<in> perm_inv p ` {..<n}" by (force simp: perm_inv_def)
next
  fix i assume "i \<in> perm_inv p ` {..<n}"
  then show "i \<in> {..<n}" using perm_inv(2) [OF assms] by blast
qed

lemma map_keys_at_r:
  assumes p: "wf_perm (length xs) p"
  shows "map_keys_ff_ordered (at_r p) xs =
    Inr (map_of (zip (map (perm_inv p) [0..<length xs]) xs))"
proof -
  have g: "res_map (at_r p) [0..<length xs] = Inr (map (perm_inv p) [0..<length xs])"
    using perm_inv(1) [OF p] by (intro res_map_Inr_on) auto
  have "card (set (map (perm_inv p) [0..<length xs])) = length xs"
    using inj_perm_inv [OF p] by (simp add: card_image atLeast0LessThan)
  then show ?thesis
    unfolding map_keys_ff_ordered_def g res_bind_simps by simp
qed

lemma permute_ff_ordered_eq:
  assumes p: "wf_perm (length xs) p"
  shows "permute_ff_ordered p xs = Inr (perm_list p xs)"
proof -
  let ?n = "length xs"
  let ?m = "map_of (zip (map (perm_inv p) [0..<?n]) xs)"
  have dist: "distinct (map (perm_inv p) [0..<?n])"
    using inj_perm_inv [OF p] by (simp add: distinct_map atLeast0LessThan)
  have m: "?m i = Some (perm_list p xs ! i)" if i: "i < ?n" for i
  proof -
    from wf_permD1 [OF p i] obtain j where j: "j < ?n" "fwd_map p i = Some j" "bwd_map p j = Some i"
      by blast
    have "?m (map (perm_inv p) [0..<?n] ! j) = Some (xs ! j)"
      using dist j(1) by (intro map_of_zip_nth) simp_all
    moreover have "map (perm_inv p) [0..<?n] ! j = i" using j by (simp add: perm_inv_def)
    ultimately show ?thesis using j i by simp
  qed
  have "dom ?m = {..<?n}"
    using image_perm_inv [OF p] by (simp add: atLeast0LessThan)
  then have "ff_ordered_from_map ?m = Inr (map (\<lambda>i. the (?m i)) [0..<?n])"
    by (rule ff_ordered_from_map_lessThan)
  also have "map (\<lambda>i. the (?m i)) [0..<?n] = perm_list p xs"
    using m by (intro nth_equalityI) simp_all
  finally show ?thesis
    by (simp only: permute_ff_ordered_def map_keys_at_r [OF p] res_bind_simps)
qed

section \<open>Composition and inversion\<close>

lemma wf_perm_finite: "wf_perm n p \<Longrightarrow> finite (dom (fwd_map p))"
  by (simp add: wf_perm_def)

lemma invert_eq:
  assumes p: "wf_perm n p"
  shows "invert_tensor_dim_permutation p = Inr \<lparr> fwd_map = bwd_map p, bwd_map = fwd_map p \<rparr> \<and>
    wf_perm n \<lparr> fwd_map = bwd_map p, bwd_map = fwd_map p \<rparr>"
proof -
  let ?q = "\<lparr> fwd_map = bwd_map p, bwd_map = fwd_map p \<rparr>"
  from p have wf: "wf_bidict p" by (simp add: wf_perm_def)
  then have "wf_bidict ?q" unfolding wf_bidict_def by simp
  then have q: "wf_perm n ?q" using p by (simp add: wf_perm_def)
  have "mk_tensor_dim_permutation ?q = Inr ?q"
    using q by (simp add: mk_tensor_dim_permutation_eq wf_perm_def)
  moreover have "reversed p = Inr ?q" using wf by (simp add: reversed_eq)
  ultimately show ?thesis using q by (simp add: invert_tensor_dim_permutation_def)
qed

lemma compose_eq:
  assumes p: "wf_perm n p" and q: "wf_perm n q" and n: "n \<le> MAX_TENSOR_DIM"
  shows "\<exists>r. compose_tensor_dim_permutations q p = Inr r \<and> wf_perm n r \<and>
    fwd_map r = fwd_map p \<circ>\<^sub>m fwd_map q"
proof -
  from p q have wf: "wf_bidict p" "wf_bidict q" by (simp_all add: wf_perm_def)
  have "right_entries q = left_entries p"
    using p q wf by (simp add: right_entries_def left_entries_def wf_ran_fwd wf_perm_def)
  from exhaustive_relational_join_eq [OF wf(2,1) wf_perm_finite [OF q] this] obtain r where
    r: "exhaustive_relational_join q p = Inr r" "wf_bidict r" "fwd_map r = fwd_map p \<circ>\<^sub>m fwd_map q"
    by blast
  have dom_r: "dom (fwd_map r) = {..<n}"
  proof (intro equalityI subsetI)
    fix i assume "i \<in> dom (fwd_map r)"
    then have "i \<in> dom (fwd_map q)" by (auto simp: r(3) map_comp_def split: option.splits)
    then show "i \<in> {..<n}" using q by (simp add: wf_perm_def)
  next
    fix i assume "i \<in> {..<n}"
    with wf_permD1 [OF q] wf_permD1 [OF p] show "i \<in> dom (fwd_map r)"
      unfolding r(3) map_comp_def by fastforce
  qed
  have "dom (bwd_map r) = ran (fwd_map r)" using r(2) by (simp add: wf_ran_fwd)
  also have "\<dots> \<subseteq> ran (fwd_map p)"
    unfolding r(3) by (auto simp: ran_def map_comp_def split: option.splits)
  also have "\<dots> = {..<n}" using p wf(1) by (simp add: wf_ran_fwd wf_perm_def)
  finally have "dom (bwd_map r) \<subseteq> {..<n}" .
  then have "dom (bwd_map r) = {..<n}"
    using card_wf_bidict [OF r(2)] dom_r by (intro card_subset_eq) simp_all
  with r(2) dom_r have wfr: "wf_perm n r" by (simp add: wf_perm_def)
  then have "mk_tensor_dim_permutation r = Inr r"
    using r(2) dom_r by (simp add: mk_tensor_dim_permutation_eq)
  moreover have "permutation_num_tensor_dims p = Inr n" "permutation_num_tensor_dims q = Inr n"
    using p q n by (simp_all add: permutation_num_tensor_dims_eq)
  ultimately show ?thesis
    using r wfr by (simp add: compose_tensor_dim_permutations_def)
qed

lemma perm_list_comp:
  assumes p: "wf_perm (length xs) p" and q: "wf_perm (length xs) q"
    and r: "fwd_map r = fwd_map p \<circ>\<^sub>m fwd_map q"
  shows "perm_list q (perm_list p xs) = perm_list r xs"
proof (rule nth_equalityI)
  fix i assume "i < length (perm_list q (perm_list p xs))"
  then have "i < length xs" by simp
  with wf_permD1 [OF q] obtain j where "i < length xs" "j < length xs" "fwd_map q i = Some j" by blast
  then show "perm_list q (perm_list p xs) ! i = perm_list r xs ! i"
    by (simp add: r)
qed simp

lemma perm_list_id:
  assumes "\<And>i. i < length xs \<Longrightarrow> fwd_map p i = Some i"
  shows "perm_list p xs = xs"
  using assms by (intro nth_equalityI) simp_all

section \<open>Objects on which permutations act\<close>

locale permutable =
  fixes rank :: "'a \<Rightarrow> nat"
    and act :: "tensor_dim_permutation \<Rightarrow> 'a \<Rightarrow> 'a res"
  assumes act_total: "wf_perm (rank x) p \<Longrightarrow> rank x \<le> MAX_TENSOR_DIM \<Longrightarrow>
      \<exists>y. act p x = Inr y \<and> rank y = rank x"
    and act_comp: "wf_perm (rank x) p \<Longrightarrow> wf_perm (rank x) q \<Longrightarrow> rank x \<le> MAX_TENSOR_DIM \<Longrightarrow>
      wf_perm (rank x) r \<Longrightarrow> fwd_map r = fwd_map p \<circ>\<^sub>m fwd_map q \<Longrightarrow> act p x = Inr y \<Longrightarrow>
      act q y = act r x"
    and act_id: "wf_perm (rank x) p \<Longrightarrow> rank x \<le> MAX_TENSOR_DIM \<Longrightarrow>
      (\<And>i. i < rank x \<Longrightarrow> fwd_map p i = Some i) \<Longrightarrow> act p x = Inr x"
begin

lemma act_compose:
  assumes p: "wf_perm (rank x) p" and q: "wf_perm (rank x) q" and n: "rank x \<le> MAX_TENSOR_DIM"
  shows "\<exists>r y. compose_tensor_dim_permutations q p = Inr r \<and> act p x = Inr y \<and> act q y = act r x"
proof -
  from compose_eq [OF p q n] obtain r where
    r: "compose_tensor_dim_permutations q p = Inr r" "wf_perm (rank x) r"
      "fwd_map r = fwd_map p \<circ>\<^sub>m fwd_map q"
    by blast
  moreover from act_total [OF p n] obtain y where "act p x = Inr y" by blast
  ultimately show ?thesis using act_comp [OF p q n r(2,3)] by blast
qed

lemma act_invert:
  assumes p: "wf_perm (rank x) p" and n: "rank x \<le> MAX_TENSOR_DIM"
  shows "\<exists>q y. invert_tensor_dim_permutation p = Inr q \<and> act p x = Inr y \<and> act q y = Inr x"
proof -
  let ?q = "\<lparr> fwd_map = bwd_map p, bwd_map = fwd_map p \<rparr>"
  from invert_eq [OF p] have i: "invert_tensor_dim_permutation p = Inr ?q" and q: "wf_perm (rank x) ?q"
    by blast+
  from compose_eq [OF p q n] obtain r where
    r: "wf_perm (rank x) r" "fwd_map r = fwd_map p \<circ>\<^sub>m fwd_map ?q"
    by blast
  have "fwd_map r i = Some i" if "i < rank x" for i
    using wf_permD2 [OF p that] by (auto simp: r(2))
  then have "act r x = Inr x" using act_id r(1) n by blast
  moreover from act_total [OF p n] obtain y where "act p x = Inr y" by blast
  ultimately show ?thesis using i act_comp [OF p q n r] by metis
qed

end

lemma permute_tensor_dims_eq:
  assumes "wf_perm (length ds) p" and "length ds \<le> MAX_TENSOR_DIM"
  shows "permute_tensor_dims p ds = Inr (perm_list p ds)"
proof -
  have "permutation_num_tensor_dims p = Inr (length ds)" "get_num_dims ds = Inr (length ds)"
    using assms by (simp_all add: permutation_num_tensor_dims_eq container_ops)
  then show ?thesis
    using permute_ff_ordered_eq [OF assms(1)] by (simp add: permute_tensor_dims_def)
qed

interpretation dims: permutable length permute_tensor_dims
  by unfold_locales (auto simp: permute_tensor_dims_eq perm_list_comp perm_list_id)

interpretation shape: permutable "\<lambda>s. length (ts_dims s)" permute_tensor_shape
  by unfold_locales
    (auto simp: permute_tensor_shape_def permute_tensor_dims_eq perm_list_comp perm_list_id)

interpretation degrees: permutable "\<lambda>d. length (ptdd_shard_degrees d)" permute_parallel_tensor_dim_degrees
  by unfold_locales
    (auto simp: permute_parallel_tensor_dim_degrees_def permute_ff_ordered_eq perm_list_comp
      perm_list_id)

interpretation pshape: permutable "\<lambda>s. length (ptd_shard_dims (pts_dims s))" permute_parallel_tensor_shape
  by unfold_locales
    (auto simp: permute_parallel_tensor_shape_def permute_parallel_tensor_dims_def
      permute_ff_ordered_eq perm_list_comp perm_list_id)

section \<open>Properties\<close>

text \<open>The rotation used by the examples: output dimension \<open>i\<close> is input dimension \<open>i + 1 mod 3\<close>.\<close>

definition rotate3 :: tensor_dim_permutation where
  "rotate3 = \<lparr> fwd_map = [0 \<mapsto> 1, 1 \<mapsto> 2, 2 \<mapsto> 0], bwd_map = [1 \<mapsto> 0, 2 \<mapsto> 1, 0 \<mapsto> 2] \<rparr>"

lemma wf_rotate3: "wf_perm 3 rotate3"
proof -
  have "wf_bidict rotate3" by (rule wf_bidictI) (auto simp: rotate3_def split: if_splits)
  moreover have "dom (fwd_map rotate3) = {..<3}" "dom (bwd_map rotate3) = {..<3}"
    by (auto simp: rotate3_def split: if_splits)
  ultimately show ?thesis by (simp add: wf_perm_def)
qed

text \<open>
  Permuting a parallel shape twice is permuting it once by the composition: for
  permutations \<open>p\<close> and \<open>q\<close> of the rank of the shape, \<open>compose_tensor_dim_permutations q p\<close> passes
  every assertion (the result is a permutation again) and acts as first \<open>p\<close> and then \<open>q\<close>.
\<close>

theorem permute_compose:
  assumes "wf_perm (length (ptd_shard_dims (pts_dims s))) p"
    and "wf_perm (length (ptd_shard_dims (pts_dims s))) q"
    and "length (ptd_shard_dims (pts_dims s)) \<le> MAX_TENSOR_DIM"
  shows "\<exists>r t. compose_tensor_dim_permutations q p = Inr r \<and>
    permute_parallel_tensor_shape p s = Inr t \<and>
    permute_parallel_tensor_shape q t = permute_parallel_tensor_shape r s"
  by (rule pshape.act_compose [OF assms])

theorem permute_compose_witness:
  "\<exists>r t. compose_tensor_dim_permutations rotate3 rotate3 = Inr r \<and>
     permute_parallel_tensor_shape rotate3 (ParallelTensorShape (ParallelTensorDims
       [ShardParallelDim 6 1, ShardParallelDim 4 2, ShardParallelDim 8 4]
       (ReplicaParallelDimSet 1 2)) FLOAT) = Inr t \<and>
     permute_parallel_tensor_shape rotate3 t = permute_parallel_tensor_shape r
       (ParallelTensorShape (ParallelTensorDims
         [ShardParallelDim 6 1, ShardParallelDim 4 2, ShardParallelDim 8 4]
         (ReplicaParallelDimSet 1 2)) FLOAT)"
  using wf_rotate3 by (intro permute_compose) (simp_all add: numeral_3_eq_3 MAX_TENSOR_DIM_def)

text \<open>
  \<open>invert_tensor_dim_permutation\<close> undoes a permutation: it returns for every permutation
  of the rank of the shape, and permuting by \<open>p\<close> and then by the inverse gives the shape back.
\<close>

theorem permute_invert:
  assumes "wf_perm (length (ts_dims s)) p" and "length (ts_dims s) \<le> MAX_TENSOR_DIM"
  shows "\<exists>q t. invert_tensor_dim_permutation p = Inr q \<and> permute_tensor_shape p s = Inr t \<and>
    permute_tensor_shape q t = Inr s"
  by (rule shape.act_invert [OF assms])

theorem permute_invert_witness:
  "\<exists>q t. invert_tensor_dim_permutation rotate3 = Inr q \<and>
     permute_tensor_shape rotate3 (TensorShape [6, 4, 8] FLOAT) = Inr t \<and>
     permute_tensor_shape q t = Inr (TensorShape [6, 4, 8] FLOAT)"
  using wf_rotate3 by (intro permute_invert) (simp_all add: numeral_3_eq_3 MAX_TENSOR_DIM_def)

text \<open>
  \<open>TensorDimPermutation::operator!=\<close> answers the wrong question: on any two permutations
  it returns true exactly when they are equal, the same as \<open>operator==\<close>.
\<close>

theorem permutation_neq_is_eq:
  assumes "wf_perm n p" and "wf_perm m q"
  shows "permutation_neq p q = Inr (p = q) \<and> permutation_eq p q = Inr (p = q)"
proof -
  have wf: "wf_bidict p" "wf_bidict q" using assms by (simp_all add: wf_perm_def)
  have "wf_bidict \<lparr> fwd_map = bwd_map p, bwd_map = fwd_map p \<rparr>"
    "wf_bidict \<lparr> fwd_map = bwd_map q, bwd_map = fwd_map q \<rparr>"
    using wf unfolding wf_bidict_def by simp_all
  then have b: "bwd_map p = bwd_map q \<Longrightarrow> fwd_map p = fwd_map q"
    using wf_bidict_eqI [of "\<lparr> fwd_map = bwd_map p, bwd_map = fwd_map p \<rparr>"
        "\<lparr> fwd_map = bwd_map q, bwd_map = fwd_map q \<rparr>"] by simp
  have "fwd_map p = fwd_map q \<longleftrightarrow> p = q" using wf_bidict_eqI [OF wf] by auto
  moreover from this b have "bwd_map p = bwd_map q \<longleftrightarrow> p = q" by auto
  ultimately show ?thesis
    by (simp add: permutation_neq_def permutation_eq_def bidict_equal_def require_same_def)
qed

theorem permutation_neq_is_eq_witness: "permutation_neq rotate3 rotate3 = Inr True"
  using permutation_neq_is_eq [OF wf_rotate3 wf_rotate3] by simp

end
