(* ===== verification/Attr_Values.thy ===== *)
theory Attr_Values
  imports Dim_Permutations
begin

text \<open>
  The attributes of the operators: the structs, enums and variants that \<open>lib/op-attrs/include\<close>
  describes in its \<open>.dtg.toml\<close> files, with \<open>tensor_slot_name.cc\<close>, \<open>operator_type.cc\<close>,
  \<open>get_op_type.cc\<close>, \<open>computation_graph_op_attrs.cc\<close>, \<open>pcg_operator_attrs.cc\<close>,
  \<open>parallel_op_attrs.cc\<close>, \<open>datatype_value.cc\<close> and \<open>initializer_attrs.cc\<close>. A struct with one field
  is that field. A floating point value is the expression that computes it, since only its
  construction is visible in this code.
\<close>

section \<open>Slots, operator types and enums\<close>

datatype (plugins only: code size) tensor_slot_name =
    Slot_INPUT | Slot_OUTPUT | Slot_FILTER | Slot_BIAS | Slot_INPUT_BIAS | Slot_OUTPUT_BIAS
    | Slot_LHS_INPUT | Slot_RHS_INPUT | Slot_INDEX | Slot_GAMMA | Slot_BETA | Slot_WEIGHT
    | Slot_QUERY | Slot_KEY | Slot_VALUE | Slot_LOGIT | Slot_INPUT_00 | Slot_INPUT_01
    | Slot_INPUT_02 | Slot_INPUT_03 | Slot_INPUT_04 | Slot_INPUT_05 | Slot_INPUT_06
    | Slot_INPUT_07 | Slot_INPUT_08 | Slot_INPUT_09 | Slot_INPUT_10 | Slot_INPUT_11
    | Slot_INPUT_12 | Slot_INPUT_13 | Slot_INPUT_14 | Slot_INPUT_15 | Slot_OUTPUT_00
    | Slot_OUTPUT_01 | Slot_OUTPUT_02 | Slot_OUTPUT_03 | Slot_OUTPUT_04 | Slot_OUTPUT_05
    | Slot_SCALE

datatype (plugins only: code) operator_type =
    Op_NOOP | Op_INPUT | Op_WEIGHT | Op_CONV2D | Op_DROPOUT | Op_LINEAR | Op_BATCHMATMUL
    | Op_POOL2D | Op_SCALAR_MULTIPLY | Op_SCALAR_ADD | Op_SCALAR_FLOOR_DIV
    | Op_SCALAR_TRUE_DIV | Op_SCALAR_SUB | Op_RELU | Op_IDENTITY | Op_SIGMOID | Op_TANH
    | Op_ELU | Op_SILU | Op_FLAT | Op_SOFTMAX | Op_BATCHNORM | Op_CONCAT | Op_SPLIT
    | Op_EMBEDDING | Op_CACHE | Op_RESHAPE | Op_REVERSE | Op_TRANSPOSE | Op_EW_ADD
    | Op_EW_MUL | Op_MATMUL | Op_MUL | Op_ENLARGE | Op_SQUEEZE | Op_UNSQUEEZE | Op_EW_SUB
    | Op_EW_DIV | Op_EW_EQUAL | Op_EW_GREATER | Op_EW_LESS | Op_EW_MAX | Op_EW_MIN
    | Op_REDUCE_ARGMAX | Op_REDUCE_ARGMIN | Op_REDUCE_MAX | Op_REDUCE_MEAN | Op_REDUCE_MIN
    | Op_REDUCE_PROD | Op_REDUCE_SUM | Op_PAD | Op_SHAPE | Op_SIZE | Op_TOPK | Op_WHERE
    | Op_CEIL | Op_CAST | Op_EXP | Op_ROUND | Op_LOG | Op_LOGICAL_NOT | Op_SQRT | Op_SIN
    | Op_COS | Op_LEAKYRELU | Op_SLICE | Op_RESIZE | Op_PRELU | Op_GELU
    | Op_MULTIHEAD_ATTENTION | Op_FUSED | Op_RSQRT | Op_POW | Op_MEAN | Op_LAYERNORM
    | Op_GATHER | Op_BROADCAST | Op_REPARTITION | Op_COMBINE | Op_REPLICATE | Op_REDUCTION
    | Op_BATCH | Op_PIPELINE | Op_FUSED_PARALLEL | Op_UPSAMPLE

definition all_slots :: "tensor_slot_name list" where
  "all_slots =
   [Slot_INPUT, Slot_OUTPUT, Slot_FILTER, Slot_BIAS, Slot_INPUT_BIAS, Slot_OUTPUT_BIAS,
    Slot_LHS_INPUT, Slot_RHS_INPUT, Slot_INDEX, Slot_GAMMA, Slot_BETA, Slot_WEIGHT,
    Slot_QUERY, Slot_KEY, Slot_VALUE, Slot_LOGIT, Slot_INPUT_00, Slot_INPUT_01,
    Slot_INPUT_02, Slot_INPUT_03, Slot_INPUT_04, Slot_INPUT_05, Slot_INPUT_06,
    Slot_INPUT_07, Slot_INPUT_08, Slot_INPUT_09, Slot_INPUT_10, Slot_INPUT_11,
    Slot_INPUT_12, Slot_INPUT_13, Slot_INPUT_14, Slot_INPUT_15, Slot_OUTPUT_00,
    Slot_OUTPUT_01, Slot_OUTPUT_02, Slot_OUTPUT_03, Slot_OUTPUT_04, Slot_OUTPUT_05,
    Slot_SCALE]"

lemma mem_all_slots [simp]: "slot \<in> set all_slots"
  by (cases slot) (simp_all add: all_slots_def)

lemma distinct_all_slots: "distinct all_slots"
  by (simp add: all_slots_def)

instantiation tensor_slot_name :: enum
begin

definition "Enum.enum = all_slots"
definition "Enum.enum_all P \<longleftrightarrow> list_all P all_slots"
definition "Enum.enum_ex P \<longleftrightarrow> list_ex P all_slots"

instance
  by standard (auto simp: enum_tensor_slot_name_def enum_all_tensor_slot_name_def
      enum_ex_tensor_slot_name_def list_all_iff list_ex_iff distinct_all_slots)

end

definition get_variadic_inputs_slot_name_sequence :: "tensor_slot_name list" where
  "get_variadic_inputs_slot_name_sequence =
   [Slot_INPUT_00, Slot_INPUT_01, Slot_INPUT_02, Slot_INPUT_03, Slot_INPUT_04,
    Slot_INPUT_05, Slot_INPUT_06, Slot_INPUT_07, Slot_INPUT_08, Slot_INPUT_09,
    Slot_INPUT_10, Slot_INPUT_11, Slot_INPUT_12, Slot_INPUT_13, Slot_INPUT_14,
    Slot_INPUT_15]"

definition get_variadic_outputs_slot_name_sequence :: "tensor_slot_name list" where
  "get_variadic_outputs_slot_name_sequence =
   [Slot_OUTPUT_00, Slot_OUTPUT_01, Slot_OUTPUT_02, Slot_OUTPUT_03, Slot_OUTPUT_04,
    Slot_OUTPUT_05]"

fun operator_type_is_parallel_op :: "operator_type \<Rightarrow> bool" where
  "operator_type_is_parallel_op Op_REPARTITION = True"
| "operator_type_is_parallel_op Op_COMBINE = True"
| "operator_type_is_parallel_op Op_REPLICATE = True"
| "operator_type_is_parallel_op Op_REDUCTION = True"
| "operator_type_is_parallel_op Op_BATCH = True"
| "operator_type_is_parallel_op Op_PIPELINE = True"
| "operator_type_is_parallel_op Op_FUSED_PARALLEL = True"
| "operator_type_is_parallel_op _ = False"

datatype activation = Act_RELU | Act_SIGMOID | Act_TANH | Act_GELU | Act_SILU

datatype aggregate_op = Aggr_SUM | Aggr_AVG

datatype pool_op = Pool_MAX | Pool_AVG

datatype upsample_mode =
    Upsample_NEAREST | Upsample_LINEAR | Upsample_BILINEAR | Upsample_BICUBIC | Upsample_TRILINEAR

datatype incoming_tensor_role = Role_INPUT | Role_WEIGHT

section \<open>Values and initializers\<close>

text \<open>\<open>F_lit m e\<close> is the value \<open>m * 2 ^ e\<close>; the other constructors are operations on \<open>float\<close>.\<close>

datatype float_expr =
    F_lit int int
  | F_of_int int
  | F_neg float_expr
  | F_add float_expr float_expr
  | F_mul float_expr float_expr
  | F_div float_expr float_expr
  | F_sqrtf float_expr

datatype data_type_value =
    Value_half float_expr
  | Value_float float_expr
  | Value_double float_expr
  | Value_int32 int
  | Value_int64 int
  | Value_bool bool

fun get_data_type_of_data_type_value :: "data_type_value \<Rightarrow> data_type" where
  "get_data_type_of_data_type_value (Value_half _) = HALF"
| "get_data_type_of_data_type_value (Value_float _) = FLOAT"
| "get_data_type_of_data_type_value (Value_double _) = DOUBLE"
| "get_data_type_of_data_type_value (Value_int32 _) = INT32"
| "get_data_type_of_data_type_value (Value_int64 _) = INT64"
| "get_data_type_of_data_type_value (Value_bool _) = BOOL"

definition make_zero_data_type_value_of_type :: "data_type \<Rightarrow> data_type_value res" where
  "make_zero_data_type_value_of_type dt =
     (let result = (case dt of
          HALF \<Rightarrow> Value_half (F_lit 0 0)
        | FLOAT \<Rightarrow> Value_float (F_lit 0 0)
        | DOUBLE \<Rightarrow> Value_double (F_lit 0 0)
        | INT32 \<Rightarrow> Value_int32 0
        | INT64 \<Rightarrow> Value_int64 0
        | BOOL \<Rightarrow> Value_bool False)
      in res_bind (ASSERT (get_data_type_of_data_type_value result = dt)) (\<lambda>_. Inr result))"

datatype kaiming_initializer_mode = FAN_IN | FAN_OUT

datatype kaiming_initializer_nonlinearity = Nonlin_RELU | Nonlin_LEAKY_RELU

record kaiming_normal_attrs =
  kn_a :: float_expr
  kn_mode :: kaiming_initializer_mode
  kn_nonlinearity :: kaiming_initializer_nonlinearity
  kn_seed :: int

record uniform_initializer_attrs =
  ui_seed :: int
  ui_min_val :: float_expr
  ui_max_val :: float_expr

record norm_initializer_attrs =
  ni_seed :: int
  ni_mean :: float_expr
  ni_stddev :: float_expr

record truncated_normal_initializer_attrs =
  tn_seed :: int
  tn_mean :: float_expr
  tn_stddev :: float_expr
  tn_min_cutoff :: float_expr
  tn_max_cutoff :: float_expr

text \<open>\<open>GlorotUniformAttrs\<close> and \<open>GlorotNormalAttrs\<close> hold a seed.\<close>

datatype initializer_attrs =
    Init_glorot_uniform int
  | Init_glorot_normal int
  | Init_kaiming_normal kaiming_normal_attrs
  | Init_zero
  | Init_uniform uniform_initializer_attrs
  | Init_normal norm_initializer_attrs
  | Init_truncated_normal truncated_normal_initializer_attrs
  | Init_constant data_type_value

definition make_zero_initializer :: initializer_attrs where
  "make_zero_initializer = Init_zero"

definition calculate_fan_for_mode ::
    "tensor_dims \<Rightarrow> kaiming_initializer_mode \<Rightarrow> positive_int res" where
  "calculate_fan_for_mode dims mode =
     res_bind (dim_at_rel_idx dims 0) (\<lambda>num_input_fmaps.
     res_bind (dim_at_rel_idx dims 1) (\<lambda>num_output_fmaps.
     res_bind (slice_tensor_dims_rel dims 2 None) (\<lambda>receptive_field.
     res_bind (get_num_elements receptive_field) (\<lambda>receptive_field_size.
     if mode = FAN_IN then positive_int_mul num_input_fmaps receptive_field_size
     else positive_int_mul num_output_fmaps receptive_field_size))))"

text \<open>\<open>assert\<close> of the C library and \<open>std::optional::value\<close> are the ways out of this function.\<close>

fun gain_for_nonlinearity ::
    "kaiming_initializer_nonlinearity \<Rightarrow> float_expr option \<Rightarrow> float_expr res" where
  "gain_for_nonlinearity Nonlin_RELU negative_slope =
     res_bind (ASSERT (negative_slope = None)) (\<lambda>_. Inr (F_sqrtf (F_lit 1 1)))"
| "gain_for_nonlinearity Nonlin_LEAKY_RELU (Some s) =
     Inr (F_sqrtf (F_div (F_lit 1 1) (F_add (F_lit 1 0) (F_mul s s))))"
| "gain_for_nonlinearity Nonlin_LEAKY_RELU None = Inl Bad_optional_access"

definition make_kaiming_uniform ::
    "tensor_dims \<Rightarrow> float_expr \<Rightarrow> kaiming_initializer_mode \<Rightarrow>
     kaiming_initializer_nonlinearity \<Rightarrow> int \<Rightarrow> initializer_attrs res" where
  "make_kaiming_uniform dims a mode nonlinearity seed =
     res_bind (calculate_fan_for_mode dims mode) (\<lambda>fan.
     res_bind (gain_for_nonlinearity nonlinearity (Some a)) (\<lambda>gain.
     let std = F_div gain (F_sqrtf (F_of_int (int fan)));
         bound = F_mul (F_sqrtf (F_lit 3 0)) std
     in Inr (Init_uniform \<lparr> ui_seed = seed, ui_min_val = F_neg bound, ui_max_val = bound \<rparr>)))"

end
