(* ===== verification/Op_Attrs.thy ===== *)
theory Op_Attrs
  imports Attr_Values
begin

text \<open>
  The attributes of every operator, the variants \<open>ComputationGraphOpAttrs\<close>, \<open>PCGOperatorAttrs\<close> and
  \<open>ParallelOpAttrs\<close>, and the functions between them: \<open>get_op_type.cc\<close>,
  \<open>computation_graph_op_attrs.cc\<close>, \<open>pcg_operator_attrs.cc\<close>, \<open>parallel_op_attrs.cc\<close>.

  An attribute struct with one field is that field: \<open>TransposeAttrs\<close> its permutation, \<open>CastAttrs\<close> its
  data type, and so on. The \<open>std::set\<close> of axes of \<open>LayerNormAttrs\<close> is the increasing list in which it
  is iterated.
\<close>

section \<open>Attributes\<close>

datatype regularizer_attrs = L1_regularizer float_expr | L2_regularizer float_expr

record multi_head_attention_attrs =
  mha_embed_dim :: positive_int
  mha_num_heads :: positive_int
  mha_kdim :: positive_int
  mha_vdim :: positive_int
  mha_dropout :: float_expr
  mha_bias :: bool
  mha_add_bias_kv :: bool
  mha_add_zero_attn :: bool

record batch_norm_attrs =
  bn_relu :: bool
  bn_affine :: bool
  bn_eps :: float_expr
  bn_momentum :: "float_expr option"

record combine_attrs =
  combine_dim :: ff_dim_t
  combine_degree :: positive_int

record concat_attrs =
  concat_axis :: ff_dim_t
  concat_num_inputs :: int_ge_two

record conv2d_attrs =
  conv_out_channels :: positive_int
  conv_kernel_h :: positive_int
  conv_kernel_w :: positive_int
  conv_stride_h :: positive_int
  conv_stride_w :: positive_int
  conv_padding_h :: nonnegative_int
  conv_padding_w :: nonnegative_int
  conv_groups :: positive_int
  conv_activation :: "activation option"
  conv_use_bias :: bool

record dropout_attrs =
  dropout_rate :: float_expr
  dropout_seed :: nat

record element_binary_attrs =
  eb_type :: operator_type
  eb_compute_type :: data_type
  eb_should_broadcast_lhs :: bool
  eb_should_broadcast_rhs :: bool

record element_unary_attrs =
  eu_op_type :: operator_type
  eu_scalar :: "float_expr option"

record embedding_attrs =
  embedding_num_entries :: positive_int
  embedding_out_channels :: positive_int
  embedding_aggr :: "aggregate_op option"
  embedding_data_type :: data_type

record flat_attrs =
  flat_start_dim :: ff_dim_t
  flat_end_dim :: ff_dim_t

record layer_norm_attrs =
  ln_axes :: "ff_dim_t list"
  ln_elementwise_affine :: bool
  ln_eps :: float_expr

record linear_attrs =
  linear_out_channels :: positive_int
  linear_use_bias :: bool
  linear_data_type :: data_type
  linear_activation :: "activation option"
  linear_regularizer :: "regularizer_attrs option"

record pool2d_attrs =
  pool_kernel_h :: positive_int
  pool_kernel_w :: positive_int
  pool_stride_h :: positive_int
  pool_stride_w :: positive_int
  pool_padding_h :: nonnegative_int
  pool_padding_w :: nonnegative_int
  pool_pool_type :: pool_op
  pool_activation :: "activation option"

record reduce_attrs =
  reduce_axes :: "ff_dim_t list"
  reduce_op_type :: operator_type
  reduce_keepdims :: bool

record repartition_attrs =
  repartition_dim :: ff_dim_t
  repartition_degree :: positive_int

record split_attrs =
  split_splits :: "positive_int list"
  split_axis :: ff_dim_t

record topk_attrs =
  topk_k :: positive_int
  topk_sorted :: bool

record upsample_attrs =
  upsample_scale_factor :: int_ge_two
  upsample_mode :: upsample_mode

record weight_attrs =
  weight_tensor_shape :: tensor_shape
  weight_initializer :: initializer_attrs

section \<open>Variants\<close>

datatype (plugins only: code size) computation_graph_op_attrs =
    CG_batch_norm batch_norm_attrs
  | CG_batch_matmul
  | CG_broadcast tensor_dims
  | CG_cast data_type
  | CG_concat concat_attrs
  | CG_conv2d conv2d_attrs
  | CG_dropout dropout_attrs
  | CG_element_binary element_binary_attrs
  | CG_element_unary element_unary_attrs
  | CG_embedding embedding_attrs
  | CG_flat flat_attrs
  | CG_gather ff_dim_t
  | CG_input tensor_shape
  | CG_layer_norm layer_norm_attrs
  | CG_linear linear_attrs
  | CG_multi_head_attention multi_head_attention_attrs
  | CG_noop
  | CG_pool2d pool2d_attrs
  | CG_reduce reduce_attrs
  | CG_reverse ff_dim_t
  | CG_reshape tensor_shape
  | CG_split split_attrs
  | CG_softmax ff_dim_t
  | CG_topk topk_attrs
  | CG_transpose tensor_dim_permutation
  | CG_upsample upsample_attrs
  | CG_weight weight_attrs

datatype (plugins only: code size) pcg_operator_attrs =
    PCG_batch_norm batch_norm_attrs
  | PCG_batch_matmul
  | PCG_broadcast tensor_dims
  | PCG_cast data_type
  | PCG_combine combine_attrs
  | PCG_concat concat_attrs
  | PCG_conv2d conv2d_attrs
  | PCG_dropout dropout_attrs
  | PCG_element_binary element_binary_attrs
  | PCG_element_unary element_unary_attrs
  | PCG_embedding embedding_attrs
  | PCG_flat flat_attrs
  | PCG_gather ff_dim_t
  | PCG_input tensor_shape
  | PCG_layer_norm layer_norm_attrs
  | PCG_linear linear_attrs
  | PCG_multi_head_attention multi_head_attention_attrs
  | PCG_noop
  | PCG_pool2d pool2d_attrs
  | PCG_reduce reduce_attrs
  | PCG_reduction positive_int
  | PCG_repartition repartition_attrs
  | PCG_replicate positive_int
  | PCG_reverse ff_dim_t
  | PCG_reshape tensor_shape
  | PCG_split split_attrs
  | PCG_softmax ff_dim_t
  | PCG_topk topk_attrs
  | PCG_transpose tensor_dim_permutation
  | PCG_upsample upsample_attrs
  | PCG_weight weight_attrs

datatype parallel_op_attrs =
    Parallel_combine combine_attrs
  | Parallel_reduction positive_int
  | Parallel_repartition repartition_attrs
  | Parallel_replicate positive_int

section \<open>Operator types\<close>

fun cg_get_op_type :: "computation_graph_op_attrs \<Rightarrow> operator_type" where
  "cg_get_op_type (CG_batch_norm _) = Op_BATCHNORM"
| "cg_get_op_type CG_batch_matmul = Op_BATCHMATMUL"
| "cg_get_op_type (CG_broadcast _) = Op_BROADCAST"
| "cg_get_op_type (CG_cast _) = Op_CAST"
| "cg_get_op_type (CG_concat _) = Op_CONCAT"
| "cg_get_op_type (CG_conv2d _) = Op_CONV2D"
| "cg_get_op_type (CG_dropout _) = Op_DROPOUT"
| "cg_get_op_type (CG_element_binary a) = eb_type a"
| "cg_get_op_type (CG_element_unary a) = eu_op_type a"
| "cg_get_op_type (CG_embedding _) = Op_EMBEDDING"
| "cg_get_op_type (CG_flat _) = Op_FLAT"
| "cg_get_op_type (CG_gather _) = Op_GATHER"
| "cg_get_op_type (CG_input _) = Op_INPUT"
| "cg_get_op_type (CG_layer_norm _) = Op_LAYERNORM"
| "cg_get_op_type (CG_linear _) = Op_LINEAR"
| "cg_get_op_type (CG_multi_head_attention _) = Op_MULTIHEAD_ATTENTION"
| "cg_get_op_type CG_noop = Op_NOOP"
| "cg_get_op_type (CG_pool2d _) = Op_POOL2D"
| "cg_get_op_type (CG_reduce a) = reduce_op_type a"
| "cg_get_op_type (CG_reverse _) = Op_REVERSE"
| "cg_get_op_type (CG_reshape _) = Op_RESHAPE"
| "cg_get_op_type (CG_split _) = Op_SPLIT"
| "cg_get_op_type (CG_softmax _) = Op_SOFTMAX"
| "cg_get_op_type (CG_topk _) = Op_TOPK"
| "cg_get_op_type (CG_transpose _) = Op_TRANSPOSE"
| "cg_get_op_type (CG_upsample _) = Op_UPSAMPLE"
| "cg_get_op_type (CG_weight _) = Op_WEIGHT"

fun pcg_op_attrs_get_op_type :: "pcg_operator_attrs \<Rightarrow> operator_type" where
  "pcg_op_attrs_get_op_type (PCG_batch_norm _) = Op_BATCHNORM"
| "pcg_op_attrs_get_op_type PCG_batch_matmul = Op_BATCHMATMUL"
| "pcg_op_attrs_get_op_type (PCG_broadcast _) = Op_BROADCAST"
| "pcg_op_attrs_get_op_type (PCG_cast _) = Op_CAST"
| "pcg_op_attrs_get_op_type (PCG_combine _) = Op_COMBINE"
| "pcg_op_attrs_get_op_type (PCG_concat _) = Op_CONCAT"
| "pcg_op_attrs_get_op_type (PCG_conv2d _) = Op_CONV2D"
| "pcg_op_attrs_get_op_type (PCG_dropout _) = Op_DROPOUT"
| "pcg_op_attrs_get_op_type (PCG_element_binary a) = eb_type a"
| "pcg_op_attrs_get_op_type (PCG_element_unary a) = eu_op_type a"
| "pcg_op_attrs_get_op_type (PCG_embedding _) = Op_EMBEDDING"
| "pcg_op_attrs_get_op_type (PCG_flat _) = Op_FLAT"
| "pcg_op_attrs_get_op_type (PCG_gather _) = Op_GATHER"
| "pcg_op_attrs_get_op_type (PCG_input _) = Op_INPUT"
| "pcg_op_attrs_get_op_type (PCG_layer_norm _) = Op_LAYERNORM"
| "pcg_op_attrs_get_op_type (PCG_linear _) = Op_LINEAR"
| "pcg_op_attrs_get_op_type (PCG_multi_head_attention _) = Op_MULTIHEAD_ATTENTION"
| "pcg_op_attrs_get_op_type PCG_noop = Op_NOOP"
| "pcg_op_attrs_get_op_type (PCG_pool2d _) = Op_POOL2D"
| "pcg_op_attrs_get_op_type (PCG_reduce a) = reduce_op_type a"
| "pcg_op_attrs_get_op_type (PCG_reduction _) = Op_REDUCTION"
| "pcg_op_attrs_get_op_type (PCG_repartition _) = Op_REPARTITION"
| "pcg_op_attrs_get_op_type (PCG_replicate _) = Op_REPLICATE"
| "pcg_op_attrs_get_op_type (PCG_reverse _) = Op_REVERSE"
| "pcg_op_attrs_get_op_type (PCG_reshape _) = Op_RESHAPE"
| "pcg_op_attrs_get_op_type (PCG_split _) = Op_SPLIT"
| "pcg_op_attrs_get_op_type (PCG_softmax _) = Op_SOFTMAX"
| "pcg_op_attrs_get_op_type (PCG_topk _) = Op_TOPK"
| "pcg_op_attrs_get_op_type (PCG_transpose _) = Op_TRANSPOSE"
| "pcg_op_attrs_get_op_type (PCG_upsample _) = Op_UPSAMPLE"
| "pcg_op_attrs_get_op_type (PCG_weight _) = Op_WEIGHT"

fun pcg_is_parallel_op :: "pcg_operator_attrs \<Rightarrow> bool" where
  "pcg_is_parallel_op (PCG_combine _) = True"
| "pcg_is_parallel_op (PCG_reduction _) = True"
| "pcg_is_parallel_op (PCG_repartition _) = True"
| "pcg_is_parallel_op (PCG_replicate _) = True"
| "pcg_is_parallel_op _ = False"

section \<open>Conversions\<close>

fun pcg_op_attrs_from_compgraph_op_attrs :: "computation_graph_op_attrs \<Rightarrow> pcg_operator_attrs" where
  "pcg_op_attrs_from_compgraph_op_attrs (CG_batch_norm a) = PCG_batch_norm a"
| "pcg_op_attrs_from_compgraph_op_attrs CG_batch_matmul = PCG_batch_matmul"
| "pcg_op_attrs_from_compgraph_op_attrs (CG_broadcast a) = PCG_broadcast a"
| "pcg_op_attrs_from_compgraph_op_attrs (CG_cast a) = PCG_cast a"
| "pcg_op_attrs_from_compgraph_op_attrs (CG_concat a) = PCG_concat a"
| "pcg_op_attrs_from_compgraph_op_attrs (CG_conv2d a) = PCG_conv2d a"
| "pcg_op_attrs_from_compgraph_op_attrs (CG_dropout a) = PCG_dropout a"
| "pcg_op_attrs_from_compgraph_op_attrs (CG_element_binary a) = PCG_element_binary a"
| "pcg_op_attrs_from_compgraph_op_attrs (CG_element_unary a) = PCG_element_unary a"
| "pcg_op_attrs_from_compgraph_op_attrs (CG_embedding a) = PCG_embedding a"
| "pcg_op_attrs_from_compgraph_op_attrs (CG_flat a) = PCG_flat a"
| "pcg_op_attrs_from_compgraph_op_attrs (CG_gather a) = PCG_gather a"
| "pcg_op_attrs_from_compgraph_op_attrs (CG_input a) = PCG_input a"
| "pcg_op_attrs_from_compgraph_op_attrs (CG_layer_norm a) = PCG_layer_norm a"
| "pcg_op_attrs_from_compgraph_op_attrs (CG_linear a) = PCG_linear a"
| "pcg_op_attrs_from_compgraph_op_attrs (CG_multi_head_attention a) = PCG_multi_head_attention a"
| "pcg_op_attrs_from_compgraph_op_attrs CG_noop = PCG_noop"
| "pcg_op_attrs_from_compgraph_op_attrs (CG_pool2d a) = PCG_pool2d a"
| "pcg_op_attrs_from_compgraph_op_attrs (CG_reduce a) = PCG_reduce a"
| "pcg_op_attrs_from_compgraph_op_attrs (CG_reverse a) = PCG_reverse a"
| "pcg_op_attrs_from_compgraph_op_attrs (CG_reshape a) = PCG_reshape a"
| "pcg_op_attrs_from_compgraph_op_attrs (CG_split a) = PCG_split a"
| "pcg_op_attrs_from_compgraph_op_attrs (CG_softmax a) = PCG_softmax a"
| "pcg_op_attrs_from_compgraph_op_attrs (CG_topk a) = PCG_topk a"
| "pcg_op_attrs_from_compgraph_op_attrs (CG_transpose a) = PCG_transpose a"
| "pcg_op_attrs_from_compgraph_op_attrs (CG_upsample a) = PCG_upsample a"
| "pcg_op_attrs_from_compgraph_op_attrs (CG_weight a) = PCG_weight a"

fun compgraph_op_attrs_from_pcg_op_attrs ::
    "pcg_operator_attrs \<Rightarrow> computation_graph_op_attrs option" where
  "compgraph_op_attrs_from_pcg_op_attrs (PCG_batch_norm a) = Some (CG_batch_norm a)"
| "compgraph_op_attrs_from_pcg_op_attrs PCG_batch_matmul = Some CG_batch_matmul"
| "compgraph_op_attrs_from_pcg_op_attrs (PCG_broadcast a) = Some (CG_broadcast a)"
| "compgraph_op_attrs_from_pcg_op_attrs (PCG_cast a) = Some (CG_cast a)"
| "compgraph_op_attrs_from_pcg_op_attrs (PCG_combine _) = None"
| "compgraph_op_attrs_from_pcg_op_attrs (PCG_concat a) = Some (CG_concat a)"
| "compgraph_op_attrs_from_pcg_op_attrs (PCG_conv2d a) = Some (CG_conv2d a)"
| "compgraph_op_attrs_from_pcg_op_attrs (PCG_dropout a) = Some (CG_dropout a)"
| "compgraph_op_attrs_from_pcg_op_attrs (PCG_element_binary a) = Some (CG_element_binary a)"
| "compgraph_op_attrs_from_pcg_op_attrs (PCG_element_unary a) = Some (CG_element_unary a)"
| "compgraph_op_attrs_from_pcg_op_attrs (PCG_embedding a) = Some (CG_embedding a)"
| "compgraph_op_attrs_from_pcg_op_attrs (PCG_flat a) = Some (CG_flat a)"
| "compgraph_op_attrs_from_pcg_op_attrs (PCG_gather a) = Some (CG_gather a)"
| "compgraph_op_attrs_from_pcg_op_attrs (PCG_input a) = Some (CG_input a)"
| "compgraph_op_attrs_from_pcg_op_attrs (PCG_layer_norm a) = Some (CG_layer_norm a)"
| "compgraph_op_attrs_from_pcg_op_attrs (PCG_linear a) = Some (CG_linear a)"
| "compgraph_op_attrs_from_pcg_op_attrs (PCG_multi_head_attention a) = Some (CG_multi_head_attention a)"
| "compgraph_op_attrs_from_pcg_op_attrs PCG_noop = Some CG_noop"
| "compgraph_op_attrs_from_pcg_op_attrs (PCG_pool2d a) = Some (CG_pool2d a)"
| "compgraph_op_attrs_from_pcg_op_attrs (PCG_reduce a) = Some (CG_reduce a)"
| "compgraph_op_attrs_from_pcg_op_attrs (PCG_reduction _) = None"
| "compgraph_op_attrs_from_pcg_op_attrs (PCG_repartition _) = None"
| "compgraph_op_attrs_from_pcg_op_attrs (PCG_replicate _) = None"
| "compgraph_op_attrs_from_pcg_op_attrs (PCG_reverse a) = Some (CG_reverse a)"
| "compgraph_op_attrs_from_pcg_op_attrs (PCG_reshape a) = Some (CG_reshape a)"
| "compgraph_op_attrs_from_pcg_op_attrs (PCG_split a) = Some (CG_split a)"
| "compgraph_op_attrs_from_pcg_op_attrs (PCG_softmax a) = Some (CG_softmax a)"
| "compgraph_op_attrs_from_pcg_op_attrs (PCG_topk a) = Some (CG_topk a)"
| "compgraph_op_attrs_from_pcg_op_attrs (PCG_transpose a) = Some (CG_transpose a)"
| "compgraph_op_attrs_from_pcg_op_attrs (PCG_upsample a) = Some (CG_upsample a)"
| "compgraph_op_attrs_from_pcg_op_attrs (PCG_weight a) = Some (CG_weight a)"

fun pcg_op_attrs_from_parallel_op_attrs :: "parallel_op_attrs \<Rightarrow> pcg_operator_attrs" where
  "pcg_op_attrs_from_parallel_op_attrs (Parallel_combine a) = PCG_combine a"
| "pcg_op_attrs_from_parallel_op_attrs (Parallel_reduction a) = PCG_reduction a"
| "pcg_op_attrs_from_parallel_op_attrs (Parallel_repartition a) = PCG_repartition a"
| "pcg_op_attrs_from_parallel_op_attrs (Parallel_replicate a) = PCG_replicate a"

lemma from_pcg_of_compgraph:
  "compgraph_op_attrs_from_pcg_op_attrs (pcg_op_attrs_from_compgraph_op_attrs c) = Some c"
  by (cases c) simp_all

section \<open>Properties\<close>

text \<open>
  Computation graph operators are exactly the parallel computation graph operators that
  do not reshard: converting to the parallel variant and back is the identity, an operator converts
  back exactly when \<open>is_parallel_op\<close> is false of it, converting preserves the operator type, and
  \<open>is_parallel_op\<close> of the four resharding operators agrees with \<open>is_parallel_op\<close> of their type.
\<close>

theorem op_attrs_conversions:
  "compgraph_op_attrs_from_pcg_op_attrs (pcg_op_attrs_from_compgraph_op_attrs c) = Some c \<and>
   (compgraph_op_attrs_from_pcg_op_attrs p = None \<longleftrightarrow> pcg_is_parallel_op p) \<and>
   (compgraph_op_attrs_from_pcg_op_attrs p = Some c \<longleftrightarrow> p = pcg_op_attrs_from_compgraph_op_attrs c) \<and>
   pcg_op_attrs_get_op_type (pcg_op_attrs_from_compgraph_op_attrs c) = cg_get_op_type c \<and>
   operator_type_is_parallel_op
     (pcg_op_attrs_get_op_type (pcg_op_attrs_from_parallel_op_attrs q)) \<and>
   pcg_is_parallel_op (pcg_op_attrs_from_parallel_op_attrs q)"
proof (intro conjI)
  show "compgraph_op_attrs_from_pcg_op_attrs p = Some c \<longleftrightarrow> p = pcg_op_attrs_from_compgraph_op_attrs c"
  proof
    assume "compgraph_op_attrs_from_pcg_op_attrs p = Some c"
    then show "p = pcg_op_attrs_from_compgraph_op_attrs c" by (cases p) auto
  qed (simp add: from_pcg_of_compgraph)
qed (rule from_pcg_of_compgraph | cases c; simp; fail | cases p; simp; fail | cases q; simp; fail)+

end
