(* ===== verification/Parallel_Inference.thy ===== *)
theory Parallel_Inference
  imports Op_Attrs
begin

text \<open>
  How the operators of \<open>lib/op-attrs/src/op-attrs/ops\<close> infer parallel shapes. An operator has a
  sequential inference on \<open>TensorShape\<close>, an inference of \<open>ParallelTensorDimDegrees\<close>, and a parallel
  inference on \<open>ParallelTensorShape\<close> composed of the two: it infers the shape of the reduced input,
  infers the degrees of the output, and lifts the shape with the degrees.

  The locales state this contract for one input (\<open>parallel_inference\<close>) and two
  (\<open>parallel_inference2\<close>), extend it by what an operator with valid attributes owes to well-formed
  inputs (\<open>wf_inference\<close>), and by the conservation of the total degree (\<open>degree_conserving\<close>): every
  device of the input is a device of the output. Each operator's theory interprets them on its
  own functions.
\<close>

lemma lift_with_degrees_eq:
  "lift_to_parallel_with_degrees u s c ds = lift_to_parallel_with_dim_degrees u (ParallelTensorDimDegrees s c ds)"
  by (simp add: lift_to_parallel_with_degrees_def lift_to_parallel_with_dim_degrees_def
      ptd_lift_to_parallel_with_dim_degrees_def)

lemma lift_wf_total:
  assumes "wf_shape u" and "wf_degrees d" and "length (ptdd_shard_degrees d) = length (ts_dims u)"
  shows "wf_pshape (lift_to_parallel_with_dim_degrees u d)"
    and "get_total_parallel_degree (lift_to_parallel_with_dim_degrees u d) = Inr n \<longleftrightarrow>
      n = total_degree d \<and> total_degree d \<le> INT_MAX"
  using assms
  by (simp_all add: wf_pshape_def get_reduced_shape_lift get_parallel_degrees_lift
      get_total_parallel_degree_eq total_degree_wf)

locale parallel_inference =
  fixes unpar :: "tensor_shape \<Rightarrow> tensor_shape res"
    and degs :: "parallel_tensor_dim_degrees \<Rightarrow> parallel_tensor_dim_degrees res"
    and par :: "parallel_tensor_shape \<Rightarrow> parallel_tensor_shape res"
  assumes par_eq: "par s = Inr t \<longleftrightarrow>
      (\<exists>u d. unpar (get_reduced_shape s) = Inr u \<and> degs (get_parallel_degrees s) = Inr d \<and>
        t = lift_to_parallel_with_dim_degrees u d)"
    and ranks: "unpar u = Inr u' \<Longrightarrow> degs d = Inr d' \<Longrightarrow>
      length (ptdd_shard_degrees d) = length (ts_dims u) \<Longrightarrow>
      length (ptdd_shard_degrees d') = length (ts_dims u')"
begin

lemma par_parts:
  assumes "par s = Inr t"
  shows "unpar (get_reduced_shape s) = Inr (get_reduced_shape t)"
    and "degs (get_parallel_degrees s) = Inr (get_parallel_degrees t)"
proof -
  from assms obtain u d where ud: "unpar (get_reduced_shape s) = Inr u"
    "degs (get_parallel_degrees s) = Inr d" and t: "t = lift_to_parallel_with_dim_degrees u d"
    by (auto simp: par_eq)
  with ranks length_shard_degrees have "length (ptdd_shard_degrees d) = length (ts_dims u)"
    by blast
  with ud t show "unpar (get_reduced_shape s) = Inr (get_reduced_shape t)"
    "degs (get_parallel_degrees s) = Inr (get_parallel_degrees t)"
    by (simp_all add: get_reduced_shape_lift get_parallel_degrees_lift)
qed

lemma par_iff:
  "par s = Inr t \<longleftrightarrow>
     unpar (get_reduced_shape s) = Inr (get_reduced_shape t) \<and>
     degs (get_parallel_degrees s) = Inr (get_parallel_degrees t)"
proof
  assume "unpar (get_reduced_shape s) = Inr (get_reduced_shape t) \<and>
     degs (get_parallel_degrees s) = Inr (get_parallel_degrees t)"
  then show "par s = Inr t"
    unfolding par_eq by (metis lift_of_parts)
qed (simp add: par_parts)

end

locale wf_inference = parallel_inference +
  fixes attrs_ok :: bool
  assumes unpar_wf: "attrs_ok \<Longrightarrow> wf_shape u \<Longrightarrow> unpar u = Inr u' \<Longrightarrow> wf_shape u'"
    and degs_wf: "attrs_ok \<Longrightarrow> wf_degrees d \<Longrightarrow> degs d = Inr d' \<Longrightarrow> wf_degrees d'"
begin

lemma par_wf: "attrs_ok \<Longrightarrow> wf_pshape s \<Longrightarrow> par s = Inr t \<Longrightarrow> wf_pshape t"
  unfolding wf_pshape_def par_iff using unpar_wf degs_wf by blast

end

locale degree_conserving = wf_inference +
  assumes degs_total: "attrs_ok \<Longrightarrow> wf_degrees d \<Longrightarrow> degs d = Inr d' \<Longrightarrow> total_degree d' = total_degree d"
begin

lemma par_total:
  assumes ok: "attrs_ok" and "wf_pshape s" and "par s = Inr t"
  shows "get_total_parallel_degree t = Inr n \<longleftrightarrow> get_total_parallel_degree s = Inr n"
proof -
  have s: "wf_degrees (get_parallel_degrees s)"
    using assms(2) by (simp add: wf_pshape_def)
  have t: "wf_degrees (get_parallel_degrees t)"
    using ok s par_parts(2) [OF assms(3)] by (rule degs_wf)
  have "total_degree (get_parallel_degrees t) = total_degree (get_parallel_degrees s)"
    using ok s par_parts(2) [OF assms(3)] by (rule degs_total)
  then show ?thesis
    by (simp only: get_total_parallel_degree_eq total_degree_wf [OF s] total_degree_wf [OF t])
qed

end

locale parallel_inference2 =
  fixes unpar :: "tensor_shape \<Rightarrow> tensor_shape \<Rightarrow> tensor_shape res"
    and degs :: "parallel_tensor_dim_degrees \<Rightarrow> parallel_tensor_dim_degrees \<Rightarrow>
      parallel_tensor_dim_degrees res"
    and par :: "parallel_tensor_shape \<Rightarrow> parallel_tensor_shape \<Rightarrow> parallel_tensor_shape res"
    and attrs_ok :: bool
  assumes par_eq: "par l r = Inr t \<longleftrightarrow>
      (\<exists>u d. unpar (get_reduced_shape l) (get_reduced_shape r) = Inr u \<and>
        degs (get_parallel_degrees l) (get_parallel_degrees r) = Inr d \<and>
        t = lift_to_parallel_with_dim_degrees u d)"
    and ranks: "unpar u v = Inr w \<Longrightarrow> degs d e = Inr f \<Longrightarrow>
      length (ptdd_shard_degrees d) = length (ts_dims u) \<Longrightarrow>
      length (ptdd_shard_degrees e) = length (ts_dims v) \<Longrightarrow>
      length (ptdd_shard_degrees f) = length (ts_dims w)"
    and unpar_wf: "attrs_ok \<Longrightarrow> wf_shape u \<Longrightarrow> wf_shape v \<Longrightarrow> unpar u v = Inr w \<Longrightarrow> wf_shape w"
    and degs_wf: "wf_degrees d \<Longrightarrow> wf_degrees e \<Longrightarrow> degs d e = Inr f \<Longrightarrow> wf_degrees f"
begin

lemma par_parts:
  assumes "par l r = Inr t"
  shows "unpar (get_reduced_shape l) (get_reduced_shape r) = Inr (get_reduced_shape t)"
    and "degs (get_parallel_degrees l) (get_parallel_degrees r) = Inr (get_parallel_degrees t)"
proof -
  from assms obtain u d where ud: "unpar (get_reduced_shape l) (get_reduced_shape r) = Inr u"
    "degs (get_parallel_degrees l) (get_parallel_degrees r) = Inr d"
    and t: "t = lift_to_parallel_with_dim_degrees u d"
    by (auto simp: par_eq)
  with ranks length_shard_degrees have "length (ptdd_shard_degrees d) = length (ts_dims u)"
    by blast
  with ud t show "unpar (get_reduced_shape l) (get_reduced_shape r) = Inr (get_reduced_shape t)"
    "degs (get_parallel_degrees l) (get_parallel_degrees r) = Inr (get_parallel_degrees t)"
    by (simp_all add: get_reduced_shape_lift get_parallel_degrees_lift)
qed

lemma par_iff:
  "par l r = Inr t \<longleftrightarrow>
     unpar (get_reduced_shape l) (get_reduced_shape r) = Inr (get_reduced_shape t) \<and>
     degs (get_parallel_degrees l) (get_parallel_degrees r) = Inr (get_parallel_degrees t)"
proof
  assume "unpar (get_reduced_shape l) (get_reduced_shape r) = Inr (get_reduced_shape t) \<and>
     degs (get_parallel_degrees l) (get_parallel_degrees r) = Inr (get_parallel_degrees t)"
  then show "par l r = Inr t"
    unfolding par_eq by (metis lift_of_parts)
qed (simp add: par_parts)

lemma par_wf: "attrs_ok \<Longrightarrow> wf_pshape l \<Longrightarrow> wf_pshape r \<Longrightarrow> par l r = Inr t \<Longrightarrow> wf_pshape t"
  unfolding wf_pshape_def par_iff using unpar_wf degs_wf by blast

end

end
