(* ===== verification/Op_Linear.thy ===== *)
theory Op_Linear
  imports Parallel_Inference
begin

text \<open>
  The linear operator, \<open>lib/op-attrs/src/op-attrs/ops/linear.cc\<close>: the shapes of projection, bias and
  output, their parallel degrees, the weights and their default initializers. The output of a
  linear operator on an input that is partially summed or sharded in its channel dimension is a
  partial sum; copies of the input become shards of the output channels.
\<close>

section \<open>Definitions\<close>

definition get_linear_incoming_tensor_roles ::
    "linear_attrs \<Rightarrow> (tensor_slot_name \<rightharpoonup> incoming_tensor_role)" where
  "get_linear_incoming_tensor_roles attrs =
     (let result = [Slot_INPUT \<mapsto> Role_INPUT, Slot_WEIGHT \<mapsto> Role_WEIGHT]
      in if linear_use_bias attrs then result(Slot_BIAS \<mapsto> Role_WEIGHT) else result)"

definition linear_get_projection_shape :: "linear_attrs \<Rightarrow> tensor_shape \<Rightarrow> tensor_shape res" where
  "linear_get_projection_shape attrs input_shape =
     res_bind (dim_at_rel_idx (ts_dims input_shape) (- 1)) (\<lambda>in_channels.
     Inr (TensorShape [linear_out_channels attrs, in_channels] (ts_data_type input_shape)))"

definition linear_get_bias_shape :: "linear_attrs \<Rightarrow> tensor_shape \<Rightarrow> tensor_shape res" where
  "linear_get_bias_shape attrs input_shape =
     Inr (TensorShape [linear_out_channels attrs] (ts_data_type input_shape))"

definition linear_get_output_shape :: "linear_attrs \<Rightarrow> tensor_shape \<Rightarrow> tensor_shape res" where
  "linear_get_output_shape attrs input_shape =
     res_bind (ff_ordered_set_rel (ts_dims input_shape) (- 1) (linear_out_channels attrs)) (\<lambda>dims.
     Inr (input_shape\<lparr>ts_dims := dims\<rparr>))"

definition linear_get_weight_shapes ::
    "linear_attrs \<Rightarrow> tensor_shape \<Rightarrow> (tensor_slot_name \<rightharpoonup> tensor_shape) res" where
  "linear_get_weight_shapes attrs input_shape =
     res_bind (linear_get_projection_shape attrs input_shape) (\<lambda>projection.
     if linear_use_bias attrs
     then res_bind (linear_get_bias_shape attrs input_shape) (\<lambda>bias.
       Inr [Slot_WEIGHT \<mapsto> projection, Slot_BIAS \<mapsto> bias])
     else Inr [Slot_WEIGHT \<mapsto> projection])"

definition linear_get_projection_parallel_dim_degrees ::
    "linear_attrs \<Rightarrow> parallel_tensor_dim_degrees \<Rightarrow> parallel_tensor_dim_degrees res" where
  "linear_get_projection_parallel_dim_degrees attrs input =
     res_bind (ff_ordered_slice_rel (ptdd_shard_degrees input) 0 (Some (- 1))) (\<lambda>batch.
     res_bind (product batch) (\<lambda>p.
     res_bind (positive_int_mul (ptdd_sum_degree input) p) (\<lambda>discard_copy_degree.
     res_bind (ff_ordered_at_rel (ptdd_shard_degrees input) (- 1)) (\<lambda>channel.
     Inr (ParallelTensorDimDegrees 1 discard_copy_degree
       [ptdd_discard_copy_degree input, channel])))))"

definition linear_get_bias_parallel_dim_degrees ::
    "linear_attrs \<Rightarrow> parallel_tensor_dim_degrees \<Rightarrow> parallel_tensor_dim_degrees res" where
  "linear_get_bias_parallel_dim_degrees attrs input =
     res_bind (ff_ordered_at_rel (ptdd_shard_degrees input) (- 1)) (\<lambda>channel.
     res_bind (positive_int_mul (ptdd_sum_degree input) channel) (\<lambda>sum_degree.
     res_bind (ff_ordered_slice_rel (ptdd_shard_degrees input) 0 (Some (- 1))) (\<lambda>batch.
     res_bind (product batch) (\<lambda>discard_copy_degree.
     Inr (ParallelTensorDimDegrees sum_degree discard_copy_degree
       [ptdd_discard_copy_degree input])))))"

definition linear_get_output_parallel_dim_degrees ::
    "linear_attrs \<Rightarrow> parallel_tensor_dim_degrees \<Rightarrow> parallel_tensor_dim_degrees res" where
  "linear_get_output_parallel_dim_degrees attrs input =
     res_bind (ff_ordered_at_rel (ptdd_shard_degrees input) (- 1)) (\<lambda>channel.
     res_bind (positive_int_mul (ptdd_sum_degree input) channel) (\<lambda>sum_degree.
     res_bind (ff_ordered_set_rel (ptdd_shard_degrees input) (- 1)
       (ptdd_discard_copy_degree input)) (\<lambda>shard_degrees.
     Inr (ParallelTensorDimDegrees sum_degree 1 shard_degrees))))"

definition linear_get_projection_parallel_shape ::
    "linear_attrs \<Rightarrow> parallel_tensor_shape \<Rightarrow> parallel_tensor_shape res" where
  "linear_get_projection_parallel_shape attrs input =
     res_bind (linear_get_projection_shape attrs (get_reduced_shape input)) (\<lambda>unpar.
     res_bind (linear_get_projection_parallel_dim_degrees attrs (get_parallel_degrees input))
       (\<lambda>projection_degrees.
     Inr (lift_to_parallel_with_dim_degrees unpar projection_degrees)))"

definition linear_get_bias_parallel_shape ::
    "linear_attrs \<Rightarrow> parallel_tensor_shape \<Rightarrow> parallel_tensor_shape res" where
  "linear_get_bias_parallel_shape attrs input =
     res_bind (linear_get_bias_shape attrs (get_reduced_shape input)) (\<lambda>unpar.
     res_bind (linear_get_bias_parallel_dim_degrees attrs (get_parallel_degrees input))
       (\<lambda>bias_degrees.
     Inr (lift_to_parallel_with_dim_degrees unpar bias_degrees)))"

definition linear_get_output_parallel_shape ::
    "linear_attrs \<Rightarrow> parallel_tensor_shape \<Rightarrow> parallel_tensor_shape res" where
  "linear_get_output_parallel_shape attrs input =
     res_bind (linear_get_output_shape attrs (get_reduced_shape input)) (\<lambda>unpar.
     res_bind (linear_get_output_parallel_dim_degrees attrs (get_parallel_degrees input))
       (\<lambda>output_degrees.
     Inr (lift_to_parallel_with_dim_degrees unpar output_degrees)))"

definition linear_get_weight_parallel_shapes ::
    "linear_attrs \<Rightarrow> parallel_tensor_shape \<Rightarrow> (tensor_slot_name \<rightharpoonup> parallel_tensor_shape) res" where
  "linear_get_weight_parallel_shapes attrs input_shape =
     res_bind (linear_get_projection_parallel_shape attrs input_shape) (\<lambda>projection.
     if linear_use_bias attrs
     then res_bind (linear_get_bias_parallel_shape attrs input_shape) (\<lambda>bias.
       Inr [Slot_WEIGHT \<mapsto> projection, Slot_BIAS \<mapsto> bias])
     else Inr [Slot_WEIGHT \<mapsto> projection])"

text \<open>The initializers, with the weights' bounds as the expressions that compute them.\<close>

definition linear_get_initializers ::
    "linear_attrs \<Rightarrow> tensor_shape \<Rightarrow> initializer_attrs option \<Rightarrow> initializer_attrs option \<Rightarrow>
     (tensor_slot_name \<rightharpoonup> initializer_attrs) res" where
  "linear_get_initializers attrs input_shape maybe_projection_initializer maybe_bias_initializer =
     (if \<not> linear_use_bias attrs \<and> maybe_bias_initializer \<noteq> None
      then Inl (Unexpected Unexpected_initializer)
      else
        res_bind (linear_get_projection_shape attrs input_shape) (\<lambda>projection_shape.
        let projection_default_initializer = Init_kaiming_normal
              \<lparr> kn_a = F_sqrtf (F_lit 5 0), kn_mode = FAN_IN,
                kn_nonlinearity = Nonlin_LEAKY_RELU, kn_seed = 0 \<rparr>;
            projection_initializer = (case maybe_projection_initializer of
                Some i \<Rightarrow> i | None \<Rightarrow> projection_default_initializer)
        in res_bind (calculate_fan_for_mode (ts_dims projection_shape) FAN_IN) (\<lambda>fan_in.
        let bound = F_div (F_lit 1 0) (F_sqrtf (F_of_int (int fan_in)));
            bias_default_initializer =
              Init_uniform \<lparr> ui_seed = 0, ui_min_val = F_neg bound, ui_max_val = bound \<rparr>;
            bias_initializer = (case maybe_bias_initializer of
                Some i \<Rightarrow> i | None \<Rightarrow> bias_default_initializer)
        in if linear_use_bias attrs
           then Inr [Slot_WEIGHT \<mapsto> projection_initializer, Slot_BIAS \<mapsto> bias_initializer]
           else Inr [Slot_WEIGHT \<mapsto> projection_initializer])))"

section \<open>Lemmas\<close>

definition wf_linear_attrs :: "linear_attrs \<Rightarrow> bool" where
  "wf_linear_attrs attrs \<longleftrightarrow> valid_pos (linear_out_channels attrs)"

lemma linear_shape_eqs:
  "linear_get_projection_shape attrs s = Inr u \<longleftrightarrow> ts_dims s \<noteq> [] \<and>
     u = TensorShape [linear_out_channels attrs, last (ts_dims s)] (ts_data_type s)"
  "linear_get_bias_shape attrs s = Inr u \<longleftrightarrow>
     u = TensorShape [linear_out_channels attrs] (ts_data_type s)"
  "linear_get_output_shape attrs s = Inr u \<longleftrightarrow> ts_dims s \<noteq> [] \<and>
     u = TensorShape (butlast (ts_dims s) @ [linear_out_channels attrs]) (ts_data_type s)"
  by (auto simp: linear_get_projection_shape_def linear_get_bias_shape_def
      linear_get_output_shape_def container_ops)

lemma linear_degree_eqs:
  "linear_get_projection_parallel_dim_degrees attrs d = Inr e \<longleftrightarrow>
     ptdd_shard_degrees d \<noteq> [] \<and>
     (\<exists>p c. product (butlast (ptdd_shard_degrees d)) = Inr p \<and>
        positive_int_mul (ptdd_sum_degree d) p = Inr c \<and>
        e = ParallelTensorDimDegrees 1 c
          [ptdd_discard_copy_degree d, last (ptdd_shard_degrees d)])"
  "linear_get_bias_parallel_dim_degrees attrs d = Inr e \<longleftrightarrow>
     ptdd_shard_degrees d \<noteq> [] \<and>
     (\<exists>p c. product (butlast (ptdd_shard_degrees d)) = Inr p \<and>
        positive_int_mul (ptdd_sum_degree d) (last (ptdd_shard_degrees d)) = Inr c \<and>
        e = ParallelTensorDimDegrees c p [ptdd_discard_copy_degree d])"
  "linear_get_output_parallel_dim_degrees attrs d = Inr e \<longleftrightarrow>
     ptdd_shard_degrees d \<noteq> [] \<and>
     (\<exists>c. positive_int_mul (ptdd_sum_degree d) (last (ptdd_shard_degrees d)) = Inr c \<and>
        e = ParallelTensorDimDegrees c 1
          (butlast (ptdd_shard_degrees d) @ [ptdd_discard_copy_degree d]))"
  by (auto simp: linear_get_projection_parallel_dim_degrees_def
      linear_get_bias_parallel_dim_degrees_def linear_get_output_parallel_dim_degrees_def
      container_ops)

lemma linear_degrees_wf:
  assumes "wf_degrees d"
  shows "linear_get_projection_parallel_dim_degrees attrs d = Inr e \<Longrightarrow> wf_degrees e"
    and "linear_get_bias_parallel_dim_degrees attrs d = Inr e \<Longrightarrow> wf_degrees e"
    and "linear_get_output_parallel_dim_degrees attrs d = Inr e \<Longrightarrow> wf_degrees e"
  using assms wf_butlast_last [of "ptdd_shard_degrees d"]
  by (auto simp: linear_degree_eqs wf_degrees_iff valid_pos_mul valid_pos_product)

lemma linear_degrees_total:
  "linear_get_projection_parallel_dim_degrees attrs d = Inr e \<Longrightarrow> total_degree e = total_degree d"
  "linear_get_bias_parallel_dim_degrees attrs d = Inr e \<Longrightarrow> total_degree e = total_degree d"
  "linear_get_output_parallel_dim_degrees attrs d = Inr e \<Longrightarrow> total_degree e = total_degree d"
  by (auto simp: linear_degree_eqs int_ops total_degree_def
      simp flip: prod_list_butlast_last [of "ptdd_shard_degrees d"])

interpretation linear_projection: degree_conserving "linear_get_projection_shape attrs"
    "linear_get_projection_parallel_dim_degrees attrs" "linear_get_projection_parallel_shape attrs"
    "wf_linear_attrs attrs" for attrs
proof (unfold_locales, goal_cases)
  case (1 s t)
  show ?case by (auto simp: linear_get_projection_parallel_shape_def)
next
  case (3 u u')
  then show ?case using wf_butlast_last [of "ts_dims u"]
    by (auto simp: linear_shape_eqs wf_linear_attrs_def wf_shape_def)
next
  case (4 d d')
  from 4(2,3) show ?case by (rule linear_degrees_wf(1))
next
  case (5 d d')
  from 5(3) show ?case by (rule linear_degrees_total(1))
qed (auto simp: linear_shape_eqs linear_degree_eqs)

interpretation linear_bias: degree_conserving "linear_get_bias_shape attrs"
    "linear_get_bias_parallel_dim_degrees attrs" "linear_get_bias_parallel_shape attrs"
    "wf_linear_attrs attrs" for attrs
proof (unfold_locales, goal_cases)
  case (1 s t)
  show ?case by (auto simp: linear_get_bias_parallel_shape_def)
next
  case (3 u u')
  then show ?case by (auto simp: linear_shape_eqs wf_linear_attrs_def)
next
  case (4 d d')
  from 4(2,3) show ?case by (rule linear_degrees_wf(2))
next
  case (5 d d')
  from 5(3) show ?case by (rule linear_degrees_total(2))
qed (auto simp: linear_shape_eqs linear_degree_eqs)

interpretation linear_output: degree_conserving "linear_get_output_shape attrs"
    "linear_get_output_parallel_dim_degrees attrs" "linear_get_output_parallel_shape attrs"
    "wf_linear_attrs attrs" for attrs
proof (unfold_locales, goal_cases)
  case (1 s t)
  show ?case by (auto simp: linear_get_output_parallel_shape_def)
next
  case (3 u u')
  then show ?case using wf_butlast_last [of "ts_dims u"]
    by (auto simp: linear_shape_eqs wf_linear_attrs_def wf_shape_def)
next
  case (4 d d')
  from 4(2,3) show ?case by (rule linear_degrees_wf(3))
next
  case (5 d d')
  from 5(3) show ?case by (rule linear_degrees_total(3))
qed (auto simp: linear_shape_eqs linear_degree_eqs)

section \<open>Properties\<close>

text \<open>
  Claim C4. The linear operator keeps every device of its input busy: with valid attributes, the
  parallel shapes of output, projection and bias that it infers for a well-formed input are
  well-formed, and each has the same total parallel degree as the input.
\<close>

theorem linear_conserves_parallel_degree:
  assumes "wf_linear_attrs attrs" and "wf_pshape s"
    and "linear_get_output_parallel_shape attrs s = Inr t"
    and "linear_get_projection_parallel_shape attrs s = Inr p"
    and "linear_get_bias_parallel_shape attrs s = Inr b"
    and "r \<in> {t, p, b}"
  shows "wf_pshape r \<and> (get_total_parallel_degree r = Inr n \<longleftrightarrow> get_total_parallel_degree s = Inr n)"
  using assms(6) linear_output.par_wf [OF assms(1-3)] linear_output.par_total [OF assms(1,2,3)]
    linear_projection.par_wf [OF assms(1,2,4)] linear_projection.par_total [OF assms(1,2,4)]
    linear_bias.par_wf [OF assms(1,2,5)] linear_bias.par_total [OF assms(1,2,5)]
  by blast

definition example_linear_attrs :: linear_attrs where
  "example_linear_attrs = \<lparr> linear_out_channels = 12, linear_use_bias = True,
     linear_data_type = FLOAT, linear_activation = None, linear_regularizer = None \<rparr>"

definition example_linear_input :: parallel_tensor_shape where
  "example_linear_input = ParallelTensorShape (ParallelTensorDims
     [ShardParallelDim 6 3, ShardParallelDim 10 2] (ReplicaParallelDimSet 1 4)) FLOAT"

theorem linear_conserves_parallel_degree_witness:
  "get_total_parallel_degree (ParallelTensorShape (ParallelTensorDims
     [ShardParallelDim 6 3, ShardParallelDim 12 4] (ReplicaParallelDimSet 2 1)) FLOAT) = Inr 24"
proof -
  let ?t = "ParallelTensorShape (ParallelTensorDims
     [ShardParallelDim 6 3, ShardParallelDim 12 4] (ReplicaParallelDimSet 2 1)) FLOAT"
  let ?p = "ParallelTensorShape (ParallelTensorDims
     [ShardParallelDim 12 4, ShardParallelDim 10 2] (ReplicaParallelDimSet 1 3)) FLOAT"
  let ?b = "ParallelTensorShape (ParallelTensorDims
     [ShardParallelDim 12 4] (ReplicaParallelDimSet 2 3)) FLOAT"
  have w: "wf_linear_attrs example_linear_attrs" "wf_pshape example_linear_input"
    by (simp_all add: wf_linear_attrs_def example_linear_attrs_def example_linear_input_def
        wf_pshape_def wf_degrees_iff wf_shape_def shape_ops valid_pos_def INT_MAX_def
        get_sum_degree_def get_discard_copy_degree_def)
  have s: "linear_get_output_parallel_shape example_linear_attrs example_linear_input = Inr ?t"
    "linear_get_projection_parallel_shape example_linear_attrs example_linear_input = Inr ?p"
    "linear_get_bias_parallel_shape example_linear_attrs example_linear_input = Inr ?b"
    "get_total_parallel_degree example_linear_input = Inr 24"
    by code_simp+
  from linear_conserves_parallel_degree [OF w s(1-3), of ?t 24] s(4) show ?thesis by simp
qed

text \<open>
  The three shapes of a linear operator fit together as in a matrix product: whenever they
  are inferred, the rows of the projection have the size and degree of the output channels, its
  columns those of the input channels, the bias that of the output channels, the other dimensions
  of the output are those of the input, and the output is a sum over the devices that the input
  sums over or shards its channels over.
\<close>

theorem linear_shapes_fit:
  assumes "linear_get_output_parallel_shape attrs s = Inr t"
    and "linear_get_projection_parallel_shape attrs s = Inr p"
    and "linear_get_bias_parallel_shape attrs s = Inr b"
  shows "let in_dims = ptd_shard_dims (pts_dims s); out_dims = ptd_shard_dims (pts_dims t) in
    in_dims \<noteq> [] \<and> out_dims = butlast in_dims @ [last out_dims] \<and>
    ptd_shard_dims (pts_dims p) = [last out_dims, last in_dims] \<and>
    ptd_shard_dims (pts_dims b) = [last out_dims] \<and>
    last out_dims = ShardParallelDim (linear_out_channels attrs) (get_discard_copy_degree s) \<and>
    get_sum_degree t = get_sum_degree s * spd_degree (last in_dims) \<and>
    get_discard_copy_degree t = 1"
proof -
  let ?ds = "ptd_shard_dims (pts_dims s)"
  from assms(1) have ne: "?ds \<noteq> []"
    by (auto simp: linear_output.par_eq linear_shape_eqs shape_ops)
  have "?ds = butlast ?ds @ [last ?ds]" using ne by simp
  then have z: "zip (map spd_size (butlast ?ds)) (map spd_degree (butlast ?ds)) =
      map (\<lambda>d. (spd_size d, spd_degree d)) (butlast ?ds)"
    by (simp add: zip_map_map zip_same_conv_map)
  have i: "map ((\<lambda>p. ShardParallelDim (fst p) (snd p)) \<circ> (\<lambda>d. (spd_size d, spd_degree d))) xs = xs" for xs
    by (induction xs) simp_all
  have "ptd_shard_dims (pts_dims t) =
      butlast ?ds @ [ShardParallelDim (linear_out_channels attrs) (get_discard_copy_degree s)]"
    using assms(1) by (auto simp: linear_output.par_eq linear_shape_eqs linear_degree_eqs shape_ops
        map_butlast [symmetric] z i)
  moreover have "get_sum_degree t = get_sum_degree s * spd_degree (last ?ds)"
    "get_discard_copy_degree t = 1"
    using assms(1) ne by (auto simp: linear_output.par_eq linear_degree_eqs shape_ops int_ops last_map)
  moreover have "ptd_shard_dims (pts_dims p) =
      [ShardParallelDim (linear_out_channels attrs) (get_discard_copy_degree s), last ?ds]"
    using assms(2) ne
    by (auto simp: linear_projection.par_eq linear_shape_eqs linear_degree_eqs shape_ops last_map)
  moreover have "ptd_shard_dims (pts_dims b) =
      [ShardParallelDim (linear_out_channels attrs) (get_discard_copy_degree s)]"
    using assms(3) by (auto simp: linear_bias.par_eq linear_shape_eqs linear_degree_eqs shape_ops)
  ultimately show ?thesis using ne by simp
qed

theorem linear_shapes_fit_witness:
  "\<exists>t. linear_get_output_parallel_shape example_linear_attrs example_linear_input = Inr t \<and>
     get_sum_degree t = get_sum_degree example_linear_input * 2"
proof -
  let ?t = "ParallelTensorShape (ParallelTensorDims
     [ShardParallelDim 6 3, ShardParallelDim 12 4] (ReplicaParallelDimSet 2 1)) FLOAT"
  have s: "linear_get_output_parallel_shape example_linear_attrs example_linear_input = Inr ?t"
    "linear_get_projection_parallel_shape example_linear_attrs example_linear_input = Inr
      (ParallelTensorShape (ParallelTensorDims
        [ShardParallelDim 12 4, ShardParallelDim 10 2] (ReplicaParallelDimSet 1 3)) FLOAT)"
    "linear_get_bias_parallel_shape example_linear_attrs example_linear_input = Inr
      (ParallelTensorShape (ParallelTensorDims
        [ShardParallelDim 12 4] (ReplicaParallelDimSet 2 3)) FLOAT)"
    by code_simp+
  from linear_shapes_fit [OF s] s(1) show ?thesis
    by (auto simp: example_linear_input_def Let_def)
qed

lemma linear_initializers_default:
  assumes "linear_get_weight_shapes attrs s = Inr w" and "wf_linear_attrs attrs"
  shows "\<exists>m. linear_get_initializers attrs s None None = Inr m \<and> dom m = dom w \<and>
    (linear_use_bias attrs \<longrightarrow> m Slot_BIAS = Some (Init_uniform
       (let bound = F_div (F_lit 1 0) (F_sqrtf (F_of_int (int (linear_out_channels attrs))))
        in \<lparr> ui_seed = 0, ui_min_val = F_neg bound, ui_max_val = bound \<rparr>)))"
proof -
  let ?p = "TensorShape [linear_out_channels attrs, last (ts_dims s)] (ts_data_type s)"
  have p: "linear_get_projection_shape attrs s = Inr ?p"
    using assms(1) by (auto simp: linear_get_weight_shapes_def linear_shape_eqs split: if_splits)
  have one: "get_num_elements [] = Inr 1"
    by (simp add: get_num_elements_def product_eq INT_MAX_def)
  have "positive_int_mul (linear_out_channels attrs) 1 = Inr (linear_out_channels attrs)"
    using assms(2) by (simp add: wf_linear_attrs_def positive_int_mul_eq valid_pos_def)
  then have "calculate_fan_for_mode [linear_out_channels attrs, last (ts_dims s)] FAN_IN =
      Inr (linear_out_channels attrs)"
    by (simp add: calculate_fan_for_mode_def dim_at_rel_idx_def ff_ordered_at_rel_def vector_at_def
        slice_tensor_dims_rel_def ff_ordered_slice_rel_def slice_def slice_resolve_loc_def one)
  with p assms(1) show ?thesis
    by (auto simp: linear_get_initializers_def linear_get_weight_shapes_def linear_shape_eqs Let_def
        split: if_splits)
qed

text \<open>
  The default initializers of a linear operator cover exactly its weights. The default
  bound of the bias is \<open>1 / sqrtf(out_channels)\<close>: \<open>calculate_fan_for_mode\<close> reads dimension 0 of the
  projection shape as the number of input features, where the projection has its output channels
  (the code it cites uses the number of input features).
\<close>

theorem linear_default_initializers:
  assumes "linear_get_weight_shapes attrs s = Inr w" and "wf_linear_attrs attrs"
  shows "\<exists>m. linear_get_initializers attrs s None None = Inr m \<and> dom m = dom w \<and>
    (linear_use_bias attrs \<longrightarrow> m Slot_BIAS = Some (Init_uniform
       (let bound = F_div (F_lit 1 0) (F_sqrtf (F_of_int (int (linear_out_channels attrs))))
        in \<lparr> ui_seed = 0, ui_min_val = F_neg bound, ui_max_val = bound \<rparr>)))"
  using assms by (rule linear_initializers_default)

theorem linear_default_initializers_witness:
  "\<exists>m. linear_get_initializers example_linear_attrs (TensorShape [6, 10] FLOAT) None None = Inr m \<and>
     m Slot_BIAS = Some (Init_uniform
       (let bound = F_div (F_lit 1 0) (F_sqrtf (F_of_int 12))
        in \<lparr> ui_seed = 0, ui_min_val = F_neg bound, ui_max_val = bound \<rparr>))"
proof -
  have "linear_get_weight_shapes example_linear_attrs (TensorShape [6, 10] FLOAT) =
      Inr [Slot_WEIGHT \<mapsto> TensorShape [12, 10] FLOAT, Slot_BIAS \<mapsto> TensorShape [12] FLOAT]"
    by (simp add: linear_get_weight_shapes_def linear_get_projection_shape_def
        linear_get_bias_shape_def dim_at_rel_idx_def ff_ordered_at_rel_def vector_at_def
        example_linear_attrs_def)
  moreover have "wf_linear_attrs example_linear_attrs"
    by (simp add: wf_linear_attrs_def example_linear_attrs_def valid_pos_def INT_MAX_def)
  ultimately show ?thesis
    using linear_default_initializers [of example_linear_attrs "TensorShape [6, 10] FLOAT"]
    by (auto simp: example_linear_attrs_def)
qed

end
