(* ===== verification/Op_Conv_Pool.thy ===== *)
theory Op_Conv_Pool
  imports Parallel_Inference
begin

text \<open>
  Convolution and pooling, \<open>lib/op-attrs/src/op-attrs/ops/conv_2d.cc\<close> and \<open>pool_2d.cc\<close>. Their
  inputs have dimensions batch, channel, height, width; only the first two may be sharded. The
  size of an output is computed on C++ \<open>int\<close>.
\<close>

section \<open>Convolution\<close>

definition get_conv2d_incoming_tensor_roles ::
    "conv2d_attrs \<Rightarrow> (tensor_slot_name \<rightharpoonup> incoming_tensor_role)" where
  "get_conv2d_incoming_tensor_roles attrs =
     (let result = [Slot_INPUT \<mapsto> Role_INPUT, Slot_FILTER \<mapsto> Role_WEIGHT]
      in if conv_use_bias attrs then result(Slot_BIAS \<mapsto> Role_WEIGHT) else result)"

definition conv2d_get_kernel_shape :: "conv2d_attrs \<Rightarrow> tensor_shape \<Rightarrow> tensor_shape res" where
  "conv2d_get_kernel_shape attrs raw_input_shape =
     res_bind (get_num_dims (ts_dims raw_input_shape)) (\<lambda>n.
     res_bind (ASSERT (n = 4)) (\<lambda>_.
     res_bind (dim_at_idx (ts_dims raw_input_shape) 0) (\<lambda>input_n.
     res_bind (dim_at_idx (ts_dims raw_input_shape) 1) (\<lambda>input_c.
     res_bind (dim_at_idx (ts_dims raw_input_shape) 2) (\<lambda>input_h.
     res_bind (dim_at_idx (ts_dims raw_input_shape) 3) (\<lambda>input_w.
     res_bind (positive_int_div input_c (conv_groups attrs)) (\<lambda>q.
     res_bind (positive_int_from_nonnegative q) (\<lambda>c.
     Inr (TensorShape [conv_out_channels attrs, c, conv_kernel_h attrs, conv_kernel_w attrs]
       (ts_data_type raw_input_shape))))))))))"

definition conv2d_get_bias_shape :: "conv2d_attrs \<Rightarrow> tensor_shape \<Rightarrow> tensor_shape res" where
  "conv2d_get_bias_shape attrs raw_input_shape =
     res_bind (get_num_dims (ts_dims raw_input_shape)) (\<lambda>n.
     res_bind (ASSERT (n = 4)) (\<lambda>_.
     res_bind (dim_at_idx (ts_dims raw_input_shape) 0) (\<lambda>input_n.
     res_bind (dim_at_idx (ts_dims raw_input_shape) 1) (\<lambda>input_c.
     res_bind (dim_at_idx (ts_dims raw_input_shape) 2) (\<lambda>input_h.
     res_bind (dim_at_idx (ts_dims raw_input_shape) 3) (\<lambda>input_w.
     Inr (TensorShape [conv_out_channels attrs] (ts_data_type raw_input_shape))))))))"

definition conv2d_calculate_output_dim_size ::
    "positive_int \<Rightarrow> nonnegative_int \<Rightarrow> positive_int \<Rightarrow> positive_int \<Rightarrow> positive_int res" where
  "conv2d_calculate_output_dim_size input_size padding_size kernel_size stride =
     res_bind (cint (2 * int padding_size)) (\<lambda>pad.
     res_bind (cint (int input_size + pad)) (\<lambda>padded.
     res_bind (cint (padded - int kernel_size)) (\<lambda>span.
     res_bind (cint_div span (int stride)) (\<lambda>steps.
     res_bind (cint (steps + 1)) mk_positive_int))))"

definition conv2d_get_output_shape :: "conv2d_attrs \<Rightarrow> tensor_shape \<Rightarrow> tensor_shape res" where
  "conv2d_get_output_shape attrs raw_input_shape =
     res_bind (dim_at_idx (ts_dims raw_input_shape) 0) (\<lambda>input_n.
     res_bind (dim_at_idx (ts_dims raw_input_shape) 1) (\<lambda>input_c.
     res_bind (dim_at_idx (ts_dims raw_input_shape) 2) (\<lambda>input_h.
     res_bind (dim_at_idx (ts_dims raw_input_shape) 3) (\<lambda>input_w.
     res_bind (conv2d_calculate_output_dim_size input_h (conv_padding_h attrs)
       (conv_kernel_h attrs) (conv_stride_h attrs)) (\<lambda>out_height.
     res_bind (conv2d_calculate_output_dim_size input_w (conv_padding_w attrs)
       (conv_kernel_w attrs) (conv_stride_w attrs)) (\<lambda>out_width.
     Inr (TensorShape [input_n, conv_out_channels attrs, out_height, out_width]
       (ts_data_type raw_input_shape))))))))"

definition conv2d_get_weight_shapes ::
    "conv2d_attrs \<Rightarrow> tensor_shape \<Rightarrow> (tensor_slot_name \<rightharpoonup> tensor_shape) res" where
  "conv2d_get_weight_shapes attrs input_shape =
     res_bind (conv2d_get_kernel_shape attrs input_shape) (\<lambda>kernel.
     if conv_use_bias attrs
     then res_bind (conv2d_get_bias_shape attrs input_shape) (\<lambda>bias.
       Inr [Slot_FILTER \<mapsto> kernel, Slot_BIAS \<mapsto> bias])
     else Inr [Slot_FILTER \<mapsto> kernel])"

text \<open>
  The common beginning of the three functions on degrees: the degrees of batch and channel, after
  the checks on the rank and on the degrees of height and width.
\<close>

definition conv2d_input_degrees ::
    "parallel_tensor_dim_degrees \<Rightarrow> (positive_int \<times> positive_int) res" where
  "conv2d_input_degrees input_dim_degrees =
     res_bind (get_ptensor_dim_degrees_num_shard_dims input_dim_degrees) (\<lambda>n.
     res_bind (ASSERT (n = 4)) (\<lambda>_.
     res_bind (ff_ordered_at (ptdd_shard_degrees input_dim_degrees) 0) (\<lambda>input_n_degree.
     res_bind (ff_ordered_at (ptdd_shard_degrees input_dim_degrees) 1) (\<lambda>input_c_degree.
     res_bind (ff_ordered_at (ptdd_shard_degrees input_dim_degrees) 2) (\<lambda>h.
     res_bind (ASSERT (h = 1)) (\<lambda>_.
     res_bind (ff_ordered_at (ptdd_shard_degrees input_dim_degrees) 3) (\<lambda>w.
     res_bind (ASSERT (w = 1)) (\<lambda>_.
     Inr (input_n_degree, input_c_degree)))))))))"

definition conv2d_get_kernel_parallel_dim_degrees ::
    "conv2d_attrs \<Rightarrow> parallel_tensor_dim_degrees \<Rightarrow> parallel_tensor_dim_degrees res" where
  "conv2d_get_kernel_parallel_dim_degrees attrs input_dim_degrees =
     res_bind (conv2d_input_degrees input_dim_degrees) (\<lambda>(n_degree, c_degree).
     res_bind (positive_int_mul n_degree (ptdd_sum_degree input_dim_degrees)) (\<lambda>discard_copy_degree.
     res_bind (positive_int_mod c_degree (conv_groups attrs)) (\<lambda>c_mod.
     if c_mod = 0
     then
       res_bind (positive_int_mul (ptdd_discard_copy_degree input_dim_degrees) (conv_groups attrs)) (\<lambda>out.
       res_bind (positive_int_div c_degree (conv_groups attrs)) (\<lambda>q.
       res_bind (positive_int_from_nonnegative q) (\<lambda>c.
       Inr (ParallelTensorDimDegrees 1 discard_copy_degree [out, c, 1, 1]))))
     else
       res_bind (positive_int_mod (conv_groups attrs) c_degree) (\<lambda>g_mod.
       if g_mod = 0
       then
         res_bind (positive_int_mul (ptdd_discard_copy_degree input_dim_degrees) c_degree) (\<lambda>out.
         Inr (ParallelTensorDimDegrees 1 discard_copy_degree [out, 1, 1, 1]))
       else Inl Panicked))))"

definition conv2d_get_bias_parallel_dim_degrees ::
    "conv2d_attrs \<Rightarrow> parallel_tensor_dim_degrees \<Rightarrow> parallel_tensor_dim_degrees res" where
  "conv2d_get_bias_parallel_dim_degrees attrs input_dim_degrees =
     res_bind (conv2d_input_degrees input_dim_degrees) (\<lambda>(n_degree, c_degree).
     res_bind (positive_int_mod c_degree (conv_groups attrs)) (\<lambda>c_mod.
     if c_mod = 0
     then
       res_bind (positive_int_div c_degree (conv_groups attrs)) (\<lambda>q.
       res_bind (positive_int_from_nonnegative q) (\<lambda>c.
       res_bind (positive_int_mul (ptdd_sum_degree input_dim_degrees) c) (\<lambda>sum_degree.
       res_bind (positive_int_mul (ptdd_discard_copy_degree input_dim_degrees) (conv_groups attrs)) (\<lambda>out.
       Inr (ParallelTensorDimDegrees sum_degree n_degree [out])))))
     else
       res_bind (positive_int_mod (conv_groups attrs) c_degree) (\<lambda>g_mod.
       if g_mod = 0
       then
         res_bind (positive_int_mul (ptdd_discard_copy_degree input_dim_degrees) c_degree) (\<lambda>out.
         Inr (ParallelTensorDimDegrees (ptdd_sum_degree input_dim_degrees) n_degree [out]))
       else Inl Panicked)))"

definition conv2d_get_output_parallel_dim_degrees ::
    "conv2d_attrs \<Rightarrow> parallel_tensor_dim_degrees \<Rightarrow> parallel_tensor_dim_degrees res" where
  "conv2d_get_output_parallel_dim_degrees attrs input_dim_degrees =
     res_bind (conv2d_input_degrees input_dim_degrees) (\<lambda>(n_degree, c_degree).
     res_bind (positive_int_mod c_degree (conv_groups attrs)) (\<lambda>c_mod.
     if c_mod = 0
     then
       res_bind (positive_int_div c_degree (conv_groups attrs)) (\<lambda>q.
       res_bind (positive_int_from_nonnegative q) (\<lambda>c.
       res_bind (positive_int_mul (ptdd_sum_degree input_dim_degrees) c) (\<lambda>sum_degree.
       res_bind (positive_int_mul (ptdd_discard_copy_degree input_dim_degrees) (conv_groups attrs)) (\<lambda>out.
       Inr (ParallelTensorDimDegrees sum_degree 1 [n_degree, out, 1, 1])))))
     else
       res_bind (positive_int_mod (conv_groups attrs) c_degree) (\<lambda>g_mod.
       if g_mod = 0
       then
         res_bind (positive_int_mul (ptdd_discard_copy_degree input_dim_degrees) c_degree) (\<lambda>out.
         Inr (ParallelTensorDimDegrees (ptdd_sum_degree input_dim_degrees) 1
           [n_degree, out, 1, 1]))
       else Inl Panicked)))"

definition conv2d_get_kernel_parallel_shape ::
    "conv2d_attrs \<Rightarrow> parallel_tensor_shape \<Rightarrow> parallel_tensor_shape res" where
  "conv2d_get_kernel_parallel_shape attrs input =
     res_bind (conv2d_get_kernel_shape attrs (get_reduced_shape input)) (\<lambda>unpar.
     res_bind (conv2d_get_kernel_parallel_dim_degrees attrs (get_parallel_degrees input)) (\<lambda>degrees.
     Inr (lift_to_parallel_with_dim_degrees unpar degrees)))"

definition conv2d_get_bias_parallel_shape ::
    "conv2d_attrs \<Rightarrow> parallel_tensor_shape \<Rightarrow> parallel_tensor_shape res" where
  "conv2d_get_bias_parallel_shape attrs input =
     res_bind (conv2d_get_bias_shape attrs (get_reduced_shape input)) (\<lambda>unpar.
     res_bind (conv2d_get_bias_parallel_dim_degrees attrs (get_parallel_degrees input)) (\<lambda>degrees.
     Inr (lift_to_parallel_with_dim_degrees unpar degrees)))"

definition conv2d_get_output_parallel_shape ::
    "conv2d_attrs \<Rightarrow> parallel_tensor_shape \<Rightarrow> parallel_tensor_shape res" where
  "conv2d_get_output_parallel_shape attrs input =
     res_bind (conv2d_get_output_shape attrs (get_reduced_shape input)) (\<lambda>unpar.
     res_bind (conv2d_get_output_parallel_dim_degrees attrs (get_parallel_degrees input)) (\<lambda>degrees.
     Inr (lift_to_parallel_with_dim_degrees unpar degrees)))"

definition conv2d_get_weight_parallel_shapes ::
    "conv2d_attrs \<Rightarrow> parallel_tensor_shape \<Rightarrow> (tensor_slot_name \<rightharpoonup> parallel_tensor_shape) res" where
  "conv2d_get_weight_parallel_shapes attrs input_shape =
     res_bind (conv2d_get_kernel_parallel_shape attrs input_shape) (\<lambda>kernel.
     if conv_use_bias attrs
     then res_bind (conv2d_get_bias_parallel_shape attrs input_shape) (\<lambda>bias.
       Inr [Slot_FILTER \<mapsto> kernel, Slot_BIAS \<mapsto> bias])
     else Inr [Slot_FILTER \<mapsto> kernel])"

definition conv2d_get_initializers ::
    "conv2d_attrs \<Rightarrow> tensor_shape \<Rightarrow> initializer_attrs option \<Rightarrow> initializer_attrs option \<Rightarrow>
     (tensor_slot_name \<rightharpoonup> initializer_attrs) res" where
  "conv2d_get_initializers attrs input_shape maybe_kernel_initializer maybe_bias_initializer =
     res_bind (conv2d_get_kernel_shape attrs input_shape) (\<lambda>kernel_shape.
     let kernel_default_initializer = Init_kaiming_normal
           \<lparr> kn_a = F_sqrtf (F_lit 5 0), kn_mode = FAN_IN,
             kn_nonlinearity = Nonlin_LEAKY_RELU, kn_seed = 0 \<rparr>;
         kernel_initializer = (case maybe_kernel_initializer of
             Some i \<Rightarrow> i | None \<Rightarrow> kernel_default_initializer)
     in res_bind (calculate_fan_for_mode (ts_dims kernel_shape) FAN_IN) (\<lambda>fan_in.
     let bound = F_div (F_lit 1 0) (F_sqrtf (F_of_int (int fan_in)));
         bias_default_initializer =
           Init_uniform \<lparr> ui_seed = 0, ui_min_val = F_neg bound, ui_max_val = bound \<rparr>;
         bias_initializer = (case maybe_bias_initializer of
             Some i \<Rightarrow> i | None \<Rightarrow> bias_default_initializer)
     in if conv_use_bias attrs
        then Inr [Slot_FILTER \<mapsto> kernel_initializer, Slot_BIAS \<mapsto> bias_initializer]
        else Inr [Slot_FILTER \<mapsto> kernel_initializer]))"

section \<open>Pooling\<close>

definition pool2d_calculate_output_size ::
    "positive_int \<Rightarrow> nonnegative_int \<Rightarrow> positive_int \<Rightarrow> positive_int \<Rightarrow> positive_int res" where
  "pool2d_calculate_output_size input_size padding_size kernel_size stride =
     res_bind (cint (2 * int padding_size)) (\<lambda>pad.
     res_bind (cint (int input_size + pad)) (\<lambda>padded.
     res_bind (cint (padded - int kernel_size)) (\<lambda>span.
     res_bind (cint_div span (int stride)) (\<lambda>steps.
     res_bind (cint (steps + 1)) mk_positive_int))))"

definition pool2d_get_output_shape :: "pool2d_attrs \<Rightarrow> tensor_shape \<Rightarrow> tensor_shape res" where
  "pool2d_get_output_shape attrs input_shape =
     res_bind (get_num_dims (ts_dims input_shape)) (\<lambda>n.
     if n \<noteq> 4 then Inl (Unexpected Wrong_num_dims)
     else
       res_bind (dim_at_rel_idx (ts_dims input_shape) 0) (\<lambda>num_samples.
       res_bind (dim_at_rel_idx (ts_dims input_shape) 1) (\<lambda>num_channels.
       res_bind (dim_at_rel_idx (ts_dims input_shape) 2) (\<lambda>input_height.
       res_bind (dim_at_rel_idx (ts_dims input_shape) 3) (\<lambda>input_width.
       res_bind (pool2d_calculate_output_size input_height (pool_padding_h attrs)
         (pool_kernel_h attrs) (pool_stride_h attrs)) (\<lambda>output_height.
       res_bind (pool2d_calculate_output_size input_width (pool_padding_w attrs)
         (pool_kernel_w attrs) (pool_stride_w attrs)) (\<lambda>output_width.
       Inr (TensorShape [num_samples, num_channels, output_height, output_width]
         (ts_data_type input_shape)))))))))"

definition pool2d_get_output_parallel_dim_degrees ::
    "pool2d_attrs \<Rightarrow> parallel_tensor_dim_degrees \<Rightarrow> parallel_tensor_dim_degrees res" where
  "pool2d_get_output_parallel_dim_degrees attrs input_degrees =
     (if 1 < ptdd_sum_degree input_degrees \<and> pool_pool_type attrs = Pool_MAX
      then Inl (Unexpected Pool_max_with_sum_degree)
      else if 1 < ptdd_sum_degree input_degrees \<and> pool_activation attrs \<noteq> None
      then Inl (Unexpected Pool_activation_with_sum_degree)
      else Inr input_degrees)"

definition pool2d_get_output_parallel_shape ::
    "pool2d_attrs \<Rightarrow> parallel_tensor_shape \<Rightarrow> parallel_tensor_shape res" where
  "pool2d_get_output_parallel_shape attrs input_shape =
     res_bind (pool2d_get_output_shape attrs (get_reduced_shape input_shape)) (\<lambda>unpar.
     res_bind (pool2d_get_output_parallel_dim_degrees attrs (get_parallel_degrees input_shape))
       (\<lambda>degrees.
     Inr (lift_to_parallel_with_dim_degrees unpar degrees)))"

definition make_adaptive_pool2d_attrs ::
    "tensor_dims \<Rightarrow> positive_int \<Rightarrow> positive_int \<Rightarrow> pool_op \<Rightarrow> activation option \<Rightarrow> pool2d_attrs res" where
  "make_adaptive_pool2d_attrs input_dims output_h output_w pool_type activation =
     res_bind (get_num_dims input_dims) (\<lambda>n.
     if n \<noteq> 4 then Inl (Unexpected Wrong_num_dims)
     else
       res_bind (dim_at_rel_idx input_dims 0) (\<lambda>num_samples.
       res_bind (dim_at_rel_idx input_dims 1) (\<lambda>num_channels.
       res_bind (dim_at_rel_idx input_dims 2) (\<lambda>input_h.
       res_bind (dim_at_rel_idx input_dims 3) (\<lambda>input_w.
       res_bind (positive_int_mod input_h output_h) (\<lambda>h_mod.
       if h_mod \<noteq> 0 then Inl (Unexpected Not_divisible)
       else
       res_bind (positive_int_mod input_w output_w) (\<lambda>w_mod.
       if w_mod \<noteq> 0 then Inl (Unexpected Not_divisible)
       else
       res_bind (res_bind (positive_int_div input_h output_h) positive_int_from_nonnegative) (\<lambda>kernel_h.
       res_bind (res_bind (positive_int_div input_w output_w) positive_int_from_nonnegative) (\<lambda>kernel_w.
       let stride_h = kernel_h; stride_w = kernel_w;
           attrs = \<lparr> pool_kernel_h = kernel_h, pool_kernel_w = kernel_w, pool_stride_h = stride_h,
             pool_stride_w = stride_w, pool_padding_h = 0, pool_padding_w = 0,
             pool_pool_type = pool_type, pool_activation = activation \<rparr>;
           expected_output_shape =
             TensorShape [num_samples, num_channels, output_h, output_w] FLOAT
       in res_bind (pool2d_get_output_shape attrs (TensorShape input_dims FLOAT)) (\<lambda>output_shape.
       if output_shape \<noteq> expected_output_shape then Inl (Unexpected Unexpected_output_shape)
       else Inr attrs))))))))))"

section \<open>Lemmas\<close>

definition wf_conv2d_attrs :: "conv2d_attrs \<Rightarrow> bool" where
  "wf_conv2d_attrs attrs \<longleftrightarrow>
     valid_pos (conv_out_channels attrs) \<and> valid_pos (conv_kernel_h attrs) \<and>
     valid_pos (conv_kernel_w attrs) \<and> valid_pos (conv_stride_h attrs) \<and>
     valid_pos (conv_stride_w attrs) \<and> valid_pos (conv_groups attrs)"

lemma conv2d_input_degrees_eq:
  "conv2d_input_degrees d = Inr nc \<longleftrightarrow> ptdd_shard_degrees d = [fst nc, snd nc, 1, 1]"
  by (cases nc)
    (auto simp: conv2d_input_degrees_def get_ptensor_dim_degrees_num_shard_dims_def num_elements_def
      int_ops container_ops length_4_conv numeral_3_eq_3 numeral_2_eq_2 INT_MAX_def)

text \<open>
  The input channels of one shard lie in groups of whole shards or of whole groups: the degrees are
  inferred in the two cases of \<open>conv2d_split\<close>, \<open>g\<close> the degree that moves to the output channels and
  \<open>c\<close> the one that stays on the input channels.
\<close>

definition conv2d_split :: "conv2d_attrs \<Rightarrow> positive_int \<Rightarrow> positive_int \<Rightarrow> positive_int \<Rightarrow> bool" where
  "conv2d_split attrs c_degree g c \<longleftrightarrow>
     (if conv_groups attrs dvd c_degree then g = conv_groups attrs \<and> c = c_degree div conv_groups attrs
      else c_degree dvd conv_groups attrs \<and> g = c_degree \<and> c = 1)"

lemma conv2d_split_mult: "conv2d_split attrs c_degree g c \<Longrightarrow> g * c = c_degree"
  by (auto simp: conv2d_split_def split: if_splits)

text \<open>The decision the three functions on degrees share.\<close>

definition conv2d_decide :: "conv2d_attrs \<Rightarrow> positive_int \<Rightarrow> (positive_int \<times> positive_int) res" where
  "conv2d_decide attrs c_degree =
     (if conv_groups attrs dvd c_degree then Inr (conv_groups attrs, c_degree div conv_groups attrs)
      else if c_degree dvd conv_groups attrs then Inr (c_degree, 1) else Inl Panicked)"

lemma conv2d_decide_eq: "conv2d_decide attrs c_degree = Inr gc \<longleftrightarrow> conv2d_split attrs c_degree (fst gc) (snd gc)"
  by (cases gc) (auto simp: conv2d_decide_def conv2d_split_def)

lemma conv2d_arith:
  assumes g: "0 < g" and c: "valid_pos c"
  shows "positive_int_mod c g = Inr (c mod g)"
    and "positive_int_mod g c = Inr (g mod c)"
    and "g dvd c \<Longrightarrow> positive_int_div c g = Inr (c div g)"
    and "g dvd c \<Longrightarrow> positive_int_from_nonnegative (c div g) = Inr (c div g)"
proof -
  have "c div g \<le> INT_MAX"
    using c by (auto simp: valid_pos_def intro: order.trans [OF div_le_dividend])
  then show "positive_int_mod c g = Inr (c mod g)" "positive_int_mod g c = Inr (g mod c)"
    "g dvd c \<Longrightarrow> positive_int_div c g = Inr (c div g)"
    "g dvd c \<Longrightarrow> positive_int_from_nonnegative (c div g) = Inr (c div g)"
    using g c by (simp_all add: positive_int_mod_eq positive_int_div_eq valid_pos_def
        positive_int_from_nonnegative_eq div_greater_zero_iff dvd_imp_le)
qed

text \<open>The degrees, with the decision made.\<close>

lemma conv2d_degree_eqs:
  assumes "wf_conv2d_attrs attrs" and "wf_degrees d" and ds: "ptdd_shard_degrees d = [n, c, 1, 1]"
  shows "conv2d_get_kernel_parallel_dim_degrees attrs d =
      res_bind (positive_int_mul n (ptdd_sum_degree d)) (\<lambda>s.
      res_bind (conv2d_decide attrs c) (\<lambda>(g, r).
      res_bind (positive_int_mul (ptdd_discard_copy_degree d) g) (\<lambda>out.
      Inr (ParallelTensorDimDegrees 1 s [out, r, 1, 1]))))" (is ?kernel)
    and "conv2d_get_bias_parallel_dim_degrees attrs d =
      res_bind (conv2d_decide attrs c) (\<lambda>(g, r).
      res_bind (positive_int_mul (ptdd_sum_degree d) r) (\<lambda>s.
      res_bind (positive_int_mul (ptdd_discard_copy_degree d) g) (\<lambda>out.
      Inr (ParallelTensorDimDegrees s n [out]))))" (is ?bias)
    and "conv2d_get_output_parallel_dim_degrees attrs d =
      res_bind (conv2d_decide attrs c) (\<lambda>(g, r).
      res_bind (positive_int_mul (ptdd_sum_degree d) r) (\<lambda>s.
      res_bind (positive_int_mul (ptdd_discard_copy_degree d) g) (\<lambda>out.
      Inr (ParallelTensorDimDegrees s 1 [n, out, 1, 1]))))" (is ?output)
proof -
  have i: "conv2d_input_degrees d = Inr (n, c)" using ds by (simp add: conv2d_input_degrees_eq)
  have g: "0 < conv_groups attrs" using assms(1) by (simp add: wf_conv2d_attrs_def valid_pos_def)
  have c: "valid_pos c" using assms(2) ds by (simp add: wf_degrees_def)
  have one: "positive_int_mul (ptdd_sum_degree d) (Suc 0) = Inr (ptdd_sum_degree d)"
    using assms(2) by (simp add: positive_int_mul_eq wf_degrees_def valid_pos_def)
  note ar = conv2d_arith [OF g c]
  have "?kernel \<and> ?bias \<and> ?output"
  proof (cases "conv_groups attrs dvd c")
    case True
    then have "c mod conv_groups attrs = 0" by simp
    then show ?thesis using True
      by (simp add: conv2d_get_kernel_parallel_dim_degrees_def
          conv2d_get_bias_parallel_dim_degrees_def conv2d_get_output_parallel_dim_degrees_def
          i ar conv2d_decide_def)
  next
    case False
    then have "c mod conv_groups attrs \<noteq> 0" by (simp add: dvd_eq_mod_eq_0)
    then show ?thesis using False
      by (simp add: conv2d_get_kernel_parallel_dim_degrees_def
          conv2d_get_bias_parallel_dim_degrees_def conv2d_get_output_parallel_dim_degrees_def
          i ar(1,2) one conv2d_decide_def dvd_eq_mod_eq_0)
  qed
  then show ?kernel ?bias ?output by blast+
qed

lemma conv2d_degrees_shape:
  assumes "conv2d_get_kernel_parallel_dim_degrees attrs d = Inr e \<or>
      conv2d_get_bias_parallel_dim_degrees attrs d = Inr e \<or>
      conv2d_get_output_parallel_dim_degrees attrs d = Inr e"
  obtains n c where "ptdd_shard_degrees d = [n, c, 1, 1]"
proof -
  from assms obtain nc where "conv2d_input_degrees d = Inr nc"
    by (auto simp: conv2d_get_kernel_parallel_dim_degrees_def
        conv2d_get_bias_parallel_dim_degrees_def conv2d_get_output_parallel_dim_degrees_def)
  then show ?thesis using that by (cases nc) (simp add: conv2d_input_degrees_eq)
qed

lemma conv2d_kernel_shape_eq:
  "conv2d_get_kernel_shape attrs s = Inr u \<longleftrightarrow>
     (\<exists>n c h w. ts_dims s = [n, c, h, w] \<and> 0 < conv_groups attrs \<and> conv_groups attrs \<le> c \<and>
        c div conv_groups attrs \<le> INT_MAX \<and>
        u = TensorShape [conv_out_channels attrs, c div conv_groups attrs, conv_kernel_h attrs,
          conv_kernel_w attrs] (ts_data_type s))"
  by (auto simp: conv2d_get_kernel_shape_def container_ops int_ops length_4_conv numeral_3_eq_3
      numeral_2_eq_2 MAX_TENSOR_DIM_def div_greater_zero_iff)

lemma conv2d_bias_shape_eq:
  "conv2d_get_bias_shape attrs s = Inr u \<longleftrightarrow>
     length (ts_dims s) = 4 \<and> u = TensorShape [conv_out_channels attrs] (ts_data_type s)"
  by (auto simp: conv2d_get_bias_shape_def container_ops MAX_TENSOR_DIM_def)

lemma valid_pos_mk_positive_int: "res_bind (cint i) mk_positive_int = Inr n \<Longrightarrow> valid_pos n"
  by (auto simp: int_ops cint_eq_Inr valid_pos_def INT_MAX_def)

lemma conv2d_output_size_valid: "conv2d_calculate_output_dim_size i p k s = Inr n \<Longrightarrow> valid_pos n"
  by (auto simp: conv2d_calculate_output_dim_size_def int_ops cint_eq_Inr valid_pos_def INT_MAX_def)

lemma conv2d_output_shape_eq:
  "conv2d_get_output_shape attrs s = Inr u \<longleftrightarrow>
     4 \<le> length (ts_dims s) \<and>
     (\<exists>h w. conv2d_calculate_output_dim_size (ts_dims s ! 2) (conv_padding_h attrs)
          (conv_kernel_h attrs) (conv_stride_h attrs) = Inr h \<and>
        conv2d_calculate_output_dim_size (ts_dims s ! 3) (conv_padding_w attrs)
          (conv_kernel_w attrs) (conv_stride_w attrs) = Inr w \<and>
        u = TensorShape [ts_dims s ! 0, conv_out_channels attrs, h, w] (ts_data_type s))"
  by (auto simp: conv2d_get_output_shape_def container_ops)

lemma conv2d_degrees_rank:
  "conv2d_get_kernel_parallel_dim_degrees attrs d = Inr e \<Longrightarrow> length (ptdd_shard_degrees e) = 4"
  "conv2d_get_bias_parallel_dim_degrees attrs d = Inr e \<Longrightarrow> length (ptdd_shard_degrees e) = 1"
  "conv2d_get_output_parallel_dim_degrees attrs d = Inr e \<Longrightarrow> length (ptdd_shard_degrees e) = 4"
  by (auto simp: conv2d_get_kernel_parallel_dim_degrees_def conv2d_get_bias_parallel_dim_degrees_def
      conv2d_get_output_parallel_dim_degrees_def split: if_splits)

lemma conv2d_degrees_wf_total:
  assumes attrs: "wf_conv2d_attrs attrs" and d: "wf_degrees d"
    and e: "conv2d_get_kernel_parallel_dim_degrees attrs d = Inr e \<or>
      conv2d_get_bias_parallel_dim_degrees attrs d = Inr e \<or>
      conv2d_get_output_parallel_dim_degrees attrs d = Inr e"
  shows "wf_degrees e \<and> total_degree e = total_degree d"
proof -
  from e obtain n c where ds: "ptdd_shard_degrees d = [n, c, 1, 1]" by (rule conv2d_degrees_shape)
  have v: "valid_pos n" "valid_pos c" using d ds by (simp_all add: wf_degrees_def)
  from e obtain g r where gr: "conv2d_decide attrs c = Inr (g, r)"
    by (auto simp: conv2d_degree_eqs [OF attrs d ds])
  then have c: "g * r = c" using conv2d_split_mult by (simp add: conv2d_decide_eq)
  then have "valid_pos r"
    using v(2) by (auto simp: valid_pos_def intro: order.trans [of r "g * r"])
  moreover have "valid_pos (ptdd_sum_degree d)" using d by (simp add: wf_degrees_def)
  ultimately show ?thesis
    using e v c
    by (auto simp: conv2d_degree_eqs [OF attrs d ds] gr valid_pos_mul total_degree_def ds)
      (auto simp: int_ops)
qed

interpretation conv2d_kernel: degree_conserving "conv2d_get_kernel_shape attrs"
    "conv2d_get_kernel_parallel_dim_degrees attrs" "conv2d_get_kernel_parallel_shape attrs"
    "wf_conv2d_attrs attrs" for attrs
proof (unfold_locales, goal_cases)
  case (1 s t)
  show ?case by (auto simp: conv2d_get_kernel_parallel_shape_def)
next
  case (2 u u' d d')
  then show ?case by (auto simp: conv2d_kernel_shape_eq conv2d_degrees_rank)
next
  case (3 u u')
  then show ?case
    by (auto simp: conv2d_kernel_shape_eq wf_conv2d_attrs_def valid_pos_def div_greater_zero_iff)
next
  case (4 d d')
  then show ?case using conv2d_degrees_wf_total [of attrs d d'] by blast
next
  case (5 d d')
  then show ?case using conv2d_degrees_wf_total [of attrs d d'] by blast
qed

interpretation conv2d_bias: degree_conserving "conv2d_get_bias_shape attrs"
    "conv2d_get_bias_parallel_dim_degrees attrs" "conv2d_get_bias_parallel_shape attrs"
    "wf_conv2d_attrs attrs" for attrs
proof (unfold_locales, goal_cases)
  case (1 s t)
  show ?case by (auto simp: conv2d_get_bias_parallel_shape_def)
next
  case (2 u u' d d')
  then show ?case by (auto simp: conv2d_bias_shape_eq conv2d_degrees_rank)
next
  case (3 u u')
  then show ?case by (auto simp: conv2d_bias_shape_eq wf_conv2d_attrs_def)
next
  case (4 d d')
  then show ?case using conv2d_degrees_wf_total [of attrs d d'] by blast
next
  case (5 d d')
  then show ?case using conv2d_degrees_wf_total [of attrs d d'] by blast
qed

interpretation conv2d_output: degree_conserving "conv2d_get_output_shape attrs"
    "conv2d_get_output_parallel_dim_degrees attrs" "conv2d_get_output_parallel_shape attrs"
    "wf_conv2d_attrs attrs" for attrs
proof (unfold_locales, goal_cases)
  case (1 s t)
  show ?case by (auto simp: conv2d_get_output_parallel_shape_def)
next
  case (2 u u' d d')
  then show ?case by (auto simp: conv2d_output_shape_eq conv2d_degrees_rank)
next
  case (3 u u')
  then have len: "4 \<le> length (ts_dims u)" by (simp add: conv2d_output_shape_eq)
  have "valid_pos (ts_dims u ! 0)"
    using 3(2) len by (intro wf_dims_nth) (auto simp: wf_shape_def)
  with 3 show ?case
    by (auto simp: conv2d_output_shape_eq wf_conv2d_attrs_def intro: conv2d_output_size_valid)
next
  case (4 d d')
  then show ?case using conv2d_degrees_wf_total [of attrs d d'] by blast
next
  case (5 d d')
  then show ?case using conv2d_degrees_wf_total [of attrs d d'] by blast
qed

definition wf_pool2d_attrs :: "pool2d_attrs \<Rightarrow> bool" where
  "wf_pool2d_attrs attrs \<longleftrightarrow>
     valid_pos (pool_kernel_h attrs) \<and> valid_pos (pool_kernel_w attrs) \<and>
     valid_pos (pool_stride_h attrs) \<and> valid_pos (pool_stride_w attrs)"

lemma pool2d_output_size_eq: "pool2d_calculate_output_size = conv2d_calculate_output_dim_size"
  by (simp add: pool2d_calculate_output_size_def conv2d_calculate_output_dim_size_def fun_eq_iff)

lemma dim_at_rel_idx_small:
  "dim_at_rel_idx ds 0 = dim_at_idx ds 0" "dim_at_rel_idx ds 1 = dim_at_idx ds 1"
  "dim_at_rel_idx ds 2 = dim_at_idx ds 2" "dim_at_rel_idx ds 3 = dim_at_idx ds 3"
  by (simp_all add: dim_at_rel_idx_def dim_at_idx_def ff_ordered_at_rel_def ff_ordered_at_def)

lemma pool2d_output_shape_eq:
  "pool2d_get_output_shape attrs s = Inr u \<longleftrightarrow>
     (\<exists>n c ih iw h w. ts_dims s = [n, c, ih, iw] \<and>
        conv2d_calculate_output_dim_size ih (pool_padding_h attrs)
          (pool_kernel_h attrs) (pool_stride_h attrs) = Inr h \<and>
        conv2d_calculate_output_dim_size iw (pool_padding_w attrs)
          (pool_kernel_w attrs) (pool_stride_w attrs) = Inr w \<and>
        u = TensorShape [n, c, h, w] (ts_data_type s))"
  by (auto simp: pool2d_get_output_shape_def container_ops length_4_conv numeral_3_eq_3
      numeral_2_eq_2 MAX_TENSOR_DIM_def pool2d_output_size_eq dim_at_rel_idx_small split: if_splits)

lemma pool2d_degrees_eq:
  "pool2d_get_output_parallel_dim_degrees attrs d = Inr e \<longleftrightarrow>
     e = d \<and> (1 < ptdd_sum_degree d \<longrightarrow> pool_pool_type attrs = Pool_AVG \<and> pool_activation attrs = None)"
  using pool_op.exhaust [of "pool_pool_type attrs"]
  by (auto simp: pool2d_get_output_parallel_dim_degrees_def)

interpretation pool2d: degree_conserving "pool2d_get_output_shape attrs"
    "pool2d_get_output_parallel_dim_degrees attrs" "pool2d_get_output_parallel_shape attrs"
    True for attrs
proof (unfold_locales, goal_cases)
  case (1 s t)
  show ?case by (auto simp: pool2d_get_output_parallel_shape_def)
next
  case (3 u u')
  then show ?case
    by (auto simp: pool2d_output_shape_eq wf_shape_def intro: conv2d_output_size_valid)
qed (auto simp: pool2d_output_shape_eq pool2d_degrees_eq)

lemma output_dim_size_fits:
  assumes "ksize \<le> input + 2 * padding" and "0 < stride" and "0 < ksize"
    and "input + 2 * padding \<le> INT_MAX"
  shows "conv2d_calculate_output_dim_size input padding ksize stride =
    Inr ((input + 2 * padding - ksize) div stride + 1)"
proof -
  let ?span = "input + 2 * padding - ksize"
  have b: "?span div stride \<le> ?span" by (rule div_le_dividend)
  have "?span < INT_MAX" using assms by linarith
  with b have le: "?span div stride + 1 \<le> INT_MAX" by linarith
  have steps: "cint (2 * int padding) = Inr (2 * int padding)"
    "cint (int input + 2 * int padding) = Inr (int input + 2 * int padding)"
    "cint (int input + 2 * int padding - int ksize) = Inr (int ?span)"
    using assms by (simp_all add: cint_def INT_MAX_def of_nat_diff)
  have "cint_div (int ?span) (int stride) = Inr (int (?span div stride))"
    using assms(2) b le by (simp add: cint_div_of_nat)
  moreover have "cint (int (?span div stride) + 1) = Inr (int (?span div stride + 1))"
    using le by (simp add: cint_def INT_MAX_def)
  moreover have "mk_positive_int (int (?span div stride + 1)) = Inr (?span div stride + 1)"
    by (simp only: mk_positive_int_eq) simp
  ultimately show ?thesis
    by (simp add: conv2d_calculate_output_dim_size_def steps)
qed

lemma card_windows:
  assumes "0 < stride" and "ksize \<le> padded"
  shows "card {x. x * stride + ksize \<le> padded} = (padded - ksize) div stride + (1::nat)"
proof -
  have "{x. x * stride + ksize \<le> padded} = {..(padded - ksize) div stride}"
    using assms by (auto simp: less_eq_div_iff_mult_less_eq)
  then show ?thesis by simp
qed

lemma positive_int_mod_total: "0 < b \<Longrightarrow> positive_int_mod a b = Inr (a mod b)"
  by (simp add: positive_int_mod_eq)

lemma adaptive_dim_size:
  assumes "valid_pos i" and "0 < o'" and "o' dvd i"
  shows "positive_int_mod i o' = Inr 0"
    and "positive_int_div i o' = Inr (i div o')"
    and "positive_int_from_nonnegative (i div o') = Inr (i div o')"
    and "conv2d_calculate_output_dim_size i 0 (i div o') (i div o') = Inr o'"
proof -
  from assms obtain k where i: "i = o' * k" by blast
  with assms have k: "0 < k" "o' * k \<le> INT_MAX" by (auto simp: valid_pos_def)
  then have "k \<le> INT_MAX" using assms(2) mult_bound_right by blast
  with assms k i show "positive_int_mod i o' = Inr 0" "positive_int_div i o' = Inr (i div o')"
    "positive_int_from_nonnegative (i div o') = Inr (i div o')"
    by (simp_all add: positive_int_mod_eq positive_int_div_eq positive_int_from_nonnegative_eq)
  have "conv2d_calculate_output_dim_size i 0 k k = Inr ((i + 2 * 0 - k) div k + 1)"
    using k i assms(2) by (intro output_dim_size_fits) simp_all
  moreover have "i - k = (o' - 1) * k" by (simp add: i diff_mult_distrib)
  ultimately show "conv2d_calculate_output_dim_size i 0 (i div o') (i div o') = Inr o'"
    using k assms(2) i by simp
qed

lemma rank4_dims:
  "get_num_dims [a, b, c, d] = Inr 4"
  "dim_at_rel_idx [a, b, c, d] 0 = Inr a" "dim_at_rel_idx [a, b, c, d] 1 = Inr b"
  "dim_at_rel_idx [a, b, c, d] 2 = Inr c" "dim_at_rel_idx [a, b, c, d] 3 = Inr d"
  by (simp_all add: container_ops MAX_TENSOR_DIM_def dim_at_rel_idx_small numeral_3_eq_3
      numeral_2_eq_2 numeral_eq_Suc)

section \<open>Properties\<close>

text \<open>
  Claim C5. Convolution keeps every device of its input busy, whichever way channel degree and group
  count divide each other: with valid attributes, the parallel shapes of output, kernel and bias
  inferred for a well-formed input are well-formed and have the total parallel degree of the input.
\<close>

theorem conv2d_conserves_parallel_degree:
  assumes "wf_conv2d_attrs attrs" and "wf_pshape s"
    and "conv2d_get_output_parallel_shape attrs s = Inr t"
    and "conv2d_get_kernel_parallel_shape attrs s = Inr k"
    and "conv2d_get_bias_parallel_shape attrs s = Inr b"
    and "r \<in> {t, k, b}"
  shows "wf_pshape r \<and> (get_total_parallel_degree r = Inr n \<longleftrightarrow> get_total_parallel_degree s = Inr n)"
  using assms(6) conv2d_output.par_wf [OF assms(1-3)] conv2d_output.par_total [OF assms(1-3)]
    conv2d_kernel.par_wf [OF assms(1,2,4)] conv2d_kernel.par_total [OF assms(1,2,4)]
    conv2d_bias.par_wf [OF assms(1,2,5)] conv2d_bias.par_total [OF assms(1,2,5)]
  by blast

definition example_conv2d_attrs :: conv2d_attrs where
  "example_conv2d_attrs = \<lparr> conv_out_channels = 8, conv_kernel_h = 3, conv_kernel_w = 3,
     conv_stride_h = 1, conv_stride_w = 1, conv_padding_h = 1, conv_padding_w = 1,
     conv_groups = 2, conv_activation = None, conv_use_bias = True \<rparr>"

definition example_conv2d_input :: parallel_tensor_shape where
  "example_conv2d_input = ParallelTensorShape (ParallelTensorDims
     [ShardParallelDim 6 3, ShardParallelDim 8 4, ShardParallelDim 5 1, ShardParallelDim 5 1]
     (ReplicaParallelDimSet 1 2)) FLOAT"

theorem conv2d_conserves_parallel_degree_witness:
  "get_total_parallel_degree (ParallelTensorShape (ParallelTensorDims
     [ShardParallelDim 8 4, ShardParallelDim 4 2, ShardParallelDim 3 1, ShardParallelDim 3 1]
     (ReplicaParallelDimSet 1 3)) FLOAT) = Inr 24"
proof -
  let ?t = "ParallelTensorShape (ParallelTensorDims
     [ShardParallelDim 6 3, ShardParallelDim 8 4, ShardParallelDim 5 1, ShardParallelDim 5 1]
     (ReplicaParallelDimSet 2 1)) FLOAT"
  let ?k = "ParallelTensorShape (ParallelTensorDims
     [ShardParallelDim 8 4, ShardParallelDim 4 2, ShardParallelDim 3 1, ShardParallelDim 3 1]
     (ReplicaParallelDimSet 1 3)) FLOAT"
  let ?b = "ParallelTensorShape (ParallelTensorDims
     [ShardParallelDim 8 4] (ReplicaParallelDimSet 2 3)) FLOAT"
  have w: "wf_conv2d_attrs example_conv2d_attrs" "wf_pshape example_conv2d_input"
    by (simp_all add: wf_conv2d_attrs_def example_conv2d_attrs_def example_conv2d_input_def
        wf_pshape_def wf_degrees_iff wf_shape_def shape_ops valid_pos_def INT_MAX_def
        get_sum_degree_def get_discard_copy_degree_def)
  have s: "conv2d_get_output_parallel_shape example_conv2d_attrs example_conv2d_input = Inr ?t"
    "conv2d_get_kernel_parallel_shape example_conv2d_attrs example_conv2d_input = Inr ?k"
    "conv2d_get_bias_parallel_shape example_conv2d_attrs example_conv2d_input = Inr ?b"
    "get_total_parallel_degree example_conv2d_input = Inr 24"
    by code_simp+
  from conv2d_conserves_parallel_degree [OF w s(1-3), of ?k 24] s(4) show ?thesis by simp
qed

lemma output_dim_size_of_too_large_kernel:
  assumes "input + 2 * padding < ksize" and "0 < stride" and "ksize \<le> INT_MAX" and "stride \<le> INT_MAX"
  shows "conv2d_calculate_output_dim_size input padding ksize stride =
    (if ksize < input + 2 * padding + stride then Inr 1 else Inl Assertion_failed)"
proof -
  define excess where "excess = ksize - (input + 2 * padding)"
  have e: "int input + 2 * int padding - int ksize = - int excess" "0 < excess" "excess \<le> INT_MAX"
    using assms by (simp_all add: excess_def of_nat_diff)
  define steps where "steps = excess div stride"
  have "steps \<le> excess" unfolding steps_def by (rule div_le_dividend)
  with e(3) have q: "cint (- int steps) = Inr (- int steps)" "cint (1 - int steps) = Inr (1 - int steps)"
    by (simp_all add: cint_def INT_MAX_def)
  then have quotient: "cint_div (- int excess) (int stride) = Inr (- int steps)"
    using assms(2) e(2) by (simp add: cint_div_def steps_def of_nat_div)
  have "cint (2 * int padding) = Inr (2 * int padding)"
    "cint (int input + 2 * int padding) = Inr (int input + 2 * int padding)"
    "cint (- int excess) = Inr (- int excess)"
    using assms e by (simp_all add: cint_def INT_MAX_def)
  with q(2) quotient e(1) have "conv2d_calculate_output_dim_size input padding ksize stride =
      mk_positive_int (1 - int steps)"
    by (simp add: conv2d_calculate_output_dim_size_def)
  moreover have "steps = 0 \<longleftrightarrow> ksize < input + 2 * padding + stride"
    using assms by (auto simp: steps_def excess_def div_eq_0_iff)
  ultimately show ?thesis by (auto simp: mk_positive_int_def require_def)
qed

text \<open>
  Claim C39. The output size of a convolution or pooling, for every input whose \<open>int\<close>s do not overflow: when the
  kernel fits into the padded input, both functions return the number of offsets \<open>x\<close> at which a kernel
  placed at \<open>x * stride\<close> lies inside the padded input. A kernel that is too large has no such offset; division
  truncates towards zero, so when it is too large by less than the stride the size is 1 instead of an
  error, and only beyond that the constructor of \<open>positive_int\<close> stops.
\<close>

theorem output_size_counts_windows:
  assumes "0 < stride" and "0 < ksize"
    and "input + 2 * padding \<le> INT_MAX" and "ksize \<le> INT_MAX" and "stride \<le> INT_MAX"
  shows "let windows = {x. x * stride + ksize \<le> input + 2 * padding};
      size = (if ksize \<le> input + 2 * padding then Inr (card windows)
              else if ksize < input + 2 * padding + stride then Inr 1 else Inl Assertion_failed)
    in conv2d_calculate_output_dim_size input padding ksize stride = size \<and>
       pool2d_calculate_output_size input padding ksize stride = size \<and>
       (windows = {} \<longleftrightarrow> input + 2 * padding < ksize)"
proof (cases "ksize \<le> input + 2 * padding")
  case True
  then have "(0::nat) \<in> {x. x * stride + ksize \<le> input + 2 * padding}" by simp
  then have "{x. x * stride + ksize \<le> input + 2 * padding} \<noteq> {}" by blast
  with True show ?thesis
    by (simp only: Let_def pool2d_output_size_eq output_dim_size_fits [OF True assms(1-3)]
        card_windows [OF assms(1) True]) simp
next
  case False
  then have "{x. x * stride + ksize \<le> input + 2 * padding} = {}" by auto
  with False show ?thesis
    using output_dim_size_of_too_large_kernel [of input padding ksize stride] assms
    by (simp add: pool2d_output_size_eq)
qed

theorem output_size_counts_windows_witness:
  "conv2d_calculate_output_dim_size 7 1 3 2 = Inr 4 \<and>
   conv2d_calculate_output_dim_size 3 0 4 2 = Inr 1 \<and>
   pool2d_calculate_output_size 3 0 5 2 = Inl Assertion_failed"
proof -
  have "{x. x * 2 + 3 \<le> 7 + 2 * (1::nat)} = {0, 1, 2, 3}" by auto
  then have "card {x. x * 2 + 3 \<le> 7 + 2 * (1::nat)} = 4" by simp
  then show ?thesis
    using output_size_counts_windows [of 2 3 7 1] output_size_counts_windows [of 2 4 3 0]
      output_size_counts_windows [of 2 5 3 0]
    by (simp add: Let_def INT_MAX_def)
qed

text \<open>
  Adaptive pooling does what it announces: for a well-formed input of rank 4 whose height
  and width are multiples of the requested ones, \<open>make_adaptive_pool2d_attrs\<close> returns attributes
  with which pooling the input gives exactly the requested height and width; its check on the
  output shape, reported as a bug in FlexFlow, never fires on any input.
\<close>

theorem adaptive_pool2d_correct:
  assumes "wf_dims dims" and "0 < h" and "0 < w"
  shows "make_adaptive_pool2d_attrs dims h w pool act \<noteq> Inl (Unexpected Unexpected_output_shape) \<and>
    (\<forall>n c ih iw. dims = [n, c, ih, iw] \<and> h dvd ih \<and> w dvd iw \<longrightarrow>
      (\<exists>attrs. make_adaptive_pool2d_attrs dims h w pool act = Inr attrs \<and>
        pool_pool_type attrs = pool \<and> pool_activation attrs = act \<and>
        (\<forall>dt. pool2d_get_output_shape attrs (TensorShape dims dt) =
          Inr (TensorShape [n, c, h, w] dt))))"
proof (cases "\<exists>n c ih iw. dims = [n, c, ih, iw] \<and> h dvd ih \<and> w dvd iw")
  case True
  then obtain n c ih iw where d: "dims = [n, c, ih, iw]" "h dvd ih" "w dvd iw" by blast
  let ?a = "\<lparr> pool_kernel_h = ih div h, pool_kernel_w = iw div w, pool_stride_h = ih div h,
    pool_stride_w = iw div w, pool_padding_h = 0, pool_padding_w = 0,
    pool_pool_type = pool, pool_activation = act \<rparr>"
  have v: "valid_pos ih" "valid_pos iw" using assms(1) d by simp_all
  have shape: "pool2d_get_output_shape ?a (TensorShape [n, c, ih, iw] dt) =
      Inr (TensorShape [n, c, h, w] dt)" for dt
    using adaptive_dim_size(4) [OF v(1) assms(2) d(2)] adaptive_dim_size(4) [OF v(2) assms(3) d(3)]
    by (simp add: pool2d_output_shape_eq)
  have "make_adaptive_pool2d_attrs dims h w pool act = Inr ?a"
    using adaptive_dim_size(1-3) [OF v(1) assms(2) d(2)] adaptive_dim_size(1-3) [OF v(2) assms(3) d(3)] shape
    by (simp add: make_adaptive_pool2d_attrs_def d(1) rank4_dims)
  then show ?thesis using d shape by (intro conjI allI impI exI [of _ ?a]) auto
next
  case False
  have "make_adaptive_pool2d_attrs dims h w pool act \<noteq> Inl (Unexpected Unexpected_output_shape)"
  proof (cases "length dims = 4")
    case True
    then obtain n c ih iw where d: "dims = [n, c, ih, iw]" by (auto simp: length_4_conv)
    with False consider "\<not> h dvd ih" | "\<not> w dvd iw" by blast
    then show ?thesis using assms(2,3)
      by cases (simp_all add: make_adaptive_pool2d_attrs_def d rank4_dims positive_int_mod_total
          mod_eq_0_iff_dvd)
  next
    case False
    then show ?thesis
      by (auto simp: make_adaptive_pool2d_attrs_def res_bind_eq_Inl container_ops get_num_dims_def
          num_elements_def nonnegative_int_from_size_def mk_num_tensor_dims_def)
  qed
  with False show ?thesis by blast
qed

theorem adaptive_pool2d_correct_witness:
  "\<exists>attrs. make_adaptive_pool2d_attrs [2, 3, 12, 10] 4 5 Pool_AVG None = Inr attrs \<and>
     pool2d_get_output_shape attrs (TensorShape [2, 3, 12, 10] HALF) = Inr (TensorShape [2, 3, 4, 5] HALF)"
proof -
  have "wf_dims [2, 3, 12, 10]" by (simp add: valid_pos_def INT_MAX_def)
  from adaptive_pool2d_correct [OF this, of 4 5 Pool_AVG None, THEN conjunct2, rule_format,
      of 2 3 12 10] show ?thesis by auto
qed

end
