(* ===== verification/Op_Norm.thy ===== *)
theory Op_Norm
  imports Parallel_Inference
begin

text \<open>
  Normalisations, \<open>lib/op-attrs/src/op-attrs/ops/batch_norm.cc\<close>, \<open>layer_norm.cc\<close>, \<open>softmax.cc\<close> and
  \<open>dropout.cc\<close>. They keep the shape of their input and restrict how it may be parallel: batch
  norm may be sharded over its channels only, layer norm and softmax not over the dimensions they
  normalise.
\<close>

section \<open>Batch norm\<close>

definition get_batch_norm_incoming_tensor_roles ::
    "batch_norm_attrs \<Rightarrow> (tensor_slot_name \<rightharpoonup> incoming_tensor_role)" where
  "get_batch_norm_incoming_tensor_roles attrs =
     (let result = [Slot_INPUT \<mapsto> Role_INPUT]
      in if bn_affine attrs then result(Slot_GAMMA \<mapsto> Role_WEIGHT, Slot_BETA \<mapsto> Role_WEIGHT)
         else result)"

definition batch_norm_check_input_shape :: "batch_norm_attrs \<Rightarrow> tensor_shape \<Rightarrow> reason option res" where
  "batch_norm_check_input_shape attrs input_shape =
     res_bind (get_num_dims (ts_dims input_shape)) (\<lambda>n.
     Inr (if n < 2 then Some Wrong_num_dims
          else if ts_data_type input_shape \<noteq> FLOAT then Some Wrong_datatype
          else None))"

definition batch_norm_get_output_shape :: "batch_norm_attrs \<Rightarrow> tensor_shape \<Rightarrow> tensor_shape res" where
  "batch_norm_get_output_shape attrs input_shape =
     res_bind (res_bind (batch_norm_check_input_shape attrs input_shape) unexpected_if) (\<lambda>_.
     Inr input_shape)"

definition batch_norm_get_gamma_weights_shape ::
    "batch_norm_attrs \<Rightarrow> tensor_shape \<Rightarrow> tensor_shape res" where
  "batch_norm_get_gamma_weights_shape attrs input_shape =
     res_bind (res_bind (batch_norm_check_input_shape attrs input_shape) unexpected_if) (\<lambda>_.
     if \<not> bn_affine attrs then Inl (Unexpected No_gamma_weights)
     else res_bind (dim_at_rel_idx (ts_dims input_shape) 1) (\<lambda>num_channels.
       Inr (TensorShape [num_channels] FLOAT)))"

definition batch_norm_get_beta_weights_shape ::
    "batch_norm_attrs \<Rightarrow> tensor_shape \<Rightarrow> tensor_shape res" where
  "batch_norm_get_beta_weights_shape attrs input_shape =
     (if \<not> bn_affine attrs then Inl (Unexpected No_beta_weights)
      else batch_norm_get_gamma_weights_shape attrs input_shape)"

definition batch_norm_get_weight_shapes ::
    "batch_norm_attrs \<Rightarrow> tensor_shape \<Rightarrow> (tensor_slot_name \<rightharpoonup> tensor_shape) res" where
  "batch_norm_get_weight_shapes attrs input_shape =
     res_bind (batch_norm_get_gamma_weights_shape attrs input_shape) (\<lambda>gamma_shape.
     res_bind (batch_norm_get_beta_weights_shape attrs input_shape) (\<lambda>beta_shape.
     Inr [Slot_GAMMA \<mapsto> gamma_shape, Slot_BETA \<mapsto> beta_shape]))"

definition batch_norm_check_input_degrees ::
    "batch_norm_attrs \<Rightarrow> parallel_tensor_dim_degrees \<Rightarrow> reason option res" where
  "batch_norm_check_input_degrees attrs input_degrees =
     (if length (ptdd_shard_degrees input_degrees) < 2 then Inr (Some Wrong_num_dims)
      else if ptdd_sum_degree input_degrees \<noteq> 1 then Inr (Some Sum_degree_not_one)
      else if ptdd_discard_copy_degree input_degrees \<noteq> 1 then Inr (Some Discard_copy_degree_not_one)
      else
        res_bind (ff_ordered_slice (ptdd_shard_degrees input_degrees) 0 (Some 1)) (\<lambda>sample.
        res_bind (ff_ordered_slice (ptdd_shard_degrees input_degrees) 2 None) (\<lambda>rest.
        let non_channel_degrees = ff_ordered_concat [sample, rest]
        in Inr (if \<exists>degree \<in> set non_channel_degrees. degree \<noteq> 1
                then Some Shard_degree_not_one else None))))"

definition batch_norm_get_output_parallel_dim_degrees ::
    "batch_norm_attrs \<Rightarrow> parallel_tensor_dim_degrees \<Rightarrow> parallel_tensor_dim_degrees res" where
  "batch_norm_get_output_parallel_dim_degrees attrs input_degrees =
     res_bind (res_bind (batch_norm_check_input_degrees attrs input_degrees) unexpected_if) (\<lambda>_.
     Inr input_degrees)"

definition batch_norm_get_gamma_weights_parallel_dim_degrees ::
    "batch_norm_attrs \<Rightarrow> parallel_tensor_dim_degrees \<Rightarrow> parallel_tensor_dim_degrees res" where
  "batch_norm_get_gamma_weights_parallel_dim_degrees attrs input_degrees =
     res_bind (res_bind (batch_norm_check_input_degrees attrs input_degrees) unexpected_if) (\<lambda>_.
     if \<not> bn_affine attrs then Inl (Unexpected No_gamma_weights)
     else
       res_bind (ff_ordered_at_rel (ptdd_shard_degrees input_degrees) 1) (\<lambda>channel_degree.
       Inr (ParallelTensorDimDegrees 1 1 [channel_degree])))"

definition batch_norm_get_beta_weights_parallel_dim_degrees ::
    "batch_norm_attrs \<Rightarrow> parallel_tensor_dim_degrees \<Rightarrow> parallel_tensor_dim_degrees res" where
  "batch_norm_get_beta_weights_parallel_dim_degrees attrs input_degrees =
     res_bind (res_bind (batch_norm_check_input_degrees attrs input_degrees) unexpected_if) (\<lambda>_.
     if \<not> bn_affine attrs then Inl (Unexpected No_beta_weights)
     else batch_norm_get_gamma_weights_parallel_dim_degrees attrs input_degrees)"

definition batch_norm_get_weight_parallel_dim_degrees ::
    "batch_norm_attrs \<Rightarrow> parallel_tensor_dim_degrees \<Rightarrow>
     (tensor_slot_name \<rightharpoonup> parallel_tensor_dim_degrees) res" where
  "batch_norm_get_weight_parallel_dim_degrees attrs input_degrees =
     res_bind (batch_norm_get_gamma_weights_parallel_dim_degrees attrs input_degrees) (\<lambda>gamma_degrees.
     res_bind (batch_norm_get_beta_weights_parallel_dim_degrees attrs input_degrees) (\<lambda>beta_degrees.
     Inr [Slot_GAMMA \<mapsto> gamma_degrees, Slot_BETA \<mapsto> beta_degrees]))"

definition batch_norm_get_output_parallel_shape ::
    "batch_norm_attrs \<Rightarrow> parallel_tensor_shape \<Rightarrow> parallel_tensor_shape res" where
  "batch_norm_get_output_parallel_shape attrs input_shape =
     res_bind (batch_norm_get_output_shape attrs (get_reduced_shape input_shape)) (\<lambda>unpar.
     res_bind (batch_norm_get_output_parallel_dim_degrees attrs (get_parallel_degrees input_shape))
       (\<lambda>degrees.
     Inr (lift_to_parallel_with_dim_degrees unpar degrees)))"

definition batch_norm_get_gamma_weights_parallel_shape ::
    "batch_norm_attrs \<Rightarrow> parallel_tensor_shape \<Rightarrow> parallel_tensor_shape res" where
  "batch_norm_get_gamma_weights_parallel_shape attrs input_shape =
     res_bind (batch_norm_get_gamma_weights_shape attrs (get_reduced_shape input_shape)) (\<lambda>unpar.
     res_bind (batch_norm_get_gamma_weights_parallel_dim_degrees attrs
       (get_parallel_degrees input_shape)) (\<lambda>degrees.
     Inr (lift_to_parallel_with_dim_degrees unpar degrees)))"

definition batch_norm_get_beta_weights_parallel_shape ::
    "batch_norm_attrs \<Rightarrow> parallel_tensor_shape \<Rightarrow> parallel_tensor_shape res" where
  "batch_norm_get_beta_weights_parallel_shape attrs input_shape =
     res_bind (batch_norm_get_beta_weights_shape attrs (get_reduced_shape input_shape)) (\<lambda>unpar.
     res_bind (batch_norm_get_beta_weights_parallel_dim_degrees attrs
       (get_parallel_degrees input_shape)) (\<lambda>degrees.
     Inr (lift_to_parallel_with_dim_degrees unpar degrees)))"

definition batch_norm_get_weight_parallel_shapes ::
    "batch_norm_attrs \<Rightarrow> parallel_tensor_shape \<Rightarrow> (tensor_slot_name \<rightharpoonup> parallel_tensor_shape) res" where
  "batch_norm_get_weight_parallel_shapes attrs input_shape =
     res_bind (batch_norm_get_gamma_weights_parallel_shape attrs input_shape) (\<lambda>gamma_shape.
     res_bind (batch_norm_get_beta_weights_parallel_shape attrs input_shape) (\<lambda>beta_shape.
     Inr [Slot_GAMMA \<mapsto> gamma_shape, Slot_BETA \<mapsto> beta_shape]))"

definition batch_norm_get_initializers ::
    "batch_norm_attrs \<Rightarrow> (tensor_slot_name \<rightharpoonup> initializer_attrs) res" where
  "batch_norm_get_initializers attrs =
     (if bn_affine attrs
      then Inr [Slot_GAMMA \<mapsto> Init_constant (Value_float (F_of_int 1)),
        Slot_BETA \<mapsto> Init_constant (Value_float (F_of_int 0))]
      else Inr Map.empty)"

section \<open>Layer norm\<close>

definition get_layer_norm_incoming_tensor_roles ::
    "layer_norm_attrs \<Rightarrow> (tensor_slot_name \<rightharpoonup> incoming_tensor_role)" where
  "get_layer_norm_incoming_tensor_roles attrs =
     (let result = [Slot_INPUT \<mapsto> Role_INPUT]
      in if ln_elementwise_affine attrs
         then result(Slot_GAMMA \<mapsto> Role_WEIGHT, Slot_BETA \<mapsto> Role_WEIGHT)
         else result)"

definition layer_norm_check_input_shape :: "layer_norm_attrs \<Rightarrow> tensor_shape \<Rightarrow> reason option res" where
  "layer_norm_check_input_shape attrs input_shape =
     res_bind (res_any_of (\<lambda>axis. res_bind (get_num_dims (ts_dims input_shape)) (\<lambda>n. Inr (n \<le> axis)))
       (ln_axes attrs)) (\<lambda>out_of_bounds.
     Inr (if out_of_bounds then Some Axis_out_of_bounds else None))"

definition layer_norm_get_output_shape :: "layer_norm_attrs \<Rightarrow> tensor_shape \<Rightarrow> tensor_shape res" where
  "layer_norm_get_output_shape attrs input_shape =
     res_bind (res_bind (layer_norm_check_input_shape attrs input_shape) unexpected_if) (\<lambda>_.
     Inr input_shape)"

definition layer_norm_get_gamma_weights_shape ::
    "layer_norm_attrs \<Rightarrow> tensor_shape \<Rightarrow> tensor_shape res" where
  "layer_norm_get_gamma_weights_shape attrs input_shape =
     res_bind (res_bind (layer_norm_check_input_shape attrs input_shape) unexpected_if) (\<lambda>_.
     if \<not> ln_elementwise_affine attrs then Inl (Unexpected No_gamma_weights)
     else
       let non_layer_norm_dim_idxs =
         filter (\<lambda>dim_idx. dim_idx \<notin> set (ln_axes attrs)) (ff_ordered_get_idxs (ts_dims input_shape))
       in res_bind (res_map (\<lambda>dim_idx.
            dim_at_rel_idx (ts_dims input_shape) (relative_ff_dim_t_from_ff_dim_t dim_idx))
            non_layer_norm_dim_idxs) (\<lambda>raw_weight_dims.
          Inr (TensorShape raw_weight_dims FLOAT)))"

definition layer_norm_get_beta_weights_shape ::
    "layer_norm_attrs \<Rightarrow> tensor_shape \<Rightarrow> tensor_shape res" where
  "layer_norm_get_beta_weights_shape attrs input_shape =
     (if \<not> ln_elementwise_affine attrs then Inl (Unexpected No_beta_weights)
      else layer_norm_get_gamma_weights_shape attrs input_shape)"

definition layer_norm_get_weight_shapes ::
    "layer_norm_attrs \<Rightarrow> tensor_shape \<Rightarrow> (tensor_slot_name \<rightharpoonup> tensor_shape) res" where
  "layer_norm_get_weight_shapes attrs input_shape =
     res_bind (layer_norm_get_gamma_weights_shape attrs input_shape) (\<lambda>gamma_shape.
     res_bind (layer_norm_get_beta_weights_shape attrs input_shape) (\<lambda>beta_shape.
     Inr [Slot_GAMMA \<mapsto> gamma_shape, Slot_BETA \<mapsto> beta_shape]))"

definition layer_norm_check_parallel_input_shape ::
    "layer_norm_attrs \<Rightarrow> parallel_tensor_shape \<Rightarrow> reason option res" where
  "layer_norm_check_parallel_input_shape attrs input_shape =
     res_bind (layer_norm_check_input_shape attrs (get_reduced_shape input_shape)) (\<lambda>maybe_err_msg.
     if maybe_err_msg \<noteq> None then Inr maybe_err_msg
     else if get_sum_degree input_shape \<noteq> 1 then Inr (Some Sum_degree_not_one)
     else if get_discard_copy_degree input_shape \<noteq> 1 then Inr (Some Discard_copy_degree_not_one)
     else
       res_bind (res_all_of (\<lambda>axis.
         res_bind (shard_dim_at_idx input_shape (relative_ff_dim_t_from_ff_dim_t axis)) (\<lambda>d.
         Inr (spd_degree d = 1))) (ln_axes attrs)) (\<lambda>all_one.
       Inr (if \<not> all_one then Some Shard_degree_not_one else None)))"

definition layer_norm_get_output_parallel_shape ::
    "layer_norm_attrs \<Rightarrow> parallel_tensor_shape \<Rightarrow> parallel_tensor_shape res" where
  "layer_norm_get_output_parallel_shape attrs input_shape =
     res_bind (res_bind (layer_norm_check_parallel_input_shape attrs input_shape) unexpected_if) (\<lambda>_.
     Inr input_shape)"

definition layer_norm_get_gamma_weights_parallel_shape ::
    "layer_norm_attrs \<Rightarrow> parallel_tensor_shape \<Rightarrow> parallel_tensor_shape res" where
  "layer_norm_get_gamma_weights_parallel_shape attrs input_shape =
     res_bind (res_bind (layer_norm_check_parallel_input_shape attrs input_shape) unexpected_if) (\<lambda>_.
     if \<not> ln_elementwise_affine attrs then Inl (Unexpected No_gamma_weights)
     else
       let non_layer_norm_dim_idxs =
         filter (\<lambda>dim_idx. dim_idx \<notin> set (ln_axes attrs))
           (ff_ordered_get_idxs (ptd_shard_dims (pts_dims input_shape)))
       in res_bind (res_map (\<lambda>dim_idx.
            shard_dim_at_idx input_shape (relative_ff_dim_t_from_ff_dim_t dim_idx))
            non_layer_norm_dim_idxs) (\<lambda>raw_weight_shard_dims.
          Inr (ParallelTensorShape
            (ParallelTensorDims raw_weight_shard_dims (ReplicaParallelDimSet 1 1)) FLOAT)))"

definition layer_norm_get_beta_weights_parallel_shape ::
    "layer_norm_attrs \<Rightarrow> parallel_tensor_shape \<Rightarrow> parallel_tensor_shape res" where
  "layer_norm_get_beta_weights_parallel_shape attrs input_shape =
     (if \<not> ln_elementwise_affine attrs then Inl (Unexpected No_beta_weights)
      else layer_norm_get_gamma_weights_parallel_shape attrs input_shape)"

definition layer_norm_get_weight_parallel_shapes ::
    "layer_norm_attrs \<Rightarrow> parallel_tensor_shape \<Rightarrow> (tensor_slot_name \<rightharpoonup> parallel_tensor_shape) res" where
  "layer_norm_get_weight_parallel_shapes attrs input_shape =
     res_bind (layer_norm_get_gamma_weights_parallel_shape attrs input_shape) (\<lambda>gamma_shape.
     res_bind (layer_norm_get_beta_weights_parallel_shape attrs input_shape) (\<lambda>beta_shape.
     Inr [Slot_GAMMA \<mapsto> gamma_shape, Slot_BETA \<mapsto> beta_shape]))"

definition layer_norm_get_initializers ::
    "layer_norm_attrs \<Rightarrow> (tensor_slot_name \<rightharpoonup> initializer_attrs)" where
  "layer_norm_get_initializers attrs =
     (if ln_elementwise_affine attrs
      then [Slot_GAMMA \<mapsto> Init_constant (Value_float (F_of_int 1)),
        Slot_BETA \<mapsto> Init_constant (Value_float (F_of_int 0))]
      else Map.empty)"

section \<open>Softmax and dropout\<close>

definition softmax_get_output_shape :: "ff_dim_t \<Rightarrow> tensor_shape \<Rightarrow> tensor_shape res" where
  "softmax_get_output_shape dim input_shape =
     res_bind (get_num_dims (ts_dims input_shape)) (\<lambda>n.
     if n \<le> dim then Inl (Unexpected Axis_out_of_bounds) else Inr input_shape)"

definition softmax_get_output_parallel_shape ::
    "ff_dim_t \<Rightarrow> parallel_tensor_shape \<Rightarrow> parallel_tensor_shape res" where
  "softmax_get_output_parallel_shape dim input_shape =
     res_bind (softmax_get_output_shape dim (get_reduced_shape input_shape)) (\<lambda>_.
     if get_sum_degree input_shape \<noteq> 1 then Inl (Unexpected Sum_degree_not_one)
     else if get_discard_copy_degree input_shape \<noteq> 1 then Inl (Unexpected Discard_copy_degree_not_one)
     else
       res_bind (shard_dim_at_idx input_shape (relative_ff_dim_t_from_ff_dim_t dim)) (\<lambda>d.
       if spd_degree d \<noteq> 1 then Inl (Unexpected Shard_degree_not_one) else Inr input_shape))"

definition dropout_get_output_shape :: "dropout_attrs \<Rightarrow> tensor_shape \<Rightarrow> tensor_shape" where
  "dropout_get_output_shape attrs input_shape = input_shape"

definition dropout_get_output_parallel_shape ::
    "dropout_attrs \<Rightarrow> parallel_tensor_shape \<Rightarrow> parallel_tensor_shape res" where
  "dropout_get_output_parallel_shape attrs input_shape =
     (if get_sum_degree input_shape \<noteq> 1 then Inl (Unexpected Sum_degree_not_one)
      else if get_discard_copy_degree input_shape \<noteq> 1
      then Inl (Unexpected Discard_copy_degree_not_one)
      else Inr input_shape)"

section \<open>Lemmas\<close>

lemma batch_norm_shape_ok:
  "batch_norm_check_input_shape attrs s = Inr None \<longleftrightarrow>
     length (ts_dims s) \<in> {2..MAX_TENSOR_DIM} \<and> ts_data_type s = FLOAT"
  by (auto simp: batch_norm_check_input_shape_def container_ops not_less split: if_splits)

lemma batch_norm_shape_eqs:
  "batch_norm_get_output_shape attrs s = Inr u \<longleftrightarrow>
     batch_norm_check_input_shape attrs s = Inr None \<and> u = s"
  "batch_norm_get_gamma_weights_shape attrs s = Inr u \<longleftrightarrow>
     batch_norm_check_input_shape attrs s = Inr None \<and> bn_affine attrs \<and>
     u = TensorShape [ts_dims s ! 1] FLOAT"
  "batch_norm_get_beta_weights_shape attrs s = Inr u \<longleftrightarrow>
     batch_norm_get_gamma_weights_shape attrs s = Inr u"
  by (auto simp: batch_norm_get_output_shape_def batch_norm_get_gamma_weights_shape_def
      batch_norm_get_beta_weights_shape_def dim_at_rel_idx_def ff_ordered_at_rel_def vector_at_def
      batch_norm_shape_ok split: if_splits)

lemma batch_norm_degrees_ok:
  "batch_norm_check_input_degrees attrs d = Inr None \<longleftrightarrow>
     ptdd_sum_degree d = 1 \<and> ptdd_discard_copy_degree d = 1 \<and>
     (\<exists>c rest. ptdd_shard_degrees d = 1 # c # rest \<and> (\<forall>x \<in> set rest. x = 1))"
proof (cases "ptdd_shard_degrees d")
  case Nil
  then show ?thesis by (simp add: batch_norm_check_input_degrees_def)
next
  case (Cons n cs)
  then show ?thesis
    by (cases cs) (auto simp: batch_norm_check_input_degrees_def ff_ordered_slice_def slice_def
        slice_resolve_loc_def ff_ordered_concat_def Let_def split: if_splits)
qed

lemma batch_norm_degree_eqs:
  "batch_norm_get_output_parallel_dim_degrees attrs d = Inr e \<longleftrightarrow>
     batch_norm_check_input_degrees attrs d = Inr None \<and> e = d"
  "batch_norm_get_gamma_weights_parallel_dim_degrees attrs d = Inr e \<longleftrightarrow>
     batch_norm_check_input_degrees attrs d = Inr None \<and> bn_affine attrs \<and>
     e = ParallelTensorDimDegrees 1 1 [ptdd_shard_degrees d ! 1]"
  "batch_norm_get_beta_weights_parallel_dim_degrees attrs d = Inr e \<longleftrightarrow>
     batch_norm_get_gamma_weights_parallel_dim_degrees attrs d = Inr e"
  by (auto simp: batch_norm_get_output_parallel_dim_degrees_def
      batch_norm_get_gamma_weights_parallel_dim_degrees_def
      batch_norm_get_beta_weights_parallel_dim_degrees_def ff_ordered_at_rel_def vector_at_def
      batch_norm_degrees_ok split: if_splits)

interpretation batch_norm: degree_conserving "batch_norm_get_output_shape attrs"
    "batch_norm_get_output_parallel_dim_degrees attrs" "batch_norm_get_output_parallel_shape attrs"
    True for attrs
proof (unfold_locales, goal_cases)
  case (1 s t)
  show ?case by (auto simp: batch_norm_get_output_parallel_shape_def)
qed (auto simp: batch_norm_shape_eqs batch_norm_degree_eqs)

lemma batch_norm_gamma_degrees:
  assumes "batch_norm_get_gamma_weights_parallel_dim_degrees attrs d = Inr e" and "wf_degrees d"
  shows "wf_degrees e \<and> total_degree e = total_degree d"
proof -
  from assms(1) obtain c rest where d: "ptdd_sum_degree d = 1" "ptdd_discard_copy_degree d = 1"
    "ptdd_shard_degrees d = 1 # c # rest" "\<forall>x \<in> set rest. x = 1"
    and e: "e = ParallelTensorDimDegrees 1 1 [c]"
    by (auto simp: batch_norm_degree_eqs batch_norm_degrees_ok)
  moreover from d(4) have "prod_list rest = 1" using product_all_one [of rest] by simp
  ultimately show ?thesis using assms(2) by (simp add: total_degree_def wf_degrees_def)
qed

interpretation batch_norm_gamma: degree_conserving "batch_norm_get_gamma_weights_shape attrs"
    "batch_norm_get_gamma_weights_parallel_dim_degrees attrs"
    "batch_norm_get_gamma_weights_parallel_shape attrs" True for attrs
proof (unfold_locales, goal_cases)
  case (1 s t)
  show ?case by (auto simp: batch_norm_get_gamma_weights_parallel_shape_def)
next
  case (3 u u')
  then show ?case using wf_dims_nth [of "ts_dims u" 1]
    by (auto simp: batch_norm_shape_eqs batch_norm_shape_ok wf_shape_def)
next
  case (4 d d')
  then show ?case using batch_norm_gamma_degrees [of attrs d d'] by blast
next
  case (5 d d')
  then show ?case using batch_norm_gamma_degrees [of attrs d d'] by blast
qed (auto simp: batch_norm_shape_eqs batch_norm_degree_eqs)

interpretation batch_norm_beta: degree_conserving "batch_norm_get_beta_weights_shape attrs"
    "batch_norm_get_beta_weights_parallel_dim_degrees attrs"
    "batch_norm_get_beta_weights_parallel_shape attrs" True for attrs
proof (unfold_locales, goal_cases)
  case (1 s t)
  show ?case by (auto simp: batch_norm_get_beta_weights_parallel_shape_def)
next
  case (3 u u')
  from 3(2,3) show ?case
    using batch_norm_gamma.unpar_wf [of u attrs u'] by (simp only: batch_norm_shape_eqs(3))
next
  case (4 d d')
  from 4(2,3) show ?case using batch_norm_gamma_degrees [of attrs d d']
    by (simp only: batch_norm_degree_eqs(3))
next
  case (5 d d')
  from 5(2,3) show ?case using batch_norm_gamma_degrees [of attrs d d']
    by (simp only: batch_norm_degree_eqs(3))
qed (auto simp: batch_norm_shape_eqs batch_norm_degree_eqs)

text \<open>
  Layer norm and softmax, whose parallel inference does not go through degrees.
\<close>

lemma layer_norm_shape_ok:
  "layer_norm_check_input_shape attrs s = Inr None \<longleftrightarrow>
     (\<forall>axis \<in> set (ln_axes attrs). axis < length (ts_dims s) \<and> length (ts_dims s) \<le> MAX_TENSOR_DIM)"
proof -
  have "layer_norm_check_input_shape attrs s = Inr None \<longleftrightarrow>
      res_any_of (\<lambda>axis. res_bind (get_num_dims (ts_dims s)) (\<lambda>n. Inr (n \<le> axis))) (ln_axes attrs) =
        Inr False"
    by (auto simp: layer_norm_check_input_shape_def split: if_splits)
  then show ?thesis by (auto simp: res_any_of_False container_ops not_le)
qed

lemma layer_norm_parallel_shape_ok:
  "layer_norm_check_parallel_input_shape attrs s = Inr None \<longleftrightarrow>
     layer_norm_check_input_shape attrs (get_reduced_shape s) = Inr None \<and>
     get_sum_degree s = 1 \<and> get_discard_copy_degree s = 1 \<and>
     (\<forall>axis \<in> set (ln_axes attrs). axis < length (ptd_shard_dims (pts_dims s)) \<and>
        spd_degree (ptd_shard_dims (pts_dims s) ! axis) = 1)"
proof -
  have "layer_norm_check_parallel_input_shape attrs s = Inr None \<longleftrightarrow>
     layer_norm_check_input_shape attrs (get_reduced_shape s) = Inr None \<and>
     get_sum_degree s = 1 \<and> get_discard_copy_degree s = 1 \<and>
     res_all_of (\<lambda>axis. res_bind (shard_dim_at_idx s (relative_ff_dim_t_from_ff_dim_t axis)) (\<lambda>d.
         Inr (spd_degree d = 1))) (ln_axes attrs) = Inr True"
    by (auto simp: layer_norm_check_parallel_input_shape_def split: if_splits)
  then show ?thesis
    by (auto simp: res_all_of_True shard_dim_at_idx_def ptd_shard_dim_at_idx_def container_ops)
qed

lemma res_map_dim_at:
  "res_map (\<lambda>i. dim_at_rel_idx xs (relative_ff_dim_t_from_ff_dim_t i)) (filter p (ff_ordered_get_idxs xs)) =
     Inr (map (\<lambda>i. xs ! i) (filter p [0..<length xs]))"
  by (subst res_map_Inr_on [where g = "\<lambda>i. xs ! i"])
    (auto simp: dim_at_rel_idx_def container_ops ff_ordered_get_idxs_def)

lemma layer_norm_gamma_eq:
  "layer_norm_get_gamma_weights_shape attrs s = Inr u \<longleftrightarrow>
     layer_norm_check_input_shape attrs s = Inr None \<and> ln_elementwise_affine attrs \<and>
     u = TensorShape (map (\<lambda>i. ts_dims s ! i)
       (filter (\<lambda>i. i \<notin> set (ln_axes attrs)) [0..<length (ts_dims s)])) FLOAT"
  by (auto simp: layer_norm_get_gamma_weights_shape_def res_map_dim_at Let_def split: if_splits)

lemma layer_norm_gamma_parallel_eq:
  "layer_norm_get_gamma_weights_parallel_shape attrs s = Inr t \<longleftrightarrow>
     layer_norm_check_parallel_input_shape attrs s = Inr None \<and> ln_elementwise_affine attrs \<and>
     t = ParallelTensorShape (ParallelTensorDims (map (\<lambda>i. ptd_shard_dims (pts_dims s) ! i)
       (filter (\<lambda>i. i \<notin> set (ln_axes attrs)) [0..<length (ptd_shard_dims (pts_dims s))]))
       (ReplicaParallelDimSet 1 1)) FLOAT"
proof -
  let ?ds = "ptd_shard_dims (pts_dims s)" and ?p = "\<lambda>i. i \<notin> set (ln_axes attrs)"
  have "res_map (\<lambda>i. shard_dim_at_idx s (relative_ff_dim_t_from_ff_dim_t i))
      (filter ?p (ff_ordered_get_idxs ?ds)) = Inr (map (\<lambda>i. ?ds ! i) (filter ?p [0..<length ?ds]))"
    by (subst res_map_Inr_on [where g = "\<lambda>i. ?ds ! i"])
      (auto simp: shard_dim_at_idx_def ptd_shard_dim_at_idx_def container_ops ff_ordered_get_idxs_def)
  then show ?thesis
    by (auto simp: layer_norm_get_gamma_weights_parallel_shape_def Let_def split: if_splits)
qed

lemma layer_norm_beta_eqs:
  "layer_norm_get_beta_weights_shape attrs s = Inr u \<longleftrightarrow> layer_norm_get_gamma_weights_shape attrs s = Inr u"
  "layer_norm_get_beta_weights_parallel_shape attrs p = Inr t \<longleftrightarrow>
     layer_norm_get_gamma_weights_parallel_shape attrs p = Inr t"
  by (auto simp: layer_norm_get_beta_weights_shape_def layer_norm_get_beta_weights_parallel_shape_def
      layer_norm_gamma_eq layer_norm_gamma_parallel_eq)

lemma prod_list_filter_ones:
  "(\<And>x. x \<in> set xs \<Longrightarrow> \<not> p x \<Longrightarrow> f x = (1 :: nat)) \<Longrightarrow>
     prod_list (map f (filter p xs)) = prod_list (map f xs)"
  by (induction xs) auto

lemma layer_norm_refines:
  "layer_norm_get_output_parallel_shape attrs s = Inr t \<Longrightarrow>
     layer_norm_get_output_shape attrs (get_reduced_shape s) = Inr (get_reduced_shape t)"
  "layer_norm_get_gamma_weights_parallel_shape attrs s = Inr t \<Longrightarrow>
     layer_norm_get_gamma_weights_shape attrs (get_reduced_shape s) = Inr (get_reduced_shape t)"
  by (auto simp: layer_norm_get_output_parallel_shape_def layer_norm_get_output_shape_def
      layer_norm_parallel_shape_ok layer_norm_gamma_eq layer_norm_gamma_parallel_eq
      get_reduced_shape_def get_reduced_dims_def ff_ordered_transform_def)

lemma softmax_parallel_eq:
  "softmax_get_output_parallel_shape dim s = Inr t \<longleftrightarrow>
     softmax_get_output_shape dim (get_reduced_shape s) = Inr (get_reduced_shape s) \<and>
     get_sum_degree s = 1 \<and> get_discard_copy_degree s = 1 \<and>
     dim < length (ptd_shard_dims (pts_dims s)) \<and>
     spd_degree (ptd_shard_dims (pts_dims s) ! dim) = 1 \<and> t = s"
  by (auto simp: softmax_get_output_parallel_shape_def softmax_get_output_shape_def
      shard_dim_at_idx_def ptd_shard_dim_at_idx_def container_ops split: if_splits)

section \<open>Properties\<close>

text \<open>
  Layer norm keeps shape and placement: whenever the parallel inference of output and of
  the weight \<open>gamma\<close> succeeds, the output is the input, the reduced weight is what the sequential
  inference gives for the reduced input, the weight has the dimensions that are not normalised with
  their degrees, and it lies on as many devices as the input.
\<close>

theorem layer_norm_parallel_weights:
  assumes "layer_norm_get_gamma_weights_parallel_shape attrs s = Inr g" and "wf_pshape s"
  shows "layer_norm_get_output_parallel_shape attrs s = Inr s \<and>
    layer_norm_get_gamma_weights_shape attrs (get_reduced_shape s) = Inr (get_reduced_shape g) \<and>
    layer_norm_get_beta_weights_parallel_shape attrs s = Inr g \<and> wf_degrees (get_parallel_degrees g) \<and>
    (get_total_parallel_degree g = Inr n \<longleftrightarrow> get_total_parallel_degree s = Inr n)"
proof -
  let ?ds = "ptd_shard_dims (pts_dims s)" and ?p = "\<lambda>i. i \<notin> set (ln_axes attrs)"
  from assms(1) have ok: "layer_norm_check_parallel_input_shape attrs s = Inr None"
    and g: "g = ParallelTensorShape (ParallelTensorDims (map ((!) ?ds)
       (filter ?p [0..<length ?ds])) (ReplicaParallelDimSet 1 1)) FLOAT"
    by (simp_all add: layer_norm_gamma_parallel_eq)
  have out: "layer_norm_get_output_parallel_shape attrs s = Inr s"
    using ok by (simp add: layer_norm_get_output_parallel_shape_def)
  have rep: "get_sum_degree s = 1" "get_discard_copy_degree s = 1"
    and one: "\<And>i. i \<in> set (ln_axes attrs) \<Longrightarrow> spd_degree (?ds ! i) = 1"
    using ok by (auto simp: layer_norm_parallel_shape_ok)
  have wf_s: "wf_degrees (get_parallel_degrees s)" using assms(2) by (simp add: wf_pshape_def)
  then have wf_ds: "\<forall>d \<in> set ?ds. valid_pos (spd_degree d)" by (simp add: wf_degrees_def shape_ops)
  have deg_g: "get_parallel_degrees g = ParallelTensorDimDegrees 1 1
      (map (\<lambda>i. spd_degree (?ds ! i)) (filter ?p [0..<length ?ds]))"
    by (simp add: g get_parallel_degrees_def ptd_get_parallel_degrees_def
        ff_ordered_shard_degrees_def ff_ordered_transform_def comp_def)
  have wf_g: "wf_degrees (get_parallel_degrees g)"
    using wf_ds by (auto simp: deg_g wf_dims_def)
  have "prod_list (map (\<lambda>i. spd_degree (?ds ! i)) (filter ?p [0..<length ?ds])) =
      prod_list (map (\<lambda>i. spd_degree (?ds ! i)) [0..<length ?ds])"
    by (rule prod_list_filter_ones) (simp add: one)
  also have "map (\<lambda>i. spd_degree (?ds ! i)) [0..<length ?ds] = map spd_degree ?ds"
    by (rule nth_equalityI) simp_all
  finally have "total_degree (get_parallel_degrees g) = total_degree (get_parallel_degrees s)"
    by (simp add: deg_g total_degree_def shape_ops rep)
  then have "get_total_parallel_degree g = Inr n \<longleftrightarrow> get_total_parallel_degree s = Inr n"
    by (simp only: get_total_parallel_degree_eq total_degree_wf [OF wf_s] total_degree_wf [OF wf_g])
  with out wf_g layer_norm_refines(2) [OF assms(1)] assms(1) show ?thesis
    by (simp add: layer_norm_beta_eqs)
qed

theorem layer_norm_parallel_weights_witness:
  "get_total_parallel_degree (ParallelTensorShape (ParallelTensorDims
     [ShardParallelDim 6 3, ShardParallelDim 4 2] (ReplicaParallelDimSet 1 1)) FLOAT) = Inr 6"
proof -
  let ?attrs = "\<lparr> ln_axes = [1], ln_elementwise_affine = True, ln_eps = F_lit 1 0 \<rparr>"
  let ?s = "ParallelTensorShape (ParallelTensorDims
     [ShardParallelDim 6 3, ShardParallelDim 10 1, ShardParallelDim 4 2] (ReplicaParallelDimSet 1 1)) FLOAT"
  let ?g = "ParallelTensorShape (ParallelTensorDims
     [ShardParallelDim 6 3, ShardParallelDim 4 2] (ReplicaParallelDimSet 1 1)) FLOAT"
  have g: "layer_norm_get_gamma_weights_parallel_shape ?attrs ?s = Inr ?g"
    "get_total_parallel_degree ?s = Inr 6"
    by code_simp+
  have "wf_pshape ?s"
    by (simp add: wf_pshape_def wf_degrees_iff wf_shape_def shape_ops valid_pos_def INT_MAX_def
        get_sum_degree_def get_discard_copy_degree_def)
  from layer_norm_parallel_weights [OF g(1) this, of 6] g(2) show ?thesis by simp
qed

text \<open>
  Batch norm may be sharded over its channels only: its parallel inference succeeds exactly
  when the sequential one does and every degree but that of dimension 1 is 1; the output is then
  the input, and the weights are sharded like the channels and lie on as many devices as the input.
\<close>

theorem batch_norm_parallel_output:
  assumes "wf_pshape s"
  shows "(batch_norm_get_output_parallel_shape attrs s = Inr t \<longleftrightarrow>
       batch_norm_get_output_shape attrs (get_reduced_shape s) = Inr (get_reduced_shape s) \<and>
       get_sum_degree s = 1 \<and> get_discard_copy_degree s = 1 \<and>
       (\<forall>i < length (ptd_shard_dims (pts_dims s)). i \<noteq> 1 \<longrightarrow> spd_degree (ptd_shard_dims (pts_dims s) ! i) = 1) \<and>
       t = s) \<and>
    (batch_norm_get_gamma_weights_parallel_shape attrs s = Inr g \<longrightarrow>
       ptd_shard_dims (pts_dims g) = [ptd_shard_dims (pts_dims s) ! 1] \<and>
       (get_total_parallel_degree g = Inr n \<longleftrightarrow> get_total_parallel_degree s = Inr n))"
proof (rule conjI)
  let ?ds = "ptd_shard_dims (pts_dims s)"
  have ones: "(\<exists>c rest. map spd_degree ?ds = 1 # c # rest \<and> (\<forall>x \<in> set rest. x = 1)) \<longleftrightarrow>
      (\<forall>i < length ?ds. i \<noteq> 1 \<longrightarrow> spd_degree (?ds ! i) = 1)" if l: "2 \<le> length ?ds"
  proof -
    from l obtain a b cs where ds: "?ds = a # b # cs"
      by (cases ?ds; cases "tl ?ds") auto
    have "(\<forall>i < length ?ds. i \<noteq> 1 \<longrightarrow> spd_degree (?ds ! i) = 1) \<longleftrightarrow>
        spd_degree a = 1 \<and> (\<forall>i < length cs. spd_degree (cs ! i) = 1)"
      by (auto simp: ds All_less_Suc2 nth_Cons')
    then show ?thesis by (auto simp: ds set_conv_nth)
  qed
  show "batch_norm_get_output_parallel_shape attrs s = Inr t \<longleftrightarrow>
      batch_norm_get_output_shape attrs (get_reduced_shape s) = Inr (get_reduced_shape s) \<and>
      get_sum_degree s = 1 \<and> get_discard_copy_degree s = 1 \<and>
      (\<forall>i < length ?ds. i \<noteq> 1 \<longrightarrow> spd_degree (?ds ! i) = 1) \<and> t = s"
    using ones pshape_eqI [of t s]
    by (auto simp: batch_norm.par_iff batch_norm_shape_eqs batch_norm_degree_eqs
        batch_norm_degrees_ok batch_norm_shape_ok shape_ops)
  show "batch_norm_get_gamma_weights_parallel_shape attrs s = Inr g \<longrightarrow>
      ptd_shard_dims (pts_dims g) = [?ds ! 1] \<and>
      (get_total_parallel_degree g = Inr n \<longleftrightarrow> get_total_parallel_degree s = Inr n)"
  proof (intro impI conjI)
    assume g: "batch_norm_get_gamma_weights_parallel_shape attrs s = Inr g"
    show "get_total_parallel_degree g = Inr n \<longleftrightarrow> get_total_parallel_degree s = Inr n"
      by (rule batch_norm_gamma.par_total [OF TrueI assms g])
    from g have "1 < length ?ds"
      by (auto simp: batch_norm_gamma.par_eq batch_norm_shape_eqs batch_norm_shape_ok shape_ops)
    with g show "ptd_shard_dims (pts_dims g) = [?ds ! 1]"
      by (auto simp: batch_norm_gamma.par_eq batch_norm_shape_eqs batch_norm_degree_eqs shape_ops)
  qed
qed

theorem batch_norm_parallel_output_witness:
  "batch_norm_get_output_parallel_shape
     \<lparr> bn_relu = False, bn_affine = True, bn_eps = F_lit 1 0, bn_momentum = None \<rparr>
     (ParallelTensorShape (ParallelTensorDims [ShardParallelDim 6 1, ShardParallelDim 4 2]
       (ReplicaParallelDimSet 1 1)) FLOAT) =
   Inr (ParallelTensorShape (ParallelTensorDims [ShardParallelDim 6 1, ShardParallelDim 4 2]
       (ReplicaParallelDimSet 1 1)) FLOAT)"
proof -
  let ?attrs = "\<lparr> bn_relu = False, bn_affine = True, bn_eps = F_lit 1 0, bn_momentum = None \<rparr>"
  let ?s = "ParallelTensorShape (ParallelTensorDims [ShardParallelDim 6 1, ShardParallelDim 4 2]
       (ReplicaParallelDimSet 1 1)) FLOAT"
  have "wf_pshape ?s"
    by (simp add: wf_pshape_def wf_degrees_iff wf_shape_def shape_ops valid_pos_def INT_MAX_def
        get_sum_degree_def get_discard_copy_degree_def)
  from batch_norm_parallel_output [OF this, THEN conjunct1, of ?attrs ?s, THEN iffD2] show ?thesis
    by (simp add: batch_norm_shape_eqs batch_norm_shape_ok shape_ops MAX_TENSOR_DIM_def
        get_sum_degree_def get_discard_copy_degree_def All_less_Suc numeral_2_eq_2)
qed

text \<open>
  Normalisations without affine weights have none, but their weight inference is an error
  and not the empty map: with \<open>affine\<close> (\<open>elementwise_affine\<close>) false, the only incoming tensor is
  the input and the initializers are empty, while \<open>get_weight_shapes\<close> returns an error for every
  input that output inference accepts.
\<close>

theorem norm_without_affine_has_no_weight_shapes:
  assumes "\<not> bn_affine b" and "batch_norm_get_output_shape b s = Inr u"
    and "\<not> ln_elementwise_affine l" and "layer_norm_get_output_shape l s = Inr v"
  shows "dom (get_batch_norm_incoming_tensor_roles b) = {Slot_INPUT} \<and>
    batch_norm_get_initializers b = Inr Map.empty \<and>
    batch_norm_get_weight_shapes b s = Inl (Unexpected No_gamma_weights) \<and>
    dom (get_layer_norm_incoming_tensor_roles l) = {Slot_INPUT} \<and>
    layer_norm_get_initializers l = Map.empty \<and>
    layer_norm_get_weight_shapes l s = Inl (Unexpected No_gamma_weights)"
  using assms
  by (auto simp: get_batch_norm_incoming_tensor_roles_def batch_norm_get_initializers_def
      batch_norm_get_output_shape_def batch_norm_get_weight_shapes_def
      batch_norm_get_gamma_weights_shape_def get_layer_norm_incoming_tensor_roles_def
      layer_norm_get_initializers_def layer_norm_get_weight_shapes_def
      layer_norm_get_output_shape_def layer_norm_get_gamma_weights_shape_def unexpected_if_def)

theorem norm_without_affine_has_no_weight_shapes_witness:
  "batch_norm_get_weight_shapes
     \<lparr> bn_relu = False, bn_affine = False, bn_eps = F_lit 1 0, bn_momentum = None \<rparr>
     (TensorShape [6, 4] FLOAT) = Inl (Unexpected No_gamma_weights)"
proof -
  let ?b = "\<lparr> bn_relu = False, bn_affine = False, bn_eps = F_lit 1 0, bn_momentum = None \<rparr>"
  let ?l = "\<lparr> ln_axes = [1], ln_elementwise_affine = False, ln_eps = F_lit 1 0 \<rparr>"
  have "batch_norm_get_output_shape ?b (TensorShape [6, 4] FLOAT) = Inr (TensorShape [6, 4] FLOAT)"
    "layer_norm_get_output_shape ?l (TensorShape [6, 4] FLOAT) = Inr (TensorShape [6, 4] FLOAT)"
    by code_simp+
  from norm_without_affine_has_no_weight_shapes [OF _ this(1) _ this(2)] show ?thesis by simp
qed

end
