(* ===== verification/Op_Elementwise.thy ===== *)
theory Op_Elementwise
  imports Parallel_Inference
begin

text \<open>
  Operators that work element by element or only rename their input, of
  \<open>lib/op-attrs/src/op-attrs/ops\<close>: \<open>element_unary.cc\<close>, \<open>element_binary.cc\<close>, \<open>cast.cc\<close>,
  \<open>broadcast.cc\<close>, \<open>gather.cc\<close>, \<open>noop.cc\<close>, \<open>reverse.cc\<close>, \<open>reduce.cc\<close>, \<open>topk.cc\<close>, \<open>input.cc\<close> and
  \<open>weight.cc\<close>.
\<close>

section \<open>Element unary\<close>

definition make_relu_attrs :: element_unary_attrs where
  "make_relu_attrs = \<lparr> eu_op_type = Op_RELU, eu_scalar = None \<rparr>"

definition element_unary_get_output_shape :: "element_unary_attrs \<Rightarrow> tensor_shape \<Rightarrow> tensor_shape" where
  "element_unary_get_output_shape attrs input_shape = input_shape"

definition element_unary_get_output_parallel_dim_degrees ::
    "element_unary_attrs \<Rightarrow> parallel_tensor_dim_degrees \<Rightarrow> parallel_tensor_dim_degrees res" where
  "element_unary_get_output_parallel_dim_degrees attrs input_degrees =
     res_bind (ASSERT (ptdd_sum_degree input_degrees = 1)) (\<lambda>_. Inr input_degrees)"

definition element_unary_get_output_parallel_shape ::
    "element_unary_attrs \<Rightarrow> parallel_tensor_shape \<Rightarrow> parallel_tensor_shape res" where
  "element_unary_get_output_parallel_shape attrs input_shape =
     (let output_shape = element_unary_get_output_shape attrs (get_reduced_shape input_shape)
      in res_bind (element_unary_get_output_parallel_dim_degrees attrs
           (get_parallel_degrees input_shape)) (\<lambda>output_degrees.
         Inr (lift_to_parallel_with_dim_degrees output_shape output_degrees)))"

section \<open>Element binary\<close>

definition element_binary_get_output_shape ::
    "element_binary_attrs \<Rightarrow> tensor_shape \<Rightarrow> tensor_shape \<Rightarrow> tensor_shape res" where
  "element_binary_get_output_shape attrs input_lhs input_rhs =
     res_bind (ASSERT (\<not> eb_should_broadcast_lhs attrs \<and> \<not> eb_should_broadcast_rhs attrs)) (\<lambda>_.
     if eb_should_broadcast_lhs attrs then Inl Not_implemented
     else if eb_should_broadcast_rhs attrs then Inl Not_implemented
     else res_bind (ASSERT (input_lhs = input_rhs)) (\<lambda>_. Inr input_lhs))"

definition element_binary_get_output_parallel_dim_degrees ::
    "element_binary_attrs \<Rightarrow> parallel_tensor_dim_degrees \<Rightarrow> parallel_tensor_dim_degrees \<Rightarrow>
     parallel_tensor_dim_degrees res" where
  "element_binary_get_output_parallel_dim_degrees attrs lhs_input_degrees rhs_input_degrees =
     res_bind (ASSERT (\<not> eb_should_broadcast_lhs attrs \<and> \<not> eb_should_broadcast_rhs attrs)) (\<lambda>_.
     res_bind (ASSERT (lhs_input_degrees = rhs_input_degrees)) (\<lambda>_.
     if eb_should_broadcast_lhs attrs then Inl Not_implemented
     else if eb_should_broadcast_rhs attrs then Inl Not_implemented
     else
       res_bind (ASSERT (lhs_input_degrees = rhs_input_degrees)) (\<lambda>_.
       res_bind (case eb_type attrs of
           Op_EW_ADD \<Rightarrow> ASSERT (ptdd_discard_copy_degree lhs_input_degrees = 1)
         | Op_EW_SUB \<Rightarrow> Inl Not_implemented
         | Op_EW_MUL \<Rightarrow> Inl Not_implemented
         | Op_EW_DIV \<Rightarrow> Inl Not_implemented
         | Op_EW_MAX \<Rightarrow> Inl Not_implemented
         | Op_EW_MIN \<Rightarrow> Inl Not_implemented
         | _ \<Rightarrow> Inl Panicked) (\<lambda>_.
       Inr lhs_input_degrees))))"

definition element_binary_get_output_parallel_shape ::
    "element_binary_attrs \<Rightarrow> parallel_tensor_shape \<Rightarrow> parallel_tensor_shape \<Rightarrow>
     parallel_tensor_shape res" where
  "element_binary_get_output_parallel_shape attrs input_lhs input_rhs =
     res_bind (element_binary_get_output_shape attrs (get_reduced_shape input_lhs)
       (get_reduced_shape input_rhs)) (\<lambda>output_shape.
     res_bind (element_binary_get_output_parallel_dim_degrees attrs (get_parallel_degrees input_lhs)
       (get_parallel_degrees input_rhs)) (\<lambda>output_degrees.
     Inr (lift_to_parallel_with_dim_degrees output_shape output_degrees)))"

section \<open>Cast, broadcast and the operators that keep or refuse their input\<close>

definition cast_get_output_shape :: "data_type \<Rightarrow> tensor_shape \<Rightarrow> tensor_shape res" where
  "cast_get_output_shape dtype input = Inr (input\<lparr>ts_data_type := dtype\<rparr>)"

definition cast_get_output_parallel_shape ::
    "data_type \<Rightarrow> parallel_tensor_shape \<Rightarrow> parallel_tensor_shape res" where
  "cast_get_output_parallel_shape dtype input = Inr (input\<lparr>pts_data_type := dtype\<rparr>)"

definition broadcast_get_output_shape :: "tensor_dims \<Rightarrow> tensor_shape \<Rightarrow> tensor_shape res" where
  "broadcast_get_output_shape target_dims input_shape =
     res_bind (get_num_dims target_dims) (\<lambda>n_target.
     res_bind (get_num_dims (ts_dims input_shape)) (\<lambda>n_input.
     if n_target < n_input then Inl (Unexpected Wrong_num_dims)
     else
       res_bind (tensor_dims_is_broadcastable_to (ts_dims input_shape) target_dims) (\<lambda>b.
       if b then Inr (TensorShape target_dims (ts_data_type input_shape))
       else Inl (Unexpected Not_broadcastable))))"

definition broadcast_get_output_parallel_shape ::
    "tensor_dims \<Rightarrow> parallel_tensor_shape \<Rightarrow> parallel_tensor_shape res" where
  "broadcast_get_output_parallel_shape target_dims input_shape = Inl Not_implemented"

definition gather_get_output_shape :: "ff_dim_t \<Rightarrow> tensor_shape \<Rightarrow> tensor_shape \<Rightarrow> tensor_shape res" where
  "gather_get_output_shape dim input index = Inl Not_implemented"

definition gather_get_output_parallel_shape ::
    "ff_dim_t \<Rightarrow> parallel_tensor_shape \<Rightarrow> parallel_tensor_shape \<Rightarrow> parallel_tensor_shape res" where
  "gather_get_output_parallel_shape dim input index = Inl Not_implemented"

definition noop_get_output_shape :: "tensor_shape \<Rightarrow> tensor_shape" where
  "noop_get_output_shape input_shape = input_shape"

definition noop_get_output_parallel_shape :: "parallel_tensor_shape \<Rightarrow> parallel_tensor_shape" where
  "noop_get_output_parallel_shape input_shape = input_shape"

definition reverse_get_output_shape :: "ff_dim_t \<Rightarrow> tensor_shape \<Rightarrow> tensor_shape res" where
  "reverse_get_output_shape axis input_shape = Inl Not_implemented"

definition reverse_get_output_parallel_shape ::
    "ff_dim_t \<Rightarrow> parallel_tensor_shape \<Rightarrow> parallel_tensor_shape res" where
  "reverse_get_output_parallel_shape axis input_shape = Inl Not_implemented"

definition reduce_get_output_parallel_shape ::
    "reduce_attrs \<Rightarrow> parallel_tensor_shape \<Rightarrow> parallel_tensor_shape res" where
  "reduce_get_output_parallel_shape attrs input_shape = Inl Not_implemented"

definition topk_get_output_shape :: "topk_attrs \<Rightarrow> tensor_shape \<Rightarrow> tensor_shape res" where
  "topk_get_output_shape attrs input_shape = Inl Not_implemented"

definition topk_get_output_parallel_shape ::
    "topk_attrs \<Rightarrow> parallel_tensor_shape \<Rightarrow> parallel_tensor_shape res" where
  "topk_get_output_parallel_shape attrs input_shape = Inl Not_implemented"

definition input_get_output_shape :: "tensor_shape \<Rightarrow> tensor_shape" where
  "input_get_output_shape tensor_shape = tensor_shape"

definition input_get_output_parallel_tensor_shape :: "tensor_shape \<Rightarrow> parallel_tensor_shape res" where
  "input_get_output_parallel_tensor_shape tensor_shape = lift_to_parallel tensor_shape"

definition weight_get_output_shape :: "weight_attrs \<Rightarrow> tensor_shape" where
  "weight_get_output_shape attrs = weight_tensor_shape attrs"

definition weight_get_output_parallel_tensor_shape :: "weight_attrs \<Rightarrow> parallel_tensor_shape res" where
  "weight_get_output_parallel_tensor_shape attrs = lift_to_parallel (weight_tensor_shape attrs)"

section \<open>Lemmas\<close>

lemma element_unary_degrees_eq:
  "element_unary_get_output_parallel_dim_degrees attrs d = Inr e \<longleftrightarrow> ptdd_sum_degree d = 1 \<and> e = d"
  by (auto simp: element_unary_get_output_parallel_dim_degrees_def)

interpretation element_unary: degree_conserving "\<lambda>s. Inr (element_unary_get_output_shape attrs s)"
    "element_unary_get_output_parallel_dim_degrees attrs"
    "element_unary_get_output_parallel_shape attrs" True for attrs
proof (unfold_locales, goal_cases)
  case (1 s t)
  show ?case by (auto simp: element_unary_get_output_parallel_shape_def)
qed (auto simp: element_unary_get_output_shape_def element_unary_degrees_eq)

lemma element_unary_parallel_eq:
  "element_unary_get_output_parallel_shape attrs s = Inr t \<longleftrightarrow> get_sum_degree s = 1 \<and> t = s"
  using pshape_eqI [of t s]
  by (auto simp: element_unary.par_iff element_unary_get_output_shape_def element_unary_degrees_eq
      shape_ops)

lemma element_binary_shape_eq:
  "element_binary_get_output_shape attrs l r = Inr u \<longleftrightarrow>
     \<not> eb_should_broadcast_lhs attrs \<and> \<not> eb_should_broadcast_rhs attrs \<and> l = r \<and> u = l"
  by (auto simp: element_binary_get_output_shape_def res_bind_require split: if_splits)

lemma element_binary_degrees_eq:
  "element_binary_get_output_parallel_dim_degrees attrs d e = Inr f \<longleftrightarrow>
     \<not> eb_should_broadcast_lhs attrs \<and> \<not> eb_should_broadcast_rhs attrs \<and> d = e \<and>
     eb_type attrs = Op_EW_ADD \<and> ptdd_discard_copy_degree d = 1 \<and> f = d"
proof (cases "eb_type attrs = Op_EW_ADD")
  case True
  then show ?thesis
    by (auto simp: element_binary_get_output_parallel_dim_degrees_def res_bind_require split: if_splits)
next
  case False
  then have "(case eb_type attrs of
           Op_EW_ADD \<Rightarrow> ASSERT (ptdd_discard_copy_degree d = 1)
         | Op_EW_SUB \<Rightarrow> Inl Not_implemented | Op_EW_MUL \<Rightarrow> Inl Not_implemented
         | Op_EW_DIV \<Rightarrow> Inl Not_implemented | Op_EW_MAX \<Rightarrow> Inl Not_implemented
         | Op_EW_MIN \<Rightarrow> Inl Not_implemented | _ \<Rightarrow> Inl Panicked) \<noteq> Inr ()"
    by (cases "eb_type attrs") simp_all
  with False show ?thesis
    by (auto simp: element_binary_get_output_parallel_dim_degrees_def)
qed

interpretation element_binary: parallel_inference2 "element_binary_get_output_shape attrs"
    "element_binary_get_output_parallel_dim_degrees attrs"
    "element_binary_get_output_parallel_shape attrs" True for attrs
proof (unfold_locales, goal_cases)
  case (1 l r t)
  show ?case by (auto simp: element_binary_get_output_parallel_shape_def)
qed (auto simp: element_binary_shape_eq element_binary_degrees_eq)

lemma broadcast_shape_eq:
  "broadcast_get_output_shape target s = Inr u \<longleftrightarrow>
     length (ts_dims s) \<le> MAX_TENSOR_DIM \<and> length target \<le> MAX_TENSOR_DIM \<and>
     broadcastable (ts_dims s) target \<and> u = TensorShape target (ts_data_type s)"
  by (auto simp: broadcast_get_output_shape_def container_ops is_broadcastable_eq broadcastable_def
      split: if_splits)

lemma cast_refines:
  "cast_get_output_parallel_shape dtype s = Inr t \<Longrightarrow>
     cast_get_output_shape dtype (get_reduced_shape s) = Inr (get_reduced_shape t)"
  by (auto simp: cast_get_output_parallel_shape_def cast_get_output_shape_def get_reduced_shape_def)

lemma lift_to_parallel_eq:
  "lift_to_parallel u = Inr s \<longleftrightarrow> length (ts_dims u) \<le> MAX_TENSOR_DIM \<and>
     s = lift_to_parallel_with_dim_degrees u
       (ParallelTensorDimDegrees 1 1 (replicate (length (ts_dims u)) 1))"
  by (auto simp: lift_to_parallel_def ptd_lift_to_parallel_def container_ops
      lift_to_parallel_with_dim_degrees_def ptd_lift_to_parallel_with_dim_degrees_def
      repeat_element_eq_replicate)

lemma get_reduced_shape_lift_to_parallel: "lift_to_parallel u = Inr s \<Longrightarrow> get_reduced_shape s = u"
  by (auto simp: lift_to_parallel_eq intro!: get_reduced_shape_lift)

end
