(* ===== verification/Op_Matmul_Embedding.thy ===== *)
theory Op_Matmul_Embedding
  imports Parallel_Inference
begin

text \<open>
  Batched matrix multiplication and embedding, \<open>lib/op-attrs/src/op-attrs/ops/batch_matmul.cc\<close> and
  \<open>embedding.cc\<close>.
\<close>

section \<open>Batch matmul\<close>

definition batch_matmul_get_output_shape :: "tensor_shape \<Rightarrow> tensor_shape \<Rightarrow> tensor_shape res" where
  "batch_matmul_get_output_shape lhs rhs =
     res_bind (dim_at_rel_idx (ts_dims lhs) (- 2)) (\<lambda>lhs_row_dim.
     res_bind (dim_at_rel_idx (ts_dims lhs) (- 1)) (\<lambda>lhs_col_dim.
     res_bind (dim_at_rel_idx (ts_dims rhs) (- 2)) (\<lambda>rhs_row_dim.
     res_bind (dim_at_rel_idx (ts_dims rhs) (- 1)) (\<lambda>rhs_col_dim.
     res_bind (ASSERT (lhs_col_dim = rhs_row_dim)) (\<lambda>_.
     res_bind (ff_ordered_slice_rel (ts_dims lhs) 0 (Some (- 2))) (\<lambda>lhs_leading.
     res_bind (ff_ordered_slice_rel (ts_dims rhs) 0 (Some (- 2))) (\<lambda>rhs_leading.
     res_bind (require_same lhs_leading rhs_leading) (\<lambda>leading_dims.
     res_bind (require_same (ts_data_type lhs) (ts_data_type rhs)) (\<lambda>data_type.
     Inr (TensorShape (ff_ordered_concat [leading_dims, [lhs_row_dim, rhs_col_dim]]) data_type))))))))))"

definition batch_matmul_get_output_parallel_dim_degrees ::
    "parallel_tensor_dim_degrees \<Rightarrow> parallel_tensor_dim_degrees \<Rightarrow>
     parallel_tensor_dim_degrees res" where
  "batch_matmul_get_output_parallel_dim_degrees lhs rhs =
     res_bind (get_ptensor_dim_degrees_num_shard_dims lhs) (\<lambda>n.
     res_bind (ASSERT (n = 3)) (\<lambda>_.
     res_bind (get_ptensor_dim_degrees_num_shard_dims rhs) (\<lambda>m.
     res_bind (ASSERT (m = 3)) (\<lambda>_.
     res_bind (get_degree_for_parallel_tensor_dim_idx lhs (shard_dim_idx 0)) (\<lambda>lhs_batch.
     res_bind (get_degree_for_parallel_tensor_dim_idx rhs (shard_dim_idx 0)) (\<lambda>rhs_batch.
     res_bind (require_same lhs_batch rhs_batch) (\<lambda>batch_degree.
     res_bind (get_degree_for_parallel_tensor_dim_idx lhs (shard_dim_idx 2)) (\<lambda>lhs_red.
     res_bind (get_degree_for_parallel_tensor_dim_idx rhs (shard_dim_idx 1)) (\<lambda>rhs_red.
     res_bind (require_same lhs_red rhs_red) (\<lambda>reduction_parallelism_degree.
     res_bind (get_degree_for_parallel_tensor_dim_idx lhs (shard_dim_idx 1)) (\<lambda>lhs_row_degree.
     res_bind (get_degree_for_parallel_tensor_dim_idx rhs (shard_dim_idx 2)) (\<lambda>rhs_column_degree.
     res_bind (positive_int_mul lhs_row_degree (ptdd_sum_degree lhs)) (\<lambda>rhs_copies.
     res_bind (ASSERT (rhs_copies = ptdd_discard_copy_degree rhs)) (\<lambda>_.
     res_bind (positive_int_mul rhs_column_degree (ptdd_sum_degree rhs)) (\<lambda>lhs_copies.
     res_bind (ASSERT (lhs_copies = ptdd_discard_copy_degree lhs)) (\<lambda>_.
     res_bind (res_bind (positive_int_mul reduction_parallelism_degree (ptdd_sum_degree lhs)) (\<lambda>p.
       positive_int_mul p (ptdd_sum_degree rhs))) (\<lambda>sum_degree.
     Inr (ParallelTensorDimDegrees sum_degree 1
       [batch_degree, lhs_row_degree, rhs_column_degree]))))))))))))))))))"

definition batch_matmul_get_output_parallel_shape ::
    "parallel_tensor_shape \<Rightarrow> parallel_tensor_shape \<Rightarrow> parallel_tensor_shape res" where
  "batch_matmul_get_output_parallel_shape lhs rhs =
     res_bind (batch_matmul_get_output_shape (get_reduced_shape lhs) (get_reduced_shape rhs))
       (\<lambda>output_shape.
     res_bind (batch_matmul_get_output_parallel_dim_degrees (get_parallel_degrees lhs)
       (get_parallel_degrees rhs)) (\<lambda>output_degrees.
     Inr (lift_to_parallel_with_dim_degrees output_shape output_degrees)))"

section \<open>Embedding\<close>

definition embedding_basic_check :: "embedding_attrs \<Rightarrow> tensor_shape \<Rightarrow> reason option" where
  "embedding_basic_check attrs input =
     (if ts_data_type input \<noteq> INT32 \<and> ts_data_type input \<noteq> INT64 then Some Wrong_datatype
      else if embedding_aggr attrs \<noteq> Some Aggr_SUM then Some Unsupported_aggr
      else None)"

definition embedding_get_output_shape :: "embedding_attrs \<Rightarrow> tensor_shape \<Rightarrow> tensor_shape res" where
  "embedding_get_output_shape attrs input =
     res_bind (unexpected_if (embedding_basic_check attrs input)) (\<lambda>_.
     res_bind (ff_ordered_set_rel (ts_dims input) (- 1) (embedding_out_channels attrs)) (\<lambda>dims.
     Inr (TensorShape dims (embedding_data_type attrs))))"

definition embedding_get_weights_shape :: "embedding_attrs \<Rightarrow> tensor_shape \<Rightarrow> tensor_shape res" where
  "embedding_get_weights_shape attrs input =
     res_bind (unexpected_if (embedding_basic_check attrs input)) (\<lambda>_.
     Inr (TensorShape [embedding_num_entries attrs, embedding_out_channels attrs]
       (embedding_data_type attrs)))"

definition embedding_get_output_parallel_shape ::
    "embedding_attrs \<Rightarrow> parallel_tensor_shape \<Rightarrow> parallel_tensor_shape res" where
  "embedding_get_output_parallel_shape attrs input =
     res_bind (embedding_get_output_shape attrs (get_reduced_shape input)) (\<lambda>unpar.
     res_bind (shard_dim_at_idx input (- 1)) (\<lambda>last_dim.
     let sum_degree = spd_degree last_dim;
         discard_copy_degree = 1;
         shard_degrees = ff_ordered_transform spd_degree (ptd_shard_dims (pts_dims input))
     in res_bind (ff_ordered_set_rel shard_degrees (- 1) (get_discard_copy_degree input)) (\<lambda>shard_degrees.
        Inr (lift_to_parallel_with_degrees unpar sum_degree discard_copy_degree shard_degrees))))"

definition embedding_get_weights_parallel_shape ::
    "embedding_attrs \<Rightarrow> parallel_tensor_shape \<Rightarrow> parallel_tensor_shape res" where
  "embedding_get_weights_parallel_shape attrs input =
     res_bind (embedding_get_weights_shape attrs (get_reduced_shape input)) (\<lambda>unpar.
     res_bind (product (ff_ordered_transform spd_degree (ptd_shard_dims (pts_dims input))))
       (\<lambda>discard_copy_degree.
     let sum_degree = 1;
         entry_dim_degree = 1;
         out_channel_degree = get_discard_copy_degree input;
         shard_degrees = [entry_dim_degree, out_channel_degree]
     in Inr (lift_to_parallel_with_degrees unpar sum_degree discard_copy_degree shard_degrees)))"

definition embedding_get_initializers ::
    "embedding_attrs \<Rightarrow> initializer_attrs option \<Rightarrow> (tensor_slot_name \<rightharpoonup> initializer_attrs)" where
  "embedding_get_initializers attrs maybe_initializer_attrs =
     (let default_initializer_attrs = Init_normal
        \<lparr> ni_seed = 0, ni_mean = F_lit 0 0, ni_stddev = F_lit 1 0 \<rparr>
      in [Slot_WEIGHT \<mapsto> (case maybe_initializer_attrs of
           Some i \<Rightarrow> i | None \<Rightarrow> default_initializer_attrs)])"

section \<open>Lemmas\<close>

lemma rev_cases2:
  assumes "2 \<le> length xs"
  obtains ys a b where "xs = ys @ [a, b]"
proof -
  from assms obtain ys b where "xs = ys @ [b]" by (cases xs rule: rev_cases) auto
  with assms obtain zs a where "xs = zs @ [a, b]" by (cases ys rule: rev_cases) auto
  with that show ?thesis by blast
qed

lemma rel_idx_append2:
  "dim_at_rel_idx (ds @ [a, b]) (- 1) = Inr b" "dim_at_rel_idx (ds @ [a, b]) (- 2) = Inr a"
  "ff_ordered_slice_rel (ds @ [a, b]) 0 (Some (- 2)) = Inr ds"
  by (simp_all add: dim_at_rel_idx_def ff_ordered_at_rel_def vector_at_def nth_append
      ff_ordered_slice_rel_def slice_def slice_resolve_loc_def nat_add_distrib)

lemma dim_at_rel_idx_m2: "dim_at_rel_idx ds (- 2) = Inr d \<Longrightarrow> 2 \<le> length ds"
  by (auto simp: dim_at_rel_idx_def ff_ordered_at_rel_def vector_at_def split: if_splits)

lemma batch_matmul_shape_eq:
  "batch_matmul_get_output_shape l r = Inr u \<longleftrightarrow>
     (\<exists>lead m k n. ts_dims l = lead @ [m, k] \<and> ts_dims r = lead @ [k, n] \<and>
        ts_data_type l = ts_data_type r \<and> u = TensorShape (lead @ [m, n]) (ts_data_type l))"
proof
  assume e: "batch_matmul_get_output_shape l r = Inr u"
  then have "2 \<le> length (ts_dims l)" "2 \<le> length (ts_dims r)"
    by (auto simp: batch_matmul_get_output_shape_def dest: dim_at_rel_idx_m2)
  then obtain ys a b zs c d where "ts_dims l = ys @ [a, b]" "ts_dims r = zs @ [c, d]"
    by (metis rev_cases2)
  with e show "\<exists>lead m k n. ts_dims l = lead @ [m, k] \<and> ts_dims r = lead @ [k, n] \<and>
        ts_data_type l = ts_data_type r \<and> u = TensorShape (lead @ [m, n]) (ts_data_type l)"
    by (auto simp: batch_matmul_get_output_shape_def rel_idx_append2 require_same_eq
        ff_ordered_concat_def)
qed (auto simp: batch_matmul_get_output_shape_def rel_idx_append2 require_same_eq
    ff_ordered_concat_def)

lemma batch_matmul_degrees_eq:
  "batch_matmul_get_output_parallel_dim_degrees d e = Inr f \<longleftrightarrow>
     (\<exists>b m k n p s. ptdd_shard_degrees d = [b, m, k] \<and> ptdd_shard_degrees e = [b, k, n] \<and>
        positive_int_mul m (ptdd_sum_degree d) = Inr (ptdd_discard_copy_degree e) \<and>
        positive_int_mul n (ptdd_sum_degree e) = Inr (ptdd_discard_copy_degree d) \<and>
        positive_int_mul k (ptdd_sum_degree d) = Inr p \<and>
        positive_int_mul p (ptdd_sum_degree e) = Inr s \<and>
        f = ParallelTensorDimDegrees s 1 [b, m, n])"
  by (auto simp: batch_matmul_get_output_parallel_dim_degrees_def length_3_conv container_ops
      get_ptensor_dim_degrees_num_shard_dims_def num_elements_def nonnegative_int_from_size_eq
      shard_dim_idx_def numeral_2_eq_2 INT_MAX_def)

interpretation batch_matmul: parallel_inference2 batch_matmul_get_output_shape
    batch_matmul_get_output_parallel_dim_degrees batch_matmul_get_output_parallel_shape True
proof (unfold_locales, goal_cases)
  case (1 l r t)
  show ?case by (auto simp: batch_matmul_get_output_parallel_shape_def)
next
  case (3 u v w)
  then show ?case by (auto simp: batch_matmul_shape_eq wf_shape_def)
next
  case (4 d e f)
  then show ?case by (auto simp: batch_matmul_degrees_eq wf_degrees_iff valid_pos_mul)
qed (auto simp: batch_matmul_shape_eq batch_matmul_degrees_eq)

lemma batch_matmul_degrees_total:
  "batch_matmul_get_output_parallel_dim_degrees d e = Inr f \<Longrightarrow>
     total_degree f = total_degree d \<and> total_degree f = total_degree e"
  by (auto simp: batch_matmul_degrees_eq total_degree_def positive_int_mul_eq)

lemma embedding_shape_eqs:
  "embedding_get_output_shape attrs s = Inr u \<longleftrightarrow>
     embedding_basic_check attrs s = None \<and> ts_dims s \<noteq> [] \<and>
     u = TensorShape (butlast (ts_dims s) @ [embedding_out_channels attrs]) (embedding_data_type attrs)"
  "embedding_get_weights_shape attrs s = Inr u \<longleftrightarrow>
     embedding_basic_check attrs s = None \<and>
     u = TensorShape [embedding_num_entries attrs, embedding_out_channels attrs]
       (embedding_data_type attrs)"
  by (auto simp: embedding_get_output_shape_def embedding_get_weights_shape_def container_ops)

text \<open>The degrees that the embedding computes, as functions of the input's degrees.\<close>

definition embedding_output_degrees ::
    "parallel_tensor_dim_degrees \<Rightarrow> parallel_tensor_dim_degrees res" where
  "embedding_output_degrees d =
     (if ptdd_shard_degrees d = [] then Inl Out_of_range
      else Inr (ParallelTensorDimDegrees (last (ptdd_shard_degrees d)) 1
        (butlast (ptdd_shard_degrees d) @ [ptdd_discard_copy_degree d])))"

definition embedding_weights_degrees ::
    "parallel_tensor_dim_degrees \<Rightarrow> parallel_tensor_dim_degrees res" where
  "embedding_weights_degrees d =
     res_bind (product (ptdd_shard_degrees d)) (\<lambda>p.
     Inr (ParallelTensorDimDegrees 1 p [1, ptdd_discard_copy_degree d]))"

definition wf_embedding_attrs :: "embedding_attrs \<Rightarrow> bool" where
  "wf_embedding_attrs attrs \<longleftrightarrow>
     valid_pos (embedding_num_entries attrs) \<and> valid_pos (embedding_out_channels attrs)"

interpretation embedding_output: wf_inference "embedding_get_output_shape attrs"
    embedding_output_degrees "embedding_get_output_parallel_shape attrs" "wf_embedding_attrs attrs"
  for attrs
proof (unfold_locales, goal_cases)
  case (1 s t)
  show ?case
    by (auto simp: embedding_get_output_parallel_shape_def shard_dim_at_idx_def
        ptd_shard_dim_at_idx_def container_ops Let_def lift_with_degrees_eq
        embedding_output_degrees_def shape_ops ff_ordered_transform_def last_map map_butlast
        embedding_shape_eqs)
next
  case (3 u u')
  then show ?case using wf_butlast_last [of "ts_dims u"]
    by (auto simp: embedding_shape_eqs wf_embedding_attrs_def wf_shape_def)
next
  case (4 d d')
  then show ?case using wf_butlast_last [of "ptdd_shard_degrees d"]
    by (auto simp: embedding_output_degrees_def wf_degrees_iff split: if_splits)
qed (auto simp: embedding_shape_eqs embedding_output_degrees_def split: if_splits)

interpretation embedding_weights: wf_inference "embedding_get_weights_shape attrs"
    embedding_weights_degrees "embedding_get_weights_parallel_shape attrs" "wf_embedding_attrs attrs"
  for attrs
proof (unfold_locales, goal_cases)
  case (1 s t)
  show ?case
    by (auto simp: embedding_get_weights_parallel_shape_def Let_def lift_with_degrees_eq
        embedding_weights_degrees_def shape_ops ff_ordered_transform_def)
next
  case (4 d d')
  then show ?case
    by (auto simp: embedding_weights_degrees_def wf_degrees_iff valid_pos_product)
qed (auto simp: embedding_shape_eqs embedding_weights_degrees_def wf_embedding_attrs_def)

lemma embedding_output_total:
  assumes "embedding_output_degrees d = Inr e"
  shows "total_degree e = ptdd_discard_copy_degree d * prod_list (ptdd_shard_degrees d)"
proof -
  let ?xs = "ptdd_shard_degrees d"
  from assms have ne: "?xs \<noteq> []"
    and e: "e = ParallelTensorDimDegrees (last ?xs) 1 (butlast ?xs @ [ptdd_discard_copy_degree d])"
    by (simp_all add: embedding_output_degrees_def split: if_splits)
  have "total_degree e = ptdd_discard_copy_degree d * (prod_list (butlast ?xs) * last ?xs)"
    by (simp add: e)
  then show ?thesis by (simp only: prod_list_butlast_last [OF ne])
qed

lemma embedding_weights_total:
  "embedding_weights_degrees d = Inr e \<Longrightarrow>
     total_degree e = ptdd_discard_copy_degree d * prod_list (ptdd_shard_degrees d)"
  by (auto simp: embedding_weights_degrees_def product_eq)

section \<open>Properties\<close>

text \<open>
  Claim C6. Batch matmul: when the parallel output shape of two well-formed inputs is inferred, the
  shapes multiply (\<open>[.., m, k]\<close> by \<open>[.., k, n]\<close> gives \<open>[.., m, n]\<close>), the output is well-formed, it
  is summed over the devices among which the inner dimension is sharded or the inputs are summed,
  and the output, the left and the right input have the same total parallel degree.
\<close>

theorem batch_matmul_conserves_parallel_degree:
  assumes "wf_pshape l" and "wf_pshape r" and "batch_matmul_get_output_parallel_shape l r = Inr t"
  shows "(\<exists>lead m k n. ts_dims (get_reduced_shape l) = lead @ [m, k] \<and>
       ts_dims (get_reduced_shape r) = lead @ [k, n] \<and> ts_dims (get_reduced_shape t) = lead @ [m, n]) \<and>
    wf_pshape t \<and>
    get_sum_degree t = spd_degree (last (ptd_shard_dims (pts_dims l))) * get_sum_degree l * get_sum_degree r \<and>
    (get_total_parallel_degree t = Inr x \<longleftrightarrow> get_total_parallel_degree l = Inr x) \<and>
    (get_total_parallel_degree t = Inr x \<longleftrightarrow> get_total_parallel_degree r = Inr x)"
proof -
  note parts = batch_matmul.par_parts [OF assms(3)]
  have wf_t: "wf_pshape t" by (rule batch_matmul.par_wf [OF TrueI assms])
  have w: "wf_degrees (get_parallel_degrees l)" "wf_degrees (get_parallel_degrees r)"
    "wf_degrees (get_parallel_degrees t)"
    using assms(1,2) wf_t by (simp_all add: wf_pshape_def)
  have tot: "get_total_parallel_degree t = Inr x \<longleftrightarrow> get_total_parallel_degree l = Inr x"
    "get_total_parallel_degree t = Inr x \<longleftrightarrow> get_total_parallel_degree r = Inr x"
    using batch_matmul_degrees_total [OF parts(2)]
    by (simp_all only: get_total_parallel_degree_eq total_degree_wf [OF w(1)]
        total_degree_wf [OF w(2)] total_degree_wf [OF w(3)]) metis+
  from parts(2) obtain b m k n p s where
    d: "map spd_degree (ptd_shard_dims (pts_dims l)) = [b, m, k]"
      "positive_int_mul k (get_sum_degree l) = Inr p" "positive_int_mul p (get_sum_degree r) = Inr s"
      "get_parallel_degrees t = ParallelTensorDimDegrees s 1 [b, m, n]"
    by (auto simp: batch_matmul_degrees_eq shape_ops)
  have "spd_degree (last (ptd_shard_dims (pts_dims l))) = last (map spd_degree (ptd_shard_dims (pts_dims l)))"
    using d(1) by (intro last_map [symmetric]) auto
  then have "spd_degree (last (ptd_shard_dims (pts_dims l))) = k" using d(1) by simp
  moreover have "get_sum_degree t = s"
    using arg_cong [OF d(4), of ptdd_sum_degree] by (simp add: shape_ops)
  ultimately have "get_sum_degree t =
      spd_degree (last (ptd_shard_dims (pts_dims l))) * get_sum_degree l * get_sum_degree r"
    using d(2,3) by (simp add: positive_int_mul_eq)
  moreover from parts(1) have "\<exists>lead m k n. ts_dims (get_reduced_shape l) = lead @ [m, k] \<and>
       ts_dims (get_reduced_shape r) = lead @ [k, n] \<and> ts_dims (get_reduced_shape t) = lead @ [m, n]"
    by (auto simp: batch_matmul_shape_eq)
  ultimately show ?thesis using wf_t tot by blast
qed

theorem batch_matmul_conserves_parallel_degree_witness:
  "get_total_parallel_degree (ParallelTensorShape (ParallelTensorDims
     [ShardParallelDim 4 2, ShardParallelDim 6 3, ShardParallelDim 10 5] (ReplicaParallelDimSet 2 1)) FLOAT) =
   Inr 60"
proof -
  let ?l = "ParallelTensorShape (ParallelTensorDims
     [ShardParallelDim 4 2, ShardParallelDim 6 3, ShardParallelDim 8 2] (ReplicaParallelDimSet 1 5)) FLOAT"
  let ?r = "ParallelTensorShape (ParallelTensorDims
     [ShardParallelDim 4 2, ShardParallelDim 8 2, ShardParallelDim 10 5] (ReplicaParallelDimSet 1 3)) FLOAT"
  let ?t = "ParallelTensorShape (ParallelTensorDims
     [ShardParallelDim 4 2, ShardParallelDim 6 3, ShardParallelDim 10 5] (ReplicaParallelDimSet 2 1)) FLOAT"
  have "wf_pshape ?l" "wf_pshape ?r"
    by (simp_all add: wf_pshape_def wf_degrees_iff wf_shape_def shape_ops valid_pos_def INT_MAX_def
        get_sum_degree_def get_discard_copy_degree_def)
  moreover have "batch_matmul_get_output_parallel_shape ?l ?r = Inr ?t"
    "get_total_parallel_degree ?l = Inr 60"
    by code_simp+
  ultimately show ?thesis using batch_matmul_conserves_parallel_degree [of ?l ?r ?t 60] by simp
qed

text \<open>
  Embedding forgets the sum degree of its input: the parallel inference of output and
  weights never reads it, so for every well-formed input the devices of the input are the devices
  of the output times the sum degree, and likewise for the weights. An input that is a partial sum
  is accepted, although looking up partial sums of indices is not looking up their sum.
\<close>

theorem embedding_ignores_sum_degree:
  assumes "wf_embedding_attrs attrs" and "wf_pshape s"
    and "embedding_get_output_parallel_shape attrs s = Inr t"
    and "embedding_get_weights_parallel_shape attrs s = Inr w"
    and "get_total_parallel_degree s = Inr n"
  shows "wf_pshape t \<and> wf_pshape w \<and>
    (\<exists>m. get_total_parallel_degree t = Inr m \<and> get_total_parallel_degree w = Inr m \<and>
      n = get_sum_degree s * m)"
proof -
  have wf: "wf_pshape t" "wf_pshape w"
    using embedding_output.par_wf [OF assms(1-3)] embedding_weights.par_wf [OF assms(1,2,4)] by blast+
  let ?ds = "get_parallel_degrees s" and ?dt = "get_parallel_degrees t" and ?dw = "get_parallel_degrees w"
  let ?xs = "ptdd_shard_degrees ?ds"
  have w: "wf_degrees ?ds" "wf_degrees ?dt" "wf_degrees ?dw"
    using assms(2) wf by (simp_all add: wf_pshape_def)
  have e: "embedding_output_degrees ?ds = Inr ?dt" "embedding_weights_degrees ?ds = Inr ?dw"
    using embedding_output.par_parts(2) [OF assms(3)] embedding_weights.par_parts(2) [OF assms(4)]
    by simp_all
  let ?m = "ptdd_discard_copy_degree ?ds * prod_list ?xs"
  have m: "total_degree ?dt = ?m" "total_degree ?dw = ?m"
    using embedding_output_total [OF e(1)] embedding_weights_total [OF e(2)] .
  have "n = total_degree ?ds \<and> total_degree ?ds \<le> INT_MAX"
    using assms(5) unfolding get_total_parallel_degree_eq total_degree_wf [OF w(1)] .
  moreover have "total_degree ?ds = get_sum_degree s * ?m"
    by (simp add: total_degree_def shape_ops)
  ultimately have n: "n = get_sum_degree s * ?m" "get_sum_degree s * ?m \<le> INT_MAX" by simp_all
  have "0 < get_sum_degree s" using wf_degreesD(1) [OF w(1)] by (simp add: shape_ops)
  then have le: "?m \<le> INT_MAX" using n(2) by (rule mult_bound_right)
  have "get_total_parallel_degree t = Inr ?m"
    unfolding get_total_parallel_degree_eq total_degree_wf [OF w(2)] m(1) using le by simp
  moreover have "get_total_parallel_degree w = Inr ?m"
    unfolding get_total_parallel_degree_eq total_degree_wf [OF w(3)] m(2) using le by simp
  ultimately show ?thesis using n(1) wf by blast
qed

theorem embedding_ignores_sum_degree_witness:
  "\<exists>t. embedding_get_output_parallel_shape
       \<lparr> embedding_num_entries = 100, embedding_out_channels = 12, embedding_aggr = Some Aggr_SUM,
         embedding_data_type = FLOAT \<rparr>
       (ParallelTensorShape (ParallelTensorDims [ShardParallelDim 6 3, ShardParallelDim 4 1]
         (ReplicaParallelDimSet 2 4)) INT32) = Inr t \<and>
     get_total_parallel_degree t = Inr 12"
proof -
  let ?a = "\<lparr> embedding_num_entries = 100, embedding_out_channels = 12, embedding_aggr = Some Aggr_SUM,
         embedding_data_type = FLOAT \<rparr>"
  let ?s = "ParallelTensorShape (ParallelTensorDims [ShardParallelDim 6 3, ShardParallelDim 4 1]
         (ReplicaParallelDimSet 2 4)) INT32"
  let ?t = "ParallelTensorShape (ParallelTensorDims [ShardParallelDim 6 3, ShardParallelDim 12 4]
         (ReplicaParallelDimSet 1 1)) FLOAT"
  let ?w = "ParallelTensorShape (ParallelTensorDims [ShardParallelDim 100 1, ShardParallelDim 12 4]
         (ReplicaParallelDimSet 1 3)) FLOAT"
  have c: "embedding_get_output_parallel_shape ?a ?s = Inr ?t"
    "embedding_get_weights_parallel_shape ?a ?s = Inr ?w" "get_total_parallel_degree ?s = Inr 24"
    by code_simp+
  have "wf_embedding_attrs ?a" "wf_pshape ?s"
    by (simp_all add: wf_embedding_attrs_def wf_pshape_def wf_degrees_iff wf_shape_def shape_ops
        valid_pos_def INT_MAX_def get_sum_degree_def get_discard_copy_degree_def)
  from embedding_ignores_sum_degree [OF this c] obtain m where
    m: "get_total_parallel_degree ?t = Inr m" "24 = get_sum_degree ?s * m" by blast
  have "get_sum_degree ?s = 2" by (simp add: get_sum_degree_def)
  with m(2) have "m = 12" by simp
  with c(1) m(1) show ?thesis by blast
qed

end
