(* ===== verification/Op_Resharding.thy ===== *)
theory Op_Resharding
  imports Parallel_Inference
begin

text \<open>
  The operators that change only how a tensor is parallel,
  \<open>lib/op-attrs/src/op-attrs/ops/combine.cc\<close>, \<open>repartition.cc\<close>, \<open>reduction.cc\<close> and \<open>replicate.cc\<close>,
  with the dispatch of \<open>parallel_op_attrs.cc\<close>. The locale \<open>resharding\<close> is their contract: the
  reduced shape stays, one degree changes by a factor.
\<close>

section \<open>Definitions\<close>

definition combine_get_output_parallel_shape ::
    "combine_attrs \<Rightarrow> parallel_tensor_shape \<Rightarrow> parallel_tensor_shape res" where
  "combine_get_output_parallel_shape attrs input =
     res_bind (shard_dim_at_idx input (relative_ff_dim_t_from_ff_dim_t (combine_dim attrs)))
       (\<lambda>input_dim.
     res_bind (positive_int_mod (spd_degree input_dim) (combine_degree attrs)) (\<lambda>r.
     res_bind (ASSERT (r = 0)) (\<lambda>_.
     let output = input;
         dim = relative_ff_dim_t_from_ff_dim_t (combine_dim attrs)
     in res_bind (shard_dim_at_idx output dim) (\<lambda>d.
        res_bind (positive_int_div (spd_degree d) (combine_degree attrs)) (\<lambda>q.
        res_bind (positive_int_from_nonnegative q) (\<lambda>degree.
        set_shard_dim_at_idx output dim (d\<lparr>spd_degree := degree\<rparr>)))))))"

definition repartition_get_output_parallel_shape ::
    "repartition_attrs \<Rightarrow> parallel_tensor_shape \<Rightarrow> parallel_tensor_shape res" where
  "repartition_get_output_parallel_shape attrs input_shape =
     res_bind (ASSERT (idx_is_valid (ptd_shard_dims (pts_dims input_shape)) (repartition_dim attrs)))
       (\<lambda>_.
     let dim = relative_ff_dim_t_from_ff_dim_t (repartition_dim attrs)
     in res_bind (shard_dim_at_idx input_shape dim) (\<lambda>d.
        res_bind (positive_int_mul (spd_degree d) (repartition_degree attrs)) (\<lambda>degree.
        set_shard_dim_at_idx input_shape dim (d\<lparr>spd_degree := degree\<rparr>))))"

definition set_sum_degree :: "parallel_tensor_shape \<Rightarrow> positive_int \<Rightarrow> parallel_tensor_shape" where
  "set_sum_degree s x =
     s\<lparr>pts_dims := (pts_dims s)\<lparr>ptd_replica_dims :=
       (ptd_replica_dims (pts_dims s))\<lparr>rps_sum_degree := x\<rparr>\<rparr>\<rparr>"

definition set_discard_copy_degree :: "parallel_tensor_shape \<Rightarrow> positive_int \<Rightarrow> parallel_tensor_shape" where
  "set_discard_copy_degree s x =
     s\<lparr>pts_dims := (pts_dims s)\<lparr>ptd_replica_dims :=
       (ptd_replica_dims (pts_dims s))\<lparr>rps_discard_copy_degree := x\<rparr>\<rparr>\<rparr>"

definition reduction_get_output_shape ::
    "positive_int \<Rightarrow> parallel_tensor_shape \<Rightarrow> parallel_tensor_shape res" where
  "reduction_get_output_shape reduction_degree input_shape =
     res_bind (positive_int_mod (get_sum_degree input_shape) reduction_degree) (\<lambda>r.
     if r \<noteq> 0 then Inl (Unexpected Not_divisible)
     else
       res_bind (positive_int_div (get_sum_degree input_shape) reduction_degree) (\<lambda>q.
       res_bind (positive_int_from_nonnegative q) (\<lambda>sum_degree.
       Inr (set_sum_degree input_shape sum_degree))))"

definition replicate_get_output_shape ::
    "positive_int \<Rightarrow> parallel_tensor_shape \<Rightarrow> parallel_tensor_shape res" where
  "replicate_get_output_shape replicate_degree input_shape =
     res_bind (positive_int_mul (get_discard_copy_degree input_shape) replicate_degree) (\<lambda>degree.
     Inr (set_discard_copy_degree input_shape degree))"

fun parallel_op_get_output_shape ::
    "parallel_op_attrs \<Rightarrow> parallel_tensor_shape \<Rightarrow> parallel_tensor_shape res" where
  "parallel_op_get_output_shape (Parallel_combine attrs) input_shape =
     combine_get_output_parallel_shape attrs input_shape"
| "parallel_op_get_output_shape (Parallel_reduction degree) input_shape =
     throw_if_unexpected (reduction_get_output_shape degree input_shape)"
| "parallel_op_get_output_shape (Parallel_repartition attrs) input_shape =
     repartition_get_output_parallel_shape attrs input_shape"
| "parallel_op_get_output_shape (Parallel_replicate degree) input_shape =
     replicate_get_output_shape degree input_shape"

section \<open>Lemmas\<close>

lemma shard_dim_at_nat:
  "shard_dim_at_idx s (relative_ff_dim_t_from_ff_dim_t i) = Inr d \<longleftrightarrow>
     i < length (ptd_shard_dims (pts_dims s)) \<and> d = ptd_shard_dims (pts_dims s) ! i"
  by (simp add: shard_dim_at_idx_def ptd_shard_dim_at_idx_def container_ops)

lemma set_shard_dim_at_nat:
  "set_shard_dim_at_idx s (relative_ff_dim_t_from_ff_dim_t i) d = Inr t \<longleftrightarrow>
     i < length (ptd_shard_dims (pts_dims s)) \<and>
     t = s\<lparr>pts_dims := (pts_dims s)\<lparr>ptd_shard_dims := (ptd_shard_dims (pts_dims s))[i := d]\<rparr>\<rparr>"
  by (auto simp: set_shard_dim_at_idx_def ptd_set_shard_dim_at_idx_def container_ops)

text \<open>Changing one degree.\<close>

definition set_shard_degree :: "parallel_tensor_shape \<Rightarrow> nat \<Rightarrow> positive_int \<Rightarrow> parallel_tensor_shape" where
  "set_shard_degree s i x =
     s\<lparr>pts_dims := (pts_dims s)\<lparr>ptd_shard_dims :=
       (ptd_shard_dims (pts_dims s))[i := (ptd_shard_dims (pts_dims s) ! i)\<lparr>spd_degree := x\<rparr>]\<rparr>\<rparr>"

lemma map_spd_size_update:
  "i < length ds \<Longrightarrow> map spd_size (ds[i := (ds ! i)\<lparr>spd_degree := x\<rparr>]) = map spd_size ds"
  by (simp add: map_update list_update_same_conv)

lemma get_reduced_shape_sets [simp]:
  "get_reduced_shape (set_sum_degree s x) = get_reduced_shape s"
  "get_reduced_shape (set_discard_copy_degree s x) = get_reduced_shape s"
  "i < length (ptd_shard_dims (pts_dims s)) \<Longrightarrow>
     get_reduced_shape (set_shard_degree s i x) = get_reduced_shape s"
  by (simp_all add: get_reduced_shape_def get_reduced_dims_def ff_ordered_transform_def
      set_sum_degree_def set_discard_copy_degree_def set_shard_degree_def map_spd_size_update)

lemma get_parallel_degrees_sets [simp]:
  "get_parallel_degrees (set_sum_degree s x) = (get_parallel_degrees s)\<lparr>ptdd_sum_degree := x\<rparr>"
  "get_parallel_degrees (set_discard_copy_degree s x) =
     (get_parallel_degrees s)\<lparr>ptdd_discard_copy_degree := x\<rparr>"
  "get_parallel_degrees (set_shard_degree s i x) =
     (get_parallel_degrees s)\<lparr>ptdd_shard_degrees := (ptdd_shard_degrees (get_parallel_degrees s))[i := x]\<rparr>"
  by (simp_all add: get_parallel_degrees_def ptd_get_parallel_degrees_def set_sum_degree_def
      set_discard_copy_degree_def set_shard_degree_def ff_ordered_shard_degrees_def
      ff_ordered_transform_def map_update)

lemma get_degree_sets [simp]:
  "get_sum_degree (set_sum_degree s x) = x"
  "get_discard_copy_degree (set_discard_copy_degree s x) = x"
  by (simp_all add: set_sum_degree_def set_discard_copy_degree_def get_sum_degree_def
      get_discard_copy_degree_def)

lemma combine_eq:
  "combine_get_output_parallel_shape attrs s = Inr t \<longleftrightarrow>
     combine_dim attrs < length (ptd_shard_dims (pts_dims s)) \<and> 0 < combine_degree attrs \<and>
     (\<exists>q. spd_degree (ptd_shard_dims (pts_dims s) ! combine_dim attrs) = combine_degree attrs * q \<and>
        0 < q \<and> q \<le> INT_MAX \<and> t = set_shard_degree s (combine_dim attrs) q)"
  by (auto simp: combine_get_output_parallel_shape_def shard_dim_at_nat set_shard_dim_at_nat int_ops
      set_shard_degree_def Let_def)

lemma repartition_eq:
  "repartition_get_output_parallel_shape attrs s = Inr t \<longleftrightarrow>
     repartition_dim attrs < length (ptd_shard_dims (pts_dims s)) \<and>
     (\<exists>x. positive_int_mul (spd_degree (ptd_shard_dims (pts_dims s) ! repartition_dim attrs))
          (repartition_degree attrs) = Inr x \<and> t = set_shard_degree s (repartition_dim attrs) x)"
  by (auto simp: repartition_get_output_parallel_shape_def idx_is_valid_def shard_dim_at_nat
      set_shard_dim_at_nat set_shard_degree_def Let_def)

lemma reduction_eq:
  "reduction_get_output_shape k s = Inr t \<longleftrightarrow>
     0 < k \<and> (\<exists>q. get_sum_degree s = k * q \<and> 0 < q \<and> q \<le> INT_MAX \<and> t = set_sum_degree s q)"
  by (auto simp: reduction_get_output_shape_def int_ops split: if_splits)

lemma replicate_eq:
  "replicate_get_output_shape k s = Inr t \<longleftrightarrow>
     (\<exists>x. positive_int_mul (get_discard_copy_degree s) k = Inr x \<and> t = set_discard_copy_degree s x)"
  by (auto simp: replicate_get_output_shape_def)

lemma set_shard_degree_same:
  "i < length (ptd_shard_dims (pts_dims s)) \<Longrightarrow>
     spd_degree (ptd_shard_dims (pts_dims s) ! i) = x \<Longrightarrow> set_shard_degree s i x = s"
  by (simp add: set_shard_degree_def list_update_same_conv)

lemma set_shard_degree_simps [simp]:
  "length (ptd_shard_dims (pts_dims (set_shard_degree s i x))) = length (ptd_shard_dims (pts_dims s))"
  "i < length (ptd_shard_dims (pts_dims s)) \<Longrightarrow>
     spd_degree (ptd_shard_dims (pts_dims (set_shard_degree s i x)) ! i) = x"
  "i < length (ptd_shard_dims (pts_dims s)) \<Longrightarrow>
     set_shard_degree (set_shard_degree s i x) i y = set_shard_degree s i y"
  by (simp_all add: set_shard_degree_def)

lemma prod_list_update_dvd:
  "i < length xs \<Longrightarrow> xs ! i * prod_list (xs[i := y]) = y * prod_list (xs :: nat list)"
proof (induction xs arbitrary: i)
  case Nil
  then show ?case by simp
next
  case (Cons x xs)
  then show ?case by (cases i) (simp_all add: ac_simps)
qed

lemma total_degree_set_shard:
  assumes "i < length (ptd_shard_dims (pts_dims s))"
  shows "spd_degree (ptd_shard_dims (pts_dims s) ! i) * total_degree (get_parallel_degrees (set_shard_degree s i x)) =
    x * total_degree (get_parallel_degrees s)"
  using prod_list_update_dvd [of i "map spd_degree (ptd_shard_dims (pts_dims s))" x] assms
  by (simp add: total_degree_def shape_ops ac_simps)

section \<open>The contract\<close>

text \<open>
  \<open>num\<close> and \<open>den\<close> are the factors by which the total degree is multiplied and divided.
\<close>

locale resharding =
  fixes op :: "parallel_tensor_shape \<Rightarrow> parallel_tensor_shape res"
    and num :: nat and den :: nat
  assumes keeps_reduced: "op s = Inr t \<Longrightarrow> get_reduced_shape t = get_reduced_shape s"
    and keeps_wf_degrees: "wf_degrees (get_parallel_degrees s) \<Longrightarrow> op s = Inr t \<Longrightarrow>
      wf_degrees (get_parallel_degrees t)"
    and scales_degree: "wf_degrees (get_parallel_degrees s) \<Longrightarrow> op s = Inr t \<Longrightarrow>
      den * total_degree (get_parallel_degrees t) = num * total_degree (get_parallel_degrees s)"
begin

lemma keeps_wf: "wf_pshape s \<Longrightarrow> op s = Inr t \<Longrightarrow> wf_pshape t"
  unfolding wf_pshape_def using keeps_reduced keeps_wf_degrees by metis

lemma scales_total:
  assumes "wf_pshape s" and "op s = Inr t" and "get_total_parallel_degree s = Inr n"
    and "get_total_parallel_degree t = Inr m"
  shows "den * m = num * n"
proof -
  have w: "wf_degrees (get_parallel_degrees s)" "wf_degrees (get_parallel_degrees t)"
    using assms(1) keeps_wf [OF assms(1,2)] by (simp_all add: wf_pshape_def)
  have "n = total_degree (get_parallel_degrees s)" "m = total_degree (get_parallel_degrees t)"
    using assms(3,4) unfolding get_total_parallel_degree_eq total_degree_wf [OF w(1)]
      total_degree_wf [OF w(2)] by simp_all
  with scales_degree [OF w(1) assms(2)] show ?thesis by simp
qed

end

lemma wf_degrees_set_shard:
  "wf_degrees d \<Longrightarrow> valid_pos x \<Longrightarrow>
     wf_degrees (d\<lparr>ptdd_shard_degrees := (ptdd_shard_degrees d)[i := x]\<rparr>)"
  by (simp add: wf_degrees_iff wf_dims_update)

interpretation combine: resharding "combine_get_output_parallel_shape attrs" 1 "combine_degree attrs"
  for attrs
proof (unfold_locales, goal_cases)
  case (2 s t)
  then show ?case by (auto simp: combine_eq wf_degrees_set_shard valid_pos_def)
next
  case (3 s t)
  then obtain q where q: "combine_dim attrs < length (ptd_shard_dims (pts_dims s))"
    "spd_degree (ptd_shard_dims (pts_dims s) ! combine_dim attrs) = combine_degree attrs * q"
    "0 < q" "t = set_shard_degree s (combine_dim attrs) q"
    by (auto simp: combine_eq)
  have "q * (combine_degree attrs * total_degree (get_parallel_degrees t)) =
      q * total_degree (get_parallel_degrees s)"
    using total_degree_set_shard [OF q(1), of q] by (simp only: q(2,4) ac_simps)
  then show ?case using q(3) by simp
qed (auto simp: combine_eq)

interpretation repartition: resharding "repartition_get_output_parallel_shape attrs"
    "repartition_degree attrs" 1 for attrs
proof (unfold_locales, goal_cases)
  case (2 s t)
  then show ?case by (auto simp: repartition_eq wf_degrees_set_shard valid_pos_mul)
next
  case (3 s t)
  let ?d = "spd_degree (ptd_shard_dims (pts_dims s) ! repartition_dim attrs)"
  from 3 obtain x where x: "repartition_dim attrs < length (ptd_shard_dims (pts_dims s))"
    "positive_int_mul ?d (repartition_degree attrs) = Inr x" "t = set_shard_degree s (repartition_dim attrs) x"
    by (auto simp: repartition_eq)
  then have d: "x = ?d * repartition_degree attrs" "0 < ?d" by (simp_all add: positive_int_mul_eq)
  have "?d * total_degree (get_parallel_degrees t) =
      ?d * (repartition_degree attrs * total_degree (get_parallel_degrees s))"
    using total_degree_set_shard [OF x(1), of x] by (simp only: x(3) d(1) ac_simps)
  then show ?case using d(2) by simp
qed (auto simp: repartition_eq)

interpretation reduction: resharding "reduction_get_output_shape k" 1 k for k
proof (unfold_locales, goal_cases)
  case (2 s t)
  then show ?case by (auto simp: reduction_eq wf_degrees_iff valid_pos_def)
next
  case (3 s t)
  then obtain q where "get_sum_degree s = k * q" "t = set_sum_degree s q"
    by (auto simp: reduction_eq)
  then show ?case
    by (simp add: total_degree_def get_parallel_degrees_simps(1))
qed (auto simp: reduction_eq)

interpretation replicate: resharding "replicate_get_output_shape k" k 1 for k
proof (unfold_locales, goal_cases)
  case (2 s t)
  then show ?case
    by (auto simp: replicate_eq wf_degrees_iff get_parallel_degrees_simps(2) dest: valid_pos_mul)
next
  case (3 s t)
  then obtain x where "positive_int_mul (get_discard_copy_degree s) k = Inr x"
    "t = set_discard_copy_degree s x"
    by (auto simp: replicate_eq)
  then show ?case
    by (simp add: total_degree_def get_parallel_degrees_simps(2) positive_int_mul_eq)
qed (auto simp: replicate_eq)

lemma wf_pshape_nth:
  assumes "wf_pshape s" and "i < length (ptd_shard_dims (pts_dims s))"
  shows "valid_pos (spd_degree (ptd_shard_dims (pts_dims s) ! i))"
  using assms by (auto simp: wf_pshape_def wf_degrees_iff shape_ops wf_dims_def)

lemma positive_int_mul_wf:
  "valid_pos x \<Longrightarrow> positive_int_mul a b = Inr x \<longleftrightarrow> x = a * b"
  by (auto simp: int_ops valid_pos_def)

text \<open>The factor by which a parallel operator changes the number of devices of a tensor.\<close>

fun resharding_num :: "parallel_op_attrs \<Rightarrow> nat" where
  "resharding_num (Parallel_repartition attrs) = repartition_degree attrs"
| "resharding_num (Parallel_replicate degree) = degree"
| "resharding_num _ = 1"

fun resharding_den :: "parallel_op_attrs \<Rightarrow> nat" where
  "resharding_den (Parallel_combine attrs) = combine_degree attrs"
| "resharding_den (Parallel_reduction degree) = degree"
| "resharding_den _ = 1"

interpretation parallel_op: resharding "parallel_op_get_output_shape attrs"
    "resharding_num attrs" "resharding_den attrs" for attrs
proof (unfold_locales, goal_cases)
  case (1 s t)
  then show ?case
    by (cases attrs) (auto simp: throw_if_unexpected_eq_Inr combine.keeps_reduced
        repartition.keeps_reduced reduction.keeps_reduced replicate.keeps_reduced)
next
  case (2 s t)
  then show ?case
    by (cases attrs) (auto simp: throw_if_unexpected_eq_Inr intro: combine.keeps_wf_degrees
        repartition.keeps_wf_degrees reduction.keeps_wf_degrees replicate.keeps_wf_degrees)
next
  case (3 s t)
  then show ?case
    using combine.scales_degree [of s _ t] repartition.scales_degree [of s _ t]
      reduction.scales_degree [of s _ t] replicate.scales_degree [of s _ t]
    by (cases attrs) (simp_all add: throw_if_unexpected_eq_Inr)
qed

section \<open>Properties\<close>

text \<open>
  Claim C37. A parallel operator changes no tensor: what it returns on a well-formed parallel shape
  is well-formed, has the same reduced shape, and a total parallel degree that is the input's
  multiplied by the operator's degree (Repartition, Replicate) or divided by it (Combine,
  Reduction).
\<close>

theorem resharding_scales_parallel_degree:
  assumes "wf_pshape s" and "parallel_op_get_output_shape attrs s = Inr t"
  shows "wf_pshape t \<and> get_reduced_shape t = get_reduced_shape s \<and>
    (\<forall>n m. get_total_parallel_degree s = Inr n \<and> get_total_parallel_degree t = Inr m \<longrightarrow>
       resharding_den attrs * m = resharding_num attrs * n)"
  using parallel_op.keeps_reduced [OF assms(2)] parallel_op.keeps_wf [OF assms]
    parallel_op.scales_total [OF assms] by blast

theorem resharding_scales_parallel_degree_witness:
  "wf_pshape (ParallelTensorShape (ParallelTensorDims
     [ShardParallelDim 12 2, ShardParallelDim 8 1] (ReplicaParallelDimSet 3 1)) FLOAT) \<and>
   3 * (6 :: nat) = 18"
proof -
  let ?s = "ParallelTensorShape (ParallelTensorDims
     [ShardParallelDim 12 6, ShardParallelDim 8 1] (ReplicaParallelDimSet 3 1)) FLOAT"
  let ?t = "ParallelTensorShape (ParallelTensorDims
     [ShardParallelDim 12 2, ShardParallelDim 8 1] (ReplicaParallelDimSet 3 1)) FLOAT"
  let ?a = "Parallel_combine \<lparr> combine_dim = 0, combine_degree = 3 \<rparr>"
  have wf: "wf_pshape ?s"
    by (simp add: wf_pshape_def wf_degrees_iff wf_shape_def wf_dims_def shape_ops valid_pos_def
        INT_MAX_def get_sum_degree_def get_discard_copy_degree_def)
  have op: "parallel_op_get_output_shape ?a ?s = Inr ?t" by code_simp
  have n: "get_total_parallel_degree ?s = Inr 18" by code_simp
  have m: "get_total_parallel_degree ?t = Inr 6" by code_simp
  from resharding_scales_parallel_degree [OF wf op] n m show ?thesis by simp
qed

text \<open>
  Claim C36. Repartition and Combine are inverse to each other: between well-formed shapes,
  repartitioning a dimension by a degree turns \<open>s\<close> into \<open>t\<close> exactly when combining that dimension
  by that degree turns \<open>t\<close> into \<open>s\<close>.
\<close>

theorem combine_inverts_repartition:
  assumes "wf_pshape s" and "wf_pshape t"
  shows "repartition_get_output_parallel_shape
        \<lparr> repartition_dim = i, repartition_degree = k \<rparr> s = Inr t \<longleftrightarrow>
      combine_get_output_parallel_shape \<lparr> combine_dim = i, combine_degree = k \<rparr> t = Inr s"
proof
  let ?d = "\<lambda>s. spd_degree (ptd_shard_dims (pts_dims s) ! i)"
  assume "repartition_get_output_parallel_shape
    \<lparr> repartition_dim = i, repartition_degree = k \<rparr> s = Inr t"
  then have i: "i < length (ptd_shard_dims (pts_dims s))"
    and t: "t = set_shard_degree s i (?d s * k)" and "0 < k"
    by (auto simp: repartition_eq positive_int_mul_eq)
  with wf_pshape_nth [OF assms(1) i]
  show "combine_get_output_parallel_shape \<lparr> combine_dim = i, combine_degree = k \<rparr> t = Inr s"
    by (auto simp: combine_eq valid_pos_def set_shard_degree_same intro!: exI [of _ "?d s"])
next
  let ?d = "\<lambda>s. spd_degree (ptd_shard_dims (pts_dims s) ! i)"
  assume "combine_get_output_parallel_shape \<lparr> combine_dim = i, combine_degree = k \<rparr> t = Inr s"
  then obtain q where i: "i < length (ptd_shard_dims (pts_dims t))" and q: "?d t = k * q"
    and s: "s = set_shard_degree t i q"
    by (auto simp: combine_eq)
  with wf_pshape_nth [OF assms(2) i]
  show "repartition_get_output_parallel_shape
      \<lparr> repartition_dim = i, repartition_degree = k \<rparr> s = Inr t"
    by (auto simp: repartition_eq positive_int_mul_wf set_shard_degree_same
        intro!: exI [of _ "?d t"])
qed

theorem combine_inverts_repartition_witness:
  "repartition_get_output_parallel_shape \<lparr> repartition_dim = 1, repartition_degree = 2 \<rparr>
     (ParallelTensorShape (ParallelTensorDims
       [ShardParallelDim 12 6, ShardParallelDim 8 2] (ReplicaParallelDimSet 3 1)) FLOAT) =
   Inr (ParallelTensorShape (ParallelTensorDims
       [ShardParallelDim 12 6, ShardParallelDim 8 4] (ReplicaParallelDimSet 3 1)) FLOAT)"
proof -
  let ?s = "\<lambda>d. ParallelTensorShape (ParallelTensorDims
       [ShardParallelDim 12 6, ShardParallelDim 8 d] (ReplicaParallelDimSet 3 1)) FLOAT"
  have wf: "wf_pshape (?s 2)" "wf_pshape (?s 4)"
    by (simp_all add: wf_pshape_def wf_degrees_iff wf_shape_def wf_dims_def shape_ops valid_pos_def
        INT_MAX_def get_sum_degree_def get_discard_copy_degree_def)
  have "combine_get_output_parallel_shape \<lparr> combine_dim = 1, combine_degree = 2 \<rparr> (?s 4) = Inr (?s 2)"
    by code_simp
  then show ?thesis using combine_inverts_repartition [OF wf] by blast
qed

text \<open>
  Repartition never looks at the size of the dimension it splits: from a valid shape it
  returns a valid one exactly when the new degree of the dimension still divides its size.
\<close>

theorem repartition_validity:
  assumes "pts_is_valid s"
    and "repartition_get_output_parallel_shape attrs s = Inr t"
  shows "pts_is_valid t \<longleftrightarrow>
    repartition_degree attrs *
      spd_degree (ptd_shard_dims (pts_dims s) ! repartition_dim attrs) dvd
    spd_size (ptd_shard_dims (pts_dims s) ! repartition_dim attrs)"
proof -
  let ?ds = "ptd_shard_dims (pts_dims s)" and ?i = "repartition_dim attrs"
  let ?x = "spd_degree (?ds ! ?i) * repartition_degree attrs"
  from assms(2) have i: "?i < length ?ds" and x: "0 < ?x"
    and t: "t = set_shard_degree s ?i ?x"
    by (auto simp: repartition_eq positive_int_mul_eq)
  have v: "\<forall>d \<in> set ?ds. shard_dim_is_valid d"
    using assms(1) by (simp add: pts_is_valid_def ptd_is_valid_def)
  then have vi: "shard_dim_is_valid (?ds ! ?i)" using i by simp
  have "pts_is_valid t \<longleftrightarrow> shard_dim_is_valid ((?ds ! ?i)\<lparr>spd_degree := ?x\<rparr>)"
  proof
    assume "pts_is_valid t"
    then show "shard_dim_is_valid ((?ds ! ?i)\<lparr>spd_degree := ?x\<rparr>)"
      using i by (simp add: t pts_is_valid_def ptd_is_valid_def set_shard_degree_def set_update_memI)
  next
    assume "shard_dim_is_valid ((?ds ! ?i)\<lparr>spd_degree := ?x\<rparr>)"
    then show "pts_is_valid t"
      using assms(1) v set_update_subset_insert [of ?ds ?i]
      by (force simp: t pts_is_valid_def ptd_is_valid_def set_shard_degree_def)
  qed
  also have "\<dots> \<longleftrightarrow> ?x dvd spd_size (?ds ! ?i)"
    using vi x by (simp add: shard_dim_is_valid_def dvd_eq_mod_eq_0)
  finally show ?thesis by (simp add: mult.commute)
qed

theorem repartition_validity_witness:
  "\<exists>t. repartition_get_output_parallel_shape \<lparr> repartition_dim = 0, repartition_degree = 4 \<rparr>
      (ParallelTensorShape (ParallelTensorDims [ShardParallelDim 6 1] (ReplicaParallelDimSet 1 1)) FLOAT) =
      Inr t \<and> \<not> pts_is_valid t"
proof -
  let ?a = "\<lparr> repartition_dim = 0, repartition_degree = 4 \<rparr>"
  let ?s = "ParallelTensorShape (ParallelTensorDims [ShardParallelDim 6 1] (ReplicaParallelDimSet 1 1)) FLOAT"
  have v: "pts_is_valid ?s" by code_simp
  let ?t = "ParallelTensorShape (ParallelTensorDims [ShardParallelDim 6 4] (ReplicaParallelDimSet 1 1)) FLOAT"
  have t: "repartition_get_output_parallel_shape ?a ?s = Inr ?t" by code_simp
  from repartition_validity [OF v t] have "\<not> pts_is_valid ?t"
    by (simp add: dvd_eq_mod_eq_0)
  with t show ?thesis by blast
qed

end
