(* ===== verification/Op_Layout.thy ===== *)
theory Op_Layout
  imports Parallel_Inference "HOL-Library.Multiset"
begin

text \<open>
  The operators that rearrange the dimensions of a tensor,
  \<open>lib/op-attrs/src/op-attrs/ops/concat.cc\<close>, \<open>split.cc\<close>, \<open>flat.cc\<close>, \<open>reshape.cc\<close>, \<open>transpose.cc\<close>
  and \<open>upsample.cc\<close>. Flat, Transpose and Upsample keep the contract of \<open>degree_conserving\<close>. Split
  and Concat are inverse to each other. Reshape is not an instance of the contract: the degrees
  it infers have the input's rank.
\<close>

section \<open>Definitions\<close>

text \<open>
  Concat. A \<open>std::map<ff_dim_t, positive_int>\<close> of the code is the list of its entries in the order
  of the keys.
\<close>

definition concat_get_non_axis_dims :: "concat_attrs \<Rightarrow> tensor_shape \<Rightarrow> (ff_dim_t \<times> positive_int) list" where
  "concat_get_non_axis_dims attrs s =
     filter (\<lambda>entry. fst entry \<noteq> concat_axis attrs) (enumerate 0 (ts_dims s))"

definition map_entries_insert :: "('k::linorder \<times> 'v) list \<Rightarrow> 'k \<times> 'v \<Rightarrow> ('k \<times> 'v) list" where
  "map_entries_insert es entry =
     (if fst entry \<in> set (map fst es) then es else insort_key fst entry es)"

definition concat_get_output_shape :: "concat_attrs \<Rightarrow> tensor_shape list \<Rightarrow> tensor_shape res" where
  "concat_get_output_shape attrs inputs =
     res_bind (ASSERT (concat_num_inputs attrs = length inputs)) (\<lambda>_.
     res_bind (res_bind (res_map (\<lambda>s. get_num_dims (ts_dims s)) inputs) require_all_same1)
       (\<lambda>input_num_dims.
     res_bind (ASSERT (concat_axis attrs < input_num_dims)) (\<lambda>_.
     res_bind (require_all_same1 (map (concat_get_non_axis_dims attrs) inputs)) (\<lambda>non_axis_dims.
     res_bind (res_map (\<lambda>s. dim_at_rel_idx (ts_dims s)
         (relative_ff_dim_t_from_ff_dim_t (concat_axis attrs))) inputs) (\<lambda>axis_dim_sizes.
     res_bind (sum_positive axis_dim_sizes) (\<lambda>output_axis_dim_size.
     let non_axis_dims = map_entries_insert non_axis_dims (concat_axis attrs, output_axis_dim_size)
     in res_bind (require_all_same1 (map ts_data_type inputs)) (\<lambda>datatype.
        res_bind (ff_ordered_from_map (map_of non_axis_dims)) (\<lambda>dims.
        Inr (TensorShape dims datatype)))))))))"

definition concat_get_output_parallel_shape ::
    "concat_attrs \<Rightarrow> parallel_tensor_shape list \<Rightarrow> parallel_tensor_shape res" where
  "concat_get_output_parallel_shape attrs inputs =
     res_bind (concat_get_output_shape attrs (map get_reduced_shape inputs)) (\<lambda>unpar.
     res_bind (require_all_same1 (map get_sum_degree inputs)) (\<lambda>sum_degree.
     res_bind (require_all_same1 (map get_discard_copy_degree inputs)) (\<lambda>discard_copy_degree.
     res_bind (res_bind (res_all_of (\<lambda>s. res_bind
         (shard_dim_at_idx s (relative_ff_dim_t_from_ff_dim_t (concat_axis attrs)))
         (\<lambda>d. Inr (spd_degree d = 1))) inputs) ASSERT) (\<lambda>_.
     res_bind (require_all_same1 (map get_parallel_degrees inputs)) (\<lambda>degrees.
     Inr (lift_to_parallel_with_dim_degrees unpar degrees))))))"

text \<open>Split\<close>

definition split_for_split_size ::
    "split_attrs \<Rightarrow> tensor_shape \<Rightarrow> positive_int \<Rightarrow> tensor_shape res" where
  "split_for_split_size attrs input_shape split_size =
     res_bind (ff_ordered_set (ts_dims input_shape) (split_axis attrs) split_size) (\<lambda>dims.
     Inr (input_shape\<lparr>ts_dims := dims\<rparr>))"

definition split_get_output_shapes :: "split_attrs \<Rightarrow> tensor_shape \<Rightarrow> tensor_shape list res" where
  "split_get_output_shapes attrs input_shape =
     res_bind (sum_positive (split_splits attrs)) (\<lambda>total.
     res_bind (dim_at_idx (ts_dims input_shape) (split_axis attrs)) (\<lambda>dim.
     res_bind (ASSERT (total = dim)) (\<lambda>_.
     res_map (split_for_split_size attrs input_shape) (split_splits attrs))))"

definition split_get_output_parallel_dim_degrees ::
    "split_attrs \<Rightarrow> parallel_tensor_dim_degrees \<Rightarrow> parallel_tensor_dim_degrees list res" where
  "split_get_output_parallel_dim_degrees attrs input_dim_degrees =
     res_bind (get_degree_for_parallel_tensor_dim_idx input_dim_degrees
         (shard_dim_idx (split_axis attrs))) (\<lambda>axis_degree.
     res_bind (ASSERT (axis_degree = 1)) (\<lambda>_.
     res_bind (num_elements (split_splits attrs)) (\<lambda>n.
     Inr (repeat_element n input_dim_degrees))))"

definition split_get_output_parallel_shapes ::
    "split_attrs \<Rightarrow> parallel_tensor_shape \<Rightarrow> parallel_tensor_shape list res" where
  "split_get_output_parallel_shapes attrs input_shape =
     res_bind (split_get_output_shapes attrs (get_reduced_shape input_shape)) (\<lambda>unpar.
     res_bind (split_get_output_parallel_dim_degrees attrs (get_parallel_degrees input_shape))
       (\<lambda>degrees.
     zip_with_strict lift_to_parallel_with_dim_degrees unpar degrees))"

text \<open>Flat\<close>

definition flat_get_output_shape :: "flat_attrs \<Rightarrow> tensor_shape \<Rightarrow> tensor_shape res" where
  "flat_get_output_shape attrs input_shape =
     res_bind (ff_ordered_slice (ts_dims input_shape) 0 (Some (flat_start_dim attrs)))
       (\<lambda>leading_dims.
     res_bind (ff_ordered_slice_inclusive (ts_dims input_shape) (flat_start_dim attrs)
         (Some (flat_end_dim attrs))) (\<lambda>flattened_dims.
     res_bind (add_to_ff_dim (flat_end_dim attrs) 1) (\<lambda>trailing_start.
     res_bind (ff_ordered_slice (ts_dims input_shape) trailing_start None) (\<lambda>trailing_dims.
     if flattened_dims = [] then Inr input_shape
     else
       res_bind (product flattened_dims) (\<lambda>p.
       Inr (TensorShape (ff_ordered_concat [leading_dims, [p], trailing_dims])
         (ts_data_type input_shape)))))))"

definition flat_get_output_parallel_dim_degrees ::
    "flat_attrs \<Rightarrow> parallel_tensor_dim_degrees \<Rightarrow> parallel_tensor_dim_degrees res" where
  "flat_get_output_parallel_dim_degrees attrs input_degrees =
     res_bind (ff_ordered_slice_inclusive (ptdd_shard_degrees input_degrees) (flat_start_dim attrs)
         (Some (flat_end_dim attrs))) (\<lambda>flattened_dim_degrees.
     if flattened_dim_degrees = [] then Inr input_degrees
     else
       res_bind (ASSERT (\<forall>degree \<in> set flattened_dim_degrees. degree = 1)) (\<lambda>_.
       res_bind (ff_ordered_slice (ptdd_shard_degrees input_degrees) 0 (Some (flat_start_dim attrs)))
         (\<lambda>leading.
       res_bind (product flattened_dim_degrees) (\<lambda>p.
       res_bind (add_to_ff_dim (flat_end_dim attrs) 1) (\<lambda>trailing_start.
       res_bind (ff_ordered_slice (ptdd_shard_degrees input_degrees) trailing_start None) (\<lambda>trailing.
       Inr (ParallelTensorDimDegrees (ptdd_sum_degree input_degrees)
         (ptdd_discard_copy_degree input_degrees)
         (ff_ordered_concat [leading, [p], trailing]))))))))"

definition flat_get_output_parallel_shape ::
    "flat_attrs \<Rightarrow> parallel_tensor_shape \<Rightarrow> parallel_tensor_shape res" where
  "flat_get_output_parallel_shape attrs input_shape =
     res_bind (flat_get_output_shape attrs (get_reduced_shape input_shape)) (\<lambda>unpar.
     res_bind (flat_get_output_parallel_dim_degrees attrs (get_parallel_degrees input_shape))
       (\<lambda>degrees.
     Inr (lift_to_parallel_with_dim_degrees unpar degrees)))"

text \<open>Reshape; \<open>ReshapeAttrs\<close> has the one field \<open>shape\<close>.\<close>

definition reshape_get_output_shape :: "tensor_shape \<Rightarrow> tensor_shape \<Rightarrow> tensor_shape res" where
  "reshape_get_output_shape shape input_shape =
     res_bind (ASSERT (ts_data_type shape = ts_data_type input_shape)) (\<lambda>_.
     res_bind (get_num_elements (ts_dims shape)) (\<lambda>n.
     res_bind (get_num_elements (ts_dims input_shape)) (\<lambda>m.
     res_bind (ASSERT (n = m)) (\<lambda>_.
     Inr shape))))"

definition reshape_get_output_parallel_dim_degrees ::
    "tensor_shape \<Rightarrow> parallel_tensor_dim_degrees \<Rightarrow> parallel_tensor_dim_degrees res" where
  "reshape_get_output_parallel_dim_degrees shape input_dim_degrees =
     res_bind (product (ptdd_shard_degrees input_dim_degrees)) (\<lambda>p.
     res_bind (ASSERT (p = 1)) (\<lambda>_.
     Inr input_dim_degrees))"

definition reshape_get_output_parallel_shape ::
    "tensor_shape \<Rightarrow> parallel_tensor_shape \<Rightarrow> parallel_tensor_shape res" where
  "reshape_get_output_parallel_shape shape input_shape =
     res_bind (reshape_get_output_shape shape (get_reduced_shape input_shape)) (\<lambda>unpar.
     res_bind (reshape_get_output_parallel_dim_degrees shape (get_parallel_degrees input_shape))
       (\<lambda>degrees.
     Inr (lift_to_parallel_with_dim_degrees unpar degrees)))"

text \<open>Transpose; \<open>TransposeAttrs\<close> has the one field \<open>permutation\<close>.\<close>

definition transpose_get_output_shape ::
    "tensor_dim_permutation \<Rightarrow> tensor_shape \<Rightarrow> tensor_shape res" where
  "transpose_get_output_shape permutation input_shape = permute_tensor_shape permutation input_shape"

definition transpose_get_output_parallel_dim_degrees ::
    "tensor_dim_permutation \<Rightarrow> parallel_tensor_dim_degrees \<Rightarrow> parallel_tensor_dim_degrees res" where
  "transpose_get_output_parallel_dim_degrees permutation input_degrees =
     permute_parallel_tensor_dim_degrees permutation input_degrees"

definition transpose_get_output_parallel_shape ::
    "tensor_dim_permutation \<Rightarrow> parallel_tensor_shape \<Rightarrow> parallel_tensor_shape res" where
  "transpose_get_output_parallel_shape permutation input_shape =
     res_bind (transpose_get_output_shape permutation (get_reduced_shape input_shape))
       (\<lambda>output_shape.
     res_bind (transpose_get_output_parallel_dim_degrees permutation
         (get_parallel_degrees input_shape)) (\<lambda>output_degrees.
     Inr (lift_to_parallel_with_dim_degrees output_shape output_degrees)))"

text \<open>Upsample\<close>

definition upsample_check_mode :: "upsample_attrs \<Rightarrow> unit res" where
  "upsample_check_mode attrs = ASSERT (upsample_mode attrs = Upsample_NEAREST)"

definition upsample_get_output_shape :: "upsample_attrs \<Rightarrow> tensor_shape \<Rightarrow> tensor_shape res" where
  "upsample_get_output_shape attrs input_shape =
     res_bind (upsample_check_mode attrs) (\<lambda>_.
     res_bind (get_num_dims (ts_dims input_shape)) (\<lambda>n.
     res_bind (ASSERT (n = 4)) (\<lambda>_.
     let scale = (\<lambda>dims idx.
       res_bind (ff_ordered_at_rel dims idx) (\<lambda>d.
       res_bind (positive_int_mul d (upsample_scale_factor attrs)) (\<lambda>d'.
       ff_ordered_set_rel dims idx d')))
     in res_bind (scale (ts_dims input_shape) (- 1)) (\<lambda>dims.
        res_bind (scale dims (- 2)) (\<lambda>dims'.
        Inr (input_shape\<lparr>ts_dims := dims'\<rparr>))))))"

definition upsample_get_output_parallel_dim_degrees ::
    "upsample_attrs \<Rightarrow> parallel_tensor_dim_degrees \<Rightarrow> parallel_tensor_dim_degrees res" where
  "upsample_get_output_parallel_dim_degrees attrs input_dim_degrees =
     res_bind (upsample_check_mode attrs) (\<lambda>_. Inr input_dim_degrees)"

definition upsample_get_output_parallel_shape ::
    "upsample_attrs \<Rightarrow> parallel_tensor_shape \<Rightarrow> parallel_tensor_shape res" where
  "upsample_get_output_parallel_shape attrs input_shape =
     res_bind (upsample_get_output_shape attrs (get_reduced_shape input_shape)) (\<lambda>unpar.
     res_bind (upsample_get_output_parallel_dim_degrees attrs (get_parallel_degrees input_shape))
       (\<lambda>degrees.
     Inr (lift_to_parallel_with_dim_degrees unpar degrees)))"


section \<open>Lemmas on Concat and Split\<close>

lemma res_map_graph:
  assumes "\<And>x y. f x = Inr y \<longleftrightarrow> P x \<and> y = g x"
  shows "res_map f xs = Inr ys \<longleftrightarrow> (\<forall>x \<in> set xs. P x) \<and> ys = map g xs"
  by (induction xs arbitrary: ys) (auto simp: assms)

abbreviation resized :: "ff_dim_t \<Rightarrow> tensor_shape \<Rightarrow> positive_int \<Rightarrow> tensor_shape" where
  "resized axis t z \<equiv> t\<lparr>ts_dims := (ts_dims t)[axis := z]\<rparr>"

lemma map_of_filter_enumerate:
  "map_of (filter (\<lambda>e. fst e \<noteq> axis) (enumerate 0 xs)) = (ff_ordered_enumerate xs)(axis := None)"
proof -
  have "map_of (filter (\<lambda>e. fst e \<noteq> axis) es) = (map_of es)(axis := None)" for es :: "(nat \<times> 'a) list"
    by (induction es) (auto simp: fun_eq_iff)
  then show ?thesis by (simp add: ff_ordered_enumerate_def enumerate_eq_zip)
qed

lemma map_of_map_entries_insert:
  "k \<notin> set (map fst es) \<Longrightarrow> map_of (map_entries_insert es (k, v)) = (map_of es)(k \<mapsto> v)"
proof -
  assume k: "k \<notin> set (map fst es)"
  then have "map_of (insort_key fst (k, v) es) = (map_of es)(k \<mapsto> v)"
    by (induction es) (auto simp: fun_upd_twist)
  with k show ?thesis by (simp add: map_entries_insert_def)
qed

lemma ff_ordered_enumerate_update:
  "i < length xs \<Longrightarrow> (ff_ordered_enumerate xs)(i \<mapsto> x) = ff_ordered_enumerate (xs[i := x])"
  by (auto simp: fun_eq_iff container_ops nth_list_update)

lemma non_axis_dims_update:
  "concat_get_non_axis_dims attrs (s\<lparr>ts_dims := (ts_dims s)[concat_axis attrs := z]\<rparr>) =
     concat_get_non_axis_dims attrs s"
proof -
  have "filter (\<lambda>e. fst e \<noteq> n + i) (enumerate n (xs[i := z])) =
      filter (\<lambda>e. fst e \<noteq> n + i) (enumerate n xs)" for n i and xs :: "nat list"
  proof (induction xs arbitrary: n i)
    case Nil
    then show ?case by simp
  next
    case (Cons x xs)
    show ?case
    proof (cases i)
      case 0
      then show ?thesis by simp
    next
      case (Suc j)
      then show ?thesis using Cons [of "Suc n" j] by simp
    qed
  qed
  from this [of 0] show ?thesis by (simp add: concat_get_non_axis_dims_def)
qed

lemma non_axis_dims_eq:
  assumes "length (ts_dims s) = length (ts_dims t)"
  shows "concat_get_non_axis_dims attrs s = concat_get_non_axis_dims attrs t \<longleftrightarrow>
    (ts_dims s)[concat_axis attrs := z] = (ts_dims t)[concat_axis attrs := z]"
proof
  let ?a = "concat_axis attrs"
  assume "concat_get_non_axis_dims attrs s = concat_get_non_axis_dims attrs t"
  then have "(ff_ordered_enumerate (ts_dims s))(?a := None) =
      (ff_ordered_enumerate (ts_dims t))(?a := None)"
    unfolding concat_get_non_axis_dims_def by (metis map_of_filter_enumerate)
  then have e: "((ff_ordered_enumerate (ts_dims s))(?a := None)) i =
      ((ff_ordered_enumerate (ts_dims t))(?a := None)) i" for i by simp
  have "ts_dims s ! i = ts_dims t ! i" if "i < length (ts_dims s)" "i \<noteq> ?a" for i
    using that assms e [of i] by (simp add: ff_ordered_enumerate_eq)
  then have "(ts_dims s)[?a := z] ! i = (ts_dims t)[?a := z] ! i" if "i < length (ts_dims s)" for i
    using that assms by (cases "i = ?a") simp_all
  then show "(ts_dims s)[?a := z] = (ts_dims t)[?a := z]"
    using assms by (intro nth_equalityI) simp_all
next
  assume "(ts_dims s)[concat_axis attrs := z] = (ts_dims t)[concat_axis attrs := z]"
  then show "concat_get_non_axis_dims attrs s = concat_get_non_axis_dims attrs t"
    using non_axis_dims_update [of attrs s z] non_axis_dims_update [of attrs t z]
    by (simp add: concat_get_non_axis_dims_def)
qed

lemma concat_dims_eq:
  assumes "concat_axis attrs < length (ts_dims s)"
  shows "ff_ordered_from_map (map_of (map_entries_insert (concat_get_non_axis_dims attrs s)
      (concat_axis attrs, z))) = Inr ((ts_dims s)[concat_axis attrs := z])"
proof -
  let ?a = "concat_axis attrs"
  have a: "?a \<notin> set (map fst (concat_get_non_axis_dims attrs s))"
    by (auto simp: concat_get_non_axis_dims_def)
  have m: "map_of (concat_get_non_axis_dims attrs s) = (ff_ordered_enumerate (ts_dims s))(?a := None)"
    by (simp only: concat_get_non_axis_dims_def map_of_filter_enumerate)
  have "map_of (map_entries_insert (concat_get_non_axis_dims attrs s) (?a, z)) =
      ((ff_ordered_enumerate (ts_dims s))(?a := None))(?a \<mapsto> z)"
    using map_of_map_entries_insert [OF a, of z] by (simp only: m)
  also have "\<dots> = ff_ordered_enumerate ((ts_dims s)[?a := z])"
    using ff_ordered_enumerate_update [OF assms, of z] by simp
  finally show ?thesis by (simp only: ff_ordered_from_map_enumerate)
qed

text \<open>Concat takes shapes that differ from its result at the axis at most.\<close>

lemma concat_num_dims_eq:
  "res_map (\<lambda>s. get_num_dims (ts_dims s)) inputs = Inr ys \<longleftrightarrow>
     (\<forall>s \<in> set inputs. length (ts_dims s) \<le> MAX_TENSOR_DIM) \<and>
     ys = map (\<lambda>s. length (ts_dims s)) inputs"
  by (rule res_map_graph) (auto simp: container_ops)

lemma resized_iff:
  "s = resized a t z \<longleftrightarrow> ts_dims s = (ts_dims t)[a := z] \<and> ts_data_type s = ts_data_type t"
  by (cases s; cases t) simp

lemma map_eq_self: "xs = map f xs \<longleftrightarrow> (\<forall>x \<in> set xs. x = f x)"
  by (induction xs) auto

lemma dims_agree:
  "(xs[a := x] = ys[a := x]) \<longleftrightarrow> xs = ys[a := xs ! a]"
  by (metis list_update_id list_update_overwrite)

text \<open>Two shapes with the same rank, type and sizes outside the axis.\<close>

definition agree_off_axis :: "ff_dim_t \<Rightarrow> tensor_shape \<Rightarrow> tensor_shape \<Rightarrow> bool" where
  "agree_off_axis a s t \<longleftrightarrow> length (ts_dims s) = length (ts_dims t) \<and>
     (ts_dims s)[a := 0] = (ts_dims t)[a := 0] \<and> ts_data_type s = ts_data_type t"

lemma agree_off_axis_iff: "agree_off_axis a s t \<longleftrightarrow> s = resized a t (ts_dims s ! a)"
  unfolding agree_off_axis_def resized_iff by (metis dims_agree length_list_update)

lemma agree_off_axis_resized: "agree_off_axis a s (resized a t z) \<longleftrightarrow> agree_off_axis a s t"
  by (simp add: agree_off_axis_def)

lemma agree_off_axis_trans: "agree_off_axis a s t \<Longrightarrow> agree_off_axis a u t \<Longrightarrow> agree_off_axis a s u"
  unfolding agree_off_axis_def by metis

lemma concat_eq_first:
  assumes wf: "\<forall>s \<in> set inputs. wf_shape s" and Cons: "inputs = s0 # rest"
  shows "concat_get_output_shape attrs inputs = Inr t \<longleftrightarrow>
    concat_num_inputs attrs = length inputs \<and> concat_axis attrs < length (ts_dims s0) \<and>
    length (ts_dims s0) \<le> MAX_TENSOR_DIM \<and>
    (\<forall>s \<in> set inputs. agree_off_axis (concat_axis attrs) s s0) \<and>
    sum_list (map (\<lambda>s. ts_dims s ! concat_axis attrs) inputs) \<le> INT_MAX \<and>
    t = resized (concat_axis attrs) s0 (sum_list (map (\<lambda>s. ts_dims s ! concat_axis attrs) inputs))"
    (is "?l \<longleftrightarrow> ?m")
proof -
  let ?a = "concat_axis attrs"
  let ?sizes = "map (\<lambda>s. ts_dims s ! ?a) inputs"
  have sizes: "res_map (\<lambda>s. dim_at_rel_idx (ts_dims s) (relative_ff_dim_t_from_ff_dim_t ?a)) inputs =
      Inr zs \<longleftrightarrow> (\<forall>s \<in> set inputs. ?a < length (ts_dims s)) \<and> zs = ?sizes" for zs
    by (rule res_map_graph) (auto simp: dim_at_rel_idx_def container_ops)
  have sum: "sum_positive ?sizes = Inr z \<longleftrightarrow> z = sum_list ?sizes \<and> z \<le> INT_MAX"
    if "\<forall>s \<in> set inputs. ?a < length (ts_dims s)" for z
    using that wf wf_dims_nth Cons by (subst sum_positive_eq) (auto simp: wf_shape_def)
  show ?thesis
  proof
    assume ?l
    then obtain n nad dt dims where a: "concat_num_inputs attrs = length inputs" "?a < n"
        "require_all_same1 (map (\<lambda>s. length (ts_dims s)) inputs) = Inr n"
        "\<forall>s \<in> set inputs. length (ts_dims s) \<le> MAX_TENSOR_DIM"
      and b: "require_all_same1 (map (concat_get_non_axis_dims attrs) inputs) = Inr nad"
      and c: "sum_positive ?sizes = Inr (sum_list ?sizes)"
      and d: "\<forall>s \<in> set inputs. ?a < length (ts_dims s)"
      and e: "require_all_same1 (map ts_data_type inputs) = Inr dt"
      and f: "ff_ordered_from_map (map_of (map_entries_insert nad (?a, sum_list ?sizes))) = Inr dims"
        "t = TensorShape dims dt"
      by (auto simp: concat_get_output_shape_def concat_num_dims_eq sizes sum Let_def)
    from a b c d e have *: "\<forall>s \<in> set inputs. length (ts_dims s) = n" "\<forall>s \<in> set inputs. length (ts_dims s) \<le> MAX_TENSOR_DIM"
      "\<forall>s \<in> set inputs. concat_get_non_axis_dims attrs s = nad"
      "sum_list ?sizes \<le> INT_MAX" "\<forall>s \<in> set inputs. ts_data_type s = dt"
      by (auto simp: require_all_same1_eq sum)
    have s0: "s0 \<in> set inputs" using Cons by simp
    then have a0: "?a < length (ts_dims s0)" using d by simp
    have dims: "dims = (ts_dims s0)[?a := sum_list ?sizes]"
      using f(1) *(3) s0 concat_dims_eq [OF a0] by simp
    have same: "agree_off_axis ?a s s0" if "s \<in> set inputs" for s
    proof -
      have len: "length (ts_dims s) = length (ts_dims s0)" using that *(1) s0 by simp
      have "concat_get_non_axis_dims attrs s = concat_get_non_axis_dims attrs s0"
        using that *(3) s0 by simp
      then have "(ts_dims s)[?a := 0] = (ts_dims s0)[?a := 0]"
        using non_axis_dims_eq [OF len] by blast
      with len that *(5) s0 show ?thesis by (simp add: agree_off_axis_def)
    qed
    have "dt = ts_data_type s0" using *(5) s0 by simp
    then have "t = resized ?a s0 (sum_list ?sizes)" using f(2) dims by simp
    moreover have "length (ts_dims s0) \<le> MAX_TENSOR_DIM" using *(2) s0 by blast
    ultimately show ?m using a(1) a0 same *(4) by blast
  next
    assume m: ?m
    then have m1: "\<forall>s \<in> set inputs. length (ts_dims s) = length (ts_dims s0)"
      and m2: "\<And>s. s \<in> set inputs \<Longrightarrow> (ts_dims s)[?a := 0] = (ts_dims s0)[?a := 0]"
      and m3: "\<forall>s \<in> set inputs. ts_data_type s = ts_data_type s0"
      and m4: "concat_num_inputs attrs = length inputs" "?a < length (ts_dims s0)"
        "length (ts_dims s0) \<le> MAX_TENSOR_DIM" "sum_list ?sizes \<le> INT_MAX"
        "t = resized ?a s0 (sum_list ?sizes)"
      unfolding agree_off_axis_def by blast+
    have ne: "inputs \<noteq> []" using Cons by simp
    have "concat_get_non_axis_dims attrs s = concat_get_non_axis_dims attrs s0" if "s \<in> set inputs" for s
      using that m1 m2 [OF that] non_axis_dims_eq [of s s0 attrs 0] by blast
    with ne have nad: "require_all_same1 (map (concat_get_non_axis_dims attrs) inputs) =
        Inr (concat_get_non_axis_dims attrs s0)"
      by (simp add: require_all_same1_eq)
    have ranks: "require_all_same1 (map (\<lambda>s. length (ts_dims s)) inputs) = Inr (length (ts_dims s0))"
      "require_all_same1 (map ts_data_type inputs) = Inr (ts_data_type s0)"
      using m1 m3 ne by (simp_all add: require_all_same1_eq)
    have dims: "res_map (\<lambda>s. get_num_dims (ts_dims s)) inputs = Inr (map (\<lambda>s. length (ts_dims s)) inputs)"
      using m1 m4(3) by (simp add: concat_num_dims_eq)
    have "\<forall>s \<in> set inputs. ?a < length (ts_dims s)" using m1 m4(2) by simp
    then have "res_map (\<lambda>s. dim_at_rel_idx (ts_dims s) (relative_ff_dim_t_from_ff_dim_t ?a)) inputs =
        Inr ?sizes" "sum_positive ?sizes = Inr (sum_list ?sizes)"
      using m4(4) sizes [of ?sizes] sum by blast+
    with m4 show ?l
      by (simp add: concat_get_output_shape_def dims ranks nad concat_dims_eq)
  qed
qed

lemma concat_eq:
  assumes wf: "\<forall>s \<in> set inputs. wf_shape s"
  shows "concat_get_output_shape attrs inputs = Inr t \<longleftrightarrow>
    concat_num_inputs attrs = length inputs \<and> inputs \<noteq> [] \<and>
    concat_axis attrs < length (ts_dims t) \<and> length (ts_dims t) \<le> MAX_TENSOR_DIM \<and>
    inputs = map (resized (concat_axis attrs) t) (map (\<lambda>s. ts_dims s ! concat_axis attrs) inputs) \<and>
    ts_dims t ! concat_axis attrs = sum_list (map (\<lambda>s. ts_dims s ! concat_axis attrs) inputs) \<and>
    sum_list (map (\<lambda>s. ts_dims s ! concat_axis attrs) inputs) \<le> INT_MAX" (is "?l \<longleftrightarrow> ?r")
proof (cases inputs)
  case Nil
  then show ?thesis by (auto simp: concat_get_output_shape_def require_all_same1_eq)
next
  case (Cons s0 rest)
  let ?a = "concat_axis attrs"
  let ?z = "sum_list (map (\<lambda>s. ts_dims s ! ?a) inputs)"
  have s0: "s0 \<in> set inputs" using Cons by simp
  have inputs: "inputs = map (resized ?a t) (map (\<lambda>s. ts_dims s ! ?a) inputs) \<longleftrightarrow>
      (\<forall>s \<in> set inputs. agree_off_axis ?a s t)" for t
    unfolding map_map using map_eq_self [of inputs] by (simp add: agree_off_axis_iff)
  show ?thesis
  proof
    assume ?l
    then show ?r
      unfolding concat_eq_first [OF wf Cons] inputs using Cons
      by (auto simp: agree_off_axis_resized)
  next
    assume r: ?r
    then have agree: "agree_off_axis ?a s t" if "s \<in> set inputs" for s
      unfolding inputs using that by blast
    from r have r': "concat_num_inputs attrs = length inputs" "?a < length (ts_dims t)"
      "length (ts_dims t) \<le> MAX_TENSOR_DIM" "ts_dims t ! ?a = ?z" "?z \<le> INT_MAX" by blast+
    have len: "length (ts_dims s0) = length (ts_dims t)" and dt: "ts_data_type s0 = ts_data_type t"
      using agree [OF s0] by (simp_all add: agree_off_axis_def)
    have "(ts_dims t)[?a := ?z] = (ts_dims s0)[?a := ?z]"
      using agree [OF s0] unfolding agree_off_axis_def by (metis list_update_overwrite)
    moreover have "ts_dims t = (ts_dims t)[?a := ?z]"
      using list_update_id [of "ts_dims t" ?a] unfolding r'(4) by (rule sym)
    ultimately have "t = resized ?a s0 ?z" unfolding resized_iff dt by simp
    moreover have "\<forall>s \<in> set inputs. agree_off_axis ?a s s0"
      using agree agree_off_axis_trans [OF _ agree [OF s0]] by blast
    ultimately show ?l unfolding concat_eq_first [OF wf Cons] using r' len by metis
  qed
qed

lemma split_eq:
  assumes "\<forall>z \<in> set (split_splits attrs). valid_pos z"
  shows "split_get_output_shapes attrs t = Inr outs \<longleftrightarrow>
    split_splits attrs \<noteq> [] \<and> split_axis attrs < length (ts_dims t) \<and>
    ts_dims t ! split_axis attrs = sum_list (split_splits attrs) \<and>
    sum_list (split_splits attrs) \<le> INT_MAX \<and>
    outs = map (resized (split_axis attrs) t) (split_splits attrs)"
proof -
  have "res_map (split_for_split_size attrs t) zs = Inr (map (resized (split_axis attrs) t) zs)"
    if "split_axis attrs < length (ts_dims t)" for zs
    using that by (induction zs) (simp_all add: split_for_split_size_def ff_ordered_set_def)
  then show ?thesis
    using sum_positive_eq [OF assms]
    by (auto simp: split_get_output_shapes_def dim_at_idx_def container_ops)
qed

lemma sum_list_ge_length:
  assumes "\<forall>z \<in> set zs. valid_pos z"
  shows "length zs \<le> sum_list zs"
  using assms by (induction zs) (auto simp: valid_pos_def)

text \<open>Concat and Split are inverse to each other on unparallel shapes.\<close>

lemma concat_iff_split:
  assumes wf: "\<forall>s \<in> set inputs. wf_shape s \<and> axis < length (ts_dims s)"
    and rank: "length (ts_dims t) \<le> MAX_TENSOR_DIM"
  shows "concat_get_output_shape \<lparr> concat_axis = axis, concat_num_inputs = length inputs \<rparr> inputs = Inr t \<longleftrightarrow>
    split_get_output_shapes
      \<lparr> split_splits = map (\<lambda>s. ts_dims s ! axis) inputs, split_axis = axis \<rparr> t = Inr inputs"
proof -
  have v: "\<forall>z \<in> set (map (\<lambda>s. ts_dims s ! axis) inputs). valid_pos z"
    using wf wf_dims_nth by (auto simp: wf_shape_def)
  show ?thesis
    using wf rank v by (subst concat_eq, simp, subst split_eq, simp) auto
qed

lemma concat_rank:
  assumes wf: "\<forall>s \<in> set inputs. wf_shape s" and c: "concat_get_output_shape attrs inputs = Inr u"
  shows "concat_axis attrs < length (ts_dims u)"
    and "\<exists>s0 \<in> set inputs. length (ts_dims s0) = length (ts_dims u)"
proof -
  from concat_eq [OF wf, THEN iffD1, OF c] have ne: "inputs \<noteq> []"
    and "concat_axis attrs < length (ts_dims u)" by blast+
  then show "concat_axis attrs < length (ts_dims u)" by blast
  from ne obtain s0 rest where Cons: "inputs = s0 # rest" by (cases inputs) auto
  from concat_eq_first [OF wf Cons, THEN iffD1, OF c]
  have "u = resized (concat_axis attrs) s0
      (sum_list (map (\<lambda>s. ts_dims s ! concat_axis attrs) inputs))" by blast
  then have "length (ts_dims s0) = length (ts_dims u)" by simp
  with Cons show "\<exists>s0 \<in> set inputs. length (ts_dims s0) = length (ts_dims u)" by simp
qed

lemma concat_parallel_eq:
  assumes wf: "\<forall>s \<in> set inputs. wf_pshape s"
  shows "concat_get_output_parallel_shape attrs inputs = Inr t \<longleftrightarrow>
    concat_get_output_shape attrs (map get_reduced_shape inputs) = Inr (get_reduced_shape t) \<and>
    (\<forall>s \<in> set inputs. get_parallel_degrees s = get_parallel_degrees t) \<and>
    ptdd_shard_degrees (get_parallel_degrees t) ! concat_axis attrs = 1"
    (is "?l \<longleftrightarrow> ?r")
proof -
  let ?a = "concat_axis attrs"
  have all: "res_all_of (\<lambda>s. res_bind (shard_dim_at_idx s (relative_ff_dim_t_from_ff_dim_t ?a))
      (\<lambda>d. Inr (spd_degree d = 1))) inputs = Inr True \<longleftrightarrow>
    (\<forall>s \<in> set inputs. ?a < length (ptd_shard_dims (pts_dims s)) \<and>
      spd_degree (ptd_shard_dims (pts_dims s) ! ?a) = 1)"
    by (auto simp: res_all_of_True shard_dim_at_idx_def ptd_shard_dim_at_idx_def container_ops)
  have wf': "\<forall>s \<in> set (map get_reduced_shape inputs). wf_shape s"
    using wf by (auto simp: wf_pshape_def)
  have first: "\<exists>s0 \<in> set inputs. length (ts_dims (get_reduced_shape s0)) = length (ts_dims u)"
    and axis: "?a < length (ts_dims u)"
    if "concat_get_output_shape attrs (map get_reduced_shape inputs) = Inr u" for u
    using concat_rank [OF wf' that] by auto
  have ranks: "length (ptd_shard_dims (pts_dims s)) = length (ptdd_shard_degrees (get_parallel_degrees s))" for s
    by (simp add: shape_ops)
  show ?thesis
  proof
    assume ?l
    then obtain u d where c: "concat_get_output_shape attrs (map get_reduced_shape inputs) = Inr u"
      and p: "res_all_of (\<lambda>s. res_bind (shard_dim_at_idx s (relative_ff_dim_t_from_ff_dim_t ?a))
        (\<lambda>d. Inr (spd_degree d = 1))) inputs = Inr True"
      and q: "require_all_same1 (map get_parallel_degrees inputs) = Inr d"
      and t: "t = lift_to_parallel_with_dim_degrees u d"
      by (auto simp: concat_get_output_parallel_shape_def simp del: One_nat_def)
    have ones: "\<forall>s \<in> set inputs. ?a < length (ptd_shard_dims (pts_dims s)) \<and>
        spd_degree (ptd_shard_dims (pts_dims s) ! ?a) = 1" using p unfolding all .
    have d: "\<forall>s \<in> set inputs. get_parallel_degrees s = d" using q by (simp add: require_all_same1_eq)
    obtain s0 where s0: "s0 \<in> set inputs"
      and len: "length (ts_dims (get_reduced_shape s0)) = length (ts_dims u)"
      using first [OF c] by blast
    have "length (ptdd_shard_degrees d) = length (ts_dims u)"
      using d s0 len length_shard_degrees by metis
    then have parts: "get_reduced_shape t = u" "get_parallel_degrees t = d"
      by (simp_all add: t get_reduced_shape_lift get_parallel_degrees_lift)
    moreover have "ptdd_shard_degrees d ! ?a = 1"
      using d s0 ones get_parallel_degrees_simps(3) [of s0] by auto
    ultimately show ?r using c d by simp
  next
    assume r: ?r
    then have c: "concat_get_output_shape attrs (map get_reduced_shape inputs) = Inr (get_reduced_shape t)"
      and d: "\<And>s. s \<in> set inputs \<Longrightarrow> get_parallel_degrees s = get_parallel_degrees t"
      and one: "ptdd_shard_degrees (get_parallel_degrees t) ! ?a = 1" by blast+
    obtain s0 where s0: "s0 \<in> set inputs" using first [OF c] by blast
    then have ne: "inputs \<noteq> []" by auto
    have a: "?a < length (ptd_shard_dims (pts_dims t))"
      using axis [OF c] by (simp add: shape_ops)
    have "?a < length (ptd_shard_dims (pts_dims s)) \<and> spd_degree (ptd_shard_dims (pts_dims s) ! ?a) = 1"
      if "s \<in> set inputs" for s
    proof -
      have len: "?a < length (ptd_shard_dims (pts_dims s))" using a d [OF that] by (simp only: ranks)
      then have "spd_degree (ptd_shard_dims (pts_dims s) ! ?a) = ptdd_shard_degrees (get_parallel_degrees s) ! ?a"
        by (simp add: get_parallel_degrees_simps(3))
      with len one d [OF that] show ?thesis by simp
    qed
    then have "res_all_of (\<lambda>s. res_bind (shard_dim_at_idx s (relative_ff_dim_t_from_ff_dim_t ?a))
        (\<lambda>d. Inr (spd_degree d = 1))) inputs = Inr True" using all by blast
    moreover have "require_all_same1 (map get_sum_degree inputs) = Inr (get_sum_degree t)"
      "require_all_same1 (map get_discard_copy_degree inputs) = Inr (get_discard_copy_degree t)"
      "require_all_same1 (map get_parallel_degrees inputs) = Inr (get_parallel_degrees t)"
      using ne d by (auto simp: require_all_same1_eq simp flip: get_parallel_degrees_simps)
    ultimately show ?l using c
      by (simp add: concat_get_output_parallel_shape_def lift_of_parts)
  qed
qed

lemma split_parallel_eq:
  "split_get_output_parallel_shapes attrs t = Inr outs \<longleftrightarrow>
    (\<exists>us. split_get_output_shapes attrs (get_reduced_shape t) = Inr us \<and>
      split_axis attrs < length (ptd_shard_dims (pts_dims t)) \<and>
      ptdd_shard_degrees (get_parallel_degrees t) ! split_axis attrs = 1 \<and>
      length (split_splits attrs) \<le> INT_MAX \<and> length us = length (split_splits attrs) \<and>
      outs = map (\<lambda>u. lift_to_parallel_with_dim_degrees u (get_parallel_degrees t)) us)"
proof -
  have z: "map2 f us (repeat_element (length us) d) = map (\<lambda>u. f u d) us" for us :: "'a list" and f and d :: 'b
    by (simp add: repeat_element_eq_replicate zip_replicate2 comp_def)
  have d: "get_degree_for_parallel_tensor_dim_idx (get_parallel_degrees t) (shard_dim_idx (split_axis attrs)) =
      Inr x \<longleftrightarrow> split_axis attrs < length (ptd_shard_dims (pts_dims t)) \<and>
        x = ptdd_shard_degrees (get_parallel_degrees t) ! split_axis attrs" for x
    by (simp add: shard_dim_idx_def container_ops shape_ops)
  show ?thesis
    by (auto simp: split_get_output_parallel_shapes_def split_get_output_parallel_dim_degrees_def
        d container_ops num_elements_def int_ops z simp del: One_nat_def) (metis z)+
qed

text \<open>The parallel shapes of a list are the lifted reduced shapes when all degrees are the same.\<close>

lemma map_lift_eq:
  assumes "length (ptdd_shard_degrees d) = n" and "\<forall>u \<in> set us. length (ts_dims u) = n"
  shows "inputs = map (\<lambda>u. lift_to_parallel_with_dim_degrees u d) us \<longleftrightarrow>
    us = map get_reduced_shape inputs \<and> (\<forall>s \<in> set inputs. get_parallel_degrees s = d)"
proof
  assume "inputs = map (\<lambda>u. lift_to_parallel_with_dim_degrees u d) us"
  with assms show "us = map get_reduced_shape inputs \<and> (\<forall>s \<in> set inputs. get_parallel_degrees s = d)"
    by (auto simp: get_reduced_shape_lift get_parallel_degrees_lift map_idI)
next
  assume "us = map get_reduced_shape inputs \<and> (\<forall>s \<in> set inputs. get_parallel_degrees s = d)"
  then show "inputs = map (\<lambda>u. lift_to_parallel_with_dim_degrees u d) us"
    using lift_of_parts by (auto intro!: map_idI [symmetric])
qed

section \<open>Lemmas on Flat, Reshape, Transpose and Upsample\<close>

lemma add_to_ff_dim_1: "add_to_ff_dim d 1 = Inr n \<longleftrightarrow> n = Suc d \<and> Suc d \<le> INT_MAX"
proof -
  have "int d + 1 = int (Suc d)" by simp
  then show ?thesis
    by (simp only: add_to_ff_dim_def res_bind_eq_Inr cint_of_nat mk_nonnegative_int_eq) auto
qed

text \<open>The list with the elements from \<open>a\<close> to \<open>b\<close> replaced by their product.\<close>

definition flatten :: "nat \<Rightarrow> nat \<Rightarrow> nat list \<Rightarrow> nat list" where
  "flatten a b xs = take a xs @ [prod_list (take (Suc b - a) (drop a xs))] @ drop (Suc b) xs"

lemma split_three: "a \<le> b \<Longrightarrow> xs = take a xs @ take (b - a) (drop a xs) @ drop b xs"
  by (metis append_take_drop_id drop_drop le_add_diff_inverse2)

lemma flatten_simps:
  assumes "a \<le> b" and "b < length xs"
  shows "prod_list (flatten a b xs) = prod_list xs" and "length (flatten a b xs) = length xs - (b - a)"
proof -
  have "prod_list xs = prod_list (take a xs @ take (Suc b - a) (drop a xs) @ drop (Suc b) xs)"
    using split_three [of a "Suc b" xs] assms by simp
  then show "prod_list (flatten a b xs) = prod_list xs" by (simp add: flatten_def)
  show "length (flatten a b xs) = length xs - (b - a)" using assms by (simp add: flatten_def)
qed

lemma wf_flatten:
  assumes "wf_dims xs" and "prod_list (take (Suc b - a) (drop a xs)) \<le> INT_MAX"
  shows "wf_dims (flatten a b xs)"
proof -
  have sub: "wf_dims ys" if "set ys \<subseteq> set xs" for ys using assms(1) that by (rule wf_dims_sub)
  have "set (take (Suc b - a) (drop a xs)) \<subseteq> set xs" by (meson order.trans set_drop_subset set_take_subset)
  from sub [OF this] have "0 < prod_list (take (Suc b - a) (drop a xs))"
    by (intro prod_list_pos wf_dims_pos)
  with assms(2) sub [OF set_take_subset] sub [OF set_drop_subset] show ?thesis
    by (simp add: flatten_def valid_pos_def)
qed

lemma flat_shape_eq:
  "flat_get_output_shape attrs u = Inr v \<longleftrightarrow>
     flat_start_dim attrs < length (ts_dims u) \<and> flat_end_dim attrs < length (ts_dims u) \<and>
     Suc (flat_end_dim attrs) \<le> INT_MAX \<and>
     (if flat_end_dim attrs < flat_start_dim attrs then v = u
      else (\<forall>x \<in> set (take (Suc (flat_end_dim attrs) - flat_start_dim attrs)
              (drop (flat_start_dim attrs) (ts_dims u))). 0 < x) \<and>
        prod_list (take (Suc (flat_end_dim attrs) - flat_start_dim attrs)
            (drop (flat_start_dim attrs) (ts_dims u))) \<le> INT_MAX \<and>
        v = TensorShape (flatten (flat_start_dim attrs) (flat_end_dim attrs) (ts_dims u)) (ts_data_type u))"
  by (auto simp: flat_get_output_shape_def container_ops add_to_ff_dim_1 flatten_def int_ops
      ff_ordered_concat_def)

lemma flat_degrees_eq:
  "flat_get_output_parallel_dim_degrees attrs d = Inr e \<longleftrightarrow>
     flat_start_dim attrs < length (ptdd_shard_degrees d) \<and>
     flat_end_dim attrs < length (ptdd_shard_degrees d) \<and>
     (if flat_end_dim attrs < flat_start_dim attrs then e = d
      else (\<forall>x \<in> set (take (Suc (flat_end_dim attrs) - flat_start_dim attrs)
              (drop (flat_start_dim attrs) (ptdd_shard_degrees d))). x = 1) \<and>
        Suc (flat_end_dim attrs) \<le> INT_MAX \<and>
        e = ParallelTensorDimDegrees (ptdd_sum_degree d) (ptdd_discard_copy_degree d)
          (flatten (flat_start_dim attrs) (flat_end_dim attrs) (ptdd_shard_degrees d)))"
proof -
  have p: "prod_list xs = Suc 0" if "\<forall>x \<in> set xs. x = Suc 0" for xs :: "nat list"
    using that by (induction xs) auto
  show ?thesis
    by (auto simp: flat_get_output_parallel_dim_degrees_def container_ops add_to_ff_dim_1 flatten_def
        int_ops ff_ordered_concat_def p INT_MAX_def)
qed

interpretation flat: degree_conserving "flat_get_output_shape attrs"
    "flat_get_output_parallel_dim_degrees attrs" "flat_get_output_parallel_shape attrs" True for attrs
proof (unfold_locales, goal_cases)
  case (1 s t)
  then show ?case by (auto simp: flat_get_output_parallel_shape_def)
next
  case (2 u u' d d')
  then show ?case
    by (auto simp: flat_shape_eq flat_degrees_eq flatten_simps split: if_splits)
next
  case (3 u u')
  then show ?case by (auto simp: flat_shape_eq wf_shape_def wf_flatten split: if_splits)
next
  case (4 d d')
  have "prod_list xs = Suc 0" if "\<forall>x \<in> set xs. x = Suc 0" for xs :: "nat list"
    using that by (induction xs) auto
  with 4 show ?case
    by (auto simp: flat_degrees_eq wf_degrees_iff wf_flatten INT_MAX_def split: if_splits)
next
  case (5 d d')
  then show ?case
    by (auto simp: flat_degrees_eq total_degree_def flatten_simps split: if_splits)
qed

lemma upsample_shape_eq:
  "upsample_get_output_shape attrs u = Inr v \<longleftrightarrow>
     upsample_mode attrs = Upsample_NEAREST \<and>
     (\<exists>n c h w h' w'. ts_dims u = [n, c, h, w] \<and>
        positive_int_mul w (upsample_scale_factor attrs) = Inr w' \<and>
        positive_int_mul h (upsample_scale_factor attrs) = Inr h' \<and>
        v = TensorShape [n, c, h', w'] (ts_data_type u))"
proof -
  have four: "length (ts_dims u) = 4 \<longleftrightarrow> (\<exists>n c h w. ts_dims u = [n, c, h, w])"
    by (simp add: length_4_conv)
  show ?thesis
    by (cases u) (auto simp: upsample_get_output_shape_def upsample_check_mode_def get_num_dims_eq
        ff_ordered_at_rel_def ff_ordered_set_rel_def vector_at_def length_4_conv MAX_TENSOR_DIM_def
        numeral_2_eq_2 numeral_3_eq_3)
qed

interpretation upsample: degree_conserving "upsample_get_output_shape attrs"
    "upsample_get_output_parallel_dim_degrees attrs" "upsample_get_output_parallel_shape attrs" True for attrs
proof (unfold_locales, goal_cases)
  case (1 s t)
  then show ?case by (auto simp: upsample_get_output_parallel_shape_def)
next
  case (3 u u')
  then show ?case by (auto simp: upsample_shape_eq wf_shape_def dest: valid_pos_mul)
qed (auto simp: upsample_shape_eq upsample_get_output_parallel_dim_degrees_def upsample_check_mode_def)

text \<open>Whatever keys the permutation gives, the values that arrive are the ones that were there.\<close>

lemma mset_permute_ff_ordered:
  assumes "permute_ff_ordered p xs = Inr ys"
  shows "mset ys = mset xs"
proof -
  from assms obtain ks where c: "card (set ks) = length xs" and len: "length ks = length xs"
    and y: "ff_ordered_from_map (map_of (zip ks xs)) = Inr ys"
    by (auto simp: permute_ff_ordered_def map_keys_ff_ordered_def dest: res_map_length)
  from c len have d: "distinct ks" by (metis card_distinct)
  then have dz: "distinct (map fst (zip ks xs))" using len by simp
  have "map_of (zip ks xs) = ff_ordered_enumerate ys"
    using y finite_dom_map_of by (rule ff_ordered_enumerate_from_map)
  then have m: "map_of (zip ks xs) = map_of (zip [0..<length ys] ys)"
    by (simp add: ff_ordered_enumerate_def)
  have dy: "distinct (map fst (zip [0..<length ys] ys))" by simp
  have "set (zip ks xs) = set (zip [0..<length ys] ys)"
    using m map_of_eq_Some_iff [OF dz] map_of_eq_Some_iff [OF dy] by auto
  then have "mset (zip ks xs) = mset (zip [0..<length ys] ys)"
    using dz dy set_eq_iff_mset_eq_distinct by (metis distinct_zipI1 distinct_upt d len length_upt)
  then have "mset (map snd (zip ks xs)) = mset (map snd (zip [0..<length ys] ys))" by (metis mset_map)
  moreover have "map snd (zip ks xs) = xs" "map snd (zip [0..<length ys] ys) = ys" using len by simp_all
  ultimately show ?thesis by simp
qed

lemma prod_list_mset: "mset ys = mset xs \<Longrightarrow> prod_list ys = prod_list (xs :: nat list)"
  by (metis prod_mset_prod_list)

lemma transpose_shape_mset:
  "transpose_get_output_shape p u = Inr v \<Longrightarrow> mset (ts_dims v) = mset (ts_dims u)"
  by (auto simp: transpose_get_output_shape_def permute_tensor_shape_def permute_tensor_dims_def
      dest: mset_permute_ff_ordered)

lemma transpose_degrees_mset:
  assumes "transpose_get_output_parallel_dim_degrees p d = Inr e"
  shows "mset (ptdd_shard_degrees e) = mset (ptdd_shard_degrees d)"
    and "ptdd_sum_degree e = ptdd_sum_degree d"
    and "ptdd_discard_copy_degree e = ptdd_discard_copy_degree d"
  using assms mset_permute_ff_ordered
  by (auto simp: transpose_get_output_parallel_dim_degrees_def permute_parallel_tensor_dim_degrees_def)

lemma wf_dims_mset: "mset ys = mset xs \<Longrightarrow> wf_dims ys = wf_dims xs"
  unfolding wf_dims_def by (metis set_mset_mset)

interpretation transpose: degree_conserving "transpose_get_output_shape p"
    "transpose_get_output_parallel_dim_degrees p" "transpose_get_output_parallel_shape p" True for p
proof (unfold_locales, goal_cases)
  case (1 s t)
  then show ?case by (auto simp: transpose_get_output_parallel_shape_def)
next
  case (2 u u' d d')
  then show ?case
    using transpose_shape_mset [of p u u'] transpose_degrees_mset(1) [of p d d'] by (metis size_mset)
next
  case (3 u u')
  then show ?case using transpose_shape_mset [of p u u'] wf_dims_mset unfolding wf_shape_def by blast
next
  case (4 d d')
  then show ?case using transpose_degrees_mset [of p d d'] wf_dims_mset unfolding wf_degrees_iff by metis
next
  case (5 d d')
  then show ?case
    using transpose_degrees_mset [of p d d'] prod_list_mset unfolding total_degree_def by metis
qed

text \<open>On its own rank, the parallel inference of Transpose permutes the parallel shape.\<close>

lemma transpose_parallel_eq_permute:
  assumes p: "wf_perm (length (ptd_shard_dims (pts_dims s))) p"
    and n: "length (ptd_shard_dims (pts_dims s)) \<le> MAX_TENSOR_DIM"
  shows "transpose_get_output_parallel_shape p s = permute_parallel_tensor_shape p s"
proof -
  let ?ds = "ptd_shard_dims (pts_dims s)"
  let ?t = "ParallelTensorShape (ParallelTensorDims (perm_list p ?ds) (ptd_replica_dims (pts_dims s)))
    (pts_data_type s)"
  have "transpose_get_output_shape p (get_reduced_shape s) = Inr (get_reduced_shape ?t)"
    using p n map_perm_list [OF p, of spd_size]
    by (simp add: transpose_get_output_shape_def permute_tensor_shape_def permute_tensor_dims_eq
        get_reduced_shape_simps get_reduced_shape_def get_reduced_dims_def ff_ordered_transform_def)
  moreover have "transpose_get_output_parallel_dim_degrees p (get_parallel_degrees s) =
      Inr (get_parallel_degrees ?t)"
    using p map_perm_list [OF p, of spd_degree]
    by (simp add: transpose_get_output_parallel_dim_degrees_def permute_parallel_tensor_dim_degrees_def
        permute_ff_ordered_eq get_parallel_degrees_def ptd_get_parallel_degrees_def
        ff_ordered_shard_degrees_def ff_ordered_transform_def)
  ultimately have "transpose_get_output_parallel_shape p s = Inr ?t" by (simp add: transpose.par_iff)
  moreover have "permute_parallel_tensor_shape p s = Inr ?t"
    using p by (simp add: permute_parallel_tensor_shape_def permute_parallel_tensor_dims_def
        permute_ff_ordered_eq)
  ultimately show ?thesis by simp
qed

interpretation transpose_pshape: permutable "\<lambda>s. length (ptd_shard_dims (pts_dims s))"
    transpose_get_output_parallel_shape
proof (unfold_locales, goal_cases)
  case (1 x p)
  then show ?case by (metis transpose_parallel_eq_permute pshape.act_total)
next
  case (2 x p q r y)
  then have "permute_parallel_tensor_shape p x = Inr y"
    by (simp add: transpose_parallel_eq_permute)
  moreover from this have "length (ptd_shard_dims (pts_dims y)) = length (ptd_shard_dims (pts_dims x))"
    using 2 pshape.act_total [of x p] by auto
  ultimately show ?case
    using 2 pshape.act_comp [of x p q r y] by (simp add: transpose_parallel_eq_permute)
next
  case (3 x p)
  then show ?case by (simp add: transpose_parallel_eq_permute pshape.act_id)
qed

lemma reshape_parallel_eq:
  "reshape_get_output_parallel_shape shape s = Inr t \<longleftrightarrow>
     reshape_get_output_shape shape (get_reduced_shape s) = Inr shape \<and>
     (\<forall>x \<in> set (ptdd_shard_degrees (get_parallel_degrees s)). x = 1) \<and>
     t = lift_to_parallel_with_dim_degrees shape (get_parallel_degrees s)"
  using product_eq_one [of "ptdd_shard_degrees (get_parallel_degrees s)"]
  by (auto simp: reshape_get_output_parallel_shape_def reshape_get_output_shape_def
      reshape_get_output_parallel_dim_degrees_def)

section \<open>Properties\<close>

text \<open>
  Split and Concat are inverse to each other: for well-formed parallel shapes that have the
  axis, concatenating \<open>inputs\<close> along the axis gives \<open>t\<close> exactly when splitting \<open>t\<close> along the axis into the
  sizes of the inputs gives \<open>inputs\<close>.
\<close>

theorem split_inverts_concat:
  assumes "\<forall>s \<in> set inputs. wf_pshape s \<and> axis < length (ptd_shard_dims (pts_dims s))"
    and "length (ptd_shard_dims (pts_dims t)) \<le> MAX_TENSOR_DIM"
  shows "concat_get_output_parallel_shape
        \<lparr> concat_axis = axis, concat_num_inputs = length inputs \<rparr> inputs = Inr t \<longleftrightarrow>
      split_get_output_parallel_shapes \<lparr> split_splits =
        map (\<lambda>s. spd_size (ptd_shard_dims (pts_dims s) ! axis)) inputs, split_axis = axis \<rparr> t = Inr inputs"
    (is "?l \<longleftrightarrow> ?r")
proof -
  let ?us = "map get_reduced_shape inputs" and ?u = "get_reduced_shape t"
  let ?d = "get_parallel_degrees t"
  let ?split = "\<lparr> split_splits = map (\<lambda>u. ts_dims u ! axis) ?us, split_axis = axis \<rparr>"
  have sizes: "map (\<lambda>s. spd_size (ptd_shard_dims (pts_dims s) ! axis)) inputs =
      map (\<lambda>u. ts_dims u ! axis) ?us"
    using assms(1) by (simp add: shape_ops)
  have wf: "\<forall>u \<in> set ?us. wf_shape u \<and> axis < length (ts_dims u)"
    using assms(1) by (auto simp: wf_pshape_def shape_ops)
  then have v: "\<forall>z \<in> set (split_splits ?split). valid_pos z"
    using wf_dims_nth by (auto simp: wf_shape_def)
  have rank: "length (ts_dims ?u) \<le> MAX_TENSOR_DIM" using assms(2) by (simp add: shape_ops)
  have lift: "inputs = map (\<lambda>u. lift_to_parallel_with_dim_degrees u ?d) us \<longleftrightarrow>
      us = ?us \<and> (\<forall>s \<in> set inputs. get_parallel_degrees s = ?d)"
    if "split_get_output_shapes ?split ?u = Inr us" for us
    using that unfolding split_eq [OF v]
    by (intro map_lift_eq [where n = "length (ts_dims ?u)"]) (auto simp: shape_ops)
  have bound: "length (split_splits ?split) \<le> INT_MAX \<and> axis < length (ptd_shard_dims (pts_dims t))"
    if "split_get_output_shapes ?split ?u = Inr us" for us
    using that sum_list_ge_length [OF v] unfolding split_eq [OF v] by (simp add: shape_ops)
  have "?l \<longleftrightarrow> split_get_output_shapes ?split ?u = Inr ?us \<and>
      (\<forall>s \<in> set inputs. get_parallel_degrees s = ?d) \<and> ptdd_shard_degrees ?d ! axis = 1"
    using concat_iff_split [OF wf rank] assms(1) by (simp add: concat_parallel_eq)
  also have "\<dots> \<longleftrightarrow> ?r"
  proof
    assume a: "split_get_output_shapes ?split ?u = Inr ?us \<and>
      (\<forall>s \<in> set inputs. get_parallel_degrees s = ?d) \<and> ptdd_shard_degrees ?d ! axis = 1"
    then have "inputs = map (\<lambda>u. lift_to_parallel_with_dim_degrees u ?d) ?us"
      using lift by blast
    with a show ?r unfolding sizes split_parallel_eq using bound [of ?us] by auto
  next
    assume ?r
    then obtain us where us: "split_get_output_shapes ?split ?u = Inr us" and one: "ptdd_shard_degrees ?d ! axis = 1"
      and inputs: "inputs = map (\<lambda>u. lift_to_parallel_with_dim_degrees u ?d) us"
      unfolding sizes split_parallel_eq split_attrs.select_convs by blast
    from lift [OF us] inputs have "us = ?us" "\<forall>s \<in> set inputs. get_parallel_degrees s = ?d" by metis+
    with us one show "split_get_output_shapes ?split ?u = Inr ?us \<and>
        (\<forall>s \<in> set inputs. get_parallel_degrees s = ?d) \<and> ptdd_shard_degrees ?d ! axis = 1"
      by metis
  qed
  finally show ?thesis .
qed

theorem split_inverts_concat_witness:
  "concat_get_output_parallel_shape \<lparr> concat_axis = 1, concat_num_inputs = 2 \<rparr>
     [ParallelTensorShape (ParallelTensorDims [ShardParallelDim 8 2, ShardParallelDim 2 1]
       (ReplicaParallelDimSet 1 3)) FLOAT,
      ParallelTensorShape (ParallelTensorDims [ShardParallelDim 8 2, ShardParallelDim 4 1]
       (ReplicaParallelDimSet 1 3)) FLOAT] =
   Inr (ParallelTensorShape (ParallelTensorDims [ShardParallelDim 8 2, ShardParallelDim 6 1]
       (ReplicaParallelDimSet 1 3)) FLOAT)"
proof -
  let ?s = "\<lambda>n. ParallelTensorShape (ParallelTensorDims [ShardParallelDim 8 2, ShardParallelDim n 1]
       (ReplicaParallelDimSet 1 3)) FLOAT"
  have wf: "\<forall>s \<in> set [?s 2, ?s 4]. wf_pshape s \<and> 1 < length (ptd_shard_dims (pts_dims s))"
    by (simp add: wf_pshape_def wf_degrees_iff wf_shape_def wf_dims_def shape_ops valid_pos_def
        INT_MAX_def get_sum_degree_def get_discard_copy_degree_def)
  have rank: "length (ptd_shard_dims (pts_dims (?s 6))) \<le> MAX_TENSOR_DIM"
    by (simp add: MAX_TENSOR_DIM_def)
  have "split_get_output_parallel_shapes \<lparr> split_splits = [2, 4], split_axis = 1 \<rparr> (?s 6) =
      Inr [?s 2, ?s 4]"
    by code_simp
  with split_inverts_concat [OF wf rank, THEN iffD2] show ?thesis by (simp add: numeral_2_eq_2)
qed


text \<open>
  Flattening loses nothing: on a well-formed parallel shape, the shape that Flat infers is
  well-formed, has as many elements as the input and lies on as many devices.
\<close>

theorem flat_preserves_elements:
  assumes "wf_pshape s" and "flat_get_output_parallel_shape attrs s = Inr t"
  shows "wf_pshape t \<and>
    (get_num_elements (ts_dims (get_reduced_shape t)) = Inr n \<longleftrightarrow>
     get_num_elements (ts_dims (get_reduced_shape s)) = Inr n) \<and>
    (get_total_parallel_degree t = Inr m \<longleftrightarrow> get_total_parallel_degree s = Inr m)"
proof -
  have wf: "wf_pshape t" using flat.par_wf assms by blast
  have "prod_list (ts_dims (get_reduced_shape t)) = prod_list (ts_dims (get_reduced_shape s))"
    using flat.par_parts(1) [OF assms(2)] by (auto simp: flat_shape_eq flatten_simps split: if_splits)
  then show ?thesis
    using wf assms(1) flat.par_total [OF TrueI assms]
    by (simp add: wf_pshape_def wf_shape_def get_num_elements_wf)
qed

theorem flat_preserves_elements_witness:
  "get_num_elements (ts_dims (get_reduced_shape (ParallelTensorShape (ParallelTensorDims
     [ShardParallelDim 8 2, ShardParallelDim 24 1] (ReplicaParallelDimSet 3 1)) FLOAT))) = Inr 192"
proof -
  let ?s = "ParallelTensorShape (ParallelTensorDims
     [ShardParallelDim 8 2, ShardParallelDim 4 1, ShardParallelDim 6 1] (ReplicaParallelDimSet 3 1)) FLOAT"
  let ?t = "ParallelTensorShape (ParallelTensorDims
     [ShardParallelDim 8 2, ShardParallelDim 24 1] (ReplicaParallelDimSet 3 1)) FLOAT"
  have wf: "wf_pshape ?s"
    by (simp add: wf_pshape_def wf_degrees_iff wf_shape_def wf_dims_def shape_ops valid_pos_def
        INT_MAX_def get_sum_degree_def get_discard_copy_degree_def)
  have f: "flat_get_output_parallel_shape \<lparr> flat_start_dim = 1, flat_end_dim = 2 \<rparr> ?s = Inr ?t"
    by code_simp
  have n: "get_num_elements (ts_dims (get_reduced_shape ?s)) = Inr 192" by code_simp
  from flat_preserves_elements [OF wf f, of 192] n show ?thesis by simp
qed

text \<open>
  Transposing by the inverse permutation undoes a transposition, also of parallel shapes: both
  calls return, and the second gives the input of the first.
\<close>

theorem transpose_inverse:
  assumes "wf_perm (length (ptd_shard_dims (pts_dims s))) p"
    and "length (ptd_shard_dims (pts_dims s)) \<le> MAX_TENSOR_DIM"
  shows "\<exists>q t. invert_tensor_dim_permutation p = Inr q \<and>
    transpose_get_output_parallel_shape p s = Inr t \<and>
    transpose_get_output_parallel_shape q t = Inr s"
  by (rule transpose_pshape.act_invert [OF assms])

theorem transpose_inverse_witness:
  "\<exists>q t. invert_tensor_dim_permutation rotate3 = Inr q \<and>
     transpose_get_output_parallel_shape rotate3 (ParallelTensorShape (ParallelTensorDims
       [ShardParallelDim 6 1, ShardParallelDim 4 2, ShardParallelDim 8 4]
       (ReplicaParallelDimSet 1 2)) FLOAT) = Inr t \<and>
     transpose_get_output_parallel_shape q t = Inr (ParallelTensorShape (ParallelTensorDims
       [ShardParallelDim 6 1, ShardParallelDim 4 2, ShardParallelDim 8 4]
       (ReplicaParallelDimSet 1 2)) FLOAT)"
  using wf_rotate3 by (intro transpose_inverse) (simp_all add: numeral_3_eq_3 MAX_TENSOR_DIM_def)

text \<open>
  Reshape gives the parallel output the rank of the input: lifting zips the new sizes with the
  input's degrees and drops what is left. The inferred shape has the requested reduced shape exactly
  when its rank is not larger than the input's.
\<close>

theorem reshape_correct_iff_rank:
  assumes "reshape_get_output_parallel_shape shape s = Inr t"
  shows "(get_reduced_shape t = shape \<longleftrightarrow>
      length (ts_dims shape) \<le> length (ptd_shard_dims (pts_dims s))) \<and>
    length (ptd_shard_dims (pts_dims t)) =
      min (length (ts_dims shape)) (length (ptd_shard_dims (pts_dims s)))"
proof -
  have t: "t = lift_to_parallel_with_dim_degrees shape (get_parallel_degrees s)"
    using assms by (simp add: reshape_parallel_eq)
  then have len: "length (ptd_shard_dims (pts_dims t)) =
      min (length (ts_dims shape)) (length (ptd_shard_dims (pts_dims s)))"
    by (simp add: shape_ops)
  have "get_reduced_shape t = shape" if "length (ts_dims shape) \<le> length (ptd_shard_dims (pts_dims s))"
    using that unfolding t by (intro get_reduced_shape_lift) (simp add: shape_ops)
  moreover have "length (ts_dims (get_reduced_shape t)) = length (ptd_shard_dims (pts_dims t))"
    by (simp add: shape_ops)
  ultimately show ?thesis using len by (metis min.absorb_iff1)
qed

theorem reshape_correct_iff_rank_witness:
  "get_reduced_shape (ParallelTensorShape (ParallelTensorDims [ShardParallelDim 2 1]
     (ReplicaParallelDimSet 1 1)) FLOAT) \<noteq> TensorShape [2, 2] FLOAT"
proof -
  let ?s = "\<lambda>n. ParallelTensorShape (ParallelTensorDims [ShardParallelDim n 1] (ReplicaParallelDimSet 1 1)) FLOAT"
  have "reshape_get_output_parallel_shape (TensorShape [2, 2] FLOAT) (?s 4) = Inr (?s 2)" by code_simp
  from reshape_correct_iff_rank [OF this] show ?thesis by simp
qed

end
