(* ===== verification/Op_Attention.thy ===== *)
theory Op_Attention
  imports Parallel_Inference
begin

text \<open>
  Multi-head attention, \<open>lib/op-attrs/src/op-attrs/ops/attention.cc\<close>, with the parsing of its three
  inputs in \<open>ops/attention/multihead_attention_inputs.cc\<close> and
  \<open>multihead_attention_parallel_inputs.cc\<close>.
\<close>

section \<open>Definitions\<close>

record multi_head_attention_inputs =
  mhai_batch_size :: positive_int
  mhai_sequence_length :: positive_int
  mhai_query_size :: positive_int
  mhai_key_size :: positive_int
  mhai_value_size :: positive_int
  mhai_datatype :: data_type

record multi_head_attention_parallel_inputs =
  mhap_batch_dim :: shard_parallel_dim
  mhap_sequence_dim :: shard_parallel_dim
  mhap_query_dim :: shard_parallel_dim
  mhap_key_dim :: shard_parallel_dim
  mhap_value_dim :: shard_parallel_dim
  mhap_discard_copy_degree :: positive_int
  mhap_datatype :: data_type

text \<open>An early return of \<open>tl::unexpected\<close> unless a condition holds.\<close>

abbreviation expect :: "bool \<Rightarrow> reason \<Rightarrow> unit res" where
  "expect b r \<equiv> require b (Unexpected r)"

definition all_same :: "'a \<Rightarrow> 'a \<Rightarrow> 'a \<Rightarrow> bool" where
  "all_same x y z \<longleftrightarrow> x = y \<and> y = z"

definition parse_attention_input_shape ::
    "tensor_shape \<Rightarrow> tensor_shape \<Rightarrow> tensor_shape \<Rightarrow> multi_head_attention_inputs res" where
  "parse_attention_input_shape input_q input_k input_v =
     res_bind (get_num_dims (ts_dims input_q)) (\<lambda>n_q.
     res_bind (expect (n_q = 3) Wrong_num_dims) (\<lambda>_.
     res_bind (get_num_dims (ts_dims input_k)) (\<lambda>n_k.
     res_bind (expect (n_k = 3) Wrong_num_dims) (\<lambda>_.
     res_bind (get_num_dims (ts_dims input_v)) (\<lambda>n_v.
     res_bind (expect (n_v = 3) Wrong_num_dims) (\<lambda>_.
     res_bind (dim_at_rel_idx (ts_dims input_q) (- 2)) (\<lambda>seq_len_q.
     res_bind (dim_at_rel_idx (ts_dims input_k) (- 2)) (\<lambda>seq_len_k.
     res_bind (dim_at_rel_idx (ts_dims input_v) (- 2)) (\<lambda>seq_len_v.
     res_bind (expect (all_same seq_len_q seq_len_k seq_len_v) Disagree_sequence_length) (\<lambda>_.
     res_bind (dim_at_rel_idx (ts_dims input_q) (- 3)) (\<lambda>batch_size_q.
     res_bind (dim_at_rel_idx (ts_dims input_k) (- 3)) (\<lambda>batch_size_k.
     res_bind (dim_at_rel_idx (ts_dims input_v) (- 3)) (\<lambda>batch_size_v.
     res_bind (expect (all_same batch_size_q batch_size_k batch_size_v) Disagree_batch_size) (\<lambda>_.
     res_bind (expect (all_same (ts_data_type input_q) (ts_data_type input_k) (ts_data_type input_v))
       Disagree_datatype) (\<lambda>_.
     res_bind (dim_at_rel_idx (ts_dims input_q) (- 1)) (\<lambda>q_size.
     res_bind (dim_at_rel_idx (ts_dims input_k) (- 1)) (\<lambda>k_size.
     res_bind (dim_at_rel_idx (ts_dims input_v) (- 1)) (\<lambda>v_size.
     Inr \<lparr> mhai_batch_size = batch_size_q, mhai_sequence_length = seq_len_q,
       mhai_query_size = q_size, mhai_key_size = k_size, mhai_value_size = v_size,
       mhai_datatype = ts_data_type input_q \<rparr>))))))))))))))))))"

fun unparallel_parse_failed :: "'a res \<Rightarrow> 'a res" where
  "unparallel_parse_failed (Inl (Unexpected r)) = Inl (Unexpected (Unparallel_parse_failed r))"
| "unparallel_parse_failed m = m"

definition parse_attention_parallel_input_shape ::
    "parallel_tensor_shape \<Rightarrow> parallel_tensor_shape \<Rightarrow> parallel_tensor_shape \<Rightarrow>
     multi_head_attention_parallel_inputs res" where
  "parse_attention_parallel_input_shape input_q input_k input_v =
     res_bind (unparallel_parse_failed (parse_attention_input_shape
       (get_reduced_shape input_q) (get_reduced_shape input_k) (get_reduced_shape input_v))) (\<lambda>_.
     res_bind (pts_num_shard_dims input_q) (\<lambda>n_q.
     res_bind (expect (n_q = 3) Wrong_num_dims) (\<lambda>_.
     res_bind (pts_num_shard_dims input_k) (\<lambda>n_k.
     res_bind (expect (n_k = 3) Wrong_num_dims) (\<lambda>_.
     res_bind (pts_num_shard_dims input_v) (\<lambda>n_v.
     res_bind (expect (n_v = 3) Wrong_num_dims) (\<lambda>_.
     res_bind (shard_dim_at_idx input_q (- 2)) (\<lambda>seq_len_q.
     res_bind (expect (spd_degree seq_len_q = 1) Shard_degree_not_one) (\<lambda>_.
     res_bind (shard_dim_at_idx input_k (- 2)) (\<lambda>seq_len_k.
     res_bind (expect (spd_degree seq_len_k = 1) Shard_degree_not_one) (\<lambda>_.
     res_bind (shard_dim_at_idx input_v (- 2)) (\<lambda>seq_len_v.
     res_bind (expect (spd_degree seq_len_v = 1) Shard_degree_not_one) (\<lambda>_.
     res_bind (shard_dim_at_idx input_q (- 3)) (\<lambda>batch_size_q.
     res_bind (shard_dim_at_idx input_k (- 3)) (\<lambda>batch_size_k.
     res_bind (shard_dim_at_idx input_v (- 3)) (\<lambda>batch_size_v.
     res_bind (expect (all_same (spd_degree batch_size_q) (spd_degree batch_size_k)
       (spd_degree batch_size_v)) Disagree_batch_degree) (\<lambda>_.
     res_bind (shard_dim_at_idx input_q (- 1)) (\<lambda>query_dim.
     res_bind (expect (\<not> 1 < spd_degree query_dim) Shard_degree_not_one) (\<lambda>_.
     res_bind (shard_dim_at_idx input_k (- 1)) (\<lambda>key_dim.
     res_bind (expect (\<not> 1 < spd_degree key_dim) Shard_degree_not_one) (\<lambda>_.
     res_bind (shard_dim_at_idx input_v (- 1)) (\<lambda>value_dim.
     res_bind (expect (\<not> 1 < spd_degree value_dim) Shard_degree_not_one) (\<lambda>_.
     res_bind (expect (all_same (get_discard_copy_degree input_q) (get_discard_copy_degree input_k)
       (get_discard_copy_degree input_v)) Disagree_discard_copy_degree) (\<lambda>_.
     Inr \<lparr> mhap_batch_dim = batch_size_q, mhap_sequence_dim = seq_len_q,
       mhap_query_dim = query_dim, mhap_key_dim = key_dim, mhap_value_dim = value_dim,
       mhap_discard_copy_degree = get_discard_copy_degree input_q,
       mhap_datatype = pts_data_type input_q \<rparr>))))))))))))))))))))))))"

definition attention_check_attrs :: "multi_head_attention_attrs \<Rightarrow> unit res" where
  "attention_check_attrs attrs = ASSERT (\<not> mha_add_bias_kv attrs)"

definition get_attention_incoming_tensor_roles ::
    "multi_head_attention_attrs \<Rightarrow> (tensor_slot_name \<rightharpoonup> incoming_tensor_role) res" where
  "get_attention_incoming_tensor_roles attrs =
     res_bind (attention_check_attrs attrs) (\<lambda>_.
     let roles = [Slot_QUERY \<mapsto> Role_INPUT, Slot_KEY \<mapsto> Role_INPUT, Slot_VALUE \<mapsto> Role_INPUT,
                  Slot_WEIGHT \<mapsto> Role_WEIGHT]
     in Inr (if mha_bias attrs
             then roles(Slot_INPUT_BIAS \<mapsto> Role_WEIGHT, Slot_OUTPUT_BIAS \<mapsto> Role_WEIGHT)
             else roles))"

definition attention_get_output_shape ::
    "multi_head_attention_attrs \<Rightarrow> tensor_shape \<Rightarrow> tensor_shape \<Rightarrow> tensor_shape \<Rightarrow> tensor_shape res" where
  "attention_get_output_shape attrs input_q input_k input_v =
     res_bind (attention_check_attrs attrs) (\<lambda>_.
     res_bind (parse_attention_input_shape input_q input_k input_v) (\<lambda>parsed.
     Inr (TensorShape [mhai_batch_size parsed, mhai_sequence_length parsed, mha_embed_dim attrs]
       (mhai_datatype parsed))))"

definition attention_get_weights_shape ::
    "multi_head_attention_attrs \<Rightarrow> tensor_shape \<Rightarrow> tensor_shape \<Rightarrow> tensor_shape \<Rightarrow> tensor_shape res" where
  "attention_get_weights_shape attrs input_q input_k input_v =
     res_bind (attention_check_attrs attrs) (\<lambda>_.
     res_bind (parse_attention_input_shape input_q input_k input_v) (\<lambda>parsed.
     res_bind (positive_int_mul (mhai_query_size parsed) (mha_kdim attrs)) (\<lambda>qProjectWeightSize.
     res_bind (positive_int_mul (mhai_key_size parsed) (mha_kdim attrs)) (\<lambda>kProjectWeightSize.
     res_bind (positive_int_mul (mhai_value_size parsed) (mha_vdim attrs)) (\<lambda>vProjectWeightSize.
     res_bind (positive_int_mul (mha_vdim attrs) (mha_embed_dim attrs)) (\<lambda>outWeightSize.
     res_bind (positive_int_add qProjectWeightSize kProjectWeightSize) (\<lambda>qk.
     res_bind (positive_int_add qk vProjectWeightSize) (\<lambda>qkv.
     res_bind (positive_int_add qkv outWeightSize) (\<lambda>qkvo.
     Inr (TensorShape [qkvo, mha_num_heads attrs] (mhai_datatype parsed)))))))))))"

definition attention_get_input_bias_shape ::
    "multi_head_attention_attrs \<Rightarrow> tensor_shape \<Rightarrow> tensor_shape \<Rightarrow> tensor_shape \<Rightarrow> tensor_shape res" where
  "attention_get_input_bias_shape attrs input_q input_k input_v =
     res_bind (attention_check_attrs attrs) (\<lambda>_.
     res_bind (parse_attention_input_shape input_q input_k input_v) (\<lambda>parsed.
     res_bind (positive_int_add (mha_kdim attrs) (mha_kdim attrs)) (\<lambda>kk.
     res_bind (positive_int_add kk (mha_vdim attrs)) (\<lambda>kkv.
     Inr (TensorShape [kkv] (mhai_datatype parsed))))))"

definition attention_get_output_bias_shape ::
    "multi_head_attention_attrs \<Rightarrow> tensor_shape \<Rightarrow> tensor_shape \<Rightarrow> tensor_shape \<Rightarrow> tensor_shape res" where
  "attention_get_output_bias_shape attrs input_q input_k input_v =
     res_bind (attention_check_attrs attrs) (\<lambda>_.
     res_bind (parse_attention_input_shape input_q input_k input_v) (\<lambda>parsed.
     Inr (TensorShape [mha_embed_dim attrs] (mhai_datatype parsed))))"

definition attention_get_weight_shapes ::
    "multi_head_attention_attrs \<Rightarrow> tensor_shape \<Rightarrow> tensor_shape \<Rightarrow> tensor_shape \<Rightarrow>
     (tensor_slot_name \<rightharpoonup> tensor_shape) res" where
  "attention_get_weight_shapes attrs input_q input_k input_v =
     res_bind (attention_get_weights_shape attrs input_q input_k input_v) (\<lambda>weights.
     let weight_shapes = [Slot_WEIGHT \<mapsto> weights]
     in if mha_bias attrs
        then res_bind (attention_get_input_bias_shape attrs input_q input_k input_v) (\<lambda>input_bias.
          res_bind (attention_get_output_bias_shape attrs input_q input_k input_v) (\<lambda>output_bias.
          Inr (weight_shapes(Slot_INPUT_BIAS \<mapsto> input_bias, Slot_OUTPUT_BIAS \<mapsto> output_bias))))
        else Inr weight_shapes)"

definition attention_get_weights_parallel_shape ::
    "multi_head_attention_attrs \<Rightarrow> parallel_tensor_shape \<Rightarrow> parallel_tensor_shape \<Rightarrow>
     parallel_tensor_shape \<Rightarrow> parallel_tensor_shape res" where
  "attention_get_weights_parallel_shape attrs input_q input_k input_v =
     res_bind (attention_check_attrs attrs) (\<lambda>_.
     res_bind (parse_attention_parallel_input_shape input_q input_k input_v) (\<lambda>parsed.
     res_bind (attention_get_weights_shape attrs (get_reduced_shape input_q)
       (get_reduced_shape input_k) (get_reduced_shape input_v)) (\<lambda>unpar_shape.
     let joined_dim_degree = 1;
         head_dim_degree = mhap_discard_copy_degree parsed
     in Inr (lift_to_parallel_with_degrees unpar_shape 1 (spd_degree (mhap_batch_dim parsed))
          [joined_dim_degree, head_dim_degree]))))"

definition attention_get_input_bias_parallel_shape ::
    "multi_head_attention_attrs \<Rightarrow> parallel_tensor_shape \<Rightarrow> parallel_tensor_shape \<Rightarrow>
     parallel_tensor_shape \<Rightarrow> parallel_tensor_shape res" where
  "attention_get_input_bias_parallel_shape attrs input_q input_k input_v =
     res_bind (attention_check_attrs attrs) (\<lambda>_.
     res_bind (parse_attention_parallel_input_shape input_q input_k input_v) (\<lambda>parsed.
     res_bind (attention_get_input_bias_shape attrs (get_reduced_shape input_q)
       (get_reduced_shape input_k) (get_reduced_shape input_v)) (\<lambda>unpar_shape.
     res_bind (positive_int_mul (spd_degree (mhap_batch_dim parsed)) (mhap_discard_copy_degree parsed))
       (\<lambda>discard_copy_degree.
     Inr (lift_to_parallel_with_degrees unpar_shape 1 discard_copy_degree [1])))))"

definition attention_get_output_bias_parallel_shape ::
    "multi_head_attention_attrs \<Rightarrow> parallel_tensor_shape \<Rightarrow> parallel_tensor_shape \<Rightarrow>
     parallel_tensor_shape \<Rightarrow> parallel_tensor_shape res" where
  "attention_get_output_bias_parallel_shape attrs input_q input_k input_v =
     res_bind (attention_check_attrs attrs) (\<lambda>_.
     res_bind (parse_attention_parallel_input_shape input_q input_k input_v) (\<lambda>parsed.
     res_bind (attention_get_output_bias_shape attrs (get_reduced_shape input_q)
       (get_reduced_shape input_k) (get_reduced_shape input_v)) (\<lambda>unpar_shape.
     res_bind (positive_int_mul (spd_degree (mhap_batch_dim parsed)) (mhap_discard_copy_degree parsed))
       (\<lambda>discard_copy_degree.
     Inr (lift_to_parallel_with_degrees unpar_shape 1 discard_copy_degree [1])))))"

definition attention_get_output_parallel_shape ::
    "multi_head_attention_attrs \<Rightarrow> parallel_tensor_shape \<Rightarrow> parallel_tensor_shape \<Rightarrow>
     parallel_tensor_shape \<Rightarrow> parallel_tensor_shape res" where
  "attention_get_output_parallel_shape attrs input_q input_k input_v =
     res_bind (attention_check_attrs attrs) (\<lambda>_.
     res_bind (parse_attention_parallel_input_shape input_q input_k input_v) (\<lambda>parsed.
     res_bind (attention_get_output_shape attrs (get_reduced_shape input_q)
       (get_reduced_shape input_k) (get_reduced_shape input_v)) (\<lambda>unpar_shape.
     let sum_degree = mhap_discard_copy_degree parsed;
         discard_copy_degree = 1;
         batch_degree = spd_degree (mhap_batch_dim parsed);
         seq_len_degree = 1;
         out_dim_degree = 1
     in Inr (lift_to_parallel_with_degrees unpar_shape sum_degree discard_copy_degree
          [batch_degree, seq_len_degree, out_dim_degree]))))"

definition attention_get_weight_parallel_shapes ::
    "multi_head_attention_attrs \<Rightarrow> parallel_tensor_shape \<Rightarrow> parallel_tensor_shape \<Rightarrow>
     parallel_tensor_shape \<Rightarrow> (tensor_slot_name \<rightharpoonup> parallel_tensor_shape) res" where
  "attention_get_weight_parallel_shapes attrs input_q input_k input_v =
     res_bind (attention_get_weights_parallel_shape attrs input_q input_k input_v) (\<lambda>weights.
     let weight_shapes = [Slot_WEIGHT \<mapsto> weights]
     in if mha_bias attrs
        then res_bind (attention_get_input_bias_parallel_shape attrs input_q input_k input_v)
          (\<lambda>input_bias.
          res_bind (attention_get_output_bias_parallel_shape attrs input_q input_k input_v)
            (\<lambda>output_bias.
          Inr (weight_shapes(Slot_INPUT_BIAS \<mapsto> input_bias, Slot_OUTPUT_BIAS \<mapsto> output_bias))))
        else Inr weight_shapes)"

definition attention_get_initializers ::
    "multi_head_attention_attrs \<Rightarrow> tensor_shape \<Rightarrow> tensor_shape \<Rightarrow> tensor_shape \<Rightarrow>
     initializer_attrs option \<Rightarrow> initializer_attrs option \<Rightarrow> initializer_attrs option \<Rightarrow>
     (tensor_slot_name \<rightharpoonup> initializer_attrs) res" where
  "attention_get_initializers attrs input_q input_k input_v maybe_weights_initializer
       maybe_input_bias_initializer maybe_output_bias_initializer =
     res_bind (attention_check_attrs attrs) (\<lambda>_.
     res_bind (expect (\<not> (\<not> mha_bias attrs \<and> maybe_input_bias_initializer \<noteq> None))
       Unexpected_initializer) (\<lambda>_.
     res_bind (expect (\<not> (\<not> mha_bias attrs \<and> maybe_output_bias_initializer \<noteq> None))
       Unexpected_initializer) (\<lambda>_.
     let value_or = (\<lambda>m d. case m of Some i \<Rightarrow> i | None \<Rightarrow> d);
         weights_initializer = value_or maybe_weights_initializer (Init_glorot_uniform 0);
         input_bias_initializer = value_or maybe_input_bias_initializer Init_zero;
         output_bias_initializer = value_or maybe_output_bias_initializer Init_zero
     in if mha_bias attrs
        then Inr [Slot_WEIGHT \<mapsto> weights_initializer, Slot_INPUT_BIAS \<mapsto> input_bias_initializer,
          Slot_OUTPUT_BIAS \<mapsto> output_bias_initializer]
        else Inr [Slot_WEIGHT \<mapsto> weights_initializer])))"

section \<open>Lemmas\<close>

lemma rank3:
  "get_num_dims ds = Inr n \<and> n = 3 \<longleftrightarrow> (\<exists>b s d. ds = [b, s, d]) \<and> n = 3"
  by (auto simp: get_num_dims_eq length_3_conv MAX_TENSOR_DIM_def)

lemma at_rel_3 [simp]:
  "ff_ordered_at_rel [b, s, d] (- 1) = Inr d"
  "ff_ordered_at_rel [b, s, d] (- 2) = Inr s"
  "ff_ordered_at_rel [b, s, d] (- 3) = Inr b"
  by (simp_all add: ff_ordered_at_rel_def vector_at_def)

lemma parse_attention_eq:
  "parse_attention_input_shape q k v = Inr p \<longleftrightarrow>
     (\<exists>b s dq dk dv dt. q = TensorShape [b, s, dq] dt \<and> k = TensorShape [b, s, dk] dt \<and>
        v = TensorShape [b, s, dv] dt \<and>
        p = \<lparr> mhai_batch_size = b, mhai_sequence_length = s, mhai_query_size = dq, mhai_key_size = dk,
          mhai_value_size = dv, mhai_datatype = dt \<rparr>)"
proof
  assume l: "parse_attention_input_shape q k v = Inr p"
  then have "\<exists>n. get_num_dims (ts_dims q) = Inr n \<and> n = 3" "\<exists>n. get_num_dims (ts_dims k) = Inr n \<and> n = 3"
    "\<exists>n. get_num_dims (ts_dims v) = Inr n \<and> n = 3"
    by (auto simp: parse_attention_input_shape_def)
  then obtain b s dq b' s' dk b'' s'' dv where d: "ts_dims q = [b, s, dq]" "ts_dims k = [b', s', dk]"
    "ts_dims v = [b'', s'', dv]"
    unfolding rank3 by blast
  with l have "b' = b" "b'' = b" "s' = s" "s'' = s" "ts_data_type k = ts_data_type q"
    "ts_data_type v = ts_data_type q"
    "p = \<lparr> mhai_batch_size = b, mhai_sequence_length = s, mhai_query_size = dq, mhai_key_size = dk,
          mhai_value_size = dv, mhai_datatype = ts_data_type q \<rparr>"
    by (auto simp: parse_attention_input_shape_def dim_at_rel_idx_def all_same_def)
  with d show "\<exists>b s dq dk dv dt. q = TensorShape [b, s, dq] dt \<and> k = TensorShape [b, s, dk] dt \<and>
      v = TensorShape [b, s, dv] dt \<and>
      p = \<lparr> mhai_batch_size = b, mhai_sequence_length = s, mhai_query_size = dq, mhai_key_size = dk,
        mhai_value_size = dv, mhai_datatype = dt \<rparr>"
    by (intro exI [of _ b] exI [of _ s] exI [of _ dq] exI [of _ dk] exI [of _ dv]
        exI [of _ "ts_data_type q"]) (cases q; cases k; cases v; simp)
next
  have n: "get_num_dims [x, y, z] = Inr 3" for x y z
    by (simp add: get_num_dims_eq MAX_TENSOR_DIM_def)
  assume "\<exists>b s dq dk dv dt. q = TensorShape [b, s, dq] dt \<and> k = TensorShape [b, s, dk] dt \<and>
      v = TensorShape [b, s, dv] dt \<and>
      p = \<lparr> mhai_batch_size = b, mhai_sequence_length = s, mhai_query_size = dq, mhai_key_size = dk,
        mhai_value_size = dv, mhai_datatype = dt \<rparr>"
  then show "parse_attention_input_shape q k v = Inr p"
    by (auto simp: parse_attention_input_shape_def dim_at_rel_idx_def all_same_def n)
qed

text \<open>A well-formed rank-3 shape of which only the batch dimension is sharded.\<close>

abbreviation batch_sharded ::
    "positive_int \<Rightarrow> positive_int \<Rightarrow> positive_int \<Rightarrow> positive_int \<Rightarrow> positive_int \<Rightarrow> positive_int \<Rightarrow>
     data_type \<Rightarrow> parallel_tensor_shape" where
  "batch_sharded b bd s d sd c dt \<equiv> ParallelTensorShape (ParallelTensorDims
     [ShardParallelDim b bd, ShardParallelDim s 1, ShardParallelDim d 1] (ReplicaParallelDimSet sd c)) dt"

lemma batch_shardedI:
  assumes "ptd_shard_dims (pts_dims x) = [x1, x2, x3]" and "spd_size x1 = b" and "spd_degree x1 = bd"
    and "spd_size x2 = s" and "spd_degree x2 = 1" and "spd_size x3 = e" and "valid_pos (spd_degree x3)"
    and "\<not> 1 < spd_degree x3" and "get_discard_copy_degree x = c" and "pts_data_type x = dt"
  shows "x = batch_sharded b bd s e (get_sum_degree x) c dt"
proof (rule pshape_eqI)
  have "spd_degree x3 = 1" using assms(7,8) by (simp add: valid_pos_def)
  then show "get_parallel_degrees x = get_parallel_degrees (batch_sharded b bd s e (get_sum_degree x) c dt)"
    using assms by (intro parallel_tensor_dim_degrees.equality)
      (simp_all add: shape_ops get_sum_degree_def get_discard_copy_degree_def)
  show "get_reduced_shape x = get_reduced_shape (batch_sharded b bd s e (get_sum_degree x) c dt)"
    using assms by (intro tensor_shape.equality) (simp_all add: shape_ops)
qed

lemma parse_attention_parallel_eq:
  assumes wf: "wf_pshape q" "wf_pshape k" "wf_pshape v"
    and p: "parse_attention_parallel_input_shape q k v = Inr p"
  shows "\<exists>b bd s dq dk dv sq sk sv c dt.
    q = batch_sharded b bd s dq sq c dt \<and> k = batch_sharded b bd s dk sk c dt \<and>
    v = batch_sharded b bd s dv sv c dt \<and> mhap_batch_dim p = ShardParallelDim b bd \<and>
    mhap_discard_copy_degree p = c"
proof -
  have three: "\<exists>x y z. ptd_shard_dims (pts_dims r) = [x, y, z]"
    if "ts_dims (get_reduced_shape r) = [b, s, d]" for r :: parallel_tensor_shape and b s d
    using that by (auto simp: shape_ops map_eq_Cons_conv)
  have "\<exists>u. parse_attention_input_shape (get_reduced_shape q) (get_reduced_shape k) (get_reduced_shape v) = Inr u"
    using p by (cases "parse_attention_input_shape (get_reduced_shape q) (get_reduced_shape k)
        (get_reduced_shape v)" rule: unparallel_parse_failed.cases)
      (auto simp: parse_attention_parallel_input_shape_def)
  then obtain b s dq dk dv dt where u: "get_reduced_shape q = TensorShape [b, s, dq] dt"
    "get_reduced_shape k = TensorShape [b, s, dk] dt" "get_reduced_shape v = TensorShape [b, s, dv] dt"
    unfolding parse_attention_eq by blast
  then obtain q1 q2 q3 k1 k2 k3 v1 v2 v3 where d:
    "ptd_shard_dims (pts_dims q) = [q1, q2, q3]" "ptd_shard_dims (pts_dims k) = [k1, k2, k3]"
    "ptd_shard_dims (pts_dims v) = [v1, v2, v3]"
    using three by (metis tensor_shape.select_convs(1))
  have sizes: "spd_size q1 = b" "spd_size k1 = b" "spd_size v1 = b" "spd_size q2 = s" "spd_size k2 = s"
      "spd_size v2 = s" "spd_size q3 = dq" "spd_size k3 = dk" "spd_size v3 = dv"
    and dts: "pts_data_type q = dt" "pts_data_type k = dt" "pts_data_type v = dt"
    using u d get_reduced_shape_simps [of q] get_reduced_shape_simps [of k] get_reduced_shape_simps [of v]
    by simp_all
  have pos: "valid_pos (spd_degree q3)" "valid_pos (spd_degree k3)" "valid_pos (spd_degree v3)"
    using wf d by (simp_all add: wf_pshape_def wf_degrees_iff shape_ops)
  have deg: "spd_degree q2 = 1" "spd_degree k2 = 1" "spd_degree v2 = 1"
      "spd_degree k1 = spd_degree q1" "spd_degree v1 = spd_degree q1"
      "\<not> 1 < spd_degree q3" "\<not> 1 < spd_degree k3" "\<not> 1 < spd_degree v3"
    and rep: "get_discard_copy_degree k = get_discard_copy_degree q"
      "get_discard_copy_degree v = get_discard_copy_degree q"
    and res: "mhap_batch_dim p = q1" "mhap_discard_copy_degree p = get_discard_copy_degree q"
    using p d by (auto simp: parse_attention_parallel_input_shape_def shard_dim_at_idx_def
        ptd_shard_dim_at_idx_def all_same_def simp del: One_nat_def)
  have q: "q = batch_sharded b (spd_degree q1) s dq (get_sum_degree q) (get_discard_copy_degree q) dt"
    by (rule batch_shardedI [OF d(1)]) (use sizes dts pos deg rep in simp_all)
  moreover have k: "k = batch_sharded b (spd_degree q1) s dk (get_sum_degree k) (get_discard_copy_degree q) dt"
    by (rule batch_shardedI [OF d(2)]) (use sizes dts pos deg rep in simp_all)
  moreover have v: "v = batch_sharded b (spd_degree q1) s dv (get_sum_degree v) (get_discard_copy_degree q) dt"
    by (rule batch_shardedI [OF d(3)]) (use sizes dts pos deg rep in simp_all)
  moreover have "q1 = ShardParallelDim b (spd_degree q1)" using sizes(1) by (cases q1) simp
  ultimately show ?thesis using res by metis
qed

definition wf_mha_attrs :: "multi_head_attention_attrs \<Rightarrow> bool" where
  "wf_mha_attrs attrs \<longleftrightarrow> valid_pos (mha_embed_dim attrs) \<and> valid_pos (mha_num_heads attrs) \<and>
     valid_pos (mha_kdim attrs) \<and> valid_pos (mha_vdim attrs)"

lemma attention_shapes_wf:
  assumes a: "wf_mha_attrs attrs" and q: "wf_shape q"
  shows "attention_get_output_shape attrs q k v = Inr t \<Longrightarrow> wf_shape t \<and> length (ts_dims t) = 3"
    and "attention_get_weights_shape attrs q k v = Inr t \<Longrightarrow> wf_shape t \<and> length (ts_dims t) = 2"
    and "attention_get_input_bias_shape attrs q k v = Inr t \<Longrightarrow> wf_shape t \<and> length (ts_dims t) = 1"
    and "attention_get_output_bias_shape attrs q k v = Inr t \<Longrightarrow> wf_shape t \<and> length (ts_dims t) = 1"
proof -
  assume "attention_get_output_shape attrs q k v = Inr t"
  with a q show "wf_shape t \<and> length (ts_dims t) = 3"
    by (auto simp: attention_get_output_shape_def parse_attention_eq wf_mha_attrs_def)
next
  assume "attention_get_weights_shape attrs q k v = Inr t"
  then obtain x where "t = TensorShape [x, mha_num_heads attrs] (ts_data_type t)" "valid_pos x"
    unfolding attention_get_weights_shape_def by (auto dest: valid_pos_add)
  with a show "wf_shape t \<and> length (ts_dims t) = 2"
    by (metis length_Cons list.size(3) numeral_2_eq_2 tensor_shape.select_convs(1) wf_dims_simps(1,2)
        wf_mha_attrs_def wf_shape_simps)
next
  assume "attention_get_input_bias_shape attrs q k v = Inr t"
  then show "wf_shape t \<and> length (ts_dims t) = 1"
    unfolding attention_get_input_bias_shape_def by (auto dest: valid_pos_add)
next
  assume "attention_get_output_bias_shape attrs q k v = Inr t"
  with a show "wf_shape t \<and> length (ts_dims t) = 1"
    by (auto simp: attention_get_output_bias_shape_def wf_mha_attrs_def)
qed

text \<open>The degrees of the four parallel shapes, from the batch degree \<open>bd\<close> and the discard-copy degree \<open>c\<close>.\<close>

lemma attention_parallel_shape_cases:
  assumes "parse_attention_parallel_input_shape q k v = Inr p"
    and "mhap_batch_dim p = ShardParallelDim b bd" and "mhap_discard_copy_degree p = c"
  shows "attention_get_output_parallel_shape attrs q k v = Inr t \<Longrightarrow>
      \<exists>u. attention_get_output_shape attrs (get_reduced_shape q) (get_reduced_shape k) (get_reduced_shape v) =
        Inr u \<and> t = lift_to_parallel_with_dim_degrees u (ParallelTensorDimDegrees c 1 [bd, 1, 1])"
    and "attention_get_weights_parallel_shape attrs q k v = Inr t \<Longrightarrow>
      \<exists>u. attention_get_weights_shape attrs (get_reduced_shape q) (get_reduced_shape k) (get_reduced_shape v) =
        Inr u \<and> t = lift_to_parallel_with_dim_degrees u (ParallelTensorDimDegrees 1 bd [1, c])"
    and "attention_get_input_bias_parallel_shape attrs q k v = Inr t \<Longrightarrow>
      \<exists>u d. attention_get_input_bias_shape attrs (get_reduced_shape q) (get_reduced_shape k) (get_reduced_shape v) =
        Inr u \<and> positive_int_mul bd c = Inr d \<and>
        t = lift_to_parallel_with_dim_degrees u (ParallelTensorDimDegrees 1 d [1])"
    and "attention_get_output_bias_parallel_shape attrs q k v = Inr t \<Longrightarrow>
      \<exists>u d. attention_get_output_bias_shape attrs (get_reduced_shape q) (get_reduced_shape k) (get_reduced_shape v) =
        Inr u \<and> positive_int_mul bd c = Inr d \<and>
        t = lift_to_parallel_with_dim_degrees u (ParallelTensorDimDegrees 1 d [1])"
  using assms
  by (auto simp: attention_get_output_parallel_shape_def attention_get_weights_parallel_shape_def
      attention_get_input_bias_parallel_shape_def attention_get_output_bias_parallel_shape_def
      lift_with_degrees_eq Let_def)

lemma attention_lift_total:
  assumes "wf_shape u" and "length (ptdd_shard_degrees d) = length (ts_dims u)"
    and "wf_degrees d" and "total_degree d = bd * c" and "bd * c \<le> INT_MAX"
  shows "wf_pshape (lift_to_parallel_with_dim_degrees u d) \<and>
    get_total_parallel_degree (lift_to_parallel_with_dim_degrees u d) = Inr (bd * c)"
  using lift_wf_total [OF assms(1,3,2)] assms(4,5) by simp

lemma batch_sharded_degrees:
  "get_parallel_degrees (batch_sharded b bd s e y c dt) = ParallelTensorDimDegrees y c [bd, 1, 1]"
  by (intro parallel_tensor_dim_degrees.equality)
    (simp_all add: shape_ops get_sum_degree_def get_discard_copy_degree_def)

lemma batch_sharded_total:
  "get_total_parallel_degree (batch_sharded b bd s e y c dt) = Inr n \<longleftrightarrow>
     0 < y \<and> 0 < c \<and> 0 < bd \<and> n = y * (bd * c) \<and> y * (bd * c) \<le> INT_MAX"
  unfolding get_total_parallel_degree_eq batch_sharded_degrees total_degree_eq
  by (auto simp: mult_ac)

section \<open>Properties\<close>

text \<open>
  Attention infers shapes that lie on the devices of its inputs, up to the sum degree: with
  valid attributes, whenever output, weights and biases are inferred for well-formed query, key and
  value, each is well-formed, and the total degree of each input is its own sum degree times the
  total degree of the result. Like Embedding, the parser never reads the sum degrees of the inputs:
  partial sums are accepted, and with different sum degrees.
\<close>

theorem attention_parallel_degrees:
  assumes "wf_mha_attrs attrs" and "wf_pshape q" and "wf_pshape k" and "wf_pshape v"
    and "attention_get_output_parallel_shape attrs q k v = Inr t"
    and "attention_get_weights_parallel_shape attrs q k v = Inr w"
    and "attention_get_input_bias_parallel_shape attrs q k v = Inr ib"
    and "attention_get_output_bias_parallel_shape attrs q k v = Inr ob"
    and "x \<in> {q, k, v}" and "r \<in> {t, w, ib, ob}" and "get_total_parallel_degree x = Inr n"
  shows "wf_pshape r \<and> (\<exists>m. get_total_parallel_degree r = Inr m \<and> n = get_sum_degree x * m)"
proof -
  obtain p where p: "parse_attention_parallel_input_shape q k v = Inr p"
    using assms(5) by (auto simp: attention_get_output_parallel_shape_def)
  obtain b bd s dq dk dv sq sk sv c dt where qkv: "q = batch_sharded b bd s dq sq c dt"
    "k = batch_sharded b bd s dk sk c dt" "v = batch_sharded b bd s dv sv c dt"
    and d: "mhap_batch_dim p = ShardParallelDim b bd" "mhap_discard_copy_degree p = c"
    using parse_attention_parallel_eq [OF assms(2-4) p] by blast
  have wq: "wf_shape (get_reduced_shape q)" using assms(2) by (simp add: wf_pshape_def)
  have v: "valid_pos bd" "valid_pos c"
    using assms(2) unfolding wf_pshape_def qkv batch_sharded_degrees by simp_all
  have one: "valid_pos 1" by (simp add: valid_pos_def INT_MAX_def)
  have n: "n = get_sum_degree x * (bd * c)" and y: "0 < get_sum_degree x"
    and le: "get_sum_degree x * (bd * c) \<le> INT_MAX"
    using assms(9,11) by (auto simp: qkv batch_sharded_total [unfolded One_nat_def] get_sum_degree_def)
  from y le have bound: "bd * c \<le> INT_MAX" by (rule mult_bound_right)
  note shapes = attention_parallel_shape_cases [OF p d] and wf = attention_shapes_wf [OF assms(1) wq]
  let ?ok = "\<lambda>r. wf_pshape r \<and> get_total_parallel_degree r = Inr (bd * c)"
  have "?ok t" using shapes(1) [OF assms(5)] wf(1) v one bound
    by (elim exE conjE) (simp only:, rule attention_lift_total; simp)
  moreover have "?ok w" using shapes(2) [OF assms(6)] wf(2) v one bound
    by (elim exE conjE) (simp only:, rule attention_lift_total; simp)
  moreover have "?ok ib" using shapes(3) [OF assms(7)] wf(3) v one bound
    by (elim exE conjE) (simp only: positive_int_mul_eq, rule attention_lift_total; simp add: valid_pos_def)
  moreover have "?ok ob" using shapes(4) [OF assms(8)] wf(4) v one bound
    by (elim exE conjE) (simp only: positive_int_mul_eq, rule attention_lift_total; simp add: valid_pos_def)
  ultimately have "?ok r" using assms(10) by blast
  with n show ?thesis by blast
qed

theorem attention_parallel_degrees_witness:
  "\<exists>m. get_total_parallel_degree (ParallelTensorShape (ParallelTensorDims
     [ShardParallelDim 510 1, ShardParallelDim 2 3] (ReplicaParallelDimSet 1 2)) FLOAT) = Inr m \<and> 30 = 5 * m"
proof -
  let ?a = "\<lparr> mha_embed_dim = 16, mha_num_heads = 2, mha_kdim = 16, mha_vdim = 14, mha_dropout = F_lit 0 0,
    mha_bias = True, mha_add_bias_kv = False, mha_add_zero_attn = False \<rparr>"
  let ?q = "batch_sharded 4 2 8 16 5 3 FLOAT" and ?k = "batch_sharded 4 2 8 1 1 3 FLOAT"
  let ?w = "ParallelTensorShape (ParallelTensorDims
     [ShardParallelDim 510 1, ShardParallelDim 2 3] (ReplicaParallelDimSet 1 2)) FLOAT"
  have wf: "wf_mha_attrs ?a" "wf_pshape ?q" "wf_pshape ?k"
    by (simp_all add: wf_mha_attrs_def wf_pshape_def batch_sharded_degrees [unfolded One_nat_def]
        wf_shape_def shape_ops valid_pos_def INT_MAX_def)
  have t: "attention_get_output_parallel_shape ?a ?q ?k ?k = Inr (ParallelTensorShape (ParallelTensorDims
     [ShardParallelDim 4 2, ShardParallelDim 8 1, ShardParallelDim 16 1] (ReplicaParallelDimSet 3 1)) FLOAT)"
    by code_simp
  have w: "attention_get_weights_parallel_shape ?a ?q ?k ?k = Inr ?w" by code_simp
  have ib: "attention_get_input_bias_parallel_shape ?a ?q ?k ?k = Inr (ParallelTensorShape (ParallelTensorDims
     [ShardParallelDim 46 1] (ReplicaParallelDimSet 1 6)) FLOAT)" by code_simp
  have ob: "attention_get_output_bias_parallel_shape ?a ?q ?k ?k = Inr (ParallelTensorShape (ParallelTensorDims
     [ShardParallelDim 16 1] (ReplicaParallelDimSet 1 6)) FLOAT)" by code_simp
  have n: "get_total_parallel_degree ?q = Inr 30" by code_simp
  from attention_parallel_degrees [OF wf wf(3) t w ib ob _ _ n, of ?w]
  show ?thesis by (simp add: get_sum_degree_def)
qed

end
