(* ===== verification/Shape_Inference.thy ===== *)
theory Shape_Inference
  imports Op_Linear Op_Conv_Pool Op_Norm Op_Elementwise Op_Matmul_Embedding Op_Resharding Op_Layout
    Op_Attention
begin

text \<open>
  The interface of the library over all operators, \<open>lib/op-attrs/src/op-attrs/shape_inference.cc\<close> and
  \<open>get_incoming_tensor_roles.cc\<close>: given the attributes of an operator and the shapes in its input
  slots, the shapes in its output slots and in its weight slots, for computation graphs (\<open>cg\<close>) and
  for parallel computation graphs (\<open>pcg\<close>), and the role of every incoming slot.
\<close>

section \<open>Definitions\<close>

type_synonym 'a slots = "tensor_slot_name \<rightharpoonup> 'a"

definition require_3 ::
    "'a slots \<Rightarrow> tensor_slot_name \<Rightarrow> tensor_slot_name \<Rightarrow> tensor_slot_name \<Rightarrow> ('a \<times> 'a \<times> 'a) res" where
  "require_3 v k1 k2 k3 =
     res_bind (ASSERT (card (dom v) = 3)) (\<lambda>_.
     res_bind (map_at v k1) (\<lambda>v1.
     res_bind (map_at v k2) (\<lambda>v2.
     res_bind (map_at v k3) (\<lambda>v3.
     Inr (v1, v2, v3)))))"

definition require_only_slots_sequence :: "'a slots \<Rightarrow> tensor_slot_name list \<Rightarrow> 'a list res" where
  "require_only_slots_sequence v slots =
     res_bind (nonnegative_int_from_size (card (dom v))) (\<lambda>v_num_slots.
     res_bind (ASSERT (v_num_slots \<le> length slots)) (\<lambda>_.
     res_bind (slice slots 0 (Some (int v_num_slots))) (\<lambda>expected_slots.
     res_bind (ASSERT (set expected_slots = dom v)) (\<lambda>_.
     res_map (map_at v) expected_slots))))"

text \<open>
  The bodies that the visitors repeat: read the one input, or the two named ones, and put the
  result into \<open>OUTPUT\<close>.
\<close>

definition output_slot :: "'b res \<Rightarrow> 'b slots res" where
  "output_slot r = res_bind r (\<lambda>s. Inr [Slot_OUTPUT \<mapsto> s])"

definition unary_output :: "'a slots \<Rightarrow> ('a \<Rightarrow> 'b res) \<Rightarrow> 'b slots res" where
  "unary_output input_shapes f =
     res_bind (require_only_key input_shapes Slot_INPUT) (\<lambda>input. output_slot (f input))"

definition binary_output ::
    "'a slots \<Rightarrow> tensor_slot_name \<Rightarrow> tensor_slot_name \<Rightarrow> ('a \<Rightarrow> 'a \<Rightarrow> 'b res) \<Rightarrow> 'b slots res" where
  "binary_output input_shapes k1 k2 f =
     res_bind (require_two_keys input_shapes k1 k2) (\<lambda>(lhs, rhs). output_slot (f lhs rhs))"

definition source_output :: "'a slots \<Rightarrow> 'b res \<Rightarrow> 'b slots res" where
  "source_output input_shapes r =
     res_bind (ASSERT (card (dom input_shapes) = 0)) (\<lambda>_. output_slot r)"

definition concat_output :: "'a slots \<Rightarrow> ('a list \<Rightarrow> 'b res) \<Rightarrow> 'b slots res" where
  "concat_output input_shapes f =
     res_bind (require_only_slots_sequence input_shapes get_variadic_inputs_slot_name_sequence)
       (\<lambda>inputs. output_slot (f inputs))"

definition attention_output :: "'a slots \<Rightarrow> ('a \<Rightarrow> 'a \<Rightarrow> 'a \<Rightarrow> 'b res) \<Rightarrow> 'b slots res" where
  "attention_output input_shapes f =
     res_bind (require_3 input_shapes Slot_QUERY Slot_KEY Slot_VALUE) (\<lambda>(query, key, value).
     output_slot (throw_if_unexpected (f query key value)))"

definition split_outputs :: "split_attrs \<Rightarrow> 'a slots \<Rightarrow> ('a \<Rightarrow> 'b list res) \<Rightarrow> 'b slots res" where
  "split_outputs attrs input_shapes f =
     res_bind (require_only_key input_shapes Slot_INPUT) (\<lambda>input.
     res_bind (f input) (\<lambda>output_shapes.
     res_bind (slice get_variadic_outputs_slot_name_sequence 0
       (Some (int (length (split_splits attrs))))) (\<lambda>output_slots.
     res_bind (zip_strict output_slots output_shapes) (\<lambda>ps.
     Inr (map_from_pairs ps)))))"

fun cg_get_output_shapes ::
    "computation_graph_op_attrs \<Rightarrow> tensor_shape slots \<Rightarrow> tensor_shape slots res" where
  "cg_get_output_shapes CG_batch_matmul m =
     binary_output m Slot_LHS_INPUT Slot_RHS_INPUT batch_matmul_get_output_shape"
| "cg_get_output_shapes (CG_batch_norm attrs) m =
     unary_output m (\<lambda>input. throw_if_unexpected (batch_norm_get_output_shape attrs input))"
| "cg_get_output_shapes (CG_cast attrs) m =
     unary_output m (\<lambda>input. throw_if_unexpected (cast_get_output_shape attrs input))"
| "cg_get_output_shapes (CG_concat attrs) m = concat_output m (concat_get_output_shape attrs)"
| "cg_get_output_shapes (CG_conv2d attrs) m = unary_output m (conv2d_get_output_shape attrs)"
| "cg_get_output_shapes (CG_dropout attrs) m =
     unary_output m (\<lambda>input. Inr (dropout_get_output_shape attrs input))"
| "cg_get_output_shapes (CG_element_binary attrs) m =
     binary_output m Slot_LHS_INPUT Slot_RHS_INPUT (element_binary_get_output_shape attrs)"
| "cg_get_output_shapes (CG_element_unary attrs) m =
     unary_output m (\<lambda>input. Inr (element_unary_get_output_shape attrs input))"
| "cg_get_output_shapes (CG_embedding attrs) m =
     unary_output m (\<lambda>input. throw_if_unexpected (embedding_get_output_shape attrs input))"
| "cg_get_output_shapes (CG_flat attrs) m = unary_output m (flat_get_output_shape attrs)"
| "cg_get_output_shapes (CG_gather attrs) m =
     binary_output m Slot_INPUT Slot_INDEX (gather_get_output_shape attrs)"
| "cg_get_output_shapes (CG_input attrs) m = source_output m (Inr (input_get_output_shape attrs))"
| "cg_get_output_shapes (CG_layer_norm attrs) m =
     unary_output m (\<lambda>input. throw_if_unexpected (layer_norm_get_output_shape attrs input))"
| "cg_get_output_shapes (CG_linear attrs) m =
     unary_output m (\<lambda>input. throw_if_unexpected (linear_get_output_shape attrs input))"
| "cg_get_output_shapes (CG_multi_head_attention attrs) m =
     attention_output m (attention_get_output_shape attrs)"
| "cg_get_output_shapes (CG_pool2d attrs) m =
     unary_output m (\<lambda>input. throw_if_unexpected (pool2d_get_output_shape attrs input))"
| "cg_get_output_shapes (CG_reshape attrs) m = unary_output m (reshape_get_output_shape attrs)"
| "cg_get_output_shapes (CG_split attrs) m =
     split_outputs attrs m (split_get_output_shapes attrs)"
| "cg_get_output_shapes (CG_softmax attrs) m =
     unary_output m (\<lambda>input. throw_if_unexpected (softmax_get_output_shape attrs input))"
| "cg_get_output_shapes (CG_transpose attrs) m = unary_output m (transpose_get_output_shape attrs)"
| "cg_get_output_shapes (CG_upsample attrs) m = unary_output m (upsample_get_output_shape attrs)"
| "cg_get_output_shapes (CG_weight attrs) m = source_output m (Inr (weight_get_output_shape attrs))"
| "cg_get_output_shapes _ m = Inl Panicked"

text \<open>Operators without weights check their input slots and return the empty map.\<close>

definition no_weights :: "'a res \<Rightarrow> 'b slots res" where
  "no_weights check = res_bind check (\<lambda>_. Inr Map.empty)"

fun cg_get_weight_shapes ::
    "computation_graph_op_attrs \<Rightarrow> tensor_shape slots \<Rightarrow> tensor_shape slots res" where
  "cg_get_weight_shapes CG_batch_matmul m =
     no_weights (require_two_keys m Slot_LHS_INPUT Slot_RHS_INPUT)"
| "cg_get_weight_shapes (CG_batch_norm attrs) m =
     res_bind (require_only_key m Slot_INPUT) (\<lambda>input.
     throw_if_unexpected (batch_norm_get_weight_shapes attrs input))"
| "cg_get_weight_shapes (CG_cast attrs) m = no_weights (require_only_key m Slot_INPUT)"
| "cg_get_weight_shapes (CG_concat attrs) m =
     no_weights (require_only_slots_sequence m get_variadic_inputs_slot_name_sequence)"
| "cg_get_weight_shapes (CG_conv2d attrs) m =
     res_bind (require_only_key m Slot_INPUT) (conv2d_get_weight_shapes attrs)"
| "cg_get_weight_shapes (CG_dropout attrs) m = no_weights (require_only_key m Slot_INPUT)"
| "cg_get_weight_shapes (CG_element_binary attrs) m =
     no_weights (require_two_keys m Slot_LHS_INPUT Slot_RHS_INPUT)"
| "cg_get_weight_shapes (CG_element_unary attrs) m = no_weights (require_only_key m Slot_INPUT)"
| "cg_get_weight_shapes (CG_embedding attrs) m =
     res_bind (require_only_key m Slot_INPUT) (\<lambda>input.
     res_bind (throw_if_unexpected (embedding_get_weights_shape attrs input)) (\<lambda>w.
     Inr [Slot_WEIGHT \<mapsto> w]))"
| "cg_get_weight_shapes (CG_flat attrs) m = no_weights (require_only_key m Slot_INPUT)"
| "cg_get_weight_shapes (CG_gather attrs) m =
     no_weights (require_two_keys m Slot_INPUT Slot_INDEX)"
| "cg_get_weight_shapes (CG_input attrs) m = no_weights (ASSERT (card (dom m) = 0))"
| "cg_get_weight_shapes (CG_layer_norm attrs) m =
     res_bind (require_only_key m Slot_INPUT) (\<lambda>input.
     throw_if_unexpected (layer_norm_get_weight_shapes attrs input))"
| "cg_get_weight_shapes (CG_linear attrs) m =
     res_bind (require_only_key m Slot_INPUT) (\<lambda>input.
     throw_if_unexpected (linear_get_weight_shapes attrs input))"
| "cg_get_weight_shapes (CG_multi_head_attention attrs) m =
     res_bind (require_3 m Slot_QUERY Slot_KEY Slot_VALUE) (\<lambda>(query, key, value).
     throw_if_unexpected (attention_get_weight_shapes attrs query key value))"
| "cg_get_weight_shapes (CG_pool2d attrs) m = no_weights (require_only_key m Slot_INPUT)"
| "cg_get_weight_shapes (CG_reshape attrs) m = no_weights (require_only_key m Slot_INPUT)"
| "cg_get_weight_shapes (CG_split attrs) m = no_weights (require_only_key m Slot_INPUT)"
| "cg_get_weight_shapes (CG_softmax attrs) m = no_weights (require_only_key m Slot_INPUT)"
| "cg_get_weight_shapes (CG_transpose attrs) m = no_weights (require_only_key m Slot_INPUT)"
| "cg_get_weight_shapes (CG_upsample attrs) m = no_weights (require_only_key m Slot_INPUT)"
| "cg_get_weight_shapes (CG_weight attrs) m = no_weights (ASSERT (card (dom m) = 0))"
| "cg_get_weight_shapes _ m = Inl Panicked"

fun pcg_get_output_shapes ::
    "pcg_operator_attrs \<Rightarrow> parallel_tensor_shape slots \<Rightarrow> parallel_tensor_shape slots res" where
  "pcg_get_output_shapes PCG_batch_matmul m =
     binary_output m Slot_LHS_INPUT Slot_RHS_INPUT batch_matmul_get_output_parallel_shape"
| "pcg_get_output_shapes (PCG_batch_norm attrs) m =
     unary_output m (\<lambda>input. throw_if_unexpected (batch_norm_get_output_parallel_shape attrs input))"
| "pcg_get_output_shapes (PCG_cast attrs) m =
     unary_output m (\<lambda>input. throw_if_unexpected (cast_get_output_parallel_shape attrs input))"
| "pcg_get_output_shapes (PCG_combine attrs) m =
     unary_output m (combine_get_output_parallel_shape attrs)"
| "pcg_get_output_shapes (PCG_concat attrs) m =
     concat_output m (concat_get_output_parallel_shape attrs)"
| "pcg_get_output_shapes (PCG_conv2d attrs) m =
     unary_output m (conv2d_get_output_parallel_shape attrs)"
| "pcg_get_output_shapes (PCG_dropout attrs) m =
     unary_output m (\<lambda>input. throw_if_unexpected (dropout_get_output_parallel_shape attrs input))"
| "pcg_get_output_shapes (PCG_element_binary attrs) m =
     binary_output m Slot_LHS_INPUT Slot_RHS_INPUT (element_binary_get_output_parallel_shape attrs)"
| "pcg_get_output_shapes (PCG_element_unary attrs) m =
     unary_output m (element_unary_get_output_parallel_shape attrs)"
| "pcg_get_output_shapes (PCG_embedding attrs) m =
     unary_output m (\<lambda>input. throw_if_unexpected (embedding_get_output_parallel_shape attrs input))"
| "pcg_get_output_shapes (PCG_flat attrs) m = unary_output m (flat_get_output_parallel_shape attrs)"
| "pcg_get_output_shapes (PCG_gather attrs) m =
     binary_output m Slot_INPUT Slot_INDEX (gather_get_output_parallel_shape attrs)"
| "pcg_get_output_shapes (PCG_input attrs) m =
     source_output m (input_get_output_parallel_tensor_shape attrs)"
| "pcg_get_output_shapes (PCG_layer_norm attrs) m =
     unary_output m (\<lambda>input. throw_if_unexpected (layer_norm_get_output_parallel_shape attrs input))"
| "pcg_get_output_shapes (PCG_linear attrs) m =
     unary_output m (\<lambda>input. throw_if_unexpected (linear_get_output_parallel_shape attrs input))"
| "pcg_get_output_shapes (PCG_multi_head_attention attrs) m =
     attention_output m (attention_get_output_parallel_shape attrs)"
| "pcg_get_output_shapes (PCG_pool2d attrs) m =
     unary_output m (\<lambda>input. throw_if_unexpected (pool2d_get_output_parallel_shape attrs input))"
| "pcg_get_output_shapes (PCG_reduction attrs) m =
     unary_output m (\<lambda>input. throw_if_unexpected (reduction_get_output_shape attrs input))"
| "pcg_get_output_shapes (PCG_repartition attrs) m =
     unary_output m (repartition_get_output_parallel_shape attrs)"
| "pcg_get_output_shapes (PCG_replicate attrs) m = unary_output m (replicate_get_output_shape attrs)"
| "pcg_get_output_shapes (PCG_reshape attrs) m =
     unary_output m (reshape_get_output_parallel_shape attrs)"
| "pcg_get_output_shapes (PCG_split attrs) m =
     split_outputs attrs m (split_get_output_parallel_shapes attrs)"
| "pcg_get_output_shapes (PCG_softmax attrs) m =
     unary_output m (\<lambda>input. throw_if_unexpected (softmax_get_output_parallel_shape attrs input))"
| "pcg_get_output_shapes (PCG_transpose attrs) m =
     unary_output m (transpose_get_output_parallel_shape attrs)"
| "pcg_get_output_shapes (PCG_upsample attrs) m =
     unary_output m (upsample_get_output_parallel_shape attrs)"
| "pcg_get_output_shapes (PCG_weight attrs) m =
     source_output m (weight_get_output_parallel_tensor_shape attrs)"
| "pcg_get_output_shapes _ m = Inl Not_implemented"

fun pcg_get_weight_shapes ::
    "pcg_operator_attrs \<Rightarrow> parallel_tensor_shape slots \<Rightarrow> parallel_tensor_shape slots res" where
  "pcg_get_weight_shapes PCG_batch_matmul m =
     no_weights (require_two_keys m Slot_LHS_INPUT Slot_RHS_INPUT)"
| "pcg_get_weight_shapes (PCG_batch_norm attrs) m =
     res_bind (require_only_key m Slot_INPUT) (\<lambda>input.
     throw_if_unexpected (batch_norm_get_weight_parallel_shapes attrs input))"
| "pcg_get_weight_shapes (PCG_cast attrs) m = no_weights (require_only_key m Slot_INPUT)"
| "pcg_get_weight_shapes (PCG_combine attrs) m = no_weights (require_only_key m Slot_INPUT)"
| "pcg_get_weight_shapes (PCG_concat attrs) m = no_weights (require_only_key m Slot_INPUT)"
| "pcg_get_weight_shapes (PCG_conv2d attrs) m =
     res_bind (require_only_key m Slot_INPUT) (conv2d_get_weight_parallel_shapes attrs)"
| "pcg_get_weight_shapes (PCG_dropout attrs) m = no_weights (require_only_key m Slot_INPUT)"
| "pcg_get_weight_shapes (PCG_element_binary attrs) m =
     no_weights (require_two_keys m Slot_LHS_INPUT Slot_RHS_INPUT)"
| "pcg_get_weight_shapes (PCG_element_unary attrs) m = no_weights (require_only_key m Slot_INPUT)"
| "pcg_get_weight_shapes (PCG_embedding attrs) m =
     res_bind (require_only_key m Slot_INPUT) (\<lambda>input.
     res_bind (throw_if_unexpected (embedding_get_weights_parallel_shape attrs input)) (\<lambda>w.
     Inr [Slot_WEIGHT \<mapsto> w]))"
| "pcg_get_weight_shapes (PCG_flat attrs) m = no_weights (require_only_key m Slot_INPUT)"
| "pcg_get_weight_shapes (PCG_gather attrs) m =
     no_weights (require_two_keys m Slot_INPUT Slot_INDEX)"
| "pcg_get_weight_shapes (PCG_input attrs) m = no_weights (ASSERT (card (dom m) = 0))"
| "pcg_get_weight_shapes (PCG_layer_norm attrs) m =
     res_bind (require_only_key m Slot_INPUT) (\<lambda>input.
     throw_if_unexpected (layer_norm_get_weight_parallel_shapes attrs input))"
| "pcg_get_weight_shapes (PCG_linear attrs) m =
     res_bind (require_only_key m Slot_INPUT) (\<lambda>input.
     throw_if_unexpected (linear_get_weight_parallel_shapes attrs input))"
| "pcg_get_weight_shapes (PCG_multi_head_attention attrs) m =
     res_bind (require_3 m Slot_QUERY Slot_KEY Slot_VALUE) (\<lambda>(query, key, value).
     throw_if_unexpected (attention_get_weight_parallel_shapes attrs query key value))"
| "pcg_get_weight_shapes (PCG_pool2d attrs) m = no_weights (require_only_key m Slot_INPUT)"
| "pcg_get_weight_shapes (PCG_reshape attrs) m = no_weights (require_only_key m Slot_INPUT)"
| "pcg_get_weight_shapes (PCG_repartition attrs) m = no_weights (require_only_key m Slot_INPUT)"
| "pcg_get_weight_shapes (PCG_replicate attrs) m = no_weights (require_only_key m Slot_INPUT)"
| "pcg_get_weight_shapes (PCG_reduction attrs) m = no_weights (require_only_key m Slot_INPUT)"
| "pcg_get_weight_shapes (PCG_split attrs) m = no_weights (require_only_key m Slot_INPUT)"
| "pcg_get_weight_shapes (PCG_softmax attrs) m = no_weights (require_only_key m Slot_INPUT)"
| "pcg_get_weight_shapes (PCG_transpose attrs) m = no_weights (require_only_key m Slot_INPUT)"
| "pcg_get_weight_shapes (PCG_upsample attrs) m = no_weights (require_only_key m Slot_INPUT)"
| "pcg_get_weight_shapes (PCG_weight attrs) m = no_weights (ASSERT (card (dom m) = 0))"
| "pcg_get_weight_shapes _ m = Inl Not_implemented"

text \<open>\<open>generate_map\<close> over the slots of a variadic input.\<close>

definition variadic_input_roles :: "concat_attrs \<Rightarrow> incoming_tensor_role slots res" where
  "variadic_input_roles attrs =
     res_bind (slice get_variadic_inputs_slot_name_sequence 0
       (Some (int (concat_num_inputs attrs)))) (\<lambda>slots.
     Inr (map_of (map (\<lambda>s. (s, Role_INPUT)) slots)))"

fun get_incoming_tensor_roles :: "pcg_operator_attrs \<Rightarrow> incoming_tensor_role slots res" where
  "get_incoming_tensor_roles PCG_batch_matmul =
     Inr [Slot_LHS_INPUT \<mapsto> Role_INPUT, Slot_RHS_INPUT \<mapsto> Role_INPUT]"
| "get_incoming_tensor_roles (PCG_batch_norm attrs) = Inr (get_batch_norm_incoming_tensor_roles attrs)"
| "get_incoming_tensor_roles (PCG_concat attrs) = variadic_input_roles attrs"
| "get_incoming_tensor_roles (PCG_conv2d attrs) = Inr (get_conv2d_incoming_tensor_roles attrs)"
| "get_incoming_tensor_roles (PCG_element_binary _) =
     Inr [Slot_LHS_INPUT \<mapsto> Role_INPUT, Slot_RHS_INPUT \<mapsto> Role_INPUT]"
| "get_incoming_tensor_roles (PCG_embedding _) =
     Inr [Slot_INPUT \<mapsto> Role_INPUT, Slot_WEIGHT \<mapsto> Role_WEIGHT]"
| "get_incoming_tensor_roles (PCG_input _) = Inr Map.empty"
| "get_incoming_tensor_roles (PCG_layer_norm attrs) = Inr (get_layer_norm_incoming_tensor_roles attrs)"
| "get_incoming_tensor_roles (PCG_linear attrs) = Inr (get_linear_incoming_tensor_roles attrs)"
| "get_incoming_tensor_roles (PCG_multi_head_attention attrs) = get_attention_incoming_tensor_roles attrs"
| "get_incoming_tensor_roles (PCG_weight _) = Inr Map.empty"
| "get_incoming_tensor_roles _ = Inr [Slot_INPUT \<mapsto> Role_INPUT]"

definition cg_get_incoming_tensor_roles ::
    "computation_graph_op_attrs \<Rightarrow> incoming_tensor_role slots res" where
  "cg_get_incoming_tensor_roles comp_graph_op_attrs =
     get_incoming_tensor_roles (pcg_op_attrs_from_compgraph_op_attrs comp_graph_op_attrs)"

section \<open>Lemmas\<close>

text \<open>The slots of a parallel computation graph, seen sequentially.\<close>

definition reduce_slots :: "parallel_tensor_shape slots \<Rightarrow> tensor_shape slots" where
  "reduce_slots m = map_option get_reduced_shape \<circ> m"

lemma reduce_slots_simps [simp]:
  "reduce_slots Map.empty = Map.empty"
  "reduce_slots (m(k \<mapsto> s)) = (reduce_slots m)(k \<mapsto> get_reduced_shape s)"
  "dom (reduce_slots m) = dom m"
  "reduce_slots m k = map_option get_reduced_shape (m k)"
  by (auto simp: reduce_slots_def fun_eq_iff split: if_splits)

lemma singleton_map_eq [simp]: "[k \<mapsto> x] = [k \<mapsto> y] \<longleftrightarrow> x = y"
  by (auto dest: fun_cong [of _ _ k])

lemma attention_slots_eq [simp]:
  "[Slot_QUERY \<mapsto> q, Slot_KEY \<mapsto> k, Slot_VALUE \<mapsto> v] = [Slot_QUERY \<mapsto> q', Slot_KEY \<mapsto> k', Slot_VALUE \<mapsto> v'] \<longleftrightarrow>
     q = q' \<and> k = k' \<and> v = v'" (is "?l = ?r \<longleftrightarrow> _")
proof
  assume "?l = ?r"
  then have "?l slot = ?r slot" for slot by simp
  from this [of Slot_QUERY] this [of Slot_KEY] this [of Slot_VALUE]
  show "q = q' \<and> k = k' \<and> v = v'" by simp
qed simp

lemma dom_of_card_3:
  assumes "card (dom m) = 3" and "m k1 = Some x" and "m k2 = Some y" and "m k3 = Some z"
    and "k1 \<noteq> k2" "k1 \<noteq> k3" "k2 \<noteq> k3"
  shows "m = [k1 \<mapsto> x, k2 \<mapsto> y, k3 \<mapsto> z]"
proof -
  have "finite (dom m)" using assms(1) card.infinite by fastforce
  moreover have "{k1, k2, k3} \<subseteq> dom m" using assms(2-4) by auto
  moreover have "card {k1, k2, k3} = card (dom m)" using assms(1,5-7) by simp
  ultimately have "{k1, k2, k3} = dom m" by (rule card_subset_eq)
  then have "m k = None" if "k \<notin> {k1, k2, k3}" for k using that by blast
  with assms(2-4) show ?thesis by (auto simp: fun_eq_iff)
qed

lemma require_3_eq:
  assumes "k1 \<noteq> k2" "k1 \<noteq> k3" "k2 \<noteq> k3"
  shows "require_3 m k1 k2 k3 = Inr (x, y, z) \<longleftrightarrow> m = [k1 \<mapsto> x, k2 \<mapsto> y, k3 \<mapsto> z]"
proof
  assume "require_3 m k1 k2 k3 = Inr (x, y, z)"
  then show "m = [k1 \<mapsto> x, k2 \<mapsto> y, k3 \<mapsto> z]"
    using assms by (intro dom_of_card_3) (auto simp: require_3_def)
qed (use assms in \<open>auto simp: require_3_def\<close>)

lemma unary_output_eq:
  "unary_output m f = Inr out \<longleftrightarrow> (\<exists>s t. m = [Slot_INPUT \<mapsto> s] \<and> f s = Inr t \<and> out = [Slot_OUTPUT \<mapsto> t])"
  by (auto simp: unary_output_def output_slot_def container_ops)

lemma binary_output_eq:
  "k1 \<noteq> k2 \<Longrightarrow> binary_output m k1 k2 f = Inr out \<longleftrightarrow>
     (\<exists>l r t. m = [k1 \<mapsto> l, k2 \<mapsto> r] \<and> f l r = Inr t \<and> out = [Slot_OUTPUT \<mapsto> t])"
  by (auto simp: binary_output_def output_slot_def container_ops)

lemma source_output_eq:
  "source_output m r = Inr out \<longleftrightarrow>
     (\<exists>t. m = Map.empty \<and> r = Inr t \<and> out = [Slot_OUTPUT \<mapsto> t])"
  by (auto simp: source_output_def output_slot_def)

lemma attention_output_eq:
  "attention_output m f = Inr out \<longleftrightarrow>
     (\<exists>q k v t. m = [Slot_QUERY \<mapsto> q, Slot_KEY \<mapsto> k, Slot_VALUE \<mapsto> v] \<and> f q k v = Inr t \<and>
        out = [Slot_OUTPUT \<mapsto> t])"
  by (auto simp: attention_output_def output_slot_def require_3_eq)

definition slots_of :: "tensor_slot_name list \<Rightarrow> 'a list \<Rightarrow> 'a slots" where
  "slots_of ks vs = map_of (zip ks vs)"

lemma slots_of_simps [simp]:
  "length vs \<le> length ks \<Longrightarrow> dom (slots_of ks vs) = set (take (length vs) ks)"
  "reduce_slots (slots_of ks ss) = slots_of ks (map get_reduced_shape ss)"
proof -
  show "reduce_slots (slots_of ks ss) = slots_of ks (map get_reduced_shape ss)"
    by (induction ks ss rule: list_induct2') (auto simp: slots_of_def fun_eq_iff)
  assume "length vs \<le> length ks"
  then have "map fst (zip ks vs) = take (length vs) ks" by (simp add: map_fst_zip_take min_absorb2)
  then have "set (map fst (zip ks vs)) = set (take (length vs) ks)" by (rule arg_cong)
  then show "dom (slots_of ks vs) = set (take (length vs) ks)"
    by (simp add: slots_of_def dom_map_of_conv_image_fst)
qed

lemma map_of_zip_unique:
  assumes "distinct ks" and "list_all2 (\<lambda>k v. m k = Some v) ks vs"
  shows "dom m = set ks \<longleftrightarrow> m = map_of (zip ks vs)"
proof
  assume d: "dom m = set ks"
  show "m = map_of (zip ks vs)"
  proof
    fix k
    show "m k = map_of (zip ks vs) k"
    proof (cases "k \<in> set ks")
      case True
      then obtain i where "i < length ks" "k = ks ! i" by (metis in_set_conv_nth)
      with assms show ?thesis by (simp add: list_all2_conv_all_nth map_of_zip_nth)
    next
      case False
      with d assms(2) show ?thesis
        by (metis domIff dom_map_of_zip list_all2_lengthD)
    qed
  qed
qed (use assms(2) in \<open>simp add: dom_map_of_zip list_all2_lengthD\<close>)

lemma list_all2_map_of_zip:
  "distinct ks \<Longrightarrow> length ks = length vs \<Longrightarrow> list_all2 (\<lambda>k v. map_of (zip ks vs) k = Some v) ks vs"
  unfolding list_all2_conv_all_nth by (intro conjI allI impI) (simp_all only: map_of_zip_nth)

lemma zip_take_length: "zip (take (length ys) xs) ys = zip xs ys"
  by (induction xs ys rule: list_induct2') auto

lemma zip_take_length': "length ys = n \<Longrightarrow> zip (take n xs) ys = zip xs ys"
  using zip_take_length by blast

lemma require_only_slots_sequence_eq:
  assumes "distinct ks"
  shows "require_only_slots_sequence m ks = Inr vs \<longleftrightarrow>
    length vs \<le> length ks \<and> length vs \<le> INT_MAX \<and> m = slots_of ks vs"
proof -
  have dist: "distinct (take n ks)" for n using assms by simp
  have "require_only_slots_sequence m ks = Inr vs \<longleftrightarrow>
    (\<exists>n. n = card (dom m) \<and> n \<le> INT_MAX \<and> n \<le> length ks \<and> set (take n ks) = dom m \<and>
      list_all2 (\<lambda>k v. m k = Some v) (take n ks) vs)"
    using slice_nat_Some [of ks 0]
    by (auto simp: require_only_slots_sequence_def res_map_eq_Inr nonnegative_int_from_size_def)
  also have "\<dots> \<longleftrightarrow> length vs \<le> length ks \<and> length vs \<le> INT_MAX \<and> m = slots_of ks vs"
    (is "?l \<longleftrightarrow> ?r")
  proof
    assume ?l
    then obtain n where n: "n \<le> INT_MAX" "n \<le> length ks" "dom m = set (take n ks)"
      and l: "list_all2 (\<lambda>k v. m k = Some v) (take n ks) vs" by blast
    then have len: "n = length vs" using list_all2_lengthD by fastforce
    have "m = map_of (zip (take n ks) vs)" using map_of_zip_unique [OF dist l] n(3) by blast
    also have "zip (take n ks) vs = zip ks vs" unfolding len by (rule zip_take_length)
    finally show ?r using n len by (simp add: slots_of_def)
  next
    assume r: ?r
    let ?n = "length vs"
    have z: "zip (take ?n ks) vs = zip ks vs" by (rule zip_take_length)
    have d: "dom m = set (take ?n ks)" using r by simp
    moreover have "card (dom m) = ?n" unfolding d using r distinct_card [OF dist] by simp
    moreover have "list_all2 (\<lambda>k v. m k = Some v) (take ?n ks) vs"
      using list_all2_map_of_zip [OF dist, of ?n vs] r by (simp add: slots_of_def z)
    ultimately show ?l using r by auto
  qed
  finally show ?thesis .
qed

lemma concat_output_eq:
  "concat_output m f = Inr out \<longleftrightarrow>
     (\<exists>ss t. length ss \<le> 16 \<and> m = slots_of get_variadic_inputs_slot_name_sequence ss \<and>
        f ss = Inr t \<and> out = [Slot_OUTPUT \<mapsto> t])"
proof -
  have d: "distinct get_variadic_inputs_slot_name_sequence"
    and l: "length get_variadic_inputs_slot_name_sequence = 16"
    by (simp_all add: get_variadic_inputs_slot_name_sequence_def)
  show ?thesis
    by (auto simp: concat_output_def output_slot_def require_only_slots_sequence_eq [OF d] l INT_MAX_def)
qed

lemma split_outputs_eq:
  "split_outputs attrs m f = Inr out \<longleftrightarrow>
     (\<exists>s ts. m = [Slot_INPUT \<mapsto> s] \<and> f s = Inr ts \<and> length ts = length (split_splits attrs) \<and>
        length ts \<le> 6 \<and> out = slots_of get_variadic_outputs_slot_name_sequence ts)"
proof -
  let ?ks = "get_variadic_outputs_slot_name_sequence" and ?n = "length (split_splits attrs)"
  have l: "length ?ks = 6" by (simp add: get_variadic_outputs_slot_name_sequence_def)
  have sl: "slice ?ks 0 (Some (int ?n)) = Inr ks \<longleftrightarrow> ?n \<le> 6 \<and> ks = take ?n ?ks" for ks
    using slice_nat_Some [of ?ks 0 ?n] l by auto
  have "split_outputs attrs m f = Inr out \<longleftrightarrow>
     (\<exists>s ts. m = [Slot_INPUT \<mapsto> s] \<and> f s = Inr ts \<and> ?n \<le> 6 \<and> length ts = ?n \<and>
        out = map_of (zip (take ?n ?ks) ts))"
    by (auto simp: split_outputs_def container_ops map_from_pairs_def sl l)
  also have "\<dots> \<longleftrightarrow> (\<exists>s ts. m = [Slot_INPUT \<mapsto> s] \<and> f s = Inr ts \<and> length ts = ?n \<and>
        length ts \<le> 6 \<and> out = slots_of ?ks ts)"
    unfolding slots_of_def by (intro ex_cong1) (auto simp: zip_take_length')
  finally show ?thesis .
qed

text \<open>
  Parallel inference of one operator refines its sequential inference when the reduced output is the
  output of the reduced input.
\<close>

lemma attention_output_refines:
  assumes "attention_get_output_parallel_shape attrs q k v = Inr t"
  shows "attention_get_output_shape attrs (get_reduced_shape q) (get_reduced_shape k)
    (get_reduced_shape v) = Inr (get_reduced_shape t)"
  using assms
  by (auto simp: attention_get_output_parallel_shape_def attention_get_output_shape_def
      lift_with_degrees_eq get_reduced_shape_lift Let_def)

lemma dropout_output_refines:
  "dropout_get_output_parallel_shape attrs s = Inr t \<Longrightarrow>
     dropout_get_output_shape attrs (get_reduced_shape s) = get_reduced_shape t"
  by (auto simp: dropout_get_output_parallel_shape_def dropout_get_output_shape_def split: if_splits)

lemma softmax_output_refines:
  "softmax_get_output_parallel_shape attrs s = Inr t \<Longrightarrow>
     softmax_get_output_shape attrs (get_reduced_shape s) = Inr (get_reduced_shape t)"
  by (simp add: softmax_parallel_eq)

lemma list_all2_in_set_right: "list_all2 P xs ys \<Longrightarrow> y \<in> set ys \<Longrightarrow> \<exists>x \<in> set xs. P x y"
  by (metis in_set_conv_nth list_all2_conv_all_nth)

lemma split_output_rank:
  "split_get_output_shapes attrs u = Inr us \<Longrightarrow> \<forall>v \<in> set us. length (ts_dims v) = length (ts_dims u)"
  by (auto simp: split_get_output_shapes_def split_for_split_size_def ff_ordered_set_def res_map_eq_Inr
      dest!: list_all2_in_set_right split: if_splits)

lemma split_output_refines:
  assumes "split_get_output_parallel_shapes attrs s = Inr ts"
  shows "split_get_output_shapes attrs (get_reduced_shape s) = Inr (map get_reduced_shape ts)"
proof -
  from assms obtain us where us: "split_get_output_shapes attrs (get_reduced_shape s) = Inr us"
    and ts: "ts = map (\<lambda>u. lift_to_parallel_with_dim_degrees u (get_parallel_degrees s)) us"
    by (auto simp: split_parallel_eq)
  have "map get_reduced_shape ts = us"
    using split_output_rank [OF us] unfolding ts by (simp add: map_idI get_reduced_shape_lift shape_ops)
  with us show ?thesis by simp
qed

lemma concat_output_refines:
  assumes "\<forall>s \<in> set ss. wf_pshape s" and "concat_get_output_parallel_shape attrs ss = Inr t"
  shows "concat_get_output_shape attrs (map get_reduced_shape ss) = Inr (get_reduced_shape t)"
  using assms by (simp add: concat_parallel_eq)

lemma output_patterns_refine:
  "unary_output m f = Inr out \<Longrightarrow>
     (\<And>s t. m Slot_INPUT = Some s \<Longrightarrow> f s = Inr t \<Longrightarrow> f' (get_reduced_shape s) = Inr (get_reduced_shape t)) \<Longrightarrow>
     unary_output (reduce_slots m) f' = Inr (reduce_slots out)"
  "k1 \<noteq> k2 \<Longrightarrow> binary_output m k1 k2 g = Inr out \<Longrightarrow>
     (\<And>l r t. g l r = Inr t \<Longrightarrow> g' (get_reduced_shape l) (get_reduced_shape r) = Inr (get_reduced_shape t)) \<Longrightarrow>
     binary_output (reduce_slots m) k1 k2 g' = Inr (reduce_slots out)"
  "source_output m h = Inr out \<Longrightarrow>
     (\<And>t. h = Inr t \<Longrightarrow> h' = Inr (get_reduced_shape t)) \<Longrightarrow>
     source_output (reduce_slots m) h' = Inr (reduce_slots out)"
  "attention_output m k = Inr out \<Longrightarrow>
     (\<And>q k1 v t. k q k1 v = Inr t \<Longrightarrow>
       k' (get_reduced_shape q) (get_reduced_shape k1) (get_reduced_shape v) = Inr (get_reduced_shape t)) \<Longrightarrow>
     attention_output (reduce_slots m) k' = Inr (reduce_slots out)"
  "split_outputs attrs m l = Inr out \<Longrightarrow>
     (\<And>s ts. l s = Inr ts \<Longrightarrow> l' (get_reduced_shape s) = Inr (map get_reduced_shape ts)) \<Longrightarrow>
     split_outputs attrs (reduce_slots m) l' = Inr (reduce_slots out)"
  "concat_output m c = Inr out \<Longrightarrow>
     (\<And>ss t. m = slots_of get_variadic_inputs_slot_name_sequence ss \<Longrightarrow> length ss \<le> 16 \<Longrightarrow> c ss = Inr t \<Longrightarrow>
       c' (map get_reduced_shape ss) = Inr (get_reduced_shape t)) \<Longrightarrow>
     concat_output (reduce_slots m) c' = Inr (reduce_slots out)"
proof (goal_cases)
  case 1 then show ?case by (auto simp: unary_output_eq)
next
  case 2
  then obtain l r t where "m = [k1 \<mapsto> l, k2 \<mapsto> r]" "g l r = Inr t" "out = [Slot_OUTPUT \<mapsto> t]"
    by (auto simp: binary_output_eq)
  with 2(1,3) show ?case by (simp add: binary_output_eq) blast
next
  case 3 then show ?case by (auto simp: source_output_eq)
next
  case 4
  then obtain q k1 v t where "m = [Slot_QUERY \<mapsto> q, Slot_KEY \<mapsto> k1, Slot_VALUE \<mapsto> v]"
    "k q k1 v = Inr t" "out = [Slot_OUTPUT \<mapsto> t]"
    by (auto simp: attention_output_eq)
  with 4(2) show ?case by (simp add: attention_output_eq)
next
  case 5 then show ?case by (auto simp: split_outputs_eq)
next
  case 6
  then obtain ss t where "m = slots_of get_variadic_inputs_slot_name_sequence ss" "length ss \<le> 16"
    "c ss = Inr t" "out = [Slot_OUTPUT \<mapsto> t]"
    by (auto simp: concat_output_eq)
  with 6(2) show ?case
    by (simp add: concat_output_eq) (metis length_map)
qed

lemma ran_slots_of:
  assumes "length vs \<le> length ks" and "distinct ks"
  shows "ran (slots_of ks vs) = set vs"
proof -
  have "ran (map_of (zip (take (length vs) ks) vs)) = set vs"
    using assms by (intro ran_map_of_zip) simp_all
  then show ?thesis by (simp add: slots_of_def zip_take_length)
qed

lemmas output_refines =
  attention_output_refines dropout_output_refines softmax_output_refines layer_norm_refines
  cast_refines batch_norm.par_parts conv2d_output.par_parts pool2d.par_parts
  flat.par_parts upsample.par_parts transpose.par_parts batch_matmul.par_parts element_binary.par_parts
  embedding_output.par_parts linear_output.par_parts element_unary.par_parts(1) [simplified]
  get_reduced_shape_lift_to_parallel split_output_refines

definition slots_with_role :: "incoming_tensor_role slots \<Rightarrow> incoming_tensor_role \<Rightarrow> tensor_slot_name set" where
  "slots_with_role roles role = {slot. roles slot = Some role}"

lemma slots_with_role_simps [simp]:
  "slots_with_role Map.empty r = {}"
  "slots_with_role (m(k \<mapsto> r')) r = (if r = r' then insert k (slots_with_role m r) else slots_with_role m r - {k})"
  by (auto simp: slots_with_role_def)

lemma no_weights_eq [simp]: "no_weights c = Inr w \<longleftrightarrow> (\<exists>x. c = Inr x) \<and> w = Map.empty"
  by (auto simp: no_weights_def)

lemma weight_shape_slots:
  "batch_norm_get_weight_shapes b s = Inr w \<Longrightarrow> bn_affine b \<and> dom w = {Slot_GAMMA, Slot_BETA}"
  "layer_norm_get_weight_shapes l s = Inr w \<Longrightarrow> ln_elementwise_affine l \<and> dom w = {Slot_GAMMA, Slot_BETA}"
  "linear_get_weight_shapes d s = Inr w \<Longrightarrow>
     dom w = insert Slot_WEIGHT (if linear_use_bias d then {Slot_BIAS} else {})"
  "conv2d_get_weight_shapes c s = Inr w \<Longrightarrow>
     dom w = insert Slot_FILTER (if conv_use_bias c then {Slot_BIAS} else {})"
  "attention_get_weight_shapes a q k v = Inr w \<Longrightarrow>
     dom w = insert Slot_WEIGHT (if mha_bias a then {Slot_INPUT_BIAS, Slot_OUTPUT_BIAS} else {})"
  subgoal by (auto simp: batch_norm_get_weight_shapes_def batch_norm_get_gamma_weights_shape_def split: if_splits)
  subgoal by (auto simp: layer_norm_get_weight_shapes_def layer_norm_get_gamma_weights_shape_def split: if_splits)
  subgoal by (cases "linear_use_bias d") (auto simp: linear_get_weight_shapes_def split: if_splits)
  subgoal by (cases "conv_use_bias c") (auto simp: conv2d_get_weight_shapes_def split: if_splits)
  subgoal by (cases "mha_bias a") (auto simp: attention_get_weight_shapes_def split: if_splits)
  done

lemma role_slots:
  "slots_with_role (get_batch_norm_incoming_tensor_roles b) Role_INPUT = {Slot_INPUT}"
  "slots_with_role (get_batch_norm_incoming_tensor_roles b) Role_WEIGHT =
     (if bn_affine b then {Slot_GAMMA, Slot_BETA} else {})"
  "slots_with_role (get_layer_norm_incoming_tensor_roles l) Role_INPUT = {Slot_INPUT}"
  "slots_with_role (get_layer_norm_incoming_tensor_roles l) Role_WEIGHT =
     (if ln_elementwise_affine l then {Slot_GAMMA, Slot_BETA} else {})"
  "slots_with_role (get_linear_incoming_tensor_roles d) Role_INPUT = {Slot_INPUT}"
  "slots_with_role (get_linear_incoming_tensor_roles d) Role_WEIGHT =
     insert Slot_WEIGHT (if linear_use_bias d then {Slot_BIAS} else {})"
  "slots_with_role (get_conv2d_incoming_tensor_roles c) Role_INPUT = {Slot_INPUT}"
  "slots_with_role (get_conv2d_incoming_tensor_roles c) Role_WEIGHT =
     insert Slot_FILTER (if conv_use_bias c then {Slot_BIAS} else {})"
  by (auto simp: get_batch_norm_incoming_tensor_roles_def get_layer_norm_incoming_tensor_roles_def
      get_linear_incoming_tensor_roles_def get_conv2d_incoming_tensor_roles_def Let_def)

lemma attention_role_slots:
  "get_attention_incoming_tensor_roles a = Inr r \<Longrightarrow>
     slots_with_role r Role_INPUT = {Slot_QUERY, Slot_KEY, Slot_VALUE} \<and>
     slots_with_role r Role_WEIGHT =
       insert Slot_WEIGHT (if mha_bias a then {Slot_INPUT_BIAS, Slot_OUTPUT_BIAS} else {})"
  "attention_get_output_shape a q k v = Inr u \<Longrightarrow> \<exists>r. get_attention_incoming_tensor_roles a = Inr r"
  by (auto simp: get_attention_incoming_tensor_roles_def attention_get_output_shape_def Let_def)

lemma concat_get_output_shape_inputs:
  "concat_get_output_shape attrs ss = Inr t \<Longrightarrow> length ss = concat_num_inputs attrs"
  by (auto simp: concat_get_output_shape_def container_ops num_elements_def)

lemma variadic_input_roles_eq:
  assumes "concat_num_inputs attrs \<le> 16"
  shows "\<exists>r. variadic_input_roles attrs = Inr r \<and>
    slots_with_role r Role_INPUT = set (take (concat_num_inputs attrs) get_variadic_inputs_slot_name_sequence) \<and>
    slots_with_role r Role_WEIGHT = {}"
proof -
  let ?ks = "get_variadic_inputs_slot_name_sequence" and ?n = "concat_num_inputs attrs"
  have "length ?ks = 16" by (simp add: get_variadic_inputs_slot_name_sequence_def)
  with assms have sl: "slice ?ks 0 (Some (int ?n)) = Inr (take ?n ?ks)"
    using slice_nat_Some [of ?ks 0 ?n] by simp
  have "map_of (map (\<lambda>s. (s, Role_INPUT)) ks) k = (if k \<in> set ks then Some Role_INPUT else None)"
    for ks :: "tensor_slot_name list" and k by (induction ks) auto
  then have "slots_with_role (map_of (map (\<lambda>s. (s, Role_INPUT)) ks)) Role_INPUT = set ks"
    "slots_with_role (map_of (map (\<lambda>s. (s, Role_INPUT)) ks)) Role_WEIGHT = {}" for ks
    by (auto simp: slots_with_role_def)
  then show ?thesis by (simp add: variadic_input_roles_def sl)
qed

text \<open>Operators that do not commute with the addition of partial results.\<close>

fun applies_nonlinear_function :: "pcg_operator_attrs \<Rightarrow> bool" where
  "applies_nonlinear_function (PCG_element_unary _) = True"
| "applies_nonlinear_function (PCG_dropout _) = True"
| "applies_nonlinear_function (PCG_softmax _) = True"
| "applies_nonlinear_function (PCG_layer_norm _) = True"
| "applies_nonlinear_function (PCG_batch_norm _) = True"
| "applies_nonlinear_function (PCG_pool2d attrs) \<longleftrightarrow>
     pool_pool_type attrs = Pool_MAX \<or> pool_activation attrs \<noteq> None"
| "applies_nonlinear_function _ = False"

lemma wf_pshape_sum_degree: "wf_pshape s \<Longrightarrow> 1 \<le> get_sum_degree s"
  by (simp add: wf_pshape_def wf_degrees_iff shape_ops valid_pos_def)

section \<open>Properties\<close>

text \<open>
  Claim C14. Parallel shape inference refines sequential shape inference: when the parallel inference of an
  operator of a computation graph gives output shapes for well-formed inputs, the sequential inference of the
  reduced inputs gives their reduced shapes, with exactly one exception. A Reshape to a shape of more
  dimensions than its input has is accepted by both, but the parallel output keeps the rank of the input.
\<close>

theorem pcg_output_refines_cg:
  assumes "pcg_get_output_shapes (pcg_op_attrs_from_compgraph_op_attrs op) m = Inr out"
    and "\<forall>s \<in> ran m. wf_pshape s"
  shows "cg_get_output_shapes op (reduce_slots m) = Inr (reduce_slots out) \<longleftrightarrow>
    (\<forall>shape s. op = CG_reshape shape \<longrightarrow> m Slot_INPUT = Some s \<longrightarrow>
       length (ts_dims shape) \<le> length (ptd_shard_dims (pts_dims s)))"
proof (cases op)
  case (CG_concat attrs)
  have "concat_get_output_shape attrs (map get_reduced_shape ss) = Inr (get_reduced_shape t)"
    if "m = slots_of get_variadic_inputs_slot_name_sequence ss" "length ss \<le> 16"
      "concat_get_output_parallel_shape attrs ss = Inr t" for ss t
    using assms(2) that concat_output_refines
    by (simp add: ran_slots_of get_variadic_inputs_slot_name_sequence_def)
  with CG_concat assms(1) show ?thesis by (auto intro: output_patterns_refine(6))
next
  case (CG_reshape shape)
  with assms(1) obtain s t where st: "m = [Slot_INPUT \<mapsto> s]" "out = [Slot_OUTPUT \<mapsto> t]"
      "reshape_get_output_parallel_shape shape s = Inr t"
    by (auto simp: unary_output_eq)
  then have "reshape_get_output_shape shape (get_reduced_shape s) = Inr shape"
    by (simp add: reshape_parallel_eq)
  with CG_reshape st reshape_correct_iff_rank [OF st(3)] show ?thesis
    by (auto simp: unary_output_eq)
qed (use assms(1) in \<open>auto intro!: output_patterns_refine elim!: output_refines simp: output_refines
    gather_get_output_parallel_shape_def input_get_output_parallel_tensor_shape_def input_get_output_shape_def
    weight_get_output_parallel_tensor_shape_def weight_get_output_shape_def\<close>)

theorem pcg_output_refines_cg_witness:
  "cg_get_output_shapes (CG_flat \<lparr> flat_start_dim = 1, flat_end_dim = 2 \<rparr>)
     [Slot_INPUT \<mapsto> TensorShape [8, 4, 6] FLOAT] = Inr [Slot_OUTPUT \<mapsto> TensorShape [8, 24] FLOAT]"
proof -
  let ?s = "ParallelTensorShape (ParallelTensorDims
     [ShardParallelDim 8 2, ShardParallelDim 4 1, ShardParallelDim 6 1] (ReplicaParallelDimSet 3 1)) FLOAT"
  let ?t = "ParallelTensorShape (ParallelTensorDims
     [ShardParallelDim 8 2, ShardParallelDim 24 1] (ReplicaParallelDimSet 3 1)) FLOAT"
  let ?op = "CG_flat \<lparr> flat_start_dim = 1, flat_end_dim = 2 \<rparr>"
  have "flat_get_output_parallel_shape \<lparr> flat_start_dim = 1, flat_end_dim = 2 \<rparr> ?s = Inr ?t"
    by code_simp
  then have out: "pcg_get_output_shapes (pcg_op_attrs_from_compgraph_op_attrs ?op) [Slot_INPUT \<mapsto> ?s] =
      Inr [Slot_OUTPUT \<mapsto> ?t]"
    by (simp add: unary_output_eq)
  have wf: "\<forall>s \<in> ran [Slot_INPUT \<mapsto> ?s]. wf_pshape s"
    by (simp add: wf_pshape_def wf_degrees_iff wf_shape_def wf_dims_def shape_ops valid_pos_def
        INT_MAX_def get_sum_degree_def get_discard_copy_degree_def)
  have "get_reduced_shape ?s = TensorShape [8, 4, 6] FLOAT" "get_reduced_shape ?t = TensorShape [8, 24] FLOAT"
    by code_simp+
  with pcg_output_refines_cg [OF out wf] show ?thesis by simp
qed

lemma incoming_slot_roles:
  assumes "cg_get_output_shapes op m = Inr out" and "cg_get_weight_shapes op m = Inr weights"
  shows "\<exists>roles. cg_get_incoming_tensor_roles op = Inr roles \<and>
    slots_with_role roles Role_INPUT = dom m \<and> slots_with_role roles Role_WEIGHT = dom weights"
proof (cases op)
  case (CG_concat attrs)
  then obtain ss where ss: "length ss \<le> 16" "m = slots_of get_variadic_inputs_slot_name_sequence ss"
    "length ss = concat_num_inputs attrs"
    using assms(1) concat_get_output_shape_inputs by (auto simp: concat_output_eq)
  then have "dom m = set (take (concat_num_inputs attrs) get_variadic_inputs_slot_name_sequence)"
    by (simp add: get_variadic_inputs_slot_name_sequence_def)
  moreover obtain r where "variadic_input_roles attrs = Inr r"
    "slots_with_role r Role_INPUT = set (take (concat_num_inputs attrs) get_variadic_inputs_slot_name_sequence)"
    "slots_with_role r Role_WEIGHT = {}"
    using variadic_input_roles_eq [of attrs] ss by auto
  ultimately show ?thesis
    using CG_concat assms(2) by (simp add: cg_get_incoming_tensor_roles_def)
next
  case (CG_multi_head_attention attrs)
  with assms obtain q k v u where "m = [Slot_QUERY \<mapsto> q, Slot_KEY \<mapsto> k, Slot_VALUE \<mapsto> v]"
    "attention_get_output_shape attrs q k v = Inr u" "attention_get_weight_shapes attrs q k v = Inr weights"
    by (auto simp: attention_output_eq require_3_eq)
  then show ?thesis
    using CG_multi_head_attention attention_role_slots weight_shape_slots(5)
    by (fastforce simp: cg_get_incoming_tensor_roles_def)
next
  case (CG_batch_norm attrs)
  with assms obtain s where "m = [Slot_INPUT \<mapsto> s]" "batch_norm_get_weight_shapes attrs s = Inr weights"
    by (auto simp: container_ops)
  with CG_batch_norm weight_shape_slots(1) show ?thesis
    by (simp add: cg_get_incoming_tensor_roles_def role_slots del: dom_eq_singleton_conv)
next
  case (CG_layer_norm attrs)
  with assms obtain s where "m = [Slot_INPUT \<mapsto> s]" "layer_norm_get_weight_shapes attrs s = Inr weights"
    by (auto simp: container_ops)
  with CG_layer_norm weight_shape_slots(2) show ?thesis
    by (simp add: cg_get_incoming_tensor_roles_def role_slots del: dom_eq_singleton_conv)
next
  case (CG_linear attrs)
  with assms obtain s where "m = [Slot_INPUT \<mapsto> s]" "linear_get_weight_shapes attrs s = Inr weights"
    by (auto simp: container_ops)
  with CG_linear weight_shape_slots(3) show ?thesis
    by (simp add: cg_get_incoming_tensor_roles_def role_slots del: dom_eq_singleton_conv)
next
  case (CG_conv2d attrs)
  with assms obtain s where "m = [Slot_INPUT \<mapsto> s]" "conv2d_get_weight_shapes attrs s = Inr weights"
    by (auto simp: container_ops)
  with CG_conv2d weight_shape_slots(4) show ?thesis
    by (simp add: cg_get_incoming_tensor_roles_def role_slots del: dom_eq_singleton_conv)
qed (use assms in \<open>auto simp: unary_output_eq binary_output_eq source_output_eq split_outputs_eq
   cg_get_incoming_tensor_roles_def gather_get_output_shape_def container_ops split: if_splits\<close>)

lemma gather_incoming_slots:
  "(\<exists>w. cg_get_weight_shapes (CG_gather dim) m = Inr w) \<longleftrightarrow> dom m = {Slot_INPUT, Slot_INDEX}"
proof -
  have "(\<exists>w. cg_get_weight_shapes (CG_gather dim) m = Inr w) \<longleftrightarrow>
      (\<exists>x y. m = [Slot_INPUT \<mapsto> x, Slot_INDEX \<mapsto> y])"
    by (auto simp: require_two_keys_eq split_paired_Ex)
  also have "\<dots> \<longleftrightarrow> dom m = {Slot_INPUT, Slot_INDEX}"
  proof
    assume d: "dom m = {Slot_INPUT, Slot_INDEX}"
    then obtain x y where "m Slot_INPUT = Some x" "m Slot_INDEX = Some y" by blast
    moreover have "m k = None" if "k \<notin> {Slot_INPUT, Slot_INDEX}" for k using d that by blast
    ultimately have "m = [Slot_INPUT \<mapsto> x, Slot_INDEX \<mapsto> y]" by (auto simp: fun_eq_iff)
    then show "\<exists>x y. m = [Slot_INPUT \<mapsto> x, Slot_INDEX \<mapsto> y]" by blast
  qed (auto split: if_splits)
  finally show ?thesis .
qed

text \<open>
  Claim C33. The incoming tensor roles agree with the shape inference except for Gather. For every other
  operator, whenever outputs and weights are inferred, the slots with role \<open>INPUT\<close> are exactly the input slots
  and the slots with role \<open>WEIGHT\<close> are the weight slots. The weight inference of Gather accepts exactly
  the inputs in \<open>INPUT\<close> and \<open>INDEX\<close>, but its roles leave out \<open>INDEX\<close>.
\<close>

theorem incoming_slots_match_roles:
  assumes "cg_get_weight_shapes op m = Inr weights"
    and "(\<exists>attrs. op = CG_gather attrs) \<or> cg_get_output_shapes op m = Inr out"
  shows "\<exists>roles. cg_get_incoming_tensor_roles op = Inr roles \<and>
    slots_with_role roles Role_WEIGHT = dom weights \<and>
    (if \<exists>attrs. op = CG_gather attrs
     then dom m = {Slot_INPUT, Slot_INDEX} \<and> slots_with_role roles Role_INPUT = {Slot_INPUT}
     else slots_with_role roles Role_INPUT = dom m)"
proof (cases "\<exists>attrs. op = CG_gather attrs")
  case True
  then obtain dim where op: "op = CG_gather dim" by blast
  have "\<exists>w. cg_get_weight_shapes (CG_gather dim) m = Inr w"
    using assms(1) unfolding op by (rule exI [of _ weights])
  then have "dom m = {Slot_INPUT, Slot_INDEX}" by (simp only: gather_incoming_slots)
  moreover have "weights = Map.empty"
    using assms(1) by (simp only: op cg_get_weight_shapes.simps no_weights_eq)
  moreover have "cg_get_incoming_tensor_roles op = Inr [Slot_INPUT \<mapsto> Role_INPUT]"
    using op by (simp add: cg_get_incoming_tensor_roles_def)
  ultimately show ?thesis using True by (intro exI [of _ "[Slot_INPUT \<mapsto> Role_INPUT]"]) simp
next
  case False
  with assms(2) incoming_slot_roles [OF _ assms(1)] show ?thesis by auto
qed

theorem incoming_slots_match_roles_witness:
  "\<exists>roles. cg_get_incoming_tensor_roles (CG_embedding \<lparr> embedding_num_entries = 10,
       embedding_out_channels = 4, embedding_aggr = Some Aggr_SUM, embedding_data_type = FLOAT \<rparr>) = Inr roles \<and>
     slots_with_role roles Role_INPUT = {Slot_INPUT} \<and> slots_with_role roles Role_WEIGHT = {Slot_WEIGHT}"
proof -
  let ?op = "CG_embedding \<lparr> embedding_num_entries = 10,
       embedding_out_channels = 4, embedding_aggr = Some Aggr_SUM, embedding_data_type = FLOAT \<rparr>"
  let ?m = "[Slot_INPUT \<mapsto> TensorShape [8, 2] INT32]"
  let ?a = "\<lparr> embedding_num_entries = 10, embedding_out_channels = 4, embedding_aggr = Some Aggr_SUM,
     embedding_data_type = FLOAT \<rparr>"
  have "embedding_get_output_shape ?a (TensorShape [8, 2] INT32) = Inr (TensorShape [8, 4] FLOAT)"
    by code_simp
  then have o: "cg_get_output_shapes ?op ?m = Inr [Slot_OUTPUT \<mapsto> TensorShape [8, 4] FLOAT]"
    by (simp add: unary_output_eq)
  have "embedding_get_weights_shape ?a (TensorShape [8, 2] INT32) = Inr (TensorShape [10, 4] FLOAT)"
    by code_simp
  then have w: "cg_get_weight_shapes ?op ?m = Inr [Slot_WEIGHT \<mapsto> TensorShape [10, 4] FLOAT]"
    by (simp add: container_ops)
  show ?thesis using incoming_slots_match_roles [OF w disjI2 [OF o]] by auto
qed

text \<open>
  An input that is a partial sum is not accepted by the operators that apply a nonlinear
  function to it: unary elementwise operators, dropout, softmax, the norms and pooling with maximum or
  an activation.
\<close>

theorem nonlinear_operators_reject_partial_sums:
  assumes "applies_nonlinear_function op" and "pcg_get_output_shapes op m = Inr out"
    and "m slot = Some s" and "wf_pshape s"
  shows "get_sum_degree s = 1"
  using assms wf_pshape_sum_degree [OF assms(4)]
  by (cases op rule: applies_nonlinear_function.cases)
    (auto simp: unary_output_eq element_unary_parallel_eq dropout_get_output_parallel_shape_def
      softmax_parallel_eq layer_norm_get_output_parallel_shape_def layer_norm_parallel_shape_ok batch_norm.par_iff batch_norm_degree_eqs
      batch_norm_degrees_ok pool2d.par_iff pool2d_degrees_eq shape_ops split: if_splits)

theorem nonlinear_operators_reject_partial_sums_witness:
  "get_sum_degree (ParallelTensorShape (ParallelTensorDims [ShardParallelDim 8 2, ShardParallelDim 4 1]
     (ReplicaParallelDimSet 1 3)) FLOAT) = 1"
proof (rule nonlinear_operators_reject_partial_sums)
  let ?s = "ParallelTensorShape (ParallelTensorDims [ShardParallelDim 8 2, ShardParallelDim 4 1]
     (ReplicaParallelDimSet 1 3)) FLOAT"
  show "applies_nonlinear_function (PCG_element_unary make_relu_attrs)" by simp
  show "pcg_get_output_shapes (PCG_element_unary make_relu_attrs) [Slot_INPUT \<mapsto> ?s] = Inr [Slot_OUTPUT \<mapsto> ?s]"
    by (simp add: unary_output_eq element_unary_parallel_eq get_sum_degree_def)
  show "wf_pshape ?s"
    by (simp add: wf_pshape_def wf_degrees_iff wf_shape_def wf_dims_def shape_ops valid_pos_def
        INT_MAX_def get_sum_degree_def get_discard_copy_degree_def)
qed simp

text \<open>
  Linear has a fused activation, but its parallel inference never looks at it: an input
  sharded along its channels gives an output that is a partial sum, with every activation alike, where
  pooling with an activation is an error.
\<close>

theorem linear_ignores_activation:
  assumes "pcg_get_output_shapes (PCG_linear attrs) [Slot_INPUT \<mapsto> s] = Inr [Slot_OUTPUT \<mapsto> t]"
  shows "get_sum_degree t = get_sum_degree s * spd_degree (last (ptd_shard_dims (pts_dims s))) \<and>
    pcg_get_output_shapes (PCG_linear (attrs\<lparr>linear_activation := act\<rparr>)) [Slot_INPUT \<mapsto> s] =
      Inr [Slot_OUTPUT \<mapsto> t]"
proof -
  have a: "linear_get_output_parallel_shape (attrs\<lparr>linear_activation := act\<rparr>) = linear_get_output_parallel_shape attrs"
    by (simp add: fun_eq_iff linear_get_output_parallel_shape_def linear_get_output_shape_def
        linear_get_output_parallel_dim_degrees_def)
  have "linear_get_output_parallel_shape attrs s = Inr t" using assms by (simp add: unary_output_eq)
  then have "linear_get_output_parallel_dim_degrees attrs (get_parallel_degrees s) = Inr (get_parallel_degrees t)"
    by (rule linear_output.par_parts)
  then have d: "ptdd_sum_degree (get_parallel_degrees t) =
      ptdd_sum_degree (get_parallel_degrees s) * last (ptdd_shard_degrees (get_parallel_degrees s))"
    "ptdd_shard_degrees (get_parallel_degrees s) \<noteq> []"
    unfolding linear_degree_eqs by (auto simp: int_ops)
  then have "get_sum_degree t = get_sum_degree s * spd_degree (last (ptd_shard_dims (pts_dims s)))"
    by (simp add: shape_ops last_map)
  then show ?thesis using assms by (simp add: a)
qed

theorem linear_ignores_activation_witness:
  "pcg_get_output_shapes (PCG_linear \<lparr> linear_out_channels = 4, linear_use_bias = False,
     linear_data_type = FLOAT, linear_activation = Some Act_RELU, linear_regularizer = None \<rparr>)
     [Slot_INPUT \<mapsto> ParallelTensorShape (ParallelTensorDims [ShardParallelDim 8 1, ShardParallelDim 6 2]
       (ReplicaParallelDimSet 1 1)) FLOAT] =
   Inr [Slot_OUTPUT \<mapsto> ParallelTensorShape (ParallelTensorDims [ShardParallelDim 8 1, ShardParallelDim 4 1]
       (ReplicaParallelDimSet 2 1)) FLOAT]"
proof -
  let ?a = "\<lparr> linear_out_channels = 4, linear_use_bias = False, linear_data_type = FLOAT,
     linear_activation = None, linear_regularizer = None \<rparr>"
  let ?s = "ParallelTensorShape (ParallelTensorDims [ShardParallelDim 8 1, ShardParallelDim 6 2]
       (ReplicaParallelDimSet 1 1)) FLOAT"
  let ?t = "ParallelTensorShape (ParallelTensorDims [ShardParallelDim 8 1, ShardParallelDim 4 1]
       (ReplicaParallelDimSet 2 1)) FLOAT"
  have "linear_get_output_parallel_shape ?a ?s = Inr ?t" by code_simp
  then have "pcg_get_output_shapes (PCG_linear ?a) [Slot_INPUT \<mapsto> ?s] = Inr [Slot_OUTPUT \<mapsto> ?t]"
    by (simp add: unary_output_eq)
  from linear_ignores_activation [OF this, of "Some Act_RELU"] show ?thesis by simp
qed

text \<open>
  Concat has no weight shapes in a parallel computation graph: whenever its parallel output
  is inferred from at least two inputs, the inference of its weights stops at an assertion, because it
  requires the one slot \<open>INPUT\<close>. The inference for computation graphs returns the empty map.
\<close>

theorem pcg_concat_weight_inference_stops:
  assumes "pcg_get_output_shapes (PCG_concat attrs) m = Inr out" and "2 \<le> concat_num_inputs attrs"
  shows "pcg_get_weight_shapes (PCG_concat attrs) m = Inl Assertion_failed \<and>
    cg_get_weight_shapes (CG_concat attrs) (reduce_slots m) = Inr Map.empty"
proof -
  let ?ks = "get_variadic_inputs_slot_name_sequence"
  have ks: "distinct ?ks" "length ?ks = 16" by (simp_all add: get_variadic_inputs_slot_name_sequence_def)
  obtain ss t where ss: "length ss \<le> 16" "m = slots_of ?ks ss" "concat_get_output_parallel_shape attrs ss = Inr t"
    using assms(1) by (auto simp: concat_output_eq)
  then have "2 \<le> length ss"
    using assms(2) by (auto simp: concat_get_output_parallel_shape_def dest!: concat_get_output_shape_inputs)
  moreover have "card (dom m) = length ss"
    using ss ks by (simp add: distinct_card)
  ultimately have "pcg_get_weight_shapes (PCG_concat attrs) m = Inl Assertion_failed"
    by (simp add: no_weights_def require_only_key_def res_bind_require)
  moreover have "require_only_slots_sequence (reduce_slots m) ?ks = Inr (map get_reduced_shape ss)"
    using ss by (simp add: require_only_slots_sequence_eq [OF ks(1)] ks(2) INT_MAX_def)
  ultimately show ?thesis by simp
qed

theorem pcg_concat_weight_inference_stops_witness:
  "pcg_get_weight_shapes (PCG_concat \<lparr> concat_axis = 1, concat_num_inputs = 2 \<rparr>)
     [Slot_INPUT_00 \<mapsto> ParallelTensorShape (ParallelTensorDims [ShardParallelDim 8 2, ShardParallelDim 2 1]
       (ReplicaParallelDimSet 1 3)) FLOAT,
      Slot_INPUT_01 \<mapsto> ParallelTensorShape (ParallelTensorDims [ShardParallelDim 8 2, ShardParallelDim 4 1]
       (ReplicaParallelDimSet 1 3)) FLOAT] = Inl Assertion_failed"
proof -
  let ?s = "\<lambda>n. ParallelTensorShape (ParallelTensorDims [ShardParallelDim 8 2, ShardParallelDim n 1]
       (ReplicaParallelDimSet 1 3)) FLOAT"
  let ?a = "\<lparr> concat_axis = 1, concat_num_inputs = 2 \<rparr>"
  let ?m = "[Slot_INPUT_00 \<mapsto> ?s 2, Slot_INPUT_01 \<mapsto> ?s 4]"
  have "concat_get_output_parallel_shape ?a [?s 2, ?s 4] = Inr (?s 6)" by code_simp
  moreover have "?m = slots_of get_variadic_inputs_slot_name_sequence [?s 2, ?s 4]"
    by (auto simp: slots_of_def get_variadic_inputs_slot_name_sequence_def)
  ultimately have "concat_output ?m (concat_get_output_parallel_shape ?a) = Inr [Slot_OUTPUT \<mapsto> ?s 6]"
    unfolding concat_output_eq by (intro exI [of _ "[?s 2, ?s 4]"]) simp
  then have "pcg_get_output_shapes (PCG_concat ?a) ?m = Inr [Slot_OUTPUT \<mapsto> ?s 6]" by simp
  from pcg_concat_weight_inference_stops [OF this] show ?thesis by simp
qed

text \<open>
  The roles of Gather list only the slot \<open>INPUT\<close>, but its inference takes exactly the slots
  \<open>INPUT\<close> and \<open>INDEX\<close>.
\<close>

theorem gather_roles_miss_index:
  "(\<exists>roles. cg_get_incoming_tensor_roles (CG_gather dim) = Inr roles \<and> dom roles = {Slot_INPUT}) \<and>
   ((\<exists>w. cg_get_weight_shapes (CG_gather dim) m = Inr w) \<longleftrightarrow> dom m = {Slot_INPUT, Slot_INDEX})"
  by (simp only: gather_incoming_slots) (simp add: cg_get_incoming_tensor_roles_def)

end
