(* ===== verification/Orthotopes.thy ===== *)
theory Orthotopes
  imports Tensor_Shapes
begin

text \<open>
  Boxes of grid points, \<open>lib/utils/src/utils/orthotope/orthotope.cc\<close> and \<open>minimal_orthotope.cc\<close>, with
  the container helpers they use. An \<open>Orthotope\<close> has one field, the vector of its sizes, and an
  \<open>OrthotopeCoord\<close> one, the vector of its components; a \<open>MinimalOrthotope\<close> has sizes of at least two.
  The lemmas show that flattening a coordinate and unflattening an offset are inverse bijections
  between the points of a box and the numbers below its volume.
\<close>

type_synonym orthotope = "positive_int list"
type_synonym minimal_orthotope = "int_ge_two list"
type_synonym orthotope_coord = "nonnegative_int list"

section \<open>Container helpers\<close>

fun scanl :: "('t \<Rightarrow> 'a \<Rightarrow> 't res) \<Rightarrow> 't \<Rightarrow> 'a list \<Rightarrow> 't list res" where
  "scanl f init [] = Inr [init]"
| "scanl f init (elem # c) =
     res_bind (f init elem) (\<lambda>next.
     res_bind (scanl f next c) (\<lambda>rest. Inr (init # rest)))"

text \<open>\<open>scanr\<close> walks the container backwards, collects the results and reverses them.\<close>

fun scanr_rev :: "('a \<Rightarrow> 't \<Rightarrow> 't res) \<Rightarrow> 't list \<Rightarrow> 't \<Rightarrow> 'a list \<Rightarrow> 't list res" where
  "scanr_rev f result init [] = Inr result"
| "scanr_rev f result init (elem # c) =
     res_bind (f elem init) (\<lambda>next. scanr_rev f (result @ [next]) next c)"

definition scanr :: "('a \<Rightarrow> 't \<Rightarrow> 't res) \<Rightarrow> 't \<Rightarrow> 'a list \<Rightarrow> 't list res" where
  "scanr f init c = res_bind (scanr_rev f [init] init (rev c)) (\<lambda>result. Inr (rev result))"

definition filter_idxs :: "'a list \<Rightarrow> (nonnegative_int \<Rightarrow> bool) \<Rightarrow> 'a list res" where
  "filter_idxs input f =
     res_bind (num_elements input) (\<lambda>n.
     res_map (\<lambda>idx. vector_at input (int idx)) (filter f [0..<n]))"

definition zip3_with_strict ::
    "('a \<Rightarrow> 'b \<Rightarrow> 'c \<Rightarrow> 'd res) \<Rightarrow> 'a list \<Rightarrow> 'b list \<Rightarrow> 'c list \<Rightarrow> 'd list res" where
  "zip3_with_strict f v_a v_b v_c =
     res_bind (ASSERT (length v_a = length v_b \<and> length v_b = length v_c)) (\<lambda>_.
     res_map (\<lambda>(a, b, c). f a b c) (zip v_a (zip v_b v_c)))"

fun sum_nonnegative_from :: "nonnegative_int \<Rightarrow> nonnegative_int list \<Rightarrow> nonnegative_int res" where
  "sum_nonnegative_from acc [] = Inr acc"
| "sum_nonnegative_from acc (x # xs) =
     res_bind (nonnegative_int_add acc x) (\<lambda>r. sum_nonnegative_from r xs)"

definition sum_nonnegative :: "nonnegative_int list \<Rightarrow> nonnegative_int res" where
  "sum_nonnegative xs = (case xs of [] \<Rightarrow> Inr 0 | y # ys \<Rightarrow> sum_nonnegative_from y ys)"

text \<open>\<open>operator/\<close> and \<open>operator%\<close> of a \<open>nonnegative_int\<close> and a \<open>positive_int\<close>.\<close>

definition nonnegative_int_div :: "nonnegative_int \<Rightarrow> positive_int \<Rightarrow> nonnegative_int res" where
  "nonnegative_int_div lhs rhs = res_bind (cint_div (int lhs) (int rhs)) mk_nonnegative_int"

definition nonnegative_int_mod :: "nonnegative_int \<Rightarrow> positive_int \<Rightarrow> nonnegative_int res" where
  "nonnegative_int_mod lhs rhs =
     (if rhs = 0 then Inl Division_by_zero else mk_nonnegative_int (int lhs mod int rhs))"

section \<open>Orthotopes\<close>

definition orthotope_get_num_dims :: "orthotope \<Rightarrow> nonnegative_int res" where
  "orthotope_get_num_dims orthotope = num_elements orthotope"

definition orthotope_get_volume :: "orthotope \<Rightarrow> positive_int res" where
  "orthotope_get_volume orthotope = product orthotope"

definition get_all_coords_in_orthotope :: "orthotope \<Rightarrow> orthotope_coord set" where
  "get_all_coords_in_orthotope orthotope =
     set (cartesian_product (map (\<lambda>dim_size. [0..<dim_size]) orthotope))"

definition orthotope_contains_coord :: "orthotope \<Rightarrow> orthotope_coord \<Rightarrow> bool res" where
  "orthotope_contains_coord orthotope coord =
     res_bind (ASSERT (length orthotope = length coord)) (\<lambda>_.
     Inr (list_all id (map2 (\<lambda>c d. c < d) coord orthotope)))"

definition restrict_orthotope_to_dims :: "orthotope \<Rightarrow> nonnegative_int set \<Rightarrow> orthotope res" where
  "restrict_orthotope_to_dims orthotope allowed_dims =
     filter_idxs orthotope (\<lambda>idx. idx \<in> allowed_dims)"

definition orthotope_get_maximum_coord :: "orthotope \<Rightarrow> orthotope_coord res" where
  "orthotope_get_maximum_coord orthotope = res_map (\<lambda>d. mk_nonnegative_int (int d - 1)) orthotope"

definition orthotope_get_maximum_offset :: "orthotope \<Rightarrow> nonnegative_int res" where
  "orthotope_get_maximum_offset orthotope =
     res_bind (product orthotope) (\<lambda>p. mk_nonnegative_int (int p - 1))"

definition flatten_orthotope_coord :: "orthotope_coord \<Rightarrow> orthotope \<Rightarrow> nonnegative_int res" where
  "flatten_orthotope_coord coord orthotope =
     res_bind (ASSERT (length orthotope = length coord)) (\<lambda>_.
     res_bind (res_bind (orthotope_contains_coord orthotope coord) ASSERT) (\<lambda>_.
     res_bind (scanr positive_int_mul 1 orthotope) (\<lambda>steps.
     res_bind (slice steps 1 None) (\<lambda>tail_steps.
     res_bind (ASSERT (length coord = length tail_steps)) (\<lambda>_.
     res_bind (res_map (\<lambda>(coord_val, step). nonnegative_int_mul coord_val step)
       (zip coord tail_steps)) (\<lambda>offsets.
     res_bind (sum_nonnegative offsets) (\<lambda>result.
     res_bind (orthotope_get_maximum_offset orthotope) (\<lambda>maximum.
     res_bind (ASSERT (result \<le> maximum)) (\<lambda>_.
     Inr result)))))))))"

definition unflatten_orthotope_coord :: "nonnegative_int \<Rightarrow> orthotope \<Rightarrow> orthotope_coord res" where
  "unflatten_orthotope_coord flattened orthotope =
     res_bind (orthotope_get_maximum_offset orthotope) (\<lambda>maximum.
     res_bind (ASSERT (flattened \<le> maximum)) (\<lambda>_.
     res_bind (scanr positive_int_mul 1 orthotope) (\<lambda>steps.
     res_bind (slice steps 1 None) (\<lambda>tail_steps.
     res_bind (slice steps 0 (Some (- 1))) (\<lambda>next_steps.
     res_bind (zip3_with_strict (\<lambda>dim step next_step.
         res_bind (nonnegative_int_mod flattened next_step) (\<lambda>m. nonnegative_int_div m step))
       orthotope tail_steps next_steps) (\<lambda>result.
     res_bind (res_bind (orthotope_contains_coord orthotope result) ASSERT) (\<lambda>_.
     Inr result)))))))"

section \<open>Minimal orthotopes\<close>

definition minimal_orthotope_get_num_dims :: "minimal_orthotope \<Rightarrow> nonnegative_int res" where
  "minimal_orthotope_get_num_dims o1 = num_elements o1"

definition require_orthotope_is_minimal :: "orthotope \<Rightarrow> minimal_orthotope res" where
  "require_orthotope_is_minimal orthotope = res_map (\<lambda>dim. mk_int_ge_two (int dim)) orthotope"

definition orthotope_from_minimal_orthotope :: "minimal_orthotope \<Rightarrow> orthotope" where
  "orthotope_from_minimal_orthotope minimal_orthotope = map (\<lambda>dim. dim) minimal_orthotope"

definition minimal_orthotope_get_volume :: "minimal_orthotope \<Rightarrow> positive_int res" where
  "minimal_orthotope_get_volume o1 = orthotope_get_volume (orthotope_from_minimal_orthotope o1)"

section \<open>Lemmas\<close>

named_theorems orthotope_ops \<open>what the operations on boxes compute\<close>

lemma nonnegative_int_div_eq [int_ops]:
  "nonnegative_int_div a b = Inr c \<longleftrightarrow> 0 < b \<and> c = a div b \<and> a div b \<le> INT_MAX"
  using positive_int_div_eq [of a b c] by (simp add: nonnegative_int_div_def positive_int_div_def)

lemma nonnegative_int_mod_eq [int_ops]:
  "nonnegative_int_mod a b = Inr c \<longleftrightarrow> 0 < b \<and> c = a mod b"
  using positive_int_mod_eq [of a b c] by (simp add: nonnegative_int_mod_def positive_int_mod_def)

lemma coords_eq [orthotope_ops]:
  "get_all_coords_in_orthotope ds = {xs. list_all2 (<) xs ds}"
  by (auto simp: get_all_coords_in_orthotope_def cartesian_product_iff list_all2_map2)

lemma orthotope_contains_coord_eq [orthotope_ops]:
  "orthotope_contains_coord ds xs = Inr b \<longleftrightarrow> length ds = length xs \<and> b = list_all2 (<) xs ds"
  by (auto simp: orthotope_contains_coord_def list_all2_iff list_all_iff)

text \<open>The box without the checks: what a coordinate flattens to, and back.\<close>

fun steps_of :: "nat list \<Rightarrow> nat list" where
  "steps_of [] = [1]"
| "steps_of (d # ds) = (d * prod_list ds) # steps_of ds"

fun flat_index :: "nat list \<Rightarrow> nat list \<Rightarrow> nat" where
  "flat_index (x # xs) (d # ds) = x * prod_list ds + flat_index xs ds"
| "flat_index _ _ = 0"

fun coord_of :: "nat \<Rightarrow> nat list \<Rightarrow> nat list" where
  "coord_of n [] = []"
| "coord_of n (d # ds) = (n mod (d * prod_list ds)) div prod_list ds # coord_of n ds"

lemma length_coord_of [simp]: "length (coord_of n ds) = length ds"
  by (induction ds) auto

lemma length_steps_of [simp]: "length (steps_of ds) = Suc (length ds)"
  by (induction ds) auto

lemma hd_steps_of: "hd (steps_of ds) = prod_list ds" "steps_of ds \<noteq> []"
  by (induction ds) auto

lemma flat_index_less:
  "list_all2 (<) xs ds \<Longrightarrow> flat_index xs ds < prod_list ds"
proof (induction rule: list_all2_induct)
  case (Cons x xs d ds)
  then have "x * prod_list ds + flat_index xs ds < x * prod_list ds + prod_list ds" by simp
  also have "\<dots> = Suc x * prod_list ds" by simp
  also have "\<dots> \<le> d * prod_list ds" using Cons by (intro mult_le_mono1) simp
  finally show ?case by simp
qed simp

lemma coord_of_mod: "prod_list ds dvd m \<Longrightarrow> coord_of (n mod m) ds = coord_of n ds"
proof (induction ds arbitrary: m)
  case (Cons d ds)
  then have "prod_list ds dvd m" by (auto intro: dvd_mult_right)
  with Cons show ?case by (simp add: mod_mod_cancel)
qed simp

lemma coord_of_flat_index: "list_all2 (<) xs ds \<Longrightarrow> coord_of (flat_index xs ds) ds = xs"
proof (induction rule: list_all2_induct)
  case (Cons x xs d ds)
  let ?p = "prod_list ds" and ?f = "flat_index xs ds"
  have f: "?f < ?p" using Cons by (simp add: flat_index_less)
  have "flat_index (x # xs) (d # ds) < prod_list (d # ds)"
    using Cons by (intro flat_index_less) simp
  then have "(x * ?p + ?f) mod (d * ?p) = x * ?p + ?f" by simp
  moreover have "(x * ?p + ?f) div ?p = x" using f by simp
  moreover have "coord_of (x * ?p + ?f) ds = coord_of ((x * ?p + ?f) mod ?p) ds"
    using coord_of_mod [of ds ?p "x * ?p + ?f"] by simp
  ultimately show ?case using Cons f by simp
qed simp

lemma flat_index_coord_of:
  "\<forall>d \<in> set ds. 0 < d \<Longrightarrow> list_all2 (<) (coord_of n ds) ds \<and> flat_index (coord_of n ds) ds = n mod prod_list ds"
proof (induction ds)
  case (Cons d ds)
  let ?p = "prod_list ds"
  have p: "0 < ?p" using Cons by (simp add: prod_list_pos)
  have "n mod (d * ?p) div ?p < d" using Cons p by (simp add: less_mult_imp_div_less)
  moreover have "n mod (d * ?p) div ?p * ?p + n mod ?p = n mod (d * ?p)"
    using div_mult_mod_eq [of "n mod (d * ?p)" ?p] by (simp add: mod_mult_self3 mod_mod_cancel)
  ultimately show ?case using Cons by simp
qed simp

lemma scanr_rev_snoc:
  "scanr_rev f acc init (xs @ [x]) =
     res_bind (scanr_rev f acc init xs) (\<lambda>r. res_bind (f x (if xs = [] then init else last r)) (\<lambda>n. Inr (r @ [n])))"
  by (induction f acc init xs rule: scanr_rev.induct) (auto split: sum.splits simp: res_bind_def)


lemma scanr_simps:
  "scanr f init [] = Inr [init]"
  "scanr f init (d # ds) =
     res_bind (scanr f init ds) (\<lambda>s. res_bind (f d (hd s)) (\<lambda>n. Inr (n # s)))"
proof -
  have last: "scanr_rev f [init] init xs = Inr r \<Longrightarrow> r \<noteq> [] \<and> (if xs = [] then init else last r) = last r" for xs r
    by (induction xs arbitrary: r rule: rev_induct) (auto simp: scanr_rev_snoc)
  show "scanr f init (d # ds) =
     res_bind (scanr f init ds) (\<lambda>s. res_bind (f d (hd s)) (\<lambda>n. Inr (n # s)))"
    using last [of "rev ds"]
    by (cases "scanr_rev f [init] init (rev ds)") (auto simp: scanr_def scanr_rev_snoc hd_rev res_bind_assoc)
qed (simp add: scanr_def)

lemma scanr_mul_eq:
  "scanr positive_int_mul 1 ds = Inr s \<longleftrightarrow>
     (\<forall>d \<in> set ds. 0 < d) \<and> prod_list ds \<le> INT_MAX \<and> s = steps_of ds"
proof (induction ds arbitrary: s)
  case Nil
  then show ?case by (auto simp: scanr_simps INT_MAX_def)
next
  case (Cons d ds)
  have "scanr positive_int_mul 1 (d # ds) = Inr s \<longleftrightarrow>
      (\<forall>d \<in> set ds. 0 < d) \<and> prod_list ds \<le> INT_MAX \<and> 0 < d * prod_list ds \<and>
      d * prod_list ds \<le> INT_MAX \<and> s = d * prod_list ds # steps_of ds"
    by (auto simp: scanr_simps Cons.IH int_ops hd_steps_of simp del: One_nat_def)
  also have "\<dots> \<longleftrightarrow> (\<forall>x \<in> set (d # ds). 0 < x) \<and> prod_list (d # ds) \<le> INT_MAX \<and> s = steps_of (d # ds)"
    by (auto intro: order.trans [of _ "d * prod_list ds"] prod_list_pos)
  finally show ?case .
qed

lemma sum_nonnegative_from_eq:
  "acc \<le> INT_MAX \<Longrightarrow>
     sum_nonnegative_from acc xs = Inr s \<longleftrightarrow> s = acc + sum_list xs \<and> acc + sum_list xs \<le> INT_MAX"
proof (induction xs arbitrary: acc)
  case (Cons x xs)
  then show ?case by (cases "acc + x \<le> INT_MAX") (auto simp: int_ops add.assoc)
qed auto

lemma sum_nonnegative_eq:
  "\<forall>x \<in> set xs. x \<le> INT_MAX \<Longrightarrow>
     sum_nonnegative xs = Inr s \<longleftrightarrow> s = sum_list xs \<and> sum_list xs \<le> INT_MAX"
  by (auto simp: sum_nonnegative_def sum_nonnegative_from_eq split: list.splits)

lemma maximum_offset_eq [orthotope_ops]:
  "orthotope_get_maximum_offset ds = Inr m \<longleftrightarrow>
     (\<forall>d \<in> set ds. 0 < d) \<and> prod_list ds \<le> INT_MAX \<and> Suc m = prod_list ds"
proof -
  have "\<forall>d \<in> set ds. 0 < d \<Longrightarrow> 0 < prod_list ds" by (rule prod_list_pos)
  then show ?thesis by (auto simp: orthotope_get_maximum_offset_def int_ops)
qed

lemma Suc_le_conv: "(\<exists>m. Suc m = p \<and> n \<le> m) \<longleftrightarrow> n < p"
  by (cases p) auto

lemma slice_steps:
  "slice (steps_of ds) 1 None = Inr (tl (steps_of ds))"
  "slice (steps_of ds) 0 (Some (- 1)) = Inr (butlast (steps_of ds))"
proof -
  show "slice (steps_of ds) 1 None = Inr (tl (steps_of ds))"
    using slice_nat_None [of "steps_of ds" 1] by (simp add: drop_Suc)
  show "slice (steps_of ds) 0 (Some (- 1)) = Inr (butlast (steps_of ds))"
    by (simp add: slice_def slice_resolve_loc_def butlast_conv_take)
qed

lemma flat_index_sum:
  "length xs = length ds \<Longrightarrow>
     flat_index xs ds = sum_list (map (\<lambda>(x, s). x * s) (zip xs (tl (steps_of ds))))"
proof (induction xs ds rule: list_induct2)
  case (Cons x xs d ds)
  have "steps_of ds = prod_list ds # tl (steps_of ds)" using hd_steps_of [of ds] by (metis list.collapse)
  then have "zip (x # xs) (steps_of ds) = (x, prod_list ds) # zip xs (tl (steps_of ds))"
    by (metis zip_Cons_Cons)
  with Cons show ?case by simp
qed simp


lemma list_all2_less_pos: "list_all2 (<) xs ds \<Longrightarrow> \<forall>d \<in> set ds. (0 :: nat) < d"
  by (induction rule: list_all2_induct) auto

lemma flat_terms_bounded:
  assumes "list_all2 (<) xs ds"
  shows "\<forall>y \<in> set (map (\<lambda>(x, s). x * s) (zip xs (tl (steps_of ds)))). y \<le> flat_index xs ds"
  using flat_index_sum [OF list_all2_lengthD [OF assms]] by (simp add: member_le_sum_list)

lemma flatten_eq [orthotope_ops]:
  "flatten_orthotope_coord xs ds = Inr n \<longleftrightarrow>
     list_all2 (<) xs ds \<and> prod_list ds \<le> INT_MAX \<and> n = flat_index xs ds" (is "?l \<longleftrightarrow> ?r")
proof -
  have steps: "length xs = length ds \<Longrightarrow> length xs = length (tl (steps_of ds))" by simp
  let ?terms = "map (\<lambda>(x, s). x * s) (zip xs (tl (steps_of ds)))"
  have inner: "(\<exists>ys. res_map (\<lambda>(x, s). nonnegative_int_mul x s) (zip xs (tl (steps_of ds))) = Inr ys \<and>
      sum_nonnegative ys = Inr n \<and> n < prod_list ds) \<longleftrightarrow> n = flat_index xs ds"
    if xs: "list_all2 (<) xs ds" and ds: "prod_list ds \<le> INT_MAX"
  proof -
    have less: "flat_index xs ds < prod_list ds" using xs by (rule flat_index_less)
    have b: "\<forall>y \<in> set ?terms. y \<le> INT_MAX"
      using flat_terms_bounded [OF xs] less ds by (meson less_imp_le order.trans)
    have "res_map (\<lambda>(x, s). nonnegative_int_mul x s) (zip xs (tl (steps_of ds))) = Inr ?terms"
    proof -
      have "res_map (\<lambda>(x, s). nonnegative_int_mul x s) (zip xs (tl (steps_of ds))) =
          Inr (map (\<lambda>p. fst p * snd p) (zip xs (tl (steps_of ds))))"
        using b by (intro res_map_Inr_on) (auto simp: int_ops)
      then show ?thesis by (simp add: case_prod_beta')
    qed
    moreover have "sum_nonnegative ?terms = Inr n \<longleftrightarrow> n = flat_index xs ds \<and> flat_index xs ds \<le> INT_MAX"
      using sum_nonnegative_eq [OF b] flat_index_sum [OF list_all2_lengthD [OF xs]] by simp
    ultimately show ?thesis using less ds by auto
  qed
  have pos: "\<forall>d \<in> set ds. 0 < d" if "list_all2 (<) xs ds"
    using that by (rule list_all2_less_pos)
  have "?l \<longleftrightarrow> length xs = length ds \<and> list_all2 (<) xs ds \<and> (\<forall>d \<in> set ds. 0 < d) \<and> prod_list ds \<le> INT_MAX \<and>
      (\<exists>ys. res_map (\<lambda>(x, s). nonnegative_int_mul x s) (zip xs (tl (steps_of ds))) = Inr ys \<and>
      sum_nonnegative ys = Inr n \<and> n < prod_list ds)"
    by (auto simp: flatten_orthotope_coord_def orthotope_contains_coord_eq scanr_mul_eq slice_steps maximum_offset_eq
        Suc_le_conv simp del: One_nat_def)
  also have "\<dots> \<longleftrightarrow> ?r" using inner pos by (auto dest: list_all2_lengthD)
  finally show ?thesis .
qed

lemma coord_of_zip:
  "map (\<lambda>(d, step, next_step). n mod next_step div step)
     (zip ds (zip (tl (steps_of ds)) (butlast (steps_of ds)))) = coord_of n ds"
proof (induction ds)
  case (Cons d ds)
  obtain t where "steps_of ds = prod_list ds # t" using hd_steps_of [of ds] by (metis list.collapse)
  with Cons show ?case by simp
qed simp

lemma steps_pos: "\<forall>d \<in> set ds. 0 < d \<Longrightarrow> \<forall>s \<in> set (steps_of ds). 0 < s"
  by (induction ds) (auto intro: prod_list_pos)

lemma unflatten_eq [orthotope_ops]:
  "unflatten_orthotope_coord n ds = Inr xs \<longleftrightarrow>
     (\<forall>d \<in> set ds. 0 < d) \<and> prod_list ds \<le> INT_MAX \<and> n < prod_list ds \<and> xs = coord_of n ds" (is "?l \<longleftrightarrow> ?r")
proof (cases "(\<forall>d \<in> set ds. 0 < d) \<and> prod_list ds \<le> INT_MAX \<and> n < prod_list ds")
  case True
  let ?zs = "zip ds (zip (tl (steps_of ds)) (butlast (steps_of ds)))"
  have "n \<le> INT_MAX" using True by simp
  have el: "0 < step \<and> 0 < next_step \<and> n mod next_step div step \<le> INT_MAX" if "(d, step, next_step) \<in> set ?zs"
    for d step next_step
  proof -
    have "step \<in> set (steps_of ds)" "next_step \<in> set (steps_of ds)"
      using that by (auto dest!: set_zip_rightD in_set_zipE intro: in_set_butlastD list.set_sel(2) [OF hd_steps_of(2)]
          elim!: in_set_zipE)
    moreover have "n mod next_step div step \<le> n" by (meson div_le_dividend mod_less_eq_dividend order.trans)
    ultimately show ?thesis using steps_pos True \<open>n \<le> INT_MAX\<close> by fastforce
  qed
  have "res_map (\<lambda>(a, b, c). res_bind (nonnegative_int_mod n c) (\<lambda>m. nonnegative_int_div m b)) ?zs =
      Inr (map (\<lambda>t. n mod snd (snd t) div fst (snd t)) ?zs)"
    using el by (intro res_map_Inr_on) (auto simp: int_ops)
  also have "map (\<lambda>t. n mod snd (snd t) div fst (snd t)) ?zs = coord_of n ds"
    unfolding coord_of_zip [symmetric] by (simp add: case_prod_beta')
  finally have z: "zip3_with_strict (\<lambda>dim step next_step.
         res_bind (nonnegative_int_mod n next_step) (\<lambda>m. nonnegative_int_div m step))
       ds (tl (steps_of ds)) (butlast (steps_of ds)) = Inr (coord_of n ds)"
    by (simp add: zip3_with_strict_def)
  have c: "orthotope_contains_coord ds (coord_of n ds) = Inr True"
    using flat_index_coord_of True by (auto simp: orthotope_contains_coord_eq)
  have m: "orthotope_get_maximum_offset ds = Inr (prod_list ds - 1)"
    using True by (simp add: maximum_offset_eq)
  have "scanr positive_int_mul 1 ds = Inr (steps_of ds)" using True by (simp only: scanr_mul_eq) simp
  with True show ?thesis
    by (auto simp: unflatten_orthotope_coord_def m slice_steps z c simp del: One_nat_def)
next
  case False
  then show ?thesis
    by (auto simp: unflatten_orthotope_coord_def maximum_offset_eq less_Suc_eq_le [symmetric] simp del: One_nat_def)
qed

section \<open>Properties\<close>

text \<open>
  Claim C32. Flattening and unflattening are inverse to each other: a point of a box flattens to an
  offset exactly when the offset unflattens to the point. Every point of a box whose volume fits an
  \<open>int\<close> flattens, the offset is below the volume, and every number below the volume unflattens.
\<close>

theorem flatten_unflatten_roundtrip:
  "(flatten_orthotope_coord coord dims = Inr n \<longleftrightarrow> unflatten_orthotope_coord n dims = Inr coord) \<and>
   (orthotope_get_volume dims = Inr v \<longrightarrow>
     (coord \<in> get_all_coords_in_orthotope dims \<longleftrightarrow> (\<exists>n < v. flatten_orthotope_coord coord dims = Inr n)) \<and>
     (n < v \<longleftrightarrow> (\<exists>c \<in> get_all_coords_in_orthotope dims. unflatten_orthotope_coord n dims = Inr c)))"
proof -
  have "flatten_orthotope_coord coord dims = Inr n \<longleftrightarrow> unflatten_orthotope_coord n dims = Inr coord"
  proof
    assume "flatten_orthotope_coord coord dims = Inr n"
    then have f: "list_all2 (<) coord dims" "prod_list dims \<le> INT_MAX" "n = flat_index coord dims"
      by (simp_all add: flatten_eq)
    then show "unflatten_orthotope_coord n dims = Inr coord"
      using list_all2_less_pos [OF f(1)] flat_index_less [OF f(1)] coord_of_flat_index [OF f(1)]
      by (simp add: unflatten_eq)
  next
    assume "unflatten_orthotope_coord n dims = Inr coord"
    then show "flatten_orthotope_coord coord dims = Inr n"
      using flat_index_coord_of [of dims n] by (simp add: unflatten_eq flatten_eq)
  qed
  then show ?thesis
    using flat_index_less flat_index_coord_of [of dims n]
    by (auto simp: orthotope_get_volume_def int_ops coords_eq flatten_eq unflatten_eq)
qed


theorem flatten_unflatten_roundtrip_witness:
  "unflatten_orthotope_coord 6 [3, 4] = Inr [1, 2] \<and>
   (\<exists>c \<in> get_all_coords_in_orthotope [3, 4]. unflatten_orthotope_coord 6 [3, 4] = Inr c)"
proof -
  have "orthotope_get_volume [3, 4] = Inr 12" "flatten_orthotope_coord [1, 2] [3, 4] = Inr 6"
    by code_simp+
  with flatten_unflatten_roundtrip [of "[1, 2]" "[3, 4]" 6 12] show ?thesis by simp
qed

end
