(* ===== verification/Task_Spaces.thy ===== *)
theory Task_Spaces
  imports Orthotopes Shape_Inference "HOL-Library.List_Lexorder"
begin

text \<open>
  The tasks an operator is divided into: \<open>operator_task_space.cc\<close>, \<open>task_space_coordinate.cc\<close> and
  \<open>get_operator_task_space.cc\<close> of \<open>lib/op-attrs\<close>, and the dimension domains of \<open>lib/utils\<close> they
  use. An \<open>OperatorTaskSpace\<close> has one field, a minimal orthotope, and a \<open>TaskSpaceCoordinate\<close> one,
  an orthotope coordinate; an \<open>operator_task_space_dim_idx_t\<close> is its number.
\<close>

type_synonym operator_task_space = minimal_orthotope
type_synonym task_space_coordinate = orthotope_coord
type_synonym operator_task_space_dim_idx_t = nonnegative_int

section \<open>The order of the parallel dimensions\<close>

text \<open>
  \<open>get_parallel_tensor_dim_ordering\<close> is the order of the type, so that \<open>sorted_by\<close> on a set of
  dimensions is \<open>sorted_list_of_set\<close>.
\<close>

instantiation parallel_tensor_dim_idx_t :: linorder
begin

definition "less_parallel_tensor_dim_idx_t l r = parallel_tensor_dim_lt l r"
definition "less_eq_parallel_tensor_dim_idx_t l r \<longleftrightarrow> parallel_tensor_dim_lt l r \<or> (l :: parallel_tensor_dim_idx_t) = r"

instance
proof
  fix x y z :: parallel_tensor_dim_idx_t
  note defs = less_parallel_tensor_dim_idx_t_def less_eq_parallel_tensor_dim_idx_t_def
  show "x < y \<longleftrightarrow> x \<le> y \<and> \<not> y \<le> x"
    by (cases x rule: parallel_idx_cases; cases y rule: parallel_idx_cases) (auto simp: defs)
  show "x \<le> x" by (simp add: defs)
  show "x \<le> y \<Longrightarrow> y \<le> z \<Longrightarrow> x \<le> z"
    by (cases x rule: parallel_idx_cases; cases y rule: parallel_idx_cases; cases z rule: parallel_idx_cases)
      (auto simp: defs)
  show "x \<le> y \<Longrightarrow> y \<le> x \<Longrightarrow> x = y"
    by (cases x rule: parallel_idx_cases; cases y rule: parallel_idx_cases) (auto simp: defs)
  show "x \<le> y \<or> y \<le> x"
    by (cases x rule: parallel_idx_cases; cases y rule: parallel_idx_cases) (auto simp: defs)
qed

end

section \<open>Minimal dimension domains\<close>

text \<open>A \<open>DimDomain\<close> or \<open>MinimalDimDomain\<close> has one field, the map from its dimensions to their sizes.\<close>

definition try_int_ge_two_from_positive_int :: "positive_int \<Rightarrow> int_ge_two option" where
  "try_int_ge_two_from_positive_int x = (if 2 \<le> x then Some x else None)"

definition minimal_dim_domain_from_dim_domain :: "('k \<rightharpoonup> positive_int) \<Rightarrow> ('k \<rightharpoonup> int_ge_two)" where
  "minimal_dim_domain_from_dim_domain dims k = Option.bind (dims k) try_int_ge_two_from_positive_int"

definition minimal_orthotope_from_minimal_dim_domain ::
    "('k::linorder \<rightharpoonup> int_ge_two) \<Rightarrow> minimal_orthotope res" where
  "minimal_orthotope_from_minimal_dim_domain domain =
     res_map (map_at domain) (sorted_list_of_set (dom domain))"

definition minimal_dim_domain_from_minimal_orthotope ::
    "minimal_orthotope \<Rightarrow> 'k::linorder set \<Rightarrow> ('k \<rightharpoonup> int_ge_two) res" where
  "minimal_dim_domain_from_minimal_orthotope orthotope dims =
     (let keys = sorted_list_of_set dims
      in res_bind (ASSERT (length keys = length orthotope)) (\<lambda>_. Inr (map_of (zip keys orthotope))))"

definition minimal_dim_domain_from_parallel_tensor_dim_degrees ::
    "parallel_tensor_dim_degrees \<Rightarrow> (parallel_tensor_dim_idx_t \<rightharpoonup> int_ge_two) res" where
  "minimal_dim_domain_from_parallel_tensor_dim_degrees dim_degrees =
     res_bind (dim_domain_from_parallel_tensor_dim_degrees dim_degrees) (\<lambda>d.
     Inr (minimal_dim_domain_from_dim_domain d))"

section \<open>Task spaces\<close>

definition trivial_op_task_space :: operator_task_space where
  "trivial_op_task_space = []"

definition get_task_space_coordinates :: "operator_task_space \<Rightarrow> task_space_coordinate set" where
  "get_task_space_coordinates task = set (cartesian_product (map (\<lambda>num_points. [0..<num_points]) task))"

definition operator_task_space_contains_coord ::
    "operator_task_space \<Rightarrow> task_space_coordinate \<Rightarrow> bool" where
  "operator_task_space_contains_coord task_space coord \<longleftrightarrow>
     coord \<in> get_task_space_coordinates task_space"

definition maximum :: "'a::linorder set \<Rightarrow> 'a res" where
  "maximum c = (if c = {} then Inl Panicked else Inr (Max c))"

definition get_task_space_maximum_coordinate :: "operator_task_space \<Rightarrow> task_space_coordinate res" where
  "get_task_space_maximum_coordinate task = maximum (get_task_space_coordinates task)"

definition op_task_space_num_dims :: "operator_task_space \<Rightarrow> nonnegative_int res" where
  "op_task_space_num_dims op_task_space = minimal_orthotope_get_num_dims op_task_space"

definition num_tasks :: "operator_task_space \<Rightarrow> positive_int res" where
  "num_tasks op_task_space = minimal_orthotope_get_volume op_task_space"

definition op_task_space_dim_size_for_idx ::
    "operator_task_space \<Rightarrow> operator_task_space_dim_idx_t \<Rightarrow> positive_int res" where
  "op_task_space_dim_size_for_idx op_task_space idx = vector_at op_task_space (int idx)"

definition operator_task_space_dim_idx_range :: "nonnegative_int \<Rightarrow> operator_task_space_dim_idx_t set" where
  "operator_task_space_dim_idx_range end' = set [0..<end']"

definition minimal_dim_domain_from_operator_task_space ::
    "operator_task_space \<Rightarrow> (operator_task_space_dim_idx_t \<rightharpoonup> int_ge_two) res" where
  "minimal_dim_domain_from_operator_task_space operator_task_space =
     res_bind (minimal_orthotope_get_num_dims operator_task_space) (\<lambda>n.
     minimal_dim_domain_from_minimal_orthotope operator_task_space (operator_task_space_dim_idx_range n))"

definition operator_task_space_from_minimal_dim_domain ::
    "(operator_task_space_dim_idx_t \<rightharpoonup> int_ge_two) \<Rightarrow> operator_task_space res" where
  "operator_task_space_from_minimal_dim_domain minimal_dim_domain =
     minimal_orthotope_from_minimal_dim_domain minimal_dim_domain"

definition operator_task_space_get_dim_idxs ::
    "operator_task_space \<Rightarrow> operator_task_space_dim_idx_t set res" where
  "operator_task_space_get_dim_idxs op_task_space =
     res_bind (minimal_dim_domain_from_operator_task_space op_task_space) (\<lambda>d. Inr (dom d))"

definition get_operator_task_space_matching_parallel_tensor_dim_degrees ::
    "parallel_tensor_dim_degrees \<Rightarrow> operator_task_space res" where
  "get_operator_task_space_matching_parallel_tensor_dim_degrees dim_degrees =
     res_bind (minimal_dim_domain_from_parallel_tensor_dim_degrees dim_degrees)
       minimal_orthotope_from_minimal_dim_domain"

definition task_space_coord_num_dims :: "task_space_coordinate \<Rightarrow> nonnegative_int res" where
  "task_space_coord_num_dims coord = num_elements coord"

section \<open>The task spaces of the operators\<close>

definition element_unary_get_operator_task_space ::
    "element_unary_attrs \<Rightarrow> parallel_tensor_dim_degrees \<Rightarrow> operator_task_space res" where
  "element_unary_get_operator_task_space attrs input_degrees =
     res_bind (element_unary_get_output_parallel_dim_degrees attrs input_degrees)
       get_operator_task_space_matching_parallel_tensor_dim_degrees"

definition element_binary_get_operator_task_space ::
    "element_binary_attrs \<Rightarrow> parallel_tensor_dim_degrees \<Rightarrow> parallel_tensor_dim_degrees \<Rightarrow>
     operator_task_space res" where
  "element_binary_get_operator_task_space attrs lhs_input_degrees rhs_input_degrees =
     res_bind (element_binary_get_output_parallel_dim_degrees attrs lhs_input_degrees rhs_input_degrees)
       get_operator_task_space_matching_parallel_tensor_dim_degrees"

definition linear_get_operator_task_space ::
    "linear_attrs \<Rightarrow> parallel_tensor_dim_degrees \<Rightarrow> operator_task_space res" where
  "linear_get_operator_task_space attrs input_degrees =
     res_bind (linear_get_output_parallel_dim_degrees attrs input_degrees)
       get_operator_task_space_matching_parallel_tensor_dim_degrees"

definition transpose_get_operator_task_space ::
    "tensor_dim_permutation \<Rightarrow> parallel_tensor_dim_degrees \<Rightarrow> operator_task_space res" where
  "transpose_get_operator_task_space attrs input_degrees =
     res_bind (transpose_get_output_parallel_dim_degrees attrs input_degrees)
       get_operator_task_space_matching_parallel_tensor_dim_degrees"

definition input_get_operator_task_space :: operator_task_space where
  "input_get_operator_task_space = trivial_op_task_space"

definition weight_get_operator_task_space :: operator_task_space where
  "weight_get_operator_task_space = trivial_op_task_space"

fun get_operator_task_space ::
    "computation_graph_op_attrs \<Rightarrow> parallel_tensor_dim_degrees slots \<Rightarrow> operator_task_space res" where
  "get_operator_task_space (CG_element_unary attrs) inputs_degrees =
     res_bind (require_only_key inputs_degrees Slot_INPUT) (element_unary_get_operator_task_space attrs)"
| "get_operator_task_space (CG_element_binary attrs) inputs_degrees =
     res_bind (require_two_keys inputs_degrees Slot_LHS_INPUT Slot_RHS_INPUT) (\<lambda>(lhs, rhs).
     element_binary_get_operator_task_space attrs lhs rhs)"
| "get_operator_task_space (CG_linear attrs) inputs_degrees =
     res_bind (require_only_key inputs_degrees Slot_INPUT) (linear_get_operator_task_space attrs)"
| "get_operator_task_space (CG_input attrs) inputs_degrees =
     res_bind (ASSERT (card (dom inputs_degrees) = 0)) (\<lambda>_. Inr input_get_operator_task_space)"
| "get_operator_task_space (CG_transpose attrs) inputs_degrees =
     res_bind (require_only_key inputs_degrees Slot_INPUT) (transpose_get_operator_task_space attrs)"
| "get_operator_task_space (CG_weight attrs) inputs_degrees =
     res_bind (ASSERT (card (dom inputs_degrees) = 0)) (\<lambda>_. Inr weight_get_operator_task_space)"
| "get_operator_task_space _ inputs_degrees = Inl Panicked"

section \<open>Lemmas\<close>

lemma task_space_coords_eq [orthotope_ops]:
  "get_task_space_coordinates ts = {xs. list_all2 (<) xs ts}"
  using coords_eq [of ts] by (simp add: get_task_space_coordinates_def get_all_coords_in_orthotope_def)

lemma sorted_list_of_set_filter_sorted:
  assumes "sorted xs" and "distinct xs"
  shows "sorted_list_of_set (set (filter P xs)) = filter P xs"
  by (rule sorted_list_of_set.idem_if_sorted_distinct) (use assms in \<open>auto simp: sorted_wrt_filter\<close>)

text \<open>The sizes of the minimal orthotope are the degrees above one, in the order of the dimensions.\<close>

definition parallel_dims_in_order :: "parallel_tensor_dim_degrees \<Rightarrow> parallel_tensor_dim_idx_t list" where
  "parallel_dims_in_order d = Replica_idx Replica_SUM # Replica_idx Replica_DISCARD_COPY #
     map Shard_idx [0..<length (ptdd_shard_degrees d)]"

definition degrees_in_order :: "parallel_tensor_dim_degrees \<Rightarrow> nat list" where
  "degrees_in_order d = ptdd_sum_degree d # ptdd_discard_copy_degree d # ptdd_shard_degrees d"

lemma shard_idx_le: "Shard_idx i \<le> Shard_idx j \<longleftrightarrow> i \<le> j"
  by (auto simp: less_eq_parallel_tensor_dim_idx_t_def)

lemma sorted_parallel_dims: "sorted (parallel_dims_in_order d)"
  by (auto simp: parallel_dims_in_order_def less_eq_parallel_tensor_dim_idx_t_def [of "Replica_idx _"]
      sorted_wrt_map shard_idx_le)

lemma distinct_parallel_dims: "distinct (parallel_dims_in_order d)"
  by (auto simp: parallel_dims_in_order_def distinct_map inj_on_def)

lemma map_enumerate_idxs: "map (\<lambda>i. the (ff_ordered_enumerate ds i)) [0..<length ds] = ds"
  by (rule nth_equalityI) (simp_all add: ff_ordered_enumerate_eq)

lemma bind_try_int_ge_two:
  "x = (if b then Some y else None) \<Longrightarrow>
     Option.bind x try_int_ge_two_from_positive_int = (if b \<and> 2 \<le> y then Some y else None)"
  by (simp add: try_int_ge_two_from_positive_int_def)

lemma matching_task_space_eq [orthotope_ops]:
  assumes "length (ptdd_shard_degrees d) \<le> INT_MAX"
  shows "get_operator_task_space_matching_parallel_tensor_dim_degrees d =
    Inr (filter (\<lambda>n. 2 \<le> n) (degrees_in_order d))"
proof -
  let ?cm = "components_map (ptdd_sum_degree d) (ptdd_discard_copy_degree d) (ptdd_shard_degrees d)"
  let ?m = "minimal_dim_domain_from_dim_domain ?cm"
  let ?g = "\<lambda>idx. the (?cm idx)" and ?L = "parallel_dims_in_order d"
  have g: "map ?g ?L = degrees_in_order d"
    using map_enumerate_idxs [of "ptdd_shard_degrees d"]
    by (simp add: parallel_dims_in_order_def degrees_in_order_def comp_def)
  have cm: "?cm idx = (if idx \<in> set ?L then Some (?g idx) else None)" for idx
    by (cases idx rule: parallel_idx_cases) (auto simp: parallel_dims_in_order_def ff_ordered_enumerate_eq)
  have m: "?m idx = (if idx \<in> set ?L \<and> 2 \<le> ?g idx then Some (?g idx) else None)" for idx
    unfolding minimal_dim_domain_from_dim_domain_def using cm by (rule bind_try_int_ge_two)
  have "dom ?m = set (filter (\<lambda>idx. 2 \<le> ?g idx) ?L)" by (auto simp: m split: if_splits)
  then have "sorted_list_of_set (dom ?m) = filter (\<lambda>idx. 2 \<le> ?g idx) ?L"
    using sorted_list_of_set_filter_sorted [OF sorted_parallel_dims distinct_parallel_dims] by metis
  moreover have "res_map (map_at ?m) (filter (\<lambda>idx. 2 \<le> ?g idx) ?L) =
      Inr (map ?g (filter (\<lambda>idx. 2 \<le> ?g idx) ?L))"
    by (intro res_map_Inr_on) (simp add: map_at_def m)
  moreover have "map ?g (filter (\<lambda>idx. 2 \<le> ?g idx) ?L) = filter (\<lambda>n. 2 \<le> n) (degrees_in_order d)"
    by (simp add: filter_map comp_def flip: g)
  ultimately show ?thesis
    by (simp add: get_operator_task_space_matching_parallel_tensor_dim_degrees_def
        minimal_dim_domain_from_parallel_tensor_dim_degrees_def dim_domain_eq [OF assms]
        minimal_orthotope_from_minimal_dim_domain_def)
qed

lemma prod_list_filter_ge_2: "\<forall>x \<in> set xs. (0 :: nat) < x \<Longrightarrow> prod_list (filter (\<lambda>n. 2 \<le> n) xs) = prod_list xs"
proof (induction xs)
  case (Cons x xs)
  then have "x = 1 \<or> 2 \<le> x" by auto
  with Cons show ?case by auto
qed simp

lemma num_tasks_eq [orthotope_ops]:
  "num_tasks ts = Inr n \<longleftrightarrow> (\<forall>d \<in> set ts. 0 < d) \<and> n = prod_list ts \<and> prod_list ts \<le> INT_MAX"
  by (simp add: num_tasks_def minimal_orthotope_get_volume_def orthotope_get_volume_def
      orthotope_from_minimal_orthotope_def int_ops)

lemma card_task_space_coords: "card (get_task_space_coordinates ts) = prod_list ts"
proof -
  have "distinct (cartesian_product (map (\<lambda>n. [0..<n]) ts))"
    by (rule distinct_cartesian_product) auto
  then show ?thesis
    by (simp add: get_task_space_coordinates_def distinct_card length_cartesian_product comp_def)
qed

lemma matching_task_space_total:
  assumes "get_total_degree_of_ptensor_dim_degrees d = Inr n"
    and "get_operator_task_space_matching_parallel_tensor_dim_degrees d = Inr ts"
    and "length (ptdd_shard_degrees d) \<le> INT_MAX"
  shows "num_tasks ts = Inr n"
proof -
  have ts: "ts = filter (\<lambda>n. 2 \<le> n) (degrees_in_order d)"
    using assms(2) by (simp add: matching_task_space_eq [OF assms(3)])
  have n: "\<forall>x \<in> set (degrees_in_order d). 0 < x" "n = prod_list (degrees_in_order d)" "n \<le> INT_MAX"
    using assms(1) by (auto simp: total_degree_eq total_degree_def degrees_in_order_def)
  then show ?thesis by (auto simp: num_tasks_eq ts prod_list_filter_ge_2)
qed

section \<open>Properties\<close>

text \<open>The operators for which \<open>get_operator_task_space\<close> is implemented.\<close>

fun task_space_implemented :: "computation_graph_op_attrs \<Rightarrow> bool" where
  "task_space_implemented (CG_element_unary _) = True"
| "task_space_implemented (CG_element_binary _) = True"
| "task_space_implemented (CG_linear _) = True"
| "task_space_implemented (CG_input _) = True"
| "task_space_implemented (CG_transpose _) = True"
| "task_space_implemented (CG_weight _) = True"
| "task_space_implemented _ = False"

definition degrees_of_slots :: "parallel_tensor_shape slots \<Rightarrow> parallel_tensor_dim_degrees slots" where
  "degrees_of_slots m slot = map_option get_parallel_degrees (m slot)"

lemma two_slots_eq [simp]: "k1 \<noteq> k2 \<Longrightarrow> [k1 \<mapsto> a, k2 \<mapsto> b] = [k1 \<mapsto> c, k2 \<mapsto> d] \<longleftrightarrow> a = c \<and> b = d"
  by (metis fun_upd_same fun_upd_other option.inject)

lemma degrees_of_slots_simps [simp]:
  "degrees_of_slots Map.empty = Map.empty"
  "degrees_of_slots (m(k \<mapsto> s)) = (degrees_of_slots m)(k \<mapsto> get_parallel_degrees s)"
  by (simp_all add: fun_eq_iff degrees_of_slots_def)

lemma task_space_of_output:
  assumes "pcg_get_output_shapes (pcg_op_attrs_from_compgraph_op_attrs op) m = Inr out"
    and "out Slot_OUTPUT = Some s"
    and "get_total_parallel_degree s = Inr n"
    and "length (ptd_shard_dims (pts_dims s)) \<le> INT_MAX"
  shows "if task_space_implemented op
    then \<exists>ts. get_operator_task_space op (degrees_of_slots m) = Inr ts \<and> num_tasks ts = Inr n \<and>
      card (get_task_space_coordinates ts) = n
    else get_operator_task_space op (degrees_of_slots m) = Inl Panicked"
proof -
  have len: "length (ptdd_shard_degrees (get_parallel_degrees s)) \<le> INT_MAX"
    using assms(4) by (simp add: shape_ops)
  then obtain ts where ts: "get_operator_task_space_matching_parallel_tensor_dim_degrees (get_parallel_degrees s) = Inr ts"
    by (simp add: matching_task_space_eq)
  have n: "num_tasks ts = Inr n"
    using assms(3) by (intro matching_task_space_total [OF _ ts len]) (simp add: get_total_parallel_degree_eq)
  have trivial: "n = 1" if "lift_to_parallel u = Inr s" for u
    using that assms(3)
    by (auto simp: lift_to_parallel_eq get_total_parallel_degree_eq get_parallel_degrees_lift total_degree_eq)
  have "if task_space_implemented op then \<exists>ts. get_operator_task_space op (degrees_of_slots m) = Inr ts \<and> num_tasks ts = Inr n
    else get_operator_task_space op (degrees_of_slots m) = Inl Panicked"
    using assms(1,2) ts n trivial element_unary.par_parts(2) element_binary.par_parts(2) linear_output.par_parts(2)
      transpose.par_parts(2)
    by (cases op) (auto simp: unary_output_eq binary_output_eq source_output_eq container_ops INT_MAX_def num_tasks_eq
        element_unary_get_operator_task_space_def element_binary_get_operator_task_space_def
        linear_get_operator_task_space_def transpose_get_operator_task_space_def
        input_get_operator_task_space_def weight_get_operator_task_space_def trivial_op_task_space_def
        input_get_output_parallel_tensor_shape_def weight_get_output_parallel_tensor_shape_def)
  then show ?thesis by (auto simp: num_tasks_eq card_task_space_coords)
qed

text \<open>
  Every device of the output has one task: when the parallel output of an operator is
  inferred and its total parallel degree is \<open>n\<close>, the operator's task space, computed from the degrees
  of the inputs alone, has \<open>n\<close> tasks and \<open>n\<close> coordinates. For the operators whose task space is not
  implemented the code panics.
\<close>

theorem num_tasks_is_parallel_degree:
  assumes "pcg_get_output_shapes (pcg_op_attrs_from_compgraph_op_attrs op) m = Inr out"
    and "out Slot_OUTPUT = Some s"
    and "get_total_parallel_degree s = Inr n"
    and "length (ptd_shard_dims (pts_dims s)) \<le> INT_MAX"
  shows "if task_space_implemented op
    then \<exists>ts. get_operator_task_space op (degrees_of_slots m) = Inr ts \<and> num_tasks ts = Inr n \<and>
      card (get_task_space_coordinates ts) = n
    else get_operator_task_space op (degrees_of_slots m) = Inl Panicked"
  using assms by (rule task_space_of_output)

theorem num_tasks_is_parallel_degree_witness:
  "\<exists>ts. get_operator_task_space (CG_linear example_linear_attrs)
     [Slot_INPUT \<mapsto> get_parallel_degrees example_linear_input] = Inr ts \<and> num_tasks ts = Inr 24"
proof -
  let ?t = "ParallelTensorShape (ParallelTensorDims
     [ShardParallelDim 6 3, ShardParallelDim 12 4] (ReplicaParallelDimSet 2 1)) FLOAT"
  have "linear_get_output_parallel_shape example_linear_attrs example_linear_input = Inr ?t"
    "get_total_parallel_degree ?t = Inr 24"
    by code_simp+
  with num_tasks_is_parallel_degree [of "CG_linear example_linear_attrs" "[Slot_INPUT \<mapsto> example_linear_input]"
      "[Slot_OUTPUT \<mapsto> ?t]" ?t 24]
  show ?thesis by (auto simp: unary_output_eq INT_MAX_def)
qed

end
