(* ===== verification/Machine_Space.thy ===== *)
theory Machine_Space
  imports FF_Containers
begin

text \<open>
  The devices of a machine: \<open>machine_compute_specification.cc\<close>, \<open>machine_compute_resource_slice.cc\<close>
  and \<open>machine_space_offset.cc\<close> of \<open>lib/pcg\<close>, and the splits of a slice in
  \<open>machine_resource_split.cc\<close> of \<open>lib/compiler\<close>. A slice is the grid of its nodes and of the GPUs of
  every node. The lemmas show that a split cuts the grid in two grids, the second moved by the
  offset of the split, and that the splits the search tries can all be applied.
\<close>

section \<open>Machines\<close>

datatype device_type = Device_GPU | Device_CPU

datatype machine_specification_dimension = INTER_NODE | INTRA_NODE

record machine_compute_specification =
  mcs_num_nodes :: positive_int
  mcs_num_cpus_per_node :: positive_int
  mcs_num_gpus_per_node :: positive_int

record machine_compute_resource_slice =
  mcrs_num_nodes :: positive_int
  mcrs_num_gpus_per_node :: positive_int

abbreviation MachineComputeResourceSlice :: "positive_int \<Rightarrow> positive_int \<Rightarrow> machine_compute_resource_slice" where
  "MachineComputeResourceSlice n g \<equiv> \<lparr> mcrs_num_nodes = n, mcrs_num_gpus_per_node = g \<rparr>"

record machine_space_coordinate =
  msc_node_idx :: nonnegative_int
  msc_device_idx :: nonnegative_int

abbreviation MachineSpaceCoordinate :: "nonnegative_int \<Rightarrow> nonnegative_int \<Rightarrow> machine_space_coordinate" where
  "MachineSpaceCoordinate n d \<equiv> \<lparr> msc_node_idx = n, msc_device_idx = d \<rparr>"

record machine_space_offset =
  mso_node_offset :: int
  mso_device_offset :: int

record machine_resource_split =
  split_offset :: positive_int
  split_dimension :: machine_specification_dimension

abbreviation MachineResourceSplit ::
    "positive_int \<Rightarrow> machine_specification_dimension \<Rightarrow> machine_resource_split" where
  "MachineResourceSplit o1 d \<equiv> \<lparr> split_offset = o1, split_dimension = d \<rparr>"

definition get_num_gpus :: "machine_compute_specification \<Rightarrow> positive_int res" where
  "get_num_gpus ms = positive_int_mul (mcs_num_nodes ms) (mcs_num_gpus_per_node ms)"

definition get_num_cpus :: "machine_compute_specification \<Rightarrow> positive_int res" where
  "get_num_cpus ms = positive_int_mul (mcs_num_nodes ms) (mcs_num_cpus_per_node ms)"

definition get_num_devices :: "machine_compute_specification \<Rightarrow> device_type \<Rightarrow> positive_int res" where
  "get_num_devices ms device_type =
     (case device_type of Device_GPU \<Rightarrow> get_num_gpus ms | Device_CPU \<Rightarrow> get_num_cpus ms)"

definition get_num_devices_per_node :: "machine_compute_specification \<Rightarrow> device_type \<Rightarrow> positive_int" where
  "get_num_devices_per_node ms device_type =
     (case device_type of Device_GPU \<Rightarrow> mcs_num_gpus_per_node ms | Device_CPU \<Rightarrow> mcs_num_cpus_per_node ms)"

definition compute_slice_from_specification ::
    "machine_compute_specification \<Rightarrow> machine_compute_resource_slice" where
  "compute_slice_from_specification spec =
     MachineComputeResourceSlice (mcs_num_nodes spec) (mcs_num_gpus_per_node spec)"

definition get_total_num_devices_in_slice :: "machine_compute_resource_slice \<Rightarrow> positive_int res" where
  "get_total_num_devices_in_slice sl =
     positive_int_mul (mcrs_num_nodes sl) (mcrs_num_gpus_per_node sl)"

definition is_valid_machine_space_coordinate_in_slice ::
    "machine_compute_resource_slice \<Rightarrow> machine_space_coordinate \<Rightarrow> bool" where
  "is_valid_machine_space_coordinate_in_slice sl coord \<longleftrightarrow>
     msc_node_idx coord < mcrs_num_nodes sl \<and> msc_device_idx coord < mcrs_num_gpus_per_node sl"

text \<open>The second assertion compares a node index with a device index, as the code does.\<close>

definition get_machine_space_offset_from_coordinate ::
    "machine_space_coordinate \<Rightarrow> machine_space_coordinate \<Rightarrow> machine_space_offset res" where
  "get_machine_space_offset_from_coordinate start coord =
     res_bind (ASSERT (msc_device_idx start \<le> msc_device_idx coord)) (\<lambda>_.
     res_bind (ASSERT (msc_node_idx start \<le> msc_device_idx coord)) (\<lambda>_.
     res_bind (cint (int (msc_node_idx coord) - int (msc_node_idx start))) (\<lambda>node_offset.
     res_bind (cint (int (msc_device_idx coord) - int (msc_device_idx start))) (\<lambda>device_offset.
     Inr \<lparr> mso_node_offset = node_offset, mso_device_offset = device_offset \<rparr>))))"

section \<open>Splits\<close>

definition apply_resource_split ::
    "machine_resource_split \<Rightarrow> machine_compute_resource_slice \<Rightarrow>
     (machine_compute_resource_slice \<times> machine_compute_resource_slice) res" where
  "apply_resource_split split resources =
     (if split_dimension split = INTER_NODE
      then res_bind (ASSERT (split_offset split < mcrs_num_nodes resources)) (\<lambda>_.
           res_bind (mk_positive_int (int (mcrs_num_nodes resources) - int (split_offset split))) (\<lambda>rest.
           Inr (MachineComputeResourceSlice (split_offset split) (mcrs_num_gpus_per_node resources),
                MachineComputeResourceSlice rest (mcrs_num_gpus_per_node resources))))
      else res_bind (ASSERT (split_dimension split = INTRA_NODE)) (\<lambda>_.
           res_bind (ASSERT (split_offset split < mcrs_num_gpus_per_node resources)) (\<lambda>_.
           res_bind (mk_positive_int (int (mcrs_num_gpus_per_node resources) - int (split_offset split)))
             (\<lambda>rest.
           Inr (MachineComputeResourceSlice (mcrs_num_nodes resources) (split_offset split),
                MachineComputeResourceSlice (mcrs_num_nodes resources) rest)))))"

text \<open>
  One of the two loops of \<open>get_machine_resource_splits\<close>, from the current value of \<open>i\<close> on; both insert
  an offset and its complement for every power of two below the bound.
\<close>

function resource_splits_from ::
    "machine_specification_dimension \<Rightarrow> positive_int \<Rightarrow> positive_int \<Rightarrow> machine_resource_split list res" where
  "resource_splits_from dim bound i =
     (if i < bound
      then res_bind (mk_positive_int (int bound - int i)) (\<lambda>rest.
           case positive_int_mul i 2 of
             Inl e \<Rightarrow> Inl e
           | Inr next \<Rightarrow>
               res_bind (resource_splits_from dim bound next) (\<lambda>result.
               Inr (MachineResourceSplit i dim # MachineResourceSplit rest dim # result)))
      else Inr [])"
  by pat_completeness auto

termination by (relation "measure (\<lambda>(dim, bound, i). bound - i)") (auto simp: int_ops)

declare resource_splits_from.simps [simp del]

definition get_machine_resource_splits ::
    "machine_compute_resource_slice \<Rightarrow> machine_resource_split set res" where
  "get_machine_resource_splits resources =
     res_bind (resource_splits_from INTER_NODE (mcrs_num_nodes resources) 1) (\<lambda>inter.
     res_bind (resource_splits_from INTRA_NODE (mcrs_num_gpus_per_node resources) 1) (\<lambda>intra.
     Inr (set inter \<union> set intra)))"

definition offset_machine_space_coordinate_by ::
    "machine_space_coordinate \<Rightarrow> machine_resource_split \<Rightarrow> machine_space_coordinate res" where
  "offset_machine_space_coordinate_by coord split =
     (if split_dimension split = INTER_NODE
      then res_bind (nonnegative_int_add (msc_node_idx coord) (split_offset split)) (\<lambda>node_idx.
           Inr (MachineSpaceCoordinate node_idx (msc_device_idx coord)))
      else res_bind (ASSERT (split_dimension split = INTRA_NODE)) (\<lambda>_.
           res_bind (nonnegative_int_add (msc_device_idx coord) (split_offset split)) (\<lambda>device_idx.
           Inr (MachineSpaceCoordinate (msc_node_idx coord) device_idx))))"

section \<open>Lemmas\<close>

named_theorems machine_ops \<open>what the operations on machines and slices compute\<close>

abbreviation in_slice :: "machine_compute_resource_slice \<Rightarrow> machine_space_coordinate \<Rightarrow> bool" where
  "in_slice \<equiv> is_valid_machine_space_coordinate_in_slice"

definition wf_slice :: "machine_compute_resource_slice \<Rightarrow> bool" where
  "wf_slice s \<longleftrightarrow> valid_pos (mcrs_num_nodes s) \<and> valid_pos (mcrs_num_gpus_per_node s)"

lemma in_slice_iff [machine_ops]:
  "in_slice s c \<longleftrightarrow> msc_node_idx c < mcrs_num_nodes s \<and> msc_device_idx c < mcrs_num_gpus_per_node s"
  by (simp add: is_valid_machine_space_coordinate_in_slice_def)

lemma total_devices_eq [machine_ops]:
  "get_total_num_devices_in_slice s = Inr n \<longleftrightarrow>
     n = mcrs_num_nodes s * mcrs_num_gpus_per_node s \<and> 0 < n \<and> n \<le> INT_MAX"
  by (auto simp: get_total_num_devices_in_slice_def int_ops)

lemma dimension_cases: "d \<noteq> INTER_NODE \<longleftrightarrow> d = INTRA_NODE"
  by (cases d) simp_all

lemma apply_split_eq [machine_ops]:
  "apply_resource_split s r = Inr p \<longleftrightarrow>
     (case split_dimension s of
        INTER_NODE \<Rightarrow> split_offset s < mcrs_num_nodes r \<and>
          p = (MachineComputeResourceSlice (split_offset s) (mcrs_num_gpus_per_node r),
               MachineComputeResourceSlice (mcrs_num_nodes r - split_offset s) (mcrs_num_gpus_per_node r))
      | INTRA_NODE \<Rightarrow> split_offset s < mcrs_num_gpus_per_node r \<and>
          p = (MachineComputeResourceSlice (mcrs_num_nodes r) (split_offset s),
               MachineComputeResourceSlice (mcrs_num_nodes r) (mcrs_num_gpus_per_node r - split_offset s)))"
  by (auto simp: apply_resource_split_def mk_positive_int_def dimension_cases nat_minus_as_int
      split: machine_specification_dimension.splits)

lemma offset_coord_eq [machine_ops]:
  "offset_machine_space_coordinate_by c s = Inr d \<longleftrightarrow>
     (case split_dimension s of
        INTER_NODE \<Rightarrow> msc_node_idx c + split_offset s \<le> INT_MAX \<and>
          d = MachineSpaceCoordinate (msc_node_idx c + split_offset s) (msc_device_idx c)
      | INTRA_NODE \<Rightarrow> msc_device_idx c + split_offset s \<le> INT_MAX \<and>
          d = MachineSpaceCoordinate (msc_node_idx c) (msc_device_idx c + split_offset s))"
  by (auto simp: offset_machine_space_coordinate_by_def int_ops split: machine_specification_dimension.splits)

text \<open>The loops terminate without overflow when the bound leaves room for the last doubling.\<close>

definition doublings :: "nat \<Rightarrow> nat \<Rightarrow> nat set" where
  "doublings i bound = {n. n < bound \<and> (\<exists>k. n = i * 2 ^ k)}"

lemma doublings_step: "i < bound \<Longrightarrow> doublings i bound = insert i (doublings (i * 2) bound)"
proof -
  have "(\<exists>k. n = i * 2 ^ k) \<longleftrightarrow> n = i \<or> (\<exists>k. n = i * 2 * 2 ^ k)" for n
  proof
    assume "\<exists>k. n = i * 2 ^ k"
    then obtain k where "n = i * 2 ^ k" by blast
    then show "n = i \<or> (\<exists>k. n = i * 2 * 2 ^ k)" by (cases k) (auto simp: mult.assoc)
  next
    assume "n = i \<or> (\<exists>k. n = i * 2 * 2 ^ k)"
    then show "\<exists>k. n = i * 2 ^ k"
      by (metis mult.assoc power_0 mult.right_neutral power_Suc)
  qed
  then show "i < bound \<Longrightarrow> doublings i bound = insert i (doublings (i * 2) bound)"
    by (auto simp: doublings_def)
qed

lemma doublings_empty: "doublings i bound = {} \<longleftrightarrow> bound \<le> i"
proof
  assume "doublings i bound = {}"
  then show "bound \<le> i" using doublings_step [of i bound] by (metis insert_not_empty not_le)
next
  assume "bound \<le> i"
  moreover have "i \<le> i * 2 ^ k" for k by simp
  ultimately have "\<not> i * 2 ^ k < bound" for k by (metis le_trans linorder_not_less)
  then show "doublings i bound = {}" by (auto simp: doublings_def)
qed

definition splits_of :: "machine_specification_dimension \<Rightarrow> nat \<Rightarrow> nat \<Rightarrow> machine_resource_split set" where
  "splits_of dim bound i = (\<lambda>n. MachineResourceSplit n dim) ` doublings i bound \<union>
     (\<lambda>n. MachineResourceSplit (bound - n) dim) ` doublings i bound"

lemma resource_splits_from_total:
  "0 < i \<Longrightarrow> 2 * bound \<le> INT_MAX \<Longrightarrow>
     \<exists>l. resource_splits_from dim bound i = Inr l \<and> set l = splits_of dim bound i"
proof (induction dim bound i rule: resource_splits_from.induct)
  case (1 dim bound i)
  show ?case
  proof (cases "i < bound")
    case True
    have rest: "mk_positive_int (int bound - int i) = Inr (bound - i)"
      using True by (simp add: mk_positive_int_def nat_minus_as_int)
    have next': "positive_int_mul i 2 = Inr (i * 2)" using True 1(2,3) by (simp add: int_ops)
    obtain l where "resource_splits_from dim bound (i * 2) = Inr l" "set l = splits_of dim bound (i * 2)"
      using 1(1) [OF True next'] 1(2,3) by auto
    with True rest next' show ?thesis
      by (subst resource_splits_from.simps) (auto simp: splits_of_def doublings_step)
  next
    case False
    then show ?thesis
      using doublings_empty [of i bound]
      by (subst resource_splits_from.simps) (auto simp: splits_of_def)
  qed
qed

lemma resource_splits_eq [machine_ops]:
  assumes "2 * mcrs_num_nodes r \<le> INT_MAX" and "2 * mcrs_num_gpus_per_node r \<le> INT_MAX"
  shows "get_machine_resource_splits r =
    Inr (splits_of INTER_NODE (mcrs_num_nodes r) 1 \<union> splits_of INTRA_NODE (mcrs_num_gpus_per_node r) 1)"
  using resource_splits_from_total [of 1 "mcrs_num_nodes r" INTER_NODE]
    resource_splits_from_total [of 1 "mcrs_num_gpus_per_node r" INTRA_NODE] assms
  by (auto simp: get_machine_resource_splits_def)

lemma doublings_less: "n \<in> doublings (Suc 0) bound \<Longrightarrow> 0 < n \<and> n < bound"
  by (auto simp: doublings_def)

lemma in_slice_split:
  assumes "apply_resource_split s r = Inr (l, q)"
    and "mcrs_num_nodes r \<le> INT_MAX" and "mcrs_num_gpus_per_node r \<le> INT_MAX"
  shows "in_slice r c \<longleftrightarrow> in_slice l c \<or> (\<exists>d. in_slice q d \<and> offset_machine_space_coordinate_by d s = Inr c)"
    and "in_slice q d \<Longrightarrow> offset_machine_space_coordinate_by d s = Inr c \<Longrightarrow> \<not> in_slice l c"
    and "in_slice q d \<Longrightarrow> \<exists>c. offset_machine_space_coordinate_by d s = Inr c"
proof -
  have eq: "c = MachineSpaceCoordinate (msc_node_idx c) (msc_device_idx c)" by simp
  have move: "\<exists>d. in_slice q d \<and> offset_machine_space_coordinate_by d s = Inr c"
    if "in_slice r c" "\<not> in_slice l c"
  proof (cases "split_dimension s")
    case INTER_NODE
    with that assms show ?thesis
      by (intro exI [of _ "MachineSpaceCoordinate (msc_node_idx c - split_offset s) (msc_device_idx c)"])
        (auto simp: machine_ops)
  next
    case INTRA_NODE
    with that assms show ?thesis
      by (intro exI [of _ "MachineSpaceCoordinate (msc_node_idx c) (msc_device_idx c - split_offset s)"])
        (auto simp: machine_ops)
  qed
  show "in_slice r c \<longleftrightarrow> in_slice l c \<or> (\<exists>d. in_slice q d \<and> offset_machine_space_coordinate_by d s = Inr c)"
  proof
    show "in_slice r c \<Longrightarrow> in_slice l c \<or> (\<exists>d. in_slice q d \<and> offset_machine_space_coordinate_by d s = Inr c)"
      using move by blast
    show "in_slice l c \<or> (\<exists>d. in_slice q d \<and> offset_machine_space_coordinate_by d s = Inr c) \<Longrightarrow> in_slice r c"
      using assms(1) by (cases "split_dimension s") (auto simp: machine_ops)
  qed
  show "in_slice q d \<Longrightarrow> offset_machine_space_coordinate_by d s = Inr c \<Longrightarrow> \<not> in_slice l c"
    using assms(1) by (cases "split_dimension s") (auto simp: machine_ops)
  show "in_slice q d \<Longrightarrow> \<exists>c. offset_machine_space_coordinate_by d s = Inr c"
    using assms by (cases "split_dimension s") (auto simp: machine_ops)
qed

lemma split_total_devices:
  "apply_resource_split s r = Inr (l, q) \<Longrightarrow>
     mcrs_num_nodes l * mcrs_num_gpus_per_node l + mcrs_num_nodes q * mcrs_num_gpus_per_node q =
     mcrs_num_nodes r * mcrs_num_gpus_per_node r"
  by (cases "split_dimension s")
    (auto simp: machine_ops simp flip: distrib_right distrib_left)

section \<open>Properties\<close>

text \<open>
  Claim C31. The splits of a slice that the search tries can all be applied, and each divides the
  devices: a device of the slice is either one of the first part, or one of the second part moved by
  the offset of the split, and never both. There is no split exactly when the slice is one device.
  The bounds leave room for the last doubling of the loops.
\<close>

theorem resource_splits_partition:
  assumes "wf_slice r" and "2 * mcrs_num_nodes r \<le> INT_MAX" and "2 * mcrs_num_gpus_per_node r \<le> INT_MAX"
  shows "\<exists>splits. get_machine_resource_splits r = Inr splits \<and>
    (splits = {} \<longleftrightarrow> mcrs_num_nodes r = 1 \<and> mcrs_num_gpus_per_node r = 1) \<and>
    (\<forall>s \<in> splits. \<exists>l q. apply_resource_split s r = Inr (l, q) \<and> wf_slice l \<and> wf_slice q \<and>
      (\<forall>c. is_valid_machine_space_coordinate_in_slice r c \<longleftrightarrow>
         is_valid_machine_space_coordinate_in_slice l c \<noteq>
         (\<exists>d. is_valid_machine_space_coordinate_in_slice q d \<and>
            offset_machine_space_coordinate_by d s = Inr c)))"
proof -
  let ?splits = "splits_of INTER_NODE (mcrs_num_nodes r) 1 \<union> splits_of INTRA_NODE (mcrs_num_gpus_per_node r) 1"
  have "?splits = {} \<longleftrightarrow> mcrs_num_nodes r = 1 \<and> mcrs_num_gpus_per_node r = 1"
    using assms(1) by (auto simp: splits_of_def doublings_empty wf_slice_def valid_pos_def)
  moreover have "\<exists>l q. apply_resource_split s r = Inr (l, q) \<and> wf_slice l \<and> wf_slice q \<and>
      (\<forall>c. in_slice r c \<longleftrightarrow> in_slice l c \<noteq> (\<exists>d. in_slice q d \<and> offset_machine_space_coordinate_by d s = Inr c))"
    if "s \<in> ?splits" for s
  proof -
    have "\<exists>l q. apply_resource_split s r = Inr (l, q) \<and> wf_slice l \<and> wf_slice q"
      using that assms(1) by (auto simp: machine_ops splits_of_def wf_slice_def valid_pos_def dest!: doublings_less)
    then obtain l q where lq: "apply_resource_split s r = Inr (l, q)" "wf_slice l \<and> wf_slice q" by blast
    moreover have "mcrs_num_nodes r \<le> INT_MAX" "mcrs_num_gpus_per_node r \<le> INT_MAX"
      using assms(1) by (simp_all add: wf_slice_def valid_pos_def)
    ultimately show ?thesis using in_slice_split [OF lq(1)] by blast
  qed
  ultimately show ?thesis by (simp only: resource_splits_eq [OF assms(2,3)]) blast
qed

theorem resource_splits_partition_witness:
  "\<exists>splits. get_machine_resource_splits (MachineComputeResourceSlice 3 4) = Inr splits \<and> splits \<noteq> {}"
  using resource_splits_partition [of "MachineComputeResourceSlice 3 4"]
  by (auto simp: wf_slice_def valid_pos_def INT_MAX_def)

text \<open>
  Taking the offset of a device from itself stops exactly when its device index is below its
  node index: the second assertion of \<open>get_machine_space_offset_from_coordinate\<close> compares the node
  index of the start with the device index of the coordinate.
\<close>

theorem machine_space_offset_of_itself:
  assumes "msc_node_idx c \<le> INT_MAX" and "msc_device_idx c \<le> INT_MAX"
  shows "get_machine_space_offset_from_coordinate c c =
    (if msc_device_idx c < msc_node_idx c then Inl Assertion_failed
     else Inr \<lparr> mso_node_offset = 0, mso_device_offset = 0 \<rparr>)"
  using assms by (simp add: get_machine_space_offset_from_coordinate_def require_def)

theorem machine_space_offset_of_itself_witness:
  "get_machine_space_offset_from_coordinate (MachineSpaceCoordinate 2 0) (MachineSpaceCoordinate 2 0) =
     Inl Assertion_failed"
  using machine_space_offset_of_itself [of "MachineSpaceCoordinate 2 0"] by (simp add: INT_MAX_def)

end
