(* ===== verification/Machine_Views.thy ===== *)
theory Machine_Views
  imports Task_Spaces Machine_Space FF_Bidict
begin

text \<open>
  Placing the tasks of an operator on the devices of a machine: \<open>machine_view.cc\<close>,
  \<open>start_invariant_machine_view.cc\<close> and \<open>allowed_machine_views.cc\<close> of
  \<open>lib/compiler/src/compiler/machine_mapping\<close>. A machine view has a start and, for every dimension of
  the task space, a stride and the dimension of the machine it runs along; a
  \<open>StartInvariantMachineView\<close> has one field, the list of these dimensions.

  The lemmas show that a view sends different tasks to different devices, that checking the greatest
  task is enough to check all, and that the enumeration of \<open>get_allowed_machine_views\<close> misses no
  valid view.
\<close>

record machine_view_dimension =
  mvd_stride :: positive_int
  mvd_projection :: machine_specification_dimension

abbreviation MachineViewDimension ::
    "positive_int \<Rightarrow> machine_specification_dimension \<Rightarrow> machine_view_dimension" where
  "MachineViewDimension s p \<equiv> \<lparr> mvd_stride = s, mvd_projection = p \<rparr>"

record machine_view =
  mv_start :: machine_space_coordinate
  mv_dimensions :: "machine_view_dimension list"

abbreviation MachineView :: "machine_space_coordinate \<Rightarrow> machine_view_dimension list \<Rightarrow> machine_view" where
  "MachineView s ds \<equiv> \<lparr> mv_start = s, mv_dimensions = ds \<rparr>"

type_synonym start_invariant_machine_view = "machine_view_dimension list"

section \<open>Container helpers\<close>

definition zip3 :: "'a list \<Rightarrow> 'b list \<Rightarrow> 'c list \<Rightarrow> ('a \<times> 'b \<times> 'c) list" where
  "zip3 a b c = zip a (zip b c)"

definition int_ge_two_mul_positive :: "int_ge_two \<Rightarrow> positive_int \<Rightarrow> int_ge_two res" where
  "int_ge_two_mul_positive lhs rhs = res_bind (cint (int lhs * int rhs)) mk_int_ge_two"

definition ceildiv :: "positive_int \<Rightarrow> positive_int \<Rightarrow> positive_int res" where
  "ceildiv numerator denominator =
     res_bind (cint (int numerator + int denominator)) (\<lambda>s.
     res_bind (cint (s - 1)) (\<lambda>n.
     res_bind (cint_div n (int denominator)) mk_positive_int))"

fun product_nonnegative_from :: "nonnegative_int \<Rightarrow> nonnegative_int list \<Rightarrow> nonnegative_int res" where
  "product_nonnegative_from acc [] = Inr acc"
| "product_nonnegative_from acc (x # xs) =
     res_bind (nonnegative_int_mul acc x) (\<lambda>r. product_nonnegative_from r xs)"

definition product_nonnegative :: "nonnegative_int list \<Rightarrow> nonnegative_int res" where
  "product_nonnegative xs = product_nonnegative_from 1 xs"

text \<open>
  The inner loop of \<open>get_all_permutations_with_repetition\<close> increments the last index and carries to
  the left; the flag says that it carried over the first index (\<open>i == -1\<close>).
\<close>

fun increment_indices :: "nat \<Rightarrow> nat list \<Rightarrow> bool \<times> nat list" where
  "increment_indices num [] = (True, [])"
| "increment_indices num (i # indices) =
     (let (carry, rest) = increment_indices num indices
      in if carry
         then (if Suc i = num then (True, 0 # rest) else (False, Suc i # rest))
         else (False, i # rest))"

text \<open>The outer loop runs until the carry; \<open>None\<close> would be a loop that does not end.\<close>

partial_function (option) permutations_from :: "'t list \<Rightarrow> nat list \<Rightarrow> 't list list option" where
  "permutations_from elements indices =
     (case increment_indices (length elements) indices of (carry, next) \<Rightarrow>
      if carry then Some [map (\<lambda>i. elements ! i) indices]
      else Option.bind (permutations_from elements next)
        (\<lambda>result. Some (map (\<lambda>i. elements ! i) indices # result)))"

definition get_all_permutations_with_repetition :: "'t list \<Rightarrow> nonnegative_int \<Rightarrow> 't list list option" where
  "get_all_permutations_with_repetition container n =
     (if container = [] \<or> n = 0 then Some [[]] else permutations_from container (replicate n 0))"

section \<open>Machine views\<close>

definition mv_get_strides :: "machine_view \<Rightarrow> positive_int list" where
  "mv_get_strides mv = map mvd_stride (mv_dimensions mv)"

definition mv_get_dimensions :: "machine_view \<Rightarrow> machine_specification_dimension list" where
  "mv_get_dimensions mv = map mvd_projection (mv_dimensions mv)"

definition mv_get_expected_task_space_num_dims :: "machine_view \<Rightarrow> nonnegative_int res" where
  "mv_get_expected_task_space_num_dims mv = num_elements (mv_get_strides mv)"

definition machine_view_from_strides_and_machine_spec_dimensions ::
    "machine_space_coordinate \<Rightarrow> positive_int list \<Rightarrow> machine_specification_dimension list \<Rightarrow>
     machine_view res" where
  "machine_view_from_strides_and_machine_spec_dimensions start strides dims =
     res_bind (ASSERT (length strides = length dims)) (\<lambda>_.
     res_bind (zip_with_strict (\<lambda>s d. MachineViewDimension s d) strides dims) (\<lambda>dimensions.
     Inr (MachineView start dimensions)))"

text \<open>The lambdas of \<open>get_machine_space_coordinate\<close>, with the variables they capture.\<close>

definition get_dimension_indices_for_dimension ::
    "machine_view \<Rightarrow> machine_specification_dimension \<Rightarrow> nonnegative_int list res" where
  "get_dimension_indices_for_dimension machine_view dimension =
     (let mv_dimensions = mv_get_dimensions machine_view
      in res_bind (num_elements mv_dimensions) (\<lambda>n.
         Inr (filter (\<lambda>idx. mv_dimensions ! idx = dimension) [0..<n])))"

fun compute_index_loop ::
    "nonnegative_int \<Rightarrow> (positive_int \<times> nonnegative_int \<times> positive_int) list \<Rightarrow> nonnegative_int res" where
  "compute_index_loop index [] = Inr index"
| "compute_index_loop index ((coeff, coord_point, stride) # rest) =
     res_bind (nonnegative_int_mul coeff coord_point) (\<lambda>p.
     res_bind (nonnegative_int_mul p stride) (\<lambda>q.
     res_bind (nonnegative_int_add index q) (\<lambda>index.
     compute_index_loop index rest)))"

definition compute_index ::
    "operator_task_space \<Rightarrow> machine_view \<Rightarrow> task_space_coordinate \<Rightarrow> nonnegative_int \<Rightarrow>
     nonnegative_int list \<Rightarrow> nonnegative_int res" where
  "compute_index task_space machine_view coord start_idx dimension_indices =
     (let mv_strides = mv_get_strides machine_view
      in res_bind (res_map (\<lambda>i.
           res_bind (vector_at task_space (int i)) (\<lambda>degree.
           res_bind (vector_at mv_strides (int i)) (\<lambda>stride.
           int_ge_two_mul_positive degree stride))) dimension_indices) (\<lambda>sizes.
         res_bind (res_map (\<lambda>i. vector_at coord (int i)) dimension_indices) (\<lambda>coord_points.
         res_bind (res_map (\<lambda>i. vector_at mv_strides (int i)) dimension_indices) (\<lambda>strides.
         res_bind (scanl positive_int_mul 1 sizes) (\<lambda>coeffs.
         compute_index_loop start_idx (zip3 coeffs coord_points strides))))))"

definition get_machine_space_coordinate ::
    "operator_task_space \<Rightarrow> machine_view \<Rightarrow> task_space_coordinate \<Rightarrow> machine_space_coordinate res" where
  "get_machine_space_coordinate task_space machine_view coord =
     res_bind (mv_get_expected_task_space_num_dims machine_view) (\<lambda>mv_dims.
     res_bind (op_task_space_num_dims task_space) (\<lambda>task_dims.
     res_bind (ASSERT (mv_dims = task_dims)) (\<lambda>_.
     res_bind (task_space_coord_num_dims coord) (\<lambda>coord_dims.
     res_bind (ASSERT (task_dims = coord_dims)) (\<lambda>_.
     res_bind (ASSERT (operator_task_space_contains_coord task_space coord)) (\<lambda>_.
     res_bind (get_dimension_indices_for_dimension machine_view INTER_NODE) (\<lambda>inter_dimension_indices.
     res_bind (get_dimension_indices_for_dimension machine_view INTRA_NODE) (\<lambda>intra_dimension_indices.
     res_bind (compute_index task_space machine_view coord (msc_node_idx (mv_start machine_view))
       inter_dimension_indices) (\<lambda>node_idx.
     res_bind (compute_index task_space machine_view coord (msc_device_idx (mv_start machine_view))
       intra_dimension_indices) (\<lambda>device_idx.
     Inr (MachineSpaceCoordinate node_idx device_idx)))))))))))"

text \<open>
  An \<open>OperatorSpaceToMachineSpaceMapping\<close> is its \<open>raw_mapping\<close> and its \<open>operator_task_space\<close>. The set
  of coordinates is iterated in its order.
\<close>

definition get_coordinate_mapping_for_machine_view ::
    "operator_task_space \<Rightarrow> machine_view \<Rightarrow>
     ((task_space_coordinate, machine_space_coordinate) bidict \<times> operator_task_space) res" where
  "get_coordinate_mapping_for_machine_view operator_task_space machine_view =
     res_bind (res_map (\<lambda>coord.
         res_bind (get_machine_space_coordinate operator_task_space machine_view coord) (\<lambda>ms.
         Inr (coord, ms)))
       (sorted_list_of_set (get_task_space_coordinates operator_task_space))) (\<lambda>transformed.
     res_bind (bidict_from_pairs transformed) (\<lambda>raw_mapping.
     Inr (raw_mapping, operator_task_space)))"

definition mv_task_space_coord_for_machine_space_coord ::
    "machine_view \<Rightarrow> operator_task_space \<Rightarrow> machine_space_coordinate \<Rightarrow> task_space_coordinate res" where
  "mv_task_space_coord_for_machine_space_coord machine_view operator_task_space machine_space_coord =
     res_bind (get_coordinate_mapping_for_machine_view operator_task_space machine_view) (\<lambda>mapping.
     at_r (fst mapping) machine_space_coord)"

definition get_machine_space_coordinates ::
    "operator_task_space \<Rightarrow> machine_view \<Rightarrow> machine_space_coordinate set res" where
  "get_machine_space_coordinates task_space machine_view =
     res_bind (op_task_space_num_dims task_space) (\<lambda>task_dims.
     res_bind (mv_get_expected_task_space_num_dims machine_view) (\<lambda>mv_dims.
     res_bind (ASSERT (task_dims = mv_dims)) (\<lambda>_.
     res_bind (res_map (get_machine_space_coordinate task_space machine_view)
       (sorted_list_of_set (get_task_space_coordinates task_space))) (\<lambda>coords.
     Inr (set coords)))))"

definition make_1d_machine_view ::
    "machine_space_coordinate \<Rightarrow> machine_specification_dimension \<Rightarrow> positive_int \<Rightarrow> machine_view res" where
  "make_1d_machine_view start dim stride =
     machine_view_from_strides_and_machine_spec_dimensions start [stride] [dim]"

definition make_single_device_machine_view :: "machine_space_coordinate \<Rightarrow> machine_view res" where
  "make_single_device_machine_view coord =
     machine_view_from_strides_and_machine_spec_dimensions coord [] []"

definition offset_machine_view_by :: "machine_view \<Rightarrow> machine_resource_split \<Rightarrow> machine_view res" where
  "offset_machine_view_by machine_view split =
     res_bind (offset_machine_space_coordinate_by (mv_start machine_view) split) (\<lambda>start.
     Inr (MachineView start (mv_dimensions machine_view)))"

section \<open>Start-invariant machine views\<close>

definition machine_view_from_start_invariant ::
    "start_invariant_machine_view \<Rightarrow> machine_space_coordinate \<Rightarrow> machine_view" where
  "machine_view_from_start_invariant start_inv_mv start = MachineView start start_inv_mv"

definition start_invariant_from_machine_view :: "machine_view \<Rightarrow> start_invariant_machine_view" where
  "start_invariant_from_machine_view mv = mv_dimensions mv"

definition start_invariant_num_dims :: "start_invariant_machine_view \<Rightarrow> nonnegative_int res" where
  "start_invariant_num_dims start_inv_mv = num_elements start_inv_mv"

definition start_invariant_get_strides :: "start_invariant_machine_view \<Rightarrow> positive_int list" where
  "start_invariant_get_strides start_inv_mv = map mvd_stride start_inv_mv"

definition start_invariant_get_dimensions ::
    "start_invariant_machine_view \<Rightarrow> machine_specification_dimension list" where
  "start_invariant_get_dimensions start_inv_mv = map mvd_projection start_inv_mv"

definition start_invariant_machine_view_from_strides_and_machine_spec_dimensions ::
    "positive_int list \<Rightarrow> machine_specification_dimension list \<Rightarrow> start_invariant_machine_view" where
  "start_invariant_machine_view_from_strides_and_machine_spec_dimensions strides dims =
     map (\<lambda>p. MachineViewDimension (fst p) (snd p)) (zip strides dims)"

definition get_machine_space_offset ::
    "operator_task_space \<Rightarrow> start_invariant_machine_view \<Rightarrow> task_space_coordinate \<Rightarrow>
     machine_space_offset res" where
  "get_machine_space_offset task start_inv_machine_view coord =
     (let dummy_start = MachineSpaceCoordinate 0 0;
          mv = machine_view_from_start_invariant start_inv_machine_view dummy_start
      in res_bind (get_machine_space_coordinate task mv coord) (\<lambda>ms_coord.
         get_machine_space_offset_from_coordinate dummy_start ms_coord))"

definition get_machine_space_offsets ::
    "operator_task_space \<Rightarrow> start_invariant_machine_view \<Rightarrow> machine_space_offset set res" where
  "get_machine_space_offsets task start_inv_machine_view =
     res_bind (res_map (get_machine_space_offset task start_inv_machine_view)
       (sorted_list_of_set (get_task_space_coordinates task))) (\<lambda>offsets.
     Inr (set offsets))"

section \<open>Allowed machine views\<close>

definition is_valid_machine_view ::
    "machine_view \<Rightarrow> operator_task_space \<Rightarrow> machine_compute_resource_slice \<Rightarrow> bool res" where
  "is_valid_machine_view mv task_space ms =
     res_bind (mv_get_expected_task_space_num_dims mv) (\<lambda>mv_dims.
     res_bind (op_task_space_num_dims task_space) (\<lambda>task_dims.
     if mv_dims \<noteq> task_dims then Inr False
     else res_bind (get_task_space_maximum_coordinate task_space) (\<lambda>maximum_coord.
          res_bind (get_machine_space_coordinate task_space mv maximum_coord) (\<lambda>maximum_device_coord.
          Inr (is_valid_machine_space_coordinate_in_slice ms maximum_device_coord)))))"

text \<open>The lambdas of \<open>get_candidate_machine_views\<close>; a \<open>MultiDimensionalStride\<close> is its vector.\<close>

definition get_max_stride_upper_bound :: "positive_int list \<Rightarrow> positive_int \<Rightarrow> positive_int res" where
  "get_max_stride_upper_bound tensor_dims total_devices =
     res_bind (res_map (\<lambda>num_devices. mk_nonnegative_int (int num_devices - 1)) tensor_dims) (\<lambda>ds.
     res_bind (product_nonnegative ds) (\<lambda>p.
     res_bind (positive_int_from_nonnegative (max p 1)) (\<lambda>q.
     ceildiv total_devices q)))"

definition get_candidate_strides :: "positive_int list \<Rightarrow> positive_int \<Rightarrow> positive_int list list res" where
  "get_candidate_strides tensor_dims total_devices =
     res_bind (get_max_stride_upper_bound tensor_dims total_devices) (\<lambda>max_stride_upper_bound.
     res_bind (nonnegative_int_add max_stride_upper_bound 1) (\<lambda>end'.
     res_bind (res_map (\<lambda>stride. positive_int_from_nonnegative stride) [1..<end']) (\<lambda>single_stride_range.
     res_bind (num_elements tensor_dims) (\<lambda>n.
     Inr (cartesian_product (repeat_element n single_stride_range))))))"

definition get_candidate_starts :: "machine_compute_resource_slice \<Rightarrow> machine_space_coordinate list" where
  "get_candidate_starts sl =
     concat (map (\<lambda>node_idx. map (\<lambda>device_idx. MachineSpaceCoordinate node_idx device_idx)
       [0..<mcrs_num_gpus_per_node sl]) [0..<mcrs_num_nodes sl])"

text \<open>A loop without end has no value of its own in \<open>res\<close>; the lemmas show that it does not occur.\<close>

definition get_candidate_dimensions ::
    "operator_task_space \<Rightarrow> machine_specification_dimension list list option res" where
  "get_candidate_dimensions task_space =
     res_bind (op_task_space_num_dims task_space) (\<lambda>n.
     Inr (get_all_permutations_with_repetition [INTER_NODE, INTRA_NODE] n))"

text \<open>The set of views, as the list of its insertions.\<close>

definition get_candidate_machine_views ::
    "machine_compute_resource_slice \<Rightarrow> operator_task_space \<Rightarrow> machine_view list option res" where
  "get_candidate_machine_views machine_spec task_space =
     res_bind (get_total_num_devices_in_slice machine_spec) (\<lambda>total_devices.
     res_bind (get_candidate_strides task_space total_devices) (\<lambda>candidate_strides.
     res_bind (ASSERT (candidate_strides \<noteq> [])) (\<lambda>_.
     let candidate_starts = get_candidate_starts machine_spec in
     res_bind (ASSERT (candidate_starts \<noteq> [])) (\<lambda>_.
     res_bind (get_candidate_dimensions task_space) (\<lambda>dimensions.
     case dimensions of
       None \<Rightarrow> Inr None
     | Some candidate_dimensions \<Rightarrow>
         res_bind (ASSERT (candidate_dimensions \<noteq> [])) (\<lambda>_.
         res_bind (res_map (\<lambda>(strides, start, dims).
             machine_view_from_strides_and_machine_spec_dimensions start strides dims)
           (concat (map (\<lambda>strides. concat (map (\<lambda>start. map (\<lambda>dims. (strides, start, dims))
             candidate_dimensions) candidate_starts)) candidate_strides))) (\<lambda>machine_views.
         Inr (Some machine_views))))))))"

fun res_filter :: "('a \<Rightarrow> bool res) \<Rightarrow> 'a list \<Rightarrow> 'a list res" where
  "res_filter f [] = Inr []"
| "res_filter f (x # xs) =
     res_bind (f x) (\<lambda>b. res_bind (res_filter f xs) (\<lambda>ys. Inr (if b then x # ys else ys)))"

definition get_allowed_machine_views ::
    "machine_compute_resource_slice \<Rightarrow> operator_task_space \<Rightarrow> machine_view set option res" where
  "get_allowed_machine_views machine_spec task_space =
     res_bind (get_candidate_machine_views machine_spec task_space) (\<lambda>candidates.
     case candidates of
       None \<Rightarrow> Inr None
     | Some views \<Rightarrow>
         res_bind (res_filter (\<lambda>mv. is_valid_machine_view mv task_space machine_spec) views) (\<lambda>allowed.
         Inr (Some (set allowed))))"

section \<open>Enumerations\<close>

abbreviation all_below :: "nat \<Rightarrow> nat list \<Rightarrow> bool" where
  "all_below k is \<equiv> list_all2 (<) is (replicate (length is) k)"

lemma flat_index_zeros: "flat_index (replicate n 0) ds = 0"
  by (induction n arbitrary: ds) (auto, case_tac ds, auto)

lemma increment_indices_eq:
  "all_below k is \<Longrightarrow> increment_indices k is = (c, js) \<Longrightarrow>
     length js = length is \<and> all_below k js \<and>
     (if c then Suc (flat_index is (replicate (length is) k)) = k ^ length is \<and> js = replicate (length is) 0
      else flat_index js (replicate (length is) k) = Suc (flat_index is (replicate (length is) k)))"
proof (induction "is" arbitrary: c js)
  case (Cons i "is")
  let ?n = "length is" and ?f = "\<lambda>is. flat_index is (replicate (length is) k)"
  obtain c' r where r: "increment_indices k is = (c', r)" by (cases "increment_indices k is")
  have i: "i < k" "all_below k is" using Cons.prems(1) by auto
  note IH = Cons.IH [OF i(2) r]
  have len: "length r = ?n" "all_below k r" using IH by auto
  show ?case
  proof (cases c')
    case True
    then have f: "Suc (?f is) = k ^ ?n" "r = replicate ?n 0" using IH by auto
    show ?thesis
    proof (cases "Suc i = k")
      case True
      then have "Suc (i * k ^ ?n + ?f is) = k * k ^ ?n" using f(1) by (metis add_Suc_right mult_Suc add.commute)
      with True \<open>c'\<close> r f len i Cons.prems(2) show ?thesis by auto
    next
      case False
      have "Suc i * k ^ ?n = Suc (i * k ^ ?n + ?f is)" using f(1) by simp
      with False \<open>c'\<close> r f len i Cons.prems(2) show ?thesis by (auto simp: flat_index_zeros)
    qed
  next
    case False
    with IH r len i Cons.prems(2) show ?thesis by auto
  qed
qed simp

lemma permutations_from_eq:
  assumes "all_below (length els) is"
  shows "\<exists>ps. permutations_from els is = Some ps \<and>
    set ps = {map (\<lambda>i. els ! i) js | js. length js = length is \<and> all_below (length els) js \<and>
      flat_index is (replicate (length is) (length els)) \<le> flat_index js (replicate (length is) (length els))}"
  using assms
proof (induction "length els ^ length is - flat_index is (replicate (length is) (length els))"
    arbitrary: "is" rule: less_induct)
  case less
  let ?k = "length els" and ?n = "length is"
  let ?f = "\<lambda>is. flat_index is (replicate ?n ?k)"
  have inj: "js = is" if "length js = ?n" "all_below ?k js" "?f js = ?f is" for js
    using coord_of_flat_index [of js "replicate ?n ?k"] coord_of_flat_index [of "is" "replicate ?n ?k"] that less.prems
    by metis
  have bound: "?f js < ?k ^ ?n" if "length js = ?n" "all_below ?k js" for js
    using flat_index_less [of js "replicate ?n ?k"] that by simp
  obtain c js where inc: "increment_indices ?k is = (c, js)" by (cases "increment_indices ?k is")
  note js = increment_indices_eq [OF less.prems inc]
  show ?case
  proof (cases c)
    case True
    then have "permutations_from els is = Some [map (\<lambda>i. els ! i) is]"
      using inc by (subst permutations_from.simps) simp
    moreover have "{map (\<lambda>i. els ! i) js | js. length js = ?n \<and> all_below ?k js \<and> ?f is \<le> ?f js} =
        {map (\<lambda>i. els ! i) is}"
    proof -
      have "js = is" if "length js = ?n" "all_below ?k js" "?f is \<le> ?f js" for js
        using inj [OF that(1,2)] bound [OF that(1,2)] that(3) js True by auto
      then show ?thesis using less.prems by blast
    qed
    ultimately show ?thesis by simp
  next
    case False
    then have next': "length js = ?n" "all_below ?k js" "?f js = Suc (?f is)" using js by auto
    have decr: "?k ^ ?n - ?f js < ?k ^ ?n - ?f is" using next'(3) bound [OF next'(1,2)] by linarith
    obtain ps where ps: "permutations_from els js = Some ps"
      "set ps = {map (\<lambda>i. els ! i) hs | hs. length hs = ?n \<and> all_below ?k hs \<and> ?f js \<le> ?f hs}"
      using less.hyps [of js] decr next'(2) unfolding next'(1) by blast
    have "permutations_from els is = Some (map (\<lambda>i. els ! i) is # ps)"
      using inc False ps(1) by (subst permutations_from.simps) simp
    moreover have "?f is \<le> ?f hs \<longleftrightarrow> hs = is \<or> ?f js \<le> ?f hs" if "length hs = ?n" "all_below ?k hs" for hs
      using inj [OF that] next'(3) by (cases "?f hs = ?f is") auto
    ultimately show ?thesis using ps(2) less.prems by fastforce
  qed
qed

lemma all_permutations_eq:
  assumes "els \<noteq> []"
  shows "\<exists>ps. get_all_permutations_with_repetition els n = Some ps \<and>
    set ps = {xs. length xs = n \<and> set xs \<subseteq> set els}"
proof (cases "n = 0")
  case True
  then show ?thesis by (auto simp: get_all_permutations_with_repetition_def)
next
  case False
  have below: "all_below (length els) js \<longleftrightarrow> (\<forall>j \<in> set js. j < length els)" for js
    by (simp add: list_all2_conv_all_nth all_set_conv_all_nth)
  obtain ps where ps: "permutations_from els (replicate n 0) = Some ps"
    "set ps = {map (\<lambda>i. els ! i) js | js. length js = n \<and> all_below (length els) js}"
    using permutations_from_eq [of "replicate n 0" els] assms
    by (auto simp: flat_index_zeros list_all2_conv_all_nth)
  have sub: "\<exists>js. xs = map (\<lambda>i. els ! i) js \<and> length js = length xs \<and> (\<forall>j \<in> set js. j < length els)"
    if "set xs \<subseteq> set els" for xs
    using that
  proof (induction xs)
    case (Cons x xs)
    then obtain js i where "xs = map (\<lambda>i. els ! i) js" "length js = length xs"
      "\<forall>j \<in> set js. j < length els" "i < length els" "x = els ! i"
      by (auto simp: in_set_conv_nth)
    then show ?case by (intro exI [of _ "i # js"]) auto
  qed simp
  have "set ps = {xs. length xs = n \<and> set xs \<subseteq> set els}" (is "_ = ?R")
  proof
    show "set ps \<subseteq> ?R" unfolding ps(2) below by auto
    show "?R \<subseteq> set ps"
    proof
      fix xs assume "xs \<in> ?R"
      with sub [of xs] show "xs \<in> set ps" unfolding ps(2) below by force
    qed
  qed
  with False assms ps(1) show ?thesis by (simp add: get_all_permutations_with_repetition_def)
qed

section \<open>Lemmas\<close>

text \<open>Where the tasks are put along one dimension of the machine, in Horner form.\<close>

fun place ::
    "machine_specification_dimension \<Rightarrow> nat list \<Rightarrow> machine_view_dimension list \<Rightarrow> nat list \<Rightarrow> nat" where
  "place p (d # ts) (m # ms) (x # xs) =
     (if mvd_projection m = p then x * mvd_stride m + d * mvd_stride m * place p ts ms xs else place p ts ms xs)"
| "place p _ _ _ = 0"

fun extent :: "machine_specification_dimension \<Rightarrow> nat list \<Rightarrow> machine_view_dimension list \<Rightarrow> nat" where
  "extent p (d # ts) (m # ms) = (if mvd_projection m = p then d * mvd_stride m * extent p ts ms else extent p ts ms)"
| "extent p _ _ = 1"

definition wf_task_space :: "operator_task_space \<Rightarrow> bool" where
  "wf_task_space ts \<longleftrightarrow> length ts \<le> INT_MAX \<and> (\<forall>d \<in> set ts. valid_ge_two d)"

definition wf_machine_view :: "machine_view \<Rightarrow> bool" where
  "wf_machine_view mv \<longleftrightarrow> msc_node_idx (mv_start mv) \<le> INT_MAX \<and> msc_device_idx (mv_start mv) \<le> INT_MAX \<and>
     (\<forall>m \<in> set (mv_dimensions mv). 0 < mvd_stride m)"

lemma place_inj:
  "length xs = length ts \<Longrightarrow> length ms = length ts \<Longrightarrow> list_all2 (<) xs ts \<Longrightarrow> list_all2 (<) ys ts \<Longrightarrow>
     \<forall>m \<in> set ms. 0 < mvd_stride m \<Longrightarrow>
     (\<And>p. place p ts ms xs = place p ts ms ys) \<Longrightarrow> xs = ys"
proof (induction xs ts arbitrary: ys ms rule: list_induct2)
  case (Cons x xs d ts)
  from Cons.prems obtain m ms' y ys' where eqs: "ms = m # ms'" "ys = y # ys'"
    by (cases ms; cases ys) auto
  have less: "x * mvd_stride m < d * mvd_stride m" "y * mvd_stride m < d * mvd_stride m"
    using Cons.prems eqs by auto
  let ?p = "mvd_projection m" and ?e = "d * mvd_stride m"
  have "x * mvd_stride m + ?e * place ?p ts ms' xs = y * mvd_stride m + ?e * place ?p ts ms' ys'"
    using Cons.prems(5) [of ?p] eqs by simp
  then have "(x * mvd_stride m + ?e * place ?p ts ms' xs) mod ?e = (y * mvd_stride m + ?e * place ?p ts ms' ys') mod ?e"
    "(x * mvd_stride m + ?e * place ?p ts ms' xs) div ?e = (y * mvd_stride m + ?e * place ?p ts ms' ys') div ?e"
    by simp_all
  then have xy: "x = y" "place ?p ts ms' xs = place ?p ts ms' ys'"
    using less Cons.prems(4) eqs by auto
  have "place p ts ms' xs = place p ts ms' ys'" for p
    using Cons.prems(5) [of p] xy eqs by (cases "p = ?p") auto
  then have "xs = ys'" using Cons.prems eqs by (intro Cons.IH [of ms' ys']) auto
  with xy eqs show ?case by simp
qed simp

lemma place_mono:
  "list_all2 (\<le>) xs ys \<Longrightarrow> place p ts ms xs \<le> place p ts ms ys"
proof (induction p ts ms xs arbitrary: ys rule: place.induct)
  case (1 p d ts m ms x xs)
  then obtain y ys' where "ys = y # ys'" "x \<le> y" "list_all2 (\<le>) xs ys'" by (auto simp: list_all2_Cons1)
  with 1 show ?case by (auto intro!: add_mono mult_le_mono)
qed simp_all

lemma int_ge_two_mul_positive_eq [int_ops]:
  "int_ge_two_mul_positive a b = Inr c \<longleftrightarrow> c = a * b \<and> 2 \<le> a * b \<and> a * b \<le> INT_MAX"
  by (auto simp: int_ge_two_mul_positive_def mk_int_ge_two_def int_ops simp flip: of_nat_mult)

text \<open>The triples of degree, stride and component that \<open>compute_index\<close> reads.\<close>

fun prefix_products :: "nat \<Rightarrow> nat list \<Rightarrow> nat list" where
  "prefix_products c [] = [c]"
| "prefix_products c (z # zs) = c # prefix_products (c * z) zs"

fun spread :: "(nat \<times> nat \<times> nat) list \<Rightarrow> nat" where
  "spread [] = 0"
| "spread ((d, s, x) # ts) = x * s + d * s * spread ts"

lemma scanl_mul_eq:
  "0 < c \<Longrightarrow> c \<le> INT_MAX \<Longrightarrow> \<forall>z \<in> set zs. 0 < z \<Longrightarrow>
     scanl positive_int_mul c zs = Inr cs \<longleftrightarrow> c * prod_list zs \<le> INT_MAX \<and> cs = prefix_products c zs"
proof (induction zs arbitrary: c cs)
  case (Cons z zs)
  have "0 < prod_list zs" using Cons.prems by (simp add: prod_list_pos)
  then have "c * z \<le> c * z * prod_list zs" by simp
  then have le: "c * z \<le> INT_MAX" if "c * z * prod_list zs \<le> INT_MAX"
    using that by linarith
  show ?case
  proof (cases "c * z \<le> INT_MAX")
    case True
    with Cons show ?thesis by (auto simp: int_ops mult.assoc)
  next
    case False
    with le show ?thesis by (auto simp: int_ops mult.assoc)
  qed
qed auto

lemma compute_index_loop_eq:
  assumes "\<forall>(d, s, x) \<in> set ts. 0 < d \<and> 0 < s" and "0 < c" and "i \<le> INT_MAX"
  shows "compute_index_loop i (zip3 (prefix_products c (map (\<lambda>(d, s, x). d * s) ts))
      (map (\<lambda>(d, s, x). x) ts) (map (\<lambda>(d, s, x). s) ts)) = Inr r \<longleftrightarrow>
    r = i + c * spread ts \<and> i + c * spread ts \<le> INT_MAX"
  using assms
proof (induction ts arbitrary: c i)
  case (Cons t ts)
  obtain d s x where t: "t = (d, s, x)" by (cases t) auto
  have s: "0 < d" "0 < s" "\<forall>(d, s, x) \<in> set ts. 0 < d \<and> 0 < s" using Cons.prems(1) t by auto
  have le: "c * x \<le> c * x * s" using s by simp
  have eq: "i + c * spread (t # ts) = i + c * x * s + c * (d * s) * spread ts"
    by (simp add: t algebra_simps)
  show ?case
  proof (cases "i + c * x * s \<le> INT_MAX")
    case True
    then have "c * x * s \<le> INT_MAX" "c * x \<le> INT_MAX" using le by linarith+
    with True show ?thesis
      using Cons.IH [OF s(3), of "c * (d * s)" "i + c * x * s"] Cons.prems(2) s(1,2)
      unfolding eq by (simp add: t zip3_def int_ops)
  next
    case False
    then show ?thesis unfolding eq by (auto simp: t zip3_def int_ops)
  qed
qed (auto simp: zip3_def)

lemma res_map_eq_map:
  "(\<And>x y. x \<in> set xs \<Longrightarrow> f x = Inr y \<longleftrightarrow> P x \<and> y = g x) \<Longrightarrow>
     res_map f xs = Inr ys \<longleftrightarrow> (\<forall>x \<in> set xs. P x) \<and> ys = map g xs"
  by (induction xs arbitrary: ys) auto

definition triples ::
    "machine_specification_dimension \<Rightarrow> nat list \<Rightarrow> machine_view_dimension list \<Rightarrow> nat list \<Rightarrow> (nat \<times> nat \<times> nat) list" where
  "triples p ts ms xs =
     map (\<lambda>(d, m, x). (d, mvd_stride m, x)) (filter (\<lambda>(d, m, x). mvd_projection m = p) (zip ts (zip ms xs)))"

lemma triples_nth:
  assumes "length ms = length ts" and "length xs = length ts"
  shows "triples p ts ms xs = map (\<lambda>i. (ts ! i, mvd_stride (ms ! i), xs ! i))
    (filter (\<lambda>i. mvd_projection (ms ! i) = p) [0..<length ts])"
proof -
  have "zip ts (zip ms xs) = map (\<lambda>i. (ts ! i, ms ! i, xs ! i)) [0..<length ts]"
    using assms by (intro nth_equalityI) simp_all
  then show ?thesis by (simp add: triples_def filter_map comp_def)
qed

lemma spread_triples:
  "length ms = length ts \<Longrightarrow> length xs = length ts \<Longrightarrow>
     spread (triples p ts ms xs) = place p ts ms xs \<and>
     prod_list (map (\<lambda>(d, s, x). d * s) (triples p ts ms xs)) = extent p ts ms"
proof (induction p ts ms xs rule: place.induct)
  case (1 p d ts m ms x xs)
  then show ?case by (auto simp: triples_def)
qed (simp_all add: triples_def)

lemma extent_pos:
  "\<forall>d \<in> set ts. 0 < d \<Longrightarrow> \<forall>m \<in> set ms. 0 < mvd_stride m \<Longrightarrow> 0 < extent p ts ms"
  by (induction p ts ms rule: extent.induct) auto

lemma triples_mem:
  "(d, s, x) \<in> set (triples p ts ms xs) \<Longrightarrow> d \<in> set ts \<and> (\<exists>m \<in> set ms. s = mvd_stride m)"
  by (auto simp: triples_def dest: set_zip_leftD set_zip_rightD)

lemma ge_two_mul: "2 \<le> d \<Longrightarrow> 0 < s \<Longrightarrow> 2 \<le> d * (s :: nat)"
  using mult_le_mono [of 2 d 1 s] by simp

lemma compute_index_eq:
  assumes len: "length (mv_dimensions mv) = length ts" "length xs = length ts"
    and ts: "\<forall>d \<in> set ts. 2 \<le> d" and ms: "\<forall>m \<in> set (mv_dimensions mv). 0 < mvd_stride m"
    and st: "st \<le> INT_MAX"
  shows "compute_index ts mv xs st (filter (\<lambda>i. mvd_projection (mv_dimensions mv ! i) = p) [0..<length ts]) = Inr r \<longleftrightarrow>
    extent p ts (mv_dimensions mv) \<le> INT_MAX \<and> r = st + place p ts (mv_dimensions mv) xs \<and> r \<le> INT_MAX"
proof -
  let ?I = "filter (\<lambda>i. mvd_projection (mv_dimensions mv ! i) = p) [0..<length ts]"
  let ?t = "\<lambda>i. (ts ! i, mvd_stride (mv_dimensions mv ! i), xs ! i)"
  let ?T = "triples p ts (mv_dimensions mv) xs"
  have I: "i < length ts" if "i \<in> set ?I" for i using that by simp
  have T: "?T = map ?t ?I" using len by (rule triples_nth)
  have mem: "2 \<le> d" "0 < s" if "(d, s, x) \<in> set ?T" for d s x
    using triples_mem [OF that] ts ms by auto
  have pos: "\<forall>(d, s, x) \<in> set ?T. 0 < d \<and> 0 < s" "\<forall>(d, s, x) \<in> set ?T. 2 \<le> d * s"
  proof (safe)
    fix d s x assume "(d, s, x) \<in> set ?T"
    then have "2 \<le> d" "0 < s" by (rule mem)+
    then show "0 < d" "0 < s" "2 \<le> d * s" by (simp_all add: ge_two_mul)
  qed
  have size: "res_bind (vector_at ts (int i)) (\<lambda>degree.
      res_bind (vector_at (mv_get_strides mv) (int i)) (\<lambda>stride. int_ge_two_mul_positive degree stride)) = Inr y \<longleftrightarrow>
      ts ! i * mvd_stride (mv_dimensions mv ! i) \<le> INT_MAX \<and> y = ts ! i * mvd_stride (mv_dimensions mv ! i)"
    if "i \<in> set ?I" for i y
  proof -
    have i: "i < length ts" using that by simp
    then have "2 \<le> ts ! i * mvd_stride (mv_dimensions mv ! i)" using ts ms len by (intro ge_two_mul) simp_all
    with i len show ?thesis by (auto simp: mv_get_strides_def int_ops)
  qed
  have sizes: "res_map (\<lambda>i. res_bind (vector_at ts (int i)) (\<lambda>degree.
      res_bind (vector_at (mv_get_strides mv) (int i)) (\<lambda>stride. int_ge_two_mul_positive degree stride))) ?I = Inr zs \<longleftrightarrow>
      (\<forall>(d, s, x) \<in> set ?T. d * s \<le> INT_MAX) \<and> zs = map (\<lambda>(d, s, x). d * s) ?T" for zs
    unfolding T by (subst res_map_eq_map [OF size, of ?I "\<lambda>i. i"]) (simp_all add: comp_def)
  have others: "res_map (\<lambda>i. vector_at xs (int i)) ?I = Inr (map (\<lambda>(d, s, x). x) ?T)"
    "res_map (\<lambda>i. vector_at (mv_get_strides mv) (int i)) ?I = Inr (map (\<lambda>(d, s, x). s) ?T)"
    unfolding T map_map comp_def using len by (auto intro!: res_map_Inr_on simp: mv_get_strides_def)
  have ext: "extent p ts (mv_dimensions mv) = prod_list (map (\<lambda>(d, s, x). d * s) ?T)"
    "place p ts (mv_dimensions mv) xs = spread ?T"
    using spread_triples [OF len] by simp_all
  have le: "(\<forall>(d, s, x) \<in> set ?T. d * s \<le> INT_MAX)" if "prod_list (map (\<lambda>(d, s, x). d * s) ?T) \<le> INT_MAX"
  proof -
    have "d * s \<le> prod_list (map (\<lambda>(d, s, x). d * s) ?T)" if "(d, s, x) \<in> set ?T" for d s x
      using pos(1) that by (intro prod_list_elem_le) (auto intro: image_eqI [of _ _ "(d, s, x)"])
    with that show ?thesis by fastforce
  qed
  have "0 < z" if "z \<in> set (map (\<lambda>(d, s, x). d * s) ?T)" for z using pos(1) that by auto
  then have scan: "scanl positive_int_mul 1 (map (\<lambda>(d, s, x). d * s) ?T) = Inr cs \<longleftrightarrow>
      prod_list (map (\<lambda>(d, s, x). d * s) ?T) \<le> INT_MAX \<and> cs = prefix_products 1 (map (\<lambda>(d, s, x). d * s) ?T)" for cs
    using scanl_mul_eq [of 1 "map (\<lambda>(d, s, x). d * s) ?T" cs] by (simp add: INT_MAX_def)
  show ?thesis
    using le compute_index_loop_eq [OF pos(1) zero_less_one st] scan
    unfolding compute_index_def Let_def ext by (auto simp: sizes others simp del: One_nat_def vector_at_nat)
qed

lemma get_machine_space_coordinate_eq:
  assumes "wf_task_space ts" and "wf_machine_view mv"
  shows "get_machine_space_coordinate ts mv xs = Inr c \<longleftrightarrow>
    length (mv_dimensions mv) = length ts \<and> list_all2 (<) xs ts \<and>
    extent INTER_NODE ts (mv_dimensions mv) \<le> INT_MAX \<and> extent INTRA_NODE ts (mv_dimensions mv) \<le> INT_MAX \<and>
    c = MachineSpaceCoordinate (msc_node_idx (mv_start mv) + place INTER_NODE ts (mv_dimensions mv) xs)
      (msc_device_idx (mv_start mv) + place INTRA_NODE ts (mv_dimensions mv) xs) \<and>
    msc_node_idx c \<le> INT_MAX \<and> msc_device_idx c \<le> INT_MAX" (is "?l \<longleftrightarrow> ?r")
proof (cases "length (mv_dimensions mv) = length ts \<and> list_all2 (<) xs ts")
  case True
  then have len: "length (mv_dimensions mv) = length ts" "length xs = length ts"
    by (auto dest: list_all2_lengthD)
  have n: "length ts \<le> INT_MAX" "\<forall>d \<in> set ts. 2 \<le> d" "\<forall>m \<in> set (mv_dimensions mv). 0 < mvd_stride m"
    "msc_node_idx (mv_start mv) \<le> INT_MAX" "msc_device_idx (mv_start mv) \<le> INT_MAX"
    using assms by (auto simp: wf_task_space_def wf_machine_view_def valid_ge_two_def)
  have idx: "get_dimension_indices_for_dimension mv p =
      Inr (filter (\<lambda>i. mvd_projection (mv_dimensions mv ! i) = p) [0..<length ts])" for p
    using len n(1) unfolding get_dimension_indices_for_dimension_def Let_def
    by (auto simp: mv_get_dimensions_def num_elements_def int_ops intro: filter_cong)
  have "mv_get_expected_task_space_num_dims mv = Inr (length ts)" "op_task_space_num_dims ts = Inr (length ts)"
    "task_space_coord_num_dims xs = Inr (length ts)"
    using len n(1) by (simp_all add: mv_get_expected_task_space_num_dims_def mv_get_strides_def num_elements_def
        op_task_space_num_dims_def minimal_orthotope_get_num_dims_def task_space_coord_num_dims_def int_ops)
  with True show ?thesis
    by (auto simp: get_machine_space_coordinate_def operator_task_space_contains_coord_def task_space_coords_eq idx
        compute_index_eq [OF len n(2,3,4)] compute_index_eq [OF len n(2,3,5)])
next
  case False
  have num: "num_elements xs = Inr n \<longleftrightarrow> n = length xs \<and> n \<le> INT_MAX" for xs :: "'z list" and n
    by (auto simp: num_elements_def int_ops)
  from False show ?thesis
    by (auto simp: get_machine_space_coordinate_def operator_task_space_contains_coord_def task_space_coords_eq
        mv_get_expected_task_space_num_dims_def mv_get_strides_def op_task_space_num_dims_def
        minimal_orthotope_get_num_dims_def num)
qed

text \<open>The greatest coordinate of a task space is its greatest in every component.\<close>

lemma list_all2_le_lex: "list_all2 (\<le>) xs ys \<Longrightarrow> xs \<le> (ys :: nat list)"
  by (induction rule: list_all2_induct) (auto simp: less_le)

lemma below_maximum: "list_all2 (<) xs (ts :: nat list) \<Longrightarrow> list_all2 (\<le>) xs (map (\<lambda>d. d - 1) ts)"
  by (induction rule: list_all2_induct) auto

lemma finite_task_space_coords [simp]: "finite (get_task_space_coordinates ts)"
  by (simp add: get_task_space_coordinates_def)

lemma get_task_space_maximum_coordinate_eq:
  assumes "\<forall>d \<in> set ts. 0 < d"
  shows "get_task_space_maximum_coordinate ts = Inr (map (\<lambda>d. d - 1) ts)"
proof -
  have mem: "map (\<lambda>d. d - 1) ts \<in> get_task_space_coordinates ts"
    using assms by (auto simp: task_space_coords_eq list_all2_conv_all_nth)
  have "Max (get_task_space_coordinates ts) = map (\<lambda>d. d - 1) ts"
  proof (rule Max_eqI)
    show "xs \<le> map (\<lambda>d. d - 1) ts" if "xs \<in> get_task_space_coordinates ts" for xs
      using that by (intro list_all2_le_lex below_maximum) (simp add: task_space_coords_eq)
  qed (use mem in auto)
  with mem show ?thesis by (auto simp: get_task_space_maximum_coordinate_def maximum_def)
qed

lemma wf_task_spaceD:
  "wf_task_space ts \<Longrightarrow> length ts \<le> INT_MAX"
  "wf_task_space ts \<Longrightarrow> \<forall>d \<in> set ts. 2 \<le> d"
  "wf_task_space ts \<Longrightarrow> \<forall>d \<in> set ts. 0 < d"
  by (auto simp: wf_task_space_def valid_ge_two_def)

lemma is_valid_machine_view_eq:
  assumes ts: "wf_task_space ts" and mv: "wf_machine_view mv"
  shows "is_valid_machine_view mv ts ms = Inr True \<longleftrightarrow>
    length (mv_dimensions mv) = length ts \<and>
    (\<exists>c. get_machine_space_coordinate ts mv (map (\<lambda>d. d - 1) ts) = Inr c \<and> in_slice ms c)"
proof -
  have num: "num_elements xs = Inr n \<longleftrightarrow> n = length xs \<and> n \<le> INT_MAX" for xs :: "'z list" and n
    by (auto simp: num_elements_def int_ops)
  show ?thesis
    using wf_task_spaceD [OF ts] get_task_space_maximum_coordinate_eq [of ts]
    by (auto simp: is_valid_machine_view_def mv_get_expected_task_space_num_dims_def mv_get_strides_def
        op_task_space_num_dims_def minimal_orthotope_get_num_dims_def num)
qed

lemma get_machine_space_coordinate_mono:
  assumes "wf_task_space ts" and "wf_machine_view mv"
    and "get_machine_space_coordinate ts mv ys = Inr d" and "list_all2 (\<le>) xs ys"
  shows "\<exists>c. get_machine_space_coordinate ts mv xs = Inr c \<and> msc_node_idx c \<le> msc_node_idx d \<and>
    msc_device_idx c \<le> msc_device_idx d"
proof -
  have "list_all2 (<) ys ts" using assms(3) by (simp add: get_machine_space_coordinate_eq [OF assms(1,2)])
  with assms(4) have "list_all2 (<) xs ts" by (rule list_all2_trans [rotated]) simp
  with assms(3) place_mono [OF assms(4), of INTER_NODE ts "mv_dimensions mv"]
    place_mono [OF assms(4), of INTRA_NODE ts "mv_dimensions mv"]
  show ?thesis by (auto simp: get_machine_space_coordinate_eq [OF assms(1,2)])
qed

text \<open>The coordinate mapping never stops at a repeated device.\<close>

lemma get_machine_space_coordinate_inj:
  assumes wf: "wf_task_space ts" "wf_machine_view mv"
    and xs: "get_machine_space_coordinate ts mv xs = Inr c" and ys: "get_machine_space_coordinate ts mv ys = Inr c"
  shows "xs = ys"
proof -
  have eqs: "length (mv_dimensions mv) = length ts" "list_all2 (<) xs ts" "list_all2 (<) ys ts"
    "\<And>p. place p ts (mv_dimensions mv) xs = place p ts (mv_dimensions mv) ys"
    using xs ys unfolding get_machine_space_coordinate_eq [OF wf]
    by (auto, metis add_left_cancel machine_space_coordinate.ext_inject machine_specification_dimension.exhaust)
  then show ?thesis
    using wf(2) by (intro place_inj [of xs ts "mv_dimensions mv" ys])
      (auto simp: wf_machine_view_def dest: list_all2_lengthD)
qed

lemma get_coordinate_mapping_total:
  assumes wf: "wf_task_space ts" "wf_machine_view mv"
    and total: "\<forall>xs \<in> get_task_space_coordinates ts. \<exists>c. get_machine_space_coordinate ts mv xs = Inr c"
  shows "\<exists>b. get_coordinate_mapping_for_machine_view ts mv = Inr (b, ts) \<and> wf_bidict b \<and>
    (\<forall>xs c. fwd_map b xs = Some c \<longleftrightarrow> get_machine_space_coordinate ts mv xs = Inr c)"
proof -
  let ?A = "sorted_list_of_set (get_task_space_coordinates ts)"
  obtain f where f: "\<And>xs. xs \<in> get_task_space_coordinates ts \<Longrightarrow> get_machine_space_coordinate ts mv xs = Inr (f xs)"
    using total by metis
  have map: "res_map (\<lambda>xs. res_bind (get_machine_space_coordinate ts mv xs) (\<lambda>ms. Inr (xs, ms))) ?A =
      Inr (map (\<lambda>xs. (xs, f xs)) ?A)"
    by (intro res_map_Inr_on) (simp add: f)
  have "inj_on f (get_task_space_coordinates ts)"
    using get_machine_space_coordinate_inj [OF wf] f by (metis inj_onI)
  then obtain b where b: "bidict_from_pairs (map (\<lambda>xs. (xs, f xs)) ?A) = Inr b" "wf_bidict b"
    "fwd_map b = map_of (map (\<lambda>xs. (xs, f xs)) ?A)"
    using bidict_from_pairs_total [of "map (\<lambda>xs. (xs, f xs)) ?A"] by (auto simp: comp_def distinct_map)
  have "fwd_map b xs = Some c \<longleftrightarrow> get_machine_space_coordinate ts mv xs = Inr c" for xs c
  proof (cases "xs \<in> get_task_space_coordinates ts")
    case True
    then show ?thesis by (auto simp: b(3) f map_of_entries)
  next
    case False
    then have "fwd_map b xs = None" by (simp add: b(3) map_of_entries)
    with False show ?thesis by (auto simp: get_machine_space_coordinate_eq [OF wf] task_space_coords_eq)
  qed
  with b map show ?thesis by (auto simp: get_coordinate_mapping_for_machine_view_def)
qed

text \<open>
  The bound on the strides: the tasks along one dimension of the machine take at least the product of
  the degrees minus one, times any of their strides.
\<close>

fun volume_along :: "machine_specification_dimension \<Rightarrow> nat list \<Rightarrow> machine_view_dimension list \<Rightarrow> nat" where
  "volume_along p (d # ts) (m # ms) =
     (if mvd_projection m = p then (d - 1) * volume_along p ts ms else volume_along p ts ms)"
| "volume_along p _ _ = 1"

lemma pred_le_mult: "0 < s \<Longrightarrow> d - 1 \<le> d * (s :: nat)"
  by (cases s) auto

lemma volume_along_le:
  "\<forall>d \<in> set ts. 0 < d \<Longrightarrow> \<forall>m \<in> set ms. 0 < mvd_stride m \<Longrightarrow>
     volume_along p ts ms \<le> max 1 (place p ts ms (map (\<lambda>d. d - 1) ts))"
proof (induction p ts ms rule: volume_along.induct)
  case (1 p d ts m ms)
  let ?s = "mvd_stride m" and ?w = "volume_along p ts ms" and ?q = "place p ts ms (map (\<lambda>d. d - 1) ts)"
  have IH: "?w \<le> max 1 ?q" and s: "1 \<le> ?s" using 1 by (auto split: if_splits)
  show ?case
  proof (cases "mvd_projection m = p")
    case True
    have "(d - 1) * ?w \<le> (d - 1) * ?s + d * ?s * ?q"
    proof (cases "?w \<le> 1")
      case True
      then have "(d - 1) * ?w \<le> (d - 1) * ?s" using s by (intro mult_le_mono2) linarith
      then show ?thesis by (rule trans_le_add1)
    next
      case False
      then have "?w \<le> ?q" using IH by simp
      moreover have "d - 1 \<le> d * ?s" using s pred_le_mult [of ?s d] by auto
      ultimately have "(d - 1) * ?w \<le> d * ?s * ?q" by (rule mult_le_mono [rotated])
      then show ?thesis by simp
    qed
    with True show ?thesis by simp
  qed (use IH in simp)
qed simp_all

lemma stride_volume_le:
  "\<forall>d \<in> set ts. 0 < d \<Longrightarrow> \<forall>m \<in> set ms. 0 < mvd_stride m \<Longrightarrow> length ms = length ts \<Longrightarrow> m' \<in> set ms \<Longrightarrow>
     mvd_projection m' = p \<Longrightarrow> mvd_stride m' * volume_along p ts ms \<le> place p ts ms (map (\<lambda>d. d - 1) ts)"
proof (induction p ts ms rule: volume_along.induct)
  case (1 p d ts m ms)
  let ?s = "mvd_stride m" and ?w = "volume_along p ts ms" and ?q = "place p ts ms (map (\<lambda>d. d - 1) ts)"
  have pos: "\<forall>d \<in> set ts. 0 < d" "\<forall>m \<in> set ms. 0 < mvd_stride m" "1 \<le> ?s" using "1.prems" by auto
  note w = volume_along_le [OF pos(1,2), of p]
  show ?case
  proof (cases "mvd_projection m = p")
    case True
    have "mvd_stride m' * ((d - 1) * ?w) \<le> (d - 1) * ?s + d * ?s * ?q"
    proof (cases "m' = m")
      case True
      show ?thesis
      proof (cases "?w \<le> 1")
        case True
        then have "?s * ((d - 1) * ?w) \<le> (d - 1) * ?s" by (cases ?w) auto
        then show ?thesis unfolding \<open>m' = m\<close> by (rule trans_le_add1)
      next
        case False
        then have "?w \<le> ?q" using w by simp
        moreover have "?s * (d - 1) \<le> d * ?s" by (simp add: mult.commute [of d])
        ultimately have "?s * (d - 1) * ?w \<le> d * ?s * ?q" by (rule mult_le_mono [rotated])
        then have "?s * ((d - 1) * ?w) \<le> d * ?s * ?q" by (simp only: mult.assoc)
        then show ?thesis unfolding \<open>m' = m\<close> by (rule trans_le_add2)
      qed
    next
      case False
      then have "mvd_stride m' * ?w \<le> ?q"
        using 1 True pos by (cases ts) auto
      moreover have "d - 1 \<le> d * ?s" using pos(3) pred_le_mult [of ?s d] by auto
      ultimately have "(d - 1) * (mvd_stride m' * ?w) \<le> d * ?s * ?q" by (rule mult_le_mono [rotated])
      then show ?thesis by (simp add: mult.left_commute)
    qed
    with True show ?thesis by simp
  next
    case False
    with 1 show ?thesis by auto
  qed
qed auto

lemma volume_along_mult:
  "length ms = length ts \<Longrightarrow>
     volume_along INTER_NODE ts ms * volume_along INTRA_NODE ts ms = prod_list (map (\<lambda>d. d - 1) ts)"
proof (induction ts arbitrary: ms)
  case (Cons d ts)
  then obtain m ms' where "ms = m # ms'" "length ms' = length ts" by (cases ms) auto
  with Cons.IH [of ms'] show ?case
    by (cases "mvd_projection m") (simp_all add: ac_simps)
qed simp

lemma product_nonnegative_eq:
  "product_nonnegative_from acc xs = Inr p \<Longrightarrow> p = acc * prod_list xs"
  "\<forall>x \<in> set xs. 0 < x \<Longrightarrow> 0 < acc \<Longrightarrow> acc * prod_list xs \<le> INT_MAX \<Longrightarrow>
     product_nonnegative_from acc xs = Inr (acc * prod_list xs)"
proof (induction xs arbitrary: acc)
  case (Cons x xs)
  {
    case 1
    then show ?case using Cons.IH(1) [of "acc * x"] by (auto simp: int_ops mult.assoc)
  next
    case 2
    then have "0 < prod_list xs" by (simp add: prod_list_pos)
    then have "acc * x \<le> acc * (x * prod_list xs)" by simp
    also have "\<dots> \<le> INT_MAX" using 2(3) by simp
    finally have "acc * x \<le> INT_MAX" .
    with 2 Cons.IH(2) [of "acc * x"] show ?case by (simp add: int_ops mult.assoc)
  }
qed simp_all

lemma ceildiv_eq: "ceildiv n d = Inr c \<longleftrightarrow> 0 < d \<and> n + d \<le> INT_MAX \<and> c = (n + d - 1) div d \<and> 0 < c"
proof (cases "0 < d \<and> n + d \<le> INT_MAX")
  case True
  then have "cint (int n + int d) = Inr (int n + int d)" "cint (int n + int d - 1) = Inr (int (n + d - 1))"
    by (auto simp: cint_def INT_MAX_def of_nat_diff)
  moreover have "cint_div (int (n + d - 1)) (int d) = cint (int ((n + d - 1) div d))"
    using True by (intro cint_div_of_nat) simp
  moreover have "cint (int ((n + d - 1) div d)) = Inr (int ((n + d - 1) div d))"
    using True div_le_dividend [of "n + d - 1" d] by (simp only: cint_of_nat) linarith
  ultimately have "ceildiv n d = mk_positive_int (int ((n + d - 1) div d))"
    by (simp only: ceildiv_def res_bind_simps)
  with True show ?thesis by (auto simp: int_ops)
next
  case False
  have "cint (int n + int d) = Inr x \<longleftrightarrow> x = int (n + d) \<and> n + d \<le> INT_MAX" for x
    by (simp flip: of_nat_add)
  with False show ?thesis by (auto simp: ceildiv_def cint_div_def)
qed

text \<open>The candidates, when the enumeration returns.\<close>

definition max_stride :: "nat list \<Rightarrow> nat \<Rightarrow> nat" where
  "max_stride ts n = (n + max (prod_list (map (\<lambda>d. d - 1) ts)) 1 - 1) div max (prod_list (map (\<lambda>d. d - 1) ts)) 1"

lemma max_stride_bound_eq:
  assumes "\<forall>d \<in> set ts. 2 \<le> d"
  shows "get_max_stride_upper_bound ts n = Inr b \<longleftrightarrow>
    n + prod_list (map (\<lambda>d. d - 1) ts) \<le> INT_MAX \<and> b = max_stride ts n \<and> 0 < b"
proof -
  let ?ps = "map (\<lambda>d. d - 1) ts"
  have pos: "\<forall>x \<in> set ?ps. 0 < x" using assms by auto
  then have p: "0 < prod_list ?ps" by (rule prod_list_pos)
  have ds: "res_map (\<lambda>num_devices. mk_nonnegative_int (int num_devices - 1)) ts = Inr ?ps"
    using assms by (intro res_map_Inr_on) (auto simp: int_ops of_nat_diff)
  have eq: "get_max_stride_upper_bound ts n = Inr b \<longleftrightarrow>
      (\<exists>q. product_nonnegative ?ps = Inr q \<and> ceildiv n (max q 1) = Inr b)"
    by (simp add: get_max_stride_upper_bound_def ds int_ops less_max_iff_disj)
  have m: "max (prod_list ?ps) 1 = prod_list ?ps" using p by simp
  have "product_nonnegative ?ps = Inr q \<Longrightarrow> q = prod_list ?ps" for q
    using product_nonnegative_eq(1) [of 1 ?ps q] by (simp add: product_nonnegative_def)
  moreover have "prod_list ?ps \<le> INT_MAX \<Longrightarrow> product_nonnegative ?ps = Inr (prod_list ?ps)"
    using product_nonnegative_eq(2) [of ?ps 1] pos by (simp add: product_nonnegative_def)
  ultimately have "get_max_stride_upper_bound ts n = Inr b \<longleftrightarrow>
      prod_list ?ps \<le> INT_MAX \<and> ceildiv n (prod_list ?ps) = Inr b \<or>
      product_nonnegative ?ps = Inr (prod_list ?ps) \<and> ceildiv n (prod_list ?ps) = Inr b"
    unfolding eq by (metis m)
  then show ?thesis
    unfolding ceildiv_eq max_stride_def m using p \<open>prod_list ?ps \<le> INT_MAX \<Longrightarrow> _\<close> by auto
qed

lemma max_stride_pos: "0 < n \<Longrightarrow> 0 < max_stride ts n"
  by (auto simp: max_stride_def div_greater_zero_iff less_max_iff_disj)

lemma stride_le_max_stride:
  assumes "s * max (prod_list (map (\<lambda>d. d - 1) ts)) 1 \<le> n"
  shows "s \<le> max_stride ts n"
proof -
  let ?p = "max (prod_list (map (\<lambda>d. d - 1) ts)) 1"
  have "s = s * ?p div ?p" by simp
  also have "\<dots> \<le> (n + ?p - 1) div ?p" using assms by (intro div_le_mono) linarith
  finally show ?thesis by (simp add: max_stride_def)
qed

lemma candidate_strides_eq:
  assumes "wf_task_space ts" and "0 < n"
  shows "get_candidate_strides ts n = Inr r \<longleftrightarrow>
    n + prod_list (map (\<lambda>d. d - 1) ts) \<le> INT_MAX \<and> max_stride ts n < INT_MAX \<and>
    r = cartesian_product (replicate (length ts) [1..<Suc (max_stride ts n)])"
proof -
  note ts = wf_task_spaceD [OF assms(1)]
  have "res_map positive_int_from_nonnegative [1..<Suc b] = Inr [1..<Suc b]" for b
    using res_map_Inr_on [of "[1..<Suc b]" positive_int_from_nonnegative "\<lambda>x. x"]
    by (simp add: int_ops Suc_le_eq del: upt_Suc)
  then show ?thesis
    using ts(1) max_stride_pos [OF assms(2), of ts]
    by (auto simp: get_candidate_strides_def max_stride_bound_eq [OF ts(2)] int_ops num_elements_def
        repeat_element_eq_replicate simp del: upt_Suc)
qed

lemma set_candidate_strides:
  "set (cartesian_product (replicate n [1..<Suc b])) = {xs. length xs = n \<and> (\<forall>x \<in> set xs. 0 < x \<and> x \<le> b)}"
  by (auto simp: cartesian_product_iff list_all2_conv_all_nth all_set_conv_all_nth less_Suc_eq_le Suc_le_eq
      simp del: upt_Suc)

lemma set_candidate_starts: "set (get_candidate_starts sl) = {c. in_slice sl c}"
proof -
  have "\<exists>i \<in> {0..<n}. \<exists>j \<in> {0..<g}. c = MachineSpaceCoordinate i j" if "msc_node_idx c < n" "msc_device_idx c < g"
    for c n g
    using that by (intro bexI [of _ "msc_node_idx c"] bexI [of _ "msc_device_idx c"]) simp_all
  then show ?thesis by (auto simp: get_candidate_starts_def in_slice_iff image_iff)
qed

lemma view_dimensions_parts: "map2 MachineViewDimension (map mvd_stride ms) (map mvd_projection ms) = ms"
  by (induction ms) simp_all

text \<open>The views the enumeration considers.\<close>

definition candidate_views :: "machine_compute_resource_slice \<Rightarrow> nat list \<Rightarrow> machine_view set" where
  "candidate_views sl ts = {mv. in_slice sl (mv_start mv) \<and> length (mv_dimensions mv) = length ts \<and>
     (\<forall>m \<in> set (mv_dimensions mv). 0 < mvd_stride m \<and>
        mvd_stride m \<le> max_stride ts (mcrs_num_nodes sl * mcrs_num_gpus_per_node sl))}"

lemma candidate_views_eq:
  assumes ts: "wf_task_space ts" and sl: "wf_slice sl"
  defines "n \<equiv> mcrs_num_nodes sl * mcrs_num_gpus_per_node sl"
  shows "get_candidate_machine_views sl ts = Inr r \<Longrightarrow> \<exists>views. r = Some views \<and> set views = candidate_views sl ts"
    and "n + prod_list (map (\<lambda>d. d - 1) ts) \<le> INT_MAX \<Longrightarrow> max_stride ts n < INT_MAX \<Longrightarrow>
      \<exists>r. get_candidate_machine_views sl ts = Inr r"
proof -
  have n: "0 < n" using sl by (simp add: n_def wf_slice_def valid_pos_def)
  let ?strides = "cartesian_product (replicate (length ts) [1..<Suc (max_stride ts n)])"
  let ?starts = "get_candidate_starts sl"
  have "x \<in> set [INTER_NODE, INTRA_NODE]" for x by (cases x) simp_all
  then have sub: "set xs \<subseteq> set [INTER_NODE, INTRA_NODE]" for xs by blast
  obtain dims where dims: "get_all_permutations_with_repetition [INTER_NODE, INTRA_NODE] (length ts) = Some dims"
    "set dims = {ds. length ds = length ts}"
    using all_permutations_eq [of "[INTER_NODE, INTRA_NODE]" "length ts", OF list.distinct(2)] sub by blast
  have dims': "get_candidate_dimensions ts = Inr (Some dims)"
    using wf_task_spaceD(1) [OF ts] dims(1)
    by (simp add: get_candidate_dimensions_def op_task_space_num_dims_def minimal_orthotope_get_num_dims_def
        num_elements_def nonnegative_int_from_size_def)
  let ?all = "concat (map (\<lambda>strides. concat (map (\<lambda>start. map (\<lambda>dims. (strides, start, dims)) dims) ?starts)) ?strides)"
  let ?mk = "\<lambda>(strides, start, dims). MachineView start (map2 MachineViewDimension strides dims)"
  have all: "set ?all = set ?strides \<times> set ?starts \<times> set dims" by auto
  have views: "res_map (\<lambda>(strides, start, dims). machine_view_from_strides_and_machine_spec_dimensions start strides dims) ?all =
      Inr (map ?mk ?all)"
    using set_candidate_strides [of "length ts" "max_stride ts n"] dims(2)
    by (intro res_map_Inr_on)
      (auto simp: all machine_view_from_strides_and_machine_spec_dimensions_def zip_with_strict_def)
  have ne: "?strides \<noteq> []" "?starts \<noteq> []" "dims \<noteq> []"
  proof -
    have "replicate (length ts) 1 \<in> set ?strides"
      using max_stride_pos [OF n, of ts] unfolding set_candidate_strides by simp
    then show "?strides \<noteq> []" by auto
    have "MachineSpaceCoordinate 0 0 \<in> set ?starts"
      using sl by (simp add: set_candidate_starts in_slice_iff wf_slice_def valid_pos_def)
    then show "?starts \<noteq> []" by auto
    have "replicate (length ts) INTER_NODE \<in> set dims" by (simp add: dims(2))
    then show "dims \<noteq> []" by auto
  qed
  have eq: "get_candidate_machine_views sl ts = Inr r \<longleftrightarrow>
      n + prod_list (map (\<lambda>d. d - 1) ts) \<le> INT_MAX \<and> max_stride ts n < INT_MAX \<and> r = Some (map ?mk ?all)" for r
    using n ne views dims' unfolding get_candidate_machine_views_def
    by (auto simp: total_devices_eq candidate_strides_eq [OF ts n] Let_def n_def [symmetric])
  have "set (map ?mk ?all) = candidate_views sl ts"
  proof -
    have "mv \<in> ?mk ` (set ?strides \<times> set ?starts \<times> set dims)" if "mv \<in> candidate_views sl ts" for mv
    proof -
      have "mv = ?mk (map mvd_stride (mv_dimensions mv), mv_start mv, map mvd_projection (mv_dimensions mv))"
        using view_dimensions_parts [of "mv_dimensions mv"] by simp
      moreover have "(map mvd_stride (mv_dimensions mv), mv_start mv, map mvd_projection (mv_dimensions mv)) \<in>
          set ?strides \<times> set ?starts \<times> set dims"
        using that unfolding set_candidate_strides set_candidate_starts dims(2)
        by (simp add: candidate_views_def n_def)
      ultimately show ?thesis by (rule image_eqI)
    qed
    moreover have "?mk t \<in> candidate_views sl ts" if "t \<in> set ?strides \<times> set ?starts \<times> set dims" for t
      using that unfolding set_candidate_strides set_candidate_starts dims(2)
      by (auto simp: candidate_views_def n_def dest!: set_zip_leftD)
    ultimately show ?thesis unfolding set_map all by blast
  qed
  with eq show "get_candidate_machine_views sl ts = Inr r \<Longrightarrow> \<exists>views. r = Some views \<and> set views = candidate_views sl ts"
    by blast
  show "n + prod_list (map (\<lambda>d. d - 1) ts) \<le> INT_MAX \<Longrightarrow> max_stride ts n < INT_MAX \<Longrightarrow>
      \<exists>r. get_candidate_machine_views sl ts = Inr r"
    using eq by blast
qed

lemma valid_view_is_candidate:
  assumes ts: "wf_task_space ts" and mv: "wf_machine_view mv" and valid: "is_valid_machine_view mv ts sl = Inr True"
  shows "mv \<in> candidate_views sl ts"
proof -
  let ?ms = "mv_dimensions mv" and ?max = "map (\<lambda>d. d - 1) ts"
  let ?n = "mcrs_num_nodes sl" and ?g = "mcrs_num_gpus_per_node sl"
  have len: "length ?ms = length ts"
    and c: "msc_node_idx (mv_start mv) + place INTER_NODE ts ?ms ?max < ?n"
      "msc_device_idx (mv_start mv) + place INTRA_NODE ts ?ms ?max < ?g"
    using valid by (auto simp: is_valid_machine_view_eq [OF ts mv] get_machine_space_coordinate_eq [OF ts mv] in_slice_iff)
  have pos: "\<forall>d \<in> set ts. 0 < d" "\<forall>m \<in> set ?ms. 0 < mvd_stride m"
    using wf_task_spaceD [OF ts] mv by (auto simp: wf_machine_view_def)
  let ?v = "\<lambda>p. volume_along p ts ?ms"
  have v: "?v INTER_NODE \<le> ?n" "?v INTRA_NODE \<le> ?g"
    using volume_along_le [OF pos, of INTER_NODE] volume_along_le [OF pos, of INTRA_NODE] c by auto
  have "mvd_stride m * (?v INTER_NODE * ?v INTRA_NODE) \<le> ?n * ?g" if m: "m \<in> set ?ms" for m
  proof (cases "mvd_projection m")
    case INTER_NODE
    then have "mvd_stride m * ?v INTER_NODE \<le> ?n" using stride_volume_le [OF pos len m] c by fastforce
    then have "mvd_stride m * ?v INTER_NODE * ?v INTRA_NODE \<le> ?n * ?g" using v(2) by (rule mult_le_mono)
    then show ?thesis by (simp only: mult.assoc)
  next
    case INTRA_NODE
    then have "mvd_stride m * ?v INTRA_NODE \<le> ?g" using stride_volume_le [OF pos len m] c by fastforce
    with v(1) have "?v INTER_NODE * (mvd_stride m * ?v INTRA_NODE) \<le> ?n * ?g" by (rule mult_le_mono)
    then show ?thesis by (simp only: mult.left_commute)
  qed
  moreover have "max (prod_list ?max) 1 = prod_list ?max"
    using wf_task_spaceD(2) [OF ts] prod_list_pos [of ?max] by fastforce
  ultimately have "\<forall>m \<in> set ?ms. mvd_stride m \<le> max_stride ts (?n * ?g)"
    by (auto intro!: stride_le_max_stride simp: volume_along_mult [OF len])
  with len c pos show ?thesis by (simp add: candidate_views_def in_slice_iff)
qed

lemma res_filter_eq: "res_filter f xs = Inr ys \<Longrightarrow> set ys = {x \<in> set xs. f x = Inr True}"
  by (induction xs arbitrary: ys) (auto split: if_splits)

lemma res_filter_total: "\<forall>x \<in> set xs. \<exists>b. f x = Inr b \<Longrightarrow> \<exists>ys. res_filter f xs = Inr ys"
proof (induction xs)
  case (Cons x xs)
  then obtain b ys where "f x = Inr b" "res_filter f xs = Inr ys" by auto
  then show ?case by simp
qed simp

text \<open>Room for the computations on every candidate.\<close>

lemma extent_le:
  "\<forall>m \<in> set ms. mvd_stride m \<le> b \<Longrightarrow> 0 < b \<Longrightarrow> \<forall>d \<in> set ts. 0 < d \<Longrightarrow> length ms = length ts \<Longrightarrow>
     extent p ts ms \<le> prod_list ts * b ^ length ts"
proof (induction p ts ms rule: extent.induct)
  case (1 p d ts m ms)
  then have IH: "extent p ts ms \<le> prod_list ts * b ^ length ts" by (auto split: if_splits)
  have "d * mvd_stride m * extent p ts ms \<le> d * b * (prod_list ts * b ^ length ts)"
    using 1 IH by (intro mult_le_mono) auto
  moreover have "extent p ts ms \<le> d * b * (prod_list ts * b ^ length ts)"
    using IH 1 by (metis mult_le_mono Suc_leI mult_1 nat_0_less_mult_iff One_nat_def list.set_intros(1))
  ultimately show ?case by (simp add: ac_simps)
qed auto

lemma place_less_extent:
  "list_all2 (<) xs ts \<Longrightarrow> \<forall>m \<in> set ms. 0 < mvd_stride m \<Longrightarrow> place p ts ms xs < extent p ts ms"
proof (induction p ts ms xs rule: place.induct)
  case (1 p d ts m ms x xs)
  show ?case
  proof (cases "mvd_projection m = p")
    case True
    let ?e = "d * mvd_stride m"
    have "x * mvd_stride m + ?e * place p ts ms xs < ?e + ?e * place p ts ms xs" using 1 by simp
    also have "\<dots> = ?e * Suc (place p ts ms xs)" by simp
    also have "\<dots> \<le> ?e * extent p ts ms" using 1 True by (intro mult_le_mono2) simp
    finally show ?thesis using True by simp
  qed (use 1 in simp)
qed simp_all

lemma prod_list_pred_le: "prod_list (map (\<lambda>d. d - 1) ts) \<le> prod_list (ts :: nat list)"
proof (induction ts)
  case (Cons d ts)
  have "(d - 1) * prod_list (map (\<lambda>d. d - 1) ts) \<le> d * prod_list ts"
    using Cons by (rule mult_le_mono [rotated]) simp
  then show ?case by simp
qed simp

lemma max_stride_le: "0 < n \<Longrightarrow> max_stride ts n \<le> n"
proof -
  assume n: "0 < n"
  define p where "p = max (prod_list (map (\<lambda>d. d - 1) ts)) 1"
  have p: "0 < p" by (simp add: p_def)
  then have "n + p - 1 < Suc n * p" by (cases p) auto
  then have "(n + p - 1) div p < Suc n" by (rule less_mult_imp_div_less)
  then show "max_stride ts n \<le> n" by (simp add: max_stride_def p_def)
qed

lemma is_valid_machine_view_total:
  assumes ts: "wf_task_space ts" and mv: "wf_machine_view mv" "length (mv_dimensions mv) = length ts"
    and room: "\<And>p. extent p ts (mv_dimensions mv) \<le> k" "msc_node_idx (mv_start mv) + k \<le> INT_MAX"
      "msc_device_idx (mv_start mv) + k \<le> INT_MAX"
  shows "\<exists>b. is_valid_machine_view mv ts sl = Inr b"
proof -
  let ?max = "map (\<lambda>d. d - 1) ts"
  have max: "list_all2 (<) ?max ts"
    using wf_task_spaceD(3) [OF ts] by (auto simp: list_all2_conv_all_nth)
  have pos: "\<forall>m \<in> set (mv_dimensions mv). 0 < mvd_stride m" using mv by (simp add: wf_machine_view_def)
  have le: "place p ts (mv_dimensions mv) ?max \<le> k" "extent p ts (mv_dimensions mv) \<le> INT_MAX" for p
    using place_less_extent [OF max pos, of p] room(1) [of p] room(2) by linarith+
  obtain c where "get_machine_space_coordinate ts mv ?max = Inr c"
    using mv max le(2) order.trans [OF add_left_mono [OF le(1)] room(2), of INTER_NODE]
      order.trans [OF add_left_mono [OF le(1)] room(3), of INTRA_NODE]
    by (auto simp: get_machine_space_coordinate_eq [OF ts mv(1)])
  then show ?thesis
    using mv(2) get_task_space_maximum_coordinate_eq [OF wf_task_spaceD(3) [OF ts]] wf_task_spaceD(1) [OF ts]
    by (simp add: is_valid_machine_view_def mv_get_expected_task_space_num_dims_def mv_get_strides_def
        op_task_space_num_dims_def minimal_orthotope_get_num_dims_def num_elements_def nonnegative_int_from_size_def)
qed

section \<open>Properties\<close>

text \<open>
  Claim C30. Checking the greatest task is enough: a view of a task space is valid for a slice exactly
  when it has a dimension for every dimension of the space and every task is put on a device of the
  slice.
\<close>

theorem machine_view_valid_iff_all_tasks_placed:
  assumes "wf_task_space ts" and "wf_machine_view mv"
  shows "is_valid_machine_view mv ts sl = Inr True \<longleftrightarrow>
    length (mv_dimensions mv) = length ts \<and>
    (\<forall>coord \<in> get_task_space_coordinates ts. \<exists>c. get_machine_space_coordinate ts mv coord = Inr c \<and>
       is_valid_machine_space_coordinate_in_slice sl c)"
proof -
  let ?max = "map (\<lambda>d. d - 1) ts"
  have "?max \<in> get_task_space_coordinates ts"
    using wf_task_spaceD(3) [OF assms(1)] by (auto simp: task_space_coords_eq list_all2_conv_all_nth)
  moreover have "\<exists>c. get_machine_space_coordinate ts mv xs = Inr c \<and> in_slice sl c"
    if "get_machine_space_coordinate ts mv ?max = Inr d" "in_slice sl d" "xs \<in> get_task_space_coordinates ts" for xs d
    using get_machine_space_coordinate_mono [OF assms that(1) below_maximum [of xs ts]] that(2,3)
    by (force simp: task_space_coords_eq in_slice_iff)
  ultimately show ?thesis by (auto simp: is_valid_machine_view_eq [OF assms])
qed

theorem machine_view_valid_iff_all_tasks_placed_witness:
  "\<exists>c. get_machine_space_coordinate [2, 3] (MachineView (MachineSpaceCoordinate 1 0)
      [MachineViewDimension 1 INTER_NODE, MachineViewDimension 2 INTRA_NODE]) [1, 1] = Inr c \<and>
    is_valid_machine_space_coordinate_in_slice (MachineComputeResourceSlice 3 5) c"
proof -
  let ?mv = "MachineView (MachineSpaceCoordinate 1 0)
    [MachineViewDimension 1 INTER_NODE, MachineViewDimension 2 INTRA_NODE]"
  have "wf_task_space [2, 3]" "wf_machine_view ?mv"
    by (simp_all add: wf_task_space_def wf_machine_view_def valid_ge_two_def INT_MAX_def)
  moreover have "is_valid_machine_view ?mv [2, 3] (MachineComputeResourceSlice 3 5) = Inr True" by code_simp
  moreover have "[1, 1] \<in> get_task_space_coordinates [2, 3]" by code_simp
  ultimately show ?thesis
    using machine_view_valid_iff_all_tasks_placed [of "[2, 3]" ?mv "MachineComputeResourceSlice 3 5"] by blast
qed

text \<open>
  Claim C29. A valid view puts different tasks on different devices: its coordinate mapping can be
  built, asking it for the task of a device inverts the placement, and the devices used are devices of
  the slice, as many as there are tasks.
\<close>

theorem machine_view_mapping_inverts_placement:
  assumes "wf_task_space ts" and "wf_machine_view mv" and "is_valid_machine_view mv ts sl = Inr True"
  shows "(mv_task_space_coord_for_machine_space_coord mv ts c = Inr coord \<longleftrightarrow>
      get_machine_space_coordinate ts mv coord = Inr c) \<and>
    (\<exists>devices. get_machine_space_coordinates ts mv = Inr devices \<and>
      card devices = card (get_task_space_coordinates ts) \<and>
      (\<forall>d \<in> devices. is_valid_machine_space_coordinate_in_slice sl d))"
proof
  have total: "\<forall>xs \<in> get_task_space_coordinates ts. \<exists>c. get_machine_space_coordinate ts mv xs = Inr c \<and> in_slice sl c"
  proof
    fix xs assume xs: "xs \<in> get_task_space_coordinates ts"
    obtain d where "get_machine_space_coordinate ts mv (map (\<lambda>d. d - 1) ts) = Inr d" "in_slice sl d"
      using assms(3) by (auto simp: is_valid_machine_view_eq [OF assms(1,2)])
    with xs show "\<exists>c. get_machine_space_coordinate ts mv xs = Inr c \<and> in_slice sl c"
      using get_machine_space_coordinate_mono [OF assms(1,2) _ below_maximum [of xs ts]]
      by (force simp: task_space_coords_eq in_slice_iff)
  qed
  then obtain b where b: "get_coordinate_mapping_for_machine_view ts mv = Inr (b, ts)" "wf_bidict b"
    "\<And>xs c. fwd_map b xs = Some c \<longleftrightarrow> get_machine_space_coordinate ts mv xs = Inr c"
    using get_coordinate_mapping_total [OF assms(1,2)] by blast
  then show "mv_task_space_coord_for_machine_space_coord mv ts c = Inr coord \<longleftrightarrow>
      get_machine_space_coordinate ts mv coord = Inr c"
    by (simp add: mv_task_space_coord_for_machine_space_coord_def flip: wf_bidictD)
  obtain f where f: "\<And>xs. xs \<in> get_task_space_coordinates ts \<Longrightarrow>
      get_machine_space_coordinate ts mv xs = Inr (f xs) \<and> in_slice sl (f xs)"
    using total by metis
  have "inj_on f (get_task_space_coordinates ts)"
    using get_machine_space_coordinate_inj [OF assms(1,2)] f by (metis inj_onI)
  moreover have "res_map (get_machine_space_coordinate ts mv) (sorted_list_of_set (get_task_space_coordinates ts)) =
      Inr (map f (sorted_list_of_set (get_task_space_coordinates ts)))"
    using f by (intro res_map_Inr_on) simp
  moreover have "length (mv_dimensions mv) = length ts"
    using assms(3) by (simp add: is_valid_machine_view_eq [OF assms(1,2)])
  ultimately show "\<exists>devices. get_machine_space_coordinates ts mv = Inr devices \<and>
      card devices = card (get_task_space_coordinates ts) \<and> (\<forall>d \<in> devices. in_slice sl d)"
    using f wf_task_spaceD(1) [OF assms(1)]
    by (auto simp: get_machine_space_coordinates_def op_task_space_num_dims_def minimal_orthotope_get_num_dims_def
        mv_get_expected_task_space_num_dims_def mv_get_strides_def num_elements_def nonnegative_int_from_size_def
        card_image)
qed

theorem machine_view_mapping_inverts_placement_witness:
  "mv_task_space_coord_for_machine_space_coord (MachineView (MachineSpaceCoordinate 1 0)
      [MachineViewDimension 1 INTER_NODE, MachineViewDimension 2 INTRA_NODE]) [2, 3]
      (MachineSpaceCoordinate 2 4) = Inr [1, 2]"
proof -
  let ?mv = "MachineView (MachineSpaceCoordinate 1 0)
    [MachineViewDimension 1 INTER_NODE, MachineViewDimension 2 INTRA_NODE]"
  have "wf_task_space [2, 3]" "wf_machine_view ?mv"
    by (simp_all add: wf_task_space_def wf_machine_view_def valid_ge_two_def INT_MAX_def)
  moreover have "is_valid_machine_view ?mv [2, 3] (MachineComputeResourceSlice 3 5) = Inr True"
    "get_machine_space_coordinate [2, 3] ?mv [1, 2] = Inr (MachineSpaceCoordinate 2 4)"
    by code_simp+
  ultimately show ?thesis
    using machine_view_mapping_inverts_placement [of "[2, 3]" ?mv "MachineComputeResourceSlice 3 5"] by blast
qed

text \<open>The views that are returned, and when they are.\<close>

lemma allowed_views_eq:
  assumes "wf_task_space ts" and "wf_slice sl" and "get_allowed_machine_views sl ts = Inr r"
  shows "\<exists>views. r = Some views \<and> finite views \<and>
    (\<forall>mv. mv \<in> views \<longleftrightarrow> mv \<in> candidate_views sl ts \<and> is_valid_machine_view mv ts sl = Inr True)"
proof -
  obtain o1 where o1: "get_candidate_machine_views sl ts = Inr o1"
    using assms(3) by (auto simp: get_allowed_machine_views_def)
  then obtain vs where vs: "o1 = Some vs" "set vs = candidate_views sl ts"
    using candidate_views_eq(1) [OF assms(1,2)] by blast
  with assms(3) o1 obtain ys where ys: "res_filter (\<lambda>mv. is_valid_machine_view mv ts sl) vs = Inr ys" "r = Some (set ys)"
    by (auto simp: get_allowed_machine_views_def)
  then show ?thesis unfolding vs(2) [symmetric] using res_filter_eq [OF ys(1)] by auto
qed

lemma allowed_views_return:
  assumes "wf_task_space ts" and "wf_slice sl"
    and room: "mcrs_num_nodes sl * mcrs_num_gpus_per_node sl +
      prod_list ts * max_stride ts (mcrs_num_nodes sl * mcrs_num_gpus_per_node sl) ^ length ts < INT_MAX"
  shows "\<exists>r. get_allowed_machine_views sl ts = Inr r"
proof -
  let ?n = "mcrs_num_nodes sl * mcrs_num_gpus_per_node sl"
  let ?b = "max_stride ts ?n" and ?k = "prod_list ts * max_stride ts ?n ^ length ts"
  have n: "0 < ?n" using assms(2) by (simp add: wf_slice_def valid_pos_def)
  have b: "0 < ?b" using max_stride_pos [OF n] .
  note ts = wf_task_spaceD [OF assms(1)]
  have "prod_list (map (\<lambda>d. d - 1) ts) \<le> prod_list ts" by (rule prod_list_pred_le)
  also have "prod_list ts \<le> ?k" using b by simp
  finally have "?n + prod_list (map (\<lambda>d. d - 1) ts) \<le> INT_MAX" using room by linarith
  moreover have "?b < INT_MAX"
  proof -
    have "?b \<le> ?n" using n by (rule max_stride_le)
    with room show ?thesis by linarith
  qed
  ultimately obtain vs where vs: "get_candidate_machine_views sl ts = Inr (Some vs)" "set vs = candidate_views sl ts"
    using candidate_views_eq [OF assms(1,2)] by blast
  have "\<exists>b. is_valid_machine_view mv ts sl = Inr b" if "mv \<in> set vs" for mv
  proof (rule is_valid_machine_view_total [OF assms(1), where k = ?k])
    from that have mv: "in_slice sl (mv_start mv)" "length (mv_dimensions mv) = length ts"
      "\<forall>m \<in> set (mv_dimensions mv). 0 < mvd_stride m \<and> mvd_stride m \<le> ?b"
      by (auto simp: vs(2) candidate_views_def)
    have le: "mcrs_num_nodes sl \<le> ?n" "mcrs_num_gpus_per_node sl \<le> ?n"
      using assms(2) by (simp_all add: wf_slice_def valid_pos_def)
    have "msc_node_idx (mv_start mv) \<le> INT_MAX" "msc_device_idx (mv_start mv) \<le> INT_MAX"
      using mv(1) le room unfolding in_slice_iff by linarith+
    with mv show "wf_machine_view mv" "length (mv_dimensions mv) = length ts"
      by (auto simp: wf_machine_view_def)
    show "extent p ts (mv_dimensions mv) \<le> ?k" for p
      using mv(2,3) b ts(3) by (intro extent_le) simp_all
    show "msc_node_idx (mv_start mv) + ?k \<le> INT_MAX" "msc_device_idx (mv_start mv) + ?k \<le> INT_MAX"
      using mv(1) le room unfolding in_slice_iff by linarith+
  qed
  then have "\<forall>mv \<in> set vs. \<exists>b. is_valid_machine_view mv ts sl = Inr b" ..
  from res_filter_total [OF this] obtain ys where "res_filter (\<lambda>mv. is_valid_machine_view mv ts sl) vs = Inr ys" ..
  then show ?thesis
    by (simp add: get_allowed_machine_views_def vs(1))
qed

text \<open>
  Claim C28. The enumeration of machine views is complete: whenever it returns, it returns exactly the
  valid views, so the bound on the strides loses none; and it returns when a grid of the greatest
  strides fits an \<open>int\<close>.
\<close>

theorem allowed_machine_views_complete:
  assumes "wf_task_space ts" and "wf_slice sl"
  shows "(get_allowed_machine_views sl ts = Inr r \<longrightarrow>
      (\<exists>views. r = Some views \<and>
        (\<forall>mv. wf_machine_view mv \<longrightarrow> (mv \<in> views \<longleftrightarrow> is_valid_machine_view mv ts sl = Inr True)))) \<and>
    (mcrs_num_nodes sl * mcrs_num_gpus_per_node sl +
        prod_list ts * max_stride ts (mcrs_num_nodes sl * mcrs_num_gpus_per_node sl) ^ length ts < INT_MAX \<longrightarrow>
      (\<exists>r. get_allowed_machine_views sl ts = Inr r))"
proof (intro conjI impI)
  assume "get_allowed_machine_views sl ts = Inr r"
  from allowed_views_eq [OF assms this] show "\<exists>views. r = Some views \<and>
      (\<forall>mv. wf_machine_view mv \<longrightarrow> (mv \<in> views \<longleftrightarrow> is_valid_machine_view mv ts sl = Inr True))"
    using valid_view_is_candidate [OF assms(1)] by blast
qed (rule allowed_views_return [OF assms])

theorem allowed_machine_views_complete_witness:
  "\<exists>views. get_allowed_machine_views (MachineComputeResourceSlice 2 3) [2] = Inr (Some views) \<and>
     MachineView (MachineSpaceCoordinate 1 0) [MachineViewDimension 2 INTRA_NODE] \<in> views"
proof -
  let ?mv = "MachineView (MachineSpaceCoordinate 1 0) [MachineViewDimension 2 INTRA_NODE]"
  let ?sl = "MachineComputeResourceSlice 2 3"
  have wf: "wf_task_space [2]" "wf_slice ?sl" "wf_machine_view ?mv"
    by (simp_all add: wf_task_space_def wf_slice_def wf_machine_view_def valid_ge_two_def valid_pos_def INT_MAX_def)
  have "is_valid_machine_view ?mv [2] ?sl = Inr True" by code_simp
  moreover obtain r where "get_allowed_machine_views ?sl [2] = Inr r"
    using allowed_machine_views_complete [OF wf(1,2), THEN conjunct2] by (auto simp: max_stride_def INT_MAX_def)
  ultimately show ?thesis
    using allowed_machine_views_complete [OF wf(1,2), of r] wf(3) by auto
qed

end
