(* ===== verification/Machine_Orders.thy ===== *)
theory Machine_Orders
  imports Machine_Views "HOL-Library.Product_Lexorder" "HOL-Library.List_Lexorder" "HOL-Library.Option_ord"
begin

text \<open>
  The order of the machine types. Their \<open>.dtg.toml\<close> files ask for the feature \<open>ord\<close>, an \<open>operator<\<close>
  that compares the fields in the order of the file; it decides the order in which the search iterates
  its \<open>std::set\<close>s and \<open>std::map\<close>s, and so which of several equally good mappings it returns. An
  \<open>enum class\<close> is ordered by its values, a \<open>std::vector\<close> lexicographically, and an empty
  \<open>std::optional\<close> is below all others.
\<close>

instantiation machine_specification_dimension :: linorder
begin

definition less_eq_machine_specification_dimension ::
    "machine_specification_dimension \<Rightarrow> machine_specification_dimension \<Rightarrow> bool" where
  "less_eq_machine_specification_dimension a b \<longleftrightarrow> a = INTER_NODE \<or> b = INTRA_NODE"

definition less_machine_specification_dimension ::
    "machine_specification_dimension \<Rightarrow> machine_specification_dimension \<Rightarrow> bool" where
  "less_machine_specification_dimension a b \<longleftrightarrow> a = INTER_NODE \<and> b = INTRA_NODE"

instance
proof
  fix x y z :: machine_specification_dimension
  note defs = less_eq_machine_specification_dimension_def less_machine_specification_dimension_def
  show "(x < y) = (x \<le> y \<and> \<not> y \<le> x)" by (cases x; cases y) (simp_all add: defs)
  show "x \<le> x" by (cases x) (simp_all add: defs)
  show "x \<le> y \<Longrightarrow> y \<le> z \<Longrightarrow> x \<le> z" by (cases x; cases y; cases z) (simp_all add: defs)
  show "x \<le> y \<Longrightarrow> y \<le> x \<Longrightarrow> x = y" by (cases x; cases y) (simp_all add: defs)
  show "x \<le> y \<or> y \<le> x" by (cases x; cases y) (simp_all add: defs)
qed

end

instantiation machine_space_coordinate_ext :: (linorder) linorder
begin

definition less_eq_machine_space_coordinate_ext :: "'a machine_space_coordinate_ext \<Rightarrow> 'a machine_space_coordinate_ext \<Rightarrow> bool" where
  "less_eq_machine_space_coordinate_ext x y \<longleftrightarrow>
     (msc_node_idx x, msc_device_idx x, machine_space_coordinate.more x) \<le>
     (msc_node_idx y, msc_device_idx y, machine_space_coordinate.more y)"

definition less_machine_space_coordinate_ext :: "'a machine_space_coordinate_ext \<Rightarrow> 'a machine_space_coordinate_ext \<Rightarrow> bool" where
  "less_machine_space_coordinate_ext x y \<longleftrightarrow> x \<le> y \<and> \<not> y \<le> x"

instance
  by standard (auto simp: less_eq_machine_space_coordinate_ext_def less_machine_space_coordinate_ext_def
      intro: machine_space_coordinate.equality)

end

instantiation machine_resource_split_ext :: (linorder) linorder
begin

definition less_eq_machine_resource_split_ext :: "'a machine_resource_split_ext \<Rightarrow> 'a machine_resource_split_ext \<Rightarrow> bool" where
  "less_eq_machine_resource_split_ext x y \<longleftrightarrow>
     (split_offset x, split_dimension x, machine_resource_split.more x) \<le>
     (split_offset y, split_dimension y, machine_resource_split.more y)"

definition less_machine_resource_split_ext :: "'a machine_resource_split_ext \<Rightarrow> 'a machine_resource_split_ext \<Rightarrow> bool" where
  "less_machine_resource_split_ext x y \<longleftrightarrow> x \<le> y \<and> \<not> y \<le> x"

instance
  by standard (auto simp: less_eq_machine_resource_split_ext_def less_machine_resource_split_ext_def
      intro: machine_resource_split.equality)

end

instantiation machine_view_dimension_ext :: (linorder) linorder
begin

definition less_eq_machine_view_dimension_ext :: "'a machine_view_dimension_ext \<Rightarrow> 'a machine_view_dimension_ext \<Rightarrow> bool" where
  "less_eq_machine_view_dimension_ext x y \<longleftrightarrow>
     (mvd_stride x, mvd_projection x, machine_view_dimension.more x) \<le>
     (mvd_stride y, mvd_projection y, machine_view_dimension.more y)"

definition less_machine_view_dimension_ext :: "'a machine_view_dimension_ext \<Rightarrow> 'a machine_view_dimension_ext \<Rightarrow> bool" where
  "less_machine_view_dimension_ext x y \<longleftrightarrow> x \<le> y \<and> \<not> y \<le> x"

instance
  by standard (auto simp: less_eq_machine_view_dimension_ext_def less_machine_view_dimension_ext_def
      intro: machine_view_dimension.equality)

end

instantiation machine_view_ext :: (linorder) linorder
begin

definition less_eq_machine_view_ext :: "'a machine_view_ext \<Rightarrow> 'a machine_view_ext \<Rightarrow> bool" where
  "less_eq_machine_view_ext x y \<longleftrightarrow>
     (mv_start x, mv_dimensions x, machine_view.more x) \<le>
     (mv_start y, mv_dimensions y, machine_view.more y)"

definition less_machine_view_ext :: "'a machine_view_ext \<Rightarrow> 'a machine_view_ext \<Rightarrow> bool" where
  "less_machine_view_ext x y \<longleftrightarrow> x \<le> y \<and> \<not> y \<le> x"

instance
  by standard (auto simp: less_eq_machine_view_ext_def less_machine_view_ext_def
      intro: machine_view.equality)

end

end
