(* ===== verification/Binary_Tree_Paths.thy ===== *)
theory Binary_Tree_Paths
  imports Machine_Orders
begin

text \<open>
  Paths in binary trees (\<open>full_binary_tree/binary_tree_path.cc\<close> of \<open>lib/utils\<close>) and the two kinds of
  maps from paths the machine mapping search passes around: the constraints of
  \<open>machine_mapping_constraints.cc\<close>, which may or may not fix the view of a layer, and the mappings of
  \<open>parallel_layer_guid_oblivious_machine_mapping.cc\<close>, which fix it. Both structs have one field and
  are their map. A path is the vector of its entries, ordered lexicographically as \<open>std::vector\<close> is.

  The lemmas describe these operations by two inverse views of a map from paths: \<open>child_map\<close>, the part
  below one child, and \<open>join_maps\<close>, which puts two such parts together.
\<close>

section \<open>Containers\<close>

text \<open>The entries of a \<open>std::map\<close>, in the order it is iterated.\<close>

definition map_entries :: "('k::linorder \<rightharpoonup> 'v) \<Rightarrow> ('k \<times> 'v) list" where
  "map_entries m = map (\<lambda>k. (k, the (m k))) (sorted_list_of_set (dom m))"

definition generate_map :: "'k list \<Rightarrow> ('k \<Rightarrow> 'v res) \<Rightarrow> ('k \<rightharpoonup> 'v) res" where
  "generate_map c f =
     res_bind (res_map (\<lambda>k. res_bind (f k) (\<lambda>v. Inr (k, v))) c) (\<lambda>transformed. Inr (map_of transformed))"

text \<open>\<open>insert\<close> keeps an existing entry, so in the loops below the first entry of a key wins.\<close>

definition map_keys :: "('k \<Rightarrow> 'k2) \<Rightarrow> ('k::linorder \<rightharpoonup> 'v) \<Rightarrow> ('k2 \<rightharpoonup> 'v) res" where
  "map_keys f m =
     (let result = map_of (map (\<lambda>kv. (f (fst kv), snd kv)) (map_entries m))
      in res_bind (ASSERT (card (dom m) = card (dom result))) (\<lambda>_. Inr result))"

definition filtermap_keys :: "('k \<Rightarrow> 'k2 option res) \<Rightarrow> ('k::linorder \<rightharpoonup> 'v) \<Rightarrow> ('k2 \<rightharpoonup> 'v) res" where
  "filtermap_keys f m =
     res_bind (res_map (\<lambda>(k, v). res_bind (f k) (\<lambda>new_k. Inr (map_option (\<lambda>k2. (k2, v)) new_k)))
       (map_entries m)) (\<lambda>kvs.
     Inr (map_of (List.map_filter id kvs)))"

definition filter_values :: "('v \<Rightarrow> bool) \<Rightarrow> ('k \<rightharpoonup> 'v) \<Rightarrow> ('k \<rightharpoonup> 'v)" where
  "filter_values f m = (\<lambda>k. case m k of None \<Rightarrow> None | Some v \<Rightarrow> if f v then Some v else None)"

definition filtermap_values :: "('v \<Rightarrow> 'w option) \<Rightarrow> ('k \<rightharpoonup> 'v) \<Rightarrow> ('k \<rightharpoonup> 'w)" where
  "filtermap_values f m = (\<lambda>k. case m k of None \<Rightarrow> None | Some v \<Rightarrow> f v)"

definition map_values :: "('v \<Rightarrow> 'w res) \<Rightarrow> ('k::linorder \<rightharpoonup> 'v) \<Rightarrow> ('k \<rightharpoonup> 'w) res" where
  "map_values f m =
     res_bind (res_map (\<lambda>(k, v). res_bind (f v) (\<lambda>w. Inr (k, w))) (map_entries m)) (\<lambda>kws. Inr (map_of kws))"

definition binary_merge_disjoint_maps :: "('k \<rightharpoonup> 'v) \<Rightarrow> ('k \<rightharpoonup> 'v) \<Rightarrow> ('k \<rightharpoonup> 'v) res" where
  "binary_merge_disjoint_maps lhs rhs =
     (let shared_keys = dom lhs \<inter> dom rhs
      in res_bind (ASSERT (shared_keys = {})) (\<lambda>_. Inr (lhs ++ rhs)))"

section \<open>Paths\<close>

datatype binary_tree_path_entry = LEFT_CHILD | RIGHT_CHILD

instantiation binary_tree_path_entry :: linorder
begin

definition less_eq_binary_tree_path_entry :: "binary_tree_path_entry \<Rightarrow> binary_tree_path_entry \<Rightarrow> bool" where
  "less_eq_binary_tree_path_entry a b \<longleftrightarrow> a = LEFT_CHILD \<or> b = RIGHT_CHILD"

definition less_binary_tree_path_entry :: "binary_tree_path_entry \<Rightarrow> binary_tree_path_entry \<Rightarrow> bool" where
  "less_binary_tree_path_entry a b \<longleftrightarrow> a = LEFT_CHILD \<and> b = RIGHT_CHILD"

instance
proof
  fix x y z :: binary_tree_path_entry
  show "(x < y) = (x \<le> y \<and> \<not> y \<le> x)"
    by (cases x; cases y) (simp_all add: less_eq_binary_tree_path_entry_def less_binary_tree_path_entry_def)
  show "x \<le> x" by (cases x) (simp_all add: less_eq_binary_tree_path_entry_def)
  show "x \<le> y \<Longrightarrow> y \<le> z \<Longrightarrow> x \<le> z" by (cases x; cases y; cases z) (simp_all add: less_eq_binary_tree_path_entry_def)
  show "x \<le> y \<Longrightarrow> y \<le> x \<Longrightarrow> x = y" by (cases x; cases y) (simp_all add: less_eq_binary_tree_path_entry_def)
  show "x \<le> y \<or> y \<le> x" by (cases x; cases y) (simp_all add: less_eq_binary_tree_path_entry_def)
qed

end

type_synonym binary_tree_path = "binary_tree_path_entry list"

definition binary_tree_root_path :: binary_tree_path where
  "binary_tree_root_path = []"

definition nest_inside_left_child :: "binary_tree_path \<Rightarrow> binary_tree_path" where
  "nest_inside_left_child p = LEFT_CHILD # p"

definition nest_inside_right_child :: "binary_tree_path \<Rightarrow> binary_tree_path" where
  "nest_inside_right_child p = RIGHT_CHILD # p"

definition binary_tree_path_get_top_level :: "binary_tree_path \<Rightarrow> binary_tree_path_entry res" where
  "binary_tree_path_get_top_level p = vector_at p 0"

definition binary_tree_path_get_non_top_level :: "binary_tree_path \<Rightarrow> binary_tree_path res" where
  "binary_tree_path_get_non_top_level p = slice p 1 None"

section \<open>Constraints\<close>

type_synonym machine_mapping_constraints = "binary_tree_path \<rightharpoonup> machine_view option"

type_synonym parallel_layer_guid_oblivious_machine_mapping = "binary_tree_path \<rightharpoonup> machine_view"

definition get_unconstrained_solution_for_layers :: "binary_tree_path set \<Rightarrow> machine_mapping_constraints" where
  "get_unconstrained_solution_for_layers layers = (\<lambda>p. if p \<in> layers then Some None else None)"

definition get_unconstrained_layers :: "machine_mapping_constraints \<Rightarrow> binary_tree_path set" where
  "get_unconstrained_layers constraints = dom (filter_values (\<lambda>mv. mv = None) constraints)"

definition get_constrained_layers :: "machine_mapping_constraints \<Rightarrow> binary_tree_path set" where
  "get_constrained_layers constraints = dom (filter_values (\<lambda>mv. mv \<noteq> None) constraints)"

definition get_all_layers :: "machine_mapping_constraints \<Rightarrow> binary_tree_path set" where
  "get_all_layers partial_solution = dom partial_solution"

definition get_machine_view_for_layer ::
    "machine_mapping_constraints \<Rightarrow> binary_tree_path \<Rightarrow> machine_view option res" where
  "get_machine_view_for_layer partial_solution layer = map_at partial_solution layer"

definition restrict_to_child ::
    "machine_mapping_constraints \<Rightarrow> binary_tree_path_entry \<Rightarrow> machine_mapping_constraints res" where
  "restrict_to_child constraints prefix =
     filtermap_keys (\<lambda>path.
       res_bind (binary_tree_path_get_top_level path) (\<lambda>head.
       if head = prefix
       then res_bind (binary_tree_path_get_non_top_level path) (\<lambda>rest. Inr (Some rest))
       else Inr None)) constraints"

definition restrict_to_left_child :: "machine_mapping_constraints \<Rightarrow> machine_mapping_constraints res" where
  "restrict_to_left_child c = restrict_to_child c LEFT_CHILD"

definition restrict_to_right_child :: "machine_mapping_constraints \<Rightarrow> machine_mapping_constraints res" where
  "restrict_to_right_child c = restrict_to_child c RIGHT_CHILD"

text \<open>The loop of \<open>with_additional_constraints\<close> over the entries of \<open>additional\<close>.\<close>

fun add_constraints ::
    "machine_mapping_constraints \<Rightarrow> (binary_tree_path \<times> machine_view) list \<Rightarrow>
     machine_mapping_constraints res" where
  "add_constraints result [] = Inr result"
| "add_constraints result ((layer, machine_view) # rest) =
     res_bind (map_at result layer) (\<lambda>current_machine_view.
     case current_machine_view of
       None \<Rightarrow> add_constraints (result(layer \<mapsto> Some machine_view)) rest
     | Some current \<Rightarrow> res_bind (ASSERT (current = machine_view)) (\<lambda>_. add_constraints result rest))"

definition with_additional_constraints ::
    "machine_mapping_constraints \<Rightarrow> parallel_layer_guid_oblivious_machine_mapping \<Rightarrow>
     machine_mapping_constraints res" where
  "with_additional_constraints constraints additional = add_constraints constraints (map_entries additional)"

definition require_only_root :: "machine_mapping_constraints \<Rightarrow> machine_view option res" where
  "require_only_root constraints =
     res_bind (ASSERT (dom constraints = {binary_tree_root_path})) (\<lambda>_.
     map_at constraints binary_tree_root_path)"

section \<open>Mappings\<close>

definition binary_combine_mappings ::
    "parallel_layer_guid_oblivious_machine_mapping \<Rightarrow> parallel_layer_guid_oblivious_machine_mapping \<Rightarrow>
     parallel_layer_guid_oblivious_machine_mapping res" where
  "binary_combine_mappings lhs rhs =
     res_bind (map_keys nest_inside_left_child lhs) (\<lambda>l.
     res_bind (map_keys nest_inside_right_child rhs) (\<lambda>r.
     binary_merge_disjoint_maps l r))"

definition get_machine_view_for_path ::
    "parallel_layer_guid_oblivious_machine_mapping \<Rightarrow> binary_tree_path \<Rightarrow> machine_view option" where
  "get_machine_view_for_path mapping path = mapping path"

definition offset_layer_oblivious_mapping_by ::
    "parallel_layer_guid_oblivious_machine_mapping \<Rightarrow> machine_resource_split \<Rightarrow>
     parallel_layer_guid_oblivious_machine_mapping res" where
  "offset_layer_oblivious_mapping_by mapping split = map_values (\<lambda>mv. offset_machine_view_by mv split) mapping"

section \<open>Lemmas\<close>

named_theorems path_ops \<open>what the operations on paths and maps from paths compute\<close>

definition child_map :: "binary_tree_path_entry \<Rightarrow> (binary_tree_path \<rightharpoonup> 'v) \<Rightarrow> (binary_tree_path \<rightharpoonup> 'v)" where
  "child_map e m = (\<lambda>p. m (e # p))"

definition join_maps :: "(binary_tree_path \<rightharpoonup> 'v) \<Rightarrow> (binary_tree_path \<rightharpoonup> 'v) \<Rightarrow> (binary_tree_path \<rightharpoonup> 'v)" where
  "join_maps l r = (\<lambda>p. case p of [] \<Rightarrow> None
     | e # q \<Rightarrow> (case e of LEFT_CHILD \<Rightarrow> l q | RIGHT_CHILD \<Rightarrow> r q))"

lemma child_map_simps [simp]:
  "child_map e m p = m (e # p)"
  by (simp add: child_map_def)

lemma join_maps_simps [simp]:
  "join_maps l r [] = None"
  "join_maps l r (LEFT_CHILD # p) = l p"
  "join_maps l r (RIGHT_CHILD # p) = r p"
  by (simp_all add: join_maps_def)

lemma child_join_maps [simp]:
  "child_map LEFT_CHILD (join_maps l r) = l"
  "child_map RIGHT_CHILD (join_maps l r) = r"
  by (rule ext, simp)+

lemma join_child_maps: "m [] = None \<Longrightarrow> join_maps (child_map LEFT_CHILD m) (child_map RIGHT_CHILD m) = m"
  by (rule ext) (auto simp: join_maps_def split: list.split binary_tree_path_entry.split)

lemma dom_join_maps: "dom (join_maps l r) = Cons LEFT_CHILD ` dom l \<union> Cons RIGHT_CHILD ` dom r"
proof (rule set_eqI)
  fix p show "p \<in> dom (join_maps l r) \<longleftrightarrow> p \<in> Cons LEFT_CHILD ` dom l \<union> Cons RIGHT_CHILD ` dom r"
    by (cases p; cases "hd p") (auto simp: domIff)
qed

lemma ran_join_maps: "ran (join_maps l r) = ran l \<union> ran r"
proof (rule set_eqI)
  fix v
  have "(\<exists>p. join_maps l r p = Some v) \<longleftrightarrow> (\<exists>p. l p = Some v) \<or> (\<exists>p. r p = Some v)"
  proof
    assume "\<exists>p. join_maps l r p = Some v"
    then obtain p where "join_maps l r p = Some v" by blast
    then show "(\<exists>p. l p = Some v) \<or> (\<exists>p. r p = Some v)" by (cases p; cases "hd p") auto
  next
    assume "(\<exists>p. l p = Some v) \<or> (\<exists>p. r p = Some v)"
    then show "\<exists>p. join_maps l r p = Some v" by (metis join_maps_simps(2,3))
  qed
  then show "v \<in> ran (join_maps l r) \<longleftrightarrow> v \<in> ran l \<union> ran r" by (simp add: ran_def)
qed

lemma mem_dom_child_map [simp]: "p \<in> dom (child_map e m) \<longleftrightarrow> e # p \<in> dom m"
  by (simp add: dom_def)

lemma finite_child_map [simp]: "finite (dom m) \<Longrightarrow> finite (dom (child_map e m))"
  by (rule finite_imageD [of "Cons e"]) (auto intro: finite_subset [of _ "dom m"])

lemma finite_join_maps [simp]: "finite (dom (join_maps l r)) \<longleftrightarrow> finite (dom l) \<and> finite (dom r)"
  by (auto simp: dom_join_maps finite_image_iff)

lemma set_map_entries: "finite (dom m) \<Longrightarrow> set (map_entries m) = {(k, v). m k = Some v}"
  by (force simp: map_entries_def)

lemma map_entries_keys: "map fst (map_entries m) = sorted_list_of_set (dom m)"
  by (simp add: map_entries_def comp_def)

lemma distinct_map_entries_keys: "distinct (map fst (map_entries m))"
  by (simp add: map_entries_keys)

lemma map_of_map_entries: "finite (dom m) \<Longrightarrow> map_of (map_entries m) = m"
  by (rule ext) (auto simp: map_entries_def map_of_map_restrict restrict_map_def domIff)

lemma map_of_map_keys_inj:
  assumes "inj f" and "distinct (map fst xs)"
  shows "map_of (map (\<lambda>kv. (f (fst kv), snd kv)) xs) (f k) = map_of xs k"
  using assms by (induction xs) (auto simp: inj_eq)

lemma map_of_map_keys_dom: "dom (map_of (map (\<lambda>kv. (f (fst kv), snd kv)) xs)) = f ` fst ` set xs"
  by (simp add: dom_map_of_conv_image_fst image_image)

lemma map_keys_eq:
  assumes "finite (dom m)" and "inj f"
  shows "map_keys f m = Inr (\<lambda>k2. if k2 \<in> range f then m (inv f k2) else None)"
proof -
  let ?r = "map_of (map (\<lambda>kv. (f (fst kv), snd kv)) (map_entries m))"
  have keys: "fst ` set (map_entries m) = dom m"
    by (simp add: map_entries_keys assms(1) flip: set_map)
  have dom: "dom ?r = f ` dom m"
    by (simp only: map_of_map_keys_dom keys)
  have "?r = (\<lambda>k2. if k2 \<in> range f then m (inv f k2) else None)"
  proof
    fix k2
    show "?r k2 = (if k2 \<in> range f then m (inv f k2) else None)"
    proof (cases "k2 \<in> range f")
      case True
      then obtain k where k: "k2 = f k" by blast
      show ?thesis
        using map_of_map_keys_inj [OF assms(2) distinct_map_entries_keys, of m k]
        by (simp add: k map_of_map_entries assms)
    next
      case False
      then have "k2 \<notin> dom ?r" by (auto simp: dom)
      then show ?thesis using False by (simp add: domIff)
    qed
  qed
  then show ?thesis
    by (simp add: map_keys_def dom card_image inj_on_subset [OF assms(2)] del: map_of_map)
      (metis (no_types, lifting) card_image dom assms(2) inj_on_subset subset_UNIV)
qed

lemma res_map_pairs:
  assumes "\<And>k v. (k, v) \<in> set kvs \<Longrightarrow> f v = Inr (g v)"
  shows "res_map (\<lambda>(k, v). res_bind (f v) (\<lambda>w. Inr (k, w))) kvs = Inr (map (\<lambda>(k, v). (k, g v)) kvs)"
  by (rule res_map_Inr_on) (auto simp: assms)

lemma map_of_graph: "map_of (map (\<lambda>k. (k, g k)) ks) = (\<lambda>k. if k \<in> set ks then Some (g k) else None)"
  by (rule ext) (simp add: map_of_map_restrict restrict_map_def)

lemma generate_map_eq:
  "(\<And>k. k \<in> set ks \<Longrightarrow> f k = Inr (g k)) \<Longrightarrow>
     generate_map ks f = Inr (\<lambda>k. if k \<in> set ks then Some (g k) else None)"
  by (simp add: generate_map_def res_map_Inr_on [where g = "\<lambda>k. (k, g k)"] map_of_graph)

lemma generate_map_ok: "generate_map ks f = Inr m \<Longrightarrow> k \<in> set ks \<Longrightarrow> \<exists>v. f k = Inr v"
  by (auto simp: generate_map_def res_map_eq_Inr list_all2_conv_all_nth in_set_conv_nth)

lemma map_values_eq:
  assumes "finite (dom m)" and "\<And>v. v \<in> ran m \<Longrightarrow> f v = Inr (g v)"
  shows "map_values f m = Inr (map_option g \<circ> m)"
proof -
  have "res_map (\<lambda>(k, v). res_bind (f v) (\<lambda>w. Inr (k, w))) (map_entries m) =
      Inr (map (\<lambda>(k, v). (k, g v)) (map_entries m))"
    by (rule res_map_pairs) (auto simp: set_map_entries assms(1) intro!: assms(2) ranI)
  moreover have "map_of (map (\<lambda>(k, v). (k, g v)) (map_entries m)) = map_option g \<circ> m"
    using map_of_map [of g "map_entries m"] by (simp add: map_of_map_entries assms(1))
  ultimately show ?thesis by (simp add: map_values_def)
qed

lemma map_values_Inr:
  assumes "finite (dom m)" and "map_values f m = Inr m'"
  shows "\<exists>g. (\<forall>v \<in> ran m. f v = Inr (g v)) \<and> m' = map_option g \<circ> m"
proof -
  have ok: "\<exists>w. f v = Inr w" if "m k = Some v" for k v
  proof -
    have "(k, v) \<in> set (map_entries m)" using that by (simp add: set_map_entries assms(1))
    then show ?thesis
      using assms(2) by (fastforce simp: map_values_def res_map_eq_Inr list_all2_conv_all_nth in_set_conv_nth)
  qed
  define g where "g v = (case f v of Inr w \<Rightarrow> w | Inl _ \<Rightarrow> undefined)" for v
  have g: "f v = Inr (g v)" if "v \<in> ran m" for v
    using ok that by (fastforce simp: ran_def g_def)
  then have "map_values f m = Inr (map_option g \<circ> m)" by (rule map_values_eq [OF assms(1)])
  then show ?thesis using g assms(2) by auto
qed

lemma map_keys_nest [path_ops]:
  assumes "finite (dom m)"
  shows "map_keys nest_inside_left_child m = Inr (join_maps m Map.empty)"
    and "map_keys nest_inside_right_child m = Inr (join_maps Map.empty m)"
proof -
  have nest: "map_keys (Cons e) m = Inr (\<lambda>p. case p of [] \<Rightarrow> None | e' # q \<Rightarrow> if e' = e then m q else None)" for e
  proof -
    have inj: "inj (Cons e)" by (simp add: inj_def)
    have "(\<lambda>p. if p \<in> range (Cons e) then m (inv (Cons e) p) else None) =
        (\<lambda>p. case p of [] \<Rightarrow> None | e' # q \<Rightarrow> if e' = e then m q else None)"
      by (rule ext) (auto simp: inv_f_f [OF inj] split: list.split)
    then show ?thesis by (simp only: map_keys_eq [OF assms inj])
  qed
  show "map_keys nest_inside_left_child m = Inr (join_maps m Map.empty)"
    using nest [of LEFT_CHILD]
    by (simp add: nest_inside_left_child_def [abs_def] join_maps_def fun_eq_iff
        split: list.split binary_tree_path_entry.split)
  show "map_keys nest_inside_right_child m = Inr (join_maps Map.empty m)"
    using nest [of RIGHT_CHILD]
    by (simp add: nest_inside_right_child_def [abs_def] join_maps_def fun_eq_iff
        split: list.split binary_tree_path_entry.split)
qed

lemma binary_merge_join [path_ops]:
  "binary_merge_disjoint_maps (join_maps l Map.empty) (join_maps Map.empty r) = Inr (join_maps l r)"
proof -
  have "join_maps l Map.empty ++ join_maps Map.empty r = join_maps l r"
    by (rule ext) (auto simp: join_maps_def map_add_def split: list.split binary_tree_path_entry.split option.split)
  moreover have "dom (join_maps l Map.empty) \<inter> dom (join_maps Map.empty r) = {}"
    by (auto simp: dom_join_maps)
  ultimately show ?thesis by (simp add: binary_merge_disjoint_maps_def)
qed

lemma binary_combine_mappings_eq [path_ops]:
  "finite (dom l) \<Longrightarrow> finite (dom r) \<Longrightarrow> binary_combine_mappings l r = Inr (join_maps l r)"
  by (simp add: binary_combine_mappings_def path_ops)

lemma slice_tail [simp]: "binary_tree_path_get_non_top_level (e # p) = Inr p"
  using slice_nat_None [of "e # p" 1] by (simp add: binary_tree_path_get_non_top_level_def)

lemma top_level_simps [simp]:
  "binary_tree_path_get_top_level [] = Inl Out_of_range"
  "binary_tree_path_get_top_level (e # p) = Inr e"
  by (simp_all add: binary_tree_path_get_top_level_def vector_at_def)

lemma map_of_children:
  assumes "[] \<notin> fst ` set kvs"
  shows "map_of (List.map_filter (\<lambda>(p, v). if hd p = e then Some (tl p, v) else None) kvs) p =
      map_of kvs (e # p)"
  using assms
proof (induction kvs)
  case (Cons kv kvs)
  then show ?case by (cases kv; cases "fst kv") (auto simp: List.map_filter_simps)
qed (simp add: List.map_filter_simps)

lemma restrict_to_child_eq [path_ops]:
  assumes "finite (dom c)" and "c [] = None"
  shows "restrict_to_child c e = Inr (child_map e c)"
proof -
  let ?g = "\<lambda>(p, v). if hd p = e then Some (tl p, v) else None"
  have root: "[] \<notin> fst ` set (map_entries c)"
    by (auto simp: set_map_entries assms)
  have "res_map (\<lambda>(k, v). res_bind (res_bind (binary_tree_path_get_top_level k) (\<lambda>head.
         if head = e then res_bind (binary_tree_path_get_non_top_level k) (\<lambda>rest. Inr (Some rest)) else Inr None))
       (\<lambda>new_k. Inr (map_option (\<lambda>k2. (k2, v)) new_k))) (map_entries c) = Inr (map ?g (map_entries c))"
  proof (rule res_map_Inr_on)
    fix kv assume "kv \<in> set (map_entries c)"
    with root obtain e' p v where "kv = (e' # p, v)"
      by (metis image_eqI neq_Nil_conv prod.collapse)
    then show "(case kv of (k, v) \<Rightarrow> res_bind (res_bind (binary_tree_path_get_top_level k) (\<lambda>head.
         if head = e then res_bind (binary_tree_path_get_non_top_level k) (\<lambda>rest. Inr (Some rest)) else Inr None))
       (\<lambda>new_k. Inr (map_option (\<lambda>k2. (k2, v)) new_k))) = Inr (?g kv)" by simp
  qed
  moreover have "List.map_filter id (map ?g kvs) = List.map_filter ?g kvs" for kvs :: "(binary_tree_path \<times> machine_view option) list"
    by (induction kvs) (auto simp: List.map_filter_simps)
  ultimately have "restrict_to_child c e = Inr (map_of (List.map_filter ?g (map_entries c)))"
    by (simp add: restrict_to_child_def filtermap_keys_def)
  then show ?thesis
    using map_of_children [OF root, of e] by (simp add: child_map_def map_of_map_entries assms fun_eq_iff)
qed

lemmas restrict_to_children_eq [path_ops] =
  restrict_to_child_eq [of _ LEFT_CHILD, folded restrict_to_left_child_def]
  restrict_to_child_eq [of _ RIGHT_CHILD, folded restrict_to_right_child_def]

text \<open>Adding constraints succeeds exactly when every new view is for a layer that has none or this one.\<close>

definition constrain ::
    "machine_mapping_constraints \<Rightarrow> parallel_layer_guid_oblivious_machine_mapping \<Rightarrow> machine_mapping_constraints" where
  "constrain c a = (\<lambda>p. case a p of None \<Rightarrow> c p | Some mv \<Rightarrow> Some (Some mv))"

lemma add_constraints_eq:
  "distinct (map fst kvs) \<Longrightarrow>
     add_constraints c kvs = Inr c' \<longleftrightarrow>
       (\<forall>(p, mv) \<in> set kvs. c p = Some None \<or> c p = Some (Some mv)) \<and> c' = constrain c (map_of kvs)"
proof (induction kvs arbitrary: c)
  case Nil
  then show ?case by (auto simp: constrain_def)
next
  case (Cons kv kvs)
  obtain p mv where kv: "kv = (p, mv)" by (cases kv)
  have fresh: "p \<notin> fst ` set kvs" using Cons.prems by (simp add: kv)
  then have none: "map_of kvs p = None" by (simp add: map_of_eq_None_iff)
  have same: "(\<forall>(q, w) \<in> set kvs. (c(p \<mapsto> v)) q = Some None \<or> (c(p \<mapsto> v)) q = Some (Some w)) \<longleftrightarrow>
      (\<forall>(q, w) \<in> set kvs. c q = Some None \<or> c q = Some (Some w))" for v
    using fresh by (intro ball_cong refl) force
  have upd: "constrain (c(p \<mapsto> Some mv)) (map_of kvs) = constrain c ((map_of kvs)(p \<mapsto> mv))"
    by (rule ext) (auto simp: constrain_def none split: option.split)
  have keep: "c p = Some (Some mv) \<Longrightarrow> constrain c (map_of kvs) = constrain c ((map_of kvs)(p \<mapsto> mv))"
    by (rule ext) (simp add: constrain_def none)
  from Cons have IH: "add_constraints d kvs = Inr c' \<longleftrightarrow>
      (\<forall>(q, w) \<in> set kvs. d q = Some None \<or> d q = Some (Some w)) \<and> c' = constrain d (map_of kvs)" for d
    by simp
  have split: "(\<forall>(q, w) \<in> set (kv # kvs). c q = Some None \<or> c q = Some (Some w)) \<longleftrightarrow>
      (c p = Some None \<or> c p = Some (Some mv)) \<and>
      (\<forall>(q, w) \<in> set kvs. c q = Some None \<or> c q = Some (Some w))"
    by (simp add: kv)
  have map: "map_of (kv # kvs) = (map_of kvs)(p \<mapsto> mv)" by (simp add: kv fun_upd_def)
  consider (none) "c p = None" | (free) "c p = Some None" | (fixed) mv' where "c p = Some (Some mv')"
    by (metis not_None_eq)
  then show ?case
  proof cases
    case none
    then show ?thesis by (simp only: split) (simp add: kv map_at_def)
  next
    case free
    then have "add_constraints c (kv # kvs) = add_constraints (c(p \<mapsto> Some mv)) kvs"
      by (simp add: kv map_at_def)
    then show ?thesis using free by (simp only: split map IH same upd) (simp add: fun_upd_def)
  next
    case fixed
    show ?thesis
    proof (cases "mv' = mv")
      case True
      then have "add_constraints c (kv # kvs) = add_constraints c kvs" and "c p = Some (Some mv)"
        using fixed by (simp_all add: kv map_at_def)
      then show ?thesis by (simp only: split map IH keep) (simp add: fun_upd_def)
    next
      case False
      then show ?thesis using fixed by (simp only: split) (simp add: kv map_at_def)
    qed
  qed
qed

lemma with_additional_constraints_eq [path_ops]:
  assumes "finite (dom a)"
  shows "with_additional_constraints c a = Inr c' \<longleftrightarrow>
      (\<forall>p mv. a p = Some mv \<longrightarrow> c p = Some None \<or> c p = Some (Some mv)) \<and> c' = constrain c a"
  by (auto simp: with_additional_constraints_def add_constraints_eq [OF distinct_map_entries_keys]
      map_of_map_entries set_map_entries assms)

lemma dom_constrain [simp]: "dom (constrain c a) = dom c \<union> dom a"
  by (auto simp: constrain_def dom_def split: option.splits)

lemma require_only_root_eq [path_ops]:
  "require_only_root c = Inr v \<longleftrightarrow> dom c = {[]} \<and> c [] = Some v"
  by (auto simp: require_only_root_def binary_tree_root_path_def map_at_def split: option.splits)

lemma get_layers_eq [path_ops]:
  "get_constrained_layers c = {p. \<exists>mv. c p = Some (Some mv)}"
  "get_unconstrained_layers c = {p. c p = Some None}"
  "get_all_layers c = dom c"
  by (auto simp: get_constrained_layers_def get_unconstrained_layers_def get_all_layers_def
      filter_values_def dom_def split: option.splits)

end
