(* ===== verification/Tensor_Movement.thy ===== *)
theory Tensor_Movement
  imports Binary_Tree_Paths Shape_Inference
begin

text \<open>
  The problem trees of the machine mapping search and the tensor movement across their series splits:
  \<open>machine_mapping_problem_tree\<close>, \<open>abstracted_tensor_set_movement\<close> and \<open>machine_space_stencil\<close> of
  \<open>lib/compiler/src/compiler/machine_mapping\<close>, the \<open>TensorSetMovement\<close> and \<open>CommunicationEdge\<close> of
  \<open>compiler/cost_estimator\<close>, and the walks over full binary trees of \<open>lib/utils\<close> they use.

  An \<open>AbstractedTensorSetMovement\<close> is the list of the elements of its \<open>std::set\<close> in the order it is
  iterated; a \<open>TensorSetMovement\<close> is its map. The lemmas show which stencils a mapping gives and that
  concretising a movement drops exactly the edges within a device.
\<close>

section \<open>Edges\<close>

text \<open>A \<open>CommunicationEdge\<close>; its constructor asserts that the ends are different.\<close>

record communication_edge =
  ce_src :: machine_space_coordinate
  ce_dst :: machine_space_coordinate

definition mk_communication_edge ::
    "machine_space_coordinate \<Rightarrow> machine_space_coordinate \<Rightarrow> communication_edge res" where
  "mk_communication_edge src dst =
     res_bind (ASSERT (src \<noteq> dst)) (\<lambda>_. Inr \<lparr> ce_src = src, ce_dst = dst \<rparr>)"

record abstracted_device =
  ad_operator_tree_path :: binary_tree_path
  ad_task_space_coordinate :: task_space_coordinate

record abstracted_single_tensor_communication_edge =
  astce_src_coord :: task_space_coordinate
  astce_dst :: abstracted_device

text \<open>These are keys of maps, ordered field by field.\<close>

instantiation communication_edge_ext :: (linorder) linorder
begin

definition less_eq_communication_edge_ext :: "'a communication_edge_ext \<Rightarrow> 'a communication_edge_ext \<Rightarrow> bool" where
  "less_eq_communication_edge_ext x y \<longleftrightarrow>
     (ce_src x, ce_dst x, communication_edge.more x) \<le>
     (ce_src y, ce_dst y, communication_edge.more y)"

definition less_communication_edge_ext :: "'a communication_edge_ext \<Rightarrow> 'a communication_edge_ext \<Rightarrow> bool" where
  "less_communication_edge_ext x y \<longleftrightarrow> x \<le> y \<and> \<not> y \<le> x"

instance
  by standard (auto simp: less_eq_communication_edge_ext_def less_communication_edge_ext_def
      intro: communication_edge.equality)

end

instantiation abstracted_device_ext :: (linorder) linorder
begin

definition less_eq_abstracted_device_ext :: "'a abstracted_device_ext \<Rightarrow> 'a abstracted_device_ext \<Rightarrow> bool" where
  "less_eq_abstracted_device_ext x y \<longleftrightarrow>
     (ad_operator_tree_path x, ad_task_space_coordinate x, abstracted_device.more x) \<le>
     (ad_operator_tree_path y, ad_task_space_coordinate y, abstracted_device.more y)"

definition less_abstracted_device_ext :: "'a abstracted_device_ext \<Rightarrow> 'a abstracted_device_ext \<Rightarrow> bool" where
  "less_abstracted_device_ext x y \<longleftrightarrow> x \<le> y \<and> \<not> y \<le> x"

instance
  by standard (auto simp: less_eq_abstracted_device_ext_def less_abstracted_device_ext_def
      intro: abstracted_device.equality)

end

instantiation abstracted_single_tensor_communication_edge_ext :: (linorder) linorder
begin

definition less_eq_abstracted_single_tensor_communication_edge_ext :: "'a abstracted_single_tensor_communication_edge_ext \<Rightarrow> 'a abstracted_single_tensor_communication_edge_ext \<Rightarrow> bool" where
  "less_eq_abstracted_single_tensor_communication_edge_ext x y \<longleftrightarrow>
     (astce_src_coord x, astce_dst x, abstracted_single_tensor_communication_edge.more x) \<le>
     (astce_src_coord y, astce_dst y, abstracted_single_tensor_communication_edge.more y)"

definition less_abstracted_single_tensor_communication_edge_ext :: "'a abstracted_single_tensor_communication_edge_ext \<Rightarrow> 'a abstracted_single_tensor_communication_edge_ext \<Rightarrow> bool" where
  "less_abstracted_single_tensor_communication_edge_ext x y \<longleftrightarrow> x \<le> y \<and> \<not> y \<le> x"

instance
  by standard (auto simp: less_eq_abstracted_single_tensor_communication_edge_ext_def less_abstracted_single_tensor_communication_edge_ext_def
      intro: abstracted_single_tensor_communication_edge.equality)

end

section \<open>Movements and problem trees\<close>

type_synonym num_bytes_t = nonnegative_int

record abstracted_single_tensor_communication =
  astc_edge :: abstracted_single_tensor_communication_edge
  astc_size :: num_bytes_t

record abstracted_single_tensor_movement =
  astm_src_op_tree_path :: binary_tree_path
  astm_edge_to_size :: "abstracted_single_tensor_communication_edge \<rightharpoonup> num_bytes_t"

type_synonym abstracted_tensor_set_movement = "abstracted_single_tensor_movement list"

type_synonym tensor_set_movement = "communication_edge \<rightharpoonup> num_bytes_t"

record machine_space_stencil =
  mss_operator_task_space :: operator_task_space
  mss_machine_view :: machine_view

record unmapped_runtime_only_op_cost_estimate_key =
  uk_op_attrs :: pcg_operator_attrs
  uk_input_shapes :: "parallel_tensor_shape slots"
  uk_weight_shapes :: "parallel_tensor_shape slots"
  uk_output_shapes :: "parallel_tensor_shape slots"

record runtime_only_op_cost_estimate_key =
  rk_op_attrs :: pcg_operator_attrs
  rk_input_shapes :: "parallel_tensor_shape slots"
  rk_weight_shapes :: "parallel_tensor_shape slots"
  rk_output_shapes :: "parallel_tensor_shape slots"
  rk_machine_view :: machine_view

datatype machine_mapping_problem_tree =
    MM_series abstracted_tensor_set_movement machine_mapping_problem_tree machine_mapping_problem_tree
  | MM_parallel machine_mapping_problem_tree machine_mapping_problem_tree
  | MM_leaf unmapped_runtime_only_op_cost_estimate_key

datatype sp_decomposition_tree_node_type = SERIES | PARALLEL | NODE

fun get_node_type :: "machine_mapping_problem_tree \<Rightarrow> sp_decomposition_tree_node_type" where
  "get_node_type (MM_series _ _ _) = SERIES"
| "get_node_type (MM_parallel _ _) = PARALLEL"
| "get_node_type (MM_leaf _) = NODE"

definition map_unmapped_runtime_only_op_cost_estimate_key ::
    "unmapped_runtime_only_op_cost_estimate_key \<Rightarrow> machine_view \<Rightarrow> runtime_only_op_cost_estimate_key" where
  "map_unmapped_runtime_only_op_cost_estimate_key unmapped machine_view =
     \<lparr> rk_op_attrs = uk_op_attrs unmapped, rk_input_shapes = uk_input_shapes unmapped,
       rk_weight_shapes = uk_weight_shapes unmapped, rk_output_shapes = uk_output_shapes unmapped,
       rk_machine_view = machine_view \<rparr>"

section \<open>Walks over problem trees\<close>

text \<open>The visitors of \<open>full_binary_tree\<close> see both kinds of splits as parents.\<close>

fun get_all_leaf_paths :: "machine_mapping_problem_tree \<Rightarrow> binary_tree_path set" where
  "get_all_leaf_paths (MM_series _ l r) =
     nest_inside_left_child ` get_all_leaf_paths l \<union> nest_inside_right_child ` get_all_leaf_paths r"
| "get_all_leaf_paths (MM_parallel l r) =
     nest_inside_left_child ` get_all_leaf_paths l \<union> nest_inside_right_child ` get_all_leaf_paths r"
| "get_all_leaf_paths (MM_leaf _) = {binary_tree_root_path}"

fun mm_problem_tree_get_subtree_at_path ::
    "machine_mapping_problem_tree \<Rightarrow> binary_tree_path \<Rightarrow> machine_mapping_problem_tree option" where
  "mm_problem_tree_get_subtree_at_path tree [] = Some tree"
| "mm_problem_tree_get_subtree_at_path (MM_series _ l r) (entry # rest) =
     mm_problem_tree_get_subtree_at_path (case entry of LEFT_CHILD \<Rightarrow> l | RIGHT_CHILD \<Rightarrow> r) rest"
| "mm_problem_tree_get_subtree_at_path (MM_parallel l r) (entry # rest) =
     mm_problem_tree_get_subtree_at_path (case entry of LEFT_CHILD \<Rightarrow> l | RIGHT_CHILD \<Rightarrow> r) rest"
| "mm_problem_tree_get_subtree_at_path (MM_leaf _) (entry # rest) = None"

definition merge_leaf_maps ::
    "(binary_tree_path \<rightharpoonup> 'leaf) res \<Rightarrow> (binary_tree_path \<rightharpoonup> 'leaf) res \<Rightarrow> (binary_tree_path \<rightharpoonup> 'leaf) res" where
  "merge_leaf_maps left right =
     res_bind (res_bind left (map_keys nest_inside_left_child)) (\<lambda>left_map.
     res_bind (res_bind right (map_keys nest_inside_right_child)) (\<lambda>right_map.
     binary_merge_disjoint_maps left_map right_map))"

fun mm_problem_tree_get_path_to_leaf_map ::
    "machine_mapping_problem_tree \<Rightarrow> (binary_tree_path \<rightharpoonup> unmapped_runtime_only_op_cost_estimate_key) res" where
  "mm_problem_tree_get_path_to_leaf_map (MM_series _ l r) =
     merge_leaf_maps (mm_problem_tree_get_path_to_leaf_map l) (mm_problem_tree_get_path_to_leaf_map r)"
| "mm_problem_tree_get_path_to_leaf_map (MM_parallel l r) =
     merge_leaf_maps (mm_problem_tree_get_path_to_leaf_map l) (mm_problem_tree_get_path_to_leaf_map r)"
| "mm_problem_tree_get_path_to_leaf_map (MM_leaf leaf) = Inr [binary_tree_root_path \<mapsto> leaf]"

section \<open>Stencils\<close>

text \<open>\<open>.value()\<close> and \<open>assert_unwrap\<close> of an \<open>std::optional\<close>.\<close>

definition optional_value :: "'a option \<Rightarrow> 'a res" where
  "optional_value x = (case x of None \<Rightarrow> Inl Bad_optional_access | Some v \<Rightarrow> Inr v)"

definition assert_unwrap :: "'a option \<Rightarrow> 'a res" where
  "assert_unwrap x = (case x of None \<Rightarrow> Inl Assertion_failed | Some v \<Rightarrow> Inr v)"

definition get_operator_task_space_for_runtime_only_op_cost_estimate_key ::
    "unmapped_runtime_only_op_cost_estimate_key \<Rightarrow> operator_task_space res" where
  "get_operator_task_space_for_runtime_only_op_cost_estimate_key unmapped =
     res_bind (assert_unwrap (compgraph_op_attrs_from_pcg_op_attrs (uk_op_attrs unmapped))) (\<lambda>op_attrs.
     get_operator_task_space op_attrs (map_option get_parallel_degrees \<circ> uk_input_shapes unmapped))"

text \<open>The function \<open>get_machine_stencils_for_mm_problem_tree\<close> generates its map with.\<close>

definition machine_stencil_for_path ::
    "(binary_tree_path \<rightharpoonup> unmapped_runtime_only_op_cost_estimate_key) \<Rightarrow>
     parallel_layer_guid_oblivious_machine_mapping \<Rightarrow> binary_tree_path \<Rightarrow> machine_space_stencil option res" where
  "machine_stencil_for_path tree_leaf_map mapping p =
     (if mapping p = None then Inr None
      else res_bind (map_at tree_leaf_map p) (\<lambda>leaf.
           res_bind (optional_value (compgraph_op_attrs_from_pcg_op_attrs (uk_op_attrs leaf))) (\<lambda>leaf_op_attrs.
           let leaf_input_degrees = map_option get_parallel_degrees \<circ> uk_input_shapes leaf in
           res_bind (get_operator_task_space leaf_op_attrs leaf_input_degrees) (\<lambda>task_space.
           res_bind (map_at mapping p) (\<lambda>machine_view.
           Inr (Some \<lparr> mss_operator_task_space = task_space, mss_machine_view = machine_view \<rparr>))))))"

definition get_machine_stencils_for_mm_problem_tree ::
    "machine_mapping_problem_tree \<Rightarrow> parallel_layer_guid_oblivious_machine_mapping \<Rightarrow>
     (binary_tree_path \<rightharpoonup> machine_space_stencil option) res" where
  "get_machine_stencils_for_mm_problem_tree tree mapping =
     res_bind (mm_problem_tree_get_path_to_leaf_map tree) (\<lambda>tree_leaf_map.
     res_bind (ASSERT (dom mapping \<subseteq> dom tree_leaf_map)) (\<lambda>_.
     generate_map (sorted_list_of_set (dom tree_leaf_map)) (machine_stencil_for_path tree_leaf_map mapping)))"

definition get_machine_stencils_for_partially_mapped_mm_problem_tree ::
    "machine_mapping_problem_tree \<Rightarrow> parallel_layer_guid_oblivious_machine_mapping \<Rightarrow>
     (binary_tree_path \<rightharpoonup> machine_space_stencil) res" where
  "get_machine_stencils_for_partially_mapped_mm_problem_tree tree mappings =
     res_bind (get_machine_stencils_for_mm_problem_tree tree mappings) (\<lambda>stencils.
     Inr (filtermap_values (\<lambda>s. s) stencils))"

definition machine_space_stencil_compute_machine_coord ::
    "machine_space_stencil \<Rightarrow> task_space_coordinate \<Rightarrow> machine_space_coordinate res" where
  "machine_space_stencil_compute_machine_coord stencil task_space_coordinate =
     get_machine_space_coordinate (mss_operator_task_space stencil) (mss_machine_view stencil)
       task_space_coordinate"

section \<open>Movements\<close>

text \<open>
  \<open>map_keys_with_value_merging\<close> runs over the entries in order and merges the values whose keys become
  the same.
\<close>

fun map_keys_with_value_merging ::
    "('k \<Rightarrow> 'k2 res) \<Rightarrow> ('v \<Rightarrow> 'v \<Rightarrow> 'v res) \<Rightarrow> ('k2 \<rightharpoonup> 'v) \<Rightarrow> ('k \<times> 'v) list \<Rightarrow> ('k2 \<rightharpoonup> 'v) res" where
  "map_keys_with_value_merging key_func merge_values result [] = Inr result"
| "map_keys_with_value_merging key_func merge_values result ((k, v) # kvs) =
     res_bind (key_func k) (\<lambda>k2.
     case result k2 of
       None \<Rightarrow> map_keys_with_value_merging key_func merge_values (result(k2 \<mapsto> v)) kvs
     | Some v' \<Rightarrow>
         res_bind (merge_values v' v) (\<lambda>merged.
         map_keys_with_value_merging key_func merge_values (result(k2 \<mapsto> merged)) kvs))"

definition binary_merge_maps_with ::
    "('v \<Rightarrow> 'v \<Rightarrow> 'v res) \<Rightarrow> ('k::linorder \<rightharpoonup> 'v) \<Rightarrow> ('k \<rightharpoonup> 'v) \<Rightarrow> ('k \<rightharpoonup> 'v) res" where
  "binary_merge_maps_with f lhs rhs =
     (let l_keys = dom lhs; r_keys = dom rhs;
          l_only = lhs |` (l_keys - r_keys); r_only = rhs |` (r_keys - l_keys)
      in res_bind (generate_map (sorted_list_of_set (r_keys \<inter> l_keys))
           (\<lambda>k. res_bind (map_at lhs k) (\<lambda>lv. res_bind (map_at rhs k) (f lv)))) (\<lambda>merged.
         Inr (l_only ++ r_only ++ merged)))"

fun merge_maps_with ::
    "('v \<Rightarrow> 'v \<Rightarrow> 'v res) \<Rightarrow> ('k::linorder \<rightharpoonup> 'v) \<Rightarrow> ('k \<rightharpoonup> 'v) list \<Rightarrow> ('k \<rightharpoonup> 'v) res" where
  "merge_maps_with f accum [] = Inr accum"
| "merge_maps_with f accum (m # ms) =
     res_bind (binary_merge_maps_with f accum m) (\<lambda>accum. merge_maps_with f accum ms)"

definition empty_tensor_set_movement :: tensor_set_movement where
  "empty_tensor_set_movement = Map.empty"

definition empty_abstracted_tensor_set_movement :: abstracted_tensor_set_movement where
  "empty_abstracted_tensor_set_movement = []"

definition abstracted_tensor_set_movement_from_single_tensor_movement ::
    "abstracted_single_tensor_movement \<Rightarrow> abstracted_tensor_set_movement" where
  "abstracted_tensor_set_movement_from_single_tensor_movement m = [m]"

definition abstracted_single_tensor_movement_get_dst_layers ::
    "abstracted_single_tensor_movement \<Rightarrow> binary_tree_path set" where
  "abstracted_single_tensor_movement_get_dst_layers m =
     (\<lambda>e. ad_operator_tree_path (astce_dst e)) ` dom (astm_edge_to_size m)"

definition get_src_layers :: "abstracted_tensor_set_movement \<Rightarrow> binary_tree_path set" where
  "get_src_layers m = astm_src_op_tree_path ` set m"

definition get_dst_layers :: "abstracted_tensor_set_movement \<Rightarrow> binary_tree_path set" where
  "get_dst_layers m = \<Union> (abstracted_single_tensor_movement_get_dst_layers ` set m)"

text \<open>The parameter of \<open>merge_abstracted_single_tensor_movements\<close> is a \<open>std::multiset\<close>.\<close>

definition merge_abstracted_single_tensor_movements ::
    "abstracted_single_tensor_movement list \<Rightarrow> abstracted_single_tensor_movement res" where
  "merge_abstracted_single_tensor_movements movements =
     res_bind (require_all_same1 (map astm_src_op_tree_path movements)) (\<lambda>src_op_tree_path.
     res_bind (merge_maps_with nonnegative_int_add Map.empty (map astm_edge_to_size movements)) (\<lambda>edge_to_size.
     Inr \<lparr> astm_src_op_tree_path = src_op_tree_path, astm_edge_to_size = edge_to_size \<rparr>))"

definition abstracted_single_tensor_movement_from_communications ::
    "binary_tree_path \<Rightarrow> abstracted_single_tensor_communication list \<Rightarrow> abstracted_single_tensor_movement" where
  "abstracted_single_tensor_movement_from_communications src_op_tree_path communications =
     \<lparr> astm_src_op_tree_path = src_op_tree_path,
       astm_edge_to_size = map_from_pairs (map (\<lambda>c. (astc_edge c, astc_size c)) communications) \<rparr>"

definition concretize_abstracted_device ::
    "abstracted_device \<Rightarrow> (binary_tree_path \<rightharpoonup> machine_space_stencil) \<Rightarrow> machine_space_coordinate res" where
  "concretize_abstracted_device abstracted_device stencils =
     res_bind (map_at stencils (ad_operator_tree_path abstracted_device)) (\<lambda>stencil.
     machine_space_stencil_compute_machine_coord stencil (ad_task_space_coordinate abstracted_device))"

definition concretize_abstracted_single_tensor_communication_edge ::
    "abstracted_single_tensor_communication_edge \<Rightarrow> machine_space_stencil \<Rightarrow>
     (binary_tree_path \<rightharpoonup> machine_space_stencil) \<Rightarrow> communication_edge option res" where
  "concretize_abstracted_single_tensor_communication_edge edge src_machine_stencil dst_machine_stencils =
     res_bind (machine_space_stencil_compute_machine_coord src_machine_stencil (astce_src_coord edge)) (\<lambda>src.
     res_bind (concretize_abstracted_device (astce_dst edge) dst_machine_stencils) (\<lambda>dst.
     if src = dst then Inr None
     else res_bind (mk_communication_edge src dst) (\<lambda>e. Inr (Some e))))"

definition concretize_abstracted_single_tensor_movement ::
    "abstracted_single_tensor_movement \<Rightarrow> (binary_tree_path \<rightharpoonup> machine_space_stencil) \<Rightarrow>
     (binary_tree_path \<rightharpoonup> machine_space_stencil) \<Rightarrow> tensor_set_movement res" where
  "concretize_abstracted_single_tensor_movement abstracted pre_machine_stencils post_machine_stencils =
     res_bind (ASSERT (astm_src_op_tree_path abstracted \<in> dom pre_machine_stencils)) (\<lambda>_.
     res_bind (map_at pre_machine_stencils (astm_src_op_tree_path abstracted)) (\<lambda>pre_machine_stencil.
     res_bind (map_keys_with_value_merging
         (\<lambda>k. concretize_abstracted_single_tensor_communication_edge k pre_machine_stencil post_machine_stencils)
         require_same Map.empty (map_entries (astm_edge_to_size abstracted))) (\<lambda>communication_edges.
     Inr (\<lambda>e. communication_edges (Some e)))))"

definition merge_tensor_set_movements :: "tensor_set_movement \<Rightarrow> tensor_set_movement \<Rightarrow> tensor_set_movement res" where
  "merge_tensor_set_movements lhs rhs = binary_merge_maps_with nonnegative_int_add lhs rhs"

fun foldl_movements :: "tensor_set_movement \<Rightarrow> tensor_set_movement list \<Rightarrow> tensor_set_movement res" where
  "foldl_movements result [] = Inr result"
| "foldl_movements result (m # ms) =
     res_bind (merge_tensor_set_movements result m) (\<lambda>result. foldl_movements result ms)"

definition concretize_abstracted_tensor_set_movement ::
    "abstracted_tensor_set_movement \<Rightarrow> (binary_tree_path \<rightharpoonup> machine_space_stencil) \<Rightarrow>
     (binary_tree_path \<rightharpoonup> machine_space_stencil) \<Rightarrow> tensor_set_movement res" where
  "concretize_abstracted_tensor_set_movement abstracted pre_machine_stencils post_machine_stencils =
     res_bind (res_map (\<lambda>m. concretize_abstracted_single_tensor_movement m pre_machine_stencils
         post_machine_stencils) abstracted) (\<lambda>single_tensor_movements.
     foldl_movements empty_tensor_set_movement single_tensor_movements)"

section \<open>Lemmas\<close>

named_theorems movement_ops \<open>what the operations on problem trees and movements compute\<close>

text \<open>The leaf at a path, as a function; \<open>mm_problem_tree_get_path_to_leaf_map\<close> computes it.\<close>

fun leaf_at :: "machine_mapping_problem_tree \<Rightarrow> (binary_tree_path \<rightharpoonup> unmapped_runtime_only_op_cost_estimate_key)" where
  "leaf_at (MM_series _ l r) = join_maps (leaf_at l) (leaf_at r)"
| "leaf_at (MM_parallel l r) = join_maps (leaf_at l) (leaf_at r)"
| "leaf_at (MM_leaf k) = (\<lambda>p. if p = [] then Some k else None)"

lemma dom_single [simp]: "dom (\<lambda>p. if p = q then Some x else None) = {q}"
  by (auto split: if_splits)

lemma nest_simps [simp]:
  "nest_inside_left_child = Cons LEFT_CHILD"
  "nest_inside_right_child = Cons RIGHT_CHILD"
  by (rule ext, simp add: nest_inside_left_child_def nest_inside_right_child_def)+

lemma get_all_leaf_paths_eq: "get_all_leaf_paths t = dom (leaf_at t)"
  by (induction t) (simp_all add: dom_join_maps binary_tree_root_path_def)

lemma finite_leaf_at [simp]: "finite (dom (leaf_at t))"
  by (induction t) simp_all

lemma finite_leaf_paths [simp]: "finite (get_all_leaf_paths t)"
  by (simp add: get_all_leaf_paths_eq)

lemma merge_leaf_maps_eq:
  "finite (dom l) \<Longrightarrow> finite (dom r) \<Longrightarrow> merge_leaf_maps (Inr l) (Inr r) = Inr (join_maps l r)"
  using map_keys_nest [of l] map_keys_nest [of r] by (simp add: merge_leaf_maps_def path_ops)

lemma get_path_to_leaf_map_eq [movement_ops]: "mm_problem_tree_get_path_to_leaf_map t = Inr (leaf_at t)"
  by (induction t) (simp_all add: merge_leaf_maps_eq binary_tree_root_path_def fun_upd_def)

lemma get_subtree_at_leaf:
  "leaf_at t p = Some k \<longleftrightarrow> mm_problem_tree_get_subtree_at_path t p = Some (MM_leaf k)"
proof (induction t arbitrary: p)
  case (MM_series m l r)
  then show ?case by (cases p) (auto split: binary_tree_path_entry.split simp: join_maps_def)
next
  case (MM_parallel l r)
  then show ?case by (cases p) (auto split: binary_tree_path_entry.split simp: join_maps_def)
next
  case (MM_leaf k')
  then show ?case by (cases p) auto
qed

section \<open>Which stencils a mapping gives\<close>

definition leaf_task_space :: "unmapped_runtime_only_op_cost_estimate_key \<Rightarrow> operator_task_space res" where
  "leaf_task_space leaf =
     res_bind (optional_value (compgraph_op_attrs_from_pcg_op_attrs (uk_op_attrs leaf))) (\<lambda>op_attrs.
     get_operator_task_space op_attrs (map_option get_parallel_degrees \<circ> uk_input_shapes leaf))"

definition stencils_of ::
    "machine_mapping_problem_tree \<Rightarrow> parallel_layer_guid_oblivious_machine_mapping \<Rightarrow>
     (binary_tree_path \<rightharpoonup> machine_space_stencil)" where
  "stencils_of t m = (\<lambda>p. case m p of None \<Rightarrow> None
     | Some mv \<Rightarrow> (case leaf_at t p of None \<Rightarrow> None
        | Some leaf \<Rightarrow> (case leaf_task_space leaf of Inl _ \<Rightarrow> None
           | Inr ts \<Rightarrow> Some \<lparr> mss_operator_task_space = ts, mss_machine_view = mv \<rparr>)))"

lemma optional_value_simps [simp]:
  "optional_value None = Inl Bad_optional_access"
  "optional_value (Some v) = Inr v"
  by (simp_all add: optional_value_def)

lemmas generate_map_ops [movement_ops] = generate_map_eq

lemma stencil_for_path_eq:
  assumes "leaf_at t p = Some leaf"
  shows "machine_stencil_for_path (leaf_at t) m p = Inr s \<longleftrightarrow>
    s = stencils_of t m p \<and> (m p \<noteq> None \<longrightarrow> (\<exists>ts. leaf_task_space leaf = Inr ts))"
proof (cases "compgraph_op_attrs_from_pcg_op_attrs (uk_op_attrs leaf)")
  case None
  then show ?thesis using assms
    by (cases "m p") (auto simp: machine_stencil_for_path_def leaf_task_space_def stencils_of_def map_at_def)
next
  case (Some op_attrs)
  then show ?thesis using assms
    by (cases "get_operator_task_space op_attrs (map_option get_parallel_degrees \<circ> uk_input_shapes leaf)";
        cases "m p") (auto simp: machine_stencil_for_path_def leaf_task_space_def stencils_of_def map_at_def)
qed

lemma stencils_eq [movement_ops]:
  assumes "dom m \<subseteq> dom (leaf_at t)"
    and ok: "\<And>p leaf. p \<in> dom m \<Longrightarrow> leaf_at t p = Some leaf \<Longrightarrow> \<exists>ts. leaf_task_space leaf = Inr ts"
  shows "get_machine_stencils_for_partially_mapped_mm_problem_tree t m = Inr (stencils_of t m)"
proof -
  have "generate_map (sorted_list_of_set (dom (leaf_at t))) (machine_stencil_for_path (leaf_at t) m) =
      Inr (\<lambda>p. if p \<in> set (sorted_list_of_set (dom (leaf_at t))) then Some (stencils_of t m p) else None)"
  proof (rule generate_map_eq)
    fix p assume "p \<in> set (sorted_list_of_set (dom (leaf_at t)))"
    then obtain leaf where "leaf_at t p = Some leaf" by auto
    then show "machine_stencil_for_path (leaf_at t) m p = Inr (stencils_of t m p)"
      using ok by (auto simp: stencil_for_path_eq)
  qed
  moreover have "(\<lambda>p. case if p \<in> dom (leaf_at t) then Some (stencils_of t m p) else None of
      None \<Rightarrow> None | Some s \<Rightarrow> s) = stencils_of t m"
    by (rule ext) (auto simp: stencils_of_def domIff split: option.split)
  ultimately show ?thesis
    by (simp add: get_machine_stencils_for_partially_mapped_mm_problem_tree_def filtermap_values_def
        get_machine_stencils_for_mm_problem_tree_def get_path_to_leaf_map_eq assms(1))
qed

lemma stencils_ok:
  assumes "get_machine_stencils_for_partially_mapped_mm_problem_tree t m = Inr s"
  shows "dom m \<subseteq> dom (leaf_at t)"
    and "p \<in> dom m \<Longrightarrow> leaf_at t p = Some leaf \<Longrightarrow> \<exists>ts. leaf_task_space leaf = Inr ts"
proof -
  obtain s' where s': "dom m \<subseteq> dom (leaf_at t)"
    "generate_map (sorted_list_of_set (dom (leaf_at t))) (machine_stencil_for_path (leaf_at t) m) = Inr s'"
    using assms by (auto simp: get_machine_stencils_for_partially_mapped_mm_problem_tree_def
        get_machine_stencils_for_mm_problem_tree_def get_path_to_leaf_map_eq)
  then show "dom m \<subseteq> dom (leaf_at t)" by simp
  assume p: "p \<in> dom m" "leaf_at t p = Some leaf"
  then have "p \<in> set (sorted_list_of_set (dom (leaf_at t)))" by auto
  from generate_map_ok [OF s'(2) this] p show "\<exists>ts. leaf_task_space leaf = Inr ts"
    by (auto simp: stencil_for_path_eq [OF p(2)])
qed

section \<open>Concretising a movement\<close>

text \<open>Only the stencils of the layers at the two ends of a movement matter.\<close>

lemma map_keys_with_value_merging_cong:
  "(\<And>k v. (k, v) \<in> set kvs \<Longrightarrow> f k = g k) \<Longrightarrow>
     map_keys_with_value_merging f mv r kvs = map_keys_with_value_merging g mv r kvs"
proof (induction kvs arbitrary: r)
  case (Cons kv kvs)
  obtain k v where kv: "kv = (k, v)" by (cases kv)
  have "f k = g k" using Cons.prems [of k v] by (simp add: kv)
  moreover have "map_keys_with_value_merging f mv r' kvs = map_keys_with_value_merging g mv r' kvs" for r'
    by (rule Cons.IH) (use Cons.prems in auto)
  ultimately show ?case by (cases "g k") (simp_all add: kv split: option.split)
qed simp

lemma concretize_single_cong:
  assumes "finite (dom (astm_edge_to_size m))"
    and "pre (astm_src_op_tree_path m) = pre' (astm_src_op_tree_path m)"
    and "\<And>p. p \<in> abstracted_single_tensor_movement_get_dst_layers m \<Longrightarrow> post p = post' p"
  shows "concretize_abstracted_single_tensor_movement m pre post =
    concretize_abstracted_single_tensor_movement m pre' post'"
proof -
  have "map_keys_with_value_merging
         (\<lambda>k. concretize_abstracted_single_tensor_communication_edge k st post) require_same Map.empty
         (map_entries (astm_edge_to_size m)) =
       map_keys_with_value_merging
         (\<lambda>k. concretize_abstracted_single_tensor_communication_edge k st post') require_same Map.empty
         (map_entries (astm_edge_to_size m))" for st
  proof (rule map_keys_with_value_merging_cong)
    fix k v assume "(k, v) \<in> set (map_entries (astm_edge_to_size m))"
    then have "ad_operator_tree_path (astce_dst k) \<in> abstracted_single_tensor_movement_get_dst_layers m"
      by (auto simp: set_map_entries assms(1) abstracted_single_tensor_movement_get_dst_layers_def)
    then show "concretize_abstracted_single_tensor_communication_edge k st post =
        concretize_abstracted_single_tensor_communication_edge k st post'"
      by (simp add: concretize_abstracted_single_tensor_communication_edge_def
          concretize_abstracted_device_def map_at_def assms(3))
  qed
  then show ?thesis
    by (simp add: concretize_abstracted_single_tensor_movement_def map_at_def domIff assms(2))
qed

lemma concretize_cong:
  assumes "\<And>s. s \<in> set m \<Longrightarrow> finite (dom (astm_edge_to_size s))"
    and "\<And>p. p \<in> get_src_layers m \<Longrightarrow> pre p = pre' p"
    and "\<And>p. p \<in> get_dst_layers m \<Longrightarrow> post p = post' p"
  shows "concretize_abstracted_tensor_set_movement m pre post =
    concretize_abstracted_tensor_set_movement m pre' post'"
proof -
  have "res_map (\<lambda>s. concretize_abstracted_single_tensor_movement s pre post) m =
      res_map (\<lambda>s. concretize_abstracted_single_tensor_movement s pre' post') m"
  proof (rule res_map_cong [OF refl])
    fix s assume "s \<in> set m"
    then show "concretize_abstracted_single_tensor_movement s pre post =
        concretize_abstracted_single_tensor_movement s pre' post'"
      by (intro concretize_single_cong assms) (auto simp: get_src_layers_def get_dst_layers_def)
  qed
  then show ?thesis by (simp add: concretize_abstracted_tensor_set_movement_def)
qed

lemma empty_movement [simp]:
  "get_src_layers empty_abstracted_tensor_set_movement = {}"
  "get_dst_layers empty_abstracted_tensor_set_movement = {}"
  "concretize_abstracted_tensor_set_movement empty_abstracted_tensor_set_movement pre post =
     Inr empty_tensor_set_movement"
  by (simp_all add: get_src_layers_def get_dst_layers_def empty_abstracted_tensor_set_movement_def
      concretize_abstracted_tensor_set_movement_def)

end
