(* ===== verification/Mapping_Results.thy ===== *)
theory Mapping_Results
  imports Tensor_Movement
begin

text \<open>
  What the machine mapping search returns and remembers: \<open>machine_mapping_result.cc\<close> and
  \<open>machine_mapping_cache.cc\<close> of \<open>lib/compiler/src/compiler/machine_mapping\<close>. A
  \<open>MachineMappingResult\<close> is its optional; the type \<open>'c\<close> of the costs stands for \<open>milliseconds_t\<close>, a
  float with \<open>+\<close> and \<open><\<close>.

  The interface of the cache is the locale \<open>memo_table\<close>: its lemma says that a memoised computation
  returns what the computation itself returns, provided the computation never saves its own key. The
  cache of the search is an interpretation.
\<close>

section \<open>Results\<close>

record 'c feasible_machine_mapping_result =
  fmr_runtime :: 'c
  fmr_machine_mapping :: parallel_layer_guid_oblivious_machine_mapping

type_synonym 'c machine_mapping_result = "'c feasible_machine_mapping_result option"

datatype parallel_split_transformation = LthenR | RthenL

definition infeasible_machine_mapping_result :: "'c machine_mapping_result" where
  "infeasible_machine_mapping_result = None"

definition is_infeasible :: "'c machine_mapping_result \<Rightarrow> bool" where
  "is_infeasible result \<longleftrightarrow> result = None"

definition require_feasible :: "'c machine_mapping_result \<Rightarrow> 'c feasible_machine_mapping_result res" where
  "require_feasible result = optional_value result"

definition minimize_runtime ::
    "'c::linorder machine_mapping_result \<Rightarrow> 'c machine_mapping_result \<Rightarrow> 'c machine_mapping_result" where
  "minimize_runtime maybe_m1 maybe_m2 =
     (case maybe_m1 of
        None \<Rightarrow> maybe_m2
      | Some m1 \<Rightarrow> (case maybe_m2 of
          None \<Rightarrow> maybe_m1
        | Some m2 \<Rightarrow> if fmr_runtime m2 < fmr_runtime m1 then maybe_m2 else maybe_m1))"

text \<open>The candidates are the elements of a \<open>std::set\<close> in the order it is iterated.\<close>

definition get_mapping_with_minimal_runtime ::
    "'c::linorder machine_mapping_result list \<Rightarrow> 'c machine_mapping_result" where
  "get_mapping_with_minimal_runtime candidates =
     foldl minimize_runtime infeasible_machine_mapping_result candidates"

text \<open>
  A \<open>std::set<MachineMappingResult>\<close> built by insertions. Its order compares the optionals, then the
  runtimes, then the mappings entry by entry.
\<close>

definition result_key ::
    "'c machine_mapping_result \<Rightarrow> ('c \<times> (binary_tree_path \<times> machine_view) list) option" where
  "result_key result = map_option (\<lambda>f. (fmr_runtime f, map_entries (fmr_machine_mapping f))) result"

definition result_of_key ::
    "('c \<times> (binary_tree_path \<times> machine_view) list) option \<Rightarrow> 'c machine_mapping_result" where
  "result_of_key key = map_option (\<lambda>(t, kvs). \<lparr> fmr_runtime = t, fmr_machine_mapping = map_of kvs \<rparr>) key"

definition result_set :: "'c::linorder machine_mapping_result list \<Rightarrow> 'c machine_mapping_result list" where
  "result_set inserted = map result_of_key (sorted_list_of_set (result_key ` set inserted))"

definition series_combine ::
    "'c::plus \<Rightarrow> 'c machine_mapping_result \<Rightarrow> 'c machine_mapping_result \<Rightarrow>
     parallel_split_transformation option \<Rightarrow> 'c machine_mapping_result res" where
  "series_combine comm_cost maybe_pre_result maybe_post_result parallel_split_transformation =
     (if is_infeasible maybe_pre_result then Inr infeasible_machine_mapping_result
      else res_bind (require_feasible maybe_pre_result) (\<lambda>pre_result.
      if is_infeasible maybe_post_result then Inr infeasible_machine_mapping_result
      else res_bind (require_feasible maybe_post_result) (\<lambda>post_result.
      res_bind
        (if parallel_split_transformation = Some RthenL
         then binary_combine_mappings (fmr_machine_mapping post_result) (fmr_machine_mapping pre_result)
         else binary_combine_mappings (fmr_machine_mapping pre_result) (fmr_machine_mapping post_result)) (\<lambda>mapping.
      Inr (Some \<lparr> fmr_runtime = fmr_runtime pre_result + comm_cost + fmr_runtime post_result,
                  fmr_machine_mapping = mapping \<rparr>)))))"

definition parallel_combine ::
    "machine_resource_split \<Rightarrow> 'c::linorder machine_mapping_result \<Rightarrow> 'c machine_mapping_result \<Rightarrow>
     'c machine_mapping_result res" where
  "parallel_combine split maybe_lhs_result maybe_rhs_result =
     (if is_infeasible maybe_lhs_result then Inr infeasible_machine_mapping_result
      else res_bind (require_feasible maybe_lhs_result) (\<lambda>lhs_result.
      if is_infeasible maybe_rhs_result then Inr infeasible_machine_mapping_result
      else res_bind (require_feasible maybe_rhs_result) (\<lambda>rhs_result.
      res_bind (offset_layer_oblivious_mapping_by (fmr_machine_mapping rhs_result) split) (\<lambda>rhs_mapping.
      res_bind (binary_combine_mappings (fmr_machine_mapping lhs_result) rhs_mapping) (\<lambda>mapping.
      Inr (Some \<lparr> fmr_runtime = max (fmr_runtime lhs_result) (fmr_runtime rhs_result),
                  fmr_machine_mapping = mapping \<rparr>))))))"

definition make_singleton_machine_mapping_result :: "'c \<Rightarrow> machine_view \<Rightarrow> 'c machine_mapping_result" where
  "make_singleton_machine_mapping_result runtime machine_view =
     Some \<lparr> fmr_runtime = runtime, fmr_machine_mapping = [binary_tree_root_path \<mapsto> machine_view] \<rparr>"

text \<open>\<open>get_runtime_cost\<close> is infinite for an infeasible result; the infinite cost is an argument.\<close>

definition get_runtime_cost :: "'c \<Rightarrow> 'c machine_mapping_result \<Rightarrow> 'c" where
  "get_runtime_cost infinity mm_result = (case mm_result of None \<Rightarrow> infinity | Some f \<Rightarrow> fmr_runtime f)"

section \<open>The cache\<close>

record machine_mapping_state =
  mms_problem_tree :: machine_mapping_problem_tree
  mms_resources :: machine_compute_resource_slice
  mms_constraints :: machine_mapping_constraints

type_synonym 'c machine_mapping_cache = "machine_mapping_state \<rightharpoonup> 'c machine_mapping_result"

definition empty_machine_mapping_cache :: "'c machine_mapping_cache" where
  "empty_machine_mapping_cache = Map.empty"

definition machine_mapping_cache_load ::
    "'c machine_mapping_cache \<Rightarrow> machine_mapping_state \<Rightarrow> 'c machine_mapping_result option" where
  "machine_mapping_cache_load cache k = cache k"

definition machine_mapping_cache_save ::
    "'c machine_mapping_cache \<Rightarrow> machine_mapping_state \<Rightarrow> 'c machine_mapping_result \<Rightarrow>
     'c machine_mapping_cache res" where
  "machine_mapping_cache_save cache k v =
     res_bind (ASSERT (k \<notin> dom cache)) (\<lambda>_. Inr (cache(k \<mapsto> v)))"

text \<open>A computation behind a cache: look the key up, and save what the body returns when it is absent.\<close>

definition memoize ::
    "('t \<Rightarrow> 'k \<Rightarrow> 'v option) \<Rightarrow> ('t \<Rightarrow> 'k \<Rightarrow> 'v \<Rightarrow> 't res) \<Rightarrow> 'k \<Rightarrow> ('t \<Rightarrow> ('v \<times> 't) res) \<Rightarrow> 't \<Rightarrow> ('v \<times> 't) res" where
  "memoize load save k body t =
     (case load t k of
        Some v \<Rightarrow> Inr (v, t)
      | None \<Rightarrow>
          res_bind (body t) (\<lambda>(v, t').
          res_bind (save t' k v) (\<lambda>t''.
          Inr (v, t''))))"

locale memo_table =
  fixes load :: "'t \<Rightarrow> 'k \<Rightarrow> 'v option"
    and save :: "'t \<Rightarrow> 'k \<Rightarrow> 'v \<Rightarrow> 't res"
    and fresh :: 't
  assumes load_fresh: "load fresh k = None"
    and save_new: "load t k = None \<Longrightarrow>
      \<exists>t'. save t k v = Inr t' \<and> load t' k = Some v \<and> (\<forall>k'. k' \<noteq> k \<longrightarrow> load t' k' = load t k')"
    and save_twice: "load t k \<noteq> None \<Longrightarrow> save t k v = Inl Assertion_failed"
begin

definition entries_ok :: "('k \<Rightarrow> 'v \<Rightarrow> bool) \<Rightarrow> 't \<Rightarrow> bool" where
  "entries_ok P t \<longleftrightarrow> (\<forall>k v. load t k = Some v \<longrightarrow> P k v)"

definition changes_within :: "'k set \<Rightarrow> 't \<Rightarrow> 't \<Rightarrow> bool" where
  "changes_within K t t' \<longleftrightarrow> (\<forall>k. k \<notin> K \<longrightarrow> load t' k = load t k)"

lemma entries_ok_fresh: "entries_ok P fresh"
  by (simp add: entries_ok_def load_fresh)

lemma changes_within_refl: "changes_within K t t"
  by (simp add: changes_within_def)

lemma changes_within_trans:
  "changes_within K t t' \<Longrightarrow> changes_within L t' t'' \<Longrightarrow> K \<subseteq> M \<Longrightarrow> L \<subseteq> M \<Longrightarrow> changes_within M t t''"
  unfolding changes_within_def by (metis subsetD)

lemma memoize_correct:
  assumes "entries_ok P t" and "k \<notin> K"
    and body: "\<exists>v t'. body t = Inr (v, t') \<and> P k v \<and> entries_ok P t' \<and> changes_within K t t'"
  shows "\<exists>v t'. memoize load save k body t = Inr (v, t') \<and> P k v \<and> entries_ok P t' \<and>
    changes_within (insert k K) t t'"
proof (cases "load t k")
  case (Some v)
  then show ?thesis using assms(1) by (auto simp: memoize_def entries_ok_def changes_within_refl)
next
  case None
  obtain v t' where t': "body t = Inr (v, t')" "P k v" "entries_ok P t'" "changes_within K t t'"
    using body by blast
  then have "load t' k = None" using None assms(2) by (simp add: changes_within_def)
  from save_new [OF this, of v] obtain t'' where t'': "save t' k v = Inr t''" "load t'' k = Some v"
    "\<And>k'. k' \<noteq> k \<Longrightarrow> load t'' k' = load t' k'" by blast
  have "entries_ok P t''"
    unfolding entries_ok_def
  proof (intro allI impI)
    fix k' v' assume "load t'' k' = Some v'"
    then show "P k' v'" using t'(2,3) t''(2,3) by (cases "k' = k") (auto simp: entries_ok_def)
  qed
  moreover have "changes_within (insert k K) t t''"
    using t'(4) t''(3) by (auto simp: changes_within_def)
  ultimately show ?thesis using None t' t''(1) by (simp add: memoize_def)
qed

lemma memoize_saving_own_key:
  assumes "load t k = None" and "body t = Inr (v, t')" and "load t' k \<noteq> None"
  shows "memoize load save k body t = Inl Assertion_failed"
  using assms save_twice [of t' k v] by (simp add: memoize_def)

end

interpretation mm_cache: memo_table machine_mapping_cache_load machine_mapping_cache_save
  empty_machine_mapping_cache
  by unfold_locales (auto simp: machine_mapping_cache_load_def machine_mapping_cache_save_def
      empty_machine_mapping_cache_def res_bind_require)

section \<open>Lemmas\<close>

named_theorems result_ops \<open>what the operations on results compute\<close>

lemma is_infeasible_simps [simp]:
  "is_infeasible None"
  "\<not> is_infeasible (Some f)"
  "require_feasible (Some f) = Inr f"
  by (simp_all add: is_infeasible_def require_feasible_def)

lemma series_combine_eq [result_ops]:
  assumes "finite (dom (fmr_machine_mapping p))" and "finite (dom (fmr_machine_mapping q))"
    and "tr \<noteq> Some RthenL"
  shows "series_combine c (Some p) (Some q) tr =
    Inr (Some \<lparr> fmr_runtime = fmr_runtime p + c + fmr_runtime q,
                fmr_machine_mapping = join_maps (fmr_machine_mapping p) (fmr_machine_mapping q) \<rparr>)"
  using assms by (simp add: series_combine_def path_ops)

lemma result_of_key_key [simp]:
  "(\<And>f. r = Some f \<Longrightarrow> finite (dom (fmr_machine_mapping f))) \<Longrightarrow> result_of_key (result_key r) = r"
  by (cases r) (simp_all add: result_of_key_def result_key_def map_of_map_entries)

lemma set_result_set [result_ops]:
  assumes "\<And>f. Some f \<in> set rs \<Longrightarrow> finite (dom (fmr_machine_mapping f))"
  shows "set (result_set rs) = set rs"
proof -
  have "set (result_set rs) = result_of_key ` result_key ` set rs"
    by (simp add: result_set_def)
  also have "\<dots> = (\<lambda>r. r) ` set rs"
    unfolding image_image by (rule image_cong [OF refl]) (use assms in \<open>auto intro!: result_of_key_key\<close>)
  finally show ?thesis by simp
qed

text \<open>A result of least runtime among given ones: infeasible only if all of them are.\<close>

definition is_minimal :: "'c::linorder machine_mapping_result \<Rightarrow> 'c machine_mapping_result set \<Rightarrow> bool" where
  "is_minimal r R \<longleftrightarrow> (case r of
     None \<Rightarrow> R \<subseteq> {None}
   | Some f \<Rightarrow> r \<in> R \<and> (\<forall>g. Some g \<in> R \<longrightarrow> fmr_runtime f \<le> fmr_runtime g))"

lemma minimize_runtime_minimal:
  "is_minimal r R \<Longrightarrow> is_minimal s S \<Longrightarrow> is_minimal (minimize_runtime r s) (R \<union> S)"
  by (cases r; cases s) (force simp: is_minimal_def minimize_runtime_def split: option.splits)+

lemma minimal_singleton [simp]: "is_minimal r {r}"
  by (cases r) (simp_all add: is_minimal_def)

lemma foldl_minimize_runtime_minimal:
  "is_minimal r R \<Longrightarrow> is_minimal (foldl minimize_runtime r rs) (R \<union> set rs)"
proof (induction rs arbitrary: r R)
  case (Cons s rs)
  have "is_minimal (minimize_runtime r s) (R \<union> {s})"
    by (rule minimize_runtime_minimal) (simp_all add: Cons.prems)
  from Cons.IH [OF this] show ?case by (simp add: Un_assoc)
qed simp

lemma minimal_runtime_minimal: "is_minimal (get_mapping_with_minimal_runtime rs) (set rs)"
  using foldl_minimize_runtime_minimal [of None "{}" rs]
  by (simp add: get_mapping_with_minimal_runtime_def infeasible_machine_mapping_result_def is_minimal_def)

end
