(* ===== verification/Mapping_Search.thy ===== *)
theory Mapping_Search
  imports Mapping_Results
begin

text \<open>
  The machine mapping search of \<open>get_optimal_machine_mapping.cc\<close> and the enumeration of
  \<open>get_all_assignments.h\<close>. The cost estimator and the function that gives the allowed views are
  members of \<open>MachineMappingContext\<close>, here fields of a record; the cache, a reference the code passes
  along, is passed and returned.

  The search is recursive in the tree. \<open>get_optimal_machine_mapping\<close> hands the searches of its two
  children to the functions for series and parallel splits, which call them with other resources and
  constraints.
\<close>

record 'c runtime_only_op_cost_metrics =
  forward_runtime :: 'c
  backward_runtime :: 'c

record 'c machine_mapping_context =
  mmc_estimate_op_cost :: "runtime_only_op_cost_estimate_key \<Rightarrow> 'c runtime_only_op_cost_metrics"
  mmc_estimate_movement_cost :: "tensor_set_movement \<Rightarrow> 'c"
  mmc_allowed_machine_views ::
    "unmapped_runtime_only_op_cost_estimate_key \<Rightarrow> machine_compute_resource_slice \<Rightarrow> machine_view set res"

type_synonym 'c mapping_search =
  "machine_compute_resource_slice \<Rightarrow> machine_mapping_constraints \<Rightarrow> 'c machine_mapping_cache \<Rightarrow>
   ('c machine_mapping_result \<times> 'c machine_mapping_cache) res"

section \<open>Assignments of the boundary layers\<close>

text \<open>
  \<open>get_all_assignments\<close> returns a \<open>std::set\<close> of maps with the same keys. The product of the sorted
  sets of values is in lexicographic order, which is the order in which that set is iterated.
\<close>

definition get_all_assignments :: "('k::linorder \<rightharpoonup> 'v::linorder set) \<Rightarrow> ('k \<rightharpoonup> 'v) list res" where
  "get_all_assignments options_per_key =
     (if dom options_per_key = {} then Inr [Map.empty]
      else let ordered_keys = sorted_list_of_set (dom options_per_key)
           in res_bind (res_map (map_at options_per_key) ordered_keys) (\<lambda>ordered_value_option_sets.
              res_map (\<lambda>chosen_values.
                  res_bind (zip_strict ordered_keys chosen_values) (\<lambda>kvs. Inr (map_from_pairs kvs)))
                (cartesian_product (map sorted_list_of_set ordered_value_option_sets))))"

fun require_leaf :: "machine_mapping_problem_tree \<Rightarrow> unmapped_runtime_only_op_cost_estimate_key res" where
  "require_leaf (MM_leaf leaf) = Inr leaf"
| "require_leaf _ = Inl Bad_variant_access"

text \<open>The lambda \<open>get_boundary_machine_view_assignments\<close> of the search on series splits.\<close>

definition get_boundary_machine_view_assignments ::
    "'c machine_mapping_context \<Rightarrow> machine_mapping_constraints \<Rightarrow> machine_compute_resource_slice \<Rightarrow>
     binary_tree_path set \<Rightarrow> machine_mapping_problem_tree \<Rightarrow> binary_tree_path_entry \<Rightarrow>
     parallel_layer_guid_oblivious_machine_mapping list res" where
  "get_boundary_machine_view_assignments context constraints resources boundary_layers root prefix =
     res_bind (restrict_to_child constraints prefix) (\<lambda>sub_constraints.
     res_bind (ASSERT (get_all_layers sub_constraints = get_all_leaf_paths root)) (\<lambda>_.
     let unconstrained_boundary_layers = boundary_layers - get_constrained_layers sub_constraints in
     res_bind (generate_map (sorted_list_of_set unconstrained_boundary_layers) (\<lambda>l.
         res_bind (optional_value (mm_problem_tree_get_subtree_at_path root l)) (\<lambda>subtree.
         res_bind (require_leaf subtree) (\<lambda>leaf.
         mmc_allowed_machine_views context leaf resources)))) (\<lambda>allowed.
     get_all_assignments allowed)))"

section \<open>Series splits\<close>

definition eval_pre_boundary_mapping ::
    "'c mapping_search \<Rightarrow> machine_compute_resource_slice \<Rightarrow> machine_mapping_constraints \<Rightarrow>
     parallel_layer_guid_oblivious_machine_mapping \<Rightarrow> 'c machine_mapping_cache \<Rightarrow>
     ('c machine_mapping_result \<times> 'c machine_mapping_cache) res" where
  "eval_pre_boundary_mapping search_left resources constraints assigned_pre_machine_views cache =
     res_bind (restrict_to_left_child constraints) (\<lambda>left_constraints.
     res_bind (with_additional_constraints left_constraints assigned_pre_machine_views) (\<lambda>pre_candidate.
     search_left resources pre_candidate cache))"

definition eval_post_boundary_mapping ::
    "'c mapping_search \<Rightarrow> machine_compute_resource_slice \<Rightarrow> machine_mapping_constraints \<Rightarrow>
     parallel_layer_guid_oblivious_machine_mapping \<Rightarrow> 'c machine_mapping_cache \<Rightarrow>
     ('c machine_mapping_result \<times> 'c machine_mapping_cache) res" where
  "eval_post_boundary_mapping search_right resources constraints assigned_post_machine_views cache =
     res_bind (restrict_to_right_child constraints) (\<lambda>right_constraints.
     res_bind (with_additional_constraints right_constraints assigned_post_machine_views) (\<lambda>post_candidate.
     search_right resources post_candidate cache))"

text \<open>The cost of the movement between two mapped children, and the two results combined with it.\<close>

definition combine_across_split ::
    "'c::{linorder, plus} machine_mapping_context \<Rightarrow> abstracted_tensor_set_movement \<Rightarrow>
     machine_mapping_problem_tree \<Rightarrow> machine_mapping_problem_tree \<Rightarrow> parallel_split_transformation option \<Rightarrow>
     'c machine_mapping_result \<Rightarrow> 'c machine_mapping_result \<Rightarrow> 'c machine_mapping_result res" where
  "combine_across_split context tensor_movement left right parallel_split_transformation pre_result post_result =
     res_bind (require_feasible pre_result) (\<lambda>pre.
     res_bind (get_machine_stencils_for_partially_mapped_mm_problem_tree left (fmr_machine_mapping pre))
       (\<lambda>pre_machine_stencils.
     res_bind (require_feasible post_result) (\<lambda>post.
     res_bind (get_machine_stencils_for_partially_mapped_mm_problem_tree right (fmr_machine_mapping post))
       (\<lambda>post_machine_stencils.
     res_bind (concretize_abstracted_tensor_set_movement tensor_movement pre_machine_stencils
       post_machine_stencils) (\<lambda>comm_across_split.
     let cost_across_split = mmc_estimate_movement_cost context comm_across_split in
     series_combine cost_across_split pre_result post_result parallel_split_transformation)))))"

text \<open>The inner loop, over the assignments of the boundary layers of the right child.\<close>

fun post_boundary_loop ::
    "('c::{linorder, plus} machine_mapping_result \<Rightarrow> 'c machine_mapping_result res) \<Rightarrow>
     (parallel_layer_guid_oblivious_machine_mapping \<Rightarrow> 'c machine_mapping_cache \<Rightarrow>
       ('c machine_mapping_result \<times> 'c machine_mapping_cache) res) \<Rightarrow>
     'c machine_mapping_result \<Rightarrow> parallel_layer_guid_oblivious_machine_mapping list \<Rightarrow>
     'c machine_mapping_cache \<Rightarrow> ('c machine_mapping_result \<times> 'c machine_mapping_cache) res" where
  "post_boundary_loop combine eval_post result [] cache = Inr (result, cache)"
| "post_boundary_loop combine eval_post result (assigned # rest) cache =
     res_bind (eval_post assigned cache) (\<lambda>(post_result, cache).
     if is_infeasible post_result then post_boundary_loop combine eval_post result rest cache
     else res_bind (combine post_result) (\<lambda>combined.
          post_boundary_loop combine eval_post (minimize_runtime result combined) rest cache))"

text \<open>The outer loop; the range of the inner loop is computed anew in every iteration.\<close>

fun pre_boundary_loop ::
    "('c::{linorder, plus} machine_mapping_result \<Rightarrow> 'c machine_mapping_result \<Rightarrow> 'c machine_mapping_result res) \<Rightarrow>
     (parallel_layer_guid_oblivious_machine_mapping \<Rightarrow> 'c machine_mapping_cache \<Rightarrow>
       ('c machine_mapping_result \<times> 'c machine_mapping_cache) res) \<Rightarrow>
     (parallel_layer_guid_oblivious_machine_mapping \<Rightarrow> 'c machine_mapping_cache \<Rightarrow>
       ('c machine_mapping_result \<times> 'c machine_mapping_cache) res) \<Rightarrow>
     parallel_layer_guid_oblivious_machine_mapping list res \<Rightarrow>
     'c machine_mapping_result \<Rightarrow> parallel_layer_guid_oblivious_machine_mapping list \<Rightarrow>
     'c machine_mapping_cache \<Rightarrow> ('c machine_mapping_result \<times> 'c machine_mapping_cache) res" where
  "pre_boundary_loop combine eval_pre eval_post post_assignments result [] cache = Inr (result, cache)"
| "pre_boundary_loop combine eval_pre eval_post post_assignments result (assigned # rest) cache =
     res_bind (eval_pre assigned cache) (\<lambda>(pre_result, cache).
     if is_infeasible pre_result
     then pre_boundary_loop combine eval_pre eval_post post_assignments result rest cache
     else res_bind post_assignments (\<lambda>posts.
          res_bind (post_boundary_loop (combine pre_result) eval_post result posts cache) (\<lambda>(result, cache).
          pre_boundary_loop combine eval_pre eval_post post_assignments result rest cache)))"

definition search_series_split ::
    "'c::{linorder, plus} machine_mapping_context \<Rightarrow> abstracted_tensor_set_movement \<Rightarrow>
     machine_mapping_problem_tree \<Rightarrow> machine_mapping_problem_tree \<Rightarrow> 'c mapping_search \<Rightarrow> 'c mapping_search \<Rightarrow>
     parallel_split_transformation option \<Rightarrow> 'c mapping_search" where
  "search_series_split context tensor_movement left right search_left search_right
       parallel_split_transformation resources constraints cache =
     res_bind (get_boundary_machine_view_assignments context constraints resources
         (get_src_layers tensor_movement) left LEFT_CHILD) (\<lambda>pre_assignments.
     pre_boundary_loop
       (combine_across_split context tensor_movement left right parallel_split_transformation)
       (eval_pre_boundary_mapping search_left resources constraints)
       (eval_post_boundary_mapping search_right resources constraints)
       (get_boundary_machine_view_assignments context constraints resources
         (get_dst_layers tensor_movement) right RIGHT_CHILD)
       infeasible_machine_mapping_result pre_assignments cache)"

section \<open>Parallel splits\<close>

text \<open>\<open>evaluate_resource_split\<close>, for the splits one after the other.\<close>

fun resource_split_loop ::
    "'c::{linorder, plus} mapping_search \<Rightarrow> 'c mapping_search \<Rightarrow> machine_compute_resource_slice \<Rightarrow>
     machine_mapping_constraints \<Rightarrow> machine_mapping_constraints \<Rightarrow> machine_resource_split list \<Rightarrow>
     'c machine_mapping_cache \<Rightarrow> ('c machine_mapping_result list \<times> 'c machine_mapping_cache) res" where
  "resource_split_loop search_left search_right resources left_constraints right_constraints [] cache =
     Inr ([], cache)"
| "resource_split_loop search_left search_right resources left_constraints right_constraints
       (resource_split # rest) cache =
     res_bind (apply_resource_split resource_split resources) (\<lambda>(lhs_resources, rhs_resources).
     res_bind (search_left lhs_resources left_constraints cache) (\<lambda>(left_result, cache).
     res_bind (search_right rhs_resources right_constraints cache) (\<lambda>(right_result, cache).
     res_bind (parallel_combine resource_split left_result right_result) (\<lambda>combined.
     res_bind (resource_split_loop search_left search_right resources left_constraints right_constraints
         rest cache) (\<lambda>(results, cache).
     Inr (combined # results, cache))))))"

definition search_parallel_split ::
    "'c::{linorder, plus} machine_mapping_context \<Rightarrow> machine_mapping_problem_tree \<Rightarrow>
     machine_mapping_problem_tree \<Rightarrow> 'c mapping_search \<Rightarrow> 'c mapping_search \<Rightarrow> 'c mapping_search" where
  "search_parallel_split context lhs rhs search_left search_right resources constraints cache =
     res_bind (search_series_split context empty_abstracted_tensor_set_movement lhs rhs search_left
         search_right (Some LthenR) resources constraints cache) (\<lambda>(series_result, cache).
     res_bind (restrict_to_left_child constraints) (\<lambda>left_constraints.
     res_bind (restrict_to_right_child constraints) (\<lambda>right_constraints.
     res_bind (get_machine_resource_splits resources) (\<lambda>splits.
     res_bind (resource_split_loop search_left search_right resources left_constraints right_constraints
         (sorted_list_of_set splits) cache) (\<lambda>(parallel_results, cache).
     Inr (minimize_runtime series_result
            (get_mapping_with_minimal_runtime (result_set parallel_results)), cache))))))"

section \<open>Leaves, and the search\<close>

definition evaluate_machine_view ::
    "'c::plus machine_mapping_context \<Rightarrow> unmapped_runtime_only_op_cost_estimate_key \<Rightarrow> machine_view \<Rightarrow>
     'c machine_mapping_result" where
  "evaluate_machine_view context leaf machine_view =
     (let mapped = map_unmapped_runtime_only_op_cost_estimate_key leaf machine_view;
          metrics = mmc_estimate_op_cost context mapped;
          cost = forward_runtime metrics + backward_runtime metrics
      in make_singleton_machine_mapping_result cost machine_view)"

definition search_leaf ::
    "'c::{linorder, plus} machine_mapping_context \<Rightarrow> unmapped_runtime_only_op_cost_estimate_key \<Rightarrow>
     'c mapping_search" where
  "search_leaf context leaf resource constraints cache =
     res_bind (res_bind (require_only_root constraints) (\<lambda>machine_view.
         case machine_view of
           Some mv \<Rightarrow> Inr {mv}
         | None \<Rightarrow> mmc_allowed_machine_views context leaf resource)) (\<lambda>candidates.
     let candidate_results = map (evaluate_machine_view context leaf) (sorted_list_of_set candidates)
     in Inr (get_mapping_with_minimal_runtime (result_set candidate_results), cache))"

text \<open>The entry point: check the constraints, look in the cache, and search one of the three ways.\<close>

definition cached_search ::
    "machine_mapping_problem_tree \<Rightarrow> 'c mapping_search \<Rightarrow> 'c mapping_search" where
  "cached_search problem_tree body resources constraints cache =
     res_bind (ASSERT (get_all_layers constraints = get_all_leaf_paths problem_tree)) (\<lambda>_.
     memoize machine_mapping_cache_load machine_mapping_cache_save
       \<lparr> mms_problem_tree = problem_tree, mms_resources = resources, mms_constraints = constraints \<rparr>
       (body resources constraints) cache)"

primrec get_optimal_machine_mapping ::
    "'c::{linorder, plus} machine_mapping_context \<Rightarrow> machine_mapping_problem_tree \<Rightarrow> 'c mapping_search" where
  "get_optimal_machine_mapping context (MM_series tensor_movement l r) =
     cached_search (MM_series tensor_movement l r)
       (search_series_split context tensor_movement l r (get_optimal_machine_mapping context l)
         (get_optimal_machine_mapping context r) None)"
| "get_optimal_machine_mapping context (MM_parallel l r) =
     cached_search (MM_parallel l r)
       (search_parallel_split context l r (get_optimal_machine_mapping context l)
         (get_optimal_machine_mapping context r))"
| "get_optimal_machine_mapping context (MM_leaf leaf) =
     cached_search (MM_leaf leaf) (search_leaf context leaf)"

section \<open>Plans\<close>

text \<open>
  What the search should find, without its assignments and its cache: a plan gives every leaf a view,
  the view of the constraints or one that is allowed in its part of the machine, and its cost adds up
  along series splits, while the two children of a resource split run side by side.
\<close>

definition movement_cost ::
    "'c machine_mapping_context \<Rightarrow> abstracted_tensor_set_movement \<Rightarrow> machine_mapping_problem_tree \<Rightarrow>
     machine_mapping_problem_tree \<Rightarrow> parallel_layer_guid_oblivious_machine_mapping \<Rightarrow>
     parallel_layer_guid_oblivious_machine_mapping \<Rightarrow> 'c res" where
  "movement_cost ctx m l r ml mr =
     res_bind (concretize_abstracted_tensor_set_movement m (stencils_of l ml) (stencils_of r mr)) (\<lambda>movement.
     Inr (mmc_estimate_movement_cost ctx movement))"

definition series_plans ::
    "'c::{linorder, plus} machine_mapping_context \<Rightarrow> abstracted_tensor_set_movement \<Rightarrow>
     machine_mapping_problem_tree \<Rightarrow> machine_mapping_problem_tree \<Rightarrow> 'c feasible_machine_mapping_result set \<Rightarrow>
     'c feasible_machine_mapping_result set \<Rightarrow> 'c feasible_machine_mapping_result set" where
  "series_plans ctx m l r P Q =
     {f. \<exists>p \<in> P. \<exists>q \<in> Q. \<exists>cost.
        movement_cost ctx m l r (fmr_machine_mapping p) (fmr_machine_mapping q) = Inr cost \<and>
        f = \<lparr> fmr_runtime = fmr_runtime p + cost + fmr_runtime q,
              fmr_machine_mapping = join_maps (fmr_machine_mapping p) (fmr_machine_mapping q) \<rparr>}"

definition side_by_side ::
    "machine_resource_split \<Rightarrow> 'c::linorder feasible_machine_mapping_result set \<Rightarrow>
     'c feasible_machine_mapping_result set \<Rightarrow> 'c feasible_machine_mapping_result set" where
  "side_by_side s P Q =
     {f. \<exists>p \<in> P. \<exists>q \<in> Q. \<exists>mq. offset_layer_oblivious_mapping_by (fmr_machine_mapping q) s = Inr mq \<and>
        f = \<lparr> fmr_runtime = max (fmr_runtime p) (fmr_runtime q),
              fmr_machine_mapping = join_maps (fmr_machine_mapping p) mq \<rparr>}"

primrec plans ::
    "'c::{linorder, plus} machine_mapping_context \<Rightarrow> machine_mapping_problem_tree \<Rightarrow>
     machine_compute_resource_slice \<Rightarrow> machine_mapping_constraints \<Rightarrow>
     'c feasible_machine_mapping_result set" where
  "plans ctx (MM_series m l r) rs c =
     series_plans ctx m l r (plans ctx l rs (child_map LEFT_CHILD c)) (plans ctx r rs (child_map RIGHT_CHILD c))"
| "plans ctx (MM_parallel l r) rs c =
     series_plans ctx [] l r (plans ctx l rs (child_map LEFT_CHILD c)) (plans ctx r rs (child_map RIGHT_CHILD c)) \<union>
     {f. \<exists>splits. get_machine_resource_splits rs = Inr splits \<and> (\<exists>s \<in> splits. \<exists>ls qs.
        apply_resource_split s rs = Inr (ls, qs) \<and>
        f \<in> side_by_side s (plans ctx l ls (child_map LEFT_CHILD c)) (plans ctx r qs (child_map RIGHT_CHILD c)))}"
| "plans ctx (MM_leaf k) rs c =
     {f. \<exists>mv. Some f = evaluate_machine_view ctx k mv \<and>
        (case c [] of Some (Some mv') \<Rightarrow> mv = mv'
         | _ \<Rightarrow> (\<exists>A. mmc_allowed_machine_views ctx k rs = Inr A \<and> mv \<in> A))}"

text \<open>The leaves whose resources no parallel split divides.\<close>

primrec series_leaves :: "machine_mapping_problem_tree \<Rightarrow> binary_tree_path set" where
  "series_leaves (MM_series m l r) = Cons LEFT_CHILD ` series_leaves l \<union> Cons RIGHT_CHILD ` series_leaves r"
| "series_leaves (MM_parallel l r) = {}"
| "series_leaves (MM_leaf k) = {[]}"

text \<open>
  A leaf must have a task space, the ends of a movement must be leaves whose resources are not divided,
  and the movement must be defined for all views \<open>usable\<close> says a leaf may have.
\<close>

definition movement_defined ::
    "(unmapped_runtime_only_op_cost_estimate_key \<Rightarrow> machine_view \<Rightarrow> bool) \<Rightarrow> abstracted_tensor_set_movement \<Rightarrow>
     machine_mapping_problem_tree \<Rightarrow> machine_mapping_problem_tree \<Rightarrow> bool" where
  "movement_defined usable m l r \<longleftrightarrow> (\<forall>ml mr.
     (\<forall>p \<in> get_src_layers m. \<exists>k mv. leaf_at l p = Some k \<and> ml p = Some mv \<and> usable k mv) \<longrightarrow>
     (\<forall>p \<in> get_dst_layers m. \<exists>k mv. leaf_at r p = Some k \<and> mr p = Some mv \<and> usable k mv) \<longrightarrow>
     (\<exists>movement. concretize_abstracted_tensor_set_movement m (stencils_of l ml) (stencils_of r mr) = Inr movement))"

primrec wf_problem_tree ::
    "(unmapped_runtime_only_op_cost_estimate_key \<Rightarrow> machine_view \<Rightarrow> bool) \<Rightarrow> machine_mapping_problem_tree \<Rightarrow> bool" where
  "wf_problem_tree usable (MM_series m l r) \<longleftrightarrow>
     (\<forall>s \<in> set m. finite (dom (astm_edge_to_size s))) \<and>
     get_src_layers m \<subseteq> series_leaves l \<and> get_dst_layers m \<subseteq> series_leaves r \<and> movement_defined usable m l r \<and>
     wf_problem_tree usable l \<and> wf_problem_tree usable r"
| "wf_problem_tree usable (MM_parallel l r) \<longleftrightarrow> wf_problem_tree usable l \<and> wf_problem_tree usable r"
| "wf_problem_tree usable (MM_leaf k) \<longleftrightarrow> (\<exists>ts. leaf_task_space k = Inr ts)"

definition search_slice :: "machine_compute_resource_slice \<Rightarrow> bool" where
  "search_slice r \<longleftrightarrow> wf_slice r \<and> 2 * mcrs_num_nodes r \<le> INT_MAX \<and> 2 * mcrs_num_gpus_per_node r \<le> INT_MAX"

text \<open>Adding larger costs gives a larger cost, as it does for the \<open>float\<close>s of the code.\<close>

definition monotone_costs :: "'c::{linorder, plus} machine_mapping_context \<Rightarrow> bool" where
  "monotone_costs ctx \<longleftrightarrow> (\<forall>a b c d :: 'c. a \<le> b \<longrightarrow> c \<le> d \<longrightarrow> a + c \<le> b + d)"

text \<open>
  A slice on which a tree can be searched: for the leaves of this tree, and on the parts of this slice,
  the function for the allowed views returns finitely many views that start in the part.
\<close>

definition search_on ::
    "(unmapped_runtime_only_op_cost_estimate_key \<Rightarrow> machine_view \<Rightarrow> bool) \<Rightarrow> 'c machine_mapping_context \<Rightarrow>
     machine_mapping_problem_tree \<Rightarrow> machine_compute_resource_slice \<Rightarrow> bool" where
  "search_on usable ctx t rs \<longleftrightarrow> search_slice rs \<and>
     (\<forall>k \<in> ran (leaf_at t). \<forall>r. search_slice r \<longrightarrow> mcrs_num_nodes r \<le> mcrs_num_nodes rs \<longrightarrow>
        mcrs_num_gpus_per_node r \<le> mcrs_num_gpus_per_node rs \<longrightarrow>
        (\<exists>A. mmc_allowed_machine_views ctx k r = Inr A \<and> finite A \<and>
           (\<forall>mv \<in> A. usable k mv \<and> in_slice r (mv_start mv))))"

definition wf_constraints ::
    "(unmapped_runtime_only_op_cost_estimate_key \<Rightarrow> machine_view \<Rightarrow> bool) \<Rightarrow> machine_mapping_problem_tree \<Rightarrow>
     machine_mapping_constraints \<Rightarrow> bool" where
  "wf_constraints usable t c \<longleftrightarrow> dom c = dom (leaf_at t) \<and>
     (\<forall>p mv. c p = Some (Some mv) \<longrightarrow> p \<in> series_leaves t \<and> (\<exists>k. leaf_at t p = Some k \<and> usable k mv))"

section \<open>Facts about plans\<close>

lemma monotone_costsD:
  fixes ctx :: "'c::{linorder, plus} machine_mapping_context"
  shows "monotone_costs ctx \<Longrightarrow> a \<le> b \<Longrightarrow> c \<le> d \<Longrightarrow> a + c \<le> b + (d :: 'c)"
  by (simp add: monotone_costs_def)

lemma search_onD:
  assumes "search_on usable ctx t rs"
  shows "search_slice rs"
    and "leaf_at t p = Some k \<Longrightarrow> \<exists>A. mmc_allowed_machine_views ctx k rs = Inr A \<and> finite A \<and>
        (\<forall>mv \<in> A. usable k mv \<and> in_slice rs (mv_start mv))"
  using assms unfolding search_on_def by (blast intro: ranI order_refl)+

lemma search_on_mono:
  "search_on usable ctx t rs \<Longrightarrow> ran (leaf_at t') \<subseteq> ran (leaf_at t) \<Longrightarrow> search_slice r \<Longrightarrow>
     mcrs_num_nodes r \<le> mcrs_num_nodes rs \<Longrightarrow> mcrs_num_gpus_per_node r \<le> mcrs_num_gpus_per_node rs \<Longrightarrow>
     search_on usable ctx t' r"
  unfolding search_on_def by (meson order_trans subsetD)

lemma search_on_children:
  assumes "search_on usable ctx t rs" and "t = MM_series m l r \<or> t = MM_parallel l r"
  shows "search_on usable ctx l rs" and "search_on usable ctx r rs"
  using assms(2) by (auto intro!: search_on_mono [OF assms(1)] search_onD(1) [OF assms(1)] simp: ran_join_maps)

lemma series_leaves_subset: "series_leaves t \<subseteq> dom (leaf_at t)"
  by (induction t) (auto simp: dom_join_maps)

lemma finite_series_leaves [simp]: "finite (series_leaves t)"
  by (rule finite_subset [OF series_leaves_subset]) simp

lemma offset_mapping_dom:
  "finite (dom m) \<Longrightarrow> offset_layer_oblivious_mapping_by m s = Inr m' \<Longrightarrow> dom m' = dom m"
  using map_values_Inr [of m] by (fastforce simp: offset_layer_oblivious_mapping_by_def dom_def)

lemma series_planE:
  assumes "f \<in> series_plans ctx m l r P Q"
  obtains p q cost where "p \<in> P" and "q \<in> Q"
    and "movement_cost ctx m l r (fmr_machine_mapping p) (fmr_machine_mapping q) = Inr cost"
    and "f = \<lparr> fmr_runtime = fmr_runtime p + cost + fmr_runtime q,
              fmr_machine_mapping = join_maps (fmr_machine_mapping p) (fmr_machine_mapping q) \<rparr>"
  using assms unfolding series_plans_def by blast

lemma series_planI:
  "p \<in> P \<Longrightarrow> q \<in> Q \<Longrightarrow>
     movement_cost ctx m l r (fmr_machine_mapping p) (fmr_machine_mapping q) = Inr cost \<Longrightarrow>
     \<lparr> fmr_runtime = fmr_runtime p + cost + fmr_runtime q,
       fmr_machine_mapping = join_maps (fmr_machine_mapping p) (fmr_machine_mapping q) \<rparr>
     \<in> series_plans ctx m l r P Q"
  unfolding series_plans_def by blast

lemma parallel_planE:
  assumes "f \<in> plans ctx (MM_parallel l r) rs c"
  obtains (series) "f \<in> series_plans ctx [] l r (plans ctx l rs (child_map LEFT_CHILD c))
      (plans ctx r rs (child_map RIGHT_CHILD c))"
    | (split) splits s ls qs p q mq where "get_machine_resource_splits rs = Inr splits" and "s \<in> splits"
      and "apply_resource_split s rs = Inr (ls, qs)"
      and "p \<in> plans ctx l ls (child_map LEFT_CHILD c)" and "q \<in> plans ctx r qs (child_map RIGHT_CHILD c)"
      and "offset_layer_oblivious_mapping_by (fmr_machine_mapping q) s = Inr mq"
      and "f = \<lparr> fmr_runtime = max (fmr_runtime p) (fmr_runtime q),
              fmr_machine_mapping = join_maps (fmr_machine_mapping p) mq \<rparr>"
  using assms by (auto simp: side_by_side_def)

lemma plan_dom: "f \<in> plans ctx t rs c \<Longrightarrow> dom (fmr_machine_mapping f) = dom (leaf_at t)"
proof (induction t arbitrary: f rs c)
  case (MM_series m l r)
  from MM_series.prems have "f \<in> series_plans ctx m l r (plans ctx l rs (child_map LEFT_CHILD c))
      (plans ctx r rs (child_map RIGHT_CHILD c))" by simp
  then show ?case by (rule series_planE) (simp add: dom_join_maps MM_series.IH)
next
  case (MM_parallel l r)
  note IH = MM_parallel.IH
  from MM_parallel.prems show ?case
  proof (cases rule: parallel_planE)
    case series
    then show ?thesis by (rule series_planE) (simp add: dom_join_maps IH)
  next
    case (split splits s ls qs p q mq)
    have "dom mq = dom (leaf_at r)"
      using offset_mapping_dom [OF _ split(6)] IH(2) [OF split(5)] by simp
    then show ?thesis using IH(1) [OF split(4)] by (simp add: split(7) dom_join_maps)
  qed
next
  case (MM_leaf k)
  then show ?case
    by (auto simp: evaluate_machine_view_def make_singleton_machine_mapping_result_def binary_tree_root_path_def Let_def split: if_splits)
qed

lemma plan_finite: "f \<in> plans ctx t rs c \<Longrightarrow> finite (dom (fmr_machine_mapping f))"
  by (simp add: plan_dom)

lemma plan_at_series_leaf:
  assumes "f \<in> plans ctx t rs c" and "p \<in> series_leaves t" and "leaf_at t p = Some k"
  shows "\<exists>mv. fmr_machine_mapping f p = Some mv \<and>
    (case c p of Some (Some mv') \<Rightarrow> mv = mv'
     | _ \<Rightarrow> (\<exists>A. mmc_allowed_machine_views ctx k rs = Inr A \<and> mv \<in> A))"
  using assms
proof (induction t arbitrary: f p c)
  case (MM_series m l r)
  from MM_series.prems(1) have "f \<in> series_plans ctx m l r (plans ctx l rs (child_map LEFT_CHILD c))
      (plans ctx r rs (child_map RIGHT_CHILD c))" by simp
  then show ?case
  proof (rule series_planE)
    fix pl pr cost
    assume pl: "pl \<in> plans ctx l rs (child_map LEFT_CHILD c)" and pr: "pr \<in> plans ctx r rs (child_map RIGHT_CHILD c)"
      and f: "f = \<lparr> fmr_runtime = fmr_runtime pl + cost + fmr_runtime pr,
        fmr_machine_mapping = join_maps (fmr_machine_mapping pl) (fmr_machine_mapping pr) \<rparr>"
    from MM_series.prems(2) consider (left) q where "p = LEFT_CHILD # q" "q \<in> series_leaves l"
      | (right) q where "p = RIGHT_CHILD # q" "q \<in> series_leaves r" by auto
    then show ?thesis
    proof cases
      case left
      then show ?thesis using MM_series.IH(1) [OF pl left(2)] MM_series.prems(3) by (simp add: f)
    next
      case right
      then show ?thesis using MM_series.IH(2) [OF pr right(2)] MM_series.prems(3) by (simp add: f)
    qed
  qed
qed (auto simp: evaluate_machine_view_def make_singleton_machine_mapping_result_def
    binary_tree_root_path_def Let_def)

text \<open>Fixing the views of some undivided leaves selects the plans that have these views.\<close>

lemma child_constrain: "child_map e (constrain c a) = constrain (child_map e c) (child_map e a)"
  by (rule ext) (simp add: constrain_def split: option.split)

lemma constrain_empty [simp]: "dom a = {} \<Longrightarrow> constrain c a = c"
  by (rule ext) (simp add: constrain_def)

lemma evaluated_view: "Some f = evaluate_machine_view ctx k mv \<Longrightarrow> fmr_machine_mapping f [] = Some mv' \<longleftrightarrow> mv' = mv"
  by (auto simp: evaluate_machine_view_def make_singleton_machine_mapping_result_def
      binary_tree_root_path_def Let_def)

lemma plans_constrain:
  assumes "dom a \<subseteq> series_leaves t"
    and "\<And>p mv. a p = Some mv \<Longrightarrow> c p = Some None \<and>
      (\<exists>k A. leaf_at t p = Some k \<and> mmc_allowed_machine_views ctx k rs = Inr A \<and> mv \<in> A)"
  shows "f \<in> plans ctx t rs (constrain c a) \<longleftrightarrow>
    f \<in> plans ctx t rs c \<and> (\<forall>p \<in> dom a. fmr_machine_mapping f p = a p)"
  using assms
proof (induction t arbitrary: f a c)
  case (MM_series m l r)
  let ?al = "child_map LEFT_CHILD a" and ?ar = "child_map RIGHT_CHILD a"
  have dom: "dom ?al \<subseteq> series_leaves l" "dom ?ar \<subseteq> series_leaves r" "a [] = None"
  proof -
    have mem: "p \<in> Cons LEFT_CHILD ` series_leaves l \<union> Cons RIGHT_CHILD ` series_leaves r" if "a p \<noteq> None" for p
      using MM_series.prems(1) that by (auto simp: domIff)
    show "dom ?al \<subseteq> series_leaves l"
    proof
      fix p assume "p \<in> dom ?al"
      then show "p \<in> series_leaves l" using mem [of "LEFT_CHILD # p"] by (auto simp: domIff)
    qed
    show "dom ?ar \<subseteq> series_leaves r"
    proof
      fix p assume "p \<in> dom ?ar"
      then show "p \<in> series_leaves r" using mem [of "RIGHT_CHILD # p"] by (auto simp: domIff)
    qed
    show "a [] = None"
    proof (rule ccontr)
      assume "a [] \<noteq> None"
      from mem [OF this] show False by auto
    qed
  qed
  have l: "p \<in> plans ctx l rs (constrain (child_map LEFT_CHILD c) ?al) \<longleftrightarrow>
      p \<in> plans ctx l rs (child_map LEFT_CHILD c) \<and> (\<forall>x \<in> dom ?al. fmr_machine_mapping p x = ?al x)" for p
  proof (rule MM_series.IH(1) [OF dom(1)])
    fix q mv assume "child_map LEFT_CHILD a q = Some mv"
    then show "child_map LEFT_CHILD c q = Some None \<and> (\<exists>k A. leaf_at l q = Some k \<and>
        mmc_allowed_machine_views ctx k rs = Inr A \<and> mv \<in> A)"
      using MM_series.prems(2) [of "LEFT_CHILD # q" mv] by simp
  qed
  have r: "p \<in> plans ctx r rs (constrain (child_map RIGHT_CHILD c) ?ar) \<longleftrightarrow>
      p \<in> plans ctx r rs (child_map RIGHT_CHILD c) \<and> (\<forall>x \<in> dom ?ar. fmr_machine_mapping p x = ?ar x)" for p
  proof (rule MM_series.IH(2) [OF dom(2)])
    fix q mv assume "child_map RIGHT_CHILD a q = Some mv"
    then show "child_map RIGHT_CHILD c q = Some None \<and> (\<exists>k A. leaf_at r q = Some k \<and>
        mmc_allowed_machine_views ctx k rs = Inr A \<and> mv \<in> A)"
      using MM_series.prems(2) [of "RIGHT_CHILD # q" mv] by simp
  qed
  have agree: "(\<forall>x \<in> dom a. join_maps ml mr x = a x) \<longleftrightarrow>
      (\<forall>x \<in> dom ?al. ml x = ?al x) \<and> (\<forall>x \<in> dom ?ar. mr x = ?ar x)" for ml mr
  proof -
    have "dom a = Cons LEFT_CHILD ` dom ?al \<union> Cons RIGHT_CHILD ` dom ?ar"
      by (simp only: join_child_maps [of a, OF dom(3)] flip: dom_join_maps)
    then show ?thesis by (simp only: ball_Un ball_simps join_maps_simps child_map_simps)
  qed
  show ?case
  proof
    assume "f \<in> plans ctx (MM_series m l r) rs (constrain c a)"
    then have "f \<in> series_plans ctx m l r (plans ctx l rs (constrain (child_map LEFT_CHILD c) ?al))
        (plans ctx r rs (constrain (child_map RIGHT_CHILD c) ?ar))" by (simp add: child_constrain)
    then show "f \<in> plans ctx (MM_series m l r) rs c \<and> (\<forall>p \<in> dom a. fmr_machine_mapping f p = a p)"
      by (rule series_planE) (auto simp: l r agree intro: series_planI)
  next
    assume f: "f \<in> plans ctx (MM_series m l r) rs c \<and> (\<forall>p \<in> dom a. fmr_machine_mapping f p = a p)"
    then have "f \<in> series_plans ctx m l r (plans ctx l rs (child_map LEFT_CHILD c))
        (plans ctx r rs (child_map RIGHT_CHILD c))" by simp
    then show "f \<in> plans ctx (MM_series m l r) rs (constrain c a)"
    proof (rule series_planE)
      fix p q cost
      assume "p \<in> plans ctx l rs (child_map LEFT_CHILD c)" and "q \<in> plans ctx r rs (child_map RIGHT_CHILD c)"
        and cost: "movement_cost ctx m l r (fmr_machine_mapping p) (fmr_machine_mapping q) = Inr cost"
        and eq: "f = \<lparr> fmr_runtime = fmr_runtime p + cost + fmr_runtime q,
          fmr_machine_mapping = join_maps (fmr_machine_mapping p) (fmr_machine_mapping q) \<rparr>"
      with f have "p \<in> plans ctx l rs (constrain (child_map LEFT_CHILD c) ?al)"
        and "q \<in> plans ctx r rs (constrain (child_map RIGHT_CHILD c) ?ar)"
        by (simp_all add: l r agree)
      from series_planI [OF this cost] show ?thesis by (simp add: eq child_constrain)
    qed
  qed
next
  case (MM_parallel l r)
  then show ?case by simp
next
  case (MM_leaf k)
  show ?case
  proof (cases "a []")
    case None
    then have "dom a = {}" using MM_leaf.prems(1) unfolding series_leaves.simps by (metis domIff subset_singletonD singletonI)
    then show ?thesis by simp
  next
    case (Some mv)
    then have "dom a = {[]}" and "c [] = Some None"
      and "\<exists>A. mmc_allowed_machine_views ctx k rs = Inr A \<and> mv \<in> A"
      using MM_leaf.prems by (auto simp: domIff subset_iff)
    then obtain A where A: "mmc_allowed_machine_views ctx k rs = Inr A" "mv \<in> A" by blast
    have "f \<in> plans ctx (MM_leaf k) rs (constrain c a) \<longleftrightarrow> Some f = evaluate_machine_view ctx k mv"
      by (simp add: constrain_def Some)
    also have "\<dots> \<longleftrightarrow> (\<exists>mv' \<in> A. Some f = evaluate_machine_view ctx k mv') \<and> fmr_machine_mapping f [] = Some mv"
      by (metis A(2) evaluated_view)
    also have "\<dots> \<longleftrightarrow> f \<in> plans ctx (MM_leaf k) rs c \<and> (\<forall>p \<in> dom a. fmr_machine_mapping f p = a p)"
      by (auto simp: A(1) \<open>c [] = Some None\<close> \<open>dom a = {[]}\<close> Some)
    finally show ?thesis .
  qed
qed

lemma in_slice_map:
  assumes "finite (dom m)" and "\<forall>mv \<in> ran m. in_slice qs (mv_start mv)"
    and "apply_resource_split s rs = Inr (ls, qs)" and "search_slice rs"
  shows "\<exists>m'. offset_layer_oblivious_mapping_by m s = Inr m' \<and> (\<forall>mv \<in> ran m'. in_slice rs (mv_start mv))"
proof -
  have bounds: "mcrs_num_nodes rs \<le> INT_MAX" "mcrs_num_gpus_per_node rs \<le> INT_MAX"
    using assms(4) by (auto simp: search_slice_def)
  define g :: "machine_view \<Rightarrow> machine_view" where
    "g mv = MachineView (projr (offset_machine_space_coordinate_by (mv_start mv) s)) (mv_dimensions mv)" for mv
  have g: "offset_machine_view_by mv s = Inr (g mv) \<and> in_slice rs (mv_start (g mv))" if "mv \<in> ran m" for mv
  proof -
    have q: "in_slice qs (mv_start mv)" using assms(2) that by blast
    then obtain c where c: "offset_machine_space_coordinate_by (mv_start mv) s = Inr c"
      using in_slice_split(3) [OF assms(3) bounds] by blast
    then have "in_slice rs c" using in_slice_split(1) [OF assms(3) bounds, of c] q by blast
    then show ?thesis using c by (simp add: offset_machine_view_by_def g_def)
  qed
  have "offset_layer_oblivious_mapping_by m s = Inr (map_option g \<circ> m)"
    unfolding offset_layer_oblivious_mapping_by_def by (rule map_values_eq [OF assms(1)]) (simp add: g)
  moreover have "\<forall>mv \<in> ran (map_option g \<circ> m). in_slice rs (mv_start mv)"
    using g by (fastforce simp: ran_def)
  ultimately show ?thesis by blast
qed

lemma split_search_slice:
  assumes "apply_resource_split s rs = Inr (ls, qs)" and "s \<in> splits" and "get_machine_resource_splits rs = Inr splits"
    and "search_slice rs"
  shows "search_slice ls" and "search_slice qs" and "in_slice ls c \<Longrightarrow> in_slice rs c"
proof -
  have bounds: "mcrs_num_nodes rs \<le> INT_MAX" "mcrs_num_gpus_per_node rs \<le> INT_MAX"
    "2 * mcrs_num_nodes rs \<le> INT_MAX" "2 * mcrs_num_gpus_per_node rs \<le> INT_MAX"
    using assms(4) by (auto simp: search_slice_def)
  show "in_slice ls c \<Longrightarrow> in_slice rs c" using in_slice_split(1) [OF assms(1) bounds(1,2), of c] by blast
  have "splits = splits_of INTER_NODE (mcrs_num_nodes rs) 1 \<union> splits_of INTRA_NODE (mcrs_num_gpus_per_node rs) 1"
    using assms(3) resource_splits_eq [OF bounds(3,4)] by simp
  then have "0 < split_offset s"
    using assms(2) doublings_less by (fastforce simp: splits_of_def)
  then show "search_slice ls" and "search_slice qs"
    using assms(1,4) by (auto simp: search_slice_def wf_slice_def valid_pos_def apply_split_eq
        split: machine_specification_dimension.splits)
qed

lemma split_search_on:
  assumes "apply_resource_split s rs = Inr (ls, qs)" and "s \<in> splits" and "get_machine_resource_splits rs = Inr splits"
  shows "search_on usable ctx t rs \<Longrightarrow> search_on usable ctx t ls" and "search_on usable ctx t rs \<Longrightarrow> search_on usable ctx t qs"
proof -
  assume on: "search_on usable ctx t rs"
  note slices = split_search_slice(1,2) [OF assms search_onD(1) [OF on]]
  have "mcrs_num_nodes ls \<le> mcrs_num_nodes rs \<and> mcrs_num_gpus_per_node ls \<le> mcrs_num_gpus_per_node rs \<and>
      mcrs_num_nodes qs \<le> mcrs_num_nodes rs \<and> mcrs_num_gpus_per_node qs \<le> mcrs_num_gpus_per_node rs"
    using assms(1) by (auto simp: apply_split_eq split: machine_specification_dimension.splits)
  then show "search_on usable ctx t ls" "search_on usable ctx t qs"
    using search_on_mono [OF on order_refl slices(1)] search_on_mono [OF on order_refl slices(2)] by blast+
qed

lemma plan_in_slice:
  assumes "search_on usable ctx t rs" and "f \<in> plans ctx t rs c" and "\<And>p mv. c p \<noteq> Some (Some mv)"
  shows "\<forall>mv \<in> ran (fmr_machine_mapping f). in_slice rs (mv_start mv)"
  using assms
proof (induction t arbitrary: f rs c)
  case (MM_series m l r)
  note IH = MM_series.IH and on = search_on_children [OF MM_series.prems(1) disjI1 [OF refl]]
  from MM_series.prems(2) have "f \<in> series_plans ctx m l r (plans ctx l rs (child_map LEFT_CHILD c))
      (plans ctx r rs (child_map RIGHT_CHILD c))" by simp
  then show ?case
  proof (rule series_planE)
    fix p q cost
    assume p: "p \<in> plans ctx l rs (child_map LEFT_CHILD c)" and q: "q \<in> plans ctx r rs (child_map RIGHT_CHILD c)"
      and f: "f = \<lparr> fmr_runtime = fmr_runtime p + cost + fmr_runtime q,
        fmr_machine_mapping = join_maps (fmr_machine_mapping p) (fmr_machine_mapping q) \<rparr>"
    show ?thesis
      using IH(1) [OF on(1) p] IH(2) [OF on(2) q] MM_series.prems(3)
      by (auto simp: f ran_join_maps)
  qed
next
  case (MM_parallel l r)
  note IH = MM_parallel.IH and on = search_on_children [OF MM_parallel.prems(1) disjI2 [OF refl]]
  from MM_parallel.prems(2) show ?case
  proof (cases rule: parallel_planE)
    case series
    then show ?thesis
    proof (rule series_planE)
      fix p q cost
      assume p: "p \<in> plans ctx l rs (child_map LEFT_CHILD c)" and q: "q \<in> plans ctx r rs (child_map RIGHT_CHILD c)"
        and f: "f = \<lparr> fmr_runtime = fmr_runtime p + cost + fmr_runtime q,
          fmr_machine_mapping = join_maps (fmr_machine_mapping p) (fmr_machine_mapping q) \<rparr>"
      show ?thesis
        using IH(1) [OF on(1) p] IH(2) [OF on(2) q] MM_parallel.prems(3) by (auto simp: f ran_join_maps)
    qed
  next
    case (split splits s ls qs p q mq)
    note slice = search_onD(1) [OF MM_parallel.prems(1)]
    note parts = split_search_on [OF split(3,2,1)] and inside = split_search_slice(3) [OF split(3,2,1) slice]
    have p: "\<forall>mv \<in> ran (fmr_machine_mapping p). in_slice ls (mv_start mv)"
      using IH(1) [OF parts(1) [OF on(1)] split(4)] MM_parallel.prems(3) by simp
    have q: "\<forall>mv \<in> ran (fmr_machine_mapping q). in_slice qs (mv_start mv)"
      using IH(2) [OF parts(2) [OF on(2)] split(5)] MM_parallel.prems(3) by simp
    from in_slice_map [OF plan_finite [OF split(5)] q split(3) slice] split(6)
    have "\<forall>mv \<in> ran mq. in_slice rs (mv_start mv)" by auto
    then show ?thesis using p inside by (auto simp: split(7) ran_join_maps)
  qed
next
  case (MM_leaf k)
  then obtain mv A where "mmc_allowed_machine_views ctx k rs = Inr A" "mv \<in> A" "Some f = evaluate_machine_view ctx k mv"
    by (auto split: option.splits)
  moreover obtain A' where "mmc_allowed_machine_views ctx k rs = Inr A'" "\<forall>mv \<in> A'. in_slice rs (mv_start mv)"
    using search_onD(2) [OF MM_leaf.prems(1), of "[]" k] by auto
  moreover have "ran [binary_tree_root_path \<mapsto> mv] = {mv}" by simp
  ultimately show ?case
    by (auto simp: evaluate_machine_view_def make_singleton_machine_mapping_result_def Let_def fun_upd_def)
qed

end
