(* ===== verification/Search_Context.thy ===== *)
theory Search_Context
  imports Mapping_Search
begin

text \<open>
  The context that \<open>graph_optimize\<close> of \<open>lib/compiler/src/compiler/unity_algorithm/unity_algorithm.cc\<close>
  hands to the mapping search: the cost estimator is a parameter, and the allowed views of an operator are
  those of its task space. The lemmas show on which trees and slices the search can use it.
\<close>

section \<open>The context\<close>

text \<open>
  The function stops for a parallel operator and where a number does not fit an \<open>int\<close>. \<open>None\<close> would stand
  for a loop that does not end, which does not occur (\<open>unity_views_eq\<close>).
\<close>

definition unity_allowed_machine_views ::
    "unmapped_runtime_only_op_cost_estimate_key \<Rightarrow> machine_compute_resource_slice \<Rightarrow> machine_view set res" where
  "unity_allowed_machine_views key resources =
     res_bind (get_operator_task_space_for_runtime_only_op_cost_estimate_key key) (\<lambda>op_task_space.
     res_bind (get_allowed_machine_views resources op_task_space) optional_value)"

definition unity_context ::
    "(runtime_only_op_cost_estimate_key \<Rightarrow> 'c runtime_only_op_cost_metrics) \<Rightarrow> (tensor_set_movement \<Rightarrow> 'c) \<Rightarrow>
     'c machine_mapping_context" where
  "unity_context estimate_op_cost estimate_movement_cost =
     \<lparr> mmc_estimate_op_cost = estimate_op_cost, mmc_estimate_movement_cost = estimate_movement_cost,
       mmc_allowed_machine_views = unity_allowed_machine_views \<rparr>"

section \<open>Where the search can use it\<close>

text \<open>A view that is valid somewhere for the task space of the operator.\<close>

definition unity_view :: "unmapped_runtime_only_op_cost_estimate_key \<Rightarrow> machine_view \<Rightarrow> bool" where
  "unity_view k mv \<longleftrightarrow> (\<exists>ts r. leaf_task_space k = Inr ts \<and> is_valid_machine_view mv ts r = Inr True)"

text \<open>Every leaf has a task space, and the greatest grid of its candidate views fits an \<open>int\<close>.\<close>

definition views_computable :: "machine_mapping_problem_tree \<Rightarrow> machine_compute_resource_slice \<Rightarrow> bool" where
  "views_computable t rs \<longleftrightarrow> (\<forall>k \<in> ran (leaf_at t). \<exists>ts. leaf_task_space k = Inr ts \<and> wf_task_space ts \<and>
     (let n = mcrs_num_nodes rs * mcrs_num_gpus_per_node rs in n + prod_list ts * max_stride ts n ^ length ts < INT_MAX))"

lemma task_space_for_key:
  "leaf_task_space k = Inr ts \<Longrightarrow> get_operator_task_space_for_runtime_only_op_cost_estimate_key k = Inr ts"
  by (auto simp: leaf_task_space_def get_operator_task_space_for_runtime_only_op_cost_estimate_key_def
      optional_value_def assert_unwrap_def split: option.splits)

lemma max_stride_mono: "n \<le> n' \<Longrightarrow> max_stride ts n \<le> max_stride ts n'"
  unfolding max_stride_def by (intro div_le_mono) simp

lemma unity_views_eq:
  assumes "leaf_task_space k = Inr ts" and "wf_task_space ts" and "wf_slice r"
    and room: "mcrs_num_nodes r * mcrs_num_gpus_per_node r +
      prod_list ts * max_stride ts (mcrs_num_nodes r * mcrs_num_gpus_per_node r) ^ length ts < INT_MAX"
  shows "\<exists>A. unity_allowed_machine_views k r = Inr A \<and> finite A \<and>
    (\<forall>mv. mv \<in> A \<longleftrightarrow> mv \<in> candidate_views r ts \<and> is_valid_machine_view mv ts r = Inr True)"
proof -
  obtain o1 where o1: "get_allowed_machine_views r ts = Inr o1" using allowed_views_return [OF assms(2-4)] by blast
  from allowed_views_eq [OF assms(2,3) o1] show ?thesis
    using o1 by (auto simp: unity_allowed_machine_views_def task_space_for_key [OF assms(1)])
qed

lemma unity_context_serves:
  assumes "search_slice rs" and "views_computable t rs"
  shows "search_on unity_view (unity_context op_cost movement) t rs"
  unfolding search_on_def
proof (intro conjI ballI allI impI)
  show "search_slice rs" by fact
  fix k and r :: machine_compute_resource_slice
  let ?n = "mcrs_num_nodes r * mcrs_num_gpus_per_node r" and ?n' = "mcrs_num_nodes rs * mcrs_num_gpus_per_node rs"
  assume k: "k \<in> ran (leaf_at t)" and r: "search_slice r" and le: "mcrs_num_nodes r \<le> mcrs_num_nodes rs"
    "mcrs_num_gpus_per_node r \<le> mcrs_num_gpus_per_node rs"
  obtain ts where ts: "leaf_task_space k = Inr ts" "wf_task_space ts"
    and room: "?n' + prod_list ts * max_stride ts ?n' ^ length ts < INT_MAX"
    using assms(2) k by (auto simp: views_computable_def Let_def)
  have n: "?n \<le> ?n'" using le by (rule mult_le_mono)
  then have "prod_list ts * max_stride ts ?n ^ length ts \<le> prod_list ts * max_stride ts ?n' ^ length ts"
    by (intro mult_le_mono2 power_mono max_stride_mono) simp_all
  with n room have "?n + prod_list ts * max_stride ts ?n ^ length ts < INT_MAX" by linarith
  from unity_views_eq [OF ts _ this] r obtain A where A: "unity_allowed_machine_views k r = Inr A" "finite A"
    "\<forall>mv. mv \<in> A \<longleftrightarrow> mv \<in> candidate_views r ts \<and> is_valid_machine_view mv ts r = Inr True"
    by (auto simp: search_slice_def)
  moreover have "unity_view k mv \<and> in_slice r (mv_start mv)" if "mv \<in> A" for mv
    using A(3) that ts(1) by (auto simp: unity_view_def candidate_views_def)
  ultimately show "\<exists>A. mmc_allowed_machine_views (unity_context op_cost movement) k r = Inr A \<and> finite A \<and>
      (\<forall>mv \<in> A. unity_view k mv \<and> in_slice r (mv_start mv))"
    by (auto simp: unity_context_def)
qed

lemma monotone_nat_costs: "monotone_costs (ctx :: nat machine_mapping_context)"
  by (simp add: monotone_costs_def add_mono)

section \<open>Small instances\<close>

text \<open>An input of four numbers on one device, and the movement of its 16 bytes to its copy.\<close>

definition input_leaf :: unmapped_runtime_only_op_cost_estimate_key where
  "input_leaf = \<lparr> uk_op_attrs = PCG_input (TensorShape [4] FLOAT), uk_input_shapes = Map.empty,
     uk_weight_shapes = Map.empty, uk_output_shapes = Map.empty \<rparr>"

definition two_leaves_movement :: abstracted_tensor_set_movement where
  "two_leaves_movement = [\<lparr> astm_src_op_tree_path = [], astm_edge_to_size =
     [\<lparr> astce_src_coord = [], astce_dst = \<lparr> ad_operator_tree_path = [], ad_task_space_coordinate = [] \<rparr> \<rparr> \<mapsto> 16] \<rparr>]"

lemma input_leaf_task_space: "leaf_task_space input_leaf = Inr []"
  by (simp add: leaf_task_space_def input_leaf_def input_get_operator_task_space_def trivial_op_task_space_def
      require_def)

lemma trivial_maximum_coordinate: "get_task_space_maximum_coordinate [] = Inr []"
  by (simp add: get_task_space_maximum_coordinate_def maximum_def task_space_coords_eq)

lemma input_leaf_view: "unity_view input_leaf mv \<Longrightarrow> \<exists>c. get_machine_space_coordinate [] mv [] = Inr c"
  by (auto simp: unity_view_def input_leaf_task_space is_valid_machine_view_def trivial_maximum_coordinate split: if_splits)

lemma ran_leaf: "ran (leaf_at (MM_leaf k)) = {k}"
  by (auto simp: ran_def split: if_splits)

lemma input_leaf_computable:
  assumes "n \<le> 2" and "k \<in> {input_leaf}"
  shows "\<exists>ts. leaf_task_space k = Inr ts \<and> wf_task_space ts \<and> n + prod_list ts * max_stride ts n ^ length ts < INT_MAX"
  using assms by (intro exI [of _ "[]"]) (simp add: input_leaf_task_space wf_task_space_def INT_MAX_def)

lemma two_leaves_computable:
  assumes "n \<le> 2"
  shows "views_computable (MM_series m (MM_leaf input_leaf) (MM_leaf input_leaf)) (MachineComputeResourceSlice 1 n)"
    and "views_computable (MM_parallel (MM_leaf input_leaf) (MM_leaf input_leaf)) (MachineComputeResourceSlice 1 n)"
    and "views_computable (MM_leaf input_leaf) (MachineComputeResourceSlice 1 n)"
  using input_leaf_computable [OF assms]
  by (simp_all add: views_computable_def ran_join_maps ran_leaf del: leaf_at.simps(3))

lemma small_slice: "0 < n \<Longrightarrow> n \<le> 2 \<Longrightarrow> search_slice (MachineComputeResourceSlice 1 n)"
  by (simp add: search_slice_def wf_slice_def valid_pos_def INT_MAX_def)

lemma input_leaf_wf: "wf_problem_tree unity_view (MM_leaf input_leaf)"
  by (simp add: input_leaf_task_space)

lemma two_leaves_wf:
  "wf_problem_tree unity_view (MM_series two_leaves_movement (MM_leaf input_leaf) (MM_leaf input_leaf))"
  "wf_problem_tree unity_view (MM_parallel (MM_leaf input_leaf) (MM_leaf input_leaf))"
proof -
  have "movement_defined unity_view two_leaves_movement (MM_leaf input_leaf) (MM_leaf input_leaf)"
    unfolding movement_defined_def
  proof (intro allI impI)
    fix ml mr :: parallel_layer_guid_oblivious_machine_mapping
    assume "\<forall>p \<in> get_src_layers two_leaves_movement. \<exists>k mv. leaf_at (MM_leaf input_leaf) p = Some k \<and> ml p = Some mv \<and> unity_view k mv"
      and "\<forall>p \<in> get_dst_layers two_leaves_movement. \<exists>k mv. leaf_at (MM_leaf input_leaf) p = Some k \<and> mr p = Some mv \<and> unity_view k mv"
    then obtain mv mv' where mv: "ml [] = Some mv" "unity_view input_leaf mv" "mr [] = Some mv'" "unity_view input_leaf mv'"
      by (auto simp: two_leaves_movement_def get_src_layers_def get_dst_layers_def
          abstracted_single_tensor_movement_get_dst_layers_def)
    obtain c c' where c: "get_machine_space_coordinate [] mv [] = Inr c" "get_machine_space_coordinate [] mv' [] = Inr c'"
      using input_leaf_view mv by meson
    have s: "stencils_of (MM_leaf input_leaf) ml [] = Some \<lparr> mss_operator_task_space = [], mss_machine_view = mv \<rparr>"
      "stencils_of (MM_leaf input_leaf) mr [] = Some \<lparr> mss_operator_task_space = [], mss_machine_view = mv' \<rparr>"
      using mv by (simp_all add: stencils_of_def input_leaf_task_space)
    show "\<exists>movement. concretize_abstracted_tensor_set_movement two_leaves_movement
        (stencils_of (MM_leaf input_leaf) ml) (stencils_of (MM_leaf input_leaf) mr) = Inr movement"
      using s c
      by (cases "c = c'") (simp_all add: two_leaves_movement_def concretize_abstracted_tensor_set_movement_def
          concretize_abstracted_single_tensor_movement_def concretize_abstracted_single_tensor_communication_edge_def
          concretize_abstracted_device_def machine_space_stencil_compute_machine_coord_def mk_communication_edge_def
          map_at_def map_entries_def merge_tensor_set_movements_def binary_merge_maps_with_def domIff
          empty_tensor_set_movement_def generate_map_def require_def)
  qed
  then show "wf_problem_tree unity_view (MM_series two_leaves_movement (MM_leaf input_leaf) (MM_leaf input_leaf))"
    by (auto simp: two_leaves_movement_def get_src_layers_def get_dst_layers_def
        abstracted_single_tensor_movement_get_dst_layers_def input_leaf_task_space)
  show "wf_problem_tree unity_view (MM_parallel (MM_leaf input_leaf) (MM_leaf input_leaf))"
    by (simp add: input_leaf_task_space)
qed

end
