(* ===== verification/Search_Correctness.thy ===== *)
theory Search_Correctness
  imports Search_Context
begin

text \<open>
  The machine mapping search is correct: it returns a plan of least cost, and an infeasible result
  exactly when there is no plan. The lemmas follow the code: the assignments of the boundary layers, the
  two loops of a series split, the loop over the resource splits, and the cache.
\<close>

section \<open>Assignments\<close>

lemma all_assignments:
  assumes "finite (dom options)" and "\<And>A. A \<in> ran options \<Longrightarrow> finite A"
  shows "\<exists>assignments. get_all_assignments options = Inr assignments \<and>
    set assignments = {a. dom a = dom options \<and> (\<forall>k v. a k = Some v \<longrightarrow> v \<in> the (options k))}"
proof (cases "dom options = {}")
  case True
  then show ?thesis by (auto simp: get_all_assignments_def)
next
  case False
  define ks where "ks = sorted_list_of_set (dom options)"
  have ks: "set ks = dom options" "distinct ks" using assms(1) by (simp_all add: ks_def)
  define vss where "vss = map (\<lambda>k. sorted_list_of_set (the (options k))) ks"
  have sets: "res_map (map_at options) ks = Inr (map (\<lambda>k. the (options k)) ks)"
    by (rule res_map_Inr_on) (auto simp: ks map_at_def split: option.split)
  have len: "length vs = length ks" if "vs \<in> set (cartesian_product vss)" for vs
    using that by (auto simp: cartesian_product_iff vss_def dest: list_all2_lengthD)
  have "res_map (\<lambda>chosen_values. res_bind (zip_strict ks chosen_values) (\<lambda>kvs. Inr (map_from_pairs kvs)))
      (cartesian_product vss) = Inr (map (\<lambda>vs. map_of (zip ks vs)) (cartesian_product vss))"
    by (rule res_map_Inr_on) (simp add: len zip_strict_eq map_from_pairs_def)
  then have run: "get_all_assignments options = Inr (map (\<lambda>vs. map_of (zip ks vs)) (cartesian_product vss))"
    using False sets by (simp add: get_all_assignments_def vss_def comp_def flip: ks_def)
  have fin: "finite (the (options k))" if "k \<in> set ks" for k
    using that assms(2) by (metis domD option.sel ks(1) ranI)
  have "map_of (zip ks vs) \<in> {a. dom a = dom options \<and> (\<forall>k v. a k = Some v \<longrightarrow> v \<in> the (options k))}"
    if vs: "vs \<in> set (cartesian_product vss)" for vs
  proof -
    have "v \<in> the (options k)" if "map_of (zip ks vs) k = Some v" for k v
    proof -
      from map_of_SomeD [OF that] obtain i where i: "i < length ks" "k = ks ! i" "v = vs ! i"
        by (auto simp: in_set_zip)
      have "vs ! i \<in> set (vss ! i)"
        using vs i(1) by (simp add: cartesian_product_iff list_all2_conv_all_nth len [OF vs])
      then show ?thesis using i fin [of k] by (simp add: vss_def)
    qed
    then show ?thesis using len [OF vs] by (simp add: ks)
  qed
  moreover have "a \<in> (\<lambda>vs. map_of (zip ks vs)) ` set (cartesian_product vss)"
    if a: "dom a = dom options" "\<forall>k v. a k = Some v \<longrightarrow> v \<in> the (options k)" for a
  proof (rule image_eqI)
    show "a = map_of (zip ks (map (\<lambda>k. the (a k)) ks))"
    proof
      fix k show "a k = map_of (zip ks (map (\<lambda>k. the (a k)) ks)) k"
        using a(1) by (cases "a k") (auto simp: map_of_zip_map ks)
    qed
    show "map (\<lambda>k. the (a k)) ks \<in> set (cartesian_product vss)"
    proof -
      have "the (a k) \<in> set (sorted_list_of_set (the (options k)))" if k: "k \<in> set ks" for k
      proof -
        obtain v where "a k = Some v" using k a(1) ks by auto
        then show ?thesis using a(2) fin [OF k] by simp
      qed
      then show ?thesis by (simp add: cartesian_product_iff vss_def list_all2_map1 list_all2_map2 list_all2_same)
    qed
  qed
  ultimately have "set (map (\<lambda>vs. map_of (zip ks vs)) (cartesian_product vss)) =
      {a. dom a = dom options \<and> (\<forall>k v. a k = Some v \<longrightarrow> v \<in> the (options k))}"
    by (simp only: set_map) blast
  then show ?thesis using run by blast
qed

text \<open>The views an assignment may give to the boundary layers of a child.\<close>

definition boundary_assignments ::
    "'c machine_mapping_context \<Rightarrow> machine_compute_resource_slice \<Rightarrow> machine_mapping_problem_tree \<Rightarrow>
     machine_mapping_constraints \<Rightarrow> binary_tree_path set \<Rightarrow> parallel_layer_guid_oblivious_machine_mapping set" where
  "boundary_assignments ctx rs t c layers =
     {a. dom a = layers - {p. \<exists>mv. c p = Some (Some mv)} \<and>
       (\<forall>p mv. a p = Some mv \<longrightarrow> (\<exists>k A. leaf_at t p = Some k \<and> mmc_allowed_machine_views ctx k rs = Inr A \<and> mv \<in> A))}"

lemma boundary_assignments_eq:
  assumes on: "search_on usable ctx t rs" and "finite (dom c)" and "c [] = None"
    and "dom (child_map e c) = dom (leaf_at t)" and "layers \<subseteq> dom (leaf_at t)"
  shows "\<exists>assignments. get_boundary_machine_view_assignments ctx c rs layers t e = Inr assignments \<and>
    set assignments = boundary_assignments ctx rs t (child_map e c) layers"
proof -
  define free where "free = layers - {p. \<exists>mv. child_map e c p = Some (Some mv)}"
  have "finite free" using assms(5) finite_subset [of layers "dom (leaf_at t)"] by (simp add: free_def)
  define views where "views p = projr (mmc_allowed_machine_views ctx (the (leaf_at t p)) rs)" for p
  have leaf: "\<exists>k. leaf_at t p = Some k \<and> mmc_allowed_machine_views ctx k rs = Inr (views p) \<and> finite (views p)"
    if "p \<in> free" for p
  proof -
    have "p \<in> layers" using that by (simp add: free_def)
    then obtain k where k: "leaf_at t p = Some k" using assms(5) by blast
    then show ?thesis using search_onD(2) [OF on, of p k] by (auto simp: views_def)
  qed
  let ?options = "\<lambda>p. if p \<in> set (sorted_list_of_set free) then Some (views p) else None"
  have gen: "generate_map (sorted_list_of_set free) (\<lambda>l.
         res_bind (optional_value (mm_problem_tree_get_subtree_at_path t l)) (\<lambda>subtree.
         res_bind (require_leaf subtree) (\<lambda>leaf. mmc_allowed_machine_views ctx leaf rs))) = Inr ?options"
  proof (rule generate_map_eq)
    fix p assume "p \<in> set (sorted_list_of_set free)"
    then obtain k where "leaf_at t p = Some k" "mmc_allowed_machine_views ctx k rs = Inr (views p)"
      using leaf \<open>finite free\<close> by auto
    then show "res_bind (optional_value (mm_problem_tree_get_subtree_at_path t p)) (\<lambda>subtree.
         res_bind (require_leaf subtree) (\<lambda>leaf. mmc_allowed_machine_views ctx leaf rs)) = Inr (views p)"
      by (simp add: get_subtree_at_leaf)
  qed
  have dom: "dom ?options = free" using \<open>finite free\<close> by (auto split: if_splits)
  obtain as where as: "get_all_assignments ?options = Inr as"
    "set as = {a. dom a = dom ?options \<and> (\<forall>k v. a k = Some v \<longrightarrow> v \<in> the (?options k))}"
    using all_assignments [of ?options] \<open>finite free\<close> leaf dom
    by (fastforce simp: ran_def split: if_splits)
  have "get_boundary_machine_view_assignments ctx c rs layers t e = Inr as"
    using as(1) gen assms(2-4)
    by (simp add: get_boundary_machine_view_assignments_def path_ops get_all_leaf_paths_eq free_def)
  moreover have "set as = boundary_assignments ctx rs t (child_map e c) layers"
  proof (rule set_eqI)
    fix a
    have "(\<forall>k v. a k = Some v \<longrightarrow> v \<in> the (?options k)) \<longleftrightarrow>
        (\<forall>p mv. a p = Some mv \<longrightarrow> (\<exists>k A. leaf_at t p = Some k \<and> mmc_allowed_machine_views ctx k rs = Inr A \<and> mv \<in> A))"
      if "dom a = free"
    proof -
      have "v \<in> the (?options p) \<longleftrightarrow> (\<exists>k A. leaf_at t p = Some k \<and> mmc_allowed_machine_views ctx k rs = Inr A \<and> v \<in> A)"
        if "a p = Some v" for p v
      proof -
        have "p \<in> free" using that \<open>dom a = free\<close> by blast
        then show ?thesis using leaf [of p] \<open>finite free\<close> by auto
      qed
      then show ?thesis by blast
    qed
    then show "a \<in> set as \<longleftrightarrow> a \<in> boundary_assignments ctx rs t (child_map e c) layers"
      unfolding as(2) dom boundary_assignments_def free_def [symmetric] by blast
  qed
  ultimately show ?thesis by blast
qed

section \<open>The loops of a series split\<close>

lemma is_minimal_dominated:
  assumes "is_minimal r A" and "A \<subseteq> B"
    and "\<And>g. Some g \<in> B \<Longrightarrow> \<exists>h. Some h \<in> A \<and> fmr_runtime h \<le> fmr_runtime g"
  shows "is_minimal r B"
proof (cases r)
  case None
  then have "A \<subseteq> {None}" using assms(1) by (simp add: is_minimal_def)
  then have "Some g \<notin> B" for g using assms(3) by blast
  then show ?thesis using None by (auto simp: is_minimal_def) (metis option.exhaust)
next
  case (Some f)
  then have f: "Some f \<in> A" "\<And>g. Some g \<in> A \<Longrightarrow> fmr_runtime f \<le> fmr_runtime g"
    using assms(1) by (auto simp: is_minimal_def)
  have "fmr_runtime f \<le> fmr_runtime g" if "Some g \<in> B" for g
    using assms(3) [OF that] f(2) order_trans by blast
  then show ?thesis using Some f(1) assms(2) by (auto simp: is_minimal_def)
qed

lemma minimal_runtime_unique:
  "is_minimal r (Some ` P) \<Longrightarrow> is_minimal s (Some ` P) \<Longrightarrow> map_option fmr_runtime r = map_option fmr_runtime s"
  by (cases r; cases s) (auto simp: is_minimal_def intro: order_antisym)


lemma infeasible_minimal: "is_minimal infeasible_machine_mapping_result {}"
  by (simp add: is_minimal_def infeasible_machine_mapping_result_def)

lemma is_minimal_image:
  assumes "is_minimal (Some f) (Some ` P)"
    and "\<And>p. p \<in> P \<Longrightarrow> fmr_runtime f \<le> fmr_runtime p \<Longrightarrow> fmr_runtime (g f) \<le> fmr_runtime (g p)"
  shows "is_minimal (Some (g f)) (Some ` g ` P)"
  using assms by (auto simp: is_minimal_def)

text \<open>
  The cache holds only results that are right, and a search for a tree writes only entries for trees
  that are not larger.
\<close>

definition right_result ::
    "(unmapped_runtime_only_op_cost_estimate_key \<Rightarrow> machine_view \<Rightarrow> bool) \<Rightarrow>
     'c::{linorder, plus} machine_mapping_context \<Rightarrow> machine_mapping_state \<Rightarrow> 'c machine_mapping_result \<Rightarrow> bool" where
  "right_result usable ctx st res \<longleftrightarrow>
     (wf_problem_tree usable (mms_problem_tree st) \<longrightarrow> search_on usable ctx (mms_problem_tree st) (mms_resources st) \<longrightarrow>
      wf_constraints usable (mms_problem_tree st) (mms_constraints st) \<longrightarrow>
      is_minimal res (Some ` plans ctx (mms_problem_tree st) (mms_resources st) (mms_constraints st)))"

abbreviation states_below :: "nat \<Rightarrow> machine_mapping_state set" where
  "states_below n \<equiv> {st. size (mms_problem_tree st) < n}"

text \<open>A step of the search that starts with a right cache returns a value, and leaves a right cache.\<close>

definition returns ::
    "(unmapped_runtime_only_op_cost_estimate_key \<Rightarrow> machine_view \<Rightarrow> bool) \<Rightarrow>
     'c::{linorder, plus} machine_mapping_context \<Rightarrow> nat \<Rightarrow> 'c machine_mapping_cache \<Rightarrow>
     ('v \<times> 'c machine_mapping_cache) res \<Rightarrow> ('v \<Rightarrow> bool) \<Rightarrow> bool" where
  "returns usable ctx n cache m Q \<longleftrightarrow>
     (mm_cache.entries_ok (right_result usable ctx) cache \<longrightarrow>
      (\<exists>v cache'. m = Inr (v, cache') \<and> Q v \<and> mm_cache.entries_ok (right_result usable ctx) cache' \<and>
         mm_cache.changes_within (states_below n) cache cache'))"

lemma returns_value: "Q v \<Longrightarrow> returns usable ctx n cache (Inr (v, cache)) Q"
  by (auto simp: returns_def mm_cache.changes_within_refl)

lemma returns_bind:
  assumes "returns usable ctx n cache m Q"
    and "\<And>v cache'. Q v \<Longrightarrow> returns usable ctx n cache' (f v cache') R"
  shows "returns usable ctx n cache (res_bind m (\<lambda>(v, cache). f v cache)) R"
  unfolding returns_def
proof
  assume "mm_cache.entries_ok (right_result usable ctx) cache"
  then obtain v c1 where 1: "m = Inr (v, c1)" "Q v" "mm_cache.entries_ok (right_result usable ctx) c1"
    "mm_cache.changes_within (states_below n) cache c1"
    using assms(1) by (auto simp: returns_def)
  from assms(2) [OF 1(2), of c1] 1(3) obtain w c2 where 2: "f v c1 = Inr (w, c2)" "R w"
    "mm_cache.entries_ok (right_result usable ctx) c2" "mm_cache.changes_within (states_below n) c1 c2"
    by (auto simp: returns_def)
  have "mm_cache.changes_within (states_below n) cache c2"
    by (rule mm_cache.changes_within_trans [OF 1(4) 2(4)]) simp_all
  then show "\<exists>v cache'. res_bind m (\<lambda>(v, cache). f v cache) = Inr (v, cache') \<and> R v \<and>
      mm_cache.entries_ok (right_result usable ctx) cache' \<and>
      mm_cache.changes_within (states_below n) cache cache'"
    using 1(1) 2 by auto
qed

lemma returns_mono: "returns usable ctx n cache m Q \<Longrightarrow> (\<And>v. Q v \<Longrightarrow> R v) \<Longrightarrow> returns usable ctx n cache m R"
  by (fastforce simp: returns_def)

lemma post_boundary_loop_minimal:
  assumes "\<And>a cache. a \<in> set posts \<Longrightarrow>
      returns usable ctx n cache (eval_post a cache) (\<lambda>res. is_minimal res (Some ` Q a))"
    and "\<And>a q. a \<in> set posts \<Longrightarrow> q \<in> Q a \<Longrightarrow> combine (Some q) = Inr (Some (comb q))"
    and "\<And>a q q'. a \<in> set posts \<Longrightarrow> q \<in> Q a \<Longrightarrow> q' \<in> Q a \<Longrightarrow> fmr_runtime q \<le> fmr_runtime q' \<Longrightarrow>
      fmr_runtime (comb q) \<le> fmr_runtime (comb q')"
    and "is_minimal result R"
  shows "returns usable ctx n cache (post_boundary_loop combine eval_post result posts cache)
    (\<lambda>res. is_minimal res (R \<union> Some ` comb ` (\<Union>a \<in> set posts. Q a)))"
  using assms
proof (induction posts arbitrary: result R cache)
  case Nil
  then show ?case by (simp add: returns_value)
next
  case (Cons a posts)
  let ?rest = "\<lambda>R. R \<union> Some ` comb ` (\<Union>a \<in> set posts. Q a)"
  have step: "returns usable ctx n cache' (post_boundary_loop combine eval_post result' posts cache')
      (\<lambda>res. is_minimal res (?rest R'))" if "is_minimal result' R'" for result' R' cache'
  proof (rule Cons.IH)
    fix b q q' assume "b \<in> set posts" "q \<in> Q b" "q' \<in> Q b" "fmr_runtime q \<le> fmr_runtime q'"
    then show "fmr_runtime (comb q) \<le> fmr_runtime (comb q')" using Cons.prems(3) [of b q q'] by simp
  qed (use Cons.prems(1,2) that in auto)
  have all: "?rest (R \<union> Some ` comb ` Q a) = R \<union> Some ` comb ` (\<Union>a \<in> set (a # posts). Q a)" by auto
  show ?case
  proof (simp only: post_boundary_loop.simps, rule returns_bind)
    show "returns usable ctx n cache (eval_post a cache) (\<lambda>res. is_minimal res (Some ` Q a))"
      by (rule Cons.prems(1)) simp
    fix post_result cache'
    assume post: "is_minimal post_result (Some ` Q a)"
    show "returns usable ctx n cache' (if is_infeasible post_result
        then post_boundary_loop combine eval_post result posts cache'
        else res_bind (combine post_result) (\<lambda>combined.
          post_boundary_loop combine eval_post (minimize_runtime result combined) posts cache'))
       (\<lambda>res. is_minimal res (R \<union> Some ` comb ` (\<Union>a \<in> set (a # posts). Q a)))"
    proof (cases post_result)
      case None
      then have "Q a = {}" using post by (auto simp: is_minimal_def)
      then show ?thesis using step [OF Cons.prems(4), of cache'] None by (simp flip: all)
    next
      case (Some q)
      then have q: "q \<in> Q a" using post by (auto simp: is_minimal_def)
      have "is_minimal (Some (comb q)) (Some ` comb ` Q a)"
        by (rule is_minimal_image [OF post [unfolded Some]]) (use Cons.prems(3) [of a q] q in auto)
      from step [OF minimize_runtime_minimal [OF Cons.prems(4) this], of cache']
      show ?thesis using Cons.prems(2) [of a q] q Some by (simp only: all) simp
    qed
  qed
qed

lemma pre_boundary_loop_minimal:
  assumes pre: "\<And>a cache. a \<in> set pres \<Longrightarrow>
      returns usable ctx n cache (eval_pre a cache) (\<lambda>res. is_minimal res (Some ` P a))"
    and post: "\<And>b cache. b \<in> set posts \<Longrightarrow>
      returns usable ctx n cache (eval_post b cache) (\<lambda>res. is_minimal res (Some ` Q b))"
    and combine: "\<And>a b p q. a \<in> set pres \<Longrightarrow> b \<in> set posts \<Longrightarrow> p \<in> P a \<Longrightarrow> q \<in> Q b \<Longrightarrow>
      combine (Some p) (Some q) = Inr (Some (comb p q))"
    and mono: "\<And>a b p p' q q'. a \<in> set pres \<Longrightarrow> b \<in> set posts \<Longrightarrow> p \<in> P a \<Longrightarrow> p' \<in> P a \<Longrightarrow>
      q \<in> Q b \<Longrightarrow> q' \<in> Q b \<Longrightarrow> fmr_runtime p \<le> fmr_runtime p' \<Longrightarrow> fmr_runtime q \<le> fmr_runtime q' \<Longrightarrow>
      fmr_runtime (comb p q) \<le> fmr_runtime (comb p' q')"
    and "is_minimal result R"
  shows "returns usable ctx n cache
    (pre_boundary_loop combine eval_pre eval_post (Inr posts) result pres cache)
    (\<lambda>res. is_minimal res (R \<union> {Some (comb p q) | a b p q. a \<in> set pres \<and> b \<in> set posts \<and> p \<in> P a \<and> q \<in> Q b}))"
  using assms
proof (induction pres arbitrary: result R cache)
  case Nil
  then show ?case by (simp add: returns_value)
next
  case (Cons a pres)
  define G where "G as = {Some (comb p q) | a b p q. a \<in> as \<and> b \<in> set posts \<and> p \<in> P a \<and> q \<in> Q b}" for as
  have G: "G (insert a (set pres)) = G {a} \<union> G (set pres)" by (auto simp: G_def)
  have step: "returns usable ctx n cache' (pre_boundary_loop combine eval_pre eval_post (Inr posts) result' pres cache')
      (\<lambda>res. is_minimal res (R' \<union> G (set pres)))" if "is_minimal result' R'" for result' R' cache'
    unfolding G_def
  proof (rule Cons.IH)
    fix a b p p' q q'
    assume "a \<in> set pres" "b \<in> set posts" "p \<in> P a" "p' \<in> P a" "q \<in> Q b" "q' \<in> Q b"
      "fmr_runtime p \<le> fmr_runtime p'" "fmr_runtime q \<le> fmr_runtime q'"
    then show "fmr_runtime (comb p q) \<le> fmr_runtime (comb p' q')"
      using Cons.prems(4) [of a b p p' q q'] by simp
  next
    fix a b p q assume "a \<in> set pres" "b \<in> set posts" "p \<in> P a" "q \<in> Q b"
    then show "combine (Some p) (Some q) = Inr (Some (comb p q))" using Cons.prems(3) [of a b p q] by simp
  qed (use Cons.prems(1,2) that in auto)
  have "returns usable ctx n cache
      (pre_boundary_loop combine eval_pre eval_post (Inr posts) result (a # pres) cache)
      (\<lambda>res. is_minimal res (R \<union> G (insert a (set pres))))"
  proof (simp only: pre_boundary_loop.simps, rule returns_bind)
    show "returns usable ctx n cache (eval_pre a cache) (\<lambda>res. is_minimal res (Some ` P a))"
      by (rule Cons.prems(1)) simp
    fix pre_result cache'
    assume pre: "is_minimal pre_result (Some ` P a)"
    show "returns usable ctx n cache' (if is_infeasible pre_result
        then pre_boundary_loop combine eval_pre eval_post (Inr posts) result pres cache'
        else res_bind (Inr posts) (\<lambda>ps.
          res_bind (post_boundary_loop (combine pre_result) eval_post result ps cache') (\<lambda>(result, cache).
          pre_boundary_loop combine eval_pre eval_post (Inr posts) result pres cache)))
       (\<lambda>res. is_minimal res (R \<union> G (insert a (set pres))))"
    proof (cases pre_result)
      case None
      then have "P a = {}" using pre by (auto simp: is_minimal_def)
      then have "G {a} = {}" by (simp add: G_def)
      then show ?thesis using step [OF Cons.prems(5), of cache'] None by (simp add: G)
    next
      case (Some p)
      then have p: "p \<in> P a" and best: "\<And>p'. p' \<in> P a \<Longrightarrow> fmr_runtime p \<le> fmr_runtime p'"
        using pre by (auto simp: is_minimal_def)
      have inner: "returns usable ctx n cache' (post_boundary_loop (combine (Some p)) eval_post result posts cache')
          (\<lambda>res. is_minimal res (R \<union> G {a}))"
      proof (rule returns_mono [OF post_boundary_loop_minimal [where Q = Q and comb = "comb p" and R = R]])
        show "\<And>b q. b \<in> set posts \<Longrightarrow> q \<in> Q b \<Longrightarrow> combine (Some p) (Some q) = Inr (Some (comb p q))"
          using Cons.prems(3) p by auto
        show "fmr_runtime (comb p q) \<le> fmr_runtime (comb p q')"
          if "b \<in> set posts" "q \<in> Q b" "q' \<in> Q b" "fmr_runtime q \<le> fmr_runtime q'" for b q q'
          by (rule Cons.prems(4) [of a b]) (simp_all add: that p)
        fix v assume "is_minimal v (R \<union> Some ` comb p ` (\<Union>b \<in> set posts. Q b))"
        then show "is_minimal v (R \<union> G {a})"
        proof (rule is_minimal_dominated)
          show "R \<union> Some ` comb p ` (\<Union>b \<in> set posts. Q b) \<subseteq> R \<union> G {a}"
            using p by (auto simp: G_def)
          fix g assume "Some g \<in> R \<union> G {a}"
          then consider "Some g \<in> R" | b p' q where "b \<in> set posts" "p' \<in> P a" "q \<in> Q b" "g = comb p' q"
            by (auto simp: G_def)
          then show "\<exists>h. Some h \<in> R \<union> Some ` comb p ` (\<Union>b \<in> set posts. Q b) \<and> fmr_runtime h \<le> fmr_runtime g"
          proof cases
            case 1
            then show ?thesis by blast
          next
            case 2
            then have "fmr_runtime (comb p q) \<le> fmr_runtime g"
              using Cons.prems(4) [of a b p p' q q] p best by simp
            then show ?thesis using 2 by blast
          qed
        qed
      qed (use Cons.prems(2,5) in auto)
      have "returns usable ctx n cache' (res_bind (post_boundary_loop (combine (Some p)) eval_post result posts cache')
          (\<lambda>(result, cache). pre_boundary_loop combine eval_pre eval_post (Inr posts) result pres cache))
          (\<lambda>res. is_minimal res (R \<union> G {a} \<union> G (set pres)))"
        by (rule returns_bind [OF inner], rule step)
      then show ?thesis using Some by (simp add: G Un_assoc)
    qed
  qed
  then show ?case by (simp add: G_def)
qed

section \<open>Series splits\<close>

lemma boundary_assignmentD:
  assumes on: "search_on usable ctx t rs" and "wf_constraints usable t c"
    and "layers \<subseteq> series_leaves t" and a: "a \<in> boundary_assignments ctx rs t c layers"
  shows "dom a \<subseteq> series_leaves t"
    and "a p = Some mv \<Longrightarrow> c p = Some None \<and>
      (\<exists>k A. leaf_at t p = Some k \<and> mmc_allowed_machine_views ctx k rs = Inr A \<and> mv \<in> A)"
    and "finite (dom a)"
    and "wf_constraints usable t (constrain c a)"
    and "p \<in> layers \<Longrightarrow> \<exists>mv k. constrain c a p = Some (Some mv) \<and> leaf_at t p = Some k \<and> usable k mv"
proof -
  have dom_a: "dom a = layers - {p. \<exists>mv. c p = Some (Some mv)}"
    and views: "\<And>p mv. a p = Some mv \<Longrightarrow>
      \<exists>k A. leaf_at t p = Some k \<and> mmc_allowed_machine_views ctx k rs = Inr A \<and> mv \<in> A"
    using a unfolding boundary_assignments_def by blast+
  show sub: "dom a \<subseteq> series_leaves t" using dom_a assms(3) by blast
  show "finite (dom a)" by (rule finite_subset [OF sub]) simp
  have dom_c: "dom c = dom (leaf_at t)" using assms(2) by (simp add: wf_constraints_def)
  have free: "c p = Some None" if "a p = Some mv" for p mv
  proof -
    have "p \<in> dom c" using sub series_leaves_subset [of t] dom_c that by blast
    moreover have "\<not> (\<exists>mv. c p = Some (Some mv))" using dom_a that by blast
    ultimately show ?thesis by (metis domD not_None_eq)
  qed
  then show "a p = Some mv \<Longrightarrow> c p = Some None \<and>
      (\<exists>k A. leaf_at t p = Some k \<and> mmc_allowed_machine_views ctx k rs = Inr A \<and> mv \<in> A)"
    using views by blast
  have usable: "\<exists>k. leaf_at t p = Some k \<and> usable k mv" if ap: "a p = Some mv" for p mv
  proof -
    obtain k A where k: "leaf_at t p = Some k" "mmc_allowed_machine_views ctx k rs = Inr A" "mv \<in> A"
      using views [OF ap] by blast
    obtain B where "mmc_allowed_machine_views ctx k rs = Inr B" "\<forall>mv \<in> B. usable k mv"
      using search_onD(2) [OF on k(1)] by blast
    then show ?thesis using k by auto
  qed
  have old: "p \<in> series_leaves t \<and> (\<exists>k. leaf_at t p = Some k \<and> usable k mv)" if "c p = Some (Some mv)" for p mv
    using assms(2) that by (simp add: wf_constraints_def)
  show "wf_constraints usable t (constrain c a)"
    unfolding wf_constraints_def
  proof (intro conjI allI impI)
    show "dom (constrain c a) = dom (leaf_at t)"
      using sub series_leaves_subset [of t] dom_c by auto
    fix p mv assume "constrain c a p = Some (Some mv)"
    then consider "a p = Some mv" | "c p = Some (Some mv)"
      by (auto simp: constrain_def split: option.splits)
    then show "p \<in> series_leaves t" and "\<exists>k. leaf_at t p = Some k \<and> usable k mv"
      by (cases; use sub usable old in blast)+
  qed
  show "\<exists>mv k. constrain c a p = Some (Some mv) \<and> leaf_at t p = Some k \<and> usable k mv" if "p \<in> layers"
  proof (cases "a p")
    case None
    then have "p \<notin> dom a" by (simp add: domIff)
    with that dom_a obtain mv where "c p = Some (Some mv)" by blast
    then show ?thesis using old None by (auto simp: constrain_def)
  next
    case (Some mv)
    then show ?thesis using usable [OF Some] by (auto simp: constrain_def)
  qed
qed

text \<open>Every plan is found with the assignment that gives the free boundary layers their views.\<close>

lemma plan_has_assignment:
  assumes on: "search_on usable ctx t rs" and "wf_constraints usable t c"
    and "layers \<subseteq> series_leaves t" and f: "f \<in> plans ctx t rs c"
  shows "\<exists>a \<in> boundary_assignments ctx rs t c layers. f \<in> plans ctx t rs (constrain c a)"
proof -
  define a where "a = fmr_machine_mapping f |` (layers - {p. \<exists>mv. c p = Some (Some mv)})"
  have dom_f: "dom (fmr_machine_mapping f) = dom (leaf_at t)" by (rule plan_dom [OF f])
  have dom_a: "dom a = layers - {p. \<exists>mv. c p = Some (Some mv)}"
    using assms(3) series_leaves_subset [of t] dom_f by (auto simp: a_def)
  have views: "\<exists>k A. leaf_at t p = Some k \<and> mmc_allowed_machine_views ctx k rs = Inr A \<and> mv \<in> A"
    if "a p = Some mv" for p mv
  proof -
    have p: "p \<in> layers" "\<not> (\<exists>mv. c p = Some (Some mv))" using dom_a that by blast+
    obtain k where k: "leaf_at t p = Some k"
      using p(1) assms(3) series_leaves_subset [of t] by blast
    have "fmr_machine_mapping f p = Some mv" using that by (auto simp: a_def restrict_map_def split: if_splits)
    with plan_at_series_leaf [OF f _ k] p assms(3) k show ?thesis
      by (auto split: option.splits)
  qed
  have a: "a \<in> boundary_assignments ctx rs t c layers"
    unfolding boundary_assignments_def using dom_a views by blast
  note assignment = boundary_assignmentD [OF assms(1-3) a]
  have "f \<in> plans ctx t rs (constrain c a)"
    by (subst plans_constrain [OF assignment(1,2)]) (use f in \<open>auto simp: a_def\<close>)
  then show ?thesis using a by blast
qed

lemma assigned_plan:
  assumes on: "search_on usable ctx t rs" and "wf_constraints usable t c"
    and "layers \<subseteq> series_leaves t" and a: "a \<in> boundary_assignments ctx rs t c layers"
    and f: "f \<in> plans ctx t rs (constrain c a)"
  shows "f \<in> plans ctx t rs c"
    and "p \<in> layers \<Longrightarrow> \<exists>mv k. constrain c a p = Some (Some mv) \<and> fmr_machine_mapping f p = Some mv \<and>
      leaf_at t p = Some k \<and> usable k mv"
proof -
  note assignment = boundary_assignmentD [OF assms(1-4)]
  show "f \<in> plans ctx t rs c" using f plans_constrain [OF assignment(1,2)] by blast
  assume p: "p \<in> layers"
  then obtain mv k where k: "constrain c a p = Some (Some mv)" "leaf_at t p = Some k" "usable k mv"
    using assignment(5) by blast
  moreover have "fmr_machine_mapping f p = Some mv"
    using plan_at_series_leaf [OF f _ k(2)] p assms(3) k(1) by auto
  ultimately show "\<exists>mv k. constrain c a p = Some (Some mv) \<and> fmr_machine_mapping f p = Some mv \<and>
      leaf_at t p = Some k \<and> usable k mv" by blast
qed

lemma wf_constraints_children:
  assumes "wf_constraints usable t c" and "t = MM_series m l r \<or> t = MM_parallel l r"
  shows "finite (dom c)" and "c [] = None"
    and "wf_constraints usable l (child_map LEFT_CHILD c)" and "wf_constraints usable r (child_map RIGHT_CHILD c)"
proof -
  have dom: "dom c = Cons LEFT_CHILD ` dom (leaf_at l) \<union> Cons RIGHT_CHILD ` dom (leaf_at r)"
  proof -
    have "dom c = dom (join_maps (leaf_at l) (leaf_at r))"
      using assms by (auto simp: wf_constraints_def)
    then show ?thesis by (simp only: dom_join_maps)
  qed
  then show "finite (dom c)" by simp
  have "[] \<notin> dom c" using dom by auto
  then show "c [] = None" by (simp add: domIff)
  have views: "(p \<in> series_leaves l \<and> (\<exists>k. leaf_at l p = Some k \<and> usable k mv))" if "c (LEFT_CHILD # p) = Some (Some mv)" for p mv
    using assms that unfolding wf_constraints_def by fastforce
  have views': "(p \<in> series_leaves r \<and> (\<exists>k. leaf_at r p = Some k \<and> usable k mv))" if "c (RIGHT_CHILD # p) = Some (Some mv)" for p mv
    using assms that unfolding wf_constraints_def by fastforce
  have "p \<in> dom (child_map LEFT_CHILD c) \<longleftrightarrow> p \<in> dom (leaf_at l)" for p
    unfolding mem_dom_child_map dom by auto
  then show "wf_constraints usable l (child_map LEFT_CHILD c)"
    using views unfolding wf_constraints_def child_map_simps by blast
  have "p \<in> dom (child_map RIGHT_CHILD c) \<longleftrightarrow> p \<in> dom (leaf_at r)" for p
    unfolding mem_dom_child_map dom by auto
  then show "wf_constraints usable r (child_map RIGHT_CHILD c)"
    using views' unfolding wf_constraints_def child_map_simps by blast
qed

definition finds_plans ::
    "(unmapped_runtime_only_op_cost_estimate_key \<Rightarrow> machine_view \<Rightarrow> bool) \<Rightarrow>
     'c::{linorder, plus} machine_mapping_context \<Rightarrow> nat \<Rightarrow> machine_mapping_problem_tree \<Rightarrow> 'c mapping_search \<Rightarrow> bool" where
  "finds_plans usable ctx n t search \<longleftrightarrow> (\<forall>rs c cache. search_on usable ctx t rs \<longrightarrow> wf_constraints usable t c \<longrightarrow>
     returns usable ctx n cache (search rs c cache) (\<lambda>res. is_minimal res (Some ` plans ctx t rs c)))"

lemma task_spaces_of_leaves:
  "wf_problem_tree usable t \<Longrightarrow> leaf_at t p = Some k \<Longrightarrow> \<exists>ts. leaf_task_space k = Inr ts"
proof (induction t arbitrary: p)
  case (MM_series m l r)
  then show ?case by (cases p; cases "hd p") auto
next
  case (MM_parallel l r)
  then show ?case by (cases p; cases "hd p") auto
qed (auto split: if_splits)

lemma plan_stencils:
  assumes "wf_problem_tree usable t" and "f \<in> plans ctx t rs c"
  shows "get_machine_stencils_for_partially_mapped_mm_problem_tree t (fmr_machine_mapping f) =
    Inr (stencils_of t (fmr_machine_mapping f))"
  by (rule stencils_eq) (use task_spaces_of_leaves [OF assms(1)] plan_dom [OF assms(2)] in auto)

lemma evals_assigned:
  assumes on: "search_on usable ctx t rs" and "finite (dom c)" and "c [] = None"
    and "layers \<subseteq> series_leaves t"
  shows "wf_constraints usable t (child_map LEFT_CHILD c) \<Longrightarrow>
      a \<in> boundary_assignments ctx rs t (child_map LEFT_CHILD c) layers \<Longrightarrow>
      eval_pre_boundary_mapping search rs c a cache = search rs (constrain (child_map LEFT_CHILD c) a) cache"
    and "wf_constraints usable t (child_map RIGHT_CHILD c) \<Longrightarrow>
      a \<in> boundary_assignments ctx rs t (child_map RIGHT_CHILD c) layers \<Longrightarrow>
      eval_post_boundary_mapping search rs c a cache = search rs (constrain (child_map RIGHT_CHILD c) a) cache"
proof -
  have add: "with_additional_constraints (child_map e c) a = Inr (constrain (child_map e c) a)"
    if "wf_constraints usable t (child_map e c)" "a \<in> boundary_assignments ctx rs t (child_map e c) layers" for e
    using boundary_assignmentD(2,3) [OF on that(1) assms(4) that(2)]
    by (subst with_additional_constraints_eq) auto
  show "wf_constraints usable t (child_map LEFT_CHILD c) \<Longrightarrow>
      a \<in> boundary_assignments ctx rs t (child_map LEFT_CHILD c) layers \<Longrightarrow>
      eval_pre_boundary_mapping search rs c a cache = search rs (constrain (child_map LEFT_CHILD c) a) cache"
    using add [of LEFT_CHILD] assms(2,3) by (simp add: eval_pre_boundary_mapping_def path_ops)
  show "wf_constraints usable t (child_map RIGHT_CHILD c) \<Longrightarrow>
      a \<in> boundary_assignments ctx rs t (child_map RIGHT_CHILD c) layers \<Longrightarrow>
      eval_post_boundary_mapping search rs c a cache = search rs (constrain (child_map RIGHT_CHILD c) a) cache"
    using add [of RIGHT_CHILD] assms(2,3) by (simp add: eval_post_boundary_mapping_def path_ops)
qed

definition combined ::
    "'c::{linorder, plus} machine_mapping_context \<Rightarrow> abstracted_tensor_set_movement \<Rightarrow>
     machine_mapping_problem_tree \<Rightarrow> machine_mapping_problem_tree \<Rightarrow> 'c feasible_machine_mapping_result \<Rightarrow>
     'c feasible_machine_mapping_result \<Rightarrow> 'c feasible_machine_mapping_result" where
  "combined ctx m l r p q =
     \<lparr> fmr_runtime = fmr_runtime p +
         projr (movement_cost ctx m l r (fmr_machine_mapping p) (fmr_machine_mapping q)) + fmr_runtime q,
       fmr_machine_mapping = join_maps (fmr_machine_mapping p) (fmr_machine_mapping q) \<rparr>"

lemma search_series_split_minimal:
  assumes ctx: "monotone_costs ctx" and on: "search_on usable ctx l rs" "search_on usable ctx r rs"
    and edges: "\<And>s. s \<in> set m \<Longrightarrow> finite (dom (astm_edge_to_size s))"
    and src: "get_src_layers m \<subseteq> series_leaves l" and dst: "get_dst_layers m \<subseteq> series_leaves r"
    and defined: "movement_defined usable m l r"
    and trees: "wf_problem_tree usable l" "wf_problem_tree usable r"
    and c: "finite (dom c)" "c [] = None"
    and wf_l: "wf_constraints usable l (child_map LEFT_CHILD c)"
    and wf_r: "wf_constraints usable r (child_map RIGHT_CHILD c)"
    and search: "finds_plans usable ctx n l search_left" "finds_plans usable ctx n r search_right"
    and tr: "tr \<noteq> Some RthenL"
  shows "returns usable ctx n cache (search_series_split ctx m l r search_left search_right tr rs c cache)
    (\<lambda>res. is_minimal res (Some ` series_plans ctx m l r (plans ctx l rs (child_map LEFT_CHILD c))
       (plans ctx r rs (child_map RIGHT_CHILD c))))"
proof -
  let ?cl = "child_map LEFT_CHILD c" and ?cr = "child_map RIGHT_CHILD c"
  define As where "As = boundary_assignments ctx rs l ?cl (get_src_layers m)"
  define Bs where "Bs = boundary_assignments ctx rs r ?cr (get_dst_layers m)"
  define P where "P a = plans ctx l rs (constrain ?cl a)" for a
  define Q where "Q b = plans ctx r rs (constrain ?cr b)" for b
  have dom_l: "dom ?cl = dom (leaf_at l)" and dom_r: "dom ?cr = dom (leaf_at r)"
    using wf_l wf_r by (simp_all add: wf_constraints_def)
  obtain pres where pres: "get_boundary_machine_view_assignments ctx c rs (get_src_layers m) l LEFT_CHILD = Inr pres"
    "set pres = As"
    using boundary_assignments_eq [OF on(1) c dom_l order_trans [OF src series_leaves_subset]]
    unfolding As_def by blast
  obtain posts where posts: "get_boundary_machine_view_assignments ctx c rs (get_dst_layers m) r RIGHT_CHILD = Inr posts"
    "set posts = Bs"
    using boundary_assignments_eq [OF on(2) c dom_r order_trans [OF dst series_leaves_subset]]
    unfolding Bs_def by blast
  have pl: "p \<in> plans ctx l rs ?cl" if "a \<in> As" "p \<in> P a" for a p
    using assigned_plan(1) [OF on(1) wf_l src] that by (simp add: As_def P_def)
  have pr: "q \<in> plans ctx r rs ?cr" if "b \<in> Bs" "q \<in> Q b" for b q
    using assigned_plan(1) [OF on(2) wf_r dst] that by (simp add: Bs_def Q_def)
  have views_l: "\<exists>mv k. constrain ?cl a x = Some (Some mv) \<and> fmr_machine_mapping p x = Some mv \<and>
      leaf_at l x = Some k \<and> usable k mv" if "a \<in> As" "p \<in> P a" "x \<in> get_src_layers m" for a p x
    using assigned_plan(2) [OF on(1) wf_l src] that by (simp add: As_def P_def)
  have views_r: "\<exists>mv k. constrain ?cr b x = Some (Some mv) \<and> fmr_machine_mapping q x = Some mv \<and>
      leaf_at r x = Some k \<and> usable k mv" if "b \<in> Bs" "q \<in> Q b" "x \<in> get_dst_layers m" for b q x
    using assigned_plan(2) [OF on(2) wf_r dst] that by (simp add: Bs_def Q_def)
  have cost: "\<exists>movement. concretize_abstracted_tensor_set_movement m (stencils_of l (fmr_machine_mapping p))
      (stencils_of r (fmr_machine_mapping q)) = Inr movement"
    if "a \<in> As" "b \<in> Bs" "p \<in> P a" "q \<in> Q b" for a b p q
  proof -
    have "\<forall>x \<in> get_src_layers m. \<exists>k mv. leaf_at l x = Some k \<and> fmr_machine_mapping p x = Some mv \<and> usable k mv"
      using views_l [OF that(1,3)] by blast
    moreover have "\<forall>x \<in> get_dst_layers m. \<exists>k mv. leaf_at r x = Some k \<and> fmr_machine_mapping q x = Some mv \<and> usable k mv"
      using views_r [OF that(2,4)] by blast
    ultimately show ?thesis using defined unfolding movement_defined_def by blast
  qed
  have same_cost: "movement_cost ctx m l r (fmr_machine_mapping p) (fmr_machine_mapping q) =
      movement_cost ctx m l r (fmr_machine_mapping p') (fmr_machine_mapping q')"
    if "a \<in> As" "b \<in> Bs" "p \<in> P a" "p' \<in> P a" "q \<in> Q b" "q' \<in> Q b" for a b p p' q q'
  proof -
    have "stencils_of l (fmr_machine_mapping p) x = stencils_of l (fmr_machine_mapping p') x"
      if x: "x \<in> get_src_layers m" for x
      using views_l [OF \<open>a \<in> As\<close> \<open>p \<in> P a\<close> x] views_l [OF \<open>a \<in> As\<close> \<open>p' \<in> P a\<close> x] by (auto simp: stencils_of_def)
    moreover have "stencils_of r (fmr_machine_mapping q) x = stencils_of r (fmr_machine_mapping q') x"
      if x: "x \<in> get_dst_layers m" for x
      using views_r [OF \<open>b \<in> Bs\<close> \<open>q \<in> Q b\<close> x] views_r [OF \<open>b \<in> Bs\<close> \<open>q' \<in> Q b\<close> x] by (auto simp: stencils_of_def)
    ultimately have "concretize_abstracted_tensor_set_movement m (stencils_of l (fmr_machine_mapping p))
        (stencils_of r (fmr_machine_mapping q)) =
      concretize_abstracted_tensor_set_movement m (stencils_of l (fmr_machine_mapping p'))
        (stencils_of r (fmr_machine_mapping q'))"
      by (intro concretize_cong edges) auto
    then show ?thesis by (simp add: movement_cost_def)
  qed
  have combine: "combine_across_split ctx m l r tr (Some p) (Some q) = Inr (Some (combined ctx m l r p q))"
    if prems: "a \<in> As" "b \<in> Bs" "p \<in> P a" "q \<in> Q b" for a b p q
  proof -
    obtain movement where "concretize_abstracted_tensor_set_movement m (stencils_of l (fmr_machine_mapping p))
      (stencils_of r (fmr_machine_mapping q)) = Inr movement" using cost [OF prems] by blast
    then show ?thesis
      using plan_stencils [OF trees(1) pl [OF prems(1,3)]] plan_stencils [OF trees(2) pr [OF prems(2,4)]]
        series_combine_eq [OF plan_finite [OF pl [OF prems(1,3)]] plan_finite [OF pr [OF prems(2,4)]] tr]
      by (simp add: combine_across_split_def combined_def movement_cost_def Let_def)
  qed
  have mono: "fmr_runtime (combined ctx m l r p q) \<le> fmr_runtime (combined ctx m l r p' q')"
    if "a \<in> As" "b \<in> Bs" "p \<in> P a" "p' \<in> P a" "q \<in> Q b" "q' \<in> Q b"
      "fmr_runtime p \<le> fmr_runtime p'" "fmr_runtime q \<le> fmr_runtime q'" for a b p p' q q'
    using same_cost [OF that(1-6)] that(7,8) by (simp add: combined_def monotone_costsD [OF ctx])
  have evals: "returns usable ctx n cache (eval_pre_boundary_mapping search_left rs c a cache)
      (\<lambda>res. is_minimal res (Some ` P a))" if "a \<in> As" for a cache
    unfolding P_def evals_assigned(1) [OF on(1) c src wf_l that [unfolded As_def]]
    by (rule search(1) [unfolded finds_plans_def, rule_format, OF on(1)
          boundary_assignmentD(4) [OF on(1) wf_l src that [unfolded As_def]]])
  have evals': "returns usable ctx n cache (eval_post_boundary_mapping search_right rs c b cache)
      (\<lambda>res. is_minimal res (Some ` Q b))" if "b \<in> Bs" for b cache
    unfolding Q_def evals_assigned(2) [OF on(2) c dst wf_r that [unfolded Bs_def]]
    by (rule search(2) [unfolded finds_plans_def, rule_format, OF on(2)
          boundary_assignmentD(4) [OF on(2) wf_r dst that [unfolded Bs_def]]])
  have all: "{Some (combined ctx m l r p q) | a b p q. a \<in> As \<and> b \<in> Bs \<and> p \<in> P a \<and> q \<in> Q b} =
      Some ` series_plans ctx m l r (plans ctx l rs ?cl) (plans ctx r rs ?cr)"
  proof (intro equalityI subsetI)
    fix f assume "f \<in> {Some (combined ctx m l r p q) | a b p q. a \<in> As \<and> b \<in> Bs \<and> p \<in> P a \<and> q \<in> Q b}"
    then obtain a b p q where f: "a \<in> As" "b \<in> Bs" "p \<in> P a" "q \<in> Q b" "f = Some (combined ctx m l r p q)" by blast
    obtain cost where "movement_cost ctx m l r (fmr_machine_mapping p) (fmr_machine_mapping q) = Inr cost"
      using cost [OF f(1-4)] by (auto simp: movement_cost_def)
    from series_planI [OF pl [OF f(1,3)] pr [OF f(2,4)] this] this
    show "f \<in> Some ` series_plans ctx m l r (plans ctx l rs ?cl) (plans ctx r rs ?cr)"
      by (simp add: f(5) combined_def)
  next
    fix f assume "f \<in> Some ` series_plans ctx m l r (plans ctx l rs ?cl) (plans ctx r rs ?cr)"
    then obtain g where g: "f = Some g" "g \<in> series_plans ctx m l r (plans ctx l rs ?cl) (plans ctx r rs ?cr)" by blast
    from g(2) show "f \<in> {Some (combined ctx m l r p q) | a b p q. a \<in> As \<and> b \<in> Bs \<and> p \<in> P a \<and> q \<in> Q b}"
    proof (rule series_planE)
      fix p q cost
      assume p: "p \<in> plans ctx l rs ?cl" and q: "q \<in> plans ctx r rs ?cr"
        and "movement_cost ctx m l r (fmr_machine_mapping p) (fmr_machine_mapping q) = Inr cost"
        and "g = \<lparr> fmr_runtime = fmr_runtime p + cost + fmr_runtime q,
          fmr_machine_mapping = join_maps (fmr_machine_mapping p) (fmr_machine_mapping q) \<rparr>"
      then have "g = combined ctx m l r p q" by (simp add: combined_def)
      moreover obtain a where "a \<in> As" "p \<in> P a"
        using plan_has_assignment [OF on(1) wf_l src p] unfolding As_def P_def by blast
      moreover obtain b where "b \<in> Bs" "q \<in> Q b"
        using plan_has_assignment [OF on(2) wf_r dst q] unfolding Bs_def Q_def by blast
      ultimately show ?thesis using g(1) by blast
    qed
  qed
  have "returns usable ctx n cache
    (pre_boundary_loop (combine_across_split ctx m l r tr) (eval_pre_boundary_mapping search_left rs c)
       (eval_post_boundary_mapping search_right rs c) (Inr posts) infeasible_machine_mapping_result pres cache)
    (\<lambda>res. is_minimal res ({} \<union> {Some (combined ctx m l r p q) | a b p q.
       a \<in> set pres \<and> b \<in> set posts \<and> p \<in> P a \<and> q \<in> Q b}))"
    by (rule pre_boundary_loop_minimal)
      (simp_all add: pres(2) posts(2) evals evals' combine mono infeasible_minimal)
  then show ?thesis
    by (simp add: search_series_split_def pres posts all)
qed

section \<open>Parallel splits\<close>

lemma returns_weaken: "returns usable ctx n cache m Q \<Longrightarrow> n \<le> n' \<Longrightarrow> returns usable ctx n' cache m Q"
  unfolding returns_def mm_cache.changes_within_def by (auto; fastforce)

lemma split_applies:
  assumes "s \<in> splits" and "get_machine_resource_splits rs = Inr splits" and "search_slice rs"
  shows "\<exists>ls qs. apply_resource_split s rs = Inr (ls, qs)"
proof -
  have "splits = splits_of INTER_NODE (mcrs_num_nodes rs) 1 \<union> splits_of INTRA_NODE (mcrs_num_gpus_per_node rs) 1"
    using assms(2,3) resource_splits_eq [of rs] by (simp add: search_slice_def)
  then show ?thesis
    using assms(1) doublings_less by (fastforce simp: splits_of_def apply_split_eq)
qed

lemma splits_total:
  assumes "search_slice rs"
  shows "\<exists>splits. get_machine_resource_splits rs = Inr splits \<and> finite splits"
proof -
  have "finite (doublings i n)" for i n
    by (rule finite_subset [of _ "{..<n}"]) (auto simp: doublings_def)
  then show ?thesis using assms resource_splits_eq [of rs] by (simp add: search_slice_def splits_of_def)
qed

lemma parallel_combine_minimal:
  assumes "search_slice rs" and "search_on usable ctx r qs"
    and "apply_resource_split s rs = Inr (ls, qs)"
    and "\<And>p mv. c p \<noteq> Some (Some mv)"
    and left: "is_minimal left (Some ` plans ctx l ls c')"
    and right: "is_minimal right (Some ` plans ctx r qs c)"
  shows "\<exists>res. parallel_combine s left right = Inr res \<and>
    is_minimal res (Some ` side_by_side s (plans ctx l ls c') (plans ctx r qs c))"
proof (cases left)
  case None
  then have "plans ctx l ls c' = {}" using left by (auto simp: is_minimal_def)
  then show ?thesis
    by (simp add: None parallel_combine_def infeasible_machine_mapping_result_def side_by_side_def is_minimal_def)
next
  case (Some p)
  then have p: "p \<in> plans ctx l ls c'" "\<And>p'. p' \<in> plans ctx l ls c' \<Longrightarrow> fmr_runtime p \<le> fmr_runtime p'"
    using left by (auto simp: is_minimal_def)
  show ?thesis
  proof (cases right)
    case None
    then have "plans ctx r qs c = {}" using right by (auto simp: is_minimal_def)
    then show ?thesis
      by (simp add: None Some parallel_combine_def infeasible_machine_mapping_result_def side_by_side_def is_minimal_def)
  next
    fix q assume q0: "right = Some q"
    then have q: "q \<in> plans ctx r qs c" "\<And>q'. q' \<in> plans ctx r qs c \<Longrightarrow> fmr_runtime q \<le> fmr_runtime q'"
      using right by (auto simp: is_minimal_def)
    have "\<forall>mv \<in> ran (fmr_machine_mapping q). in_slice qs (mv_start mv)"
      by (rule plan_in_slice [OF assms(2) q(1) assms(4)])
    from in_slice_map [OF plan_finite [OF q(1)] this assms(3,1)]
    obtain mq where mq: "offset_layer_oblivious_mapping_by (fmr_machine_mapping q) s = Inr mq" by blast
    define f where "f = \<lparr> fmr_runtime = max (fmr_runtime p) (fmr_runtime q),
      fmr_machine_mapping = join_maps (fmr_machine_mapping p) mq \<rparr>"
    have "finite (dom mq)" using offset_mapping_dom [OF plan_finite [OF q(1)] mq] plan_finite [OF q(1)] by simp
    then have "parallel_combine s left right = Inr (Some f)"
      using plan_finite [OF p(1)] by (simp add: Some q0 parallel_combine_def mq path_ops f_def)
    moreover have "f \<in> side_by_side s (plans ctx l ls c') (plans ctx r qs c)"
      using p(1) q(1) mq unfolding side_by_side_def f_def by blast
    moreover have "fmr_runtime f \<le> fmr_runtime g" if g: "g \<in> side_by_side s (plans ctx l ls c') (plans ctx r qs c)" for g
    proof -
      obtain p' q' where "p' \<in> plans ctx l ls c'" "q' \<in> plans ctx r qs c"
        "fmr_runtime g = max (fmr_runtime p') (fmr_runtime q')"
        using g by (auto simp: side_by_side_def)
      then show ?thesis using p(2) [of p'] q(2) [of q'] by (simp add: f_def max.coboundedI1 max.coboundedI2)
    qed
    ultimately show ?thesis by (auto simp: is_minimal_def)
  qed
qed

definition split_plans ::
    "'c::{linorder, plus} machine_mapping_context \<Rightarrow> machine_mapping_problem_tree \<Rightarrow>
     machine_mapping_problem_tree \<Rightarrow> machine_compute_resource_slice \<Rightarrow> machine_mapping_constraints \<Rightarrow>
     machine_mapping_constraints \<Rightarrow> machine_resource_split \<Rightarrow> 'c feasible_machine_mapping_result set" where
  "split_plans ctx l r rs cl cr s = {f. \<exists>ls qs. apply_resource_split s rs = Inr (ls, qs) \<and>
     f \<in> side_by_side s (plans ctx l ls cl) (plans ctx r qs cr)}"

lemma resource_split_loop_minimal:
  assumes on: "search_on usable ctx l rs" "search_on usable ctx r rs"
    and splits: "get_machine_resource_splits rs = Inr splits" and "set ss \<subseteq> splits"
    and wf_l: "wf_constraints usable l cl" and wf_r: "wf_constraints usable r cr"
    and free: "\<And>p mv. cr p \<noteq> Some (Some mv)"
    and search: "finds_plans usable ctx n l search_left" "finds_plans usable ctx n r search_right"
  shows "returns usable ctx n cache (resource_split_loop search_left search_right rs cl cr ss cache)
    (list_all2 (\<lambda>s res. is_minimal res (Some ` split_plans ctx l r rs cl cr s)) ss)"
  using assms(4)
proof (induction ss arbitrary: cache)
  case Nil
  then show ?case by (simp add: returns_value)
next
  case (Cons s ss)
  have rs: "search_slice rs" using search_onD(1) [OF on(1)] .
  have s: "s \<in> splits" using Cons.prems by simp
  obtain ls qs where split: "apply_resource_split s rs = Inr (ls, qs)"
    using split_applies [OF s splits rs] by blast
  note parts = split_search_on [OF split s splits]
  note left_on = parts(1) [OF on(1)] and right_on = parts(2) [OF on(2)]
  have plans: "split_plans ctx l r rs cl cr s = side_by_side s (plans ctx l ls cl) (plans ctx r qs cr)"
    by (simp add: split_plans_def split)
  have "returns usable ctx n cache
     (res_bind (search_left ls cl cache) (\<lambda>(left_result, cache).
      res_bind (search_right qs cr cache) (\<lambda>(right_result, cache).
      res_bind (parallel_combine s left_result right_result) (\<lambda>combined.
      res_bind (resource_split_loop search_left search_right rs cl cr ss cache) (\<lambda>(results, cache).
      Inr (combined # results, cache))))))
     (list_all2 (\<lambda>s res. is_minimal res (Some ` split_plans ctx l r rs cl cr s)) (s # ss))"
  proof (rule returns_bind)
    show "returns usable ctx n cache (search_left ls cl cache) (\<lambda>res. is_minimal res (Some ` plans ctx l ls cl))"
      using search(1) left_on wf_l by (simp add: finds_plans_def)
    fix left cache' assume left: "is_minimal left (Some ` plans ctx l ls cl)"
    show "returns usable ctx n cache'
       (res_bind (search_right qs cr cache') (\<lambda>(right_result, cache).
        res_bind (parallel_combine s left right_result) (\<lambda>combined.
        res_bind (resource_split_loop search_left search_right rs cl cr ss cache) (\<lambda>(results, cache).
        Inr (combined # results, cache)))))
       (list_all2 (\<lambda>s res. is_minimal res (Some ` split_plans ctx l r rs cl cr s)) (s # ss))"
    proof (rule returns_bind)
      show "returns usable ctx n cache' (search_right qs cr cache') (\<lambda>res. is_minimal res (Some ` plans ctx r qs cr))"
        using search(2) right_on wf_r by (simp add: finds_plans_def)
      fix right cache'' assume right: "is_minimal right (Some ` plans ctx r qs cr)"
      obtain res where res: "parallel_combine s left right = Inr res"
        "is_minimal res (Some ` split_plans ctx l r rs cl cr s)"
        using parallel_combine_minimal [OF rs right_on split free left right] plans by auto
      have "returns usable ctx n cache''
         (res_bind (resource_split_loop search_left search_right rs cl cr ss cache'') (\<lambda>(results, cache).
          Inr (res # results, cache)))
         (list_all2 (\<lambda>s res. is_minimal res (Some ` split_plans ctx l r rs cl cr s)) (s # ss))"
        by (rule returns_bind [OF Cons.IH]) (use Cons.prems res(2) in \<open>auto intro!: returns_value\<close>)
      then show "returns usable ctx n cache''
         (res_bind (parallel_combine s left right) (\<lambda>combined.
          res_bind (resource_split_loop search_left search_right rs cl cr ss cache'') (\<lambda>(results, cache).
          Inr (combined # results, cache))))
         (list_all2 (\<lambda>s res. is_minimal res (Some ` split_plans ctx l r rs cl cr s)) (s # ss))"
        by (simp add: res(1))
    qed
  qed
  then show ?case by (simp add: split)
qed

lemma minimals_member:
  assumes "list_all2 (\<lambda>s res. is_minimal res (Some ` F s)) ss rs" and "Some f \<in> set rs"
  shows "f \<in> (\<Union>s \<in> set ss. F s)"
proof -
  obtain i where i: "i < length rs" "rs ! i = Some f" using assms(2) by (auto simp: in_set_conv_nth)
  have "i < length ss" "is_minimal (rs ! i) (Some ` F (ss ! i))"
    using assms(1) i(1) by (simp_all add: list_all2_conv_all_nth)
  then show ?thesis by (auto simp: is_minimal_def i(2))
qed

lemma minimals_below:
  assumes "list_all2 (\<lambda>s res. is_minimal res (Some ` F s)) ss rs" and "s \<in> set ss" and "g \<in> F s"
  shows "\<exists>f. Some f \<in> set rs \<and> fmr_runtime f \<le> fmr_runtime g"
proof -
  obtain i where i: "i < length ss" "ss ! i = s" using assms(2) by (auto simp: in_set_conv_nth)
  have res: "i < length rs" "is_minimal (rs ! i) (Some ` F s)"
    using assms(1) i by (auto simp: list_all2_conv_all_nth)
  then obtain f where "rs ! i = Some f" using assms(3) by (cases "rs ! i") (auto simp: is_minimal_def)
  then have "Some f \<in> set rs" "fmr_runtime f \<le> fmr_runtime g"
    using res assms(3) nth_mem [OF res(1)] by (auto simp: is_minimal_def)
  then show ?thesis by blast
qed

lemma is_minimal_of_minimals:
  assumes "is_minimal r (set rs)" and all: "list_all2 (\<lambda>s res. is_minimal res (Some ` F s)) ss rs"
  shows "is_minimal r (Some ` (\<Union>s \<in> set ss. F s))"
proof (cases r)
  case None
  then have none: "set rs \<subseteq> {None}" using assms(1) by (simp add: is_minimal_def)
  have "g \<notin> F s" if "s \<in> set ss" for s g
    using minimals_below [OF all that, of g] none by auto
  then show ?thesis by (auto simp: None is_minimal_def)
next
  case (Some f)
  then have f: "Some f \<in> set rs" "\<And>g. Some g \<in> set rs \<Longrightarrow> fmr_runtime f \<le> fmr_runtime g"
    using assms(1) by (auto simp: is_minimal_def)
  have "fmr_runtime f \<le> fmr_runtime g" if g: "s \<in> set ss" "g \<in> F s" for s g
  proof -
    obtain h where "Some h \<in> set rs" "fmr_runtime h \<le> fmr_runtime g"
      using minimals_below [OF all g] by blast
    then show ?thesis using f(2) [of h] by simp
  qed
  then show ?thesis using minimals_member [OF all f(1)] by (auto simp: Some is_minimal_def)
qed

lemma search_parallel_split_minimal:
  assumes ctx: "monotone_costs ctx" and on: "search_on usable ctx l rs" "search_on usable ctx r rs"
    and trees: "wf_problem_tree usable l" "wf_problem_tree usable r"
    and dom_c: "finite (dom c)" "c [] = None"
    and children: "wf_constraints usable l (child_map LEFT_CHILD c)" "wf_constraints usable r (child_map RIGHT_CHILD c)"
    and free: "\<And>p mv. child_map RIGHT_CHILD c p \<noteq> Some (Some mv)"
    and search: "finds_plans usable ctx n l search_left" "finds_plans usable ctx n r search_right"
  shows "returns usable ctx n cache (search_parallel_split ctx l r search_left search_right rs c cache)
    (\<lambda>res. is_minimal res (Some ` plans ctx (MM_parallel l r) rs c))"
proof -
  let ?cl = "child_map LEFT_CHILD c" and ?cr = "child_map RIGHT_CHILD c"
  obtain splits where splits: "get_machine_resource_splits rs = Inr splits" "finite splits"
    using splits_total [OF search_onD(1) [OF on(1)]] by blast
  let ?S = "series_plans ctx [] l r (plans ctx l rs ?cl) (plans ctx r rs ?cr)"
  let ?P = "\<lambda>s. split_plans ctx l r rs ?cl ?cr s"
  have all: "?S \<union> (\<Union>s \<in> splits. ?P s) = plans ctx (MM_parallel l r) rs c"
    by (auto simp: splits(1) split_plans_def)
  have series: "returns usable ctx n cache (search_series_split ctx empty_abstracted_tensor_set_movement l r
      search_left search_right (Some LthenR) rs c cache) (\<lambda>res. is_minimal res (Some ` ?S))"
    unfolding empty_abstracted_tensor_set_movement_def
    by (rule search_series_split_minimal [OF ctx on _ _ _ _ trees dom_c children search])
      (simp_all add: get_src_layers_def get_dst_layers_def movement_defined_def
        concretize_abstracted_tensor_set_movement_def)
  have "returns usable ctx n cache
    (res_bind (search_series_split ctx empty_abstracted_tensor_set_movement l r
      search_left search_right (Some LthenR) rs c cache) (\<lambda>(series_result, cache).
     res_bind (resource_split_loop search_left search_right rs ?cl ?cr (sorted_list_of_set splits) cache)
       (\<lambda>(parallel_results, cache).
     Inr (minimize_runtime series_result
            (get_mapping_with_minimal_runtime (result_set parallel_results)), cache))))
    (\<lambda>res. is_minimal res (Some ` plans ctx (MM_parallel l r) rs c))"
  proof (rule returns_bind [OF series])
    fix series_result cache'
    assume sr: "is_minimal series_result (Some ` ?S)"
    show "returns usable ctx n cache'
      (res_bind (resource_split_loop search_left search_right rs ?cl ?cr (sorted_list_of_set splits) cache')
         (\<lambda>(parallel_results, cache).
       Inr (minimize_runtime series_result
            (get_mapping_with_minimal_runtime (result_set parallel_results)), cache)))
      (\<lambda>res. is_minimal res (Some ` plans ctx (MM_parallel l r) rs c))"
    proof (rule returns_bind [OF resource_split_loop_minimal [OF on splits(1) _ children _ search]])
      show "set (sorted_list_of_set splits) \<subseteq> splits" using splits(2) by simp
      show "?cr p \<noteq> Some (Some mv)" for p mv by (rule free)
      fix results cache''
      assume results: "list_all2 (\<lambda>s res. is_minimal res (Some ` ?P s)) (sorted_list_of_set splits) results"
      have fin: "finite (dom (fmr_machine_mapping f))" if "Some f \<in> set results" for f
      proof -
        have "f \<in> (\<Union>s \<in> splits. ?P s)" using minimals_member [OF results that] splits(2) by simp
        then have "f \<in> plans ctx (MM_parallel l r) rs c" by (simp only: flip: all) blast
        then show ?thesis by (rule plan_finite)
      qed
      have "is_minimal (get_mapping_with_minimal_runtime (result_set results)) (Some ` (\<Union>s \<in> splits. ?P s))"
        using is_minimal_of_minimals [OF _ results, of "get_mapping_with_minimal_runtime (result_set results)"]
          minimal_runtime_minimal [of "result_set results"] splits(2) by (simp add: set_result_set [OF fin])
      from minimize_runtime_minimal [OF sr this]
      show "returns usable ctx n cache'' (Inr (minimize_runtime series_result
            (get_mapping_with_minimal_runtime (result_set results)), cache''))
         (\<lambda>res. is_minimal res (Some ` plans ctx (MM_parallel l r) rs c))"
        by (intro returns_value) (simp only: all flip: image_Un)
    qed
  qed
  then show ?thesis
    using dom_c by (simp add: search_parallel_split_def path_ops splits(1))
qed

section \<open>The search\<close>

lemma search_leaf_minimal:
  assumes on: "search_on usable ctx (MM_leaf k) rs" and c: "wf_constraints usable (MM_leaf k) c"
  shows "returns usable ctx n cache (search_leaf ctx k rs c cache)
    (\<lambda>res. is_minimal res (Some ` plans ctx (MM_leaf k) rs c))"
proof -
  have dom_c: "dom c = {[]}" using c by (simp add: wf_constraints_def)
  then obtain v where v: "c [] = Some v" by blast
  obtain A where A: "mmc_allowed_machine_views ctx k rs = Inr A" "finite A"
    using search_onD(2) [OF on, of "[]" k] by auto
  define B where "B = (case v of None \<Rightarrow> A | Some mv \<Rightarrow> {mv})"
  have "finite B" using A(2) by (simp add: B_def split: option.split)
  have cand: "res_bind (require_only_root c) (\<lambda>machine_view. case machine_view of
      Some mv \<Rightarrow> Inr {mv} | None \<Rightarrow> mmc_allowed_machine_views ctx k rs) = Inr B"
  proof -
    have "require_only_root c = Inr v" using dom_c v by (simp add: require_only_root_eq)
    then show ?thesis by (simp add: B_def A split: option.split)
  qed
  let ?results = "map (evaluate_machine_view ctx k) (sorted_list_of_set B)"
  have "finite (dom (fmr_machine_mapping f))" if "Some f \<in> set ?results" for f
    using that by (auto simp: evaluate_machine_view_def make_singleton_machine_mapping_result_def Let_def)
  from set_result_set [of ?results, OF this]
  have "set (result_set ?results) = evaluate_machine_view ctx k ` B"
    using \<open>finite B\<close> by simp
  also have "\<dots> = Some ` plans ctx (MM_leaf k) rs c"
    by (cases v) (force simp: v B_def A(1) evaluate_machine_view_def make_singleton_machine_mapping_result_def Let_def)+
  finally have "is_minimal (get_mapping_with_minimal_runtime (result_set ?results)) (Some ` plans ctx (MM_leaf k) rs c)"
    using minimal_runtime_minimal [of "result_set ?results"] by simp
  then show ?thesis
    by (simp add: search_leaf_def cand Let_def returns_value)
qed

lemma cached_search_finds:
  assumes body: "\<And>rs c cache. search_on usable ctx t rs \<Longrightarrow> wf_constraints usable t c \<Longrightarrow>
      returns usable ctx (size t) cache (body rs c cache) (\<lambda>res. is_minimal res (Some ` plans ctx t rs c))"
    and "wf_problem_tree usable t"
  shows "finds_plans usable ctx (Suc (size t)) t (cached_search t body)"
  unfolding finds_plans_def returns_def
proof (intro allI impI)
  fix rs c cache
  assume rs: "search_on usable ctx t rs" and c: "wf_constraints usable t c"
    and cache: "mm_cache.entries_ok (right_result usable ctx) cache"
  let ?st = "\<lparr> mms_problem_tree = t, mms_resources = rs, mms_constraints = c \<rparr>"
  have right: "right_result usable ctx ?st res \<longleftrightarrow> is_minimal res (Some ` plans ctx t rs c)" for res
    using rs c assms(2) by (simp add: right_result_def)
  have run: "\<exists>v t'. memoize machine_mapping_cache_load machine_mapping_cache_save ?st (body rs c) cache = Inr (v, t') \<and>
      right_result usable ctx ?st v \<and> mm_cache.entries_ok (right_result usable ctx) t' \<and>
      mm_cache.changes_within (insert ?st (states_below (size t))) cache t'"
  proof (rule mm_cache.memoize_correct [OF cache])
    show "?st \<notin> states_below (size t)" by simp
    show "\<exists>v t'. body rs c cache = Inr (v, t') \<and> right_result usable ctx ?st v \<and>
        mm_cache.entries_ok (right_result usable ctx) t' \<and>
        mm_cache.changes_within (states_below (size t)) cache t'"
      using body [OF rs c, of cache] cache unfolding returns_def right by blast
  qed
  have check: "get_all_layers c = get_all_leaf_paths t"
    using c by (simp add: wf_constraints_def get_all_layers_def get_all_leaf_paths_eq)
  have "insert ?st (states_below (size t)) \<subseteq> states_below (Suc (size t))" by auto
  then have "mm_cache.changes_within (insert ?st (states_below (size t))) cache t' \<Longrightarrow>
      mm_cache.changes_within (states_below (Suc (size t))) cache t'" for t'
    unfolding mm_cache.changes_within_def by blast
  then show "\<exists>v cache'. cached_search t body rs c cache = Inr (v, cache') \<and>
      is_minimal v (Some ` plans ctx t rs c) \<and> mm_cache.entries_ok (right_result usable ctx) cache' \<and>
      mm_cache.changes_within (states_below (Suc (size t))) cache cache'"
    using run by (auto simp: cached_search_def check right)
qed

lemma finds_plans_weaken: "finds_plans usable ctx n t search \<Longrightarrow> n \<le> n' \<Longrightarrow> finds_plans usable ctx n' t search"
  unfolding finds_plans_def using returns_weaken by blast

lemma search_finds_plans:
  assumes ctx: "monotone_costs ctx" and "wf_problem_tree usable t"
  shows "finds_plans usable ctx (Suc (size t)) t (get_optimal_machine_mapping ctx t)"
  using assms(2)
proof (induction t)
  case (MM_series m l r)
  let ?t = "MM_series m l r"
  have trees: "wf_problem_tree usable l" "wf_problem_tree usable r" using MM_series.prems by simp_all
  have search: "finds_plans usable ctx (size ?t) l (get_optimal_machine_mapping ctx l)"
    "finds_plans usable ctx (size ?t) r (get_optimal_machine_mapping ctx r)"
    by (rule finds_plans_weaken [OF MM_series.IH(1) [OF trees(1)]], simp)
      (rule finds_plans_weaken [OF MM_series.IH(2) [OF trees(2)]], simp)
  show ?case unfolding get_optimal_machine_mapping.simps
  proof (rule cached_search_finds)
    fix rs c cache assume rs: "search_on usable ctx ?t rs" and c: "wf_constraints usable ?t c"
    note children = wf_constraints_children [OF c disjI1 [OF refl]]
    show "returns usable ctx (size ?t) cache
        (search_series_split ctx m l r (get_optimal_machine_mapping ctx l) (get_optimal_machine_mapping ctx r) None rs c cache)
        (\<lambda>res. is_minimal res (Some ` plans ctx ?t rs c))"
      unfolding plans.simps
      by (rule search_series_split_minimal [OF ctx search_on_children [OF rs disjI1 [OF refl]] _ _ _ _ trees children search]) (use MM_series.prems in simp_all)
  qed (use MM_series.prems in simp_all)
next
  case (MM_parallel l r)
  let ?t = "MM_parallel l r"
  have trees: "wf_problem_tree usable l" "wf_problem_tree usable r" using MM_parallel.prems by simp_all
  have search: "finds_plans usable ctx (size ?t) l (get_optimal_machine_mapping ctx l)"
    "finds_plans usable ctx (size ?t) r (get_optimal_machine_mapping ctx r)"
    by (rule finds_plans_weaken [OF MM_parallel.IH(1) [OF trees(1)]], simp)
      (rule finds_plans_weaken [OF MM_parallel.IH(2) [OF trees(2)]], simp)
  show ?case unfolding get_optimal_machine_mapping.simps
  proof (rule cached_search_finds)
    fix rs c cache assume rs: "search_on usable ctx ?t rs" and c: "wf_constraints usable ?t c"
    have "child_map RIGHT_CHILD c p \<noteq> Some (Some mv)" for p mv
      using c by (simp add: wf_constraints_def)
    then show "returns usable ctx (size ?t) cache
        (search_parallel_split ctx l r (get_optimal_machine_mapping ctx l) (get_optimal_machine_mapping ctx r) rs c cache)
        (\<lambda>res. is_minimal res (Some ` plans ctx ?t rs c))"
      by (rule search_parallel_split_minimal [OF ctx search_on_children [OF rs disjI2 [OF refl]] trees wf_constraints_children [OF c disjI2 [OF refl]] _ search])
  qed (use MM_parallel.prems in simp_all)
next
  case (MM_leaf k)
  show ?case unfolding get_optimal_machine_mapping.simps
    by (rule cached_search_finds) (use MM_leaf.prems search_leaf_minimal in simp_all)
qed

lemma unconstrained_wf:
  "wf_constraints usable t (get_unconstrained_solution_for_layers (get_all_leaf_paths t))"
  by (auto simp: wf_constraints_def get_unconstrained_solution_for_layers_def get_all_leaf_paths_eq split: if_splits)

text \<open>
  Claim C1. The search returns, and its result is the best there is: infeasible exactly when no plan exists, and
  otherwise a plan whose runtime no other plan undercuts. The leaves of the tree have task spaces, and their
  allowed views can be computed on the slice and its parts (\<open>search_on\<close>), as the context of \<open>graph_optimize\<close> can
  wherever no grid of devices exceeds an \<open>int\<close> (\<open>unity_context_serves\<close>). Movements may only end in leaves, and
  constraints be given for leaves, that no parallel split separates from the split that carries them or from the
  root; the search of \<open>graph_optimize\<close> has no constraints.
\<close>

theorem search_finds_cheapest_plan:
  assumes "monotone_costs context" and "search_on usable context tree resources"
    and "wf_problem_tree usable tree" and "wf_constraints usable tree constraints"
  shows "\<exists>result cache. get_optimal_machine_mapping context tree resources constraints
      empty_machine_mapping_cache = Inr (result, cache) \<and>
    (case result of
       None \<Rightarrow> plans context tree resources constraints = {}
     | Some f \<Rightarrow> f \<in> plans context tree resources constraints \<and>
         (\<forall>g \<in> plans context tree resources constraints. fmr_runtime f \<le> fmr_runtime g))"
proof -
  obtain result cache where run: "get_optimal_machine_mapping context tree resources constraints
      empty_machine_mapping_cache = Inr (result, cache)"
    "is_minimal result (Some ` plans context tree resources constraints)"
    using search_finds_plans [OF assms(1,3)] assms(2,4) mm_cache.entries_ok_fresh
    unfolding finds_plans_def returns_def by blast
  then show ?thesis by (auto simp: is_minimal_def split: option.splits)
qed

text \<open>The context of the repository with any estimator, on two inputs, one of which is copied to the other.\<close>

theorem search_finds_cheapest_plan_witness:
  "\<forall>op_cost movement_cost. let context = unity_context op_cost movement_cost :: nat machine_mapping_context;
      tree = MM_series two_leaves_movement (MM_leaf input_leaf) (MM_leaf input_leaf);
      constraints = get_unconstrained_solution_for_layers (get_all_leaf_paths tree);
      slice = MachineComputeResourceSlice 1 2
    in \<exists>result cache. get_optimal_machine_mapping context tree slice constraints empty_machine_mapping_cache =
        Inr (result, cache) \<and>
      (case result of
         None \<Rightarrow> plans context tree slice constraints = {}
       | Some f \<Rightarrow> f \<in> plans context tree slice constraints \<and>
           (\<forall>g \<in> plans context tree slice constraints. fmr_runtime f \<le> fmr_runtime g))"
  unfolding Let_def
  by (intro allI search_finds_cheapest_plan [OF monotone_nat_costs unity_context_serves two_leaves_wf(1) unconstrained_wf]
      small_slice two_leaves_computable(1)) simp_all

text \<open>The caches that any sequence of searches leaves, one search after the other, starting from the empty cache.\<close>

inductive searched_cache ::
    "(unmapped_runtime_only_op_cost_estimate_key \<Rightarrow> machine_view \<Rightarrow> bool) \<Rightarrow>
     'c::{linorder, plus} machine_mapping_context \<Rightarrow> 'c machine_mapping_cache \<Rightarrow> bool" for usable ctx where
  fresh: "searched_cache usable ctx empty_machine_mapping_cache"
| search: "searched_cache usable ctx cache \<Longrightarrow> search_on usable ctx tree resources \<Longrightarrow>
    wf_problem_tree usable tree \<Longrightarrow> wf_constraints usable tree constraints \<Longrightarrow>
    get_optimal_machine_mapping ctx tree resources constraints cache = Inr (result, cache') \<Longrightarrow>
    searched_cache usable ctx cache'"

lemma searched_cache_right:
  assumes "monotone_costs context" and "searched_cache usable context cache"
  shows "mm_cache.entries_ok (right_result usable context) cache"
  using assms(2)
proof (induction rule: searched_cache.induct)
  case fresh
  show ?case by (rule mm_cache.entries_ok_fresh)
next
  case (search cache tree resources constraints result cache')
  then show ?case
    using search_finds_plans [OF assms(1) search.hyps(3)] unfolding finds_plans_def returns_def by fastforce
qed

text \<open>
  Claim C2. A cache that earlier searches have filled does not change what a search finds, and saving a result
  never meets an entry that is already there: after any sequence of searches with the same context, for any
  trees, slices and constraints as in the first claim, a search returns a result of the same runtime as
  with an empty cache, and so leaves a cache of the same kind.
\<close>

theorem search_reuses_cache_safely:
  assumes "monotone_costs context" and "searched_cache usable context cache"
    and "search_on usable context tree resources" and "wf_problem_tree usable tree"
    and "wf_constraints usable tree constraints"
  shows "\<exists>result cache' result0 cache0.
    get_optimal_machine_mapping context tree resources constraints cache = Inr (result, cache') \<and>
    get_optimal_machine_mapping context tree resources constraints empty_machine_mapping_cache = Inr (result0, cache0) \<and>
    map_option fmr_runtime result = map_option fmr_runtime result0 \<and> searched_cache usable context cache'"
proof -
  have run: "\<exists>r c. get_optimal_machine_mapping context tree resources constraints cache = Inr (r, c) \<and>
      is_minimal r (Some ` plans context tree resources constraints)"
    if "mm_cache.entries_ok (right_result usable context) cache" for cache
    using search_finds_plans [OF assms(1,4)] assms(3,5) that unfolding finds_plans_def returns_def by blast
  obtain r c r0 c0 where
    1: "get_optimal_machine_mapping context tree resources constraints cache = Inr (r, c)"
      "is_minimal r (Some ` plans context tree resources constraints)" and
    0: "get_optimal_machine_mapping context tree resources constraints empty_machine_mapping_cache = Inr (r0, c0)"
      "is_minimal r0 (Some ` plans context tree resources constraints)"
    using run [OF searched_cache_right [OF assms(1,2)]] run [OF mm_cache.entries_ok_fresh] by blast
  have "map_option fmr_runtime r = map_option fmr_runtime r0"
    using 1(2) 0(2) by (rule minimal_runtime_unique)
  then show ?thesis using 1(1) 0(1) searched_cache.search [OF assms(2-5) 1(1)] by blast
qed

theorem search_reuses_cache_safely_witness:
  "\<forall>op_cost movement_cost. let context = unity_context op_cost movement_cost :: nat machine_mapping_context;
      leaf = MM_leaf input_leaf; free = (\<lambda>t. get_unconstrained_solution_for_layers (get_all_leaf_paths t))
    in \<exists>r1 c1 r2 c2 r3 c3 r0 c0.
      get_optimal_machine_mapping context leaf (MachineComputeResourceSlice 1 1) (free leaf) empty_machine_mapping_cache =
        Inr (r1, c1) \<and>
      get_optimal_machine_mapping context leaf (MachineComputeResourceSlice 1 2) (free leaf) c1 = Inr (r2, c2) \<and>
      get_optimal_machine_mapping context (MM_parallel leaf leaf) (MachineComputeResourceSlice 1 2)
        (free (MM_parallel leaf leaf)) c2 = Inr (r3, c3) \<and>
      get_optimal_machine_mapping context (MM_parallel leaf leaf) (MachineComputeResourceSlice 1 2)
        (free (MM_parallel leaf leaf)) empty_machine_mapping_cache = Inr (r0, c0) \<and>
      map_option fmr_runtime r3 = map_option fmr_runtime r0"
proof (intro allI)
  fix op_cost :: "runtime_only_op_cost_estimate_key \<Rightarrow> nat runtime_only_op_cost_metrics" and movement_cost
  let ?ctx = "unity_context op_cost movement_cost" and ?leaf = "MM_leaf input_leaf"
  let ?free = "\<lambda>t. get_unconstrained_solution_for_layers (get_all_leaf_paths t)"
  have leaf: "search_on unity_view ?ctx ?leaf (MachineComputeResourceSlice 1 n)" if "0 < n" "n \<le> 2" for n
    using that by (intro unity_context_serves small_slice two_leaves_computable(3))
  have both: "search_on unity_view ?ctx (MM_parallel ?leaf ?leaf) (MachineComputeResourceSlice 1 2)"
    by (intro unity_context_serves small_slice two_leaves_computable(2)) simp_all
  note step = search_reuses_cache_safely [OF monotone_nat_costs [of ?ctx] _ leaf input_leaf_wf unconstrained_wf]
  obtain r1 c1 where 1: "get_optimal_machine_mapping ?ctx ?leaf (MachineComputeResourceSlice 1 1) (?free ?leaf)
      empty_machine_mapping_cache = Inr (r1, c1)" "searched_cache unity_view ?ctx c1"
    using step [OF searched_cache.fresh, of 1] by auto
  obtain r2 c2 where 2: "get_optimal_machine_mapping ?ctx ?leaf (MachineComputeResourceSlice 1 2) (?free ?leaf) c1 =
      Inr (r2, c2)" "searched_cache unity_view ?ctx c2"
    using step [OF 1(2), of 2] by auto
  from search_reuses_cache_safely [OF monotone_nat_costs 2(2) both two_leaves_wf(2) unconstrained_wf] 1(1) 2(1)
  show "let context = ?ctx; leaf = ?leaf; free = ?free
    in \<exists>r1 c1 r2 c2 r3 c3 r0 c0.
      get_optimal_machine_mapping context leaf (MachineComputeResourceSlice 1 1) (free leaf) empty_machine_mapping_cache =
        Inr (r1, c1) \<and>
      get_optimal_machine_mapping context leaf (MachineComputeResourceSlice 1 2) (free leaf) c1 = Inr (r2, c2) \<and>
      get_optimal_machine_mapping context (MM_parallel leaf leaf) (MachineComputeResourceSlice 1 2)
        (free (MM_parallel leaf leaf)) c2 = Inr (r3, c3) \<and>
      get_optimal_machine_mapping context (MM_parallel leaf leaf) (MachineComputeResourceSlice 1 2)
        (free (MM_parallel leaf leaf)) empty_machine_mapping_cache = Inr (r0, c0) \<and>
      map_option fmr_runtime r3 = map_option fmr_runtime r0"
    unfolding Let_def by blast
qed

text \<open>
  Claim C3. A feasible result maps exactly the leaves of the tree. A leaf with a constraint, which must not
  lie below a parallel split, has the view of its constraint, and a free leaf below series splits only has
  a view that is allowed on the whole slice.
\<close>

theorem search_result_covers_tree:
  assumes "monotone_costs context" and "search_on usable context tree resources"
    and "wf_problem_tree usable tree" and "wf_constraints usable tree constraints"
    and "get_optimal_machine_mapping context tree resources constraints empty_machine_mapping_cache =
      Inr (Some f, cache)"
  shows "dom (fmr_machine_mapping f) = get_all_leaf_paths tree \<and>
    (\<forall>p mv. constraints p = Some (Some mv) \<longrightarrow> fmr_machine_mapping f p = Some mv) \<and>
    (\<forall>p \<in> series_leaves tree. constraints p = Some None \<longrightarrow>
      (\<exists>leaf views mv. mm_problem_tree_get_subtree_at_path tree p = Some (MM_leaf leaf) \<and>
         mmc_allowed_machine_views context leaf resources = Inr views \<and> mv \<in> views \<and>
         fmr_machine_mapping f p = Some mv))"
proof (intro conjI allI ballI impI)
  have "is_minimal (Some f) (Some ` plans context tree resources constraints)"
    using search_finds_plans [OF assms(1,3)] assms(2,4,5) mm_cache.entries_ok_fresh
    unfolding finds_plans_def returns_def by fastforce
  then have f: "f \<in> plans context tree resources constraints" by (auto simp: is_minimal_def)
  show "dom (fmr_machine_mapping f) = get_all_leaf_paths tree"
    by (simp add: plan_dom [OF f] get_all_leaf_paths_eq)
  show "fmr_machine_mapping f p = Some mv" if "constraints p = Some (Some mv)" for p mv
    using assms(4) plan_at_series_leaf [OF f] that by (fastforce simp: wf_constraints_def)
  fix p assume p: "p \<in> series_leaves tree" "constraints p = Some None"
  then obtain k where k: "leaf_at tree p = Some k" using series_leaves_subset [of tree] by blast
  from plan_at_series_leaf [OF f p(1) k] p k show "\<exists>leaf views mv.
      mm_problem_tree_get_subtree_at_path tree p = Some (MM_leaf leaf) \<and>
      mmc_allowed_machine_views context leaf resources = Inr views \<and> mv \<in> views \<and>
      fmr_machine_mapping f p = Some mv" by (auto simp: get_subtree_at_leaf)
qed

text \<open>What a view costs an operator, and the only plan of an operator with a constraint.\<close>

definition view_cost :: "'c::plus machine_mapping_context \<Rightarrow> unmapped_runtime_only_op_cost_estimate_key \<Rightarrow> machine_view \<Rightarrow> 'c" where
  "view_cost ctx k mv = (let metrics = mmc_estimate_op_cost ctx (map_unmapped_runtime_only_op_cost_estimate_key k mv)
     in forward_runtime metrics + backward_runtime metrics)"

lemma evaluate_view_eq: "evaluate_machine_view ctx k mv = Some \<lparr> fmr_runtime = view_cost ctx k mv, fmr_machine_mapping = [[] \<mapsto> mv] \<rparr>"
  by (simp add: evaluate_machine_view_def make_singleton_machine_mapping_result_def binary_tree_root_path_def
      view_cost_def Let_def)

lemma pinned_leaf_plans:
  "c [] = Some (Some mv) \<Longrightarrow> plans ctx (MM_leaf k) rs c = {\<lparr> fmr_runtime = view_cost ctx k mv, fmr_machine_mapping = [[] \<mapsto> mv] \<rparr>}"
  by (auto simp: evaluate_view_eq)


theorem search_result_covers_tree_witness:
  "\<forall>op_cost movement_cost. \<exists>f cache. get_optimal_machine_mapping
      (unity_context op_cost movement_cost :: nat machine_mapping_context) (MM_leaf input_leaf)
      (MachineComputeResourceSlice 1 1) [[] \<mapsto> Some (MachineView (MachineSpaceCoordinate 0 0) [])]
      empty_machine_mapping_cache = Inr (Some f, cache) \<and>
    fmr_machine_mapping f [] = Some (MachineView (MachineSpaceCoordinate 0 0) [])"
proof (intro allI)
  fix op_cost :: "runtime_only_op_cost_estimate_key \<Rightarrow> nat runtime_only_op_cost_metrics" and movement_cost
  let ?mv = "MachineView (MachineSpaceCoordinate 0 0) []" and ?ctx = "unity_context op_cost movement_cost"
  let ?rs = "MachineComputeResourceSlice 1 1"
  have "is_valid_machine_view ?mv [] ?rs = Inr True" by code_simp
  then have c: "wf_constraints unity_view (MM_leaf input_leaf) [[] \<mapsto> Some ?mv]"
    by (auto simp: wf_constraints_def unity_view_def input_leaf_task_space split: if_splits)
  have on: "search_on unity_view ?ctx (MM_leaf input_leaf) ?rs"
    by (intro unity_context_serves small_slice two_leaves_computable(3)) simp_all
  obtain res cache where run: "get_optimal_machine_mapping ?ctx (MM_leaf input_leaf) ?rs [[] \<mapsto> Some ?mv]
      empty_machine_mapping_cache = Inr (res, cache)"
    "is_minimal res (Some ` plans ?ctx (MM_leaf input_leaf) ?rs [[] \<mapsto> Some ?mv])"
    using search_finds_plans [OF monotone_nat_costs [of ?ctx] input_leaf_wf] c on mm_cache.entries_ok_fresh
    unfolding finds_plans_def returns_def by blast
  then obtain f where "res = Some f"
    unfolding pinned_leaf_plans [of "[[] \<mapsto> Some ?mv]" ?mv, OF map_upd_Some_unfold [THEN iffD2, OF disjI1, OF conjI, OF refl refl]]
    by (cases res) (auto simp: is_minimal_def)
  with search_result_covers_tree [OF monotone_nat_costs on input_leaf_wf c] run(1)
  show "\<exists>f cache. get_optimal_machine_mapping ?ctx (MM_leaf input_leaf) ?rs [[] \<mapsto> Some ?mv]
      empty_machine_mapping_cache = Inr (Some f, cache) \<and> fmr_machine_mapping f [] = Some ?mv"
    by auto
qed

lemma res_map_first_fault:
  "res_map f xs = (case List.map_filter (\<lambda>x. case f x of Inl e \<Rightarrow> Some e | Inr _ \<Rightarrow> None) xs of
     [] \<Rightarrow> Inr (map (\<lambda>x. projr (f x)) xs) | e # _ \<Rightarrow> Inl e)"
  by (induction xs) (auto simp: List.map_filter_simps split: sum.splits list.splits)

lemma map_filter_cong_on:
  "(\<And>x. x \<in> set xs \<Longrightarrow> f x = g x) \<Longrightarrow> List.map_filter f xs = List.map_filter g xs"
  by (induction xs) (auto simp: List.map_filter_simps split: option.split)

lemma map_filter_sorted_superset:
  fixes A B :: "'a::linorder set"
  assumes "finite A" and "B \<subseteq> A" and "\<And>x. x \<in> A - B \<Longrightarrow> g x = None"
  shows "List.map_filter g (sorted_list_of_set A) = List.map_filter g (sorted_list_of_set B)"
proof -
  have "filter (\<lambda>x. g x \<noteq> None) (sorted_list_of_set A) = filter (\<lambda>x. g x \<noteq> None) (sorted_list_of_set B)"
    using assms(1,2) finite_subset [OF assms(2,1)] assms(3)
    by (intro sorted_distinct_set_unique) (force simp: sorted_wrt_filter)+
  then show ?thesis by (simp add: List.map_filter_def)
qed

text \<open>The fault of the stencil of a leaf, where it has none.\<close>

definition leaf_fault :: "unmapped_runtime_only_op_cost_estimate_key \<Rightarrow> fault option" where
  "leaf_fault leaf =
     (if pcg_is_parallel_op (uk_op_attrs leaf) then Some Bad_optional_access
      else (case get_operator_task_space (the (compgraph_op_attrs_from_pcg_op_attrs (uk_op_attrs leaf)))
               (map_option get_parallel_degrees \<circ> uk_input_shapes leaf) of
              Inl fault \<Rightarrow> Some fault
            | Inr task_space \<Rightarrow> None))"

definition path_fault :: "machine_mapping_problem_tree \<Rightarrow> binary_tree_path \<Rightarrow> fault option" where
  "path_fault tree p =
     (case mm_problem_tree_get_subtree_at_path tree p of Some (MM_leaf leaf) \<Rightarrow> leaf_fault leaf | _ \<Rightarrow> None)"

lemma parallel_op_no_cg_op: "pcg_is_parallel_op a \<longleftrightarrow> compgraph_op_attrs_from_pcg_op_attrs a = None"
  by (cases a) auto

lemma leaf_fault_eq: "leaf_fault leaf = (case leaf_task_space leaf of Inl e \<Rightarrow> Some e | Inr _ \<Rightarrow> None)"
  by (cases "compgraph_op_attrs_from_pcg_op_attrs (uk_op_attrs leaf)")
    (simp_all add: leaf_fault_def leaf_task_space_def parallel_op_no_cg_op)

lemma path_fault_eq:
  "leaf_at tree p = Some leaf \<Longrightarrow> path_fault tree p = leaf_fault leaf"
  by (simp add: path_fault_def get_subtree_at_leaf)

lemma stencil_for_path_fault:
  assumes "leaf_at t p = Some leaf"
  shows "(case machine_stencil_for_path (leaf_at t) m p of Inl e \<Rightarrow> Some e | Inr _ \<Rightarrow> None) =
    (if m p = None then None else path_fault t p)"
  using assms by (cases "compgraph_op_attrs_from_pcg_op_attrs (uk_op_attrs leaf)"; cases "m p")
    (auto simp: path_fault_eq leaf_fault_eq machine_stencil_for_path_def leaf_task_space_def map_at_def Let_def
      split: sum.splits)

text \<open>
  Claim C34. The stencils of a mapped tree. The mapped paths must be leaves of the tree, or an assertion fails;
  then each mapped leaf has a stencil, unless a mapped leaf has no task space, in which case the fault of the
  first such path is the result: an empty optional is read for a Combine, Repartition, Replicate or Reduction,
  and otherwise it is the fault of \<open>get_operator_task_space\<close>, a panic for an operator it does not cover. The
  search asks for the stencils of every pair of feasible results of a split, parallel splits included.
\<close>

theorem stencils_need_task_spaces:
  "case (if dom mapping \<subseteq> get_all_leaf_paths tree
         then List.map_filter (path_fault tree) (sorted_list_of_set (dom mapping)) else [Assertion_failed]) of
     [] \<Rightarrow> \<exists>stencils. get_machine_stencils_for_partially_mapped_mm_problem_tree tree mapping = Inr stencils \<and>
         dom stencils = dom mapping
   | fault # _ \<Rightarrow> get_machine_stencils_for_partially_mapped_mm_problem_tree tree mapping = Inl fault"
proof (cases "dom mapping \<subseteq> get_all_leaf_paths tree")
  case False
  then show ?thesis
    by (simp add: get_machine_stencils_for_partially_mapped_mm_problem_tree_def
        get_machine_stencils_for_mm_problem_tree_def get_path_to_leaf_map_eq get_all_leaf_paths_eq)
next
  case True
  let ?f = "\<lambda>p. res_bind (machine_stencil_for_path (leaf_at tree) mapping p) (\<lambda>v. Inr (p, v))"
  have sub: "dom mapping \<subseteq> dom (leaf_at tree)" using True by (simp add: get_all_leaf_paths_eq)
  have g: "(case ?f p of Inl e \<Rightarrow> Some e | Inr _ \<Rightarrow> None) = (if mapping p = None then None else path_fault tree p)"
    if p: "p \<in> dom (leaf_at tree)" for p
  proof -
    obtain leaf where "leaf_at tree p = Some leaf" using p by blast
    from stencil_for_path_fault [OF this, of mapping] show ?thesis
      by (cases "machine_stencil_for_path (leaf_at tree) mapping p") simp_all
  qed
  have "List.map_filter (\<lambda>p. case ?f p of Inl e \<Rightarrow> Some e | Inr _ \<Rightarrow> None) (sorted_list_of_set (dom (leaf_at tree))) =
      List.map_filter (path_fault tree) (sorted_list_of_set (dom mapping))" (is "?l = ?r")
  proof -
    have "?l = List.map_filter (\<lambda>p. case ?f p of Inl e \<Rightarrow> Some e | Inr _ \<Rightarrow> None) (sorted_list_of_set (dom mapping))"
      using sub g by (intro map_filter_sorted_superset) auto
    also have "\<dots> = ?r"
    proof (rule map_filter_cong_on)
      fix p assume "p \<in> set (sorted_list_of_set (dom mapping))"
      then have p: "p \<in> dom mapping" using finite_subset [OF sub] by simp
      show "(case ?f p of Inl e \<Rightarrow> Some e | Inr _ \<Rightarrow> None) = path_fault tree p"
        using p g [OF subsetD [OF sub p]] by (simp only: domIff if_False)
    qed
    finally show ?thesis .
  qed
  then have "case ?r of [] \<Rightarrow> True
   | fault # _ \<Rightarrow> get_machine_stencils_for_partially_mapped_mm_problem_tree tree mapping = Inl fault"
    by (simp add: get_machine_stencils_for_partially_mapped_mm_problem_tree_def generate_map_def
        get_machine_stencils_for_mm_problem_tree_def get_path_to_leaf_map_eq sub res_map_first_fault split: list.splits)
  moreover have "\<exists>stencils. get_machine_stencils_for_partially_mapped_mm_problem_tree tree mapping = Inr stencils \<and>
         dom stencils = dom mapping" if "?r = []"
  proof -
    have none: "path_fault tree p = None" if "p \<in> dom mapping" for p
      using \<open>?r = []\<close> that finite_subset [OF sub] by (auto simp: List.map_filter_def filter_empty_conv)
    have ok: "\<exists>ts. leaf_task_space leaf = Inr ts" if "p \<in> dom mapping" "leaf_at tree p = Some leaf" for p leaf
      using none [OF that(1)] by (auto simp: path_fault_eq [OF that(2)] leaf_fault_eq split: sum.splits)
    then have "dom (stencils_of tree mapping) = dom mapping"
      using sub by (fastforce simp: stencils_of_def split: option.splits sum.splits)
    moreover have "get_machine_stencils_for_partially_mapped_mm_problem_tree tree mapping = Inr (stencils_of tree mapping)"
      by (rule stencils_eq [OF sub]) (rule ok)
    ultimately show ?thesis by blast
  qed
  ultimately show ?thesis using True by (simp split: list.splits)
qed

definition combine_leaf :: unmapped_runtime_only_op_cost_estimate_key where
  "combine_leaf = input_leaf \<lparr> uk_op_attrs := PCG_combine \<lparr> combine_dim = 0, combine_degree = 2 \<rparr> \<rparr>"

theorem stencils_need_task_spaces_witness:
  "(\<exists>stencils. get_machine_stencils_for_partially_mapped_mm_problem_tree (MM_leaf input_leaf)
      [[] \<mapsto> MachineView (MachineSpaceCoordinate 0 0) []] = Inr stencils \<and> dom stencils = {[]}) \<and>
   get_machine_stencils_for_partially_mapped_mm_problem_tree (MM_leaf combine_leaf)
      [[] \<mapsto> MachineView (MachineSpaceCoordinate 0 0) []] = Inl Bad_optional_access"
  using stencils_need_task_spaces [of "MM_leaf input_leaf" "[[] \<mapsto> MachineView (MachineSpaceCoordinate 0 0) []]"]
    stencils_need_task_spaces [of "MM_leaf combine_leaf" "[[] \<mapsto> MachineView (MachineSpaceCoordinate 0 0) []]"]
  by (simp add: path_fault_def leaf_fault_def List.map_filter_simps input_leaf_def combine_leaf_def
      binary_tree_root_path_def input_get_operator_task_space_def trivial_op_task_space_def require_def)





end
