(* ===== verification/Digraphs.thy ===== *)
theory Digraphs
  imports Binary_Tree_Paths
begin

text \<open>
  The directed graphs of \<open>lib/utils\<close>: queries, views, the adjacency-list implementation and the views
  made from other views, and the basic algorithms on views. A \<open>DiGraphView\<close> is an interface with the two
  methods \<open>query_nodes\<close> and \<open>query_edges\<close>, here a record of two functions. An \<open>AdjacencyDiGraph\<close> is the
  map from a node to its successors; its source of fresh nodes is a counter shared by all graphs, passed
  and returned where it is used.

  \<open>wf_digraph_view\<close> says that the two methods answer queries about one finite graph. The locale
  \<open>digraph_instance\<close> is the interface an implementation of \<open>IDiGraph\<close> offers, with adjacency lists as its
  instance; the lemmas about the algorithms hold for every well-formed view.
\<close>

section \<open>Queries\<close>

type_synonym node = nat

datatype directed_edge = DirectedEdge (de_src: node) (de_dst: node)

instantiation directed_edge :: linorder
begin

definition less_eq_directed_edge :: "directed_edge \<Rightarrow> directed_edge \<Rightarrow> bool" where
  "less_eq_directed_edge x y \<longleftrightarrow> (de_src x, de_dst x) \<le> (de_src y, de_dst y)"

definition less_directed_edge :: "directed_edge \<Rightarrow> directed_edge \<Rightarrow> bool" where
  "less_directed_edge x y \<longleftrightarrow> x \<le> y \<and> \<not> y \<le> x"

instance
  by standard (auto simp: less_eq_directed_edge_def less_directed_edge_def intro: directed_edge.expand)

end

text \<open>A \<open>query_set\<close> is an optional set; the empty optional matches everything.\<close>

type_synonym 'a query_set = "'a set option"

definition matchall :: "'a query_set" where
  "matchall = None"

definition match_none :: "'a query_set" where
  "match_none = Some {}"

definition match_values_in :: "'a set \<Rightarrow> 'a query_set" where
  "match_values_in values = Some values"

definition match_single_value :: "'a \<Rightarrow> 'a query_set" where
  "match_single_value val = match_values_in {val}"

definition is_matchall :: "'a query_set \<Rightarrow> bool" where
  "is_matchall q \<longleftrightarrow> q = None"

definition allowed_values :: "'a query_set \<Rightarrow> 'a set res" where
  "allowed_values q = (case q of None \<Rightarrow> Inl Assertion_failed | Some vs \<Rightarrow> Inr vs)"

definition query_includes :: "'a query_set \<Rightarrow> 'a \<Rightarrow> bool" where
  "query_includes q v \<longleftrightarrow> (case q of None \<Rightarrow> True | Some vs \<Rightarrow> v \<in> vs)"

definition apply_query :: "'a query_set \<Rightarrow> 'a set \<Rightarrow> 'a set" where
  "apply_query q c = (if is_matchall q then c else {t \<in> c. query_includes q t})"

definition query_keys :: "'k query_set \<Rightarrow> ('k \<rightharpoonup> 'v) \<Rightarrow> ('k \<rightharpoonup> 'v)" where
  "query_keys q m = (if is_matchall q then m else (\<lambda>k. if query_includes q k then m k else None))"

definition query_set_intersection :: "'a query_set \<Rightarrow> 'a query_set \<Rightarrow> 'a query_set res" where
  "query_set_intersection lhs rhs =
     (if is_matchall lhs then Inr rhs
      else if is_matchall rhs then Inr lhs
      else res_bind (allowed_values lhs) (\<lambda>l. res_bind (allowed_values rhs) (\<lambda>r.
           Inr (match_values_in (l \<inter> r)))))"

definition query_set_union :: "'a query_set \<Rightarrow> 'a query_set \<Rightarrow> 'a query_set res" where
  "query_set_union lhs rhs =
     (if is_matchall lhs \<or> is_matchall rhs then Inr matchall
      else res_bind (allowed_values lhs) (\<lambda>l. res_bind (allowed_values rhs) (\<lambda>r.
           Inr (match_values_in (l \<union> r)))))"

text \<open>\<open>NodeQuery\<close> has one field, its \<open>query_set\<close>.\<close>

type_synonym node_query = "node query_set"

record directed_edge_query =
  deq_srcs :: "node query_set"
  deq_dsts :: "node query_set"

definition node_query_all :: node_query where
  "node_query_all = matchall"

definition directed_edge_query_all :: directed_edge_query where
  "directed_edge_query_all = \<lparr> deq_srcs = matchall, deq_dsts = matchall \<rparr>"

definition matches_edge :: "directed_edge_query \<Rightarrow> directed_edge \<Rightarrow> bool" where
  "matches_edge q e \<longleftrightarrow> query_includes (deq_srcs q) (de_src e) \<and> query_includes (deq_dsts q) (de_dst e)"

text \<open>
  The intersections of node and of edge queries go through the values that are allowed, which start as
  the empty set.
\<close>

definition intersected_values :: "node query_set \<Rightarrow> node query_set \<Rightarrow> node set res" where
  "intersected_values lhs rhs =
     (if is_matchall lhs \<and> \<not> is_matchall rhs then allowed_values rhs
      else if \<not> is_matchall lhs \<and> is_matchall rhs then allowed_values lhs
      else if \<not> is_matchall lhs \<and> \<not> is_matchall rhs
        then res_bind (query_set_intersection lhs rhs) allowed_values
      else Inr {})"

definition node_query_intersection :: "node_query \<Rightarrow> node_query \<Rightarrow> node_query res" where
  "node_query_intersection lhs rhs =
     res_bind (intersected_values lhs rhs) (\<lambda>nodes. Inr (match_values_in nodes))"

definition edge_query_intersection ::
    "directed_edge_query \<Rightarrow> directed_edge_query \<Rightarrow> directed_edge_query res" where
  "edge_query_intersection lhs rhs =
     res_bind (intersected_values (deq_srcs lhs) (deq_srcs rhs)) (\<lambda>result_srcs.
     res_bind (intersected_values (deq_dsts lhs) (deq_dsts rhs)) (\<lambda>result_dsts.
     Inr \<lparr> deq_srcs = match_values_in result_srcs, deq_dsts = match_values_in result_dsts \<rparr>))"

section \<open>Views\<close>

record digraph_view =
  query_nodes :: "node_query \<Rightarrow> node set"
  query_edges :: "directed_edge_query \<Rightarrow> directed_edge set"

text \<open>The adjacency lists, and their methods in the order of the class.\<close>

type_synonym adjacency_digraph = "node \<rightharpoonup> node set"

definition empty_adjacency :: adjacency_digraph where
  "empty_adjacency = Map.empty"

text \<open>\<open>NodeSource::new_node\<close>: the counter is a \<open>size_t\<close>.\<close>

definition new_node :: "nat \<Rightarrow> node \<times> nat" where
  "new_node next_available_node_id = (next_available_node_id, (next_available_node_id + 1) mod 2 ^ 64)"

text \<open>\<open>adjacency[n]\<close> without an assignment creates the empty entry when there is none.\<close>

definition add_node_unsafe :: "adjacency_digraph \<Rightarrow> node \<Rightarrow> adjacency_digraph" where
  "add_node_unsafe adjacency n = (if adjacency n = None then adjacency(n \<mapsto> {}) else adjacency)"

definition add_node :: "adjacency_digraph \<Rightarrow> nat \<Rightarrow> node \<times> adjacency_digraph \<times> nat" where
  "add_node adjacency source =
     (let (n, source) = new_node source in (n, add_node_unsafe adjacency n, source))"

definition remove_node_unsafe :: "adjacency_digraph \<Rightarrow> node \<Rightarrow> adjacency_digraph" where
  "remove_node_unsafe adjacency n = adjacency(n := None)"

definition add_edge :: "adjacency_digraph \<Rightarrow> directed_edge \<Rightarrow> adjacency_digraph res" where
  "add_edge adjacency e =
     res_bind (map_at adjacency (de_dst e)) (\<lambda>_.
     res_bind (map_at adjacency (de_src e)) (\<lambda>succs.
     Inr (adjacency(de_src e \<mapsto> insert (de_dst e) succs))))"

definition remove_edge :: "adjacency_digraph \<Rightarrow> directed_edge \<Rightarrow> adjacency_digraph res" where
  "remove_edge adjacency e =
     res_bind (map_at adjacency (de_src e)) (\<lambda>succs.
     Inr (adjacency(de_src e \<mapsto> succs - {de_dst e})))"

definition adjacency_query_edges :: "adjacency_digraph \<Rightarrow> directed_edge_query \<Rightarrow> directed_edge set" where
  "adjacency_query_edges adjacency query =
     (let by_src = query_keys (deq_srcs query) adjacency
      in \<Union>src \<in> dom by_src. DirectedEdge src ` apply_query (deq_dsts query) (the (by_src src)))"

definition adjacency_query_nodes :: "adjacency_digraph \<Rightarrow> node_query \<Rightarrow> node set" where
  "adjacency_query_nodes adjacency query = apply_query query (dom adjacency)"

definition view_of_adjacency :: "adjacency_digraph \<Rightarrow> digraph_view" where
  "view_of_adjacency adjacency =
     \<lparr> query_nodes = adjacency_query_nodes adjacency, query_edges = adjacency_query_edges adjacency \<rparr>"

text \<open>Loops of \<open>add_edge\<close> and \<open>remove_edge\<close>.\<close>

fun add_edges :: "adjacency_digraph \<Rightarrow> directed_edge list \<Rightarrow> adjacency_digraph res" where
  "add_edges g [] = Inr g"
| "add_edges g (e # edges) = res_bind (add_edge g e) (\<lambda>g. add_edges g edges)"

fun remove_each :: "adjacency_digraph \<Rightarrow> directed_edge list \<Rightarrow> adjacency_digraph res" where
  "remove_each g [] = Inr g"
| "remove_each g (e # edges) = res_bind (remove_edge g e) (\<lambda>g. remove_each g edges)"

text \<open>\<open>FlippedView\<close> and \<open>DiSubgraphView\<close>.\<close>

definition flipped_directed_edge :: "directed_edge \<Rightarrow> directed_edge" where
  "flipped_directed_edge e = DirectedEdge (de_dst e) (de_src e)"

definition flipped :: "digraph_view \<Rightarrow> digraph_view" where
  "flipped g =
     \<lparr> query_nodes = query_nodes g,
       query_edges = (\<lambda>query. flipped_directed_edge `
         query_edges g \<lparr> deq_srcs = deq_dsts query, deq_dsts = deq_srcs query \<rparr>) \<rparr>"

text \<open>
  The intersections with the query of a subgraph always exist, because that query lists its values; the
  other branch is not reached.
\<close>

definition view_subgraph :: "digraph_view \<Rightarrow> node set \<Rightarrow> digraph_view" where
  "view_subgraph g subgraph_nodes =
     \<lparr> query_nodes = (\<lambda>query. case node_query_intersection query (match_values_in subgraph_nodes) of
           Inr q \<Rightarrow> query_nodes g q | Inl _ \<Rightarrow> {}),
       query_edges = (\<lambda>query. case edge_query_intersection query
           \<lparr> deq_srcs = match_values_in subgraph_nodes, deq_dsts = match_values_in subgraph_nodes \<rparr> of
           Inr q \<Rightarrow> query_edges g q | Inl _ \<Rightarrow> {}) \<rparr>"

section \<open>Algorithms on views\<close>

definition get_nodes :: "digraph_view \<Rightarrow> node set" where
  "get_nodes g = query_nodes g node_query_all"

definition has_node :: "digraph_view \<Rightarrow> node \<Rightarrow> bool" where
  "has_node g n \<longleftrightarrow> query_nodes g (match_single_value n) \<noteq> {}"

definition num_nodes :: "digraph_view \<Rightarrow> nat" where
  "num_nodes g = card (get_nodes g)"

definition get_edges :: "digraph_view \<Rightarrow> directed_edge set" where
  "get_edges g = query_edges g directed_edge_query_all"

definition digraph_has_edge :: "digraph_view \<Rightarrow> directed_edge \<Rightarrow> bool" where
  "digraph_has_edge g e \<longleftrightarrow> query_edges g
     \<lparr> deq_srcs = match_single_value (de_src e), deq_dsts = match_single_value (de_dst e) \<rparr> \<noteq> {}"

definition get_outgoing_edges :: "digraph_view \<Rightarrow> node \<Rightarrow> directed_edge set" where
  "get_outgoing_edges g n = query_edges g \<lparr> deq_srcs = match_single_value n, deq_dsts = matchall \<rparr>"

definition get_incoming_edges :: "digraph_view \<Rightarrow> node \<Rightarrow> directed_edge set" where
  "get_incoming_edges g n = query_edges g \<lparr> deq_srcs = matchall, deq_dsts = match_single_value n \<rparr>"

text \<open>\<open>group_by\<close> has an entry for the keys that occur; the loop after it adds the other nodes.\<close>

definition group_by :: "'v set \<Rightarrow> ('v \<Rightarrow> 'k) \<Rightarrow> ('k \<rightharpoonup> 'v set)" where
  "group_by vs f = (\<lambda>k. let matching = {v \<in> vs. f v = k} in if matching = {} then None else Some matching)"

definition get_incoming_edges_map :: "digraph_view \<Rightarrow> node set \<Rightarrow> (node \<rightharpoonup> directed_edge set)" where
  "get_incoming_edges_map g ns =
     (let by_dst = group_by (query_edges g \<lparr> deq_srcs = matchall, deq_dsts = match_values_in ns \<rparr>) de_dst
      in (\<lambda>n. if n \<in> ns \<and> by_dst n = None then Some {} else by_dst n))"

definition get_predecessors_map :: "digraph_view \<Rightarrow> node set \<Rightarrow> (node \<rightharpoonup> node set)" where
  "get_predecessors_map g ns = map_option (\<lambda>es. de_src ` es) \<circ> get_incoming_edges_map g ns"

definition get_predecessors :: "digraph_view \<Rightarrow> node \<Rightarrow> node set res" where
  "get_predecessors g n = map_at (get_predecessors_map g {n}) n"

definition get_successors :: "digraph_view \<Rightarrow> node \<Rightarrow> node set res" where
  "get_successors g n = get_predecessors (flipped g) n"

definition get_initial_nodes :: "digraph_view \<Rightarrow> node set" where
  "get_initial_nodes g =
     (let all_nodes = get_nodes g; with_incoming_edge = de_dst ` get_edges g
      in all_nodes - with_incoming_edge)"

definition get_terminal_nodes :: "digraph_view \<Rightarrow> node set" where
  "get_terminal_nodes g = get_initial_nodes (flipped g)"

definition get_subgraph_outgoing_edges :: "digraph_view \<Rightarrow> node set \<Rightarrow> directed_edge set" where
  "get_subgraph_outgoing_edges g subgraph_nodes =
     (let external_nodes = get_nodes g - subgraph_nodes
      in query_edges g \<lparr> deq_srcs = match_values_in subgraph_nodes, deq_dsts = match_values_in external_nodes \<rparr>)"

definition get_subgraph_successors :: "digraph_view \<Rightarrow> node set \<Rightarrow> node set" where
  "get_subgraph_successors g subgraph_nodes = de_dst ` get_subgraph_outgoing_edges g subgraph_nodes"

definition get_edges_from_subgraph_to_subgraph ::
    "digraph_view \<Rightarrow> node set \<Rightarrow> node set \<Rightarrow> directed_edge set res" where
  "get_edges_from_subgraph_to_subgraph g src_subgraph dst_subgraph =
     (if src_subgraph \<inter> dst_subgraph \<noteq> {} then Inl Runtime_error
      else Inr (query_edges g
        \<lparr> deq_srcs = match_values_in src_subgraph, deq_dsts = match_values_in dst_subgraph \<rparr>))"

definition materialize_digraph_view :: "digraph_view \<Rightarrow> adjacency_digraph res" where
  "materialize_digraph_view g =
     add_edges (foldl add_node_unsafe empty_adjacency (sorted_list_of_set (get_nodes g)))
       (sorted_list_of_set (get_edges g))"

definition contains_edge :: "digraph_view \<Rightarrow> directed_edge \<Rightarrow> bool" where
  "contains_edge g e \<longleftrightarrow> e \<in> query_edges g
     \<lparr> deq_srcs = match_single_value (de_src e), deq_dsts = match_single_value (de_dst e) \<rparr>"

text \<open>\<open>remove_node\<close> reads the outgoing edges after it has removed the incoming ones.\<close>

definition remove_node :: "adjacency_digraph \<Rightarrow> node \<Rightarrow> adjacency_digraph res" where
  "remove_node g n =
     res_bind (remove_each g (sorted_list_of_set (get_incoming_edges (view_of_adjacency g) n))) (\<lambda>g.
     res_bind (remove_each g (sorted_list_of_set (get_outgoing_edges (view_of_adjacency g) n))) (\<lambda>g.
     Inr (remove_node_unsafe g n)))"

definition remove_node_if_unused :: "adjacency_digraph \<Rightarrow> node \<Rightarrow> adjacency_digraph" where
  "remove_node_if_unused g n =
     (if get_incoming_edges (view_of_adjacency g) n \<noteq> {} then g
      else if get_outgoing_edges (view_of_adjacency g) n \<noteq> {} then g
      else remove_node_unsafe g n)"

fun remove_edges :: "adjacency_digraph \<Rightarrow> directed_edge list \<Rightarrow> adjacency_digraph res" where
  "remove_edges g [] = Inr g"
| "remove_edges g (e # edges) =
     res_bind (ASSERT (contains_edge (view_of_adjacency g) e)) (\<lambda>_.
     res_bind (remove_edge g e) (\<lambda>g. remove_edges g edges))"

section \<open>Facts about queries\<close>

lemmas query_defs = matchall_def match_values_in_def match_single_value_def is_matchall_def
  query_includes_def apply_query_def query_keys_def

lemma query_includes_simps [simp]:
  "query_includes matchall n" "query_includes None n"
  "query_includes (match_values_in vs) n \<longleftrightarrow> n \<in> vs"
  "query_includes (match_single_value v) n \<longleftrightarrow> n = v"
  "query_includes (Some vs) n \<longleftrightarrow> n \<in> vs"
  by (simp_all add: query_defs)

lemma apply_query_eq: "apply_query q c = {t \<in> c. query_includes q t}"
  by (auto simp: query_defs split: option.split)

lemma query_set_intersection_eq:
  "\<exists>q. query_set_intersection l r = Inr q \<and> (\<forall>v. query_includes q v \<longleftrightarrow> query_includes l v \<and> query_includes r v)"
  by (cases l; cases r)
    (auto simp: query_set_intersection_def is_matchall_def allowed_values_def query_includes_simps)

lemma query_set_union_eq:
  "\<exists>q. query_set_union l r = Inr q \<and> (\<forall>v. query_includes q v \<longleftrightarrow> query_includes l v \<or> query_includes r v)"
  by (cases l; cases r)
    (auto simp: query_set_union_def is_matchall_def allowed_values_def query_includes_simps)

lemma intersected_values_eq:
  "\<exists>vs. intersected_values l r = Inr vs \<and>
     (\<forall>v. v \<in> vs \<longleftrightarrow> query_includes l v \<and> query_includes r v \<and> \<not> (l = matchall \<and> r = matchall))"
  by (cases l; cases r)
    (simp_all add: intersected_values_def is_matchall_def allowed_values_def query_set_intersection_def matchall_def
      match_values_in_def)

lemma intersected_values_Some:
  "\<exists>vs. intersected_values l (match_values_in s) = Inr vs \<and> (\<forall>v. v \<in> vs \<longleftrightarrow> query_includes l v \<and> v \<in> s)"
  using intersected_values_eq [of l "match_values_in s"] by (simp add: match_values_in_def matchall_def)

section \<open>Well-formed views\<close>

definition wf_digraph_view :: "digraph_view \<Rightarrow> bool" where
  "wf_digraph_view g \<longleftrightarrow> finite (get_nodes g) \<and> finite (get_edges g) \<and>
     (\<forall>q. query_nodes g q = {n \<in> get_nodes g. query_includes q n}) \<and>
     (\<forall>q. query_edges g q = {e \<in> get_edges g. matches_edge q e}) \<and>
     (\<forall>e \<in> get_edges g. de_src e \<in> get_nodes g \<and> de_dst e \<in> get_nodes g)"

definition edge_rel :: "digraph_view \<Rightarrow> (node \<times> node) set" where
  "edge_rel g = {(a, b). DirectedEdge a b \<in> get_edges g}"

lemma wf_nodes: "wf_digraph_view g \<Longrightarrow> query_nodes g q = {n \<in> get_nodes g. query_includes q n}"
  unfolding wf_digraph_view_def by blast

lemma wf_edges: "wf_digraph_view g \<Longrightarrow> query_edges g q = {e \<in> get_edges g. matches_edge q e}"
  unfolding wf_digraph_view_def by blast

lemma wf_finite [simp]: "wf_digraph_view g \<Longrightarrow> finite (get_nodes g)" "wf_digraph_view g \<Longrightarrow> finite (get_edges g)"
  unfolding wf_digraph_view_def by blast+

lemma wf_endpoints:
  "wf_digraph_view g \<Longrightarrow> (a, b) \<in> edge_rel g \<Longrightarrow> a \<in> get_nodes g"
  "wf_digraph_view g \<Longrightarrow> (a, b) \<in> edge_rel g \<Longrightarrow> b \<in> get_nodes g"
  unfolding wf_digraph_view_def edge_rel_def by fastforce+

lemma edge_rel_subset: "wf_digraph_view g \<Longrightarrow> edge_rel g \<subseteq> get_nodes g \<times> get_nodes g"
  using wf_endpoints by auto

lemma finite_edge_rel: "wf_digraph_view g \<Longrightarrow> finite (edge_rel g)"
  by (rule finite_subset [OF edge_rel_subset]) simp_all

lemma de_src_edge: "e \<in> get_edges g \<Longrightarrow> (de_src e, de_dst e) \<in> edge_rel g"
  by (simp add: edge_rel_def)

lemma edge_collapse: "e = DirectedEdge a b \<longleftrightarrow> de_src e = a \<and> de_dst e = b"
  by (cases e) auto

lemma edge_in: "e \<in> get_edges g \<longleftrightarrow> (de_src e, de_dst e) \<in> edge_rel g"
  by (simp add: edge_rel_def)

lemma has_node_eq: "wf_digraph_view g \<Longrightarrow> has_node g n \<longleftrightarrow> n \<in> get_nodes g"
  by (auto simp: has_node_def wf_nodes)

lemma digraph_has_edge_eq: "wf_digraph_view g \<Longrightarrow> digraph_has_edge g e \<longleftrightarrow> e \<in> get_edges g"
proof -
  assume wf: "wf_digraph_view g"
  have "digraph_has_edge g e \<longleftrightarrow> (\<exists>f \<in> get_edges g. de_src f = de_src e \<and> de_dst f = de_dst e)"
    by (auto simp: digraph_has_edge_def wf_edges [OF wf] matches_edge_def)
  then show ?thesis by (metis directed_edge.expand)
qed

lemma contains_edge_eq: "wf_digraph_view g \<Longrightarrow> contains_edge g e \<longleftrightarrow> e \<in> get_edges g"
  by (auto simp: contains_edge_def wf_edges matches_edge_def)

lemma get_outgoing_edges_eq: "wf_digraph_view g \<Longrightarrow> get_outgoing_edges g n = DirectedEdge n ` (edge_rel g `` {n})"
  unfolding get_outgoing_edges_def
  by (auto simp: wf_edges matches_edge_def image_iff edge_in edge_collapse)

lemma get_incoming_edges_eq:
  "wf_digraph_view g \<Longrightarrow> get_incoming_edges g n = (\<lambda>m. DirectedEdge m n) ` ((edge_rel g)\<inverse> `` {n})"
  unfolding get_incoming_edges_def
  by (auto simp: wf_edges matches_edge_def image_iff edge_in edge_collapse)

lemma get_predecessors_eq:
  assumes "wf_digraph_view g"
  shows "get_predecessors g n = Inr ((edge_rel g)\<inverse> `` {n})"
proof -
  have "get_incoming_edges_map g {n} n = Some {e \<in> get_edges g. de_dst e = n}"
    using assms by (auto simp: get_incoming_edges_map_def group_by_def Let_def wf_edges matches_edge_def)
  moreover have "de_src ` {e \<in> get_edges g. de_dst e = n} = (edge_rel g)\<inverse> `` {n}"
    by (force simp: edge_rel_def)
  ultimately show ?thesis by (simp add: get_predecessors_def get_predecessors_map_def)
qed

lemma get_predecessors_map_eq:
  assumes "wf_digraph_view g" and "n \<in> ns"
  shows "get_predecessors_map g ns n = Some ((edge_rel g)\<inverse> `` {n})"
proof -
  have "get_incoming_edges_map g ns n = Some {e \<in> get_edges g. de_dst e = n}"
    using assms by (auto simp: get_incoming_edges_map_def group_by_def Let_def wf_edges matches_edge_def)
  moreover have "de_src ` {e \<in> get_edges g. de_dst e = n} = (edge_rel g)\<inverse> `` {n}"
    by (force simp: edge_rel_def)
  ultimately show ?thesis by (simp add: get_predecessors_map_def)
qed

lemma get_initial_nodes_eq: "get_initial_nodes g = {n \<in> get_nodes g. (edge_rel g)\<inverse> `` {n} = {}}"
proof -
  have "n \<in> de_dst ` get_edges g \<longleftrightarrow> (\<exists>m. (m, n) \<in> edge_rel g)" for n
    by (metis edge_in imageE image_eqI directed_edge.sel)
  then show ?thesis by (auto simp: get_initial_nodes_def)
qed

subsection \<open>Views made from views\<close>

lemma flipped_flipped_edge [simp]: "flipped_directed_edge (flipped_directed_edge e) = e"
  by (simp add: flipped_directed_edge_def)

lemma get_nodes_flipped [simp]: "get_nodes (flipped g) = get_nodes g"
  by (simp add: flipped_def get_nodes_def)

lemma get_edges_flipped [simp]: "get_edges (flipped g) = flipped_directed_edge ` get_edges g"
  by (simp add: flipped_def get_edges_def directed_edge_query_all_def)

lemma wf_flipped: "wf_digraph_view g \<Longrightarrow> wf_digraph_view (flipped g)"
  unfolding wf_digraph_view_def get_nodes_flipped get_edges_flipped
  by (auto simp: flipped_def flipped_directed_edge_def matches_edge_def)

lemma edge_rel_flipped [simp]: "edge_rel (flipped g) = (edge_rel g)\<inverse>"
  by (force simp: edge_rel_def flipped_directed_edge_def image_iff)

lemma get_successors_eq: "wf_digraph_view g \<Longrightarrow> get_successors g n = Inr (edge_rel g `` {n})"
  by (simp add: get_successors_def get_predecessors_eq wf_flipped)

lemma view_subgraph_query_nodes:
  "wf_digraph_view g \<Longrightarrow> query_nodes (view_subgraph g s) q = {n \<in> get_nodes g. n \<in> s \<and> query_includes q n}"
proof -
  assume wf: "wf_digraph_view g"
  obtain vs where vs: "intersected_values q (match_values_in s) = Inr vs" "\<And>v. v \<in> vs \<longleftrightarrow> query_includes q v \<and> v \<in> s"
    using intersected_values_Some by blast
  then show ?thesis
    by (auto simp: view_subgraph_def node_query_intersection_def wf_nodes [OF wf])
qed

lemma view_subgraph_query_edges:
  assumes "wf_digraph_view g"
  shows "query_edges (view_subgraph g s) q = {e \<in> get_edges g. de_src e \<in> s \<and> de_dst e \<in> s \<and> matches_edge q e}"
proof -
  obtain a where a: "intersected_values (deq_srcs q) (match_values_in s) = Inr a"
    "\<And>v. v \<in> a \<longleftrightarrow> query_includes (deq_srcs q) v \<and> v \<in> s"
    using intersected_values_Some by blast
  obtain b where b: "intersected_values (deq_dsts q) (match_values_in s) = Inr b"
    "\<And>v. v \<in> b \<longleftrightarrow> query_includes (deq_dsts q) v \<and> v \<in> s"
    using intersected_values_Some by blast
  from a b show ?thesis
    by (auto simp: view_subgraph_def edge_query_intersection_def wf_edges [OF assms] matches_edge_def)
qed

lemma get_nodes_subgraph: "wf_digraph_view g \<Longrightarrow> get_nodes (view_subgraph g s) = get_nodes g \<inter> s"
  by (auto simp: get_nodes_def [of "view_subgraph g s"] view_subgraph_query_nodes node_query_all_def)

lemma get_edges_subgraph:
  "wf_digraph_view g \<Longrightarrow> get_edges (view_subgraph g s) = {e \<in> get_edges g. de_src e \<in> s \<and> de_dst e \<in> s}"
  by (auto simp: get_edges_def [of "view_subgraph g s"] view_subgraph_query_edges directed_edge_query_all_def
      matches_edge_def)

lemma wf_subgraph: "wf_digraph_view g \<Longrightarrow> wf_digraph_view (view_subgraph g s)"
  unfolding wf_digraph_view_def [of "view_subgraph g s"]
  by (auto simp: get_nodes_subgraph get_edges_subgraph view_subgraph_query_nodes view_subgraph_query_edges
      dest: de_src_edge wf_endpoints)

lemma edge_rel_subgraph: "wf_digraph_view g \<Longrightarrow> edge_rel (view_subgraph g s) = edge_rel g \<inter> s \<times> s"
  by (auto simp: edge_rel_def get_edges_subgraph)

section \<open>Adjacency lists\<close>

definition wf_adjacency :: "adjacency_digraph \<Rightarrow> bool" where
  "wf_adjacency g \<longleftrightarrow> finite (dom g) \<and> (\<forall>n succs. g n = Some succs \<longrightarrow> succs \<subseteq> dom g)"

lemma adjacency_nodes: "get_nodes (view_of_adjacency g) = dom g"
  by (simp add: get_nodes_def view_of_adjacency_def adjacency_query_nodes_def node_query_all_def query_defs)

lemma adjacency_query_edges_eq:
  "adjacency_query_edges g q =
     {e. \<exists>succs. g (de_src e) = Some succs \<and> de_dst e \<in> succs \<and> matches_edge q e}"
  by (force simp: adjacency_query_edges_def query_keys_def apply_query_eq matches_edge_def is_matchall_def Let_def
      dom_def image_iff split: if_splits)

lemma adjacency_edges:
  "get_edges (view_of_adjacency g) = {e. \<exists>succs. g (de_src e) = Some succs \<and> de_dst e \<in> succs}"
  by (simp add: get_edges_def view_of_adjacency_def adjacency_query_edges_eq directed_edge_query_all_def
      matches_edge_def)

lemma adjacency_edge_rel: "edge_rel (view_of_adjacency g) = {(a, b). \<exists>succs. g a = Some succs \<and> b \<in> succs}"
  by (simp add: edge_rel_def adjacency_edges)

lemma wf_view_of_adjacency: "wf_adjacency g \<Longrightarrow> wf_digraph_view (view_of_adjacency g)"
proof -
  assume wf: "wf_adjacency g"
  have "get_edges (view_of_adjacency g) \<subseteq> (\<lambda>(a, b). DirectedEdge a b) ` (dom g \<times> dom g)"
  proof
    fix e assume "e \<in> get_edges (view_of_adjacency g)"
    then obtain succs where "g (de_src e) = Some succs" "de_dst e \<in> succs" by (auto simp: adjacency_edges)
    with wf have "(de_src e, de_dst e) \<in> dom g \<times> dom g" by (auto simp: wf_adjacency_def)
    then show "e \<in> (\<lambda>(a, b). DirectedEdge a b) ` (dom g \<times> dom g)" by (rule rev_image_eqI) simp
  qed
  then have "finite (get_edges (view_of_adjacency g))"
    using wf by (auto simp: wf_adjacency_def intro: finite_subset)
  with wf show ?thesis
    unfolding wf_digraph_view_def adjacency_nodes adjacency_edges
    by (auto simp: wf_adjacency_def view_of_adjacency_def adjacency_query_nodes_def apply_query_eq
        adjacency_query_edges_eq)
qed

text \<open>
  What an implementation of \<open>IDiGraph\<close> promises: after each method the view has the nodes and edges one
  expects. An edge can be added when its ends are nodes, and removed when its source is.
\<close>

locale digraph_instance =
  fixes ok :: "'g \<Rightarrow> bool" and view :: "'g \<Rightarrow> digraph_view" and emp :: "'g"
    and add_n :: "'g \<Rightarrow> node \<Rightarrow> 'g"
    and add_e remove_e :: "'g \<Rightarrow> directed_edge \<Rightarrow> 'g res"
  assumes view_wf: "ok g \<Longrightarrow> wf_digraph_view (view g)"
    and ok_emp: "ok emp" "get_nodes (view emp) = {}"
    and ok_add_n: "ok g \<Longrightarrow> ok (add_n g n)"
    and nodes_add_n: "ok g \<Longrightarrow> get_nodes (view (add_n g n)) = insert n (get_nodes (view g))"
    and edges_add_n: "ok g \<Longrightarrow> get_edges (view (add_n g n)) = get_edges (view g)"
    and add_e_ok: "ok g \<Longrightarrow> de_src e \<in> get_nodes (view g) \<Longrightarrow> de_dst e \<in> get_nodes (view g) \<Longrightarrow>
      \<exists>h. add_e g e = Inr h \<and> ok h \<and> get_nodes (view h) = get_nodes (view g) \<and>
        get_edges (view h) = insert e (get_edges (view g))"
    and remove_e_ok: "ok g \<Longrightarrow> de_src e \<in> get_nodes (view g) \<Longrightarrow>
      \<exists>h. remove_e g e = Inr h \<and> ok h \<and> get_nodes (view h) = get_nodes (view g) \<and>
        get_edges (view h) = get_edges (view g) - {e}"
begin

fun each :: "('g \<Rightarrow> directed_edge \<Rightarrow> 'g res) \<Rightarrow> 'g \<Rightarrow> directed_edge list \<Rightarrow> 'g res" where
  "each f g [] = Inr g"
| "each f g (e # es) = res_bind (f g e) (\<lambda>g. each f g es)"

lemma add_all:
  "ok g \<Longrightarrow> \<forall>e \<in> set es. de_src e \<in> get_nodes (view g) \<and> de_dst e \<in> get_nodes (view g) \<Longrightarrow>
   \<exists>h. each add_e g es = Inr h \<and> ok h \<and> get_nodes (view h) = get_nodes (view g) \<and>
     get_edges (view h) = get_edges (view g) \<union> set es"
proof (induction es arbitrary: g)
  case (Cons e es)
  from Cons.prems obtain h where h: "add_e g e = Inr h" "ok h" "get_nodes (view h) = get_nodes (view g)"
    "get_edges (view h) = insert e (get_edges (view g))"
    using add_e_ok [of g e] by auto
  with Cons.IH [of h] Cons.prems(2) show ?case by auto
qed simp

lemma remove_all:
  "ok g \<Longrightarrow> \<forall>e \<in> set es. de_src e \<in> get_nodes (view g) \<Longrightarrow>
   \<exists>h. each remove_e g es = Inr h \<and> ok h \<and> get_nodes (view h) = get_nodes (view g) \<and>
     get_edges (view h) = get_edges (view g) - set es"
proof (induction es arbitrary: g)
  case (Cons e es)
  from Cons.prems obtain h where h: "remove_e g e = Inr h" "ok h" "get_nodes (view h) = get_nodes (view g)"
    "get_edges (view h) = get_edges (view g) - {e}"
    using remove_e_ok [of g e] by auto
  with Cons.IH [of h] Cons.prems(2) show ?case by auto
qed simp

lemma add_nodes:
  "ok g \<Longrightarrow> ok (foldl add_n g ns) \<and> get_nodes (view (foldl add_n g ns)) = get_nodes (view g) \<union> set ns \<and>
     get_edges (view (foldl add_n g ns)) = get_edges (view g)"
  by (induction ns arbitrary: g) (auto simp: ok_add_n nodes_add_n edges_add_n)

lemma edges_emp: "get_edges (view emp) = {}"
  using edge_rel_subset [OF view_wf [OF ok_emp(1)]] ok_emp(2) by (auto simp: edge_in)

lemma build:
  assumes "finite ns" and "finite es" and "\<forall>e \<in> es. de_src e \<in> ns \<and> de_dst e \<in> ns"
  shows "\<exists>h. each add_e (foldl add_n emp (sorted_list_of_set ns)) (sorted_list_of_set es) = Inr h \<and> ok h \<and>
    get_nodes (view h) = ns \<and> get_edges (view h) = es"
  using add_all [of "foldl add_n emp (sorted_list_of_set ns)" "sorted_list_of_set es"]
    add_nodes [OF ok_emp(1), of "sorted_list_of_set ns"] assms ok_emp(2) edges_emp by auto

end

lemma wf_add_node_unsafe: "wf_adjacency g \<Longrightarrow> wf_adjacency (add_node_unsafe g n)"
proof -
  assume wf: "wf_adjacency g"
  show "wf_adjacency (add_node_unsafe g n)"
    unfolding wf_adjacency_def
  proof (intro conjI allI impI)
    show "finite (dom (add_node_unsafe g n))" using wf by (simp add: wf_adjacency_def add_node_unsafe_def)
    fix m succs assume "add_node_unsafe g n m = Some succs"
    then have "succs = {} \<or> succs \<subseteq> dom g" using wf by (auto simp: wf_adjacency_def add_node_unsafe_def split: if_splits)
    then show "succs \<subseteq> dom (add_node_unsafe g n)" by (auto simp: add_node_unsafe_def)
  qed
qed

lemma add_edge_eq:
  assumes "wf_adjacency g" and "de_src e \<in> dom g" and "de_dst e \<in> dom g"
  shows "\<exists>h. add_edge g e = Inr h \<and> wf_adjacency h \<and> dom h = dom g \<and>
    get_edges (view_of_adjacency h) = insert e (get_edges (view_of_adjacency g))"
proof -
  from assms obtain succs d where s: "g (de_src e) = Some succs" "g (de_dst e) = Some d" by blast
  then have "add_edge g e = Inr (g(de_src e \<mapsto> insert (de_dst e) succs))"
    by (simp add: add_edge_def map_at_def)
  with s assms show ?thesis
    by (auto simp: wf_adjacency_def adjacency_edges intro: directed_edge.expand)
qed

lemma remove_edge_eq:
  assumes "wf_adjacency g" and "de_src e \<in> dom g"
  shows "\<exists>h. remove_edge g e = Inr h \<and> wf_adjacency h \<and> dom h = dom g \<and>
    get_edges (view_of_adjacency h) = get_edges (view_of_adjacency g) - {e}"
proof -
  from assms obtain succs where s: "g (de_src e) = Some succs" by blast
  then have "remove_edge g e = Inr (g(de_src e \<mapsto> succs - {de_dst e}))"
    by (simp add: remove_edge_def map_at_def)
  with s assms show ?thesis
    by (auto simp: wf_adjacency_def adjacency_edges intro: directed_edge.expand)
qed

interpretation adjacency: digraph_instance wf_adjacency view_of_adjacency empty_adjacency add_node_unsafe
  add_edge remove_edge
proof
  show "wf_adjacency empty_adjacency" "get_nodes (view_of_adjacency empty_adjacency) = {}"
    by (simp_all add: wf_adjacency_def empty_adjacency_def adjacency_nodes)
next
  fix g :: adjacency_digraph and n
  show "get_nodes (view_of_adjacency (add_node_unsafe g n)) = insert n (get_nodes (view_of_adjacency g))"
    by (auto simp: adjacency_nodes add_node_unsafe_def)
  show "get_edges (view_of_adjacency (add_node_unsafe g n)) = get_edges (view_of_adjacency g)"
    by (auto simp: adjacency_edges add_node_unsafe_def)
qed (simp_all add: wf_view_of_adjacency wf_add_node_unsafe adjacency_nodes add_edge_eq remove_edge_eq)

lemma add_edges_eq: "add_edges g es = adjacency.each add_edge g es"
  by (induction es arbitrary: g) simp_all

lemma remove_each_eq: "remove_each g es = adjacency.each remove_edge g es"
  by (induction es arbitrary: g) simp_all

lemma materialize_eq:
  assumes "wf_digraph_view g"
  shows "\<exists>h. materialize_digraph_view g = Inr h \<and> wf_adjacency h \<and> dom h = get_nodes g \<and>
    get_edges (view_of_adjacency h) = get_edges g"
proof -
  have "\<forall>e \<in> get_edges g. de_src e \<in> get_nodes g \<and> de_dst e \<in> get_nodes g"
    using edge_rel_subset [OF assms] by (auto simp: edge_in)
  from adjacency.build [OF wf_finite(1) [OF assms] wf_finite(2) [OF assms] this] show ?thesis
    unfolding materialize_digraph_view_def add_edges_eq adjacency_nodes .
qed

text \<open>
  Claim C40. Intersecting two node queries, or two edge queries, goes wrong where both match everything: a node
  matches the intersection exactly when it matches both and one of the two lists nodes; an edge matches the
  intersection exactly when it matches both, one of the two lists sources and one of the two lists targets.
  The intersection of a matchall with itself is the query that matches nothing.
\<close>

theorem query_intersection_drops_matchall:
  "(\<exists>q. node_query_intersection m n = Inr q \<and>
     (\<forall>v. query_includes q v \<longleftrightarrow> query_includes m v \<and> query_includes n v \<and> \<not> (m = matchall \<and> n = matchall))) \<and>
   (\<exists>q. edge_query_intersection l r = Inr q \<and>
     (\<forall>e. matches_edge q e \<longleftrightarrow> matches_edge l e \<and> matches_edge r e \<and>
       \<not> (deq_srcs l = matchall \<and> deq_srcs r = matchall) \<and> \<not> (deq_dsts l = matchall \<and> deq_dsts r = matchall)))"
proof
  obtain c where c: "intersected_values m n = Inr c"
      "\<And>v. v \<in> c \<longleftrightarrow> query_includes m v \<and> query_includes n v \<and> \<not> (m = matchall \<and> n = matchall)"
    using intersected_values_eq by blast
  then show "\<exists>q. node_query_intersection m n = Inr q \<and>
     (\<forall>v. query_includes q v \<longleftrightarrow> query_includes m v \<and> query_includes n v \<and> \<not> (m = matchall \<and> n = matchall))"
    by (auto simp: node_query_intersection_def)
  obtain a where a: "intersected_values (deq_srcs l) (deq_srcs r) = Inr a" "\<And>v. v \<in> a \<longleftrightarrow>
      query_includes (deq_srcs l) v \<and> query_includes (deq_srcs r) v \<and> \<not> (deq_srcs l = matchall \<and> deq_srcs r = matchall)"
    using intersected_values_eq by blast
  obtain b where b: "intersected_values (deq_dsts l) (deq_dsts r) = Inr b" "\<And>v. v \<in> b \<longleftrightarrow>
      query_includes (deq_dsts l) v \<and> query_includes (deq_dsts r) v \<and> \<not> (deq_dsts l = matchall \<and> deq_dsts r = matchall)"
    using intersected_values_eq by blast
  from a b show "\<exists>q. edge_query_intersection l r = Inr q \<and>
     (\<forall>e. matches_edge q e \<longleftrightarrow> matches_edge l e \<and> matches_edge r e \<and>
       \<not> (deq_srcs l = matchall \<and> deq_srcs r = matchall) \<and> \<not> (deq_dsts l = matchall \<and> deq_dsts r = matchall))"
    by (auto simp: edge_query_intersection_def matches_edge_def)
qed

end
