(* ===== verification/Digraph_Traversal.thy ===== *)
theory Digraph_Traversal
  imports Digraphs
begin

text \<open>
  The traversals of directed graphs: the search for cycles (\<open>is_acyclic.cc\<close>), the topological ordering by
  an unchecked depth-first iterator that skips nodes which are not ready (\<open>get_topological_ordering.cc\<close>,
  \<open>traversal.cc\<close>), breadth-first search (\<open>traversal.cc\<close>, \<open>get_descendants.cc\<close>), topological ranks and the
  lengths of longest paths.

  A computation that may run forever returns a \<open>run\<close>: \<open>None\<close> when it does not return, otherwise the
  result of the code, a fault or a value. The theorems say that each traversal returns on every
  well-formed view, and what it returns.
\<close>

section \<open>Computations that may run forever\<close>

type_synonym 'a run = "'a res option"

definition run_bind :: "'a run \<Rightarrow> ('a \<Rightarrow> 'b run) \<Rightarrow> 'b run" where
  "run_bind m f = Option.bind m (\<lambda>r. case r of Inl e \<Rightarrow> Some (Inl e) | Inr x \<Rightarrow> f x)"

lemma run_bind_simps [simp]:
  "run_bind None f = None" "run_bind (Some (Inl e)) f = Some (Inl e)" "run_bind (Some (Inr x)) f = f x"
  by (simp_all add: run_bind_def)

lemma run_bind_mono [partial_function_mono]:
  assumes "mono_option F" and "\<And>x. mono_option (\<lambda>f. G f x)"
  shows "mono_option (\<lambda>f. run_bind (F f) (G f))"
  unfolding run_bind_def
proof (rule bind_mono [OF assms(1)])
  fix r
  show "mono_option (\<lambda>f. case r of Inl e \<Rightarrow> Some (Inl e) | Inr x \<Rightarrow> G f x)"
    using assms(2) by (cases r) (auto intro: option.const_mono)
qed

section \<open>Cycles\<close>

datatype exploration_status = NOT_EXPLORED | BEING_EXPLORED | FULLY_EXPLORED

type_synonym exploration = "node \<rightharpoonup> exploration_status"

text \<open>
  The loop over the successors. The lambda changes the map it has captured, which is passed and
  returned; the result says whether a cycle was found.
\<close>

fun explore_successors ::
    "(node \<Rightarrow> exploration \<Rightarrow> (bool \<times> exploration) run) \<Rightarrow> node list \<Rightarrow> exploration \<Rightarrow> (bool \<times> exploration) run" where
  "explore_successors explore [] status = Some (Inr (False, status))"
| "explore_successors explore (successor # rest) status =
     run_bind (Some (map_at status successor)) (\<lambda>s.
     if s = NOT_EXPLORED then
       run_bind (explore successor status) (\<lambda>(found, status).
       if found then Some (Inr (True, status)) else explore_successors explore rest status)
     else if s = BEING_EXPLORED then Some (Inr (True, status))
     else explore_successors explore rest status)"

lemma explore_successors_mono [partial_function_mono]:
  assumes "\<And>n status. mono_option (\<lambda>f. F f n status)"
  shows "mono_option (\<lambda>f. explore_successors (F f) ns status)"
proof (induction ns arbitrary: status)
  case (Cons n ns)
  have "mono_option (\<lambda>f. (\<lambda>(found, st). if found then Some (Inr (True, st))
      else explore_successors (F f) ns st) x)" for x :: "bool \<times> exploration"
    using Cons.IH by (cases x; cases "fst x") (auto intro: option.const_mono)
  then have "mono_option (\<lambda>f. run_bind (F f n status) (\<lambda>(found, st). if found then Some (Inr (True, st))
      else explore_successors (F f) ns st))"
    by (intro run_bind_mono assms)
  with Cons.IH have "mono_option (\<lambda>f. (\<lambda>s. if s = NOT_EXPLORED then
       run_bind (F f n status) (\<lambda>(found, st). if found then Some (Inr (True, st)) else explore_successors (F f) ns st)
     else if s = BEING_EXPLORED then Some (Inr (True, status))
     else explore_successors (F f) ns status) x)" for x
    by (cases x) (auto intro: option.const_mono)
  then show ?case by (auto intro!: run_bind_mono option.const_mono)
qed (simp add: option.const_mono)

partial_function (option) cycle_downstream_from_node ::
    "digraph_view \<Rightarrow> node \<Rightarrow> exploration \<Rightarrow> (bool \<times> exploration) run" where
  "cycle_downstream_from_node g n status =
     run_bind (Some (get_successors g n)) (\<lambda>succs.
     run_bind (explore_successors (\<lambda>m st. cycle_downstream_from_node g m st) (sorted_list_of_set succs)
         (status(n \<mapsto> BEING_EXPLORED))) (\<lambda>r.
     if fst r then Some (Inr r) else Some (Inr (False, (snd r)(n \<mapsto> FULLY_EXPLORED)))))"

fun explore_all :: "digraph_view \<Rightarrow> node list \<Rightarrow> exploration \<Rightarrow> bool run" where
  "explore_all g [] status = Some (Inr True)"
| "explore_all g (n # rest) status =
     run_bind (Some (map_at status n)) (\<lambda>s.
     if s = NOT_EXPLORED then
       run_bind (cycle_downstream_from_node g n status) (\<lambda>(found, status).
       if found then Some (Inr False) else explore_all g rest status)
     else explore_all g rest status)"

definition is_acyclic :: "digraph_view \<Rightarrow> bool run" where
  "is_acyclic g =
     run_bind (Some (generate_map (sorted_list_of_set (get_nodes g)) (\<lambda>_. Inr NOT_EXPLORED))) (\<lambda>status.
     explore_all g (sorted_list_of_set (get_nodes g)) status)"

section \<open>The search for cycles is right\<close>

definition with_status :: "exploration_status \<Rightarrow> exploration \<Rightarrow> node set" where
  "with_status s status = {n. status n = Some s}"

lemma with_status_upd:
  "with_status s (status(n \<mapsto> t)) = (if s = t then insert n (with_status s status) else with_status s status - {n})"
  by (auto simp: with_status_def)

text \<open>What has been fully explored is closed under successors and lies on no cycle.\<close>

definition explored_ok :: "digraph_view \<Rightarrow> exploration \<Rightarrow> bool" where
  "explored_ok g status \<longleftrightarrow> dom status = get_nodes g \<and>
     edge_rel g `` with_status FULLY_EXPLORED status \<subseteq> with_status FULLY_EXPLORED status \<and>
     (\<forall>n \<in> with_status FULLY_EXPLORED status. (n, n) \<notin> (edge_rel g)\<^sup>+)"

definition on_path_to :: "digraph_view \<Rightarrow> node \<Rightarrow> exploration \<Rightarrow> bool" where
  "on_path_to g n status \<longleftrightarrow> (\<forall>m \<in> with_status BEING_EXPLORED status. (m, n) \<in> (edge_rel g)\<^sup>*)"

definition explored_more :: "digraph_view \<Rightarrow> exploration \<Rightarrow> node set \<Rightarrow> exploration \<Rightarrow> bool" where
  "explored_more g status ns status' \<longleftrightarrow> explored_ok g status' \<and>
     with_status BEING_EXPLORED status' = with_status BEING_EXPLORED status \<and>
     with_status NOT_EXPLORED status' \<subseteq> with_status NOT_EXPLORED status \<and>
     with_status FULLY_EXPLORED status \<union> ns \<subseteq> with_status FULLY_EXPLORED status'"

text \<open>A search returns; it reports a cycle only if there is one, and otherwise has explored more.\<close>

definition explores :: "digraph_view \<Rightarrow> exploration \<Rightarrow> node set \<Rightarrow> (bool \<times> exploration) run \<Rightarrow> bool" where
  "explores g status ns r \<longleftrightarrow> (\<exists>found status'. r = Some (Inr (found, status')) \<and>
     (if found then \<not> acyclic (edge_rel g) else explored_more g status ns status'))"

lemma exploresE:
  assumes "explores g status ns r"
  obtains (cycle) status' where "r = Some (Inr (True, status'))" "\<not> acyclic (edge_rel g)"
  | (more) status' where "r = Some (Inr (False, status'))" "explored_more g status ns status'"
  using assms unfolding explores_def by (metis (full_types))

lemma explores_Some [simp]:
  "explores g status ns (Some (Inr (found, status'))) \<longleftrightarrow>
     (if found then \<not> acyclic (edge_rel g) else explored_more g status ns status')"
  by (simp add: explores_def)

lemma explored_more_trans:
  "explored_more g a ns b \<Longrightarrow> explored_more g b ms c \<Longrightarrow> explored_more g a (ns \<union> ms) c"
  by (auto simp: explored_more_def)

lemma explored_more_refl: "explored_ok g a \<Longrightarrow> ns \<subseteq> with_status FULLY_EXPLORED a \<Longrightarrow> explored_more g a ns a"
  by (auto simp: explored_more_def)

lemma finite_with_status: "explored_ok g status \<Longrightarrow> wf_digraph_view g \<Longrightarrow> finite (with_status s status)"
  by (rule finite_subset [of _ "get_nodes g"]) (auto simp: with_status_def explored_ok_def)

lemma exploration_cases:
  assumes "explored_ok g status" and "n \<in> get_nodes g"
  obtains s where "status n = Some s" "n \<in> with_status s status"
  using assms by (fastforce simp: explored_ok_def with_status_def)

lemma explore_successors_explores:
  assumes wf: "wf_digraph_view g"
    and explore: "\<And>m st. m \<in> with_status NOT_EXPLORED st \<Longrightarrow> explored_ok g st \<Longrightarrow> on_path_to g m st \<Longrightarrow>
      card (with_status NOT_EXPLORED st) \<le> k \<Longrightarrow> explores g st {m} (explore m st)"
    and "explored_ok g status" and "n \<in> with_status BEING_EXPLORED status" and "on_path_to g n status"
    and "card (with_status NOT_EXPLORED status) \<le> k" and "\<forall>m \<in> set ns. (n, m) \<in> edge_rel g"
  shows "explores g status (set ns) (explore_successors explore ns status)"
  using assms(3-)
proof (induction ns arbitrary: status)
  case Nil
  then show ?case by (simp add: explored_more_refl)
next
  case (Cons m ns)
  have edge: "(n, m) \<in> edge_rel g" using Cons.prems by simp
  have path: "on_path_to g m status"
    using Cons.prems(3) edge by (auto simp: on_path_to_def intro: rtrancl_into_rtrancl)
  obtain s where s: "status m = Some s" "m \<in> with_status s status"
    using exploration_cases [OF Cons.prems(1) wf_endpoints(2) [OF wf edge]] .
  have rest: "explores g status (set (m # ns)) (explore_successors explore ns status')"
    if more: "explored_more g status {m} status'" for status'
  proof -
    have fin: "finite (with_status NOT_EXPLORED status)" using Cons.prems(1) wf by (rule finite_with_status)
    have "explores g status' (set ns) (explore_successors explore ns status')"
    proof (rule Cons.IH)
      show "explored_ok g status'" "n \<in> with_status BEING_EXPLORED status'" "on_path_to g n status'"
        using more Cons.prems(2,3) by (simp_all add: explored_more_def on_path_to_def)
      show "card (with_status NOT_EXPLORED status') \<le> k"
        using card_mono [OF fin, of "with_status NOT_EXPLORED status'"] more Cons.prems(4)
        by (simp add: explored_more_def)
      show "\<forall>m \<in> set ns. (n, m) \<in> edge_rel g" using Cons.prems(5) by simp
    qed
    then show ?thesis
    proof (cases rule: exploresE)
      case cycle then show ?thesis by simp
    next
      case more': (more st)
      then show ?thesis using explored_more_trans [OF more more'(2)] by simp
    qed
  qed
  show ?case
  proof (cases s)
    case NOT_EXPLORED
    with s have "explores g status {m} (explore m status)"
      using explore [of m status] Cons.prems path by simp
    then show ?thesis
    proof (cases rule: exploresE)
      case cycle then show ?thesis using s NOT_EXPLORED by (simp add: map_at_def)
    next
      case (more st)
      from rest [OF more(2)] show ?thesis using s NOT_EXPLORED more(1) by (simp add: map_at_def)
    qed
  next
    case BEING_EXPLORED
    with s Cons.prems(3) have "(m, n) \<in> (edge_rel g)\<^sup>*" by (simp add: on_path_to_def)
    with edge have "(n, n) \<in> (edge_rel g)\<^sup>+" by (rule rtrancl_into_trancl2)
    then show ?thesis using s BEING_EXPLORED by (auto simp: map_at_def acyclic_def)
  next
    case FULLY_EXPLORED
    with s rest [OF explored_more_refl [OF Cons.prems(1), of "{m}"]] show ?thesis by (simp add: map_at_def)
  qed
qed

lemma cycle_downstream_explores:
  assumes wf: "wf_digraph_view g"
  shows "n \<in> with_status NOT_EXPLORED status \<Longrightarrow> explored_ok g status \<Longrightarrow> on_path_to g n status \<Longrightarrow>
    card (with_status NOT_EXPLORED status) \<le> k \<Longrightarrow>
    explores g status {n} (cycle_downstream_from_node g n status)"
proof (induction k arbitrary: n status)
  case 0
  then show ?case using finite_with_status [OF 0(2) wf, of NOT_EXPLORED] by auto
next
  case (Suc k)
  let ?st = "status(n \<mapsto> BEING_EXPLORED)" and ?ns = "sorted_list_of_set (edge_rel g `` {n})"
  have fin: "finite (edge_rel g `` {n})" using finite_edge_rel [OF wf] by (rule finite_Image)
  have n: "n \<in> get_nodes g" "n \<notin> with_status FULLY_EXPLORED status" "n \<notin> with_status BEING_EXPLORED status"
    using Suc.prems(1,2) by (auto simp: with_status_def explored_ok_def)
  have sets: "with_status FULLY_EXPLORED ?st = with_status FULLY_EXPLORED status"
    "with_status BEING_EXPLORED ?st = insert n (with_status BEING_EXPLORED status)"
    "with_status NOT_EXPLORED ?st = with_status NOT_EXPLORED status - {n}"
    using n by (auto simp: with_status_upd)
  have "explores g ?st (set ?ns) (explore_successors (cycle_downstream_from_node g) ?ns ?st)"
  proof (rule explore_successors_explores [OF wf Suc.IH])
    show "explored_ok g ?st"
      unfolding explored_ok_def sets using Suc.prems(2) n by (auto simp: explored_ok_def)
    show "n \<in> with_status BEING_EXPLORED ?st" by (simp add: sets)
    show "on_path_to g n ?st" using Suc.prems(3) by (simp add: on_path_to_def sets)
    show "card (with_status NOT_EXPLORED ?st) \<le> k"
      using Suc.prems(1,4) finite_with_status [OF Suc.prems(2) wf, of NOT_EXPLORED] by (simp add: sets)
    show "\<forall>m \<in> set ?ns. (n, m) \<in> edge_rel g" using fin by simp
  qed
  then show ?case
  proof (cases rule: exploresE)
    case (cycle st)
    then show ?thesis
      by (subst cycle_downstream_from_node.simps) (simp add: get_successors_eq [OF wf])
  next
    case (more st)
    let ?F = "with_status FULLY_EXPLORED st" and ?st' = "st(n \<mapsto> FULLY_EXPLORED)"
    have succs: "edge_rel g `` {n} \<subseteq> ?F" using more(2) fin by (simp add: explored_more_def)
    have ok: "explored_ok g st" using more(2) by (simp add: explored_more_def)
    have nF: "n \<in> with_status BEING_EXPLORED st" using more(2) by (simp add: explored_more_def sets)
    then have "n \<notin> ?F" by (simp add: with_status_def)
    have "(n, n) \<notin> (edge_rel g)\<^sup>+"
    proof
      assume "(n, n) \<in> (edge_rel g)\<^sup>+"
      then obtain m where m: "(n, m) \<in> edge_rel g" "(m, n) \<in> (edge_rel g)\<^sup>*" by (meson tranclD)
      have "(edge_rel g)\<^sup>* `` ?F \<subseteq> ?F" using Image_closed_trancl [of "edge_rel g" ?F] ok by (simp add: explored_ok_def)
      with m succs \<open>n \<notin> ?F\<close> show False by blast
    qed
    then have "explored_ok g ?st'"
      using ok succs n(1) by (auto simp: explored_ok_def with_status_upd)
    moreover have "with_status BEING_EXPLORED ?st' = with_status BEING_EXPLORED status"
      using more(2) n(3) by (auto simp: with_status_upd explored_more_def sets)
    ultimately have "explored_more g status {n} ?st'"
      using more(2) by (auto simp: explored_more_def sets with_status_upd)
    then show ?thesis
      using more(1) by (subst cycle_downstream_from_node.simps) (simp add: get_successors_eq [OF wf])
  qed
qed

lemma explore_all_eq:
  assumes wf: "wf_digraph_view g"
  shows "explored_ok g status \<Longrightarrow> with_status BEING_EXPLORED status = {} \<Longrightarrow> set ns \<subseteq> get_nodes g \<Longrightarrow>
    get_nodes g \<subseteq> with_status FULLY_EXPLORED status \<union> set ns \<Longrightarrow>
    explore_all g ns status = Some (Inr (acyclic (edge_rel g)))"
proof (induction ns arbitrary: status)
  case Nil
  then have "(n, n) \<notin> (edge_rel g)\<^sup>+" if "n \<in> get_nodes g" for n using that by (auto simp: explored_ok_def)
  moreover have "n \<in> get_nodes g" if "(n, n) \<in> (edge_rel g)\<^sup>+" for n
    using tranclD [OF that] wf_endpoints(1) [OF wf] by blast
  ultimately have "acyclic (edge_rel g)" by (auto simp: acyclic_def)
  then show ?case by simp
next
  case (Cons n ns)
  obtain s where s: "status n = Some s" "n \<in> with_status s status"
    using exploration_cases [OF Cons.prems(1), of n] Cons.prems(3) by auto
  show ?case
  proof (cases "s = NOT_EXPLORED")
    case True
    have "explores g status {n} (cycle_downstream_from_node g n status)"
      by (rule cycle_downstream_explores [OF wf _ Cons.prems(1) _ order.refl])
        (use s True Cons.prems(2) in \<open>simp_all add: on_path_to_def\<close>)
    then show ?thesis
    proof (cases rule: exploresE)
      case cycle then show ?thesis using s True by (simp add: map_at_def)
    next
      case (more st)
      have "explore_all g ns st = Some (Inr (acyclic (edge_rel g)))"
        by (rule Cons.IH) (use more(2) Cons.prems in \<open>auto simp: explored_more_def\<close>)
      then show ?thesis using s True more(1) by (simp add: map_at_def)
    qed
  next
    case False
    then have "n \<in> with_status FULLY_EXPLORED status" using s Cons.prems(2) by (cases s) auto
    then have "explore_all g ns status = Some (Inr (acyclic (edge_rel g)))"
      by (intro Cons.IH) (use Cons.prems in auto)
    then show ?thesis using s False by (simp add: map_at_def)
  qed
qed

lemma is_acyclic_eq:
  assumes wf: "wf_digraph_view g"
  shows "is_acyclic g = Some (Inr (acyclic (edge_rel g)))"
proof -
  let ?ns = "sorted_list_of_set (get_nodes g)"
  let ?st = "map_of (map (\<lambda>n. (n, NOT_EXPLORED)) ?ns)"
  have st: "?st = (\<lambda>n. if n \<in> get_nodes g then Some NOT_EXPLORED else None)"
    using wf by (auto simp: map_of_map_restrict restrict_map_def)
  have sets: "with_status s ?st = (if s = NOT_EXPLORED then get_nodes g else {})" for s
    unfolding st by (auto simp: with_status_def)
  have "explore_all g ?ns ?st = Some (Inr (acyclic (edge_rel g)))"
    by (rule explore_all_eq [OF wf]) (use wf in \<open>simp_all only: explored_ok_def sets, auto simp: st dom_def\<close>)
  then show ?thesis
    by (simp add: is_acyclic_def generate_map_def res_map_Inr)
qed

section \<open>Topological order\<close>

text \<open>
  The unchecked depth-first iterator is its stack, whose end is the top. \<open>operator++\<close> replaces the top by
  its successors and moves those that are in the stack already to the top; \<open>skip\<close> is \<open>butlast\<close>.
\<close>

definition push_or_move :: "node list \<Rightarrow> node \<Rightarrow> node list" where
  "push_or_move stack n = (if n \<in> set stack then remove1 n stack @ [n] else stack @ [n])"

definition dfs_advance :: "digraph_view \<Rightarrow> node list \<Rightarrow> node list" where
  "dfs_advance g stack =
     (let outgoing = sorted_list_of_set (get_outgoing_edges g (last stack))
      in foldl push_or_move (butlast stack) (map de_dst outgoing))"

partial_function (option) topological_loop ::
    "digraph_view \<Rightarrow> (node \<rightharpoonup> node set) \<Rightarrow> node list \<Rightarrow> node list \<Rightarrow> node set \<Rightarrow> node list run" where
  "topological_loop g predecessors stack order seen =
     (if stack = [] then Some (Inr order)
      else run_bind (Some (map_at predecessors (last stack))) (\<lambda>preds.
      if preds \<subseteq> seen
      then topological_loop g predecessors (dfs_advance g stack) (order @ [last stack]) (insert (last stack) seen)
      else topological_loop g predecessors (butlast stack) order seen))"

definition get_unchecked_topological_ordering :: "digraph_view \<Rightarrow> node list run" where
  "get_unchecked_topological_ordering g =
     topological_loop g (get_predecessors_map g (get_nodes g)) (sorted_list_of_set (get_initial_nodes g)) [] {}"

definition get_topological_ordering :: "digraph_view \<Rightarrow> node list run" where
  "get_topological_ordering g =
     run_bind (is_acyclic g) (\<lambda>a.
     run_bind (Some (ASSERT a)) (\<lambda>_.
     get_unchecked_topological_ordering g))"

text \<open>A list of nodes in which all predecessors of a node are before it.\<close>

definition predecessors_first :: "digraph_view \<Rightarrow> node list \<Rightarrow> bool" where
  "predecessors_first g ns \<longleftrightarrow> distinct ns \<and>
     (\<forall>xs n ys. ns = xs @ n # ys \<longrightarrow> (edge_rel g)\<inverse> `` {n} \<subseteq> set xs)"

definition topologically_sorted :: "digraph_view \<Rightarrow> node list \<Rightarrow> bool" where
  "topologically_sorted g ns \<longleftrightarrow> set ns = get_nodes g \<and> predecessors_first g ns"

lemma predecessors_first_Nil [simp]: "predecessors_first g []"
  by (simp add: predecessors_first_def)

lemma predecessors_first_snoc:
  "predecessors_first g (ns @ [n]) \<longleftrightarrow> predecessors_first g ns \<and> n \<notin> set ns \<and> (edge_rel g)\<inverse> `` {n} \<subseteq> set ns"
proof
  assume a: "predecessors_first g (ns @ [n])"
  have "(edge_rel g)\<inverse> `` {m} \<subseteq> set xs" if "ns = xs @ m # ys" for xs m ys
    using a that unfolding predecessors_first_def by auto
  with a show "predecessors_first g ns \<and> n \<notin> set ns \<and> (edge_rel g)\<inverse> `` {n} \<subseteq> set ns"
    unfolding predecessors_first_def by auto
next
  assume a: "predecessors_first g ns \<and> n \<notin> set ns \<and> (edge_rel g)\<inverse> `` {n} \<subseteq> set ns"
  have "(edge_rel g)\<inverse> `` {m} \<subseteq> set xs" if "ns @ [n] = xs @ m # ys" for xs m ys
    using a that by (cases ys rule: rev_cases) (auto simp: predecessors_first_def)
  with a show "predecessors_first g (ns @ [n])"
    unfolding predecessors_first_def by auto
qed

lemma set_push_or_move: "set (foldl push_or_move stack ns) = set stack \<union> set ns"
proof (induction ns arbitrary: stack)
  case (Cons n ns)
  have "m \<in> set (push_or_move stack n) \<longleftrightarrow> m = n \<or> m \<in> set stack" for m
    by (cases "m = n") (simp_all add: push_or_move_def)
  then have "set (push_or_move stack n) = insert n (set stack)" by blast
  with Cons show ?case by simp
qed simp

lemma set_dfs_advance:
  assumes "wf_digraph_view g"
  shows "set (dfs_advance g stack) = set (butlast stack) \<union> edge_rel g `` {last stack}"
proof -
  have "finite (DirectedEdge (last stack) ` (edge_rel g `` {last stack}))"
    using finite_edge_rel [OF assms] by (intro finite_imageI finite_Image)
  then show ?thesis
    by (simp add: dfs_advance_def Let_def set_push_or_move get_outgoing_edges_eq [OF assms] image_image)
qed

lemma distinct_push_or_move: "distinct stack \<Longrightarrow> distinct (foldl push_or_move stack ns)"
  by (induction ns arbitrary: stack) (auto simp: push_or_move_def)

definition ordering_state :: "digraph_view \<Rightarrow> node list \<Rightarrow> node list \<Rightarrow> bool" where
  "ordering_state g stack order \<longleftrightarrow> predecessors_first g order \<and> set order \<subseteq> get_nodes g \<and>
     set stack \<subseteq> get_nodes g \<and> distinct stack \<and> set stack \<inter> set order = {} \<and>
     (\<forall>n \<in> get_nodes g - set order. (edge_rel g)\<inverse> `` {n} \<subseteq> set order \<longrightarrow> n \<in> set stack)"

lemma ordering_state_advance:
  assumes wf: "wf_digraph_view g" and ok: "ordering_state g (stack @ [n]) order"
    and ready: "(edge_rel g)\<inverse> `` {n} \<subseteq> set order"
  shows "ordering_state g (dfs_advance g (stack @ [n])) (order @ [n])"
  unfolding ordering_state_def set_dfs_advance [OF wf] predecessors_first_snoc
proof (intro conjI ballI impI)
  have n: "n \<in> get_nodes g" "n \<notin> set order" using ok by (auto simp: ordering_state_def)
  show "predecessors_first g order" "n \<notin> set order" "(edge_rel g)\<inverse> `` {n} \<subseteq> set order"
    "set (order @ [n]) \<subseteq> get_nodes g"
    using ok ready n by (auto simp: ordering_state_def)
  show "set (butlast (stack @ [n])) \<union> edge_rel g `` {last (stack @ [n])} \<subseteq> get_nodes g"
    using ok wf_endpoints(2) [OF wf] by (auto simp: ordering_state_def)
  have "m \<notin> set (order @ [n])" if edge: "(n, m) \<in> edge_rel g" for m
  proof
    assume "m \<in> set (order @ [n])"
    then consider "m = n" | "m \<in> set order" by auto
    then show False
    proof cases
      case 1 then show ?thesis using edge ready n by auto
    next
      case 2
      then obtain xs ys where "order = xs @ m # ys" by (meson split_list)
      then have "n \<in> set order" using ok edge unfolding ordering_state_def predecessors_first_def by fastforce
      then show ?thesis using n by simp
    qed
  qed
  then show "(set (butlast (stack @ [n])) \<union> edge_rel g `` {last (stack @ [n])}) \<inter> set (order @ [n]) = {}"
    using ok by (auto simp: ordering_state_def)
  show "distinct (dfs_advance g (stack @ [n]))"
    using ok by (simp add: dfs_advance_def Let_def distinct_push_or_move ordering_state_def)
  fix m assume m: "m \<in> get_nodes g - set (order @ [n])" "(edge_rel g)\<inverse> `` {m} \<subseteq> set (order @ [n])"
  show "m \<in> set (butlast (stack @ [n])) \<union> edge_rel g `` {last (stack @ [n])}"
  proof (cases "(n, m) \<in> edge_rel g")
    case False
    then have "(edge_rel g)\<inverse> `` {m} \<subseteq> set order" using m(2) by auto
    with ok m(1) show ?thesis by (auto simp: ordering_state_def)
  qed simp
qed

lemma topological_loop_returns:
  assumes wf: "wf_digraph_view g"
  shows "ordering_state g stack order \<Longrightarrow>
    \<exists>order'. topological_loop g (get_predecessors_map g (get_nodes g)) stack order (set order) = Some (Inr order') \<and>
      ordering_state g [] order'"
proof (induction "card (get_nodes g - set order)" arbitrary: stack order rule: less_induct)
  case less
  let ?loop = "topological_loop g (get_predecessors_map g (get_nodes g))"
  from less.prems show ?case
  proof (induction stack rule: rev_induct)
    case Nil
    then show ?case by (subst topological_loop.simps) simp
  next
    case (snoc n stack)
    have n: "n \<in> get_nodes g" "n \<notin> set order" using snoc.prems by (auto simp: ordering_state_def)
    then have preds: "map_at (get_predecessors_map g (get_nodes g)) n = Inr ((edge_rel g)\<inverse> `` {n})"
      by (simp add: get_predecessors_map_eq [OF wf])
    show ?case
    proof (cases "(edge_rel g)\<inverse> `` {n} \<subseteq> set order")
      case True
      have "card (get_nodes g - set (order @ [n])) < card (get_nodes g - set order)"
        using n wf by (intro psubset_card_mono) auto
      from less.hyps [OF this ordering_state_advance [OF wf snoc.prems True]]
      show ?thesis using True by (subst topological_loop.simps) (simp add: preds)
    next
      case False
      have "ordering_state g stack order"
        using snoc.prems False by (auto simp: ordering_state_def)
      from snoc.IH [OF this] show ?thesis
        using False by (subst topological_loop.simps) (simp add: preds)
    qed
  qed
qed

text \<open>A set of nodes without a minimal element contains an endless descent, so a finite one a cycle.\<close>

lemma ordering_state_complete:
  assumes wf: "wf_digraph_view g" and "acyclic (edge_rel g)" and ok: "ordering_state g [] order"
  shows "topologically_sorted g order"
proof -
  have "wf (edge_rel g)" using finite_edge_rel [OF wf] assms(2) by (rule finite_acyclic_wf)
  have "n \<in> get_nodes g \<longrightarrow> n \<in> set order" for n
    using \<open>wf (edge_rel g)\<close>
  proof (induction n rule: wf_induct_rule)
    case (less n)
    show ?case
    proof
      assume "n \<in> get_nodes g"
      moreover have "(edge_rel g)\<inverse> `` {n} \<subseteq> set order" using less wf_endpoints(1) [OF wf] by auto
      ultimately show "n \<in> set order" using ok by (auto simp: ordering_state_def)
    qed
  qed
  with ok show ?thesis by (auto simp: ordering_state_def topologically_sorted_def)
qed

lemma get_topological_ordering_eq:
  assumes wf: "wf_digraph_view g"
  shows "acyclic (edge_rel g) \<Longrightarrow> \<exists>ns. get_topological_ordering g = Some (Inr ns) \<and> topologically_sorted g ns"
    and "\<not> acyclic (edge_rel g) \<Longrightarrow> get_topological_ordering g = Some (Inl Assertion_failed)"
proof -
  have init: "finite (get_initial_nodes g)"
    by (rule finite_subset [of _ "get_nodes g"]) (auto simp: get_initial_nodes_eq wf)
  have "ordering_state g (sorted_list_of_set (get_initial_nodes g)) []"
    using init by (auto simp: ordering_state_def get_initial_nodes_eq)
  from topological_loop_returns [OF wf this] obtain ns where
    "get_unchecked_topological_ordering g = Some (Inr ns)" "ordering_state g [] ns"
    by (auto simp: get_unchecked_topological_ordering_def)
  with ordering_state_complete [OF wf]
  show "acyclic (edge_rel g) \<Longrightarrow> \<exists>ns. get_topological_ordering g = Some (Inr ns) \<and> topologically_sorted g ns"
    by (auto simp: get_topological_ordering_def is_acyclic_eq [OF wf])
  show "\<not> acyclic (edge_rel g) \<Longrightarrow> get_topological_ordering g = Some (Inl Assertion_failed)"
    by (simp add: get_topological_ordering_def is_acyclic_eq [OF wf])
qed

section \<open>Breadth-first search\<close>

text \<open>\<open>bfs_iterator\<close> is its queue and the set of nodes it has seen.\<close>

definition bfs_advance :: "digraph_view \<Rightarrow> node list \<Rightarrow> node set \<Rightarrow> node list \<times> node set" where
  "bfs_advance g q seen =
     (let current = hd q;
          seen = insert current seen;
          outgoing = sorted_list_of_set (get_outgoing_edges g current);
          q = tl q @ filter (\<lambda>n. n \<notin> seen) (map de_dst outgoing)
      in (dropWhile (\<lambda>n. n \<in> seen) q, seen))"

partial_function (option) bfs_collect ::
    "digraph_view \<Rightarrow> node list \<Rightarrow> node set \<Rightarrow> node list \<Rightarrow> node list run" where
  "bfs_collect g q seen visited =
     (if q = [] then Some (Inr visited)
      else bfs_collect g (fst (bfs_advance g q seen)) (snd (bfs_advance g q seen)) (visited @ [hd q]))"

definition get_bfs_ordering :: "digraph_view \<Rightarrow> node set \<Rightarrow> node list run" where
  "get_bfs_ordering g starting_points = bfs_collect g (sorted_list_of_set starting_points) {} []"

definition get_descendants :: "digraph_view \<Rightarrow> node \<Rightarrow> node set run" where
  "get_descendants g starting_node =
     run_bind (is_acyclic g) (\<lambda>a.
     run_bind (Some (ASSERT a)) (\<lambda>_.
     run_bind (Some (ASSERT (starting_node \<in> get_nodes g))) (\<lambda>_.
     run_bind (Some (get_successors g starting_node)) (\<lambda>succs.
     run_bind (get_bfs_ordering g succs) (\<lambda>visited. Some (Inr (set visited)))))))"

definition get_ancestors :: "digraph_view \<Rightarrow> node \<Rightarrow> node set run" where
  "get_ancestors g starting_node =
     run_bind (is_acyclic g) (\<lambda>a.
     run_bind (Some (ASSERT a)) (\<lambda>_.
     get_descendants (flipped g) starting_node))"

definition bfs_state :: "digraph_view \<Rightarrow> node set \<Rightarrow> node list \<Rightarrow> node list \<Rightarrow> bool" where
  "bfs_state g start q visited \<longleftrightarrow> distinct visited \<and> set visited \<subseteq> get_nodes g \<and> set q \<subseteq> get_nodes g \<and>
     (q \<noteq> [] \<longrightarrow> hd q \<notin> set visited) \<and> start \<subseteq> set visited \<union> set q \<and>
     edge_rel g `` set visited \<subseteq> set visited \<union> set q \<and> set visited \<union> set q \<subseteq> (edge_rel g)\<^sup>* `` start"

lemma set_dropWhile_seen: "set q \<subseteq> set (dropWhile (\<lambda>n. n \<in> seen) q) \<union> seen"
  by (induction q) auto

lemma bfs_state_advance:
  assumes wf: "wf_digraph_view g" and ok: "bfs_state g start (n # q) visited"
  shows "snd (bfs_advance g (n # q) (set visited)) = set (visited @ [n])"
    and "bfs_state g start (fst (bfs_advance g (n # q) (set visited))) (visited @ [n])"
proof -
  let ?q = "q @ filter (\<lambda>m. m \<notin> insert n (set visited)) (map de_dst (sorted_list_of_set (get_outgoing_edges g n)))"
  let ?q' = "dropWhile (\<lambda>m. m \<in> insert n (set visited)) ?q"
  have adv: "bfs_advance g (n # q) (set visited) = (?q', insert n (set visited))"
    by (simp add: bfs_advance_def Let_def)
  show "snd (bfs_advance g (n # q) (set visited)) = set (visited @ [n])" unfolding adv by simp
  have "finite (DirectedEdge n ` (edge_rel g `` {n}))"
    using finite_edge_rel [OF wf] by (intro finite_imageI finite_Image)
  then have q: "set ?q = set q \<union> (edge_rel g `` {n} - insert n (set visited))"
    by (auto simp: get_outgoing_edges_eq [OF wf] image_image)
  define Q where "Q = set ?q'"
  have "Q \<subseteq> set ?q" unfolding Q_def by (rule subsetI) (rule set_dropWhileD)
  then have q': "Q \<subseteq> set q \<union> edge_rel g `` {n}" unfolding q by blast
  have "set ?q \<subseteq> Q \<union> insert n (set visited)" unfolding Q_def by (rule set_dropWhile_seen)
  then have q'': "set q \<union> edge_rel g `` {n} \<subseteq> Q \<union> insert n (set visited)" unfolding q by blast
  have n: "n \<notin> set visited" "n \<in> get_nodes g" using ok by (auto simp: bfs_state_def)
  show "bfs_state g start (fst (bfs_advance g (n # q) (set visited))) (visited @ [n])"
    unfolding adv fst_conv bfs_state_def Q_def [symmetric]
  proof (intro conjI impI)
    show "distinct (visited @ [n])" "set (visited @ [n]) \<subseteq> get_nodes g"
      using ok n by (auto simp: bfs_state_def)
    have "edge_rel g `` {n} \<subseteq> get_nodes g" using wf_endpoints(2) [OF wf] by blast
    then show "Q \<subseteq> get_nodes g"
      using q' ok by (auto simp: bfs_state_def)
    show "hd ?q' \<notin> set (visited @ [n])" if "?q' \<noteq> []"
      using hd_dropWhile [OF that] by simp
    have "start \<subseteq> set visited \<union> insert n (set q)" "edge_rel g `` set visited \<subseteq> set visited \<union> insert n (set q)"
      using ok by (simp_all add: bfs_state_def)
    with q'' show "start \<subseteq> set (visited @ [n]) \<union> Q"
      "edge_rel g `` set (visited @ [n]) \<subseteq> set (visited @ [n]) \<union> Q"
      by auto
    have "n \<in> (edge_rel g)\<^sup>* `` start" using ok by (auto simp: bfs_state_def)
    then have "edge_rel g `` {n} \<subseteq> (edge_rel g)\<^sup>* `` start"
      by (auto intro: rtrancl_into_rtrancl)
    then show "set (visited @ [n]) \<union> Q \<subseteq> (edge_rel g)\<^sup>* `` start"
      using ok q' by (auto simp: bfs_state_def)
  qed
qed

lemma bfs_collect_returns:
  assumes wf: "wf_digraph_view g"
  shows "bfs_state g start q visited \<Longrightarrow>
    \<exists>ns. bfs_collect g q (set visited) visited = Some (Inr ns) \<and> bfs_state g start [] ns"
proof (induction "card (get_nodes g - set visited)" arbitrary: q visited rule: less_induct)
  case less
  show ?case
  proof (cases q)
    case Nil
    then show ?thesis using less.prems by (subst bfs_collect.simps) simp
  next
    case (Cons n rest)
    have n: "n \<in> get_nodes g" "n \<notin> set visited" using less.prems Cons by (auto simp: bfs_state_def)
    have "card (get_nodes g - set (visited @ [n])) < card (get_nodes g - set visited)"
      using n wf by (intro psubset_card_mono) auto
    from less.hyps [OF this bfs_state_advance(2) [OF wf less.prems [unfolded Cons]]]
    show ?thesis unfolding Cons
      by (subst bfs_collect.simps) (simp add: bfs_state_advance(1) [OF wf less.prems [unfolded Cons]])
  qed
qed

lemma get_bfs_ordering_eq:
  assumes wf: "wf_digraph_view g" and "start \<subseteq> get_nodes g"
  shows "\<exists>ns. get_bfs_ordering g start = Some (Inr ns) \<and> distinct ns \<and> set ns = (edge_rel g)\<^sup>* `` start"
proof -
  have "finite start" using assms by (auto intro: finite_subset)
  with assms have "bfs_state g start (sorted_list_of_set start) []" by (auto simp: bfs_state_def)
  from bfs_collect_returns [OF wf this] obtain ns where
    ns: "get_bfs_ordering g start = Some (Inr ns)" "bfs_state g start [] ns"
    by (auto simp: get_bfs_ordering_def)
  then have "(edge_rel g)\<^sup>* `` set ns = set ns" by (intro Image_closed_trancl) (simp add: bfs_state_def)
  then have "set ns = (edge_rel g)\<^sup>* `` start" using ns(2) by (auto simp: bfs_state_def)
  with ns show ?thesis by (auto simp: bfs_state_def)
qed

lemma get_descendants_eq:
  assumes wf: "wf_digraph_view g" and "acyclic (edge_rel g)" and "n \<in> get_nodes g"
  shows "get_descendants g n = Some (Inr ((edge_rel g)\<^sup>+ `` {n}))"
proof -
  have "edge_rel g `` {n} \<subseteq> get_nodes g" using wf_endpoints(2) [OF wf] by auto
  from get_bfs_ordering_eq [OF wf this] obtain ns where
    "get_bfs_ordering g (edge_rel g `` {n}) = Some (Inr ns)" "set ns = (edge_rel g)\<^sup>* `` (edge_rel g `` {n})"
    by blast
  moreover have "(edge_rel g)\<^sup>* `` (edge_rel g `` {n}) = (edge_rel g)\<^sup>+ `` {n}"
    by (auto simp: trancl_unfold_left)
  ultimately show ?thesis
    using assms by (simp add: get_descendants_def is_acyclic_eq get_successors_eq)
qed

lemma get_ancestors_eq:
  assumes wf: "wf_digraph_view g" and "acyclic (edge_rel g)" and "n \<in> get_nodes g"
  shows "get_ancestors g n = Some (Inr (((edge_rel g)\<^sup>+)\<inverse> `` {n}))"
proof -
  have "get_descendants (flipped g) n = Some (Inr ((edge_rel (flipped g))\<^sup>+ `` {n}))"
    using assms by (intro get_descendants_eq) (simp_all add: wf_flipped acyclic_converse)
  then show ?thesis
    using assms by (simp add: get_ancestors_def is_acyclic_eq trancl_converse)
qed

section \<open>Ranks and longest paths\<close>

definition calculate_topo_rank :: "digraph_view \<Rightarrow> (node \<rightharpoonup> nat) run" where
  "calculate_topo_rank g =
     run_bind (get_topological_ordering g) (\<lambda>topo_ordering.
     Some (Inr (map_of (rev (zip topo_ordering [0..<length topo_ordering])))))"

fun path_lengths_loop ::
    "digraph_view \<Rightarrow> node list \<Rightarrow> (node \<rightharpoonup> nonnegative_int) \<Rightarrow> (node \<rightharpoonup> nonnegative_int) res" where
  "path_lengths_loop g [] longest_path_lengths = Inr longest_path_lengths"
| "path_lengths_loop g (n # topo_order) longest_path_lengths =
     res_bind (get_predecessors g n) (\<lambda>preds.
     res_bind (res_map (map_at longest_path_lengths) (sorted_list_of_set preds)) (\<lambda>predecessor_path_lengths.
     res_bind (if predecessor_path_lengths = [] then Inr 1
               else nonnegative_int_add (Max (set predecessor_path_lengths)) 1) (\<lambda>new_value.
     path_lengths_loop g topo_order (map_insert longest_path_lengths n new_value))))"

definition get_longest_path_lengths_from_root :: "digraph_view \<Rightarrow> (node \<rightharpoonup> nonnegative_int) run" where
  "get_longest_path_lengths_from_root g =
     run_bind (is_acyclic g) (\<lambda>a.
     run_bind (Some (ASSERT a)) (\<lambda>_.
     run_bind (get_topological_ordering g) (\<lambda>topo_order.
     Some (path_lengths_loop g topo_order Map.empty))))"

text \<open>A path is its list of nodes, and its length their number.\<close>

definition path_to :: "digraph_view \<Rightarrow> node \<Rightarrow> node list \<Rightarrow> bool" where
  "path_to g n p \<longleftrightarrow> p \<noteq> [] \<and> last p = n \<and> set p \<subseteq> get_nodes g \<and> successively (\<lambda>a b. (a, b) \<in> edge_rel g) p"

definition longest_path_to :: "digraph_view \<Rightarrow> node \<Rightarrow> nat \<Rightarrow> bool" where
  "longest_path_to g n k \<longleftrightarrow> (\<exists>p. path_to g n p \<and> length p = k) \<and> (\<forall>p. path_to g n p \<longrightarrow> length p \<le> k)"

lemma path_to_snoc:
  "path_to g n (p @ [m]) \<longleftrightarrow> m = n \<and> n \<in> get_nodes g \<and> (p = [] \<or> (\<exists>a. path_to g a p \<and> (a, n) \<in> edge_rel g))"
  by (cases p rule: rev_cases) (auto simp: path_to_def successively_append_iff)

lemma path_to_cases:
  assumes "path_to g n p"
  obtains "p = [n]" | a q where "p = q @ [n]" "path_to g a q" "(a, n) \<in> edge_rel g"
proof -
  from assms have "p \<noteq> []" "last p = n" by (simp_all add: path_to_def)
  then have p: "p = butlast p @ [n]" by (metis append_butlast_last_id)
  then consider "butlast p = []" | a where "path_to g a (butlast p)" "(a, n) \<in> edge_rel g"
    using assms path_to_snoc [of g n "butlast p" n] by auto
  then show ?thesis using p that by cases auto
qed

lemma longest_path_initial:
  assumes "n \<in> get_nodes g" and "(edge_rel g)\<inverse> `` {n} = {}"
  shows "longest_path_to g n 1"
proof -
  have "path_to g n [n]" using assms(1) by (simp add: path_to_def)
  moreover have "length p \<le> 1" if "path_to g n p" for p
    using that by (cases rule: path_to_cases) (use assms(2) in auto)
  ultimately show ?thesis unfolding longest_path_to_def by (metis length_Cons list.size(3) One_nat_def)
qed

lemma longest_path_step:
  assumes "n \<in> get_nodes g" and fin: "finite P" "P \<noteq> {}" and P: "(edge_rel g)\<inverse> `` {n} = P"
    and len: "\<And>m. m \<in> P \<Longrightarrow> longest_path_to g m (len m)"
  shows "longest_path_to g n (Max (len ` P) + 1)"
proof -
  have "Max (len ` P) \<in> len ` P" using fin by (intro Max_in) auto
  then obtain m where m: "m \<in> P" "len m = Max (len ` P)" by (metis imageE)
  with len obtain p where "path_to g m p" "length p = Max (len ` P)" unfolding longest_path_to_def by metis
  moreover have "(m, n) \<in> edge_rel g" using m(1) P by blast
  ultimately have "path_to g n (p @ [n]) \<and> length (p @ [n]) = Max (len ` P) + 1"
    using assms(1) path_to_snoc by auto
  moreover have "length p \<le> Max (len ` P) + 1" if "path_to g n p" for p
    using that
  proof (cases rule: path_to_cases)
    case (2 a q)
    then have a: "a \<in> P" using P by blast
    with len 2 have "length q \<le> len a" unfolding longest_path_to_def by blast
    also have "len a \<le> Max (len ` P)" using a fin by (intro Max_ge) auto
    finally show ?thesis using 2 by simp
  qed simp
  ultimately show ?thesis unfolding longest_path_to_def by blast
qed

definition lengths_of :: "digraph_view \<Rightarrow> node list \<Rightarrow> (node \<rightharpoonup> nat) \<Rightarrow> bool" where
  "lengths_of g ns lens \<longleftrightarrow> dom lens = set ns \<and>
     (\<forall>n k. lens n = Some k \<longrightarrow> longest_path_to g n k \<and> k \<le> length ns)"

lemma path_lengths_loop_eq:
  assumes wf: "wf_digraph_view g" and "card (get_nodes g) \<le> INT_MAX"
  shows "predecessors_first g (before @ ns) \<Longrightarrow> set (before @ ns) \<subseteq> get_nodes g \<Longrightarrow> lengths_of g before lens \<Longrightarrow>
    \<exists>lens'. path_lengths_loop g ns lens = Inr lens' \<and> lengths_of g (before @ ns) lens'"
proof (induction ns arbitrary: before lens)
  case (Cons n ns)
  let ?P = "(edge_rel g)\<inverse> `` {n}"
  have n: "n \<in> get_nodes g" "n \<notin> set before" "?P \<subseteq> set before"
    using Cons.prems(1,2) by (auto simp: predecessors_first_def)
  have fin: "finite ?P" using n(3) by (rule finite_subset) simp
  define len where "len m = the (lens m)" for m
  have len: "lens m = Some (len m)" "longest_path_to g m (len m)" "len m \<le> length before" if "m \<in> ?P" for m
  proof -
    have "m \<in> dom lens" using that n(3) Cons.prems(3) unfolding lengths_of_def by blast
    then show "lens m = Some (len m)" by (auto simp: len_def)
    with Cons.prems(3) show "longest_path_to g m (len m)" "len m \<le> length before"
      unfolding lengths_of_def by blast+
  qed
  have lens: "res_map (map_at lens) (sorted_list_of_set ?P) = Inr (map len (sorted_list_of_set ?P))"
    using fin len(1) by (intro res_map_Inr_on) (simp add: map_at_def)
  define k where "k = (if ?P = {} then 1 else Max (len ` ?P) + 1)"
  have "Max (len ` ?P) \<le> length before" if "?P \<noteq> {}"
    using that fin len(3) by (subst Max_le_iff) auto
  then have k: "k \<le> length before + 1" by (simp add: k_def)
  have "length (before @ n # ns) \<le> card (get_nodes g)"
    using Cons.prems(1,2) wf by (metis predecessors_first_def distinct_card card_mono wf_finite(1))
  then have "k \<le> INT_MAX" using k assms(2) by simp
  moreover have "map len (sorted_list_of_set ?P) = [] \<longleftrightarrow> ?P = {}" using fin by simp
  ultimately have "(if map len (sorted_list_of_set ?P) = [] then Inr 1
      else nonnegative_int_add (Max (set (map len (sorted_list_of_set ?P)))) 1) = Inr k"
    using fin by (auto simp: k_def nonnegative_int_add_eq split: if_splits)
  then have step: "path_lengths_loop g (n # ns) lens = path_lengths_loop g ns (map_insert lens n k)"
    by (simp add: get_predecessors_eq [OF wf] lens del: One_nat_def)
  have "lens n = None" using n(2) Cons.prems(3) by (auto simp: lengths_of_def)
  then have ins: "map_insert lens n k = lens(n \<mapsto> k)" by (simp add: map_insert_def)
  have "longest_path_to g n k"
    using longest_path_initial [OF n(1)] longest_path_step [OF n(1) fin _ refl len(2)] unfolding k_def by auto
  then have "lengths_of g (before @ [n]) (lens(n \<mapsto> k))"
    using Cons.prems(3) k by (auto simp: lengths_of_def split: if_splits intro: le_SucI)
  with Cons.IH [of "before @ [n]"] Cons.prems(1,2) show ?case unfolding step ins by simp
qed simp

lemma lengths_of_eq:
  assumes "topologically_sorted g ns" and "lengths_of g ns lens"
  shows "dom lens = get_nodes g" and "lens n = Some k \<Longrightarrow> longest_path_to g n k"
  using assms by (auto simp: topologically_sorted_def lengths_of_def)

section \<open>Properties\<close>

text \<open>
  Claim C19. The search for cycles returns on every finite graph, never reads the status of something that
  is not a node, and is right.
\<close>

theorem is_acyclic_decides:
  "wf_digraph_view g \<Longrightarrow> is_acyclic g = Some (Inr (acyclic (edge_rel g)))"
  by (rule is_acyclic_eq)

text \<open>A diamond, and a cycle of two nodes.\<close>

definition diamond :: adjacency_digraph where
  "diamond = [0 \<mapsto> {1, 2}, 1 \<mapsto> {3}, 2 \<mapsto> {3}, 3 \<mapsto> {}]"

definition two_cycle :: adjacency_digraph where
  "two_cycle = [0 \<mapsto> {1}, 1 \<mapsto> {0}]"

lemma wf_examples: "wf_digraph_view (view_of_adjacency diamond)" "wf_digraph_view (view_of_adjacency two_cycle)"
  by (rule wf_view_of_adjacency, auto simp: diamond_def two_cycle_def wf_adjacency_def split: if_splits)+

lemma acyclic_diamond: "acyclic (edge_rel (view_of_adjacency diamond))"
  by (rule acyclicI_order [where f = "\<lambda>n. - int n"]) (auto simp: adjacency_edge_rel diamond_def split: if_splits)

lemma cyclic_two_cycle: "\<not> acyclic (edge_rel (view_of_adjacency two_cycle))"
proof -
  have "(0, 1) \<in> edge_rel (view_of_adjacency two_cycle)" "(1, 0) \<in> edge_rel (view_of_adjacency two_cycle)"
    by (simp_all add: adjacency_edge_rel two_cycle_def)
  then have "(0, 0) \<in> (edge_rel (view_of_adjacency two_cycle))\<^sup>+" by (meson trancl.intros)
  then show ?thesis by (auto simp: acyclic_def)
qed

theorem is_acyclic_decides_witness:
  "is_acyclic (view_of_adjacency diamond) = Some (Inr True) \<and>
   is_acyclic (view_of_adjacency two_cycle) = Some (Inr False)"
  using is_acyclic_decides [OF wf_examples(1)] is_acyclic_decides [OF wf_examples(2)]
    acyclic_diamond cyclic_two_cycle by simp

text \<open>
  Claim C20. The topological ordering returns on every finite graph. Without a cycle it lists every node
  once, after all its predecessors, although the iterator it uses does not remember what it has visited;
  on a cycle the assertion fails.
\<close>

theorem topological_ordering_sorts:
  assumes "wf_digraph_view g"
  shows "if acyclic (edge_rel g)
    then \<exists>ns. get_topological_ordering g = Some (Inr ns) \<and> set ns = get_nodes g \<and> distinct ns \<and>
      (\<forall>xs n ys m. ns = xs @ n # ys \<and> (m, n) \<in> edge_rel g \<longrightarrow> m \<in> set xs)
    else get_topological_ordering g = Some (Inl Assertion_failed)"
  using get_topological_ordering_eq [OF assms]
  by (force simp: topologically_sorted_def predecessors_first_def)

theorem topological_ordering_sorts_witness:
  "\<exists>ns. get_topological_ordering (view_of_adjacency diamond) = Some (Inr ns) \<and>
    set ns = get_nodes (view_of_adjacency diamond) \<and> distinct ns \<and>
    (\<forall>xs n ys m. ns = xs @ n # ys \<and> (m, n) \<in> edge_rel (view_of_adjacency diamond) \<longrightarrow> m \<in> set xs)"
  using topological_ordering_sorts [OF wf_examples(1)] acyclic_diamond by simp

text \<open>
  Breadth-first search finds the descendants and, on the flipped view, the ancestors of a node
  of an acyclic graph: those a path of at least one edge leads to.
\<close>

theorem descendants_are_reachable:
  assumes "wf_digraph_view g" and "acyclic (edge_rel g)" and "n \<in> get_nodes g"
  shows "get_descendants g n = Some (Inr {m. (n, m) \<in> (edge_rel g)\<^sup>+}) \<and>
    get_ancestors g n = Some (Inr {m. (m, n) \<in> (edge_rel g)\<^sup>+})"
  using get_descendants_eq [OF assms] get_ancestors_eq [OF assms] by (simp add: Image_def)

theorem descendants_are_reachable_witness:
  "get_descendants (view_of_adjacency diamond) 1 =
     Some (Inr {m. (1, m) \<in> (edge_rel (view_of_adjacency diamond))\<^sup>+}) \<and>
   get_ancestors (view_of_adjacency diamond) 1 =
     Some (Inr {m. (m, 1) \<in> (edge_rel (view_of_adjacency diamond))\<^sup>+})"
  by (rule descendants_are_reachable [OF wf_examples(1) acyclic_diamond])
    (simp add: adjacency_nodes diamond_def)

text \<open>
  Claim C21. On an acyclic graph that an \<open>int\<close> can count, the longest path lengths give every node the
  number of nodes of a path that ends there, and no path that ends there is longer.
\<close>

theorem longest_path_lengths_correct:
  assumes "wf_digraph_view g" and "acyclic (edge_rel g)" and "card (get_nodes g) \<le> INT_MAX"
  shows "\<exists>lens. get_longest_path_lengths_from_root g = Some (Inr lens) \<and> dom lens = get_nodes g \<and>
    (\<forall>n k. lens n = Some k \<longrightarrow> (\<exists>p. path_to g n p \<and> length p = k) \<and> (\<forall>p. path_to g n p \<longrightarrow> length p \<le> k))"
proof -
  obtain ns where ns: "get_topological_ordering g = Some (Inr ns)" "topologically_sorted g ns"
    using get_topological_ordering_eq(1) [OF assms(1,2)] by blast
  then have "predecessors_first g ([] @ ns)" "set ([] @ ns) \<subseteq> get_nodes g" by (simp_all add: topologically_sorted_def)
  moreover have "lengths_of g [] Map.empty" by (simp add: lengths_of_def)
  ultimately obtain lens where "path_lengths_loop g ns Map.empty = Inr lens" "lengths_of g ns lens"
    using path_lengths_loop_eq [OF assms(1,3)] by fastforce
  with ns lengths_of_eq [OF ns(2)] show ?thesis
    by (auto simp: get_longest_path_lengths_from_root_def is_acyclic_eq [OF assms(1)] assms(2) longest_path_to_def)
qed

theorem longest_path_lengths_correct_witness:
  "\<exists>lens. get_longest_path_lengths_from_root (view_of_adjacency diamond) = Some (Inr lens) \<and>
    dom lens = get_nodes (view_of_adjacency diamond) \<and>
    (\<forall>n k. lens n = Some k \<longrightarrow> (\<exists>p. path_to (view_of_adjacency diamond) n p \<and> length p = k) \<and>
      (\<forall>p. path_to (view_of_adjacency diamond) n p \<longrightarrow> length p \<le> k))"
proof (rule longest_path_lengths_correct [OF wf_examples(1) acyclic_diamond])
  have "dom diamond = {0, 1, 2, 3}" by (auto simp: diamond_def split: if_splits)
  then show "card (get_nodes (view_of_adjacency diamond)) \<le> INT_MAX"
    by (simp add: adjacency_nodes INT_MAX_def)
qed

end
