(* ===== verification/Dataflow_Graphs.thy ===== *)
theory Dataflow_Graphs
  imports Digraph_Traversal
begin

text \<open>
  The labelled dataflow graphs of \<open>lib/utils\<close> whose inputs and outputs are named by slots
  (\<open>kwarg_dataflow_graph\<close>, \<open>open_kwarg_dataflow_graph\<close> and their labelled variants): the queries, the
  interfaces of views as records of functions, the implementation
  \<open>UnorderedSetLabelledOpenKwargDataflowGraph\<close>, the directed graph a dataflow graph is seen as, and the
  algorithms on views. Computation graphs and parallel computation graphs are such graphs.

  \<open>NodeSource\<close> is modelled by the number of nodes that have been made: the next node is that number
  modulo 2 to the 64. The locale \<open>dataflow_store\<close> is the contract a client of \<open>add_node\<close> relies on: a node
  with its labels, its incoming edges and its outputs is added and nothing else changes.
\<close>

section \<open>Values and edges\<close>

datatype 's kwarg_dataflow_output = KwargDataflowOutput (kdo_node: node) (kdo_slot_name: 's)

datatype 's kwarg_dataflow_input = KwargDataflowInput (kdi_node: node) (kdi_slot_name: 's)

datatype 's kwarg_dataflow_edge =
  KwargDataflowEdge (kde_src: "'s kwarg_dataflow_output") (kde_dst: "'s kwarg_dataflow_input")

instantiation kwarg_dataflow_output :: (linorder) linorder
begin

definition less_eq_kwarg_dataflow_output :: "'a kwarg_dataflow_output \<Rightarrow> 'a kwarg_dataflow_output \<Rightarrow> bool" where
  "less_eq_kwarg_dataflow_output x y \<longleftrightarrow> (kdo_node x, kdo_slot_name x) \<le> (kdo_node y, kdo_slot_name y)"

definition less_kwarg_dataflow_output :: "'a kwarg_dataflow_output \<Rightarrow> 'a kwarg_dataflow_output \<Rightarrow> bool" where
  "less_kwarg_dataflow_output x y \<longleftrightarrow> x \<le> y \<and> \<not> y \<le> x"

instance
  by standard (auto simp: less_eq_kwarg_dataflow_output_def less_kwarg_dataflow_output_def
      intro: kwarg_dataflow_output.expand)

end

instantiation kwarg_dataflow_input :: (linorder) linorder
begin

definition less_eq_kwarg_dataflow_input :: "'a kwarg_dataflow_input \<Rightarrow> 'a kwarg_dataflow_input \<Rightarrow> bool" where
  "less_eq_kwarg_dataflow_input x y \<longleftrightarrow> (kdi_node x, kdi_slot_name x) \<le> (kdi_node y, kdi_slot_name y)"

definition less_kwarg_dataflow_input :: "'a kwarg_dataflow_input \<Rightarrow> 'a kwarg_dataflow_input \<Rightarrow> bool" where
  "less_kwarg_dataflow_input x y \<longleftrightarrow> x \<le> y \<and> \<not> y \<le> x"

instance
  by standard (auto simp: less_eq_kwarg_dataflow_input_def less_kwarg_dataflow_input_def
      intro: kwarg_dataflow_input.expand)

end

instantiation kwarg_dataflow_edge :: (linorder) linorder
begin

definition less_eq_kwarg_dataflow_edge :: "'a kwarg_dataflow_edge \<Rightarrow> 'a kwarg_dataflow_edge \<Rightarrow> bool" where
  "less_eq_kwarg_dataflow_edge x y \<longleftrightarrow> (kde_src x, kde_dst x) \<le> (kde_src y, kde_dst y)"

definition less_kwarg_dataflow_edge :: "'a kwarg_dataflow_edge \<Rightarrow> 'a kwarg_dataflow_edge \<Rightarrow> bool" where
  "less_kwarg_dataflow_edge x y \<longleftrightarrow> x \<le> y \<and> \<not> y \<le> x"

instance
  by standard (auto simp: less_eq_kwarg_dataflow_edge_def less_kwarg_dataflow_edge_def
      intro: kwarg_dataflow_edge.expand)

end

text \<open>A \<open>KwargDataflowGraphInput\<close> is its name.\<close>

datatype ('i, 's) open_kwarg_dataflow_value =
    Value_output "'s kwarg_dataflow_output" | Value_graph_input 'i

datatype ('i, 's) kwarg_dataflow_input_edge =
  KwargDataflowInputEdge (kdie_src: 'i) (kdie_dst: "'s kwarg_dataflow_input")

datatype ('i, 's) open_kwarg_dataflow_edge =
    Open_input_edge "('i, 's) kwarg_dataflow_input_edge" | Open_internal_edge "'s kwarg_dataflow_edge"

fun mk_open_kwarg_dataflow_edge_from_src_val_and_dst ::
    "('i, 's) open_kwarg_dataflow_value \<Rightarrow> 's kwarg_dataflow_input \<Rightarrow> ('i, 's) open_kwarg_dataflow_edge" where
  "mk_open_kwarg_dataflow_edge_from_src_val_and_dst (Value_output output) dst =
     Open_internal_edge (KwargDataflowEdge output dst)"
| "mk_open_kwarg_dataflow_edge_from_src_val_and_dst (Value_graph_input graph_input) dst =
     Open_input_edge (KwargDataflowInputEdge graph_input dst)"

fun get_src_of_open_kwarg_dataflow_edge ::
    "('i, 's) open_kwarg_dataflow_edge \<Rightarrow> ('i, 's) open_kwarg_dataflow_value" where
  "get_src_of_open_kwarg_dataflow_edge (Open_input_edge e) = Value_graph_input (kdie_src e)"
| "get_src_of_open_kwarg_dataflow_edge (Open_internal_edge e) = Value_output (kde_src e)"

fun get_dst_of_open_kwarg_dataflow_edge ::
    "('i, 's) open_kwarg_dataflow_edge \<Rightarrow> 's kwarg_dataflow_input" where
  "get_dst_of_open_kwarg_dataflow_edge (Open_input_edge e) = kdie_dst e"
| "get_dst_of_open_kwarg_dataflow_edge (Open_internal_edge e) = kde_dst e"

section \<open>Queries\<close>

record 's kwarg_dataflow_edge_query =
  keq_src_nodes :: "node query_set"
  keq_src_slots :: "'s query_set"
  keq_dst_nodes :: "node query_set"
  keq_dst_slots :: "'s query_set"

definition kwarg_dataflow_edge_query_all :: "'s kwarg_dataflow_edge_query" where
  "kwarg_dataflow_edge_query_all =
     \<lparr> keq_src_nodes = matchall, keq_src_slots = matchall, keq_dst_nodes = matchall, keq_dst_slots = matchall \<rparr>"

definition kwarg_dataflow_edge_query_none :: "'s kwarg_dataflow_edge_query" where
  "kwarg_dataflow_edge_query_none =
     \<lparr> keq_src_nodes = match_none, keq_src_slots = match_none, keq_dst_nodes = match_none,
       keq_dst_slots = match_none \<rparr>"

definition kwarg_dataflow_edge_query_includes ::
    "'s kwarg_dataflow_edge_query \<Rightarrow> 's kwarg_dataflow_edge \<Rightarrow> bool" where
  "kwarg_dataflow_edge_query_includes query e \<longleftrightarrow>
     query_includes (keq_src_nodes query) (kdo_node (kde_src e)) \<and>
     query_includes (keq_src_slots query) (kdo_slot_name (kde_src e)) \<and>
     query_includes (keq_dst_nodes query) (kdi_node (kde_dst e)) \<and>
     query_includes (keq_dst_slots query) (kdi_slot_name (kde_dst e))"

record 's kwarg_dataflow_output_query =
  koq_nodes :: "node query_set"
  koq_output_idxs :: "'s query_set"

definition kwarg_dataflow_output_query_all :: "'s kwarg_dataflow_output_query" where
  "kwarg_dataflow_output_query_all = \<lparr> koq_nodes = matchall, koq_output_idxs = matchall \<rparr>"

definition kwarg_dataflow_output_query_includes ::
    "'s kwarg_dataflow_output_query \<Rightarrow> 's kwarg_dataflow_output \<Rightarrow> bool" where
  "kwarg_dataflow_output_query_includes query output \<longleftrightarrow>
     query_includes (koq_nodes query) (kdo_node output) \<and>
     query_includes (koq_output_idxs query) (kdo_slot_name output)"

record ('i, 's) kwarg_dataflow_input_edge_query =
  kieq_srcs :: "'i query_set"
  kieq_dst_nodes :: "node query_set"
  kieq_dst_slots :: "'s query_set"

definition kwarg_dataflow_input_edge_query_all :: "('i, 's) kwarg_dataflow_input_edge_query" where
  "kwarg_dataflow_input_edge_query_all =
     \<lparr> kieq_srcs = matchall, kieq_dst_nodes = matchall, kieq_dst_slots = matchall \<rparr>"

definition kwarg_dataflow_input_edge_query_none :: "('i, 's) kwarg_dataflow_input_edge_query" where
  "kwarg_dataflow_input_edge_query_none =
     \<lparr> kieq_srcs = match_none, kieq_dst_nodes = match_none, kieq_dst_slots = match_none \<rparr>"

definition kwarg_dataflow_input_edge_query_includes ::
    "('i, 's) kwarg_dataflow_input_edge_query \<Rightarrow> ('i, 's) kwarg_dataflow_input_edge \<Rightarrow> bool" where
  "kwarg_dataflow_input_edge_query_includes query e \<longleftrightarrow>
     query_includes (kieq_srcs query) (kdie_src e) \<and>
     query_includes (kieq_dst_nodes query) (kdi_node (kdie_dst e)) \<and>
     query_includes (kieq_dst_slots query) (kdi_slot_name (kdie_dst e))"

record ('i, 's) open_kwarg_dataflow_edge_query =
  okeq_input_edge_query :: "('i, 's) kwarg_dataflow_input_edge_query"
  okeq_standard_edge_query :: "'s kwarg_dataflow_edge_query"

definition open_kwarg_dataflow_edge_query_all :: "('i, 's) open_kwarg_dataflow_edge_query" where
  "open_kwarg_dataflow_edge_query_all =
     \<lparr> okeq_input_edge_query = kwarg_dataflow_input_edge_query_all,
       okeq_standard_edge_query = kwarg_dataflow_edge_query_all \<rparr>"

fun open_kwarg_dataflow_edge_query_includes ::
    "('i, 's) open_kwarg_dataflow_edge_query \<Rightarrow> ('i, 's) open_kwarg_dataflow_edge \<Rightarrow> bool" where
  "open_kwarg_dataflow_edge_query_includes query (Open_input_edge e) =
     kwarg_dataflow_input_edge_query_includes (okeq_input_edge_query query) e"
| "open_kwarg_dataflow_edge_query_includes query (Open_internal_edge e) =
     kwarg_dataflow_edge_query_includes (okeq_standard_edge_query query) e"

section \<open>Views\<close>

text \<open>
  The interfaces \<open>IKwargDataflowGraphView\<close> and \<open>ILabelledKwargDataflowGraphView\<close>; the second extends the
  first.
\<close>

record 's kwarg_dataflow_view =
  kv_query_nodes :: "node_query \<Rightarrow> node set"
  kv_query_edges :: "'s kwarg_dataflow_edge_query \<Rightarrow> 's kwarg_dataflow_edge set"
  kv_query_outputs :: "'s kwarg_dataflow_output_query \<Rightarrow> 's kwarg_dataflow_output set"

record ('s, 'n, 'v) labelled_kwarg_dataflow_view = "'s kwarg_dataflow_view" +
  kv_node_label :: "node \<Rightarrow> 'n res"
  kv_value_label :: "'s kwarg_dataflow_output \<Rightarrow> 'v res"

text \<open>A dataflow graph is a \<open>DiGraphView\<close> through its \<open>query_edges\<close> on a \<open>DirectedEdgeQuery\<close>.\<close>

definition digraph_of_kwarg_view :: "('s, 'm) kwarg_dataflow_view_scheme \<Rightarrow> digraph_view" where
  "digraph_of_kwarg_view g =
     \<lparr> query_nodes = kv_query_nodes g,
       query_edges = (\<lambda>q. (\<lambda>e. DirectedEdge (kdo_node (kde_src e)) (kdi_node (kde_dst e))) `
         kv_query_edges g \<lparr> keq_src_nodes = deq_srcs q, keq_src_slots = matchall,
           keq_dst_nodes = deq_dsts q, keq_dst_slots = matchall \<rparr>) \<rparr>"

section \<open>The implementation\<close>

record ('n, 'v, 'i, 's) open_kwarg_graph =
  okg_graph_inputs :: "'i \<rightharpoonup> 'v"
  okg_nodes :: "node \<rightharpoonup> 'n"
  okg_edges :: "('i, 's) open_kwarg_dataflow_edge set"
  okg_outputs :: "'s kwarg_dataflow_output \<rightharpoonup> 'v"

definition empty_open_kwarg_graph :: "('n, 'v, 'i, 's) open_kwarg_graph" where
  "empty_open_kwarg_graph =
     \<lparr> okg_graph_inputs = Map.empty, okg_nodes = Map.empty, okg_edges = {}, okg_outputs = Map.empty \<rparr>"

text \<open>The next node, after \<open>made\<close> nodes have been made.\<close>

definition source_new_node :: "nat \<Rightarrow> node \<times> nat" where
  "source_new_node made = (fst (new_node (made mod 2 ^ 64)), Suc made)"

text \<open>\<open>insert\<close> of a \<open>std::map\<close> keeps an entry that is there.\<close>

definition open_add_node ::
    "'n \<Rightarrow> ('s \<rightharpoonup> ('i, 's) open_kwarg_dataflow_value) \<Rightarrow> ('s \<rightharpoonup> 'v) \<Rightarrow> ('n, 'v, 'i, 's) open_kwarg_graph \<Rightarrow> nat \<Rightarrow>
     (node \<times> ('s \<rightharpoonup> 's kwarg_dataflow_output)) \<times> ('n, 'v, 'i, 's) open_kwarg_graph \<times> nat" where
  "open_add_node node_label inputs output_labels g made =
     (let (n, made) = source_new_node made;
          nodes = map_insert (okg_nodes g) n node_label;
          edges = okg_edges g \<union> (\<lambda>slot. mk_open_kwarg_dataflow_edge_from_src_val_and_dst (the (inputs slot))
            (KwargDataflowInput n slot)) ` dom inputs;
          outputs = (\<lambda>o'. case okg_outputs g o' of
              Some l \<Rightarrow> Some l
            | None \<Rightarrow> if kdo_node o' = n then output_labels (kdo_slot_name o') else None)
      in ((n, \<lambda>slot. map_option (\<lambda>_. KwargDataflowOutput n slot) (output_labels slot)),
          g\<lparr> okg_nodes := nodes, okg_edges := edges, okg_outputs := outputs \<rparr>, made))"

definition kwarg_add_node ::
    "'n \<Rightarrow> ('s \<rightharpoonup> 's kwarg_dataflow_output) \<Rightarrow> ('s \<rightharpoonup> 'v) \<Rightarrow> ('n, 'v, 'i, 's) open_kwarg_graph \<Rightarrow> nat \<Rightarrow>
     (node \<times> ('s \<rightharpoonup> 's kwarg_dataflow_output)) \<times> ('n, 'v, 'i, 's) open_kwarg_graph \<times> nat" where
  "kwarg_add_node node_label inputs output_labels g made =
     open_add_node node_label (map_option Value_output \<circ> inputs) output_labels g made"

definition open_add_input ::
    "'i \<Rightarrow> 'v \<Rightarrow> ('n, 'v, 'i, 's) open_kwarg_graph \<Rightarrow> ('i \<times> ('n, 'v, 'i, 's) open_kwarg_graph) res" where
  "open_add_input name value_label g =
     res_bind (ASSERT (name \<notin> dom (okg_graph_inputs g))) (\<lambda>_.
     Inr (name, g\<lparr> okg_graph_inputs := map_insert (okg_graph_inputs g) name value_label \<rparr>))"

definition open_query_nodes :: "('n, 'v, 'i, 's) open_kwarg_graph \<Rightarrow> node_query \<Rightarrow> node set" where
  "open_query_nodes g q = {n \<in> dom (okg_nodes g). query_includes q n}"

definition open_query_edges ::
    "('n, 'v, 'i, 's) open_kwarg_graph \<Rightarrow> ('i, 's) open_kwarg_dataflow_edge_query \<Rightarrow>
     ('i, 's) open_kwarg_dataflow_edge set" where
  "open_query_edges g q = {e \<in> okg_edges g. open_kwarg_dataflow_edge_query_includes q e}"

definition open_query_outputs ::
    "('n, 'v, 'i, 's) open_kwarg_graph \<Rightarrow> 's kwarg_dataflow_output_query \<Rightarrow> 's kwarg_dataflow_output set" where
  "open_query_outputs g q = {out \<in> dom (okg_outputs g). kwarg_dataflow_output_query_includes q out}"

definition node_label_at :: "('n, 'v, 'i, 's) open_kwarg_graph \<Rightarrow> node \<Rightarrow> 'n res" where
  "node_label_at g n = map_at (okg_nodes g) n"

fun value_label_at ::
    "('n, 'v, 'i, 's) open_kwarg_graph \<Rightarrow> ('i, 's) open_kwarg_dataflow_value \<Rightarrow> 'v res" where
  "value_label_at g (Value_output out) = map_at (okg_outputs g) out"
| "value_label_at g (Value_graph_input gi) = map_at (okg_graph_inputs g) gi"

text \<open>
  The edges of an open graph without its graph inputs: the query for input edges matches none, so every
  edge that is found is an internal one.
\<close>

fun require_internal_edge :: "('i, 's) open_kwarg_dataflow_edge \<Rightarrow> 's kwarg_dataflow_edge set" where
  "require_internal_edge (Open_internal_edge e) = {e}"
| "require_internal_edge (Open_input_edge _) = {}"

definition closed_query_edges ::
    "('n, 'v, 'i, 's) open_kwarg_graph \<Rightarrow> 's kwarg_dataflow_edge_query \<Rightarrow> 's kwarg_dataflow_edge set" where
  "closed_query_edges g query =
     \<Union>(require_internal_edge ` open_query_edges g
       \<lparr> okeq_input_edge_query = kwarg_dataflow_input_edge_query_none, okeq_standard_edge_query = query \<rparr>)"

definition view_of_open_graph ::
    "('n, 'v, 'i, 's) open_kwarg_graph \<Rightarrow> ('s, 'n, 'v) labelled_kwarg_dataflow_view" where
  "view_of_open_graph g =
     \<lparr> kv_query_nodes = open_query_nodes g, kv_query_edges = closed_query_edges g,
       kv_query_outputs = open_query_outputs g, kv_node_label = node_label_at g,
       kv_value_label = (\<lambda>out. value_label_at g (Value_output out)) \<rparr>"

section \<open>Algorithms on views\<close>

definition view_nodes :: "('s, 'm) kwarg_dataflow_view_scheme \<Rightarrow> node set" where
  "view_nodes g = get_nodes (digraph_of_kwarg_view g)"

definition get_all_kwarg_dataflow_edges ::
    "('s, 'm) kwarg_dataflow_view_scheme \<Rightarrow> 's kwarg_dataflow_edge set" where
  "get_all_kwarg_dataflow_edges g = kv_query_edges g kwarg_dataflow_edge_query_all"

definition get_all_kwarg_dataflow_outputs ::
    "('s, 'm) kwarg_dataflow_view_scheme \<Rightarrow> 's kwarg_dataflow_output set" where
  "get_all_kwarg_dataflow_outputs g = kv_query_outputs g kwarg_dataflow_output_query_all"

definition get_all_kwarg_dataflow_inputs ::
    "('s, 'm) kwarg_dataflow_view_scheme \<Rightarrow> 's kwarg_dataflow_input set" where
  "get_all_kwarg_dataflow_inputs g = kde_dst ` kv_query_edges g kwarg_dataflow_edge_query_all"

definition get_incoming_kwarg_dataflow_edges_for_node ::
    "('s::linorder, 'm) kwarg_dataflow_view_scheme \<Rightarrow> node \<Rightarrow> ('s \<rightharpoonup> 's kwarg_dataflow_edge)" where
  "get_incoming_kwarg_dataflow_edges_for_node g n =
     map_from_pairs (sorted_list_of_set ((\<lambda>e. (kdi_slot_name (kde_dst e), e)) `
       kv_query_edges g \<lparr> keq_src_nodes = matchall, keq_src_slots = matchall,
         keq_dst_nodes = match_single_value n, keq_dst_slots = matchall \<rparr>))"

definition get_incoming_kwarg_dataflow_outputs_for_node ::
    "('s::linorder, 'm) kwarg_dataflow_view_scheme \<Rightarrow> node \<Rightarrow> ('s \<rightharpoonup> 's kwarg_dataflow_output)" where
  "get_incoming_kwarg_dataflow_outputs_for_node g n =
     map_option kde_src \<circ> get_incoming_kwarg_dataflow_edges_for_node g n"

definition get_outgoing_kwarg_dataflow_edges_for_node ::
    "('s, 'm) kwarg_dataflow_view_scheme \<Rightarrow> node \<Rightarrow> ('s \<rightharpoonup> 's kwarg_dataflow_edge set)" where
  "get_outgoing_kwarg_dataflow_edges_for_node g n =
     group_by (kv_query_edges g \<lparr> keq_src_nodes = match_single_value n, keq_src_slots = matchall,
       keq_dst_nodes = matchall, keq_dst_slots = matchall \<rparr>) (\<lambda>e. kdo_slot_name (kde_src e))"

definition get_outgoing_kwarg_dataflow_outputs_for_node ::
    "('s::linorder, 'm) kwarg_dataflow_view_scheme \<Rightarrow> node \<Rightarrow> ('s \<rightharpoonup> 's kwarg_dataflow_output)" where
  "get_outgoing_kwarg_dataflow_outputs_for_node g n =
     foldl (\<lambda>result output. map_insert result (kdo_slot_name output) output) Map.empty
       (sorted_list_of_set (kv_query_outputs g
         \<lparr> koq_nodes = match_single_value n, koq_output_idxs = matchall \<rparr>))"

definition get_incoming_slots_for_node :: "('s::linorder, 'm) kwarg_dataflow_view_scheme \<Rightarrow> node \<Rightarrow> 's set" where
  "get_incoming_slots_for_node g n = dom (get_incoming_kwarg_dataflow_edges_for_node g n)"

definition get_outgoing_slots_for_node :: "('s::linorder, 'm) kwarg_dataflow_view_scheme \<Rightarrow> node \<Rightarrow> 's set" where
  "get_outgoing_slots_for_node g n = dom (get_outgoing_kwarg_dataflow_outputs_for_node g n)"

definition get_kwarg_dataflow_value_uses ::
    "('s, 'm) kwarg_dataflow_view_scheme \<Rightarrow> 's kwarg_dataflow_output \<Rightarrow> 's kwarg_dataflow_input set" where
  "get_kwarg_dataflow_value_uses g v =
     kde_dst ` kv_query_edges g \<lparr> keq_src_nodes = match_single_value (kdo_node v),
       keq_src_slots = match_single_value (kdo_slot_name v), keq_dst_nodes = matchall, keq_dst_slots = matchall \<rparr>"

definition get_unused_kwarg_dataflow_values ::
    "('s, 'm) kwarg_dataflow_view_scheme \<Rightarrow> 's kwarg_dataflow_output set" where
  "get_unused_kwarg_dataflow_values g =
     {out \<in> get_all_kwarg_dataflow_outputs g. get_kwarg_dataflow_value_uses g out = {}}"

definition get_kwarg_dataflow_subgraph_incoming_edges ::
    "('s, 'm) kwarg_dataflow_view_scheme \<Rightarrow> node set \<Rightarrow> 's kwarg_dataflow_edge set" where
  "get_kwarg_dataflow_subgraph_incoming_edges g subgraph =
     kv_query_edges g \<lparr> keq_src_nodes = match_values_in (view_nodes g - subgraph), keq_src_slots = matchall,
       keq_dst_nodes = match_values_in subgraph, keq_dst_slots = matchall \<rparr>"

definition get_kwarg_dataflow_subgraph_outgoing_edges ::
    "('s, 'm) kwarg_dataflow_view_scheme \<Rightarrow> node set \<Rightarrow> 's kwarg_dataflow_edge set" where
  "get_kwarg_dataflow_subgraph_outgoing_edges g subgraph =
     kv_query_edges g \<lparr> keq_src_nodes = match_values_in subgraph, keq_src_slots = matchall,
       keq_dst_nodes = match_values_in (view_nodes g - subgraph), keq_dst_slots = matchall \<rparr>"

definition get_kwarg_dataflow_edges_from_node_to_node ::
    "('s, 'm) kwarg_dataflow_view_scheme \<Rightarrow> node \<Rightarrow> node \<Rightarrow> 's kwarg_dataflow_edge set" where
  "get_kwarg_dataflow_edges_from_node_to_node g src dst =
     kv_query_edges g \<lparr> keq_src_nodes = match_single_value src, keq_src_slots = matchall,
       keq_dst_nodes = match_single_value dst, keq_dst_slots = matchall \<rparr>"

section \<open>Graphs as data, labels and copies\<close>

record 's kwarg_dataflow_graph_data =
  kgd_nodes :: "node set"
  kgd_edges :: "'s kwarg_dataflow_edge set"
  kgd_outputs :: "'s kwarg_dataflow_output set"

definition get_kwarg_dataflow_graph_data ::
    "('s, 'm) kwarg_dataflow_view_scheme \<Rightarrow> 's kwarg_dataflow_graph_data" where
  "get_kwarg_dataflow_graph_data g =
     \<lparr> kgd_nodes = view_nodes g, kgd_edges = get_all_kwarg_dataflow_edges g,
       kgd_outputs = get_all_kwarg_dataflow_outputs g \<rparr>"

definition require_kwarg_dataflow_graph_data_is_valid :: "'s kwarg_dataflow_graph_data \<Rightarrow> unit res" where
  "require_kwarg_dataflow_graph_data_is_valid data =
     (let nodes_from_edges = (\<Union>e \<in> kgd_edges data. {kdo_node (kde_src e), kdi_node (kde_dst e)})
      in res_bind (ASSERT (nodes_from_edges \<subseteq> kgd_nodes data)) (\<lambda>_.
         res_bind (ASSERT (kdo_node ` kgd_outputs data \<subseteq> kgd_nodes data)) (\<lambda>_.
         ASSERT (kde_src ` kgd_edges data \<subseteq> kgd_outputs data))))"

definition view_from_kwarg_dataflow_graph_data ::
    "'s kwarg_dataflow_graph_data \<Rightarrow> 's kwarg_dataflow_view res" where
  "view_from_kwarg_dataflow_graph_data data =
     res_bind (require_kwarg_dataflow_graph_data_is_valid data) (\<lambda>_.
     Inr \<lparr> kv_query_nodes = (\<lambda>query. apply_query query (kgd_nodes data)),
           kv_query_edges = (\<lambda>query. {e \<in> kgd_edges data. kwarg_dataflow_edge_query_includes query e}),
           kv_query_outputs = (\<lambda>query. {out \<in> kgd_outputs data. kwarg_dataflow_output_query_includes query out}) \<rparr>)"

definition get_kwarg_dataflow_graph_subgraph ::
    "('s, 'm) kwarg_dataflow_view_scheme \<Rightarrow> node set \<Rightarrow> 's kwarg_dataflow_view res" where
  "get_kwarg_dataflow_graph_subgraph g subgraph_nodes =
     (let g_data = get_kwarg_dataflow_graph_data g
      in view_from_kwarg_dataflow_graph_data
        \<lparr> kgd_nodes = kgd_nodes g_data \<inter> subgraph_nodes,
          kgd_edges = {e \<in> kgd_edges g_data. kdo_node (kde_src e) \<in> subgraph_nodes \<and> kdi_node (kde_dst e) \<in> subgraph_nodes},
          kgd_outputs = {out \<in> kgd_outputs g_data. kdo_node out \<in> subgraph_nodes} \<rparr>)"

definition get_labelled_kwarg_dataflow_graph_node_label_map ::
    "('s, 'n, 'v) labelled_kwarg_dataflow_view \<Rightarrow> (node \<rightharpoonup> 'n) res" where
  "get_labelled_kwarg_dataflow_graph_node_label_map g =
     generate_map (sorted_list_of_set (view_nodes g)) (kv_node_label g)"

definition get_labelled_kwarg_dataflow_graph_output_label_map ::
    "('s::linorder, 'n, 'v) labelled_kwarg_dataflow_view \<Rightarrow> ('s kwarg_dataflow_output \<rightharpoonup> 'v) res" where
  "get_labelled_kwarg_dataflow_graph_output_label_map g =
     generate_map (sorted_list_of_set (get_all_kwarg_dataflow_outputs g)) (kv_value_label g)"

definition kwarg_dataflow_graph_view_with_labelling ::
    "('s, 'm) kwarg_dataflow_view_scheme \<Rightarrow> (node \<rightharpoonup> 'n) \<Rightarrow> ('s kwarg_dataflow_output \<rightharpoonup> 'v) \<Rightarrow>
     ('s, 'n, 'v) labelled_kwarg_dataflow_view" where
  "kwarg_dataflow_graph_view_with_labelling unlabelled node_labels output_labels =
     \<lparr> kv_query_nodes = kv_query_nodes unlabelled, kv_query_edges = kv_query_edges unlabelled,
       kv_query_outputs = kv_query_outputs unlabelled, kv_node_label = map_at node_labels,
       kv_value_label = map_at output_labels \<rparr>"

definition get_labelled_kwarg_dataflow_graph_subgraph ::
    "('s::linorder, 'n, 'v) labelled_kwarg_dataflow_view \<Rightarrow> node set \<Rightarrow> ('s, 'n, 'v) labelled_kwarg_dataflow_view res" where
  "get_labelled_kwarg_dataflow_graph_subgraph g subgraph_nodes =
     res_bind (get_kwarg_dataflow_graph_subgraph g subgraph_nodes) (\<lambda>unlabelled_subgraph.
     res_bind (get_labelled_kwarg_dataflow_graph_node_label_map g) (\<lambda>g_node_labelling.
     res_bind (get_labelled_kwarg_dataflow_graph_output_label_map g) (\<lambda>g_output_labelling.
     Inr (kwarg_dataflow_graph_view_with_labelling unlabelled_subgraph (g_node_labelling |` subgraph_nodes)
       (g_output_labelling |` {out. kdo_node out \<in> subgraph_nodes})))))"

text \<open>
  \<open>rewrite_labelled_kwarg_dataflow_graph_node_labels\<close>, which goes through the open view of the graph: the
  labels of the nodes are changed by \<open>f\<close> and those of the values copied.
\<close>

definition rewrite_labelled_kwarg_dataflow_graph_node_labels ::
    "('s::linorder, 'n, 'v) labelled_kwarg_dataflow_view \<Rightarrow> (node \<Rightarrow> 'n \<Rightarrow> 'k) \<Rightarrow>
     ('s, 'k, 'v) labelled_kwarg_dataflow_view res" where
  "rewrite_labelled_kwarg_dataflow_graph_node_labels g f =
     res_bind (generate_map (sorted_list_of_set (view_nodes g)) (\<lambda>n.
         res_bind (kv_node_label g n) (\<lambda>l. Inr (f n l)))) (\<lambda>node_labels.
     res_bind (get_labelled_kwarg_dataflow_graph_output_label_map g) (\<lambda>value_labels.
     Inr (kwarg_dataflow_graph_view_with_labelling g node_labels value_labels)))"

text \<open>The same for the labels of the values, by a function that may stop.\<close>

definition rewrite_labelled_kwarg_dataflow_graph_value_labels ::
    "('s::linorder, 'n, 'v) labelled_kwarg_dataflow_view \<Rightarrow> ('s kwarg_dataflow_output \<Rightarrow> 'v \<Rightarrow> 'w res) \<Rightarrow>
     ('s, 'n, 'w) labelled_kwarg_dataflow_view res" where
  "rewrite_labelled_kwarg_dataflow_graph_value_labels g f =
     res_bind (get_labelled_kwarg_dataflow_graph_node_label_map g) (\<lambda>node_labels.
     res_bind (generate_map (sorted_list_of_set (get_all_kwarg_dataflow_outputs g)) (\<lambda>out.
         res_bind (kv_value_label g out) (f out))) (\<lambda>value_labels.
     Inr (kwarg_dataflow_graph_view_with_labelling g node_labels value_labels)))"

text \<open>\<open>create_copy_of\<close> makes an empty graph and fills it by \<open>inplace_materialize_from\<close>.\<close>

definition kwarg_inplace_materialize_from ::
    "('s::linorder, 'n, 'v) labelled_kwarg_dataflow_view \<Rightarrow> ('n, 'v, 'i, 's) open_kwarg_graph res" where
  "kwarg_inplace_materialize_from view =
     res_bind (get_labelled_kwarg_dataflow_graph_node_label_map view) (\<lambda>nodes.
     res_bind (get_labelled_kwarg_dataflow_graph_output_label_map view) (\<lambda>outputs.
     Inr \<lparr> okg_graph_inputs = Map.empty, okg_nodes = nodes,
           okg_edges = Open_internal_edge ` get_all_kwarg_dataflow_edges view, okg_outputs = outputs \<rparr>))"

section \<open>Closed graphs\<close>

text \<open>
  A graph without graph inputs that has been built by adding nodes: the nodes are numbered from those made
  before, an input slot has one edge, which comes from an output of an older node.
\<close>

definition internal_edges :: "('n, 'v, 'i, 's) open_kwarg_graph \<Rightarrow> 's kwarg_dataflow_edge set" where
  "internal_edges g = {e. Open_internal_edge e \<in> okg_edges g}"

definition wf_kwarg_graph :: "('n, 'v, 'i, 's) open_kwarg_graph \<Rightarrow> nat \<Rightarrow> bool" where
  "wf_kwarg_graph g made \<longleftrightarrow> okg_graph_inputs g = Map.empty \<and> okg_edges g = Open_internal_edge ` internal_edges g \<and>
     finite (okg_edges g) \<and> finite (dom (okg_outputs g)) \<and> dom (okg_nodes g) \<subseteq> {..<made} \<and>
     kdo_node ` dom (okg_outputs g) \<subseteq> dom (okg_nodes g) \<and>
     (\<forall>e \<in> internal_edges g. kde_src e \<in> dom (okg_outputs g) \<and> kdi_node (kde_dst e) \<in> dom (okg_nodes g) \<and>
        kdo_node (kde_src e) < kdi_node (kde_dst e)) \<and> inj_on kde_dst (internal_edges g)"

definition incoming_outputs :: "('n, 'v, 'i, 's::linorder) open_kwarg_graph \<Rightarrow> node \<Rightarrow> ('s \<rightharpoonup> 's kwarg_dataflow_output)" where
  "incoming_outputs g n = get_incoming_kwarg_dataflow_outputs_for_node (view_of_open_graph g) n"

lemma view_of_open_graph_simps [simp]:
  "kv_query_nodes (view_of_open_graph g) = open_query_nodes g"
  "kv_query_outputs (view_of_open_graph g) = open_query_outputs g"
  "kv_node_label (view_of_open_graph g) = node_label_at g"
  "kv_value_label (view_of_open_graph g) out = value_label_at g (Value_output out)"
  by (simp_all add: view_of_open_graph_def)

lemma query_edges_view [simp]:
  "kv_query_edges (view_of_open_graph g) q = {e \<in> internal_edges g. kwarg_dataflow_edge_query_includes q e}"
proof -
  have "e \<in> closed_query_edges g q \<longleftrightarrow> e \<in> internal_edges g \<and> kwarg_dataflow_edge_query_includes q e" for e
  proof
    assume "e \<in> closed_query_edges g q"
    then obtain e' where e': "e' \<in> okg_edges g" "e \<in> require_internal_edge e'" "open_kwarg_dataflow_edge_query_includes
        \<lparr> okeq_input_edge_query = kwarg_dataflow_input_edge_query_none, okeq_standard_edge_query = q \<rparr> e'"
      by (auto simp: closed_query_edges_def open_query_edges_def)
    then show "e \<in> internal_edges g \<and> kwarg_dataflow_edge_query_includes q e"
      by (cases e') (auto simp: internal_edges_def)
  next
    assume "e \<in> internal_edges g \<and> kwarg_dataflow_edge_query_includes q e"
    then have "Open_internal_edge e \<in> open_query_edges g
        \<lparr> okeq_input_edge_query = kwarg_dataflow_input_edge_query_none, okeq_standard_edge_query = q \<rparr>"
      by (simp add: internal_edges_def open_query_edges_def)
    then show "e \<in> closed_query_edges g q" unfolding closed_query_edges_def by (rule UN_I) simp
  qed
  then show ?thesis by (auto simp: view_of_open_graph_def)
qed

lemma view_nodes_eq [simp]: "view_nodes (view_of_open_graph g) = dom (okg_nodes g)"
  by (simp add: view_nodes_def get_nodes_def digraph_of_kwarg_view_def open_query_nodes_def node_query_all_def)

lemma all_outputs_eq [simp]:
  "get_all_kwarg_dataflow_outputs (view_of_open_graph g) = dom (okg_outputs g)"
  by (simp add: get_all_kwarg_dataflow_outputs_def open_query_outputs_def kwarg_dataflow_output_query_all_def
      kwarg_dataflow_output_query_includes_def)

lemma wf_kwarg_graphD:
  assumes "wf_kwarg_graph g made"
  shows "okg_edges g = Open_internal_edge ` internal_edges g" "finite (internal_edges g)"
    "finite (dom (okg_outputs g))" "dom (okg_nodes g) \<subseteq> {..<made}" "finite (dom (okg_nodes g))"
    "inj_on kde_dst (internal_edges g)"
proof -
  show edges: "okg_edges g = Open_internal_edge ` internal_edges g"
    and "finite (dom (okg_outputs g))" and nodes: "dom (okg_nodes g) \<subseteq> {..<made}"
    and "inj_on kde_dst (internal_edges g)" using assms by (auto simp: wf_kwarg_graph_def)
  show "finite (dom (okg_nodes g))" using nodes by (rule finite_subset) simp
  have "finite (okg_edges g)" using assms unfolding wf_kwarg_graph_def by blast
  then show "finite (internal_edges g)"
    using edges by (metis finite_imageD inj_onI open_kwarg_dataflow_edge.inject(2))
qed

lemma wf_kwarg_edge:
  assumes "wf_kwarg_graph g made" and "e \<in> internal_edges g"
  shows "kde_src e \<in> dom (okg_outputs g)" "kdi_node (kde_dst e) \<in> dom (okg_nodes g)"
    "kdo_node (kde_src e) < kdi_node (kde_dst e)" "kdo_node (kde_src e) \<in> dom (okg_nodes g)"
  using assms unfolding wf_kwarg_graph_def by (blast+)

lemma wf_kwarg_output: "wf_kwarg_graph g made \<Longrightarrow> okg_outputs g out = Some v \<Longrightarrow> kdo_node out \<in> dom (okg_nodes g)"
  unfolding wf_kwarg_graph_def by blast

lemma map_of_sorted_set:
  assumes "finite A" and "\<And>x y y'. (x, y) \<in> A \<Longrightarrow> (x, y') \<in> A \<Longrightarrow> y = y'"
  shows "map_of (sorted_list_of_set A) k = Some v \<longleftrightarrow> (k, v) \<in> A"
proof
  assume "map_of (sorted_list_of_set A) k = Some v"
  then show "(k, v) \<in> A" using assms(1) map_of_SomeD by fastforce
next
  assume kv: "(k, v) \<in> A"
  then obtain v' where v': "map_of (sorted_list_of_set A) k = Some v'"
    using assms(1) weak_map_of_SomeI [of k v "sorted_list_of_set A"] by auto
  then have "(k, v') \<in> A" using assms(1) map_of_SomeD by fastforce
  with kv v' assms(2) show "map_of (sorted_list_of_set A) k = Some v" by blast
qed

lemma incoming_outputs_iff:
  assumes "wf_kwarg_graph g made"
  shows "incoming_outputs g n slot = Some out \<longleftrightarrow> KwargDataflowEdge out (KwargDataflowInput n slot) \<in> internal_edges g"
proof -
  let ?E = "{e \<in> internal_edges g. kdi_node (kde_dst e) = n}"
  let ?A = "(\<lambda>e. (kdi_slot_name (kde_dst e), e)) ` ?E"
  have q: "{e \<in> internal_edges g. kwarg_dataflow_edge_query_includes \<lparr> keq_src_nodes = matchall, keq_src_slots = matchall,
      keq_dst_nodes = match_single_value n, keq_dst_slots = matchall \<rparr> e} = ?E"
    by (simp add: kwarg_dataflow_edge_query_includes_def)
  have "finite ?A" using wf_kwarg_graphD(2) [OF assms] by simp
  moreover have "y = y'" if "(x, y) \<in> ?A" "(x, y') \<in> ?A" for x y y'
  proof -
    from that have "y \<in> internal_edges g" "y' \<in> internal_edges g" "kde_dst y = kde_dst y'"
      by (auto intro: kwarg_dataflow_input.expand)
    with wf_kwarg_graphD(6) [OF assms] show ?thesis by (simp add: inj_on_def)
  qed
  ultimately have "map_of (sorted_list_of_set ?A) slot = Some e \<longleftrightarrow> (slot, e) \<in> ?A" for e
    by (rule map_of_sorted_set)
  then have "get_incoming_kwarg_dataflow_edges_for_node (view_of_open_graph g) n slot = Some e \<longleftrightarrow> (slot, e) \<in> ?A" for e
    by (simp add: get_incoming_kwarg_dataflow_edges_for_node_def map_from_pairs_def q)
  then have "incoming_outputs g n slot = Some out \<longleftrightarrow> (\<exists>e. (slot, e) \<in> ?A \<and> kde_src e = out)"
    by (auto simp: incoming_outputs_def get_incoming_kwarg_dataflow_outputs_for_node_def)
  also have "\<dots> \<longleftrightarrow> KwargDataflowEdge out (KwargDataflowInput n slot) \<in> internal_edges g"
  proof
    assume "\<exists>e. (slot, e) \<in> ?A \<and> kde_src e = out"
    then obtain e where "e \<in> internal_edges g" "kdi_node (kde_dst e) = n" "kdi_slot_name (kde_dst e) = slot" "kde_src e = out"
      by auto
    moreover from this have "e = KwargDataflowEdge out (KwargDataflowInput n slot)"
      by (cases e; cases "kde_dst e") simp
    ultimately show "KwargDataflowEdge out (KwargDataflowInput n slot) \<in> internal_edges g" by simp
  next
    assume "KwargDataflowEdge out (KwargDataflowInput n slot) \<in> internal_edges g"
    then show "\<exists>e. (slot, e) \<in> ?A \<and> kde_src e = out"
      by (intro exI [of _ "KwargDataflowEdge out (KwargDataflowInput n slot)"]) (auto simp: image_iff)
  qed
  finally show ?thesis .
qed

lemma foldl_map_insert:
  assumes "distinct (map kdo_slot_name outs)"
  shows "foldl (\<lambda>result output. map_insert result (kdo_slot_name output) output) m outs =
    (\<lambda>slot. case m slot of Some x \<Rightarrow> Some x | None \<Rightarrow> map_of (map (\<lambda>out. (kdo_slot_name out, out)) outs) slot)"
  using assms
proof (induction outs arbitrary: m)
  case (Cons out outs)
  have "map_of (map (\<lambda>out. (kdo_slot_name out, out)) outs) (kdo_slot_name out) = None"
    using Cons.prems by (auto simp: map_of_eq_None_iff)
  with Cons show ?case by (auto simp: map_insert_def fun_eq_iff split: option.split)
qed (simp add: fun_eq_iff split: option.split)

lemma outgoing_outputs_eq:
  assumes "finite (dom (okg_outputs g))"
  shows "get_outgoing_kwarg_dataflow_outputs_for_node (view_of_open_graph g) n =
    (\<lambda>slot. map_option (\<lambda>_. KwargDataflowOutput n slot) (okg_outputs g (KwargDataflowOutput n slot)))"
proof -
  let ?O = "{out \<in> dom (okg_outputs g). kdo_node out = n}"
  let ?outs = "sorted_list_of_set ?O"
  have q: "open_query_outputs g \<lparr> koq_nodes = match_single_value n, koq_output_idxs = matchall \<rparr> = ?O"
    by (auto simp: open_query_outputs_def kwarg_dataflow_output_query_includes_def)
  have fin: "finite ?O" using assms by simp
  have "inj_on kdo_slot_name ?O" by (auto simp: inj_on_def intro: kwarg_dataflow_output.expand)
  then have dist: "distinct (map kdo_slot_name ?outs)" using fin by (simp add: distinct_map)
  have "map_of (map (\<lambda>out. (kdo_slot_name out, out)) ?outs) slot =
      map_option (\<lambda>_. KwargDataflowOutput n slot) (okg_outputs g (KwargDataflowOutput n slot))" for slot
  proof (cases "okg_outputs g (KwargDataflowOutput n slot)")
    case None
    have "slot \<notin> kdo_slot_name ` ?O"
    proof
      assume "slot \<in> kdo_slot_name ` ?O"
      then obtain out v where "okg_outputs g out = Some v" "kdo_node out = n" "kdo_slot_name out = slot" by auto
      with None show False by (cases out) simp
    qed
    with None fin show ?thesis by (auto simp: map_of_eq_None_iff image_iff)
  next
    case (Some v)
    then have "(slot, KwargDataflowOutput n slot) \<in> set (map (\<lambda>out. (kdo_slot_name out, out)) ?outs)" using fin by force
    moreover have "distinct (map fst (map (\<lambda>out. (kdo_slot_name out, out)) ?outs))" using dist by (simp add: comp_def)
    ultimately have "map_of (map (\<lambda>out. (kdo_slot_name out, out)) ?outs) slot = Some (KwargDataflowOutput n slot)"
      by (rule map_of_is_SomeI [rotated])
    with Some show ?thesis by simp
  qed
  then show ?thesis
    by (simp add: get_outgoing_kwarg_dataflow_outputs_for_node_def q foldl_map_insert [OF dist])
qed

section \<open>Adding nodes\<close>

text \<open>
  What the builders need of the graph they add layers to. The laws say how labels and incoming edges are
  changed by \<open>add\<close>; the lemmas, that a relation between the label of a node and the labels of its inputs and
  outputs is kept, and that the graph only grows.
\<close>

locale dataflow_store =
  fixes valid :: "'g \<Rightarrow> nat \<Rightarrow> bool"
    and node_label :: "'g \<Rightarrow> node \<Rightarrow> 'n option"
    and incoming :: "'g \<Rightarrow> node \<Rightarrow> 's \<Rightarrow> 's kwarg_dataflow_output option"
    and value_label :: "'g \<Rightarrow> 's kwarg_dataflow_output \<Rightarrow> 'v option"
    and emp :: 'g
    and add :: "'n \<Rightarrow> ('s \<rightharpoonup> 's kwarg_dataflow_output) \<Rightarrow> ('s \<rightharpoonup> 'v) \<Rightarrow> 'g \<Rightarrow> nat \<Rightarrow>
      (node \<times> ('s \<rightharpoonup> 's kwarg_dataflow_output)) \<times> 'g \<times> nat"
  assumes valid_emp: "valid emp made" "node_label emp = Map.empty"
    and incoming_older: "valid g made \<Longrightarrow> incoming g n slot = Some out \<Longrightarrow>
      n \<in> dom (node_label g) \<and> out \<in> dom (value_label g) \<and> kdo_node out < n"
    and node_made: "valid g made \<Longrightarrow> n \<in> dom (node_label g) \<Longrightarrow> n < made"
    and value_node: "valid g made \<Longrightarrow> value_label g out = Some v \<Longrightarrow> kdo_node out \<in> dom (node_label g)"
    and add_law: "valid g made \<Longrightarrow> made < 2 ^ 64 \<Longrightarrow> finite (dom inputs) \<Longrightarrow> finite (dom outputs) \<Longrightarrow>
      ran inputs \<subseteq> dom (value_label g) \<Longrightarrow>
      \<exists>g'. add l inputs outputs g made =
          ((made, \<lambda>slot. map_option (\<lambda>_. KwargDataflowOutput made slot) (outputs slot)), g', Suc made) \<and>
        valid g' (Suc made) \<and> node_label g' = (node_label g)(made \<mapsto> l) \<and>
        incoming g' = (incoming g)(made := inputs) \<and>
        value_label g' = (\<lambda>out. if kdo_node out = made then outputs (kdo_slot_name out) else value_label g out)"
begin

definition input_labels :: "'g \<Rightarrow> node \<Rightarrow> 's \<Rightarrow> 'v option" where
  "input_labels g n slot = Option.bind (incoming g n slot) (value_label g)"

definition output_labels :: "'g \<Rightarrow> node \<Rightarrow> 's \<Rightarrow> 'v option" where
  "output_labels g n slot = value_label g (KwargDataflowOutput n slot)"

definition typed :: "('n \<Rightarrow> ('s \<rightharpoonup> 'v) \<Rightarrow> ('s \<rightharpoonup> 'v) \<Rightarrow> bool) \<Rightarrow> 'g \<Rightarrow> bool" where
  "typed R g \<longleftrightarrow> (\<forall>n l. node_label g n = Some l \<longrightarrow> R l (input_labels g n) (output_labels g n))"

definition extends :: "'g \<Rightarrow> 'g \<Rightarrow> bool" where
  "extends g g' \<longleftrightarrow> node_label g \<subseteq>\<^sub>m node_label g' \<and> value_label g \<subseteq>\<^sub>m value_label g' \<and>
     (\<forall>n \<in> dom (node_label g). incoming g' n = incoming g n)"

lemma typed_emp: "typed R emp"
  by (simp add: typed_def valid_emp)

lemma extends_refl: "extends g g"
  by (simp add: extends_def)

lemma extends_trans: "extends g g' \<Longrightarrow> extends g' g'' \<Longrightarrow> extends g g''"
  unfolding extends_def by (metis (no_types, lifting) domIff map_le_def map_le_trans)

lemma extends_value: "extends g g' \<Longrightarrow> value_label g out = Some v \<Longrightarrow> value_label g' out = Some v"
  unfolding extends_def by (metis domI map_le_def)

lemma add_typed:
  assumes "valid g made" and "made < 2 ^ 64" and "finite (dom inputs)" and "finite (dom outputs)"
    and "ran inputs \<subseteq> dom (value_label g)" and "typed R g"
    and "R l (\<lambda>slot. Option.bind (inputs slot) (value_label g)) outputs"
  shows "\<exists>g'. add l inputs outputs g made =
      ((made, \<lambda>slot. map_option (\<lambda>_. KwargDataflowOutput made slot) (outputs slot)), g', Suc made) \<and>
    valid g' (Suc made) \<and> typed R g' \<and> extends g g' \<and> node_label g' = (node_label g)(made \<mapsto> l) \<and>
    incoming g' = (incoming g)(made := inputs) \<and>
    (\<forall>slot. value_label g' (KwargDataflowOutput made slot) = outputs slot)"
proof -
  from add_law [OF assms(1-5), of l] obtain g' where g': "add l inputs outputs g made =
      ((made, \<lambda>slot. map_option (\<lambda>_. KwargDataflowOutput made slot) (outputs slot)), g', Suc made)"
    "valid g' (Suc made)" "node_label g' = (node_label g)(made \<mapsto> l)" "incoming g' = (incoming g)(made := inputs)"
    "value_label g' = (\<lambda>out. if kdo_node out = made then outputs (kdo_slot_name out) else value_label g out)"
    by blast
  have new: "made \<notin> dom (node_label g)" using node_made [OF assms(1), of made] by blast
  have old: "value_label g' out = value_label g out" if "out \<in> dom (value_label g)" for out
    using that value_node [OF assms(1)] new by (auto simp: g'(5))
  have none: "value_label g out = None" if "kdo_node out = made" for out
    using value_node [OF assms(1), of out] new that by (cases "value_label g out") auto
  have ext: "extends g g'"
    unfolding extends_def using old new by (auto simp: g'(3,4) map_le_def)
  have labels: "Option.bind (ins slot) (value_label g') = Option.bind (ins slot) (value_label g)"
    if "ran ins \<subseteq> dom (value_label g)" for ins :: "'s \<Rightarrow> 's kwarg_dataflow_output option" and slot
    using that old by (cases "ins slot") (auto dest: ranI)
  have ran_in: "ran (incoming g n) \<subseteq> dom (value_label g)" for n
    using incoming_older [OF assms(1)] by (auto simp: ran_def)
  have "R k (input_labels g' n) (output_labels g' n)" if "node_label g' n = Some k" for n k
  proof (cases "n = made")
    case True
    have "input_labels g' n = (\<lambda>slot. Option.bind (inputs slot) (value_label g))"
      using labels [OF assms(5)] by (simp add: input_labels_def fun_eq_iff g'(4) True)
    moreover have "output_labels g' n = outputs" by (simp add: output_labels_def fun_eq_iff g'(5) True)
    moreover have "k = l" using that True by (simp add: g'(3))
    ultimately show ?thesis using assms(7) by simp
  next
    case False
    have "input_labels g' n = input_labels g n"
      using labels [OF ran_in] False by (simp add: input_labels_def fun_eq_iff g'(4))
    moreover have "output_labels g' n = output_labels g n"
      using False by (simp add: output_labels_def fun_eq_iff g'(5))
    ultimately show ?thesis using assms(6) that False by (simp add: typed_def g'(3))
  qed
  then have "typed R g'" by (simp add: typed_def)
  with g' ext show ?thesis by simp
qed

end

lemma internal_edges_add:
  assumes "okg_edges g' = okg_edges g \<union> (\<lambda>slot. mk_open_kwarg_dataflow_edge_from_src_val_and_dst
    (the ((map_option Value_output \<circ> inputs) slot)) (KwargDataflowInput n slot)) ` dom (map_option Value_output \<circ> inputs)"
  shows "internal_edges g' = internal_edges g \<union>
    {KwargDataflowEdge out (KwargDataflowInput n slot) | out slot. inputs slot = Some out}"
    "okg_edges g = Open_internal_edge ` internal_edges g \<Longrightarrow> okg_edges g' = Open_internal_edge ` internal_edges g'"
proof -
  have new: "(\<lambda>slot. mk_open_kwarg_dataflow_edge_from_src_val_and_dst
      (the ((map_option Value_output \<circ> inputs) slot)) (KwargDataflowInput n slot)) ` dom (map_option Value_output \<circ> inputs) =
    Open_internal_edge ` {KwargDataflowEdge out (KwargDataflowInput n slot) | out slot. inputs slot = Some out}"
    by (auto simp: image_iff dom_def; force)
  show int: "internal_edges g' = internal_edges g \<union>
    {KwargDataflowEdge out (KwargDataflowInput n slot) | out slot. inputs slot = Some out}"
    unfolding internal_edges_def assms new by auto
  show "okg_edges g' = Open_internal_edge ` internal_edges g'" if "okg_edges g = Open_internal_edge ` internal_edges g"
    unfolding assms new int image_Un by (simp add: that)
qed

lemma kwarg_add_node_law:
  fixes g :: "('n, 'v, 'i, 's::linorder) open_kwarg_graph"
  assumes wf: "wf_kwarg_graph g made" and made: "made < 2 ^ 64" and fin: "finite (dom inputs)" "finite (dom outputs)"
    and ran: "ran inputs \<subseteq> dom (okg_outputs g)"
  shows "\<exists>g'. kwarg_add_node l inputs outputs g made =
      ((made, \<lambda>slot. map_option (\<lambda>_. KwargDataflowOutput made slot) (outputs slot)), g', Suc made) \<and>
    wf_kwarg_graph g' (Suc made) \<and> okg_nodes g' = (okg_nodes g)(made \<mapsto> l) \<and>
    incoming_outputs g' = (incoming_outputs g)(made := inputs) \<and>
    okg_outputs g' = (\<lambda>out. if kdo_node out = made then outputs (kdo_slot_name out) else okg_outputs g out)"
proof -
  have new_id: "source_new_node made = (made, Suc made)" using made by (simp add: source_new_node_def new_node_def)
  obtain g' where g': "kwarg_add_node l inputs outputs g made =
      ((made, \<lambda>slot. map_option (\<lambda>_. KwargDataflowOutput made slot) (outputs slot)), g', Suc made)"
    and nodes': "okg_nodes g' = map_insert (okg_nodes g) made l"
    and edges': "okg_edges g' = okg_edges g \<union> (\<lambda>slot. mk_open_kwarg_dataflow_edge_from_src_val_and_dst
        (the ((map_option Value_output \<circ> inputs) slot)) (KwargDataflowInput made slot)) ` dom (map_option Value_output \<circ> inputs)"
    and outputs': "okg_outputs g' = (\<lambda>out. case okg_outputs g out of Some l \<Rightarrow> Some l
        | None \<Rightarrow> if kdo_node out = made then outputs (kdo_slot_name out) else None)"
    and inputs': "okg_graph_inputs g' = okg_graph_inputs g"
    by (rule that [of "g\<lparr> okg_nodes := map_insert (okg_nodes g) made l,
          okg_edges := okg_edges g \<union> (\<lambda>slot. mk_open_kwarg_dataflow_edge_from_src_val_and_dst
            (the ((map_option Value_output \<circ> inputs) slot)) (KwargDataflowInput made slot)) ` dom (map_option Value_output \<circ> inputs),
          okg_outputs := (\<lambda>out. case okg_outputs g out of Some l \<Rightarrow> Some l
            | None \<Rightarrow> if kdo_node out = made then outputs (kdo_slot_name out) else None) \<rparr>"])
      (simp_all add: kwarg_add_node_def open_add_node_def new_id)
  have new: "made \<notin> dom (okg_nodes g)" using wf_kwarg_graphD(4) [OF wf] by auto
  then have nodes: "okg_nodes g' = (okg_nodes g)(made \<mapsto> l)" by (simp add: nodes' map_insert_def domIff)
  have none: "okg_outputs g out = None" if "kdo_node out = made" for out
    using wf_kwarg_output [OF wf, of out] new that by (cases "okg_outputs g out") auto
  have outs: "okg_outputs g' = (\<lambda>out. if kdo_node out = made then outputs (kdo_slot_name out) else okg_outputs g out)"
    using none by (auto simp: outputs' fun_eq_iff split: option.split)
  note int = internal_edges_add [OF edges']
  let ?new = "{KwargDataflowEdge out (KwargDataflowInput made slot) | out slot. inputs slot = Some out}"
  have fin_new: "finite ?new"
  proof -
    have "?new = (\<lambda>slot. KwargDataflowEdge (the (inputs slot)) (KwargDataflowInput made slot)) ` dom inputs" by force
    then show ?thesis using fin(1) by simp
  qed
  have fin_edges: "finite (internal_edges g')" using wf_kwarg_graphD(2) [OF wf] fin_new by (simp add: int(1))
  have edges: "okg_edges g' = Open_internal_edge ` internal_edges g'" using int(2) wf_kwarg_graphD(1) [OF wf] .
  have old: "out \<in> dom (okg_outputs g')" if "out \<in> dom (okg_outputs g)" for out
    using that none by (auto simp: outs)
  have wf': "wf_kwarg_graph g' (Suc made)"
    unfolding wf_kwarg_graph_def
  proof (intro conjI)
    show "okg_graph_inputs g' = Map.empty" using wf inputs' by (simp add: wf_kwarg_graph_def)
    show "okg_edges g' = Open_internal_edge ` internal_edges g'" by (rule edges)
    show "finite (okg_edges g')" unfolding edges using fin_edges by simp
    have "dom (okg_outputs g') \<subseteq> dom (okg_outputs g) \<union> (\<lambda>slot. KwargDataflowOutput made slot) ` dom outputs"
    proof
      fix out assume "out \<in> dom (okg_outputs g')"
      then show "out \<in> dom (okg_outputs g) \<union> (\<lambda>slot. KwargDataflowOutput made slot) ` dom outputs"
        by (cases out) (auto simp: outs split: if_splits)
    qed
    then show "finite (dom (okg_outputs g'))" by (rule finite_subset) (simp add: fin(2) wf_kwarg_graphD(3) [OF wf])
    show "dom (okg_nodes g') \<subseteq> {..<Suc made}" using wf_kwarg_graphD(4) [OF wf] by (auto simp: nodes)
    show "kdo_node ` dom (okg_outputs g') \<subseteq> dom (okg_nodes g')"
      by (auto simp: outs nodes split: if_splits dest: wf_kwarg_output [OF wf])
    show "\<forall>e \<in> internal_edges g'. kde_src e \<in> dom (okg_outputs g') \<and> kdi_node (kde_dst e) \<in> dom (okg_nodes g') \<and>
        kdo_node (kde_src e) < kdi_node (kde_dst e)"
    proof
      fix e assume "e \<in> internal_edges g'"
      then consider "e \<in> internal_edges g" | out slot where "e = KwargDataflowEdge out (KwargDataflowInput made slot)"
        "inputs slot = Some out" by (auto simp: int(1))
      then show "kde_src e \<in> dom (okg_outputs g') \<and> kdi_node (kde_dst e) \<in> dom (okg_nodes g') \<and>
        kdo_node (kde_src e) < kdi_node (kde_dst e)"
      proof cases
        case 1
        with wf_kwarg_edge [OF wf] old show ?thesis by (auto simp: nodes)
      next
        case 2
        then have out: "out \<in> dom (okg_outputs g)" using ran by (auto dest: ranI)
        then have "kdo_node out \<in> dom (okg_nodes g)" using wf_kwarg_output [OF wf] by blast
        then have "kdo_node out < made" using wf_kwarg_graphD(4) [OF wf] by blast
        with 2 old [OF out] show ?thesis by (simp add: nodes)
      qed
    qed
    show "inj_on kde_dst (internal_edges g')"
    proof (rule inj_onI)
      fix e f assume e: "e \<in> internal_edges g'" and f: "f \<in> internal_edges g'" and eq: "kde_dst e = kde_dst f"
      have is_new: "x \<in> ?new \<longleftrightarrow> kdi_node (kde_dst x) = made" if "x \<in> internal_edges g'" for x
        using that wf_kwarg_edge(2) [OF wf, of x] new unfolding int(1) by auto
      show "e = f"
      proof (cases "e \<in> ?new")
        case True
        with is_new [OF f] is_new [OF e] eq have "f \<in> ?new" by simp
        with True eq show ?thesis by auto
      next
        case False
        with is_new [OF f] is_new [OF e] eq have "f \<notin> ?new" by simp
        with False e f have "e \<in> internal_edges g" "f \<in> internal_edges g" unfolding int(1) by blast+
        with wf_kwarg_graphD(6) [OF wf] eq show ?thesis by (meson inj_onD)
      qed
    qed
  qed
  have "incoming_outputs g' n slot = ((incoming_outputs g)(made := inputs)) n slot" for n slot
  proof (cases "n = made")
    case True
    have "e \<notin> internal_edges g" if "kdi_node (kde_dst e) = made" for e
      using wf_kwarg_edge(2) [OF wf, of e] new that by blast
    then have "incoming_outputs g' made slot = Some out \<longleftrightarrow> inputs slot = Some out" for out
      by (auto simp: incoming_outputs_iff [OF wf'] int(1))
    then have "incoming_outputs g' made slot = inputs slot"
      by (cases "inputs slot"; cases "incoming_outputs g' made slot") auto
    with True show ?thesis by simp
  next
    case False
    then have "incoming_outputs g' n slot = Some out \<longleftrightarrow> incoming_outputs g n slot = Some out" for out
      by (auto simp: incoming_outputs_iff [OF wf'] incoming_outputs_iff [OF wf] int(1))
    then have "incoming_outputs g' n slot = incoming_outputs g n slot"
      by (cases "incoming_outputs g n slot"; cases "incoming_outputs g' n slot") auto
    with False show ?thesis by simp
  qed
  then have "incoming_outputs g' = (incoming_outputs g)(made := inputs)" by (intro ext)
  with g' wf' nodes outs show ?thesis by blast
qed

interpretation kwarg_graph: dataflow_store wf_kwarg_graph okg_nodes incoming_outputs okg_outputs
  empty_open_kwarg_graph kwarg_add_node
proof unfold_locales
  fix made show "wf_kwarg_graph empty_open_kwarg_graph made"
    by (simp add: wf_kwarg_graph_def empty_open_kwarg_graph_def internal_edges_def)
next
  fix g :: "('n, 'v, 'i, 's::linorder) open_kwarg_graph" and made n slot out
  assume wf: "wf_kwarg_graph g made" and "incoming_outputs g n slot = Some out"
  then have "KwargDataflowEdge out (KwargDataflowInput n slot) \<in> internal_edges g"
    using incoming_outputs_iff [OF wf] by blast
  from wf_kwarg_edge [OF wf this]
  show "n \<in> dom (okg_nodes g) \<and> out \<in> dom (okg_outputs g) \<and> kdo_node out < n" by simp
next
  fix g :: "('n, 'v, 'i, 's::linorder) open_kwarg_graph" and made n
  assume "wf_kwarg_graph g made" "n \<in> dom (okg_nodes g)"
  then show "n < made" using wf_kwarg_graphD(4) by blast
qed (simp_all add: empty_open_kwarg_graph_def wf_kwarg_output kwarg_add_node_law)

text \<open>The labels of the values in some slots.\<close>

definition attrs_at ::
    "('n, 'v, 'i, 's) open_kwarg_graph \<Rightarrow> ('s \<rightharpoonup> 's kwarg_dataflow_output) \<Rightarrow> ('s \<rightharpoonup> 'v)" where
  "attrs_at g ts = (\<lambda>slot. Option.bind (ts slot) (okg_outputs g))"

lemma attrs_at_simps [simp]:
  "attrs_at g Map.empty = Map.empty"
  "attrs_at g ts slot = Option.bind (ts slot) (okg_outputs g)"
  by (auto simp: attrs_at_def fun_eq_iff)

lemma dom_attrs_at: "ran ts \<subseteq> dom (okg_outputs g) \<Longrightarrow> dom (attrs_at g ts) = dom ts"
proof (intro set_eqI)
  fix slot assume "ran ts \<subseteq> dom (okg_outputs g)"
  then show "slot \<in> dom (attrs_at g ts) \<longleftrightarrow> slot \<in> dom ts"
    by (cases "ts slot") (auto simp: domIff dest!: subsetD [OF _ ranI])
qed

lemma attrs_at_add: "attrs_at g (ts ++ us) = attrs_at g ts ++ attrs_at g us"
  if "ran us \<subseteq> dom (okg_outputs g)"
proof
  fix slot show "attrs_at g (ts ++ us) slot = (attrs_at g ts ++ attrs_at g us) slot"
    using that by (cases "us slot") (auto simp: map_add_def dest: ranI)
qed

lemma attrs_at_restrict: "attrs_at g (ts |` A) = attrs_at g ts |` A"
  by (auto simp: attrs_at_def fun_eq_iff restrict_map_def)

lemma attrs_at_extends:
  assumes "kwarg_graph.extends g g'" and "ran ts \<subseteq> dom (okg_outputs g)"
  shows "attrs_at g' ts = attrs_at g ts" "ran ts \<subseteq> dom (okg_outputs g')"
proof -
  have old: "okg_outputs g' t = okg_outputs g t" if "t \<in> dom (okg_outputs g)" for t
    using that kwarg_graph.extends_value [OF assms(1)] by (cases "okg_outputs g t") auto
  have "attrs_at g' ts slot = attrs_at g ts slot" for slot
    using assms(2) old by (cases "ts slot") (auto dest!: subsetD [OF _ ranI])
  then show "attrs_at g' ts = attrs_at g ts" by (rule ext)
  show "ran ts \<subseteq> dom (okg_outputs g')" using assms(2) old by (auto simp: domIff subset_iff)
qed

text \<open>Adding a node whose inputs come in two groups.\<close>

lemma kwarg_add_node_typed:
  assumes wf: "wf_kwarg_graph g made" "made < 2 ^ 64" and ty: "kwarg_graph.typed R g"
    and ran: "ran inputs \<subseteq> dom (okg_outputs g)" "ran weights \<subseteq> dom (okg_outputs g)"
    and fin: "finite (dom (inputs ++ weights))" "finite (dom out_attrs)"
    and ok: "R l (attrs_at g inputs ++ attrs_at g weights) out_attrs"
    and node: "kwarg_add_node l (inputs ++ weights) out_attrs g made = ((n, outs), g', made')"
  shows "n = made \<and> made' = Suc made \<and> wf_kwarg_graph g' made' \<and> kwarg_graph.typed R g' \<and>
    kwarg_graph.extends g g' \<and> okg_nodes g' = (okg_nodes g)(made \<mapsto> l) \<and>
    incoming_outputs g' = (incoming_outputs g)(made := inputs ++ weights) \<and>
    outs = (\<lambda>slot. map_option (\<lambda>_. KwargDataflowOutput made slot) (out_attrs slot)) \<and>
    (\<forall>slot. okg_outputs g' (KwargDataflowOutput made slot) = out_attrs slot)"
proof -
  have all: "ran (inputs ++ weights) \<subseteq> dom (okg_outputs g)" using ran by (auto simp: ran_def)
  have "R l (attrs_at g (inputs ++ weights)) out_attrs" using ok by (simp add: attrs_at_add ran)
  then have ok': "R l (\<lambda>slot. Option.bind ((inputs ++ weights) slot) (okg_outputs g)) out_attrs"
    by (simp add: attrs_at_def)
  let ?outs = "\<lambda>slot. map_option (\<lambda>_. KwargDataflowOutput made slot) (out_attrs slot)"
  obtain g1 where g1: "kwarg_add_node l (inputs ++ weights) out_attrs g made = ((made, ?outs), g1, Suc made)"
    "wf_kwarg_graph g1 (Suc made)" "kwarg_graph.typed R g1" "kwarg_graph.extends g g1"
    "okg_nodes g1 = (okg_nodes g)(made \<mapsto> l)" "incoming_outputs g1 = (incoming_outputs g)(made := inputs ++ weights)"
    "\<forall>slot. okg_outputs g1 (KwargDataflowOutput made slot) = out_attrs slot"
    using kwarg_graph.add_typed [of g made "inputs ++ weights" out_attrs R l, OF wf fin all ty ok']
    by (elim exE conjE) (rule that; assumption)
  have eq: "n = made" "made' = Suc made" "g' = g1" "outs = ?outs"
    using trans [OF node [symmetric] g1(1)] by (simp_all only: prod.inject)
  show ?thesis unfolding eq by (intro conjI refl g1)
qed

section \<open>The directed graph of a dataflow graph\<close>

lemma wf_digraph_of_kwarg_graph:
  assumes "wf_kwarg_graph g made"
  shows "wf_digraph_view (digraph_of_kwarg_view (view_of_open_graph g))" (is "wf_digraph_view ?d")
    "edge_rel (digraph_of_kwarg_view (view_of_open_graph g)) =
       {(a, b). \<exists>e \<in> internal_edges g. kdo_node (kde_src e) = a \<and> kdi_node (kde_dst e) = b}"
    "acyclic (edge_rel (digraph_of_kwarg_view (view_of_open_graph g)))"
proof -
  let ?f = "\<lambda>e. DirectedEdge (kdo_node (kde_src e)) (kdi_node (kde_dst e))"
  have edges: "query_edges ?d q = {e \<in> ?f ` internal_edges g. matches_edge q e}" for q
    by (auto simp: digraph_of_kwarg_view_def kwarg_dataflow_edge_query_includes_def matches_edge_def)
  have all: "get_edges ?d = ?f ` internal_edges g"
    by (simp add: get_edges_def edges directed_edge_query_all_def matches_edge_def)
  have nodes: "get_nodes ?d = dom (okg_nodes g)" using view_nodes_eq [of g] by (simp add: view_nodes_def)
  have "query_nodes ?d q = {n \<in> dom (okg_nodes g). query_includes q n}" for q
    by (simp add: digraph_of_kwarg_view_def open_query_nodes_def)
  then show "wf_digraph_view ?d"
    unfolding wf_digraph_view_def all nodes edges
    using wf_kwarg_graphD(2,5) [OF assms] wf_kwarg_edge [OF assms] by auto
  show rel: "edge_rel ?d = {(a, b). \<exists>e \<in> internal_edges g. kdo_node (kde_src e) = a \<and> kdi_node (kde_dst e) = b}"
    by (auto simp: edge_rel_def all)
  have "edge_rel ?d \<subseteq> {(a, b). a < b}" using wf_kwarg_edge(3) [OF assms] by (auto simp: rel)
  then show "acyclic (edge_rel ?d)"
    using wf_less by (intro wf_acyclic) (rule wf_subset)
qed

end
