(* ===== verification/Computation_Graphs.thy ===== *)
theory Computation_Graphs
  imports Dataflow_Graphs Shape_Inference
begin

text \<open>
  Computation graphs, \<open>lib/pcg/src/pcg/computation_graph.cc\<close>: labelled dataflow graphs whose nodes are
  layers and whose values are tensors. A \<open>layer_guid_t\<close> is its node, a \<open>tensor_guid_t\<close> its output and a
  \<open>ComputationGraph\<close> its graph. A function that changes the graph takes the graph together with the number
  of nodes made so far and returns both.

  \<open>cg_layer_ok\<close> is the typing judgement of a layer: the tensors in its input slots have shapes from which
  the shape inference gives the shapes of the tensors in its weight slots and of its outputs.
\<close>

section \<open>Slots in the order of the enumeration\<close>

definition slot_index :: "tensor_slot_name \<Rightarrow> nat" where
  "slot_index s = length (takeWhile (\<lambda>x. x \<noteq> s) all_slots)"

lemma slot_index_eq: "slot_index s = slot_index t \<longleftrightarrow> s = t"
proof -
  have "all_slots ! slot_index u = u" for u
  proof -
    have "takeWhile (\<lambda>x. x \<noteq> u) all_slots \<noteq> all_slots"
      by (metis (mono_tags, lifting) mem_all_slots set_takeWhileD)
    then have "length (takeWhile (\<lambda>x. x \<noteq> u) all_slots) < length all_slots"
      by (metis le_neq_implies_less length_takeWhile_le takeWhile_eq_take take_all)
    from nth_length_takeWhile [OF this] show ?thesis by (simp add: slot_index_def)
  qed
  then show ?thesis by metis
qed

instantiation tensor_slot_name :: linorder
begin

definition less_eq_tensor_slot_name :: "tensor_slot_name \<Rightarrow> tensor_slot_name \<Rightarrow> bool" where
  "less_eq_tensor_slot_name s t \<longleftrightarrow> slot_index s \<le> slot_index t"

definition less_tensor_slot_name :: "tensor_slot_name \<Rightarrow> tensor_slot_name \<Rightarrow> bool" where
  "less_tensor_slot_name s t \<longleftrightarrow> s \<le> t \<and> \<not> t \<le> s"

instance
proof
  fix s t u :: tensor_slot_name
  show "s < t \<longleftrightarrow> s \<le> t \<and> \<not> t \<le> s" by (rule less_tensor_slot_name_def)
  show "s \<le> s" by (simp only: less_eq_tensor_slot_name_def order_refl)
  show "s \<le> t \<Longrightarrow> t \<le> u \<Longrightarrow> s \<le> u" unfolding less_eq_tensor_slot_name_def by (rule order_trans)
  show "s \<le> t \<Longrightarrow> t \<le> s \<Longrightarrow> s = t"
    unfolding less_eq_tensor_slot_name_def slot_index_eq [symmetric] by (rule antisym)
  show "s \<le> t \<or> t \<le> s" unfolding less_eq_tensor_slot_name_def by (rule linear)
qed

end

lemma finite_slots [simp]: "finite (A :: tensor_slot_name set)"
  by (rule finite_subset [OF subset_UNIV]) simp

section \<open>Layers and tensors\<close>

text \<open>
  The name of a layer is a \<open>stack_string\<close> of at most \<open>MAX_OPNAME\<close> characters, made from the C string of a
  \<open>std::string\<close>; 128 is the default of the build option.
\<close>

definition MAX_OPNAME :: nat where
  "MAX_OPNAME = 128"

definition stack_string :: "string \<Rightarrow> string res" where
  "stack_string s =
     (let c = takeWhile (\<lambda>x. x \<noteq> CHR 0x00) s
      in res_bind (ASSERT (length c \<le> MAX_OPNAME)) (\<lambda>_. Inr c))"

definition optional_stack_string :: "string option \<Rightarrow> string option res" where
  "optional_stack_string s =
     (case s of None \<Rightarrow> Inr None | Some s \<Rightarrow> res_bind (stack_string s) (\<lambda>c. Inr (Some c)))"

record layer_attrs =
  la_op_attrs :: computation_graph_op_attrs
  la_name :: "string option"

datatype create_grad = Create_grad_YES | Create_grad_NO

record tensor_attrs =
  ta_shape :: tensor_shape
  ta_create_grad :: create_grad

type_synonym layer_guid = node

type_synonym tensor_guid = "tensor_slot_name kwarg_dataflow_output"

type_synonym computation_graph_edge = "tensor_slot_name kwarg_dataflow_edge"

type_synonym computation_graph = "(layer_attrs, tensor_attrs, int, tensor_slot_name) open_kwarg_graph"

fun bool_from_create_grad :: "create_grad \<Rightarrow> bool" where
  "bool_from_create_grad Create_grad_YES = True"
| "bool_from_create_grad Create_grad_NO = False"

text \<open>\<open>layer_attrs\<close> with a name that is given as a \<open>std::string\<close>.\<close>

definition mk_layer_attrs :: "computation_graph_op_attrs \<Rightarrow> string option \<Rightarrow> layer_attrs res" where
  "mk_layer_attrs attrs name =
     res_bind (optional_stack_string name) (\<lambda>c. Inr \<lparr> la_op_attrs = attrs, la_name = c \<rparr>)"

section \<open>The graph\<close>

definition make_empty_computation_graph :: computation_graph where
  "make_empty_computation_graph = empty_open_kwarg_graph"

definition cg_digraph :: "computation_graph \<Rightarrow> digraph_view" where
  "cg_digraph cg = digraph_of_kwarg_view (view_of_open_graph cg)"

definition cg_get_layers :: "computation_graph \<Rightarrow> layer_guid set" where
  "cg_get_layers cg = get_nodes (cg_digraph cg)"

definition get_tensor_attrs :: "computation_graph \<Rightarrow> tensor_guid \<Rightarrow> tensor_attrs res" where
  "get_tensor_attrs cg t = value_label_at cg (Value_output t)"

definition get_layer_attrs :: "computation_graph \<Rightarrow> layer_guid \<Rightarrow> layer_attrs res" where
  "get_layer_attrs cg n = node_label_at cg n"

text \<open>The shape of a tensor, which is also \<open>ComputationGraphBuilder::get_shape\<close>.\<close>

definition cg_shape :: "computation_graph \<Rightarrow> tensor_guid \<Rightarrow> tensor_shape res" where
  "cg_shape cg t = res_bind (get_tensor_attrs cg t) (\<lambda>a. Inr (ta_shape a))"

text \<open>\<open>zip_values_strict_with\<close>, for a function without effects.\<close>

definition zip_values_strict_with :: "('k \<rightharpoonup> 'v) \<Rightarrow> ('k \<rightharpoonup> 'w) \<Rightarrow> ('v \<Rightarrow> 'w \<Rightarrow> 'o) \<Rightarrow> ('k \<rightharpoonup> 'o) res" where
  "zip_values_strict_with m1 m2 f =
     res_bind (ASSERT (dom m1 = dom m2)) (\<lambda>_.
     Inr (\<lambda>k. case m1 k of None \<Rightarrow> None | Some v \<Rightarrow> map_option (f v) (m2 k)))"

text \<open>
  \<open>add_layer\<close>. The expected weight shapes are computed, which may stop, and not compared with those of the
  weights that are provided.
\<close>

definition cg_add_layer ::
    "layer_attrs \<Rightarrow> tensor_guid slots \<Rightarrow> tensor_guid slots \<Rightarrow> create_grad slots option \<Rightarrow>
     computation_graph \<times> nat \<Rightarrow> ((layer_guid \<times> tensor_guid slots) \<times> computation_graph \<times> nat) res" where
  "cg_add_layer layer_attrs inputs weights maybe_output_flags = (\<lambda>(cg, made).
     res_bind (map_values (cg_shape cg) inputs) (\<lambda>input_shapes.
     res_bind (map_values (cg_shape cg) weights)
       (\<lambda>provided_weight_shapes.
     res_bind (cg_get_weight_shapes (la_op_attrs layer_attrs) input_shapes) (\<lambda>expected_weight_shapes.
     res_bind (cg_get_output_shapes (la_op_attrs layer_attrs) input_shapes) (\<lambda>output_shapes.
     let output_flags = (case maybe_output_flags of
         Some flags \<Rightarrow> flags | None \<Rightarrow> map_option (\<lambda>_. Create_grad_YES) \<circ> output_shapes) in
     res_bind (zip_values_strict_with output_shapes output_flags
         (\<lambda>shape create_grad. \<lparr> ta_shape = shape, ta_create_grad = create_grad \<rparr>)) (\<lambda>output_attrs.
     res_bind (binary_merge_disjoint_maps inputs weights) (\<lambda>raw_inputs.
     Inr (kwarg_add_node layer_attrs raw_inputs output_attrs cg made))))))))"

definition add_input_layer ::
    "tensor_shape \<Rightarrow> create_grad \<Rightarrow> computation_graph \<times> nat \<Rightarrow>
     ((layer_guid \<times> tensor_guid slots) \<times> computation_graph \<times> nat) res" where
  "add_input_layer tensor_shape create_grad =
     cg_add_layer \<lparr> la_op_attrs = CG_input tensor_shape, la_name = None \<rparr> Map.empty Map.empty
       (Some [Slot_OUTPUT \<mapsto> create_grad])"

definition are_tensor_guid_shapes_equivalent :: "computation_graph \<Rightarrow> tensor_guid \<Rightarrow> tensor_guid \<Rightarrow> bool res" where
  "are_tensor_guid_shapes_equivalent cg t1 t2 =
     res_bind (get_tensor_attrs cg t1) (\<lambda>a1. res_bind (get_tensor_attrs cg t2) (\<lambda>a2.
     Inr (ta_shape a1 = ta_shape a2)))"

definition topological_ordering :: "computation_graph \<Rightarrow> layer_guid list run" where
  "topological_ordering cg = get_topological_ordering (cg_digraph cg)"

definition reverse_topological_ordering :: "computation_graph \<Rightarrow> layer_guid list run" where
  "reverse_topological_ordering cg =
     run_bind (get_topological_ordering (cg_digraph cg)) (\<lambda>layers. Some (Inr (rev layers)))"

definition get_outgoing_tensors :: "computation_graph \<Rightarrow> layer_guid \<Rightarrow> tensor_guid slots" where
  "get_outgoing_tensors cg n = get_outgoing_kwarg_dataflow_outputs_for_node (view_of_open_graph cg) n"

definition get_incoming_tensors :: "computation_graph \<Rightarrow> layer_guid \<Rightarrow> tensor_guid slots" where
  "get_incoming_tensors cg n = get_incoming_kwarg_dataflow_outputs_for_node (view_of_open_graph cg) n"

definition get_incoming_tensors_with_role ::
    "computation_graph \<Rightarrow> layer_guid \<Rightarrow> incoming_tensor_role \<Rightarrow> tensor_guid slots res" where
  "get_incoming_tensors_with_role cg l desired_role =
     res_bind (get_layer_attrs cg l) (\<lambda>layer.
     let incoming_tensors = get_incoming_tensors cg l in
     res_bind (cg_get_incoming_tensor_roles (la_op_attrs layer)) (\<lambda>incoming_slot_roles.
     res_bind (ASSERT (card (dom incoming_tensors) = card (dom incoming_slot_roles))) (\<lambda>_.
     let slots_with_desired_role = dom (filter_values (\<lambda>role. role = desired_role) incoming_slot_roles)
     in Inr (incoming_tensors |` slots_with_desired_role))))"

definition get_incoming_inputs :: "computation_graph \<Rightarrow> layer_guid \<Rightarrow> tensor_guid slots res" where
  "get_incoming_inputs cg l = get_incoming_tensors_with_role cg l Role_INPUT"

definition get_incoming_weights :: "computation_graph \<Rightarrow> layer_guid \<Rightarrow> tensor_guid slots res" where
  "get_incoming_weights cg l = get_incoming_tensors_with_role cg l Role_WEIGHT"

definition get_incoming_input_shapes :: "computation_graph \<Rightarrow> layer_guid \<Rightarrow> tensor_shape slots res" where
  "get_incoming_input_shapes cg n =
     res_bind (get_incoming_inputs cg n) (\<lambda>inputs.
     map_values (cg_shape cg) inputs)"

definition get_all_tensors :: "computation_graph \<Rightarrow> tensor_guid set" where
  "get_all_tensors cg = get_all_kwarg_dataflow_outputs (view_of_open_graph cg)"

definition get_all_tensor_attrs :: "computation_graph \<Rightarrow> (tensor_guid \<rightharpoonup> tensor_attrs) res" where
  "get_all_tensor_attrs cg = generate_map (sorted_list_of_set (get_all_tensors cg)) (get_tensor_attrs cg)"

definition cg_get_unused_tensors :: "computation_graph \<Rightarrow> tensor_guid set" where
  "cg_get_unused_tensors cg = get_unused_kwarg_dataflow_values (view_of_open_graph cg)"

definition cg_get_subgraph_incoming_edges :: "computation_graph \<Rightarrow> layer_guid set \<Rightarrow> computation_graph_edge set" where
  "cg_get_subgraph_incoming_edges cg subgraph_nodes =
     get_kwarg_dataflow_subgraph_incoming_edges (view_of_open_graph cg) subgraph_nodes"

definition cg_get_subgraph_outgoing_edges :: "computation_graph \<Rightarrow> layer_guid set \<Rightarrow> computation_graph_edge set" where
  "cg_get_subgraph_outgoing_edges cg subgraph_nodes =
     get_kwarg_dataflow_subgraph_outgoing_edges (view_of_open_graph cg) subgraph_nodes"

definition cg_get_subgraph_successors :: "computation_graph \<Rightarrow> layer_guid set \<Rightarrow> layer_guid set" where
  "cg_get_subgraph_successors cg subgraph_nodes = get_subgraph_successors (cg_digraph cg) subgraph_nodes"

definition get_layer_attrs_mapping :: "computation_graph \<Rightarrow> (layer_guid \<rightharpoonup> layer_attrs) res" where
  "get_layer_attrs_mapping cg = generate_map (sorted_list_of_set (cg_get_layers cg)) (get_layer_attrs cg)"

definition get_only :: "'a::linorder set \<Rightarrow> 'a res" where
  "get_only c = res_bind (ASSERT (card c = 1)) (\<lambda>_. Inr (hd (sorted_list_of_set c)))"

text \<open>The name that is looked for becomes a \<open>stack_string\<close> where it is compared with the name of a layer.\<close>

definition get_layer_by_name :: "computation_graph \<Rightarrow> string \<Rightarrow> layer_guid res" where
  "get_layer_by_name cg name =
     res_bind (res_map (\<lambda>l. res_bind (get_layer_attrs cg l) (\<lambda>a.
         case la_name a of
           None \<Rightarrow> Inr (l, False)
         | Some n \<Rightarrow> res_bind (stack_string name) (\<lambda>c. Inr (l, n = c))))
       (sorted_list_of_set (cg_get_layers cg))) (\<lambda>found.
     get_only (fst ` {x \<in> set found. snd x}))"

definition without_layer_names :: "computation_graph \<Rightarrow> computation_graph res" where
  "without_layer_names cg =
     res_bind (rewrite_labelled_kwarg_dataflow_graph_node_labels (view_of_open_graph cg)
         (\<lambda>n old_attrs. old_attrs\<lparr> la_name := None \<rparr>)) (\<lambda>relabelled.
     kwarg_inplace_materialize_from relabelled)"

fun get_element_counts :: "'t list \<Rightarrow> ('t \<rightharpoonup> positive_int) \<Rightarrow> ('t \<rightharpoonup> positive_int) res" where
  "get_element_counts [] counts = Inr counts"
| "get_element_counts (t # v) counts =
     (case counts t of
        None \<Rightarrow> get_element_counts v (counts(t \<mapsto> 1))
      | Some k \<Rightarrow> res_bind (positive_int_add k 1) (\<lambda>k. get_element_counts v (counts(t \<mapsto> k))))"

definition operator_type_counts_in_computation_graph :: "computation_graph \<Rightarrow> (operator_type \<rightharpoonup> positive_int) res" where
  "operator_type_counts_in_computation_graph cg =
     res_bind (res_map (\<lambda>l. res_bind (get_layer_attrs cg l) (\<lambda>a. Inr (cg_get_op_type (la_op_attrs a))))
       (sorted_list_of_set (cg_get_layers cg))) (\<lambda>operator_types.
     get_element_counts operator_types Map.empty)"

section \<open>Well-typed graphs\<close>

definition shapes_of :: "tensor_attrs slots \<Rightarrow> tensor_shape slots" where
  "shapes_of m = map_option ta_shape \<circ> m"

definition cg_layer_ok :: "layer_attrs \<Rightarrow> tensor_attrs slots \<Rightarrow> tensor_attrs slots \<Rightarrow> bool" where
  "cg_layer_ok l ins outs \<longleftrightarrow> (\<exists>inputs weights. dom inputs \<inter> dom weights = {} \<and> ins = inputs ++ weights \<and>
     cg_get_output_shapes (la_op_attrs l) (shapes_of inputs) = Inr (shapes_of outs) \<and>
     cg_get_weight_shapes (la_op_attrs l) (shapes_of inputs) = Inr (shapes_of weights))"

lemma cg_shape_eq: "cg_shape cg t = Inr s \<longleftrightarrow> (\<exists>a. okg_outputs cg t = Some a \<and> s = ta_shape a)"
  by (auto simp: cg_shape_def get_tensor_attrs_def)

lemma shapes_of_simps [simp]:
  "shapes_of Map.empty = Map.empty"
  "shapes_of (m(k \<mapsto> a)) = (shapes_of m)(k \<mapsto> ta_shape a)"
  "dom (shapes_of m) = dom m"
  "shapes_of m k = map_option ta_shape (m k)"
  by (auto simp: shapes_of_def fun_eq_iff split: if_splits)

text \<open>Reading a part of the labels of some tensors.\<close>

lemma map_values_labels:
  fixes ts :: "tensor_guid slots"
  assumes f: "\<And>t x. f t = Inr x \<longleftrightarrow> (\<exists>a. okg_outputs g t = Some a \<and> x = part a)"
  shows "map_values f ts = Inr ss \<longleftrightarrow> ran ts \<subseteq> dom (okg_outputs g) \<and> ss = map_option part \<circ> attrs_at g ts"
proof
  assume "map_values f ts = Inr ss"
  then obtain h where h: "\<forall>t \<in> ran ts. f t = Inr (h t)" and ss: "ss = map_option h \<circ> ts"
    using map_values_Inr [of ts f ss] by auto
  have "(map_option part \<circ> attrs_at g ts) slot = (map_option h \<circ> ts) slot" for slot
    using h by (cases "ts slot") (auto simp: f dest!: bspec [OF _ ranI])
  moreover have "ran ts \<subseteq> dom (okg_outputs g)" using h by (auto simp: f)
  ultimately show "ran ts \<subseteq> dom (okg_outputs g) \<and> ss = map_option part \<circ> attrs_at g ts" using ss by auto
next
  assume r: "ran ts \<subseteq> dom (okg_outputs g) \<and> ss = map_option part \<circ> attrs_at g ts"
  have "map_values f ts = Inr (map_option (\<lambda>t. part (the (okg_outputs g t))) \<circ> ts)"
    using r by (intro map_values_eq) (auto simp: f)
  moreover have "(map_option (\<lambda>t. part (the (okg_outputs g t))) \<circ> ts) slot = ss slot" for slot
    using r by (cases "ts slot") (auto dest!: subsetD [OF _ ranI])
  ultimately show "map_values f ts = Inr ss" by (simp add: fun_eq_iff)
qed

lemma map_values_shapes:
  "map_values (cg_shape cg) ts = Inr ss \<longleftrightarrow> ran ts \<subseteq> dom (okg_outputs cg) \<and> ss = shapes_of (attrs_at cg ts)"
  using map_values_labels [of "cg_shape cg" cg ta_shape, OF cg_shape_eq] by (simp add: shapes_of_def)

lemma zip_values_strict_with_eq:
  "zip_values_strict_with m1 m2 f = Inr m \<longleftrightarrow>
     dom m1 = dom m2 \<and> m = (\<lambda>k. case m1 k of None \<Rightarrow> None | Some v \<Rightarrow> map_option (f v) (m2 k))"
  by (auto simp: zip_values_strict_with_def)

text \<open>The labels of the outputs of a new layer, from their shapes and flags.\<close>

definition flags_ok :: "create_grad slots option \<Rightarrow> create_grad slots \<Rightarrow> bool" where
  "flags_ok flags outs \<longleftrightarrow> (case flags of None \<Rightarrow> ran outs \<subseteq> {Create_grad_YES} | Some flags \<Rightarrow> flags = outs)"

lemma zip_output_attrs:
  assumes "\<And>x y. shape (mk x y) = x" and "\<And>x y. flag (mk x y) = y" and "\<And>a. mk (shape a) (flag a) = a"
  shows "zip_values_strict_with os (case flags of Some flags \<Rightarrow> flags | None \<Rightarrow> map_option (\<lambda>_. Create_grad_YES) \<circ> os) mk =
      Inr out \<longleftrightarrow> os = map_option shape \<circ> out \<and> flags_ok flags (map_option flag \<circ> out)"
proof -
  have flags: "flags_ok flags (map_option flag \<circ> out) \<longleftrightarrow>
      (case flags of Some flags \<Rightarrow> flags | None \<Rightarrow> map_option (\<lambda>_. Create_grad_YES) \<circ> os) = map_option flag \<circ> out"
    if os: "os = map_option shape \<circ> out"
  proof (cases flags)
    case None
    have "map_option (\<lambda>_. Create_grad_YES) (os slot) = map_option flag (out slot) \<longleftrightarrow>
        (\<forall>a. out slot = Some a \<longrightarrow> flag a = Create_grad_YES)" for slot
      unfolding os by (cases "out slot") auto
    then have "map_option (\<lambda>_. Create_grad_YES) \<circ> os = map_option flag \<circ> out \<longleftrightarrow>
        (\<forall>slot a. out slot = Some a \<longrightarrow> flag a = Create_grad_YES)"
      by (simp add: fun_eq_iff)
    also have "\<dots> \<longleftrightarrow> ran (map_option flag \<circ> out) \<subseteq> {Create_grad_YES}" by (auto simp: ran_def)
    finally show ?thesis by (auto simp: None flags_ok_def)
  qed (simp add: flags_ok_def)
  have "zip_values_strict_with os fl mk = Inr out \<longleftrightarrow> os = map_option shape \<circ> out \<and> fl = map_option flag \<circ> out" for fl
  proof
    assume z: "zip_values_strict_with os fl mk = Inr out"
    have "os slot = map_option shape (out slot) \<and> fl slot = map_option flag (out slot)" for slot
    proof -
      have "os slot = None \<longleftrightarrow> fl slot = None" using z by (auto simp: zip_values_strict_with_eq set_eq_iff)
      with z assms(1,2) show ?thesis by (cases "os slot"; cases "fl slot") (simp_all add: zip_values_strict_with_eq)
    qed
    then show "os = map_option shape \<circ> out \<and> fl = map_option flag \<circ> out" by (simp add: fun_eq_iff)
  qed (auto simp: zip_values_strict_with_eq fun_eq_iff domIff assms(3) split: option.splits)
  with flags show ?thesis by metis
qed

text \<open>What \<open>add_layer\<close> does where it succeeds, and when it succeeds.\<close>

lemma cg_add_layer_eq:
  "cg_add_layer l inputs weights flags (cg, made) = Inr ((n, outs), cg', made') \<longleftrightarrow>
     ran inputs \<subseteq> dom (okg_outputs cg) \<and> ran weights \<subseteq> dom (okg_outputs cg) \<and>
     dom inputs \<inter> dom weights = {} \<and>
     (\<exists>expected. cg_get_weight_shapes (la_op_attrs l) (shapes_of (attrs_at cg inputs)) = Inr expected) \<and>
     (\<exists>out_attrs. cg_get_output_shapes (la_op_attrs l) (shapes_of (attrs_at cg inputs)) = Inr (shapes_of out_attrs) \<and>
        flags_ok flags (map_option ta_create_grad \<circ> out_attrs) \<and>
        kwarg_add_node l (inputs ++ weights) out_attrs cg made = ((n, outs), cg', made'))"
  by (auto simp: cg_add_layer_def map_values_shapes binary_merge_disjoint_maps_def Let_def
      zip_output_attrs [of ta_shape _ ta_create_grad] shapes_of_def [symmetric])

lemma cg_add_layer_typed:
  assumes add: "cg_add_layer l inputs weights flags (cg, made) = Inr ((n, outs), cg', made')"
    and wf: "wf_kwarg_graph cg made" "made < 2 ^ 64" and ty: "kwarg_graph.typed cg_layer_ok cg"
    and ws: "cg_get_weight_shapes (la_op_attrs l) (shapes_of (attrs_at cg inputs)) =
      Inr (shapes_of (attrs_at cg weights))"
  shows "n = made \<and> made' = Suc made \<and> wf_kwarg_graph cg' made' \<and> kwarg_graph.typed cg_layer_ok cg' \<and>
    kwarg_graph.extends cg cg' \<and> okg_nodes cg' = (okg_nodes cg)(made \<mapsto> l) \<and>
    incoming_outputs cg' = (incoming_outputs cg)(made := inputs ++ weights) \<and>
    (\<exists>out_attrs. cg_get_output_shapes (la_op_attrs l) (shapes_of (attrs_at cg inputs)) = Inr (shapes_of out_attrs) \<and>
       flags_ok flags (map_option ta_create_grad \<circ> out_attrs) \<and>
       outs = (\<lambda>slot. map_option (\<lambda>_. KwargDataflowOutput made slot) (out_attrs slot)) \<and>
       (\<forall>slot. okg_outputs cg' (KwargDataflowOutput made slot) = out_attrs slot))"
proof -
  from add obtain out_attrs where ran: "ran inputs \<subseteq> dom (okg_outputs cg)" "ran weights \<subseteq> dom (okg_outputs cg)"
    and dis: "dom inputs \<inter> dom weights = {}"
    and os: "cg_get_output_shapes (la_op_attrs l) (shapes_of (attrs_at cg inputs)) = Inr (shapes_of out_attrs)"
    and flags: "flags_ok flags (map_option ta_create_grad \<circ> out_attrs)"
    and node: "kwarg_add_node l (inputs ++ weights) out_attrs cg made = ((n, outs), cg', made')"
    unfolding cg_add_layer_eq by blast
  have "cg_layer_ok l (attrs_at cg inputs ++ attrs_at cg weights) out_attrs"
    unfolding cg_layer_ok_def using os ws dis ran
    by (intro exI [of _ "attrs_at cg inputs"] exI [of _ "attrs_at cg weights"]) (simp add: dom_attrs_at)
  from kwarg_add_node_typed [OF wf ty ran finite_slots finite_slots this node] os flags show ?thesis by blast
qed

lemma cg_add_layer_succeeds:
  assumes "ran inputs \<subseteq> dom (okg_outputs cg)" and "ran weights \<subseteq> dom (okg_outputs cg)"
    and "dom inputs \<inter> dom weights = {}"
    and "cg_get_weight_shapes (la_op_attrs l) (shapes_of (attrs_at cg inputs)) = Inr expected"
    and "cg_get_output_shapes (la_op_attrs l) (shapes_of (attrs_at cg inputs)) = Inr os"
  shows "\<exists>r. cg_add_layer l inputs weights None (cg, made) = Inr r"
proof -
  let ?out = "map_option (\<lambda>s. \<lparr> ta_shape = s, ta_create_grad = Create_grad_YES \<rparr>) \<circ> os"
  obtain n outs cg' made' where "kwarg_add_node l (inputs ++ weights) ?out cg made = ((n, outs), cg', made')"
    by (metis surj_pair)
  moreover have "shapes_of ?out = os" by (simp add: shapes_of_def fun_eq_iff option.map_comp comp_def option.map_ident)
  moreover have "flags_ok None (map_option ta_create_grad \<circ> ?out)" by (auto simp: flags_ok_def ran_def)
  ultimately have "cg_add_layer l inputs weights None (cg, made) = Inr ((n, outs), cg', made')"
    using assms by (auto simp: cg_add_layer_eq simp del: comp_apply intro!: exI [of _ ?out])
  then show ?thesis by blast
qed

text \<open>The queries of a layer of a well-typed graph.\<close>

lemma dom_roles:
  assumes "slots_with_role roles Role_INPUT = A" and "slots_with_role roles Role_WEIGHT = B"
  shows "dom roles = A \<union> B" "dom (filter_values (\<lambda>role. role = Role_INPUT) roles) = A"
    "dom (filter_values (\<lambda>role. role = Role_WEIGHT) roles) = B"
proof -
  show "dom (filter_values (\<lambda>role. role = Role_INPUT) roles) = A" "dom (filter_values (\<lambda>role. role = Role_WEIGHT) roles) = B"
    using assms by (auto simp: slots_with_role_def filter_values_def split: option.splits if_splits)
  show "dom roles = A \<union> B"
  proof (intro set_eqI)
    fix slot show "slot \<in> dom roles \<longleftrightarrow> slot \<in> A \<union> B"
      using assms by (cases "roles slot"; cases "the (roles slot)") (auto simp: slots_with_role_def)
  qed
qed

text \<open>The labels around a layer, and the two groups of its incoming tensors.\<close>

lemma typed_labels:
  assumes wf: "wf_kwarg_graph g made" and ty: "kwarg_graph.typed R g" and l: "okg_nodes g n = Some l"
    and outs: "outs = get_outgoing_kwarg_dataflow_outputs_for_node (view_of_open_graph g) n"
  shows "R l (attrs_at g (incoming_outputs g n)) (attrs_at g outs)" "ran (incoming_outputs g n) \<subseteq> dom (okg_outputs g)"
    "ran outs \<subseteq> dom (okg_outputs g)"
proof -
  have out_eq: "outs = (\<lambda>slot. map_option (\<lambda>_. KwargDataflowOutput n slot) (okg_outputs g (KwargDataflowOutput n slot)))"
    unfolding outs by (rule outgoing_outputs_eq [OF wf_kwarg_graphD(3) [OF wf]])
  show "ran (incoming_outputs g n) \<subseteq> dom (okg_outputs g)"
    using kwarg_graph.incoming_older [OF wf] by (auto simp: ran_def)
  show "ran outs \<subseteq> dom (okg_outputs g)" unfolding out_eq by (auto simp: ran_def)
  have "attrs_at g outs slot = kwarg_graph.output_labels g n slot" for slot
    by (cases "okg_outputs g (KwargDataflowOutput n slot)") (simp_all add: out_eq kwarg_graph.output_labels_def)
  then have "attrs_at g outs = kwarg_graph.output_labels g n" by (rule ext)
  moreover have "kwarg_graph.input_labels g n = attrs_at g (incoming_outputs g n)"
    by (simp add: kwarg_graph.input_labels_def attrs_at_def fun_eq_iff)
  ultimately show "R l (attrs_at g (incoming_outputs g n)) (attrs_at g outs)"
    using ty l unfolding kwarg_graph.typed_def by metis
qed

lemma split_by_roles:
  fixes ts :: "tensor_guid slots"
  assumes ran: "ran ts \<subseteq> dom (okg_outputs g)" and at: "attrs_at g ts = i ++ w" and dis: "dom i \<inter> dom w = {}"
    and slots: "slots_with_role roles Role_INPUT = dom i" "slots_with_role roles Role_WEIGHT = dom w"
    and ins: "ins = ts |` dom (filter_values (\<lambda>role. role = Role_INPUT) roles)"
    and ws: "ws = ts |` dom (filter_values (\<lambda>role. role = Role_WEIGHT) roles)"
  shows "card (dom ts) = card (dom roles)" "attrs_at g ins = i" "attrs_at g ws = w" "ts = ins ++ ws"
    "dom ins \<inter> dom ws = {}" "ran ins \<subseteq> dom (okg_outputs g)" "ran ws \<subseteq> dom (okg_outputs g)"
proof -
  note eqs = ins [unfolded dom_roles(2) [OF slots]] ws [unfolded dom_roles(3) [OF slots]]
  have dom: "dom ts = dom i \<union> dom w" using arg_cong [OF at, of dom] dom_attrs_at [OF ran] by auto
  show "card (dom ts) = card (dom roles)" using dom dom_roles(1) [OF slots] by simp
  show "ran ins \<subseteq> dom (okg_outputs g)" "ran ws \<subseteq> dom (okg_outputs g)"
    using ran by (auto simp: eqs ran_def restrict_map_def split: if_splits)
  show "dom ins \<inter> dom ws = {}" using dis by (auto simp: eqs)
  show "attrs_at g ins = i" "attrs_at g ws = w"
    using dis unfolding eqs attrs_at_restrict at
    by (auto simp: fun_eq_iff restrict_map_def map_add_def domIff split: option.splits)
  show "ts = ins ++ ws"
  proof
    fix slot show "ts slot = (ins ++ ws) slot"
      using dom dis by (cases "slot \<in> dom i"; cases "slot \<in> dom w")
        (auto simp: eqs map_add_def restrict_map_def domIff split: option.splits)
  qed
qed

lemma typed_layer:
  assumes wf: "wf_kwarg_graph cg made" and ty: "kwarg_graph.typed cg_layer_ok cg" and l: "okg_nodes cg n = Some l"
  shows "\<exists>inputs weights. get_incoming_inputs cg n = Inr inputs \<and> get_incoming_weights cg n = Inr weights \<and>
    ran inputs \<subseteq> dom (okg_outputs cg) \<and> ran weights \<subseteq> dom (okg_outputs cg) \<and>
    dom inputs \<inter> dom weights = {} \<and> get_incoming_tensors cg n = inputs ++ weights \<and>
    ran (get_outgoing_tensors cg n) \<subseteq> dom (okg_outputs cg) \<and>
    cg_get_output_shapes (la_op_attrs l) (shapes_of (attrs_at cg inputs)) =
      Inr (shapes_of (attrs_at cg (get_outgoing_tensors cg n))) \<and>
    cg_get_weight_shapes (la_op_attrs l) (shapes_of (attrs_at cg inputs)) = Inr (shapes_of (attrs_at cg weights))"
proof -
  let ?in = "incoming_outputs cg n"
  note labels = typed_labels [OF wf ty l, of "get_outgoing_tensors cg n", OF get_outgoing_tensors_def]
  from labels(1) obtain i w where dis: "dom i \<inter> dom w = {}" and iw: "attrs_at cg ?in = i ++ w"
    and os: "cg_get_output_shapes (la_op_attrs l) (shapes_of i) = Inr (shapes_of (attrs_at cg (get_outgoing_tensors cg n)))"
    and ws: "cg_get_weight_shapes (la_op_attrs l) (shapes_of i) = Inr (shapes_of w)"
    unfolding cg_layer_ok_def by blast
  from incoming_slot_roles [OF os ws] obtain roles where roles: "cg_get_incoming_tensor_roles (la_op_attrs l) = Inr roles"
    and slots: "slots_with_role roles Role_INPUT = dom i" "slots_with_role roles Role_WEIGHT = dom w"
    unfolding shapes_of_simps by blast
  note split = split_by_roles [OF labels(2) iw dis slots refl refl]
  from split(1) have "get_incoming_inputs cg n = Inr (?in |` dom (filter_values (\<lambda>role. role = Role_INPUT) roles))"
    "get_incoming_weights cg n = Inr (?in |` dom (filter_values (\<lambda>role. role = Role_WEIGHT) roles))"
    by (simp_all add: get_incoming_inputs_def get_incoming_weights_def get_incoming_tensors_with_role_def
        get_layer_attrs_def node_label_at_def map_at_def l roles get_incoming_tensors_def incoming_outputs_def)
  with split labels(3) os ws show ?thesis
    by (simp add: get_incoming_tensors_def incoming_outputs_def [symmetric])
qed

end
