(* ===== verification/Parallel_Graphs.thy ===== *)
theory Parallel_Graphs
  imports Computation_Graphs Task_Spaces
begin

text \<open>
  Parallel computation graphs, \<open>lib/pcg/src/pcg/parallel_computation_graph/parallel_computation_graph.cc\<close> with
  the small files beside it, and \<open>pcg_from_computation_graph.cc\<close>: labelled dataflow graphs whose nodes are
  parallel layers and whose values are parallel tensors. As in \<open>Computation_Graphs\<close>, a guid is what it wraps
  and a function that changes the graph also passes on the number of nodes made so far.

  \<open>pcg_layer_ok\<close> is the typing judgement of a parallel layer, by the parallel shape inference.
\<close>

section \<open>Layers and tensors\<close>

record parallel_layer_attrs =
  pla_op_attrs :: pcg_operator_attrs
  pla_name :: "string option"

record parallel_tensor_attrs =
  pta_shape :: parallel_tensor_shape
  pta_create_grad :: create_grad

type_synonym parallel_layer_guid = node

type_synonym parallel_tensor_guid = "tensor_slot_name kwarg_dataflow_output"

type_synonym parallel_computation_graph_edge = "tensor_slot_name kwarg_dataflow_edge"

type_synonym parallel_tensor_use = "tensor_slot_name kwarg_dataflow_input"

type_synonym parallel_computation_graph =
  "(parallel_layer_attrs, parallel_tensor_attrs, int, tensor_slot_name) open_kwarg_graph"

text \<open>A layer with a name that is given as a \<open>std::string\<close>.\<close>

definition mk_parallel_layer_attrs :: "pcg_operator_attrs \<Rightarrow> string option \<Rightarrow> parallel_layer_attrs res" where
  "mk_parallel_layer_attrs attrs name =
     res_bind (optional_stack_string name) (\<lambda>c. Inr \<lparr> pla_op_attrs = attrs, pla_name = c \<rparr>)"

definition parallel_layer_get_op_type :: "parallel_layer_attrs \<Rightarrow> operator_type" where
  "parallel_layer_get_op_type a = pcg_op_attrs_get_op_type (pla_op_attrs a)"

definition parallel_layer_attrs_from_layer_attrs :: "layer_attrs \<Rightarrow> parallel_layer_attrs" where
  "parallel_layer_attrs_from_layer_attrs a =
     \<lparr> pla_op_attrs = pcg_op_attrs_from_compgraph_op_attrs (la_op_attrs a), pla_name = la_name a \<rparr>"

definition get_piece_attrs :: "parallel_tensor_attrs \<Rightarrow> tensor_attrs" where
  "get_piece_attrs parallel_attrs =
     \<lparr> ta_shape = get_piece_shape (pta_shape parallel_attrs), ta_create_grad = pta_create_grad parallel_attrs \<rparr>"

definition parallel_tensor_attrs_from_tensor_attrs :: "tensor_attrs \<Rightarrow> parallel_tensor_attrs res" where
  "parallel_tensor_attrs_from_tensor_attrs a =
     res_bind (lift_to_parallel (ta_shape a)) (\<lambda>shape.
     Inr \<lparr> pta_shape = shape, pta_create_grad = ta_create_grad a \<rparr>)"

section \<open>Edges and uses\<close>

definition edge_get_parallel_tensor :: "parallel_computation_graph_edge \<Rightarrow> parallel_tensor_guid" where
  "edge_get_parallel_tensor e = kde_src e"

definition get_src_layer :: "parallel_computation_graph_edge \<Rightarrow> parallel_layer_guid" where
  "get_src_layer e = kdo_node (kde_src e)"

definition get_dst_layer :: "parallel_computation_graph_edge \<Rightarrow> parallel_layer_guid" where
  "get_dst_layer e = kdi_node (kde_dst e)"

definition get_src_layer_output_slot_name :: "parallel_computation_graph_edge \<Rightarrow> tensor_slot_name" where
  "get_src_layer_output_slot_name e = kdo_slot_name (kde_src e)"

definition get_dst_layer_input_slot_name :: "parallel_computation_graph_edge \<Rightarrow> tensor_slot_name" where
  "get_dst_layer_input_slot_name e = kdi_slot_name (kde_dst e)"

definition parallel_tensor_use_get_layer :: "parallel_tensor_use \<Rightarrow> parallel_layer_guid" where
  "parallel_tensor_use_get_layer u = kdi_node u"

definition parallel_tensor_use_get_slot :: "parallel_tensor_use \<Rightarrow> tensor_slot_name" where
  "parallel_tensor_use_get_slot u = kdi_slot_name u"

definition tensor_get_source_layer :: "parallel_tensor_guid \<Rightarrow> parallel_layer_guid" where
  "tensor_get_source_layer t = kdo_node t"

section \<open>The graph\<close>

definition empty_parallel_computation_graph :: parallel_computation_graph where
  "empty_parallel_computation_graph = empty_open_kwarg_graph"

definition pcg_digraph :: "parallel_computation_graph \<Rightarrow> digraph_view" where
  "pcg_digraph pcg = digraph_of_kwarg_view (view_of_open_graph pcg)"

definition pcg_get_parallel_layers :: "parallel_computation_graph \<Rightarrow> parallel_layer_guid set" where
  "pcg_get_parallel_layers pcg = get_nodes (pcg_digraph pcg)"

definition get_parallel_layer_attrs :: "parallel_computation_graph \<Rightarrow> parallel_layer_guid \<Rightarrow> parallel_layer_attrs res" where
  "get_parallel_layer_attrs pcg l = node_label_at pcg l"

definition pcg_get_op_attrs :: "parallel_computation_graph \<Rightarrow> parallel_layer_guid \<Rightarrow> pcg_operator_attrs res" where
  "pcg_get_op_attrs pcg l = res_bind (get_parallel_layer_attrs pcg l) (\<lambda>a. Inr (pla_op_attrs a))"

definition get_parallel_tensor_attrs :: "parallel_computation_graph \<Rightarrow> parallel_tensor_guid \<Rightarrow> parallel_tensor_attrs res" where
  "get_parallel_tensor_attrs pcg t = value_label_at pcg (Value_output t)"

text \<open>The shape of a tensor, which is also \<open>ParallelComputationGraphBuilder::get_shape\<close>.\<close>

definition get_parallel_tensor_shape :: "parallel_computation_graph \<Rightarrow> parallel_tensor_guid \<Rightarrow> parallel_tensor_shape res" where
  "get_parallel_tensor_shape pcg t = res_bind (get_parallel_tensor_attrs pcg t) (\<lambda>a. Inr (pta_shape a))"

definition add_parallel_layer ::
    "parallel_layer_attrs \<Rightarrow> parallel_tensor_guid slots \<Rightarrow> parallel_tensor_guid slots \<Rightarrow> create_grad slots option \<Rightarrow>
     parallel_computation_graph \<times> nat \<Rightarrow>
     ((parallel_layer_guid \<times> parallel_tensor_guid slots) \<times> parallel_computation_graph \<times> nat) res" where
  "add_parallel_layer layer_attrs inputs weights maybe_output_flags = (\<lambda>(pcg, made).
     res_bind (map_values (get_parallel_tensor_shape pcg) inputs) (\<lambda>input_shapes.
     res_bind (map_values (get_parallel_tensor_shape pcg) weights) (\<lambda>weight_shapes.
     res_bind (pcg_get_weight_shapes (pla_op_attrs layer_attrs) input_shapes) (\<lambda>correct_weight_shapes.
     res_bind (ASSERT (weight_shapes = correct_weight_shapes)) (\<lambda>_.
     res_bind (pcg_get_output_shapes (pla_op_attrs layer_attrs) input_shapes) (\<lambda>output_shapes.
     let output_flags = (case maybe_output_flags of
         Some flags \<Rightarrow> flags | None \<Rightarrow> map_option (\<lambda>_. Create_grad_YES) \<circ> output_shapes) in
     res_bind (zip_values_strict_with output_shapes output_flags
         (\<lambda>shape create_grad. \<lparr> pta_shape = shape, pta_create_grad = create_grad \<rparr>)) (\<lambda>output_attrs.
     res_bind (binary_merge_disjoint_maps inputs weights) (\<lambda>raw_inputs.
     Inr (kwarg_add_node layer_attrs raw_inputs output_attrs pcg made)))))))))"

definition pcg_add_input_layer ::
    "tensor_shape \<Rightarrow> create_grad \<Rightarrow> parallel_computation_graph \<times> nat \<Rightarrow>
     ((parallel_layer_guid \<times> parallel_tensor_guid slots) \<times> parallel_computation_graph \<times> nat) res" where
  "pcg_add_input_layer tensor_shape create_grad =
     add_parallel_layer \<lparr> pla_op_attrs = PCG_input tensor_shape, pla_name = None \<rparr> Map.empty Map.empty
       (Some [Slot_OUTPUT \<mapsto> create_grad])"

definition pcg_get_outgoing_tensors :: "parallel_computation_graph \<Rightarrow> parallel_layer_guid \<Rightarrow> parallel_tensor_guid slots" where
  "pcg_get_outgoing_tensors pcg l = get_outgoing_kwarg_dataflow_outputs_for_node (view_of_open_graph pcg) l"

definition pcg_get_incoming_tensors :: "parallel_computation_graph \<Rightarrow> parallel_layer_guid \<Rightarrow> parallel_tensor_guid slots" where
  "pcg_get_incoming_tensors pcg l = get_incoming_kwarg_dataflow_outputs_for_node (view_of_open_graph pcg) l"

definition pcg_get_incoming_tensors_with_role ::
    "parallel_computation_graph \<Rightarrow> parallel_layer_guid \<Rightarrow> incoming_tensor_role \<Rightarrow> parallel_tensor_guid slots res" where
  "pcg_get_incoming_tensors_with_role pcg l desired_role =
     res_bind (pcg_get_op_attrs pcg l) (\<lambda>attrs.
     let incoming_tensors = pcg_get_incoming_tensors pcg l in
     res_bind (get_incoming_tensor_roles attrs) (\<lambda>incoming_slot_roles.
     res_bind (ASSERT (card (dom incoming_tensors) = card (dom incoming_slot_roles))) (\<lambda>_.
     let slots_with_desired_role = dom (filter_values (\<lambda>role. role = desired_role) incoming_slot_roles)
     in Inr (incoming_tensors |` slots_with_desired_role))))"

definition pcg_get_incoming_inputs :: "parallel_computation_graph \<Rightarrow> parallel_layer_guid \<Rightarrow> parallel_tensor_guid slots res" where
  "pcg_get_incoming_inputs pcg l = pcg_get_incoming_tensors_with_role pcg l Role_INPUT"

definition pcg_get_incoming_weights :: "parallel_computation_graph \<Rightarrow> parallel_layer_guid \<Rightarrow> parallel_tensor_guid slots res" where
  "pcg_get_incoming_weights pcg l = pcg_get_incoming_tensors_with_role pcg l Role_WEIGHT"

definition get_incoming_input_degrees ::
    "parallel_computation_graph \<Rightarrow> parallel_layer_guid \<Rightarrow> parallel_tensor_dim_degrees slots res" where
  "get_incoming_input_degrees pcg l =
     res_bind (pcg_get_incoming_inputs pcg l) (\<lambda>inputs.
     map_values (\<lambda>t. res_bind (get_parallel_tensor_shape pcg t) (\<lambda>s. Inr (get_parallel_degrees s))) inputs)"

text \<open>
  \<open>get_operator_task_space\<close> of a layer. The source reads the incoming inputs twice and computes their degrees
  as \<open>get_incoming_input_degrees\<close> does.
\<close>

definition pcg_get_operator_task_space ::
    "parallel_computation_graph \<Rightarrow> parallel_layer_guid \<Rightarrow> operator_task_space res" where
  "pcg_get_operator_task_space pcg layer =
     res_bind (pcg_get_op_attrs pcg layer) (\<lambda>op_attrs.
     res_bind (ASSERT (\<not> pcg_is_parallel_op op_attrs)) (\<lambda>_.
     res_bind (pcg_get_incoming_inputs pcg layer) (\<lambda>inputs.
     res_bind (get_incoming_input_degrees pcg layer) (\<lambda>input_degrees.
     case compgraph_op_attrs_from_pcg_op_attrs op_attrs of
       None \<Rightarrow> Inl Bad_optional_access
     | Some attrs \<Rightarrow> get_operator_task_space attrs input_degrees))))"

section \<open>Other queries\<close>

record parallel_tensor_info =
  pti_guid :: parallel_tensor_guid
  pti_attrs :: parallel_tensor_attrs

record parallel_layer_info =
  pli_guid :: parallel_layer_guid
  pli_attrs :: parallel_layer_attrs

record parallel_layer_invocation_info =
  plii_incoming :: "parallel_tensor_info slots"
  plii_layer_info :: parallel_layer_info
  plii_outgoing :: "parallel_tensor_info slots"

definition pcg_get_invocation_info_for_layer ::
    "parallel_computation_graph \<Rightarrow> parallel_layer_guid \<Rightarrow> parallel_layer_invocation_info res" where
  "pcg_get_invocation_info_for_layer pcg l =
     res_bind (get_parallel_layer_attrs pcg l) (\<lambda>l_attrs.
     let incoming = pcg_get_incoming_tensors pcg l;
         outgoing = pcg_get_outgoing_tensors pcg l;
         get_parallel_tensor_info = (\<lambda>t. res_bind (get_parallel_tensor_attrs pcg t) (\<lambda>t_attrs.
           Inr \<lparr> pti_guid = t, pti_attrs = t_attrs \<rparr>))
     in res_bind (map_values get_parallel_tensor_info incoming) (\<lambda>incoming_info.
        res_bind (map_values get_parallel_tensor_info outgoing) (\<lambda>outgoing_info.
        Inr \<lparr> plii_incoming = incoming_info, plii_layer_info = \<lparr> pli_guid = l, pli_attrs = l_attrs \<rparr>,
              plii_outgoing = outgoing_info \<rparr>)))"

definition pcg_get_invocation_info_set ::
    "parallel_computation_graph \<Rightarrow> parallel_layer_invocation_info set res" where
  "pcg_get_invocation_info_set pcg =
     res_bind (res_map (pcg_get_invocation_info_for_layer pcg) (sorted_list_of_set (pcg_get_parallel_layers pcg)))
       (\<lambda>infos. Inr (set infos))"

definition pcg_get_edges :: "parallel_computation_graph \<Rightarrow> parallel_computation_graph_edge set" where
  "pcg_get_edges pcg = get_all_kwarg_dataflow_edges (view_of_open_graph pcg)"

definition get_pcg_edges_from_layer_to_layer ::
    "parallel_computation_graph \<Rightarrow> parallel_layer_guid \<Rightarrow> parallel_layer_guid \<Rightarrow> parallel_computation_graph_edge set" where
  "get_pcg_edges_from_layer_to_layer pcg src dst =
     get_kwarg_dataflow_edges_from_node_to_node (view_of_open_graph pcg) src dst"

definition pcg_get_outgoing_edges ::
    "parallel_computation_graph \<Rightarrow> parallel_layer_guid \<Rightarrow> parallel_computation_graph_edge set" where
  "pcg_get_outgoing_edges pcg l = \<Union>(ran (get_outgoing_kwarg_dataflow_edges_for_node (view_of_open_graph pcg) l))"

definition pcg_get_incoming_edges ::
    "parallel_computation_graph \<Rightarrow> parallel_layer_guid \<Rightarrow> parallel_computation_graph_edge slots" where
  "pcg_get_incoming_edges pcg l = get_incoming_kwarg_dataflow_edges_for_node (view_of_open_graph pcg) l"

definition pcg_get_parallel_tensor_uses ::
    "parallel_computation_graph \<Rightarrow> parallel_tensor_guid \<Rightarrow> parallel_tensor_use set" where
  "pcg_get_parallel_tensor_uses pcg t = get_kwarg_dataflow_value_uses (view_of_open_graph pcg) t"

definition get_initial_layers :: "parallel_computation_graph \<Rightarrow> parallel_layer_guid set" where
  "get_initial_layers pcg = get_initial_nodes (pcg_digraph pcg)"

definition pcg_get_successors :: "parallel_computation_graph \<Rightarrow> parallel_layer_guid \<Rightarrow> parallel_layer_guid set res" where
  "pcg_get_successors pcg l = get_successors (pcg_digraph pcg) l"

definition pcg_get_subgraph_successors ::
    "parallel_computation_graph \<Rightarrow> parallel_layer_guid set \<Rightarrow> parallel_layer_guid set" where
  "pcg_get_subgraph_successors pcg subgraph_layers = get_subgraph_successors (pcg_digraph pcg) subgraph_layers"

definition pcg_get_source_layer :: "parallel_computation_graph \<Rightarrow> parallel_tensor_guid \<Rightarrow> parallel_layer_guid" where
  "pcg_get_source_layer g t = kdo_node t"

definition pcg_topological_ordering :: "parallel_computation_graph \<Rightarrow> parallel_layer_guid list run" where
  "pcg_topological_ordering pcg = get_topological_ordering (pcg_digraph pcg)"

definition get_parallel_layer_attrs_mapping ::
    "parallel_computation_graph \<Rightarrow> (parallel_layer_guid \<rightharpoonup> parallel_layer_attrs) res" where
  "get_parallel_layer_attrs_mapping pcg =
     generate_map (sorted_list_of_set (pcg_get_parallel_layers pcg)) (get_parallel_layer_attrs pcg)"

definition get_parallel_layer_by_name :: "parallel_computation_graph \<Rightarrow> string \<Rightarrow> parallel_layer_guid res" where
  "get_parallel_layer_by_name pcg name =
     res_bind (res_map (\<lambda>l. res_bind (get_parallel_layer_attrs pcg l) (\<lambda>a.
         case pla_name a of
           None \<Rightarrow> Inr (l, False)
         | Some n \<Rightarrow> res_bind (stack_string name) (\<lambda>c. Inr (l, n = c))))
       (sorted_list_of_set (pcg_get_parallel_layers pcg))) (\<lambda>found.
     get_only (fst ` {x \<in> set found. snd x}))"

definition pcg_without_layer_names :: "parallel_computation_graph \<Rightarrow> parallel_computation_graph res" where
  "pcg_without_layer_names pcg =
     res_bind (rewrite_labelled_kwarg_dataflow_graph_node_labels (view_of_open_graph pcg)
         (\<lambda>n old_attrs. old_attrs\<lparr> pla_name := None \<rparr>)) (\<lambda>relabelled.
     kwarg_inplace_materialize_from relabelled)"

section \<open>The parallel graph of a computation graph\<close>

definition pcg_from_computation_graph :: "computation_graph \<Rightarrow> parallel_computation_graph res" where
  "pcg_from_computation_graph cg =
     res_bind (rewrite_labelled_kwarg_dataflow_graph_node_labels (view_of_open_graph cg)
         (\<lambda>_ layer. parallel_layer_attrs_from_layer_attrs layer)) (\<lambda>layers_mapped.
     res_bind (rewrite_labelled_kwarg_dataflow_graph_value_labels layers_mapped
         (\<lambda>_ tensor. parallel_tensor_attrs_from_tensor_attrs tensor)) (\<lambda>graph_view.
     kwarg_inplace_materialize_from graph_view))"

section \<open>Well-typed graphs\<close>

definition pshapes_of :: "parallel_tensor_attrs slots \<Rightarrow> parallel_tensor_shape slots" where
  "pshapes_of m = map_option pta_shape \<circ> m"

definition pcg_layer_ok :: "parallel_layer_attrs \<Rightarrow> parallel_tensor_attrs slots \<Rightarrow> parallel_tensor_attrs slots \<Rightarrow> bool" where
  "pcg_layer_ok l ins outs \<longleftrightarrow> (\<exists>inputs weights. dom inputs \<inter> dom weights = {} \<and> ins = inputs ++ weights \<and>
     pcg_get_output_shapes (pla_op_attrs l) (pshapes_of inputs) = Inr (pshapes_of outs) \<and>
     pcg_get_weight_shapes (pla_op_attrs l) (pshapes_of inputs) = Inr (pshapes_of weights))"

lemma parallel_tensor_shape_eq:
  "get_parallel_tensor_shape pcg t = Inr s \<longleftrightarrow> (\<exists>a. okg_outputs pcg t = Some a \<and> s = pta_shape a)"
  by (auto simp: get_parallel_tensor_shape_def get_parallel_tensor_attrs_def)

lemma pshapes_of_simps [simp]:
  "pshapes_of Map.empty = Map.empty"
  "pshapes_of (m(k \<mapsto> a)) = (pshapes_of m)(k \<mapsto> pta_shape a)"
  "dom (pshapes_of m) = dom m"
  "pshapes_of m k = map_option pta_shape (m k)"
  by (auto simp: pshapes_of_def fun_eq_iff split: if_splits)

lemma map_values_pshapes:
  "map_values (get_parallel_tensor_shape pcg) ts = Inr ss \<longleftrightarrow>
     ran ts \<subseteq> dom (okg_outputs pcg) \<and> ss = pshapes_of (attrs_at pcg ts)"
  using map_values_labels [of "get_parallel_tensor_shape pcg" pcg pta_shape, OF parallel_tensor_shape_eq]
  by (simp add: pshapes_of_def)

lemma add_parallel_layer_eq:
  "add_parallel_layer l inputs weights flags (pcg, made) = Inr ((n, outs), pcg', made') \<longleftrightarrow>
     ran inputs \<subseteq> dom (okg_outputs pcg) \<and> ran weights \<subseteq> dom (okg_outputs pcg) \<and> dom inputs \<inter> dom weights = {} \<and>
     pcg_get_weight_shapes (pla_op_attrs l) (pshapes_of (attrs_at pcg inputs)) = Inr (pshapes_of (attrs_at pcg weights)) \<and>
     (\<exists>out_attrs. pcg_get_output_shapes (pla_op_attrs l) (pshapes_of (attrs_at pcg inputs)) = Inr (pshapes_of out_attrs) \<and>
        flags_ok flags (map_option pta_create_grad \<circ> out_attrs) \<and>
        kwarg_add_node l (inputs ++ weights) out_attrs pcg made = ((n, outs), pcg', made'))"
  by (auto simp: add_parallel_layer_def map_values_pshapes binary_merge_disjoint_maps_def Let_def
      zip_output_attrs [of pta_shape _ pta_create_grad] pshapes_of_def [symmetric])

lemma add_parallel_layer_typed:
  assumes add: "add_parallel_layer l inputs weights flags (pcg, made) = Inr ((n, outs), pcg', made')"
    and wf: "wf_kwarg_graph pcg made" "made < 2 ^ 64" and ty: "kwarg_graph.typed pcg_layer_ok pcg"
  shows "n = made \<and> made' = Suc made \<and> wf_kwarg_graph pcg' made' \<and> kwarg_graph.typed pcg_layer_ok pcg' \<and>
    kwarg_graph.extends pcg pcg' \<and> okg_nodes pcg' = (okg_nodes pcg)(made \<mapsto> l) \<and>
    incoming_outputs pcg' = (incoming_outputs pcg)(made := inputs ++ weights) \<and>
    (\<exists>out_attrs. pcg_get_output_shapes (pla_op_attrs l) (pshapes_of (attrs_at pcg inputs)) = Inr (pshapes_of out_attrs) \<and>
       flags_ok flags (map_option pta_create_grad \<circ> out_attrs) \<and>
       outs = (\<lambda>slot. map_option (\<lambda>_. KwargDataflowOutput made slot) (out_attrs slot)) \<and>
       (\<forall>slot. okg_outputs pcg' (KwargDataflowOutput made slot) = out_attrs slot))"
proof -
  from add obtain out_attrs where ran: "ran inputs \<subseteq> dom (okg_outputs pcg)" "ran weights \<subseteq> dom (okg_outputs pcg)"
    and dis: "dom inputs \<inter> dom weights = {}"
    and ws: "pcg_get_weight_shapes (pla_op_attrs l) (pshapes_of (attrs_at pcg inputs)) =
      Inr (pshapes_of (attrs_at pcg weights))"
    and os: "pcg_get_output_shapes (pla_op_attrs l) (pshapes_of (attrs_at pcg inputs)) = Inr (pshapes_of out_attrs)"
    and flags: "flags_ok flags (map_option pta_create_grad \<circ> out_attrs)"
    and node: "kwarg_add_node l (inputs ++ weights) out_attrs pcg made = ((n, outs), pcg', made')"
    unfolding add_parallel_layer_eq by blast
  have "pcg_layer_ok l (attrs_at pcg inputs ++ attrs_at pcg weights) out_attrs"
    unfolding pcg_layer_ok_def using os ws dis ran
    by (intro exI [of _ "attrs_at pcg inputs"] exI [of _ "attrs_at pcg weights"]) (simp add: dom_attrs_at)
  from kwarg_add_node_typed [OF wf ty ran finite_slots finite_slots this node] os flags show ?thesis by blast
qed

lemma add_parallel_layer_succeeds:
  assumes "ran inputs \<subseteq> dom (okg_outputs pcg)" and "ran weights \<subseteq> dom (okg_outputs pcg)"
    and "dom inputs \<inter> dom weights = {}"
    and "pcg_get_weight_shapes (pla_op_attrs l) (pshapes_of (attrs_at pcg inputs)) = Inr (pshapes_of (attrs_at pcg weights))"
    and "pcg_get_output_shapes (pla_op_attrs l) (pshapes_of (attrs_at pcg inputs)) = Inr (pshapes_of out)"
    and "flags_ok flags (map_option pta_create_grad \<circ> out)"
  shows "\<exists>r. add_parallel_layer l inputs weights flags (pcg, made) = Inr r"
proof -
  obtain n outs pcg' made' where "kwarg_add_node l (inputs ++ weights) out pcg made = ((n, outs), pcg', made')"
    by (metis surj_pair)
  then have "add_parallel_layer l inputs weights flags (pcg, made) = Inr ((n, outs), pcg', made')"
    using assms by (auto simp: add_parallel_layer_eq simp del: comp_apply intro!: exI [of _ out])
  then show ?thesis by blast
qed

section \<open>The roles of the incoming tensors\<close>

lemma parallel_weight_slots:
  "batch_norm_get_weight_parallel_shapes b s = Inr w \<Longrightarrow> bn_affine b \<and> dom w = {Slot_GAMMA, Slot_BETA}"
  "layer_norm_get_weight_parallel_shapes l s = Inr w \<Longrightarrow> ln_elementwise_affine l \<and> dom w = {Slot_GAMMA, Slot_BETA}"
  "linear_get_weight_parallel_shapes d s = Inr w \<Longrightarrow>
     dom w = insert Slot_WEIGHT (if linear_use_bias d then {Slot_BIAS} else {})"
  "conv2d_get_weight_parallel_shapes c s = Inr w \<Longrightarrow>
     dom w = insert Slot_FILTER (if conv_use_bias c then {Slot_BIAS} else {})"
  "attention_get_weight_parallel_shapes a q k v = Inr w \<Longrightarrow>
     dom w = insert Slot_WEIGHT (if mha_bias a then {Slot_INPUT_BIAS, Slot_OUTPUT_BIAS} else {})"
  subgoal by (auto simp: batch_norm_get_weight_parallel_shapes_def batch_norm_get_gamma_weights_parallel_shape_def
        batch_norm_get_gamma_weights_shape_def split: if_splits)
  subgoal by (auto simp: layer_norm_get_weight_parallel_shapes_def layer_norm_get_gamma_weights_parallel_shape_def
        layer_norm_get_gamma_weights_shape_def split: if_splits)
  subgoal by (cases "linear_use_bias d") (auto simp: linear_get_weight_parallel_shapes_def split: if_splits)
  subgoal by (cases "conv_use_bias c") (auto simp: conv2d_get_weight_parallel_shapes_def split: if_splits)
  subgoal by (cases "mha_bias a") (auto simp: attention_get_weight_parallel_shapes_def Let_def split: if_splits)
  done

lemma attention_parallel_roles:
  "attention_get_output_parallel_shape a q k v = Inr u \<Longrightarrow> \<exists>r. get_attention_incoming_tensor_roles a = Inr r"
  by (auto simp: get_attention_incoming_tensor_roles_def attention_get_output_parallel_shape_def Let_def)

lemma pcg_incoming_slot_roles:
  assumes "pcg_get_output_shapes op m = Inr out" and "pcg_get_weight_shapes op m = Inr weights"
  shows "\<exists>roles. get_incoming_tensor_roles op = Inr roles \<and>
    slots_with_role roles Role_INPUT = dom m \<and> slots_with_role roles Role_WEIGHT = dom weights"
proof (cases op)
  case (PCG_concat attrs)
  then obtain ss s where "m = slots_of get_variadic_inputs_slot_name_sequence ss" "m = [Slot_INPUT \<mapsto> s]"
    using assms by (auto simp: concat_output_eq container_ops)
  then have "map_of (zip get_variadic_inputs_slot_name_sequence ss) Slot_INPUT = Some s"
    by (metis fun_upd_same slots_of_def)
  then have "Slot_INPUT \<in> set get_variadic_inputs_slot_name_sequence" by (auto dest: map_of_SomeD in_set_zipE)
  then show ?thesis by (simp add: get_variadic_inputs_slot_name_sequence_def)
next
  case (PCG_multi_head_attention attrs)
  with assms obtain q k v u where "m = [Slot_QUERY \<mapsto> q, Slot_KEY \<mapsto> k, Slot_VALUE \<mapsto> v]"
    "attention_get_output_parallel_shape attrs q k v = Inr u" "attention_get_weight_parallel_shapes attrs q k v = Inr weights"
    by (auto simp: attention_output_eq require_3_eq)
  then show ?thesis
    using PCG_multi_head_attention attention_role_slots(1) attention_parallel_roles parallel_weight_slots(5) by fastforce
next
  case (PCG_batch_norm attrs)
  with assms obtain s where "m = [Slot_INPUT \<mapsto> s]" "batch_norm_get_weight_parallel_shapes attrs s = Inr weights"
    by (auto simp: container_ops)
  with PCG_batch_norm parallel_weight_slots(1) show ?thesis by (simp add: role_slots del: dom_eq_singleton_conv)
next
  case (PCG_layer_norm attrs)
  with assms obtain s where "m = [Slot_INPUT \<mapsto> s]" "layer_norm_get_weight_parallel_shapes attrs s = Inr weights"
    by (auto simp: container_ops)
  with PCG_layer_norm parallel_weight_slots(2) show ?thesis by (simp add: role_slots del: dom_eq_singleton_conv)
next
  case (PCG_linear attrs)
  with assms obtain s where "m = [Slot_INPUT \<mapsto> s]" "linear_get_weight_parallel_shapes attrs s = Inr weights"
    by (auto simp: container_ops)
  with PCG_linear parallel_weight_slots(3) show ?thesis by (simp add: role_slots del: dom_eq_singleton_conv)
next
  case (PCG_conv2d attrs)
  with assms obtain s where "m = [Slot_INPUT \<mapsto> s]" "conv2d_get_weight_parallel_shapes attrs s = Inr weights"
    by (auto simp: container_ops)
  with PCG_conv2d parallel_weight_slots(4) show ?thesis by (simp add: role_slots del: dom_eq_singleton_conv)
qed (use assms in \<open>auto simp: unary_output_eq binary_output_eq source_output_eq split_outputs_eq
   gather_get_output_parallel_shape_def container_ops split: if_splits\<close>)

section \<open>The queries of a layer\<close>

lemma pcg_typed_layer:
  assumes wf: "wf_kwarg_graph pcg made" and ty: "kwarg_graph.typed pcg_layer_ok pcg" and l: "okg_nodes pcg n = Some l"
  shows "\<exists>inputs weights. pcg_get_incoming_inputs pcg n = Inr inputs \<and> pcg_get_incoming_weights pcg n = Inr weights \<and>
    ran inputs \<subseteq> dom (okg_outputs pcg) \<and> ran weights \<subseteq> dom (okg_outputs pcg) \<and>
    dom inputs \<inter> dom weights = {} \<and> pcg_get_incoming_tensors pcg n = inputs ++ weights \<and>
    ran (pcg_get_outgoing_tensors pcg n) \<subseteq> dom (okg_outputs pcg) \<and>
    pcg_get_output_shapes (pla_op_attrs l) (pshapes_of (attrs_at pcg inputs)) =
      Inr (pshapes_of (attrs_at pcg (pcg_get_outgoing_tensors pcg n))) \<and>
    pcg_get_weight_shapes (pla_op_attrs l) (pshapes_of (attrs_at pcg inputs)) = Inr (pshapes_of (attrs_at pcg weights))"
proof -
  let ?in = "incoming_outputs pcg n"
  note labels = typed_labels [OF wf ty l, of "pcg_get_outgoing_tensors pcg n", OF pcg_get_outgoing_tensors_def]
  from labels(1) obtain i w where dis: "dom i \<inter> dom w = {}" and iw: "attrs_at pcg ?in = i ++ w"
    and os: "pcg_get_output_shapes (pla_op_attrs l) (pshapes_of i) = Inr (pshapes_of (attrs_at pcg (pcg_get_outgoing_tensors pcg n)))"
    and ws: "pcg_get_weight_shapes (pla_op_attrs l) (pshapes_of i) = Inr (pshapes_of w)"
    unfolding pcg_layer_ok_def by blast
  from pcg_incoming_slot_roles [OF os ws] obtain roles where roles: "get_incoming_tensor_roles (pla_op_attrs l) = Inr roles"
    and slots: "slots_with_role roles Role_INPUT = dom i" "slots_with_role roles Role_WEIGHT = dom w"
    unfolding pshapes_of_simps by blast
  note split = split_by_roles [OF labels(2) iw dis slots refl refl]
  from split(1) have "pcg_get_incoming_inputs pcg n = Inr (?in |` dom (filter_values (\<lambda>role. role = Role_INPUT) roles))"
    "pcg_get_incoming_weights pcg n = Inr (?in |` dom (filter_values (\<lambda>role. role = Role_WEIGHT) roles))"
    by (simp_all add: pcg_get_incoming_inputs_def pcg_get_incoming_weights_def pcg_get_incoming_tensors_with_role_def
        pcg_get_op_attrs_def get_parallel_layer_attrs_def node_label_at_def map_at_def l roles
        pcg_get_incoming_tensors_def incoming_outputs_def)
  with split labels(3) os ws show ?thesis
    by (simp add: pcg_get_incoming_tensors_def incoming_outputs_def [symmetric])
qed

lemma map_values_degrees:
  "map_values (\<lambda>t. res_bind (get_parallel_tensor_shape pcg t) (\<lambda>s. Inr (get_parallel_degrees s))) ts = Inr ds \<longleftrightarrow>
     ran ts \<subseteq> dom (okg_outputs pcg) \<and> ds = degrees_of_slots (pshapes_of (attrs_at pcg ts))"
proof -
  have "degrees_of_slots (pshapes_of m) = map_option (\<lambda>a. get_parallel_degrees (pta_shape a)) \<circ> m" for m
    by (simp add: fun_eq_iff degrees_of_slots_def option.map_comp comp_def)
  then show ?thesis
    using map_values_labels [of "\<lambda>t. res_bind (get_parallel_tensor_shape pcg t) (\<lambda>s. Inr (get_parallel_degrees s))" pcg
      "\<lambda>a. get_parallel_degrees (pta_shape a)" ts ds] by (auto simp: parallel_tensor_shape_eq)
qed

lemma pcg_task_space_eq:
  assumes wf: "wf_kwarg_graph pcg made" and ty: "kwarg_graph.typed pcg_layer_ok pcg" and l: "okg_nodes pcg n = Some l"
    and op: "compgraph_op_attrs_from_pcg_op_attrs (pla_op_attrs l) = Some op"
  shows "\<exists>m. pcg_get_output_shapes (pcg_op_attrs_from_compgraph_op_attrs op) m =
      Inr (pshapes_of (attrs_at pcg (pcg_get_outgoing_tensors pcg n))) \<and>
    pcg_get_operator_task_space pcg n = get_operator_task_space op (degrees_of_slots m)"
proof -
  obtain inputs where i: "pcg_get_incoming_inputs pcg n = Inr inputs" "ran inputs \<subseteq> dom (okg_outputs pcg)"
    and os: "pcg_get_output_shapes (pla_op_attrs l) (pshapes_of (attrs_at pcg inputs)) =
      Inr (pshapes_of (attrs_at pcg (pcg_get_outgoing_tensors pcg n)))"
    using pcg_typed_layer [OF wf ty l] by blast
  have la: "pla_op_attrs l = pcg_op_attrs_from_compgraph_op_attrs op" "\<not> pcg_is_parallel_op (pla_op_attrs l)"
    using op by (cases "pla_op_attrs l"; auto)+
  have "get_incoming_input_degrees pcg n = Inr (degrees_of_slots (pshapes_of (attrs_at pcg inputs)))"
    using i map_values_degrees [of pcg inputs] by (simp add: get_incoming_input_degrees_def)
  then have "pcg_get_operator_task_space pcg n = get_operator_task_space op (degrees_of_slots (pshapes_of (attrs_at pcg inputs)))"
    using l la op i by (simp add: pcg_get_operator_task_space_def pcg_get_op_attrs_def get_parallel_layer_attrs_def
      node_label_at_def map_at_def)
  with os la show ?thesis by auto
qed

section \<open>Making a parallel graph of a computation graph\<close>

lemma generate_map_set:
  assumes "finite A" and "\<And>k. k \<in> A \<Longrightarrow> f k = Inr (g k)"
  shows "generate_map (sorted_list_of_set A) f = Inr (\<lambda>k. if k \<in> A then Some (g k) else None)"
  using assms generate_map_eq [of "sorted_list_of_set A" f g] by simp

definition lifted_attrs :: "tensor_attrs \<Rightarrow> parallel_tensor_attrs" where
  "lifted_attrs a = \<lparr> pta_shape = lift_to_parallel_with_dim_degrees (ta_shape a)
       (ParallelTensorDimDegrees 1 1 (replicate (length (ts_dims (ta_shape a))) 1)), pta_create_grad = ta_create_grad a \<rparr>"

lemma lifted_attrs_eq:
  "parallel_tensor_attrs_from_tensor_attrs a = Inr b \<longleftrightarrow> length (ts_dims (ta_shape a)) \<le> MAX_TENSOR_DIM \<and> b = lifted_attrs a"
  by (auto simp: parallel_tensor_attrs_from_tensor_attrs_def lift_to_parallel_eq lifted_attrs_def)

lemma lifted_attrs_parts:
  "get_reduced_shape (pta_shape (lifted_attrs a)) = ta_shape a"
  "get_total_parallel_degree (pta_shape (lifted_attrs a)) = Inr 1"
proof -
  let ?n = "length (ts_dims (ta_shape a))"
  show "get_reduced_shape (pta_shape (lifted_attrs a)) = ta_shape a"
    by (simp add: lifted_attrs_def get_reduced_shape_lift)
  have "get_parallel_degrees (pta_shape (lifted_attrs a)) = ParallelTensorDimDegrees 1 1 (replicate ?n 1)"
    by (simp add: lifted_attrs_def get_parallel_degrees_lift)
  then show "get_total_parallel_degree (pta_shape (lifted_attrs a)) = Inr 1"
    by (simp add: get_total_parallel_degree_eq total_degree_eq total_degree_def INT_MAX_def prod_list_replicate)
qed

lemma relabelled_simps [simp]:
  "view_nodes (kwarg_dataflow_graph_view_with_labelling g ns vs) = view_nodes g"
  "get_all_kwarg_dataflow_outputs (kwarg_dataflow_graph_view_with_labelling g ns vs) = get_all_kwarg_dataflow_outputs g"
  "get_all_kwarg_dataflow_edges (kwarg_dataflow_graph_view_with_labelling g ns vs) = get_all_kwarg_dataflow_edges g"
  "kv_node_label (kwarg_dataflow_graph_view_with_labelling g ns vs) = map_at ns"
  "kv_value_label (kwarg_dataflow_graph_view_with_labelling g ns vs) = map_at vs"
  by (simp_all add: view_nodes_def get_nodes_def digraph_of_kwarg_view_def get_all_kwarg_dataflow_outputs_def
      get_all_kwarg_dataflow_edges_def kwarg_dataflow_graph_view_with_labelling_def)

lemma generate_map_labels:
  assumes "finite (dom m)" and "\<And>k v. m k = Some v \<Longrightarrow> f k = Inr (g v)"
  shows "generate_map (sorted_list_of_set (dom m)) f = Inr (map_option g \<circ> m)"
proof -
  have "generate_map (sorted_list_of_set (dom m)) f = Inr (\<lambda>k. if k \<in> dom m then Some (g (the (m k))) else None)"
    using assms by (intro generate_map_set) auto
  also have "(\<lambda>k. if k \<in> dom m then Some (g (the (m k))) else None) = map_option g \<circ> m" by (auto simp: fun_eq_iff domIff)
  finally show ?thesis .
qed

lemma pcg_from_computation_graph_eq:
  assumes wf: "wf_kwarg_graph cg made"
  shows "pcg_from_computation_graph cg = Inr pcg \<longleftrightarrow>
    (\<forall>a \<in> ran (okg_outputs cg). length (ts_dims (ta_shape a)) \<le> MAX_TENSOR_DIM) \<and>
    pcg = \<lparr> okg_graph_inputs = Map.empty, okg_nodes = map_option parallel_layer_attrs_from_layer_attrs \<circ> okg_nodes cg,
      okg_edges = okg_edges cg, okg_outputs = map_option lifted_attrs \<circ> okg_outputs cg \<rparr>"
proof -
  note fin = wf_kwarg_graphD(5,3) [OF wf]
  let ?v = "view_of_open_graph cg" and ?ns = "map_option parallel_layer_attrs_from_layer_attrs \<circ> okg_nodes cg"
    and ?vs = "map_option lifted_attrs \<circ> okg_outputs cg"
  have edges: "Open_internal_edge ` get_all_kwarg_dataflow_edges ?v = okg_edges cg"
    using wf_kwarg_graphD(1) [OF wf] by (simp add: get_all_kwarg_dataflow_edges_def kwarg_dataflow_edge_query_all_def
      kwarg_dataflow_edge_query_includes_def)
  have nodes: "rewrite_labelled_kwarg_dataflow_graph_node_labels ?v (\<lambda>_ l. parallel_layer_attrs_from_layer_attrs l) =
      Inr (kwarg_dataflow_graph_view_with_labelling ?v ?ns (okg_outputs cg))"
    using generate_map_labels [OF fin(1), of _ parallel_layer_attrs_from_layer_attrs] generate_map_labels [OF fin(2), of _ id]
    by (simp add: rewrite_labelled_kwarg_dataflow_graph_node_labels_def get_labelled_kwarg_dataflow_graph_output_label_map_def
        node_label_at_def option.map_id0)
  have copy: "kwarg_inplace_materialize_from (kwarg_dataflow_graph_view_with_labelling
        (kwarg_dataflow_graph_view_with_labelling ?v ?ns (okg_outputs cg)) ?ns ?vs) =
      Inr \<lparr> okg_graph_inputs = Map.empty, okg_nodes = ?ns, okg_edges = okg_edges cg, okg_outputs = ?vs \<rparr>"
    using generate_map_labels [OF fin(1), of "map_at ?ns" parallel_layer_attrs_from_layer_attrs]
      generate_map_labels [OF fin(2), of "map_at ?vs" lifted_attrs]
    by (simp add: kwarg_inplace_materialize_from_def get_labelled_kwarg_dataflow_graph_node_label_map_def
        get_labelled_kwarg_dataflow_graph_output_label_map_def edges)
  let ?f = "\<lambda>out. res_bind (map_at (okg_outputs cg) out) parallel_tensor_attrs_from_tensor_attrs"
  have all: "generate_map (sorted_list_of_set (dom ?ns)) (map_at ?ns) = Inr ?ns"
    using generate_map_labels [OF fin(1), of "map_at ?ns" parallel_layer_attrs_from_layer_attrs] by simp
  have run: "pcg_from_computation_graph cg = res_bind (generate_map (sorted_list_of_set (dom (okg_outputs cg))) ?f) (\<lambda>vs.
      kwarg_inplace_materialize_from (kwarg_dataflow_graph_view_with_labelling
        (kwarg_dataflow_graph_view_with_labelling ?v ?ns (okg_outputs cg)) ?ns vs))"
    using all by (cases "generate_map (sorted_list_of_set (dom (okg_outputs cg))) ?f")
      (simp_all add: pcg_from_computation_graph_def nodes rewrite_labelled_kwarg_dataflow_graph_value_labels_def
        get_labelled_kwarg_dataflow_graph_node_label_map_def)
  show ?thesis
  proof (cases "\<forall>a \<in> ran (okg_outputs cg). length (ts_dims (ta_shape a)) \<le> MAX_TENSOR_DIM")
    case True
    then have "generate_map (sorted_list_of_set (dom (okg_outputs cg))) ?f = Inr ?vs"
      using fin(2) by (intro generate_map_labels) (auto simp: lifted_attrs_eq ranI)
    with True copy show ?thesis by (auto simp: run)
  next
    case False
    then obtain out a where out: "okg_outputs cg out = Some a" "\<not> length (ts_dims (ta_shape a)) \<le> MAX_TENSOR_DIM"
      by (auto simp: ran_def)
    have "?f out \<noteq> Inr v" for v using out by (simp add: lifted_attrs_eq)
    moreover have "out \<in> set (sorted_list_of_set (dom (okg_outputs cg)))" using out fin(2) by auto
    ultimately have "generate_map (sorted_list_of_set (dom (okg_outputs cg))) ?f \<noteq> Inr m" for m
      using generate_map_ok [of "sorted_list_of_set (dom (okg_outputs cg))" ?f m out] by blast
    with False show ?thesis by (cases "generate_map (sorted_list_of_set (dom (okg_outputs cg))) ?f") (auto simp: run)
  qed
qed

end
