(* ===== verification/PCG_Task_Graph.thy ===== *)
theory PCG_Task_Graph
  imports Mapping_Search Parallel_Graphs
begin

text \<open>
  The task graph the simulator of \<open>lib/compiler\<close> runs for a parallel computation graph and a machine
  mapping: \<open>get_pcg_task_graph\<close> of \<open>task_graph_simulator/pcg_task_graph.cc\<close>, with the cost estimate keys of
  the layers and the movements of tensors along the edges it computes, and \<open>ManyToOne\<close> of \<open>lib/utils\<close>.

  Which tasks of two operators exchange parts of a tensor is worked out in \<open>pcg_get_mapping_along_edge\<close> by
  composing mappings between domains of dimensions, which are not modelled: the bidict it gives for an edge
  is a parameter. The lemmas show that a task graph has one task for each layer and each edge, no cycle, and
  a path from a layer to each of its consumers.
\<close>

section \<open>Many-to-one relations\<close>

record ('l, 'r) many_to_one =
  mto_l_to_r :: "'l \<rightharpoonup> 'r"
  mto_r_to_l :: "'r \<rightharpoonup> 'l set"

definition empty_many_to_one :: "('l, 'r) many_to_one" where
  "empty_many_to_one = \<lparr> mto_l_to_r = Map.empty, mto_r_to_l = Map.empty \<rparr>"

definition many_to_one_insert :: "('l, 'r) many_to_one \<Rightarrow> 'l \<Rightarrow> 'r \<Rightarrow> ('l, 'r) many_to_one res" where
  "many_to_one_insert m l r =
     (case mto_l_to_r m l of
        None \<Rightarrow> Inr \<lparr> mto_l_to_r = (mto_l_to_r m)(l \<mapsto> r),
          mto_r_to_l = (case mto_r_to_l m r of
             Some ls \<Rightarrow> (mto_r_to_l m)(r \<mapsto> insert l ls)
           | None \<Rightarrow> (mto_r_to_l m)(r \<mapsto> {l})) \<rparr>
      | Some found_r \<Rightarrow> if found_r = r then Inr m else Inl Panicked)"

definition many_to_one_at_l :: "('l, 'r) many_to_one \<Rightarrow> 'l \<Rightarrow> 'r res" where
  "many_to_one_at_l m l = map_at (mto_l_to_r m) l"

section \<open>Keys and movements\<close>

definition get_unmapped_runtime_only_op_cost_estimate_key_for_layer ::
    "parallel_computation_graph \<Rightarrow> parallel_layer_guid \<Rightarrow> unmapped_runtime_only_op_cost_estimate_key res" where
  "get_unmapped_runtime_only_op_cost_estimate_key_for_layer pcg layer =
     (let get_tensor_shape = get_parallel_tensor_shape pcg in
      res_bind (pcg_get_op_attrs pcg layer) (\<lambda>op_attrs.
      res_bind (res_bind (pcg_get_incoming_inputs pcg layer) (map_values get_tensor_shape)) (\<lambda>input_shapes.
      res_bind (res_bind (pcg_get_incoming_weights pcg layer) (map_values get_tensor_shape)) (\<lambda>weight_shapes.
      res_bind (map_values get_tensor_shape (pcg_get_outgoing_tensors pcg layer)) (\<lambda>output_shapes.
      Inr \<lparr> uk_op_attrs = op_attrs, uk_input_shapes = input_shapes, uk_weight_shapes = weight_shapes,
            uk_output_shapes = output_shapes \<rparr>)))))"

definition get_mapped_runtime_only_op_cost_estimate_key_for_layer ::
    "parallel_computation_graph \<Rightarrow> parallel_layer_guid \<Rightarrow> machine_view \<Rightarrow> runtime_only_op_cost_estimate_key res" where
  "get_mapped_runtime_only_op_cost_estimate_key_for_layer pcg layer machine_view =
     res_bind (get_unmapped_runtime_only_op_cost_estimate_key_for_layer pcg layer) (\<lambda>unmapped.
     Inr (map_unmapped_runtime_only_op_cost_estimate_key unmapped machine_view))"

text \<open>The parameter: which tasks of the two ends of an edge exchange a piece of its tensor.\<close>

type_synonym coord_mapping_along_edge =
  "parallel_computation_graph_edge \<Rightarrow> (task_space_coordinate, task_space_coordinate) bidict res"

definition get_abstracted_single_tensor_movement_along_edge ::
    "coord_mapping_along_edge \<Rightarrow> parallel_computation_graph \<Rightarrow> parallel_computation_graph_edge \<Rightarrow>
     binary_tree_path \<Rightarrow> binary_tree_path \<Rightarrow> abstracted_single_tensor_movement res" where
  "get_abstracted_single_tensor_movement_along_edge get_coord_mapping pcg edge src_path dst_path =
     res_bind (get_parallel_tensor_shape pcg (edge_get_parallel_tensor edge)) (\<lambda>shape.
     let tensor_piece = get_piece_shape shape in
     res_bind (get_coord_mapping edge) (\<lambda>coord_mapping.
     res_bind (res_map (\<lambda>(src_task_coord, dst_task_coord).
         res_bind (get_size_in_bytes tensor_piece) (\<lambda>size.
         Inr (\<lparr> astce_src_coord = src_task_coord, astce_dst = \<lparr> ad_operator_tree_path = dst_path,
                ad_task_space_coordinate = dst_task_coord \<rparr> \<rparr>, size))) (bidict_entries coord_mapping)) (\<lambda>single_comms.
     Inr \<lparr> astm_src_op_tree_path = src_path, astm_edge_to_size = map_from_pairs single_comms \<rparr>)))"

definition get_tensor_set_movement_from_pcg_edge ::
    "coord_mapping_along_edge \<Rightarrow> parallel_computation_graph_edge \<Rightarrow> parallel_computation_graph \<Rightarrow> machine_view \<Rightarrow>
     machine_view \<Rightarrow> tensor_set_movement res" where
  "get_tensor_set_movement_from_pcg_edge get_coord_mapping edge pcg src_mv dst_mv =
     (let src = get_src_layer edge; dst = get_dst_layer edge; src_path = [LEFT_CHILD]; dst_path = [RIGHT_CHILD] in
      res_bind (get_abstracted_single_tensor_movement_along_edge get_coord_mapping pcg edge src_path dst_path)
        (\<lambda>abstracted_single_tensor_movement.
      res_bind (pcg_get_operator_task_space pcg src) (\<lambda>src_task_space.
      res_bind (pcg_get_operator_task_space pcg dst) (\<lambda>dst_task_space.
      concretize_abstracted_tensor_set_movement
        (abstracted_tensor_set_movement_from_single_tensor_movement abstracted_single_tensor_movement)
        [src_path \<mapsto> \<lparr> mss_operator_task_space = src_task_space, mss_machine_view = src_mv \<rparr>]
        [dst_path \<mapsto> \<lparr> mss_operator_task_space = dst_task_space, mss_machine_view = dst_mv \<rparr>]))))"

section \<open>The task graph\<close>

datatype pcg_task = PT_operator runtime_only_op_cost_estimate_key | PT_tensor_movement tensor_set_movement

record pcg_task_graph =
  ptg_graph :: digraph_view
  ptg_node_to_task :: "(node, pcg_task) many_to_one"
  ptg_node_to_devices :: "node \<rightharpoonup> machine_space_coordinate set"

text \<open>The variables of \<open>get_pcg_task_graph\<close>: the graph with its source of nodes, and the three relations.\<close>

record task_graph_vars =
  tgv_digraph :: adjacency_digraph
  tgv_source :: nat
  tgv_node_to_task :: "(node, pcg_task) many_to_one"
  tgv_node_to_layer :: "(node, parallel_layer_guid) bidict"
  tgv_node_to_devices :: "node \<rightharpoonup> machine_space_coordinate set"

type_synonym machine_mapping = "parallel_layer_guid \<rightharpoonup> machine_view"

definition add_layer_task ::
    "parallel_computation_graph \<Rightarrow> machine_mapping \<Rightarrow> parallel_layer_guid \<Rightarrow> task_graph_vars \<Rightarrow> task_graph_vars res" where
  "add_layer_task pcg machine_views layer st =
     res_bind (map_at machine_views layer) (\<lambda>mv.
     res_bind (get_mapped_runtime_only_op_cost_estimate_key_for_layer pcg layer mv) (\<lambda>op_key.
     let (node, digraph, source) = add_node (tgv_digraph st) (tgv_source st) in
     res_bind (many_to_one_insert (tgv_node_to_task st) node (PT_operator op_key)) (\<lambda>node_to_task.
     res_bind (equate (tgv_node_to_layer st) node layer) (\<lambda>node_to_layer.
     res_bind (pcg_get_operator_task_space pcg layer) (\<lambda>task_space.
     res_bind (map_at machine_views layer) (\<lambda>mv.
     res_bind (get_machine_space_coordinates task_space mv) (\<lambda>devices.
     Inr \<lparr> tgv_digraph = digraph, tgv_source = source, tgv_node_to_task = node_to_task,
           tgv_node_to_layer = node_to_layer,
           tgv_node_to_devices = (tgv_node_to_devices st)(node \<mapsto> devices) \<rparr>)))))))"

fun add_layer_tasks ::
    "parallel_computation_graph \<Rightarrow> machine_mapping \<Rightarrow> parallel_layer_guid list \<Rightarrow> task_graph_vars \<Rightarrow>
     task_graph_vars res" where
  "add_layer_tasks pcg machine_views [] st = Inr st"
| "add_layer_tasks pcg machine_views (layer # layers) st =
     res_bind (add_layer_task pcg machine_views layer st) (add_layer_tasks pcg machine_views layers)"

definition add_edge_task ::
    "coord_mapping_along_edge \<Rightarrow> parallel_computation_graph \<Rightarrow> machine_mapping \<Rightarrow> parallel_computation_graph_edge \<Rightarrow>
     task_graph_vars \<Rightarrow> task_graph_vars res" where
  "add_edge_task get_coord_mapping pcg machine_views edge st =
     res_bind (map_at machine_views (get_src_layer edge)) (\<lambda>src_mv.
     res_bind (map_at machine_views (get_dst_layer edge)) (\<lambda>dst_mv.
     res_bind (get_tensor_set_movement_from_pcg_edge get_coord_mapping edge pcg src_mv dst_mv) (\<lambda>movement.
     let (node, digraph, source) = add_node (tgv_digraph st) (tgv_source st) in
     res_bind (many_to_one_insert (tgv_node_to_task st) node (PT_tensor_movement movement)) (\<lambda>node_to_task.
     res_bind (at_r (tgv_node_to_layer st) (get_src_layer edge)) (\<lambda>src_node.
     res_bind (at_r (tgv_node_to_layer st) (get_dst_layer edge)) (\<lambda>dst_node.
     res_bind (add_edge digraph (DirectedEdge src_node node)) (\<lambda>digraph.
     res_bind (add_edge digraph (DirectedEdge node dst_node)) (\<lambda>digraph.
     Inr (st\<lparr> tgv_digraph := digraph, tgv_source := source, tgv_node_to_task := node_to_task,
              tgv_node_to_devices := (tgv_node_to_devices st)(node \<mapsto> {}) \<rparr>)))))))))"

fun add_edge_tasks ::
    "coord_mapping_along_edge \<Rightarrow> parallel_computation_graph \<Rightarrow> machine_mapping \<Rightarrow>
     parallel_computation_graph_edge list \<Rightarrow> task_graph_vars \<Rightarrow> task_graph_vars res" where
  "add_edge_tasks get_coord_mapping pcg machine_views [] st = Inr st"
| "add_edge_tasks get_coord_mapping pcg machine_views (edge # edges) st =
     res_bind (add_edge_task get_coord_mapping pcg machine_views edge st)
       (add_edge_tasks get_coord_mapping pcg machine_views edges)"

text \<open>The machine specification is a parameter of the function that it does not use.\<close>

definition get_pcg_task_graph ::
    "coord_mapping_along_edge \<Rightarrow> parallel_computation_graph \<Rightarrow> machine_mapping \<Rightarrow> pcg_task_graph res" where
  "get_pcg_task_graph get_coord_mapping pcg machine_views =
     res_bind (add_layer_tasks pcg machine_views (sorted_list_of_set (pcg_get_parallel_layers pcg))
       \<lparr> tgv_digraph = empty_adjacency, tgv_source = 0, tgv_node_to_task = empty_many_to_one,
         tgv_node_to_layer = empty_bidict, tgv_node_to_devices = Map.empty \<rparr>) (\<lambda>st.
     res_bind (add_edge_tasks get_coord_mapping pcg machine_views (sorted_list_of_set (pcg_get_edges pcg)) st) (\<lambda>st.
     Inr \<lparr> ptg_graph = view_of_adjacency (tgv_digraph st), ptg_node_to_task = tgv_node_to_task st,
           ptg_node_to_devices = tgv_node_to_devices st \<rparr>))"
section \<open>What the task graph holds\<close>

text \<open>The task and the devices of a layer.\<close>

definition is_layer_task ::
    "parallel_computation_graph \<Rightarrow> machine_mapping \<Rightarrow> parallel_layer_guid \<Rightarrow> pcg_task \<Rightarrow>
     machine_space_coordinate set \<Rightarrow> bool" where
  "is_layer_task pcg machine_views l task devices \<longleftrightarrow> (\<exists>mv key ts. machine_views l = Some mv \<and>
     get_mapped_runtime_only_op_cost_estimate_key_for_layer pcg l mv = Inr key \<and> task = PT_operator key \<and>
     pcg_get_operator_task_space pcg l = Inr ts \<and> get_machine_space_coordinates ts mv = Inr devices)"

definition devices_of :: "pcg_task_graph \<Rightarrow> node \<Rightarrow> machine_space_coordinate set" where
  "devices_of tg n = (case ptg_node_to_devices tg n of None \<Rightarrow> {} | Some devices \<Rightarrow> devices)"

text \<open>
  The invariant of the two loops, after the layers \<open>ls\<close> and the edges \<open>es\<close>: \<open>edge_of\<close> tells which edge the
  node of a movement was made for.
\<close>

definition task_vars_ok ::
    "parallel_computation_graph \<Rightarrow> machine_mapping \<Rightarrow> parallel_layer_guid set \<Rightarrow> parallel_computation_graph_edge set \<Rightarrow>
     (node \<Rightarrow> parallel_computation_graph_edge) \<Rightarrow> task_graph_vars \<Rightarrow> bool" where
  "task_vars_ok pcg machine_views ls es edge_of st \<longleftrightarrow>
     (let fwd = fwd_map (tgv_node_to_layer st); bwd = bwd_map (tgv_node_to_layer st);
          edges = get_edges (view_of_adjacency (tgv_digraph st)) in
      finite ls \<and> finite es \<and> tgv_source st = card ls + card es \<and>
      wf_adjacency (tgv_digraph st) \<and> dom (tgv_digraph st) = {..<tgv_source st} \<and>
      dom (mto_l_to_r (tgv_node_to_task st)) = {..<tgv_source st} \<and> dom (tgv_node_to_devices st) = {..<tgv_source st} \<and>
      wf_bidict (tgv_node_to_layer st) \<and> dom bwd = ls \<and> dom fwd \<subseteq> {..<tgv_source st} \<and>
      (\<forall>l n. bwd l = Some n \<longrightarrow> is_layer_task pcg machine_views l (the (mto_l_to_r (tgv_node_to_task st) n))
         (the (tgv_node_to_devices st n))) \<and>
      (\<forall>n < tgv_source st. fwd n = None \<longrightarrow> edge_of n \<in> es \<and> tgv_node_to_devices st n = Some {} \<and>
         (\<exists>m. mto_l_to_r (tgv_node_to_task st) n = Some (PT_tensor_movement m))) \<and>
      (\<forall>a b. DirectedEdge a b \<in> edges \<longrightarrow>
         fwd a = Some (get_src_layer (edge_of b)) \<and> fwd b = None \<or>
         fwd a = None \<and> fwd b = Some (get_dst_layer (edge_of a))) \<and>
      (\<forall>e \<in> es. \<exists>n a b. n < tgv_source st \<and> fwd n = None \<and> bwd (get_src_layer e) = Some a \<and>
         bwd (get_dst_layer e) = Some b \<and> DirectedEdge a n \<in> edges \<and> DirectedEdge n b \<in> edges))"

lemma task_vars_start:
  "task_vars_ok pcg views {} {} edge_of \<lparr> tgv_digraph = empty_adjacency, tgv_source = 0,
     tgv_node_to_task = empty_many_to_one, tgv_node_to_layer = empty_bidict, tgv_node_to_devices = Map.empty \<rparr>"
  by (simp add: task_vars_ok_def empty_adjacency_def empty_many_to_one_def empty_bidict_def wf_bidict_def
      wf_adjacency_def adjacency_edges Let_def)

lemma new_task_node:
  assumes "dom g = {..<s}" and "Suc s < 2 ^ 64" and "wf_adjacency g"
  shows "add_node g s = (s, add_node_unsafe g s, Suc s)" and "wf_adjacency (add_node_unsafe g s)"
    and "dom (add_node_unsafe g s) = {..<Suc s}"
    and "get_edges (view_of_adjacency (add_node_unsafe g s)) = get_edges (view_of_adjacency g)"
proof -
  show "add_node g s = (s, add_node_unsafe g s, Suc s)" using assms(2) by (simp add: add_node_def new_node_def)
  show "wf_adjacency (add_node_unsafe g s)" by (rule wf_add_node_unsafe [OF assms(3)])
  have "g s = None" using assms(1) by (metis domIff lessThan_iff less_irrefl)
  then show "dom (add_node_unsafe g s) = {..<Suc s}" using assms(1) by (simp add: add_node_unsafe_def lessThan_Suc)
  show "get_edges (view_of_adjacency (add_node_unsafe g s)) = get_edges (view_of_adjacency g)"
    by (auto simp: adjacency_edges add_node_unsafe_def)
qed

lemma new_task:
  fixes s :: node
  assumes "dom (mto_l_to_r m) = {..<s}" and "many_to_one_insert m s task = Inr m'"
  shows "mto_l_to_r m' = (mto_l_to_r m)(s \<mapsto> task)"
proof -
  have "s \<notin> dom (mto_l_to_r m)" using assms(1) by simp
  then have "mto_l_to_r m s = None" by (simp only: domIff not_not)
  then show ?thesis using assms(2) by (auto simp: many_to_one_insert_def)
qed

lemma new_layer:
  fixes s :: node
  assumes "wf_bidict b" and "dom (fwd_map b) \<subseteq> {..<s}" and "l \<notin> dom (bwd_map b)" and "equate b s l = Inr b'"
  shows "fwd_map b' = (fwd_map b)(s \<mapsto> l)" and "bwd_map b' = (bwd_map b)(l \<mapsto> s)" and "wf_bidict b'"
proof -
  have "s \<notin> dom (fwd_map b)" "l \<notin> dom (bwd_map b)" using assms(2,3) by auto
  then have "fwd_map b s = None" "bwd_map b l = None" by (simp_all only: domIff not_not)
  then show m: "fwd_map b' = (fwd_map b)(s \<mapsto> l)" "bwd_map b' = (bwd_map b)(l \<mapsto> s)"
    using assms(4) by (auto simp: equate_def contains_l_def contains_r_def map_insert_def)
  show "wf_bidict b'" using assms(1,4) by (rule wf_equate)
qed

lemma add_layer_task_ok:
  assumes ok: "task_vars_ok pcg views ls {} edge_of st" and step: "add_layer_task pcg views l st = Inr st'"
    and new: "l \<notin> ls" and room: "Suc (card ls) < 2 ^ 64"
  shows "task_vars_ok pcg views (insert l ls) {} edge_of st'"
proof -
  let ?s = "tgv_source st"
  note inv = ok [unfolded task_vars_ok_def Let_def]
  have s: "?s = card ls" and fin: "finite ls" and dom_g: "dom (tgv_digraph st) = {..<?s}" "wf_adjacency (tgv_digraph st)"
    and dom_t: "dom (mto_l_to_r (tgv_node_to_task st)) = {..<?s}" and dom_d: "dom (tgv_node_to_devices st) = {..<?s}"
    and bd: "wf_bidict (tgv_node_to_layer st)" "dom (fwd_map (tgv_node_to_layer st)) \<subseteq> {..<?s}"
      "dom (bwd_map (tgv_node_to_layer st)) = ls"
    and tasks: "\<And>l n. bwd_map (tgv_node_to_layer st) l = Some n \<Longrightarrow> is_layer_task pcg views l
      (the (mto_l_to_r (tgv_node_to_task st) n)) (the (tgv_node_to_devices st n))"
    and layers: "\<And>n. n < ?s \<Longrightarrow> fwd_map (tgv_node_to_layer st) n \<noteq> None"
    using inv by auto
  have room': "Suc ?s < 2 ^ 64" using room by (simp only: s)
  note node = new_task_node [OF dom_g(1) room' dom_g(2)]
  obtain mv key t b ts devices where step':
    "views l = Some mv" "get_mapped_runtime_only_op_cost_estimate_key_for_layer pcg l mv = Inr key"
    "many_to_one_insert (tgv_node_to_task st) ?s (PT_operator key) = Inr t"
    "equate (tgv_node_to_layer st) ?s l = Inr b" "pcg_get_operator_task_space pcg l = Inr ts"
    "get_machine_space_coordinates ts mv = Inr devices"
    "st' = \<lparr> tgv_digraph = add_node_unsafe (tgv_digraph st) ?s, tgv_source = Suc ?s, tgv_node_to_task = t,
       tgv_node_to_layer = b, tgv_node_to_devices = (tgv_node_to_devices st)(?s \<mapsto> devices) \<rparr>"
    using step unfolding add_layer_task_def node(1) by (auto simp: map_at_def split: option.splits)
  note t = new_task [OF dom_t step'(3)] and b = new_layer [OF bd(1,2) _ step'(4)]
  have "l \<notin> dom (bwd_map (tgv_node_to_layer st))" using new bd(3) by simp
  note b = b [OF this]
  have none: "get_edges (view_of_adjacency (tgv_digraph st)) = {}"
  proof -
    have "False" if "e \<in> get_edges (view_of_adjacency (tgv_digraph st))" for e
    proof -
      obtain x y where e: "e = DirectedEdge x y" by (cases e)
      then have "x \<in> dom (tgv_digraph st)" "y \<in> dom (tgv_digraph st)"
        using that dom_g(2) by (auto simp: adjacency_edges wf_adjacency_def)
      moreover have "fwd_map (tgv_node_to_layer st) x = None \<or> fwd_map (tgv_node_to_layer st) y = None"
        using inv that e by blast
      ultimately show False using layers dom_g(1) by auto
    qed
    then show ?thesis by blast
  qed
  have old: "n < ?s" if "bwd_map (tgv_node_to_layer st) l' = Some n" for l' n
    using that bd(1,2) by (auto simp: wf_bidict_def)
  have "is_layer_task pcg views l (PT_operator key) devices" using step' by (auto simp: is_layer_task_def)
  then have tasks': "is_layer_task pcg views l' (the (((mto_l_to_r (tgv_node_to_task st))(?s \<mapsto> PT_operator key)) n))
      (the (((tgv_node_to_devices st)(?s \<mapsto> devices)) n))"
    if "((bwd_map (tgv_node_to_layer st))(l \<mapsto> ?s)) l' = Some n" for l' n
    using that tasks [of l' n] old [of l' n] by (auto split: if_splits)
  show ?thesis
    unfolding task_vars_ok_def Let_def step'(7) task_graph_vars.simps node(4) none t b(1,2)
    using fin new s node(2,3) dom_t dom_d b(3) bd(2,3) layers tasks' by (auto simp: lessThan_Suc less_Suc_eq)
qed

lemma add_edge_task_ok:
  assumes ok: "task_vars_ok pcg views ls es edge_of st" and step: "add_edge_task cm pcg views e st = Inr st'"
    and new: "e \<notin> es" and room: "Suc (card ls + card es) < 2 ^ 64"
  shows "\<exists>edge_of'. task_vars_ok pcg views ls (insert e es) edge_of' st'"
proof -
  let ?s = "tgv_source st" and ?bd = "tgv_node_to_layer st"
  note inv = ok [unfolded task_vars_ok_def Let_def]
  have s: "?s = card ls + card es" and fin: "finite ls" "finite es"
    and dom_g: "dom (tgv_digraph st) = {..<?s}" "wf_adjacency (tgv_digraph st)"
    and dom_t: "dom (mto_l_to_r (tgv_node_to_task st)) = {..<?s}" and dom_d: "dom (tgv_node_to_devices st) = {..<?s}"
    and bd: "wf_bidict ?bd" "dom (fwd_map ?bd) \<subseteq> {..<?s}" "dom (bwd_map ?bd) = ls"
    and tasks: "\<And>l n. bwd_map ?bd l = Some n \<Longrightarrow> is_layer_task pcg views l
      (the (mto_l_to_r (tgv_node_to_task st) n)) (the (tgv_node_to_devices st n))"
    and moves: "\<And>n. n < ?s \<Longrightarrow> fwd_map ?bd n = None \<Longrightarrow> edge_of n \<in> es \<and> tgv_node_to_devices st n = Some {} \<and>
         (\<exists>m. mto_l_to_r (tgv_node_to_task st) n = Some (PT_tensor_movement m))"
    and edges: "\<And>a b. DirectedEdge a b \<in> get_edges (view_of_adjacency (tgv_digraph st)) \<Longrightarrow>
         fwd_map ?bd a = Some (get_src_layer (edge_of b)) \<and> fwd_map ?bd b = None \<or>
         fwd_map ?bd a = None \<and> fwd_map ?bd b = Some (get_dst_layer (edge_of a))"
    and old: "\<And>e. e \<in> es \<Longrightarrow> \<exists>n a b. n < ?s \<and> fwd_map ?bd n = None \<and> bwd_map ?bd (get_src_layer e) = Some a \<and>
         bwd_map ?bd (get_dst_layer e) = Some b \<and> DirectedEdge a n \<in> get_edges (view_of_adjacency (tgv_digraph st)) \<and>
         DirectedEdge n b \<in> get_edges (view_of_adjacency (tgv_digraph st))"
    using inv by blast+
  have room': "Suc ?s < 2 ^ 64" using room by (simp only: s)
  note node = new_task_node [OF dom_g(1) room' dom_g(2)]
  obtain movement t a b g1 g2 where step':
    "many_to_one_insert (tgv_node_to_task st) ?s (PT_tensor_movement movement) = Inr t"
    "bwd_map ?bd (get_src_layer e) = Some a" "bwd_map ?bd (get_dst_layer e) = Some b"
    "add_edge (add_node_unsafe (tgv_digraph st) ?s) (DirectedEdge a ?s) = Inr g1"
    "add_edge g1 (DirectedEdge ?s b) = Inr g2"
    "st' = st\<lparr> tgv_digraph := g2, tgv_source := Suc ?s, tgv_node_to_task := t,
       tgv_node_to_devices := (tgv_node_to_devices st)(?s \<mapsto> {}) \<rparr>"
    using step unfolding add_edge_task_def node(1) by (auto simp: map_at_def split: option.splits)
  have sel: "tgv_digraph st' = g2" "tgv_source st' = Suc ?s" "tgv_node_to_task st' = t" "tgv_node_to_layer st' = ?bd"
    "tgv_node_to_devices st' = (tgv_node_to_devices st)(?s \<mapsto> {})" by (simp_all add: step'(6))
  note t = new_task [OF dom_t step'(1)]
  have ab: "fwd_map ?bd a = Some (get_src_layer e)" "fwd_map ?bd b = Some (get_dst_layer e)"
    using step'(2,3) bd(1) by (simp_all add: wf_bidict_def)
  then have less: "a < ?s" "b < ?s" using bd(2) by auto
  have s_none: "fwd_map ?bd ?s = None" using bd(2) by (metis domIff lessThan_iff less_irrefl subsetD)
  obtain g1' where "add_edge (add_node_unsafe (tgv_digraph st) ?s) (DirectedEdge a ?s) = Inr g1'" "wf_adjacency g1'"
    "dom g1' = {..<Suc ?s}" "get_edges (view_of_adjacency g1') =
      insert (DirectedEdge a ?s) (get_edges (view_of_adjacency (tgv_digraph st)))"
    using add_edge_eq [OF node(2), of "DirectedEdge a ?s"] less node(3,4) by auto
  then have g1: "wf_adjacency g1" "dom g1 = {..<Suc ?s}" "get_edges (view_of_adjacency g1) =
      insert (DirectedEdge a ?s) (get_edges (view_of_adjacency (tgv_digraph st)))" using step'(4) by simp_all
  obtain g2' where "add_edge g1 (DirectedEdge ?s b) = Inr g2'" "wf_adjacency g2'" "dom g2' = {..<Suc ?s}"
    "get_edges (view_of_adjacency g2') = insert (DirectedEdge ?s b) (insert (DirectedEdge a ?s)
      (get_edges (view_of_adjacency (tgv_digraph st))))"
    using add_edge_eq [OF g1(1), of "DirectedEdge ?s b"] less g1(2,3) by auto
  then have g2: "wf_adjacency g2" "dom g2 = {..<Suc ?s}" "get_edges (view_of_adjacency g2) =
      insert (DirectedEdge ?s b) (insert (DirectedEdge a ?s) (get_edges (view_of_adjacency (tgv_digraph st))))"
    using step'(5) by simp_all
  have not_s: "x \<noteq> ?s \<and> y \<noteq> ?s" if "DirectedEdge x y \<in> get_edges (view_of_adjacency (tgv_digraph st))" for x y
  proof -
    have "x \<in> dom (tgv_digraph st)" "y \<in> dom (tgv_digraph st)"
      using that dom_g(2) by (auto simp: adjacency_edges wf_adjacency_def)
    then show ?thesis using dom_g(1) by auto
  qed
  have layer_less: "n < ?s" if "bwd_map ?bd l = Some n" for l n
    using that bd(1,2) by (auto simp: wf_bidict_def)
  have "task_vars_ok pcg views ls (insert e es) (edge_of(?s := e)) st'"
    unfolding task_vars_ok_def Let_def sel g2(3) t
  proof (intro conjI allI ballI impI)
    fix l n assume l: "bwd_map ?bd l = Some n"
    show "is_layer_task pcg views l (the (((mto_l_to_r (tgv_node_to_task st))(?s \<mapsto> PT_tensor_movement movement)) n))
      (the (((tgv_node_to_devices st)(?s \<mapsto> {})) n))" using tasks [OF l] layer_less [OF l] by simp
  next
    fix n assume n: "n < Suc ?s" "fwd_map ?bd n = None"
    show "(edge_of(?s := e)) n \<in> insert e es" "((tgv_node_to_devices st)(?s \<mapsto> {})) n = Some {}"
      "\<exists>m. ((mto_l_to_r (tgv_node_to_task st))(?s \<mapsto> PT_tensor_movement movement)) n = Some (PT_tensor_movement m)"
      using moves [of n] n by (auto simp: less_Suc_eq)
  next
    fix x y
    assume "DirectedEdge x y \<in> insert (DirectedEdge ?s b) (insert (DirectedEdge a ?s)
      (get_edges (view_of_adjacency (tgv_digraph st))))"
    then consider "x = ?s" "y = b" | "x = a" "y = ?s" | "DirectedEdge x y \<in> get_edges (view_of_adjacency (tgv_digraph st))"
      by auto
    then show "fwd_map ?bd x = Some (get_src_layer ((edge_of(?s := e)) y)) \<and> fwd_map ?bd y = None \<or>
         fwd_map ?bd x = None \<and> fwd_map ?bd y = Some (get_dst_layer ((edge_of(?s := e)) x))"
      using ab s_none edges [of x y] not_s [of x y] by cases simp_all
  next
    fix e' assume "e' \<in> insert e es"
    then consider "e' = e" | "e' \<in> es" by blast
    then show "\<exists>n a' b'. n < Suc ?s \<and> fwd_map ?bd n = None \<and> bwd_map ?bd (get_src_layer e') = Some a' \<and>
         bwd_map ?bd (get_dst_layer e') = Some b' \<and> DirectedEdge a' n \<in> insert (DirectedEdge ?s b)
           (insert (DirectedEdge a ?s) (get_edges (view_of_adjacency (tgv_digraph st)))) \<and>
         DirectedEdge n b' \<in> insert (DirectedEdge ?s b) (insert (DirectedEdge a ?s)
           (get_edges (view_of_adjacency (tgv_digraph st))))"
    proof cases
      case 1
      then show ?thesis using step'(2,3) s_none by (intro exI [of _ ?s] exI [of _ a] exI [of _ b]) simp
    next
      case 2
      then show ?thesis using old by (meson insertCI less_SucI)
    qed
  qed (use fin new s g2(1,2) dom_t dom_d bd in \<open>auto simp: lessThan_Suc\<close>)
  then show ?thesis by blast
qed

lemma add_layer_tasks_ok:
  "task_vars_ok pcg views ls {} edge_of st \<Longrightarrow> add_layer_tasks pcg views layers st = Inr st' \<Longrightarrow>
     distinct layers \<Longrightarrow> set layers \<inter> ls = {} \<Longrightarrow> card ls + length layers < 2 ^ 64 \<Longrightarrow>
     task_vars_ok pcg views (set layers \<union> ls) {} edge_of st'"
proof (induction layers arbitrary: ls st)
  case (Cons l layers)
  obtain st1 where st1: "add_layer_task pcg views l st = Inr st1" "add_layer_tasks pcg views layers st1 = Inr st'"
    using Cons.prems(2) by auto
  have l: "l \<notin> ls" "Suc (card ls) < 2 ^ 64" using Cons.prems(4,5) by auto
  have "finite ls" using Cons.prems(1) by (simp add: task_vars_ok_def Let_def)
  then have room: "card (insert l ls) + length layers < 2 ^ 64" using l(1) Cons.prems(5) by simp
  have "task_vars_ok pcg views (set layers \<union> insert l ls) {} edge_of st'"
    using Cons.prems(3,4) by (intro Cons.IH [OF add_layer_task_ok [OF Cons.prems(1) st1(1) l] st1(2) _ _ room]) auto
  then show ?case by simp
qed simp

lemma add_edge_tasks_ok:
  "task_vars_ok pcg views ls es edge_of st \<Longrightarrow> add_edge_tasks cm pcg views edges st = Inr st' \<Longrightarrow>
     distinct edges \<Longrightarrow> set edges \<inter> es = {} \<Longrightarrow> card ls + card es + length edges < 2 ^ 64 \<Longrightarrow>
     \<exists>edge_of'. task_vars_ok pcg views ls (set edges \<union> es) edge_of' st'"
proof (induction edges arbitrary: es edge_of st)
  case (Cons e edges)
  obtain st1 where st1: "add_edge_task cm pcg views e st = Inr st1" "add_edge_tasks cm pcg views edges st1 = Inr st'"
    using Cons.prems(2) by auto
  have e: "e \<notin> es" "Suc (card ls + card es) < 2 ^ 64" using Cons.prems(4,5) by auto
  obtain edge_of1 where ok1: "task_vars_ok pcg views ls (insert e es) edge_of1 st1"
    using add_edge_task_ok [OF Cons.prems(1) st1(1) e] by blast
  have "finite es" using Cons.prems(1) by (simp add: task_vars_ok_def Let_def)
  then have room: "card ls + card (insert e es) + length edges < 2 ^ 64" using e(1) Cons.prems(5) by simp
  have "\<exists>edge_of'. task_vars_ok pcg views ls (set edges \<union> insert e es) edge_of' st'"
    using Cons.prems(3,4) by (intro Cons.IH [OF ok1 st1(2) _ _ room]) auto
  then show ?case by simp
qed auto

text \<open>Every node of the graph has a task and devices, a movement has none, and the graph has no cycle.\<close>

definition wf_task_graph :: "pcg_task_graph \<Rightarrow> bool" where
  "wf_task_graph tg \<longleftrightarrow> wf_digraph_view (ptg_graph tg) \<and> acyclic (edge_rel (ptg_graph tg)) \<and>
     (\<forall>n \<in> get_nodes (ptg_graph tg). \<exists>task devices. mto_l_to_r (ptg_node_to_task tg) n = Some task \<and>
        ptg_node_to_devices tg n = Some devices \<and> (\<forall>m. task = PT_tensor_movement m \<longrightarrow> devices = {}))"

lemma acyclic_by_rank:
  fixes rank :: "'a \<Rightarrow> nat"
  shows "(\<And>a b. (a, b) \<in> r \<Longrightarrow> rank a < rank b) \<Longrightarrow> acyclic r"
  by (rule wf_acyclic, rule wf_subset [OF wf_measure [of rank]]) auto

text \<open>The node of a layer is \<open>node_of\<close>; all other nodes are movements.\<close>

lemma task_vars_finish:
  assumes ok: "task_vars_ok pcg views ls es edge_of st"
    and forward: "\<And>e. e \<in> es \<Longrightarrow> get_src_layer e < get_dst_layer e"
    and tg: "tg = \<lparr> ptg_graph = view_of_adjacency (tgv_digraph st), ptg_node_to_task = tgv_node_to_task st,
           ptg_node_to_devices = tgv_node_to_devices st \<rparr>"
  obtains node_of where "wf_task_graph tg" and "inj_on node_of ls"
    and "card (get_nodes (ptg_graph tg)) = card ls + card es"
    and "\<And>l. l \<in> ls \<Longrightarrow> node_of l \<in> get_nodes (ptg_graph tg) \<and> is_layer_task pcg views l
      (the (mto_l_to_r (ptg_node_to_task tg) (node_of l))) (devices_of tg (node_of l))"
    and "\<And>n. n \<in> get_nodes (ptg_graph tg) - node_of ` ls \<Longrightarrow>
      \<exists>m. mto_l_to_r (ptg_node_to_task tg) n = Some (PT_tensor_movement m)"
    and "\<And>e. e \<in> es \<Longrightarrow> \<exists>n. n \<in> get_nodes (ptg_graph tg) \<and>
      (node_of (get_src_layer e), n) \<in> edge_rel (ptg_graph tg) \<and> (n, node_of (get_dst_layer e)) \<in> edge_rel (ptg_graph tg)"
proof -
  note inv = ok [unfolded task_vars_ok_def Let_def]
  let ?bd = "tgv_node_to_layer st"
  define node_of where "node_of l = the (bwd_map ?bd l)" for l
  have s: "tgv_source st = card ls + card es" and dom_g: "dom (tgv_digraph st) = {..<tgv_source st}" "wf_adjacency (tgv_digraph st)"
    and dom_t: "dom (mto_l_to_r (tgv_node_to_task st)) = {..<tgv_source st}" and dom_d: "dom (tgv_node_to_devices st) = {..<tgv_source st}"
    and bd: "wf_bidict ?bd" "dom (fwd_map ?bd) \<subseteq> {..<tgv_source st}"
      "dom (bwd_map ?bd) = ls"
    and tasks: "\<And>l n. bwd_map ?bd l = Some n \<Longrightarrow> is_layer_task pcg views l
      (the (mto_l_to_r (tgv_node_to_task st) n)) (the (tgv_node_to_devices st n))"
    and moves: "\<And>n. n < tgv_source st \<Longrightarrow> fwd_map ?bd n = None \<Longrightarrow> edge_of n \<in> es \<and> tgv_node_to_devices st n = Some {} \<and>
         (\<exists>m. mto_l_to_r (tgv_node_to_task st) n = Some (PT_tensor_movement m))"
    and edges: "\<And>a b. DirectedEdge a b \<in> get_edges (view_of_adjacency (tgv_digraph st)) \<Longrightarrow>
         fwd_map ?bd a = Some (get_src_layer (edge_of b)) \<and> fwd_map ?bd b = None \<or>
         fwd_map ?bd a = None \<and> fwd_map ?bd b = Some (get_dst_layer (edge_of a))"
    and old: "\<And>e. e \<in> es \<Longrightarrow> \<exists>n a b. n < tgv_source st \<and> fwd_map ?bd n = None \<and> bwd_map ?bd (get_src_layer e) = Some a \<and>
         bwd_map ?bd (get_dst_layer e) = Some b \<and> DirectedEdge a n \<in> get_edges (view_of_adjacency (tgv_digraph st)) \<and>
         DirectedEdge n b \<in> get_edges (view_of_adjacency (tgv_digraph st))"
    using inv by blast+
  have nodes: "get_nodes (ptg_graph tg) = {..<tgv_source st}" by (simp add: tg adjacency_nodes dom_g(1))
  have rel: "edge_rel (ptg_graph tg) = {(a, b). DirectedEdge a b \<in> get_edges (view_of_adjacency (tgv_digraph st))}"
    by (simp add: tg edge_rel_def)
  have at: "bwd_map ?bd l = Some (node_of l)" "fwd_map ?bd (node_of l) = Some l" if "l \<in> ls" for l
  proof -
    obtain n where "bwd_map ?bd l = Some n" using \<open>l \<in> ls\<close> bd(3) by blast
    then show "bwd_map ?bd l = Some (node_of l)" "fwd_map ?bd (node_of l) = Some l"
      using bd(1) by (simp_all add: node_of_def wf_bidict_def)
  qed
  show thesis
  proof (rule that [of node_of])
    have "acyclic (edge_rel (ptg_graph tg))"
    proof (rule acyclic_by_rank)
      fix a b assume "(a, b) \<in> edge_rel (ptg_graph tg)"
      then have ab: "DirectedEdge a b \<in> get_edges (view_of_adjacency (tgv_digraph st))" by (simp add: rel)
      then have "a \<in> dom (tgv_digraph st)" using dom_g(2) by (auto simp: adjacency_edges)
      then have "a < tgv_source st" using dom_g(1) by simp
      then show "(case fwd_map ?bd a of Some l \<Rightarrow> 2 * l | None \<Rightarrow> 2 * get_src_layer (edge_of a) + 1) <
          (case fwd_map ?bd b of Some l \<Rightarrow> 2 * l | None \<Rightarrow> 2 * get_src_layer (edge_of b) + 1)"
        using edges [OF ab] moves [of a] forward by fastforce
    qed
    moreover have "\<exists>task devices. mto_l_to_r (ptg_node_to_task tg) n = Some task \<and>
        ptg_node_to_devices tg n = Some devices \<and> (\<forall>m. task = PT_tensor_movement m \<longrightarrow> devices = {})"
      if n: "n \<in> get_nodes (ptg_graph tg)" for n
    proof -
      have "n \<in> dom (mto_l_to_r (tgv_node_to_task st))" "n \<in> dom (tgv_node_to_devices st)" using n nodes dom_t dom_d by auto
      then obtain task devices where td: "mto_l_to_r (tgv_node_to_task st) n = Some task" "tgv_node_to_devices st n = Some devices"
        by blast
      have "devices = {}" if "task = PT_tensor_movement m" for m
      proof (cases "fwd_map ?bd n")
        case None
        then show ?thesis using moves [of n] n nodes td by simp
      next
        case (Some l)
        then have "bwd_map ?bd l = Some n" using bd(1) by (simp add: wf_bidict_def)
        from tasks [OF this] td that show ?thesis by (auto simp: is_layer_task_def)
      qed
      with td show ?thesis by (auto simp: tg)
    qed
    ultimately show "wf_task_graph tg"
      using wf_view_of_adjacency [OF dom_g(2)] unfolding wf_task_graph_def by (simp add: tg)
    show "inj_on node_of ls" using at(2) by (metis inj_onI option.inject)
    show "card (get_nodes (ptg_graph tg)) = card ls + card es" by (simp add: nodes s)
    show "node_of l \<in> get_nodes (ptg_graph tg) \<and> is_layer_task pcg views l
      (the (mto_l_to_r (ptg_node_to_task tg) (node_of l))) (devices_of tg (node_of l))" if "l \<in> ls" for l
    proof -
      have n: "node_of l < tgv_source st" using at(2) [OF that] bd(2) by auto
      then obtain devices where d: "tgv_node_to_devices st (node_of l) = Some devices" using dom_d by blast
      show ?thesis using tasks [OF at(1) [OF that]] n unfolding nodes devices_of_def by (simp add: tg d)
    qed
    show "\<exists>m. mto_l_to_r (ptg_node_to_task tg) n = Some (PT_tensor_movement m)"
      if n: "n \<in> get_nodes (ptg_graph tg) - node_of ` ls" for n
    proof -
      have "fwd_map ?bd n = None"
      proof (rule ccontr)
        assume "fwd_map ?bd n \<noteq> None"
        then obtain l where "bwd_map ?bd l = Some n" using bd(1) by (auto simp: wf_bidict_def)
        then have "l \<in> ls" "node_of l = n" using bd(3) by (auto simp: node_of_def)
        with n show False by blast
      qed
      then show ?thesis using moves [of n] n nodes by (simp add: tg)
    qed
    show "\<exists>n. n \<in> get_nodes (ptg_graph tg) \<and>
      (node_of (get_src_layer e), n) \<in> edge_rel (ptg_graph tg) \<and> (n, node_of (get_dst_layer e)) \<in> edge_rel (ptg_graph tg)"
      if "e \<in> es" for e
      using old [OF that] unfolding nodes rel by (auto simp: node_of_def)
  qed
qed

lemma get_pcg_task_graph_ok:
  assumes tg: "get_pcg_task_graph cm pcg views = Inr tg" and wf: "wf_kwarg_graph pcg made"
    and room: "card (pcg_get_parallel_layers pcg) + card (pcg_get_edges pcg) < 2 ^ 64"
  obtains node_of where "wf_task_graph tg" and "inj_on node_of (pcg_get_parallel_layers pcg)"
    and "card (get_nodes (ptg_graph tg)) = card (pcg_get_parallel_layers pcg) + card (pcg_get_edges pcg)"
    and "\<And>l. l \<in> pcg_get_parallel_layers pcg \<Longrightarrow> node_of l \<in> get_nodes (ptg_graph tg) \<and> is_layer_task pcg views l
      (the (mto_l_to_r (ptg_node_to_task tg) (node_of l))) (devices_of tg (node_of l))"
    and "\<And>n. n \<in> get_nodes (ptg_graph tg) - node_of ` pcg_get_parallel_layers pcg \<Longrightarrow>
      \<exists>m. mto_l_to_r (ptg_node_to_task tg) n = Some (PT_tensor_movement m)"
    and "\<And>e. e \<in> pcg_get_edges pcg \<Longrightarrow> \<exists>n. n \<in> get_nodes (ptg_graph tg) \<and>
      (node_of (get_src_layer e), n) \<in> edge_rel (ptg_graph tg) \<and> (n, node_of (get_dst_layer e)) \<in> edge_rel (ptg_graph tg)"
proof -
  let ?L = "pcg_get_parallel_layers pcg" and ?E = "pcg_get_edges pcg"
  have E: "?E = internal_edges pcg"
    by (auto simp: pcg_get_edges_def get_all_kwarg_dataflow_edges_def kwarg_dataflow_edge_query_all_def
        kwarg_dataflow_edge_query_includes_def)
  have fin: "finite ?L" "finite ?E"
    using wf_digraph_of_kwarg_graph(1) [OF wf] wf_kwarg_graphD(2) [OF wf]
    unfolding E pcg_get_parallel_layers_def pcg_digraph_def wf_digraph_view_def by blast+
  obtain st1 st where st: "add_layer_tasks pcg views (sorted_list_of_set ?L)
       \<lparr> tgv_digraph = empty_adjacency, tgv_source = 0, tgv_node_to_task = empty_many_to_one,
         tgv_node_to_layer = empty_bidict, tgv_node_to_devices = Map.empty \<rparr> = Inr st1"
    "add_edge_tasks cm pcg views (sorted_list_of_set ?E) st1 = Inr st"
    "tg = \<lparr> ptg_graph = view_of_adjacency (tgv_digraph st), ptg_node_to_task = tgv_node_to_task st,
           ptg_node_to_devices = tgv_node_to_devices st \<rparr>"
    using tg by (auto simp: get_pcg_task_graph_def)
  have "task_vars_ok pcg views (set (sorted_list_of_set ?L) \<union> {}) {} undefined st1"
    using room by (intro add_layer_tasks_ok [OF task_vars_start st(1)]) simp_all
  then have ok1: "task_vars_ok pcg views ?L {} undefined st1" using fin(1) by simp
  obtain edge_of where "task_vars_ok pcg views ?L (set (sorted_list_of_set ?E) \<union> {}) edge_of st"
    using add_edge_tasks_ok [OF ok1 st(2)] room by auto
  then have ok: "task_vars_ok pcg views ?L ?E edge_of st" using fin(2) by simp
  have forward: "get_src_layer e < get_dst_layer e" if "e \<in> ?E" for e
    using wf_kwarg_edge(3) [OF wf] that by (simp add: E get_src_layer_def get_dst_layer_def)
  show thesis by (rule task_vars_finish [OF ok forward st(3)]) (assumption | rule that; assumption)+
qed
section \<open>A small graph\<close>

text \<open>An input of four numbers and a ReLU of it, both on the first device.\<close>

definition example_pcg :: parallel_computation_graph where
  "example_pcg = (let shape = ParallelTensorShape (ParallelTensorDims [ShardParallelDim 4 1] (ReplicaParallelDimSet 1 1)) FLOAT;
       tensor = \<lparr> pta_shape = shape, pta_create_grad = Create_grad_NO \<rparr> in
     \<lparr> okg_graph_inputs = Map.empty,
       okg_nodes = [0 \<mapsto> \<lparr> pla_op_attrs = PCG_input (TensorShape [4] FLOAT), pla_name = None \<rparr>,
         1 \<mapsto> \<lparr> pla_op_attrs = PCG_element_unary \<lparr> eu_op_type = Op_RELU, eu_scalar = None \<rparr>, pla_name = None \<rparr>],
       okg_edges = {Open_internal_edge (KwargDataflowEdge (KwargDataflowOutput 0 Slot_OUTPUT) (KwargDataflowInput 1 Slot_INPUT))},
       okg_outputs = [KwargDataflowOutput 0 Slot_OUTPUT \<mapsto> tensor, KwargDataflowOutput 1 Slot_OUTPUT \<mapsto> tensor] \<rparr>)"

definition example_mapping :: machine_mapping where
  "example_mapping = (\<lambda>_. Some (MachineView (MachineSpaceCoordinate 0 0) []))"

definition example_coord_mapping :: coord_mapping_along_edge where
  "example_coord_mapping edge = equate empty_bidict [] []"

lemma example_internal_edges:
  "internal_edges example_pcg = {KwargDataflowEdge (KwargDataflowOutput 0 Slot_OUTPUT) (KwargDataflowInput 1 Slot_INPUT)}"
  by (auto simp: internal_edges_def example_pcg_def Let_def)

lemma example_pcg_wf: "wf_kwarg_graph example_pcg 2"
  unfolding wf_kwarg_graph_def example_internal_edges by (auto simp: example_pcg_def Let_def)

lemma example_pcg_parts:
  "pcg_get_parallel_layers example_pcg = {0, 1}"
  "pcg_get_edges example_pcg = {KwargDataflowEdge (KwargDataflowOutput 0 Slot_OUTPUT) (KwargDataflowInput 1 Slot_INPUT)}"
proof -
  have "pcg_get_parallel_layers example_pcg = dom (okg_nodes example_pcg)"
    using view_nodes_eq [of example_pcg] by (simp add: view_nodes_def pcg_get_parallel_layers_def pcg_digraph_def)
  then show "pcg_get_parallel_layers example_pcg = {0, 1}" by (auto simp: example_pcg_def Let_def)
  show "pcg_get_edges example_pcg = {KwargDataflowEdge (KwargDataflowOutput 0 Slot_OUTPUT) (KwargDataflowInput 1 Slot_INPUT)}"
    by (auto simp: pcg_get_edges_def get_all_kwarg_dataflow_edges_def example_internal_edges
        kwarg_dataflow_edge_query_all_def kwarg_dataflow_edge_query_includes_def)
qed

lemma example_pcg_tensors:
  "pcg_get_incoming_tensors example_pcg 0 = Map.empty"
  "pcg_get_incoming_tensors example_pcg 1 = [Slot_INPUT \<mapsto> KwargDataflowOutput 0 Slot_OUTPUT]"
  "n = 0 \<or> n = 1 \<Longrightarrow> pcg_get_outgoing_tensors example_pcg n = [Slot_OUTPUT \<mapsto> KwargDataflowOutput n Slot_OUTPUT]"
proof -
  have i: "pcg_get_incoming_tensors example_pcg n slot = Some out \<longleftrightarrow>
      n = 1 \<and> slot = Slot_INPUT \<and> out = KwargDataflowOutput 0 Slot_OUTPUT" for n slot out
    using incoming_outputs_iff [OF example_pcg_wf, of n slot out]
    by (auto simp: pcg_get_incoming_tensors_def incoming_outputs_def example_internal_edges)
  show "pcg_get_incoming_tensors example_pcg 0 = Map.empty"
    by (rule ext) (metis i not_Some_eq zero_neq_one)
  show "pcg_get_incoming_tensors example_pcg 1 = [Slot_INPUT \<mapsto> KwargDataflowOutput 0 Slot_OUTPUT]"
  proof
    fix slot
    show "pcg_get_incoming_tensors example_pcg 1 slot = [Slot_INPUT \<mapsto> KwargDataflowOutput 0 Slot_OUTPUT] slot"
      using i [of 1 slot] by (cases "pcg_get_incoming_tensors example_pcg 1 slot") auto
  qed
  show "pcg_get_outgoing_tensors example_pcg n = [Slot_OUTPUT \<mapsto> KwargDataflowOutput n Slot_OUTPUT]" if "n = 0 \<or> n = 1"
    using that outgoing_outputs_eq [of example_pcg n] wf_kwarg_graphD(3) [OF example_pcg_wf]
    by (auto simp: pcg_get_outgoing_tensors_def fun_eq_iff example_pcg_def Let_def)
qed

lemma example_pcg_attrs:
  "pcg_get_op_attrs example_pcg 0 = Inr (PCG_input (TensorShape [4] FLOAT))"
  "pcg_get_op_attrs example_pcg 1 = Inr (PCG_element_unary \<lparr> eu_op_type = Op_RELU, eu_scalar = None \<rparr>)"
  "n = 0 \<or> n = 1 \<Longrightarrow> get_parallel_tensor_shape example_pcg (KwargDataflowOutput n Slot_OUTPUT) =
     Inr (ParallelTensorShape (ParallelTensorDims [ShardParallelDim 4 1] (ReplicaParallelDimSet 1 1)) FLOAT)"
  by (auto simp: pcg_get_op_attrs_def get_parallel_layer_attrs_def node_label_at_def get_parallel_tensor_shape_def
      get_parallel_tensor_attrs_def example_pcg_def Let_def)

lemma example_pcg_inputs:
  "pcg_get_incoming_inputs example_pcg 0 = Inr Map.empty" "pcg_get_incoming_weights example_pcg 0 = Inr Map.empty"
  "pcg_get_incoming_inputs example_pcg 1 = Inr [Slot_INPUT \<mapsto> KwargDataflowOutput 0 Slot_OUTPUT]"
  "pcg_get_incoming_weights example_pcg 1 = Inr Map.empty"
  by (simp_all add: pcg_get_incoming_inputs_def pcg_get_incoming_weights_def pcg_get_incoming_tensors_with_role_def
      example_pcg_attrs example_pcg_tensors filter_values_def dom_def Let_def del: One_nat_def)

lemma example_pcg_task_spaces:
  "pcg_get_operator_task_space example_pcg 0 = Inr []"
  "pcg_get_operator_task_space example_pcg 1 = Inr []"
proof -
  have "element_unary_get_operator_task_space \<lparr> eu_op_type = Op_RELU, eu_scalar = None \<rparr>
     (get_parallel_degrees (ParallelTensorShape (ParallelTensorDims [ShardParallelDim 4 1] (ReplicaParallelDimSet 1 1)) FLOAT)) = Inr []"
  proof -
    have "element_unary_get_output_parallel_dim_degrees \<lparr> eu_op_type = Op_RELU, eu_scalar = None \<rparr>
       (get_parallel_degrees (ParallelTensorShape (ParallelTensorDims [ShardParallelDim 4 1] (ReplicaParallelDimSet 1 1)) FLOAT)) =
       Inr \<lparr> ptdd_sum_degree = 1, ptdd_discard_copy_degree = 1, ptdd_shard_degrees = [1] \<rparr>" by code_simp
    then show ?thesis
      by (simp add: element_unary_get_operator_task_space_def matching_task_space_eq degrees_in_order_def INT_MAX_def)
  qed
  then show "pcg_get_operator_task_space example_pcg 1 = Inr []"
    by (simp add: pcg_get_operator_task_space_def example_pcg_inputs example_pcg_attrs get_incoming_input_degrees_def
        map_values_def map_entries_def require_only_key_def map_at_def
        del: One_nat_def)
  show "pcg_get_operator_task_space example_pcg 0 = Inr []"
    by (simp add: pcg_get_operator_task_space_def example_pcg_inputs example_pcg_attrs get_incoming_input_degrees_def
        map_values_def map_entries_def input_get_operator_task_space_def trivial_op_task_space_def)
qed

lemma example_key:
  assumes "l = 0 \<or> l = 1"
  shows "\<exists>key. get_mapped_runtime_only_op_cost_estimate_key_for_layer example_pcg l mv = Inr key"
  using assms
  by (auto simp: get_mapped_runtime_only_op_cost_estimate_key_for_layer_def example_pcg_inputs example_pcg_attrs
      get_unmapped_runtime_only_op_cost_estimate_key_for_layer_def example_pcg_tensors map_values_def map_entries_def
      Let_def simp del: One_nat_def)

lemma example_devices:
  "get_machine_space_coordinate [] (MachineView (MachineSpaceCoordinate 0 0) []) [] = Inr (MachineSpaceCoordinate 0 0)"
  "get_machine_space_coordinates [] (MachineView (MachineSpaceCoordinate 0 0) []) = Inr {MachineSpaceCoordinate 0 0}"
  by code_simp+

lemma example_movement:
  "\<exists>movement. get_tensor_set_movement_from_pcg_edge example_coord_mapping
     (KwargDataflowEdge (KwargDataflowOutput 0 Slot_OUTPUT) (KwargDataflowInput 1 Slot_INPUT)) example_pcg
     (MachineView (MachineSpaceCoordinate 0 0) []) (MachineView (MachineSpaceCoordinate 0 0) []) = Inr movement"
proof -
  have size: "get_size_in_bytes (get_piece_shape (ParallelTensorShape
      (ParallelTensorDims [ShardParallelDim 4 1] (ReplicaParallelDimSet 1 1)) FLOAT)) = Inr 16" by code_simp
  show ?thesis
    by (simp add: get_tensor_set_movement_from_pcg_edge_def get_abstracted_single_tensor_movement_along_edge_def
        example_coord_mapping_def edge_get_parallel_tensor_def get_src_layer_def get_dst_layer_def example_pcg_attrs
        example_pcg_task_spaces size
        equate_def contains_l_def contains_r_def map_insert_def bidict_entries_def empty_bidict_def map_from_pairs_def
        concretize_abstracted_tensor_set_movement_def abstracted_tensor_set_movement_from_single_tensor_movement_def
        concretize_abstracted_single_tensor_movement_def concretize_abstracted_single_tensor_communication_edge_def
        concretize_abstracted_device_def machine_space_stencil_compute_machine_coord_def example_devices
        merge_tensor_set_movements_def binary_merge_maps_with_def empty_tensor_set_movement_def
        map_entries_def filtermap_keys_def generate_map_def map_at_def Let_def del: One_nat_def)
qed

lemma example_task_graph: "\<exists>tg. get_pcg_task_graph example_coord_mapping example_pcg example_mapping = Inr tg"
proof -
  obtain key0 key1 where key: "get_mapped_runtime_only_op_cost_estimate_key_for_layer example_pcg 0
      (MachineView (MachineSpaceCoordinate 0 0) []) = Inr key0"
    "get_mapped_runtime_only_op_cost_estimate_key_for_layer example_pcg 1
      (MachineView (MachineSpaceCoordinate 0 0) []) = Inr key1"
    using example_key [of 0] example_key [of 1] by blast
  obtain movement where movement: "get_tensor_set_movement_from_pcg_edge example_coord_mapping
     (KwargDataflowEdge (KwargDataflowOutput 0 Slot_OUTPUT) (KwargDataflowInput 1 Slot_INPUT)) example_pcg
     (MachineView (MachineSpaceCoordinate 0 0) []) (MachineView (MachineSpaceCoordinate 0 0) []) = Inr movement"
    using example_movement by blast
  have layers: "sorted_list_of_set {0, 1 :: nat} = [0, 1]" by code_simp
  show ?thesis
    by (simp add: get_pcg_task_graph_def example_pcg_parts layers add_layer_task_def add_edge_task_def example_mapping_def
        key movement example_pcg_task_spaces example_devices get_src_layer_def get_dst_layer_def
        add_node_def new_node_def add_node_unsafe_def empty_adjacency_def many_to_one_insert_def empty_many_to_one_def
        equate_def contains_l_def contains_r_def map_insert_def empty_bidict_def add_edge_def map_at_def Let_def
        del: One_nat_def split: option.split)
qed

end
