(* ===== verification/Task_Simulator.thy ===== *)
theory Task_Simulator
  imports Digraph_Traversal PCG_Task_Graph
begin

text \<open>
  The task graph simulator of \<open>lib/compiler\<close>: the deduplicated priority queue of \<open>lib/utils\<close>, the
  discrete-event loop of \<open>simulate_task_graph_execution.cc\<close>, the length of a trace, and \<open>task_simulator.cc\<close>,
  which runs it on the task graph of \<open>PCG_Task_Graph\<close>. The times are \<open>float\<close>s in the code, here an ordered type with
  an addition; the theorems ask of it only that adding the cost of a task does not make a time smaller.

  The queue is the provider of the locale \<open>event_queue\<close>, the simulation its client. One step of the loop
  is \<open>start_ready_tasks\<close>, then \<open>finish_task_processing\<close> of the task that ends first; \<open>schedule_ok\<close> is the
  invariant of the loop, about the records of all tasks that have started.
\<close>

section \<open>The queue\<close>

record 't in_progress_task =
  ipt_start_time :: 't
  ipt_end_time :: 't
  ipt_node :: node

text \<open>\<open>InProgressTaskComparator\<close>: the queue gives the greatest element first, which is the task that ends first.\<close>

definition task_compare :: "'t::linorder in_progress_task \<Rightarrow> 't in_progress_task \<Rightarrow> bool" where
  "task_compare lhs rhs \<longleftrightarrow> (ipt_end_time rhs, ipt_node rhs) < (ipt_end_time lhs, ipt_node lhs)"

text \<open>
  The elements of the \<open>std::priority_queue\<close> are a list in no particular order; \<open>seen\<close> is a \<open>std::set\<close>
  with the same comparison, which keeps the first of several equivalent elements.
\<close>

record 'e dpq =
  dpq_impl :: "'e list"
  dpq_seen :: "'e set"

definition equivalent :: "('e \<Rightarrow> 'e \<Rightarrow> bool) \<Rightarrow> 'e \<Rightarrow> 'e \<Rightarrow> bool" where
  "equivalent compare a b \<longleftrightarrow> \<not> compare a b \<and> \<not> compare b a"

definition set_insert :: "('e \<Rightarrow> 'e \<Rightarrow> bool) \<Rightarrow> 'e \<Rightarrow> 'e set \<Rightarrow> 'e set" where
  "set_insert compare e s = (if \<exists>x \<in> s. equivalent compare x e then s else insert e s)"

definition pq_top :: "('e \<Rightarrow> 'e \<Rightarrow> bool) \<Rightarrow> 'e list \<Rightarrow> 'e option" where
  "pq_top compare es =
     (case es of [] \<Rightarrow> None | x # xs \<Rightarrow> Some (foldl (\<lambda>m y. if compare m y then y else m) x xs))"

definition dpq_empty :: "'e dpq" where
  "dpq_empty = \<lparr> dpq_impl = [], dpq_seen = {} \<rparr>"

definition dpq_is_empty :: "'e dpq \<Rightarrow> bool" where
  "dpq_is_empty q \<longleftrightarrow> dpq_impl q = []"

text \<open>\<open>top\<close> of an empty queue, which C++ leaves undefined, is \<open>None\<close>.\<close>

definition dpq_top :: "('e \<Rightarrow> 'e \<Rightarrow> bool) \<Rightarrow> 'e dpq \<Rightarrow> 'e option" where
  "dpq_top compare q = pq_top compare (dpq_impl q)"

definition dpq_push :: "('e \<Rightarrow> 'e \<Rightarrow> bool) \<Rightarrow> 'e \<Rightarrow> 'e dpq \<Rightarrow> 'e dpq" where
  "dpq_push compare e q =
     (if e \<notin> dpq_seen q
      then \<lparr> dpq_impl = dpq_impl q @ [e], dpq_seen = set_insert compare e (dpq_seen q) \<rparr>
      else q)"

definition dpq_pop :: "('e \<Rightarrow> 'e \<Rightarrow> bool) \<Rightarrow> 'e dpq \<Rightarrow> 'e dpq" where
  "dpq_pop compare q =
     (case dpq_top compare q of
        None \<Rightarrow> q
      | Some e \<Rightarrow> \<lparr> dpq_impl = remove1 e (dpq_impl q), dpq_seen = {x \<in> dpq_seen q. \<not> equivalent compare x e} \<rparr>)"

text \<open>\<open>contents\<close> pops a copy until it is empty.\<close>

primrec drain :: "('e \<Rightarrow> 'e \<Rightarrow> bool) \<Rightarrow> nat \<Rightarrow> 'e list \<Rightarrow> 'e set \<Rightarrow> 'e set" where
  "drain compare 0 temp result = result"
| "drain compare (Suc k) temp result =
     (case pq_top compare temp of
        None \<Rightarrow> result
      | Some e \<Rightarrow> drain compare k (remove1 e temp) (set_insert compare e result))"

definition dpq_contents :: "('e \<Rightarrow> 'e \<Rightarrow> bool) \<Rightarrow> 'e dpq \<Rightarrow> 'e set" where
  "dpq_contents compare q = drain compare (length (dpq_impl q)) (dpq_impl q) {}"

section \<open>The simulation\<close>

record 't task_graph_execution_state =
  ready_tasks :: "node set"
  in_progress_tasks :: "'t in_progress_task dpq"
  finished_tasks :: "node set"
  current_time :: 't

record 't task_profile =
  tp_node :: node
  tp_start_time :: 't
  tp_end_time :: 't

type_synonym task_execution_constraint = "node \<Rightarrow> node set \<Rightarrow> node set \<Rightarrow> bool res"

definition start_task_processing ::
    "(node \<Rightarrow> 't res) \<Rightarrow> node \<Rightarrow> 't::{linorder, plus} task_graph_execution_state \<Rightarrow>
     't task_graph_execution_state res" where
  "start_task_processing cost_function task st =
     res_bind (cost_function task) (\<lambda>cost.
     let in_progress = \<lparr> ipt_start_time = current_time st, ipt_end_time = current_time st + cost, ipt_node = task \<rparr>
     in Inr (st\<lparr> in_progress_tasks := dpq_push task_compare in_progress (in_progress_tasks st),
                 ready_tasks := ready_tasks st - {task} \<rparr>))"

definition dependencies_are_satisfied ::
    "digraph_view \<Rightarrow> 't task_graph_execution_state \<Rightarrow> node \<Rightarrow> bool res" where
  "dependencies_are_satisfied task_graph st task =
     res_bind (get_predecessors task_graph task) (\<lambda>incoming_dependencies.
     Inr (incoming_dependencies \<subseteq> finished_tasks st))"

fun release_successors ::
    "digraph_view \<Rightarrow> node list \<Rightarrow> 't task_graph_execution_state \<Rightarrow> 't task_graph_execution_state res" where
  "release_successors task_graph [] st = Inr st"
| "release_successors task_graph (task # tasks) st =
     res_bind (dependencies_are_satisfied task_graph st task) (\<lambda>satisfied.
     release_successors task_graph tasks
       (if satisfied then st\<lparr> ready_tasks := insert task (ready_tasks st) \<rparr> else st))"

definition finish_task_processing ::
    "digraph_view \<Rightarrow> 't in_progress_task \<Rightarrow> 't task_graph_execution_state \<Rightarrow> 't task_profile set \<Rightarrow>
     ('t task_graph_execution_state \<times> 't task_profile set) res" where
  "finish_task_processing task_graph task st profiles =
     (let st = st\<lparr> finished_tasks := insert (ipt_node task) (finished_tasks st) \<rparr> in
      res_bind (get_successors task_graph (ipt_node task)) (\<lambda>successors.
      res_bind (release_successors task_graph (sorted_list_of_set successors) st) (\<lambda>st.
      let profile = \<lparr> tp_node = ipt_node task, tp_start_time = ipt_start_time task,
            tp_end_time = ipt_end_time task \<rparr>
      in Inr (st\<lparr> current_time := ipt_end_time task \<rparr>, insert profile profiles))))"

definition is_processing_done :: "'t task_graph_execution_state \<Rightarrow> bool" where
  "is_processing_done st \<longleftrightarrow> ready_tasks st = {} \<and> dpq_is_empty (in_progress_tasks st)"

text \<open>The loop over the copy of the ready tasks.\<close>

fun start_ready_tasks ::
    "(node \<Rightarrow> 't res) \<Rightarrow> task_execution_constraint \<Rightarrow> node list \<Rightarrow>
     't::{linorder, plus} task_graph_execution_state \<Rightarrow> 't task_graph_execution_state res" where
  "start_ready_tasks cost_function constraint [] st = Inr st"
| "start_ready_tasks cost_function constraint (task # tasks) st =
     (let raw_in_progress_tasks = ipt_node ` dpq_contents task_compare (in_progress_tasks st)
      in res_bind (constraint task raw_in_progress_tasks (finished_tasks st)) (\<lambda>satisfied.
         res_bind (if satisfied then start_task_processing cost_function task st else Inr st) (\<lambda>st.
         start_ready_tasks cost_function constraint tasks st)))"

partial_function (option) simulation_loop ::
    "digraph_view \<Rightarrow> (node \<Rightarrow> 't res) \<Rightarrow> task_execution_constraint \<Rightarrow>
     't::{linorder, plus} task_graph_execution_state \<Rightarrow> 't task_profile set \<Rightarrow>
     ('t task_graph_execution_state \<times> 't task_profile set) run" where
  "simulation_loop task_graph cost_function constraint st profiles =
     (if is_processing_done st then Some (Inr (st, profiles))
      else run_bind (Some (start_ready_tasks cost_function constraint (sorted_list_of_set (ready_tasks st)) st)) (\<lambda>st.
      case dpq_top task_compare (in_progress_tasks st) of
        Some next_task \<Rightarrow>
          run_bind (Some (finish_task_processing task_graph next_task
            (st\<lparr> in_progress_tasks := dpq_pop task_compare (in_progress_tasks st) \<rparr>) profiles)) (\<lambda>r.
          simulation_loop task_graph cost_function constraint (fst r) (snd r))
      | None \<Rightarrow> Some (Inl Runtime_error)))"

definition simulate_task_graph_execution ::
    "digraph_view \<Rightarrow> (node \<Rightarrow> 't::{linorder, plus, zero} res) \<Rightarrow> task_execution_constraint \<Rightarrow>
     't task_profile set run" where
  "simulate_task_graph_execution task_graph cost_function constraint =
     run_bind (is_acyclic task_graph) (\<lambda>acyc.
     if \<not> acyc then Some (Inl Runtime_error)
     else run_bind (simulation_loop task_graph cost_function constraint
         \<lparr> ready_tasks = get_initial_nodes task_graph, in_progress_tasks = dpq_empty, finished_tasks = {},
           current_time = 0 \<rparr> {}) (\<lambda>r.
     if card (finished_tasks (fst r)) \<noteq> num_nodes task_graph then Some (Inl Runtime_error)
     else Some (Inr (snd r))))"

definition get_total_execution_time :: "'t::{linorder, minus} task_profile set \<Rightarrow> 't res" where
  "get_total_execution_time trace =
     res_bind (ASSERT (trace \<noteq> {})) (\<lambda>_.
     let end_time = Max (tp_end_time ` trace); start_time = Min (tp_start_time ` trace)
     in Inr (end_time - start_time))"

section \<open>The queue keeps its promises\<close>

text \<open>
  What the simulation needs of its queue: a queue stands for a finite set of events, \<open>push\<close> adds an event
  whose key is new, \<open>top\<close> is an event with the least key and \<open>pop\<close> removes it.
\<close>

locale event_queue =
  fixes key :: "'e \<Rightarrow> 'k::linorder" and ok :: "'q \<Rightarrow> bool" and events :: "'q \<Rightarrow> 'e set" and none :: 'q
    and push :: "'e \<Rightarrow> 'q \<Rightarrow> 'q" and top_of :: "'q \<Rightarrow> 'e option" and pop :: "'q \<Rightarrow> 'q"
    and contents :: "'q \<Rightarrow> 'e set" and is_empty :: "'q \<Rightarrow> bool"
  assumes ok_none: "ok none" "events none = {}"
    and finite_events: "ok q \<Longrightarrow> finite (events q)"
    and key_inj: "ok q \<Longrightarrow> inj_on key (events q)"
    and push_ok: "ok q \<Longrightarrow> key e \<notin> key ` events q \<Longrightarrow> ok (push e q) \<and> events (push e q) = insert e (events q)"
    and top_None: "ok q \<Longrightarrow> top_of q = None \<longleftrightarrow> events q = {}"
    and top_Some: "ok q \<Longrightarrow> top_of q = Some e \<Longrightarrow> e \<in> events q \<and> (\<forall>x \<in> events q. key e \<le> key x)"
    and pop_ok: "ok q \<Longrightarrow> top_of q = Some e \<Longrightarrow> ok (pop q) \<and> events (pop q) = events q - {e}"
    and contents_eq: "ok q \<Longrightarrow> contents q = events q"
    and is_empty_eq: "ok q \<Longrightarrow> is_empty q \<longleftrightarrow> events q = {}"
begin

lemma next_event:
  assumes "ok q" and "events q \<noteq> {}"
  obtains e where "top_of q = Some e" "e \<in> events q" "\<forall>x \<in> events q. key e \<le> key x" "ok (pop q)"
    "events (pop q) = events q - {e}" "e \<notin> events (pop q)"
proof -
  obtain e where "top_of q = Some e" using top_None [OF assms(1)] assms(2) by (cases "top_of q") auto
  then show ?thesis using that top_Some [OF assms(1)] pop_ok [OF assms(1)] by blast
qed

lemma finite_none: "finite (events none)"
  by (rule finite_events [OF ok_none(1)])

end

definition task_key :: "'t in_progress_task \<Rightarrow> 't \<times> node" where
  "task_key t = (ipt_end_time t, ipt_node t)"

definition queue_ok :: "'t::linorder in_progress_task dpq \<Rightarrow> bool" where
  "queue_ok q \<longleftrightarrow> distinct (map task_key (dpq_impl q)) \<and> dpq_seen q = set (dpq_impl q)"

definition queue_events :: "'t in_progress_task dpq \<Rightarrow> 't in_progress_task set" where
  "queue_events q = set (dpq_impl q)"

lemma task_compare_key: "task_compare a b \<longleftrightarrow> task_key b < task_key a"
  by (simp add: task_compare_def task_key_def)

lemma equivalent_task: "equivalent task_compare a b \<longleftrightarrow> task_key a = task_key b"
  unfolding equivalent_def task_compare_key by (metis less_irrefl linorder_less_linear)

lemma pq_top_foldl:
  "foldl (\<lambda>m y. if task_compare m y then y else m) x xs \<in> insert x (set xs) \<and>
   (\<forall>y \<in> insert x (set xs). task_key (foldl (\<lambda>m y. if task_compare m y then y else m) x xs) \<le> task_key y)"
proof (induction xs arbitrary: x)
  case (Cons y ys)
  show ?case
  proof (cases "task_compare x y")
    case True
    then have "task_key y \<le> task_key x" by (simp add: task_compare_key)
    with True Cons [of y] show ?thesis by (auto intro: order.trans)
  next
    case False
    then have "task_key x \<le> task_key y" by (simp add: task_compare_key)
    with False Cons [of x] show ?thesis by (auto intro: order.trans)
  qed
qed simp

lemma pq_top_Some:
  "pq_top task_compare es = Some e \<Longrightarrow> e \<in> set es \<and> (\<forall>x \<in> set es. task_key e \<le> task_key x)"
  using pq_top_foldl [of "hd es" "tl es"] by (cases es) (auto simp: pq_top_def)

lemma pq_top_None: "pq_top compare es = None \<longleftrightarrow> es = []"
  by (simp add: pq_top_def split: list.split)

lemma drain_eq:
  "length es = k \<Longrightarrow> distinct (map task_key es) \<Longrightarrow> task_key ` set es \<inter> task_key ` s = {} \<Longrightarrow>
   drain task_compare k es s = set es \<union> s"
proof (induction k arbitrary: es s)
  case (Suc k)
  then obtain e where e: "pq_top task_compare es = Some e"
    using pq_top_None [of task_compare es] by (cases "pq_top task_compare es") auto
  then have in_es: "e \<in> set es" using pq_top_Some by blast
  have d: "distinct es" using Suc.prems(2) by (simp add: distinct_map)
  have ins: "set_insert task_compare e s = insert e s"
    using in_es Suc.prems(3) by (auto simp: set_insert_def equivalent_task)
  have "drain task_compare k (remove1 e es) (insert e s) = set (remove1 e es) \<union> insert e s"
  proof (rule Suc.IH)
    show "length (remove1 e es) = k" using Suc.prems(1) in_es by (simp add: length_remove1)
    have "inj_on task_key (set es)" using Suc.prems(2) by (simp add: distinct_map)
    then show "distinct (map task_key (remove1 e es))" "task_key ` set (remove1 e es) \<inter> task_key ` insert e s = {}"
      using d in_es Suc.prems(3) by (auto simp: distinct_map inj_on_def)
  qed
  then show ?case using e ins d in_es by auto
qed simp

interpretation task_queue: event_queue task_key queue_ok queue_events dpq_empty "dpq_push task_compare"
  "dpq_top task_compare" "dpq_pop task_compare" "dpq_contents task_compare" dpq_is_empty
proof
  fix q :: "'a::linorder in_progress_task dpq" and e
  show "queue_ok (dpq_empty :: 'a in_progress_task dpq)" "queue_events (dpq_empty :: 'a in_progress_task dpq) = {}"
    by (simp_all add: queue_ok_def queue_events_def dpq_empty_def)
  show "finite (queue_events q)" by (simp add: queue_events_def)
  assume ok: "queue_ok q"
  then show inj: "inj_on task_key (queue_events q)" by (simp add: queue_ok_def queue_events_def distinct_map)
  show "dpq_top task_compare q = None \<longleftrightarrow> queue_events q = {}"
    by (simp add: dpq_top_def pq_top_None queue_events_def)
  show "dpq_contents task_compare q = queue_events q"
    using ok by (simp add: dpq_contents_def drain_eq queue_ok_def queue_events_def)
  show "dpq_is_empty q \<longleftrightarrow> queue_events q = {}" by (simp add: dpq_is_empty_def queue_events_def)
  show "queue_ok (dpq_push task_compare e q) \<and> queue_events (dpq_push task_compare e q) = insert e (queue_events q)"
    if new: "task_key e \<notin> task_key ` queue_events q"
  proof -
    have "\<forall>x \<in> queue_events q. task_key x \<noteq> task_key e" using new by (metis image_eqI)
    then have "e \<notin> dpq_seen q" "set_insert task_compare e (dpq_seen q) = insert e (dpq_seen q)"
      using ok by (auto simp: queue_ok_def queue_events_def set_insert_def equivalent_task)
    then show ?thesis using new ok by (auto simp: dpq_push_def queue_ok_def queue_events_def)
  qed
  assume top: "dpq_top task_compare q = Some e"
  then show e: "e \<in> queue_events q \<and> (\<forall>x \<in> queue_events q. task_key e \<le> task_key x)"
    unfolding dpq_top_def queue_events_def by (rule pq_top_Some)
  have d: "distinct (dpq_impl q)" using ok by (simp add: queue_ok_def distinct_map)
  have "{x \<in> dpq_seen q. \<not> equivalent task_compare x e} = queue_events q - {e}"
    using e inj ok unfolding queue_ok_def queue_events_def equivalent_task by (auto simp: inj_on_def)
  then show "queue_ok (dpq_pop task_compare q) \<and> queue_events (dpq_pop task_compare q) = queue_events q - {e}"
    using top d ok by (auto simp: dpq_pop_def queue_ok_def queue_events_def distinct_map inj_on_diff)
qed

section \<open>The invariant of the simulation\<close>

text \<open>
  The cost function and the constraint return on the nodes of the graph, adding a cost does not make a
  time smaller, and a task is not allowed while one it conflicts with is in progress.
\<close>

definition task_setup ::
    "digraph_view \<Rightarrow> (node \<Rightarrow> 't::{linorder, plus} res) \<Rightarrow> (node \<Rightarrow> 't) \<Rightarrow> task_execution_constraint \<Rightarrow>
     (node \<Rightarrow> node set \<Rightarrow> node set \<Rightarrow> bool) \<Rightarrow> (node \<Rightarrow> node \<Rightarrow> bool) \<Rightarrow> bool" where
  "task_setup g cost_function c constraint allowed conflict \<longleftrightarrow> wf_digraph_view g \<and>
     (\<forall>n \<in> get_nodes g. cost_function n = Inr (c n) \<and> (\<forall>t. t \<le> t + c n)) \<and>
     (\<forall>n \<in> get_nodes g. \<forall>R F. R \<subseteq> get_nodes g \<longrightarrow> F \<subseteq> get_nodes g \<longrightarrow> constraint n R F = Inr (allowed n R F)) \<and>
     (\<forall>n \<in> get_nodes g. \<forall>R F. R \<subseteq> get_nodes g \<longrightarrow> F \<subseteq> get_nodes g \<longrightarrow> allowed n R F \<longrightarrow>
        (\<forall>m \<in> R. \<not> conflict n m)) \<and>
     (\<forall>m n. conflict m n = conflict n m)"

definition running :: "'t task_graph_execution_state \<Rightarrow> node set" where
  "running st = ipt_node ` queue_events (in_progress_tasks st)"

definition record_of :: "'t in_progress_task \<Rightarrow> 't task_profile" where
  "record_of x = \<lparr> tp_node = ipt_node x, tp_start_time = ipt_start_time x, tp_end_time = ipt_end_time x \<rparr>"

definition started :: "'t task_graph_execution_state \<Rightarrow> 't task_profile set \<Rightarrow> 't task_profile set" where
  "started st profiles = profiles \<union> record_of ` queue_events (in_progress_tasks st)"

definition tasks_ok :: "digraph_view \<Rightarrow> 't::linorder task_graph_execution_state \<Rightarrow> 't task_profile set \<Rightarrow> bool" where
  "tasks_ok g st profiles \<longleftrightarrow>
     queue_ok (in_progress_tasks st) \<and> inj_on ipt_node (queue_events (in_progress_tasks st)) \<and>
     ready_tasks st \<union> running st \<union> finished_tasks st = {n \<in> get_nodes g. (edge_rel g)\<inverse> `` {n} \<subseteq> finished_tasks st} \<and>
     ready_tasks st \<inter> running st = {} \<and> ready_tasks st \<inter> finished_tasks st = {} \<and>
     running st \<inter> finished_tasks st = {} \<and>
     tp_node ` profiles = finished_tasks st \<and> inj_on tp_node profiles"

definition apart :: "(node \<Rightarrow> node \<Rightarrow> bool) \<Rightarrow> 't::linorder task_profile set \<Rightarrow> bool" where
  "apart conflict T \<longleftrightarrow> (\<forall>t \<in> T. \<forall>u \<in> T. conflict (tp_node t) (tp_node u) \<longrightarrow> tp_node t \<noteq> tp_node u \<longrightarrow>
     tp_end_time t \<le> tp_start_time u \<or> tp_end_time u \<le> tp_start_time t)"

lemma apart_insert:
  assumes "apart conflict T" and "\<And>a b. conflict a b = conflict b a"
    and "\<And>u. u \<in> T \<Longrightarrow> conflict (tp_node x) (tp_node u) \<Longrightarrow> tp_end_time u \<le> tp_start_time x"
  shows "apart conflict (insert x T)"
  using assms unfolding apart_def by (metis insert_iff)

definition times_ok ::
    "digraph_view \<Rightarrow> (node \<Rightarrow> 't) \<Rightarrow> (node \<Rightarrow> node \<Rightarrow> bool) \<Rightarrow> 't::{linorder, plus, zero} task_graph_execution_state \<Rightarrow>
     't task_profile set \<Rightarrow> bool" where
  "times_ok g c conflict st profiles \<longleftrightarrow> 0 \<le> current_time st \<and>
     (\<forall>p \<in> profiles. tp_end_time p \<le> current_time st) \<and>
     (\<forall>x \<in> queue_events (in_progress_tasks st). current_time st \<le> ipt_end_time x) \<and>
     (\<forall>t \<in> started st profiles. tp_end_time t = tp_start_time t + c (tp_node t) \<and>
        0 \<le> tp_start_time t \<and> tp_start_time t \<le> current_time st \<and>
        (\<forall>p \<in> profiles. (tp_node p, tp_node t) \<in> edge_rel g \<longrightarrow> tp_end_time p \<le> tp_start_time t)) \<and>
     apart conflict (started st profiles)"

definition schedule_ok ::
    "digraph_view \<Rightarrow> (node \<Rightarrow> 't) \<Rightarrow> (node \<Rightarrow> node \<Rightarrow> bool) \<Rightarrow> 't::{linorder, plus, zero} task_graph_execution_state \<Rightarrow>
     't task_profile set \<Rightarrow> bool" where
  "schedule_ok g c conflict st profiles \<longleftrightarrow> tasks_ok g st profiles \<and> times_ok g c conflict st profiles"

lemma record_of_sel [simp]:
  "tp_node (record_of x) = ipt_node x" "tp_start_time (record_of x) = ipt_start_time x"
  "tp_end_time (record_of x) = ipt_end_time x"
  by (simp_all add: record_of_def)

lemma running_subset: "tasks_ok g st profiles \<Longrightarrow> running st \<subseteq> get_nodes g"
  unfolding tasks_ok_def by blast

lemma finished_subset: "tasks_ok g st profiles \<Longrightarrow> finished_tasks st \<subseteq> get_nodes g"
  unfolding tasks_ok_def by blast

lemma ready_subset: "tasks_ok g st profiles \<Longrightarrow> ready_tasks st \<subseteq> get_nodes g"
  unfolding tasks_ok_def by blast

lemma contents_running:
  "tasks_ok g st profiles \<Longrightarrow> ipt_node ` dpq_contents task_compare (in_progress_tasks st) = running st"
  by (simp add: tasks_ok_def task_queue.contents_eq running_def)

text \<open>Starting a ready task that is allowed.\<close>

lemma start_task_ok:
  assumes hyps: "task_setup g cost_function c constraint allowed conflict"
    and ok: "schedule_ok g c conflict st profiles" and n: "n \<in> ready_tasks st"
    and free: "\<forall>m \<in> running st. \<not> conflict n m"
  shows "\<exists>st'. start_task_processing cost_function n st = Inr st' \<and> schedule_ok g c conflict st' profiles \<and>
    finished_tasks st' = finished_tasks st \<and> ready_tasks st' = ready_tasks st - {n} \<and>
    running st' = insert n (running st)"
proof -
  let ?x = "\<lparr> ipt_start_time = current_time st, ipt_end_time = current_time st + c n, ipt_node = n \<rparr>"
  let ?q = "in_progress_tasks st"
  let ?st' = "st\<lparr> in_progress_tasks := dpq_push task_compare ?x ?q, ready_tasks := ready_tasks st - {n} \<rparr>"
  have tasks: "tasks_ok g st profiles" and times: "times_ok g c conflict st profiles"
    using ok by (simp_all add: schedule_ok_def)
  have gn: "n \<in> get_nodes g" using n ready_subset [OF tasks] by blast
  then have cost: "cost_function n = Inr (c n)" "\<And>t. t \<le> t + c n" using hyps by (auto simp: task_setup_def)
  have sym: "conflict a b = conflict b a" for a b using hyps by (simp add: task_setup_def)
  have q: "queue_ok ?q" and new: "n \<notin> running st" "n \<notin> finished_tasks st"
    using tasks n unfolding tasks_ok_def by blast+
  have "task_key ?x \<notin> task_key ` queue_events ?q"
    using new(1) by (auto simp: task_key_def running_def)
  from task_queue.push_ok [OF q this]
  have push: "queue_ok (dpq_push task_compare ?x ?q)"
    "queue_events (dpq_push task_compare ?x ?q) = insert ?x (queue_events ?q)" by simp_all
  have run: "running ?st' = insert n (running st)" by (simp add: running_def push)
  have started: "started ?st' profiles = insert (record_of ?x) (started st profiles)" by (simp add: started_def push)
  have "inj_on ipt_node (insert ?x (queue_events ?q))"
    using tasks new(1) by (auto simp: tasks_ok_def running_def inj_on_insert)
  then have "tasks_ok g ?st' profiles"
    using tasks n new unfolding tasks_ok_def run push by (auto simp: push)
  moreover have "times_ok g c conflict ?st' profiles"
  proof -
    have finished: "tp_end_time p \<le> current_time st" if "p \<in> profiles" for p
      using times that by (simp add: times_ok_def)
    have other: "tp_end_time u \<le> current_time st" if "u \<in> started st profiles" "conflict n (tp_node u)" for u
    proof (cases "u \<in> profiles")
      case False
      then have "tp_node u \<in> running st" using that(1) by (auto simp: started_def running_def)
      with free that(2) show ?thesis by blast
    qed (rule finished)
    have "apart conflict (started ?st' profiles)"
      unfolding started using times sym other by (intro apart_insert) (auto simp: times_ok_def)
    then show ?thesis
      unfolding times_ok_def
      using times cost(2) finished by (auto simp: times_ok_def push started)
  qed
  ultimately show ?thesis using cost(1) run by (simp add: start_task_processing_def schedule_ok_def)
qed

text \<open>The loop over the ready tasks: if nothing is in progress, the first of them may start.\<close>

lemma start_ready_tasks_ok:
  assumes hyps: "task_setup g cost_function c constraint allowed conflict"
  shows "schedule_ok g c conflict st profiles \<Longrightarrow> distinct ns \<Longrightarrow> set ns \<subseteq> ready_tasks st \<Longrightarrow>
    \<exists>st'. start_ready_tasks cost_function constraint ns st = Inr st' \<and> schedule_ok g c conflict st' profiles \<and>
      finished_tasks st' = finished_tasks st \<and>
      (running st \<noteq> {} \<or> (\<exists>n \<in> set ns. allowed n {} (finished_tasks st)) \<longrightarrow> running st' \<noteq> {})"
proof (induction ns arbitrary: st)
  case (Cons n ns)
  have tasks: "tasks_ok g st profiles" using Cons.prems(1) by (simp add: schedule_ok_def)
  have n: "n \<in> ready_tasks st" "n \<in> get_nodes g" using Cons.prems(3) ready_subset [OF tasks] by auto
  have con: "constraint n (running st) (finished_tasks st) = Inr (allowed n (running st) (finished_tasks st))"
    using hyps n running_subset [OF tasks] finished_subset [OF tasks] by (simp add: task_setup_def)
  show ?case
  proof (cases "allowed n (running st) (finished_tasks st)")
    case True
    then have "\<forall>m \<in> running st. \<not> conflict n m"
      using hyps n running_subset [OF tasks] finished_subset [OF tasks] unfolding task_setup_def by blast
    from start_task_ok [OF hyps Cons.prems(1) n(1) this] obtain st1 where
      st1: "start_task_processing cost_function n st = Inr st1" "schedule_ok g c conflict st1 profiles"
        "finished_tasks st1 = finished_tasks st" "ready_tasks st1 = ready_tasks st - {n}"
        "running st1 = insert n (running st)" by blast
    have "set ns \<subseteq> ready_tasks st1" using Cons.prems(2,3) st1(4) by auto
    from Cons.IH [OF st1(2) _ this] Cons.prems(2) obtain st2 where
      "start_ready_tasks cost_function constraint ns st1 = Inr st2" "schedule_ok g c conflict st2 profiles"
      "finished_tasks st2 = finished_tasks st" "running st2 \<noteq> {}"
      using st1(3,5) by auto
    then show ?thesis using True con st1(1) by (simp add: contents_running [OF tasks])
  next
    case False
    from Cons.IH [OF Cons.prems(1)] Cons.prems(2,3) obtain st2 where
      st2: "start_ready_tasks cost_function constraint ns st = Inr st2" "schedule_ok g c conflict st2 profiles"
      "finished_tasks st2 = finished_tasks st"
      "running st \<noteq> {} \<or> (\<exists>n \<in> set ns. allowed n {} (finished_tasks st)) \<longrightarrow> running st2 \<noteq> {}"
      by auto
    have "running st \<noteq> {} \<or> (\<exists>m \<in> set (n # ns). allowed m {} (finished_tasks st)) \<longrightarrow> running st2 \<noteq> {}"
      using st2(4) False by (cases "running st = {}") auto
    with st2(1-3) False con show ?thesis by (simp add: contents_running [OF tasks])
  qed
qed simp

text \<open>Finishing the task that ends first.\<close>

lemma release_successors_eq:
  assumes "wf_digraph_view g"
  shows "release_successors g ns st = Inr (st\<lparr> ready_tasks :=
    ready_tasks st \<union> {n \<in> set ns. (edge_rel g)\<inverse> `` {n} \<subseteq> finished_tasks st} \<rparr>)"
proof (induction ns arbitrary: st)
  case (Cons n ns)
  show ?case
    by (auto simp: dependencies_are_satisfied_def get_predecessors_eq [OF assms] Cons insert_commute
        intro!: arg_cong [where f = "\<lambda>r. st\<lparr> ready_tasks := r \<rparr>"])
qed simp

lemma finish_task_ok:
  assumes wf: "wf_digraph_view g" and ok: "schedule_ok g c conflict st profiles"
    and top: "dpq_top task_compare (in_progress_tasks st) = Some e"
  shows "\<exists>st' profiles'. finish_task_processing g e
      (st\<lparr> in_progress_tasks := dpq_pop task_compare (in_progress_tasks st) \<rparr>) profiles = Inr (st', profiles') \<and>
    schedule_ok g c conflict st' profiles' \<and> finished_tasks st' = insert (ipt_node e) (finished_tasks st) \<and>
    ipt_node e \<in> get_nodes g - finished_tasks st"
proof -
  let ?q = "in_progress_tasks st" and ?n = "ipt_node e" and ?F = "finished_tasks st"
  let ?F' = "insert ?n ?F"
  let ?R' = "ready_tasks st \<union> {m \<in> edge_rel g `` {?n}. (edge_rel g)\<inverse> `` {m} \<subseteq> ?F'}"
  let ?st' = "st\<lparr> in_progress_tasks := dpq_pop task_compare ?q, finished_tasks := ?F', ready_tasks := ?R',
    current_time := ipt_end_time e \<rparr>"
  let ?p' = "insert (record_of e) profiles"
  have tasks: "tasks_ok g st profiles" and times: "times_ok g c conflict st profiles"
    using ok by (simp_all add: schedule_ok_def)
  have q: "queue_ok ?q" and inj: "inj_on ipt_node (queue_events ?q)" using tasks by (simp_all add: tasks_ok_def)
  have e: "e \<in> queue_events ?q" "\<And>x. x \<in> queue_events ?q \<Longrightarrow> task_key e \<le> task_key x"
    using task_queue.top_Some [OF q top] by blast+
  have pop: "queue_ok (dpq_pop task_compare ?q)" "queue_events (dpq_pop task_compare ?q) = queue_events ?q - {e}"
    using task_queue.pop_ok [OF q top] by blast+
  have n: "?n \<in> running st" using e(1) by (simp add: running_def)
  then have gn: "?n \<in> get_nodes g" "?n \<notin> ?F" using running_subset [OF tasks] tasks by (auto simp: tasks_ok_def)
  have run: "running ?st' = running st - {?n}"
    using e(1) inj by (auto simp: running_def pop inj_on_def)
  have started: "started ?st' ?p' = started st profiles"
    using e(1) by (auto simp: started_def pop)
  have ready: "(edge_rel g)\<inverse> `` {m} \<subseteq> ?F" if "m \<in> ready_tasks st \<union> running st \<union> ?F" for m
    using tasks that unfolding tasks_ok_def by blast
  have fresh: "m \<notin> ready_tasks st \<union> running st \<union> ?F" if "(?n, m) \<in> edge_rel g" for m
    using ready [of m] that gn(2) by blast
  have "tasks_ok g ?st' ?p'"
    unfolding tasks_ok_def run
  proof (intro conjI)
    show "queue_ok (in_progress_tasks ?st')" "inj_on ipt_node (queue_events (in_progress_tasks ?st'))"
      using pop inj by (auto intro: inj_on_subset)
    have "m \<in> ready_tasks st \<union> running st \<union> ?F \<longleftrightarrow> m \<in> get_nodes g \<and> (edge_rel g)\<inverse> `` {m} \<subseteq> ?F" for m
      using tasks unfolding tasks_ok_def by blast
    then show "ready_tasks ?st' \<union> (running st - {?n}) \<union> finished_tasks ?st' =
        {m \<in> get_nodes g. (edge_rel g)\<inverse> `` {m} \<subseteq> finished_tasks ?st'}"
      using n gn wf_endpoints(2) [OF wf] by auto
    show "ready_tasks ?st' \<inter> (running st - {?n}) = {}" "ready_tasks ?st' \<inter> finished_tasks ?st' = {}"
      "(running st - {?n}) \<inter> finished_tasks ?st' = {}"
      using tasks n fresh unfolding tasks_ok_def by auto
    show "tp_node ` ?p' = finished_tasks ?st'" using tasks by (simp add: tasks_ok_def)
    show "inj_on tp_node ?p'" using tasks gn(2) by (auto simp: tasks_ok_def)
  qed
  moreover have "times_ok g c conflict ?st' ?p'"
  proof -
    have later: "ipt_end_time e \<le> ipt_end_time x" if "x \<in> queue_events ?q" for x
      using e(2) [OF that] by (auto simp: task_key_def)
    have now: "current_time st \<le> ipt_end_time e" using times e(1) by (simp add: times_ok_def)
    have dep: "(?n, tp_node t) \<notin> edge_rel g" if "t \<in> started st profiles" for t
    proof -
      have "tp_node t \<in> running st \<union> ?F"
        using that tasks by (auto simp: started_def running_def tasks_ok_def)
      then show ?thesis using fresh by blast
    qed
    show ?thesis
      unfolding times_ok_def started
      using times now later dep e(1) by (auto simp: times_ok_def pop intro: order.trans)
  qed
  moreover have "finite (edge_rel g `` {?n})" using finite_edge_rel [OF wf] by (rule finite_Image)
  ultimately show ?thesis
    using gn by (simp add: finish_task_processing_def get_successors_eq [OF wf] release_successors_eq [OF wf]
        schedule_ok_def record_of_def)
qed

section \<open>The loop\<close>

text \<open>The simulation is stuck when nothing runs and none of the ready tasks may start.\<close>

definition stuck :: "digraph_view \<Rightarrow> (node \<Rightarrow> node set \<Rightarrow> node set \<Rightarrow> bool) \<Rightarrow> bool" where
  "stuck g allowed \<longleftrightarrow> (\<exists>F \<subseteq> get_nodes g. F \<noteq> get_nodes g \<and>
     (\<forall>n \<in> get_nodes g - F. (edge_rel g)\<inverse> `` {n} \<subseteq> F \<longrightarrow> \<not> allowed n {} F))"

lemma ready_or_over:
  assumes "tasks_ok g st profiles" and "n \<in> get_nodes g" and "(edge_rel g)\<inverse> `` {n} \<subseteq> finished_tasks st"
  shows "n \<in> ready_tasks st \<union> running st \<union> finished_tasks st"
proof -
  have "ready_tasks st \<union> running st \<union> finished_tasks st = {n \<in> get_nodes g. (edge_rel g)\<inverse> `` {n} \<subseteq> finished_tasks st}"
    using assms(1) by (simp add: tasks_ok_def)
  with assms(2,3) show ?thesis by blast
qed

lemma tasks_ok_all:
  assumes wf: "wf_digraph_view g" and "acyclic (edge_rel g)"
    and ok: "tasks_ok g st profiles" and "ready_tasks st = {}" and "running st = {}"
  shows "finished_tasks st = get_nodes g"
proof -
  have "wf (edge_rel g)" using finite_edge_rel [OF wf] assms(2) by (rule finite_acyclic_wf)
  have "n \<in> get_nodes g \<longrightarrow> n \<in> finished_tasks st" for n
    using \<open>wf (edge_rel g)\<close>
  proof (induction n rule: wf_induct_rule)
    case (less n)
    have "(edge_rel g)\<inverse> `` {n} \<subseteq> finished_tasks st" using less wf_endpoints(1) [OF wf] by auto
    then show ?case using ok assms(4,5) by (auto simp: tasks_ok_def)
  qed
  with finished_subset [OF ok] show ?thesis by blast
qed

lemma simulation_loop_returns:
  assumes hyps: "task_setup g cost_function c constraint allowed conflict" and acyc: "acyclic (edge_rel g)"
  shows "schedule_ok g c conflict st profiles \<Longrightarrow>
    (\<exists>st' profiles'. simulation_loop g cost_function constraint st profiles = Some (Inr (st', profiles')) \<and>
       schedule_ok g c conflict st' profiles' \<and> ready_tasks st' = {} \<and> running st' = {}) \<or>
    (simulation_loop g cost_function constraint st profiles = Some (Inl Runtime_error) \<and> stuck g allowed)"
proof (induction "card (get_nodes g - finished_tasks st)" arbitrary: st profiles rule: less_induct)
  case less
  have wf: "wf_digraph_view g" using hyps by (simp add: task_setup_def)
  have tasks: "tasks_ok g st profiles" using less.prems by (simp add: schedule_ok_def)
  have q: "queue_ok (in_progress_tasks st)" using tasks by (simp add: tasks_ok_def)
  show ?case
  proof (cases "is_processing_done st")
    case True
    then have "ready_tasks st = {}" "running st = {}"
      using task_queue.is_empty_eq [OF q] by (simp_all add: is_processing_done_def running_def)
    moreover have "simulation_loop g cost_function constraint st profiles = Some (Inr (st, profiles))"
      using True by (subst simulation_loop.simps) simp
    ultimately show ?thesis using less.prems by blast
  next
    case False
    have fin: "finite (ready_tasks st)" using ready_subset [OF tasks] wf by (auto intro: finite_subset)
    from start_ready_tasks_ok [OF hyps less.prems, of "sorted_list_of_set (ready_tasks st)"] fin
    obtain st1 where st1: "start_ready_tasks cost_function constraint (sorted_list_of_set (ready_tasks st)) st = Inr st1"
      "schedule_ok g c conflict st1 profiles" "finished_tasks st1 = finished_tasks st"
      "running st \<noteq> {} \<or> (\<exists>n \<in> ready_tasks st. allowed n {} (finished_tasks st)) \<longrightarrow> running st1 \<noteq> {}"
      by auto
    have tasks1: "tasks_ok g st1 profiles" using st1(2) by (simp add: schedule_ok_def)
    have q1: "queue_ok (in_progress_tasks st1)" using tasks1 by (simp add: tasks_ok_def)
    show ?thesis
    proof (cases "dpq_top task_compare (in_progress_tasks st1)")
      case None
      then have "running st1 = {}" using task_queue.top_None [OF q1] by (simp add: running_def)
      then have none: "running st = {}" "\<forall>n \<in> ready_tasks st. \<not> allowed n {} (finished_tasks st)" using st1(4) by blast+
      then have "ready_tasks st \<noteq> {}"
        using False task_queue.is_empty_eq [OF q] by (auto simp: is_processing_done_def running_def)
      then have "finished_tasks st \<noteq> get_nodes g" using tasks by (auto simp: tasks_ok_def)
      moreover have "\<forall>n \<in> get_nodes g - finished_tasks st. (edge_rel g)\<inverse> `` {n} \<subseteq> finished_tasks st \<longrightarrow>
          \<not> allowed n {} (finished_tasks st)"
      proof (intro ballI impI)
        fix n assume n: "n \<in> get_nodes g - finished_tasks st" "(edge_rel g)\<inverse> `` {n} \<subseteq> finished_tasks st"
        then have "n \<in> ready_tasks st \<union> running st" using ready_or_over [OF tasks, of n] by blast
        with none show "\<not> allowed n {} (finished_tasks st)" by simp
      qed
      ultimately have "stuck g allowed"
        unfolding stuck_def using finished_subset [OF tasks] by (intro exI [of _ "finished_tasks st"]) simp
      moreover have "simulation_loop g cost_function constraint st profiles = Some (Inl Runtime_error)"
        using False None st1(1) by (subst simulation_loop.simps) simp
      ultimately show ?thesis by blast
    next
      case (Some e)
      from finish_task_ok [OF wf st1(2) Some] obtain st2 profiles2 where
        st2: "finish_task_processing g e
            (st1\<lparr> in_progress_tasks := dpq_pop task_compare (in_progress_tasks st1) \<rparr>) profiles = Inr (st2, profiles2)"
          "schedule_ok g c conflict st2 profiles2" "finished_tasks st2 = insert (ipt_node e) (finished_tasks st)"
          "ipt_node e \<in> get_nodes g - finished_tasks st"
        using st1(3) by auto
      have "card (get_nodes g - finished_tasks st2) < card (get_nodes g - finished_tasks st)"
        using st2(3,4) wf by (intro psubset_card_mono) auto
      moreover have "simulation_loop g cost_function constraint st profiles =
          simulation_loop g cost_function constraint st2 profiles2"
        using False Some st1(1) st2(1) by (subst simulation_loop.simps) simp
      ultimately show ?thesis using less.hyps [OF _ st2(2)] by simp
    qed
  qed
qed

text \<open>A complete trace, as the function that gives the start of each task.\<close>

definition trace_of :: "digraph_view \<Rightarrow> (node \<Rightarrow> 't) \<Rightarrow> (node \<Rightarrow> 't::plus) \<Rightarrow> 't task_profile set" where
  "trace_of g c s = (\<lambda>n. \<lparr> tp_node = n, tp_start_time = s n, tp_end_time = s n + c n \<rparr>) ` get_nodes g"

lemma schedule_ok_trace:
  assumes wf: "wf_digraph_view g" and "acyclic (edge_rel g)" and ok: "schedule_ok g c conflict st profiles"
    and over: "ready_tasks st = {}" "running st = {}"
  shows "\<exists>s. profiles = trace_of g c s \<and> (\<forall>n \<in> get_nodes g. 0 \<le> s n) \<and>
    (\<forall>a b. (a, b) \<in> edge_rel g \<longrightarrow> s a + c a \<le> s b) \<and>
    (\<forall>a \<in> get_nodes g. \<forall>b \<in> get_nodes g. conflict a b \<longrightarrow> a \<noteq> b \<longrightarrow> s a + c a \<le> s b \<or> s b + c b \<le> s a)"
proof -
  have tasks: "tasks_ok g st profiles" and times: "times_ok g c conflict st profiles"
    using ok by (simp_all add: schedule_ok_def)
  have nodes: "tp_node ` profiles = get_nodes g"
    using tasks_ok_all [OF wf assms(2) tasks over] tasks by (simp add: tasks_ok_def)
  have inj: "inj_on tp_node profiles" using tasks by (simp add: tasks_ok_def)
  define P where "P n = the_inv_into profiles tp_node n" for n
  define s where "s n = tp_start_time (P n)" for n
  have P: "P n \<in> profiles" "tp_node (P n) = n" if "n \<in> get_nodes g" for n
    using that inj nodes unfolding P_def by (auto intro: the_inv_into_into f_the_inv_into_f)
  have P': "P (tp_node p) = p" if "p \<in> profiles" for p
    unfolding P_def using inj that by (rule the_inv_into_f_f)
  have started: "started st profiles = profiles" using over(2) by (simp add: started_def running_def)
  have t: "tp_end_time p = tp_start_time p + c (tp_node p)" "0 \<le> tp_start_time p" if "p \<in> profiles" for p
    using times that by (auto simp: times_ok_def started)
  have p: "p = \<lparr> tp_node = tp_node p, tp_start_time = s (tp_node p), tp_end_time = s (tp_node p) + c (tp_node p) \<rparr>"
    if "p \<in> profiles" for p
    using t(1) [OF that] P' [OF that] by (simp add: s_def)
  have "profiles = trace_of g c s"
  proof (rule set_eqI, rule iffI)
    fix x assume "x \<in> profiles"
    then show "x \<in> trace_of g c s" unfolding trace_of_def nodes [symmetric] using p by (auto simp: image_image)
  next
    fix x assume "x \<in> trace_of g c s"
    then obtain n where n: "n \<in> get_nodes g" "x = \<lparr> tp_node = n, tp_start_time = s n, tp_end_time = s n + c n \<rparr>"
      by (auto simp: trace_of_def)
    then have "x = P n" using p [OF P(1)] P(2) by metis
    then show "x \<in> profiles" using P(1) n(1) by simp
  qed
  moreover have "s a + c a \<le> s b" if "(a, b) \<in> edge_rel g" for a b
  proof -
    have "a \<in> get_nodes g" "b \<in> get_nodes g" using that wf_endpoints [OF wf] by blast+
    note Pa = P [OF this(1)] and Pb = P [OF this(2)]
    have "\<forall>t \<in> profiles. \<forall>p \<in> profiles. (tp_node p, tp_node t) \<in> edge_rel g \<longrightarrow> tp_end_time p \<le> tp_start_time t"
      using times unfolding times_ok_def started by blast
    with Pa Pb that have "tp_end_time (P a) \<le> tp_start_time (P b)" by auto
    then show ?thesis using t(1) [OF Pa(1)] Pa(2) by (simp add: s_def)
  qed
  moreover have "s a + c a \<le> s b \<or> s b + c b \<le> s a"
    if "a \<in> get_nodes g" "b \<in> get_nodes g" "conflict a b" "a \<noteq> b" for a b
  proof -
    have "apart conflict profiles" using times by (simp add: times_ok_def started)
    then have "tp_end_time (P a) \<le> tp_start_time (P b) \<or> tp_end_time (P b) \<le> tp_start_time (P a)"
      using P that unfolding apart_def by metis
    then show ?thesis using t(1) P that by (auto simp: s_def)
  qed
  moreover have "0 \<le> s n" if "n \<in> get_nodes g" for n
    using t(2) P(1) [OF that] by (simp add: s_def)
  ultimately show ?thesis by (intro exI [of _ s]) blast
qed

lemma simulate_returns:
  assumes hyps: "task_setup g cost_function c constraint allowed conflict" and acyc: "acyclic (edge_rel g)"
  shows "(\<exists>s. simulate_task_graph_execution g cost_function constraint = Some (Inr (trace_of g c s)) \<and>
      (\<forall>n \<in> get_nodes g. 0 \<le> s n) \<and> (\<forall>a b. (a, b) \<in> edge_rel g \<longrightarrow> s a + c a \<le> s b) \<and>
      (\<forall>a \<in> get_nodes g. \<forall>b \<in> get_nodes g. conflict a b \<longrightarrow> a \<noteq> b \<longrightarrow> s a + c a \<le> s b \<or> s b + c b \<le> s a)) \<or>
    simulate_task_graph_execution g cost_function constraint = Some (Inl Runtime_error) \<and> stuck g allowed"
proof -
  let ?st = "\<lparr> ready_tasks = get_initial_nodes g, in_progress_tasks = dpq_empty, finished_tasks = {},
    current_time = 0 :: 'a \<rparr>"
  have wf: "wf_digraph_view g" using hyps by (simp add: task_setup_def)
  have "schedule_ok g c conflict ?st {}"
    by (auto simp: schedule_ok_def tasks_ok_def times_ok_def started_def running_def task_queue.ok_none
        get_initial_nodes_eq apart_def)
  from simulation_loop_returns [OF hyps acyc this] show ?thesis
  proof (elim disjE exE conjE)
    fix st' profiles'
    assume loop: "simulation_loop g cost_function constraint ?st {} = Some (Inr (st', profiles'))"
      and ok: "schedule_ok g c conflict st' profiles'" and over: "ready_tasks st' = {}" "running st' = {}"
    have "finished_tasks st' = get_nodes g"
      using tasks_ok_all [OF wf acyc _ over] ok unfolding schedule_ok_def by blast
    then have "simulate_task_graph_execution g cost_function constraint = Some (Inr profiles')"
      using loop acyc by (simp add: simulate_task_graph_execution_def is_acyclic_eq [OF wf] num_nodes_def)
    with schedule_ok_trace [OF wf acyc ok over] show ?thesis by auto
  next
    assume "simulation_loop g cost_function constraint ?st {} = Some (Inl Runtime_error)" and "stuck g allowed"
    then show ?thesis using acyc by (simp add: simulate_task_graph_execution_def is_acyclic_eq [OF wf])
  qed
qed

section \<open>The simulation of a task graph\<close>

text \<open>
  The constraint and the costs \<open>task_simulator_estimate_forward_pass_time\<close> simulates the task graph of
  \<open>get_pcg_task_graph\<close> with. The two methods of the cost estimator are arguments.
\<close>

definition task_cost ::
    "(runtime_only_op_cost_estimate_key \<Rightarrow> 't runtime_only_op_cost_metrics) \<Rightarrow> (tensor_set_movement \<Rightarrow> 't) \<Rightarrow>
     pcg_task_graph \<Rightarrow> node \<Rightarrow> 't res" where
  "task_cost estimate_op estimate_movement task_graph node =
     res_bind (many_to_one_at_l (ptg_node_to_task task_graph) node) (\<lambda>task.
     case task of
       PT_operator operator \<Rightarrow> Inr (forward_runtime (estimate_op operator))
     | PT_tensor_movement movement \<Rightarrow> Inr (estimate_movement movement))"

definition is_allowed_to_run :: "pcg_task_graph \<Rightarrow> task_execution_constraint" where
  "is_allowed_to_run task_graph task in_progress finished =
     res_bind (many_to_one_at_l (ptg_node_to_task task_graph) task) (\<lambda>current_task.
     case current_task of
       PT_tensor_movement _ \<Rightarrow> Inr True
     | PT_operator _ \<Rightarrow>
         let get_devices = map_at (ptg_node_to_devices task_graph) in
         res_bind (res_map get_devices (sorted_list_of_set in_progress)) (\<lambda>occupied.
         res_bind (get_devices task) (\<lambda>required_devices.
         Inr (\<Union>(set occupied) \<inter> required_devices = {}))))"

definition task_simulator_estimate_forward_pass_time ::
    "coord_mapping_along_edge \<Rightarrow> parallel_computation_graph \<Rightarrow>
     (runtime_only_op_cost_estimate_key \<Rightarrow> 't::{linorder, plus, zero, minus} runtime_only_op_cost_metrics) \<Rightarrow>
     (tensor_set_movement \<Rightarrow> 't) \<Rightarrow> machine_mapping \<Rightarrow> 't run" where
  "task_simulator_estimate_forward_pass_time get_coord_mapping pcg estimate_op estimate_movement machine_mapping =
     run_bind (Some (get_pcg_task_graph get_coord_mapping pcg machine_mapping)) (\<lambda>task_graph.
     run_bind (simulate_task_graph_execution (ptg_graph task_graph)
       (task_cost estimate_op estimate_movement task_graph) (is_allowed_to_run task_graph)) (\<lambda>trace.
     Some (get_total_execution_time trace)))"

definition duration ::
    "(runtime_only_op_cost_estimate_key \<Rightarrow> 't runtime_only_op_cost_metrics) \<Rightarrow> (tensor_set_movement \<Rightarrow> 't) \<Rightarrow>
     pcg_task_graph \<Rightarrow> node \<Rightarrow> 't" where
  "duration estimate_op estimate_movement tg n =
     (case the (mto_l_to_r (ptg_node_to_task tg) n) of
        PT_operator operator \<Rightarrow> forward_runtime (estimate_op operator)
      | PT_tensor_movement movement \<Rightarrow> estimate_movement movement)"

definition allowed_by_devices :: "pcg_task_graph \<Rightarrow> node \<Rightarrow> node set \<Rightarrow> node set \<Rightarrow> bool" where
  "allowed_by_devices tg n R F \<longleftrightarrow> (\<forall>m \<in> R. devices_of tg m \<inter> devices_of tg n = {})"

lemma task_costE:
  assumes "wf_task_graph tg" and "n \<in> get_nodes (ptg_graph tg)"
  shows "task_cost estimate_op estimate_movement tg n = Inr (duration estimate_op estimate_movement tg n)"
  using assms unfolding wf_task_graph_def
  by (force simp: task_cost_def duration_def many_to_one_at_l_def map_at_def split: pcg_task.split)

lemma is_allowed_to_run_eq:
  assumes wf: "wf_task_graph tg" and n: "n \<in> get_nodes (ptg_graph tg)" and R: "R \<subseteq> get_nodes (ptg_graph tg)"
  shows "is_allowed_to_run tg n R F = Inr (allowed_by_devices tg n R F)"
proof -
  obtain task devices where td: "mto_l_to_r (ptg_node_to_task tg) n = Some task" "ptg_node_to_devices tg n = Some devices"
    "\<forall>m. task = PT_tensor_movement m \<longrightarrow> devices = {}"
    using wf n unfolding wf_task_graph_def by blast
  have fin: "finite R" using R wf by (auto simp: wf_task_graph_def intro: finite_subset)
  have dev: "map_at (ptg_node_to_devices tg) m = Inr (devices_of tg m)" if "m \<in> get_nodes (ptg_graph tg)" for m
  proof -
    obtain d where "ptg_node_to_devices tg m = Some d" using wf \<open>m \<in> get_nodes (ptg_graph tg)\<close> unfolding wf_task_graph_def by blast
    then show ?thesis by (simp add: devices_of_def map_at_def)
  qed
  have "res_map (map_at (ptg_node_to_devices tg)) (sorted_list_of_set R) =
      Inr (map (devices_of tg) (sorted_list_of_set R))"
    using fin R dev by (intro res_map_Inr_on) (simp add: subset_iff del: map_at_eq)
  then show ?thesis
    using td dev [OF n] fin
    by (cases task) (auto simp: is_allowed_to_run_def many_to_one_at_l_def map_at_def allowed_by_devices_def devices_of_def Let_def)
qed

lemma task_setup_devices:
  assumes "wf_task_graph tg"
    and "\<forall>n \<in> get_nodes (ptg_graph tg). \<forall>t. t \<le> t + duration estimate_op estimate_movement tg n"
  shows "task_setup (ptg_graph tg) (task_cost estimate_op estimate_movement tg)
    (duration estimate_op estimate_movement tg) (is_allowed_to_run tg) (allowed_by_devices tg)
    (\<lambda>a b. devices_of tg a \<inter> devices_of tg b \<noteq> {})"
  using assms task_costE [OF assms(1)] is_allowed_to_run_eq [OF assms(1)]
  unfolding task_setup_def by (auto simp: wf_task_graph_def allowed_by_devices_def)

text \<open>A least unfinished node is ready, so the simulation is not stuck if it may run by itself.\<close>

lemma not_stuck:
  assumes wf: "wf_digraph_view g" and acyc: "acyclic (edge_rel g)"
    and free: "\<And>n F. n \<in> get_nodes g \<Longrightarrow> F \<subseteq> get_nodes g \<Longrightarrow> allowed n {} F"
  shows "\<not> stuck g allowed"
proof
  assume "stuck g allowed"
  then obtain F where F: "F \<subseteq> get_nodes g" "F \<noteq> get_nodes g"
    "\<forall>n \<in> get_nodes g - F. (edge_rel g)\<inverse> `` {n} \<subseteq> F \<longrightarrow> \<not> allowed n {} F" unfolding stuck_def by blast
  have w: "wf (edge_rel g)" using finite_edge_rel [OF wf] acyc by (rule finite_acyclic_wf)
  obtain n where n: "n \<in> get_nodes g - F" using F(1,2) by blast
  obtain m where m: "m \<in> get_nodes g - F" "\<And>k. (k, m) \<in> edge_rel g \<Longrightarrow> k \<notin> get_nodes g - F"
    using wfE_min [OF w n] by metis
  then have "(edge_rel g)\<inverse> `` {m} \<subseteq> F" using wf_endpoints(1) [OF wf] by blast
  with F m(1) free [of m F] show False by blast
qed

lemma simulated_task_graph:
  assumes wf_tg: "wf_task_graph tg"
    and costs: "\<forall>n \<in> get_nodes (ptg_graph tg). \<forall>t. t \<le> t + duration estimate_op estimate_movement tg n"
  obtains s where
    "simulate_task_graph_execution (ptg_graph tg) (task_cost estimate_op estimate_movement tg) (is_allowed_to_run tg) =
        Some (Inr (trace_of (ptg_graph tg) (duration estimate_op estimate_movement tg) s))"
    and "\<forall>n \<in> get_nodes (ptg_graph tg). 0 \<le> s n"
    and "\<forall>a b. (a, b) \<in> edge_rel (ptg_graph tg) \<longrightarrow> s a + duration estimate_op estimate_movement tg a \<le> s b"
    and "\<forall>a \<in> get_nodes (ptg_graph tg). \<forall>b \<in> get_nodes (ptg_graph tg). devices_of tg a \<inter> devices_of tg b \<noteq> {} \<longrightarrow>
      a \<noteq> b \<longrightarrow> s a + duration estimate_op estimate_movement tg a \<le> s b \<or>
        s b + duration estimate_op estimate_movement tg b \<le> s a"
proof -
  have acyc: "acyclic (edge_rel (ptg_graph tg))" and wf: "wf_digraph_view (ptg_graph tg)"
    using wf_tg by (simp_all add: wf_task_graph_def)
  have "\<not> stuck (ptg_graph tg) (allowed_by_devices tg)"
    by (intro not_stuck [OF wf acyc]) (simp add: allowed_by_devices_def)
  with simulate_returns [OF task_setup_devices [OF wf_tg costs] acyc] show thesis by (blast intro: that)
qed

section \<open>Properties\<close>

text \<open>
  Claim C16. On an acyclic task graph whose tasks may each run when nothing else does, the simulation
  returns a trace with every task exactly once, for as long as its cost, and no task starts before the
  tasks it depends on have ended.
\<close>

theorem simulation_runs_every_task:
  assumes "wf_digraph_view g" and "acyclic (edge_rel g)"
    and "\<forall>n \<in> get_nodes g. cost_function n = Inr (c n) \<and> (\<forall>t. t \<le> t + c n)"
    and "\<forall>n \<in> get_nodes g. \<forall>R \<subseteq> get_nodes g. \<forall>F \<subseteq> get_nodes g. \<exists>b. constraint n R F = Inr b"
    and "\<forall>n \<in> get_nodes g. \<forall>F \<subseteq> get_nodes g. constraint n {} F = Inr True"
  shows "\<exists>s. simulate_task_graph_execution g cost_function constraint =
      Some (Inr ((\<lambda>n. \<lparr> tp_node = n, tp_start_time = s n, tp_end_time = s n + c n \<rparr>) ` get_nodes g)) \<and>
    (\<forall>n \<in> get_nodes g. 0 \<le> s n) \<and> (\<forall>a b. (a, b) \<in> edge_rel g \<longrightarrow> s a + c a \<le> s b)"
proof -
  define allowed where "allowed n R F \<longleftrightarrow> constraint n R F = Inr True" for n R F
  have "constraint n R F = Inr (allowed n R F)" if "n \<in> get_nodes g" "R \<subseteq> get_nodes g" "F \<subseteq> get_nodes g" for n R F
  proof -
    obtain b where "constraint n R F = Inr b" using assms(4) \<open>n \<in> get_nodes g\<close> \<open>R \<subseteq> get_nodes g\<close> \<open>F \<subseteq> get_nodes g\<close> by blast
    then show ?thesis by (simp add: allowed_def)
  qed
  then have hyps: "task_setup g cost_function c constraint allowed (\<lambda>_ _. False)"
    using assms(1,3) by (simp add: task_setup_def)
  have "\<not> stuck g allowed"
    using assms(5) by (intro not_stuck [OF assms(1,2)]) (simp add: allowed_def)
  with simulate_returns [OF hyps assms(2)] show ?thesis unfolding trace_of_def by blast
qed

theorem simulation_runs_every_task_witness:
  "\<exists>s. simulate_task_graph_execution (view_of_adjacency diamond) (\<lambda>n. Inr (n + 1)) (\<lambda>_ R _. Inr (R = {})) =
      Some (Inr ((\<lambda>n. \<lparr> tp_node = n, tp_start_time = s n, tp_end_time = s n + (n + 1) \<rparr>) `
        get_nodes (view_of_adjacency diamond))) \<and>
    (\<forall>n \<in> get_nodes (view_of_adjacency diamond). 0 \<le> s n) \<and>
    (\<forall>a b. (a, b) \<in> edge_rel (view_of_adjacency diamond) \<longrightarrow> s a + (a + 1) \<le> s b)"
  by (rule simulation_runs_every_task [OF wf_examples(1) acyclic_diamond]) simp_all

text \<open>
  Claim C15. The simulation returns on every finite graph, whatever its constraint: with a trace, or with a
  runtime error. The error means that the graph has a cycle, or that some set of finished tasks leaves
  tasks over and does not let any of those that are ready start.
\<close>

theorem simulation_always_returns:
  assumes "wf_digraph_view g"
    and "\<forall>n \<in> get_nodes g. \<exists>c. cost_function n = Inr c \<and> (\<forall>t. t \<le> t + c)"
    and "\<forall>n \<in> get_nodes g. \<forall>R \<subseteq> get_nodes g. \<forall>F \<subseteq> get_nodes g. constraint n R F = Inr (allowed n R F)"
  shows "(\<exists>trace. simulate_task_graph_execution g cost_function constraint = Some (Inr trace)) \<or>
    simulate_task_graph_execution g cost_function constraint = Some (Inl Runtime_error) \<and>
    (\<not> acyclic (edge_rel g) \<or> (\<exists>F \<subseteq> get_nodes g. F \<noteq> get_nodes g \<and>
       (\<forall>n \<in> get_nodes g - F. (\<forall>m. (m, n) \<in> edge_rel g \<longrightarrow> m \<in> F) \<longrightarrow> \<not> allowed n {} F)))"
proof (cases "acyclic (edge_rel g)")
  case True
  from assms(2) obtain c where "\<forall>n \<in> get_nodes g. cost_function n = Inr (c n) \<and> (\<forall>t. t \<le> t + c n)" by metis
  then have "task_setup g cost_function c constraint allowed (\<lambda>_ _. False)"
    using assms(1,3) by (simp add: task_setup_def)
  from simulate_returns [OF this True] show ?thesis
  proof (elim disjE exE conjE)
    assume err: "simulate_task_graph_execution g cost_function constraint = Some (Inl Runtime_error)"
      and "stuck g allowed"
    then obtain F where F: "F \<subseteq> get_nodes g" "F \<noteq> get_nodes g"
      "\<forall>n \<in> get_nodes g - F. (edge_rel g)\<inverse> `` {n} \<subseteq> F \<longrightarrow> \<not> allowed n {} F" unfolding stuck_def by blast
    have "\<forall>n \<in> get_nodes g - F. (\<forall>m. (m, n) \<in> edge_rel g \<longrightarrow> m \<in> F) \<longrightarrow> \<not> allowed n {} F"
    proof (intro ballI impI)
      fix n assume "n \<in> get_nodes g - F" "\<forall>m. (m, n) \<in> edge_rel g \<longrightarrow> m \<in> F"
      then show "\<not> allowed n {} F" using F(3) by blast
    qed
    with F err show ?thesis by blast
  qed simp
next
  case False
  then show ?thesis by (simp add: simulate_task_graph_execution_def is_acyclic_eq [OF assms(1)])
qed

theorem simulation_always_returns_witness:
  "(\<exists>trace. simulate_task_graph_execution (view_of_adjacency two_cycle) (\<lambda>n. Inr (1 :: nat)) (\<lambda>_ _ _. Inr True) =
      Some (Inr trace)) \<or>
    simulate_task_graph_execution (view_of_adjacency two_cycle) (\<lambda>n. Inr (1 :: nat)) (\<lambda>_ _ _. Inr True) =
      Some (Inl Runtime_error) \<and>
    (\<not> acyclic (edge_rel (view_of_adjacency two_cycle)) \<or> (\<exists>F \<subseteq> get_nodes (view_of_adjacency two_cycle).
       F \<noteq> get_nodes (view_of_adjacency two_cycle) \<and>
       (\<forall>n \<in> get_nodes (view_of_adjacency two_cycle) - F.
          (\<forall>m. (m, n) \<in> edge_rel (view_of_adjacency two_cycle) \<longrightarrow> m \<in> F) \<longrightarrow> \<not> True)))"
  by (rule simulation_always_returns [OF wf_examples(2), where allowed = "\<lambda>_ _ _. True"]) simp_all

text \<open>
  Claim C17. The task simulator runs the task graph of a parallel computation graph, one task for every layer and
  one for every edge. In the trace every task takes as long as the estimator says, dependent tasks
  run one after the other, so a layer starts only after the layers it reads from have ended, and two tasks with a
  device in common never run at the same time; a layer has the devices its machine view places its tasks on. The
  estimate is the time from the first start to the last end.
\<close>

theorem task_simulator_keeps_devices_apart:
  assumes tg: "get_pcg_task_graph get_coord_mapping pcg machine_mapping = Inr tg"
    and pcg: "wf_kwarg_graph pcg made" "pcg_get_parallel_layers pcg \<noteq> {}"
      "card (pcg_get_parallel_layers pcg) + card (pcg_get_edges pcg) < 2 ^ 64"
    and costs: "\<forall>n \<in> get_nodes (ptg_graph tg). \<forall>t. t \<le> t + duration estimate_op estimate_movement tg n"
  shows "\<exists>node_of s e.
    simulate_task_graph_execution (ptg_graph tg) (task_cost estimate_op estimate_movement tg) (is_allowed_to_run tg) =
      Some (Inr ((\<lambda>n. \<lparr> tp_node = n, tp_start_time = s n, tp_end_time = e n \<rparr>) ` get_nodes (ptg_graph tg))) \<and>
    (\<forall>n \<in> get_nodes (ptg_graph tg). 0 \<le> s n \<and> e n = s n + duration estimate_op estimate_movement tg n) \<and>
    (\<forall>a b. (a, b) \<in> edge_rel (ptg_graph tg) \<longrightarrow> e a \<le> s b) \<and>
    (\<forall>a \<in> get_nodes (ptg_graph tg). \<forall>b \<in> get_nodes (ptg_graph tg).
       a \<noteq> b \<longrightarrow> devices_of tg a \<inter> devices_of tg b \<noteq> {} \<longrightarrow> e a \<le> s b \<or> e b \<le> s a) \<and>
    inj_on node_of (pcg_get_parallel_layers pcg) \<and>
    card (get_nodes (ptg_graph tg)) = card (pcg_get_parallel_layers pcg) + card (pcg_get_edges pcg) \<and>
    (\<forall>l \<in> pcg_get_parallel_layers pcg. node_of l \<in> get_nodes (ptg_graph tg) \<and>
       is_layer_task pcg machine_mapping l (the (mto_l_to_r (ptg_node_to_task tg) (node_of l))) (devices_of tg (node_of l))) \<and>
    (\<forall>edge \<in> pcg_get_edges pcg. e (node_of (get_src_layer edge)) \<le> s (node_of (get_dst_layer edge))) \<and>
    task_simulator_estimate_forward_pass_time get_coord_mapping pcg estimate_op estimate_movement machine_mapping =
      Some (Inr (Max (e ` get_nodes (ptg_graph tg)) - Min (s ` get_nodes (ptg_graph tg))))"
proof -
  let ?g = "ptg_graph tg" and ?c = "duration estimate_op estimate_movement tg"
  obtain node_of where node_of: "wf_task_graph tg" "inj_on node_of (pcg_get_parallel_layers pcg)"
    "card (get_nodes ?g) = card (pcg_get_parallel_layers pcg) + card (pcg_get_edges pcg)"
    "\<And>l. l \<in> pcg_get_parallel_layers pcg \<Longrightarrow> node_of l \<in> get_nodes ?g \<and> is_layer_task pcg machine_mapping l
      (the (mto_l_to_r (ptg_node_to_task tg) (node_of l))) (devices_of tg (node_of l))"
    "\<And>e. e \<in> pcg_get_edges pcg \<Longrightarrow> \<exists>n. n \<in> get_nodes ?g \<and>
      (node_of (get_src_layer e), n) \<in> edge_rel ?g \<and> (n, node_of (get_dst_layer e)) \<in> edge_rel ?g"
    by (rule get_pcg_task_graph_ok [OF tg pcg(1,3)]) (rule that; assumption)
  obtain s where
    s: "simulate_task_graph_execution ?g (task_cost estimate_op estimate_movement tg) (is_allowed_to_run tg) =
        Some (Inr (trace_of ?g ?c s))" "\<forall>n \<in> get_nodes ?g. 0 \<le> s n"
      "\<forall>a b. (a, b) \<in> edge_rel ?g \<longrightarrow> s a + ?c a \<le> s b"
      "\<forall>a \<in> get_nodes ?g. \<forall>b \<in> get_nodes ?g. devices_of tg a \<inter> devices_of tg b \<noteq> {} \<longrightarrow> a \<noteq> b \<longrightarrow>
         s a + ?c a \<le> s b \<or> s b + ?c b \<le> s a" by (rule simulated_task_graph [OF node_of(1) costs])
  have edges: "\<forall>edge \<in> pcg_get_edges pcg.
      s (node_of (get_src_layer edge)) + ?c (node_of (get_src_layer edge)) \<le> s (node_of (get_dst_layer edge))"
  proof
    fix edge assume "edge \<in> pcg_get_edges pcg"
    then obtain n where n: "n \<in> get_nodes ?g" "(node_of (get_src_layer edge), n) \<in> edge_rel ?g"
      "(n, node_of (get_dst_layer edge)) \<in> edge_rel ?g" using node_of(5) by blast
    have "s (node_of (get_src_layer edge)) + ?c (node_of (get_src_layer edge)) \<le> s n" using s(3) n(2) by blast
    also have "\<dots> \<le> s n + ?c n" using costs n(1) by blast
    also have "\<dots> \<le> s (node_of (get_dst_layer edge))" using s(3) n(3) by blast
    finally show "s (node_of (get_src_layer edge)) + ?c (node_of (get_src_layer edge)) \<le> s (node_of (get_dst_layer edge))" .
  qed
  have "get_nodes ?g \<noteq> {}" using pcg(2) node_of(4) by blast
  then have "get_total_execution_time (trace_of ?g ?c s) =
      Inr (Max ((\<lambda>n. s n + ?c n) ` get_nodes ?g) - Min (s ` get_nodes ?g))"
    by (simp add: get_total_execution_time_def trace_of_def image_image)
  then have "task_simulator_estimate_forward_pass_time get_coord_mapping pcg estimate_op estimate_movement machine_mapping =
      Some (Inr (Max ((\<lambda>n. s n + ?c n) ` get_nodes ?g) - Min (s ` get_nodes ?g)))"
    by (simp add: task_simulator_estimate_forward_pass_time_def tg s(1))
  then show ?thesis
    using s(2-4) node_of(2-4) edges
    by (intro exI [of _ node_of] exI [of _ s] exI [of _ "\<lambda>n. s n + ?c n"] conjI s(1) [unfolded trace_of_def]) simp_all
qed

theorem task_simulator_keeps_devices_apart_witness:
  "\<forall>op_cost (movement_cost :: tensor_set_movement \<Rightarrow> nat). \<exists>tg (node_of :: parallel_layer_guid \<Rightarrow> node) s e.
    get_pcg_task_graph example_coord_mapping example_pcg example_mapping = Inr tg \<and> card (get_nodes (ptg_graph tg)) = 3 \<and>
    simulate_task_graph_execution (ptg_graph tg) (task_cost op_cost movement_cost tg) (is_allowed_to_run tg) =
      Some (Inr ((\<lambda>n. \<lparr> tp_node = n, tp_start_time = s n, tp_end_time = e n \<rparr>) ` get_nodes (ptg_graph tg))) \<and>
    e (node_of 0) \<le> s (node_of 1) \<and>
    task_simulator_estimate_forward_pass_time example_coord_mapping example_pcg op_cost movement_cost example_mapping =
      Some (Inr (Max (e ` get_nodes (ptg_graph tg)) - Min (s ` get_nodes (ptg_graph tg))))"
proof (intro allI)
  fix op_cost and movement_cost :: "tensor_set_movement \<Rightarrow> nat"
  obtain tg where tg: "get_pcg_task_graph example_coord_mapping example_pcg example_mapping = Inr tg"
    using example_task_graph by blast
  let ?g = "ptg_graph tg"
  have size: "pcg_get_parallel_layers example_pcg \<noteq> {}"
    "card (pcg_get_parallel_layers example_pcg) + card (pcg_get_edges example_pcg) < 2 ^ 64"
    by (simp_all add: example_pcg_parts)
  have costs: "\<forall>n \<in> get_nodes ?g. \<forall>t. t \<le> t + duration op_cost movement_cost tg n" by simp
  obtain node_of s e where *: "simulate_task_graph_execution ?g (task_cost op_cost movement_cost tg) (is_allowed_to_run tg) =
      Some (Inr ((\<lambda>n. \<lparr> tp_node = n, tp_start_time = s n, tp_end_time = e n \<rparr>) ` get_nodes ?g))"
    "card (get_nodes ?g) = card (pcg_get_parallel_layers example_pcg) + card (pcg_get_edges example_pcg)"
    "\<forall>edge \<in> pcg_get_edges example_pcg. e (node_of (get_src_layer edge)) \<le> s (node_of (get_dst_layer edge))"
    "task_simulator_estimate_forward_pass_time example_coord_mapping example_pcg op_cost movement_cost example_mapping =
      Some (Inr (Max (e ` get_nodes ?g) - Min (s ` get_nodes ?g)))"
    by (insert task_simulator_keeps_devices_apart [OF tg example_pcg_wf size costs], elim exE conjE) (rule that)
  have "card (get_nodes ?g) = 3" "e (node_of 0) \<le> s (node_of 1)"
    using *(2,3) by (simp_all add: example_pcg_parts get_src_layer_def get_dst_layer_def)
  then show "\<exists>tg (node_of :: parallel_layer_guid \<Rightarrow> node) s e.
    get_pcg_task_graph example_coord_mapping example_pcg example_mapping = Inr tg \<and> card (get_nodes (ptg_graph tg)) = 3 \<and>
    simulate_task_graph_execution (ptg_graph tg) (task_cost op_cost movement_cost tg) (is_allowed_to_run tg) =
      Some (Inr ((\<lambda>n. \<lparr> tp_node = n, tp_start_time = s n, tp_end_time = e n \<rparr>) ` get_nodes (ptg_graph tg))) \<and>
    e (node_of 0) \<le> s (node_of 1) \<and>
    task_simulator_estimate_forward_pass_time example_coord_mapping example_pcg op_cost movement_cost example_mapping =
      Some (Inr (Max (e ` get_nodes (ptg_graph tg)) - Min (s ` get_nodes (ptg_graph tg))))"
    by - (rule exI [of _ tg], rule exI [of _ node_of], rule exI [of _ s], rule exI [of _ e], intro conjI tg *(1,4))
qed

end
