(* ===== verification/Digraph_Closure.thy ===== *)
theory Digraph_Closure
  imports Digraph_Traversal
begin

text \<open>
  The transitive closure and the transitive reduction of a directed graph (\<open>transitive_closure.cc\<close>,
  \<open>transitive_reduction.cc\<close>). Both work on an adjacency matrix of the numbered nodes, a vector of \<open>bool\<close>
  with the rows one after the other, and change a copy of the graph along with it. \<open>num_nodes\<close> is an
  \<open>int\<close> and so is its square, the size of the matrix.

  The relation a matrix stands for is \<open>edges_of\<close>; the lemmas say what each of the three nested loops does
  to it, and the properties relate it to the edges of the graph.
\<close>

section \<open>The matrix\<close>

fun res_fold :: "('s \<Rightarrow> 'a \<Rightarrow> 's res) \<Rightarrow> 's \<Rightarrow> 'a list \<Rightarrow> 's res" where
  "res_fold f s [] = Inr s"
| "res_fold f s (x # xs) = res_bind (f s x) (\<lambda>s. res_fold f s xs)"

definition bidict_from_enumerating :: "'a::linorder set \<Rightarrow> (nat, 'a) bidict res" where
  "bidict_from_enumerating s = bidict_from_pairs (zip [0..<card s] (sorted_list_of_set s))"

definition has_edge :: "nat \<Rightarrow> bool list \<Rightarrow> nat \<Rightarrow> nat \<Rightarrow> bool" where
  "has_edge node_count edge_matrix src_idx dst_idx \<longleftrightarrow> edge_matrix ! (src_idx * node_count + dst_idx)"

definition set_edge :: "nat \<Rightarrow> bool list \<Rightarrow> nat \<Rightarrow> nat \<Rightarrow> bool \<Rightarrow> bool list" where
  "set_edge node_count edge_matrix src_idx dst_idx b = edge_matrix[src_idx * node_count + dst_idx := b]"

definition matrix_of_edges :: "(nat, node) bidict \<Rightarrow> nat \<Rightarrow> directed_edge list \<Rightarrow> bool list res" where
  "matrix_of_edges nodes node_count edges =
     res_bind (cint (int node_count * int node_count)) (\<lambda>size.
     res_fold (\<lambda>edge_matrix e.
         res_bind (at_r nodes (de_src e)) (\<lambda>i.
         res_bind (at_r nodes (de_dst e)) (\<lambda>j.
         Inr (set_edge node_count edge_matrix i j True))))
       (replicate (nat size) False) edges)"

section \<open>The loops\<close>

text \<open>
  The three loops over \<open>k\<close>, \<open>i\<close> and \<open>j\<close> of the closure, with the assignment in their middle as argument: the
  closure adds an edge to the result along with it, the reduction has a copy of the loops that does not.
\<close>

definition closure_loops ::
    "nat \<Rightarrow> (bool list \<times> 'r \<Rightarrow> nat \<Rightarrow> nat \<Rightarrow> (bool list \<times> 'r) res) \<Rightarrow> bool list \<times> 'r \<Rightarrow> (bool list \<times> 'r) res" where
  "closure_loops node_count assign st =
     res_fold (\<lambda>st k. res_fold (\<lambda>st i.
         if has_edge node_count (fst st) i k
         then res_fold (\<lambda>st j. if has_edge node_count (fst st) k j then assign st i j else Inr st) st [0..<node_count]
         else Inr st) st [0..<node_count]) st [0..<node_count]"

definition transitive_closure :: "digraph_view \<Rightarrow> adjacency_digraph res" where
  "transitive_closure g =
     res_bind (bidict_from_enumerating (get_nodes g)) (\<lambda>nodes.
     let node_count = card (get_nodes g) in
     res_bind (matrix_of_edges nodes node_count (sorted_list_of_set (get_edges g))) (\<lambda>edge_matrix.
     res_bind (materialize_digraph_view g) (\<lambda>result.
     res_bind (closure_loops node_count (\<lambda>(edge_matrix, result) i j.
         res_bind (at_l nodes i) (\<lambda>src.
         res_bind (at_l nodes j) (\<lambda>dst.
         res_bind (add_edge result (DirectedEdge src dst)) (\<lambda>result.
         Inr (set_edge node_count edge_matrix i j True, result))))) (edge_matrix, result)) (\<lambda>st.
     Inr (snd st)))))"

definition reduction_loops ::
    "nat \<Rightarrow> (bool list \<times> 'r \<Rightarrow> nat \<Rightarrow> nat \<Rightarrow> (bool list \<times> 'r) res) \<Rightarrow> bool list \<times> 'r \<Rightarrow> (bool list \<times> 'r) res" where
  "reduction_loops node_count assign st =
     res_fold (\<lambda>st j. res_fold (\<lambda>st i.
         if has_edge node_count (fst st) i j
         then res_fold (\<lambda>st k. if has_edge node_count (fst st) j k then assign st i k else Inr st) st [0..<node_count]
         else Inr st) st [0..<node_count]) st [0..<node_count]"

definition transitive_reduction :: "digraph_view \<Rightarrow> adjacency_digraph res" where
  "transitive_reduction g =
     res_bind (bidict_from_enumerating (get_nodes g)) (\<lambda>nodes.
     let node_count = card (get_nodes g) in
     res_bind (matrix_of_edges nodes node_count (sorted_list_of_set (get_edges g))) (\<lambda>edge_matrix.
     res_bind (closure_loops node_count (\<lambda>(edge_matrix, u) i j.
         Inr (set_edge node_count edge_matrix i j True, u)) (edge_matrix, ())) (\<lambda>st.
     res_bind (materialize_digraph_view g) (\<lambda>result.
     res_bind (reduction_loops node_count (\<lambda>(edge_matrix, result) i k.
         res_bind (at_l nodes i) (\<lambda>src.
         res_bind (at_l nodes k) (\<lambda>dst.
         res_bind (remove_edge result (DirectedEdge src dst)) (\<lambda>result.
         Inr (set_edge node_count edge_matrix i k False, result))))) (fst st, result)) (\<lambda>st.
     Inr (snd st))))))"

section \<open>What the loops do to a matrix\<close>

definition edges_of :: "nat \<Rightarrow> bool list \<Rightarrow> (nat \<times> nat) set" where
  "edges_of n m = {(i, j). i < n \<and> j < n \<and> has_edge n m i j}"

lemma edges_of_iff: "i < n \<Longrightarrow> j < n \<Longrightarrow> has_edge n m i j \<longleftrightarrow> (i, j) \<in> edges_of n m"
  by (simp add: edges_of_def)

lemma index_less: "i < n \<Longrightarrow> j < n \<Longrightarrow> i * n + j < n * (n :: nat)"
  by (rule less_le_trans [of _ "Suc i * n"]) (simp, simp add: Suc_leI mult_le_mono1 del: mult_Suc)

lemma index_inj: "j < n \<Longrightarrow> l < n \<Longrightarrow> i * n + j = k * n + l \<longleftrightarrow> i = k \<and> j = (l :: nat)"
  by (metis add.commute add_diff_cancel_left' div_mult_self1 div_less less_nat_zero_code mod_less mod_mult_self1 
      add.left_neutral not_gr_zero)

lemma edges_of_set_edge:
  assumes "length m = n * n" and "i < n" and "j < n"
  shows "edges_of n (set_edge n m i j b) = (if b then insert (i, j) (edges_of n m) else edges_of n m - {(i, j)})"
  using assms index_less [of i n j] index_inj [of _ n]
  by (auto simp: edges_of_def has_edge_def set_edge_def nth_list_update)

lemma length_set_edge [simp]: "length (set_edge n m i j b) = length m"
  by (simp add: set_edge_def)

lemma res_fold_upt:
  assumes "P 0 s" and "\<And>k s. k < n \<Longrightarrow> P k s \<Longrightarrow> \<exists>s'. f s k = Inr s' \<and> P (Suc k) s'"
  shows "\<exists>s'. res_fold f s [0..<n] = Inr s' \<and> P n s'"
proof -
  have "\<exists>s'. res_fold f s [k..<n] = Inr s' \<and> P n s'" if "P k s" "k \<le> n" for k s
    using that
  proof (induction "n - k" arbitrary: k s)
    case (Suc d)
    then have "k < n" by simp
    from assms(2) [OF this Suc.prems(1)] obtain s' where "f s k = Inr s'" "P (Suc k) s'" by blast
    with Suc.hyps(1) [of "Suc k" s'] Suc.hyps(2) \<open>k < n\<close> show ?case by (simp add: upt_conv_Cons)
  qed simp
  from this [OF assms(1)] show ?thesis by simp
qed

text \<open>
  An assignment does its part of the work: in a state that is all right it sets (or clears) the entry and
  leaves the state all right.
\<close>

definition assigns ::
    "nat \<Rightarrow> bool \<Rightarrow> (bool list \<times> 'r \<Rightarrow> bool) \<Rightarrow> (bool list \<times> 'r \<Rightarrow> nat \<Rightarrow> nat \<Rightarrow> (bool list \<times> 'r) res) \<Rightarrow> bool" where
  "assigns n b ok assign \<longleftrightarrow> (\<forall>st i j. ok st \<longrightarrow> i < n \<longrightarrow> j < n \<longrightarrow>
     (\<exists>st'. assign st i j = Inr st' \<and> ok st' \<and> edges_of n (fst st') =
        (if b then insert (i, j) (edges_of n (fst st)) else edges_of n (fst st) - {(i, j)})))"

lemma assignsD:
  assumes "assigns n b ok assign" and "ok st" and "i < n" and "j < n"
  obtains st' where "assign st i j = Inr st'" "ok st'" "edges_of n (fst st') =
    (if b then insert (i, j) (edges_of n (fst st)) else edges_of n (fst st) - {(i, j)})"
  using assms unfolding assigns_def by blast

lemma closure_row:
  assumes "assigns n True ok assign" and "ok st" and "i < n" and "k < n" and "(i, k) \<in> edges_of n (fst st)"
  shows "\<exists>st'. res_fold (\<lambda>st j. if has_edge n (fst st) k j then assign st i j else Inr st) st [0..<n] = Inr st' \<and>
    ok st' \<and> edges_of n (fst st') = edges_of n (fst st) \<union> {i} \<times> (edges_of n (fst st) `` {k})"
proof -
  let ?E = "edges_of n (fst st)"
  have "\<exists>st'. res_fold (\<lambda>st j. if has_edge n (fst st) k j then assign st i j else Inr st) st [0..<n] = Inr st' \<and>
    (ok st' \<and> edges_of n (fst st') = ?E \<union> {i} \<times> {j \<in> ?E `` {k}. j < n})"
  proof (rule res_fold_upt [where P = "\<lambda>j st'. ok st' \<and> edges_of n (fst st') = ?E \<union> {i} \<times> {l \<in> ?E `` {k}. l < j}"])
    fix j st1
    assume j: "j < n" and "ok st1 \<and> edges_of n (fst st1) = ?E \<union> {i} \<times> {l \<in> ?E `` {k}. l < j}"
    then have st1: "ok st1" "edges_of n (fst st1) = ?E \<union> {i} \<times> {l \<in> ?E `` {k}. l < j}" by blast+
    have "has_edge n (fst st1) k j \<longleftrightarrow> (k, j) \<in> ?E" using assms(4) j by (auto simp: edges_of_iff st1(2))
    then show "\<exists>st'. (if has_edge n (fst st1) k j then assign st1 i j else Inr st1) = Inr st' \<and>
        (ok st' \<and> edges_of n (fst st') = ?E \<union> {i} \<times> {l \<in> ?E `` {k}. l < Suc j})"
    proof (cases "(k, j) \<in> ?E")
      case True
      obtain st2 where "assign st1 i j = Inr st2" "ok st2" "edges_of n (fst st2) = insert (i, j) (edges_of n (fst st1))"
        using assignsD [OF assms(1) st1(1) assms(3) j] by auto
      moreover have "{l \<in> ?E `` {k}. l < Suc j} = insert j {l \<in> ?E `` {k}. l < j}"
        using True by (auto simp: less_Suc_eq)
      ultimately show ?thesis
        using True \<open>has_edge n (fst st1) k j \<longleftrightarrow> (k, j) \<in> ?E\<close> by (simp add: st1(2) insert_commute)
    next
      case False
      then have "{l \<in> ?E `` {k}. l < Suc j} = {l \<in> ?E `` {k}. l < j}" by (auto simp: less_Suc_eq)
      with False show ?thesis using st1 \<open>has_edge n (fst st1) k j \<longleftrightarrow> (k, j) \<in> ?E\<close> by simp
    qed
  qed (use assms(2) in auto)
  moreover have "{j \<in> ?E `` {k}. j < n} = ?E `` {k}" by (auto simp: edges_of_def)
  ultimately show ?thesis by simp
qed

lemma closure_round:
  assumes "assigns n True ok assign" and "ok st" and "k < n"
  shows "\<exists>st'. res_fold (\<lambda>st i. if has_edge n (fst st) i k
      then res_fold (\<lambda>st j. if has_edge n (fst st) k j then assign st i j else Inr st) st [0..<n]
      else Inr st) st [0..<n] = Inr st' \<and> ok st' \<and>
    edges_of n (fst st') = edges_of n (fst st) \<union> {(i, j). (i, k) \<in> edges_of n (fst st) \<and> (k, j) \<in> edges_of n (fst st)}"
    (is "\<exists>st'. res_fold ?f st _ = _ \<and> _")
proof -
  let ?E = "edges_of n (fst st)"
  have "\<exists>st'. res_fold ?f st [0..<n] = Inr st' \<and>
    (ok st' \<and> edges_of n (fst st') = ?E \<union> {(i, j). i < n \<and> (i, k) \<in> ?E \<and> (k, j) \<in> ?E})"
  proof (rule res_fold_upt [where P = "\<lambda>i st'. ok st' \<and>
      edges_of n (fst st') = ?E \<union> {(a, j). a < i \<and> (a, k) \<in> ?E \<and> (k, j) \<in> ?E}"])
    fix i st1
    assume i: "i < n" and "ok st1 \<and> edges_of n (fst st1) = ?E \<union> {(a, j). a < i \<and> (a, k) \<in> ?E \<and> (k, j) \<in> ?E}"
    then have st1: "ok st1" "edges_of n (fst st1) = ?E \<union> {(a, j). a < i \<and> (a, k) \<in> ?E \<and> (k, j) \<in> ?E}" by blast+
    have ik: "has_edge n (fst st1) i k \<longleftrightarrow> (i, k) \<in> ?E" using assms(3) i by (auto simp: edges_of_iff st1(2))
    have row: "edges_of n (fst st1) `` {k} = ?E `` {k}" by (auto simp: st1(2))
    show "\<exists>st'. ?f st1 i = Inr st' \<and>
        (ok st' \<and> edges_of n (fst st') = ?E \<union> {(a, j). a < Suc i \<and> (a, k) \<in> ?E \<and> (k, j) \<in> ?E})"
    proof (cases "(i, k) \<in> ?E")
      case True
      then have "(i, k) \<in> edges_of n (fst st1)" by (simp add: st1(2))
      from closure_row [OF assms(1) st1(1) i assms(3) this] True show ?thesis
        unfolding ik row by (auto simp: st1(2) less_Suc_eq)
    qed (use st1 ik in \<open>auto simp: less_Suc_eq\<close>)
  qed (use assms(2) in auto)
  moreover have "{(i, j). i < n \<and> (i, k) \<in> ?E \<and> (k, j) \<in> ?E} = {(i, j). (i, k) \<in> ?E \<and> (k, j) \<in> ?E}"
    by (auto simp: edges_of_def)
  ultimately show ?thesis by simp
qed

text \<open>The pairs that are connected by a path whose inner nodes are below \<open>k\<close>.\<close>

fun reach :: "(nat \<times> nat) set \<Rightarrow> nat \<Rightarrow> (nat \<times> nat) set" where
  "reach E 0 = E"
| "reach E (Suc k) = reach E k \<union> {(a, b). (a, k) \<in> reach E k \<and> (k, b) \<in> reach E k}"

lemma reach_sound: "reach E k \<subseteq> E\<^sup>+"
  by (induction k) (auto intro: trancl_trans)

lemma reach_mono: "E \<subseteq> reach E k"
  by (induction k) auto

lemma reach_compose: "(a, m) \<in> reach E k \<Longrightarrow> (m, b) \<in> reach E k \<Longrightarrow> m < k \<Longrightarrow> (a, b) \<in> reach E k"
proof (induction k arbitrary: a m b)
  case (Suc k)
  show ?case
  proof (cases "m = k")
    case False
    then have "m < k" using Suc.prems(3) by simp
    note step = Suc.IH [OF _ _ this]
    from Suc.prems(1,2) step show ?thesis by auto
  qed (use Suc.prems in auto)
qed simp

lemma reach_eq_trancl:
  assumes "E \<subseteq> {..<n} \<times> {..<n}"
  shows "reach E n = E\<^sup>+"
proof
  have "(a, b) \<in> reach E n" if "(a, b) \<in> E\<^sup>+" for a b
    using that
  proof (induction rule: trancl_induct)
    case (step b c)
    then show ?case using reach_compose [of a b E n c] reach_mono [of E n] assms by blast
  qed (use reach_mono in blast)
  then show "E\<^sup>+ \<subseteq> reach E n" by auto
qed (rule reach_sound)

lemma closure_loops_eq:
  assumes "assigns n True ok assign" and "ok st"
  shows "\<exists>st'. closure_loops n assign st = Inr st' \<and> ok st' \<and> edges_of n (fst st') = (edges_of n (fst st))\<^sup>+"
proof -
  let ?E = "edges_of n (fst st)"
  have "\<exists>st'. closure_loops n assign st = Inr st' \<and> (ok st' \<and> edges_of n (fst st') = reach ?E n)"
    unfolding closure_loops_def
  proof (rule res_fold_upt [where P = "\<lambda>k st'. ok st' \<and> edges_of n (fst st') = reach ?E k"])
    fix k st1
    assume k: "k < n" and "ok st1 \<and> edges_of n (fst st1) = reach ?E k"
    with closure_round [OF assms(1) _ k, of st1]
    show "\<exists>st'. res_fold (\<lambda>st i. if has_edge n (fst st) i k
        then res_fold (\<lambda>st j. if has_edge n (fst st) k j then assign st i j else Inr st) st [0..<n]
        else Inr st) st1 [0..<n] = Inr st' \<and> (ok st' \<and> edges_of n (fst st') = reach ?E (Suc k))" by auto
  qed (use assms(2) in simp)
  moreover have "?E \<subseteq> {..<n} \<times> {..<n}" by (auto simp: edges_of_def)
  ultimately show ?thesis by (simp add: reach_eq_trancl)
qed

section \<open>The reduction\<close>

lemma reduction_row:
  assumes "assigns n False ok assign" and "ok st" and "i < n" and "j < n" and "i \<noteq> j"
  shows "\<exists>st'. res_fold (\<lambda>st k. if has_edge n (fst st) j k then assign st i k else Inr st) st [0..<n] = Inr st' \<and>
    ok st' \<and> edges_of n (fst st') = edges_of n (fst st) - {i} \<times> (edges_of n (fst st) `` {j})"
proof -
  let ?E = "edges_of n (fst st)"
  have "\<exists>st'. res_fold (\<lambda>st k. if has_edge n (fst st) j k then assign st i k else Inr st) st [0..<n] = Inr st' \<and>
    (ok st' \<and> edges_of n (fst st') = ?E - {i} \<times> {k \<in> ?E `` {j}. k < n})"
  proof (rule res_fold_upt [where P = "\<lambda>k st'. ok st' \<and> edges_of n (fst st') = ?E - {i} \<times> {l \<in> ?E `` {j}. l < k}"])
    fix k st1
    assume k: "k < n" and "ok st1 \<and> edges_of n (fst st1) = ?E - {i} \<times> {l \<in> ?E `` {j}. l < k}"
    then have st1: "ok st1" "edges_of n (fst st1) = ?E - {i} \<times> {l \<in> ?E `` {j}. l < k}" by blast+
    have jk: "has_edge n (fst st1) j k \<longleftrightarrow> (j, k) \<in> ?E" using assms(4,5) k by (auto simp: edges_of_iff st1(2))
    show "\<exists>st'. (if has_edge n (fst st1) j k then assign st1 i k else Inr st1) = Inr st' \<and>
        (ok st' \<and> edges_of n (fst st') = ?E - {i} \<times> {l \<in> ?E `` {j}. l < Suc k})"
    proof (cases "(j, k) \<in> ?E")
      case True
      obtain st2 where "assign st1 i k = Inr st2" "ok st2" "edges_of n (fst st2) = edges_of n (fst st1) - {(i, k)}"
        using assignsD [OF assms(1) st1(1) assms(3) k] by auto
      moreover have "{l \<in> ?E `` {j}. l < Suc k} = insert k {l \<in> ?E `` {j}. l < k}"
        using True by (auto simp: less_Suc_eq)
      ultimately show ?thesis using True jk by (auto simp: st1(2))
    next
      case False
      then have "{l \<in> ?E `` {j}. l < Suc k} = {l \<in> ?E `` {j}. l < k}" by (auto simp: less_Suc_eq)
      with False show ?thesis using st1 jk by simp
    qed
  qed (use assms(2) in auto)
  moreover have "{k \<in> ?E `` {j}. k < n} = ?E `` {j}" by (auto simp: edges_of_def)
  ultimately show ?thesis by simp
qed

lemma reduction_round:
  assumes "assigns n False ok assign" and "ok st" and "j < n" and irrefl: "(j, j) \<notin> edges_of n (fst st)"
  shows "\<exists>st'. res_fold (\<lambda>st i. if has_edge n (fst st) i j
      then res_fold (\<lambda>st k. if has_edge n (fst st) j k then assign st i k else Inr st) st [0..<n]
      else Inr st) st [0..<n] = Inr st' \<and> ok st' \<and>
    edges_of n (fst st') = edges_of n (fst st) - {(i, k). (i, j) \<in> edges_of n (fst st) \<and> (j, k) \<in> edges_of n (fst st)}"
    (is "\<exists>st'. res_fold ?f st _ = _ \<and> _")
proof -
  let ?E = "edges_of n (fst st)"
  have "\<exists>st'. res_fold ?f st [0..<n] = Inr st' \<and>
    (ok st' \<and> edges_of n (fst st') = ?E - {(i, k). i < n \<and> (i, j) \<in> ?E \<and> (j, k) \<in> ?E})"
  proof (rule res_fold_upt [where P = "\<lambda>i st'. ok st' \<and>
      edges_of n (fst st') = ?E - {(a, k). a < i \<and> (a, j) \<in> ?E \<and> (j, k) \<in> ?E}"])
    fix i st1
    assume i: "i < n" and "ok st1 \<and> edges_of n (fst st1) = ?E - {(a, k). a < i \<and> (a, j) \<in> ?E \<and> (j, k) \<in> ?E}"
    then have st1: "ok st1" "edges_of n (fst st1) = ?E - {(a, k). a < i \<and> (a, j) \<in> ?E \<and> (j, k) \<in> ?E}" by blast+
    have ij: "has_edge n (fst st1) i j \<longleftrightarrow> (i, j) \<in> ?E" using assms(3) i by (auto simp: edges_of_iff st1(2))
    have row: "edges_of n (fst st1) `` {j} = ?E `` {j}" using irrefl by (auto simp: st1(2))
    show "\<exists>st'. ?f st1 i = Inr st' \<and>
        (ok st' \<and> edges_of n (fst st') = ?E - {(a, k). a < Suc i \<and> (a, j) \<in> ?E \<and> (j, k) \<in> ?E})"
    proof (cases "(i, j) \<in> ?E")
      case True
      then have "i \<noteq> j" using irrefl by blast
      from reduction_row [OF assms(1) st1(1) i assms(3) this] True show ?thesis
        unfolding ij row by (auto simp: st1(2) less_Suc_eq)
    next
      case False
      then have "{(a, k). a < Suc i \<and> (a, j) \<in> ?E \<and> (j, k) \<in> ?E} = {(a, k). a < i \<and> (a, j) \<in> ?E \<and> (j, k) \<in> ?E}"
        by (auto simp: less_Suc_eq)
      with False show ?thesis using st1 ij by simp
    qed
  qed (use assms(2) in auto)
  moreover have "{(i, k). i < n \<and> (i, j) \<in> ?E \<and> (j, k) \<in> ?E} = {(i, k). (i, j) \<in> ?E \<and> (j, k) \<in> ?E}"
    by (auto simp: edges_of_def)
  ultimately show ?thesis by simp
qed

text \<open>The edges of a transitive relation with no node below \<open>j\<close> in between.\<close>

definition reduced :: "(nat \<times> nat) set \<Rightarrow> nat \<Rightarrow> (nat \<times> nat) set" where
  "reduced C j = {(a, b) \<in> C. \<not> (\<exists>m < j. (a, m) \<in> C \<and> (m, b) \<in> C)}"

lemma reduced_iff: "(a, b) \<in> reduced C j \<longleftrightarrow> (a, b) \<in> C \<and> (\<forall>m < j. (a, m) \<in> C \<longrightarrow> (m, b) \<notin> C)"
  by (auto simp: reduced_def)

lemma reduced_between:
  assumes "trans C" and "(a, b) \<in> reduced C j" and "(a, m) \<in> C" and "(m, b) \<in> C"
  shows "(a, m) \<in> reduced C j" and "(m, b) \<in> reduced C j"
  using assms transD [OF assms(1)] unfolding reduced_iff by metis+

lemma reduced_Suc:
  assumes "trans C"
  shows "reduced C (Suc j) = reduced C j - {(a, b). (a, j) \<in> reduced C j \<and> (j, b) \<in> reduced C j}"
proof -
  have "(a, b) \<in> reduced C (Suc j) \<longleftrightarrow> (a, b) \<in> reduced C j \<and> \<not> ((a, j) \<in> C \<and> (j, b) \<in> C)" for a b
    unfolding reduced_iff by (metis less_Suc_eq)
  moreover have "(a, j) \<in> C" if "(a, j) \<in> reduced C j" for a using that by (simp add: reduced_iff)
  moreover have "(j, b) \<in> C" if "(j, b) \<in> reduced C j" for b using that by (simp add: reduced_iff)
  ultimately have "(a, b) \<in> reduced C (Suc j) \<longleftrightarrow>
      (a, b) \<in> reduced C j \<and> \<not> ((a, j) \<in> reduced C j \<and> (j, b) \<in> reduced C j)" for a b
    using reduced_between [OF assms, of a b j j] by metis
  then show ?thesis by auto
qed

lemma reduction_loops_eq:
  assumes "assigns n False ok assign" and "ok st" and trans: "trans (edges_of n (fst st))"
    and irrefl: "\<And>a. (a, a) \<notin> edges_of n (fst st)"
  shows "\<exists>st'. reduction_loops n assign st = Inr st' \<and> ok st' \<and>
    edges_of n (fst st') = {(a, b) \<in> edges_of n (fst st). \<not> (\<exists>m. (a, m) \<in> edges_of n (fst st) \<and> (m, b) \<in> edges_of n (fst st))}"
proof -
  let ?E = "edges_of n (fst st)"
  have "\<exists>st'. reduction_loops n assign st = Inr st' \<and> (ok st' \<and> edges_of n (fst st') = reduced ?E n)"
    unfolding reduction_loops_def
  proof (rule res_fold_upt [where P = "\<lambda>j st'. ok st' \<and> edges_of n (fst st') = reduced ?E j"])
    show "ok st \<and> ?E = reduced ?E 0" using assms(2) by (simp add: reduced_def)
    fix j st1
    assume j: "j < n" and "ok st1 \<and> edges_of n (fst st1) = reduced ?E j"
    then have st1: "ok st1" "edges_of n (fst st1) = reduced ?E j" by blast+
    have "(j, j) \<notin> edges_of n (fst st1)" using irrefl by (simp add: st1(2) reduced_def)
    from reduction_round [OF assms(1) st1(1) j this]
    show "\<exists>st'. res_fold (\<lambda>st i. if has_edge n (fst st) i j
        then res_fold (\<lambda>st k. if has_edge n (fst st) j k then assign st i k else Inr st) st [0..<n]
        else Inr st) st1 [0..<n] = Inr st' \<and> (ok st' \<and> edges_of n (fst st') = reduced ?E (Suc j))"
      unfolding st1(2) reduced_Suc [OF trans] by simp
  qed
  moreover have "reduced ?E n = {(a, b) \<in> ?E. \<not> (\<exists>m. (a, m) \<in> ?E \<and> (m, b) \<in> ?E)}"
    by (auto simp: reduced_def edges_of_def)
  ultimately show ?thesis by simp
qed

section \<open>Numbers and nodes\<close>

definition numbered :: "node list \<Rightarrow> (nat, node) bidict \<Rightarrow> bool" where
  "numbered ns nodes \<longleftrightarrow> (\<forall>i < length ns. at_l nodes i = Inr (ns ! i) \<and> at_r nodes (ns ! i) = Inr i)"

lemma bidict_from_enumerating_eq:
  assumes "finite s"
  shows "\<exists>nodes. bidict_from_enumerating s = Inr nodes \<and> numbered (sorted_list_of_set s) nodes"
proof -
  let ?ns = "sorted_list_of_set s"
  have len: "length ?ns = card s" using assms by simp
  have "distinct (map fst (zip [0..<card s] ?ns))" "distinct (map snd (zip [0..<card s] ?ns))" by simp_all
  from bidict_from_pairs_total [OF this] obtain nodes where
    nodes: "bidict_from_enumerating s = Inr nodes" "wf_bidict nodes" "fwd_map nodes = map_of (zip [0..<card s] ?ns)"
    by (auto simp: bidict_from_enumerating_def)
  have "fwd_map nodes i = Some (?ns ! i)" if "i < length ?ns" for i
    unfolding nodes(3) using that len map_of_zip_nth [of "[0..<card s]" ?ns i] by simp
  then have "numbered ?ns nodes"
    using wf_bidictD [OF nodes(2)] by (simp add: numbered_def)
  with nodes(1) show ?thesis by blast
qed

definition pairs :: "node list \<Rightarrow> (nat \<times> nat) set \<Rightarrow> (node \<times> node) set" where
  "pairs ns R = (\<lambda>(i, j). (ns ! i, ns ! j)) ` R"

lemma pairs_insert [simp]: "pairs ns (insert (i, j) R) = insert (ns ! i, ns ! j) (pairs ns R)"
  by (simp add: pairs_def)

lemma pairs_iff:
  assumes "distinct ns" and "R \<subseteq> {..<length ns} \<times> {..<length ns}" and "i < length ns" and "j < length ns"
  shows "(ns ! i, ns ! j) \<in> pairs ns R \<longleftrightarrow> (i, j) \<in> R"
  using assms by (fastforce simp: pairs_def nth_eq_iff_index_eq)

lemma pairs_remove:
  assumes "distinct ns" and "R \<subseteq> {..<length ns} \<times> {..<length ns}" and "i < length ns" and "j < length ns"
  shows "pairs ns (R - {(i, j)}) = pairs ns R - {(ns ! i, ns ! j)}"
proof -
  have "inj_on (\<lambda>(i, j). (ns ! i, ns ! j)) ({..<length ns} \<times> {..<length ns})"
    using assms(1) by (auto simp: inj_on_def nth_eq_iff_index_eq)
  moreover have "R - {(i, j)} \<subseteq> {..<length ns} \<times> {..<length ns}" "{(i, j)} \<subseteq> {..<length ns} \<times> {..<length ns}"
    using assms by auto
  ultimately have "pairs ns (R - {(i, j)}) = pairs ns R - pairs ns {(i, j)}"
    unfolding pairs_def by (rule inj_on_image_set_diff)
  then show ?thesis by (simp add: pairs_def)
qed

lemma pairs_trancl:
  assumes "distinct ns" and R: "R \<subseteq> {..<length ns} \<times> {..<length ns}"
  shows "pairs ns (R\<^sup>+) = (pairs ns R)\<^sup>+"
proof
  have "(ns ! a, ns ! b) \<in> (pairs ns R)\<^sup>+" if "(a, b) \<in> R\<^sup>+" for a b
    using that
  proof (induction rule: trancl_induct)
    case (base b)
    then show ?case by (auto simp: pairs_def)
  next
    case (step b c)
    then have "(ns ! b, ns ! c) \<in> pairs ns R" by (auto simp: pairs_def)
    with step.IH show ?case by (rule trancl_into_trancl)
  qed
  then show "pairs ns (R\<^sup>+) \<subseteq> (pairs ns R)\<^sup>+" by (auto simp: pairs_def)
  have "\<exists>a b. x = ns ! a \<and> y = ns ! b \<and> (a, b) \<in> R\<^sup>+" if "(x, y) \<in> (pairs ns R)\<^sup>+" for x y
    using that
  proof (induction rule: trancl_induct)
    case (base y)
    then show ?case by (auto simp: pairs_def)
  next
    case (step y z)
    then obtain a b where ab: "x = ns ! a" "y = ns ! b" "(a, b) \<in> R\<^sup>+" by blast
    obtain b' d where bd: "y = ns ! b'" "z = ns ! d" "(b', d) \<in> R" using step(2) by (auto simp: pairs_def)
    have "b < length ns" using trancl_subset_Sigma [OF R] ab(3) by blast
    moreover have "b' < length ns" using bd(3) R by blast
    ultimately have "b = b'" using ab(2) bd(1) assms(1) by (simp add: nth_eq_iff_index_eq)
    with ab bd show ?case by (metis trancl.trancl_into_trancl)
  qed
  then show "(pairs ns R)\<^sup>+ \<subseteq> pairs ns (R\<^sup>+)" by (fastforce simp: pairs_def)
qed

lemma edges_of_subset: "edges_of n m \<subseteq> {..<n} \<times> {..<n}"
  by (auto simp: edges_of_def)

lemma matrix_of_edges_eq:
  assumes "numbered ns nodes" and n: "n = length ns" "n * n \<le> INT_MAX"
    and edges: "\<forall>e \<in> set es. de_src e \<in> set ns \<and> de_dst e \<in> set ns"
  shows "\<exists>m. matrix_of_edges nodes n es = Inr m \<and> length m = n * n \<and>
    pairs ns (edges_of n m) = (\<lambda>e. (de_src e, de_dst e)) ` set es"
proof -
  let ?f = "\<lambda>edge_matrix e. res_bind (at_r nodes (de_src e)) (\<lambda>i. res_bind (at_r nodes (de_dst e)) (\<lambda>j.
    Inr (set_edge n edge_matrix i j True)))"
  have fold: "\<exists>m'. res_fold ?f m es = Inr m' \<and> length m' = n * n \<and>
      pairs ns (edges_of n m') = pairs ns (edges_of n m) \<union> (\<lambda>e. (de_src e, de_dst e)) ` set es"
    if "length m = n * n" for m
    using edges that
  proof (induction es arbitrary: m)
    case (Cons e es)
    then obtain i j where ij: "i < n" "ns ! i = de_src e" "j < n" "ns ! j = de_dst e"
      using n(1) by (metis in_set_conv_nth list.set_intros(1))
    then have "?f m e = Inr (set_edge n m i j True)"
      using assms(1) n(1) unfolding numbered_def by (metis res_bind_simps(2))
    then have "res_fold ?f m (e # es) = res_fold ?f (set_edge n m i j True) es" by (simp only: res_fold.simps res_bind_simps)
    moreover have "\<exists>m'. res_fold ?f (set_edge n m i j True) es = Inr m' \<and> length m' = n * n \<and>
        pairs ns (edges_of n m') = pairs ns (edges_of n (set_edge n m i j True)) \<union> (\<lambda>e. (de_src e, de_dst e)) ` set es"
      by (rule Cons.IH) (use Cons.prems in auto)
    ultimately show ?case
      using edges_of_set_edge [OF Cons.prems(2) ij(1,3), of True] ij by simp
  qed simp
  have "cint (int n * int n) = Inr (int (n * n))"
    using n(2) by (metis cint_of_nat of_nat_mult)
  then have "matrix_of_edges nodes n es = res_fold ?f (replicate (n * n) False) es"
    by (simp add: matrix_of_edges_def nat_mult_distrib)
  moreover have "edges_of n (replicate (n * n) False) = {}"
    using index_less by (auto simp: edges_of_def has_edge_def)
  ultimately show ?thesis using fold [of "replicate (n * n) False"] by (simp add: pairs_def)
qed

section \<open>Closure and reduction of a graph\<close>

text \<open>The start both share: the numbering of the nodes and the matrix of the edges.\<close>

lemma matrix_start:
  assumes wf: "wf_digraph_view g" and "card (get_nodes g) * card (get_nodes g) \<le> INT_MAX"
  obtains nodes m where "bidict_from_enumerating (get_nodes g) = Inr nodes"
    "numbered (sorted_list_of_set (get_nodes g)) nodes"
    "matrix_of_edges nodes (card (get_nodes g)) (sorted_list_of_set (get_edges g)) = Inr m"
    "length m = card (get_nodes g) * card (get_nodes g)"
    "pairs (sorted_list_of_set (get_nodes g)) (edges_of (card (get_nodes g)) m) = edge_rel g"
proof -
  let ?ns = "sorted_list_of_set (get_nodes g)" and ?es = "sorted_list_of_set (get_edges g)"
  obtain nodes where nodes: "bidict_from_enumerating (get_nodes g) = Inr nodes" "numbered ?ns nodes"
    using bidict_from_enumerating_eq [OF wf_finite(1) [OF wf]] by blast
  have ends: "\<forall>e \<in> set ?es. de_src e \<in> set ?ns \<and> de_dst e \<in> set ?ns"
    using wf edge_rel_subset [OF wf] by (auto simp: edge_in)
  have len: "card (get_nodes g) = length ?ns" using wf by simp
  from matrix_of_edges_eq [OF nodes(2) len assms(2) ends] obtain m where
    "matrix_of_edges nodes (card (get_nodes g)) ?es = Inr m" "length m = card (get_nodes g) * card (get_nodes g)"
    "pairs ?ns (edges_of (card (get_nodes g)) m) = (\<lambda>e. (de_src e, de_dst e)) ` set ?es" by blast
  moreover have "(\<lambda>e. (de_src e, de_dst e)) ` set ?es = edge_rel g"
    using wf by (force simp: edge_rel_def)
  ultimately show ?thesis using nodes that by simp
qed

lemma numbered_at:
  assumes "numbered (sorted_list_of_set s) nodes" and "finite s" and "i < card s"
  shows "at_l nodes i = Inr (sorted_list_of_set s ! i)" and "sorted_list_of_set s ! i \<in> s"
  using assms nth_mem [of i "sorted_list_of_set s"] by (simp_all add: numbered_def del: at_l_eq)

lemma edge_rel_adjacency_edges:
  "get_edges (view_of_adjacency h) = E \<Longrightarrow> edge_rel (view_of_adjacency h) = (\<lambda>e. (de_src e, de_dst e)) ` E"
  by (force simp: edge_rel_def)

lemma transitive_closure_eq:
  assumes wf: "wf_digraph_view g" and "card (get_nodes g) * card (get_nodes g) \<le> INT_MAX"
  shows "\<exists>h. transitive_closure g = Inr h \<and> wf_adjacency h \<and> dom h = get_nodes g \<and>
    edge_rel (view_of_adjacency h) = (edge_rel g)\<^sup>+"
proof -
  let ?n = "card (get_nodes g)" and ?ns = "sorted_list_of_set (get_nodes g)"
  obtain nodes m where start: "bidict_from_enumerating (get_nodes g) = Inr nodes" "numbered ?ns nodes"
    "matrix_of_edges nodes ?n (sorted_list_of_set (get_edges g)) = Inr m" "length m = ?n * ?n"
    "pairs ?ns (edges_of ?n m) = edge_rel g" using matrix_start [OF assms] .
  obtain r where r: "materialize_digraph_view g = Inr r" "wf_adjacency r" "dom r = get_nodes g"
    "get_edges (view_of_adjacency r) = get_edges g" using materialize_eq [OF wf] by blast
  define ok where "ok st \<longleftrightarrow> length (fst st) = ?n * ?n \<and> wf_adjacency (snd st) \<and> dom (snd st) = get_nodes g \<and>
    edge_rel (view_of_adjacency (snd st)) = pairs ?ns (edges_of ?n (fst st))" for st :: "bool list \<times> adjacency_digraph"
  let ?assign = "\<lambda>(edge_matrix, result) i j.
         res_bind (at_l nodes i) (\<lambda>src.
         res_bind (at_l nodes j) (\<lambda>dst.
         res_bind (add_edge result (DirectedEdge src dst)) (\<lambda>result.
         Inr (set_edge ?n edge_matrix i j True, result))))"
  have "assigns ?n True ok ?assign"
    unfolding assigns_def
  proof (intro allI impI)
    fix st i j assume st: "ok st" and i: "i < ?n" and j: "j < ?n"
    obtain m1 r1 where [simp]: "st = (m1, r1)" by (cases st)
    note at = numbered_at [OF start(2) wf_finite(1) [OF wf]]
    have "?ns ! i \<in> dom r1" "?ns ! j \<in> dom r1" using st at(2) [OF i] at(2) [OF j] by (simp_all add: ok_def)
    then obtain h where h: "add_edge r1 (DirectedEdge (?ns ! i) (?ns ! j)) = Inr h" "wf_adjacency h" "dom h = dom r1"
      "get_edges (view_of_adjacency h) = insert (DirectedEdge (?ns ! i) (?ns ! j)) (get_edges (view_of_adjacency r1))"
      using add_edge_eq [of r1 "DirectedEdge (?ns ! i) (?ns ! j)"] st by (auto simp: ok_def)
    have "edge_rel (view_of_adjacency h) = insert (?ns ! i, ?ns ! j) (edge_rel (view_of_adjacency r1))"
      by (auto simp: edge_rel_def h(4))
    moreover have "length m1 = ?n * ?n" using st by (simp add: ok_def)
    ultimately have "ok (set_edge ?n m1 i j True, h)"
      using st h(2,3) edges_of_set_edge [OF _ i j, of m1 True] by (simp add: ok_def)
    then show "\<exists>st'. ?assign st i j = Inr st' \<and> ok st' \<and> edges_of ?n (fst st') =
        (if True then insert (i, j) (edges_of ?n (fst st)) else edges_of ?n (fst st) - {(i, j)})"
      using h(1) at(1) [OF i] at(1) [OF j] edges_of_set_edge [OF \<open>length m1 = ?n * ?n\<close> i j, of True]
      by (simp del: at_l_eq)
  qed
  moreover have "ok (m, r)"
    using start(4,5) r by (simp add: ok_def edge_rel_def)
  ultimately obtain st' where st': "closure_loops ?n ?assign (m, r) = Inr st'" "ok st'"
    "edges_of ?n (fst st') = (edges_of ?n m)\<^sup>+" using closure_loops_eq [of ?n ok ?assign "(m, r)"] by auto
  have "pairs ?ns ((edges_of ?n m)\<^sup>+) = (edge_rel g)\<^sup>+"
    using pairs_trancl [of ?ns "edges_of ?n m"] edges_of_subset start(5) by simp
  with st' have "edge_rel (view_of_adjacency (snd st')) = (edge_rel g)\<^sup>+" by (simp add: ok_def)
  moreover have "transitive_closure g = Inr (snd st')"
    using start(1,3) r(1) st'(1) by (simp add: transitive_closure_def Let_def)
  ultimately show ?thesis using st'(2) by (simp add: ok_def)
qed

text \<open>The edges no other path replaces.\<close>

definition irreplaceable :: "(node \<times> node) set \<Rightarrow> (node \<times> node) set" where
  "irreplaceable E = {(a, b) \<in> E. \<not> (\<exists>m. (a, m) \<in> E\<^sup>+ \<and> (m, b) \<in> E\<^sup>+)}"

lemma transitive_reduction_eq:
  assumes wf: "wf_digraph_view g" and "card (get_nodes g) * card (get_nodes g) \<le> INT_MAX"
    and acyc: "acyclic (edge_rel g)"
  shows "\<exists>h. transitive_reduction g = Inr h \<and> wf_adjacency h \<and> dom h = get_nodes g \<and>
    edge_rel (view_of_adjacency h) = irreplaceable (edge_rel g)"
proof -
  let ?n = "card (get_nodes g)" and ?ns = "sorted_list_of_set (get_nodes g)"
  obtain nodes m where start: "bidict_from_enumerating (get_nodes g) = Inr nodes" "numbered ?ns nodes"
    "matrix_of_edges nodes ?n (sorted_list_of_set (get_edges g)) = Inr m" "length m = ?n * ?n"
    "pairs ?ns (edges_of ?n m) = edge_rel g" using matrix_start [OF assms(1,2)] .
  have ns: "distinct ?ns" "length ?ns = ?n" using wf by simp_all
  let ?closure = "\<lambda>(edge_matrix, u :: unit) i j. Inr (set_edge ?n edge_matrix i j True, u)"
  have "assigns ?n True (\<lambda>st. length (fst st) = ?n * ?n) ?closure"
    using edges_of_set_edge by (auto simp: assigns_def)
  from closure_loops_eq [OF this, of "(m, ())"] start(4) obtain c where
    c: "closure_loops ?n ?closure (m, ()) = Inr c" "length (fst c) = ?n * ?n" "edges_of ?n (fst c) = (edges_of ?n m)\<^sup>+"
    by auto
  have C: "pairs ?ns (edges_of ?n (fst c)) = (edge_rel g)\<^sup>+"
    using pairs_trancl [of ?ns "edges_of ?n m"] edges_of_subset start(5) c(3) by simp
  obtain r where r: "materialize_digraph_view g = Inr r" "wf_adjacency r" "dom r = get_nodes g"
    "get_edges (view_of_adjacency r) = get_edges g" using materialize_eq [OF wf] by blast
  define ok where "ok st \<longleftrightarrow> length (fst st) = ?n * ?n \<and> wf_adjacency (snd st) \<and> dom (snd st) = get_nodes g \<and>
    edge_rel (view_of_adjacency (snd st)) = edge_rel g \<inter> pairs ?ns (edges_of ?n (fst st))"
    for st :: "bool list \<times> adjacency_digraph"
  let ?assign = "\<lambda>(edge_matrix, result) i k.
         res_bind (at_l nodes i) (\<lambda>src.
         res_bind (at_l nodes k) (\<lambda>dst.
         res_bind (remove_edge result (DirectedEdge src dst)) (\<lambda>result.
         Inr (set_edge ?n edge_matrix i k False, result))))"
  have "assigns ?n False ok ?assign"
    unfolding assigns_def
  proof (intro allI impI)
    fix st i j assume st: "ok st" and i: "i < ?n" and j: "j < ?n"
    obtain m1 r1 where [simp]: "st = (m1, r1)" by (cases st)
    note at = numbered_at [OF start(2) wf_finite(1) [OF wf]]
    have "?ns ! i \<in> dom r1" using st at(2) [OF i] by (simp add: ok_def)
    then obtain h where h: "remove_edge r1 (DirectedEdge (?ns ! i) (?ns ! j)) = Inr h" "wf_adjacency h" "dom h = dom r1"
      "get_edges (view_of_adjacency h) = get_edges (view_of_adjacency r1) - {DirectedEdge (?ns ! i) (?ns ! j)}"
      using remove_edge_eq [of r1 "DirectedEdge (?ns ! i) (?ns ! j)"] st by (auto simp: ok_def)
    have "edge_rel (view_of_adjacency h) = edge_rel (view_of_adjacency r1) - {(?ns ! i, ?ns ! j)}"
      by (auto simp: edge_rel_def h(4))
    moreover have len: "length m1 = ?n * ?n" using st by (simp add: ok_def)
    moreover have "pairs ?ns (edges_of ?n m1 - {(i, j)}) = pairs ?ns (edges_of ?n m1) - {(?ns ! i, ?ns ! j)}"
      using edges_of_subset i j ns by (intro pairs_remove) simp_all
    ultimately have "ok (set_edge ?n m1 i j False, h)"
      using st h(2,3) edges_of_set_edge [OF len i j, of False] by (auto simp: ok_def)
    then show "\<exists>st'. ?assign st i j = Inr st' \<and> ok st' \<and> edges_of ?n (fst st') =
        (if False then insert (i, j) (edges_of ?n (fst st)) else edges_of ?n (fst st) - {(i, j)})"
      using h(1) at(1) [OF i] at(1) [OF j] edges_of_set_edge [OF len i j, of False]
      by (simp del: at_l_eq)
  qed
  moreover have "edge_rel (view_of_adjacency r) = edge_rel g" by (simp add: edge_rel_def r(4))
  then have "ok (fst c, r)"
    using c(2) r C by (auto simp: ok_def)
  moreover have "trans (edges_of ?n (fst c))" unfolding c(3) by (rule trans_trancl)
  moreover have "(a, a) \<notin> edges_of ?n (fst c)" for a
  proof
    assume "(a, a) \<in> edges_of ?n (fst c)"
    then have "(?ns ! a, ?ns ! a) \<in> (edge_rel g)\<^sup>+" unfolding C [symmetric] pairs_def by force
    with acyc show False by (simp add: acyclic_def)
  qed
  ultimately obtain st' where st': "reduction_loops ?n ?assign (fst c, r) = Inr st'" "ok st'" "edges_of ?n (fst st') =
      {(a, b) \<in> edges_of ?n (fst c). \<not> (\<exists>m. (a, m) \<in> edges_of ?n (fst c) \<and> (m, b) \<in> edges_of ?n (fst c))}"
    using reduction_loops_eq [of ?n ok ?assign "(fst c, r)"] by auto
  have "edge_rel g \<inter> pairs ?ns (edges_of ?n (fst st')) = irreplaceable (edge_rel g)"
  proof (rule set_eqI)
    fix x :: "node \<times> node"
    obtain a b where x: "x = (a, b)" by (cases x)
    show "x \<in> edge_rel g \<inter> pairs ?ns (edges_of ?n (fst st')) \<longleftrightarrow> x \<in> irreplaceable (edge_rel g)"
    proof (cases "(a, b) \<in> edge_rel g")
      case True
      have "a \<in> set ?ns" "b \<in> set ?ns" using True wf_endpoints [OF wf True] wf by simp_all
      then obtain i j where ij: "i < ?n" "a = ?ns ! i" "j < ?n" "b = ?ns ! j" using ns(2) by (metis in_set_conv_nth)
      have mem: "(?ns ! k, ?ns ! l) \<in> (edge_rel g)\<^sup>+ \<longleftrightarrow> (k, l) \<in> edges_of ?n (fst c)" if "k < ?n" "l < ?n" for k l
        unfolding C [symmetric] using ns edges_of_subset that by (intro pairs_iff) simp_all
      have "(a, b) \<in> pairs ?ns (edges_of ?n (fst st')) \<longleftrightarrow> (i, j) \<in> edges_of ?n (fst st')"
        unfolding ij(2,4) using ns edges_of_subset ij by (intro pairs_iff) simp_all
      also have "\<dots> \<longleftrightarrow> \<not> (\<exists>k. (i, k) \<in> edges_of ?n (fst c) \<and> (k, j) \<in> edges_of ?n (fst c))"
        using True mem [OF ij(1,3)] unfolding st'(3) ij(2,4) by auto
      also have "\<dots> \<longleftrightarrow> \<not> (\<exists>m. (a, m) \<in> (edge_rel g)\<^sup>+ \<and> (m, b) \<in> (edge_rel g)\<^sup>+)"
      proof -
        have "\<exists>k < ?n. m = ?ns ! k" if "(a, m) \<in> (edge_rel g)\<^sup>+" for m
        proof -
          have "m \<in> get_nodes g" using trancl_subset_Sigma [OF edge_rel_subset [OF wf]] that by blast
          then have "m \<in> set ?ns" using wf by simp
          then show ?thesis using ns(2) by (metis in_set_conv_nth)
        qed
        moreover have "k < ?n" if "(i, k) \<in> edges_of ?n (fst c)" for k using that edges_of_subset by blast
        ultimately show ?thesis unfolding ij(2,4) using mem ij(1,3) by metis
      qed
      finally show ?thesis using True by (simp add: x irreplaceable_def)
    qed (simp add: x irreplaceable_def)
  qed
  with st'(2) have "edge_rel (view_of_adjacency (snd st')) = irreplaceable (edge_rel g)" by (simp add: ok_def)
  moreover have "transitive_reduction g = Inr (snd st')"
    using start(1,3) c(1) r(1) st'(1) by (simp add: transitive_reduction_def Let_def)
  ultimately show ?thesis using st'(2) by (simp add: ok_def)
qed

lemma irreplaceable_trancl:
  assumes "finite E" and "acyclic E"
  shows "(irreplaceable E)\<^sup>+ = E\<^sup>+"
proof
  have "irreplaceable E \<subseteq> E" by (auto simp: irreplaceable_def)
  then show "(irreplaceable E)\<^sup>+ \<subseteq> E\<^sup>+" by (rule trancl_mono_subset)
  have fin: "finite {m. (a, m) \<in> E\<^sup>+ \<and> (m, b) \<in> E\<^sup>+}" for a b
  proof (rule finite_subset [of _ "Range E"])
    show "{m. (a, m) \<in> E\<^sup>+ \<and> (m, b) \<in> E\<^sup>+} \<subseteq> Range E" by (auto dest: tranclD2)
  qed (use assms(1) in \<open>simp add: finite_Range\<close>)
  have "(a, b) \<in> (irreplaceable E)\<^sup>+" if "(a, b) \<in> E\<^sup>+" for a b
    using that
  proof (induction "card {m. (a, m) \<in> E\<^sup>+ \<and> (m, b) \<in> E\<^sup>+}" arbitrary: a b rule: less_induct)
    case less
    show ?case
    proof (cases "\<exists>m. (a, m) \<in> E\<^sup>+ \<and> (m, b) \<in> E\<^sup>+")
      case True
      then obtain m where m: "(a, m) \<in> E\<^sup>+" "(m, b) \<in> E\<^sup>+" by blast
      have irr: "(m, m) \<notin> E\<^sup>+" using assms(2) by (simp add: acyclic_def)
      have "card {k. (a, k) \<in> E\<^sup>+ \<and> (k, m) \<in> E\<^sup>+} < card {m. (a, m) \<in> E\<^sup>+ \<and> (m, b) \<in> E\<^sup>+}"
        using m irr by (intro psubset_card_mono fin) (auto intro: trancl_trans)
      moreover have "card {k. (m, k) \<in> E\<^sup>+ \<and> (k, b) \<in> E\<^sup>+} < card {m. (a, m) \<in> E\<^sup>+ \<and> (m, b) \<in> E\<^sup>+}"
        using m irr by (intro psubset_card_mono fin) (auto intro: trancl_trans)
      ultimately show ?thesis using less.hyps m by (meson trancl_trans)
    next
      case False
      then have "(a, b) \<in> E" using less.prems by (metis tranclE r_into_trancl')
      with False show ?thesis by (auto simp: irreplaceable_def)
    qed
  qed
  then show "E\<^sup>+ \<subseteq> (irreplaceable E)\<^sup>+" by auto
qed

lemma irreplaceable_least:
  assumes "R\<^sup>+ = E\<^sup>+"
  shows "irreplaceable E \<subseteq> R"
proof
  fix x assume "x \<in> irreplaceable E"
  then obtain a b where x: "x = (a, b)" "(a, b) \<in> E" "\<not> (\<exists>m. (a, m) \<in> E\<^sup>+ \<and> (m, b) \<in> E\<^sup>+)"
    by (auto simp: irreplaceable_def)
  then have "(a, b) \<in> R\<^sup>+" using assms by auto
  then show "x \<in> R" using x assms by (metis tranclE r_into_trancl')
qed

text \<open>
  Claim C27. The transitive closure of a graph whose adjacency matrix an \<open>int\<close> can index keeps the nodes,
  and has an edge wherever the graph has a path.
\<close>

theorem transitive_closure_connects_paths:
  assumes "wf_digraph_view g" and "card (get_nodes g) * card (get_nodes g) \<le> INT_MAX"
  shows "\<exists>h. transitive_closure g = Inr h \<and> wf_digraph_view (view_of_adjacency h) \<and>
    get_nodes (view_of_adjacency h) = get_nodes g \<and> edge_rel (view_of_adjacency h) = (edge_rel g)\<^sup>+"
  using transitive_closure_eq [OF assms] wf_view_of_adjacency by (auto simp: adjacency_nodes)

lemma card_nodes_diamond: "card (get_nodes (view_of_adjacency diamond)) = 4"
proof -
  have "dom diamond = {0, 1, 2, 3}" by (auto simp: diamond_def split: if_splits)
  then show ?thesis by (simp add: adjacency_nodes)
qed

theorem transitive_closure_connects_paths_witness:
  "\<exists>h. transitive_closure (view_of_adjacency diamond) = Inr h \<and> wf_digraph_view (view_of_adjacency h) \<and>
    get_nodes (view_of_adjacency h) = get_nodes (view_of_adjacency diamond) \<and>
    edge_rel (view_of_adjacency h) = (edge_rel (view_of_adjacency diamond))\<^sup>+"
  by (rule transitive_closure_connects_paths [OF wf_examples(1)]) (simp add: card_nodes_diamond INT_MAX_def)

text \<open>
  Claim C18. The transitive reduction of an acyclic graph has the same nodes and paths, only edges of the
  graph, and no more of them than any other graph with these paths.
\<close>

theorem transitive_reduction_minimal:
  assumes "wf_digraph_view g" and "card (get_nodes g) * card (get_nodes g) \<le> INT_MAX"
    and "acyclic (edge_rel g)"
  shows "\<exists>h. transitive_reduction g = Inr h \<and> wf_digraph_view (view_of_adjacency h) \<and>
    get_nodes (view_of_adjacency h) = get_nodes g \<and> edge_rel (view_of_adjacency h) \<subseteq> edge_rel g \<and>
    (edge_rel (view_of_adjacency h))\<^sup>+ = (edge_rel g)\<^sup>+ \<and>
    (\<forall>R. R\<^sup>+ = (edge_rel g)\<^sup>+ \<longrightarrow> edge_rel (view_of_adjacency h) \<subseteq> R)"
proof -
  obtain h where h: "transitive_reduction g = Inr h" "wf_adjacency h" "dom h = get_nodes g"
    "edge_rel (view_of_adjacency h) = irreplaceable (edge_rel g)" using transitive_reduction_eq [OF assms] by blast
  moreover have "irreplaceable (edge_rel g) \<subseteq> edge_rel g" by (auto simp: irreplaceable_def)
  ultimately show ?thesis
    using wf_view_of_adjacency [OF h(2)] irreplaceable_trancl [OF finite_edge_rel [OF assms(1)] assms(3)]
      irreplaceable_least by (simp add: adjacency_nodes)
qed

theorem transitive_reduction_minimal_witness:
  "\<exists>h. transitive_reduction (view_of_adjacency diamond) = Inr h \<and> wf_digraph_view (view_of_adjacency h) \<and>
    get_nodes (view_of_adjacency h) = get_nodes (view_of_adjacency diamond) \<and>
    edge_rel (view_of_adjacency h) \<subseteq> edge_rel (view_of_adjacency diamond) \<and>
    (edge_rel (view_of_adjacency h))\<^sup>+ = (edge_rel (view_of_adjacency diamond))\<^sup>+ \<and>
    (\<forall>R. R\<^sup>+ = (edge_rel (view_of_adjacency diamond))\<^sup>+ \<longrightarrow> edge_rel (view_of_adjacency h) \<subseteq> R)"
  by (rule transitive_reduction_minimal [OF wf_examples(1) _ acyclic_diamond])
    (simp add: card_nodes_diamond INT_MAX_def)

end
