(* ===== verification/Graph_Builder.thy ===== *)
theory Graph_Builder
  imports Dataflow_Graphs
begin

text \<open>
  What the builders of computation graphs and of parallel computation graphs share: a method is a function
  from the state of a builder, its graph and the number of nodes made so far, to its result and the next
  state; where the code stops the state is not observed. \<open>keeps_for\<close> says that a method keeps a graph closed
  and typed by a relation between the label of a node and the labels of its inputs and outputs.
\<close>

section \<open>Methods that read and change the builder\<close>

type_synonym ('g, 'a) graph_builder = "'g \<times> nat \<Rightarrow> ('a \<times> 'g \<times> nat) res"

definition b_return :: "'a \<Rightarrow> ('g, 'a) graph_builder" where
  "b_return x = (\<lambda>s. Inr (x, s))"

definition b_bind :: "('g, 'a) graph_builder \<Rightarrow> ('a \<Rightarrow> ('g, 'b) graph_builder) \<Rightarrow> ('g, 'b) graph_builder" where
  "b_bind m f = (\<lambda>s. res_bind (m s) (\<lambda>(x, s'). f x s'))"

definition b_lift :: "'a res \<Rightarrow> ('g, 'a) graph_builder" where
  "b_lift r = (\<lambda>s. res_bind r (\<lambda>x. Inr (x, s)))"

definition b_read :: "('g \<Rightarrow> 'a res) \<Rightarrow> ('g, 'a) graph_builder" where
  "b_read f = (\<lambda>s. res_bind (f (fst s)) (\<lambda>x. Inr (x, s)))"

fun b_map :: "('a \<Rightarrow> ('g, 'b) graph_builder) \<Rightarrow> 'a list \<Rightarrow> ('g, 'b list) graph_builder" where
  "b_map f [] = b_return []"
| "b_map f (x # xs) = b_bind (f x) (\<lambda>y. b_bind (b_map f xs) (\<lambda>ys. b_return (y # ys)))"

text \<open>A loop that updates a variable.\<close>

fun b_fold :: "('b \<Rightarrow> 'a \<Rightarrow> ('g, 'a) graph_builder) \<Rightarrow> 'b list \<Rightarrow> 'a \<Rightarrow> ('g, 'a) graph_builder" where
  "b_fold f [] acc = b_return acc"
| "b_fold f (x # xs) acc = b_bind (f x acc) (b_fold f xs)"

text \<open>\<open>generate_map\<close> over a \<open>std::set\<close>, for a function that changes the builder.\<close>

definition b_generate_map :: "('k::linorder) set \<Rightarrow> ('k \<Rightarrow> ('g, 'v) graph_builder) \<Rightarrow> ('g, 'k \<rightharpoonup> 'v) graph_builder" where
  "b_generate_map ks f =
     b_bind (b_map (\<lambda>k. b_bind (f k) (\<lambda>v. b_return (k, v))) (sorted_list_of_set ks)) (\<lambda>kvs. b_return (map_of kvs))"

section \<open>Lemmas\<close>

lemma b_simps [simp]:
  "b_return x s = Inr (x, s)"
  "b_lift r s = Inr (y, s') \<longleftrightarrow> r = Inr y \<and> s' = s"
  "b_read f s = Inr (y, s') \<longleftrightarrow> f (fst s) = Inr y \<and> s' = s"
  by (auto simp: b_return_def b_lift_def b_read_def)

lemma b_bind_eq [simp]:
  "b_bind m f s = Inr (y, s') \<longleftrightarrow> (\<exists>x s1. m s = Inr (x, s1) \<and> f x s1 = Inr (y, s'))"
  by (auto simp: b_bind_def)

lemma b_generate_map_empty [simp]: "b_generate_map {} f s = Inr (m, s') \<longleftrightarrow> m = Map.empty \<and> s' = s"
  by (auto simp: b_generate_map_def)

lemma b_bind_require: "b_bind (b_lift (require b e)) f = (if b then f () else b_lift (Inl e))"
  by (cases b) (simp_all add: b_bind_def b_lift_def)

lemma b_generate_map_none: "b_generate_map {} f = b_return Map.empty"
  by (auto simp: b_generate_map_def b_bind_def b_return_def)

lemma wf_kwarg_graph_mono: "wf_kwarg_graph g made \<Longrightarrow> made \<le> made' \<Longrightarrow> wf_kwarg_graph g made'"
  unfolding wf_kwarg_graph_def using lessThan_subset_iff [of made made'] by (meson order_trans)

text \<open>
  A state is good when its graph is closed and well typed. \<open>keeps\<close> says that a method leads from good
  states to good states and that the graph only grows, as long as the counter of nodes has not wrapped.
\<close>

definition good_for ::
    "('n \<Rightarrow> ('s \<rightharpoonup> 'v) \<Rightarrow> ('s \<rightharpoonup> 'v) \<Rightarrow> bool) \<Rightarrow> ('n, 'v, 'i, 's::linorder) open_kwarg_graph \<times> nat \<Rightarrow> bool" where
  "good_for R s \<longleftrightarrow> wf_kwarg_graph (fst s) (snd s) \<and> kwarg_graph.typed R (fst s)"

definition grows_for ::
    "('n \<Rightarrow> ('s \<rightharpoonup> 'v) \<Rightarrow> ('s \<rightharpoonup> 'v) \<Rightarrow> bool) \<Rightarrow> ('n, 'v, 'i, 's::linorder) open_kwarg_graph \<times> nat \<Rightarrow>
     ('n, 'v, 'i, 's) open_kwarg_graph \<times> nat \<Rightarrow> bool" where
  "grows_for R s s' \<longleftrightarrow> snd s \<le> snd s' \<and>
     (good_for R s \<and> snd s' \<le> 2 ^ 64 \<longrightarrow> good_for R s' \<and> kwarg_graph.extends (fst s) (fst s'))"

definition keeps_for ::
    "('n \<Rightarrow> ('s \<rightharpoonup> 'v) \<Rightarrow> ('s \<rightharpoonup> 'v) \<Rightarrow> bool) \<Rightarrow> (('n, 'v, 'i, 's::linorder) open_kwarg_graph, 'a) graph_builder \<Rightarrow> bool" where
  "keeps_for R m \<longleftrightarrow> (\<forall>s x s'. m s = Inr (x, s') \<longrightarrow> grows_for R s s')"

lemma grows_refl: "grows_for R s s"
  by (simp add: grows_for_def kwarg_graph.extends_refl)

lemma grows_trans: "grows_for R s s' \<Longrightarrow> grows_for R s' s'' \<Longrightarrow> grows_for R s s''"
  unfolding grows_for_def by (meson kwarg_graph.extends_trans order_trans)

lemma growsD:
  "grows_for R s s' \<Longrightarrow> snd s \<le> snd s'"
  "grows_for R s s' \<Longrightarrow> good_for R s \<Longrightarrow> snd s' \<le> 2 ^ 64 \<Longrightarrow> good_for R s'"
  "grows_for R s s' \<Longrightarrow> good_for R s \<Longrightarrow> snd s' \<le> 2 ^ 64 \<Longrightarrow> kwarg_graph.extends (fst s) (fst s')"
  by (simp_all add: grows_for_def)

named_theorems keeps \<open>methods that keep the invariant of the builder\<close>

lemma keeps_basic [keeps]:
  "keeps_for R (b_return x)" "keeps_for R (b_lift r)" "keeps_for R (b_read f)"
  by (auto simp: keeps_for_def grows_refl)

lemma keeps_bind [keeps]: "keeps_for R m \<Longrightarrow> (\<And>x. keeps_for R (f x)) \<Longrightarrow> keeps_for R (b_bind m f)"
  unfolding keeps_for_def b_bind_eq by (meson grows_trans)

lemma keeps_if [keeps]: "keeps_for R m \<Longrightarrow> keeps_for R m' \<Longrightarrow> keeps_for R (if b then m else m')"
  by simp

lemma keeps_let [keeps]: "(\<And>x. keeps_for R (f x)) \<Longrightarrow> keeps_for R (let x = a in f x)"
  by (simp add: Let_def)

lemma keeps_map [keeps]: "(\<And>x. keeps_for R (f x)) \<Longrightarrow> keeps_for R (b_map f xs)"
  by (induction xs) (simp_all add: keeps)

lemma keeps_fold [keeps]: "(\<And>x acc. keeps_for R (f x acc)) \<Longrightarrow> keeps_for R (b_fold f xs acc)"
  by (induction xs arbitrary: acc) (simp_all add: keeps)

text \<open>A property of the results that is stable while the graph grows holds of all of them at the end.\<close>

lemma b_map_post:
  assumes step: "\<And>x s y s'. x \<in> set xs \<Longrightarrow> f x s = Inr (y, s') \<Longrightarrow>
      grows_for R s s' \<and> (good_for R s \<longrightarrow> snd s' \<le> 2 ^ 64 \<longrightarrow> P x y (fst s'))"
    and stable: "\<And>x y g g'. kwarg_graph.extends g g' \<Longrightarrow> P x y g \<Longrightarrow> P x y g'"
    and "b_map f xs s = Inr (ys, s')"
  shows "grows_for R s s' \<and> (good_for R s \<longrightarrow> snd s' \<le> 2 ^ 64 \<longrightarrow> list_all2 (\<lambda>x y. P x y (fst s')) xs ys)"
  using assms(1,3)
proof (induction xs arbitrary: s ys)
  case (Cons x xs)
  then obtain y s1 ys' where y: "f x s = Inr (y, s1)" and rest: "b_map f xs s1 = Inr (ys', s')" and ys: "ys = y # ys'"
    by auto
  have one: "grows_for R s s1" "good_for R s \<longrightarrow> snd s1 \<le> 2 ^ 64 \<longrightarrow> P x y (fst s1)" using Cons.prems(1) [OF _ y] by simp_all
  have IH: "grows_for R s1 s'" "good_for R s1 \<longrightarrow> snd s' \<le> 2 ^ 64 \<longrightarrow> list_all2 (\<lambda>x y. P x y (fst s')) xs ys'"
    using Cons.IH [OF Cons.prems(1) rest] by simp_all
  show ?case
  proof (intro conjI impI)
    show "grows_for R s s'" using one(1) IH(1) by (rule grows_trans)
    assume g: "good_for R s" and bound: "snd s' \<le> 2 ^ 64"
    have b1: "snd s1 \<le> 2 ^ 64" using growsD(1) [OF IH(1)] bound by simp
    have g1: "good_for R s1" using growsD(2) [OF one(1) g b1] .
    have "P x y (fst s')" using stable [OF growsD(3) [OF IH(1) g1 bound]] one(2) g b1 by blast
    with IH(2) g1 bound show "list_all2 (\<lambda>x y. P x y (fst s')) (x # xs) ys" by (simp add: ys)
  qed
qed (simp add: grows_refl)

lemma b_generate_map_post:
  assumes "finite ks"
    and step: "\<And>k s v s'. k \<in> ks \<Longrightarrow> f k s = Inr (v, s') \<Longrightarrow>
      grows_for R s s' \<and> (good_for R s \<longrightarrow> snd s' \<le> 2 ^ 64 \<longrightarrow> P k v (fst s'))"
    and stable: "\<And>k v g g'. kwarg_graph.extends g g' \<Longrightarrow> P k v g \<Longrightarrow> P k v g'"
    and m: "b_generate_map ks f s = Inr (m, s')"
  shows "grows_for R s s' \<and> dom m = ks \<and> (good_for R s \<longrightarrow> snd s' \<le> 2 ^ 64 \<longrightarrow> (\<forall>k \<in> ks. P k (the (m k)) (fst s')))"
proof -
  let ?f = "\<lambda>k. b_bind (f k) (\<lambda>v. b_return (k, v))"
  from m obtain kvs where kvs: "b_map ?f (sorted_list_of_set ks) s = Inr (kvs, s')" and m_eq: "m = map_of kvs"
    by (auto simp: b_generate_map_def)
  have keys: "map fst kvs = xs" if "b_map ?f xs s = Inr (kvs, s')" for xs kvs s s'
    using that by (induction xs arbitrary: kvs s) auto
  have "grows_for R s s' \<and> (good_for R s \<longrightarrow> snd s' \<le> 2 ^ 64 \<longrightarrow>
      list_all2 (\<lambda>k kv. P k (snd kv) (fst s')) (sorted_list_of_set ks) kvs)"
    by (rule b_map_post [OF _ _ kvs]) (use step assms(1) stable in auto)
  moreover have "dom m = ks"
    using arg_cong [OF keys [OF kvs], of set] assms(1) by (simp add: m_eq dom_map_of_conv_image_fst)
  moreover have "P k (the (m k)) (fst s')"
    if all: "list_all2 (\<lambda>k kv. P k (snd kv) (fst s')) (sorted_list_of_set ks) kvs" and k: "k \<in> ks" for k
  proof -
    obtain v where v: "m k = Some v" using \<open>dom m = ks\<close> k by blast
    then have "(k, v) \<in> set kvs" by (simp add: m_eq map_of_SomeD)
    then obtain i where i: "i < length kvs" "kvs ! i = (k, v)" by (auto simp: in_set_conv_nth)
    have "sorted_list_of_set ks ! i = k" using keys [OF kvs] i by (metis fst_conv nth_map)
    moreover have "P (sorted_list_of_set ks ! i) (snd (kvs ! i)) (fst s')"
      using all i(1) by (auto simp: list_all2_conv_all_nth)
    ultimately show ?thesis using i(2) v by simp
  qed
  ultimately show ?thesis by blast
qed

lemma b_map_calls:
  assumes "b_map f xs s = Inr r" and "x \<in> set xs"
  shows "\<exists>s1 y s2. f x s1 = Inr (y, s2)"
  using assms
proof (induction xs arbitrary: s r)
  case (Cons x' xs)
  then obtain ys s' y s1 where "f x' s = Inr (y, s1)" "b_map f xs s1 = Inr (ys, s')"
    unfolding b_map.simps by (cases r) (simp only: b_bind_eq, blast)
  with Cons.IH [of s1] Cons.prems(2) show ?case unfolding set_simps by blast
qed simp

lemma b_generate_map_calls:
  assumes "b_generate_map ks f s = Inr r" and "k \<in> ks" and "finite ks"
  shows "\<exists>s1 v s2. f k s1 = Inr (v, s2)"
proof -
  let ?g = "\<lambda>k. b_bind (f k) (\<lambda>v. b_return (k, v))"
  obtain kvs s' where "b_map ?g (sorted_list_of_set ks) s = Inr (kvs, s')"
    using assms(1) by (cases r) (auto simp: b_generate_map_def)
  from b_map_calls [OF this, of k] assms(2,3) obtain s1 y s2 where "?g k s1 = Inr (y, s2)" by auto
  then show ?thesis by (simp only: b_bind_eq) blast
qed

text \<open>Methods that always return.\<close>

lemma b_map_succeeds:
  assumes "\<And>x s. \<exists>y s'. f x s = Inr (y, s') \<and> snd s' = Suc (snd s)"
  shows "\<exists>ys s'. b_map f xs s = Inr (ys, s') \<and> snd s' = snd s + length xs"
proof (induction xs arbitrary: s)
  case (Cons x xs)
  obtain y s1 where y: "f x s = Inr (y, s1)" "snd s1 = Suc (snd s)" using assms by blast
  obtain ys s' where "b_map f xs s1 = Inr (ys, s')" "snd s' = snd s1 + length xs" using Cons by blast
  with y have "b_map f (x # xs) s = Inr (y # ys, s')" "snd s' = snd s + length (x # xs)"
    by (cases s'; auto)+
  then show ?case by blast
qed simp

lemma b_generate_map_succeeds:
  assumes "\<And>k s. \<exists>v s'. f k s = Inr (v, s') \<and> snd s' = Suc (snd s)" and "finite ks"
  shows "\<exists>m s'. b_generate_map ks f s = Inr (m, s') \<and> snd s' = snd s + card ks"
proof -
  let ?g = "\<lambda>k. b_bind (f k) (\<lambda>v. b_return (k, v))"
  have "\<exists>y s'. ?g x s = Inr (y, s') \<and> snd s' = Suc (snd s)" for x s
    using assms(1) [of x s] by auto
  from b_map_succeeds [of ?g, OF this]
  obtain kvs s' where "b_map ?g (sorted_list_of_set ks) s = Inr (kvs, s')"
    "snd s' = snd s + length (sorted_list_of_set ks)" by blast
  then have "b_generate_map ks f s = Inr (map_of kvs, s')" "snd s' = snd s + card ks"
    by (simp_all add: b_generate_map_def)
  then show ?thesis by blast
qed

end
