(* ===== verification/CG_Builder.thy ===== *)
theory CG_Builder
  imports Computation_Graphs Graph_Builder "HOL-Library.List_Lexorder"
begin

text \<open>
  \<open>ComputationGraphBuilder\<close>, \<open>lib/pcg/src/pcg/computation_graph_builder.cc\<close>: the methods that add layers to
  a computation graph, creating the weights a layer needs.

  \<open>get_operator_type_name\<close> prints an enumerator through a formatter the build generates; it is the
  parameter \<open>op_name\<close>. \<open>add_layer\<close> and \<open>create_weight\<close> of the source call each other; a weight has no
  weights of its own, so the inner call never needs the outer one, and \<open>create_weight_eq\<close> proves the
  equation of the source.
\<close>

type_synonym builder_state = "computation_graph \<times> nat"

type_synonym 'a builder = "(computation_graph, 'a) graph_builder"

section \<open>The order of data types\<close>

definition data_type_index :: "data_type \<Rightarrow> nat" where
  "data_type_index t =
     (case t of BOOL \<Rightarrow> 0 | INT32 \<Rightarrow> 1 | INT64 \<Rightarrow> 2 | HALF \<Rightarrow> 3 | FLOAT \<Rightarrow> 4 | DOUBLE \<Rightarrow> 5)"

lemma data_type_index_eq: "data_type_index s = data_type_index t \<longleftrightarrow> s = t"
  by (cases s; cases t) (simp_all add: data_type_index_def)

instantiation data_type :: linorder
begin

definition less_eq_data_type :: "data_type \<Rightarrow> data_type \<Rightarrow> bool" where
  "less_eq_data_type s t \<longleftrightarrow> data_type_index s \<le> data_type_index t"

definition less_data_type :: "data_type \<Rightarrow> data_type \<Rightarrow> bool" where
  "less_data_type s t \<longleftrightarrow> data_type_index s < data_type_index t"

instance
proof
  fix s t u :: data_type
  show "s < t \<longleftrightarrow> s \<le> t \<and> \<not> t \<le> s" unfolding less_eq_data_type_def less_data_type_def by (rule less_le_not_le)
  show "s \<le> s" by (simp only: less_eq_data_type_def order_refl)
  show "s \<le> t \<Longrightarrow> t \<le> u \<Longrightarrow> s \<le> u" unfolding less_eq_data_type_def by (rule order_trans)
  show "s \<le> t \<Longrightarrow> t \<le> s \<Longrightarrow> s = t"
    unfolding less_eq_data_type_def data_type_index_eq [symmetric] by (rule antisym)
  show "s \<le> t \<or> t \<le> s" unfolding less_eq_data_type_def by (rule linear)
qed

end

section \<open>Layers with their weights\<close>

definition get_default_name :: "(operator_type \<Rightarrow> string) \<Rightarrow> computation_graph_op_attrs \<Rightarrow> string" where
  "get_default_name op_name attrs = op_name (cg_get_op_type attrs)"

definition name_or :: "string option \<Rightarrow> string \<Rightarrow> string" where
  "name_or maybe_name other = (case maybe_name of Some name \<Rightarrow> name | None \<Rightarrow> other)"

definition get_shape :: "tensor_guid \<Rightarrow> tensor_shape builder" where
  "get_shape t = b_read (\<lambda>cg. cg_shape cg t)"

definition check_incoming_tensor_roles ::
    "layer_attrs \<Rightarrow> tensor_slot_name set \<Rightarrow> tensor_slot_name set \<Rightarrow> unit res" where
  "check_incoming_tensor_roles layer input_slots weight_slots =
     res_bind (cg_get_incoming_tensor_roles (la_op_attrs layer)) (\<lambda>roles.
     let correct = roles |` (input_slots \<union> weight_slots)
     in res_bind (binary_merge_disjoint_maps (\<lambda>k. if k \<in> input_slots then Some Role_INPUT else None)
          (\<lambda>k. if k \<in> weight_slots then Some Role_WEIGHT else None)) (\<lambda>current.
        ASSERT (correct = current)))"

text \<open>\<open>add_layer\<close>, with the function that creates a weight as an argument.\<close>

definition add_layer_using ::
    "(tensor_shape \<Rightarrow> initializer_attrs \<Rightarrow> tensor_guid builder) \<Rightarrow> layer_attrs \<Rightarrow> tensor_guid slots \<Rightarrow>
     initializer_attrs slots \<Rightarrow> create_grad slots option \<Rightarrow> tensor_guid slots builder" where
  "add_layer_using make_weight layer inputs weight_initializers outputs =
     b_bind (b_lift (ASSERT (dom inputs \<inter> dom weight_initializers = {}))) (\<lambda>_.
     b_bind (b_lift (check_incoming_tensor_roles layer (dom inputs) (dom weight_initializers))) (\<lambda>_.
     b_bind (b_read (\<lambda>cg. map_values (cg_shape cg) inputs)) (\<lambda>input_shapes.
     b_bind (b_lift (cg_get_weight_shapes (la_op_attrs layer) input_shapes)) (\<lambda>weight_shapes.
     b_bind (b_lift (ASSERT (dom weight_shapes = dom weight_initializers))) (\<lambda>_.
     b_bind (b_generate_map (dom weight_shapes)
         (\<lambda>slot. make_weight (the (weight_shapes slot)) (the (weight_initializers slot)))) (\<lambda>weights.
     b_bind (cg_add_layer layer inputs weights outputs) (\<lambda>added.
     b_return (snd added))))))))"

definition create_weight :: "tensor_shape \<Rightarrow> initializer_attrs \<Rightarrow> string option \<Rightarrow> tensor_guid builder" where
  "create_weight shape initializer maybe_name =
     b_bind (b_lift (mk_layer_attrs (CG_weight \<lparr> weight_tensor_shape = shape, weight_initializer = initializer \<rparr>)
       maybe_name)) (\<lambda>layer_attrs.
     b_bind (add_layer_using (\<lambda>_ _. b_lift (Inl Assertion_failed)) layer_attrs Map.empty Map.empty None) (\<lambda>outputs.
     b_lift (require_only_key outputs Slot_OUTPUT)))"

definition add_layer ::
    "layer_attrs \<Rightarrow> tensor_guid slots \<Rightarrow> initializer_attrs slots \<Rightarrow> create_grad slots option \<Rightarrow>
     tensor_guid slots builder" where
  "add_layer = add_layer_using (\<lambda>shape initializer. create_weight shape initializer None)"

text \<open>The end of most methods: the layer is added and its only output returned.\<close>

definition add_layer_output ::
    "layer_attrs \<Rightarrow> tensor_guid slots \<Rightarrow> initializer_attrs slots \<Rightarrow> tensor_guid builder" where
  "add_layer_output layer inputs weight_initializers =
     b_bind (add_layer layer inputs weight_initializers None) (\<lambda>outputs.
     b_lift (require_only_key outputs Slot_OUTPUT))"

definition create_input :: "tensor_shape \<Rightarrow> create_grad \<Rightarrow> string option \<Rightarrow> tensor_guid builder" where
  "create_input shape create_grad maybe_name =
     b_bind (b_lift (mk_layer_attrs (CG_input shape) maybe_name)) (\<lambda>layer_attrs.
     b_bind (add_layer layer_attrs Map.empty Map.empty (Some [Slot_OUTPUT \<mapsto> create_grad])) (\<lambda>outputs.
     b_lift (require_only_key outputs Slot_OUTPUT)))"

section \<open>The methods\<close>

text \<open>
  A method that names its layer takes the given name or that of the operator type. In each of them the
  statements are in the order of the code, since they stop in different ways.
\<close>

definition cgb_layer ::
    "(operator_type \<Rightarrow> string) \<Rightarrow> computation_graph_op_attrs \<Rightarrow> string option \<Rightarrow> layer_attrs res" where
  "cgb_layer op_name attrs maybe_name =
     mk_layer_attrs attrs (Some (name_or maybe_name (get_default_name op_name attrs)))"

definition cgb_cast ::
    "(operator_type \<Rightarrow> string) \<Rightarrow> tensor_guid \<Rightarrow> data_type \<Rightarrow> string option \<Rightarrow> tensor_guid builder" where
  "cgb_cast op_name input dtype maybe_name =
     b_bind (b_lift (cgb_layer op_name (CG_cast dtype) maybe_name)) (\<lambda>layer.
     add_layer_output layer [Slot_INPUT \<mapsto> input] Map.empty)"

definition as_type ::
    "(operator_type \<Rightarrow> string) \<Rightarrow> tensor_guid \<Rightarrow> data_type \<Rightarrow> string \<Rightarrow> tensor_guid builder" where
  "as_type op_name x data_type name =
     b_bind (get_shape x) (\<lambda>shape.
     if ts_data_type shape < data_type then cgb_cast op_name x data_type (Some name)
     else if data_type < ts_data_type shape then b_lift (Inl Runtime_error)
     else b_return x)"

definition cgb_batch_matmul ::
    "(operator_type \<Rightarrow> string) \<Rightarrow> tensor_guid \<Rightarrow> tensor_guid \<Rightarrow> string option \<Rightarrow> tensor_guid builder" where
  "cgb_batch_matmul op_name lhs rhs maybe_name =
     b_bind (b_lift (cgb_layer op_name CG_batch_matmul maybe_name)) (\<lambda>layer.
     add_layer_output layer [Slot_LHS_INPUT \<mapsto> lhs, Slot_RHS_INPUT \<mapsto> rhs] Map.empty)"

definition cgb_broadcast :: "tensor_guid \<Rightarrow> tensor_dims \<Rightarrow> string \<Rightarrow> tensor_guid builder" where
  "cgb_broadcast input target_dims name =
     b_bind (get_shape input) (\<lambda>input_shape.
     if ts_dims input_shape = target_dims then b_return input
     else
       b_bind (b_lift (tensor_dims_is_broadcastable_to (ts_dims input_shape) target_dims)) (\<lambda>broadcastable.
       b_bind (b_lift (ASSERT broadcastable)) (\<lambda>_.
       b_bind (b_lift (mk_layer_attrs (CG_broadcast target_dims) (Some name))) (\<lambda>layer.
       add_layer_output layer [Slot_INPUT \<mapsto> input] Map.empty))))"

definition cgb_element_unary ::
    "(operator_type \<Rightarrow> string) \<Rightarrow> operator_type \<Rightarrow> tensor_guid \<Rightarrow> float_expr option \<Rightarrow> string option \<Rightarrow>
     tensor_guid builder" where
  "cgb_element_unary op_name op_type x scalar maybe_name =
     (let attrs = CG_element_unary \<lparr> eu_op_type = op_type, eu_scalar = scalar \<rparr>;
          name = name_or maybe_name (get_default_name op_name attrs)
      in b_bind (as_type op_name x FLOAT (name @ ''input_pre_cast'')) (\<lambda>input.
         b_bind (b_lift (mk_layer_attrs attrs (Some name))) (\<lambda>layer.
         add_layer_output layer [Slot_INPUT \<mapsto> input] Map.empty)))"

definition cgb_get_broadcast_target_dims :: "tensor_dims list \<Rightarrow> tensor_dims res" where
  "cgb_get_broadcast_target_dims inputs_dims =
     res_bind (get_broadcast_target_dims (sorted_list_of_set (set inputs_dims))) (\<lambda>maybe_result.
     case maybe_result of Some dims \<Rightarrow> Inr dims | None \<Rightarrow> Inl Runtime_error)"

definition cgb_get_broadcast_target_dims_of_tensors :: "tensor_guid list \<Rightarrow> tensor_dims builder" where
  "cgb_get_broadcast_target_dims_of_tensors inputs =
     b_bind (b_map (\<lambda>t. b_bind (get_shape t) (\<lambda>s. b_return (ts_dims s))) inputs) (\<lambda>inputs_dims.
     b_lift (cgb_get_broadcast_target_dims inputs_dims))"

definition cgb_element_binary ::
    "(operator_type \<Rightarrow> string) \<Rightarrow> operator_type \<Rightarrow> tensor_guid \<Rightarrow> tensor_guid \<Rightarrow> string option \<Rightarrow>
     tensor_guid builder" where
  "cgb_element_binary op_name op_type lhs rhs maybe_name =
     (let name = name_or maybe_name (op_name op_type)
      in b_bind (cgb_get_broadcast_target_dims_of_tensors [lhs, rhs]) (\<lambda>compute_dims.
         b_bind (get_shape lhs) (\<lambda>lhs_shape.
         b_bind (get_shape rhs) (\<lambda>rhs_shape.
         let compute_type = max (ts_data_type lhs_shape) (ts_data_type rhs_shape) in
         b_bind (cgb_broadcast lhs compute_dims (name @ ''_inputl_broadcast'')) (\<lambda>lhs_broadcast.
         b_bind (as_type op_name lhs_broadcast compute_type (name @ ''_inputl_cast'')) (\<lambda>lhs_input.
         b_bind (cgb_broadcast rhs compute_dims (name @ ''_inputr_broadcast'')) (\<lambda>rhs_broadcast.
         b_bind (as_type op_name rhs_broadcast compute_type (name @ ''_inputr_cast'')) (\<lambda>rhs_input.
         b_bind (b_lift (mk_layer_attrs (CG_element_binary
             \<lparr> eb_type = op_type, eb_compute_type = compute_type, eb_should_broadcast_lhs = False,
               eb_should_broadcast_rhs = False \<rparr>) (Some name))) (\<lambda>layer.
         add_layer_output layer [Slot_LHS_INPUT \<mapsto> lhs_input, Slot_RHS_INPUT \<mapsto> rhs_input] Map.empty)))))))))"

definition cgb_exp ::
    "(operator_type \<Rightarrow> string) \<Rightarrow> tensor_guid \<Rightarrow> string option \<Rightarrow> tensor_guid builder" where
  "cgb_exp op_name input name = cgb_element_unary op_name Op_EXP input None name"

definition cgb_add ::
    "(operator_type \<Rightarrow> string) \<Rightarrow> tensor_guid \<Rightarrow> tensor_guid \<Rightarrow> string option \<Rightarrow> tensor_guid builder" where
  "cgb_add op_name lhs rhs name = cgb_element_binary op_name Op_EW_ADD lhs rhs name"

definition cgb_subtract ::
    "(operator_type \<Rightarrow> string) \<Rightarrow> tensor_guid \<Rightarrow> tensor_guid \<Rightarrow> string option \<Rightarrow> tensor_guid builder" where
  "cgb_subtract op_name lhs rhs name = cgb_element_binary op_name Op_EW_SUB lhs rhs name"

definition cgb_multiply ::
    "(operator_type \<Rightarrow> string) \<Rightarrow> tensor_guid \<Rightarrow> tensor_guid \<Rightarrow> string option \<Rightarrow> tensor_guid builder" where
  "cgb_multiply op_name lhs rhs name = cgb_element_binary op_name Op_EW_MUL lhs rhs name"

definition cgb_divide ::
    "(operator_type \<Rightarrow> string) \<Rightarrow> tensor_guid \<Rightarrow> tensor_guid \<Rightarrow> string option \<Rightarrow> tensor_guid builder" where
  "cgb_divide op_name lhs rhs name = cgb_element_binary op_name Op_EW_DIV lhs rhs name"

definition cgb_max ::
    "(operator_type \<Rightarrow> string) \<Rightarrow> tensor_guid \<Rightarrow> tensor_guid \<Rightarrow> string option \<Rightarrow> tensor_guid builder" where
  "cgb_max op_name lhs rhs name = cgb_element_binary op_name Op_EW_MAX lhs rhs name"

definition cgb_min ::
    "(operator_type \<Rightarrow> string) \<Rightarrow> tensor_guid \<Rightarrow> tensor_guid \<Rightarrow> string option \<Rightarrow> tensor_guid builder" where
  "cgb_min op_name lhs rhs name = cgb_element_binary op_name Op_EW_MIN lhs rhs name"

definition cgb_rsqrt ::
    "(operator_type \<Rightarrow> string) \<Rightarrow> tensor_guid \<Rightarrow> string option \<Rightarrow> tensor_guid builder" where
  "cgb_rsqrt op_name input name = cgb_element_unary op_name Op_RSQRT input None name"

definition cgb_pow ::
    "(operator_type \<Rightarrow> string) \<Rightarrow> tensor_guid \<Rightarrow> float_expr \<Rightarrow> string option \<Rightarrow> tensor_guid builder" where
  "cgb_pow op_name input exponent name = cgb_element_unary op_name Op_POW input (Some exponent) name"

definition cgb_scalar_multiply ::
    "(operator_type \<Rightarrow> string) \<Rightarrow> tensor_guid \<Rightarrow> float_expr \<Rightarrow> string option \<Rightarrow> tensor_guid builder" where
  "cgb_scalar_multiply op_name input scalar name = cgb_element_unary op_name Op_SCALAR_MULTIPLY input (Some scalar) name"

definition cgb_scalar_add ::
    "(operator_type \<Rightarrow> string) \<Rightarrow> tensor_guid \<Rightarrow> float_expr \<Rightarrow> string option \<Rightarrow> tensor_guid builder" where
  "cgb_scalar_add op_name input scalar name = cgb_element_unary op_name Op_SCALAR_ADD input (Some scalar) name"

definition cgb_scalar_sub ::
    "(operator_type \<Rightarrow> string) \<Rightarrow> tensor_guid \<Rightarrow> float_expr \<Rightarrow> string option \<Rightarrow> tensor_guid builder" where
  "cgb_scalar_sub op_name input scalar name = cgb_element_unary op_name Op_SCALAR_SUB input (Some scalar) name"

definition cgb_scalar_truediv ::
    "(operator_type \<Rightarrow> string) \<Rightarrow> tensor_guid \<Rightarrow> float_expr \<Rightarrow> string option \<Rightarrow> tensor_guid builder" where
  "cgb_scalar_truediv op_name input scalar name = cgb_element_unary op_name Op_SCALAR_TRUE_DIV input (Some scalar) name"

definition cgb_sin ::
    "(operator_type \<Rightarrow> string) \<Rightarrow> tensor_guid \<Rightarrow> string option \<Rightarrow> tensor_guid builder" where
  "cgb_sin op_name input name = cgb_element_unary op_name Op_SIN input None name"

definition cgb_cos ::
    "(operator_type \<Rightarrow> string) \<Rightarrow> tensor_guid \<Rightarrow> string option \<Rightarrow> tensor_guid builder" where
  "cgb_cos op_name input name = cgb_element_unary op_name Op_COS input None name"

definition cgb_relu ::
    "(operator_type \<Rightarrow> string) \<Rightarrow> tensor_guid \<Rightarrow> string option \<Rightarrow> tensor_guid builder" where
  "cgb_relu op_name input name = cgb_element_unary op_name Op_RELU input None name"

definition cgb_identity ::
    "(operator_type \<Rightarrow> string) \<Rightarrow> tensor_guid \<Rightarrow> string option \<Rightarrow> tensor_guid builder" where
  "cgb_identity op_name input name = cgb_element_unary op_name Op_IDENTITY input None name"

definition cgb_gelu ::
    "(operator_type \<Rightarrow> string) \<Rightarrow> tensor_guid \<Rightarrow> string option \<Rightarrow> tensor_guid builder" where
  "cgb_gelu op_name input name = cgb_element_unary op_name Op_GELU input None name"

definition cgb_sigmoid ::
    "(operator_type \<Rightarrow> string) \<Rightarrow> tensor_guid \<Rightarrow> string option \<Rightarrow> tensor_guid builder" where
  "cgb_sigmoid op_name input name = cgb_element_unary op_name Op_SIGMOID input None name"

definition cgb_tanh ::
    "(operator_type \<Rightarrow> string) \<Rightarrow> tensor_guid \<Rightarrow> string option \<Rightarrow> tensor_guid builder" where
  "cgb_tanh op_name input name = cgb_element_unary op_name Op_TANH input None name"

definition cgb_elu ::
    "(operator_type \<Rightarrow> string) \<Rightarrow> tensor_guid \<Rightarrow> string option \<Rightarrow> tensor_guid builder" where
  "cgb_elu op_name input name = cgb_element_unary op_name Op_ELU input None name"

definition cgb_silu ::
    "(operator_type \<Rightarrow> string) \<Rightarrow> tensor_guid \<Rightarrow> string option \<Rightarrow> tensor_guid builder" where
  "cgb_silu op_name input name = cgb_element_unary op_name Op_SILU input None name"

definition cgb_conv2d ::
    "(operator_type \<Rightarrow> string) \<Rightarrow> tensor_guid \<Rightarrow> positive_int \<Rightarrow> positive_int \<Rightarrow> positive_int \<Rightarrow> positive_int \<Rightarrow>
     positive_int \<Rightarrow> nonnegative_int \<Rightarrow> nonnegative_int \<Rightarrow> activation option \<Rightarrow> positive_int \<Rightarrow> bool \<Rightarrow>
     initializer_attrs option \<Rightarrow> initializer_attrs option \<Rightarrow> regularizer_attrs option \<Rightarrow> string option \<Rightarrow>
     tensor_guid builder" where
  "cgb_conv2d op_name x outChannels kernelH kernelW strideH strideW paddingH paddingW activation groups use_bias
       maybe_kernel_initializer maybe_bias_initializer kernel_regularizer maybe_name =
     (let attrs = \<lparr> conv_out_channels = outChannels, conv_kernel_h = kernelH, conv_kernel_w = kernelW,
            conv_stride_h = strideH, conv_stride_w = strideW, conv_padding_h = paddingH, conv_padding_w = paddingW,
            conv_groups = groups, conv_activation = activation, conv_use_bias = use_bias \<rparr>;
          name = name_or maybe_name (get_default_name op_name (CG_conv2d attrs))
      in b_bind (as_type op_name x FLOAT (name @ ''input_pre_cast'')) (\<lambda>input.
         b_bind (b_lift (mk_layer_attrs (CG_conv2d attrs) (Some name))) (\<lambda>layer.
         b_bind (get_shape input) (\<lambda>input_shape.
         b_bind (b_lift (conv2d_get_initializers attrs input_shape maybe_kernel_initializer maybe_bias_initializer))
           (\<lambda>initializers.
         add_layer_output layer [Slot_INPUT \<mapsto> input] initializers)))))"

definition cgb_upsample ::
    "(operator_type \<Rightarrow> string) \<Rightarrow> tensor_guid \<Rightarrow> int_ge_two \<Rightarrow> upsample_mode \<Rightarrow> string option \<Rightarrow>
     tensor_guid builder" where
  "cgb_upsample op_name input scale_factor mode maybe_name =
     (let attrs = CG_upsample \<lparr> upsample_scale_factor = scale_factor, upsample_mode = mode \<rparr>
      in b_bind (b_lift (cgb_layer op_name attrs maybe_name)) (\<lambda>layer.
         add_layer_output layer [Slot_INPUT \<mapsto> input] Map.empty))"

definition cgb_dropout ::
    "(operator_type \<Rightarrow> string) \<Rightarrow> tensor_guid \<Rightarrow> float_expr \<Rightarrow> nat \<Rightarrow> string option \<Rightarrow> tensor_guid builder" where
  "cgb_dropout op_name x rate seed maybe_name =
     (let attrs = CG_dropout \<lparr> dropout_rate = rate, dropout_seed = seed \<rparr>;
          name = name_or maybe_name (get_default_name op_name attrs)
      in b_bind (b_lift (mk_layer_attrs attrs (Some name))) (\<lambda>layer.
         b_bind (as_type op_name x FLOAT (name @ ''input_pre_cast'')) (\<lambda>input.
         add_layer_output layer [Slot_INPUT \<mapsto> input] Map.empty)))"

definition cgb_embedding ::
    "(operator_type \<Rightarrow> string) \<Rightarrow> tensor_guid \<Rightarrow> positive_int \<Rightarrow> positive_int \<Rightarrow> aggregate_op \<Rightarrow> data_type \<Rightarrow>
     initializer_attrs option \<Rightarrow> string option \<Rightarrow> tensor_guid builder" where
  "cgb_embedding op_name input num_entries outDim aggr dtype initializer maybe_name =
     (let attrs = \<lparr> embedding_num_entries = num_entries, embedding_out_channels = outDim,
            embedding_aggr = Some aggr, embedding_data_type = dtype \<rparr>
      in b_bind (b_lift (cgb_layer op_name (CG_embedding attrs) maybe_name)) (\<lambda>layer.
         b_bind (get_shape input) (\<lambda>input_shape.
         add_layer_output layer [Slot_INPUT \<mapsto> input] (embedding_get_initializers attrs initializer))))"

text \<open>The message of \<open>gather\<close> for an index of a wrong type reads the shape of the input.\<close>

definition cgb_gather ::
    "(operator_type \<Rightarrow> string) \<Rightarrow> tensor_guid \<Rightarrow> tensor_guid \<Rightarrow> relative_ff_dim_t \<Rightarrow> string option \<Rightarrow>
     tensor_guid builder" where
  "cgb_gather op_name input index dim maybe_name =
     b_bind (get_shape index) (\<lambda>index_shape.
     b_bind (get_shape input) (\<lambda>input_shape.
     if ts_data_type index_shape \<noteq> INT32 \<and> ts_data_type index_shape \<noteq> INT64 then b_lift (Inl Panicked)
     else
       b_bind (b_lift (get_num_dims (ts_dims input_shape))) (\<lambda>input_num_dims.
       b_bind (b_lift (ff_dim_t_from_relative_ff_dim_t dim input_num_dims)) (\<lambda>abs_dim.
       b_bind (b_lift (cgb_layer op_name (CG_gather abs_dim) maybe_name)) (\<lambda>layer.
       add_layer_output layer [Slot_INPUT \<mapsto> input] Map.empty)))))"

definition cgb_pool2d ::
    "(operator_type \<Rightarrow> string) \<Rightarrow> tensor_guid \<Rightarrow> positive_int \<Rightarrow> positive_int \<Rightarrow> positive_int \<Rightarrow> positive_int \<Rightarrow>
     nonnegative_int \<Rightarrow> nonnegative_int \<Rightarrow> pool_op \<Rightarrow> activation option \<Rightarrow> string option \<Rightarrow> tensor_guid builder" where
  "cgb_pool2d op_name x kernelH kernelW strideH strideW paddingH paddingW type activation maybe_name =
     (let attrs = CG_pool2d \<lparr> pool_kernel_h = kernelH, pool_kernel_w = kernelW, pool_stride_h = strideH,
            pool_stride_w = strideW, pool_padding_h = paddingH, pool_padding_w = paddingW,
            pool_pool_type = type, pool_activation = activation \<rparr>;
          name = name_or maybe_name (get_default_name op_name attrs)
      in b_bind (as_type op_name x FLOAT (name @ ''input_pre_cast'')) (\<lambda>input.
         b_bind (b_lift (mk_layer_attrs attrs (Some name))) (\<lambda>layer.
         add_layer_output layer [Slot_INPUT \<mapsto> input] Map.empty)))"

definition cgb_adaptive_pool2d ::
    "(operator_type \<Rightarrow> string) \<Rightarrow> tensor_guid \<Rightarrow> positive_int \<Rightarrow> positive_int \<Rightarrow> pool_op \<Rightarrow> activation option \<Rightarrow>
     string option \<Rightarrow> tensor_guid builder" where
  "cgb_adaptive_pool2d op_name uncasted_input output_h output_w type activation maybe_name =
     b_bind (get_shape uncasted_input) (\<lambda>uncasted_shape.
     b_bind (b_lift (throw_if_unexpected
       (make_adaptive_pool2d_attrs (ts_dims uncasted_shape) output_h output_w type activation))) (\<lambda>attrs.
     let name = name_or maybe_name (get_default_name op_name (CG_pool2d attrs)) in
     b_bind (as_type op_name uncasted_input FLOAT (name @ ''input_pre_cast'')) (\<lambda>casted_input.
     b_bind (b_lift (mk_layer_attrs (CG_pool2d attrs) (Some name))) (\<lambda>layer.
     b_bind (get_shape casted_input) (\<lambda>casted_shape.
     b_bind (b_lift (throw_if_unexpected (pool2d_get_output_shape attrs casted_shape))) (\<lambda>output_shape.
     add_layer_output layer [Slot_INPUT \<mapsto> casted_input] Map.empty))))))"

definition cgb_batch_norm ::
    "(operator_type \<Rightarrow> string) \<Rightarrow> tensor_guid \<Rightarrow> bool \<Rightarrow> activation option \<Rightarrow> float_expr \<Rightarrow> float_expr option \<Rightarrow>
     string option \<Rightarrow> tensor_guid builder" where
  "cgb_batch_norm op_name input affine activation eps momentum maybe_name =
     b_bind (b_lift (require (activation = None \<or> activation = Some Act_RELU) Panicked)) (\<lambda>_.
     let attrs = \<lparr> bn_relu = activation \<noteq> None, bn_affine = affine, bn_eps = eps, bn_momentum = momentum \<rparr> in
     b_bind (b_lift (cgb_layer op_name (CG_batch_norm attrs) maybe_name)) (\<lambda>layer.
     b_bind (get_shape input) (\<lambda>input_shape.
     b_bind (b_lift (throw_if_unexpected (batch_norm_get_initializers attrs))) (\<lambda>initializers.
     add_layer_output layer [Slot_INPUT \<mapsto> input] initializers))))"

text \<open>The slots \<open>KEY\<close> and \<open>QUERY\<close> get the query and the key.\<close>

definition cgb_multihead_attention ::
    "(operator_type \<Rightarrow> string) \<Rightarrow> tensor_guid \<Rightarrow> tensor_guid \<Rightarrow> tensor_guid \<Rightarrow> positive_int \<Rightarrow> positive_int \<Rightarrow>
     positive_int option \<Rightarrow> positive_int option \<Rightarrow> float_expr \<Rightarrow> bool \<Rightarrow> bool \<Rightarrow> bool \<Rightarrow>
     initializer_attrs option \<Rightarrow> string option \<Rightarrow> tensor_guid builder" where
  "cgb_multihead_attention op_name query key value embed_dim num_heads kdim vdim dropout bias add_bias_kv
       add_zero_attn initializer maybe_name =
     b_bind (b_lift (ASSERT (\<not> add_bias_kv))) (\<lambda>_.
     b_bind (b_lift (ASSERT (\<not> add_zero_attn))) (\<lambda>_.
     let attrs = \<lparr> mha_embed_dim = embed_dim, mha_num_heads = num_heads,
           mha_kdim = (case kdim of Some k \<Rightarrow> k | None \<Rightarrow> embed_dim),
           mha_vdim = (case vdim of Some v \<Rightarrow> v | None \<Rightarrow> embed_dim), mha_dropout = dropout,
           mha_bias = bias, mha_add_bias_kv = add_bias_kv, mha_add_zero_attn = add_zero_attn \<rparr> in
     b_bind (b_lift (cgb_layer op_name (CG_multi_head_attention attrs) maybe_name)) (\<lambda>layer.
     b_bind (get_shape query) (\<lambda>query_shape.
     b_bind (get_shape key) (\<lambda>key_shape.
     b_bind (get_shape value) (\<lambda>value_shape.
     b_bind (b_lift (throw_if_unexpected
       (attention_get_initializers attrs query_shape key_shape value_shape initializer None None))) (\<lambda>initializers.
     add_layer_output layer [Slot_KEY \<mapsto> query, Slot_QUERY \<mapsto> key, Slot_VALUE \<mapsto> value] initializers)))))))"

definition cgb_dense ::
    "(operator_type \<Rightarrow> string) \<Rightarrow> tensor_guid \<Rightarrow> positive_int \<Rightarrow> activation option \<Rightarrow> bool \<Rightarrow> data_type \<Rightarrow>
     initializer_attrs option \<Rightarrow> initializer_attrs option \<Rightarrow> string option \<Rightarrow> tensor_guid builder" where
  "cgb_dense op_name input outDim activation use_bias data_type maybe_projection_initializer
       maybe_bias_initializer maybe_name =
     (let attrs = \<lparr> linear_out_channels = outDim, linear_use_bias = use_bias, linear_data_type = data_type,
            linear_activation = activation, linear_regularizer = None \<rparr>
      in b_bind (b_lift (cgb_layer op_name (CG_linear attrs) maybe_name)) (\<lambda>layer.
         b_bind (get_shape input) (\<lambda>input_shape.
         b_bind (b_lift (throw_if_unexpected
           (linear_get_initializers attrs input_shape maybe_projection_initializer maybe_bias_initializer)))
           (\<lambda>initializers.
         add_layer_output layer [Slot_INPUT \<mapsto> input] initializers))))"

definition cgb_concat ::
    "(operator_type \<Rightarrow> string) \<Rightarrow> tensor_guid list \<Rightarrow> relative_ff_dim_t \<Rightarrow> string option \<Rightarrow> tensor_guid builder" where
  "cgb_concat op_name inputs axis maybe_name =
     (let input_slot_names = get_variadic_inputs_slot_name_sequence
      in b_bind (b_lift (ASSERT (length inputs \<le> length input_slot_names))) (\<lambda>_.
         b_bind (b_lift (vector_at inputs 0)) (\<lambda>first_input.
         b_bind (get_shape first_input) (\<lambda>first_shape.
         b_bind (b_lift (get_num_dims (ts_dims first_shape))) (\<lambda>first_num_dims.
         b_bind (b_lift (ff_dim_t_from_relative_ff_dim_t axis first_num_dims)) (\<lambda>abs_axis.
         b_bind (b_lift (mk_int_ge_two (int (length inputs)))) (\<lambda>num_inputs.
         b_bind (b_lift (cgb_layer op_name
           (CG_concat \<lparr> concat_axis = abs_axis, concat_num_inputs = num_inputs \<rparr>) maybe_name)) (\<lambda>layer.
         add_layer_output layer (map_from_pairs (zip input_slot_names inputs)) Map.empty))))))))"

definition cgb_flat ::
    "(operator_type \<Rightarrow> string) \<Rightarrow> tensor_guid \<Rightarrow> relative_ff_dim_t \<Rightarrow> relative_ff_dim_t option \<Rightarrow> string option \<Rightarrow>
     tensor_guid builder" where
  "cgb_flat op_name input start_dim end_dim maybe_name =
     b_bind (get_shape input) (\<lambda>input_shape.
     b_bind (b_lift (get_num_dims (ts_dims input_shape))) (\<lambda>input_num_dims.
     b_bind (b_lift (ff_dim_t_from_relative_ff_dim_t start_dim input_num_dims)) (\<lambda>abs_start_dim.
     b_bind (b_lift (ff_dim_t_from_relative_ff_dim_t
       (case end_dim of Some d \<Rightarrow> d | None \<Rightarrow> int input_num_dims - 1) input_num_dims)) (\<lambda>abs_end_dim.
     b_bind (b_lift (cgb_layer op_name
       (CG_flat \<lparr> flat_start_dim = abs_start_dim, flat_end_dim = abs_end_dim \<rparr>) maybe_name)) (\<lambda>layer.
     add_layer_output layer [Slot_INPUT \<mapsto> input] Map.empty)))))"

definition cgb_layer_norm ::
    "(operator_type \<Rightarrow> string) \<Rightarrow> tensor_guid \<Rightarrow> relative_ff_dim_t set \<Rightarrow> bool \<Rightarrow> float_expr \<Rightarrow> string option \<Rightarrow>
     tensor_guid builder" where
  "cgb_layer_norm op_name input relative_axes elementwise_affine eps maybe_name =
     b_bind (get_shape input) (\<lambda>input_shape.
     b_bind (b_lift (res_map (\<lambda>dim_idx. res_bind (get_num_dims (ts_dims input_shape))
         (ff_dim_t_from_relative_ff_dim_t dim_idx)) (sorted_list_of_set relative_axes))) (\<lambda>resolved.
     let axes = sorted_list_of_set (set resolved) in
     b_bind (b_lift (res_any_of (\<lambda>axis. res_bind (get_num_dims (ts_dims input_shape)) (\<lambda>n. Inr (n \<le> axis))) axes))
       (\<lambda>out_of_bound.
     b_bind (b_lift (require (\<not> out_of_bound) Runtime_error)) (\<lambda>_.
     let attrs = \<lparr> ln_axes = axes, ln_elementwise_affine = elementwise_affine, ln_eps = eps \<rparr> in
     b_bind (b_lift (cgb_layer op_name (CG_layer_norm attrs) maybe_name)) (\<lambda>layer.
     add_layer_output layer [Slot_INPUT \<mapsto> input] (layer_norm_get_initializers attrs))))))"

definition cgb_reshape ::
    "(operator_type \<Rightarrow> string) \<Rightarrow> tensor_guid \<Rightarrow> positive_int list \<Rightarrow> string option \<Rightarrow> tensor_guid builder" where
  "cgb_reshape op_name input shape maybe_name =
     b_bind (get_shape input) (\<lambda>input_shape.
     b_bind (b_lift (cgb_layer op_name (CG_reshape (TensorShape shape (ts_data_type input_shape))) maybe_name)) (\<lambda>layer.
     add_layer_output layer [Slot_INPUT \<mapsto> input] Map.empty))"

definition cgb_softmax ::
    "(operator_type \<Rightarrow> string) \<Rightarrow> tensor_guid \<Rightarrow> relative_ff_dim_t option \<Rightarrow> string option \<Rightarrow> tensor_guid builder" where
  "cgb_softmax op_name input maybe_dim maybe_name =
     b_bind (get_shape input) (\<lambda>input_shape.
     b_bind (b_lift (get_num_dims (ts_dims input_shape))) (\<lambda>input_num_dims.
     let dim = (case maybe_dim of Some d \<Rightarrow> d | None \<Rightarrow> int input_num_dims - 1) in
     b_bind (b_lift (ff_dim_t_from_relative_ff_dim_t dim input_num_dims)) (\<lambda>abs_dim.
     b_bind (b_lift (ASSERT (abs_dim < input_num_dims))) (\<lambda>_.
     b_bind (b_lift (cgb_layer op_name (CG_softmax abs_dim) maybe_name)) (\<lambda>layer.
     add_layer_output layer [Slot_INPUT \<mapsto> input] Map.empty)))))"

definition cgb_split ::
    "(operator_type \<Rightarrow> string) \<Rightarrow> tensor_guid \<Rightarrow> positive_int list \<Rightarrow> relative_ff_dim_t \<Rightarrow> string option \<Rightarrow>
     tensor_guid list builder" where
  "cgb_split op_name input split axis maybe_name =
     b_bind (b_lift (ASSERT (length split > 0))) (\<lambda>_.
     b_bind (b_lift (ASSERT (length split \<le> length get_variadic_inputs_slot_name_sequence))) (\<lambda>_.
     b_bind (get_shape input) (\<lambda>input_shape.
     b_bind (b_lift (get_num_dims (ts_dims input_shape))) (\<lambda>input_num_dims.
     b_bind (b_lift (ff_dim_t_from_relative_ff_dim_t axis input_num_dims)) (\<lambda>abs_axis.
     b_bind (b_lift (cgb_layer op_name (CG_split \<lparr> split_splits = split, split_axis = abs_axis \<rparr>) maybe_name)) (\<lambda>layer.
     b_bind (add_layer layer [Slot_INPUT \<mapsto> input] Map.empty None) (\<lambda>outputs.
     b_bind (b_lift (slice get_variadic_outputs_slot_name_sequence 0 (Some (int (length split)))))
       (\<lambda>expected_output_slot_names.
     b_lift (res_map (map_at outputs) expected_output_slot_names)))))))))"

definition cgb_transpose ::
    "(operator_type \<Rightarrow> string) \<Rightarrow> tensor_guid \<Rightarrow> nonnegative_int list \<Rightarrow> string option \<Rightarrow> tensor_guid builder" where
  "cgb_transpose op_name input perm maybe_name =
     b_bind (get_shape input) (\<lambda>input_shape.
     b_bind (b_lift (ASSERT (distinct perm))) (\<lambda>_.
     b_bind (b_lift (get_num_dims (ts_dims input_shape))) (\<lambda>input_num_dims.
     b_bind (b_lift (ASSERT (input_num_dims = length perm))) (\<lambda>_.
     b_bind (b_lift (num_elements perm)) (\<lambda>n.
     b_bind (b_lift (bidict_from_keys_and_values (ff_dim_range n) perm)) (\<lambda>raw.
     b_bind (b_lift (mk_tensor_dim_permutation raw)) (\<lambda>permutation.
     b_bind (b_lift (cgb_layer op_name (CG_transpose permutation) maybe_name)) (\<lambda>layer.
     add_layer_output layer [Slot_INPUT \<mapsto> input] Map.empty))))))))"

section \<open>A builder in use\<close>

text \<open>
  The public methods as a datatype of calls, and the states of a builder that has made some of them. The
  counter of nodes is static: it starts anywhere, and grows where other graphs are built in between.
\<close>

datatype (plugins only: code size) builder_call =
    Call_create_input tensor_shape create_grad "string option"
  | Call_create_weight tensor_shape initializer_attrs "string option"
  | Call_batch_matmul tensor_guid tensor_guid "string option"
  | Call_cast tensor_guid data_type "string option"
  | Call_element_unary operator_type tensor_guid "float_expr option" "string option"
  | Call_element_binary operator_type tensor_guid tensor_guid "string option"
  | Call_conv2d tensor_guid conv2d_attrs "initializer_attrs option" "initializer_attrs option"
      "regularizer_attrs option" "string option"
  | Call_upsample tensor_guid int_ge_two upsample_mode "string option"
  | Call_dropout tensor_guid float_expr nat "string option"
  | Call_embedding tensor_guid positive_int positive_int aggregate_op data_type "initializer_attrs option"
      "string option"
  | Call_gather tensor_guid tensor_guid relative_ff_dim_t "string option"
  | Call_pool2d tensor_guid pool2d_attrs "string option"
  | Call_adaptive_pool2d tensor_guid positive_int positive_int pool_op "activation option" "string option"
  | Call_batch_norm tensor_guid bool "activation option" float_expr "float_expr option" "string option"
  | Call_multihead_attention tensor_guid tensor_guid tensor_guid positive_int positive_int
      "positive_int option" "positive_int option" float_expr bool bool bool "initializer_attrs option" "string option"
  | Call_dense tensor_guid positive_int "activation option" bool data_type "initializer_attrs option"
      "initializer_attrs option" "string option"
  | Call_concat "tensor_guid list" relative_ff_dim_t "string option"
  | Call_flat tensor_guid relative_ff_dim_t "relative_ff_dim_t option" "string option"
  | Call_layer_norm tensor_guid "relative_ff_dim_t set" bool float_expr "string option"
  | Call_reshape tensor_guid "positive_int list" "string option"
  | Call_softmax tensor_guid "relative_ff_dim_t option" "string option"
  | Call_split tensor_guid "positive_int list" relative_ff_dim_t "string option"
  | Call_transpose tensor_guid "nonnegative_int list" "string option"

definition one_result :: "tensor_guid builder \<Rightarrow> tensor_guid list builder" where
  "one_result m = b_bind m (\<lambda>t. b_return [t])"

text \<open>The methods for single element-wise operators are covered by the call with any operator type.\<close>

fun run_call :: "(operator_type \<Rightarrow> string) \<Rightarrow> builder_call \<Rightarrow> tensor_guid list builder" where
  "run_call N (Call_create_input shape create_grad name) = one_result (create_input shape create_grad name)"
| "run_call N (Call_create_weight shape init name) = one_result (create_weight shape init name)"
| "run_call N (Call_batch_matmul lhs rhs name) = one_result (cgb_batch_matmul N lhs rhs name)"
| "run_call N (Call_cast t dtype name) = one_result (cgb_cast N t dtype name)"
| "run_call N (Call_element_unary op t scalar name) = one_result (cgb_element_unary N op t scalar name)"
| "run_call N (Call_element_binary op lhs rhs name) = one_result (cgb_element_binary N op lhs rhs name)"
| "run_call N (Call_conv2d t a kinit binit reg name) = one_result (cgb_conv2d N t (conv_out_channels a)
     (conv_kernel_h a) (conv_kernel_w a) (conv_stride_h a) (conv_stride_w a) (conv_padding_h a) (conv_padding_w a)
     (conv_activation a) (conv_groups a) (conv_use_bias a) kinit binit reg name)"
| "run_call N (Call_upsample t scale mode name) = one_result (cgb_upsample N t scale mode name)"
| "run_call N (Call_dropout t rate seed name) = one_result (cgb_dropout N t rate seed name)"
| "run_call N (Call_embedding t n d aggr dtype init name) = one_result (cgb_embedding N t n d aggr dtype init name)"
| "run_call N (Call_gather t index dim name) = one_result (cgb_gather N t index dim name)"
| "run_call N (Call_pool2d t a name) = one_result (cgb_pool2d N t (pool_kernel_h a) (pool_kernel_w a)
     (pool_stride_h a) (pool_stride_w a) (pool_padding_h a) (pool_padding_w a) (pool_pool_type a) (pool_activation a) name)"
| "run_call N (Call_adaptive_pool2d t h w type act name) = one_result (cgb_adaptive_pool2d N t h w type act name)"
| "run_call N (Call_batch_norm t affine act eps momentum name) =
     one_result (cgb_batch_norm N t affine act eps momentum name)"
| "run_call N (Call_multihead_attention q k v d h kdim vdim dropout bias bias_kv zero init name) =
     one_result (cgb_multihead_attention N q k v d h kdim vdim dropout bias bias_kv zero init name)"
| "run_call N (Call_dense t d act bias dtype projection bias_init name) =
     one_result (cgb_dense N t d act bias dtype projection bias_init name)"
| "run_call N (Call_concat ts axis name) = one_result (cgb_concat N ts axis name)"
| "run_call N (Call_flat t start_dim end_dim name) = one_result (cgb_flat N t start_dim end_dim name)"
| "run_call N (Call_layer_norm t axes affine eps name) = one_result (cgb_layer_norm N t axes affine eps name)"
| "run_call N (Call_reshape t shape name) = one_result (cgb_reshape N t shape name)"
| "run_call N (Call_softmax t dim name) = one_result (cgb_softmax N t dim name)"
| "run_call N (Call_split t sizes axis name) = cgb_split N t sizes axis name"
| "run_call N (Call_transpose t perm name) = one_result (cgb_transpose N t perm name)"

inductive builder_reachable :: "(operator_type \<Rightarrow> string) \<Rightarrow> builder_state \<Rightarrow> bool" for N where
  new: "builder_reachable N (make_empty_computation_graph, made)"
| call: "builder_reachable N s \<Longrightarrow> run_call N c s = Inr (ts, s') \<Longrightarrow> builder_reachable N s'"
| others: "builder_reachable N (cg, made) \<Longrightarrow> made \<le> made' \<Longrightarrow> builder_reachable N (cg, made')"

section \<open>Lemmas\<close>

lemma get_shape_eq [simp]: "get_shape t s = Inr (x, s') \<longleftrightarrow> cg_shape (fst s) t = Inr x \<and> s' = s"
  by (simp add: get_shape_def)

abbreviation good :: "builder_state \<Rightarrow> bool" where
  "good \<equiv> good_for cg_layer_ok"

abbreviation grows :: "builder_state \<Rightarrow> builder_state \<Rightarrow> bool" where
  "grows \<equiv> grows_for cg_layer_ok"

abbreviation keeps :: "'a builder \<Rightarrow> bool" where
  "keeps \<equiv> keeps_for cg_layer_ok"

lemma keeps_get_shape [keeps]: "keeps (get_shape t)"
  by (simp add: get_shape_def keeps_basic)

section \<open>Adding a layer\<close>

lemma add_layer_using_eq:
  "add_layer_using mk l inputs inits flags s = Inr (outs, s') \<longleftrightarrow>
     dom inputs \<inter> dom inits = {} \<and> check_incoming_tensor_roles l (dom inputs) (dom inits) = Inr () \<and>
     ran inputs \<subseteq> dom (okg_outputs (fst s)) \<and>
     (\<exists>ws weights s1 n. cg_get_weight_shapes (la_op_attrs l) (shapes_of (attrs_at (fst s) inputs)) = Inr ws \<and>
        dom ws = dom inits \<and>
        b_generate_map (dom ws) (\<lambda>slot. mk (the (ws slot)) (the (inits slot))) s = Inr (weights, s1) \<and>
        cg_add_layer l inputs weights flags s1 = Inr ((n, outs), s'))"
  by (cases s') (simp add: add_layer_using_def map_values_shapes)

lemma add_layer_no_weights: "add_layer_using mk l inputs Map.empty flags = add_layer_using mk' l inputs Map.empty flags"
  by (simp add: add_layer_using_def b_bind_require b_generate_map_none cong: if_cong)

text \<open>The equation of the source, where \<open>create_weight\<close> calls \<open>add_layer\<close>.\<close>

lemma create_weight_eq:
  "create_weight shape initializer maybe_name =
     b_bind (b_lift (mk_layer_attrs (CG_weight \<lparr> weight_tensor_shape = shape, weight_initializer = initializer \<rparr>)
       maybe_name)) (\<lambda>layer_attrs. add_layer_output layer_attrs Map.empty Map.empty)"
  unfolding create_weight_def [of shape initializer maybe_name] add_layer_output_def add_layer_def
  by (simp only: add_layer_no_weights [of "\<lambda>_ _. b_lift (Inl Assertion_failed)" _ _ _
    "\<lambda>shape initializer. create_weight shape initializer None"])

lemma mk_layer_attrs_op: "mk_layer_attrs op name = Inr l \<Longrightarrow> la_op_attrs l = op"
  by (auto simp: mk_layer_attrs_def)

definition created_with :: "tensor_shape \<Rightarrow> tensor_guid \<Rightarrow> computation_graph \<Rightarrow> bool" where
  "created_with shape t cg \<longleftrightarrow> okg_outputs cg t = Some \<lparr> ta_shape = shape, ta_create_grad = Create_grad_YES \<rparr>"

lemma created_with_extends: "kwarg_graph.extends g g' \<Longrightarrow> created_with shape t g \<Longrightarrow> created_with shape t g'"
  by (auto simp: created_with_def intro: kwarg_graph.extends_value)

lemma cg_add_layer_grows:
  assumes "cg_add_layer l inputs weights flags s = Inr ((n, outs), s')"
    and "good s \<Longrightarrow> snd s < 2 ^ 64 \<Longrightarrow> cg_get_weight_shapes (la_op_attrs l) (shapes_of (attrs_at (fst s) inputs)) =
      Inr (shapes_of (attrs_at (fst s) weights))"
  shows "grows s s' \<and> snd s' = Suc (snd s)"
proof -
  obtain cg made cg' made' where s: "s = (cg, made)" "s' = (cg', made')" by (metis surj_pair)
  have suc: "made' = Suc made"
    using assms(1) by (auto simp: s cg_add_layer_eq kwarg_add_node_def open_add_node_def source_new_node_def Let_def)
  have "good s' \<and> kwarg_graph.extends (fst s) (fst s')" if "good s" "snd s' \<le> 2 ^ 64"
  proof -
    have lt: "made < 2 ^ 64" using that(2) suc by (simp add: s)
    have wf: "wf_kwarg_graph cg made" "kwarg_graph.typed cg_layer_ok cg" using that(1) by (simp_all add: good_for_def s)
    have ws: "cg_get_weight_shapes (la_op_attrs l) (shapes_of (attrs_at cg inputs)) = Inr (shapes_of (attrs_at cg weights))"
      using assms(2) [OF that(1)] lt by (simp add: s)
    show ?thesis
      using cg_add_layer_typed [OF assms(1) [unfolded s] wf(1) lt wf(2) ws] unfolding good_for_def s fst_conv snd_conv by blast
  qed
  then show ?thesis using suc by (simp add: grows_for_def s)
qed

lemma create_weight_grows:
  assumes "create_weight shape initializer name s = Inr (t, s')"
  shows "grows s s' \<and> (good s \<longrightarrow> snd s' \<le> 2 ^ 64 \<longrightarrow> created_with shape t (fst s'))"
proof -
  let ?a = "\<lparr> weight_tensor_shape = shape, weight_initializer = initializer \<rparr>"
  obtain cg made cg' made' where s: "s = (cg, made)" "s' = (cg', made')" by (metis surj_pair)
  from assms obtain l n outs where l: "la_op_attrs l = CG_weight ?a"
    and add: "cg_add_layer l Map.empty Map.empty None s = Inr ((n, outs), s')"
    and t: "outs = [Slot_OUTPUT \<mapsto> t]"
    by (auto simp: create_weight_def add_layer_using_eq container_ops dest: mk_layer_attrs_op)
  have ws: "cg_get_weight_shapes (la_op_attrs l) (shapes_of (attrs_at g Map.empty)) = Inr (shapes_of (attrs_at g Map.empty))"
    for g by (simp add: l)
  have grows: "grows s s'" and suc: "snd s' = Suc (snd s)" using cg_add_layer_grows [OF add] ws by blast+
  have "created_with shape t (fst s')" if "good s" "snd s' \<le> 2 ^ 64"
  proof -
    have lt: "made < 2 ^ 64" using that(2) suc by (simp add: s)
    have wf: "wf_kwarg_graph cg made" "kwarg_graph.typed cg_layer_ok cg" using that(1) by (simp_all add: good_for_def s)
    obtain out_attrs where os: "cg_get_output_shapes (CG_weight ?a) Map.empty = Inr (shapes_of out_attrs)"
      and "flags_ok None (map_option ta_create_grad \<circ> out_attrs)"
      and outs: "outs = (\<lambda>slot. map_option (\<lambda>_. KwargDataflowOutput made slot) (out_attrs slot))"
      and lab: "\<forall>slot. okg_outputs cg' (KwargDataflowOutput made slot) = out_attrs slot"
      using cg_add_layer_typed [OF add [unfolded s] wf(1) lt wf(2) ws] by (auto simp: l)
    have "shapes_of out_attrs = [Slot_OUTPUT \<mapsto> shape]"
      using os by (auto simp: source_output_eq weight_get_output_shape_def)
    then have "map_option ta_shape (out_attrs Slot_OUTPUT) = Some shape" by (metis shapes_of_simps(4) map_upd_Some_unfold)
    then obtain a where a: "out_attrs Slot_OUTPUT = Some a" "ta_shape a = shape" by auto
    moreover have "ta_create_grad a = Create_grad_YES"
      using \<open>flags_ok None _\<close> a(1) by (auto simp: flags_ok_def ran_def)
    moreover have "outs Slot_OUTPUT = Some (KwargDataflowOutput made Slot_OUTPUT)" by (simp add: outs a)
    ultimately show ?thesis using lab t by (auto simp: created_with_def s)
  qed
  with grows show ?thesis by blast
qed

lemma keeps_create_weight [keeps]: "keeps (create_weight shape initializer name)"
  using create_weight_grows by (auto simp: keeps_for_def)

text \<open>What is known of a layer that \<open>add_layer\<close> has added.\<close>

lemma add_layer_post:
  assumes "add_layer l inputs inits flags s = Inr (outs, s')"
  shows "grows s s' \<and> (good s \<longrightarrow> snd s' \<le> 2 ^ 64 \<longrightarrow> (\<exists>n weights out_attrs.
    okg_nodes (fst s') n = Some l \<and> incoming_outputs (fst s') n = inputs ++ weights \<and> dom inputs \<inter> dom weights = {} \<and>
    ran inputs \<subseteq> dom (okg_outputs (fst s)) \<and>
    cg_get_output_shapes (la_op_attrs l) (shapes_of (attrs_at (fst s) inputs)) = Inr (shapes_of out_attrs) \<and>
    outs = (\<lambda>slot. map_option (\<lambda>_. KwargDataflowOutput n slot) (out_attrs slot)) \<and>
    (\<forall>slot. okg_outputs (fst s') (KwargDataflowOutput n slot) = out_attrs slot)))"
proof -
  let ?mk = "\<lambda>shape initializer. create_weight shape initializer None"
  from assms obtain ws weights s1 n where ran: "ran inputs \<subseteq> dom (okg_outputs (fst s))" and dis: "dom inputs \<inter> dom inits = {}"
    and ws: "cg_get_weight_shapes (la_op_attrs l) (shapes_of (attrs_at (fst s) inputs)) = Inr ws" "dom ws = dom inits"
    and gen: "b_generate_map (dom ws) (\<lambda>slot. ?mk (the (ws slot)) (the (inits slot))) s = Inr (weights, s1)"
    and add: "cg_add_layer l inputs weights flags s1 = Inr ((n, outs), s')"
    unfolding add_layer_def add_layer_using_eq by blast
  have made: "grows s s1 \<and> dom weights = dom ws \<and>
      (good s \<longrightarrow> snd s1 \<le> 2 ^ 64 \<longrightarrow> (\<forall>slot \<in> dom ws. created_with (the (ws slot)) (the (weights slot)) (fst s1)))"
    by (rule b_generate_map_post [OF finite_slots _ _ gen, where P = "\<lambda>slot t g. created_with (the (ws slot)) t g"])
      (use create_weight_grows created_with_extends in blast)+
  have same: "attrs_at (fst s1) inputs = attrs_at (fst s) inputs" if "good s" "snd s1 \<le> 2 ^ 64"
    using made that growsD(3) ran by (blast intro: attrs_at_extends(1))
  have shapes: "shapes_of (attrs_at (fst s1) weights) = ws" if "good s" "snd s1 \<le> 2 ^ 64"
  proof
    fix slot
    show "shapes_of (attrs_at (fst s1) weights) slot = ws slot"
    proof (cases "slot \<in> dom ws")
      case True
      with made that have c: "created_with (the (ws slot)) (the (weights slot)) (fst s1)" "slot \<in> dom weights" by auto
      with True show ?thesis by (auto simp: created_with_def)
    next
      case False
      with made have "slot \<notin> dom weights" by simp
      with False show ?thesis by (auto simp: domIff)
    qed
  qed
  have ws1: "cg_get_weight_shapes (la_op_attrs l) (shapes_of (attrs_at (fst s1) inputs)) =
      Inr (shapes_of (attrs_at (fst s1) weights))" if "good s" "snd s1 \<le> 2 ^ 64"
    using ws(1) same [OF that] shapes [OF that] by simp
  obtain cg made1 cg' made' where s: "s1 = (cg, made1)" "s' = (cg', made')" by (metis surj_pair)
  have suc: "made' = Suc made1"
    using add by (auto simp: s cg_add_layer_eq kwarg_add_node_def open_add_node_def source_new_node_def Let_def)
  show ?thesis
  proof (intro conjI impI)
    have "grows s1 s'" if "good s" "snd s1 \<le> 2 ^ 64"
      using cg_add_layer_grows [OF add] ws1 [OF that] by blast
    with made show "grows s s'" by (auto simp: grows_for_def s suc intro: kwarg_graph.extends_trans)
    assume g: "good s" and bound: "snd s' \<le> 2 ^ 64"
    then have b1: "snd s1 \<le> 2 ^ 64" and lt: "made1 < 2 ^ 64" by (simp_all add: s suc)
    have wf: "wf_kwarg_graph cg made1" "kwarg_graph.typed cg_layer_ok cg"
      using growsD(2) [OF conjunct1 [OF made] g b1] by (simp_all add: good_for_def s)
    have new: "okg_nodes cg' = (okg_nodes cg)(made1 \<mapsto> l)"
      "incoming_outputs cg' = (incoming_outputs cg)(made1 := inputs ++ weights)"
      and out: "\<exists>out_attrs. cg_get_output_shapes (la_op_attrs l) (shapes_of (attrs_at cg inputs)) = Inr (shapes_of out_attrs) \<and>
       flags_ok flags (map_option ta_create_grad \<circ> out_attrs) \<and>
       outs = (\<lambda>slot. map_option (\<lambda>_. KwargDataflowOutput made1 slot) (out_attrs slot)) \<and>
       (\<forall>slot. okg_outputs cg' (KwargDataflowOutput made1 slot) = out_attrs slot)"
      using cg_add_layer_typed [OF add [unfolded s] wf(1) lt wf(2) ws1 [OF g b1, unfolded s fst_conv]] by blast+
    show "\<exists>n weights out_attrs.
      okg_nodes (fst s') n = Some l \<and> incoming_outputs (fst s') n = inputs ++ weights \<and> dom inputs \<inter> dom weights = {} \<and>
      ran inputs \<subseteq> dom (okg_outputs (fst s)) \<and>
      cg_get_output_shapes (la_op_attrs l) (shapes_of (attrs_at (fst s) inputs)) = Inr (shapes_of out_attrs) \<and>
      outs = (\<lambda>slot. map_option (\<lambda>_. KwargDataflowOutput n slot) (out_attrs slot)) \<and>
      (\<forall>slot. okg_outputs (fst s') (KwargDataflowOutput n slot) = out_attrs slot)"
      using out same [OF g b1] dis made ws(2) ran
      by (intro exI [of _ made1] exI [of _ weights]) (auto simp: s new)
  qed
qed

lemma keeps_add_layer [keeps]: "keeps (add_layer l inputs inits flags)"
  using add_layer_post by (auto simp: keeps_for_def)

lemma keeps_add_layer_output [keeps]: "keeps (add_layer_output l inputs inits)"
  unfolding add_layer_output_def by (intro keeps)

section \<open>Every method keeps the invariant\<close>

lemma keeps_cast_as_type [keeps]:
  "keeps (cgb_cast N x t name')" "keeps (as_type N x t name)"
  unfolding cgb_cast_def as_type_def by (intro keeps)+

lemma keeps_broadcast [keeps]: "keeps (cgb_broadcast input dims name)"
  "keeps (cgb_get_broadcast_target_dims_of_tensors ts)"
  unfolding cgb_broadcast_def cgb_get_broadcast_target_dims_of_tensors_def by (intro keeps)+

lemma keeps_create_input [keeps]: "keeps (create_input shape flag name)"
  unfolding create_input_def by (intro keeps)

lemma keeps_elementwise [keeps]:
  "keeps (cgb_element_unary N op x scalar name)" "keeps (cgb_element_binary N op lhs rhs name)"
  "keeps (cgb_batch_matmul N lhs rhs name)"
  unfolding cgb_element_unary_def cgb_element_binary_def cgb_batch_matmul_def by (intro keeps)+

lemma keeps_image_methods [keeps]:
  "keeps (cgb_conv2d N x c kh kw sh sw ph pw act groups bias kinit binit reg name)"
  "keeps (cgb_upsample N x scale mode name)"
  "keeps (cgb_pool2d N x kh kw sh sw ph pw type act name)"
  "keeps (cgb_adaptive_pool2d N x h w type act name)"
  unfolding cgb_conv2d_def cgb_upsample_def cgb_pool2d_def cgb_adaptive_pool2d_def by (intro keeps)+

lemma keeps_other_methods [keeps]:
  "keeps (cgb_dropout N x rate seed name)" "keeps (cgb_embedding N x n d aggr dtype init name)"
  "keeps (cgb_gather N x index dim name)" "keeps (cgb_batch_norm N x affine act' eps momentum name)"
  "keeps (cgb_multihead_attention N q k v d h kdim vdim dropout bias bias_kv zero init name)"
  "keeps (cgb_dense N x d act bias dtype projection bias_init name)" "keeps (cgb_softmax N x dim' name)"
  unfolding cgb_dropout_def cgb_embedding_def cgb_gather_def cgb_batch_norm_def cgb_multihead_attention_def
    cgb_dense_def cgb_softmax_def by (intro keeps)+

lemma keeps_layout_methods [keeps]:
  "keeps (cgb_concat N ts axis name)" "keeps (cgb_flat N x start_dim end_dim name)"
  "keeps (cgb_layer_norm N x axes affine eps name)" "keeps (cgb_reshape N x shape name)"
  "keeps (cgb_split N x sizes axis name)" "keeps (cgb_transpose N x perm name)"
  unfolding cgb_concat_def cgb_flat_def cgb_layer_norm_def cgb_reshape_def cgb_split_def cgb_transpose_def
  by (intro keeps)+

lemma keeps_run_call: "keeps (run_call N c)"
  by (cases c) (simp_all add: one_result_def keeps)

lemma good_empty: "good (make_empty_computation_graph, made)"
  by (simp add: good_for_def make_empty_computation_graph_def kwarg_graph.valid_emp(1) kwarg_graph.typed_emp)

lemma builder_reachable_good: "builder_reachable N s \<Longrightarrow> snd s \<le> 2 ^ 64 \<Longrightarrow> good s"
proof (induction rule: builder_reachable.induct)
  case (new made)
  show ?case by (rule good_empty)
next
  case (call s c ts s')
  from call.hyps(2) have g: "grows s s'" using keeps_run_call unfolding keeps_for_def by blast
  then have "snd s \<le> 2 ^ 64" using growsD(1) [OF g] call.prems by simp
  with call g show ?case by (auto intro: growsD(2))
next
  case (others cg made made')
  then show ?case by (auto simp: good_for_def intro: wf_kwarg_graph_mono)
qed

section \<open>When a layer can be added\<close>

lemma check_roles_ok:
  assumes "cg_get_output_shapes (la_op_attrs l) ins = Inr outs" and "cg_get_weight_shapes (la_op_attrs l) ins = Inr ws"
    and "dom ins \<inter> dom ws = {}"
  shows "check_incoming_tensor_roles l (dom ins) (dom ws) = Inr ()"
proof -
  from incoming_slot_roles [OF assms(1,2)] obtain roles where
    roles: "cg_get_incoming_tensor_roles (la_op_attrs l) = Inr roles"
    "slots_with_role roles Role_INPUT = dom ins" "slots_with_role roles Role_WEIGHT = dom ws" by blast
  let ?i = "\<lambda>k. if k \<in> dom ins then Some Role_INPUT else None"
  let ?w = "\<lambda>k. if k \<in> dom ws then Some Role_WEIGHT else None"
  have i: "roles k = Some Role_INPUT \<longleftrightarrow> k \<in> dom ins" and w: "roles k = Some Role_WEIGHT \<longleftrightarrow> k \<in> dom ws" for k
    using roles(2,3) unfolding slots_with_role_def by blast+
  have "(roles |` (dom ins \<union> dom ws)) k = (?i ++ ?w) k" for k
    using assms(3) i [of k] w [of k] by (auto simp: restrict_map_def map_add_def)
  then have "roles |` (dom ins \<union> dom ws) = ?i ++ ?w" by (rule ext)
  moreover have "dom ?i = dom ins" "dom ?w = dom ws" by (auto split: if_splits)
  ultimately show ?thesis
    using assms(3) by (simp add: check_incoming_tensor_roles_def roles(1) binary_merge_disjoint_maps_def)
qed

lemma create_weight_succeeds: "\<exists>t s'. create_weight shape initializer None s = Inr (t, s') \<and> snd s' = Suc (snd s)"
proof -
  let ?a = "\<lparr> weight_tensor_shape = shape, weight_initializer = initializer \<rparr>"
  let ?l = "\<lparr> la_op_attrs = CG_weight ?a, la_name = None \<rparr>"
  obtain cg made where s: "s = (cg, made)" by (cases s)
  have os: "cg_get_output_shapes (CG_weight ?a) Map.empty = Inr [Slot_OUTPUT \<mapsto> shape]"
    and ws: "cg_get_weight_shapes (CG_weight ?a) Map.empty = Inr Map.empty"
    by (simp_all add: source_output_eq weight_get_output_shape_def)
  have roles: "check_incoming_tensor_roles ?l {} {} = Inr ()"
    using check_roles_ok [of ?l Map.empty _ Map.empty] os ws by simp
  obtain n outs cg' made' where add: "cg_add_layer ?l Map.empty Map.empty None (cg, made) = Inr ((n, outs), cg', made')"
    using cg_add_layer_succeeds [of Map.empty cg Map.empty ?l Map.empty] os ws by fastforce
  then obtain out_attrs where out: "[Slot_OUTPUT \<mapsto> shape] = shapes_of out_attrs"
    and node: "kwarg_add_node ?l (Map.empty ++ Map.empty) out_attrs cg made = ((n, outs), cg', made')"
    unfolding cg_add_layer_eq using os by auto
  have dom: "dom out_attrs = {Slot_OUTPUT}" using arg_cong [OF out, of dom] by simp
  have "made' = Suc made" "outs = (\<lambda>slot. map_option (\<lambda>_. KwargDataflowOutput n slot) (out_attrs slot))"
    using node by (auto simp: kwarg_add_node_def open_add_node_def source_new_node_def Let_def)
  then have outs: "outs = [Slot_OUTPUT \<mapsto> KwargDataflowOutput n Slot_OUTPUT]" and suc: "made' = Suc made"
    using dom by (auto simp: fun_eq_iff domIff set_eq_iff split: option.split)
  have "add_layer_using mk ?l Map.empty Map.empty None s = Inr ([Slot_OUTPUT \<mapsto> KwargDataflowOutput n Slot_OUTPUT], cg', Suc made)" for mk
    using add roles ws by (auto simp: add_layer_using_eq s outs suc)
  then have "create_weight shape initializer None s = Inr (KwargDataflowOutput n Slot_OUTPUT, cg', Suc made)"
    by (simp add: create_weight_def mk_layer_attrs_def optional_stack_string_def container_ops)
  then show ?thesis by (simp add: s)
qed

lemma add_layer_succeeds:
  assumes good: "good s" and bound: "snd s + card (dom ws) \<le> 2 ^ 64"
    and ran: "ran inputs \<subseteq> dom (okg_outputs (fst s))" and dis: "dom inputs \<inter> dom inits = {}"
    and ws: "cg_get_weight_shapes (la_op_attrs l) (shapes_of (attrs_at (fst s) inputs)) = Inr ws" "dom ws = dom inits"
    and os: "cg_get_output_shapes (la_op_attrs l) (shapes_of (attrs_at (fst s) inputs)) = Inr os"
  shows "\<exists>outs s'. add_layer l inputs inits None s = Inr (outs, s') \<and> snd s' = Suc (snd s + card (dom ws))"
proof -
  let ?mk = "\<lambda>slot. create_weight (the (ws slot)) (the (inits slot)) None"
  have dom: "dom (shapes_of (attrs_at (fst s) inputs)) = dom inputs" using ran by (simp add: dom_attrs_at)
  have roles: "check_incoming_tensor_roles l (dom inputs) (dom inits) = Inr ()"
    using check_roles_ok [OF os ws(1)] dis by (simp only: dom ws(2))
  obtain weights s1 where gen: "b_generate_map (dom ws) ?mk s = Inr (weights, s1)" and made: "snd s1 = snd s + card (dom ws)"
    using b_generate_map_succeeds [of ?mk "dom ws" s, OF create_weight_succeeds finite_slots] by blast
  have post: "grows s s1 \<and> dom weights = dom ws \<and>
      (good s \<longrightarrow> snd s1 \<le> 2 ^ 64 \<longrightarrow> (\<forall>slot \<in> dom ws. created_with (the (ws slot)) (the (weights slot)) (fst s1)))"
    by (rule b_generate_map_post [OF finite_slots _ _ gen, where P = "\<lambda>slot t g. created_with (the (ws slot)) t g"])
      (use create_weight_grows created_with_extends in blast)+
  have b1: "snd s1 \<le> 2 ^ 64" using bound made by simp
  have grew: "kwarg_graph.extends (fst s) (fst s1)" using post good b1 growsD(3) by blast
  have ran_w: "ran weights \<subseteq> dom (okg_outputs (fst s1))"
  proof
    fix t assume "t \<in> ran weights"
    then obtain slot where "weights slot = Some t" by (auto simp: ran_def)
    with post good b1 have "created_with (the (ws slot)) t (fst s1)" by (metis domI option.sel)
    then show "t \<in> dom (okg_outputs (fst s1))" by (auto simp: created_with_def)
  qed
  note at = attrs_at_extends [OF grew ran]
  obtain cg1 made1 where s1: "s1 = (cg1, made1)" by (cases s1)
  have dis_w: "dom inputs \<inter> dom weights = {}" using dis post ws(2) by simp
  obtain n outs cg' made' where add: "cg_add_layer l inputs weights None s1 = Inr ((n, outs), cg', made')"
    using cg_add_layer_succeeds [of inputs cg1 weights l ws os made1] at(2) ran_w dis_w ws(1) os at(1)
    unfolding s1 by fastforce
  then have "made' = Suc (snd s1)"
    by (auto simp: s1 cg_add_layer_eq kwarg_add_node_def open_add_node_def source_new_node_def Let_def)
  moreover have "add_layer l inputs inits None s = Inr (outs, cg', made')"
    unfolding add_layer_def add_layer_using_eq using dis roles ran ws gen add by blast
  ultimately show ?thesis using made by (intro exI [of _ outs] exI [of _ "(cg', made')"]) simp
qed

section \<open>Exactly what \<open>add_layer\<close> adds\<close>

text \<open>The tensors of weights that get the next numbers, in the order of their slots.\<close>

definition new_weights :: "nat \<Rightarrow> tensor_slot_name set \<Rightarrow> tensor_guid slots" where
  "new_weights made slots = map_of (zip (sorted_list_of_set slots)
     (map (\<lambda>i. KwargDataflowOutput i Slot_OUTPUT) [made..<made + card slots]))"

text \<open>A tensor is the output of a weight layer of a given shape and initializer.\<close>

definition is_weight :: "tensor_shape \<Rightarrow> initializer_attrs \<Rightarrow> tensor_guid \<Rightarrow> computation_graph \<Rightarrow> bool" where
  "is_weight shape initializer w cg \<longleftrightarrow>
     okg_nodes cg (kdo_node w) =
       Some \<lparr> la_op_attrs = CG_weight \<lparr> weight_tensor_shape = shape, weight_initializer = initializer \<rparr>, la_name = None \<rparr> \<and>
     okg_outputs cg w = Some \<lparr> ta_shape = shape, ta_create_grad = Create_grad_YES \<rparr>"

lemma is_weight_extends: "kwarg_graph.extends g g' \<Longrightarrow> is_weight shape initializer w g \<Longrightarrow> is_weight shape initializer w g'"
  unfolding is_weight_def kwarg_graph.extends_def by (metis domI map_le_def)

lemma create_weight_adds:
  assumes "create_weight shape initializer None s = Inr (w, s')" and "good s" and "snd s' \<le> 2 ^ 64"
  shows "w = KwargDataflowOutput (snd s) Slot_OUTPUT \<and> snd s' = Suc (snd s) \<and>
    dom (okg_nodes (fst s')) = insert (snd s) (dom (okg_nodes (fst s))) \<and> is_weight shape initializer w (fst s')"
proof -
  let ?a = "\<lparr> weight_tensor_shape = shape, weight_initializer = initializer \<rparr>"
  let ?l = "\<lparr> la_op_attrs = CG_weight ?a, la_name = None \<rparr>"
  obtain cg made cg' made' where s: "s = (cg, made)" "s' = (cg', made')" by (metis surj_pair)
  from assms(1) obtain n outs where add: "cg_add_layer ?l Map.empty Map.empty None s = Inr ((n, outs), s')"
    and w: "outs = [Slot_OUTPUT \<mapsto> w]"
    by (auto simp: create_weight_def add_layer_using_eq container_ops mk_layer_attrs_def optional_stack_string_def)
  have suc: "made' = Suc made"
    using add by (auto simp: s cg_add_layer_eq kwarg_add_node_def open_add_node_def source_new_node_def Let_def)
  have wf: "wf_kwarg_graph cg made" "kwarg_graph.typed cg_layer_ok cg" and lt: "made < 2 ^ 64"
    using assms(2,3) suc by (simp_all add: good_for_def s)
  have none: "cg_get_weight_shapes (la_op_attrs ?l) (shapes_of (attrs_at cg Map.empty)) = Inr (shapes_of (attrs_at cg Map.empty))"
    by simp
  have new: "okg_nodes cg' = (okg_nodes cg)(made \<mapsto> ?l)"
    using cg_add_layer_typed [OF add [unfolded s] wf(1) lt wf(2) none] by blast
  obtain out_attrs :: "tensor_attrs slots" where
    "outs = (\<lambda>slot. map_option (\<lambda>_. KwargDataflowOutput made slot) (out_attrs slot))"
    using cg_add_layer_typed [OF add [unfolded s] wf(1) lt wf(2) none] by blast
  then have "[Slot_OUTPUT \<mapsto> w] = (\<lambda>slot. map_option (\<lambda>_. KwargDataflowOutput made slot) (out_attrs slot))"
    using w by simp
  from fun_cong [OF this, of Slot_OUTPUT] have w_eq: "w = KwargDataflowOutput made Slot_OUTPUT"
    by (cases "out_attrs Slot_OUTPUT") simp_all
  moreover have "created_with shape w cg'" using create_weight_grows [OF assms(1)] assms(2,3) by (simp add: s)
  ultimately show ?thesis using new suc by (simp add: s is_weight_def created_with_def)
qed

lemma b_map_numbered:
  assumes step: "\<And>k s y s'. f k s = Inr (y, s') \<Longrightarrow> grows s s' \<and> (good s \<longrightarrow> snd s' \<le> 2 ^ 64 \<longrightarrow>
      y = (k, KwargDataflowOutput (snd s) Slot_OUTPUT) \<and> snd s' = Suc (snd s) \<and>
      dom (okg_nodes (fst s')) = insert (snd s) (dom (okg_nodes (fst s))))"
    and "b_map f ks s = Inr (kvs, s')" and "good s" and bound: "snd s' \<le> 2 ^ 64"
  shows "kvs = zip ks (map (\<lambda>i. KwargDataflowOutput i Slot_OUTPUT) [snd s..<snd s + length ks]) \<and>
    dom (okg_nodes (fst s')) = dom (okg_nodes (fst s)) \<union> {snd s..<snd s + length ks} \<and>
    snd s' = snd s + length ks"
  using assms(2,3)
proof (induction ks arbitrary: s kvs)
  case (Cons k ks)
  then obtain y s1 kvs' where y: "f k s = Inr (y, s1)" and rest: "b_map f ks s1 = Inr (kvs', s')"
    and kvs: "kvs = y # kvs'" by auto
  have g: "grows s s1" using step [OF y] by blast
  have "grows s1 s'"
    using b_map_post [OF _ _ rest, of cg_layer_ok "\<lambda>_ _ _. True"] step by blast
  then have b1: "snd s1 \<le> 2 ^ 64" using growsD(1) bound by fastforce
  have g1: "good s1" using growsD(2) [OF g Cons.prems(2) b1] .
  have first: "y = (k, KwargDataflowOutput (snd s) Slot_OUTPUT)" "snd s1 = Suc (snd s)"
    "dom (okg_nodes (fst s1)) = insert (snd s) (dom (okg_nodes (fst s)))"
    using step [OF y] Cons.prems(2) b1 by blast+
  have "length (k # ks) = Suc (length ks)" by simp
  then have upt: "[snd s..<snd s + length (k # ks)] = snd s # [snd s1..<snd s1 + length ks]"
    unfolding first(2) by (simp only: add_Suc_right add_Suc) (simp only: upt_rec [of "snd s"], simp)
  have set: "{snd s..<snd s + length (k # ks)} = insert (snd s) {snd s1..<snd s1 + length ks}"
    using first by auto
  show ?case using Cons.IH [OF rest g1] first unfolding upt set kvs by simp
qed simp

lemma create_weights_run:
  assumes gen: "b_generate_map ks (\<lambda>slot. create_weight (sh slot) (ini slot) None) s = Inr (weights, s1)"
    and good: "good s" and bound: "snd s1 \<le> 2 ^ 64"
  shows "weights = new_weights (snd s) ks \<and> dom weights = ks \<and> snd s1 = snd s + card ks \<and> good s1 \<and>
    kwarg_graph.extends (fst s) (fst s1) \<and> dom (okg_nodes (fst s1)) = dom (okg_nodes (fst s)) \<union> {snd s..<snd s + card ks} \<and>
    (\<forall>slot \<in> ks. is_weight (sh slot) (ini slot) (the (weights slot)) (fst s1))"
proof -
  have fin: "finite ks" by (rule finite_slots)
  have step: "grows t t' \<and> (good t \<longrightarrow> snd t' \<le> 2 ^ 64 \<longrightarrow> is_weight (sh k) (ini k) v (fst t'))"
    if "create_weight (sh k) (ini k) None t = Inr (v, t')" for k t v t'
    using create_weight_grows [OF that] create_weight_adds [OF that] by blast
  have post: "grows s s1 \<and> dom weights = ks \<and>
      (good s \<longrightarrow> snd s1 \<le> 2 ^ 64 \<longrightarrow> (\<forall>slot \<in> ks. is_weight (sh slot) (ini slot) (the (weights slot)) (fst s1)))"
    by (rule b_generate_map_post [OF fin _ _ gen, where P = "\<lambda>slot w g. is_weight (sh slot) (ini slot) w g"])
      (use step is_weight_extends in blast)+
  let ?f = "\<lambda>slot. b_bind (create_weight (sh slot) (ini slot) None) (\<lambda>v. b_return (slot, v))"
  obtain kvs where kvs: "b_map ?f (sorted_list_of_set ks) s = Inr (kvs, s1)" and m: "weights = map_of kvs"
    using gen by (auto simp: b_generate_map_def)
  have "grows t t' \<and> (good t \<longrightarrow> snd t' \<le> 2 ^ 64 \<longrightarrow>
      y = (k, KwargDataflowOutput (snd t) Slot_OUTPUT) \<and> snd t' = Suc (snd t) \<and>
      dom (okg_nodes (fst t')) = insert (snd t) (dom (okg_nodes (fst t))))" if "?f k t = Inr (y, t')" for k t y t'
  proof -
    from that obtain w where w: "create_weight (sh k) (ini k) None t = Inr (w, t')" "y = (k, w)" by (cases t') auto
    with create_weight_grows [OF w(1)] create_weight_adds [OF w(1)] show ?thesis by simp
  qed
  from b_map_numbered [OF this kvs good bound] have "kvs = zip (sorted_list_of_set ks)
      (map (\<lambda>i. KwargDataflowOutput i Slot_OUTPUT) [snd s..<snd s + card ks])"
    "dom (okg_nodes (fst s1)) = dom (okg_nodes (fst s)) \<union> {snd s..<snd s + card ks}" "snd s1 = snd s + card ks"
    by simp_all
  moreover have "good s1" "kwarg_graph.extends (fst s) (fst s1)" using growsD(2,3) [OF conjunct1 [OF post] good bound] by blast+
  ultimately show ?thesis using post good bound by (simp add: m new_weights_def)
qed

text \<open>The queries of the state that \<open>add_layer\<close> leaves.\<close>

lemma add_layer_result:
  assumes add: "add_layer l inputs inits flags (cg, made) = Inr (outs, cg', made')"
    and good: "good (cg, made)" and bound: "made + card (dom inits) < 2 ^ 64"
  shows "\<exists>weight_shapes out_shapes.
    cg_get_weight_shapes (la_op_attrs l) (shapes_of (attrs_at cg inputs)) = Inr weight_shapes \<and>
    dom weight_shapes = dom inits \<and> dom inputs \<inter> dom inits = {} \<and> ran inputs \<subseteq> dom (okg_outputs cg) \<and>
    cg_get_output_shapes (la_op_attrs l) (shapes_of (attrs_at cg inputs)) = Inr out_shapes \<and>
    made' = made + card (dom inits) + 1 \<and> kwarg_graph.extends cg cg' \<and>
    cg_get_layers cg' = cg_get_layers cg \<union> {made..<made'} \<and>
    get_layer_attrs cg' (made + card (dom inits)) = Inr l \<and>
    get_incoming_inputs cg' (made + card (dom inits)) = Inr inputs \<and>
    get_incoming_weights cg' (made + card (dom inits)) = Inr (new_weights made (dom inits)) \<and>
    (\<forall>slot \<in> dom inits. \<exists>w. new_weights made (dom inits) slot = Some w \<and>
       is_weight (the (weight_shapes slot)) (the (inits slot)) w cg') \<and>
    get_outgoing_tensors cg' (made + card (dom inits)) = outs \<and> map_values (cg_shape cg') outs = Inr out_shapes \<and>
    outs = (\<lambda>slot. map_option (\<lambda>_. KwargDataflowOutput (made + card (dom inits)) slot) (out_shapes slot))"
proof -
  let ?n = "made + card (dom inits)" and ?ins = "shapes_of (attrs_at cg inputs)"
  from add obtain ws weights s1 n where ran: "ran inputs \<subseteq> dom (okg_outputs cg)" and dis: "dom inputs \<inter> dom inits = {}"
    and ws: "cg_get_weight_shapes (la_op_attrs l) ?ins = Inr ws" "dom ws = dom inits"
    and gen: "b_generate_map (dom ws) (\<lambda>slot. create_weight (the (ws slot)) (the (inits slot)) None) (cg, made) = Inr (weights, s1)"
    and last: "cg_add_layer l inputs weights flags s1 = Inr ((n, outs), cg', made')"
    unfolding add_layer_def add_layer_using_eq fst_conv by blast
  have made1: "snd s1 = ?n"
    using b_generate_map_succeeds [of "\<lambda>slot. create_weight (the (ws slot)) (the (inits slot)) None" "dom ws" "(cg, made)",
      OF create_weight_succeeds finite_slots] gen ws(2) by auto
  obtain cg1 where s1: "s1 = (cg1, ?n)" using made1 by (cases s1) simp
  have b1: "snd s1 \<le> 2 ^ 64" using bound made1 by simp
  from create_weights_run [OF gen good b1] have w: "weights = new_weights made (dom inits)" "dom weights = dom inits" "good (cg1, ?n)"
    "kwarg_graph.extends cg cg1" "dom (okg_nodes cg1) = dom (okg_nodes cg) \<union> {made..<?n}"
    "\<forall>slot \<in> dom inits. is_weight (the (ws slot)) (the (inits slot)) (the (weights slot)) cg1"
    unfolding ws(2) s1 fst_conv snd_conv by blast+
  have wf1: "wf_kwarg_graph cg1 ?n" "kwarg_graph.typed cg_layer_ok cg1" using w(3) by (simp_all add: good_for_def)
  note at = attrs_at_extends [OF w(4) ran]
  have shapes: "shapes_of (attrs_at cg1 weights) slot = ws slot" for slot
  proof (cases "slot \<in> dom inits")
    case True
    then obtain v where "weights slot = Some v" using w(2) by blast
    with True w(6) have "is_weight (the (ws slot)) (the (inits slot)) v cg1" by (metis option.sel)
    moreover obtain shape where "ws slot = Some shape" using True ws(2) by blast
    ultimately show ?thesis using \<open>weights slot = Some v\<close> by (simp add: is_weight_def)
  next
    case False
    then have "weights slot = None" "ws slot = None" using w(2) ws(2) by blast+
    then show ?thesis by simp
  qed
  have ws_eq: "shapes_of (attrs_at cg1 weights) = ws" by (rule ext) (rule shapes)
  have ws1: "cg_get_weight_shapes (la_op_attrs l) (shapes_of (attrs_at cg1 inputs)) = Inr (shapes_of (attrs_at cg1 weights))"
    using ws(1) unfolding at(1) ws_eq .
  from cg_add_layer_typed [OF last [unfolded s1] wf1(1) bound wf1(2) ws1]
  obtain out_attrs where new: "made' = Suc ?n" "wf_kwarg_graph cg' made'" "kwarg_graph.typed cg_layer_ok cg'"
      "kwarg_graph.extends cg1 cg'" "okg_nodes cg' = (okg_nodes cg1)(?n \<mapsto> l)"
      "incoming_outputs cg' = (incoming_outputs cg1)(?n := inputs ++ weights)"
    and os: "cg_get_output_shapes (la_op_attrs l) (shapes_of (attrs_at cg1 inputs)) = Inr (shapes_of out_attrs)"
    and outs: "outs = (\<lambda>slot. map_option (\<lambda>_. KwargDataflowOutput ?n slot) (out_attrs slot))"
    and lab: "\<forall>slot. okg_outputs cg' (KwargDataflowOutput ?n slot) = out_attrs slot"
    by blast
  have ext: "kwarg_graph.extends cg cg'" using w(4) new(4) by (rule kwarg_graph.extends_trans)
  have l: "okg_nodes cg' ?n = Some l" using new(5) by simp
  have layers: "cg_get_layers g = dom (okg_nodes g)" for g :: computation_graph
    using view_nodes_eq [of g] by (simp add: cg_get_layers_def cg_digraph_def view_nodes_def)
  obtain roles where roles: "cg_get_incoming_tensor_roles (la_op_attrs l) = Inr roles"
    and "slots_with_role roles Role_INPUT = dom (shapes_of (attrs_at cg1 inputs))"
    "slots_with_role roles Role_WEIGHT = dom (shapes_of (attrs_at cg1 weights))"
    using incoming_slot_roles [OF os ws1] by blast
  moreover have "dom (shapes_of (attrs_at cg1 inputs)) = dom inputs" using at(2) by (simp add: dom_attrs_at)
  moreover have "dom (shapes_of (attrs_at cg1 weights)) = dom weights" by (simp only: ws_eq ws(2) w(2))
  ultimately have slots: "slots_with_role roles Role_INPUT = dom inputs" "slots_with_role roles Role_WEIGHT = dom weights"
    by simp_all
  have dis_w: "dom inputs \<inter> dom weights = {}" using dis w(2) by simp
  have inc: "get_incoming_tensors cg' ?n = inputs ++ weights"
    using new(6) by (simp add: get_incoming_tensors_def incoming_outputs_def [symmetric])
  have "card (dom (inputs ++ weights)) = card (dom roles)" by (simp add: dom_roles(1) [OF slots] Un_commute)
  then have with_role: "get_incoming_inputs cg' ?n = Inr ((inputs ++ weights) |` dom inputs)"
    "get_incoming_weights cg' ?n = Inr ((inputs ++ weights) |` dom weights)"
    by (simp_all add: get_incoming_inputs_def get_incoming_weights_def get_incoming_tensors_with_role_def get_layer_attrs_def
        node_label_at_def map_at_def l roles inc dom_roles(2,3) [OF slots])
  have "((inputs ++ weights) |` dom inputs) slot = inputs slot" "((inputs ++ weights) |` dom weights) slot = weights slot" for slot
    using dis_w by (auto simp: restrict_map_def map_add_def domIff split: option.splits)
  then have ins: "get_incoming_inputs cg' ?n = Inr inputs"
    and weights: "get_incoming_weights cg' ?n = Inr (new_weights made (dom inits))"
    using with_role w(1) by (simp_all add: fun_eq_iff)
  have made': "made' = made + card (dom inits) + 1" using new(1) by simp
  have nodes: "cg_get_layers cg' = cg_get_layers cg \<union> {made..<made'}"
    unfolding layers using w(5) new(1,5) by auto
  have out: "get_outgoing_tensors cg' ?n = outs"
    using outgoing_outputs_eq [OF wf_kwarg_graphD(3) [OF new(2)]] lab by (simp add: get_outgoing_tensors_def outs)
  have "attrs_at cg' outs slot = out_attrs slot" for slot
    using lab by (cases "out_attrs slot") (simp_all add: attrs_at_def outs)
  moreover have "ran outs \<subseteq> dom (okg_outputs cg')" using lab by (auto simp: outs ran_def)
  ultimately have out_shapes: "map_values (cg_shape cg') outs = Inr (shapes_of out_attrs)"
    by (simp add: map_values_shapes shapes_of_def fun_eq_iff)
  have made_weights: "\<exists>v. new_weights made (dom inits) slot = Some v \<and> is_weight (the (ws slot)) (the (inits slot)) v cg'"
    if slot: "slot \<in> dom inits" for slot
  proof -
    obtain v where v: "weights slot = Some v" using w(2) slot by blast
    have "is_weight (the (ws slot)) (the (inits slot)) (the (weights slot)) cg'"
      using w(6) slot by (intro is_weight_extends [OF new(4)]) blast
    then show ?thesis using v w(1) by simp
  qed
  have numbers: "outs = (\<lambda>slot. map_option (\<lambda>_. KwargDataflowOutput ?n slot) (shapes_of out_attrs slot))"
    by (simp add: outs shapes_of_def option.map_comp comp_def)
  have attrs: "get_layer_attrs cg' ?n = Inr l" using l by (simp add: get_layer_attrs_def node_label_at_def map_at_def)
  show ?thesis
    by (intro exI [of _ ws] exI [of _ "shapes_of out_attrs"] conjI ballI)
      (fact ws dis ran os [unfolded at(1)] made' ext nodes attrs ins weights made_weights out out_shapes numbers)+
qed

lemma new_weights_parts:
  "dom (new_weights made slots) = slots" "kdo_node ` ran (new_weights made slots) = {made..<made + card slots}"
proof -
  let ?xs = "sorted_list_of_set slots" and ?ts = "map (\<lambda>i. KwargDataflowOutput i Slot_OUTPUT) [made..<made + card slots]"
  have fin: "finite slots" by (rule finite_slots)
  have len: "length ?xs = length ?ts" by simp
  have "dom (new_weights made slots) = set ?xs"
    unfolding new_weights_def using len by (rule dom_map_of_zip)
  then show "dom (new_weights made slots) = slots" using fin by simp
  have "ran (new_weights made slots) = set ?ts"
    unfolding new_weights_def using len by (rule ran_map_of_zip) simp
  then show "kdo_node ` ran (new_weights made slots) = {made..<made + card slots}" by (simp add: image_image)
qed

lemma is_weightD:
  assumes "is_weight shape initializer w cg"
  shows "get_layer_attrs cg (kdo_node w) = Inr
      \<lparr> la_op_attrs = CG_weight \<lparr> weight_tensor_shape = shape, weight_initializer = initializer \<rparr>, la_name = None \<rparr>"
    "cg_shape cg w = Inr shape"
  using assms by (simp_all add: is_weight_def get_layer_attrs_def node_label_at_def map_at_def cg_shape_eq)

lemma layers_below:
  assumes "good (cg, made)" and "m \<in> cg_get_layers cg"
  shows "m < made" and "kwarg_graph.extends cg cg' \<Longrightarrow> get_layer_attrs cg' m = get_layer_attrs cg m"
proof -
  have m: "m \<in> dom (okg_nodes cg)"
    using assms(2) view_nodes_eq [of cg] by (simp add: cg_get_layers_def cg_digraph_def view_nodes_def)
  moreover have "wf_kwarg_graph cg made" using assms(1) by (simp add: good_for_def)
  ultimately show "m < made" using wf_kwarg_graphD(4) by blast
  assume "kwarg_graph.extends cg cg'"
  then have "okg_nodes cg' m = okg_nodes cg m" using m unfolding kwarg_graph.extends_def map_le_def by metis
  then show "get_layer_attrs cg' m = get_layer_attrs cg m"
    by (simp add: get_layer_attrs_def node_label_at_def map_at_def)
qed

section \<open>Layers with one output\<close>

lemma one_output:
  assumes at: "shapes_of out_attrs = [Slot_OUTPUT \<mapsto> shape]"
  shows "(\<lambda>slot. map_option (\<lambda>_. KwargDataflowOutput n slot) (out_attrs slot)) =
      [Slot_OUTPUT \<mapsto> KwargDataflowOutput n Slot_OUTPUT]"
    "map_option ta_shape (out_attrs Slot_OUTPUT) = Some shape"
proof -
  have "map_option ta_shape (out_attrs slot) = (if slot = Slot_OUTPUT then Some shape else None)" for slot
    using fun_cong [OF at, of slot] by simp
  then have "map_option (\<lambda>_. KwargDataflowOutput n slot) (out_attrs slot) =
      (if slot = Slot_OUTPUT then Some (KwargDataflowOutput n Slot_OUTPUT) else None)" for slot
    by (cases "out_attrs slot") (metis option.distinct(1) option.map_disc_iff option.simps(8) option.simps(9))+
  then show "(\<lambda>slot. map_option (\<lambda>_. KwargDataflowOutput n slot) (out_attrs slot)) =
      [Slot_OUTPUT \<mapsto> KwargDataflowOutput n Slot_OUTPUT]" by (simp add: fun_eq_iff)
  show "map_option ta_shape (out_attrs Slot_OUTPUT) = Some shape" using fun_cong [OF at, of Slot_OUTPUT] by simp
qed

lemma add_layer_output_post:
  assumes "add_layer_output l inputs inits s = Inr (t, s')" and "good s" and "snd s' \<le> 2 ^ 64"
  shows "\<exists>n weights shape. t = KwargDataflowOutput n Slot_OUTPUT \<and> okg_nodes (fst s') n = Some l \<and>
    incoming_outputs (fst s') n = inputs ++ weights \<and> dom inputs \<inter> dom weights = {} \<and>
    ran inputs \<subseteq> dom (okg_outputs (fst s)) \<and>
    cg_get_output_shapes (la_op_attrs l) (shapes_of (attrs_at (fst s) inputs)) = Inr [Slot_OUTPUT \<mapsto> shape] \<and>
    cg_shape (fst s') t = Inr shape"
proof -
  from assms(1) have add: "add_layer l inputs inits None s = Inr ([Slot_OUTPUT \<mapsto> t], s')"
    by (auto simp: add_layer_output_def container_ops)
  from add_layer_post [OF add] assms(2,3) obtain n weights out_attrs where
    n: "okg_nodes (fst s') n = Some l" "incoming_outputs (fst s') n = inputs ++ weights" "dom inputs \<inter> dom weights = {}"
      "ran inputs \<subseteq> dom (okg_outputs (fst s))"
    and os: "cg_get_output_shapes (la_op_attrs l) (shapes_of (attrs_at (fst s) inputs)) = Inr (shapes_of out_attrs)"
    and outs: "[Slot_OUTPUT \<mapsto> t] = (\<lambda>slot. map_option (\<lambda>_. KwargDataflowOutput n slot) (out_attrs slot))"
    and lab: "\<forall>slot. okg_outputs (fst s') (KwargDataflowOutput n slot) = out_attrs slot"
    by blast
  from fun_cong [OF outs, of Slot_OUTPUT] obtain a where a: "out_attrs Slot_OUTPUT = Some a"
    and t: "t = KwargDataflowOutput n Slot_OUTPUT" by (cases "out_attrs Slot_OUTPUT") auto
  have "out_attrs slot = ([Slot_OUTPUT \<mapsto> a]) slot" for slot
    using fun_cong [OF outs, of slot] a by (cases "slot = Slot_OUTPUT") auto
  then have "out_attrs = [Slot_OUTPUT \<mapsto> a]" by (rule ext)
  with os have "cg_get_output_shapes (la_op_attrs l) (shapes_of (attrs_at (fst s) inputs)) = Inr [Slot_OUTPUT \<mapsto> ta_shape a]"
    by simp
  moreover have "cg_shape (fst s') t = Inr (ta_shape a)" using lab a t by (simp add: cg_shape_eq)
  ultimately show ?thesis using n t by blast
qed

lemma add_layer_output_succeeds:
  assumes good: "good s" and bound: "snd s + card (dom ws) < 2 ^ 64"
    and ran: "ran inputs \<subseteq> dom (okg_outputs (fst s))" and dis: "dom inputs \<inter> dom inits = {}"
    and ws: "cg_get_weight_shapes (la_op_attrs l) (shapes_of (attrs_at (fst s) inputs)) = Inr ws" "dom ws = dom inits"
    and os: "cg_get_output_shapes (la_op_attrs l) (shapes_of (attrs_at (fst s) inputs)) = Inr [Slot_OUTPUT \<mapsto> shape]"
  shows "\<exists>t s'. add_layer_output l inputs inits s = Inr (t, s') \<and> snd s' = Suc (snd s + card (dom ws)) \<and>
    cg_shape (fst s') t = Inr shape \<and> good s' \<and> kwarg_graph.extends (fst s) (fst s')"
proof -
  from add_layer_succeeds [OF good _ ran dis ws os] bound obtain outs s'
    where add: "add_layer l inputs inits None s = Inr (outs, s')" and made: "snd s' = Suc (snd s + card (dom ws))"
    by auto
  have b: "snd s' \<le> 2 ^ 64" using bound made by simp
  from add_layer_post [OF add] good b obtain n out_attrs where
    os': "cg_get_output_shapes (la_op_attrs l) (shapes_of (attrs_at (fst s) inputs)) = Inr (shapes_of out_attrs)"
    and outs: "outs = (\<lambda>slot. map_option (\<lambda>_. KwargDataflowOutput n slot) (out_attrs slot))"
    by blast
  have at: "shapes_of out_attrs = [Slot_OUTPUT \<mapsto> shape]" using os os' by simp
  have "outs = [Slot_OUTPUT \<mapsto> KwargDataflowOutput n Slot_OUTPUT]" unfolding outs by (rule one_output(1) [OF at])
  then have out: "add_layer_output l inputs inits s = Inr (KwargDataflowOutput n Slot_OUTPUT, s')"
    using add by (cases s') (simp add: add_layer_output_def container_ops)
  have g: "grows s s'" using add_layer_post [OF add] by blast
  from add_layer_output_post [OF out good b] os
  have "cg_shape (fst s') (KwargDataflowOutput n Slot_OUTPUT) = Inr shape" by auto
  with out made growsD(2,3) [OF g good b] show ?thesis by blast
qed

lemma cg_shapes_at:
  "cg_shape cg t = Inr s \<Longrightarrow> t \<in> dom (okg_outputs cg)"
  "cg_shape cg t = Inr s \<Longrightarrow> shapes_of (attrs_at cg (ts(slot \<mapsto> t))) = (shapes_of (attrs_at cg ts))(slot \<mapsto> s)"
  by (auto simp: cg_shape_eq fun_eq_iff)

lemma cg_shape_extends: "kwarg_graph.extends g g' \<Longrightarrow> cg_shape g t = Inr s \<Longrightarrow> cg_shape g' t = Inr s"
  by (auto simp: cg_shape_eq dest: kwarg_graph.extends_value)

text \<open>Builders that have made inputs of given shapes and nothing else.\<close>

lemma create_input_builds:
  assumes good: "good s" and bound: "snd s < 2 ^ 64"
  shows "\<exists>s'. create_input shape flag None s = Inr (KwargDataflowOutput (snd s) Slot_OUTPUT, s') \<and>
    snd s' = Suc (snd s) \<and> cg_shape (fst s') (KwargDataflowOutput (snd s) Slot_OUTPUT) = Inr shape \<and>
    kwarg_graph.extends (fst s) (fst s')"
proof -
  obtain cg made where s: "s = (cg, made)" by (cases s)
  let ?l = "\<lparr> la_op_attrs = CG_input shape, la_name = None \<rparr>"
  let ?a = "\<lparr> ta_shape = shape, ta_create_grad = flag \<rparr>"
  let ?t = "KwargDataflowOutput made Slot_OUTPUT"
  have os: "cg_get_output_shapes (CG_input shape) Map.empty = Inr [Slot_OUTPUT \<mapsto> shape]"
    and ws: "cg_get_weight_shapes (CG_input shape) Map.empty = Inr Map.empty"
    by (simp_all add: source_output_eq input_get_output_shape_def)
  have roles: "check_incoming_tensor_roles ?l {} {} = Inr ()"
    using check_roles_ok [of ?l Map.empty _ Map.empty] os ws by simp
  have wf: "wf_kwarg_graph cg made" "kwarg_graph.typed cg_layer_ok cg" and lt: "made < 2 ^ 64"
    using assms by (simp_all add: good_for_def s)
  obtain n outs cg' made' where
    node: "kwarg_add_node ?l (Map.empty ++ Map.empty) [Slot_OUTPUT \<mapsto> ?a] cg made = ((n, outs), cg', made')"
    by (metis surj_pair)
  then have add: "cg_add_layer ?l Map.empty Map.empty (Some [Slot_OUTPUT \<mapsto> flag]) (cg, made) = Inr ((n, outs), cg', made')"
    unfolding cg_add_layer_eq using os ws by (auto simp: flags_ok_def intro!: exI [of _ "[Slot_OUTPUT \<mapsto> ?a]"])
  have n: "n = made" "made' = Suc made" "kwarg_graph.extends cg cg'"
    and out: "\<exists>out_attrs. cg_get_output_shapes (CG_input shape) Map.empty = Inr (shapes_of out_attrs) \<and>
       outs = (\<lambda>slot. map_option (\<lambda>_. KwargDataflowOutput made slot) (out_attrs slot)) \<and>
       (\<forall>slot. okg_outputs cg' (KwargDataflowOutput made slot) = out_attrs slot)"
    using cg_add_layer_typed [OF add wf(1) lt wf(2)] ws by auto
  from out obtain out_attrs where at: "shapes_of out_attrs = [Slot_OUTPUT \<mapsto> shape]"
    and outs_eq: "outs = (\<lambda>slot. map_option (\<lambda>_. KwargDataflowOutput made slot) (out_attrs slot))"
    and lab: "\<forall>slot. okg_outputs cg' (KwargDataflowOutput made slot) = out_attrs slot" using os by auto
  have outs: "outs = [Slot_OUTPUT \<mapsto> ?t]" unfolding outs_eq by (rule one_output(1) [OF at])
  have shape: "cg_shape cg' ?t = Inr shape" using one_output(2) [OF at] lab by (auto simp: cg_shape_eq)
  have "add_layer ?l Map.empty Map.empty (Some [Slot_OUTPUT \<mapsto> flag]) s = Inr (outs, cg', made')"
    using add roles ws by (auto simp: add_layer_def add_layer_using_eq s)
  then have "create_input shape flag None s = Inr (?t, cg', Suc made)"
    by (simp add: create_input_def mk_layer_attrs_def optional_stack_string_def container_ops n outs)
  with n shape show ?thesis by (simp add: s)
qed

lemma reachable_with_inputs:
  assumes "length shapes < 2 ^ 64"
  shows "\<exists>cg. builder_reachable N (cg, length shapes) \<and>
    (\<forall>i < length shapes. cg_shape cg (KwargDataflowOutput i Slot_OUTPUT) = Inr (shapes ! i))"
  using assms
proof (induction shapes rule: rev_induct)
  case Nil
  show ?case using builder_reachable.new [of N 0] by auto
next
  case (snoc shape shapes)
  then obtain cg where cg: "builder_reachable N (cg, length shapes)"
    "\<forall>i < length shapes. cg_shape cg (KwargDataflowOutput i Slot_OUTPUT) = Inr (shapes ! i)" by auto
  have "good (cg, length shapes)" using builder_reachable_good [OF cg(1)] snoc.prems by simp
  from create_input_builds [OF this, of shape Create_grad_YES] snoc.prems obtain cg' where
    new: "create_input shape Create_grad_YES None (cg, length shapes) =
        Inr (KwargDataflowOutput (length shapes) Slot_OUTPUT, cg', Suc (length shapes))"
      "cg_shape cg' (KwargDataflowOutput (length shapes) Slot_OUTPUT) = Inr shape" "kwarg_graph.extends cg cg'"
    by auto
  have "run_call N (Call_create_input shape Create_grad_YES None) (cg, length shapes) =
      Inr ([KwargDataflowOutput (length shapes) Slot_OUTPUT], cg', Suc (length shapes))"
    using new(1) by (simp add: one_result_def)
  from builder_reachable.call [OF cg(1) this] have "builder_reachable N (cg', length (shapes @ [shape]))" by simp
  moreover have "cg_shape cg' (KwargDataflowOutput i Slot_OUTPUT) = Inr ((shapes @ [shape]) ! i)"
    if "i < length (shapes @ [shape])" for i
    using that new(2) cg(2) cg_shape_extends [OF new(3)] by (cases "i = length shapes") (auto simp: nth_append)
  ultimately show ?case by blast
qed

text \<open>The initializers of \<open>dense\<close>, given or default; the default projection bound looks at dimension 0 of the weight.\<close>

definition dense_initializers ::
    "positive_int \<Rightarrow> bool \<Rightarrow> initializer_attrs option \<Rightarrow> initializer_attrs option \<Rightarrow> initializer_attrs slots" where
  "dense_initializers out_dim use_bias projection bias_init =
     (let weight = (case projection of Some i \<Rightarrow> i | None \<Rightarrow> Init_kaiming_normal \<lparr> kn_a = F_sqrtf (F_lit 5 0),
            kn_mode = FAN_IN, kn_nonlinearity = Nonlin_LEAKY_RELU, kn_seed = 0 \<rparr>);
          bound = F_div (F_lit 1 0) (F_sqrtf (F_of_int (int out_dim)));
          bias = (case bias_init of Some i \<Rightarrow> i | None \<Rightarrow>
            Init_uniform \<lparr> ui_seed = 0, ui_min_val = F_neg bound, ui_max_val = bound \<rparr>)
      in if use_bias then [Slot_WEIGHT \<mapsto> weight, Slot_BIAS \<mapsto> bias] else [Slot_WEIGHT \<mapsto> weight])"

lemma linear_initializers_eq:
  assumes "ts_dims s \<noteq> []" and "valid_pos (linear_out_channels a)"
  shows "linear_get_initializers a s projection bias_init =
    (if linear_use_bias a \<or> bias_init = None
     then Inr (dense_initializers (linear_out_channels a) (linear_use_bias a) projection bias_init)
     else Inl (Unexpected Unexpected_initializer))"
proof -
  have p: "linear_get_projection_shape a s = Inr (TensorShape [linear_out_channels a, last (ts_dims s)] (ts_data_type s))"
    using assms(1) by (simp add: linear_shape_eqs)
  have one: "get_num_elements [] = Inr 1"
    by (simp add: get_num_elements_def product_eq INT_MAX_def)
  have "positive_int_mul (linear_out_channels a) 1 = Inr (linear_out_channels a)"
    using assms(2) by (simp add: positive_int_mul_eq valid_pos_def)
  then have "calculate_fan_for_mode [linear_out_channels a, last (ts_dims s)] FAN_IN = Inr (linear_out_channels a)"
    by (simp add: calculate_fan_for_mode_def dim_at_rel_idx_def ff_ordered_at_rel_def vector_at_def
        slice_tensor_dims_rel_def ff_ordered_slice_rel_def slice_def slice_resolve_loc_def one)
  with p show ?thesis by (simp add: linear_get_initializers_def dense_initializers_def Let_def)
qed

lemma cgb_layer_ok:
  assumes "length (takeWhile (\<lambda>x. x \<noteq> CHR 0x00) (name_or name (op_name (cg_get_op_type op)))) \<le> MAX_OPNAME"
  shows "cgb_layer op_name op name = Inr \<lparr> la_op_attrs = op,
    la_name = Some (takeWhile (\<lambda>x. x \<noteq> CHR 0x00) (name_or name (op_name (cg_get_op_type op)))) \<rparr>"
  using assms by (simp add: cgb_layer_def mk_layer_attrs_def optional_stack_string_def stack_string_def get_default_name_def)

lemma cgb_dense_builds:
  assumes reach: "builder_reachable op_name (cg, made)" and bound: "made + 2 < 2 ^ 64" and input: "cg_shape cg input = Inr s"
    and dims: "ts_dims s \<noteq> []" and out_dim: "valid_pos out_dim" and inits: "use_bias \<or> bias_init = None"
    and name: "length (takeWhile (\<lambda>x. x \<noteq> CHR 0x00) (name_or name (op_name Op_LINEAR))) \<le> MAX_OPNAME"
  shows "\<exists>t cg' weights made'. made' = made + (if use_bias then 3 else 2) \<and>
    cgb_dense op_name input out_dim activation use_bias dtype projection bias_init name (cg, made) = Inr (t, cg', made') \<and>
    builder_reachable op_name (cg', made') \<and>
    cg_shape cg' t = Inr (TensorShape (butlast (ts_dims s) @ [out_dim]) (ts_data_type s)) \<and>
    cg_get_layers cg' = cg_get_layers cg \<union> {made..<made'} \<and>
    get_layer_attrs cg' (kdo_node t) = Inr \<lparr> la_op_attrs = CG_linear \<lparr> linear_out_channels = out_dim,
      linear_use_bias = use_bias, linear_data_type = dtype, linear_activation = activation, linear_regularizer = None \<rparr>,
      la_name = Some (takeWhile (\<lambda>x. x \<noteq> CHR 0x00) (name_or name (op_name Op_LINEAR))) \<rparr> \<and>
    get_incoming_inputs cg' (kdo_node t) = Inr [Slot_INPUT \<mapsto> input] \<and>
    get_incoming_weights cg' (kdo_node t) = Inr weights \<and>
    dom weights = dom (dense_initializers out_dim use_bias projection bias_init) \<and>
    (\<forall>slot w. weights slot = Some w \<longrightarrow> get_layer_attrs cg' (kdo_node w) = Inr \<lparr> la_op_attrs = CG_weight
      \<lparr> weight_tensor_shape = TensorShape (if slot = Slot_WEIGHT then [out_dim, last (ts_dims s)] else [out_dim]) (ts_data_type s),
        weight_initializer = the (dense_initializers out_dim use_bias projection bias_init slot) \<rparr>, la_name = None \<rparr>)"
proof -
  let ?a = "\<lparr> linear_out_channels = out_dim, linear_use_bias = use_bias, linear_data_type = dtype,
    linear_activation = activation, linear_regularizer = None \<rparr>"
  let ?l = "\<lparr> la_op_attrs = CG_linear ?a, la_name = Some (takeWhile (\<lambda>x. x \<noteq> CHR 0x00) (name_or name (op_name Op_LINEAR))) \<rparr>"
  let ?w = "[Slot_WEIGHT \<mapsto> TensorShape [out_dim, last (ts_dims s)] (ts_data_type s)]"
  let ?ws = "if use_bias then ?w(Slot_BIAS \<mapsto> TensorShape [out_dim] (ts_data_type s)) else ?w"
  let ?out = "TensorShape (butlast (ts_dims s) @ [out_dim]) (ts_data_type s)"
  define ini where "ini = dense_initializers out_dim use_bias projection bias_init"
  have dom: "dom ?ws = insert Slot_WEIGHT (if use_bias then {Slot_BIAS} else {})" by auto
  have ini: "dom ini = dom ?ws" unfolding dom by (auto simp: ini_def dense_initializers_def Let_def split: if_splits)
  have card: "card (dom ini) = (if use_bias then 2 else 1)" unfolding ini dom by simp
  have p: "linear_get_projection_shape ?a s = Inr (TensorShape [out_dim, last (ts_dims s)] (ts_data_type s))"
    and b: "linear_get_bias_shape ?a s = Inr (TensorShape [out_dim] (ts_data_type s))"
    and o: "linear_get_output_shape ?a s = Inr ?out"
    using dims by (simp_all add: linear_shape_eqs)
  have w: "linear_get_weight_shapes ?a s = Inr ?ws"
    using p b by (cases use_bias) (simp_all add: linear_get_weight_shapes_def)
  have shapes: "shapes_of (attrs_at cg [Slot_INPUT \<mapsto> input]) = [Slot_INPUT \<mapsto> s]"
    using cg_shapes_at(2) [OF input, of Map.empty] by simp
  have ws: "cg_get_weight_shapes (la_op_attrs ?l) (shapes_of (attrs_at cg [Slot_INPUT \<mapsto> input])) = Inr ?ws"
    and os: "cg_get_output_shapes (la_op_attrs ?l) (shapes_of (attrs_at cg [Slot_INPUT \<mapsto> input])) = Inr [Slot_OUTPUT \<mapsto> ?out]"
    using w o by (simp_all add: shapes container_ops unary_output_eq split: if_splits)
  have good: "good (cg, made)" using builder_reachable_good [OF reach] bound by simp
  have bnd: "made + card (dom ini) < 2 ^ 64" using bound card by simp
  have dis: "dom [Slot_INPUT \<mapsto> input] \<inter> dom ini = {}" unfolding ini dom by simp
  have ran: "ran [Slot_INPUT \<mapsto> input] \<subseteq> dom (okg_outputs (fst (cg, made)))" using cg_shapes_at(1) [OF input] by simp
  have "\<exists>t s'. add_layer_output ?l [Slot_INPUT \<mapsto> input] ini (cg, made) = Inr (t, s') \<and>
      snd s' = Suc (snd (cg, made) + card (dom ?ws)) \<and> cg_shape (fst s') t = Inr ?out \<and> good s' \<and>
      kwarg_graph.extends (fst (cg, made)) (fst s')"
    by (rule add_layer_output_succeeds [OF good _ ran dis]) (use bnd ini ws os in \<open>simp_all only: fst_conv snd_conv\<close>)
  then obtain t cg' made' where new: "add_layer_output ?l [Slot_INPUT \<mapsto> input] ini (cg, made) = Inr (t, cg', made')"
    "cg_shape cg' t = Inr ?out" by auto
  then have add: "add_layer ?l [Slot_INPUT \<mapsto> input] ini None (cg, made) = Inr ([Slot_OUTPUT \<mapsto> t], cg', made')"
    by (auto simp: add_layer_output_def container_ops)
  let ?n = "made + card (dom ini)"
  from add_layer_result [OF add good bnd] obtain wsx osx where same: "cg_get_weight_shapes (la_op_attrs ?l) (shapes_of (attrs_at cg [Slot_INPUT \<mapsto> input])) = Inr wsx"
      "cg_get_output_shapes (la_op_attrs ?l) (shapes_of (attrs_at cg [Slot_INPUT \<mapsto> input])) = Inr osx"
    and facts: "made' = ?n + 1" "cg_get_layers cg' = cg_get_layers cg \<union> {made..<made'}" "get_layer_attrs cg' ?n = Inr ?l"
    "get_incoming_inputs cg' ?n = Inr [Slot_INPUT \<mapsto> input]" "get_incoming_weights cg' ?n = Inr (new_weights made (dom ini))"
    and weights: "\<forall>slot \<in> dom ini. \<exists>w. new_weights made (dom ini) slot = Some w \<and> is_weight (the (wsx slot)) (the (ini slot)) w cg'"
    and outs: "[Slot_OUTPUT \<mapsto> t] = (\<lambda>slot. map_option (\<lambda>_. KwargDataflowOutput ?n slot) (osx slot))"
    by (elim exE conjE) (rule that)
  have wsx: "wsx = ?ws" and osx: "osx = [Slot_OUTPUT \<mapsto> ?out]" using same unfolding ws os by (simp_all only: sum.inject)
  have t: "kdo_node t = ?n" using fun_cong [OF outs, of Slot_OUTPUT] by (simp add: osx)
  have run: "cgb_dense op_name input out_dim activation use_bias dtype projection bias_init name (cg, made) = Inr (t, cg', made')"
    using new(1) cgb_layer_ok [of name op_name "CG_linear ?a"] name linear_initializers_eq [of s ?a projection bias_init] dims out_dim inits input
    by (simp add: cgb_dense_def ini_def Let_def)
  then have "run_call op_name (Call_dense input out_dim activation use_bias dtype projection bias_init name) (cg, made) = Inr ([t], cg', made')"
    by (simp add: one_result_def)
  note reach' = builder_reachable.call [OF reach this]
  have "get_layer_attrs cg' (kdo_node w) = Inr \<lparr> la_op_attrs = CG_weight
      \<lparr> weight_tensor_shape = TensorShape (if slot = Slot_WEIGHT then [out_dim, last (ts_dims s)] else [out_dim]) (ts_data_type s),
        weight_initializer = the (ini slot) \<rparr>, la_name = None \<rparr>" if slot: "new_weights made (dom ini) slot = Some w" for slot w
  proof -
    have "slot \<in> dom ini" using new_weights_parts(1) [of made "dom ini"] slot by blast
    then have "the (?ws slot) = TensorShape (if slot = Slot_WEIGHT then [out_dim, last (ts_dims s)] else [out_dim]) (ts_data_type s)"
      unfolding ini dom by (auto split: if_splits)
    moreover have "is_weight (the (?ws slot)) (the (ini slot)) w cg'"
      using weights \<open>slot \<in> dom ini\<close> slot unfolding wsx by (metis option.inject)
    ultimately show ?thesis using is_weightD(1) by metis
  qed
  moreover have "made' = made + (if use_bias then 3 else 2)" using facts(1) card by simp
  ultimately show ?thesis
    using run reach' new(2) facts(2-5) t new_weights_parts(1) [of made "dom ini"] unfolding ini_def [symmetric]
    by (intro exI [of _ t] exI [of _ cg'] exI [of _ "new_weights made (dom ini)"] exI [of _ made'] conjI) simp_all
qed

lemma dense_needs_bias_for_initializer:
  assumes "cg_shape cg input = Inr s" and "ts_dims s \<noteq> []" and "valid_pos out_dim"
  shows "cgb_dense op_name input out_dim activation False dtype projection (Some i) name (cg, made) \<noteq> Inr r"
  using linear_initializers_eq [of s "\<lparr> linear_out_channels = out_dim, linear_use_bias = False, linear_data_type = dtype,
      linear_activation = activation, linear_regularizer = None \<rparr>" projection "Some i"] assms
  by (cases r) (auto simp: cgb_dense_def Let_def)

text \<open>A builder that made one input and a dense layer on it.\<close>

lemma dense_example:
  "\<exists>cg t. builder_reachable (\<lambda>_. ''op'') (cg, 4) \<and> cg_shape cg t = Inr (TensorShape [8, 4] FLOAT)"
proof -
  obtain cg where cg: "builder_reachable (\<lambda>_. ''op'') (cg, 1)"
    "cg_shape cg (KwargDataflowOutput 0 Slot_OUTPUT) = Inr (TensorShape [8, 16] FLOAT)"
    using reachable_with_inputs [of "[TensorShape [8, 16] FLOAT]" "\<lambda>_. ''op''"] by auto
  have name: "length (takeWhile (\<lambda>x. x \<noteq> CHR 0x00) (name_or None ''op'')) \<le> MAX_OPNAME"
    by (simp add: name_or_def MAX_OPNAME_def)
  have side: "(1 :: nat) + 2 < 2 ^ 64" "ts_dims (TensorShape [8, 16] FLOAT) \<noteq> []" "valid_pos 4"
    by (simp_all add: valid_pos_def INT_MAX_def)
  obtain t cg' made' where "made' = 1 + (if True then 3 else 2)" "builder_reachable (\<lambda>_. ''op'') (cg', made')"
    "cg_shape cg' t = Inr (TensorShape (butlast (ts_dims (TensorShape [8, 16] FLOAT)) @ [4])
       (ts_data_type (TensorShape [8, 16] FLOAT)))"
    using cgb_dense_builds [OF cg(1) side(1) cg(2) side(2,3) disjI1 [OF TrueI] name, where activation = None and
      dtype = FLOAT and projection = None and bias_init = None] by (elim exE conjE) (rule that)
  then show ?thesis by auto
qed

lemma layer_of_shape:
  assumes "builder_reachable N (cg, made)" and "cg_shape cg t = Inr s" and "made \<le> 2 ^ 64"
  shows "\<exists>l. get_layer_attrs cg (kdo_node t) = Inr l"
proof -
  have "wf_kwarg_graph cg made" using builder_reachable_good [OF assms(1)] assms(3) by (simp add: good_for_def)
  moreover obtain v where "okg_outputs cg t = Some v" using cg_shapes_at(1) [OF assms(2)] by blast
  ultimately have "kdo_node t \<in> dom (okg_nodes cg)" by (rule wf_kwarg_output)
  then show ?thesis by (auto simp: get_layer_attrs_def node_label_at_def)
qed

lemma add_layer_output_weights:
  assumes "add_layer_output l inputs inits s = Inr r"
  shows "\<exists>ws. cg_get_weight_shapes (la_op_attrs l) (shapes_of (attrs_at (fst s) inputs)) = Inr ws \<and> dom ws = dom inits"
  using assms by (cases r) (auto simp: add_layer_output_def add_layer_def add_layer_using_eq)

text \<open>The states of \<open>as_type\<close> and of \<open>broadcast\<close>.\<close>

lemma as_type_post:
  assumes run: "as_type N x dtype name s = Inr (t, s')" and good: "good s" and bound: "snd s' \<le> 2 ^ 64"
    and shape: "cg_shape (fst s) x = Inr shape"
  shows "cg_shape (fst s') t = Inr (shape\<lparr> ts_data_type := dtype \<rparr>) \<and> good s' \<and>
    kwarg_graph.extends (fst s) (fst s')"
proof -
  have "keeps (as_type N x dtype name)" by (rule keeps_cast_as_type)
  with run have g: "grows s s'" unfolding keeps_for_def by blast
  consider "t = x" "s' = s" "ts_data_type shape = dtype" | "cgb_cast N x dtype (Some name) s = Inr (t, s')"
    using run shape by (auto simp: as_type_def split: if_splits)
  then have "cg_shape (fst s') t = Inr (shape\<lparr> ts_data_type := dtype \<rparr>)"
  proof cases
    case 1
    then show ?thesis using shape by (cases shape) simp
  next
    case 2
    then obtain l where l: "la_op_attrs l = CG_cast dtype" and add: "add_layer_output l [Slot_INPUT \<mapsto> x] Map.empty s = Inr (t, s')"
      by (auto simp: cgb_cast_def cgb_layer_def dest: mk_layer_attrs_op)
    have "shapes_of (attrs_at (fst s) [Slot_INPUT \<mapsto> x]) = [Slot_INPUT \<mapsto> shape]"
      using cg_shapes_at(2) [OF shape, of Map.empty] by simp
    with add_layer_output_post [OF add good bound] l show ?thesis
      by (auto simp: unary_output_eq cast_get_output_shape_def)
  qed
  with growsD(2,3) [OF g good bound] show ?thesis by blast
qed

lemma cgb_broadcast_eq:
  "cgb_broadcast input dims string s = Inr r \<longleftrightarrow>
     r = (input, s) \<and> (\<exists>shape. cg_shape (fst s) input = Inr shape \<and> ts_dims shape = dims)"
proof -
  have "add_layer_output l inputs inits s \<noteq> Inr r" if "mk_layer_attrs (CG_broadcast d) n = Inr l" for l inputs inits d n
    using add_layer_output_weights [of l inputs inits s r] mk_layer_attrs_op [OF that] by auto
  then show ?thesis by (cases r; cases s) (auto simp: cgb_broadcast_def)
qed

section \<open>Properties\<close>

text \<open>
  Claim C7. Every graph a builder makes is well typed: for every layer, the shapes of its incoming tensors
  whose role is input can be read, shape inference gives from them the shapes of the layer's outputs, and
  weight inference the shapes of its incoming tensors whose role is weight. The methods may be called in
  any order with any arguments, and calls that stop leave no graph; other graphs may be built in between,
  and fewer than 2 to the 64 nodes are made in all.
\<close>

theorem builder_graphs_well_typed:
  assumes "builder_reachable op_name (cg, made)" and "made \<le> 2 ^ 64" and "get_layer_attrs cg n = Inr l"
  shows "\<exists>in_shapes weights weight_shapes out_shapes. get_incoming_input_shapes cg n = Inr in_shapes \<and>
    get_incoming_weights cg n = Inr weights \<and> map_values (cg_shape cg) weights = Inr weight_shapes \<and>
    map_values (cg_shape cg) (get_outgoing_tensors cg n) = Inr out_shapes \<and>
    cg_get_output_shapes (la_op_attrs l) in_shapes = Inr out_shapes \<and>
    cg_get_weight_shapes (la_op_attrs l) in_shapes = Inr weight_shapes"
proof -
  have "good (cg, made)" using builder_reachable_good [OF assms(1)] assms(2) by simp
  then have "wf_kwarg_graph cg made" "kwarg_graph.typed cg_layer_ok cg" by (simp_all add: good_for_def)
  moreover have "okg_nodes cg n = Some l" using assms(3) by (simp add: get_layer_attrs_def node_label_at_def)
  ultimately obtain inputs weights where q: "get_incoming_inputs cg n = Inr inputs" "get_incoming_weights cg n = Inr weights"
    "ran inputs \<subseteq> dom (okg_outputs cg)" "ran weights \<subseteq> dom (okg_outputs cg)"
    "ran (get_outgoing_tensors cg n) \<subseteq> dom (okg_outputs cg)"
    "cg_get_output_shapes (la_op_attrs l) (shapes_of (attrs_at cg inputs)) =
       Inr (shapes_of (attrs_at cg (get_outgoing_tensors cg n)))"
    "cg_get_weight_shapes (la_op_attrs l) (shapes_of (attrs_at cg inputs)) = Inr (shapes_of (attrs_at cg weights))"
    using typed_layer by blast
  then show ?thesis by (simp add: get_incoming_input_shapes_def map_values_shapes)
qed

theorem builder_graphs_well_typed_witness:
  "\<exists>cg n l in_shapes out_shapes. builder_reachable (\<lambda>_. ''op'') (cg, 4) \<and> get_layer_attrs cg n = Inr l \<and>
     get_incoming_input_shapes cg n = Inr in_shapes \<and>
     map_values (cg_shape cg) (get_outgoing_tensors cg n) = Inr out_shapes \<and>
     cg_get_output_shapes (la_op_attrs l) in_shapes = Inr out_shapes"
proof -
  obtain cg t where cg: "builder_reachable (\<lambda>_. ''op'') (cg, 4)" "cg_shape cg t = Inr (TensorShape [8, 4] FLOAT)"
    using dense_example by blast
  obtain l where l: "get_layer_attrs cg (kdo_node t) = Inr l" using layer_of_shape [OF cg] by auto
  from builder_graphs_well_typed [OF cg(1) _ l] cg(1) l show ?thesis by fastforce
qed

text \<open>
  Claim C9. The layers of a graph that a builder made can be put in order: the directed graph of the layers is
  acyclic, \<open>topological_ordering\<close> returns, and lists every layer once, after the layers that produce the
  tensors it reads; \<open>reverse_topological_ordering\<close> returns the reverse.
\<close>

theorem builder_graphs_can_be_ordered:
  assumes "builder_reachable op_name (cg, made)" and "made \<le> 2 ^ 64"
  shows "\<exists>layers. topological_ordering cg = Some (Inr layers) \<and>
    reverse_topological_ordering cg = Some (Inr (rev layers)) \<and>
    set layers = cg_get_layers cg \<and> distinct layers \<and>
    (\<forall>i < length layers. \<forall>t \<in> ran (get_incoming_tensors cg (layers ! i)). kdo_node t \<in> set (take i layers))"
proof -
  have wf: "wf_kwarg_graph cg made" using builder_reachable_good [OF assms(1)] assms(2) by (simp add: good_for_def)
  note d = wf_digraph_of_kwarg_graph [OF wf]
  obtain layers where ord: "get_topological_ordering (cg_digraph cg) = Some (Inr layers)"
    and sorted: "topologically_sorted (cg_digraph cg) layers"
    using get_topological_ordering_eq(1) [OF d(1) d(3)] unfolding cg_digraph_def by blast
  have "kdo_node t \<in> set (take i layers)" if i: "i < length layers" and t: "t \<in> ran (get_incoming_tensors cg (layers ! i))" for i t
  proof -
    from t obtain slot where "incoming_outputs cg (layers ! i) slot = Some t"
      by (auto simp: ran_def get_incoming_tensors_def incoming_outputs_def)
    then have "KwargDataflowEdge t (KwargDataflowInput (layers ! i) slot) \<in> internal_edges cg"
      using incoming_outputs_iff [OF wf] by simp
    then have "(kdo_node t, layers ! i) \<in> edge_rel (cg_digraph cg)"
      unfolding cg_digraph_def d(2) by force
    moreover have "(edge_rel (cg_digraph cg))\<inverse> `` {layers ! i} \<subseteq> set (take i layers)"
      using sorted id_take_nth_drop [OF i] unfolding topologically_sorted_def predecessors_first_def by blast
    ultimately show ?thesis by blast
  qed
  then show ?thesis
    using ord sorted
    by (auto simp: topological_ordering_def reverse_topological_ordering_def topologically_sorted_def
        predecessors_first_def cg_get_layers_def)
qed

theorem builder_graphs_can_be_ordered_witness:
  "\<exists>cg layers. builder_reachable (\<lambda>_. ''op'') (cg, 4) \<and> topological_ordering cg = Some (Inr layers) \<and>
     (\<forall>i < length layers. \<forall>t \<in> ran (get_incoming_tensors cg (layers ! i)). kdo_node t \<in> set (take i layers))"
proof -
  obtain cg t where cg: "builder_reachable (\<lambda>_. ''op'') (cg, 4)" "cg_shape cg t = Inr (TensorShape [8, 4] FLOAT)"
    using dense_example by blast
  have "(4 :: nat) \<le> 2 ^ 64" by simp
  from builder_graphs_can_be_ordered [OF cg(1) this] cg(1) show ?thesis by blast
qed

text \<open>
  Claim C8. A layer can be added to a graph that a builder made exactly when shape inference accepts it: the
  input tensors have shapes from which outputs and weights are inferred, and an initializer is given for
  exactly the inferred weights; neither the check of the roles nor the creation of the weights stops then. The call
  creates one weight layer for every inferred weight, with the inferred shape and the given initializer, and the
  layer itself, whose incoming tensors of role input are the given ones, whose incoming tensors of
  role weight are the new weights, and whose outputs have the inferred shapes. There is nothing else new, and the
  layers that were there are unchanged.
\<close>

theorem builder_adds_what_inference_accepts:
  assumes "builder_reachable op_name (cg, made)" and "made + card (dom inits) < 2 ^ 64"
  shows "((\<exists>outs s'. add_layer l inputs inits None (cg, made) = Inr (outs, s')) \<longleftrightarrow>
      dom inputs \<inter> dom inits = {} \<and>
      (\<exists>in_shapes weight_shapes out_shapes. map_values (cg_shape cg) inputs = Inr in_shapes \<and>
         cg_get_weight_shapes (la_op_attrs l) in_shapes = Inr weight_shapes \<and> dom weight_shapes = dom inits \<and>
         cg_get_output_shapes (la_op_attrs l) in_shapes = Inr out_shapes)) \<and>
    (\<forall>outs cg' made'. add_layer l inputs inits None (cg, made) = Inr (outs, cg', made') \<longrightarrow>
      (\<exists>in_shapes weight_shapes out_shapes weights. map_values (cg_shape cg) inputs = Inr in_shapes \<and>
         cg_get_weight_shapes (la_op_attrs l) in_shapes = Inr weight_shapes \<and>
         cg_get_output_shapes (la_op_attrs l) in_shapes = Inr out_shapes \<and>
         made' = made + card (dom inits) + 1 \<and> cg_get_layers cg' = cg_get_layers cg \<union> {made..<made'} \<and>
         (\<forall>m \<in> cg_get_layers cg. m < made \<and> get_layer_attrs cg' m = get_layer_attrs cg m) \<and>
         get_layer_attrs cg' (made + card (dom inits)) = Inr l \<and>
         get_incoming_inputs cg' (made + card (dom inits)) = Inr inputs \<and>
         get_incoming_weights cg' (made + card (dom inits)) = Inr weights \<and>
         dom weights = dom inits \<and> kdo_node ` ran weights = {made..<made + card (dom inits)} \<and>
         (\<forall>slot w. weights slot = Some w \<longrightarrow> cg_shape cg' w = Inr (the (weight_shapes slot)) \<and>
            get_layer_attrs cg' (kdo_node w) = Inr \<lparr> la_op_attrs = CG_weight \<lparr> weight_tensor_shape =
              the (weight_shapes slot), weight_initializer = the (inits slot) \<rparr>, la_name = None \<rparr>) \<and>
         get_outgoing_tensors cg' (made + card (dom inits)) = outs \<and>
         map_values (cg_shape cg') outs = Inr out_shapes))" (is "(?l \<longleftrightarrow> ?r) \<and> (\<forall>outs cg' made'. _ \<longrightarrow> ?post outs cg' made')")
proof (intro conjI allI impI)
  have good: "good (cg, made)" using builder_reachable_good [OF assms(1)] assms(2) by simp
  {
    fix outs cg' made' assume add: "add_layer l inputs inits None (cg, made) = Inr (outs, cg', made')"
    note res = add_layer_result [OF add good assms(2)]
    then obtain ws os where r: "cg_get_weight_shapes (la_op_attrs l) (shapes_of (attrs_at cg inputs)) = Inr ws"
        "ran inputs \<subseteq> dom (okg_outputs cg)"
        "cg_get_output_shapes (la_op_attrs l) (shapes_of (attrs_at cg inputs)) = Inr os"
        "made' = made + card (dom inits) + 1" "kwarg_graph.extends cg cg'"
        "cg_get_layers cg' = cg_get_layers cg \<union> {made..<made'}"
        "get_layer_attrs cg' (made + card (dom inits)) = Inr l"
        "get_incoming_inputs cg' (made + card (dom inits)) = Inr inputs"
        "get_incoming_weights cg' (made + card (dom inits)) = Inr (new_weights made (dom inits))"
        "get_outgoing_tensors cg' (made + card (dom inits)) = outs" "map_values (cg_shape cg') outs = Inr os"
      and w: "\<forall>slot \<in> dom inits. \<exists>w. new_weights made (dom inits) slot = Some w \<and>
        is_weight (the (ws slot)) (the (inits slot)) w cg'"
      by blast
    have weight: "is_weight (the (ws slot)) (the (inits slot)) v cg'" if "new_weights made (dom inits) slot = Some v" for slot v
      using w that new_weights_parts(1) [of made "dom inits"] by (metis domI option.inject)
    have old: "\<forall>m \<in> cg_get_layers cg. m < made \<and> get_layer_attrs cg' m = get_layer_attrs cg m"
      using layers_below [OF good] r(5) by blast
    show "?post outs cg' made'"
      using r old weight [THEN is_weightD(1)] weight [THEN is_weightD(2)] new_weights_parts [of made "dom inits"]
      by (intro exI [of _ "shapes_of (attrs_at cg inputs)"] exI [of _ ws] exI [of _ os]
        exI [of _ "new_weights made (dom inits)"] conjI) (simp_all add: map_values_shapes)
  }
  show "?l \<longleftrightarrow> ?r"
  proof
    assume ?l
    then obtain outs cg' made' where "add_layer l inputs inits None (cg, made) = Inr (outs, cg', made')" by auto
    from add_layer_result [OF this good assms(2)] show ?r by (auto simp: map_values_shapes)
  next
    assume ?r
    then obtain ws os where "ran inputs \<subseteq> dom (okg_outputs cg)" "dom inputs \<inter> dom inits = {}"
      "cg_get_weight_shapes (la_op_attrs l) (shapes_of (attrs_at cg inputs)) = Inr ws" "dom ws = dom inits"
      "cg_get_output_shapes (la_op_attrs l) (shapes_of (attrs_at cg inputs)) = Inr os"
      by (auto simp: map_values_shapes)
    with add_layer_succeeds [OF good, of ws inputs inits l os] assms(2) show ?l by auto
  qed
qed

theorem builder_adds_what_inference_accepts_witness:
  "\<exists>cg outs cg' made'. builder_reachable (\<lambda>_. ''op'') (cg, 1) \<and>
     add_layer \<lparr> la_op_attrs = CG_embedding \<lparr> embedding_num_entries = 10, embedding_out_channels = 4,
       embedding_aggr = Some Aggr_SUM, embedding_data_type = FLOAT \<rparr>, la_name = None \<rparr>
       [Slot_INPUT \<mapsto> KwargDataflowOutput 0 Slot_OUTPUT] [Slot_WEIGHT \<mapsto> Init_zero] None (cg, 1) = Inr (outs, cg', made') \<and>
     get_layer_attrs cg' 1 = Inr \<lparr> la_op_attrs = CG_weight \<lparr> weight_tensor_shape = TensorShape [10, 4] FLOAT,
       weight_initializer = Init_zero \<rparr>, la_name = None \<rparr>"
proof -
  let ?a = "\<lparr> embedding_num_entries = 10, embedding_out_channels = 4, embedding_aggr = Some Aggr_SUM,
     embedding_data_type = FLOAT \<rparr>"
  let ?l = "\<lparr> la_op_attrs = CG_embedding ?a, la_name = None \<rparr>" and ?t = "KwargDataflowOutput 0 Slot_OUTPUT"
  let ?in = "[Slot_INPUT \<mapsto> TensorShape [8, 2] INT32]" and ?inits = "[Slot_WEIGHT \<mapsto> Init_zero]"
  let ?w = "[Slot_WEIGHT \<mapsto> TensorShape [10, 4] FLOAT]"
  obtain cg where cg: "builder_reachable (\<lambda>_. ''op'') (cg, 1)" "cg_shape cg ?t = Inr (TensorShape [8, 2] INT32)"
    using reachable_with_inputs [of "[TensorShape [8, 2] INT32]" "\<lambda>_. ''op''"] by auto
  have "embedding_get_output_shape ?a (TensorShape [8, 2] INT32) = Inr (TensorShape [8, 4] FLOAT)"
    "embedding_get_weights_shape ?a (TensorShape [8, 2] INT32) = Inr (TensorShape [10, 4] FLOAT)" by code_simp+
  then have o: "cg_get_output_shapes (la_op_attrs ?l) ?in = Inr [Slot_OUTPUT \<mapsto> TensorShape [8, 4] FLOAT]"
    and w: "cg_get_weight_shapes (la_op_attrs ?l) ?in = Inr ?w"
    by (simp_all add: unary_output_eq container_ops)
  have i: "map_values (cg_shape cg) [Slot_INPUT \<mapsto> ?t] = Inr ?in"
    using cg_shapes_at [OF cg(2)] by (simp add: map_values_shapes)
  have dis: "dom [Slot_INPUT \<mapsto> ?t] \<inter> dom ?inits = {}" and dom: "dom ?w = dom ?inits"
    and bound: "1 + card (dom ?inits) < 2 ^ 64" by simp_all
  note both = builder_adds_what_inference_accepts [OF cg(1) bound, of ?l "[Slot_INPUT \<mapsto> ?t]"]
  have "\<exists>outs s'. add_layer ?l [Slot_INPUT \<mapsto> ?t] ?inits None (cg, 1) = Inr (outs, s')"
    by (rule iffD2 [OF conjunct1 [OF both]]) (use i w o dis dom in blast)
  then obtain outs cg' made' where add: "add_layer ?l [Slot_INPUT \<mapsto> ?t] ?inits None (cg, 1) = Inr (outs, cg', made')" by auto
  from conjunct2 [OF both, rule_format, OF add] obtain ins ws weights where ins: "map_values (cg_shape cg) [Slot_INPUT \<mapsto> ?t] = Inr ins"
    "cg_get_weight_shapes (la_op_attrs ?l) ins = Inr ws"
    and nodes: "dom weights = dom ?inits" "kdo_node ` ran weights = {1..<1 + card (dom ?inits)}"
    and made: "\<forall>slot v. weights slot = Some v \<longrightarrow> cg_shape cg' v = Inr (the (ws slot)) \<and>
      get_layer_attrs cg' (kdo_node v) = Inr \<lparr> la_op_attrs = CG_weight
        \<lparr> weight_tensor_shape = the (ws slot), weight_initializer = the (?inits slot) \<rparr>, la_name = None \<rparr>"
    by (elim exE conjE) (rule that)
  have "ins = ?in" using ins(1) unfolding i by simp
  with ins(2) have ws: "ws = ?w" unfolding w by (simp only: w sum.inject)
  have "1 \<in> kdo_node ` ran weights" unfolding nodes(2) by simp
  then obtain slot v where v: "kdo_node v = 1" "weights slot = Some v" by (auto simp: ran_def)
  then have "slot = Slot_WEIGHT" using nodes(1) by (simp add: dom_def set_eq_iff) (metis option.distinct(1))
  with made v ws have "get_layer_attrs cg' 1 = Inr \<lparr> la_op_attrs = CG_weight \<lparr> weight_tensor_shape = TensorShape [10, 4] FLOAT,
       weight_initializer = Init_zero \<rparr>, la_name = None \<rparr>"
    by force
  with cg(1) add show ?thesis by blast
qed

text \<open>
  Claim C25. Methods that never return: \<open>gather\<close> hands over only its input and shape inference also asks for
  the index; \<open>batch_norm\<close> and \<open>layer_norm\<close> without affine parameters ask for weight shapes that are refused;
  and \<open>broadcast\<close> returns only where there is nothing to do, since there is no shape inference for its layer.
\<close>

theorem builder_methods_that_never_return:
  "cgb_gather op_name input index dim name s \<noteq> Inr r \<and>
   cgb_batch_norm op_name input False activation eps momentum name s \<noteq> Inr r \<and>
   cgb_layer_norm op_name input axes False eps name s \<noteq> Inr r \<and>
   (cgb_broadcast input dims string s = Inr r \<longleftrightarrow>
      r = (input, s) \<and> (\<exists>shape. cg_shape (fst s) input = Inr shape \<and> ts_dims shape = dims))"
proof (intro conjI notI)
  have lay: "la_op_attrs l = op" if "cgb_layer N op name = Inr l" for N op name l
    using that by (auto simp: cgb_layer_def dest: mk_layer_attrs_op)
  {
    assume "cgb_gather op_name input index dim name s = Inr r"
    then obtain l d where "la_op_attrs l = CG_gather d" "add_layer_output l [Slot_INPUT \<mapsto> input] Map.empty s = Inr r"
      by (cases r) (auto simp: cgb_gather_def dest: lay split: if_splits)
    then obtain ws where "cg_get_weight_shapes (CG_gather d) (shapes_of (attrs_at (fst s) [Slot_INPUT \<mapsto> input])) = Inr ws"
      using add_layer_output_weights [of l "[Slot_INPUT \<mapsto> input]" Map.empty s r] by auto
    then obtain a b where "shapes_of (attrs_at (fst s) [Slot_INPUT \<mapsto> input]) = [Slot_INPUT \<mapsto> a, Slot_INDEX \<mapsto> b]"
      by (auto simp: container_ops)
    from fun_cong [OF this, of Slot_INDEX] show False by simp
  next
    assume "cgb_batch_norm op_name input False activation eps momentum name s = Inr r"
    then obtain l a inits where "la_op_attrs l = CG_batch_norm a" "\<not> bn_affine a"
      "add_layer_output l [Slot_INPUT \<mapsto> input] inits s = Inr r"
      by (cases r) (auto simp: cgb_batch_norm_def Let_def dest: lay)
    with add_layer_output_weights [of l "[Slot_INPUT \<mapsto> input]" inits s r] weight_shape_slots(1) show False by fastforce
  next
    assume "cgb_layer_norm op_name input axes False eps name s = Inr r"
    then obtain l a inits where "la_op_attrs l = CG_layer_norm a" "\<not> ln_elementwise_affine a"
      "add_layer_output l [Slot_INPUT \<mapsto> input] inits s = Inr r"
      by (cases r) (auto simp: cgb_layer_norm_def Let_def dest: lay)
    with add_layer_output_weights [of l "[Slot_INPUT \<mapsto> input]" inits s r] weight_shape_slots(2) show False by fastforce
  next
    show "cgb_broadcast input dims string s = Inr r \<longleftrightarrow>
      r = (input, s) \<and> (\<exists>shape. cg_shape (fst s) input = Inr shape \<and> ts_dims shape = dims)"
      by (rule cgb_broadcast_eq)
  }
qed

text \<open>
  Claim C23. \<open>dense\<close> on a tensor with at least one dimension adds the linear layer and its weights, and nothing
  else: the layer has exactly the attributes and the name that were asked for and reads the input; its
  weights are new weight layers, the projection of \<open>out_dim\<close> rows and, with a bias, a vector of \<open>out_dim\<close>
  entries, with the given initializers or the defaults. The tensor that is returned is the output of the layer, and
  its last dimension is the number of output channels. The other dimensions and the data type are those of the
  input: the data type that is asked for is only stored. An initializer for a bias that is
  not used is an error.
\<close>

theorem dense_builds_linear_layer:
  assumes "builder_reachable op_name (cg, made)" and "made + 2 < 2 ^ 64" and "cg_shape cg input = Inr s"
    and "ts_dims s \<noteq> []" and "valid_pos out_dim"
    and "length (takeWhile (\<lambda>x. x \<noteq> CHR 0x00) (name_or name (op_name Op_LINEAR))) \<le> MAX_OPNAME"
  shows "if use_bias \<or> bias_init = None
    then \<exists>t cg' weights made'. made' = made + (if use_bias then 3 else 2) \<and>
      cgb_dense op_name input out_dim activation use_bias dtype projection bias_init name (cg, made) = Inr (t, cg', made') \<and>
      builder_reachable op_name (cg', made') \<and>
      cg_shape cg' t = Inr (TensorShape (butlast (ts_dims s) @ [out_dim]) (ts_data_type s)) \<and>
      cg_get_layers cg' = cg_get_layers cg \<union> {made..<made'} \<and>
      get_layer_attrs cg' (kdo_node t) = Inr \<lparr> la_op_attrs = CG_linear \<lparr> linear_out_channels = out_dim,
        linear_use_bias = use_bias, linear_data_type = dtype, linear_activation = activation, linear_regularizer = None \<rparr>,
        la_name = Some (takeWhile (\<lambda>x. x \<noteq> CHR 0x00) (name_or name (op_name Op_LINEAR))) \<rparr> \<and>
      get_incoming_inputs cg' (kdo_node t) = Inr [Slot_INPUT \<mapsto> input] \<and>
      get_incoming_weights cg' (kdo_node t) = Inr weights \<and>
      dom weights = dom (dense_initializers out_dim use_bias projection bias_init) \<and>
      (\<forall>slot w. weights slot = Some w \<longrightarrow> get_layer_attrs cg' (kdo_node w) = Inr \<lparr> la_op_attrs = CG_weight
        \<lparr> weight_tensor_shape = TensorShape (if slot = Slot_WEIGHT then [out_dim, last (ts_dims s)] else [out_dim]) (ts_data_type s),
          weight_initializer = the (dense_initializers out_dim use_bias projection bias_init slot) \<rparr>, la_name = None \<rparr>)
    else \<forall>r. cgb_dense op_name input out_dim activation use_bias dtype projection bias_init name (cg, made) \<noteq> Inr r"
proof (cases "use_bias \<or> bias_init = None")
  case True
  from cgb_dense_builds [OF assms(1-5) True assms(6)] True show ?thesis by simp
next
  case False
  then obtain i where "\<not> use_bias" "bias_init = Some i" by auto
  then show ?thesis using dense_needs_bias_for_initializer [OF assms(3-5)] by simp
qed

theorem dense_builds_linear_layer_witness:
  "\<exists>cg t cg' weights w. cgb_dense (\<lambda>_. ''op'') (KwargDataflowOutput 0 Slot_OUTPUT) 4 (Some Act_RELU) True DOUBLE
      (Some Init_zero) None None (cg, 1) = Inr (t, cg', 4) \<and> cg_shape cg' t = Inr (TensorShape [8, 4] FLOAT) \<and>
     get_incoming_weights cg' (kdo_node t) = Inr weights \<and> weights Slot_WEIGHT = Some w \<and>
     get_layer_attrs cg' (kdo_node w) = Inr \<lparr> la_op_attrs = CG_weight \<lparr> weight_tensor_shape = TensorShape [4, 16] FLOAT,
       weight_initializer = Init_zero \<rparr>, la_name = None \<rparr>"
proof -
  obtain cg where cg: "builder_reachable (\<lambda>_. ''op'') (cg, 1)"
    "cg_shape cg (KwargDataflowOutput 0 Slot_OUTPUT) = Inr (TensorShape [8, 16] FLOAT)"
    using reachable_with_inputs [of "[TensorShape [8, 16] FLOAT]" "\<lambda>_. ''op''"] by auto
  have name: "length (takeWhile (\<lambda>x. x \<noteq> CHR 0x00) (name_or None ''op'')) \<le> MAX_OPNAME"
    by (simp add: name_or_def MAX_OPNAME_def)
  have side: "(1 :: nat) + 2 < 2 ^ 64" "ts_dims (TensorShape [8, 16] FLOAT) \<noteq> []" "valid_pos 4"
    by (simp_all add: valid_pos_def INT_MAX_def)
  let ?init = "dense_initializers 4 True (Some Init_zero) None"
  have init: "Slot_WEIGHT \<in> dom ?init" "the (?init Slot_WEIGHT) = Init_zero"
    by (simp_all add: dense_initializers_def Let_def)
  obtain t cg' weights made' where made': "made' = 1 + (if True then 3 else 2)"
     and t: "cgb_dense (\<lambda>_. ''op'') (KwargDataflowOutput 0 Slot_OUTPUT) 4 (Some Act_RELU) True DOUBLE
       (Some Init_zero) None None (cg, 1) = Inr (t, cg', made')"
     "cg_shape cg' t = Inr (TensorShape (butlast (ts_dims (TensorShape [8, 16] FLOAT)) @ [4])
       (ts_data_type (TensorShape [8, 16] FLOAT)))"
     "get_incoming_weights cg' (kdo_node t) = Inr weights" "dom weights = dom ?init"
     and made: "\<forall>slot w. weights slot = Some w \<longrightarrow> get_layer_attrs cg' (kdo_node w) = Inr \<lparr> la_op_attrs = CG_weight
        \<lparr> weight_tensor_shape = TensorShape (if slot = Slot_WEIGHT then [4, last (ts_dims (TensorShape [8, 16] FLOAT))] else [4])
            (ts_data_type (TensorShape [8, 16] FLOAT)),
          weight_initializer = the (?init slot) \<rparr>, la_name = None \<rparr>"
    using dense_builds_linear_layer [OF cg(1) side(1) cg(2) side(2,3) name, where use_bias = True and bias_init = None
      and activation = "Some Act_RELU" and dtype = DOUBLE and projection = "Some Init_zero"]
    unfolding if_P [OF disjI1 [OF TrueI]] by (elim exE conjE) (rule that)
  obtain w where "weights Slot_WEIGHT = Some w" using t(4) init(1) by blast
  with made t(1-3) init(2) made' show ?thesis by fastforce
qed

text \<open>
  Claim C22. \<open>multihead_attention\<close> exchanges its first two arguments: the layer it adds reads the query in its
  slot \<open>KEY\<close> and the key in its slot \<open>QUERY\<close>.
\<close>

theorem multihead_attention_exchanges_query_and_key:
  assumes "builder_reachable op_name s" and "snd s' \<le> 2 ^ 64"
    and "cgb_multihead_attention op_name query key val embed_dim num_heads kdim vdim dropout bias add_bias_kv
      add_zero_attn initializer name s = Inr (t, s')"
  shows "get_incoming_tensors (fst s') (kdo_node t) Slot_KEY = Some query \<and>
    get_incoming_tensors (fst s') (kdo_node t) Slot_QUERY = Some key \<and>
    get_incoming_tensors (fst s') (kdo_node t) Slot_VALUE = Some val"
proof -
  let ?in = "[Slot_KEY \<mapsto> query, Slot_QUERY \<mapsto> key, Slot_VALUE \<mapsto> val]"
  obtain l inits where add: "add_layer_output l ?in inits s = Inr (t, s')"
    using assms(3) by (auto simp: cgb_multihead_attention_def Let_def)
  have "snd s \<le> 2 ^ 64" using keeps_add_layer_output add assms(2) growsD(1) unfolding keeps_for_def by (meson order_trans)
  then have good: "good s" by (rule builder_reachable_good [OF assms(1)])
  from add_layer_output_post [OF add good assms(2)] obtain n weights where
    n: "t = KwargDataflowOutput n Slot_OUTPUT" "incoming_outputs (fst s') n = ?in ++ weights" "dom ?in \<inter> dom weights = {}"
    by blast
  have none: "weights slot = None" if "slot \<in> {Slot_KEY, Slot_QUERY, Slot_VALUE}" for slot
    using n(3) that by (auto simp: domIff)
  have "get_incoming_tensors (fst s') (kdo_node t) slot = ?in slot" if "slot \<in> {Slot_KEY, Slot_QUERY, Slot_VALUE}" for slot
    using n(1,2) none [OF that] by (simp add: get_incoming_tensors_def incoming_outputs_def [symmetric] map_add_def)
  then show ?thesis by simp
qed

theorem multihead_attention_exchanges_query_and_key_witness:
  "\<exists>s t s'. cgb_multihead_attention (\<lambda>_. ''op'') (KwargDataflowOutput 0 Slot_OUTPUT) (KwargDataflowOutput 1 Slot_OUTPUT)
     (KwargDataflowOutput 2 Slot_OUTPUT) 8 2 None None (F_lit 0 0) False False False None None s = Inr (t, s') \<and>
     get_incoming_tensors (fst s') (kdo_node t) Slot_KEY = Some (KwargDataflowOutput 0 Slot_OUTPUT)"
proof -
  let ?q = "KwargDataflowOutput 0 Slot_OUTPUT" and ?k = "KwargDataflowOutput (Suc 0) Slot_OUTPUT"
    and ?v = "KwargDataflowOutput 2 Slot_OUTPUT" and ?s = "TensorShape [2, 4, 8] FLOAT"
  let ?a = "\<lparr> mha_embed_dim = 8, mha_num_heads = 2, mha_kdim = 8, mha_vdim = 8, mha_dropout = F_lit 0 0,
     mha_bias = False, mha_add_bias_kv = False, mha_add_zero_attn = False \<rparr>"
  let ?l = "\<lparr> la_op_attrs = CG_multi_head_attention ?a, la_name = Some ''op'' \<rparr>"
  let ?in = "[Slot_KEY \<mapsto> ?q, Slot_QUERY \<mapsto> ?k, Slot_VALUE \<mapsto> ?v]" and ?w = "TensorShape [256, 2] FLOAT"
  obtain cg where cg: "builder_reachable (\<lambda>_. ''op'') (cg, 3)" "cg_shape cg ?q = Inr ?s" "cg_shape cg ?k = Inr ?s"
    "cg_shape cg ?v = Inr ?s"
  proof -
    obtain cg where c: "builder_reachable (\<lambda>_. ''op'') (cg, length [?s, ?s, ?s])"
      "\<forall>i < length [?s, ?s, ?s]. cg_shape cg (KwargDataflowOutput i Slot_OUTPUT) = Inr ([?s, ?s, ?s] ! i)"
      using reachable_with_inputs [of "[?s, ?s, ?s]" "\<lambda>_. ''op''"] by auto
    from c(1) spec [OF c(2), of 0] spec [OF c(2), of 1] spec [OF c(2), of 2] show ?thesis
      by (intro that [of cg]) (simp_all add: numeral_3_eq_3 numeral_2_eq_2)
  qed
  have good: "good (cg, 3)" using builder_reachable_good [OF cg(1)] by simp
  have shapes: "shapes_of (attrs_at cg ?in) = [Slot_KEY \<mapsto> ?s, Slot_QUERY \<mapsto> ?s, Slot_VALUE \<mapsto> ?s]"
    using cg_shapes_at(2) [OF cg(2), of Map.empty] cg_shapes_at(2) [OF cg(3)] cg_shapes_at(2) [OF cg(4)] by simp
  have o: "attention_get_output_shape ?a ?s ?s ?s = Inr ?s" and w: "attention_get_weights_shape ?a ?s ?s ?s = Inr ?w"
    by code_simp+
  have three: "require_3 [Slot_KEY \<mapsto> ?s, Slot_QUERY \<mapsto> ?s, Slot_VALUE \<mapsto> ?s] Slot_QUERY Slot_KEY Slot_VALUE = Inr (?s, ?s, ?s)"
    by (simp add: require_3_eq fun_eq_iff)
  have "\<exists>t s'. add_layer_output ?l ?in [Slot_WEIGHT \<mapsto> Init_glorot_uniform 0] (cg, 3) = Inr (t, s') \<and>
      snd s' = Suc (snd (cg, 3 :: nat) + card (dom [Slot_WEIGHT \<mapsto> ?w])) \<and>
      cg_shape (fst s') t = Inr ?s \<and> good s' \<and> kwarg_graph.extends (fst (cg, 3 :: nat)) (fst s')"
    by (rule add_layer_output_succeeds [OF good])
      (use cg_shapes_at(1) [OF cg(2)] cg_shapes_at(1) [OF cg(3)] cg_shapes_at(1) [OF cg(4)] in
        \<open>simp_all add: shapes three attention_output_def output_slot_def attention_get_weight_shapes_def o w\<close>)
  then obtain t s' where add: "add_layer_output ?l ?in [Slot_WEIGHT \<mapsto> Init_glorot_uniform 0] (cg, 3) = Inr (t, s')"
    "snd s' = 5" by auto
  have lay: "cgb_layer (\<lambda>_. ''op'') a None = Inr \<lparr> la_op_attrs = a, la_name = Some ''op'' \<rparr>" for a
    by (simp add: cgb_layer_def name_or_def get_default_name_def mk_layer_attrs_def optional_stack_string_def
        stack_string_def MAX_OPNAME_def)
  have inits: "attention_get_initializers ?a ?s ?s ?s None None None = Inr [Slot_WEIGHT \<mapsto> Init_glorot_uniform 0]"
    by (simp add: attention_get_initializers_def attention_check_attrs_def)
  have run: "cgb_multihead_attention (\<lambda>_. ''op'') ?q ?k ?v 8 2 None None (F_lit 0 0) False False False None None (cg, 3) =
      Inr (t, s')"
    using add(1) cg(2-4) by (cases s') (simp add: cgb_multihead_attention_def Let_def lay inits)
  from multihead_attention_exchanges_query_and_key [OF cg(1) _ run] add(2) run show ?thesis
    by (intro exI [of _ "(cg, 3)"] exI [of _ t] exI [of _ s']) simp
qed

text \<open>
  Claim C24. An element-wise binary method returns only where its operands have the same dimensions, although
  it asks for the dimensions both can be broadcast to: the result has these dimensions and the larger of the
  two data types, to which the other operand is cast.
\<close>

theorem element_binary_needs_equal_dims:
  assumes "builder_reachable op_name s" and "snd s' \<le> 2 ^ 64"
    and "cgb_element_binary op_name op_type lhs rhs name s = Inr (t, s')"
  shows "\<exists>l r. cg_shape (fst s) lhs = Inr l \<and> cg_shape (fst s) rhs = Inr r \<and> ts_dims l = ts_dims r \<and>
    cg_shape (fst s') t = Inr (TensorShape (ts_dims l) (max (ts_data_type l) (ts_data_type r)))"
proof -
  from assms(3) obtain dims l r tl s1 tr s2 layer where
    shapes: "cg_shape (fst s) lhs = Inr l" "cg_shape (fst s) rhs = Inr r"
    and left: "ts_dims l = dims" "as_type op_name lhs (max (ts_data_type l) (ts_data_type r)) tl s = Inr (fst s1, snd s1)"
    and right: "\<exists>shape. cg_shape (fst (snd s1)) rhs = Inr shape \<and> ts_dims shape = dims"
      "as_type op_name rhs (max (ts_data_type l) (ts_data_type r)) tr (snd s1) = Inr (fst s2, snd s2)"
    and layer: "la_op_attrs layer = CG_element_binary \<lparr> eb_type = op_type,
        eb_compute_type = max (ts_data_type l) (ts_data_type r), eb_should_broadcast_lhs = False, eb_should_broadcast_rhs = False \<rparr>"
    and add: "add_layer_output layer [Slot_LHS_INPUT \<mapsto> fst s1, Slot_RHS_INPUT \<mapsto> fst s2] Map.empty (snd s2) = Inr (t, s')"
    by (fastforce simp: cgb_element_binary_def cgb_get_broadcast_target_dims_of_tensors_def cgb_broadcast_eq Let_def
        dest: mk_layer_attrs_op)
  let ?m = "max (ts_data_type l) (ts_data_type r)"
  have g1: "grows s (snd s1)" and g2: "grows (snd s1) (snd s2)" and g3: "grows (snd s2) s'"
    using left(2) right(2) add keeps_cast_as_type(2) keeps_add_layer_output unfolding keeps_for_def by (metis surj_pair fst_conv snd_conv)+
  have bounds: "snd (snd s2) \<le> 2 ^ 64" "snd (snd s1) \<le> 2 ^ 64" "snd s \<le> 2 ^ 64"
    using growsD(1) [OF g1] growsD(1) [OF g2] growsD(1) [OF g3] assms(2) by linarith+
  have good: "good s" using builder_reachable_good [OF assms(1) bounds(3)] .
  let ?l = "l\<lparr> ts_data_type := ?m \<rparr>" and ?r = "r\<lparr> ts_data_type := ?m \<rparr>"
  have L: "cg_shape (fst (snd s1)) (fst s1) = Inr ?l" "good (snd s1)" "kwarg_graph.extends (fst s) (fst (snd s1))"
    using as_type_post [OF left(2) good bounds(2) shapes(1)] by simp_all
  have rhs: "cg_shape (fst (snd s1)) rhs = Inr r" by (rule cg_shape_extends [OF L(3) shapes(2)])
  have R: "cg_shape (fst (snd s2)) (fst s2) = Inr ?r" "good (snd s2)" "kwarg_graph.extends (fst (snd s1)) (fst (snd s2))"
    using as_type_post [OF right(2) L(2) bounds(1) rhs] by simp_all
  have lhs: "cg_shape (fst (snd s2)) (fst s1) = Inr ?l" by (rule cg_shape_extends [OF R(3) L(1)])
  have "shapes_of (attrs_at (fst (snd s2)) [Slot_LHS_INPUT \<mapsto> fst s1, Slot_RHS_INPUT \<mapsto> fst s2]) =
      [Slot_LHS_INPUT \<mapsto> ?l, Slot_RHS_INPUT \<mapsto> ?r]"
    using cg_shapes_at(2) [OF lhs, of Map.empty] cg_shapes_at(2) [OF R(1)] by simp
  then obtain shape where out: "cg_get_output_shapes (la_op_attrs layer) [Slot_LHS_INPUT \<mapsto> ?l, Slot_RHS_INPUT \<mapsto> ?r] =
      Inr [Slot_OUTPUT \<mapsto> shape]" "cg_shape (fst s') t = Inr shape"
    using add_layer_output_post [OF add R(2) assms(2)] by auto
  have "binary_output [Slot_LHS_INPUT \<mapsto> ?l, Slot_RHS_INPUT \<mapsto> ?r] Slot_LHS_INPUT Slot_RHS_INPUT
      (element_binary_get_output_shape \<lparr> eb_type = op_type, eb_compute_type = ?m, eb_should_broadcast_lhs = False,
         eb_should_broadcast_rhs = False \<rparr>) = Inr [Slot_OUTPUT \<mapsto> shape]" using out(1) by (simp add: layer)
  then have "shape = ?l"
    by (simp add: binary_output_def output_slot_def container_ops element_binary_get_output_shape_def
      require_two_keys_def map_at_def res_bind_require split: if_splits)
  moreover have "?l = TensorShape (ts_dims l) ?m" by (cases l) simp
  moreover have "ts_dims l = ts_dims r" using left(1) right(1) rhs by auto
  ultimately show ?thesis using shapes out(2) by auto
qed

theorem element_binary_needs_equal_dims_witness:
  "\<exists>s t s'. cgb_element_binary (\<lambda>_. ''op'') Op_EW_ADD (KwargDataflowOutput 0 Slot_OUTPUT) (KwargDataflowOutput 1 Slot_OUTPUT)
     None s = Inr (t, s') \<and> cg_shape (fst s') t = Inr (TensorShape [4, 8] FLOAT)"
proof -
  let ?l = "KwargDataflowOutput 0 Slot_OUTPUT" and ?r = "KwargDataflowOutput 1 Slot_OUTPUT" and ?s = "TensorShape [4, 8] FLOAT"
  obtain cg where cg: "builder_reachable (\<lambda>_. ''op'') (cg, 2)" "cg_shape cg ?l = Inr ?s" "cg_shape cg ?r = Inr ?s"
  proof -
    obtain cg where c: "builder_reachable (\<lambda>_. ''op'') (cg, length [?s, ?s])"
      "\<forall>i < length [?s, ?s]. cg_shape cg (KwargDataflowOutput i Slot_OUTPUT) = Inr ([?s, ?s] ! i)"
      using reachable_with_inputs [of "[?s, ?s]" "\<lambda>_. ''op''"] by auto
    from c(1) spec [OF c(2), of 0] spec [OF c(2), of 1] show ?thesis by (intro that [of cg]) (simp_all add: numeral_2_eq_2)
  qed
  have good: "good (cg, 2)" using builder_reachable_good [OF cg(1)] by simp
  let ?layer = "\<lparr> la_op_attrs = CG_element_binary \<lparr> eb_type = Op_EW_ADD, eb_compute_type = FLOAT,
    eb_should_broadcast_lhs = False, eb_should_broadcast_rhs = False \<rparr>, la_name = Some ''op'' \<rparr>"
  have shapes: "shapes_of (attrs_at cg [Slot_LHS_INPUT \<mapsto> ?l, Slot_RHS_INPUT \<mapsto> ?r]) = [Slot_LHS_INPUT \<mapsto> ?s, Slot_RHS_INPUT \<mapsto> ?s]"
    using cg_shapes_at(2) [OF cg(2), of Map.empty] cg_shapes_at(2) [OF cg(3)] by simp
  have "\<exists>t s'. add_layer_output ?layer [Slot_LHS_INPUT \<mapsto> ?l, Slot_RHS_INPUT \<mapsto> ?r] Map.empty (cg, 2) = Inr (t, s') \<and>
      snd s' = Suc (snd (cg, 2 :: nat) + card (dom (Map.empty :: tensor_shape slots))) \<and>
      cg_shape (fst s') t = Inr ?s \<and> good s' \<and> kwarg_graph.extends (fst (cg, 2 :: nat)) (fst s')"
    by (rule add_layer_output_succeeds [OF good])
      (use cg_shapes_at(1) [OF cg(2)] cg_shapes_at(1) [OF cg(3)] in
        \<open>simp_all add: shapes [unfolded One_nat_def] container_ops binary_output_eq element_binary_get_output_shape_def\<close>)
  then obtain t s' where add: "add_layer_output ?layer [Slot_LHS_INPUT \<mapsto> ?l, Slot_RHS_INPUT \<mapsto> ?r] Map.empty (cg, 2) = Inr (t, s')"
    "snd s' = 3" by auto
  have target: "get_broadcast_target_dims [[4, 8]] = Inr (Some [4, 8])" by code_simp
  have lay: "mk_layer_attrs a (Some ''op'') = Inr \<lparr> la_op_attrs = a, la_name = Some ''op'' \<rparr>" for a
    by (simp add: mk_layer_attrs_def optional_stack_string_def stack_string_def MAX_OPNAME_def)
  have run: "cgb_element_binary (\<lambda>_. ''op'') Op_EW_ADD ?l ?r None (cg, 2) = Inr (t, s')"
    using add(1) cg(2,3)
    by (cases s') (simp add: cgb_element_binary_def cgb_get_broadcast_target_dims_of_tensors_def
      cgb_get_broadcast_target_dims_def target cgb_broadcast_eq as_type_def Let_def name_or_def lay less_data_type_def)
  from element_binary_needs_equal_dims [OF cg(1) _ run] add(2) cg(2,3) run show ?thesis
    by (intro exI [of _ "(cg, 2)"] exI [of _ t] exI [of _ s']) simp
qed

end
