(* ===== verification/PCG_Builder.thy ===== *)
theory PCG_Builder
  imports Parallel_Graphs CG_Builder
begin

text \<open>
  \<open>ParallelComputationGraphBuilder\<close>, \<open>lib/pcg/src/pcg/parallel_computation_graph/\<close>: the methods that add layers
  to a parallel computation graph (\<open>parallel_computation_graph_builder.cc\<close>), and the parallel operators that
  bring a weight from one device to the degrees that shape inference wants (\<open>generate_weight_transform.cc\<close>).

  As in \<open>CG_Builder\<close>, the formatter of enumerators is the parameter \<open>op_name\<close>.
\<close>

type_synonym pcg_builder_state = "parallel_computation_graph \<times> nat"

type_synonym 'a pcg_builder = "(parallel_computation_graph, 'a) graph_builder"

section \<open>The parallel operators of a weight\<close>

text \<open>A \<open>std::set\<close> of parallel operators is iterated by alternative, then by the fields.\<close>

fun parallel_op_key :: "parallel_op_attrs \<Rightarrow> nat \<times> nat \<times> nat" where
  "parallel_op_key (Parallel_combine a) = (0, combine_dim a, combine_degree a)"
| "parallel_op_key (Parallel_reduction d) = (1, d, 0)"
| "parallel_op_key (Parallel_repartition a) = (2, repartition_dim a, repartition_degree a)"
| "parallel_op_key (Parallel_replicate d) = (3, d, 0)"

lemma parallel_op_key_eq: "parallel_op_key x = parallel_op_key y \<longleftrightarrow> x = y"
  by (cases x; cases y) auto

instantiation parallel_op_attrs :: linorder
begin

definition less_eq_parallel_op_attrs :: "parallel_op_attrs \<Rightarrow> parallel_op_attrs \<Rightarrow> bool" where
  "less_eq_parallel_op_attrs x y \<longleftrightarrow> parallel_op_key x \<le> parallel_op_key y"

definition less_parallel_op_attrs :: "parallel_op_attrs \<Rightarrow> parallel_op_attrs \<Rightarrow> bool" where
  "less_parallel_op_attrs x y \<longleftrightarrow> parallel_op_key x < parallel_op_key y"

instance
proof
  fix x y z :: parallel_op_attrs
  show "x < y \<longleftrightarrow> x \<le> y \<and> \<not> y \<le> x"
    unfolding less_eq_parallel_op_attrs_def less_parallel_op_attrs_def by (rule less_le_not_le)
  show "x \<le> x" by (simp only: less_eq_parallel_op_attrs_def order_refl)
  show "x \<le> y \<Longrightarrow> y \<le> z \<Longrightarrow> x \<le> z" unfolding less_eq_parallel_op_attrs_def by (rule order_trans)
  show "x \<le> y \<Longrightarrow> y \<le> x \<Longrightarrow> x = y"
    unfolding less_eq_parallel_op_attrs_def parallel_op_key_eq [symmetric] by (rule antisym)
  show "x \<le> y \<or> y \<le> x" unfolding less_eq_parallel_op_attrs_def by (rule linear)
qed

end

definition generate_weight_transform :: "tensor_shape \<Rightarrow> parallel_tensor_shape \<Rightarrow> parallel_op_attrs set res" where
  "generate_weight_transform current goal =
     (let sum_degree = get_sum_degree goal
      in res_bind (ASSERT (sum_degree = 1)) (\<lambda>_.
         let discard_copy_degree = get_discard_copy_degree goal;
             result = (if discard_copy_degree \<noteq> 1 then {Parallel_replicate discard_copy_degree} else {})
         in Inr (foldl (\<lambda>result (shard_dim, shard_degree).
              if shard_degree \<noteq> 1
              then insert (Parallel_repartition \<lparr> repartition_dim = shard_dim, repartition_degree = shard_degree \<rparr>) result
              else result)
            result (map_entries (ff_ordered_enumerate (ff_ordered_shard_degrees (pts_dims goal)))))))"

section \<open>Adding layers\<close>

definition pcg_get_default_name :: "(operator_type \<Rightarrow> string) \<Rightarrow> pcg_operator_attrs \<Rightarrow> string" where
  "pcg_get_default_name op_name attrs = op_name (pcg_op_attrs_get_op_type attrs)"

definition pcgb_get_shape :: "parallel_tensor_guid \<Rightarrow> parallel_tensor_shape pcg_builder" where
  "pcgb_get_shape t = b_read (\<lambda>pcg. get_parallel_tensor_shape pcg t)"

text \<open>A layer whose only output is taken.\<close>

definition add_parallel_layer_output ::
    "parallel_layer_attrs \<Rightarrow> parallel_tensor_guid slots \<Rightarrow> parallel_tensor_guid slots \<Rightarrow> create_grad slots option \<Rightarrow>
     parallel_tensor_guid pcg_builder" where
  "add_parallel_layer_output layer_attrs inputs weights maybe_output_flags =
     b_bind (add_parallel_layer layer_attrs inputs weights maybe_output_flags) (\<lambda>added.
     b_lift (require_only_key (snd added) Slot_OUTPUT))"

text \<open>The step of the loop of \<open>add_weight\<close>.\<close>

definition add_parallel_op :: "parallel_op_attrs \<Rightarrow> parallel_tensor_guid \<Rightarrow> parallel_tensor_guid pcg_builder" where
  "add_parallel_op parallel_op_attr current_weight_tensor =
     add_parallel_layer_output
       \<lparr> pla_op_attrs = pcg_op_attrs_from_parallel_op_attrs parallel_op_attr, pla_name = None \<rparr>
       [Slot_INPUT \<mapsto> current_weight_tensor] Map.empty None"

definition add_weight ::
    "parallel_tensor_shape \<Rightarrow> initializer_attrs \<Rightarrow> string option \<Rightarrow> parallel_tensor_guid pcg_builder" where
  "add_weight par_weight_shape initializer weight_name =
     (let unpar_weight_shape = get_reduced_shape par_weight_shape
      in b_bind (b_lift (mk_parallel_layer_attrs (PCG_weight
             \<lparr> weight_tensor_shape = unpar_weight_shape, weight_initializer = initializer \<rparr>) weight_name))
           (\<lambda>weight_layer_attrs.
         b_bind (add_parallel_layer_output weight_layer_attrs Map.empty Map.empty None) (\<lambda>current_weight_tensor.
         b_bind (b_lift (generate_weight_transform unpar_weight_shape par_weight_shape)) (\<lambda>transform.
         b_fold add_parallel_op (sorted_list_of_set transform) current_weight_tensor))))"

definition pcg_check_incoming_tensor_roles ::
    "parallel_layer_attrs \<Rightarrow> tensor_slot_name set \<Rightarrow> tensor_slot_name set \<Rightarrow> unit res" where
  "pcg_check_incoming_tensor_roles layer input_slots weight_slots =
     res_bind (get_incoming_tensor_roles (pla_op_attrs layer)) (\<lambda>correct.
     res_bind (binary_merge_disjoint_maps (\<lambda>k. if k \<in> input_slots then Some Role_INPUT else None)
       (\<lambda>k. if k \<in> weight_slots then Some Role_WEIGHT else None)) (\<lambda>current.
     ASSERT (correct = current)))"

definition pcgb_add_layer ::
    "parallel_layer_attrs \<Rightarrow> parallel_tensor_guid slots \<Rightarrow> initializer_attrs slots \<Rightarrow>
     parallel_tensor_guid slots pcg_builder" where
  "pcgb_add_layer layer inputs weight_initializers =
     b_bind (b_lift (ASSERT (dom inputs \<inter> dom weight_initializers = {}))) (\<lambda>_.
     b_bind (b_lift (pcg_check_incoming_tensor_roles layer (dom inputs) (dom weight_initializers))) (\<lambda>_.
     b_bind (b_read (\<lambda>pcg. map_values (get_parallel_tensor_shape pcg) inputs)) (\<lambda>input_shapes.
     b_bind (b_lift (pcg_get_weight_shapes (pla_op_attrs layer) input_shapes)) (\<lambda>weight_shapes.
     b_bind (b_lift (ASSERT (dom weight_shapes = dom weight_initializers))) (\<lambda>_.
     b_bind (b_generate_map (dom weight_shapes)
         (\<lambda>slot. add_weight (the (weight_shapes slot)) (the (weight_initializers slot)) None)) (\<lambda>weight_tensors.
     b_bind (add_parallel_layer layer inputs weight_tensors None) (\<lambda>added.
     b_return (snd added))))))))"

text \<open>The end of every method: the layer is added and its only output returned.\<close>

definition pcgb_add_layer_output ::
    "parallel_layer_attrs \<Rightarrow> parallel_tensor_guid slots \<Rightarrow> initializer_attrs slots \<Rightarrow> parallel_tensor_guid pcg_builder" where
  "pcgb_add_layer_output layer inputs weight_initializers =
     b_bind (pcgb_add_layer layer inputs weight_initializers) (\<lambda>outputs.
     b_lift (require_only_key outputs Slot_OUTPUT))"

definition create_input_tensor :: "tensor_shape \<Rightarrow> string option \<Rightarrow> parallel_tensor_guid pcg_builder" where
  "create_input_tensor shape name =
     b_bind (b_lift (mk_parallel_layer_attrs (PCG_input shape) name)) (\<lambda>layer_attrs.
     add_parallel_layer_output layer_attrs Map.empty Map.empty (Some [Slot_OUTPUT \<mapsto> Create_grad_NO]))"

section \<open>The methods\<close>

definition pcgb_layer ::
    "(operator_type \<Rightarrow> string) \<Rightarrow> pcg_operator_attrs \<Rightarrow> string option \<Rightarrow> parallel_layer_attrs res" where
  "pcgb_layer op_name attrs maybe_name =
     mk_parallel_layer_attrs attrs (Some (name_or maybe_name (pcg_get_default_name op_name attrs)))"

text \<open>A layer with one input and no weights.\<close>

definition pcgb_unary_layer ::
    "(operator_type \<Rightarrow> string) \<Rightarrow> pcg_operator_attrs \<Rightarrow> parallel_tensor_guid \<Rightarrow> string option \<Rightarrow>
     parallel_tensor_guid pcg_builder" where
  "pcgb_unary_layer op_name attrs input maybe_name =
     b_bind (b_lift (pcgb_layer op_name attrs maybe_name)) (\<lambda>layer.
     pcgb_add_layer_output layer [Slot_INPUT \<mapsto> input] Map.empty)"

definition pcgb_add ::
    "(operator_type \<Rightarrow> string) \<Rightarrow> parallel_tensor_guid \<Rightarrow> parallel_tensor_guid \<Rightarrow> string option \<Rightarrow>
     parallel_tensor_guid pcg_builder" where
  "pcgb_add op_name lhs rhs maybe_name =
     b_bind (pcgb_get_shape lhs) (\<lambda>lhs_shape.
     b_bind (pcgb_get_shape rhs) (\<lambda>rhs_shape.
     b_bind (b_lift (require (pts_data_type lhs_shape = pts_data_type rhs_shape) Runtime_error)) (\<lambda>_.
     b_bind (b_lift (pcgb_layer op_name (PCG_element_binary
         \<lparr> eb_type = Op_EW_ADD, eb_compute_type = pts_data_type lhs_shape, eb_should_broadcast_lhs = False,
           eb_should_broadcast_rhs = False \<rparr>) maybe_name)) (\<lambda>layer.
     pcgb_add_layer_output layer [Slot_LHS_INPUT \<mapsto> lhs, Slot_RHS_INPUT \<mapsto> rhs] Map.empty))))"

definition pcgb_cast ::
    "(operator_type \<Rightarrow> string) \<Rightarrow> parallel_tensor_guid \<Rightarrow> data_type \<Rightarrow> string option \<Rightarrow> parallel_tensor_guid pcg_builder" where
  "pcgb_cast op_name input result_type maybe_name = pcgb_unary_layer op_name (PCG_cast result_type) input maybe_name"

definition pcgb_as_type ::
    "(operator_type \<Rightarrow> string) \<Rightarrow> parallel_tensor_guid \<Rightarrow> data_type \<Rightarrow> string \<Rightarrow> parallel_tensor_guid pcg_builder" where
  "pcgb_as_type op_name input goal_datatype name =
     b_bind (pcgb_get_shape input) (\<lambda>shape.
     if pts_data_type shape = goal_datatype then b_return input
     else if can_strictly_promote_datatype_from_to (pts_data_type shape) goal_datatype
     then pcgb_cast op_name input goal_datatype (Some name)
     else b_lift (Inl Runtime_error))"

definition pcgb_conv2d ::
    "(operator_type \<Rightarrow> string) \<Rightarrow> parallel_tensor_guid \<Rightarrow> positive_int \<Rightarrow> positive_int \<Rightarrow> positive_int \<Rightarrow> positive_int \<Rightarrow>
     positive_int \<Rightarrow> nonnegative_int \<Rightarrow> nonnegative_int \<Rightarrow> activation option \<Rightarrow> positive_int \<Rightarrow> bool \<Rightarrow>
     initializer_attrs option \<Rightarrow> initializer_attrs option \<Rightarrow> regularizer_attrs option \<Rightarrow> string option \<Rightarrow>
     parallel_tensor_guid pcg_builder" where
  "pcgb_conv2d op_name raw_input outChannels kernelH kernelW strideH strideW paddingH paddingW activation groups
       use_bias maybe_kernel_initializer maybe_bias_initializer kernel_regularizer maybe_name =
     (let attrs = \<lparr> conv_out_channels = outChannels, conv_kernel_h = kernelH, conv_kernel_w = kernelW,
            conv_stride_h = strideH, conv_stride_w = strideW, conv_padding_h = paddingH, conv_padding_w = paddingW,
            conv_groups = groups, conv_activation = activation, conv_use_bias = use_bias \<rparr>;
          name = name_or maybe_name (pcg_get_default_name op_name (PCG_conv2d attrs))
      in b_bind (pcgb_as_type op_name raw_input FLOAT (name @ ''input_pre_cast'')) (\<lambda>input.
         b_bind (b_lift (mk_parallel_layer_attrs (PCG_conv2d attrs) (Some name))) (\<lambda>layer.
         b_bind (pcgb_get_shape input) (\<lambda>input_shape.
         b_bind (b_lift (conv2d_get_initializers attrs (get_reduced_shape input_shape) maybe_kernel_initializer
             maybe_bias_initializer)) (\<lambda>initializers.
         pcgb_add_layer_output layer [Slot_INPUT \<mapsto> input] initializers)))))"

definition pcgb_dense ::
    "(operator_type \<Rightarrow> string) \<Rightarrow> parallel_tensor_guid \<Rightarrow> positive_int \<Rightarrow> activation option \<Rightarrow> bool \<Rightarrow> data_type \<Rightarrow>
     initializer_attrs option \<Rightarrow> initializer_attrs option \<Rightarrow> string option \<Rightarrow> parallel_tensor_guid pcg_builder" where
  "pcgb_dense op_name input outDim activation use_bias data_type maybe_projection_initializer
       maybe_bias_initializer maybe_name =
     (let attrs = \<lparr> linear_out_channels = outDim, linear_use_bias = use_bias, linear_data_type = data_type,
            linear_activation = activation, linear_regularizer = None \<rparr>
      in b_bind (b_lift (pcgb_layer op_name (PCG_linear attrs) maybe_name)) (\<lambda>layer.
         b_bind (pcgb_get_shape input) (\<lambda>input_shape.
         b_bind (b_lift (throw_if_unexpected (linear_get_initializers attrs (get_reduced_shape input_shape)
             maybe_projection_initializer maybe_bias_initializer))) (\<lambda>initializers.
         pcgb_add_layer_output layer [Slot_INPUT \<mapsto> input] initializers))))"

definition pcgb_embedding ::
    "(operator_type \<Rightarrow> string) \<Rightarrow> parallel_tensor_guid \<Rightarrow> positive_int \<Rightarrow> positive_int \<Rightarrow> aggregate_op \<Rightarrow> data_type \<Rightarrow>
     initializer_attrs option \<Rightarrow> string option \<Rightarrow> parallel_tensor_guid pcg_builder" where
  "pcgb_embedding op_name input num_entries outDim aggr dtype maybe_kernel_initializer maybe_name =
     (let attrs = \<lparr> embedding_num_entries = num_entries, embedding_out_channels = outDim,
            embedding_aggr = Some aggr, embedding_data_type = dtype \<rparr>
      in b_bind (b_lift (pcgb_layer op_name (PCG_embedding attrs) maybe_name)) (\<lambda>layer.
         pcgb_add_layer_output layer [Slot_INPUT \<mapsto> input]
           (embedding_get_initializers attrs maybe_kernel_initializer)))"

definition pcgb_multihead_attention ::
    "(operator_type \<Rightarrow> string) \<Rightarrow> parallel_tensor_guid \<Rightarrow> parallel_tensor_guid \<Rightarrow> parallel_tensor_guid \<Rightarrow>
     positive_int \<Rightarrow> positive_int \<Rightarrow> positive_int option \<Rightarrow> positive_int option \<Rightarrow> float_expr \<Rightarrow> bool \<Rightarrow> bool \<Rightarrow> bool \<Rightarrow>
     initializer_attrs option \<Rightarrow> initializer_attrs option \<Rightarrow> initializer_attrs option \<Rightarrow> string option \<Rightarrow>
     parallel_tensor_guid pcg_builder" where
  "pcgb_multihead_attention op_name query key val embed_dim num_heads maybe_kdim maybe_vdim dropout bias add_bias_kv
       add_zero_attn maybe_weights_initializer maybe_input_bias_initializer maybe_output_bias_initializer maybe_name =
     (let attrs = \<lparr> mha_embed_dim = embed_dim, mha_num_heads = num_heads,
            mha_kdim = (case maybe_kdim of Some k \<Rightarrow> k | None \<Rightarrow> embed_dim),
            mha_vdim = (case maybe_vdim of Some v \<Rightarrow> v | None \<Rightarrow> embed_dim), mha_dropout = dropout,
            mha_bias = bias, mha_add_bias_kv = add_bias_kv, mha_add_zero_attn = add_zero_attn \<rparr>
      in b_bind (b_lift (pcgb_layer op_name (PCG_multi_head_attention attrs) maybe_name)) (\<lambda>layer.
         b_bind (pcgb_get_shape query) (\<lambda>query_shape.
         b_bind (pcgb_get_shape key) (\<lambda>key_shape.
         b_bind (pcgb_get_shape val) (\<lambda>val_shape.
         b_bind (b_lift (throw_if_unexpected (attention_get_initializers attrs (get_reduced_shape query_shape)
             (get_reduced_shape key_shape) (get_reduced_shape val_shape) maybe_weights_initializer
             maybe_input_bias_initializer maybe_output_bias_initializer))) (\<lambda>initializers.
         pcgb_add_layer_output layer [Slot_QUERY \<mapsto> query, Slot_KEY \<mapsto> key, Slot_VALUE \<mapsto> val] initializers))))))"

definition pcgb_batch_norm ::
    "(operator_type \<Rightarrow> string) \<Rightarrow> parallel_tensor_guid \<Rightarrow> bool \<Rightarrow> activation option \<Rightarrow> float_expr \<Rightarrow> float_expr option \<Rightarrow>
     string option \<Rightarrow> parallel_tensor_guid pcg_builder" where
  "pcgb_batch_norm op_name input affine activation eps momentum maybe_name =
     b_bind (b_lift (require (activation = None \<or> activation = Some Act_RELU) Runtime_error)) (\<lambda>_.
     let attrs = \<lparr> bn_relu = activation \<noteq> None, bn_affine = affine, bn_eps = eps, bn_momentum = momentum \<rparr> in
     b_bind (b_lift (pcgb_layer op_name (PCG_batch_norm attrs) maybe_name)) (\<lambda>layer.
     b_bind (pcgb_get_shape input) (\<lambda>input_shape.
     b_bind (b_lift (throw_if_unexpected (batch_norm_get_initializers attrs))) (\<lambda>initializers.
     pcgb_add_layer_output layer [Slot_INPUT \<mapsto> input] initializers))))"

definition pcgb_element_unary ::
    "(operator_type \<Rightarrow> string) \<Rightarrow> element_unary_attrs \<Rightarrow> parallel_tensor_guid \<Rightarrow> string option \<Rightarrow>
     parallel_tensor_guid pcg_builder" where
  "pcgb_element_unary op_name attrs input maybe_name = pcgb_unary_layer op_name (PCG_element_unary attrs) input maybe_name"

definition pcgb_relu :: "(operator_type \<Rightarrow> string) \<Rightarrow> parallel_tensor_guid \<Rightarrow> string option \<Rightarrow> parallel_tensor_guid pcg_builder" where
  "pcgb_relu op_name input maybe_name =
     pcgb_element_unary op_name \<lparr> eu_op_type = Op_RELU, eu_scalar = None \<rparr> input maybe_name"

definition pcgb_identity :: "(operator_type \<Rightarrow> string) \<Rightarrow> parallel_tensor_guid \<Rightarrow> string option \<Rightarrow> parallel_tensor_guid pcg_builder" where
  "pcgb_identity op_name input maybe_name =
     pcgb_element_unary op_name \<lparr> eu_op_type = Op_IDENTITY, eu_scalar = None \<rparr> input maybe_name"

definition pcgb_gelu :: "(operator_type \<Rightarrow> string) \<Rightarrow> parallel_tensor_guid \<Rightarrow> string option \<Rightarrow> parallel_tensor_guid pcg_builder" where
  "pcgb_gelu op_name input maybe_name =
     pcgb_element_unary op_name \<lparr> eu_op_type = Op_GELU, eu_scalar = None \<rparr> input maybe_name"

definition pcgb_sigmoid :: "(operator_type \<Rightarrow> string) \<Rightarrow> parallel_tensor_guid \<Rightarrow> string option \<Rightarrow> parallel_tensor_guid pcg_builder" where
  "pcgb_sigmoid op_name input maybe_name =
     pcgb_element_unary op_name \<lparr> eu_op_type = Op_SIGMOID, eu_scalar = None \<rparr> input maybe_name"

definition pcgb_tanh :: "(operator_type \<Rightarrow> string) \<Rightarrow> parallel_tensor_guid \<Rightarrow> string option \<Rightarrow> parallel_tensor_guid pcg_builder" where
  "pcgb_tanh op_name input maybe_name =
     pcgb_element_unary op_name \<lparr> eu_op_type = Op_TANH, eu_scalar = None \<rparr> input maybe_name"

definition pcgb_elu :: "(operator_type \<Rightarrow> string) \<Rightarrow> parallel_tensor_guid \<Rightarrow> string option \<Rightarrow> parallel_tensor_guid pcg_builder" where
  "pcgb_elu op_name input maybe_name =
     pcgb_element_unary op_name \<lparr> eu_op_type = Op_ELU, eu_scalar = None \<rparr> input maybe_name"

definition pcgb_partition ::
    "(operator_type \<Rightarrow> string) \<Rightarrow> parallel_tensor_guid \<Rightarrow> ff_dim_t \<Rightarrow> positive_int \<Rightarrow> string option \<Rightarrow>
     parallel_tensor_guid pcg_builder" where
  "pcgb_partition op_name input dim degree maybe_name =
     pcgb_unary_layer op_name (PCG_repartition \<lparr> repartition_dim = dim, repartition_degree = degree \<rparr>) input maybe_name"

definition pcgb_combine ::
    "(operator_type \<Rightarrow> string) \<Rightarrow> parallel_tensor_guid \<Rightarrow> ff_dim_t \<Rightarrow> positive_int \<Rightarrow> string option \<Rightarrow>
     parallel_tensor_guid pcg_builder" where
  "pcgb_combine op_name input dim degree maybe_name =
     pcgb_unary_layer op_name (PCG_combine \<lparr> combine_dim = dim, combine_degree = degree \<rparr>) input maybe_name"

definition pcgb_replicate ::
    "(operator_type \<Rightarrow> string) \<Rightarrow> parallel_tensor_guid \<Rightarrow> positive_int \<Rightarrow> string option \<Rightarrow> parallel_tensor_guid pcg_builder" where
  "pcgb_replicate op_name input degree maybe_name = pcgb_unary_layer op_name (PCG_replicate degree) input maybe_name"

definition pcgb_reduce ::
    "(operator_type \<Rightarrow> string) \<Rightarrow> parallel_tensor_guid \<Rightarrow> positive_int \<Rightarrow> string option \<Rightarrow> parallel_tensor_guid pcg_builder" where
  "pcgb_reduce op_name input degree maybe_name = pcgb_unary_layer op_name (PCG_reduction degree) input maybe_name"

section \<open>A builder in use\<close>

datatype (plugins only: code size) pcg_builder_call =
    PCall_create_input_tensor tensor_shape "string option"
  | PCall_add parallel_tensor_guid parallel_tensor_guid "string option"
  | PCall_cast parallel_tensor_guid data_type "string option"
  | PCall_conv2d parallel_tensor_guid conv2d_attrs "initializer_attrs option" "initializer_attrs option"
      "regularizer_attrs option" "string option"
  | PCall_dense parallel_tensor_guid positive_int "activation option" bool data_type "initializer_attrs option"
      "initializer_attrs option" "string option"
  | PCall_embedding parallel_tensor_guid positive_int positive_int aggregate_op data_type "initializer_attrs option"
      "string option"
  | PCall_multihead_attention parallel_tensor_guid parallel_tensor_guid parallel_tensor_guid positive_int positive_int
      "positive_int option" "positive_int option" float_expr bool bool bool "initializer_attrs option"
      "initializer_attrs option" "initializer_attrs option" "string option"
  | PCall_batch_norm parallel_tensor_guid bool "activation option" float_expr "float_expr option" "string option"
  | PCall_element_unary element_unary_attrs parallel_tensor_guid "string option"
  | PCall_parallel_partition parallel_tensor_guid ff_dim_t positive_int "string option"
  | PCall_parallel_combine parallel_tensor_guid ff_dim_t positive_int "string option"
  | PCall_parallel_replicate parallel_tensor_guid positive_int "string option"
  | PCall_parallel_reduce parallel_tensor_guid positive_int "string option"

text \<open>The methods for single element-wise operators are covered by the call with any attributes.\<close>

fun pcg_run_call :: "(operator_type \<Rightarrow> string) \<Rightarrow> pcg_builder_call \<Rightarrow> pcg_builder_state \<Rightarrow> pcg_builder_state res" where
  "pcg_run_call N (PCall_create_input_tensor shape name) s = res_bind (create_input_tensor shape name s) (\<lambda>r. Inr (snd r))"
| "pcg_run_call N (PCall_add lhs rhs name) s = res_bind (pcgb_add N lhs rhs name s) (\<lambda>r. Inr (snd r))"
| "pcg_run_call N (PCall_cast t dtype name) s = res_bind (pcgb_cast N t dtype name s) (\<lambda>r. Inr (snd r))"
| "pcg_run_call N (PCall_conv2d t a kinit binit reg name) s = res_bind (pcgb_conv2d N t (conv_out_channels a)
     (conv_kernel_h a) (conv_kernel_w a) (conv_stride_h a) (conv_stride_w a) (conv_padding_h a) (conv_padding_w a)
     (conv_activation a) (conv_groups a) (conv_use_bias a) kinit binit reg name s) (\<lambda>r. Inr (snd r))"
| "pcg_run_call N (PCall_dense t d act bias dtype pinit binit name) s =
     res_bind (pcgb_dense N t d act bias dtype pinit binit name s) (\<lambda>r. Inr (snd r))"
| "pcg_run_call N (PCall_embedding t n d aggr dtype init name) s =
     res_bind (pcgb_embedding N t n d aggr dtype init name s) (\<lambda>r. Inr (snd r))"
| "pcg_run_call N (PCall_multihead_attention q k v d h kdim vdim dropout bias bias_kv zero winit iinit oinit name) s =
     res_bind (pcgb_multihead_attention N q k v d h kdim vdim dropout bias bias_kv zero winit iinit oinit name s)
       (\<lambda>r. Inr (snd r))"
| "pcg_run_call N (PCall_batch_norm t affine act eps momentum name) s =
     res_bind (pcgb_batch_norm N t affine act eps momentum name s) (\<lambda>r. Inr (snd r))"
| "pcg_run_call N (PCall_element_unary attrs t name) s = res_bind (pcgb_element_unary N attrs t name s) (\<lambda>r. Inr (snd r))"
| "pcg_run_call N (PCall_parallel_partition t dim degree name) s =
     res_bind (pcgb_partition N t dim degree name s) (\<lambda>r. Inr (snd r))"
| "pcg_run_call N (PCall_parallel_combine t dim degree name) s =
     res_bind (pcgb_combine N t dim degree name s) (\<lambda>r. Inr (snd r))"
| "pcg_run_call N (PCall_parallel_replicate t degree name) s =
     res_bind (pcgb_replicate N t degree name s) (\<lambda>r. Inr (snd r))"
| "pcg_run_call N (PCall_parallel_reduce t degree name) s =
     res_bind (pcgb_reduce N t degree name s) (\<lambda>r. Inr (snd r))"

inductive pcg_builder_reachable :: "(operator_type \<Rightarrow> string) \<Rightarrow> pcg_builder_state \<Rightarrow> bool" for N where
  new: "pcg_builder_reachable N (empty_parallel_computation_graph, made)"
| call: "pcg_builder_reachable N s \<Longrightarrow> pcg_run_call N c s = Inr s' \<Longrightarrow> pcg_builder_reachable N s'"
| others: "pcg_builder_reachable N (pcg, made) \<Longrightarrow> made \<le> made' \<Longrightarrow> pcg_builder_reachable N (pcg, made')"

section \<open>From a weight on one device to its degrees\<close>

definition shard_degree_at :: "parallel_tensor_shape \<Rightarrow> nat \<Rightarrow> positive_int" where
  "shard_degree_at s i = spd_degree (ptd_shard_dims (pts_dims s) ! i)"

abbreviation shard_op :: "parallel_tensor_shape \<Rightarrow> nat \<Rightarrow> parallel_op_attrs" where
  "shard_op goal i \<equiv> Parallel_repartition \<lparr> repartition_dim = i, repartition_degree = shard_degree_at goal i \<rparr>"

definition weight_ops :: "parallel_tensor_shape \<Rightarrow> parallel_op_attrs set" where
  "weight_ops goal =
     (if get_discard_copy_degree goal \<noteq> 1 then {Parallel_replicate (get_discard_copy_degree goal)} else {}) \<union>
     shard_op goal ` {i. i < length (ptd_shard_dims (pts_dims goal)) \<and> shard_degree_at goal i \<noteq> 1}"

lemma foldl_insert_if:
  "foldl (\<lambda>r (k, v). if P v then insert (f k v) r else r) A kvs = A \<union> {f k v | k v. (k, v) \<in> set kvs \<and> P v}"
proof (induction kvs arbitrary: A)
  case (Cons kv kvs)
  obtain a b where kv: "kv = (a, b)" by (cases kv)
  have "{f k v | k v. (k, v) \<in> set (kv # kvs) \<and> P v} = (if P b then {f a b} else {}) \<union> {f k v | k v. (k, v) \<in> set kvs \<and> P v}"
    unfolding kv by auto
  then show ?case using Cons by (simp add: kv)
qed simp

lemma generate_weight_transform_eq:
  "generate_weight_transform current goal = Inr ops \<longleftrightarrow> get_sum_degree goal = 1 \<and> ops = weight_ops goal"
proof -
  let ?kvs = "map_entries (ff_ordered_enumerate (ff_ordered_shard_degrees (pts_dims goal)))"
  have "(k, v) \<in> set ?kvs \<longleftrightarrow> k < length (ptd_shard_dims (pts_dims goal)) \<and> v = shard_degree_at goal k" for k v
    by (subst set_map_entries) (auto simp: ff_ordered_enumerate_eq ff_ordered_shard_degrees_def
      ff_ordered_transform_def shard_degree_at_def)
  then have "{Parallel_repartition \<lparr> repartition_dim = k, repartition_degree = v \<rparr> | k v. (k, v) \<in> set ?kvs \<and> v \<noteq> 1} =
      shard_op goal ` {i. i < length (ptd_shard_dims (pts_dims goal)) \<and> shard_degree_at goal i \<noteq> 1}"
    by auto
  then show ?thesis
    by (auto simp: generate_weight_transform_def foldl_insert_if weight_ops_def Let_def simp del: One_nat_def)
qed

lemma finite_weight_ops: "finite (weight_ops goal)"
  by (simp add: weight_ops_def)

text \<open>The degrees after some of the operators have been applied.\<close>

definition degrees_after :: "parallel_tensor_shape \<Rightarrow> parallel_op_attrs set \<Rightarrow> parallel_tensor_dim_degrees" where
  "degrees_after goal applied = ParallelTensorDimDegrees 1
     (if Parallel_replicate (get_discard_copy_degree goal) \<in> applied then get_discard_copy_degree goal else 1)
     (map (\<lambda>i. if shard_op goal i \<in> applied then shard_degree_at goal i else 1)
       [0..<length (ptd_shard_dims (pts_dims goal))])"

definition resharded_so_far :: "parallel_tensor_shape \<Rightarrow> parallel_op_attrs set \<Rightarrow> parallel_tensor_shape" where
  "resharded_so_far goal applied = lift_to_parallel_with_dim_degrees (get_reduced_shape goal) (degrees_after goal applied)"

lemma resharded_parts [simp]:
  "get_reduced_shape (resharded_so_far goal applied) = get_reduced_shape goal"
  "get_parallel_degrees (resharded_so_far goal applied) = degrees_after goal applied"
  "length (ptd_shard_dims (pts_dims (resharded_so_far goal applied))) = length (ptd_shard_dims (pts_dims goal))"
  by (simp_all add: resharded_so_far_def degrees_after_def get_reduced_shape_lift get_parallel_degrees_lift shape_ops)

lemma degrees_of_parts:
  "get_discard_copy_degree s = ptdd_discard_copy_degree (get_parallel_degrees s)"
  "i < length (ptd_shard_dims (pts_dims s)) \<Longrightarrow> spd_degree (ptd_shard_dims (pts_dims s) ! i) = ptdd_shard_degrees (get_parallel_degrees s) ! i"
  by (simp_all add: shape_ops)

lemma resharded_none:
  "length (ts_dims (get_reduced_shape goal)) \<le> MAX_TENSOR_DIM \<Longrightarrow>
     lift_to_parallel (get_reduced_shape goal) = Inr (resharded_so_far goal {})"
  by (simp add: lift_to_parallel_eq resharded_so_far_def degrees_after_def shape_ops map_replicate_const)

lemma resharded_all:
  assumes "get_sum_degree goal = 1"
  shows "resharded_so_far goal (weight_ops goal) = goal"
proof (rule pshape_eqI)
  have "map (\<lambda>i. if shard_op goal i \<in> weight_ops goal then shard_degree_at goal i else 1)
      [0..<length (ptd_shard_dims (pts_dims goal))] = ptdd_shard_degrees (get_parallel_degrees goal)"
    by (rule nth_equalityI) (auto simp: shape_ops weight_ops_def shard_degree_at_def)
  moreover have "(if Parallel_replicate (get_discard_copy_degree goal) \<in> weight_ops goal then get_discard_copy_degree goal else 1) =
      get_discard_copy_degree goal" by (auto simp: weight_ops_def)
  ultimately show "get_parallel_degrees (resharded_so_far goal (weight_ops goal)) = get_parallel_degrees goal"
    unfolding resharded_parts degrees_after_def
    by (intro parallel_tensor_dim_degrees.equality) (simp_all only: parallel_tensor_dim_degrees.simps shape_ops assms, simp)
qed simp

lemma resharded_step:
  assumes x: "x \<in> weight_ops goal - applied"
    and t: "parallel_op_get_output_shape x (resharded_so_far goal applied) = Inr t"
  shows "t = resharded_so_far goal (insert x applied)"
proof (cases "x = Parallel_replicate (get_discard_copy_degree goal)")
  case True
  then have "t = set_discard_copy_degree (resharded_so_far goal applied) (get_discard_copy_degree goal)"
    using t x by (auto simp: replicate_eq int_ops degrees_of_parts(1) [of "resharded_so_far goal applied"] degrees_after_def)
  with True show ?thesis by (intro pshape_eqI) (simp_all add: degrees_after_def)
next
  case False
  then obtain i where i: "i < length (ptd_shard_dims (pts_dims goal))" "x = shard_op goal i"
    using x by (auto simp: weight_ops_def split: if_splits)
  then have "t = set_shard_degree (resharded_so_far goal applied) i (shard_degree_at goal i)"
    using t x by (auto simp: repartition_eq int_ops degrees_of_parts(2) degrees_after_def)
  with i show ?thesis
    by (intro pshape_eqI) (auto simp: degrees_after_def intro!: nth_equalityI simp: nth_list_update)
qed

lemma resharded_step_ok:
  assumes x: "x \<in> weight_ops goal - applied" and wf: "wf_degrees (get_parallel_degrees goal)"
  shows "\<exists>t. parallel_op_get_output_shape x (resharded_so_far goal applied) = Inr t"
proof (cases "x = Parallel_replicate (get_discard_copy_degree goal)")
  case True
  then show ?thesis
    using x wf by (auto simp: replicate_eq int_ops degrees_of_parts(1) [of "resharded_so_far goal applied"] degrees_after_def
      wf_degrees_def valid_pos_def shape_ops)
next
  case False
  then obtain i where i: "i < length (ptd_shard_dims (pts_dims goal))" "x = shard_op goal i"
    using x by (auto simp: weight_ops_def split: if_splits)
  then have "valid_pos (shard_degree_at goal i)" using wf by (auto simp: wf_degrees_def shape_ops shard_degree_at_def)
  with i x show ?thesis by (auto simp: repartition_eq int_ops degrees_of_parts(2) degrees_after_def valid_pos_def)
qed

section \<open>Every method keeps the invariant\<close>

abbreviation pcg_good :: "pcg_builder_state \<Rightarrow> bool" where
  "pcg_good \<equiv> good_for pcg_layer_ok"

abbreviation pcg_grows :: "pcg_builder_state \<Rightarrow> pcg_builder_state \<Rightarrow> bool" where
  "pcg_grows \<equiv> grows_for pcg_layer_ok"

abbreviation pcg_keeps :: "'a pcg_builder \<Rightarrow> bool" where
  "pcg_keeps \<equiv> keeps_for pcg_layer_ok"

lemma pcgb_get_shape_eq [simp]:
  "pcgb_get_shape t s = Inr (x, s') \<longleftrightarrow> get_parallel_tensor_shape (fst s) t = Inr x \<and> s' = s"
  by (simp add: pcgb_get_shape_def)

lemma add_parallel_layer_made:
  "add_parallel_layer l inputs weights flags s = Inr (r, s') \<Longrightarrow> snd s' = Suc (snd s)"
  by (cases s; cases s'; cases r)
    (auto simp: add_parallel_layer_eq kwarg_add_node_def open_add_node_def source_new_node_def Let_def)

lemma keeps_add_parallel_layer [keeps]:
  "pcg_keeps (add_parallel_layer l inputs weights flags)" "pcg_keeps (add_parallel_layer_output l inputs weights flags)"
proof -
  have "pcg_grows s s'" if add: "add_parallel_layer l inputs weights flags s = Inr (r, s')" for s r s'
  proof -
    obtain pcg made pcg' made' n outs where s: "s = (pcg, made)" "s' = (pcg', made')" "r = (n, outs)" by (metis surj_pair)
    have suc: "made' = Suc made" using add_parallel_layer_made [OF add] by (simp add: s)
    have "wf_kwarg_graph pcg' made' \<and> kwarg_graph.typed pcg_layer_ok pcg' \<and> kwarg_graph.extends pcg pcg'"
      if "wf_kwarg_graph pcg made" "kwarg_graph.typed pcg_layer_ok pcg" "made' \<le> 2 ^ 64"
      using add_parallel_layer_typed [OF add [unfolded s] that(1) _ that(2)] that(3) suc by auto
    then show ?thesis using suc by (auto simp: grows_for_def good_for_def s)
  qed
  then show "pcg_keeps (add_parallel_layer l inputs weights flags)" by (auto simp: keeps_for_def)
  then show "pcg_keeps (add_parallel_layer_output l inputs weights flags)"
    unfolding add_parallel_layer_output_def by (intro keeps)
qed

lemma keeps_generate_map [keeps]: "(\<And>k. keeps_for R (f k)) \<Longrightarrow> keeps_for R (b_generate_map ks f)"
  unfolding b_generate_map_def by (intro keeps)

lemma keeps_pcgb_layers [keeps]:
  "pcg_keeps (pcgb_get_shape t)" "pcg_keeps (add_parallel_op op t)" "pcg_keeps (add_weight shape init name)"
  "pcg_keeps (pcgb_add_layer l inputs inits)" "pcg_keeps (pcgb_add_layer_output l inputs inits)"
  "pcg_keeps (create_input_tensor shape' name)" "pcg_keeps (pcgb_unary_layer N attrs t name')"
  unfolding pcgb_get_shape_def add_parallel_op_def add_weight_def pcgb_add_layer_output_def pcgb_add_layer_def
    create_input_tensor_def pcgb_unary_layer_def by (intro keeps)+

lemma keeps_pcg_methods [keeps]:
  "pcg_keeps (pcgb_add N lhs rhs name)" "pcg_keeps (pcgb_cast N t dtype' name)" "pcg_keeps (pcgb_as_type N t dtype name')"
  "pcg_keeps (pcgb_conv2d N t c kh kw sh sw ph pw act groups bias kinit binit reg name)"
  "pcg_keeps (pcgb_dense N t d act bias dtype pinit binit name)"
  "pcg_keeps (pcgb_embedding N t n d aggr dtype init name)"
  "pcg_keeps (pcgb_multihead_attention N q k v d h kdim vdim dropout bias bias_kv zero winit iinit oinit name)"
  "pcg_keeps (pcgb_batch_norm N t affine act eps momentum name)"
  "pcg_keeps (pcgb_element_unary N attrs t name)" "pcg_keeps (pcgb_partition N t dim degree name)"
  "pcg_keeps (pcgb_combine N t dim degree name)" "pcg_keeps (pcgb_replicate N t degree name)"
  "pcg_keeps (pcgb_reduce N t degree name)"
  unfolding pcgb_add_def pcgb_cast_def pcgb_as_type_def pcgb_conv2d_def pcgb_dense_def pcgb_embedding_def
    pcgb_multihead_attention_def pcgb_batch_norm_def pcgb_element_unary_def pcgb_partition_def
    pcgb_combine_def pcgb_replicate_def pcgb_reduce_def by (intro keeps)+

lemma pcg_run_call_grows: "pcg_run_call N c s = Inr s' \<Longrightarrow> pcg_grows s s'"
proof -
  have call: "pcg_grows s s'" if "pcg_keeps m" "res_bind (m s) (\<lambda>r. Inr (snd r)) = Inr s'"
    for m :: "parallel_tensor_guid pcg_builder" using that by (cases s) (auto simp: keeps_for_def)
  show "pcg_run_call N c s = Inr s' \<Longrightarrow> pcg_grows s s'"
    by (cases c) (simp_all only: pcg_run_call.simps, (erule call [rotated], intro keeps)+)
qed

lemma pcg_good_empty: "pcg_good (empty_parallel_computation_graph, made)"
  by (simp add: good_for_def empty_parallel_computation_graph_def kwarg_graph.valid_emp(1) kwarg_graph.typed_emp)

lemma pcg_builder_reachable_good: "pcg_builder_reachable N s \<Longrightarrow> snd s \<le> 2 ^ 64 \<Longrightarrow> pcg_good s"
proof (induction rule: pcg_builder_reachable.induct)
  case (new made)
  show ?case by (rule pcg_good_empty)
next
  case (call s c s')
  then have g: "pcg_grows s s'" by (blast intro: pcg_run_call_grows)
  then have "snd s \<le> 2 ^ 64" using growsD(1) [OF g] call.prems by simp
  with call g show ?case by (auto intro: growsD(2))
next
  case (others pcg made made')
  then show ?case by (auto simp: good_for_def intro: wf_kwarg_graph_mono)
qed
section \<open>What a layer that was added is like\<close>

lemma pcg_shapes_at:
  "get_parallel_tensor_shape pcg t = Inr s \<Longrightarrow> t \<in> dom (okg_outputs pcg)"
  "get_parallel_tensor_shape pcg t = Inr s \<Longrightarrow>
     pshapes_of (attrs_at pcg (ts(slot \<mapsto> t))) = (pshapes_of (attrs_at pcg ts))(slot \<mapsto> s)"
  by (auto simp: parallel_tensor_shape_eq fun_eq_iff)

lemma pcg_shape_extends:
  "kwarg_graph.extends g g' \<Longrightarrow> get_parallel_tensor_shape g t = Inr s \<Longrightarrow> get_parallel_tensor_shape g' t = Inr s"
  by (auto simp: parallel_tensor_shape_eq dest: kwarg_graph.extends_value)

lemma add_parallel_layer_output_post:
  assumes run: "add_parallel_layer_output l inputs weights flags s = Inr (t, s')" and good: "pcg_good s"
    and bound: "snd s' \<le> 2 ^ 64"
  shows "snd s' = Suc (snd s) \<and> pcg_good s' \<and> kwarg_graph.extends (fst s) (fst s') \<and>
    (\<exists>shape. t = KwargDataflowOutput (snd s) Slot_OUTPUT \<and> okg_nodes (fst s') (snd s) = Some l \<and>
      incoming_outputs (fst s') (snd s) = inputs ++ weights \<and>
      pcg_get_output_shapes (pla_op_attrs l) (pshapes_of (attrs_at (fst s) inputs)) = Inr [Slot_OUTPUT \<mapsto> shape] \<and>
      get_parallel_tensor_shape (fst s') t = Inr shape)"
proof -
  from run obtain n where add: "add_parallel_layer l inputs weights flags s = Inr ((n, [Slot_OUTPUT \<mapsto> t]), s')"
    by (auto simp: add_parallel_layer_output_def container_ops)
  obtain pcg made pcg' made' where s: "s = (pcg, made)" "s' = (pcg', made')" by (metis surj_pair)
  have suc: "made' = Suc made" using add_parallel_layer_made [OF add] by (simp add: s)
  have "pcg_grows s s'" using keeps_add_parallel_layer(1) add unfolding keeps_for_def by blast
  note grown = growsD(2,3) [OF this good bound]
  have wf: "wf_kwarg_graph pcg made" "made < 2 ^ 64" "kwarg_graph.typed pcg_layer_ok pcg"
    using good bound suc by (simp_all add: good_for_def s)
  note typed = add_parallel_layer_typed [OF add [unfolded s] wf]
  then obtain out_attrs where
    os: "pcg_get_output_shapes (pla_op_attrs l) (pshapes_of (attrs_at pcg inputs)) = Inr (pshapes_of out_attrs)"
    and outs: "[Slot_OUTPUT \<mapsto> t] = (\<lambda>slot. map_option (\<lambda>_. KwargDataflowOutput made slot) (out_attrs slot))"
    and lab: "\<forall>slot. okg_outputs pcg' (KwargDataflowOutput made slot) = out_attrs slot"
    by blast
  from fun_cong [OF outs, of Slot_OUTPUT] obtain a where a: "out_attrs Slot_OUTPUT = Some a"
    and t: "t = KwargDataflowOutput made Slot_OUTPUT" by (cases "out_attrs Slot_OUTPUT") auto
  have "out_attrs slot = [Slot_OUTPUT \<mapsto> a] slot" for slot
    using fun_cong [OF outs, of slot] a by (cases "slot = Slot_OUTPUT") auto
  then have "out_attrs = [Slot_OUTPUT \<mapsto> a]" by (rule ext)
  with os have "pcg_get_output_shapes (pla_op_attrs l) (pshapes_of (attrs_at pcg inputs)) = Inr [Slot_OUTPUT \<mapsto> pta_shape a]"
    by simp
  moreover have "get_parallel_tensor_shape pcg' t = Inr (pta_shape a)" using lab a t by (simp add: parallel_tensor_shape_eq)
  ultimately show ?thesis using typed grown suc t by (simp add: s)
qed

lemma add_parallel_layer_output_succeeds:
  assumes ran: "ran inputs \<subseteq> dom (okg_outputs (fst s))" "ran weights \<subseteq> dom (okg_outputs (fst s))"
    and dis: "dom inputs \<inter> dom weights = {}"
    and ws: "pcg_get_weight_shapes (pla_op_attrs l) (pshapes_of (attrs_at (fst s) inputs)) =
      Inr (pshapes_of (attrs_at (fst s) weights))"
    and os: "pcg_get_output_shapes (pla_op_attrs l) (pshapes_of (attrs_at (fst s) inputs)) = Inr [Slot_OUTPUT \<mapsto> shape]"
    and flags: "flags = None \<or> flags = Some [Slot_OUTPUT \<mapsto> f]"
  shows "\<exists>t s'. add_parallel_layer_output l inputs weights flags s = Inr (t, s') \<and> snd s' = Suc (snd s)"
proof -
  obtain pcg made where s: "s = (pcg, made)" by (cases s)
  let ?out = "[Slot_OUTPUT \<mapsto> \<lparr> pta_shape = shape, pta_create_grad = (if flags = None then Create_grad_YES else f) \<rparr>]"
  have "flags_ok flags (map_option pta_create_grad \<circ> ?out)" using flags by (auto simp: flags_ok_def fun_eq_iff)
  then obtain n outs pcg' made' where add: "add_parallel_layer l inputs weights flags (pcg, made) = Inr ((n, outs), pcg', made')"
    using add_parallel_layer_succeeds [of inputs pcg weights l ?out flags made] assms by (auto simp: s)
  then obtain out_attrs where at: "pshapes_of out_attrs = [Slot_OUTPUT \<mapsto> shape]"
    and "kwarg_add_node l (inputs ++ weights) out_attrs pcg made = ((n, outs), pcg', made')"
    unfolding add_parallel_layer_eq using os by (auto simp: s)
  then have outs: "outs = (\<lambda>slot. map_option (\<lambda>_. KwargDataflowOutput n slot) (out_attrs slot))" and suc: "made' = Suc made"
    by (auto simp: kwarg_add_node_def open_add_node_def source_new_node_def Let_def)
  have "map_option (\<lambda>_. KwargDataflowOutput n slot) (out_attrs slot) = [Slot_OUTPUT \<mapsto> KwargDataflowOutput n Slot_OUTPUT] slot" for slot
    using fun_cong [OF at, of slot] by (cases "out_attrs slot"; cases "slot = Slot_OUTPUT") auto
  then have "outs = [Slot_OUTPUT \<mapsto> KwargDataflowOutput n Slot_OUTPUT]" unfolding outs by (rule ext)
  with add suc show ?thesis by (auto simp: add_parallel_layer_output_def container_ops s)
qed

section \<open>Adding a weight\<close>

lemma parallel_op_shapes:
  "pcg_get_output_shapes (pcg_op_attrs_from_parallel_op_attrs x) [Slot_INPUT \<mapsto> s] = Inr [Slot_OUTPUT \<mapsto> t] \<longleftrightarrow>
     parallel_op_get_output_shape x s = Inr t"
  "pcg_get_weight_shapes (pcg_op_attrs_from_parallel_op_attrs x) [Slot_INPUT \<mapsto> s] = Inr Map.empty"
  by (cases x; simp add: unary_output_eq container_ops)+

lemma add_parallel_op_post:
  assumes run: "add_parallel_op x c s = Inr (t, s')" and good: "pcg_good s" and bound: "snd s' \<le> 2 ^ 64"
    and shape: "get_parallel_tensor_shape (fst s) c = Inr sh"
  shows "snd s' = Suc (snd s) \<and> pcg_good s' \<and> kwarg_graph.extends (fst s) (fst s') \<and>
    (\<exists>sh'. parallel_op_get_output_shape x sh = Inr sh' \<and> get_parallel_tensor_shape (fst s') t = Inr sh')"
proof -
  have at: "pshapes_of (attrs_at (fst s) [Slot_INPUT \<mapsto> c]) = [Slot_INPUT \<mapsto> sh]"
    using pcg_shapes_at(2) [OF shape, of Map.empty] by simp
  from add_parallel_layer_output_post [OF run [unfolded add_parallel_op_def] good bound]
  show ?thesis by (auto simp: at parallel_op_shapes)
qed

lemma add_parallel_op_succeeds:
  assumes shape: "get_parallel_tensor_shape (fst s) c = Inr sh" and out: "parallel_op_get_output_shape x sh = Inr sh'"
  shows "\<exists>t s'. add_parallel_op x c s = Inr (t, s') \<and> snd s' = Suc (snd s)"
proof -
  have at: "pshapes_of (attrs_at (fst s) [Slot_INPUT \<mapsto> c]) = [Slot_INPUT \<mapsto> sh]"
    using pcg_shapes_at(2) [OF shape, of Map.empty] by simp
  show ?thesis unfolding add_parallel_op_def
    by (rule add_parallel_layer_output_succeeds [where shape = sh'])
      (use pcg_shapes_at(1) [OF shape] out in \<open>simp_all add: at parallel_op_shapes\<close>)
qed

lemma add_parallel_ops_post:
  assumes "b_fold add_parallel_op xs c s = Inr (t, s')" and "pcg_good s" and "snd s' \<le> 2 ^ 64"
    and "get_parallel_tensor_shape (fst s) c = Inr (resharded_so_far goal applied)"
    and "distinct xs" and "set xs \<subseteq> weight_ops goal - applied"
  shows "snd s' = snd s + length xs \<and> pcg_good s' \<and> kwarg_graph.extends (fst s) (fst s') \<and>
    get_parallel_tensor_shape (fst s') t = Inr (resharded_so_far goal (applied \<union> set xs))"
  using assms
proof (induction xs arbitrary: c s applied)
  case (Cons x xs)
  then obtain c1 s1 where step: "add_parallel_op x c s = Inr (c1, s1)" and rest: "b_fold add_parallel_op xs c1 s1 = Inr (t, s')"
    by auto
  have "pcg_keeps (b_fold add_parallel_op xs c1)" by (intro keeps)
  then have "snd s1 \<le> snd s'" using rest growsD(1) unfolding keeps_for_def by blast
  then have b1: "snd s1 \<le> 2 ^ 64" using Cons.prems(3) by simp
  have x: "x \<in> weight_ops goal - applied" using Cons.prems(6) by simp
  from add_parallel_op_post [OF step Cons.prems(2) b1 Cons.prems(4)] resharded_step [OF x]
  have one: "snd s1 = Suc (snd s)" "pcg_good s1" "kwarg_graph.extends (fst s) (fst s1)"
    "get_parallel_tensor_shape (fst s1) c1 = Inr (resharded_so_far goal (insert x applied))" by blast+
  have "set xs \<subseteq> weight_ops goal - insert x applied" using Cons.prems(5,6) by auto
  from Cons.IH [OF rest one(2) Cons.prems(3) one(4) _ this] Cons.prems(5) one(1,3)
  show ?case by (auto intro: kwarg_graph.extends_trans)
qed (auto simp: kwarg_graph.extends_refl)

lemma add_parallel_ops_succeed:
  assumes "pcg_good s" and "snd s + length xs \<le> 2 ^ 64" and wf: "wf_degrees (get_parallel_degrees goal)"
    and "get_parallel_tensor_shape (fst s) c = Inr (resharded_so_far goal applied)"
    and "distinct xs" and "set xs \<subseteq> weight_ops goal - applied"
  shows "\<exists>r. b_fold add_parallel_op xs c s = Inr r"
  using assms
proof (induction xs arbitrary: c s applied)
  case (Cons x xs)
  have x: "x \<in> weight_ops goal - applied" using Cons.prems(6) by simp
  from resharded_step_ok [OF x wf] obtain sh where "parallel_op_get_output_shape x (resharded_so_far goal applied) = Inr sh"
    by blast
  from add_parallel_op_succeeds [OF Cons.prems(4) this] obtain c1 s1
    where step: "add_parallel_op x c s = Inr (c1, s1)" and made: "snd s1 = Suc (snd s)" by blast
  have b1: "snd s1 \<le> 2 ^ 64" using Cons.prems(2) made by simp
  from add_parallel_op_post [OF step Cons.prems(1) b1 Cons.prems(4)] resharded_step [OF x]
  have one: "pcg_good s1" "get_parallel_tensor_shape (fst s1) c1 = Inr (resharded_so_far goal (insert x applied))" by blast+
  have "set xs \<subseteq> weight_ops goal - insert x applied" using Cons.prems(5,6) by auto
  from Cons.IH [OF one(1) _ wf one(2) _ this] Cons.prems(2,5) made obtain r where "b_fold add_parallel_op xs c1 s1 = Inr r" by auto
  with step have "b_fold add_parallel_op (x # xs) c s = Inr r" by (simp add: b_bind_def)
  then show ?case by blast
qed (simp add: b_return_def)

lemma weight_layer_shapes:
  "pcg_get_weight_shapes (PCG_weight a) Map.empty = Inr Map.empty"
  "pcg_get_output_shapes (PCG_weight a) Map.empty = Inr [Slot_OUTPUT \<mapsto> shape] \<longleftrightarrow> lift_to_parallel (weight_tensor_shape a) = Inr shape"
  by (auto simp: source_output_eq weight_get_output_parallel_tensor_shape_def)

lemma mk_parallel_layer_attrs_op: "mk_parallel_layer_attrs op name = Inr l \<Longrightarrow> pla_op_attrs l = op"
  by (auto simp: mk_parallel_layer_attrs_def)

lemma add_weight_post:
  assumes run: "add_weight goal init name s = Inr (t, s')" and good: "pcg_good s" and bound: "snd s' \<le> 2 ^ 64"
  shows "get_sum_degree goal = 1 \<and> snd s' = Suc (snd s + card (weight_ops goal)) \<and> pcg_good s' \<and>
    kwarg_graph.extends (fst s) (fst s') \<and> get_parallel_tensor_shape (fst s') t = Inr goal"
proof -
  let ?a = "\<lparr> weight_tensor_shape = get_reduced_shape goal, weight_initializer = init \<rparr>"
  let ?xs = "sorted_list_of_set (weight_ops goal)"
  from run obtain l c s1 where l: "pla_op_attrs l = PCG_weight ?a"
    and first: "add_parallel_layer_output l Map.empty Map.empty None s = Inr (c, s1)"
    and sum: "get_sum_degree goal = 1" and rest: "b_fold add_parallel_op ?xs c s1 = Inr (t, s')"
    by (auto simp: add_weight_def Let_def generate_weight_transform_eq dest: mk_parallel_layer_attrs_op)
  have "pcg_keeps (b_fold add_parallel_op ?xs c)" by (intro keeps)
  then have "snd s1 \<le> snd s'" using rest growsD(1) unfolding keeps_for_def by blast
  then have b1: "snd s1 \<le> 2 ^ 64" using bound by simp
  from add_parallel_layer_output_post [OF first good b1] obtain sh where
    one: "snd s1 = Suc (snd s)" "pcg_good s1" "kwarg_graph.extends (fst s) (fst s1)"
    and "pcg_get_output_shapes (PCG_weight ?a) Map.empty = Inr [Slot_OUTPUT \<mapsto> sh]" "get_parallel_tensor_shape (fst s1) c = Inr sh"
    by (auto simp: l)
  then have "get_parallel_tensor_shape (fst s1) c = Inr (resharded_so_far goal {})"
    using resharded_none [of goal] unfolding weight_layer_shapes(2) by (auto simp: lift_to_parallel_eq)
  from add_parallel_ops_post [OF rest one(2) bound this] finite_weight_ops [of goal] resharded_all [OF sum] sum one
  show ?thesis by (auto intro: kwarg_graph.extends_trans)
qed

text \<open>The weight layer, and what is left to do after it.\<close>

lemma add_weight_layer:
  assumes good: "pcg_good s" and bound: "snd s < 2 ^ 64" and dims: "length (ptd_shard_dims (pts_dims goal)) \<le> MAX_TENSOR_DIM"
  shows "\<exists>c s1. snd s1 = Suc (snd s) \<and> pcg_good s1 \<and>
    get_parallel_tensor_shape (fst s1) c = Inr (resharded_so_far goal {}) \<and>
    add_weight goal init None s = b_bind (b_lift (generate_weight_transform (get_reduced_shape goal) goal))
      (\<lambda>transform. b_fold add_parallel_op (sorted_list_of_set transform) c) s1"
proof -
  let ?a = "\<lparr> weight_tensor_shape = get_reduced_shape goal, weight_initializer = init \<rparr>"
  let ?l = "\<lparr> pla_op_attrs = PCG_weight ?a, pla_name = None \<rparr>"
  have none: "lift_to_parallel (get_reduced_shape goal) = Inr (resharded_so_far goal {})"
    using resharded_none [of goal] dims by (simp add: shape_ops)
  have "\<exists>c s1. add_parallel_layer_output ?l Map.empty Map.empty None s = Inr (c, s1) \<and> snd s1 = Suc (snd s)"
    by (rule add_parallel_layer_output_succeeds [where shape = "resharded_so_far goal {}"])
      (simp_all add: weight_layer_shapes none del: pcg_get_weight_shapes.simps pcg_get_output_shapes.simps)
  then obtain c s1 where first: "add_parallel_layer_output ?l Map.empty Map.empty None s = Inr (c, s1)" and made: "snd s1 = Suc (snd s)"
    by blast
  have "snd s1 \<le> 2 ^ 64" using bound made by simp
  from add_parallel_layer_output_post [OF first good this] none
  have "pcg_good s1" "get_parallel_tensor_shape (fst s1) c = Inr (resharded_so_far goal {})"
    by (auto simp: weight_layer_shapes simp del: pcg_get_output_shapes.simps)
  moreover have "add_weight goal init None s = b_bind (b_lift (generate_weight_transform (get_reduced_shape goal) goal))
      (\<lambda>transform. b_fold add_parallel_op (sorted_list_of_set transform) c) s1"
    using first by (cases s1)
      (simp add: add_weight_def Let_def mk_parallel_layer_attrs_def optional_stack_string_def b_bind_def b_lift_def)
  ultimately show ?thesis using made by blast
qed

lemma add_weight_partial_sum:
  assumes "pcg_good s" and "snd s < 2 ^ 64" and "length (ptd_shard_dims (pts_dims goal)) \<le> MAX_TENSOR_DIM"
    and "get_sum_degree goal \<noteq> 1"
  shows "add_weight goal init None s = Inl Assertion_failed"
proof -
  have "generate_weight_transform current goal = Inl Assertion_failed" for current
    using assms(4) by (simp add: generate_weight_transform_def Let_def)
  with add_weight_layer [OF assms(1-3), of init] show ?thesis by (auto simp: b_bind_def b_lift_def)
qed

lemma add_weight_succeeds:
  assumes good: "pcg_good s" and bound: "snd s + card (weight_ops goal) < 2 ^ 64" and sum: "get_sum_degree goal = 1"
    and wf: "wf_degrees (get_parallel_degrees goal)" and dims: "length (ptd_shard_dims (pts_dims goal)) \<le> MAX_TENSOR_DIM"
  shows "\<exists>t s'. add_weight goal init None s = Inr (t, s')"
proof -
  have b: "snd s < 2 ^ 64" using bound by simp
  let ?xs = "sorted_list_of_set (weight_ops goal)"
  obtain c s1 where one: "snd s1 = Suc (snd s)" "pcg_good s1" "get_parallel_tensor_shape (fst s1) c = Inr (resharded_so_far goal {})"
    and rest: "add_weight goal init None s = b_bind (b_lift (generate_weight_transform (get_reduced_shape goal) goal))
      (\<lambda>transform. b_fold add_parallel_op (sorted_list_of_set transform) c) s1"
    using add_weight_layer [OF good b dims] by blast
  have "\<exists>r. b_fold add_parallel_op ?xs c s1 = Inr r"
    by (rule add_parallel_ops_succeed [OF one(2) _ wf one(3)]) (use bound one(1) finite_weight_ops [of goal] in auto)
  moreover have "generate_weight_transform (get_reduced_shape goal) goal = Inr (weight_ops goal)"
    using sum by (simp add: generate_weight_transform_eq)
  ultimately show ?thesis unfolding rest by (auto simp: b_bind_def b_lift_def)
qed

text \<open>The number of nodes a weight takes.\<close>

lemma card_weight_ops:
  "card (weight_ops goal) = (if get_discard_copy_degree goal = 1 then 0 else 1) +
     card {i. i < length (ptd_shard_dims (pts_dims goal)) \<and> shard_degree_at goal i \<noteq> 1}" (is "_ = _ + card ?I")
  "card (weight_ops goal) \<le> 1 + length (ptd_shard_dims (pts_dims goal))"
proof -
  have "card (shard_op goal ` ?I) = card ?I" by (rule card_image) (auto simp: inj_on_def)
  then show "card (weight_ops goal) = (if get_discard_copy_degree goal = 1 then 0 else 1) + card ?I"
    unfolding weight_ops_def by (subst card_Un_disjoint) auto
  moreover have "card ?I \<le> card {..<length (ptd_shard_dims (pts_dims goal))}" by (rule card_mono) auto
  ultimately show "card (weight_ops goal) \<le> 1 + length (ptd_shard_dims (pts_dims goal))" by simp
qed

lemma add_parallel_ops_made:
  "b_fold add_parallel_op xs c s = Inr (t, s') \<Longrightarrow> snd s' = snd s + length xs"
  by (induction xs arbitrary: c s)
    (auto simp: add_parallel_op_def add_parallel_layer_output_def dest!: add_parallel_layer_made)

lemma add_weight_made:
  "add_weight goal init name s = Inr (t, s') \<Longrightarrow> snd s' = Suc (snd s + card (weight_ops goal))"
  using finite_weight_ops [of goal]
  by (auto simp: add_weight_def Let_def generate_weight_transform_eq add_parallel_layer_output_def
      dest!: add_parallel_ops_made add_parallel_layer_made)
section \<open>Adding a layer with its weights\<close>

lemma pcgb_add_layer_weights:
  assumes "pcgb_add_layer_output l inputs inits s = Inr r"
  shows "\<exists>ws. pcg_get_weight_shapes (pla_op_attrs l) (pshapes_of (attrs_at (fst s) inputs)) = Inr ws \<and>
    dom ws = dom inits \<and> (\<forall>w \<in> ran ws. get_sum_degree w = 1)"
proof -
  from assms obtain ws tensors s1 where
    ws: "pcg_get_weight_shapes (pla_op_attrs l) (pshapes_of (attrs_at (fst s) inputs)) = Inr ws" "dom ws = dom inits"
    and made: "b_generate_map (dom ws) (\<lambda>slot. add_weight (the (ws slot)) (the (inits slot)) None) s = Inr (tensors, s1)"
    by (cases r) (auto simp: pcgb_add_layer_output_def pcgb_add_layer_def map_values_pshapes)
  have "get_sum_degree w = 1" if "ws slot = Some w" for slot w
  proof -
    have "\<exists>s2 v s3. add_weight w (the (inits slot)) None s2 = Inr (v, s3)"
      using b_generate_map_calls [OF made _ finite_slots, of slot] that by auto
    then show ?thesis by (auto simp: add_weight_def Let_def generate_weight_transform_eq)
  qed
  with ws show ?thesis by (auto simp: ran_def)
qed

section \<open>A builder with inputs\<close>

lemma create_input_tensor_builds:
  assumes good: "pcg_good s" and bound: "snd s < 2 ^ 64" and dims: "length (ts_dims shape) \<le> MAX_TENSOR_DIM"
  shows "\<exists>t s' lifted. create_input_tensor shape None s = Inr (t, s') \<and> snd s' = Suc (snd s) \<and>
    t = KwargDataflowOutput (snd s) Slot_OUTPUT \<and> lift_to_parallel shape = Inr lifted \<and>
    get_parallel_tensor_shape (fst s') t = Inr lifted \<and> kwarg_graph.extends (fst s) (fst s') \<and>
    get_parallel_layer_attrs (fst s') (snd s) = Inr \<lparr> pla_op_attrs = PCG_input shape, pla_name = None \<rparr>"
proof -
  let ?l = "\<lparr> pla_op_attrs = PCG_input shape, pla_name = None \<rparr>"
  obtain lifted where lifted: "lift_to_parallel shape = Inr lifted" using dims by (simp add: lift_to_parallel_eq)
  have ws: "pcg_get_weight_shapes (PCG_input shape) Map.empty = Inr Map.empty"
    and os: "pcg_get_output_shapes (PCG_input shape) Map.empty = Inr [Slot_OUTPUT \<mapsto> lifted]"
    using lifted by (simp_all add: source_output_eq input_get_output_parallel_tensor_shape_def)
  have "\<exists>t s'. add_parallel_layer_output ?l Map.empty Map.empty (Some [Slot_OUTPUT \<mapsto> Create_grad_NO]) s = Inr (t, s') \<and>
      snd s' = Suc (snd s)"
    by (rule add_parallel_layer_output_succeeds [where shape = lifted])
      (simp_all add: ws os del: pcg_get_weight_shapes.simps pcg_get_output_shapes.simps)
  then obtain t s' where run: "add_parallel_layer_output ?l Map.empty Map.empty (Some [Slot_OUTPUT \<mapsto> Create_grad_NO]) s = Inr (t, s')"
    and made: "snd s' = Suc (snd s)" by blast
  from add_parallel_layer_output_post [OF run good] bound made os lifted
  have "t = KwargDataflowOutput (snd s) Slot_OUTPUT \<and> get_parallel_tensor_shape (fst s') t = Inr lifted \<and>
      kwarg_graph.extends (fst s) (fst s') \<and> get_parallel_layer_attrs (fst s') (snd s) = Inr ?l"
    by (auto simp: get_parallel_layer_attrs_def node_label_at_def simp del: pcg_get_output_shapes.simps)
  moreover have "create_input_tensor shape None s = Inr (t, s')"
    using run by (cases s') (simp add: create_input_tensor_def mk_parallel_layer_attrs_def optional_stack_string_def)
  ultimately show ?thesis using made lifted by blast
qed

lemma pcg_with_input:
  assumes "lift_to_parallel shape = Inr lifted"
  shows "\<exists>pcg. pcg_builder_reachable N (pcg, 1) \<and>
    get_parallel_tensor_shape pcg (KwargDataflowOutput 0 Slot_OUTPUT) = Inr lifted \<and>
    get_parallel_layer_attrs pcg 0 = Inr \<lparr> pla_op_attrs = PCG_input shape, pla_name = None \<rparr>"
proof -
  have dims: "length (ts_dims shape) \<le> MAX_TENSOR_DIM" using assms by (simp add: lift_to_parallel_eq)
  from create_input_tensor_builds [OF pcg_good_empty [of 0] _ dims] assms obtain s' where
    new: "create_input_tensor shape None (empty_parallel_computation_graph, 0) = Inr (KwargDataflowOutput 0 Slot_OUTPUT, s')"
      "snd s' = 1" "get_parallel_tensor_shape (fst s') (KwargDataflowOutput 0 Slot_OUTPUT) = Inr lifted"
      "get_parallel_layer_attrs (fst s') 0 = Inr \<lparr> pla_op_attrs = PCG_input shape, pla_name = None \<rparr>" by auto
  have "pcg_run_call N (PCall_create_input_tensor shape None) (empty_parallel_computation_graph, 0) = Inr s'"
    using new(1) by simp
  from pcg_builder_reachable.call [OF pcg_builder_reachable.new this] new show ?thesis
    by (intro exI [of _ "fst s'"]) (cases s'; simp)
qed

lemma pcg_outgoing_output:
  assumes "wf_kwarg_graph pcg made" and "get_parallel_tensor_shape pcg (KwargDataflowOutput n slot) = Inr s"
  shows "pcg_get_outgoing_tensors pcg n slot = Some (KwargDataflowOutput n slot)"
  using pcg_shapes_at(1) [OF assms(2)]
  by (auto simp: pcg_get_outgoing_tensors_def outgoing_outputs_eq [OF wf_kwarg_graphD(3) [OF assms(1)]])

lemma only_input_tensor:
  assumes "create_input shape flag None (make_empty_computation_graph, 0) = Inr (t, cg, made)" and "cg_shape cg u = Inr s"
  shows "s = shape"
proof -
  from assms(1) obtain out_attrs where at: "shapes_of out_attrs = [Slot_OUTPUT \<mapsto> shape]"
    and outs: "okg_outputs cg = (\<lambda>o'. if kdo_node o' = 0 then out_attrs (kdo_slot_name o') else None)"
    by (auto simp: create_input_def add_layer_def add_layer_using_eq cg_add_layer_eq kwarg_add_node_def open_add_node_def
      source_new_node_def new_node_def make_empty_computation_graph_def empty_open_kwarg_graph_def Let_def
      source_output_eq input_get_output_shape_def dest!: mk_layer_attrs_op)
  show ?thesis using assms(2) fun_cong [OF at, of "kdo_slot_name u"] by (auto simp: cg_shape_eq outs split: if_splits)
qed

section \<open>Properties\<close>

text \<open>
  Claim C10. Every graph the builder of parallel graphs makes is well typed: for every layer the tensors that
  come in as inputs and as weights can be read, parallel shape inference gives from the shapes of the inputs
  the shapes of the layer's outputs, and parallel weight inference the shapes of its weights. The methods may
  be called in any order with any arguments; fewer than 2 to the 64 nodes are made in all.
\<close>

theorem pcg_builder_graphs_well_typed:
  assumes "pcg_builder_reachable op_name (pcg, made)" and "made \<le> 2 ^ 64" and "get_parallel_layer_attrs pcg n = Inr l"
  shows "\<exists>inputs weights in_shapes weight_shapes out_shapes.
    pcg_get_incoming_inputs pcg n = Inr inputs \<and> pcg_get_incoming_weights pcg n = Inr weights \<and>
    dom inputs \<inter> dom weights = {} \<and> pcg_get_incoming_tensors pcg n = inputs ++ weights \<and>
    map_values (get_parallel_tensor_shape pcg) inputs = Inr in_shapes \<and>
    map_values (get_parallel_tensor_shape pcg) weights = Inr weight_shapes \<and>
    map_values (get_parallel_tensor_shape pcg) (pcg_get_outgoing_tensors pcg n) = Inr out_shapes \<and>
    pcg_get_output_shapes (pla_op_attrs l) in_shapes = Inr out_shapes \<and>
    pcg_get_weight_shapes (pla_op_attrs l) in_shapes = Inr weight_shapes"
proof -
  have "pcg_good (pcg, made)" using pcg_builder_reachable_good [OF assms(1)] assms(2) by simp
  then have "wf_kwarg_graph pcg made" "kwarg_graph.typed pcg_layer_ok pcg" by (simp_all add: good_for_def)
  moreover have "okg_nodes pcg n = Some l" using assms(3) by (simp add: get_parallel_layer_attrs_def node_label_at_def)
  ultimately show ?thesis using pcg_typed_layer unfolding map_values_pshapes by blast
qed

theorem pcg_builder_graphs_well_typed_witness:
  "\<exists>pcg n l out_shapes. pcg_builder_reachable (\<lambda>_. ''op'') (pcg, 1) \<and> get_parallel_layer_attrs pcg n = Inr l \<and>
     map_values (get_parallel_tensor_shape pcg) (pcg_get_outgoing_tensors pcg n) = Inr out_shapes"
proof -
  have "lift_to_parallel (TensorShape [8, 16] FLOAT) = Inr (ParallelTensorShape (ParallelTensorDims
      [ShardParallelDim 8 1, ShardParallelDim 16 1] (ReplicaParallelDimSet 1 1)) FLOAT)" by code_simp
  from pcg_with_input [OF this] obtain pcg l where pcg: "pcg_builder_reachable (\<lambda>_. ''op'') (pcg, 1)"
    "get_parallel_layer_attrs pcg 0 = Inr l" by blast
  from pcg_builder_graphs_well_typed [OF pcg(1) _ pcg(2)] pcg show ?thesis by fastforce
qed

text \<open>
  Claim C12. A weight is created with exactly the parallel shape that was asked for, by one weight layer and one
  parallel operator for every degree other than 1, unless it is to be a partial sum: then the method stops. The
  shape has valid degrees and at most as many dimensions as a tensor has.
\<close>

theorem add_weight_shards_weight:
  assumes "pcg_builder_reachable op_name s"
    and "snd s + 2 + length (ptd_shard_dims (pts_dims shape)) < 2 ^ 64"
    and "wf_degrees (get_parallel_degrees shape)"
    and "length (ptd_shard_dims (pts_dims shape)) \<le> MAX_TENSOR_DIM"
  shows "if get_sum_degree shape = 1
    then \<exists>t s'. add_weight shape initializer None s = Inr (t, s') \<and>
      get_parallel_tensor_shape (fst s') t = Inr shape \<and>
      snd s' = snd s + 1 + (if get_discard_copy_degree shape = 1 then 0 else 1) +
        card {i. i < length (ptd_shard_dims (pts_dims shape)) \<and> spd_degree (ptd_shard_dims (pts_dims shape) ! i) \<noteq> 1} \<and>
      kwarg_graph.extends (fst s) (fst s')
    else add_weight shape initializer None s = Inl Assertion_failed"
proof -
  have bound: "snd s + card (weight_ops shape) < 2 ^ 64" "Suc (snd s + card (weight_ops shape)) \<le> 2 ^ 64"
    using assms(2) card_weight_ops(2) [of shape] by simp_all
  have good: "pcg_good s" using pcg_builder_reachable_good [OF assms(1)] assms(2) by simp
  show ?thesis
  proof (cases "get_sum_degree shape = 1")
    case True
    then obtain t s' where run: "add_weight shape initializer None s = Inr (t, s')"
      using add_weight_succeeds [OF good bound(1) True assms(3,4)] by blast
    with add_weight_made [OF run] add_weight_post [OF run good] bound(2) True card_weight_ops(1) [of shape] show ?thesis
      by (auto simp: shard_degree_at_def)
  next
    case False
    then show ?thesis using add_weight_partial_sum [OF good] bound(1) assms(4) by simp
  qed
qed
theorem add_weight_shards_weight_witness:
  "\<exists>t s'. add_weight (ParallelTensorShape (ParallelTensorDims [ShardParallelDim 8 2, ShardParallelDim 16 1]
       (ReplicaParallelDimSet 1 3)) FLOAT) (Init_glorot_uniform 0) None (empty_parallel_computation_graph, 0) = Inr (t, s') \<and> snd s' = 3"
proof -
  let ?s = "ParallelTensorShape (ParallelTensorDims [ShardParallelDim 8 2, ShardParallelDim 16 1] (ReplicaParallelDimSet 1 3)) FLOAT"
  have "{i. i < length (ptd_shard_dims (pts_dims ?s)) \<and> spd_degree (ptd_shard_dims (pts_dims ?s) ! i) \<noteq> 1} = {0}"
    by (rule set_eqI, case_tac x; case_tac "x - 1") auto
  moreover have d: "get_sum_degree ?s = 1" "get_discard_copy_degree ?s = 3" by code_simp+
  moreover have "wf_degrees (get_parallel_degrees ?s)" using d by (simp add: wf_degrees_def valid_pos_def shape_ops INT_MAX_def)
  ultimately show ?thesis
    using add_weight_shards_weight [OF pcg_builder_reachable.new [of "\<lambda>_. ''op''" 0], of ?s "Init_glorot_uniform 0"]
    by (auto simp: MAX_TENSOR_DIM_def)
qed

text \<open>
  Claim C26. A linear layer with a bias cannot be built on an input that is a partial sum or that is sharded over
  its channels: \<open>dense\<close> returns with \<open>use_bias\<close> only when the input has sum degree 1 and the last of its
  dimensions has degree 1. In the other cases shape inference wants a bias that is a partial sum, which
  \<open>generate_weight_transform\<close> refuses, although inference accepts the layer.
\<close>

theorem pcg_dense_with_bias_needs_whole_channels:
  assumes "get_parallel_tensor_shape (fst s) input = Inr shape"
    and "ptd_shard_dims (pts_dims shape) \<noteq> []"
    and "get_sum_degree shape * spd_degree (last (ptd_shard_dims (pts_dims shape))) \<noteq> 1"
  shows "pcgb_dense op_name input d activation True dtype projection bias name s \<noteq> Inr r"
proof
  let ?a = "\<lparr> linear_out_channels = d, linear_use_bias = True, linear_data_type = dtype, linear_activation = activation,
    linear_regularizer = None \<rparr>"
  assume "pcgb_dense op_name input d activation True dtype projection bias name s = Inr r"
  then obtain l inits where l: "pla_op_attrs l = PCG_linear ?a"
    and add: "pcgb_add_layer_output l [Slot_INPUT \<mapsto> input] inits s = Inr r"
    by (cases r) (auto simp: pcgb_dense_def Let_def pcgb_layer_def dest: mk_parallel_layer_attrs_op)
  from pcgb_add_layer_weights [OF add] obtain ws where
    "linear_get_weight_parallel_shapes ?a shape = Inr ws" and one: "\<forall>w \<in> ran ws. get_sum_degree w = 1"
    using pcg_shapes_at(2) [OF assms(1), of Map.empty] by (auto simp: l container_ops)
  then obtain b where b: "linear_get_bias_parallel_shape ?a shape = Inr b" and "ws Slot_BIAS = Some b"
    by (auto simp: linear_get_weight_parallel_shapes_def)
  with one have "get_sum_degree b = 1" by (auto simp: ran_def)
  moreover have "get_sum_degree b = get_sum_degree shape * spd_degree (last (ptd_shard_dims (pts_dims shape)))"
    using b assms(2) by (auto simp: linear_bias.par_eq linear_degree_eqs shape_ops int_ops last_map)
  ultimately show False using assms(3) by simp
qed

theorem pcg_dense_with_bias_needs_whole_channels_witness:
  "\<exists>pcg made t shape. get_parallel_tensor_shape pcg t = Inr shape \<and>
     (\<forall>r. pcgb_dense (\<lambda>_. ''op'') t 4 None True FLOAT None None None (pcg, made) \<noteq> Inr r)"
proof -
  let ?s = "ParallelTensorShape (ParallelTensorDims [ShardParallelDim 8 1, ShardParallelDim 16 2] (ReplicaParallelDimSet 1 1)) FLOAT"
  have "card (weight_ops ?s) \<le> 3" using card_weight_ops(2) [of ?s] by (simp add: shape_ops)
  then have n: "snd (empty_parallel_computation_graph, 0 :: nat) + card (weight_ops ?s) < 2 ^ 64" by simp
  have d: "get_sum_degree ?s = 1" "get_discard_copy_degree ?s = 1" by code_simp+
  then have "wf_degrees (get_parallel_degrees ?s)" "length (ptd_shard_dims (pts_dims ?s)) \<le> MAX_TENSOR_DIM"
    by (simp_all add: wf_degrees_def valid_pos_def shape_ops INT_MAX_def MAX_TENSOR_DIM_def)
  from add_weight_succeeds [OF pcg_good_empty n d(1) this] obtain t pcg made where
    run: "add_weight ?s (Init_glorot_uniform 0) None (empty_parallel_computation_graph, 0) = Inr (t, pcg, made)"
    by (metis surj_pair)
  from add_weight_post [OF run pcg_good_empty] add_weight_made [OF run] n
  have "get_parallel_tensor_shape pcg t = Inr ?s" by simp
  with pcg_dense_with_bias_needs_whole_channels [of "(pcg, made)" t ?s] show ?thesis by (fastforce simp: shape_ops)
qed

text \<open>
  Claim C11. The task space of every layer of a built parallel graph that has an output in slot \<open>OUTPUT\<close> of total
  parallel degree \<open>k\<close>. For the operators with an implemented task space (element-wise unary and binary, Linear,
  Transpose, inputs and weights) \<open>get_operator_task_space\<close>, which looks only at the degrees of the
  inputs, returns one of \<open>k\<close> tasks with \<open>k\<close> coordinates: a task for every device of the output. For
  the other operators of a computation graph it panics, and for a parallel operator its assertion fails.
\<close>

theorem pcg_layer_tasks_match_output:
  assumes "pcg_builder_reachable op_name (pcg, made)" and "made \<le> 2 ^ 64" and "get_parallel_layer_attrs pcg n = Inr l"
    and "pcg_get_outgoing_tensors pcg n Slot_OUTPUT = Some t" and "get_parallel_tensor_shape pcg t = Inr s"
    and "get_total_parallel_degree s = Inr k" and "length (ptd_shard_dims (pts_dims s)) \<le> INT_MAX"
  shows "case compgraph_op_attrs_from_pcg_op_attrs (pla_op_attrs l) of
      None \<Rightarrow> pcg_get_operator_task_space pcg n = Inl Assertion_failed
    | Some op \<Rightarrow>
        if task_space_implemented op
        then \<exists>task_space. pcg_get_operator_task_space pcg n = Inr task_space \<and> num_tasks task_space = Inr k \<and>
          card (get_task_space_coordinates task_space) = k
        else pcg_get_operator_task_space pcg n = Inl Panicked"
proof (cases "compgraph_op_attrs_from_pcg_op_attrs (pla_op_attrs l)")
  case None
  then have "pcg_is_parallel_op (pla_op_attrs l)" by (cases "pla_op_attrs l") simp_all
  with None assms(3) show ?thesis
    by (simp add: pcg_get_operator_task_space_def pcg_get_op_attrs_def require_def)
next
  case (Some op)
  have "pcg_good (pcg, made)" using pcg_builder_reachable_good [OF assms(1)] assms(2) by simp
  then have wf: "wf_kwarg_graph pcg made" "kwarg_graph.typed pcg_layer_ok pcg" by (simp_all add: good_for_def)
  have l: "okg_nodes pcg n = Some l" using assms(3) by (simp add: get_parallel_layer_attrs_def node_label_at_def)
  from pcg_task_space_eq [OF wf l Some] obtain m where
    os: "pcg_get_output_shapes (pcg_op_attrs_from_compgraph_op_attrs op) m =
      Inr (pshapes_of (attrs_at pcg (pcg_get_outgoing_tensors pcg n)))"
    and eq: "pcg_get_operator_task_space pcg n = get_operator_task_space op (degrees_of_slots m)" by blast
  have "pshapes_of (attrs_at pcg (pcg_get_outgoing_tensors pcg n)) Slot_OUTPUT = Some s"
    using assms(4,5) by (auto simp: attrs_at_def parallel_tensor_shape_eq)
  from task_space_of_output [OF os this assms(6,7)] Some show ?thesis by (simp only: eq option.case)
qed

theorem pcg_layer_tasks_match_output_witness:
  "\<exists>pcg task_space. pcg_builder_reachable (\<lambda>_. ''op'') (pcg, 1) \<and> pcg_get_operator_task_space pcg 0 = Inr task_space \<and>
     num_tasks task_space = Inr 1"
proof -
  let ?s = "ParallelTensorShape (ParallelTensorDims [ShardParallelDim 8 1, ShardParallelDim 16 1] (ReplicaParallelDimSet 1 1)) FLOAT"
  have "lift_to_parallel (TensorShape [8, 16] FLOAT) = Inr ?s" and deg: "get_total_parallel_degree ?s = Inr 1" by code_simp+
  from pcg_with_input [OF this(1)] obtain pcg where pcg: "pcg_builder_reachable (\<lambda>_. ''op'') (pcg, 1)"
    "get_parallel_tensor_shape pcg (KwargDataflowOutput 0 Slot_OUTPUT) = Inr ?s"
    "get_parallel_layer_attrs pcg 0 = Inr \<lparr> pla_op_attrs = PCG_input (TensorShape [8, 16] FLOAT), pla_name = None \<rparr>" by blast
  have "wf_kwarg_graph pcg 1" using pcg_builder_reachable_good [OF pcg(1)] by (simp add: good_for_def)
  from pcg_layer_tasks_match_output [OF pcg(1) _ pcg(3) pcg_outgoing_output [OF this pcg(2)] pcg(2) deg] pcg(1)
  show ?thesis by (auto simp: INT_MAX_def)
qed

text \<open>
  Claim C13. The parallel graph of a computation graph that a builder made exists exactly when every tensor has
  at most as many dimensions as a parallel tensor may have. It has the same layers, edges and names, and every
  tensor has become a parallel tensor of the same shape that one device holds.
\<close>

theorem pcg_from_computation_graph_keeps_graph:
  assumes "builder_reachable op_name (cg, made)" and "made \<le> 2 ^ 64"
  shows "if \<forall>t s. cg_shape cg t = Inr s \<longrightarrow> length (ts_dims s) \<le> MAX_TENSOR_DIM
    then \<exists>pcg. pcg_from_computation_graph cg = Inr pcg \<and> pcg_get_parallel_layers pcg = cg_get_layers cg \<and>
      (\<forall>n. pcg_get_incoming_tensors pcg n = get_incoming_tensors cg n \<and>
           pcg_get_outgoing_tensors pcg n = get_outgoing_tensors cg n) \<and>
      (\<forall>n l. get_layer_attrs cg n = Inr l \<longrightarrow>
           get_parallel_layer_attrs pcg n = Inr
             \<lparr> pla_op_attrs = pcg_op_attrs_from_compgraph_op_attrs (la_op_attrs l), pla_name = la_name l \<rparr>) \<and>
      (\<forall>t s. cg_shape cg t = Inr s \<longrightarrow> (\<exists>p. get_parallel_tensor_shape pcg t = Inr p \<and>
           get_reduced_shape p = s \<and> get_total_parallel_degree p = Inr 1))
    else \<forall>pcg. pcg_from_computation_graph cg \<noteq> Inr pcg"
proof -
  let ?pcg = "\<lparr> okg_graph_inputs = Map.empty, okg_nodes = map_option parallel_layer_attrs_from_layer_attrs \<circ> okg_nodes cg,
    okg_edges = okg_edges cg, okg_outputs = map_option lifted_attrs \<circ> okg_outputs cg \<rparr> :: parallel_computation_graph"
  have wf: "wf_kwarg_graph cg made" using builder_reachable_good [OF assms(1)] assms(2) by (simp add: good_for_def)
  have dims: "(\<forall>t s. cg_shape cg t = Inr s \<longrightarrow> length (ts_dims s) \<le> MAX_TENSOR_DIM) \<longleftrightarrow>
      (\<forall>a \<in> ran (okg_outputs cg). length (ts_dims (ta_shape a)) \<le> MAX_TENSOR_DIM)"
    by (auto simp: cg_shape_eq ran_def)
  have fin: "finite (dom (okg_outputs cg))" "finite (dom (okg_outputs ?pcg))" using wf_kwarg_graphD(3) [OF wf] by simp_all
  note made = pcg_from_computation_graph_eq [OF wf]
  have "pcg_get_parallel_layers ?pcg = cg_get_layers cg"
    by (simp add: pcg_get_parallel_layers_def pcg_digraph_def cg_get_layers_def cg_digraph_def view_nodes_def [symmetric])
  moreover have "pcg_get_incoming_tensors ?pcg n = get_incoming_tensors cg n" for n
    by (simp add: pcg_get_incoming_tensors_def get_incoming_tensors_def get_incoming_kwarg_dataflow_outputs_for_node_def
      get_incoming_kwarg_dataflow_edges_for_node_def view_of_open_graph_def closed_query_edges_def [abs_def] open_query_edges_def)
  moreover have "pcg_get_outgoing_tensors ?pcg n = get_outgoing_tensors cg n" for n
    unfolding pcg_get_outgoing_tensors_def get_outgoing_tensors_def outgoing_outputs_eq [OF fin(1)] outgoing_outputs_eq [OF fin(2)]
    by (simp add: option.map_comp comp_def)
  moreover have "get_parallel_layer_attrs ?pcg n = Inr
      \<lparr> pla_op_attrs = pcg_op_attrs_from_compgraph_op_attrs (la_op_attrs l), pla_name = la_name l \<rparr>"
    if "get_layer_attrs cg n = Inr l" for n l
    using that by (simp add: parallel_layer_attrs_from_layer_attrs_def get_parallel_layer_attrs_def get_layer_attrs_def node_label_at_def)
  moreover have "\<exists>p. get_parallel_tensor_shape ?pcg t = Inr p \<and> get_reduced_shape p = s \<and> get_total_parallel_degree p = Inr 1"
    if "cg_shape cg t = Inr s" for t s
    using that lifted_attrs_parts by (auto simp: parallel_tensor_shape_eq cg_shape_eq)
  ultimately show ?thesis unfolding dims using made by auto
qed

theorem pcg_from_computation_graph_keeps_graph_witness:
  "\<exists>cg pcg p. builder_reachable (\<lambda>_. ''op'') (cg, 1) \<and> pcg_from_computation_graph cg = Inr pcg \<and>
     get_parallel_tensor_shape pcg (KwargDataflowOutput 0 Slot_OUTPUT) = Inr p \<and>
     get_reduced_shape p = TensorShape [8, 16] FLOAT"
proof -
  let ?s = "TensorShape [8, 16] FLOAT"
  obtain cg where run: "create_input ?s Create_grad_NO None (make_empty_computation_graph, 0) =
      Inr (KwargDataflowOutput 0 Slot_OUTPUT, cg, 1)"
    and shape: "cg_shape cg (KwargDataflowOutput 0 Slot_OUTPUT) = Inr ?s"
    using create_input_builds [OF good_empty [of 0], of ?s Create_grad_NO] by auto
  have "run_call (\<lambda>_. ''op'') (Call_create_input ?s Create_grad_NO None) (make_empty_computation_graph, 0) =
      Inr ([KwargDataflowOutput 0 Slot_OUTPUT], cg, 1)"
    using run by (simp add: one_result_def)
  from builder_reachable.call [OF builder_reachable.new this] have reach: "builder_reachable (\<lambda>_. ''op'') (cg, 1)" by simp
  have "\<forall>t s. cg_shape cg t = Inr s \<longrightarrow> length (ts_dims s) \<le> MAX_TENSOR_DIM"
    by (auto dest!: only_input_tensor [OF run] simp: MAX_TENSOR_DIM_def)
  with pcg_from_computation_graph_keeps_graph [OF reach] shape obtain pcg p where
    "pcg_from_computation_graph cg = Inr pcg" "get_reduced_shape p = ?s"
    "get_parallel_tensor_shape pcg (KwargDataflowOutput 0 Slot_OUTPUT) = Inr p" by force
  with reach show ?thesis by blast
qed

end
