(* ===== verification/Spec2Isabelle.thy ===== *)
theory Spec2Isabelle
  imports Op_Linear Op_Conv_Pool Op_Norm Op_Elementwise Op_Matmul_Embedding Op_Resharding Op_Layout Op_Attention
    Shape_Inference Search_Correctness Task_Simulator Digraph_Closure PCG_Builder
begin

text \<open>
  FlexFlow Train plans how to train a neural network on many devices. This library models the part of
  its C++ code that decides, under \<open>src/lib\<close>: which tensors an operator takes and returns and how they may
  be divided (\<open>op-attrs\<close>), where the tasks of an operator may run (\<open>compiler/machine_mapping\<close>), which
  placement is the cheapest (the mapping search), how long a plan takes (the task graph simulator), how
  the graph of a network is built (\<open>pcg\<close>), and the graphs beneath (\<open>utils/graph\<close>).

  \<^bold>\<open>How the parts interact.\<close> A builder makes the computation graph of a network, a labelled dataflow graph
  whose nodes are layers; every layer it adds is checked by shape inference. An operator's attributes and
  the shapes of its inputs give the shapes of its outputs and weights. A second builder makes the graphs whose
  tensors are divided over devices, with parallel operators between the layers. The degrees of the output give the operator a task space, a box of task
  coordinates. A machine view places the tasks on the devices of a slice of the machine. The search walks
  a tree of series and parallel splits whose leaves are operators, tries the allowed views of each leaf,
  charges the tensors that cross a series split, divides the machine at a parallel split, and remembers
  what it has computed. The simulator runs a graph of such operators and movements on the devices.

  \<^bold>\<open>Conventions.\<close>
  \<^item> A struct of several fields is a \<open>record\<close> and one of a single field is that field; an enum or variant is
    a \<open>datatype\<close>. A \<open>std::map\<close> is a map \<open>'k \<rightharpoonup> 'v\<close>, iterated in the order of its keys (\<open>map_entries\<close>); a
    \<open>std::set\<close> is a set, iterated by \<open>sorted_list_of_set\<close>.
  \<^item> A function that may stop returns \<open>'a res\<close>, which is \<open>Inl\<close> a fault or \<open>Inr\<close> a value. The faults name how the
    code stops: a failed \<open>ASSERT\<close>, \<open>.at()\<close> out of range, \<open>PANIC\<close>, a thrown runtime error, \<open>NOT_IMPLEMENTED\<close>,
    \<open>.value()\<close> of an empty optional, the wrong alternative of a variant, an overflow of \<open>int\<close>, and
    \<open>Unexpected r\<close> for the error of a \<open>tl::expected\<close>.
  \<^item> A C++ \<open>int\<close> is an \<open>int\<close> whose every result passes \<open>cint\<close>, which faults beyond \<open>INT_MAX\<close>; so a theorem
    that a computation succeeds includes that it does not overflow. \<open>size_t\<close> wraps around.
  \<^item> Code whose loop may go on forever is a \<open>partial_function (option)\<close> with result \<open>'a run\<close>; \<open>None\<close> is the
    run that does not return. No definition takes fuel but \<open>drain\<close>, whose fuel is the length of the list it
    empties. The theorems on these functions say that they return.
  \<^item> \<open>MAX_TENSOR_DIM\<close> is 5, the default of the build option. \<open>float\<close> does not occur but in the bounds of
    initializers, which are kept as expressions, and in costs and times, which are elements of an ordered
    type with addition.

  \<^bold>\<open>Theories.\<close>
  \<^item> \<open>FF_Prelude\<close>: faults, \<open>res\<close>, its bind and the rules for them. \<open>FF_Ints\<close>: \<open>nonnegative_int\<close>,
    \<open>positive_int\<close>, \<open>int_ge_two\<close>. \<open>FF_Containers\<close>: \<open>utils/containers\<close> and \<open>ff_ordered\<close>. \<open>FF_Bidict\<close>:
    \<open>utils/bidict\<close>, with the invariant that its two maps are inverse.
  \<^item> \<open>Tensor_Shapes\<close>, \<open>Parallel_Shapes\<close>, \<open>Dim_Permutations\<close>: dimensions, shapes, degrees, coordinates and
    permutations of \<open>op-attrs\<close>; conversions lose nothing and compose.
  \<^item> \<open>Attr_Values\<close>, \<open>Op_Attrs\<close>: the attributes of all operators. \<open>Parallel_Inference\<close>: the locale every
    operator's parallel inference instantiates. \<open>Op_Linear\<close>, \<open>Op_Conv_Pool\<close>, \<open>Op_Norm\<close>, \<open>Op_Elementwise\<close>,
    \<open>Op_Matmul_Embedding\<close>, \<open>Op_Resharding\<close>, \<open>Op_Layout\<close>, \<open>Op_Attention\<close>: the files of \<open>op-attrs/ops\<close>; their
    lemmas say when inference succeeds, that it conserves degrees, and that it refines the inference on
    shapes that are not parallel. \<open>Shape_Inference\<close>: the dispatchers over all operators.
  \<^item> \<open>Orthotopes\<close>, \<open>Task_Spaces\<close>: boxes, and the tasks of an operator. \<open>Machine_Space\<close>, \<open>Machine_Views\<close>:
    the devices, their slices and splits, and the placement of tasks; placements are injective and the
    enumeration of views is complete.
  \<^item> \<open>Machine_Orders\<close>, \<open>Binary_Tree_Paths\<close>, \<open>Tensor_Movement\<close>, \<open>Mapping_Results\<close>, \<open>Mapping_Search\<close>: the order
    of the machine types, constraints on the leaves of a tree, the problem tree and what moves over its
    series splits, results and cache, and the memoised search. \<open>Search_Correctness\<close>: the abstract
    specification, the set of plans of a tree with their costs, and the refinement. It assumes of the context
    only that adding costs is monotone and that allowed views can be computed on the slice that is searched
    and its parts; \<open>Search_Context\<close> shows that the context of \<open>graph_optimize\<close> (\<open>unity_algorithm.cc\<close>) can wherever
    no grid of devices exceeds an \<open>int\<close>.
  \<^item> \<open>Digraphs\<close>, \<open>Digraph_Traversal\<close>, \<open>Digraph_Closure\<close>: queries and views of graphs with the locale
    \<open>digraph_instance\<close> for their implementations; cycles, orderings, breadth-first search and longest paths;
    transitive closure and reduction. The abstract graph is the relation \<open>edge_rel\<close>.
  \<^item> \<open>Dataflow_Graphs\<close>: dataflow graphs with named slots and labels, with the locale \<open>dataflow_store\<close> for
    what adding a node promises. \<open>Computation_Graphs\<close>: layers, tensors and queries of a computation graph.
    \<open>Graph_Builder\<close>: what builders share, methods that pass on a graph and keep it closed and typed.
    \<open>CG_Builder\<close>: the methods of \<open>ComputationGraphBuilder\<close>; what it makes is well typed and can be ordered.
  \<^item> \<open>Parallel_Graphs\<close>: layers, tensors and queries of a parallel computation graph, the task space of a layer,
    and the parallel graph of a computation graph. \<open>PCG_Builder\<close>: the methods of
    \<open>ParallelComputationGraphBuilder\<close> and the parallel operators that divide a weight; what it makes is well
    typed, and weights get the shapes that were asked for.
  \<^item> \<open>PCG_Task_Graph\<close>: the task graph of a parallel computation graph under a machine mapping, one task for
    every layer and every edge. \<open>Task_Simulator\<close>: the event queue (locale \<open>event_queue\<close>), the simulation and the
    estimate; the trace keeps tasks with a device in common apart.

  \<^bold>\<open>Parameters.\<close> The estimated costs come from measurements and are functions that the definitions take as
  arguments. The simulator assumes of them what the code does: that they are not below zero. Which tasks of the
  two ends of an edge exchange parts of a tensor follows from the mappings from tasks to shards, so the
  movement of \<open>PCG_Task_Graph\<close> takes it as an argument. The formatter the build generates for operator types, which
  gives a layer its name, is the parameter \<open>op_name\<close>. The counter of nodes is static, so it is part of the
  state that building a graph passes on, and other graphs may have moved it.

  \<^bold>\<open>Not modelled.\<close> Kernels, device backends, execution and runtimes call CUDA and Realm and compute with
  floating point. Bindings, models and command line tools are glue. Rendering, hashing, serialisation and
  streams are left out everywhere. Of the code that decides, what is left is the decomposition of
  graphs into series and parallel, dominators, isomorphisms, the mappings from tasks to shards with the graphs
  that carry them, and the substitutions with the search over them.
\<close>

end
